(* ===== verification/Prelude.thy ===== *)
theory Prelude
  imports Main
begin

section \<open>Shared vocabulary of the development\<close>

text \<open>
  The collections of rewrite rules the component theories extend, the result types that
  stand for Rust's \<open>Result\<close> and for panics, and the generic lemmas on lists and options
  that several components share.
\<close>

named_theorems str_simps "string operations of the Rust standard library"
named_theorems sel_simps "evaluation of selection nodes"
named_theorems tok_simps "tokenisers and parsers"
named_theorems agg_simps "aggregation windows"

subsection \<open>Results\<close>

text \<open>
  \<open>Result<T, String>\<close> is \<open>string + 'a\<close> and \<open>Result<T, Vec<String>>\<close> is
  \<open>string list + 'a\<close>, the error on the left. A call that can panic returns an
  \<open>outcome\<close>, whose third value is the panic.
\<close>

type_synonym 'a result = "string + 'a"
type_synonym 'a results = "string list + 'a"

datatype ('e, 'a) outcome = Ok 'a | Err 'e | Panic

fun bind_result :: "'e + 'a \<Rightarrow> ('a \<Rightarrow> 'e + 'b) \<Rightarrow> 'e + 'b" where
  "bind_result (Inl e) f = Inl e"
| "bind_result (Inr a) f = f a"

lemma bind_result_Inr_iff:
  "bind_result r f = Inr b \<longleftrightarrow> (\<exists>a. r = Inr a \<and> f a = Inr b)"
  by (cases r) auto

lemma bind_result_cong [fundef_cong]:
  "r = r' \<Longrightarrow> (\<And>a. r' = Inr a \<Longrightarrow> f a = g a) \<Longrightarrow> bind_result r f = bind_result r' g"
  by (cases r') auto

text \<open>Rust's \<open>?\<close> inside a \<open>for\<close> loop that pushes each result: the first error wins.\<close>

fun map_result :: "('a \<Rightarrow> 'e + 'b) \<Rightarrow> 'a list \<Rightarrow> 'e + 'b list" where
  "map_result f [] = Inr []"
| "map_result f (x # xs) =
     bind_result (f x) (\<lambda>y. bind_result (map_result f xs) (\<lambda>ys. Inr (y # ys)))"

lemma map_result_cong [fundef_cong]:
  "xs = ys \<Longrightarrow> (\<And>x. x \<in> set ys \<Longrightarrow> f x = g x) \<Longrightarrow> map_result f xs = map_result g ys"
  by (induction xs arbitrary: ys) (auto intro!: bind_result_cong)

lemma map_result_Inr_iff:
  "map_result f xs = Inr ys \<longleftrightarrow> list_all2 (\<lambda>x y. f x = Inr y) xs ys"
  by (induction xs arbitrary: ys) (auto simp: bind_result_Inr_iff list_all2_Cons1)

lemma map_result_all_Inr:
  "(\<And>x. x \<in> set xs \<Longrightarrow> f x = Inr (g x)) \<Longrightarrow> map_result f xs = Inr (map g xs)"
  by (induction xs) auto

subsection \<open>Lists\<close>

fun option_list :: "'a option list \<Rightarrow> 'a list" where
  "option_list [] = []"
| "option_list (None # xs) = option_list xs"
| "option_list (Some x # xs) = x # option_list xs"

lemma set_option_list [simp]: "set (option_list xs) = {x. Some x \<in> set xs}"
  by (induction xs rule: option_list.induct) auto

lemma filter_all_True: "(\<And>x. x \<in> set xs \<Longrightarrow> P x) \<Longrightarrow> filter P xs = xs"
  by (induction xs) auto

lemma length_dropWhile_less_Suc [simp]: "length (dropWhile P xs) < Suc (length xs)"
  using length_dropWhile_le[of P xs] by linarith

text \<open>An association list, the iteration order of an ordered map of the source.\<close>

fun assoc_insert :: "'k \<Rightarrow> 'v \<Rightarrow> ('k \<times> 'v) list \<Rightarrow> ('k \<times> 'v) list" where
  "assoc_insert k v [] = [(k, v)]"
| "assoc_insert k v ((k', v') # xs) =
     (if k = k' then (k, v) # xs else (k', v') # assoc_insert k v xs)"

lemma map_of_assoc_insert [simp]:
  "map_of (assoc_insert k v xs) = (map_of xs)(k \<mapsto> v)"
  by (induction k v xs rule: assoc_insert.induct) (auto simp: fun_eq_iff)

lemma keys_assoc_insert [simp]:
  "fst ` set (assoc_insert k v xs) = insert k (fst ` set xs)"
  by (induction k v xs rule: assoc_insert.induct) auto

lemma distinct_assoc_insert:
  "distinct (map fst xs) \<Longrightarrow> distinct (map fst (assoc_insert k v xs))"
proof (induction k v xs rule: assoc_insert.induct)
  case (2 k v k' v' xs)
  have "set (map fst (assoc_insert k v xs)) = insert k (set (map fst xs))"
    by (simp add: keys_assoc_insert)
  with 2 show ?case by auto
qed simp

subsection \<open>Iterators whose closure can panic\<close>

text \<open>
  \<open>Iterator::all\<close> and \<open>Iterator::any\<close> stop at the first deciding element; \<open>None\<close> is the
  panic of the closure, which is reached only on the elements before that.
\<close>

fun all_opt :: "('a \<Rightarrow> bool option) \<Rightarrow> 'a list \<Rightarrow> bool option" where
  "all_opt f [] = Some True"
| "all_opt f (x # xs) =
     (case f x of None \<Rightarrow> None | Some False \<Rightarrow> Some False | Some True \<Rightarrow> all_opt f xs)"

fun any_opt :: "('a \<Rightarrow> bool option) \<Rightarrow> 'a list \<Rightarrow> bool option" where
  "any_opt f [] = Some False"
| "any_opt f (x # xs) =
     (case f x of None \<Rightarrow> None | Some True \<Rightarrow> Some True | Some False \<Rightarrow> any_opt f xs)"

lemma all_opt_cong [fundef_cong]:
  "xs = ys \<Longrightarrow> (\<And>x. x \<in> set ys \<Longrightarrow> f x = g x) \<Longrightarrow> all_opt f xs = all_opt g ys"
  by (induction xs arbitrary: ys) (auto split: option.split bool.split)

lemma any_opt_cong [fundef_cong]:
  "xs = ys \<Longrightarrow> (\<And>x. x \<in> set ys \<Longrightarrow> f x = g x) \<Longrightarrow> any_opt f xs = any_opt g ys"
  by (induction xs arbitrary: ys) (auto split: option.split bool.split)

lemma all_opt_total:
  "(\<And>x. x \<in> set xs \<Longrightarrow> f x = Some (P x)) \<Longrightarrow> all_opt f xs = Some (list_all P xs)"
  by (induction xs) (auto split: bool.split)

lemma any_opt_total:
  "(\<And>x. x \<in> set xs \<Longrightarrow> f x = Some (P x)) \<Longrightarrow> any_opt f xs = Some (list_ex P xs)"
  by (induction xs) (auto split: bool.split)

lemma all_opt_not_None: "(\<And>x. x \<in> set xs \<Longrightarrow> f x \<noteq> None) \<Longrightarrow> all_opt f xs \<noteq> None"
  by (induction xs) (auto split: option.split bool.split)

lemma any_opt_not_None: "(\<And>x. x \<in> set xs \<Longrightarrow> f x \<noteq> None) \<Longrightarrow> any_opt f xs \<noteq> None"
  by (induction xs) (auto split: option.split bool.split)

text \<open>Initialising every child and collecting the errors of all: one panic panics.\<close>

fun collect_outcomes :: "('a \<Rightarrow> ('e list, 'b) outcome) \<Rightarrow> 'a list \<Rightarrow> ('e list, 'b list) outcome" where
  "collect_outcomes f [] = Ok []"
| "collect_outcomes f (x # xs) =
     (case f x of
        Panic \<Rightarrow> Panic
      | Ok y \<Rightarrow>
          (case collect_outcomes f xs of
             Panic \<Rightarrow> Panic | Ok ys \<Rightarrow> Ok (y # ys) | Err e \<Rightarrow> Err e)
      | Err e \<Rightarrow>
          (case collect_outcomes f xs of
             Panic \<Rightarrow> Panic | Ok ys \<Rightarrow> Err e | Err e' \<Rightarrow> Err (e @ e')))"

lemma collect_outcomes_cong [fundef_cong]:
  "xs = ys \<Longrightarrow> (\<And>x. x \<in> set ys \<Longrightarrow> f x = g x) \<Longrightarrow> collect_outcomes f xs = collect_outcomes g ys"
  by (induction xs arbitrary: ys) (auto split: outcome.split)

lemma collect_outcomes_Ok:
  "collect_outcomes f xs = Ok ys \<longleftrightarrow> list_all2 (\<lambda>x y. f x = Ok y) xs ys"
proof (induction xs arbitrary: ys)
  case (Cons x xs)
  show ?case
    by (auto simp: list_all2_Cons1 Cons.IH [symmetric] split: outcome.splits)
qed auto

lemma list_all2_member: "list_all2 P xs ys \<Longrightarrow> y \<in> set ys \<Longrightarrow> \<exists>x \<in> set xs. P x y"
  by (induction rule: list_all2_induct) auto

lemma collect_outcomes_member:
  "collect_outcomes f xs = Ok ys \<Longrightarrow> y \<in> set ys \<Longrightarrow> \<exists>x \<in> set xs. f x = Ok y"
  unfolding collect_outcomes_Ok by (rule list_all2_member)

lemma map_result_member:
  "map_result f xs = Inr ys \<Longrightarrow> y \<in> set ys \<Longrightarrow> \<exists>x \<in> set xs. f x = Inr y"
  unfolding map_result_Inr_iff by (rule list_all2_member)

end
