(* ===== verification/Rust_Str.thy ===== *)
theory Rust_Str
  imports Prelude
begin

section \<open>Strings of the Rust standard library\<close>

text \<open>
  A Rust \<open>str\<close> is its UTF-8 byte sequence, a \<open>char list\<close> of 8-bit characters:
  \<open>len\<close>, slices, \<open>starts_with\<close>, \<open>contains\<close>, \<open>replace\<close> and \<open>is_ascii\<close> act on
  bytes, and \<open>utf8_chars\<close> groups the bytes into Rust \<open>char\<close>s for the code that
  iterates over characters.
\<close>

subsection \<open>Bytes and characters\<close>

definition byte :: "char \<Rightarrow> nat" where
  "byte c = of_char c"

definition is_cont :: "char \<Rightarrow> bool" where
  "is_cont c \<longleftrightarrow> 128 \<le> byte c \<and> byte c < 192"

fun utf8_chars :: "string \<Rightarrow> string list" where
  "utf8_chars [] = []"
| "utf8_chars (c # cs) = (c # takeWhile is_cont cs) # utf8_chars (dropWhile is_cont cs)"

definition is_ascii :: "string \<Rightarrow> bool" where
  "is_ascii s \<longleftrightarrow> (\<forall>c \<in> set s. byte c < 128)"

lemma is_ascii_code [code]: "is_ascii s = list_all (\<lambda>c. byte c < 128) s"
  by (simp add: is_ascii_def list_all_iff)

lemma is_ascii_simps [simp, str_simps]:
  "is_ascii []"
  "is_ascii (c # s) \<longleftrightarrow> byte c < 128 \<and> is_ascii s"
  "is_ascii (s @ t) \<longleftrightarrow> is_ascii s \<and> is_ascii t"
  by (auto simp: is_ascii_def)

lemma concat_utf8_chars [simp]: "concat (utf8_chars s) = s"
  by (induction s rule: utf8_chars.induct) simp_all

lemma utf8_chars_ascii: "is_ascii s \<Longrightarrow> utf8_chars s = map (\<lambda>c. [c]) s"
proof (induction s rule: length_induct)
  case (1 s)
  show ?case
  proof (cases s)
    case (Cons c cs)
    have "takeWhile is_cont cs = []" and "dropWhile is_cont cs = cs"
      using 1(2) Cons by (cases cs; simp add: is_cont_def)+
    with 1 Cons show ?thesis by simp
  qed simp
qed

lemma utf8_chars_nonempty: "g \<in> set (utf8_chars s) \<Longrightarrow> g \<noteq> []"
  by (induction s rule: utf8_chars.induct) auto

lemma length_utf8_chars_le: "length (utf8_chars s) \<le> length s"
proof (induction s rule: utf8_chars.induct)
  case (2 c cs)
  have "length (dropWhile is_cont cs) \<le> length cs" by (rule length_dropWhile_le)
  with 2 show ?case by simp
qed simp

text \<open>\<open>u8::to_ascii_lowercase\<close> and the case-insensitive comparison built on it.\<close>

definition ascii_lower_char :: "char \<Rightarrow> char" where
  "ascii_lower_char c = (if 65 \<le> byte c \<and> byte c \<le> 90 then char_of (byte c + 32) else c)"

definition to_ascii_lowercase :: "string \<Rightarrow> string" where
  "to_ascii_lowercase s = map ascii_lower_char s"

definition eq_ignore_ascii_case :: "string \<Rightarrow> string \<Rightarrow> bool" where
  "eq_ignore_ascii_case s t \<longleftrightarrow> to_ascii_lowercase s = to_ascii_lowercase t"

lemma byte_less_256 [simp]: "byte c < 256"
  by (simp add: byte_def)

lemma byte_char_of [simp]: "n < 256 \<Longrightarrow> byte (char_of n) = n"
  by (simp add: byte_def)

lemma byte_inject: "byte c = byte d \<longleftrightarrow> c = d"
  by (auto simp: byte_def of_char_eq_iff)

lemma byte_ascii_lower_char:
  "byte (ascii_lower_char c) = (if 65 \<le> byte c \<and> byte c \<le> 90 then byte c + 32 else byte c)"
  by (auto simp: ascii_lower_char_def)

lemma ascii_lower_char_idem [simp]: "ascii_lower_char (ascii_lower_char c) = ascii_lower_char c"
  by (rule byte_inject [THEN iffD1]) (simp add: byte_ascii_lower_char)

lemma to_ascii_lowercase_idem [simp]:
  "to_ascii_lowercase (to_ascii_lowercase s) = to_ascii_lowercase s"
  by (simp add: to_ascii_lowercase_def)

lemma length_to_ascii_lowercase [simp]: "length (to_ascii_lowercase s) = length s"
  by (simp add: to_ascii_lowercase_def)

lemma is_ascii_lowercase [simp]: "is_ascii (to_ascii_lowercase s) = is_ascii s"
  by (auto simp: is_ascii_def to_ascii_lowercase_def byte_ascii_lower_char split: if_splits)

lemma to_ascii_lowercase_simps [str_simps]:
  "to_ascii_lowercase [] = []"
  "to_ascii_lowercase (c # s) = ascii_lower_char c # to_ascii_lowercase s"
  "to_ascii_lowercase (s @ t) = to_ascii_lowercase s @ to_ascii_lowercase t"
  by (simp_all add: to_ascii_lowercase_def)

subsection \<open>Searching\<close>

definition starts_with :: "string \<Rightarrow> string \<Rightarrow> bool" where
  "starts_with s p \<longleftrightarrow> take (length p) s = p"

definition ends_with :: "string \<Rightarrow> string \<Rightarrow> bool" where
  "ends_with s p \<longleftrightarrow> length p \<le> length s \<and> drop (length s - length p) s = p"

fun contains_str :: "string \<Rightarrow> string \<Rightarrow> bool" where
  "contains_str [] p = (p = [])"
| "contains_str (c # cs) p = (starts_with (c # cs) p \<or> contains_str cs p)"

lemma starts_with_iff: "starts_with s p \<longleftrightarrow> (\<exists>t. s = p @ t)"
  by (auto simp: starts_with_def) (metis append_take_drop_id)

lemma ends_with_iff: "ends_with s p \<longleftrightarrow> (\<exists>t. s = t @ p)"
  by (auto simp: ends_with_def) (metis append_take_drop_id)

lemma contains_str_iff: "contains_str s p \<longleftrightarrow> (\<exists>t u. s = t @ p @ u)"
proof (induction s)
  case (Cons c cs)
  have "(\<exists>t u. c # cs = t @ p @ u) \<longleftrightarrow> (\<exists>u. c # cs = p @ u) \<or> (\<exists>t u. cs = t @ p @ u)"
    by (metis append_Cons append_eq_Cons_conv)
  with Cons show ?case by (auto simp: starts_with_iff)
qed simp

lemma starts_with_simps [simp, str_simps]:
  "starts_with s []"
  "starts_with [] p \<longleftrightarrow> p = []"
  "starts_with (c # s) (d # p) \<longleftrightarrow> c = d \<and> starts_with s p"
  by (auto simp: starts_with_def)

lemma contains_str_single: "contains_str s [c] \<longleftrightarrow> c \<in> set s"
  by (induction s) auto

lemma contains_str_Nil [simp]: "contains_str s []"
  by (cases s) simp_all

lemma contains_str_refl [simp]: "contains_str s s"
  by (cases s) (simp_all add: starts_with_def)

text \<open>\<open>str::find\<close> of a character: the byte index of its first occurrence.\<close>

fun find_char :: "char \<Rightarrow> string \<Rightarrow> nat option" where
  "find_char c [] = None"
| "find_char c (d # s) = (if d = c then Some 0 else map_option Suc (find_char c s))"

subsection \<open>Splitting, joining, replacing, trimming\<close>

fun split_char :: "char \<Rightarrow> string \<Rightarrow> string list" where
  "split_char c [] = [[]]"
| "split_char c (d # s) =
     (if d = c then [] # split_char c s
      else (case split_char c s of [] \<Rightarrow> [[d]] | w # ws \<Rightarrow> (d # w) # ws))"

fun join :: "string \<Rightarrow> string list \<Rightarrow> string" where
  "join sep [] = []"
| "join sep [w] = w"
| "join sep (w # v # ws) = w @ sep @ join sep (v # ws)"

lemma split_char_not_Nil [simp]: "split_char c s \<noteq> []"
  by (induction s) (auto split: list.splits)

lemma join_Cons: "ws \<noteq> [] \<Longrightarrow> join sep (w # ws) = w @ sep @ join sep ws"
  by (cases ws) simp_all

lemma join_split_char: "join [c] (split_char c s) = s"
proof (induction s)
  case (Cons d s)
  show ?case
  proof (cases "d = c")
    case True
    with Cons show ?thesis by (simp add: join_Cons)
  next
    case False
    obtain w ws where w: "split_char c s = w # ws"
      using split_char_not_Nil [of c s] by (cases "split_char c s") auto
    with Cons False show ?thesis by (cases ws) auto
  qed
qed simp

lemma split_char_no_sep: "w \<in> set (split_char c s) \<Longrightarrow> c \<notin> set w"
  by (induction s arbitrary: w) (fastforce split: if_splits list.splits)+

lemma split_char_id: "c \<notin> set s \<Longrightarrow> split_char c s = [s]"
  by (induction s) auto

lemma split_char_append:
  "c \<notin> set u \<Longrightarrow> split_char c (u @ c # v) = u # split_char c v"
  by (induction u) auto

lemma split_char_join:
  "ws \<noteq> [] \<Longrightarrow> \<forall>w \<in> set ws. c \<notin> set w \<Longrightarrow> split_char c (join [c] ws) = ws"
proof (induction ws)
  case (Cons w ws)
  then show ?case
    by (cases ws) (simp_all add: split_char_id split_char_append)
qed simp

text \<open>
  \<open>str::replace\<close>: every non-overlapping occurrence from the left; an empty pattern
  matches at each character boundary. \<open>replacen_1\<close> is \<open>replacen(.., 1)\<close>.
\<close>

fun replace_all :: "string \<Rightarrow> string \<Rightarrow> string \<Rightarrow> string" where
  "replace_all p r [] = (if p = [] then r else [])"
| "replace_all p r (c # cs) =
     (if p = [] then r @ concat (map (\<lambda>g. g @ r) (utf8_chars (c # cs)))
      else if starts_with (c # cs) p then r @ replace_all p r (drop (length p - 1) cs)
      else c # replace_all p r cs)"

fun replacen_1 :: "string \<Rightarrow> string \<Rightarrow> string \<Rightarrow> string" where
  "replacen_1 p r [] = (if p = [] then r else [])"
| "replacen_1 p r (c # cs) =
     (if starts_with (c # cs) p then r @ drop (length p) (c # cs) else c # replacen_1 p r cs)"

lemma replace_all_id: "p \<noteq> [] \<Longrightarrow> \<not> contains_str s p \<Longrightarrow> replace_all p r s = s"
  by (induction p r s rule: replace_all.induct) auto

lemma replace_all_char:
  "replace_all [c] r s = concat (map (\<lambda>d. if d = c then r else [d]) s)"
  by (induction s) auto

lemma replace_all_filter: "replace_all [c] [] s = filter (\<lambda>d. d \<noteq> c) s"
  by (induction s) auto

lemma filter_neq_id: "c \<notin> set s \<Longrightarrow> filter (\<lambda>d. d \<noteq> c) s = s"
  by (induction s) auto

text \<open>Splitting on a non-empty string separator.\<close>

fun split_str :: "string \<Rightarrow> string \<Rightarrow> string \<Rightarrow> string list" where
  "split_str sep acc [] = [rev acc]"
| "split_str sep acc (c # cs) =
     (if starts_with (c # cs) sep then rev acc # split_str sep [] (drop (length sep - 1) cs)
      else split_str sep (c # acc) cs)"

text \<open>Whitespace in the sense of \<open>char::is_whitespace\<close> (Unicode \<open>White_Space\<close>), on one UTF-8 character.\<close>

definition is_whitespace :: "string \<Rightarrow> bool" where
  "is_whitespace g \<longleftrightarrow>
     (case map byte g of
        [a] \<Rightarrow> a = 32 \<or> (9 \<le> a \<and> a \<le> 13)
      | [a, b] \<Rightarrow> a = 194 \<and> (b = 133 \<or> b = 160)
      | [a, b, c] \<Rightarrow>
          (a = 225 \<and> b = 154 \<and> c = 128) \<or>
          (a = 226 \<and> b = 128 \<and> ((128 \<le> c \<and> c \<le> 138) \<or> c = 168 \<or> c = 169 \<or> c = 175)) \<or>
          (a = 226 \<and> b = 129 \<and> c = 159) \<or>
          (a = 227 \<and> b = 128 \<and> c = 128)
      | _ \<Rightarrow> False)"

definition trim :: "string \<Rightarrow> string" where
  "trim s = concat (rev (dropWhile is_whitespace (rev (dropWhile is_whitespace (utf8_chars s)))))"

definition trim_matches :: "char \<Rightarrow> string \<Rightarrow> string" where
  "trim_matches c s = rev (dropWhile (\<lambda>d. d = c) (rev (dropWhile (\<lambda>d. d = c) s)))"

lemma trim_Nil [simp]: "trim [] = []"
  by (simp add: trim_def)

text \<open>\<open>str::lines\<close>: split at line feeds, drop a trailing carriage return and a last empty line.\<close>

definition strip_cr :: "string \<Rightarrow> string" where
  "strip_cr s = (if ends_with s [CHR 0x0D] then butlast s else s)"

definition lines :: "string \<Rightarrow> string list" where
  "lines s =
     (let ws = split_char (CHR 0x0A) s
      in map strip_cr (if last ws = [] then butlast ws else ws))"

subsection \<open>Numbers\<close>

definition is_digit :: "char \<Rightarrow> bool" where
  "is_digit c \<longleftrightarrow> 48 \<le> byte c \<and> byte c \<le> 57"

fun digits_val :: "nat \<Rightarrow> string \<Rightarrow> nat" where
  "digits_val n [] = n"
| "digits_val n (c # cs) = digits_val (10 * n + (byte c - 48)) cs"

text \<open>\<open>str::parse\<close> to a decimal number: digits only, at least one, an optional sign before them.\<close>

definition parse_digits :: "string \<Rightarrow> nat option" where
  "parse_digits s = (if s \<noteq> [] \<and> list_all is_digit s then Some (digits_val 0 s) else None)"

definition parse_usize :: "string \<Rightarrow> nat option" where
  "parse_usize s =
     (case parse_digits (if starts_with s ''+'' then tl s else s) of
        Some n \<Rightarrow> if n < 2 ^ 64 then Some n else None
      | None \<Rightarrow> None)"

definition parse_i64 :: "string \<Rightarrow> int option" where
  "parse_i64 s =
     (if starts_with s ''-''
      then (case parse_digits (tl s) of
              Some n \<Rightarrow> if n \<le> 2 ^ 63 then Some (- int n) else None
            | None \<Rightarrow> None)
      else (case parse_digits (if starts_with s ''+'' then tl s else s) of
              Some n \<Rightarrow> if n < 2 ^ 63 then Some (int n) else None
            | None \<Rightarrow> None))"

fun show_nat :: "nat \<Rightarrow> string" where
  "show_nat n = (if n < 10 then [char_of (48 + n)] else show_nat (n div 10) @ [char_of (48 + n mod 10)])"

declare show_nat.simps [simp del]

definition show_int :: "int \<Rightarrow> string" where
  "show_int i = (if i < 0 then CHR ''-'' # show_nat (nat (- i)) else show_nat (nat i))"

definition show_bool :: "bool \<Rightarrow> string" where
  "show_bool b = (if b then ''true'' else ''false'')"

lemma is_digit_char_of [simp]: "n < 10 \<Longrightarrow> is_digit (char_of (48 + n :: nat))"
  by (simp add: is_digit_def)

lemma show_nat_digits: "list_all is_digit (show_nat n) \<and> show_nat n \<noteq> []"
proof (induction n rule: show_nat.induct)
  case (1 n)
  then show ?case by (cases "n < 10") (simp_all add: show_nat.simps [of n])
qed

lemma digits_val_snoc: "digits_val a (s @ [c]) = 10 * digits_val a s + (byte c - 48)"
  by (induction s arbitrary: a) auto

lemma digits_val_show_nat: "digits_val 0 (show_nat n) = n"
proof (induction n rule: show_nat.induct)
  case (1 n)
  then show ?case
    by (cases "n < 10") (simp_all add: show_nat.simps [of n] digits_val_snoc)
qed

lemma parse_digits_show_nat [simp]: "parse_digits (show_nat n) = Some n"
  using show_nat_digits [of n] by (simp add: parse_digits_def digits_val_show_nat)

lemma show_nat_no_sign: "\<not> starts_with (show_nat n) ''+''" "\<not> starts_with (show_nat n) ''-''"
  using show_nat_digits [of n] by (cases "show_nat n"; auto simp: is_digit_def byte_def)+

lemma parse_usize_show_nat: "n < 2 ^ 64 \<Longrightarrow> parse_usize (show_nat n) = Some n"
  by (simp add: parse_usize_def show_nat_no_sign)

lemma parse_i64_show_int:
  assumes "- (2 ^ 63) \<le> i" and "i < 2 ^ 63"
  shows "parse_i64 (show_int i) = Some i"
proof (cases "i < 0")
  case True
  with assms have "nat (- i) \<le> 2 ^ 63" by simp
  with True show ?thesis by (simp add: parse_i64_def show_int_def starts_with_def)
next
  case False
  with assms have "nat i < 2 ^ 63" by simp
  with False show ?thesis by (simp add: parse_i64_def show_int_def show_nat_no_sign)
qed

lemma parse_i64_range: "parse_i64 s = Some i \<Longrightarrow> - (2 ^ 63) \<le> i \<and> i < 2 ^ 63"
  by (auto simp: parse_i64_def split: if_splits option.splits)

end
