(* ===== verification/Values.thy ===== *)
theory Values
  imports Rust_Str
begin

section \<open>Values the program receives, and the parameters of the model\<close>

subsection \<open>JSON values and YAML documents\<close>

text \<open>
  \<open>serde_json::Value\<close> as the program sees it. The crate is built with
  \<open>preserve_order\<close> (its \<open>Cargo.lock\<close> entry depends on \<open>indexmap\<close>), so an object is an
  association list in insertion order. A number is an integer or the text of a float.
\<close>

datatype jnum = JInt int | JFloat string

datatype json =
    JNull
  | JBool bool
  | JNumber jnum
  | JString string
  | JArray "json list"
  | JObject "(string \<times> json) list"

fun show_jnum :: "jnum \<Rightarrow> string" where
  "show_jnum (JInt i) = show_int i"
| "show_jnum (JFloat t) = t"

fun is_object :: "json \<Rightarrow> bool" where
  "is_object (JObject _) = True"
| "is_object _ = False"

fun json_as_str :: "json \<Rightarrow> string option" where
  "json_as_str (JString s) = Some s"
| "json_as_str _ = None"

fun json_as_i64 :: "json \<Rightarrow> int option" where
  "json_as_i64 (JNumber (JInt i)) = (if - (2 ^ 63) \<le> i \<and> i < 2 ^ 63 then Some i else None)"
| "json_as_i64 _ = None"

text \<open>\<open>value[key]\<close> and \<open>value.get(key)\<close> on a string key.\<close>

fun json_get :: "string \<Rightarrow> json \<Rightarrow> json option" where
  "json_get k (JObject kvs) = map_of kvs k"
| "json_get k _ = None"

definition json_index :: "json \<Rightarrow> string \<Rightarrow> json" where
  "json_index v k = (case json_get k v of Some w \<Rightarrow> w | None \<Rightarrow> JNull)"

text \<open>
  \<open>yaml_rust2::Yaml\<close>. A hash keeps its insertion order; a real keeps its text.
\<close>

datatype yaml =
    YReal string
  | YInteger int
  | YString string
  | YBoolean bool
  | YArray "yaml list"
  | YHash "(yaml \<times> yaml) list"
  | YAlias nat
  | YNull
  | YBadValue

fun as_str :: "yaml \<Rightarrow> string option" where
  "as_str (YString s) = Some s"
| "as_str _ = None"

fun as_i64 :: "yaml \<Rightarrow> int option" where
  "as_i64 (YInteger i) = Some i"
| "as_i64 _ = None"

fun as_bool :: "yaml \<Rightarrow> bool option" where
  "as_bool (YBoolean b) = Some b"
| "as_bool _ = None"

fun as_vec :: "yaml \<Rightarrow> yaml list option" where
  "as_vec (YArray ys) = Some ys"
| "as_vec _ = None"

fun as_hash :: "yaml \<Rightarrow> (yaml \<times> yaml) list option" where
  "as_hash (YHash h) = Some h"
| "as_hash _ = None"

definition hash_get :: "(yaml \<times> yaml) list \<Rightarrow> string \<Rightarrow> yaml option" where
  "hash_get h k = map_of h (YString k)"

definition yindex :: "yaml \<Rightarrow> string \<Rightarrow> yaml" where
  "yindex y k =
     (case as_hash y of
        Some h \<Rightarrow> (case hash_get h k of Some v \<Rightarrow> v | None \<Rightarrow> YBadValue)
      | None \<Rightarrow> YBadValue)"

definition unwrap_or :: "'a \<Rightarrow> 'a option \<Rightarrow> 'a" where
  "unwrap_or d x = (case x of Some v \<Rightarrow> v | None \<Rightarrow> d)"

lemma unwrap_or_simps [simp]: "unwrap_or d None = d" "unwrap_or d (Some v) = v"
  by (simp_all add: unwrap_or_def)

lemma as_simps_iff:
  "as_str y = Some s \<longleftrightarrow> y = YString s"
  "as_vec y = Some ys \<longleftrightarrow> y = YArray ys"
  "as_hash y = Some h \<longleftrightarrow> y = YHash h"
  by (cases y; simp)+

lemma size_yaml_hash_value: "(k, v) \<in> set h \<Longrightarrow> size v < size (YHash h)"
  by (induction h) auto

lemma size_yaml_array_elem: "y \<in> set ys \<Longrightarrow> size y < size (YArray ys)"
  by (induction ys) auto

subsection \<open>Counters\<close>

text \<open>A hash map of counts that are only ever incremented; 128 bits never overflow.\<close>

type_synonym counter = "(string \<times> nat) list"

definition bump :: "string \<Rightarrow> counter \<Rightarrow> counter" where
  "bump k m = assoc_insert k (unwrap_or 0 (map_of m k) + 1) m"

definition counter_total :: "counter \<Rightarrow> nat" where
  "counter_total m = sum_list (map snd m)"

lemma counter_total_bump [simp]: "counter_total (bump k m) = counter_total m + 1"
proof -
  have "counter_total (assoc_insert k v m) + unwrap_or 0 (map_of m k) = counter_total m + v" for v
    by (induction k v m rule: assoc_insert.induct) (auto simp: counter_total_def)
  from this [of "unwrap_or 0 (map_of m k) + 1"] show ?thesis by (simp add: bump_def)
qed

subsection \<open>Code and configuration outside the repository\<close>

text \<open>
  What the modelled code calls but does not define: the Unicode tables behind
  \<open>to_lowercase\<close> and the regex classes \<open>\w\<close> and \<open>\d\<close> outside ASCII, the \<open>regex\<close>, \<open>cidr_utils\<close>,
  \<open>base64\<close>, \<open>serde_json\<close> and \<open>chrono\<close> crates (a point in time is its nanoseconds since the
  epoch), text files, the windash characters of
  \<open>config/windash_characters.txt\<close> and the lookup tables loaded with the rules. Every
  definition that needs one takes the record \<open>env\<close> first.
\<close>

record env =
  uni_lowercase :: "string \<Rightarrow> string"
  uni_word :: "string \<Rightarrow> bool"
  uni_digit :: "string \<Rightarrow> bool"
  rx_ok :: "string \<Rightarrow> bool"
  rx_match :: "string \<Rightarrow> string \<Rightarrow> bool"
  rx_escape :: "string \<Rightarrow> string"
  cidr_ok :: "string \<Rightarrow> bool"
  cidr_has :: "string \<Rightarrow> string \<Rightarrow> bool"
  ip_ok :: "string \<Rightarrow> bool"
  base64_std :: "nat list \<Rightarrow> string"
  base64_no_pad :: "nat list \<Rightarrow> string"
  json_text :: "json \<Rightarrow> string"
  parse_rfc3339 :: "string \<Rightarrow> int option"
  txt_file :: "string \<Rightarrow> string + string list"
  windash :: "string list"
  lookup_tables :: "string \<rightharpoonup> string list"

text \<open>\<open>str::to_lowercase\<close>: ASCII text needs no table.\<close>

definition to_lowercase :: "env \<Rightarrow> string \<Rightarrow> string" where
  "to_lowercase E s = (if is_ascii s then to_ascii_lowercase s else uni_lowercase E s)"

lemma to_lowercase_ascii [simp]: "is_ascii s \<Longrightarrow> to_lowercase E s = to_ascii_lowercase s"
  by (simp add: to_lowercase_def)

text \<open>The regex class \<open>\w\<close> on one character.\<close>

definition is_word :: "env \<Rightarrow> string \<Rightarrow> bool" where
  "is_word E g =
     (case g of
        [c] \<Rightarrow>
          (if byte c < 128
           then (48 \<le> byte c \<and> byte c \<le> 57) \<or> (65 \<le> byte c \<and> byte c \<le> 90) \<or>
                (97 \<le> byte c \<and> byte c \<le> 122) \<or> byte c = 95
           else uni_word E g)
      | _ \<Rightarrow> uni_word E g)"

text \<open>A concrete environment, for the witnesses: no regex matches, no file, no table.\<close>

definition env0 :: env where
  "env0 = \<lparr>uni_lowercase = (\<lambda>s. s), uni_word = (\<lambda>_. False), uni_digit = (\<lambda>_. False),
     rx_ok = (\<lambda>_. True),
     rx_match = (\<lambda>_ _. False), rx_escape = (\<lambda>s. s), cidr_ok = (\<lambda>_. False),
     cidr_has = (\<lambda>_ _. False), ip_ok = (\<lambda>_. False), base64_std = (\<lambda>_. []), base64_no_pad = (\<lambda>_. []),
     json_text = (\<lambda>_. []), parse_rfc3339 = (\<lambda>_. None), txt_file = (\<lambda>_. Inl []), windash = [], lookup_tables = Map.empty\<rparr>"

end
