(* ===== verification/Levels.thy ===== *)
theory Levels
  imports Values
begin

section \<open>Alert levels (level.rs)\<close>

text \<open>
  The enum \<open>LEVEL\<close>, its parsing and printing, its numeric index and the raise of a
  level on a critical system. \<open>critical_systems\<close> stands for the static
  \<open>CRITICAL_SYSTEM\<close>, the lines of \<open>config/critical_systems.txt\<close>.
\<close>

datatype level =
    UNDEFINED
  | INFORMATIONAL
  | LOW
  | MEDIUM
  | HIGH
  | CRITICAL
  | EMERGENCY

definition level_from :: "env \<Rightarrow> string \<Rightarrow> level" where
  "level_from E s0 =
     (let s = to_lowercase E s0 in
      if s = ''informational'' then INFORMATIONAL
      else if s = ''low'' then LOW
      else if s = ''medium'' then MEDIUM
      else if s = ''high'' then HIGH
      else if s = ''critical'' then CRITICAL
      else if s = ''emergency'' then EMERGENCY
      else UNDEFINED)"

fun to_full :: "level \<Rightarrow> string" where
  "to_full INFORMATIONAL = ''informational''"
| "to_full LOW = ''low''"
| "to_full MEDIUM = ''medium''"
| "to_full HIGH = ''high''"
| "to_full CRITICAL = ''critical''"
| "to_full EMERGENCY = ''emergency''"
| "to_full _ = ''undefined''"

fun to_abbrev :: "level \<Rightarrow> string" where
  "to_abbrev INFORMATIONAL = ''info''"
| "to_abbrev LOW = ''low''"
| "to_abbrev MEDIUM = ''med''"
| "to_abbrev HIGH = ''high''"
| "to_abbrev CRITICAL = ''crit''"
| "to_abbrev EMERGENCY = ''emer''"
| "to_abbrev _ = ''undef''"

fun level_index :: "level \<Rightarrow> nat" where
  "level_index UNDEFINED = 0"
| "level_index INFORMATIONAL = 1"
| "level_index LOW = 2"
| "level_index MEDIUM = 3"
| "level_index HIGH = 4"
| "level_index CRITICAL = 5"
| "level_index EMERGENCY = 6"

text \<open>The separator of joined computer names: space, U+00A6 (two bytes), space.\<close>

definition bar_sep :: string where
  "bar_sep = [CHR '' '', CHR 0xC2, CHR 0xA6, CHR '' '']"

fun raise_level :: "level \<Rightarrow> level" where
  "raise_level INFORMATIONAL = INFORMATIONAL"
| "raise_level LOW = MEDIUM"
| "raise_level MEDIUM = HIGH"
| "raise_level HIGH = CRITICAL"
| "raise_level CRITICAL = EMERGENCY"
| "raise_level EMERGENCY = EMERGENCY"
| "raise_level UNDEFINED = UNDEFINED"

definition level_convert :: "string list \<Rightarrow> level \<Rightarrow> string \<Rightarrow> level" where
  "level_convert critical_systems l computer =
     (if list_ex (\<lambda>c. c \<in> set critical_systems) (split_str bar_sep [] computer)
      then raise_level l else l)"

definition level_eq_str :: "level \<Rightarrow> string \<Rightarrow> bool" where
  "level_eq_str l other \<longleftrightarrow> to_full l = other \<or> to_abbrev l = other"

text \<open>The levels are ordered by their index, the order the rule filter and the sort use.\<close>

lemma level_index_inject: "level_index a = level_index b \<longleftrightarrow> a = b"
  by (cases a; cases b) simp_all

instantiation level :: linorder
begin

definition less_eq_level :: "level \<Rightarrow> level \<Rightarrow> bool" where
  "less_eq_level a b \<longleftrightarrow> level_index a \<le> level_index b"

definition less_level :: "level \<Rightarrow> level \<Rightarrow> bool" where
  "less_level a b \<longleftrightarrow> level_index a < level_index b"

instance
  by standard (auto simp: less_eq_level_def less_level_def level_index_inject)

end

text \<open>
  \<open>create_output_color_map\<close> on the parsed lines of \<open>level_color.txt\<close>; \<open>hex_decode\<close>
  is the \<open>hex\<close> crate's. The file look-up and the warnings are left out.
\<close>

definition color_entry ::
  "env \<Rightarrow> (string \<Rightarrow> nat list option) \<Rightarrow> string list \<Rightarrow> (level \<times> nat \<times> nat \<times> nat) option" where
  "color_entry E hex_decode line =
     (case line of
        [l, h] \<Rightarrow>
          (let lv = level_from E (to_lowercase E l) in
           case hex_decode (trim h) of
             None \<Rightarrow> None
           | Some code \<Rightarrow>
               (if lv = UNDEFINED \<or> length code < 3 then None
                else Some (lv, code ! 0, code ! 1, code ! 2)))
      | _ \<Rightarrow> None)"

definition create_output_color_map ::
  "env \<Rightarrow> (string \<Rightarrow> nat list option) \<Rightarrow> bool \<Rightarrow> (string list list) option \<Rightarrow>
   (level \<rightharpoonup> nat \<times> nat \<times> nat)" where
  "create_output_color_map E hex_decode no_color read_result =
     (if no_color then Map.empty
      else (case read_result of
              None \<Rightarrow> Map.empty
            | Some ls \<Rightarrow>
                foldl (\<lambda>m e. m(fst e \<mapsto> snd e)) Map.empty
                  (option_list (map (color_entry E hex_decode) ls))))"

subsection \<open>Lemmas\<close>

lemma level_from_to_full [simp]: "level_from E (to_full l) = l"
  by (induction l) code_simp+

lemma raise_level_bounds: "l \<le> raise_level l" "level_index (raise_level l) \<le> Suc (level_index l)"
  by (cases l; simp add: less_eq_level_def)+

lemma raise_level_mono: "a \<le> b \<Longrightarrow> raise_level a \<le> raise_level b"
  by (cases a; cases b) (simp_all add: less_eq_level_def)

lemma raise_level_undefined: "raise_level l = UNDEFINED \<longleftrightarrow> l = UNDEFINED"
  by (cases l) simp_all

lemma color_map_no_undefined:
  "UNDEFINED \<notin> dom (create_output_color_map E hx no_color rs)"
proof -
  have fold: "UNDEFINED \<notin> dom m \<Longrightarrow> \<forall>e \<in> set es. fst e \<noteq> UNDEFINED \<Longrightarrow>
      UNDEFINED \<notin> dom (foldl (\<lambda>m e. m(fst e \<mapsto> snd e)) m es)" for m :: "level \<rightharpoonup> nat \<times> nat \<times> nat" and es
    by (induction es arbitrary: m) (auto simp: domIff)
  have entries: "\<forall>e \<in> set (option_list (map (color_entry E hx) ls)). fst e \<noteq> UNDEFINED" for ls
    by (auto simp: color_entry_def Let_def split: list.splits option.splits if_splits)
  have "UNDEFINED \<notin> dom (foldl (\<lambda>m e. m(fst e \<mapsto> snd e)) Map.empty
      (option_list (map (color_entry E hx) ls)))" for ls
    by (rule fold [OF _ entries]) simp
  then show ?thesis
    by (simp add: create_output_color_map_def split: option.split)
qed

subsection \<open>The property of the component\<close>

text \<open>
  The adjustment for critical systems is a monotone raise by at most one step: it never
  lowers a severity, keeps the order of severities, changes nothing for computers that are not
  listed, and neither makes nor removes an undefined level.
\<close>

theorem level_convert_raises:
  "l \<le> level_convert crit l computer \<and>
   level_index (level_convert crit l computer) \<le> Suc (level_index l) \<and>
   (l' \<le> l \<longrightarrow> level_convert crit l' computer \<le> level_convert crit l computer) \<and>
   (level_convert crit l computer = UNDEFINED \<longleftrightarrow> l = UNDEFINED) \<and>
   (set (split_str bar_sep [] computer) \<inter> set crit = {} \<longrightarrow> level_convert crit l computer = l)"
proof -
  have "l' \<le> l \<longrightarrow> level_convert crit l' computer \<le> level_convert crit l computer"
    using raise_level_mono by (simp add: level_convert_def)
  moreover have "set (split_str bar_sep [] computer) \<inter> set crit = {} \<longrightarrow> level_convert crit l computer = l"
    by (auto simp: level_convert_def list_ex_iff)
  ultimately show ?thesis
    using raise_level_bounds [of l] raise_level_undefined [of l] by (simp add: level_convert_def)
qed

theorem level_convert_raises_witness:
  "LOW \<le> level_convert [''dc01''] LOW ''dc01'' \<and>
   level_convert [''dc01''] INFORMATIONAL ''dc01'' \<le> level_convert [''dc01''] LOW ''dc01''"
  using level_convert_raises [of LOW "[''dc01'']" "''dc01''" INFORMATIONAL]
  by (simp add: less_eq_level_def)

end
