(* ===== verification/Event_Utils.thy ===== *)
theory Event_Utils
  imports Values
begin

section \<open>Reading values out of an event record (utils.rs, configs.rs, field_extract.rs)\<close>

text \<open>
  The alias configuration that maps short field names to paths, the look-up of a field in a
  JSON record by alias or path, the record the rules are matched against, and the extraction
  of the fields of classic PowerShell events.
\<close>

subsection \<open>Aliases\<close>

record alias_config =
  key_to_eventkey :: "string \<rightharpoonup> string"
  key_to_split_eventkey :: "string \<rightharpoonup> nat list"

definition new_alias_config :: alias_config where
  "new_alias_config = \<lparr>key_to_eventkey = Map.empty, key_to_split_eventkey = Map.empty\<rparr>"

definition get_event_key :: "alias_config \<Rightarrow> string \<Rightarrow> string option" where
  "get_event_key c alias = key_to_eventkey c alias"

definition get_event_key_split :: "alias_config \<Rightarrow> string \<Rightarrow> nat list option" where
  "get_event_key_split c alias = key_to_split_eventkey c alias"

text \<open>One line of \<open>eventkey_alias.txt\<close>; a line without exactly two non-empty columns is skipped.\<close>

definition add_alias_line :: "alias_config \<Rightarrow> string list \<Rightarrow> alias_config" where
  "add_alias_line c line =
     (case line of
        [alias, event_key] \<Rightarrow>
          (if alias = [] \<or> event_key = [] then c
           else c\<lparr>key_to_eventkey := (key_to_eventkey c)(alias \<mapsto> event_key),
                  key_to_split_eventkey :=
                    (key_to_split_eventkey c)(alias \<mapsto> map length (split_char (CHR ''.'') event_key))\<rparr>)
      | _ \<Rightarrow> c)"

definition load_eventkey_alias :: "string + string list list \<Rightarrow> alias_config" where
  "load_eventkey_alias read_result =
     (case read_result of
        Inl _ \<Rightarrow> new_alias_config
      | Inr ls \<Rightarrow> foldl add_alias_line new_alias_config ls)"

text \<open>
  The invariant of the configuration: the cached lengths are those of the dot-separated
  segments of the path, so the slices of \<open>get_event_value\<close> stay inside it.
\<close>

definition alias_wf :: "alias_config \<Rightarrow> bool" where
  "alias_wf c \<longleftrightarrow>
     (\<forall>a. key_to_split_eventkey c a =
       map_option (\<lambda>k. map length (split_char (CHR ''.'') k)) (key_to_eventkey c a))"

lemma alias_wf_new: "alias_wf new_alias_config"
  by (simp add: alias_wf_def new_alias_config_def)

lemma alias_wf_add_line: "alias_wf c \<Longrightarrow> alias_wf (add_alias_line c line)"
  by (auto simp: alias_wf_def add_alias_line_def split: list.splits)

lemma alias_wf_load: "alias_wf (load_eventkey_alias r)"
proof -
  have "alias_wf c \<Longrightarrow> alias_wf (foldl add_alias_line c ls)" for c ls
    by (induction ls arbitrary: c) (auto intro: alias_wf_add_line)
  then show ?thesis
    by (auto simp: load_eventkey_alias_def alias_wf_new split: sum.splits)
qed

subsection \<open>get\_event\_value\<close>

text \<open>
  The walk of the alias branch: each segment is the slice of the path from \<open>start_idx\<close> of
  the cached length, after which the index passes the dot.
\<close>

fun walk_splits :: "string \<Rightarrow> nat \<Rightarrow> nat list \<Rightarrow> json \<Rightarrow> json option" where
  "walk_splits event_key start_idx [] ret = Some ret"
| "walk_splits event_key start_idx (key # splits) ret =
     (if \<not> is_object ret then None
      else walk_splits event_key (start_idx + key + 1) splits
             (json_index ret (take key (drop start_idx event_key))))"

fun walk_path :: "string list \<Rightarrow> json \<Rightarrow> json option" where
  "walk_path [] ret = Some ret"
| "walk_path (key # keys) ret =
     (if \<not> is_object ret then None else walk_path keys (json_index ret key))"

definition get_event_value :: "alias_config \<Rightarrow> string \<Rightarrow> json \<Rightarrow> json option" where
  "get_event_value c key event_value =
     (if key = [] then None
      else (case get_event_key c key of
              Some event_key \<Rightarrow>
                (case get_event_key_split c key of
                   Some splits \<Rightarrow> walk_splits event_key 0 splits event_value
                 | None \<Rightarrow> None \<comment> \<open>an \<open>unwrap\<close> that \<open>alias_wf\<close> rules out\<close>)
            | None \<Rightarrow>
                (let event_key = (if \<not> contains_str key ''.'' then ''Event.EventData.'' @ key else key)
                 in walk_path (split_char (CHR ''.'') event_key) event_value)))"

lemma walk_splits_segments:
  assumes "ws \<noteq> []"
  shows "walk_splits (pre @ join ''.'' ws) (length pre) (map length ws) v = walk_path ws v"
  using assms
proof (induction ws arbitrary: pre v)
  case (Cons w ws)
  show ?case
  proof (cases "ws = []")
    case False
    have "walk_splits (pre @ w @ ''.'' @ join ''.'' ws) (length pre + length w + 1) (map length ws) v'
        = walk_path ws v'" for v'
      using Cons.IH [OF False, of "pre @ w @ ''.''" v'] by simp
    with False show ?thesis by (simp add: join_Cons)
  qed simp
qed simp

lemma get_event_value_alias:
  assumes "alias_wf c" and "key_to_eventkey c key = Some path" and "key \<noteq> []"
  shows "get_event_value c key v = walk_path (split_char (CHR ''.'') path) v"
proof -
  have "walk_splits path 0 (map length (split_char (CHR ''.'') path)) v
      = walk_path (split_char (CHR ''.'') path) v"
    using walk_splits_segments [of "split_char (CHR ''.'') path" "[]" v]
    by (simp add: join_split_char)
  then show ?thesis
    using assms by (simp add: get_event_value_def get_event_key_def get_event_key_split_def alias_wf_def)
qed

text \<open>
  The same function with its panics, which are the outer \<open>None\<close>: the cached lengths are unwrapped, and the
  path is sliced by them. Every configuration that the program loads is well-formed, and then the look-up
  never panics and is \<open>get_event_value\<close>, which the other theories use.
\<close>

fun walk_splits_run :: "string \<Rightarrow> nat \<Rightarrow> nat list \<Rightarrow> json \<Rightarrow> json option option" where
  "walk_splits_run event_key start_idx [] ret = Some (Some ret)"
| "walk_splits_run event_key start_idx (key # splits) ret =
     (if \<not> is_object ret then Some None
      else if length event_key < start_idx + key then None
      else walk_splits_run event_key (start_idx + key + 1) splits
             (json_index ret (take key (drop start_idx event_key))))"

definition get_event_value_run :: "alias_config \<Rightarrow> string \<Rightarrow> json \<Rightarrow> json option option" where
  "get_event_value_run c key event_value =
     (if key = [] then Some None
      else (case get_event_key c key of
              Some event_key \<Rightarrow>
                (case get_event_key_split c key of
                   Some splits \<Rightarrow> walk_splits_run event_key 0 splits event_value
                 | None \<Rightarrow> None)
            | None \<Rightarrow>
                (let event_key = (if \<not> contains_str key ''.'' then ''Event.EventData.'' @ key else key)
                 in Some (walk_path (split_char (CHR ''.'') event_key) event_value))))"

lemma walk_splits_run_segments:
  assumes "ws \<noteq> []"
  shows "walk_splits_run (pre @ join ''.'' ws) (length pre) (map length ws) v = Some (walk_path ws v)"
  using assms
proof (induction ws arbitrary: pre v)
  case (Cons w ws)
  show ?case
  proof (cases "ws = []")
    case False
    have "walk_splits_run (pre @ w @ ''.'' @ join ''.'' ws) (length pre + length w + 1) (map length ws) v'
        = Some (walk_path ws v')" for v'
      using Cons.IH [OF False, of "pre @ w @ ''.''" v'] by simp
    with False show ?thesis by (simp add: join_Cons)
  qed simp
qed simp

lemma get_event_value_no_panic:
  assumes "alias_wf c"
  shows "get_event_value_run c key v = Some (get_event_value c key v)"
proof (cases "key = [] \<or> key_to_eventkey c key = None")
  case True
  then show ?thesis by (auto simp: get_event_value_run_def get_event_value_def get_event_key_def Let_def)
next
  case False
  then obtain path where path: "key_to_eventkey c key = Some path" "key \<noteq> []" by auto
  have "walk_splits_run path 0 (map length (split_char (CHR ''.'') path)) v = Some (walk_path (split_char (CHR ''.'') path) v)"
    using walk_splits_run_segments [of "split_char (CHR ''.'') path" "[]" v] by (simp add: join_split_char)
  then show ?thesis
    using path assms get_event_value_alias [OF assms path(1,2)]
    by (simp add: get_event_value_run_def get_event_key_def get_event_key_split_def alias_wf_def)
qed

lemma get_event_value_loaded:
  "get_event_value_run (load_eventkey_alias r) key v = Some (get_event_value (load_eventkey_alias r) key v)"
  by (rule get_event_value_no_panic [OF alias_wf_load])

subsection \<open>Values as strings\<close>

definition value_to_string :: "json \<Rightarrow> string option" where
  "value_to_string v =
     (case v of
        JNull \<Rightarrow> None
      | JBool b \<Rightarrow> Some (show_bool b)
      | JNumber n \<Rightarrow> Some (show_jnum n)
      | JString s \<Rightarrow> Some (trim s)
      | JArray _ \<Rightarrow> None
      | JObject _ \<Rightarrow> None)"

text \<open>
  \<open>get_serde_number_to_string\<close>; \<open>search_flag\<close> prints an object as joined pairs. A string is
  returned as it is, anything else but null as its JSON text.
\<close>

definition get_serde_number_to_string :: "env \<Rightarrow> json \<Rightarrow> bool \<Rightarrow> string option" where
  "get_serde_number_to_string E v search_flag =
     (case v of
        JString s \<Rightarrow> Some s
      | JObject kvs \<Rightarrow>
          (if search_flag
           then Some (join [CHR '' '', CHR 0xC2, CHR 0xA6, CHR '' '']
                  (map (\<lambda>(k, w). replace_all [CHR 0x22] [] (k @ '':'' @ json_text E w)) kvs))
           else None)
      | JNull \<Rightarrow> None
      | _ \<Rightarrow> Some (json_text E v))"

subsection \<open>Classic PowerShell fields\<close>

text \<open>\<open>trim_end_matches\<close> of a non-empty string: the suffix is removed as often as it occurs.\<close>

function trim_end_str :: "string \<Rightarrow> string \<Rightarrow> string" where
  "trim_end_str suf s =
     (if suf \<noteq> [] \<and> ends_with s suf then trim_end_str suf (take (length s - length suf) s) else s)"
  by pat_completeness auto
termination
  by (relation "measure (\<lambda>(suf, s). length s)") (auto simp: ends_with_iff)

declare trim_end_str.simps [simp del]

text \<open>\<open>str::split_once\<close> at a character.\<close>

fun split_once :: "char \<Rightarrow> string \<Rightarrow> (string \<times> string) option" where
  "split_once c [] = None"
| "split_once c (d # s) =
     (if d = c then Some ([], s) else map_option (\<lambda>(a, b). (d # a, b)) (split_once c s))"

definition powershell_fields :: "string \<Rightarrow> (string \<times> json) list" where
  "powershell_fields txt =
     foldl (\<lambda>m (k, v). assoc_insert k (JString v) m) []
       (option_list (map (\<lambda>s. split_once (CHR ''='') (trim_end_str [CHR 0x0D] (trim_end_str [CHR 0x0D, CHR 0x0A] s)))
          (split_str [CHR 0x0A, CHR 0x09] [] (trim txt))))"

text \<open>
  The recursive search: the members of an object are visited in order and mutated in place;
  the first array with a string at the wanted index yields the fields, which the object that
  holds the array takes over (and passes no further, since it returns \<open>None\<close>).
\<close>

function extract_powershell_classic_fields ::
    "nat \<Rightarrow> json \<Rightarrow> (string \<rightharpoonup> string) \<Rightarrow> json \<times> (string \<rightharpoonup> string) \<times> (string \<times> json) list option"
  and extract_members ::
    "nat \<Rightarrow> (string \<times> json) list \<Rightarrow> (string \<rightharpoonup> string) \<Rightarrow>
       (string \<times> json) list \<times> (string \<rightharpoonup> string) \<times> (string \<times> json) list option" where
  "extract_powershell_classic_fields i (JObject kvs) m =
     (case extract_members i kvs m of
        (kvs', m', Some flds) \<Rightarrow>
          (JObject (foldl (\<lambda>o' (k, v). assoc_insert k v o') kvs' flds),
           foldl (\<lambda>m (k, v). case v of JString s \<Rightarrow> m(k \<mapsto> s) | _ \<Rightarrow> m) m' flds, None)
      | (kvs', m', None) \<Rightarrow> (JObject kvs', m', None))"
| "extract_powershell_classic_fields i (JArray vs) m =
     (JArray vs, m,
      if i < length vs then map_option powershell_fields (json_as_str (vs ! i)) else None)"
| "extract_powershell_classic_fields i JNull m = (JNull, m, None)"
| "extract_powershell_classic_fields i (JBool b) m = (JBool b, m, None)"
| "extract_powershell_classic_fields i (JNumber n) m = (JNumber n, m, None)"
| "extract_powershell_classic_fields i (JString s) m = (JString s, m, None)"
| "extract_members i [] m = ([], m, None)"
| "extract_members i ((k, v) # kvs) m =
     (case extract_powershell_classic_fields i v m of
        (v', m', Some flds) \<Rightarrow> ((k, v') # kvs, m', Some flds)
      | (v', m', None) \<Rightarrow>
          (case extract_members i kvs m' of
             (kvs', m'', r) \<Rightarrow> ((k, v') # kvs', m'', r)))"
  by pat_completeness auto
termination
  by (relation "measure (\<lambda>x. case x of Inl (i, v, m) \<Rightarrow> size v
        | Inr (i, kvs, m) \<Rightarrow> size_list (size_prod (\<lambda>_. 0) size) kvs)") auto

definition extract_fields ::
  "string option \<Rightarrow> string option \<Rightarrow> json \<Rightarrow> (string \<rightharpoonup> string) \<Rightarrow> json \<times> (string \<rightharpoonup> string)" where
  "extract_fields channel event_id data m =
     (case (channel, event_id) of
        (Some ch, Some eid) \<Rightarrow>
          (if ch = ''Windows PowerShell'' \<and>
              (eid = ''400'' \<or> eid = ''403'' \<or> eid = ''600'' \<or> eid = ''800'')
           then (let target_data_index = (if eid = ''800'' then 1 else 2);
                     r = extract_powershell_classic_fields target_data_index data m
                 in (fst r, fst (snd r)))
           else (data, m))
      | _ \<Rightarrow> (data, m))"

subsection \<open>The record the rules are matched against\<close>

record recinfo =
  evtx_filepath :: string
  rec_data :: json
  data_string :: string
  key_2_value :: "string \<rightharpoonup> string"
  recovered_record :: bool

definition get_value :: "recinfo \<Rightarrow> string \<Rightarrow> string option" where
  "get_value r key = key_2_value r key"

text \<open>The loop over the rule keys: the values found, and the event id and channel seen.\<close>

definition field_string :: "alias_config \<Rightarrow> json \<Rightarrow> string \<Rightarrow> string option" where
  "field_string c data key =
     (case get_event_value c key data of None \<Rightarrow> None | Some v \<Rightarrow> value_to_string v)"

fun collect_keys ::
  "alias_config \<Rightarrow> json \<Rightarrow> bool \<Rightarrow> string list \<Rightarrow>
   (string \<rightharpoonup> string) \<times> string option \<times> string option \<Rightarrow>
   (string \<rightharpoonup> string) \<times> string option \<times> string option" where
  "collect_keys c data no_pwsh [] st = st"
| "collect_keys c data no_pwsh (key # keys) (m, event_id, channel) =
     (case field_string c data key of
        None \<Rightarrow> collect_keys c data no_pwsh keys (m, event_id, channel)
      | Some s \<Rightarrow>
          collect_keys c data no_pwsh keys
            (m(key \<mapsto> s),
             if \<not> no_pwsh \<and> key = ''EventID'' then Some s else event_id,
             if \<not> no_pwsh \<and> key = ''Channel'' then Some s else channel))"

definition create_rec_info ::
  "env \<Rightarrow> alias_config \<Rightarrow> json \<Rightarrow> string \<Rightarrow> string list \<Rightarrow> bool \<Rightarrow> bool \<Rightarrow> recinfo" where
  "create_rec_info E c data path keys recovered no_pwsh =
     (case collect_keys c data no_pwsh keys (Map.empty, None, None) of
        (m, event_id, channel) \<Rightarrow>
          (let (data', m') = (if no_pwsh then (data, m) else extract_fields channel event_id data m)
           in \<lparr>evtx_filepath = path, rec_data = data', data_string = json_text E data',
               key_2_value = m', recovered_record = recovered\<rparr>))"

lemma collect_keys_map:
  "fst (collect_keys c data np keys (m, e, ch)) =
     (\<lambda>k. if k \<in> set keys \<and> field_string c data k \<noteq> None then field_string c data k else m k)"
proof (induction keys arbitrary: m e ch)
  case (Cons k keys)
  then show ?case by (auto simp: fun_eq_iff split: option.splits)
qed simp

subsection \<open>The property of the component\<close>

text \<open>
  Looking up an alias is walking its path. For every configuration the loader can build,
  the value of an alias is the one at its dotted path, although the code walks by the cached
  lengths of the segments; the lengths are always there, so the \<open>unwrap\<close> cannot panic, and an
  alias that is not configured is read below \<open>Event.EventData\<close> unless it has a dot itself.
\<close>

theorem get_event_value_path:
  assumes "c = load_eventkey_alias r" and "key \<noteq> []"
  shows "get_event_value c key v =
    walk_path (split_char (CHR ''.'')
      (case get_event_key c key of
         Some path \<Rightarrow> path
       | None \<Rightarrow> if contains_str key ''.'' then key else ''Event.EventData.'' @ key)) v \<and>
    (get_event_key c key \<noteq> None \<longrightarrow> get_event_key_split c key \<noteq> None)"
proof (cases "get_event_key c key")
  case None
  with assms(2) show ?thesis by (simp add: get_event_value_def)
next
  case (Some path)
  have wf: "alias_wf c" using assms(1) alias_wf_load by simp
  have "key_to_eventkey c key = Some path" using Some by (simp add: get_event_key_def)
  with get_event_value_alias [OF wf this assms(2)] wf Some show ?thesis
    by (auto simp: alias_wf_def get_event_key_split_def get_event_key_def)
qed

theorem get_event_value_path_witness:
  "get_event_value (load_eventkey_alias (Inr [[''Computer'', ''Event.System.Computer'']])) ''Computer''
     (JObject [(''Event'', JObject [(''System'', JObject [(''Computer'', JString ''pc'')])])]) =
   walk_path (split_char (CHR ''.'') ''Event.System.Computer'')
     (JObject [(''Event'', JObject [(''System'', JObject [(''Computer'', JString ''pc'')])])])"
proof -
  have "get_event_key (load_eventkey_alias (Inr [[''Computer'', ''Event.System.Computer'']])) ''Computer'' =
      Some ''Event.System.Computer''"
    by (simp add: load_eventkey_alias_def add_alias_line_def get_event_key_def new_alias_config_def)
  with get_event_value_path [OF refl, of "''Computer''" "Inr [[''Computer'', ''Event.System.Computer'']]"
      "JObject [(''Event'', JObject [(''System'', JObject [(''Computer'', JString ''pc'')])])]"]
  show ?thesis by simp
qed

end
