(* ===== verification/Lookup.thy ===== *)
theory Lookup
  imports Values "HOL-Library.List_Lexorder" "HOL-Library.Char_ord" "HOL-Library.Multiset"
begin

section \<open>Lookup tables (lookup.rs)\<close>

text \<open>
  The process-wide registry behind the \<open>lookup\<close> and \<open>not_lookup\<close> modifiers, as explicit
  state. A hash set is a duplicate-free list, a hash map an association list. The file
  system is a parameter: a path gives the text of the file or the message of the error.
\<close>

record lookup_state =
  tables :: "(string \<times> string list) list"
  table_paths :: "(string \<times> string) list"

definition no_tables :: lookup_state where
  "no_tables = \<lparr>tables = [], table_paths = []\<rparr>"

text \<open>One line of the file: cut at the first hash sign, trimmed, folded to lower case.\<close>

definition table_line :: "string \<Rightarrow> string option" where
  "table_line raw =
     (let line = trim (hd (split_char (CHR ''#'') raw))
      in if line = [] then None else Some (to_ascii_lowercase line))"

definition table_entries :: "string \<Rightarrow> string list" where
  "table_entries content =
     foldl (\<lambda>s line. List.insert line s) [] (option_list (map table_line (lines content)))"

definition load_table_from_file ::
  "(string \<Rightarrow> string + string) \<Rightarrow> string \<Rightarrow> string \<Rightarrow> lookup_state \<Rightarrow> lookup_state \<times> (string + nat)" where
  "load_table_from_file fs name path st =
     (case fs path of
        Inl e \<Rightarrow>
          (st, Inl (''lookup '' @ [CHR 0x27] @ name @ [CHR 0x27] @ '': cannot read '' @ path @ '': '' @ e))
      | Inr content \<Rightarrow>
          (let s = table_entries content
           in (st\<lparr>tables := assoc_insert name s (tables st),
                  table_paths := assoc_insert name path (table_paths st)\<rparr>, Inr (length s))))"

text \<open>\<open>contains\<close>: membership first, then each entry as a substring.\<close>

definition lookup_contains :: "(string \<rightharpoonup> string list) \<Rightarrow> string \<Rightarrow> string \<Rightarrow> bool option" where
  "lookup_contains tbls name value =
     (case tbls name of
        None \<Rightarrow> None
      | Some s \<Rightarrow>
          (let v = to_ascii_lowercase value in
           if v \<in> set s then Some True else Some (list_ex (\<lambda>entry. contains_str v entry) s)))"

definition loaded_tables :: "lookup_state \<Rightarrow> (string \<times> nat \<times> string) list" where
  "loaded_tables st =
     sort_key fst (map (\<lambda>(name, s). (name, length s, unwrap_or [] (map_of (table_paths st) name))) (tables st))"

subsection \<open>Lemmas\<close>

lemma set_table_entries: "set (table_entries content) = {e. \<exists>l \<in> set (lines content). table_line l = Some e}"
proof -
  have "set (foldl (\<lambda>s line. List.insert line s) acc xs) = set acc \<union> set xs" for acc xs :: "string list"
    by (induction xs arbitrary: acc) auto
  then show ?thesis by (auto simp: table_entries_def image_iff) (metis)+
qed

lemma distinct_table_entries: "distinct (table_entries content)"
proof -
  have "distinct acc \<Longrightarrow> distinct (foldl (\<lambda>s line. List.insert line s) acc xs)" for acc xs :: "string list"
    by (induction xs arbitrary: acc) auto
  then show ?thesis by (simp add: table_entries_def)
qed

text \<open>The membership test is an optimisation: an equal entry is also a substring.\<close>

lemma lookup_contains_iff:
  "lookup_contains tbls name value =
     map_option (\<lambda>s. \<exists>e \<in> set s. contains_str (to_ascii_lowercase value) e) (tbls name)"
  by (auto simp: lookup_contains_def Let_def list_ex_iff split: option.splits
      intro!: bexI [of _ "to_ascii_lowercase value"])

lemma table_line_lower: "table_line raw = Some e \<Longrightarrow> e \<noteq> [] \<and> to_ascii_lowercase e = e"
  by (auto simp: table_line_def Let_def to_ascii_lowercase_def split: if_splits)

lemma loaded_tables_keys: "map fst (loaded_tables st) = sort (map fst (tables st))"
proof -
  have "map fst (sort_key fst xs) = sort (map fst xs)" for xs :: "(string \<times> nat \<times> string) list"
    by (rule properties_for_sort [symmetric]) simp_all
  then show ?thesis by (simp add: loaded_tables_def comp_def case_prod_unfold)
qed

subsection \<open>The property of the component\<close>

text \<open>
  Loading a table and looking values up fit together. After a successful load the table
  answers for its name, with yes exactly when an entry of the file occurs in the value without
  regard to ASCII case (an entry being a line cut at the first hash sign, trimmed and not
  empty); the number returned is the number of distinct entries; and no other table changes.
\<close>

theorem load_then_contains:
  assumes "fs path = Inr content" and "load_table_from_file fs name path st = (st', Inr n)"
  shows "lookup_contains (map_of (tables st')) name v =
      Some (\<exists>l \<in> set (lines content). \<exists>e. table_line l = Some e \<and> contains_str (to_ascii_lowercase v) e) \<and>
    n = card {e. \<exists>l \<in> set (lines content). table_line l = Some e} \<and>
    (\<forall>other. other \<noteq> name \<longrightarrow> map_of (tables st') other = map_of (tables st) other)"
proof -
  have st': "map_of (tables st') = (map_of (tables st))(name \<mapsto> table_entries content)"
    and n: "n = length (table_entries content)"
    using assms by (auto simp: load_table_from_file_def Let_def)
  have "n = card (set (table_entries content))"
    using n distinct_card [OF distinct_table_entries] by simp
  then show ?thesis
    by (auto simp: lookup_contains_iff st' set_table_entries)
qed

definition sample_files :: "string \<Rightarrow> string + string" where
  "sample_files path = Inr (''Evil.sys # driver'' @ [CHR 0x0A] @ ''abc'')"

theorem load_then_contains_witness:
  "lookup_contains (map_of (tables (fst (load_table_from_file sample_files ''drv'' ''drv.txt'' no_tables)))) ''drv'' ''EVIL.SYS'' =
      Some (\<exists>l \<in> set (lines (''Evil.sys # driver'' @ [CHR 0x0A] @ ''abc'')). \<exists>e. table_line l = Some e \<and> contains_str (to_ascii_lowercase ''EVIL.SYS'') e)"
proof -
  have "load_table_from_file sample_files ''drv'' ''drv.txt'' no_tables =
      (fst (load_table_from_file sample_files ''drv'' ''drv.txt'' no_tables),
       Inr (length (table_entries (''Evil.sys # driver'' @ [CHR 0x0A] @ ''abc''))))"
    by (simp add: load_table_from_file_def sample_files_def Let_def)
  from load_then_contains [OF _ this] show ?thesis by (simp add: sample_files_def)
qed

end
