(* ===== verification/Pipe_Elements.thy ===== *)
theory Pipe_Elements
  imports Event_Utils
begin

section \<open>Pipe elements (matchers.rs)\<close>

text \<open>
  The modifiers after a field name, \<open>field|contains|all\<close>. A parsed CIDR block is kept as
  its text when the \<open>cidr_utils\<close> crate accepts it.
\<close>

datatype pipe_element =
    Startswith
  | Endswith
  | Contains
  | Re
  | ReIgnoreCase
  | ReMultiLine
  | ReSingleLine
  | Wildcard
  | Expand
  | Exists string string
  | EqualsField string
  | Endswithfield string
  | FieldRef string
  | FieldRefStartswith string
  | FieldRefEndswith string
  | FieldRefContains string
  | Base64
  | Base64offset
  | Windash
  | Cidr "string option"
  | All
  | AllOnly
  | Cased
  | Gt nat
  | Lt nat
  | Gte nat
  | Lte nat
  | Utf16
  | Utf16Le
  | Utf16Be
  | Wide
  | LookupIn string
  | NotLookup string

definition concat_selection_key :: "string list \<Rightarrow> string" where
  "concat_selection_key key_list = foldl (\<lambda>acc cur. acc @ '' -> '' @ cur) ''detection -> selection'' key_list"

definition number_pipe :: "(nat \<Rightarrow> pipe_element) \<Rightarrow> string \<Rightarrow> string \<Rightarrow> string list \<Rightarrow> pipe_element result" where
  "number_pipe c key pat key_list =
     (case parse_usize pat of
        Some n \<Rightarrow> Inr (c n)
      | None \<Rightarrow> Inl (key @ '' value should be a number. key:'' @ concat_selection_key key_list))"

definition pipe_element_new :: "env \<Rightarrow> string \<Rightarrow> string \<Rightarrow> string list \<Rightarrow> pipe_element result" where
  "pipe_element_new E key pat key_list =
     (if key = ''startswith'' then Inr Startswith
      else if key = ''endswith'' then Inr Endswith
      else if key = ''contains'' then Inr Contains
      else if key = ''re'' then Inr Re
      else if key = ''exists'' then Inr (Exists (hd (split_char (CHR ''|'') (hd key_list))) pat)
      else if key = ''reignorecase'' then Inr ReIgnoreCase
      else if key = ''resingleline'' then Inr ReSingleLine
      else if key = ''remultiline'' then Inr ReMultiLine
      else if key = ''equalsfield'' then Inr (EqualsField pat)
      else if key = ''endswithfield'' then Inr (Endswithfield pat)
      else if key = ''expand'' then Inr Expand
      else if key = ''fieldref'' then Inr (FieldRef pat)
      else if key = ''fieldrefstartswith'' then Inr (FieldRefStartswith pat)
      else if key = ''fieldrefendswith'' then Inr (FieldRefEndswith pat)
      else if key = ''fieldrefcontains'' then Inr (FieldRefContains pat)
      else if key = ''base64'' then Inr Base64
      else if key = ''base64offset'' then Inr Base64offset
      else if key = ''windash'' then Inr Windash
      else if key = ''cidr'' then Inr (Cidr (if cidr_ok E pat then Some pat else None))
      else if key = ''all'' then Inr All
      else if key = ''allOnly'' then Inr AllOnly
      else if key = ''cased'' then Inr Cased
      else if key = ''gt'' then number_pipe Gt key pat key_list
      else if key = ''lt'' then number_pipe Lt key pat key_list
      else if key = ''gte'' then number_pipe Gte key pat key_list
      else if key = ''lte'' then number_pipe Lte key pat key_list
      else if key = ''utf16'' then Inr Utf16
      else if key = ''utf16le'' then Inr Utf16Le
      else if key = ''utf16be'' then Inr Utf16Be
      else if key = ''wide'' then Inr Wide
      else if key = ''lookup'' then Inr (LookupIn pat)
      else if key = ''not_lookup'' \<or> key = ''notlookup'' then Inr (NotLookup pat)
      else Inl (''An unknown pipe element was specified. key:'' @ concat_selection_key key_list))"

fun get_eqfield :: "pipe_element \<Rightarrow> string option" where
  "get_eqfield (EqualsField s) = Some s"
| "get_eqfield (Endswithfield s) = Some s"
| "get_eqfield (FieldRef s) = Some s"
| "get_eqfield (FieldRefStartswith s) = Some s"
| "get_eqfield (FieldRefEndswith s) = Some s"
| "get_eqfield (FieldRefContains s) = Some s"
| "get_eqfield _ = None"

text \<open>The comparison of two lowered values, when both fields are there.\<close>

definition both_lower ::
  "env \<Rightarrow> (string \<Rightarrow> string \<Rightarrow> bool) \<Rightarrow> string option \<Rightarrow> string option \<Rightarrow> bool" where
  "both_lower E test event_value other =
     (case (event_value, other) of
        (Some v, Some w) \<Rightarrow> test (to_lowercase E v) (to_lowercase E w)
      | _ \<Rightarrow> False)"

definition is_eqfield_match :: "env \<Rightarrow> pipe_element \<Rightarrow> string option \<Rightarrow> recinfo \<Rightarrow> bool" where
  "is_eqfield_match E pipe event_value rec =
     (case pipe of
        Exists eq_key v \<Rightarrow> to_lowercase E v = show_bool (get_value rec eq_key \<noteq> None)
      | EqualsField eq_key \<Rightarrow> event_value \<noteq> None \<and> get_value rec eq_key = event_value
      | FieldRef eq_key \<Rightarrow> event_value \<noteq> None \<and> get_value rec eq_key = event_value
      | FieldRefStartswith eq_key \<Rightarrow> both_lower E starts_with event_value (get_value rec eq_key)
      | Endswithfield eq_key \<Rightarrow> both_lower E ends_with event_value (get_value rec eq_key)
      | FieldRefEndswith eq_key \<Rightarrow> both_lower E ends_with event_value (get_value rec eq_key)
      | FieldRefContains eq_key \<Rightarrow> both_lower E contains_str event_value (get_value rec eq_key)
      | _ \<Rightarrow> False)"

subsection \<open>Patterns\<close>

definition add_asterisk_end :: "string \<Rightarrow> string" where
  "add_asterisk_end patt =
     (if ends_with patt ''//*'' then patt
      else if ends_with patt ''/*'' then patt @ ''*''
      else if ends_with patt ''*'' then patt
      else if ends_with patt [CHR 0x5C] then patt @ [CHR 0x5C, CHR ''*'']
      else patt @ ''*'')"

definition add_asterisk_begin :: "string \<Rightarrow> string" where
  "add_asterisk_begin patt =
     (if starts_with patt ''//*'' then patt
      else if starts_with patt ''/*'' then ''*'' @ patt
      else if starts_with patt ''*'' then patt
      else ''*'' @ patt)"

text \<open>
  \<open>pipe_pattern_wildcard\<close>. The state of the loop is the splits, the current string and the
  index; \<open>wildcard_step\<close> is the \<open>for\<close> over the two wildcards at one index, with \<open>None\<close>
  when neither hits. The index counts characters while the bound is the length in bytes, so
  for non-ASCII patterns the loop runs on past the last character, appending nothing.
\<close>

definition bsl :: char where
  "bsl = CHR 0x5C"

definition chars_start :: "string list \<Rightarrow> string \<Rightarrow> bool" where
  "chars_start cs p \<longleftrightarrow> take (length p) cs = map (\<lambda>c. [c]) p"

fun wildcard_step ::
  "string list \<Rightarrow> char list \<Rightarrow> string list \<times> string \<times> nat \<Rightarrow> (string list \<times> string \<times> nat) option" where
  "wildcard_step cs [] st = None"
| "wildcard_step cs (w # ws) (splits, cur, idx) =
     (if chars_start (drop idx cs) [bsl, bsl, w] then Some (splits @ [cur @ [bsl], [w]], [], idx + 3)
      else if chars_start (drop idx cs) [bsl, w] then Some (splits, cur @ [w], idx + 2)
      else if chars_start (drop idx cs) [w] then Some (splits @ [cur, [w]], [], idx + 1)
      else wildcard_step cs ws (splits, cur, idx))"

lemma wildcard_step_idx:
  "wildcard_step cs ws (splits, cur, idx) = Some (splits', cur', idx') \<Longrightarrow> idx < idx'"
  by (induction ws) (auto split: if_splits)

function wildcard_loop ::
  "string list \<Rightarrow> nat \<Rightarrow> string list \<times> string \<times> nat \<Rightarrow> string list \<times> string" where
  "wildcard_loop cs len (splits, cur, idx) =
     (if idx < len
      then (case wildcard_step cs [CHR ''*'', CHR ''?''] (splits, cur, idx) of
              Some st \<Rightarrow> wildcard_loop cs len st
            | None \<Rightarrow> wildcard_loop cs len (splits, cur @ concat (take 1 (drop idx cs)), idx + 1))
      else (splits, cur))"
  by pat_completeness auto
termination
  by (relation "measure (\<lambda>(cs, len, splits, cur, idx). len - idx)")
     (auto dest!: wildcard_step_idx simp del: wildcard_step.simps)

declare wildcard_loop.simps [simp del]

definition any_regex :: string where
  "any_regex = ''(.|'' @ [bsl] @ ''a|'' @ [bsl] @ ''f|'' @ [bsl] @ ''t|'' @ [bsl] @ ''n|'' @ [bsl] @ ''r|'' @ [bsl] @ ''v)*''"

fun splits_regex :: "env \<Rightarrow> nat \<Rightarrow> string list \<Rightarrow> string" where
  "splits_regex E idx [] = []"
| "splits_regex E idx (p # ps) =
     (if idx mod 2 = 0 then rx_escape E p else if p = ''*'' then any_regex else ''.'')
       @ splits_regex E (idx + 1) ps"

definition pipe_pattern_wildcard :: "env \<Rightarrow> string \<Rightarrow> string" where
  "pipe_pattern_wildcard E pat =
     (let (splits, cur) = wildcard_loop (utf8_chars pat) (length pat) ([], [], 0);
          pattern_splits = (if cur \<noteq> [] then splits @ [cur] else splits)
      in ''(?i)'' @ splits_regex E 0 pattern_splits)"

definition pipe_pattern :: "env \<Rightarrow> pipe_element \<Rightarrow> string \<Rightarrow> string" where
  "pipe_pattern E pipe pat =
     (case pipe of
        Startswith \<Rightarrow> add_asterisk_end pat
      | Endswith \<Rightarrow> add_asterisk_begin pat
      | Contains \<Rightarrow> add_asterisk_end (add_asterisk_begin pat)
      | Wildcard \<Rightarrow> pipe_pattern_wildcard E pat
      | ReIgnoreCase \<Rightarrow> ''(?i)'' @ pat
      | ReMultiLine \<Rightarrow> ''(?m)'' @ pat
      | ReSingleLine \<Rightarrow> ''(?s)'' @ pat
      | _ \<Rightarrow> pat)"

definition from_pattern_to_regex_str :: "env \<Rightarrow> string \<Rightarrow> pipe_element list \<Rightarrow> string" where
  "from_pattern_to_regex_str E pat pipes = foldl (\<lambda>acc pipe. pipe_pattern E pipe acc) pat pipes"

subsection \<open>The wildcard loop against a structural translation\<close>

text \<open>
  The reference reads the characters once: a wildcard, an escaped wildcard, a literal
  backslash before a wildcard, any other character.
\<close>

datatype glob_item = Lit string | Any | One

fun glob_items :: "string list \<Rightarrow> glob_item list" where
  "glob_items [] = []"
| "glob_items (g # cs) =
     (if g = ''*'' then Any # glob_items cs
      else if g = ''?'' then One # glob_items cs
      else if g = [bsl] then
        (case cs of
           h # cs' \<Rightarrow>
             (if h = ''*'' \<or> h = ''?'' then Lit h # glob_items cs'
              else if h = [bsl] then
                (case cs' of
                   k # cs'' \<Rightarrow>
                     (if k = ''*'' then Lit [bsl] # Any # glob_items cs''
                      else if k = ''?'' then Lit [bsl] # One # glob_items cs''
                      else Lit [bsl] # glob_items cs)
                 | [] \<Rightarrow> Lit [bsl] # glob_items cs)
              else Lit [bsl] # glob_items cs)
         | [] \<Rightarrow> [Lit [bsl]])
      else Lit g # glob_items cs)"

text \<open>A run of literals becomes one escaped string, a wildcard its regex.\<close>

fun items_regex :: "env \<Rightarrow> string \<Rightarrow> glob_item list \<Rightarrow> string" where
  "items_regex E cur [] = (if cur = [] then [] else rx_escape E cur)"
| "items_regex E cur (Lit g # is) = items_regex E (cur @ g) is"
| "items_regex E cur (Any # is) = rx_escape E cur @ any_regex @ items_regex E [] is"
| "items_regex E cur (One # is) = rx_escape E cur @ ''.'' @ items_regex E [] is"

lemma chars_start_simps [simp]:
  "chars_start cs []"
  "\<not> chars_start [] (c # p)"
  "chars_start (g # cs) (c # p) \<longleftrightarrow> g = [c] \<and> chars_start cs p"
  by (simp_all add: chars_start_def)

lemma splits_regex_append:
  "splits_regex E n (a @ b) = splits_regex E n a @ splits_regex E (n + length a) b"
  by (induction a arbitrary: n) simp_all

lemma splits_regex_parity: "even n \<Longrightarrow> splits_regex E n b = splits_regex E 0 b"
proof -
  have "even n = even m \<Longrightarrow> splits_regex E n b = splits_regex E m b" for n m
  proof (induction b arbitrary: n m)
    case (Cons p ps)
    have "splits_regex E (n + 1) ps = splits_regex E (m + 1) ps"
      by (rule Cons.IH) (simp add: Cons.prems)
    moreover have "(n mod 2 = 0) = (m mod 2 = 0)" using Cons.prems by presburger
    ultimately show ?case by (simp only: splits_regex.simps)
  qed simp
  from this [of n 0] show "even n \<Longrightarrow> ?thesis" by simp
qed

text \<open>What the loop has pushed and holds, as a regex prefix.\<close>

definition loop_inv :: "env \<Rightarrow> string list \<Rightarrow> string list \<times> string \<times> nat \<Rightarrow> string \<Rightarrow> bool" where
  "loop_inv E cs st r =
     (case st of (splits, cur, idx) \<Rightarrow>
        even (length splits) \<and> r = splits_regex E 0 splits @ items_regex E cur (glob_items (drop idx cs)))"

lemma splits_regex_push:
  "even (length splits) \<Longrightarrow>
     splits_regex E 0 (splits @ [cur, w]) =
       splits_regex E 0 splits @ rx_escape E cur @ (if w = ''*'' then any_regex else ''.'')"
  using splits_regex_parity [of "length splits" E "[cur, w]"]
  by (simp add: splits_regex_append)

lemma bsl_neq [simp]: "bsl \<noteq> CHR ''*''" "bsl \<noteq> CHR ''?''" "CHR ''*'' \<noteq> bsl" "CHR ''?'' \<noteq> bsl"
  by (simp_all add: bsl_def)

lemma loop_inv_hit:
  assumes "loop_inv E cs (splits, cur, idx) r"
    and "wildcard_step cs [CHR ''*'', CHR ''?''] (splits, cur, idx) = Some st"
  shows "loop_inv E cs st r"
proof -
  have 1: "drop (idx + 1) cs = drop 1 (drop idx cs)" "drop (idx + 2) cs = drop 2 (drop idx cs)"
    "drop (idx + 3) cs = drop 3 (drop idx cs)"
    by (simp_all add: add.commute)
  consider (none) "drop idx cs = []" | (one) a where "drop idx cs = [a]"
    | (two) a b where "drop idx cs = [a, b]" | (more) a b c rest where "drop idx cs = a # b # c # rest"
    by (metis list.exhaust)
  then show ?thesis
  proof cases
    case none
    with assms show ?thesis by simp
  next
    case one
    with assms 1 show ?thesis
      by (auto simp: loop_inv_def splits_regex_push split: if_splits)
  next
    case two
    with assms 1 show ?thesis
      by (auto simp: loop_inv_def splits_regex_push split: if_splits)
  next
    case more
    with assms 1 show ?thesis
      by (auto simp: loop_inv_def splits_regex_push numeral_3_eq_3 split: if_splits)
  qed
qed

lemma loop_inv_miss:
  assumes "loop_inv E cs (splits, cur, idx) r"
    and "wildcard_step cs [CHR ''*'', CHR ''?''] (splits, cur, idx) = None"
  shows "loop_inv E cs (splits, cur @ concat (take 1 (drop idx cs)), idx + 1) r"
proof (cases "drop idx cs")
  case Nil
  then have "drop (idx + 1) cs = []" by simp
  with Nil assms show ?thesis by (simp add: loop_inv_def)
next
  case (Cons g rest)
  then have "drop (idx + 1) cs = rest" by (metis add.commute drop_drop drop_0 drop_Suc_Cons One_nat_def plus_1_eq_Suc)
  moreover have "glob_items (g # rest) = Lit g # glob_items rest"
    using assms(2) Cons by (auto split: if_splits list.splits)
  ultimately show ?thesis using assms(1) Cons by (simp add: loop_inv_def)
qed

lemma wildcard_loop_regex:
  "loop_inv E cs (splits, cur, idx) r \<Longrightarrow> length cs \<le> len \<Longrightarrow>
     (case wildcard_loop cs len (splits, cur, idx) of (sp, c) \<Rightarrow>
        even (length sp) \<and> r = splits_regex E 0 sp @ (if c = [] then [] else rx_escape E c))"
proof (induction cs len "(splits, cur, idx)" arbitrary: splits cur idx rule: wildcard_loop.induct)
  case (1 cs len splits cur idx)
  show ?case
  proof (cases "idx < len")
    case False
    with 1(3,4) show ?thesis by (simp add: wildcard_loop.simps loop_inv_def)
  next
    case True
    show ?thesis
    proof (cases "wildcard_step cs [CHR ''*'', CHR ''?''] (splits, cur, idx)")
      case None
      with 1(1) [OF True None loop_inv_miss [OF 1(3) None] 1(4)] True show ?thesis
        by (subst wildcard_loop.simps) simp
    next
      case (Some st)
      obtain sp c i where st: "st = (sp, c, i)" by (cases st)
      have "loop_inv E cs (sp, c, i) r" using loop_inv_hit [OF 1(3) Some] st by simp
      from 1(2) [OF True Some [unfolded st] this 1(4)] show ?thesis
        using True Some st by (subst wildcard_loop.simps) simp
    qed
  qed
qed

text \<open>The index loop and the fold over its splits are the structural translation.\<close>

lemma pipe_pattern_wildcard_items:
  "pipe_pattern_wildcard E pat = ''(?i)'' @ items_regex E [] (glob_items (utf8_chars pat))"
proof -
  have "loop_inv E (utf8_chars pat) ([], [], 0) (items_regex E [] (glob_items (utf8_chars pat)))"
    by (simp add: loop_inv_def)
  note loop = wildcard_loop_regex [OF this length_utf8_chars_le]
  obtain sp c where st: "wildcard_loop (utf8_chars pat) (length pat) ([], [], 0) = (sp, c)"
    by (cases "wildcard_loop (utf8_chars pat) (length pat) ([], [], 0)")
  have "splits_regex E 0 (sp @ [c]) = splits_regex E 0 sp @ rx_escape E c" if "even (length sp)"
    using that splits_regex_parity [of "length sp" E "[c]"] by (simp add: splits_regex_append)
  with loop show ?thesis by (simp add: pipe_pattern_wildcard_def st)
qed

end
