(* ===== verification/Fast_Match.thy ===== *)
theory Fast_Match
  imports Pipe_Elements
begin

section \<open>Matching without regular expressions (fast\_match.rs)\<close>

text \<open>
  Wildcard patterns with asterisks only at the ends become comparisons of strings. The
  variants carry the text to compare with; \<open>None\<close> means that the regex has to decide.
\<close>

datatype fast_match =
    FExact string
  | FStartsWith string
  | FEndsWith string
  | FContains string
  | FAllOnly string

definition eq_ignore_case :: "string \<Rightarrow> string \<Rightarrow> bool" where
  "eq_ignore_case event_value match_str \<longleftrightarrow>
     length match_str = length event_value \<and> eq_ignore_ascii_case match_str event_value"

definition starts_with_ignore_case :: "string \<Rightarrow> string \<Rightarrow> bool option" where
  "starts_with_ignore_case event_value match_str =
     (let len = length match_str in
      if len > length event_value then Some False
      else if is_ascii event_value then Some (eq_ignore_ascii_case match_str (take len event_value))
      else None)"

definition ends_with_ignore_case :: "string \<Rightarrow> string \<Rightarrow> bool option" where
  "ends_with_ignore_case event_value match_str =
     (let len1 = length match_str; len2 = length event_value in
      if len1 > len2 then Some False
      else if is_ascii event_value then Some (eq_ignore_ascii_case match_str (drop (len2 - len1) event_value))
      else None)"

definition is_literal_asterisk :: "string \<Rightarrow> bool" where
  "is_literal_asterisk s \<longleftrightarrow> ends_with s [bsl, CHR ''*''] \<and> \<not> ends_with s [bsl, bsl, CHR ''*'']"

definition unescape :: "string \<Rightarrow> string" where
  "unescape s = replace_all [bsl, bsl] [bsl] s"

definition convert_to_fast_match :: "env \<Rightarrow> string \<Rightarrow> bool \<Rightarrow> fast_match list option" where
  "convert_to_fast_match E s ignore_case =
     (let wildcard_count = length (filter (\<lambda>c. c = CHR ''*'') s) in
      if contains_str s ''?'' \<or> ends_with s [bsl, bsl, bsl, CHR ''*''] \<or> (\<not> is_ascii s \<and> contains_str s ''*'')
      then None
      else if starts_with s ''allOnly*'' \<and> ends_with s ''*'' \<and> wildcard_count = 2
      then (let removed_asterisk = unescape (take (length s - 1 - 8) (drop 8 s)) in
            Some [FAllOnly (if ignore_case then to_lowercase E removed_asterisk else removed_asterisk)])
      else if starts_with s ''*'' \<and> ends_with s ''*'' \<and> wildcard_count = 2 \<and> \<not> is_literal_asterisk s
      then (let removed_asterisk = unescape (take (length s - 1 - 1) (drop 1 s)) in
            Some [FContains (if ignore_case then to_lowercase E removed_asterisk else removed_asterisk)])
      else if starts_with s ''*'' \<and> wildcard_count = 1 \<and> \<not> is_literal_asterisk s
      then Some [FEndsWith (unescape (drop 1 s))]
      else if ends_with s ''*'' \<and> wildcard_count = 1 \<and> \<not> is_literal_asterisk s
      then Some [FStartsWith (unescape (take (length s - 1) s))]
      else if contains_str s ''*'' then None
      else Some [FExact (unescape s)])"

text \<open>\<open>replacen(windash_chars, "/", 1)\<close>: the first dash-like character becomes a slash.\<close>

fun replace_first_char :: "string list \<Rightarrow> string list \<Rightarrow> string list" where
  "replace_first_char ds [] = []"
| "replace_first_char ds (g # gs) = (if g \<in> set ds then ''/'' # gs else g # replace_first_char ds gs)"

definition windash_slash :: "env \<Rightarrow> string \<Rightarrow> string" where
  "windash_slash E s = concat (replace_first_char (windash E) (utf8_chars s))"

definition check_contains :: "env \<Rightarrow> pipe_element list \<Rightarrow> string \<Rightarrow> string \<Rightarrow> bool" where
  "check_contains E pipes event_value s =
     (if Windash \<in> set pipes then contains_str (to_lowercase E (windash_slash E event_value)) s
      else if Cased \<in> set pipes then contains_str event_value s
      else contains_str (to_lowercase E event_value) s)"

definition check_fast_match :: "env \<Rightarrow> pipe_element list \<Rightarrow> string \<Rightarrow> fast_match list \<Rightarrow> bool option" where
  "check_fast_match E pipes event_value fast_matcher =
     (case fast_matcher of
        [fm] \<Rightarrow>
          (case fm of
             FExact s \<Rightarrow> Some (eq_ignore_case event_value s)
           | FStartsWith s \<Rightarrow>
               (if Cased \<in> set pipes then Some (starts_with event_value s)
                else starts_with_ignore_case event_value s)
           | FEndsWith s \<Rightarrow>
               (if Cased \<in> set pipes then Some (ends_with event_value s)
                else ends_with_ignore_case event_value s)
           | FContains s \<Rightarrow> Some (check_contains E pipes event_value s)
           | FAllOnly s \<Rightarrow> Some (check_contains E pipes event_value s))
      | _ \<Rightarrow>
          Some (list_ex (\<lambda>fm. case fm of
             FContains s \<Rightarrow>
               (if Windash \<in> set pipes
                then contains_str (to_lowercase E (windash_slash E event_value)) s
                else contains_str event_value s)
           | _ \<Rightarrow> False) fast_matcher))"

definition create_fast_match :: "env \<Rightarrow> pipe_element list \<Rightarrow> string \<Rightarrow> fast_match list option" where
  "create_fast_match E pipes pat =
     (case pipes of
        [] \<Rightarrow> None
      | element # _ \<Rightarrow>
          (case element of
             Startswith \<Rightarrow> convert_to_fast_match E (pat @ ''*'') True
           | Endswith \<Rightarrow> convert_to_fast_match E (''*'' @ pat) True
           | Contains \<Rightarrow> convert_to_fast_match E (''*'' @ pat @ ''*'') True
           | AllOnly \<Rightarrow> convert_to_fast_match E (''allOnly*'' @ pat @ ''*'') True
           | _ \<Rightarrow> None))"

subsection \<open>Wildcard semantics\<close>

text \<open>
  The meaning of a wildcard pattern on a whole value: letters compare without regard to
  ASCII case, an asterisk stands for any sequence.
\<close>

fun glob :: "string \<Rightarrow> string \<Rightarrow> bool" where
  "glob [] v = (v = [])"
| "glob (p # ps) [] = (p = CHR ''*'' \<and> glob ps [])"
| "glob (p # ps) (c # cs) =
     (if p = CHR ''*'' then glob ps (c # cs) \<or> glob (p # ps) cs
      else ascii_lower_char p = ascii_lower_char c \<and> glob ps cs)"

lemma glob_star: "glob (CHR ''*'' # ps) v \<longleftrightarrow> (\<exists>t u. v = t @ u \<and> glob ps u)"
proof (induction v)
  case (Cons c cs)
  have "(\<exists>t u. c # cs = t @ u \<and> glob ps u) \<longleftrightarrow> glob ps (c # cs) \<or> (\<exists>t u. cs = t @ u \<and> glob ps u)"
    by (metis append_Cons append_Nil append_eq_Cons_conv)
  with Cons show ?case by simp
qed simp

lemma glob_literal_prefix:
  "CHR ''*'' \<notin> set m \<Longrightarrow>
     glob (m @ q) v \<longleftrightarrow> length m \<le> length v \<and>
       to_ascii_lowercase m = to_ascii_lowercase (take (length m) v) \<and> glob q (drop (length m) v)"
proof (induction m arbitrary: v)
  case (Cons p m)
  then show ?case by (cases v) (auto simp: to_ascii_lowercase_def)
qed (simp add: to_ascii_lowercase_def)

lemma glob_star_end [simp]: "glob ''*'' v"
  by (induction v) auto

lemma glob_literal:
  "CHR ''*'' \<notin> set m \<Longrightarrow> glob m v \<longleftrightarrow> eq_ignore_ascii_case m v"
proof -
  assume "CHR ''*'' \<notin> set m"
  from glob_literal_prefix [OF this, of "[]" v] show ?thesis
    by (auto simp: eq_ignore_ascii_case_def)
       (metis length_to_ascii_lowercase order_refl take_all)+
qed

lemma count_list_zero: "length (filter (\<lambda>c. c = a) s) = 0 \<longleftrightarrow> a \<notin> set s"
  by (induction s) auto

lemma unescape_id: "bsl \<notin> set s \<Longrightarrow> unescape s = s"
  unfolding unescape_def
  by (rule replace_all_id) (auto simp: contains_str_iff)

lemma not_literal_asterisk: "bsl \<notin> set s \<Longrightarrow> \<not> is_literal_asterisk s"
  by (auto simp: is_literal_asterisk_def ends_with_iff)

lemma lower_take: "to_ascii_lowercase (take n s) = take n (to_ascii_lowercase s)"
  "to_ascii_lowercase (drop n s) = drop n (to_ascii_lowercase s)"
  by (simp_all add: to_ascii_lowercase_def take_map drop_map)

lemma check_prefix:
  "is_ascii v \<Longrightarrow> CHR ''*'' \<notin> set m \<Longrightarrow> starts_with_ignore_case v m = Some (glob (m @ ''*'') v)"
  by (auto simp: starts_with_ignore_case_def Let_def glob_literal_prefix eq_ignore_ascii_case_def)

lemma check_suffix:
  assumes "is_ascii v" and "CHR ''*'' \<notin> set m"
  shows "ends_with_ignore_case v m = Some (glob (CHR ''*'' # m) v)"
proof -
  have "glob (CHR ''*'' # m) v \<longleftrightarrow>
      length m \<le> length v \<and> to_ascii_lowercase m = to_ascii_lowercase (drop (length v - length m) v)"
    (is "?l = ?r")
  proof
    assume ?l
    then obtain t u where v: "v = t @ u" and u: "eq_ignore_ascii_case m u"
      using assms(2) by (auto simp: glob_star glob_literal)
    then have "length u = length m"
      by (metis eq_ignore_ascii_case_def length_to_ascii_lowercase)
    with v u show ?r by (simp add: eq_ignore_ascii_case_def)
  next
    assume ?r
    then show ?l
      using assms(2) unfolding glob_star glob_literal [OF assms(2)] eq_ignore_ascii_case_def
      by (metis append_take_drop_id)
  qed
  with assms show ?thesis
    by (auto simp: ends_with_ignore_case_def Let_def eq_ignore_ascii_case_def)
qed

lemma lower_append_iff:
  "to_ascii_lowercase v = a @ b \<longleftrightarrow>
     (\<exists>t u. v = t @ u \<and> to_ascii_lowercase t = a \<and> to_ascii_lowercase u = b)"
  by (auto simp: to_ascii_lowercase_def map_eq_append_conv)

lemma check_infix:
  assumes "CHR ''*'' \<notin> set m"
  shows "contains_str (to_ascii_lowercase v) (to_ascii_lowercase m) \<longleftrightarrow> glob (CHR ''*'' # m @ ''*'') v"
proof -
  have pre: "glob (m @ ''*'') u \<longleftrightarrow> (\<exists>a b. u = a @ b \<and> to_ascii_lowercase a = to_ascii_lowercase m)" for u
  proof
    assume "glob (m @ ''*'') u"
    then show "\<exists>a b. u = a @ b \<and> to_ascii_lowercase a = to_ascii_lowercase m"
      using glob_literal_prefix [OF assms] by (metis append_take_drop_id)
  next
    assume "\<exists>a b. u = a @ b \<and> to_ascii_lowercase a = to_ascii_lowercase m"
    then obtain a b where u: "u = a @ b" and a: "to_ascii_lowercase a = to_ascii_lowercase m" by blast
    then have "length a = length m" by (metis length_to_ascii_lowercase)
    with u a show "glob (m @ ''*'') u" by (simp add: glob_literal_prefix [OF assms])
  qed
  show ?thesis
    by (simp only: glob_star pre contains_str_iff lower_append_iff) (metis to_ascii_lowercase_def)
qed

text \<open>Where the asterisks of a convertible pattern are.\<close>

lemma one_star_begin:
  assumes "starts_with s ''*''" and "length (filter (\<lambda>c. c = CHR ''*'') s) = 1"
  obtains m where "s = CHR ''*'' # m" and "CHR ''*'' \<notin> set m"
proof -
  obtain m where s: "s = CHR ''*'' # m" using assms(1) by (auto simp: starts_with_iff)
  with assms(2) have "CHR ''*'' \<notin> set m" by (simp add: count_list_zero [symmetric])
  with s show thesis by (rule that)
qed

lemma one_star_end:
  assumes "ends_with s ''*''" and "length (filter (\<lambda>c. c = CHR ''*'') s) = 1"
  obtains m where "s = m @ ''*''" and "CHR ''*'' \<notin> set m"
proof -
  obtain m where s: "s = m @ ''*''" using assms(1) by (auto simp: ends_with_iff)
  with assms(2) have "CHR ''*'' \<notin> set m" by (simp add: count_list_zero [symmetric])
  with s show thesis by (rule that)
qed

lemma two_stars:
  assumes "starts_with s ''*''" and "ends_with s ''*''"
    and "length (filter (\<lambda>c. c = CHR ''*'') s) = 2"
  obtains m where "s = CHR ''*'' # m @ ''*''" and "CHR ''*'' \<notin> set m"
proof -
  obtain t where t: "s = t @ ''*''" using assms(2) by (auto simp: ends_with_iff)
  with assms(1,3) have "t \<noteq> []" by (auto simp: starts_with_def)
  with t assms(1) have "starts_with t ''*''" by (cases t) auto
  moreover have "length (filter (\<lambda>c. c = CHR ''*'') t) = 1" using assms(3) t by simp
  ultimately obtain m where "t = CHR ''*'' # m" "CHR ''*'' \<notin> set m" by (rule one_star_begin)
  with t show thesis by (intro that [of m]) simp_all
qed

lemma fast_match_is_glob:
  assumes ascii: "is_ascii p" "is_ascii v" and esc: "bsl \<notin> set p"
    and all_only: "\<not> starts_with p ''allOnly*''"
    and fm: "convert_to_fast_match E p True = Some fm"
  shows "check_fast_match E [] v fm = Some (glob p v)"
proof -
  let ?n = "length (filter (\<lambda>c. c = CHR ''*'') p)"
  note lit = not_literal_asterisk [OF esc]
  consider (both) "starts_with p ''*''" "ends_with p ''*''" "?n = 2"
    | (at_begin) "starts_with p ''*''" "?n = 1"
    | (at_end) "\<not> starts_with p ''*''" "ends_with p ''*''" "?n = 1"
    | (exact) "CHR ''*'' \<notin> set p"
    using fm all_only lit
    by (auto simp: convert_to_fast_match_def Let_def contains_str_single split: if_splits)
  then show ?thesis
  proof cases
    case both
    then obtain m where p: "p = CHR ''*'' # m @ ''*''" and m: "CHR ''*'' \<notin> set m" by (rule two_stars)
    then have "fm = [FContains (to_ascii_lowercase m)]"
      using fm esc lit ascii both by (auto simp: convert_to_fast_match_def Let_def unescape_id split: if_splits)
    with check_infix [OF m, of v] ascii p show ?thesis
      by (simp add: check_fast_match_def check_contains_def)
  next
    case at_begin
    then obtain m where p: "p = CHR ''*'' # m" and m: "CHR ''*'' \<notin> set m" by (rule one_star_begin)
    then have "fm = [FEndsWith m]"
      using fm esc lit at_begin by (auto simp: convert_to_fast_match_def Let_def unescape_id split: if_splits)
    with check_suffix [OF ascii(2) m] p show ?thesis by (simp add: check_fast_match_def)
  next
    case at_end
    obtain m where p: "p = m @ ''*''" and m: "CHR ''*'' \<notin> set m"
      using at_end(2,3) by (rule one_star_end)
    then have "fm = [FStartsWith m]"
      using fm esc lit at_end by (auto simp: convert_to_fast_match_def Let_def unescape_id split: if_splits)
    with check_prefix [OF ascii(2) m] p show ?thesis by (simp add: check_fast_match_def)
  next
    case exact
    then have "fm = [FExact p]"
      using fm esc by (auto simp: convert_to_fast_match_def Let_def unescape_id contains_str_single
          count_list_zero [symmetric] split: if_splits)
    then show ?thesis
      by (auto simp: check_fast_match_def eq_ignore_case_def glob_literal [OF exact] eq_ignore_ascii_case_def)
         (metis length_to_ascii_lowercase)
  qed
qed

subsection \<open>The property of the component\<close>

text \<open>
  Matching without a regex is correct. Whenever an ASCII pattern without backslashes (and
  not of the internal \<open>allOnly\<close> form) converts to fast matches, these decide every ASCII value,
  and they accept it exactly when it matches the wildcard pattern as a whole, an asterisk
  standing for any sequence and letters compared without case.
\<close>

theorem fast_match_glob:
  assumes "is_ascii p" and "is_ascii v" and "bsl \<notin> set p" and "\<not> starts_with p ''allOnly*''"
    and "convert_to_fast_match E p True = Some fm"
  shows "check_fast_match E [] v fm = Some (glob p v)"
  by (rule fast_match_is_glob [OF assms])

theorem fast_match_glob_witness:
  "check_fast_match env0 [] ''C:/cmd.EXE'' [FEndsWith ''.exe''] = Some (glob ''*.exe'' ''C:/cmd.EXE'')"
proof (rule fast_match_glob)
  show "is_ascii ''*.exe''" "is_ascii ''C:/cmd.EXE''" by code_simp+
  show "convert_to_fast_match env0 ''*.exe'' True = Some [FEndsWith ''.exe'']" by code_simp
qed (simp_all add: bsl_def)

text \<open>
  A doubled backslash in a pattern, which stands for one in a rule, is collapsed by the
  fast path alone: for the pattern \<open>a\\b*\<close> the fast match looks for the prefix \<open>a\b\<close>, while the regex
  that decides values outside ASCII is made of the pattern with both backslashes.
\<close>

theorem doubled_backslash_diverges:
  "convert_to_fast_match E [CHR ''a'', bsl, bsl, CHR ''b'', CHR ''*''] True =
     Some [FStartsWith [CHR ''a'', bsl, CHR ''b'']] \<and>
   pipe_pattern_wildcard E [CHR ''a'', bsl, bsl, CHR ''b'', CHR ''*''] =
     ''(?i)'' @ rx_escape E [CHR ''a'', bsl, bsl, CHR ''b''] @ any_regex"
proof
  have asc: "byte (CHR ''a'') < 128" "byte bsl < 128" "byte (CHR ''b'') < 128" "byte (CHR ''*'') < 128"
    by (simp_all add: byte_def bsl_def)
  have u: "unescape [CHR ''a'', bsl, bsl, CHR ''b''] = [CHR ''a'', bsl, CHR ''b'']"
    by (simp add: unescape_def bsl_def)
  show "convert_to_fast_match E [CHR ''a'', bsl, bsl, CHR ''b'', CHR ''*''] True =
     Some [FStartsWith [CHR ''a'', bsl, CHR ''b'']]"
    using u by (simp add: convert_to_fast_match_def is_literal_asterisk_def ends_with_def asc asc [unfolded bsl_def] bsl_def)
  have "utf8_chars [CHR ''a'', bsl, bsl, CHR ''b'', CHR ''*''] =
      [[CHR ''a''], [bsl], [bsl], [CHR ''b''], [CHR ''*'']]"
    using asc by (subst utf8_chars_ascii) simp_all
  then show "pipe_pattern_wildcard E [CHR ''a'', bsl, bsl, CHR ''b'', CHR ''*''] =
     ''(?i)'' @ rx_escape E [CHR ''a'', bsl, bsl, CHR ''b''] @ any_regex"
    by (simp add: pipe_pattern_wildcard_items bsl_def)
qed

end
