(* ===== verification/Base64_Match.thy ===== *)
theory Base64_Match
  imports Fast_Match
begin

section \<open>Values encoded in base64 (base64\_match.rs)\<close>

text \<open>
  The three encodings of a value, one per alignment, cut down to the characters the value
  alone determines. Slicing a string out of its bounds panics, so a slice is an option.
  The base64 engine is the parameter \<open>base64_std\<close>; its alphabet is ASCII, so the
  conversion of its output to a string cannot fail.
\<close>

definition slice :: "nat \<Rightarrow> nat \<Rightarrow> string \<Rightarrow> string option" where
  "slice lo hi s = (if lo \<le> hi \<and> hi \<le> length s then Some (take (hi - lo) (drop lo s)) else None)"

subsection \<open>UTF-16\<close>

definition codepoint :: "string \<Rightarrow> nat" where
  "codepoint g =
     (case map byte g of
        [a] \<Rightarrow> a
      | [a, b] \<Rightarrow> (a mod 32) * 64 + b mod 64
      | [a, b, c] \<Rightarrow> (a mod 16) * 4096 + (b mod 64) * 64 + c mod 64
      | [a, b, c, d] \<Rightarrow> (a mod 8) * 262144 + (b mod 64) * 4096 + (c mod 64) * 64 + d mod 64
      | _ \<Rightarrow> 0)"

definition utf16_units :: "nat \<Rightarrow> nat list" where
  "utf16_units cp =
     (if cp < 65536 then [cp]
      else [55296 + (cp - 65536) div 1024, 56320 + (cp - 65536) mod 1024])"

definition encode_utf16 :: "string \<Rightarrow> nat list" where
  "encode_utf16 s = concat (map (\<lambda>g. utf16_units (codepoint g)) (utf8_chars s))"

definition to_le_bytes :: "nat \<Rightarrow> nat list" where
  "to_le_bytes u = [u mod 256, u div 256]"

definition to_be_bytes :: "nat \<Rightarrow> nat list" where
  "to_be_bytes u = [u div 256, u mod 256]"

definition as_bytes :: "string \<Rightarrow> nat list" where
  "as_bytes s = map byte s"

definition to_base64_utf8 :: "env \<Rightarrow> string \<Rightarrow> string" where
  "to_base64_utf8 E input = base64_no_pad E (as_bytes input)"

definition to_base64_utf16le_with_bom :: "env \<Rightarrow> string \<Rightarrow> bool \<Rightarrow> string" where
  "to_base64_utf16le_with_bom E input with_bom =
     base64_no_pad E ((if with_bom then [255, 254] else []) @ concat (map to_le_bytes (encode_utf16 input)))"

definition to_base64_utf16be :: "env \<Rightarrow> string \<Rightarrow> string" where
  "to_base64_utf16be E input = base64_no_pad E (concat (map to_be_bytes (encode_utf16 input)))"

subsection \<open>The three alignments\<close>

definition value_bytes :: "pipe_element option \<Rightarrow> string \<Rightarrow> nat list" where
  "value_bytes encode org_str =
     (case encode of
        Some Utf16Be \<Rightarrow> concat (map to_be_bytes (encode_utf16 org_str))
      | Some Utf16Le \<Rightarrow> concat (map to_le_bytes (encode_utf16 org_str))
      | Some Wide \<Rightarrow> concat (map to_le_bytes (encode_utf16 org_str))
      | _ \<Rightarrow> as_bytes org_str)"

text \<open>The encoder writes into a zeroed buffer of \<open>4n/3 + 4\<close> bytes, what it leaves stays zero.\<close>

definition nul :: char where
  "nul = CHR 0x00"

definition make_base64_str :: "env \<Rightarrow> pipe_element option \<Rightarrow> string \<Rightarrow> nat \<Rightarrow> string" where
  "make_base64_str E encode org_str variant_index =
     (let target_byte = replicate variant_index 0 @ value_bytes encode org_str;
          out = base64_std E target_byte;
          size = length target_byte * 4 div 3 + 4
      in if length out \<le> size then out @ replicate (size - length out) nul else replicate size nul)"

definition base64_offset :: "nat \<Rightarrow> string \<Rightarrow> string \<Rightarrow> string option" where
  "base64_offset offset b64_str filtered =
     (let m = (case find_char (CHR ''='') b64_str of Some i \<Rightarrow> i | None \<Rightarrow> 0) mod 4;
          lo = (if offset = 0 then 0 else offset + 1);
          cut = (if m = 2 then 3 else if m = 3 then 2 else 0)
      in if cut \<le> length filtered then slice lo (length filtered - cut) filtered else None)"

definition base64_variant :: "env \<Rightarrow> pipe_element option \<Rightarrow> string \<Rightarrow> nat \<Rightarrow> string option" where
  "base64_variant E encode org_str i =
     (let b64_str = make_base64_str E encode org_str i
      in base64_offset i b64_str (replace_all [nul] [] b64_str))"

text \<open>\<open>convert_to_base64_str\<close>; the outer \<open>None\<close> is the panic of a slice.\<close>

definition convert_to_base64_str ::
  "env \<Rightarrow> pipe_element option \<Rightarrow> string \<Rightarrow> fast_match list option option" where
  "convert_to_base64_str E encode org_str =
     (case (base64_variant E encode org_str 0, base64_variant E encode org_str 1, base64_variant E encode org_str 2) of
        (Some a, Some b, Some c) \<Rightarrow>
          (let fastmatches = concat (map (\<lambda>p. unwrap_or [] (convert_to_fast_match E (''*'' @ p @ ''*'') False)) [a, b, c])
           in Some (if fastmatches = [] then None else Some fastmatches))
      | _ \<Rightarrow> None)"

subsection \<open>The base64 encoding\<close>

text \<open>
  The standard encoding: the \<open>j\<close>-th character shows the \<open>j\<close>-th group of six bits, the
  missing bits of the last one are zero, and equals signs fill the last group of four.
\<close>

definition b64_char :: "nat \<Rightarrow> char" where
  "b64_char n =
     (if n < 26 then char_of (65 + n)
      else if n < 52 then char_of (97 + (n - 26))
      else if n < 62 then char_of (48 + (n - 52))
      else if n = 62 then CHR ''+'' else CHR ''/'')"

definition byte_at :: "nat list \<Rightarrow> nat \<Rightarrow> nat" where
  "byte_at bs k = (if k < length bs then bs ! k else 0)"

definition sextet :: "nat list \<Rightarrow> nat \<Rightarrow> nat" where
  "sextet bs j =
     (let k = 3 * (j div 4) in
      if j mod 4 = 0 then byte_at bs k div 4
      else if j mod 4 = 1 then (byte_at bs k mod 4) * 16 + byte_at bs (k + 1) div 16
      else if j mod 4 = 2 then (byte_at bs (k + 1) mod 16) * 4 + byte_at bs (k + 2) div 64
      else byte_at bs (k + 2) mod 64)"

definition b64_digits :: "nat \<Rightarrow> nat" where
  "b64_digits n = 4 * (n div 3) + (if n mod 3 = 0 then 0 else n mod 3 + 1)"

definition b64_encode :: "nat list \<Rightarrow> string" where
  "b64_encode bs =
     map (\<lambda>j. b64_char (sextet bs j)) [0..<b64_digits (length bs)] @
     replicate (if length bs mod 3 = 0 then 0 else 3 - length bs mod 3) (CHR ''='')"

text \<open>The characters of the encoding that a value at alignment \<open>i\<close> determines alone.\<close>

definition core_lo :: "nat \<Rightarrow> nat" where
  "core_lo i = (if i = 0 then 0 else i + 1)"

definition core_hi :: "nat \<Rightarrow> nat" where
  "core_hi n = 4 * (n div 3) + n mod 3"

definition b64_core :: "nat \<Rightarrow> nat list \<Rightarrow> string" where
  "b64_core i needle =
     (let bs = replicate i 0 @ needle
      in map (\<lambda>j. b64_char (sextet bs j)) [core_lo i..<core_hi (length bs)])"

lemma byte_at_shift:
  assumes "length pre = 3 * q + i" and "i \<le> k" and "k < i + length needle"
  shows "byte_at (pre @ needle @ post) (3 * q + k) = byte_at (replicate i 0 @ needle) k"
  using assms by (auto simp: byte_at_def nth_append)

lemma core_bytes:
  assumes "i < 3" and "n = 3 * d + e" and "e < 3" and "j = 4 * m + r" and "r < 4"
    and "core_lo i \<le> j" and "j < 4 * d + e"
  shows "r \<le> 1 \<Longrightarrow> i \<le> 3 * m" and "r \<le> 1 \<Longrightarrow> 3 * m < n"
    and "r = 1 \<or> r = 2 \<Longrightarrow> i \<le> 3 * m + 1" and "r = 1 \<or> r = 2 \<Longrightarrow> 3 * m + 1 < n"
    and "i \<le> 3 * m + 2" and "2 \<le> r \<Longrightarrow> 3 * m + 2 < n"
proof -
  have lo: "i = 0 \<or> i + 1 \<le> 4 * m + r" using assms(4,6) by (auto simp: core_lo_def split: if_splits)
  show "r \<le> 1 \<Longrightarrow> i \<le> 3 * m" "r = 1 \<or> r = 2 \<Longrightarrow> i \<le> 3 * m + 1" "i \<le> 3 * m + 2"
    using lo assms(1) by (cases m; auto)+
  show "r \<le> 1 \<Longrightarrow> 3 * m < n" "r = 1 \<or> r = 2 \<Longrightarrow> 3 * m + 1 < n" "2 \<le> r \<Longrightarrow> 3 * m + 2 < n"
    using assms(2-5,7) by arith+
qed

text \<open>A determined character is the same one in every encoding of data that holds the value there.\<close>

lemma sextet_shift:
  assumes pre: "length pre = 3 * q + i" and i: "i < 3"
    and j: "core_lo i \<le> j" "j < core_hi (i + length needle)"
  shows "sextet (pre @ needle @ post) (4 * q + j) = sextet (replicate i 0 @ needle) j"
proof -
  let ?n = "i + length needle"
  define k r where kr: "k = 3 * (j div 4)" "r = j mod 4"
  have r4: "r < 4" by (simp add: kr)
  have jj: "j = 4 * (j div 4) + r" by (simp add: kr)
  have nn: "?n = 3 * (?n div 3) + ?n mod 3" by simp
  have e3: "?n mod 3 < 3" by simp
  note bnd = core_bytes [OF i nn e3 jj r4 j(1) j(2) [unfolded core_hi_def], folded kr(1)]
  note at = byte_at_shift [OF pre, of _ needle post]
  have q: "(4 * q + j) div 4 = q + j div 4" "(4 * q + j) mod 4 = r" by (simp_all add: kr)
  have k3: "3 * (q + j div 4) = 3 * q + k" by (simp add: kr)
  have "r = 0 \<or> r = 1 \<or> r = 2 \<or> r = 3" using r4 by arith
  then show ?thesis
  proof (elim disjE)
    assume "r = 0"
    with at [of k] bnd(1,2) show ?thesis by (simp add: sextet_def Let_def q k3 kr [symmetric])
  next
    assume "r = 1"
    with at [of k] at [of "k + 1"] bnd(1-4) show ?thesis
      by (simp add: sextet_def Let_def q k3 kr [symmetric])
  next
    assume "r = 2"
    with at [of "k + 1"] at [of "k + 2"] bnd(3-6) show ?thesis
      by (simp add: sextet_def Let_def q k3 kr [symmetric])
  next
    assume "r = 3"
    with at [of "k + 2"] bnd(5,6) show ?thesis
      by (simp add: sextet_def Let_def q k3 kr [symmetric])
  qed
qed


lemma length_b64_encode: "length (b64_encode bs) = 4 * ((length bs + 2) div 3)"
proof -
  obtain d e where n: "length bs = 3 * d + e" "e < 3"
    by (metis mod_less_divisor mult_div_mod_eq zero_less_numeral)
  then have "e = 0 \<or> e = 1 \<or> e = 2" by arith
  with n show ?thesis by (auto simp: b64_encode_def b64_digits_def)
qed

lemma core_hi_digits: "core_hi n \<le> b64_digits n"
  by (auto simp: core_hi_def b64_digits_def)

lemma core_hi_alt: "core_hi n = n + n div 3"
proof -
  have "n = 3 * (n div 3) + n mod 3" by simp
  then show ?thesis unfolding core_hi_def by linarith
qed

lemma core_hi_shift: "core_hi (3 * q + x) = 4 * q + core_hi x"
proof -
  have "(3 * q + x) div 3 = q + x div 3" by simp
  then show ?thesis by (simp only: core_hi_alt)
qed

lemma core_hi_mono: "a \<le> b \<Longrightarrow> core_hi a \<le> core_hi b"
  unfolding core_hi_alt by (intro add_mono div_le_mono)

lemma upt_split: "a \<le> b \<Longrightarrow> b \<le> c \<Longrightarrow> [a..<c] = [a..<b] @ [b..<c]"
  using upt_add_eq_append [of a b "c - b"] by simp

lemma map_shift_upt: "map (\<lambda>j. a + j) [l..<h] = [a + l..<a + h]"
  by (induction h) auto

lemma b64_core_in_encoding:
  assumes pre: "length pre = 3 * q + i" and i: "i < 3"
  shows "contains_str (b64_encode (pre @ needle @ post)) (b64_core i needle)"
proof -
  let ?d = "pre @ needle @ post" and ?hi = "core_hi (i + length needle)" and ?lo = "core_lo i"
  let ?f = "\<lambda>j. b64_char (sextet ?d j)"
  have core: "b64_core i needle = map ?f [4 * q + ?lo..<4 * q + ?hi]"
  proof -
    have "b64_core i needle = map (\<lambda>j. ?f (4 * q + j)) [?lo..<?hi]"
      by (auto simp: b64_core_def sextet_shift [OF pre i])
    also have "\<dots> = map ?f (map (\<lambda>j. 4 * q + j) [?lo..<?hi])" by simp
    also have "map (\<lambda>j. 4 * q + j) [?lo..<?hi] = [4 * q + ?lo..<4 * q + ?hi]"
      by (rule map_shift_upt)
    finally show ?thesis .
  qed
  have "4 * q + ?hi \<le> core_hi (length ?d)"
  proof -
    have "4 * q + ?hi = core_hi (3 * q + (i + length needle))"
      by (rule core_hi_shift [symmetric])
    also have "\<dots> \<le> core_hi (length ?d)"
      using pre by (intro core_hi_mono) simp
    finally show ?thesis .
  qed
  then have hi: "4 * q + ?hi \<le> b64_digits (length ?d)" using core_hi_digits le_trans by blast
  show ?thesis
  proof (cases "?lo \<le> ?hi")
    case False
    then show ?thesis by (simp add: core)
  next
    case True
    have "[0..<b64_digits (length ?d)] =
        [0..<4 * q + ?lo] @ [4 * q + ?lo..<4 * q + ?hi] @ [4 * q + ?hi..<b64_digits (length ?d)]"
      using upt_split [of 0 "4 * q + ?lo" "b64_digits (length ?d)"]
        upt_split [of "4 * q + ?lo" "4 * q + ?hi" "b64_digits (length ?d)"] True hi by simp
    then have "\<exists>t u. b64_encode ?d = t @ b64_core i needle @ u"
      unfolding b64_encode_def core by (metis (no_types) append_assoc map_append)
    then show ?thesis by (simp add: contains_str_iff)
  qed
qed

subsection \<open>What the matcher looks for\<close>

lemma byte_b64_char:
  "byte (b64_char n) = 43 \<or> (47 \<le> byte (b64_char n) \<and> byte (b64_char n) \<le> 57) \<or>
   (65 \<le> byte (b64_char n) \<and> byte (b64_char n) \<le> 90) \<or> (97 \<le> byte (b64_char n) \<and> byte (b64_char n) \<le> 122)"
proof -
  have "byte (CHR ''+'') = 43" "byte (CHR ''/'') = 47" by (simp_all add: byte_def)
  then show ?thesis by (auto simp: b64_char_def)
qed

lemma b64_char_neq:
  "b64_char n \<noteq> CHR ''=''" "b64_char n \<noteq> nul" "b64_char n \<noteq> CHR ''*''" "b64_char n \<noteq> CHR ''?''" "b64_char n \<noteq> bsl"
proof -
  have "byte (CHR ''='') = 61" "byte nul = 0" "byte (CHR ''*'') = 42" "byte (CHR ''?'') = 63" "byte bsl = 92"
    by (simp_all add: byte_def nul_def bsl_def)
  moreover have ne: "byte (b64_char n) \<notin> {61, 0, 42, 63, 92}"
    using byte_b64_char [of n] by auto
  ultimately show "b64_char n \<noteq> CHR ''=''" "b64_char n \<noteq> nul" "b64_char n \<noteq> CHR ''*''"
    "b64_char n \<noteq> CHR ''?''" "b64_char n \<noteq> bsl"
    using ne by auto
qed


lemma b64_core_chars:
  "c \<in> set (b64_core i needle) \<Longrightarrow> \<exists>n. c = b64_char n"
  by (auto simp: b64_core_def Let_def)

lemma b64_core_plain:
  "is_ascii (b64_core i needle)" "CHR ''*'' \<notin> set (b64_core i needle)"
  "CHR ''?'' \<notin> set (b64_core i needle)" "bsl \<notin> set (b64_core i needle)"
proof -
  have "byte (b64_char n) < 128" for n using byte_b64_char [of n] by auto
  then show "is_ascii (b64_core i needle)" by (auto simp: is_ascii_def dest!: b64_core_chars)
  show "CHR ''*'' \<notin> set (b64_core i needle)" "CHR ''?'' \<notin> set (b64_core i needle)"
    "bsl \<notin> set (b64_core i needle)"
    using b64_core_chars [of _ i needle] b64_char_neq by metis+
qed

text \<open>A plain text between two asterisks is a search for it.\<close>

lemma convert_contains:
  assumes "is_ascii p" and "CHR ''*'' \<notin> set p" and "CHR ''?'' \<notin> set p" and "bsl \<notin> set p"
  shows "convert_to_fast_match E (''*'' @ p @ ''*'') False = Some [FContains p]"
proof -
  let ?s = "''*'' @ p @ ''*''"
  have b: "bsl \<notin> set ?s" "CHR ''?'' \<notin> set ?s" using assms by auto
  have stars: "filter (\<lambda>c. c = CHR ''*'') p = []" using assms(2) by (auto simp: filter_empty_conv)
  have e: "\<not> ends_with ?s [bsl, bsl, bsl, CHR ''*'']"
  proof
    assume "ends_with ?s [bsl, bsl, bsl, CHR ''*'']"
    then obtain t where t: "?s = t @ [bsl, bsl, bsl, CHR ''*'']" by (auto simp only: ends_with_iff)
    show False using b(1) unfolding t by simp
  qed
  have a: "\<not> starts_with ?s ''allOnly*''" by simp
  have asc: "is_ascii ?s" using assms(1) by (simp add: byte_def)
  have sw: "starts_with ?s ''*''" "ends_with ?s ''*''" by (simp_all add: ends_with_iff)
  have cut: "take (length ?s - 1 - 1) (drop 1 ?s) = p" by simp
  show ?thesis
    unfolding convert_to_fast_match_def Let_def cut
    using e a asc sw b(2) not_literal_asterisk [OF b(1)] unescape_id [OF assms(4)] stars
    by (simp add: contains_str_single)
qed

lemma find_char_append:
  "c \<notin> set u \<Longrightarrow> find_char c (u @ v) = map_option (\<lambda>k. length u + k) (find_char c v)"
  by (induction u) (auto simp: option.map_comp comp_def map_option_case split: option.splits)

lemma find_char_None: "c \<notin> set u \<Longrightarrow> find_char c u = None"
  by (induction u) auto

lemma find_char_replicate: "0 < m \<Longrightarrow> find_char c (replicate m c @ v) = Some 0"
  by (cases m) simp_all

lemma b64_length_le: "length (b64_encode bs) \<le> length bs * 4 div 3 + 4"
proof -
  obtain d e where n: "length bs = 3 * d + e" "e < 3"
    by (metis mod_less_divisor mult_div_mod_eq zero_less_numeral)
  have "length (b64_encode bs) = 4 * ((3 * d + e + 2) div 3)" by (simp add: length_b64_encode n)
  moreover have "(3 * d + e + 2) div 3 \<le> d + 1" using n(2) by simp
  moreover have "(3 * d + e) * 4 div 3 = 4 * d + e * 4 div 3" by simp
  ultimately show ?thesis unfolding n(1) by linarith
qed

lemma length_b64_cut:
  "length (b64_encode bs) - (if length bs mod 3 = 1 then 3 else if length bs mod 3 = 2 then 2 else 0) =
     core_hi (length bs)"
  "(if length bs mod 3 = 1 then 3 else if length bs mod 3 = 2 then 2 else 0) \<le> length (b64_encode bs)"
proof -
  obtain d e where n: "length bs = 3 * d + e" "e < 3"
    by (metis mod_less_divisor mult_div_mod_eq zero_less_numeral)
  then have e: "e = 0 \<or> e = 1 \<or> e = 2" by arith
  then show "length (b64_encode bs) - (if length bs mod 3 = 1 then 3 else if length bs mod 3 = 2 then 2 else 0) =
     core_hi (length bs)"
    unfolding length_b64_encode n by (auto simp: core_hi_def)
  show "(if length bs mod 3 = 1 then 3 else if length bs mod 3 = 2 then 2 else 0) \<le> length (b64_encode bs)"
    unfolding length_b64_encode n using e by auto
qed

lemma slice_map_upt:
  "lo \<le> hi \<Longrightarrow> hi \<le> n \<Longrightarrow> slice lo hi (map f [0..<n] @ t) = Some (map f [lo..<hi])"
  by (simp add: slice_def take_map drop_map)

lemma base64_offset_core:
  fixes needle :: "nat list"
  assumes i: "i < 3" and needle: "needle \<noteq> []"
  defines "bs \<equiv> replicate i 0 @ needle"
  shows "base64_offset i (b64_encode bs @ replicate k nul) (b64_encode bs) = Some (b64_core i needle)"
proof -
  let ?n = "length bs" and ?digits = "map (\<lambda>j. b64_char (sextet bs j)) [0..<b64_digits (length bs)]"
  have "CHR ''='' \<notin> set ?digits" using b64_char_neq(1) by (metis ex_map_conv)
  moreover have "CHR ''='' \<notin> set (replicate k nul)" by (simp add: nul_def)
  ultimately have "(case find_char (CHR ''='') (b64_encode bs @ replicate k nul) of Some i \<Rightarrow> i | None \<Rightarrow> 0)
      = (if ?n mod 3 = 0 then 0 else b64_digits ?n)"
    by (cases "?n mod 3 = 0")
       (simp_all add: b64_encode_def find_char_append find_char_None find_char_replicate)
  moreover have "b64_digits ?n mod 4 = (if ?n mod 3 = 0 then 0 else ?n mod 3 + 1)"
    using mod_less_divisor [of 3 ?n] by (auto simp: b64_digits_def)
  ultimately have m: "(case find_char (CHR ''='') (b64_encode bs @ replicate k nul) of Some i \<Rightarrow> i | None \<Rightarrow> 0) mod 4
      = (if ?n mod 3 = 0 then 0 else ?n mod 3 + 1)"
    by simp
  have cut: "(if (if ?n mod 3 = 0 then 0 else ?n mod 3 + 1) = 2 then 3
      else if (if ?n mod 3 = 0 then 0 else ?n mod 3 + 1) = 3 then 2 else 0) =
      (if ?n mod 3 = 1 then 3 else if ?n mod 3 = 2 then 2 else (0::nat))"
    by auto
  have lo: "core_lo i \<le> core_hi ?n"
  proof -
    have "i = 0 \<or> i = 1 \<or> i = 2" using i by arith
    then have "core_lo i \<le> core_hi (i + 1)" by (elim disjE) (simp_all add: core_lo_def core_hi_def)
    also have "\<dots> \<le> core_hi ?n" using needle by (intro core_hi_mono) (simp add: bs_def Suc_le_eq)
    finally show ?thesis .
  qed
  have "slice (core_lo i) (core_hi ?n) (b64_encode bs) = Some (b64_core i needle)"
    unfolding b64_encode_def b64_core_def Let_def
    by (subst slice_map_upt [OF lo core_hi_digits]) (simp add: bs_def)
  then show ?thesis
    unfolding base64_offset_def Let_def m cut
    using length_b64_cut [of bs] by (simp add: core_lo_def)
qed

lemma utf8_chars_eq_Nil [simp]: "utf8_chars s = [] \<longleftrightarrow> s = []"
  by (cases s) simp_all

lemma value_bytes_Nil: "value_bytes encode s = [] \<longleftrightarrow> s = []"
proof -
  have "encode_utf16 s = [] \<longleftrightarrow> s = []"
    by (cases s) (auto simp: encode_utf16_def utf16_units_def)
  then show ?thesis
    by (auto simp: value_bytes_def as_bytes_def to_le_bytes_def to_be_bytes_def concat_eq_Nil_conv
        split: option.split pipe_element.split)
qed

lemma base64_variant_core:
  assumes std: "base64_std E = b64_encode" and i: "i < 3" and s: "s \<noteq> []"
  shows "base64_variant E encode s i = Some (b64_core i (value_bytes encode s))"
proof -
  let ?bs = "replicate i 0 @ value_bytes encode s"
  let ?k = "length ?bs * 4 div 3 + 4 - length (b64_encode ?bs)"
  have mk: "make_base64_str E encode s i = b64_encode ?bs @ replicate ?k nul"
    using b64_length_le [of ?bs] by (simp add: make_base64_str_def std Let_def)
  have "nul \<notin> set (b64_encode ?bs)"
  proof -
    have "nul \<noteq> CHR ''=''" by (simp add: nul_def)
    have "nul \<notin> set (map (\<lambda>j. b64_char (sextet ?bs j)) js)" for js
      using b64_char_neq(2) by (metis ex_map_conv)
    from this [of "[0..<b64_digits (length ?bs)]"] \<open>nul \<noteq> CHR ''=''\<close> show ?thesis
      by (simp add: b64_encode_def)
  qed
  then have "replace_all [nul] [] (b64_encode ?bs @ replicate ?k nul) = b64_encode ?bs"
    by (simp add: replace_all_filter filter_neq_id)
  with base64_offset_core [OF i, of "value_bytes encode s" ?k] s show ?thesis
    by (simp add: base64_variant_def Let_def mk value_bytes_Nil)
qed

lemma convert_base64_cores:
  assumes "base64_std E = b64_encode" and "s \<noteq> []"
  shows "convert_to_base64_str E encode s =
     Some (Some (map (\<lambda>i. FContains (b64_core i (value_bytes encode s))) [0, 1, 2]))"
proof -
  note v = base64_variant_core [OF assms(1) _ assms(2), of _ encode]
  have "convert_to_fast_match E (''*'' @ b64_core i (value_bytes encode s) @ ''*'') False =
      Some [FContains (b64_core i (value_bytes encode s))]" for i
    by (rule convert_contains) (rule b64_core_plain)+
  then show ?thesis
    by (simp add: convert_to_base64_str_def v Let_def)
qed

lemma base64offset_finds:
  assumes std: "base64_std E = b64_encode" and s: "s \<noteq> []" and w: "Windash \<notin> set pipes"
  shows "\<exists>fms. convert_to_base64_str E encode s = Some (Some fms) \<and>
     check_fast_match E pipes (b64_encode (pre @ value_bytes encode s @ post)) fms = Some True"
proof -
  let ?v = "value_bytes encode s"
  let ?i = "length pre mod 3" and ?q = "length pre div 3"
  have "contains_str (b64_encode (pre @ ?v @ post)) (b64_core ?i ?v)"
    by (rule b64_core_in_encoding [of _ ?q]) simp_all
  moreover have "?i = 0 \<or> ?i = 1 \<or> ?i = 2" using mod_less_divisor [of 3 "length pre"] by arith
  ultimately show ?thesis
    unfolding convert_base64_cores [OF std s] using w
    by (auto simp: check_fast_match_def)
qed

end
