(* ===== verification/Matchers.thy ===== *)
theory Matchers
  imports Base64_Match Lookup
begin

section \<open>Matchers of leaf nodes (matchers.rs)\<close>

text \<open>
  The four implementations of the \<open>LeafMatcher\<close> trait, each a constructor that holds what
  its \<open>init\<close> stored: a minimal length, the regexes of a file, or the state of the default
  matcher. A compiled regex is the text it was compiled from. \<open>Panic\<close> stands for the
  \<open>unwrap\<close> of a failed result.
\<close>

record default_matcher =
  re :: "string list option"
  fast :: "fast_match list option"
  pipes :: "pipe_element list"
  key_list :: "string list"

datatype leaf_matcher =
    MinlengthMatcher int
  | RegexesFileMatcher "string list"
  | AllowlistFileMatcher "string list"
  | DefaultMatcher default_matcher

definition new_default_matcher :: default_matcher where
  "new_default_matcher = \<lparr>re = None, fast = None, pipes = [], key_list = []\<rparr>"

subsection \<open>Length, regex file and allow list\<close>

definition minlength_is_target_key :: "string list \<Rightarrow> bool" where
  "minlength_is_target_key kl \<longleftrightarrow> length kl = 2 \<and> kl ! 1 = ''min_length''"

definition minlength_init :: "string list \<Rightarrow> yaml \<Rightarrow> (string list, leaf_matcher) outcome" where
  "minlength_init kl select_value =
     (case as_i64 select_value of
        None \<Rightarrow> Err [''min_length value should be an integer. [key:'' @ concat_selection_key kl @ '']'']
      | Some n \<Rightarrow> Ok (MinlengthMatcher n))"

definition regexes_is_target_key :: "string list \<Rightarrow> bool" where
  "regexes_is_target_key kl \<longleftrightarrow> length kl = 2 \<and> kl ! 1 = ''regexes''"

text \<open>Every line of the file is compiled; a line that is no regex panics.\<close>

definition compile_file_regexes :: "env \<Rightarrow> (string list \<Rightarrow> leaf_matcher) \<Rightarrow> string \<Rightarrow> (string list, leaf_matcher) outcome" where
  "compile_file_regexes E c filename =
     (case txt_file E filename of
        Inl e \<Rightarrow> Err [e]
      | Inr regexes \<Rightarrow> if list_all (rx_ok E) regexes then Ok (c regexes) else Panic)"

definition regexes_init :: "env \<Rightarrow> string list \<Rightarrow> yaml \<Rightarrow> (string list, leaf_matcher) outcome" where
  "regexes_init E kl select_value =
     (case (case select_value of
              YString _ \<Rightarrow> as_str select_value
            | YInteger _ \<Rightarrow> as_str select_value
            | YReal _ \<Rightarrow> as_str select_value
            | _ \<Rightarrow> None) of
        None \<Rightarrow> Err [''regexes value should be a string. [key:'' @ concat_selection_key kl @ '']'']
      | Some v \<Rightarrow> compile_file_regexes E RegexesFileMatcher v)"

definition check_regex :: "env \<Rightarrow> string \<Rightarrow> string list \<Rightarrow> bool" where
  "check_regex E s regex_list = list_ex (\<lambda>r. rx_match E r s) regex_list"

definition allowlist_is_target_key :: "string list \<Rightarrow> bool" where
  "allowlist_is_target_key kl \<longleftrightarrow> length kl = 2 \<and> kl ! 1 = ''allowlist''"

definition allowlist_init :: "env \<Rightarrow> string list \<Rightarrow> yaml \<Rightarrow> (string list, leaf_matcher) outcome" where
  "allowlist_init E kl select_value =
     (case (case select_value of
              YString s \<Rightarrow> Some s
            | YInteger i \<Rightarrow> Some (show_int i)
            | YReal r \<Rightarrow> Some r
            | _ \<Rightarrow> None) of
        None \<Rightarrow> Err [''allowlist value should be a string. [key:'' @ concat_selection_key kl @ '']'']
      | Some v \<Rightarrow> compile_file_regexes E AllowlistFileMatcher v)"

definition check_allowlist :: "env \<Rightarrow> string \<Rightarrow> string list \<Rightarrow> bool" where
  "check_allowlist E target regexes = list_ex (\<lambda>r. rx_match E r target) regexes"

subsection \<open>The default matcher\<close>

definition default_is_target_key :: "string list \<Rightarrow> bool" where
  "default_is_target_key kl \<longleftrightarrow> length kl \<le> 1 \<or> kl ! 1 = ''value''"

text \<open>The modifiers of the key, after the spellings \<open>change_map\<close> and \<open>fieldref\<close> rewrite.\<close>

definition change_flag :: "string \<Rightarrow> string" where
  "change_flag k =
     (if k = ''i'' then ''reignorecase''
      else if k = ''m'' then ''remultiline''
      else if k = ''s'' then ''resingleline'' else k)"

definition pipe_keys :: "string list \<Rightarrow> string list" where
  "pipe_keys kl =
     (let keys = split_char (CHR ''|'') (case kl of [] \<Rightarrow> [] | k # _ \<Rightarrow> k);
          keys1 = (if keys = [[], ''all''] then [[], ''allOnly''] else keys);
          keys2 =
            (case keys1 of
               a # b # c # rest \<Rightarrow>
                 (if b = ''re'' then a # change_flag c # rest
                  else if b = ''fieldref'' \<and> c = ''endswith'' then a # ''fieldrefendswith'' # rest
                  else if b = ''fieldref'' \<and> c = ''startswith'' then a # ''fieldrefstartswith'' # rest
                  else if b = ''fieldref'' \<and> c = ''contains'' then a # ''fieldrefcontains'' # rest
                  else keys1)
             | _ \<Rightarrow> keys1)
      in tl keys2)"

definition scalar_text :: "yaml \<Rightarrow> string option" where
  "scalar_text y =
     (case y of
        YBoolean b \<Rightarrow> Some (show_bool b)
      | YInteger i \<Rightarrow> Some (show_int i)
      | YReal r \<Rightarrow> Some r
      | YString s \<Rightarrow> Some s
      | _ \<Rightarrow> None)"

text \<open>The elements, or the messages of all that failed.\<close>

definition parse_pipes :: "env \<Rightarrow> string list \<Rightarrow> string \<Rightarrow> string list \<Rightarrow> string list + pipe_element list" where
  "parse_pipes E keys pat kl =
     (let rs = map (\<lambda>key. pipe_element_new E key pat kl) keys;
          errs = option_list (map (\<lambda>r. case r of Inl e \<Rightarrow> Some e | Inr _ \<Rightarrow> None) rs)
      in if errs \<noteq> [] then Inl errs
         else Inr (option_list (map (\<lambda>r. case r of Inr p \<Rightarrow> Some p | Inl _ \<Rightarrow> None) rs)))"

definition windash_fast :: "env \<Rightarrow> string \<Rightarrow> fast_match list option" where
  "windash_fast E pat =
     (let fastmatches =
            unwrap_or [] (convert_to_fast_match E (''*'' @ pat @ ''*'') True) @
            unwrap_or [] (convert_to_fast_match E (''*'' @ windash_slash E pat @ ''*'') True)
      in if fastmatches = [] then None else Some fastmatches)"

definition fast_two :: "env \<Rightarrow> pipe_element \<Rightarrow> pipe_element \<Rightarrow> string \<Rightarrow> fast_match list option option" where
  "fast_two E p0 p1 pat =
     (if p0 = Base64 \<and> p1 = Contains
      then Some (convert_to_fast_match E (''*'' @ to_base64_utf8 E pat @ ''*'') True)
      else if p0 = Base64offset \<and> p1 = Contains then convert_to_base64_str E None pat
      else if p0 = Contains \<and> p1 = All then Some (convert_to_fast_match E (''*'' @ pat @ ''*'') True)
      else if p0 = Contains \<and> p1 = Windash then Some (windash_fast E pat)
      else if p1 = Cased then
        Some (if p0 = Startswith then convert_to_fast_match E (pat @ ''*'') False
              else if p0 = Endswith then convert_to_fast_match E (''*'' @ pat) False
              else if p0 = Contains then convert_to_fast_match E (''*'' @ pat @ ''*'') False
              else None)
      else Some None)"

definition is_utf16_pipe :: "pipe_element \<Rightarrow> bool" where
  "is_utf16_pipe p \<longleftrightarrow> p = Utf16 \<or> p = Utf16Le \<or> p = Utf16Be \<or> p = Wide"

definition fast_base64offset :: "env \<Rightarrow> pipe_element \<Rightarrow> string \<Rightarrow> fast_match list option option" where
  "fast_base64offset E encode org_str =
     (if encode = Utf16
      then (case (convert_to_base64_str E (Some Utf16Le) org_str, convert_to_base64_str E (Some Utf16Be) org_str) of
              (Some le, Some be) \<Rightarrow>
                Some (case (le, be) of (Some a, Some b) \<Rightarrow> Some (a @ b) | _ \<Rightarrow> None)
            | _ \<Rightarrow> None)
      else convert_to_base64_str E (Some encode) org_str)"

definition base64_text :: "env \<Rightarrow> pipe_element \<Rightarrow> string \<Rightarrow> string" where
  "base64_text E encode org_str =
     (if encode = Utf16 then to_base64_utf16le_with_bom E org_str True
      else if encode = Utf16Le \<or> encode = Wide then to_base64_utf16le_with_bom E org_str False
      else if encode = Utf16Be then to_base64_utf16be E org_str
      else to_base64_utf8 E org_str)"

text \<open>The fast matches and the patterns of a key with three modifiers.\<close>

definition fast_three ::
  "env \<Rightarrow> pipe_element list \<Rightarrow> string \<Rightarrow> (fast_match list option \<times> string list) option" where
  "fast_three E ps pat =
     (if Contains \<in> set ps \<and> All \<in> set ps \<and> Windash \<in> set ps
      then Some (windash_fast E pat, [pat, windash_slash E pat])
      else if is_utf16_pipe (ps ! 0) \<and> (ps ! 1 = Base64offset \<or> ps ! 1 = Base64) \<and> ps ! 2 = Contains
      then (if ps ! 1 = Base64offset
            then map_option (\<lambda>f. (f, [pat])) (fast_base64offset E (ps ! 0) pat)
            else Some (convert_to_fast_match E (''*'' @ base64_text E (ps ! 0) pat @ ''*'') True, [pat]))
      else Some (None, [pat]))"

text \<open>\<open>None\<close> is a panic, \<open>Some (Inl e)\<close> an error.\<close>

definition fast_of_pipes ::
  "env \<Rightarrow> pipe_element list \<Rightarrow> string \<Rightarrow> string list \<Rightarrow>
   (string list + fast_match list option \<times> string list) option" where
  "fast_of_pipes E ps pat kl =
     (if length ps = 0 then Some (Inr (convert_to_fast_match E pat True, [pat]))
      else if length ps = 1 then Some (Inr (create_fast_match E ps pat, [pat]))
      else if length ps = 2 then map_option (\<lambda>f. Inr (f, [pat])) (fast_two E (ps ! 0) (ps ! 1) pat)
      else if length ps = 3 then map_option Inr (fast_three E ps pat)
      else Some (Inl [''Multiple pipe elements cannot be used. key:'' @ concat_selection_key kl]))"

fun is_eqfield :: "pipe_element \<Rightarrow> bool" where
  "is_eqfield p = (get_eqfield p \<noteq> None)"

definition is_re_pipe :: "pipe_element \<Rightarrow> bool" where
  "is_re_pipe p \<longleftrightarrow> p = Re \<or> p = ReIgnoreCase \<or> p = ReMultiLine \<or> p = ReSingleLine"

fun exact_or_contains :: "fast_match \<Rightarrow> bool" where
  "exact_or_contains (FExact _) = True"
| "exact_or_contains (FContains _) = True"
| "exact_or_contains _ = False"

fun compile_patterns :: "env \<Rightarrow> pipe_element list \<Rightarrow> string list \<Rightarrow> string list \<Rightarrow> string list + string list" where
  "compile_patterns E ps kl [] = Inr []"
| "compile_patterns E ps kl (p # rest) =
     (let pat = from_pattern_to_regex_str E p ps in
      if rx_ok E pat then bind_result (compile_patterns E ps kl rest) (\<lambda>rs. Inr (pat # rs))
      else Inl [''Cannot parse regex. [regex:'' @ pat @ '', key:'' @ concat_selection_key kl @ '']''])"

text \<open>The part of \<open>init\<close> after the fast matches: the regexes, unless they are not needed.\<close>

definition default_finish ::
  "env \<Rightarrow> string list \<Rightarrow> pipe_element list \<Rightarrow> fast_match list option \<Rightarrow> string list \<Rightarrow>
   (string list, leaf_matcher) outcome" where
  "default_finish E kl ps f patterns =
     (let m = \<lparr>re = None, fast = f, pipes = ps, key_list = kl\<rparr> in
      if (case f of Some fms \<Rightarrow> exact_or_contains (hd fms) | None \<Rightarrow> False) \<and> kl \<noteq> [] then Ok (DefaultMatcher m)
      else if list_ex is_eqfield ps then Ok (DefaultMatcher m)
      else (let ps' = (if list_ex is_re_pipe ps then ps else ps @ [Wildcard]) in
            case compile_patterns E ps' kl patterns of
              Inl e \<Rightarrow> Err e
            | Inr rs \<Rightarrow> Ok (DefaultMatcher (m\<lparr>re := Some rs, pipes := ps'\<rparr>))))"

definition default_init :: "env \<Rightarrow> string list \<Rightarrow> yaml \<Rightarrow> (string list, leaf_matcher) outcome" where
  "default_init E kl select_value =
     (if select_value = YNull then Ok (DefaultMatcher (new_default_matcher\<lparr>key_list := kl\<rparr>))
      else (case scalar_text select_value of
              None \<Rightarrow> Err [''An unknown error occured. [key:'' @ concat_selection_key kl @ '']'']
            | Some pat \<Rightarrow>
                (case parse_pipes E (pipe_keys kl) pat kl of
                   Inl errs \<Rightarrow> Err errs
                 | Inr ps \<Rightarrow>
                     (case fast_of_pipes E ps pat kl of
                        None \<Rightarrow> Panic
                      | Some (Inl errs) \<Rightarrow> Err errs
                      | Some (Inr (f, patterns)) \<Rightarrow> default_finish E kl ps f patterns))))"

text \<open>The modifiers decided by the first pipe alone.\<close>

definition compare_number :: "(nat \<Rightarrow> bool) \<Rightarrow> string \<Rightarrow> bool" where
  "compare_number test v = (case parse_usize v of Some n \<Rightarrow> test n | None \<Rightarrow> False)"

definition first_pipe_match :: "env \<Rightarrow> pipe_element \<Rightarrow> string option \<Rightarrow> recinfo \<Rightarrow> bool option" where
  "first_pipe_match E pipe event_value rec =
     (let v = unwrap_or [] event_value in
      case pipe of
        Cidr (Some c) \<Rightarrow> Some (ip_ok E v \<and> cidr_has E c v)
      | Cidr None \<Rightarrow> Some False
      | LookupIn name \<Rightarrow> Some (unwrap_or False (lookup_contains (lookup_tables E) name v))
      | NotLookup name \<Rightarrow> Some (\<not> unwrap_or True (lookup_contains (lookup_tables E) name v))
      | Gt n \<Rightarrow> Some (compare_number (\<lambda>e. e > n) v)
      | Lt n \<Rightarrow> Some (compare_number (\<lambda>e. e < n) v)
      | Gte n \<Rightarrow> Some (compare_number (\<lambda>e. e \<ge> n) v)
      | Lte n \<Rightarrow> Some (compare_number (\<lambda>e. e \<le> n) v)
      | Exists _ _ \<Rightarrow> Some (is_eqfield_match E pipe event_value rec)
      | p \<Rightarrow> if is_eqfield p then Some (is_eqfield_match E p event_value rec) else None)"

text \<open>\<open>is_match\<close> of the default matcher; \<open>None\<close> is the \<open>unwrap\<close> of a missing regex.\<close>

definition regex_any :: "env \<Rightarrow> default_matcher \<Rightarrow> string \<Rightarrow> bool option" where
  "regex_any E m v = map_option (list_ex (\<lambda>r. rx_match E r v)) (re m)"

definition default_is_match :: "env \<Rightarrow> default_matcher \<Rightarrow> string option \<Rightarrow> recinfo \<Rightarrow> bool option" where
  "default_is_match E m event_value rec =
     (case first_pipe_match E (case pipes m of [] \<Rightarrow> Wildcard | p # _ \<Rightarrow> p) event_value rec of
        Some b \<Rightarrow> Some b
      | None \<Rightarrow>
          (if key_list m = [] \<and> re m = None \<and> fast m = None then Some False
           else if re m = None \<and> fast m = None
           then Some (list_ex (\<lambda>v. get_value rec v = None) (key_list m))
           else (case event_value of
                   None \<Rightarrow> Some False
                 | Some v \<Rightarrow>
                     (if key_list m = [] then regex_any E m v
                      else (case fast m of
                              None \<Rightarrow> regex_any E m v
                            | Some fms \<Rightarrow>
                                (case check_fast_match E (pipes m) v fms of
                                   Some b \<Rightarrow> Some b
                                 | None \<Rightarrow> regex_any E m v))))))"

definition default_get_eqfield_key :: "default_matcher \<Rightarrow> string option" where
  "default_get_eqfield_key m = (case pipes m of [] \<Rightarrow> None | p # _ \<Rightarrow> get_eqfield p)"

subsection \<open>The trait\<close>

fun matcher_is_match :: "env \<Rightarrow> leaf_matcher \<Rightarrow> string option \<Rightarrow> recinfo \<Rightarrow> bool option" where
  "matcher_is_match E (MinlengthMatcher n) ev rec =
     Some (case ev of Some s \<Rightarrow> int (length s) \<ge> n | None \<Rightarrow> False)"
| "matcher_is_match E (RegexesFileMatcher rs) ev rec =
     Some (case ev of Some s \<Rightarrow> check_regex E s rs | None \<Rightarrow> False)"
| "matcher_is_match E (AllowlistFileMatcher rs) ev rec =
     Some (case ev of Some s \<Rightarrow> \<not> check_allowlist E s rs | None \<Rightarrow> True)"
| "matcher_is_match E (DefaultMatcher m) ev rec = default_is_match E m ev rec"

subsection \<open>A matcher that was initialised never panics\<close>

text \<open>
  A default matcher has its regexes, or needs none: it has neither them nor fast matches, its
  first pipe decides alone, or its fast matches always decide.
\<close>

definition matcher_ready :: "default_matcher \<Rightarrow> bool" where
  "matcher_ready m \<longleftrightarrow>
     re m \<noteq> None \<or> fast m = None \<or> (pipes m \<noteq> [] \<and> is_eqfield (hd (pipes m))) \<or>
     (key_list m \<noteq> [] \<and> (\<exists>fms. fast m = Some fms \<and> exact_or_contains (hd fms)))"

lemma check_fast_match_decides:
  "exact_or_contains (hd fms) \<Longrightarrow> check_fast_match E ps v fms \<noteq> None"
  by (cases "(fms, hd fms)" rule: prod.exhaust)
     (auto simp: check_fast_match_def split: list.splits fast_match.splits)

lemma is_eqfield_simps [simp]:
  "\<not> is_eqfield Contains" "\<not> is_eqfield All" "\<not> is_eqfield Windash" "\<not> is_eqfield Cased"
  "\<not> is_eqfield Base64" "\<not> is_eqfield Base64offset" "\<not> is_eqfield Utf16" "\<not> is_eqfield Utf16Le"
  "\<not> is_eqfield Utf16Be" "\<not> is_eqfield Wide" "\<not> is_eqfield Startswith" "\<not> is_eqfield Endswith"
  by simp_all

declare is_eqfield.simps [simp del]

lemma fast_of_pipes_eqfield:
  assumes f: "fast_of_pipes E ps pat kl = Some (Inr (f, pats))"
    and eq: "list_ex is_eqfield ps" and hd: "\<not> is_eqfield (hd ps)"
  shows "f = None"
proof -
  consider "ps = []" | a where "ps = [a]" | a b where "ps = [a, b]" | a b c where "ps = [a, b, c]"
    | a b c d r where "ps = a # b # c # d # r"
    by (metis list.exhaust)
  then show ?thesis
  proof cases
    case 3
    then have "is_eqfield b" using eq hd by simp
    then have "b \<noteq> Contains \<and> b \<noteq> All \<and> b \<noteq> Windash \<and> b \<noteq> Cased" by auto
    with f 3 show ?thesis by (auto simp: fast_of_pipes_def fast_two_def)
  next
    case 4
    then have "is_eqfield b \<or> is_eqfield c" using eq hd by simp
    then have n1: "\<not> (Contains \<in> set ps \<and> All \<in> set ps \<and> Windash \<in> set ps)"
      and n2: "\<not> (is_utf16_pipe (ps ! 0) \<and> (ps ! 1 = Base64offset \<or> ps ! 1 = Base64) \<and> ps ! 2 = Contains)"
      using 4 by auto
    have "fast_three E ps pat = Some (None, [pat])"
      unfolding fast_three_def if_not_P [OF n1] if_not_P [OF n2] by (rule refl)
    with f 4 show ?thesis by (simp add: fast_of_pipes_def)
  qed (use f eq hd in \<open>auto simp: fast_of_pipes_def\<close>)
qed

lemma matcher_ready_init:
  assumes "default_init E kl y = Ok (DefaultMatcher m)"
  shows "matcher_ready m"
proof (cases "y = YNull")
  case True
  with assms show ?thesis by (auto simp: default_init_def matcher_ready_def new_default_matcher_def)
next
  case False
  with assms obtain pat ps f pats where
    f: "fast_of_pipes E ps pat kl = Some (Inr (f, pats))"
    and fin: "default_finish E kl ps f pats = Ok (DefaultMatcher m)"
    by (auto simp: default_init_def split: option.splits sum.splits)
  show ?thesis
  proof (cases "(case f of Some fms \<Rightarrow> exact_or_contains (hd fms) | None \<Rightarrow> False) \<and> kl \<noteq> []")
    case True
    with fin show ?thesis
      by (auto simp: default_finish_def matcher_ready_def Let_def split: option.splits)
  next
    case no_fast: False
    show ?thesis
    proof (cases "list_ex is_eqfield ps")
      case True
      then have m: "m = \<lparr>re = None, fast = f, pipes = ps, key_list = kl\<rparr>" and ne: "ps \<noteq> []"
        using fin no_fast by (auto simp: default_finish_def Let_def)
      show ?thesis
      proof (cases "is_eqfield (hd ps)")
        case False
        from fast_of_pipes_eqfield [OF f True False] m show ?thesis by (simp add: matcher_ready_def)
      qed (use m ne in \<open>simp add: matcher_ready_def\<close>)
    next
      case False
      with fin no_fast show ?thesis
        by (auto simp: default_finish_def matcher_ready_def Let_def split: sum.splits)
    qed
  qed
qed

lemma first_pipe_eqfield:
  "is_eqfield p \<Longrightarrow> first_pipe_match E p ev rec \<noteq> None"
  by (cases p) (auto simp: first_pipe_match_def is_eqfield.simps split: option.splits)

lemma matcher_ready_is_match:
  assumes "matcher_ready m"
  shows "default_is_match E m ev rec \<noteq> None"
proof (cases "first_pipe_match E (case pipes m of [] \<Rightarrow> Wildcard | p # _ \<Rightarrow> p) ev rec")
  case None
  then have "\<not> (pipes m \<noteq> [] \<and> is_eqfield (hd (pipes m)))"
    using first_pipe_eqfield [of "hd (pipes m)" E ev rec] by (cases "pipes m") auto
  then consider "re m \<noteq> None" | "re m = None" "fast m = None"
    | fms where "key_list m \<noteq> []" "fast m = Some fms" "exact_or_contains (hd fms)"
    using assms by (auto simp: matcher_ready_def)
  then show ?thesis
  proof cases
    case 3
    have "\<exists>b. check_fast_match E (pipes m) v fms = Some b" for v
      using check_fast_match_decides [OF 3(3), of E "pipes m" v] by simp
    then show ?thesis
      using None 3 by (cases ev) (simp_all add: default_is_match_def, metis option.simps(5))
  qed (use None in \<open>auto simp: default_is_match_def regex_any_def split: option.splits\<close>)
qed (simp add: default_is_match_def)

subsection \<open>Wildcards\<close>

text \<open>The pattern that a modifier makes of a value, on a key with that modifier or none.\<close>

definition modified :: "pipe_element list \<Rightarrow> string \<Rightarrow> string" where
  "modified ps p =
     (if ps = [Startswith] then p @ ''*''
      else if ps = [Endswith] then ''*'' @ p
      else if ps = [Contains] then ''*'' @ p @ ''*'' else p)"

definition modifier_key :: "string \<Rightarrow> pipe_element list \<Rightarrow> string" where
  "modifier_key f ps =
     (if ps = [Startswith] then f @ ''|startswith''
      else if ps = [Endswith] then f @ ''|endswith''
      else if ps = [Contains] then f @ ''|contains'' else f)"

lemma parse_modifier_key:
  assumes "CHR ''|'' \<notin> set f" and "ps \<in> {[], [Startswith], [Endswith], [Contains]}"
  shows "parse_pipes E (pipe_keys [modifier_key f ps]) p kl = Inr ps"
  using assms
  by (auto simp: modifier_key_def pipe_keys_def split_char_append split_char_id parse_pipes_def
      pipe_element_new_def Let_def)

lemma fast_of_modifier:
  assumes "ps \<in> {[], [Startswith], [Endswith], [Contains]}"
  shows "fast_of_pipes E ps p kl = Some (Inr (convert_to_fast_match E (modified ps p) True, [p]))"
  using assms by (auto simp: fast_of_pipes_def create_fast_match_def modified_def)

lemma default_finish_keeps:
  assumes "default_finish E kl ps f pats = Ok (DefaultMatcher m)"
  shows "fast m = f \<and> key_list m = kl \<and> (pipes m = ps \<or> pipes m = ps @ [Wildcard])"
  using assms by (auto simp: default_finish_def Let_def split: if_splits sum.splits)

lemma check_fast_match_plain:
  "Windash \<notin> set ps \<Longrightarrow> Cased \<notin> set ps \<Longrightarrow> check_fast_match E ps v fms = check_fast_match E [] v fms"
  by (simp add: check_fast_match_def check_contains_def split: list.split fast_match.split)

lemma default_matcher_glob:
  assumes init: "default_init E [modifier_key f ps] (YString p) = Ok (DefaultMatcher m)"
    and f: "CHR ''|'' \<notin> set f" and ps: "ps \<in> {[], [Startswith], [Endswith], [Contains]}"
    and ascii: "is_ascii (modified ps p)" "is_ascii v" and esc: "bsl \<notin> set (modified ps p)"
    and all_only: "\<not> starts_with (modified ps p) ''allOnly*''"
    and conv: "convert_to_fast_match E (modified ps p) True \<noteq> None"
  shows "default_is_match E m (Some v) rec = Some (glob (modified ps p) v)"
proof -
  obtain fms where fms: "convert_to_fast_match E (modified ps p) True = Some fms" using conv by auto
  let ?kl = "[modifier_key f ps]"
  have "default_finish E ?kl ps (Some fms) [p] = Ok (DefaultMatcher m)"
    using init by (simp add: default_init_def scalar_text_def parse_modifier_key [OF f ps]
        fast_of_modifier [OF ps] fms)
  from default_finish_keeps [OF this]
  have m: "fast m = Some fms" "key_list m = ?kl" and mp: "pipes m = ps \<or> pipes m = ps @ [Wildcard]" by auto
  have plain: "check_fast_match E (pipes m) v fms = Some (glob (modified ps p) v)"
    using fast_match_is_glob [OF ascii esc all_only fms] mp ps
    by (subst check_fast_match_plain) auto
  have "first_pipe_match E (case pipes m of [] \<Rightarrow> Wildcard | p # _ \<Rightarrow> p) (Some v) rec = None"
    using mp ps by (auto simp: first_pipe_match_def is_eqfield.simps)
  with m plain show ?thesis by (simp add: default_is_match_def)
qed

subsection \<open>The properties of the component\<close>

text \<open>
  C9: The default matcher gives a wildcard pattern its meaning. On a key without modifiers, or
  with \<open>startswith\<close>, \<open>endswith\<close> or \<open>contains\<close>, an initialised matcher whose pattern is ASCII
  without backslashes and has asterisks only where the fast path takes it accepts an ASCII
  value exactly when the whole value matches the pattern, letters compared without case. A pattern
  that, with its modifier, begins with \<open>allOnly*\<close> is left out: the program uses this prefix
  internally, to mark the patterns of a key of which all must match.
\<close>

theorem default_matcher_wildcard:
  assumes "default_init E [modifier_key f ps] (YString p) = Ok (DefaultMatcher m)"
    and "CHR ''|'' \<notin> set f" and "ps \<in> {[], [Startswith], [Endswith], [Contains]}"
    and "is_ascii (modified ps p)" and "is_ascii v" and "bsl \<notin> set (modified ps p)"
    and "\<not> starts_with (modified ps p) ''allOnly*''"
    and "convert_to_fast_match E (modified ps p) True \<noteq> None"
  shows "default_is_match E m (Some v) rec = Some (glob (modified ps p) v)"
  by (rule default_matcher_glob [OF assms])

definition image_contains_matcher :: default_matcher where
  "image_contains_matcher =
     \<lparr>re = None, fast = Some [FContains ''mimi''], pipes = [Contains], key_list = [''Image|contains'']\<rparr>"

definition blank_record :: recinfo where
  "blank_record = \<lparr>evtx_filepath = [], rec_data = JNull, data_string = [],
     key_2_value = Map.empty, recovered_record = False\<rparr>"

theorem default_matcher_wildcard_witness:
  "default_is_match env0 image_contains_matcher (Some ''MIMIkatz'') blank_record =
     Some (glob (modified [Contains] ''Mimi'') ''MIMIkatz'')"
proof (rule default_matcher_wildcard [where f = "''Image''"])
  show "default_init env0 [modifier_key ''Image'' [Contains]] (YString ''Mimi'') =
      Ok (DefaultMatcher image_contains_matcher)"
    by code_simp
  show "convert_to_fast_match env0 (modified [Contains] ''Mimi'') True \<noteq> None"
    by code_simp
  show "is_ascii (modified [Contains] ''Mimi'')" by code_simp
  show "is_ascii ''MIMIkatz''" by code_simp
qed (simp_all add: modified_def bsl_def)

text \<open>
  The loop that turns a wildcard pattern into a regex, which walks over character indices
  and collects alternating literal and wildcard parts, computes the structural translation:
  runs of literals escaped as one, an asterisk as any sequence, a question mark as one
  character, a backslash before a wildcard making it literal, and two of them a literal
  backslash before the wildcard. It holds for every pattern, non-ASCII ones included.
\<close>

theorem pipe_pattern_wildcard_correct:
  "pipe_pattern_wildcard E pat = ''(?i)'' @ items_regex E [] (glob_items (utf8_chars pat))"
  by (rule pipe_pattern_wildcard_items)

text \<open>
  C12: A value that a log holds in base64 is found whatever its alignment. When the base64
  engine is the standard encoding, \<open>base64offset\<close> on a non-empty value initialises without a
  panic, in UTF-8 and in both byte orders of UTF-16, and its fast matches accept the encoding
  of any data that contains the value's bytes, at each of the three possible offsets.
\<close>

theorem base64offset_correct:
  assumes "base64_std E = b64_encode" and "s \<noteq> []" and "Windash \<notin> set ps"
  shows "\<exists>fms. convert_to_base64_str E encode s = Some (Some fms) \<and>
     check_fast_match E ps (b64_encode (pre @ value_bytes encode s @ post)) fms = Some True"
  by (rule base64offset_finds [OF assms])

definition base64_env :: env where
  "base64_env = env0\<lparr>base64_std := b64_encode\<rparr>"

theorem base64offset_correct_witness:
  "\<exists>fms. convert_to_base64_str base64_env None ''cmd'' = Some (Some fms) \<and>
     check_fast_match base64_env [Base64offset, Contains] (b64_encode ([65, 66] @ value_bytes None ''cmd'' @ [67])) fms = Some True"
  by (rule base64offset_correct) (simp_all add: base64_env_def)

text \<open>
  On an empty value \<open>base64offset\<close> panics: the second alignment encodes one zero byte, of
  which no character remains, and the slice that should cut it out has its ends the wrong way
  round. On a value of one byte the second alignment leaves nothing either, without a panic,
  and the rule then searches for the empty string, which every event contains.
\<close>

theorem base64offset_short_values:
  "convert_to_base64_str base64_env None [] = None \<and>
   base64_variant base64_env None ''a'' 1 = Some [] \<and>
   (\<exists>fms. convert_to_base64_str base64_env None ''a'' = Some (Some fms) \<and>
     check_fast_match base64_env [Base64offset, Contains] v fms = Some True)"
proof (intro conjI)
  have std: "base64_std base64_env = b64_encode" by (simp add: base64_env_def)
  show "convert_to_base64_str base64_env None [] = None"
    by code_simp
  have core: "b64_core 1 (value_bytes None ''a'') = []"
    by (simp add: b64_core_def value_bytes_def as_bytes_def core_lo_def core_hi_def)
  show "base64_variant base64_env None ''a'' 1 = Some []"
    using base64_variant_core [OF std, of 1 "''a''" None] core by simp
  show "\<exists>fms. convert_to_base64_str base64_env None ''a'' = Some (Some fms) \<and>
     check_fast_match base64_env [Base64offset, Contains] v fms = Some True"
    using convert_base64_cores [OF std, of "''a''" None] core
    by (simp add: check_fast_match_def)
qed

text \<open>
  A value listed in a loaded table is found by \<open>lookup\<close>, a missing table is no match for
  it; but \<open>not_lookup\<close> on a missing table is no match either, although the comment at the code
  promises a full match so that an analyst's mistake hides nothing.
\<close>

theorem lookup_pipes:
  "first_pipe_match E (LookupIn name) (Some v) rec =
     Some (case lookup_tables E name of
             None \<Rightarrow> False
           | Some t \<Rightarrow> \<exists>e \<in> set t. contains_str (to_ascii_lowercase v) e) \<and>
   first_pipe_match E (NotLookup name) (Some v) rec =
     Some (case lookup_tables E name of
             None \<Rightarrow> False
           | Some t \<Rightarrow> \<not> (\<exists>e \<in> set t. contains_str (to_ascii_lowercase v) e))"
  by (simp add: first_pipe_match_def lookup_contains_iff split: option.split)

text \<open>
  The key \<open>Hashes|sha256|lookup\<close>, with which the documentation of the lookup tables shows
  their use, is rejected: \<open>sha256\<close> is no pipe element, so the rule does not load.
\<close>

theorem documented_lookup_key_rejected:
  "default_init E [''Hashes|sha256|lookup''] (YString name) =
     Err [''An unknown pipe element was specified. key:detection -> selection -> Hashes|sha256|lookup'']"
proof -
  have "pipe_keys [''Hashes|sha256|lookup''] = [''sha256'', ''lookup'']"
    by (simp add: pipe_keys_def)
  moreover have "pipe_element_new E ''sha256'' name [''Hashes|sha256|lookup''] =
      Inl ''An unknown pipe element was specified. key:detection -> selection -> Hashes|sha256|lookup''"
    by (simp add: pipe_element_new_def concat_selection_key_def)
  moreover have "pipe_element_new E ''lookup'' name [''Hashes|sha256|lookup''] = Inr (LookupIn name)"
    by (simp add: pipe_element_new_def)
  ultimately show ?thesis
    by (simp add: default_init_def scalar_text_def parse_pipes_def)
qed

end
