(* ===== verification/Selection_Nodes.thy ===== *)
theory Selection_Nodes
  imports Matchers
begin

section \<open>Selection nodes (selectionnodes.rs)\<close>

text \<open>
  The implementations of the \<open>SelectionNode\<close> trait as the constructors of one datatype, and
  its four methods as functions over it. \<open>select\<close> returns \<open>None\<close> where a matcher panics.
\<close>

record leaf =
  leaf_key :: string
  leaf_key_list :: "string list"
  select_value :: yaml
  matcher :: "leaf_matcher option"

datatype snode =
    AndNode "snode list"
  | AllNode "snode list"
  | OrNode "snode list"
  | NotNode snode
  | RefNode snode
  | LeafNode leaf

subsection \<open>Leaves\<close>

definition new_leaf :: "string list \<Rightarrow> yaml \<Rightarrow> leaf" where
  "new_leaf keys value_yaml =
     \<lparr>leaf_key = [], leaf_key_list = keys, select_value = value_yaml, matcher = None\<rparr>"

definition leaf_get_keys :: "leaf \<Rightarrow> string list" where
  "leaf_get_keys l =
     (if leaf_key l \<noteq> [] then [leaf_key l] else []) @
     (case matcher l of
        Some (DefaultMatcher m) \<Rightarrow>
          (case default_get_eqfield_key m of Some k \<Rightarrow> [k] | None \<Rightarrow> [])
      | _ \<Rightarrow> [])"

definition create_key :: "string list \<Rightarrow> string" where
  "create_key kl = (case kl of [] \<Rightarrow> [] | topkey # _ \<Rightarrow> hd (split_char (CHR ''|'') topkey))"

definition leaf_event_value :: "leaf \<Rightarrow> recinfo \<Rightarrow> string option" where
  "leaf_event_value l rec =
     (if leaf_key_list l = [] then Some (data_string rec) else get_value rec (leaf_key l))"

text \<open>The first matcher that accepts the key list, initialised; \<open>None\<close> when no one does.\<close>

definition find_matcher :: "env \<Rightarrow> string list \<Rightarrow> (yaml \<Rightarrow> (string list, leaf_matcher) outcome) option" where
  "find_matcher E kl =
     (if minlength_is_target_key kl then Some (minlength_init kl)
      else if regexes_is_target_key kl then Some (regexes_init E kl)
      else if allowlist_is_target_key kl then Some (allowlist_init E kl)
      else if default_is_target_key kl then Some (default_init E kl)
      else None)"

definition leaf_init :: "env \<Rightarrow> leaf \<Rightarrow> (string list, leaf) outcome" where
  "leaf_init E l =
     (case find_matcher E (leaf_key_list l) of
        None \<Rightarrow> Err [''Found unknown key. key:'' @ concat_selection_key (leaf_key_list l)]
      | Some init \<Rightarrow>
          (if select_value l = YBadValue
           then Err [''Cannot parse yml file. key:'' @ concat_selection_key (leaf_key_list l)]
           else (case init (select_value l) of
                   Panic \<Rightarrow> Panic
                 | Err e \<Rightarrow> Err e
                 | Ok m \<Rightarrow> Ok (l\<lparr>leaf_key := create_key (leaf_key_list l), matcher := Some m\<rparr>))))"

definition leaf_select :: "env \<Rightarrow> alias_config \<Rightarrow> recinfo \<Rightarrow> leaf \<Rightarrow> bool option" where
  "leaf_select E c rec l =
     (case matcher l of
        None \<Rightarrow> Some False
      | Some m \<Rightarrow>
          (if leaf_key l = ''EventData'' \<or> leaf_key l = ''Data''
           then (case get_event_value c ''Event.EventData.Data'' (rec_data rec) of
                   None \<Rightarrow> matcher_is_match E m None rec
                 | Some v \<Rightarrow>
                     (case v of
                        JBool _ \<Rightarrow> matcher_is_match E m (get_value rec (leaf_key l)) rec
                      | JNumber _ \<Rightarrow> matcher_is_match E m (get_value rec (leaf_key l)) rec
                      | JString _ \<Rightarrow> matcher_is_match E m (get_value rec (leaf_key l)) rec
                      | JArray vs \<Rightarrow> any_opt (\<lambda>e. matcher_is_match E m (value_to_string e) rec) vs
                      | _ \<Rightarrow> matcher_is_match E m None rec))
           else (let event_value = leaf_event_value l rec;
                     kl = leaf_key_list l in
                 case (if leaf_key l = ''EventID'' \<and> select_value l \<noteq> YNull \<and> kl \<noteq> [] \<and>
                          CHR ''|'' \<notin> set (hd kl)
                       then as_i64 (select_value l) else None) of
                   Some event_id \<Rightarrow> Some (unwrap_or [] event_value = show_int event_id)
                 | None \<Rightarrow>
                     matcher_is_match E m
                       (if kl \<noteq> [] \<and> hd kl = ''|all'' then Some (data_string rec) else event_value) rec)))"

subsection \<open>The trait\<close>

fun node_select :: "env \<Rightarrow> alias_config \<Rightarrow> recinfo \<Rightarrow> snode \<Rightarrow> bool option" where
  "node_select E c rec (AndNode ns) = all_opt (node_select E c rec) ns"
| "node_select E c rec (AllNode ns) = all_opt (node_select E c rec) ns"
| "node_select E c rec (OrNode ns) = any_opt (node_select E c rec) ns"
| "node_select E c rec (NotNode n) = map_option Not (node_select E c rec n)"
| "node_select E c rec (RefNode n) = node_select E c rec n"
| "node_select E c rec (LeafNode l) = leaf_select E c rec l"

definition map_outcome :: "('a \<Rightarrow> 'b) \<Rightarrow> ('e, 'a) outcome \<Rightarrow> ('e, 'b) outcome" where
  "map_outcome f r = (case r of Ok a \<Rightarrow> Ok (f a) | Err e \<Rightarrow> Err e | Panic \<Rightarrow> Panic)"

fun node_init :: "env \<Rightarrow> snode \<Rightarrow> (string list, snode) outcome" where
  "node_init E (AndNode ns) = map_outcome AndNode (collect_outcomes (node_init E) ns)"
| "node_init E (AllNode ns) = map_outcome AllNode (collect_outcomes (node_init E) ns)"
| "node_init E (OrNode ns) = map_outcome OrNode (collect_outcomes (node_init E) ns)"
| "node_init E (NotNode n) = Ok (NotNode n)"
| "node_init E (RefNode n) = Ok (RefNode n)"
| "node_init E (LeafNode l) = map_outcome LeafNode (leaf_init E l)"

fun get_childs :: "snode \<Rightarrow> snode list" where
  "get_childs (AndNode ns) = ns"
| "get_childs (AllNode ns) = ns"
| "get_childs (OrNode ns) = ns"
| "get_childs (NotNode n) = []"
| "get_childs (RefNode n) = [n]"
| "get_childs (LeafNode l) = []"

fun get_descendants :: "snode \<Rightarrow> snode list" where
  "get_descendants (AndNode ns) = ns @ concat (map get_descendants ns)"
| "get_descendants (AllNode ns) = ns @ concat (map get_descendants ns)"
| "get_descendants (OrNode ns) = ns @ concat (map get_descendants ns)"
| "get_descendants (NotNode n) = get_childs (NotNode n)"
| "get_descendants (RefNode n) = get_childs (RefNode n)"
| "get_descendants (LeafNode l) = []"

subsection \<open>Boolean semantics\<close>

fun node_leaves :: "snode \<Rightarrow> leaf list" where
  "node_leaves (AndNode ns) = concat (map node_leaves ns)"
| "node_leaves (AllNode ns) = concat (map node_leaves ns)"
| "node_leaves (OrNode ns) = concat (map node_leaves ns)"
| "node_leaves (NotNode n) = node_leaves n"
| "node_leaves (RefNode n) = node_leaves n"
| "node_leaves (LeafNode l) = [l]"

fun node_sem :: "(leaf \<Rightarrow> bool) \<Rightarrow> snode \<Rightarrow> bool" where
  "node_sem P (AndNode ns) = list_all (node_sem P) ns"
| "node_sem P (AllNode ns) = list_all (node_sem P) ns"
| "node_sem P (OrNode ns) = list_ex (node_sem P) ns"
| "node_sem P (NotNode n) = (\<not> node_sem P n)"
| "node_sem P (RefNode n) = node_sem P n"
| "node_sem P (LeafNode l) = P l"

lemma node_select_sem [sel_simps]:
  "(\<And>l. l \<in> set (node_leaves n) \<Longrightarrow> leaf_select E c rec l = Some (P l)) \<Longrightarrow>
     node_select E c rec n = Some (node_sem P n)"
  by (induction n) (auto intro!: all_opt_total any_opt_total)

subsection \<open>Initialised nodes never panic\<close>

definition leaf_ready :: "leaf \<Rightarrow> bool" where
  "leaf_ready l \<longleftrightarrow> (case matcher l of Some (DefaultMatcher m) \<Rightarrow> matcher_ready m | _ \<Rightarrow> True)"

lemma matcher_is_match_ready:
  "leaf_ready l \<Longrightarrow> matcher l = Some m \<Longrightarrow> matcher_is_match E m ev rec \<noteq> None"
  using matcher_ready_is_match by (cases m) (auto simp: leaf_ready_def)

lemma leaf_select_ready:
  assumes "leaf_ready l"
  shows "leaf_select E c rec l \<noteq> None"
proof (cases "matcher l")
  case (Some m)
  note ready = matcher_is_match_ready [OF assms Some]
  then have "any_opt (\<lambda>e. matcher_is_match E m (value_to_string e) rec) vs \<noteq> None" for vs
    by (intro any_opt_not_None)
  with ready Some show ?thesis
    by (simp add: leaf_select_def Let_def split: option.split json.split)
qed (simp add: leaf_select_def)

lemma leaf_init_ready: "leaf_init E l = Ok l' \<Longrightarrow> leaf_ready l'"
proof -
  have min: "minlength_init kl v = Ok m \<Longrightarrow> \<exists>n. m = MinlengthMatcher n" for kl v m
    by (auto simp: minlength_init_def split: option.splits)
  have rx: "regexes_init E kl v = Ok m \<Longrightarrow> \<exists>r. m = RegexesFileMatcher r" for kl v m
    by (auto simp: regexes_init_def compile_file_regexes_def split: option.splits sum.splits if_splits)
  have al: "allowlist_init E kl v = Ok m \<Longrightarrow> \<exists>r. m = AllowlistFileMatcher r" for kl v m
    by (auto simp: allowlist_init_def compile_file_regexes_def split: option.splits sum.splits if_splits)
  assume "leaf_init E l = Ok l'"
  then obtain init m where init: "find_matcher E (leaf_key_list l) = Some init" "init (select_value l) = Ok m"
    and l': "matcher l' = Some m"
    by (auto simp: leaf_init_def split: option.splits outcome.splits if_splits)
  show ?thesis
  proof (cases m)
    case (DefaultMatcher d)
    with init min rx al have "default_init E (leaf_key_list l) (select_value l) = Ok (DefaultMatcher d)"
      by (fastforce simp: find_matcher_def split: if_splits)
    from matcher_ready_init [OF this] show ?thesis by (simp add: leaf_ready_def l' DefaultMatcher)
  qed (simp_all add: leaf_ready_def l')
qed

text \<open>A selection tree as the rule loader builds it: inner nodes and leaves only.\<close>

fun selection_tree :: "snode \<Rightarrow> bool" where
  "selection_tree (AndNode ns) = list_all selection_tree ns"
| "selection_tree (AllNode ns) = list_all selection_tree ns"
| "selection_tree (OrNode ns) = list_all selection_tree ns"
| "selection_tree (NotNode n) = False"
| "selection_tree (RefNode n) = False"
| "selection_tree (LeafNode l) = True"

definition node_ready :: "snode \<Rightarrow> bool" where
  "node_ready n \<longleftrightarrow> (\<forall>l \<in> set (node_leaves n). leaf_ready l)"

lemma node_ready_select:
  assumes "node_ready n"
  shows "node_select E c rec n = Some (node_sem (\<lambda>l. leaf_select E c rec l = Some True) n)"
proof (rule node_select_sem)
  fix l assume "l \<in> set (node_leaves n)"
  with assms have "leaf_ready l" by (simp add: node_ready_def)
  from leaf_select_ready [OF this, of E c rec]
  show "leaf_select E c rec l = Some (leaf_select E c rec l = Some True)" by auto
qed

lemma node_init_ready:
  "selection_tree n \<Longrightarrow> node_init E n = Ok n' \<Longrightarrow> node_ready n' \<and> selection_tree n'"
proof (induction n arbitrary: n')
  case (LeafNode l)
  then show ?case
    by (auto simp: map_outcome_def node_ready_def split: outcome.splits dest: leaf_init_ready)
qed (fastforce simp: map_outcome_def node_ready_def collect_outcomes_Ok list_all2_conv_all_nth list_all_length
      in_set_conv_nth split: outcome.splits)+

end
