(* ===== verification/Aggregation_Parser.thy ===== *)
theory Aggregation_Parser
  imports Values
begin

section \<open>The aggregation condition after the pipe (aggregation\_parser.rs)\<close>

text \<open>
  The lexer and parser of \<open>| count(f) by g > n\<close>. The token regexes of
  \<open>AGGREGATION_REGEXMAP\<close> are written out as prefix matchers on the list of characters;
  each returns what is left after its match.
\<close>

datatype agg_token =
    AggCount string
  | AggSpace
  | BY
  | EQ
  | LE
  | LT
  | GE
  | GT
  | Keyword string

record agg_info =
  field_name :: "string option"
  by_field_name :: "string option"
  cmp_op :: agg_token
  cmp_num :: int

subsection \<open>The regexes\<close>

definition groups :: "string \<Rightarrow> string list" where
  "groups lit = map (\<lambda>c. [c]) lit"

definition re_lit :: "string \<Rightarrow> string list \<Rightarrow> string list option" where
  "re_lit lit cs =
     (if take (length lit) cs = groups lit then Some (drop (length lit) cs) else None)"

text \<open>\<open>^count\( *\w* *\)\<close>\<close>

definition re_count :: "env \<Rightarrow> string list \<Rightarrow> string list option" where
  "re_count E cs =
     (case re_lit ''count('' cs of
        None \<Rightarrow> None
      | Some r \<Rightarrow>
          re_lit '')''
            (dropWhile (\<lambda>g. g = '' '') (dropWhile (is_word E) (dropWhile (\<lambda>g. g = '' '') r))))"

text \<open>\<open>^\w+\<close>, and the alternative for comma-separated names: a group \<open>\s*\w+\s*,\<close>, a last word.\<close>

definition re_word :: "env \<Rightarrow> string list \<Rightarrow> string list option" where
  "re_word E cs = (if takeWhile (is_word E) cs = [] then None else Some (dropWhile (is_word E) cs))"

definition re_last_word :: "env \<Rightarrow> string list \<Rightarrow> string list option" where
  "re_last_word E cs = re_word E (dropWhile is_whitespace cs)"

definition re_comma_group :: "env \<Rightarrow> string list \<Rightarrow> string list option" where
  "re_comma_group E cs =
     (case re_last_word E cs of
        None \<Rightarrow> None
      | Some r \<Rightarrow> re_lit '','' (dropWhile is_whitespace r))"

lemma re_lit_length: "re_lit lit cs = Some r \<Longrightarrow> length cs = length lit + length r"
  unfolding re_lit_def groups_def
  by (metis append_take_drop_id length_append length_map option.distinct(1) option.inject)

lemma re_word_length: "re_word E cs = Some r \<Longrightarrow> length r < length cs"
  by (auto simp: re_word_def split: if_splits) 
     (metis length_append length_greater_0_conv less_add_same_cancel2 takeWhile_dropWhile_id)

lemma re_last_word_length: "re_last_word E cs = Some r \<Longrightarrow> length r < length cs"
  unfolding re_last_word_def
  by (meson re_word_length length_dropWhile_le order_less_le_trans)

lemma re_comma_group_length: "re_comma_group E cs = Some r \<Longrightarrow> length r < length cs"
  unfolding re_comma_group_def
  by (auto split: option.splits dest!: re_last_word_length re_lit_length)
     (metis add.commute add_lessD1 length_dropWhile_le less_imp_le_nat order_le_less_trans plus_1_eq_Suc)

function re_comma_list :: "env \<Rightarrow> string list \<Rightarrow> string list option" where
  "re_comma_list E cs =
     (case re_comma_group E cs of
        None \<Rightarrow> None
      | Some r \<Rightarrow>
          (case re_comma_list E r of
             Some r' \<Rightarrow> Some r'
           | None \<Rightarrow> re_last_word E r))"
  by pat_completeness auto
termination
  by (relation "measure (\<lambda>(E, cs). length cs)") (auto dest: re_comma_group_length)

declare re_comma_list.simps [simp del]

lemma re_comma_list_length: "re_comma_list E cs = Some r \<Longrightarrow> length r < length cs"
proof (induction E cs arbitrary: r rule: re_comma_list.induct)
  case (1 E cs)
  then show ?case
    by (subst (asm) (2) re_comma_list.simps)
       (fastforce split: option.splits dest: re_comma_group_length re_last_word_length)
qed

definition re_keyword :: "env \<Rightarrow> string list \<Rightarrow> string list option" where
  "re_keyword E cs = (case re_comma_list E cs of Some r \<Rightarrow> Some r | None \<Rightarrow> re_word E cs)"

text \<open>The first regex of the list that matches.\<close>

fun first_match :: "(string list \<Rightarrow> string list option) list \<Rightarrow> string list \<Rightarrow> string list option" where
  "first_match [] cs = None"
| "first_match (r # rs) cs = (case r cs of Some x \<Rightarrow> Some x | None \<Rightarrow> first_match rs cs)"

definition aggregation_regexmap :: "env \<Rightarrow> (string list \<Rightarrow> string list option) list" where
  "aggregation_regexmap E =
     [re_count E, re_lit '' '', re_lit ''by'', re_lit ''=='', re_lit ''<='', re_lit ''>='',
      re_lit ''<'', re_lit ''>'', re_keyword E]"

lemma re_count_length: "re_count E cs = Some r \<Longrightarrow> length r < length cs"
proof -
  assume "re_count E cs = Some r"
  then obtain r1 where 1: "re_lit ''count('' cs = Some r1"
    and 2: "re_lit '')'' (dropWhile (\<lambda>g. g = '' '') (dropWhile (is_word E) (dropWhile (\<lambda>g. g = '' '') r1))) = Some r"
    by (auto simp: re_count_def split: option.splits)
  have "length r < length (dropWhile (\<lambda>g. g = '' '') (dropWhile (is_word E) (dropWhile (\<lambda>g. g = '' '') r1)))"
    using re_lit_length [OF 2] by simp
  also have "\<dots> \<le> length r1"
    by (meson length_dropWhile_le order_trans)
  also have "\<dots> < length cs" using re_lit_length [OF 1] by simp
  finally show ?thesis .
qed

lemma first_match_agg_length:
  "first_match (aggregation_regexmap E) cs = Some r \<Longrightarrow> length r < length cs"
  by (auto simp: aggregation_regexmap_def re_keyword_def split: option.splits
      dest: re_count_length re_word_length re_comma_list_length re_lit_length)

subsection \<open>Lexer\<close>

definition to_enum :: "string \<Rightarrow> agg_token" where
  "to_enum token =
     (if starts_with token ''count(''
      then AggCount (replace_all '' '' [] (replacen_1 '')'' [] (replacen_1 ''count('' [] token)))
      else if token = '' '' then AggSpace
      else if token = ''by'' then BY
      else if token = ''=='' then EQ
      else if token = ''<='' then LE
      else if token = ''>='' then GE
      else if token = ''<'' then LT
      else if token = ''>'' then GT
      else Keyword token)"

function agg_tokenize_chars :: "env \<Rightarrow> string list \<Rightarrow> agg_token list result" where
  "agg_tokenize_chars E cs =
     (if cs = [] then Inr []
      else (case first_match (aggregation_regexmap E) cs of
              None \<Rightarrow> Inl ''An unusable character was found.''
            | Some r \<Rightarrow>
                (let token = to_enum (concat (take (length cs - length r) cs)) in
                 if token = AggSpace then agg_tokenize_chars E r
                 else bind_result (agg_tokenize_chars E r) (\<lambda>ts. Inr (token # ts)))))"
  by pat_completeness auto
termination
  by (relation "measure (\<lambda>(E, cs). length cs)") (auto dest: first_match_agg_length)

declare agg_tokenize_chars.simps [simp del]

definition agg_tokenize :: "env \<Rightarrow> string \<Rightarrow> agg_token list result" where
  "agg_tokenize E s = agg_tokenize_chars E (utf8_chars s)"

subsection \<open>Parser\<close>

fun is_cmp_op :: "agg_token \<Rightarrow> bool" where
  "is_cmp_op EQ = True"
| "is_cmp_op LE = True"
| "is_cmp_op LT = True"
| "is_cmp_op GE = True"
| "is_cmp_op GT = True"
| "is_cmp_op _ = False"

definition err_compare :: string where
  "err_compare = ''The count keyword needs a compare operator and number like '' @ [CHR 0x27] @ ''> 3'' @ [CHR 0x27]"

definition err_by :: string where
  "err_by = ''The by keyword needs a field name like '' @ [CHR 0x27] @ ''by EventID'' @ [CHR 0x27]"

definition err_number :: string where
  "err_number = ''The compare operator needs a number like '' @ [CHR 0x27] @ ''> 3'' @ [CHR 0x27] @ ''.''"

text \<open>The part after \<open>count\<close> and the optional \<open>by\<close>: operator, number, end.\<close>

definition parse_cmp ::
  "string option \<Rightarrow> string option \<Rightarrow> agg_token list \<Rightarrow> agg_info option result" where
  "parse_cmp count_field by_field tokens =
     (case tokens of
        [] \<Rightarrow> Inl err_compare
      | cmp_token # rest \<Rightarrow>
          (if \<not> is_cmp_op cmp_token then Inl err_compare
           else (case rest of
                   Keyword number # rest' \<Rightarrow>
                     (case parse_i64 number of
                        None \<Rightarrow> Inl err_number
                      | Some num \<Rightarrow>
                          (if rest' \<noteq> [] then Inl ''An unnecessary word was found.''
                           else Inr (Some \<lparr>field_name = count_field, by_field_name = by_field,
                                           cmp_op = cmp_token, cmp_num = num\<rparr>)))
                 | _ \<Rightarrow> Inl err_number)))"

definition agg_parse :: "agg_token list \<Rightarrow> agg_info option result" where
  "agg_parse tokens =
     (case tokens of
        [] \<Rightarrow> Inl ''There are no strings after the pipe(|).''
      | AggCount f # rest \<Rightarrow>
          (let count_field = (if f = [] then None else Some f) in
           (case rest of
              [] \<Rightarrow> Inl err_compare
            | BY # after_by \<Rightarrow>
                (case after_by of
                   Keyword keyword # rest' \<Rightarrow> parse_cmp count_field (Some keyword) rest'
                 | _ \<Rightarrow> Inl err_by)
            | _ \<Rightarrow> parse_cmp count_field None rest))
      | _ \<Rightarrow> Inl ''The aggregation condition can only use count.'')"

text \<open>\<open>RE_PIPE\<close>, \<open>\|.*\<close>: from the first pipe to the end of its line.\<close>

definition re_pipe :: "string \<Rightarrow> string option" where
  "re_pipe s =
     (case dropWhile (\<lambda>c. c \<noteq> CHR ''|'') s of
        [] \<Rightarrow> None
      | t \<Rightarrow> Some (takeWhile (\<lambda>c. c \<noteq> CHR 0x0A) t))"

definition agg_compile_body :: "env \<Rightarrow> string \<Rightarrow> agg_info option result" where
  "agg_compile_body E condition_str =
     (case re_pipe condition_str of
        None \<Rightarrow> Inr None
      | Some captured \<Rightarrow> bind_result (agg_tokenize E (replacen_1 ''|'' [] captured)) agg_parse)"

definition agg_compile :: "env \<Rightarrow> string \<Rightarrow> agg_info option result" where
  "agg_compile E condition_str =
     (case agg_compile_body E condition_str of
        Inl msg \<Rightarrow> Inl (''An aggregation condition parse error has occurred. '' @ msg)
      | Inr r \<Rightarrow> Inr r)"

subsection \<open>Printing an aggregation condition\<close>

text \<open>The rule text of an aggregation condition, for the round trip.\<close>

fun print_cmp_op :: "agg_token \<Rightarrow> string" where
  "print_cmp_op EQ = ''==''"
| "print_cmp_op LE = ''<=''"
| "print_cmp_op LT = ''<''"
| "print_cmp_op GE = ''>=''"
| "print_cmp_op GT = ''>''"
| "print_cmp_op _ = []"

definition print_tail :: "agg_token \<Rightarrow> nat \<Rightarrow> string" where
  "print_tail op n = '' '' @ print_cmp_op op @ '' '' @ show_nat n"

definition print_by :: "string list \<Rightarrow> string" where
  "print_by gs = (if gs = [] then [] else '' by '' @ join '','' gs)"

definition print_agg :: "string \<Rightarrow> string list \<Rightarrow> agg_token \<Rightarrow> nat \<Rightarrow> string" where
  "print_agg f gs op n = ''| count('' @ f @ '')'' @ print_by gs @ print_tail op n"

definition ascii_word_char :: "char \<Rightarrow> bool" where
  "ascii_word_char c \<longleftrightarrow>
     (48 \<le> byte c \<and> byte c \<le> 57) \<or> (65 \<le> byte c \<and> byte c \<le> 90) \<or>
     (97 \<le> byte c \<and> byte c \<le> 122) \<or> byte c = 95"

text \<open>A name the lexer reads as one keyword: ASCII word characters.\<close>

definition word_name :: "string \<Rightarrow> bool" where
  "word_name w \<longleftrightarrow> w \<noteq> [] \<and> list_all ascii_word_char w"

definition by_names :: "string list \<Rightarrow> bool" where
  "by_names gs \<longleftrightarrow> list_all word_name gs \<and> (gs \<noteq> [] \<longrightarrow> \<not> starts_with (hd gs) ''by'')"

lemma ascii_word_char_byte: "ascii_word_char c \<Longrightarrow> byte c < 128"
  by (auto simp: ascii_word_char_def)

lemma is_word_ascii [tok_simps]: "byte c < 128 \<Longrightarrow> is_word E [c] = ascii_word_char c"
  by (simp add: is_word_def ascii_word_char_def)

lemma groups_simps [tok_simps]:
  "groups [] = []" "groups (c # s) = [c] # groups s" "groups (s @ t) = groups s @ groups t"
  "concat (groups s) = s" "length (groups s) = length s"
  by (simp_all add: groups_def)

lemma groups_eq_Nil [simp]: "groups s = [] \<longleftrightarrow> s = []"
  by (simp add: groups_def)

lemma literal_bytes [tok_simps]:
  "byte (CHR '' '') = 32" "byte (CHR '','') = 44" "byte (CHR ''('') = 40" "byte (CHR '')'') = 41"
  "byte (CHR ''<'') = 60" "byte (CHR ''>'') = 62" "byte (CHR ''='') = 61" "byte (CHR ''|'') = 124"
  "byte (CHR ''b'') = 98" "byte (CHR ''y'') = 121" "byte (CHR ''c'') = 99"
  by (simp_all add: byte_def)

lemma not_word_literals [tok_simps]:
  "\<not> ascii_word_char (CHR '' '')" "\<not> ascii_word_char (CHR '','')" "\<not> ascii_word_char (CHR ''('')"
  "\<not> ascii_word_char (CHR '')'')" "\<not> ascii_word_char (CHR ''<'')" "\<not> ascii_word_char (CHR ''>'')"
  "\<not> ascii_word_char (CHR ''='')" "\<not> ascii_word_char (CHR ''|'')"
  by (simp_all add: ascii_word_char_def literal_bytes)

lemma is_word_literals [tok_simps]:
  "\<not> is_word E '' ''" "\<not> is_word E '',''" "\<not> is_word E '')''" "\<not> is_word E ''<''"
  "\<not> is_word E ''>''" "\<not> is_word E ''=''"
  by (simp_all add: is_word_ascii literal_bytes not_word_literals)

lemma is_digit_word: "is_digit c \<Longrightarrow> ascii_word_char c"
  by (simp add: is_digit_def ascii_word_char_def)

lemma word_name_show_nat: "word_name (show_nat n)"
  using show_nat_digits [of n] by (auto simp: word_name_def list_all_iff is_digit_word)

lemma word_not_space: "ascii_word_char c \<Longrightarrow> \<not> is_whitespace [c]"
  by (auto simp: ascii_word_char_def is_whitespace_def)

lemma ws_space [tok_simps]: "is_whitespace '' ''" "\<not> is_whitespace '',''" "\<not> is_whitespace ''<''"
  "\<not> is_whitespace ''>''" "\<not> is_whitespace ''=''"
  by (simp_all add: is_whitespace_def literal_bytes)

text \<open>A name followed by a character that is no word character.\<close>

definition word_end :: "env \<Rightarrow> string list \<Rightarrow> bool" where
  "word_end E r \<longleftrightarrow> (case r of [] \<Rightarrow> True | g # _ \<Rightarrow> \<not> is_word E g)"

lemma take_drop_word:
  assumes "list_all ascii_word_char w" and "word_end E r"
  shows "takeWhile (is_word E) (groups w @ r) = groups w"
    and "dropWhile (is_word E) (groups w @ r) = r"
  using assms
  by (induction w) (auto simp: groups_simps is_word_ascii ascii_word_char_byte word_end_def split: list.splits)

lemma re_word_name:
  "word_name w \<Longrightarrow> word_end E r \<Longrightarrow> re_word E (groups w @ r) = Some r"
  using take_drop_word [of w E r] by (auto simp: re_word_def word_name_def groups_eq_Nil)

lemma re_last_word_name:
  assumes "word_name w" and "word_end E r"
  shows "re_last_word E (groups w @ r) = Some r"
proof -
  obtain c w' where w: "w = c # w'" and c: "ascii_word_char c"
    using assms by (cases w) (auto simp: word_name_def)
  have "dropWhile is_whitespace (groups w @ r) = groups w @ r"
    by (simp add: w groups_simps word_not_space [OF c])
  with re_word_name [OF assms] show ?thesis by (simp add: re_last_word_def)
qed

lemma re_lit_none_if_absent:
  "[c] \<notin> set cs \<Longrightarrow> c \<in> set lit \<Longrightarrow> re_lit lit cs = None"
  by (auto simp: re_lit_def groups_def dest!: arg_cong [where f = set])
     (metis (no_types, lifting) image_eqI in_set_takeD)

text \<open>What may follow the names: a space, and no comma after the spaces.\<close>

definition tail_ok :: "env \<Rightarrow> string list \<Rightarrow> bool" where
  "tail_ok E r \<longleftrightarrow> word_end E r \<and> re_lit '','' (dropWhile is_whitespace r) = None"

lemma re_comma_list_names:
  assumes "list_all word_name gs" and "gs \<noteq> []" and "tail_ok E r"
  shows "re_keyword E (groups (join '','' gs) @ r) = Some r"
proof -
  have list: "re_comma_list E (groups (join '','' gs) @ r)
      = (if length gs = 1 then None else Some r)"
    using assms
  proof (induction gs)
    case (Cons g gs)
    have g: "word_name g" using Cons.prems by simp
    show ?case
    proof (cases "gs = []")
      case True
      have "re_comma_group E (groups g @ r) = None"
        using Cons.prems g by (simp add: re_comma_group_def re_last_word_name tail_ok_def)
      with True show ?thesis by (simp add: re_comma_list.simps)
    next
      case False
      let ?r = "groups (join '','' gs) @ r"
      have grp: "re_comma_group E (groups (join '','' (g # gs)) @ r) = Some ?r"
        using False g re_last_word_name [OF g, of E "'','' # ?r"]
        by (simp add: re_comma_group_def join_Cons groups_simps word_end_def is_word_literals
            ws_space re_lit_def)
      have IH: "re_comma_list E ?r = (if length gs = 1 then None else Some r)"
        using Cons False by simp
      show ?thesis
      proof (cases "length gs = 1")
        case True
        then obtain h where h: "gs = [h]" by (auto simp: length_Suc_conv)
        then have "re_last_word E ?r = Some r"
          using Cons.prems by (simp add: re_last_word_name tail_ok_def)
        with True grp IH False show ?thesis
          by (subst re_comma_list.simps) simp
      next
        case ne: False
        with grp IH False show ?thesis by (subst re_comma_list.simps) simp
      qed
    qed
  qed simp
  show ?thesis
  proof (cases "length gs = 1")
    case True
    then obtain g where "gs = [g]" by (auto simp: length_Suc_conv)
    with list assms show ?thesis
      by (simp add: re_keyword_def re_word_name tail_ok_def)
  next
    case False
    with list show ?thesis by (simp add: re_keyword_def)
  qed
qed

subsection \<open>Lexing printed text\<close>

lemma agg_tokenize_step:
  assumes "first_match (aggregation_regexmap E) (pre @ r) = Some r" and "pre \<noteq> []"
  shows "agg_tokenize_chars E (pre @ r) =
     (if to_enum (concat pre) = AggSpace then agg_tokenize_chars E r
      else bind_result (agg_tokenize_chars E r) (\<lambda>ts. Inr (to_enum (concat pre) # ts)))"
  using assms by (subst agg_tokenize_chars.simps) (simp add: Let_def)

lemma re_count_none: "[CHR ''(''] \<notin> set cs \<Longrightarrow> re_count E cs = None"
  by (simp add: re_count_def re_lit_none_if_absent)

lemma agg_tokenize_space:
  "agg_tokenize_chars E ('' '' # r) = agg_tokenize_chars E r"
proof -
  have "first_match (aggregation_regexmap E) ([[CHR '' '']] @ r) = Some r"
    by (simp add: aggregation_regexmap_def re_count_def re_lit_def groups_def)
  from agg_tokenize_step [OF this] show ?thesis
    by (simp add: to_enum_def)
qed

lemma agg_tokenize_by:
  "agg_tokenize_chars E (groups ''by'' @ '' '' # r) =
     bind_result (agg_tokenize_chars E r) (\<lambda>ts. Inr (BY # ts))"
proof -
  have "first_match (aggregation_regexmap E) (groups ''by'' @ '' '' # r) = Some ('' '' # r)"
    by (simp add: aggregation_regexmap_def re_count_def re_lit_def groups_def)
  from agg_tokenize_step [OF this] show ?thesis
    by (simp add: to_enum_def groups_simps agg_tokenize_space)
qed

lemma agg_tokenize_op:
  assumes "is_cmp_op op"
  shows "agg_tokenize_chars E (groups (print_cmp_op op) @ '' '' # r) =
     bind_result (agg_tokenize_chars E r) (\<lambda>ts. Inr (op # ts))"
proof -
  have "first_match (aggregation_regexmap E) (groups (print_cmp_op op) @ '' '' # r) = Some ('' '' # r)"
    using assms by (cases op) (simp_all add: aggregation_regexmap_def re_count_def re_lit_def groups_def)
  from agg_tokenize_step [OF this] assms show ?thesis
    by (cases op) (simp_all add: to_enum_def groups_simps agg_tokenize_space)
qed

lemma to_enum_word:
  assumes "\<forall>c \<in> set s. ascii_word_char c \<or> c = CHR '',''" and "s \<noteq> []" and "\<not> starts_with s ''by''"
  shows "to_enum s = Keyword s"
proof -
  have np: "c \<notin> set s" if "c \<in> set ''(<>= ''" for c
    using assms(1) that not_word_literals by auto
  have "\<not> starts_with s ''count(''"
    using np [of "CHR ''(''"] by (auto simp: starts_with_iff)
  moreover have "s \<noteq> '' ''" "s \<noteq> ''==''" "s \<noteq> ''<=''" "s \<noteq> ''>=''" "s \<noteq> ''<''" "s \<noteq> ''>''"
    using np [of "CHR '' ''"] np [of "CHR ''<''"] np [of "CHR ''>''"] np [of "CHR ''=''"] by auto
  moreover have "s \<noteq> ''by''" using assms(3) by auto
  ultimately show ?thesis by (simp add: to_enum_def)
qed

lemma join_names_chars:
  "list_all word_name gs \<Longrightarrow> c \<in> set (join '','' gs) \<Longrightarrow> ascii_word_char c \<or> c = CHR '',''"
proof (induction gs)
  case (Cons g gs)
  then show ?case
    by (cases gs) (auto simp: word_name_def list_all_iff)
qed simp

lemma join_names_head:
  assumes "word_name g"
  shows "\<exists>c s. join '','' (g # gs) = c # s \<and> ascii_word_char c"
    and "\<not> starts_with g ''by'' \<Longrightarrow> \<not> starts_with (join '','' (g # gs)) ''by''"
proof -
  obtain c w where g: "g = c # w" and c: "ascii_word_char c"
    using assms by (cases g) (auto simp: word_name_def)
  show "\<exists>c s. join '','' (g # gs) = c # s \<and> ascii_word_char c"
    using g c by (cases gs) auto
  assume nb: "\<not> starts_with g ''by''"
  show "\<not> starts_with (join '','' (g # gs)) ''by''"
  proof (cases gs)
    case (Cons h hs)
    with nb g show ?thesis by (cases w) auto
  qed (use nb in simp)
qed

lemma agg_tokenize_names:
  assumes gs: "by_names gs" "gs \<noteq> []" and r: "tail_ok E r" "[CHR ''(''] \<notin> set r"
  shows "agg_tokenize_chars E (groups (join '','' gs) @ r) =
     bind_result (agg_tokenize_chars E r) (\<lambda>ts. Inr (Keyword (join '','' gs) # ts))"
proof -
  let ?s = "join '','' gs"
  obtain g gs' where g: "gs = g # gs'" "word_name g" using gs by (cases gs) (auto simp: by_names_def)
  have names: "list_all word_name gs" using gs by (simp add: by_names_def)
  obtain c s where s: "?s = c # s" and c: "ascii_word_char c"
    using join_names_head(1) [OF g(2)] g(1) by blast
  have nby: "\<not> starts_with ?s ''by''"
    using join_names_head(2) [OF g(2)] gs g by (simp add: by_names_def)
  have lit: "re_lit [d] (groups ?s @ r) = None" "re_lit (d # ds) (groups ?s @ r) = None"
    if "\<not> ascii_word_char d" for d ds
    using that c by (auto simp: re_lit_def s groups_simps)
  have np: "[CHR ''(''] \<notin> set (groups ?s @ r)"
    using join_names_chars [OF names] r(2) not_word_literals by (auto simp: groups_def)
  have by_none: "re_lit ''by'' (groups ?s @ r) = None"
  proof (cases s)
    case Nil
    have "tail_ok E r" by (rule r)
    then show ?thesis
      by (cases r) (auto simp: re_lit_def s groups_simps Nil tail_ok_def word_end_def is_word_ascii
          ascii_word_char_def literal_bytes)
  next
    case (Cons d s')
    with nby show ?thesis by (auto simp: re_lit_def s groups_simps)
  qed
  have "first_match (aggregation_regexmap E) (groups ?s @ r) = Some r"
    using re_comma_list_names [OF names gs(2) r(1)]
    by (simp add: aggregation_regexmap_def re_count_none [OF np] lit not_word_literals by_none)
  from agg_tokenize_step [OF this] show ?thesis
    using to_enum_word [of ?s] join_names_chars [OF names] nby
    by (simp add: groups_simps s [symmetric]) (simp add: s)
qed

lemma replace_all_space_id: "CHR '' '' \<notin> set s \<Longrightarrow> replace_all '' '' [] s = s"
  by (simp add: replace_all_id contains_str_single)

lemma replacen_close: "CHR '')'' \<notin> set f \<Longrightarrow> replacen_1 '')'' [] (f @ '')'') = f"
  by (induction f) auto

lemma agg_tokenize_count:
  assumes f: "list_all ascii_word_char f"
  shows "agg_tokenize_chars E (groups (''count('' @ f @ '')'') @ '' '' # r) =
     bind_result (agg_tokenize_chars E r) (\<lambda>ts. Inr (AggCount f # ts))"
proof -
  have sp: "dropWhile (\<lambda>g. g = '' '') (groups f @ '')'' # '' '' # r) = groups f @ '')'' # '' '' # r"
    using f by (cases f) (auto simp: groups_simps not_word_literals)
  have wd: "dropWhile (is_word E) (groups f @ '')'' # '' '' # r) = '')'' # '' '' # r"
    by (rule take_drop_word(2) [OF f]) (simp add: word_end_def is_word_literals)
  have "re_count E (groups (''count('' @ f @ '')'') @ '' '' # r) = Some ('' '' # r)"
    by (simp add: re_count_def re_lit_def groups_simps sp wd)
  then have "first_match (aggregation_regexmap E) (groups (''count('' @ f @ '')'') @ '' '' # r) = Some ('' '' # r)"
    by (simp add: aggregation_regexmap_def)
  note step = agg_tokenize_step [OF this]
  have nf: "CHR '')'' \<notin> set f" "CHR '' '' \<notin> set f"
    using f not_word_literals by (auto simp: list_all_iff)
  have "to_enum (''count('' @ f @ '')'') = AggCount f"
    using nf by (simp add: to_enum_def starts_with_def replacen_close replace_all_space_id)
  with step show ?thesis
    by (simp add: groups_simps agg_tokenize_space)
qed

lemma word_bytes:
  "list_all ascii_word_char f \<Longrightarrow> is_ascii f"
  by (auto simp: is_ascii_def list_all_iff ascii_word_char_byte)

lemma ascii_print_cmp_op: "is_ascii (print_cmp_op op)"
  by (cases op) (simp_all add: literal_bytes)

lemma ascii_names: "list_all word_name gs \<Longrightarrow> is_ascii (join '','' gs)"
  unfolding is_ascii_def
  using join_names_chars ascii_word_char_byte literal_bytes(2) by fastforce

lemma ascii_show_nat: "is_ascii (show_nat n)"
  using word_name_show_nat [of n] by (simp add: word_name_def word_bytes)

lemma tail_ok_print:
  assumes "is_cmp_op op"
  shows "tail_ok E (groups (print_tail op n))"
  using assms
  by (cases op) (simp_all add: tail_ok_def word_end_def print_tail_def groups_simps ws_space
      is_word_literals re_lit_def)

lemma no_paren_tail: "[CHR ''(''] \<notin> set (groups (print_tail op n))"
  using word_name_show_nat [of n] not_word_literals
  by (cases op) (auto simp: print_tail_def groups_def word_name_def list_all_iff)

lemma by_names_show_nat: "by_names [show_nat n]"
proof -
  have "\<not> starts_with (show_nat n) ''by''"
    using show_nat_digits [of n]
    by (cases "show_nat n") (auto simp: is_digit_def literal_bytes)
  then show ?thesis by (simp add: by_names_def word_name_show_nat)
qed

lemma agg_tokenize_tail:
  assumes "is_cmp_op op"
  shows "agg_tokenize_chars E (groups (print_tail op n)) = Inr [op, Keyword (show_nat n)]"
proof -
  have "tail_ok E []" by (simp add: tail_ok_def word_end_def re_lit_def groups_simps)
  from agg_tokenize_names [OF by_names_show_nat _ this, of n]
  have num: "agg_tokenize_chars E (groups (show_nat n)) = Inr [Keyword (show_nat n)]"
    by (simp add: agg_tokenize_chars.simps [of E "[]"])
  have "groups (print_tail op n) = '' '' # groups (print_cmp_op op) @ '' '' # groups (show_nat n)"
    by (simp add: print_tail_def groups_simps)
  then show ?thesis
    by (simp add: agg_tokenize_space agg_tokenize_op [OF assms] num)
qed

lemma print_tail_hd: "\<exists>r. groups (print_tail op n) = '' '' # r"
  by (simp add: print_tail_def groups_simps)

lemma agg_tokenize_by_tail:
  assumes "by_names gs" and "is_cmp_op op"
  shows "agg_tokenize_chars E (groups (print_by gs @ print_tail op n)) =
     Inr ((if gs = [] then [] else [BY, Keyword (join '','' gs)]) @ [op, Keyword (show_nat n)])"
proof (cases "gs = []")
  case True
  with assms show ?thesis by (simp add: print_by_def agg_tokenize_tail)
next
  case False
  have "groups (print_by gs @ print_tail op n)
      = '' '' # groups ''by'' @ '' '' # groups (join '','' gs) @ groups (print_tail op n)"
    using False by (simp add: print_by_def groups_simps)
  with False assms show ?thesis
    by (simp add: agg_tokenize_space agg_tokenize_by agg_tokenize_names tail_ok_print
        no_paren_tail agg_tokenize_tail)
qed

lemma agg_tokenize_print:
  assumes "list_all ascii_word_char f" and "by_names gs" and "is_cmp_op op"
  shows "agg_tokenize E ('' count('' @ f @ '')'' @ print_by gs @ print_tail op n) =
     Inr (AggCount f # (if gs = [] then [] else [BY, Keyword (join '','' gs)]) @ [op, Keyword (show_nat n)])"
proof -
  let ?rest = "print_by gs @ print_tail op n"
  have "\<exists>r. groups ?rest = '' '' # r"
    by (cases "gs = []") (simp_all add: print_by_def groups_simps print_tail_hd)
  then obtain r where r: "groups ?rest = '' '' # r" by blast
  have "is_ascii ('' count('' @ f @ '')'' @ ?rest)"
    using assms word_bytes [OF assms(1)] ascii_names ascii_print_cmp_op ascii_show_nat
    by (auto simp: print_by_def print_tail_def by_names_def literal_bytes byte_def)
  then have "utf8_chars ('' count('' @ f @ '')'' @ ?rest) = groups ('' count('' @ f @ '')'' @ ?rest)"
    unfolding groups_def by (rule utf8_chars_ascii)
  then have "utf8_chars ('' count('' @ f @ '')'' @ ?rest)
      = '' '' # groups (''count('' @ f @ '')'') @ '' '' # r"
    unfolding groups_simps(3) r [unfolded groups_simps(3)] by (simp add: groups_simps r [unfolded groups_simps(3)])
  then have "agg_tokenize E ('' count('' @ f @ '')'' @ ?rest)
      = bind_result (agg_tokenize_chars E r) (\<lambda>ts. Inr (AggCount f # ts))"
    unfolding agg_tokenize_def
    by (simp only: agg_tokenize_space agg_tokenize_count [OF assms(1)])
  moreover have "agg_tokenize_chars E r = agg_tokenize_chars E (groups ?rest)"
    by (simp add: r agg_tokenize_space)
  ultimately show ?thesis
    by (simp only: agg_tokenize_by_tail [OF assms(2,3)] bind_result.simps)
qed

lemma parse_usize_bound: "n < 2 ^ 63 \<Longrightarrow> parse_i64 (show_nat n) = Some (int n)"
  by (simp add: parse_i64_def show_nat_no_sign)

lemma agg_parse_print:
  assumes "is_cmp_op op" and "n < 2 ^ 63"
  shows "agg_parse (AggCount f # (if gs = [] then [] else [BY, Keyword g]) @ [op, Keyword (show_nat n)]) =
     Inr (Some \<lparr>field_name = (if f = [] then None else Some f),
       by_field_name = (if gs = [] then None else Some g), cmp_op = op, cmp_num = int n\<rparr>)"
  using assms
  by (cases op) (simp_all add: agg_parse_def parse_cmp_def parse_usize_bound del: power_numeral)

lemma re_pipe_print:
  assumes "CHR ''|'' \<notin> set cond" and "CHR 0x0A \<notin> set t"
  shows "re_pipe (cond @ CHR ''|'' # t) = Some (CHR ''|'' # t)"
proof -
  have "dropWhile (\<lambda>c. c \<noteq> CHR ''|'') (cond @ CHR ''|'' # t) = CHR ''|'' # t"
    using assms by (induction cond) auto
  moreover have "takeWhile (\<lambda>c. c \<noteq> CHR 0x0A) (CHR ''|'' # t) = CHR ''|'' # t"
    using assms(2) by (simp add: takeWhile_eq_all_conv) blast
  ultimately show ?thesis by (simp add: re_pipe_def)
qed

lemma no_newline_print:
  assumes "list_all ascii_word_char f" and "by_names gs" and "is_cmp_op op"
  shows "CHR 0x0A \<notin> set ('' count('' @ f @ '')'' @ print_by gs @ print_tail op n)"
proof -
  have nl: "\<not> ascii_word_char (CHR 0x0A)" by (simp add: ascii_word_char_def byte_def)
  have "CHR 0x0A \<notin> set (join '','' gs)"
    using join_names_chars [of gs "CHR 0x0A"] assms(2) nl by (auto simp: by_names_def)
  moreover have "CHR 0x0A \<notin> set (show_nat n)" "CHR 0x0A \<notin> set f"
    using word_name_show_nat [of n] nl assms(1) by (auto simp: word_name_def list_all_iff)
  moreover have "CHR 0x0A \<notin> set (print_cmp_op op)" by (cases op) auto
  ultimately show ?thesis by (auto simp: print_by_def print_tail_def)
qed

lemma compile_print:
  assumes "CHR ''|'' \<notin> set cond" and "list_all ascii_word_char f" and "by_names gs"
    and "is_cmp_op op" and "n < 2 ^ 63"
  shows "agg_compile E (cond @ print_agg f gs op n) =
     Inr (Some \<lparr>field_name = (if f = [] then None else Some f),
       by_field_name = (if gs = [] then None else Some (join '','' gs)),
       cmp_op = op, cmp_num = int n\<rparr>)"
proof -
  let ?t = "'' count('' @ f @ '')'' @ print_by gs @ print_tail op n"
  have "re_pipe (cond @ CHR ''|'' # ?t) = Some (CHR ''|'' # ?t)"
    by (rule re_pipe_print [OF assms(1) no_newline_print [OF assms(2-4)]])
  moreover have "replacen_1 ''|'' [] (CHR ''|'' # ?t) = ?t" by (simp add: starts_with_def)
  moreover have "cond @ print_agg f gs op n = cond @ CHR ''|'' # ?t" by (simp add: print_agg_def)
  moreover have "bind_result (agg_tokenize E ?t) agg_parse =
      Inr (Some \<lparr>field_name = (if f = [] then None else Some f),
        by_field_name = (if gs = [] then None else Some (join '','' gs)),
        cmp_op = op, cmp_num = int n\<rparr>)"
    unfolding agg_tokenize_print [OF assms(2-4)] bind_result.simps
    by (rule agg_parse_print [OF assms(4,5)])
  ultimately show ?thesis
    unfolding agg_compile_def agg_compile_body_def by simp
qed

subsection \<open>The properties of the component\<close>

text \<open>
  The aggregation part of a rule condition survives printing and parsing. For any text
  before the pipe, a count field of ASCII word characters (or none), any comma-separated
  \<open>by\<close> fields that do not begin with the letters \<open>by\<close>, any of the five comparison operators
  and any threshold below \<open>2^63\<close>, the compiler returns exactly that aggregation condition.
\<close>

theorem agg_compile_print:
  assumes "CHR ''|'' \<notin> set cond" and "list_all ascii_word_char f" and "by_names gs"
    and "is_cmp_op op" and "n < 2 ^ 63"
  shows "agg_compile E (cond @ print_agg f gs op n) =
     Inr (Some \<lparr>field_name = (if f = [] then None else Some f),
       by_field_name = (if gs = [] then None else Some (join '','' gs)),
       cmp_op = op, cmp_num = int n\<rparr>)"
  by (rule compile_print [OF assms])

theorem agg_compile_print_witness:
  "agg_compile env0 (''sel '' @ print_agg ''User'' [''Computer'', ''EventID''] GE 5) =
     Inr (Some \<lparr>field_name = Some ''User'', by_field_name = Some ''Computer,EventID'',
       cmp_op = GE, cmp_num = 5\<rparr>)"
proof -
  have "CHR ''|'' \<notin> set ''sel ''" by simp
  moreover have "list_all ascii_word_char ''User''" by code_simp
  moreover have "by_names [''Computer'', ''EventID'']" by code_simp
  ultimately show ?thesis
    using agg_compile_print [of "''sel ''" "''User''" "[''Computer'', ''EventID'']" GE 5 env0] by simp
qed

text \<open>
  Whatever the condition text, an aggregation condition the compiler accepts has one of
  the five comparison operators, a threshold that fits the \<open>i64\<close> it is stored in and, when it
  names a count field, a non-empty one; so the comparison that later evaluates the count never
  falls into its default branch.
\<close>

theorem agg_compile_wf:
  assumes "agg_compile E s = Inr (Some i)"
  shows "is_cmp_op (cmp_op i) \<and> - (2 ^ 63) \<le> cmp_num i \<and> cmp_num i < 2 ^ 63 \<and> field_name i \<noteq> Some []"
proof -
  have cmp: "is_cmp_op (cmp_op i) \<and> - (2 ^ 63) \<le> cmp_num i \<and> cmp_num i < 2 ^ 63 \<and> field_name i = f"
    if "parse_cmp f b ts = Inr (Some i)" for f b ts
    using that parse_i64_range
    by (auto simp: parse_cmp_def split: list.splits agg_token.splits option.splits if_splits)
  obtain ts where "agg_parse ts = Inr (Some i)"
    using assms
    by (auto simp: agg_compile_def agg_compile_body_def bind_result_Inr_iff
        split: sum.splits option.splits)
  then obtain f b ts' where "parse_cmp (if f = [] then None else Some f) b ts' = Inr (Some i)"
    by (auto simp: agg_parse_def Let_def split: list.splits agg_token.splits)
  from cmp [OF this] show ?thesis by auto
qed

theorem agg_compile_wf_witness:
  "is_cmp_op GE \<and> - (2 ^ 63) \<le> (5::int) \<and> (5::int) < 2 ^ 63 \<and> Some ''User'' \<noteq> Some ([]::string)"
proof -
  have "agg_compile env0 (''sel '' @ print_agg ''User'' [] GE 5) =
      Inr (Some \<lparr>field_name = Some ''User'', by_field_name = None, cmp_op = GE, cmp_num = 5\<rparr>)"
    using compile_print [of "''sel ''" "''User''" "[]" GE 5 env0]
    by (simp add: by_names_def ascii_word_char_def byte_def)
  from agg_compile_wf [OF this] show ?thesis by simp
qed

end
