(* ===== verification/Condition_Parser.thy ===== *)
theory Condition_Parser
  imports Selection_Nodes Aggregation_Parser
begin

section \<open>The condition of a rule (condition\_parser.rs)\<close>

text \<open>
  The expression language over the names of selections: lexer, parser and translation to
  selection nodes. The name table is an association list, so that the order in which the
  source's hash map iterates is an arbitrary but fixed order.
\<close>

datatype ctoken =
    LeftParenthesis
  | RightParenthesis
  | CSpace
  | CNot
  | CAnd
  | COr
  | SelectionReference string
  | ParenthesisContainer ctoken
  | AndContainer "ctoken list"
  | OrContainer "ctoken list"
  | NotContainer ctoken

subsection \<open>Lexer\<close>

definition is_word_plus :: "env \<Rightarrow> string \<Rightarrow> bool" where
  "is_word_plus E g \<longleftrightarrow> is_word E g \<or> g = ''+''"

definition re_words :: "env \<Rightarrow> string list \<Rightarrow> string list option" where
  "re_words E cs =
     (if takeWhile (is_word_plus E) cs = [] then None else Some (dropWhile (is_word_plus E) cs))"

definition condition_regexmap :: "env \<Rightarrow> (string list \<Rightarrow> string list option) list" where
  "condition_regexmap E = [re_lit ''('', re_lit '')'', re_lit '' '', re_words E]"

definition to_condition_token :: "string \<Rightarrow> ctoken" where
  "to_condition_token token =
     (if token = ''('' then LeftParenthesis
      else if token = '')'' then RightParenthesis
      else if token = '' '' then CSpace
      else if token = ''not'' then CNot
      else if token = ''and'' then CAnd
      else if token = ''or'' then COr
      else SelectionReference token)"

lemma re_words_length: "re_words E cs = Some r \<Longrightarrow> length r < length cs"
  by (auto simp: re_words_def split: if_splits)
     (metis length_append length_greater_0_conv less_add_same_cancel2 takeWhile_dropWhile_id)

lemma first_match_condition_length:
  "first_match (condition_regexmap E) cs = Some r \<Longrightarrow> length r < length cs"
  by (auto simp: condition_regexmap_def split: option.splits dest: re_words_length re_lit_length)

function cond_tokenize_chars :: "env \<Rightarrow> string list \<Rightarrow> ctoken list result" where
  "cond_tokenize_chars E cs =
     (if cs = [] then Inr []
      else (case first_match (condition_regexmap E) cs of
              None \<Rightarrow> Inl ''An unusable character was found.''
            | Some r \<Rightarrow>
                (let token = to_condition_token (concat (take (length cs - length r) cs)) in
                 if token = CSpace then cond_tokenize_chars E r
                 else bind_result (cond_tokenize_chars E r) (\<lambda>ts. Inr (token # ts)))))"
  by pat_completeness auto
termination
  by (relation "measure (\<lambda>(E, cs). length cs)") (auto dest: first_match_condition_length)

declare cond_tokenize_chars.simps [simp del]

definition cond_tokenize :: "env \<Rightarrow> string \<Rightarrow> ctoken list result" where
  "cond_tokenize E s = cond_tokenize_chars E (utf8_chars s)"

subsection \<open>Operands\<close>

definition is_logical :: "ctoken \<Rightarrow> bool" where
  "is_logical t \<longleftrightarrow> t = CAnd \<or> t = COr"

definition err_many :: string where
  "err_many = ''Unknown error. Maybe it is because there are multiple names of selection nodes.''"

definition parse_operand_container :: "ctoken list \<Rightarrow> ctoken result" where
  "parse_operand_container sub_tokens =
     (case sub_tokens of
        [] \<Rightarrow> Inl ''Unknown error.''
      | [t] \<Rightarrow> if t = CNot then Inl ''An illegal not was found.'' else Inr t
      | [t, u] \<Rightarrow>
          (if t = CNot then (if u = CNot then Inl ''Not is continuous.'' else Inr (NotContainer u))
           else Inl err_many)
      | _ \<Rightarrow> Inl err_many)"

text \<open>The loop of \<open>to_operand_container\<close>; the first argument is \<open>grouped_operands\<close>.\<close>

fun operand_loop :: "ctoken list \<Rightarrow> ctoken list \<Rightarrow> ctoken list result" where
  "operand_loop grouped [] =
     (if grouped = [] then Inr [] else bind_result (parse_operand_container grouped) (\<lambda>x. Inr [x]))"
| "operand_loop grouped (token # ts) =
     (if is_logical token then
        (if grouped = [] then bind_result (operand_loop [] ts) (\<lambda>r. Inr (token # r))
         else bind_result (parse_operand_container grouped)
                (\<lambda>x. bind_result (operand_loop [] ts) (\<lambda>r. Inr (x # token # r))))
      else operand_loop (grouped @ [token]) ts)"

definition to_operand_container :: "ctoken list \<Rightarrow> ctoken list result" where
  "to_operand_container tokens = operand_loop [] tokens"

text \<open>The operands at even positions, the operators at odd ones.\<close>

fun split_operands :: "nat \<Rightarrow> ctoken list \<Rightarrow> (ctoken list \<times> ctoken list) result" where
  "split_operands i [] = Inr ([], [])"
| "split_operands i (token # ts) =
     (if (i mod 2 = 1) \<noteq> is_logical token then Inl ''The use of a logical operator(and, or) was wrong.''
      else bind_result (split_operands (i + 1) ts)
             (\<lambda>(operands, operators).
                Inr (if i mod 2 = 0 then (token # operands, operators) else (operands, token # operators))))"

text \<open>
  The grouping of operands joined by \<open>and\<close>, one operator at a time (the last one is the
  sentinel); there is one operand per operator, so the iterator never runs dry.
\<close>

fun group_ands :: "ctoken list \<Rightarrow> ctoken list \<Rightarrow> ctoken list \<Rightarrow> ctoken list" where
  "group_ands [] operands and_groups = []"
| "group_ands (op # ops) [] and_groups = []"
| "group_ands (op # ops) (x # xs) and_groups =
     (if op = COr
      then (if and_groups = [] then x else AndContainer (and_groups @ [x])) # group_ands ops xs []
      else group_ands ops xs (and_groups @ [x]))"

definition parse_and_or_operator :: "ctoken list \<Rightarrow> ctoken result" where
  "parse_and_or_operator tokens =
     (if tokens = [] then Inl ''Unknown error.''
      else bind_result (to_operand_container tokens) (\<lambda>ts.
        if is_logical (hd ts) \<or> is_logical (last ts)
        then Inl ''An illegal logical operator(and, or) was found.''
        else bind_result (split_operands 0 ts) (\<lambda>(operand_list, operator_list).
          case group_ands (operator_list @ [COr]) operand_list [] of
            [t] \<Rightarrow> Inr t
          | operands \<Rightarrow> Inr (OrContainer operands))))"

subsection \<open>Parentheses\<close>

text \<open>The tokens up to the matching right parenthesis, and those after it.\<close>

fun find_close :: "nat \<Rightarrow> nat \<Rightarrow> ctoken list \<Rightarrow> (ctoken list \<times> ctoken list) option" where
  "find_close left_cnt right_cnt [] = None"
| "find_close left_cnt right_cnt (token # ts) =
     (let l = (if token = LeftParenthesis then left_cnt + 1 else left_cnt);
          r = (if token = RightParenthesis then right_cnt + 1 else right_cnt)
      in if l = r then Some ([], ts)
         else map_option (\<lambda>(sub, rest). (token # sub, rest)) (find_close l r ts))"

lemma find_close_length:
  "find_close l r ts = Some (sub, rest) \<Longrightarrow> length sub < length ts \<and> length rest < length ts"
proof (induction ts arbitrary: l r sub)
  case (Cons token ts)
  show ?case
    using Cons.prems by (auto simp: Let_def split: if_splits dest!: Cons.IH)
qed simp

function parenthesis_loop :: "ctoken list \<Rightarrow> ctoken list result"
  and parse_condition :: "ctoken list \<Rightarrow> ctoken result" where
  "parenthesis_loop [] = Inr []"
| "parenthesis_loop (token # ts) =
     (if token \<noteq> LeftParenthesis then bind_result (parenthesis_loop ts) (\<lambda>r. Inr (token # r))
      else (case find_close 1 0 ts of
              None \<Rightarrow> Inl ([CHR 0x27, CHR '')'', CHR 0x27] @ '' was expected but not found.'')
            | Some (sub, rest) \<Rightarrow>
                bind_result (parse_condition sub) (\<lambda>t.
                  bind_result (parenthesis_loop rest) (\<lambda>r. Inr (ParenthesisContainer t # r)))))"
| "parse_condition tokens =
     bind_result
       (bind_result (parenthesis_loop tokens) (\<lambda>ret.
          if RightParenthesis \<in> set ret
          then Inl ([CHR 0x27, CHR ''('', CHR 0x27] @ '' was expected but not found.'')
          else Inr ret))
       parse_and_or_operator"
  by pat_completeness auto
termination
  by (relation "measure (\<lambda>x. case x of Inl ts \<Rightarrow> 2 * length ts | Inr ts \<Rightarrow> Suc (2 * length ts))")
     (auto dest: find_close_length)

declare parse_condition.simps [simp del] parenthesis_loop.simps [simp del]

subsection \<open>Selection nodes\<close>

fun into_selection_node :: "(string \<times> snode) list \<Rightarrow> ctoken \<Rightarrow> snode result" where
  "into_selection_node names (SelectionReference n) =
     (case map_of names n of
        Some node \<Rightarrow> Inr (RefNode node)
      | None \<Rightarrow> Inl (n @ '' is not defined.''))"
| "into_selection_node names (ParenthesisContainer t) = into_selection_node names t"
| "into_selection_node names (AndContainer ts) =
     bind_result (map_result (into_selection_node names) ts) (\<lambda>ns. Inr (AndNode ns))"
| "into_selection_node names (OrContainer ts) =
     bind_result (map_result (into_selection_node names) ts) (\<lambda>ns. Inr (OrNode ns))"
| "into_selection_node names (NotContainer t) =
     bind_result (into_selection_node names t) (\<lambda>n. Inr (NotNode n))"
| "into_selection_node names _ = Inl ''Unknown error''"

definition compile_condition_body :: "env \<Rightarrow> string \<Rightarrow> (string \<times> snode) list \<Rightarrow> snode result" where
  "compile_condition_body E condition_str names =
     bind_result (cond_tokenize E condition_str) (\<lambda>tokens.
       bind_result (parse_condition tokens) (into_selection_node names))"

text \<open>
  The matches of \<open>(all|1) of ([^*]+)\*\<close>, from the left and not overlapping: the text and
  what follows it.
\<close>

definition of_selection_at :: "string \<Rightarrow> (string \<times> string) option" where
  "of_selection_at s =
     (let n = (if starts_with s ''all of '' then 7 else if starts_with s ''1 of '' then 5 else 0);
          body = takeWhile (\<lambda>c. c \<noteq> CHR ''*'') (drop n s)
      in if n = 0 \<or> body = [] \<or> drop (n + length body) s = [] then None
         else Some (take (n + length body + 1) s, drop (n + length body + 1) s))"

lemma of_selection_at_length:
  "of_selection_at s = Some (m, rest) \<Longrightarrow> length rest < length s"
  by (auto simp: of_selection_at_def Let_def split: if_splits)

function of_selection_matches :: "string \<Rightarrow> string list" where
  "of_selection_matches s =
     (case s of
        [] \<Rightarrow> []
      | c # cs \<Rightarrow>
          (case of_selection_at s of
             Some (m, rest) \<Rightarrow> m # of_selection_matches rest
           | None \<Rightarrow> of_selection_matches cs))"
  by pat_completeness auto
termination
  by (relation "measure length") (auto dest: of_selection_at_length)

declare of_selection_matches.simps [simp del]

definition of_selection_text :: "string list \<Rightarrow> string \<Rightarrow> string" where
  "of_selection_text node_keys match_str =
     (let sep = (if starts_with match_str ''all'' then '' and '' else '' or '');
          target_prefix = replace_all ''1 of '' [] (replace_all ''all of '' [] (replace_all ''*'' [] match_str))
      in ''('' @ join sep (filter (\<lambda>x. starts_with x target_prefix) node_keys) @ '')'')"

definition convert_condition :: "string \<Rightarrow> string list \<Rightarrow> string" where
  "convert_condition condition_str node_keys =
     foldl (\<lambda>s m. replace_all m (of_selection_text node_keys m) s) condition_str
       (of_selection_matches condition_str)"

definition compile_condition :: "env \<Rightarrow> string \<Rightarrow> (string \<times> snode) list \<Rightarrow> snode result" where
  "compile_condition E condition_str names =
     (let converted = convert_condition condition_str (map fst names);
          replaced = (case re_pipe converted of
                        Some captured \<Rightarrow> replace_all captured [] converted
                      | None \<Rightarrow> converted)
      in case compile_condition_body E replaced names of
           Inl msg \<Rightarrow> Inl (''A condition parse error has occurred. '' @ msg)
         | Inr n \<Rightarrow> Inr n)"

end
