(* ===== verification/Condition_Grammar.thy ===== *)
theory Condition_Grammar
  imports Condition_Parser
begin

section \<open>The grammar of conditions and the correctness of their parser\<close>

text \<open>
  Boolean expressions over selection names as the reference: how one is written as tokens
  and as text, with parentheses only where precedence needs them, which container the parser
  makes of it, and its truth value.
\<close>

datatype cexp =
    Name string
  | Neg cexp
  | Conj "cexp list"
  | Disj "cexp list"

fun is_name :: "cexp \<Rightarrow> bool" where
  "is_name (Name n) = True" | "is_name _ = False"

fun is_neg :: "cexp \<Rightarrow> bool" where
  "is_neg (Neg e) = True" | "is_neg _ = False"

fun is_disj :: "cexp \<Rightarrow> bool" where
  "is_disj (Disj es) = True" | "is_disj _ = False"

fun cexp_eval :: "(string \<Rightarrow> bool) \<Rightarrow> cexp \<Rightarrow> bool" where
  "cexp_eval s (Name n) = s n"
| "cexp_eval s (Neg e) = (\<not> cexp_eval s e)"
| "cexp_eval s (Conj es) = list_all (cexp_eval s) es"
| "cexp_eval s (Disj es) = list_ex (cexp_eval s) es"

fun cexp_names :: "cexp \<Rightarrow> string list" where
  "cexp_names (Name n) = [n]"
| "cexp_names (Neg e) = cexp_names e"
| "cexp_names (Conj es) = concat (map cexp_names es)"
| "cexp_names (Disj es) = concat (map cexp_names es)"

text \<open>Conjunctions and disjunctions have two operands or more.\<close>

fun cexp_wf :: "cexp \<Rightarrow> bool" where
  "cexp_wf (Name n) = True"
| "cexp_wf (Neg e) = cexp_wf e"
| "cexp_wf (Conj es) = (2 \<le> length es \<and> list_all cexp_wf es)"
| "cexp_wf (Disj es) = (2 \<le> length es \<and> list_all cexp_wf es)"

fun sep_by :: "'a \<Rightarrow> 'a list list \<Rightarrow> 'a list" where
  "sep_by t [] = []"
| "sep_by t [w] = w"
| "sep_by t (w # v # ws) = w @ t # sep_by t (v # ws)"

lemma sep_by_Cons: "ws \<noteq> [] \<Longrightarrow> sep_by t (w # ws) = w @ t # sep_by t ws"
  by (cases ws) simp_all

definition paren_tokens :: "ctoken list \<Rightarrow> ctoken list" where
  "paren_tokens ts = LeftParenthesis # ts @ [RightParenthesis]"

fun cexp_tokens :: "cexp \<Rightarrow> ctoken list" where
  "cexp_tokens (Name n) = [SelectionReference n]"
| "cexp_tokens (Neg e) = CNot # (if is_name e then cexp_tokens e else paren_tokens (cexp_tokens e))"
| "cexp_tokens (Conj es) =
     sep_by CAnd (map (\<lambda>e. if is_name e \<or> is_neg e then cexp_tokens e else paren_tokens (cexp_tokens e)) es)"
| "cexp_tokens (Disj es) =
     sep_by COr (map (\<lambda>e. if is_disj e then paren_tokens (cexp_tokens e) else cexp_tokens e) es)"

text \<open>The container tree of an expression.\<close>

fun cexp_container :: "cexp \<Rightarrow> ctoken" where
  "cexp_container (Name n) = SelectionReference n"
| "cexp_container (Neg e) =
     NotContainer (if is_name e then cexp_container e else ParenthesisContainer (cexp_container e))"
| "cexp_container (Conj es) =
     AndContainer (map (\<lambda>e. if is_name e \<or> is_neg e then cexp_container e
                             else ParenthesisContainer (cexp_container e)) es)"
| "cexp_container (Disj es) =
     OrContainer (map (\<lambda>e. if is_disj e then ParenthesisContainer (cexp_container e)
                            else cexp_container e) es)"

text \<open>The tokens once the parentheses are parsed: an operand, a conjunction, an expression.\<close>

definition operand_tokens :: "cexp \<Rightarrow> ctoken list" where
  "operand_tokens e =
     (case e of
        Name n \<Rightarrow> [SelectionReference n]
      | Neg a \<Rightarrow> [CNot, if is_name a then cexp_container a else ParenthesisContainer (cexp_container a)]
      | _ \<Rightarrow> [ParenthesisContainer (cexp_container e)])"

definition conj_tokens :: "cexp \<Rightarrow> ctoken list" where
  "conj_tokens e =
     (case e of
        Conj es \<Rightarrow> sep_by CAnd (map operand_tokens es)
      | _ \<Rightarrow> operand_tokens e)"

definition flat_tokens :: "cexp \<Rightarrow> ctoken list" where
  "flat_tokens e =
     (case e of
        Disj es \<Rightarrow> sep_by COr (map conj_tokens es)
      | _ \<Rightarrow> conj_tokens e)"

subsection \<open>Operands and operators\<close>

text \<open>An operand: its tokens and the container they become.\<close>

definition operand_of :: "cexp \<Rightarrow> ctoken" where
  "operand_of e = (if is_name e \<or> is_neg e then cexp_container e else ParenthesisContainer (cexp_container e))"

lemma not_logical [simp]:
  "\<not> is_logical (cexp_container e)" "\<not> is_logical (ParenthesisContainer t)" "\<not> is_logical CNot"
  "\<not> is_logical (SelectionReference n)" "\<not> is_logical (NotContainer t)" "is_logical CAnd" "is_logical COr"
  "\<not> is_logical (AndContainer ts)" "\<not> is_logical (OrContainer ts)"
  by (cases e; simp add: is_logical_def)+

lemma container_not_CNot [simp]: "cexp_container e \<noteq> CNot" "cexp_container e \<noteq> RightParenthesis"
  by (cases e; simp)+

lemma operand_tokens_ok:
  "operand_tokens e \<noteq> []" "list_all (\<lambda>t. \<not> is_logical t) (operand_tokens e)"
  "parse_operand_container (operand_tokens e) = Inr (operand_of e)"
  by (cases e; auto simp: operand_tokens_def operand_of_def parse_operand_container_def)+

lemma operand_of_not_logical [simp]: "\<not> is_logical (operand_of e)"
  by (simp add: operand_of_def)

lemma operand_loop_skip:
  "list_all (\<lambda>t. \<not> is_logical t) u \<Longrightarrow> operand_loop g (u @ ts) = operand_loop (g @ u) ts"
  by (induction u arbitrary: g) simp_all

text \<open>A first operand, then operators each with the operand after it.\<close>

definition chain_tokens :: "cexp \<Rightarrow> (ctoken \<times> cexp) list \<Rightarrow> ctoken list" where
  "chain_tokens e ps = operand_tokens e @ concat (map (\<lambda>(op, x). op # operand_tokens x) ps)"

definition chain_operands :: "cexp \<Rightarrow> (ctoken \<times> cexp) list \<Rightarrow> ctoken list" where
  "chain_operands e ps = operand_of e # concat (map (\<lambda>(op, x). [op, operand_of x]) ps)"

lemma operand_loop_chain:
  "\<forall>p \<in> set ps. is_logical (fst p) \<Longrightarrow> operand_loop [] (chain_tokens e ps) = Inr (chain_operands e ps)"
proof (induction ps arbitrary: e)
  case Nil
  have "operand_loop [] (operand_tokens e @ []) = operand_loop (operand_tokens e) []"
    using operand_loop_skip [OF operand_tokens_ok(2), of "[]" e "[]"] by simp
  then show ?case
    by (simp add: chain_tokens_def chain_operands_def operand_tokens_ok)
next
  case (Cons p ps)
  obtain op x where p: "p = (op, x)" by (cases p)
  have "chain_tokens e (p # ps) = operand_tokens e @ op # chain_tokens x ps"
    by (simp add: chain_tokens_def p)
  then have "operand_loop [] (chain_tokens e (p # ps)) = operand_loop (operand_tokens e) (op # chain_tokens x ps)"
    using operand_loop_skip [OF operand_tokens_ok(2), of "[]"] by simp
  with Cons p show ?case
    by (simp add: operand_tokens_ok chain_operands_def)
qed

lemma split_operands_chain:
  assumes "\<forall>p \<in> set ps. is_logical (fst p)"
  shows "even i \<Longrightarrow> split_operands i (chain_operands e ps) =
    Inr (operand_of e # map (\<lambda>p. operand_of (snd p)) ps, map fst ps)"
  using assms
proof (induction ps arbitrary: e i)
  case Nil
  then show ?case by (simp add: chain_operands_def)
next
  case (Cons p ps)
  obtain op x where p: "p = (op, x)" by (cases p)
  have "chain_operands e (p # ps) = operand_of e # op # chain_operands x ps"
    by (simp add: chain_operands_def p)
  moreover have "split_operands (i + 1 + 1) (chain_operands x ps) =
      Inr (operand_of x # map (\<lambda>p. operand_of (snd p)) ps, map fst ps)"
    using Cons.prems by (intro Cons.IH) auto
  moreover have "i mod 2 = 0" "(i + 1) mod 2 = 1" using \<open>even i\<close> by presburger+
  ultimately show ?case using Cons.prems p by simp
qed

text \<open>Grouping: the operands of a conjunction collapse into one, then those of the disjunction.\<close>

definition collapse_and :: "ctoken list \<Rightarrow> ctoken" where
  "collapse_and xs = (case xs of [x] \<Rightarrow> x | _ \<Rightarrow> AndContainer xs)"

lemma group_ands_conj:
  "group_ands (replicate (length xs) CAnd @ COr # ops) (xs @ x # ys) acc =
     collapse_and (acc @ xs @ [x]) # group_ands ops ys []"
proof (induction xs arbitrary: acc)
  case Nil
  show ?case by (cases acc) (auto simp: collapse_and_def split: list.split)
next
  case (Cons y xs)
  have "group_ands (CAnd # replicate (length xs) CAnd @ COr # ops) (y # xs @ x # ys) acc =
      group_ands (replicate (length xs) CAnd @ COr # ops) (xs @ x # ys) (acc @ [y])"
    by simp
  also have "\<dots> = collapse_and ((acc @ [y]) @ xs @ [x]) # group_ands ops ys []"
    by (rule Cons.IH)
  finally show ?case by simp
qed

text \<open>A disjunction of conjunctions as the groups of its operands.\<close>

fun group_pairs :: "cexp list list \<Rightarrow> (ctoken \<times> cexp) list" where
  "group_pairs [] = []"
| "group_pairs (es # ess) = (COr, hd es) # map (Pair CAnd) (tl es) @ group_pairs ess"

lemma group_pairs_logical: "\<forall>p \<in> set (group_pairs ess). is_logical (fst p)"
  by (induction ess) auto

lemma group_ands_groups:
  assumes "es \<noteq> []" and "\<forall>xs \<in> set ess. xs \<noteq> []"
  shows "group_ands (map fst (map (Pair CAnd) (tl es) @ group_pairs ess) @ [COr])
      (map operand_of es @ map (\<lambda>p. operand_of (snd p)) (group_pairs ess)) [] =
    map (\<lambda>xs. collapse_and (map operand_of xs)) (es # ess)"
  using assms
proof (induction ess arbitrary: es)
  case Nil
  then obtain e es' where es: "es = es' @ [e]" by (metis append_butlast_last_id)
  have "map fst (map (Pair CAnd) (tl es)) = replicate (length (map operand_of es')) CAnd"
    using es by (cases es') (auto simp: map_replicate_const comp_def replicate_append_same)
  with es group_ands_conj [of "map operand_of es'" "[]" "operand_of e" "[]" "[]"]
  show ?case by simp
next
  case (Cons xs ess)
  then obtain e es' where es: "es = es' @ [e]" by (metis append_butlast_last_id)
  have ops: "map fst (map (Pair CAnd) (tl es)) = replicate (length (map operand_of es')) CAnd"
    using es by (cases es') (auto simp: map_replicate_const comp_def replicate_append_same)
  have IH: "group_ands (map fst (map (Pair CAnd) (tl xs) @ group_pairs ess) @ [COr])
      (map operand_of xs @ map (\<lambda>p. operand_of (snd p)) (group_pairs ess)) [] =
    map (\<lambda>xs. collapse_and (map operand_of xs)) (xs # ess)"
    using Cons.prems by (intro Cons.IH) auto
  have "group_ands (replicate (length (map operand_of es')) CAnd @ COr #
        map fst (map (Pair CAnd) (tl xs) @ group_pairs ess) @ [COr])
      (map operand_of es' @ operand_of e #
        map operand_of xs @ map (\<lambda>p. operand_of (snd p)) (group_pairs ess)) [] =
      collapse_and (map operand_of es' @ [operand_of e]) # map (\<lambda>xs. collapse_and (map operand_of xs)) (xs # ess)"
    unfolding group_ands_conj IH by simp
  moreover obtain x xr where "xs = x # xr" using Cons.prems by (cases xs) auto
  ultimately show ?case
    using ops es by (simp add: comp_def)
qed

definition conj_group :: "cexp \<Rightarrow> cexp list" where
  "conj_group e = (case e of Conj es \<Rightarrow> es | _ \<Rightarrow> [e])"

definition disj_groups :: "cexp \<Rightarrow> cexp list list" where
  "disj_groups e = (case e of Disj es \<Rightarrow> map conj_group es | _ \<Rightarrow> [conj_group e])"

lemma conj_group_tokens: "conj_tokens e = sep_by CAnd (map operand_tokens (conj_group e))"
  by (cases e) (simp_all add: conj_tokens_def conj_group_def)

lemma flat_tokens_groups:
  "flat_tokens e = sep_by COr (map (\<lambda>es. sep_by CAnd (map operand_tokens es)) (disj_groups e))"
  by (cases e) (simp_all add: flat_tokens_def disj_groups_def conj_group_tokens [abs_def] comp_def)

lemma groups_nonempty:
  "cexp_wf e \<Longrightarrow> conj_group e \<noteq> []"
  "cexp_wf e \<Longrightarrow> disj_groups e \<noteq> [] \<and> (\<forall>xs \<in> set (disj_groups e). xs \<noteq> [])"
proof -
  have 1: "cexp_wf e \<Longrightarrow> conj_group e \<noteq> []" for e
    by (cases e) (auto simp: conj_group_def)
  then show "cexp_wf e \<Longrightarrow> conj_group e \<noteq> []" .
  show "cexp_wf e \<Longrightarrow> disj_groups e \<noteq> [] \<and> (\<forall>xs \<in> set (disj_groups e). xs \<noteq> [])"
    using 1 by (cases e) (auto simp: disj_groups_def list_all_iff conj_group_def)
qed

lemma sep_and_chain:
  "sep_by CAnd (map operand_tokens (e # es)) = chain_tokens e (map (Pair CAnd) es)"
  by (induction es arbitrary: e) (simp_all add: chain_tokens_def comp_def)

lemma chain_tokens_append:
  "chain_tokens e (ps @ (op, x) # qs) = chain_tokens e ps @ op # chain_tokens x qs"
  by (simp add: chain_tokens_def)

lemma sep_or_chain:
  assumes "es \<noteq> []" and "\<forall>xs \<in> set ess. xs \<noteq> []"
  shows "sep_by COr (map (\<lambda>es. sep_by CAnd (map operand_tokens es)) (es # ess)) =
     chain_tokens (hd es) (map (Pair CAnd) (tl es) @ group_pairs ess)"
  using assms
proof (induction ess arbitrary: es)
  case Nil
  then show ?case by (cases es) (simp_all add: sep_and_chain [simplified])
next
  case (Cons xs ess)
  obtain e r where es: "es = e # r" using Cons.prems by (cases es) auto
  have "sep_by COr (map (\<lambda>es. sep_by CAnd (map operand_tokens es)) (es # xs # ess)) =
      sep_by CAnd (map operand_tokens es) @
        COr # sep_by COr (map (\<lambda>es. sep_by CAnd (map operand_tokens es)) (xs # ess))"
    by simp
  also have "\<dots> = chain_tokens e (map (Pair CAnd) r) @
      COr # chain_tokens (hd xs) (map (Pair CAnd) (tl xs) @ group_pairs ess)"
    using Cons.IH [of xs] Cons.prems sep_and_chain [of e r] es by simp
  finally show ?case by (simp add: es chain_tokens_append)
qed

lemma chain_operands_ends:
  "chain_operands e ps \<noteq> []" "\<not> is_logical (hd (chain_operands e ps))"
  "\<not> is_logical (last (chain_operands e ps))"
proof -
  show "chain_operands e ps \<noteq> []" "\<not> is_logical (hd (chain_operands e ps))"
    by (simp_all add: chain_operands_def)
  show "\<not> is_logical (last (chain_operands e ps))"
    by (cases ps rule: rev_cases) (auto simp: chain_operands_def)
qed

lemma chain_tokens_nonempty: "chain_tokens e ps \<noteq> []"
  by (simp add: chain_tokens_def operand_tokens_ok)

lemma collapse_conj_group:
  "cexp_wf e \<Longrightarrow> collapse_and (map operand_of (conj_group e)) =
     (if is_disj e then ParenthesisContainer (cexp_container e) else cexp_container e)"
  by (cases e) (auto simp: conj_group_def collapse_and_def operand_of_def numeral_2_eq_2 Suc_le_length_iff split: list.split)

lemma container_groups:
  assumes "cexp_wf e"
  shows "(case map (\<lambda>xs. collapse_and (map operand_of xs)) (disj_groups e) of
            [t] \<Rightarrow> Inr t | operands \<Rightarrow> Inr (OrContainer operands)) = (Inr (cexp_container e) :: ctoken result)"
proof (cases "is_disj e")
  case False
  then have "disj_groups e = [conj_group e]" by (cases e) (simp_all add: disj_groups_def)
  with False collapse_conj_group [OF assms] show ?thesis by simp
next
  case True
  then obtain es where e: "e = Disj es" by (cases e) auto
  with assms obtain a b r where es: "es = a # b # r" and wf: "\<forall>x \<in> set es. cexp_wf x"
    by (auto simp: list_all_iff numeral_2_eq_2 Suc_le_length_iff)
  then have "map (\<lambda>xs. collapse_and (map operand_of xs)) (disj_groups e) =
      map (\<lambda>e. if is_disj e then ParenthesisContainer (cexp_container e) else cexp_container e) es"
    using collapse_conj_group by (auto simp: disj_groups_def e)
  with es show ?thesis by (simp add: e)
qed

lemma parse_and_or_flat:
  assumes "cexp_wf e"
  shows "parse_and_or_operator (flat_tokens e) = Inr (cexp_container e)"
proof -
  obtain es ess where g: "disj_groups e = es # ess" and ne: "es \<noteq> []" "\<forall>xs \<in> set ess. xs \<noteq> []"
    using groups_nonempty(2) [OF assms] by (cases "disj_groups e") auto
  let ?ps = "map (Pair CAnd) (tl es) @ group_pairs ess"
  have logical: "\<forall>p \<in> set ?ps. is_logical (fst p)" using group_pairs_logical by auto
  have flat: "flat_tokens e = chain_tokens (hd es) ?ps"
    unfolding flat_tokens_groups g by (rule sep_or_chain [OF ne])
  have opnds: "operand_of (hd es) # map (\<lambda>p. operand_of (snd p)) ?ps =
      map operand_of es @ map (\<lambda>p. operand_of (snd p)) (group_pairs ess)"
    using ne(1) by (cases es) (simp_all add: comp_def)
  have split: "split_operands 0 (chain_operands (hd es) ?ps) =
      Inr (map operand_of es @ map (\<lambda>p. operand_of (snd p)) (group_pairs ess), map fst ?ps)"
    unfolding opnds [symmetric] by (rule split_operands_chain [OF logical]) simp
  have ends: "(is_logical (hd (chain_operands (hd es) ?ps)) \<or> is_logical (last (chain_operands (hd es) ?ps))) = False"
    using chain_operands_ends(2,3) by blast
  have ne_tokens: "(chain_tokens (hd es) ?ps = []) = False"
    using chain_tokens_nonempty by blast
  show ?thesis
    unfolding parse_and_or_operator_def to_operand_container_def flat operand_loop_chain [OF logical]
      bind_result.simps split ends ne_tokens if_False prod.case group_ands_groups [OF ne]
    by (rule container_groups [OF assms, unfolded g])
qed

subsection \<open>Parentheses\<close>

definition balanced :: "ctoken list \<Rightarrow> bool" where
  "balanced u \<longleftrightarrow> (\<forall>l r ts. r < l \<longrightarrow> (\<exists>n. find_close l r (u @ ts) =
     map_option (\<lambda>(sub, rest). (u @ sub, rest)) (find_close (l + n) (r + n) ts)))"

lemma balancedI:
  "(\<And>l r ts. r < l \<Longrightarrow> \<exists>n. find_close l r (u @ ts) =
     map_option (\<lambda>(sub, rest). (u @ sub, rest)) (find_close (l + n) (r + n) ts)) \<Longrightarrow> balanced u"
  by (simp add: balanced_def)

lemma balanced_Nil: "balanced []"
  by (rule balancedI, rule exI [of _ 0]) (simp add: option.map_id)

lemma balanced_token: "t \<noteq> LeftParenthesis \<Longrightarrow> t \<noteq> RightParenthesis \<Longrightarrow> balanced [t]"
  by (rule balancedI, rule exI [of _ 0]) (auto simp: Let_def)

lemma balanced_append:
  assumes "balanced u" and "balanced v"
  shows "balanced (u @ v)"
proof (rule balancedI)
  fix l r :: nat and ts
  assume "r < l"
  with assms(1) obtain n where n: "find_close l r (u @ v @ ts) =
      map_option (\<lambda>(sub, rest). (u @ sub, rest)) (find_close (l + n) (r + n) (v @ ts))"
    unfolding balanced_def by blast
  have "r + n < l + n" using \<open>r < l\<close> by simp
  with assms(2) obtain m where m: "find_close (l + n) (r + n) (v @ ts) =
      map_option (\<lambda>(sub, rest). (v @ sub, rest)) (find_close (l + n + m) (r + n + m) ts)"
    unfolding balanced_def by blast
  show "\<exists>n. find_close l r ((u @ v) @ ts) =
      map_option (\<lambda>(sub, rest). ((u @ v) @ sub, rest)) (find_close (l + n) (r + n) ts)"
    using n m by (intro exI [of _ "n + m"]) (simp add: option.map_comp comp_def case_prod_unfold add.assoc)
qed

lemma balanced_paren:
  assumes "balanced u"
  shows "balanced (paren_tokens u)"
proof (rule balancedI)
  fix l r :: nat and ts
  assume lr: "r < l"
  then have "r < l + 1" by simp
  with assms obtain n where n: "find_close (l + 1) r (u @ RightParenthesis # ts) =
      map_option (\<lambda>(sub, rest). (u @ sub, rest)) (find_close (l + 1 + n) (r + n) (RightParenthesis # ts))"
    unfolding balanced_def by blast
  show "\<exists>n. find_close l r (paren_tokens u @ ts) =
      map_option (\<lambda>(sub, rest). (paren_tokens u @ sub, rest)) (find_close (l + n) (r + n) ts)"
    using n lr
    by (intro exI [of _ "Suc n"])
       (simp add: paren_tokens_def Let_def option.map_comp comp_def case_prod_unfold)
qed

lemma balanced_sep:
  "\<forall>u \<in> set us. balanced u \<Longrightarrow> balanced [t] \<Longrightarrow> balanced (sep_by t us)"
proof (induction us)
  case (Cons u us)
  show ?case
  proof (cases "us = []")
    case False
    have "balanced (u @ [t] @ sep_by t us)" using Cons by (intro balanced_append) auto
    with False show ?thesis by (simp add: sep_by_Cons)
  qed (use Cons in simp)
qed (simp add: balanced_Nil)

lemma balanced_cexp: "balanced (cexp_tokens e)"
proof (induction e)
  case (Neg e)
  have "balanced ([CNot] @ u)" if "balanced u" for u
    using that by (intro balanced_append balanced_token) simp_all
  from this [of "cexp_tokens e"] this [of "paren_tokens (cexp_tokens e)"] Neg show ?case
    by (simp add: balanced_paren)
qed (auto simp: balanced_token intro!: balanced_sep balanced_paren)

lemma find_close_cexp:
  "find_close 1 0 (cexp_tokens e @ RightParenthesis # rest) = Some (cexp_tokens e, rest)"
proof -
  have "\<exists>n. find_close 1 0 (cexp_tokens e @ RightParenthesis # rest) =
      map_option (\<lambda>(sub, r). (cexp_tokens e @ sub, r)) (find_close (1 + n) (0 + n) (RightParenthesis # rest))"
    using balanced_cexp [of e] unfolding balanced_def by (metis zero_less_one)
  then show ?thesis by (auto simp: Let_def)
qed

definition flattens :: "ctoken list \<Rightarrow> ctoken list \<Rightarrow> bool" where
  "flattens u v \<longleftrightarrow>
     (\<forall>rest. parenthesis_loop (u @ rest) = bind_result (parenthesis_loop rest) (\<lambda>r. Inr (v @ r)))"

lemma flattens_token: "t \<noteq> LeftParenthesis \<Longrightarrow> flattens [t] [t]"
  by (simp add: flattens_def parenthesis_loop.simps)

lemma flattens_append: "flattens u v \<Longrightarrow> flattens u' v' \<Longrightarrow> flattens (u @ u') (v @ v')"
  unfolding flattens_def by (metis (no_types, lifting) append.assoc bind_result.simps sumE)

lemma flattens_paren:
  "parse_condition (cexp_tokens e) = Inr t \<Longrightarrow> flattens (paren_tokens (cexp_tokens e)) [ParenthesisContainer t]"
  by (simp add: flattens_def paren_tokens_def parenthesis_loop.simps find_close_cexp [simplified])

lemma flattens_sep:
  "us \<noteq> [] \<Longrightarrow> (\<And>u. u \<in> set us \<Longrightarrow> flattens (f u) (g u)) \<Longrightarrow> flattens [t] [t] \<Longrightarrow>
     flattens (sep_by t (map f us)) (sep_by t (map g us))"
proof (induction us)
  case (Cons u us)
  show ?case
  proof (cases "us = []")
    case False
    have "flattens (f u @ [t] @ sep_by t (map f us)) (g u @ [t] @ sep_by t (map g us))"
      using Cons False by (intro flattens_append) auto
    with False show ?thesis by (simp add: sep_by_Cons)
  qed (use Cons in simp)
qed simp

lemma sep_by_set: "set (sep_by t us) \<subseteq> insert t (\<Union> (set ` set us))"
  by (induction t us rule: sep_by.induct) auto

lemma no_right_flat: "RightParenthesis \<notin> set (flat_tokens e)"
proof -
  have op: "RightParenthesis \<notin> set (operand_tokens e)" for e
    using container_not_CNot by (cases e) (auto simp: operand_tokens_def dest: sym)
  have cj: "RightParenthesis \<notin> set (conj_tokens e)" for e
    using op sep_by_set [of CAnd] unfolding conj_group_tokens by fastforce
  show ?thesis
    using cj sep_by_set [of COr "map conj_tokens _"]
    by (cases e) (fastforce simp: flat_tokens_def)+
qed

lemma parse_of_flattens:
  assumes "flattens (cexp_tokens e) (flat_tokens e)" and "cexp_wf e"
  shows "parse_condition (cexp_tokens e) = Inr (cexp_container e)"
proof -
  have "parenthesis_loop (cexp_tokens e @ []) = Inr (flat_tokens e)"
    using assms(1) unfolding flattens_def
    by (metis (no_types) append_Nil2 bind_result.simps(2) parenthesis_loop.simps(1))
  then show ?thesis
    using no_right_flat [of e] parse_and_or_flat [OF assms(2)]
    by (simp add: parse_condition.simps)
qed

lemma flattens_cexp: "cexp_wf e \<Longrightarrow> flattens (cexp_tokens e) (flat_tokens e)"
proof (induction e)
  case (Name n)
  show ?case by (simp add: flat_tokens_def conj_tokens_def operand_tokens_def flattens_token)
next
  case (Neg e)
  have arg: "flattens (if is_name e then cexp_tokens e else paren_tokens (cexp_tokens e))
      [if is_name e then cexp_container e else ParenthesisContainer (cexp_container e)]"
  proof (cases "is_name e")
    case True
    then show ?thesis by (cases e) (auto simp: flattens_token)
  next
    case False
    then show ?thesis using Neg by (simp add: flattens_paren parse_of_flattens)
  qed
  from flattens_append [OF flattens_token [of CNot] arg]
  show ?case by (simp add: flat_tokens_def conj_tokens_def operand_tokens_def)
next
  case (Conj es)
  have "flattens (if is_name x \<or> is_neg x then cexp_tokens x else paren_tokens (cexp_tokens x)) (operand_tokens x)"
    if "x \<in> set es" for x
  proof -
    have x: "cexp_wf x" using Conj.prems that by (simp add: list_all_iff)
    note fl = Conj.IH [OF that x]
    from flattens_paren [OF parse_of_flattens [OF fl x]] fl show ?thesis
      by (cases x) (auto simp: flat_tokens_def conj_tokens_def operand_tokens_def)
  qed
  then have "flattens (cexp_tokens (Conj es)) (sep_by CAnd (map operand_tokens es))"
    unfolding cexp_tokens.simps using Conj.prems by (intro flattens_sep) (auto simp: flattens_token)
  then show ?case by (simp add: flat_tokens_def conj_tokens_def)
next
  case (Disj es)
  have "flattens (if is_disj x then paren_tokens (cexp_tokens x) else cexp_tokens x) (conj_tokens x)"
    if "x \<in> set es" for x
  proof -
    have x: "cexp_wf x" using Disj.prems that by (simp add: list_all_iff)
    note fl = Disj.IH [OF that x]
    from flattens_paren [OF parse_of_flattens [OF fl x]] fl show ?thesis
      by (cases x) (auto simp: flat_tokens_def conj_tokens_def operand_tokens_def)
  qed
  then have "flattens (cexp_tokens (Disj es)) (sep_by COr (map conj_tokens es))"
    unfolding cexp_tokens.simps using Disj.prems by (intro flattens_sep) (auto simp: flattens_token)
  then show ?case by (simp add: flat_tokens_def)
qed

lemma parse_condition_tokens:
  "cexp_wf e \<Longrightarrow> parse_condition (cexp_tokens e) = Inr (cexp_container e)"
  by (simp add: parse_of_flattens flattens_cexp)

text \<open>Whatever is accepted has as many right parentheses as left ones.\<close>

lemma find_close_split:
  "find_close l r ts = Some (sub, rest) \<Longrightarrow> r < l \<Longrightarrow>
     ts = sub @ RightParenthesis # rest \<and>
     l + count_list sub LeftParenthesis = Suc (r + count_list sub RightParenthesis)"
proof (induction ts arbitrary: l r sub)
  case (Cons t ts)
  let ?l = "if t = LeftParenthesis then l + 1 else l" and ?r = "if t = RightParenthesis then r + 1 else r"
  show ?case
  proof (cases "?l = ?r")
    case True
    with Cons.prems have "t = RightParenthesis" "l = Suc r" by (auto split: if_splits)
    with True Cons.prems show ?thesis by simp
  next
    case False
    with Cons.prems obtain s where s: "find_close ?l ?r ts = Some (s, rest)" "sub = t # s"
      by (auto simp: Let_def)
    moreover have "?r < ?l" using False Cons.prems(2) by (auto split: if_splits)
    ultimately show ?thesis using Cons.IH [OF s(1)] by (auto split: if_splits)
  qed
qed simp

lemma parenthesis_loop_counts:
  "parenthesis_loop ts = Inr r \<Longrightarrow>
     count_list ts LeftParenthesis + count_list r RightParenthesis = count_list ts RightParenthesis"
proof (induction ts arbitrary: r rule: length_induct)
  case (1 ts)
  show ?case
  proof (cases ts)
    case Nil
    with 1(2) show ?thesis by (simp add: parenthesis_loop.simps)
  next
    case (Cons t us)
    show ?thesis
    proof (cases "t = LeftParenthesis")
      case False
      with 1 Cons show ?thesis
        by (auto simp: parenthesis_loop.simps bind_result_Inr_iff)
    next
      case True
      with 1(2) Cons obtain sub rest p r' where fc: "find_close 1 0 us = Some (sub, rest)"
        and r: "parenthesis_loop rest = Inr r'" "r = ParenthesisContainer p # r'"
        by (auto simp: parenthesis_loop.simps bind_result_Inr_iff split: option.splits)
      from find_close_split [OF fc] have us: "us = sub @ RightParenthesis # rest"
        "count_list sub LeftParenthesis = count_list sub RightParenthesis" by simp_all
      moreover have "length rest < length ts" using us Cons by simp
      ultimately show ?thesis using 1(1) r Cons True by fastforce
    qed
  qed
qed

lemma parse_condition_balanced:
  "parse_condition ts = Inr t \<Longrightarrow> count_list ts LeftParenthesis = count_list ts RightParenthesis"
  using parenthesis_loop_counts [of ts]
  by (auto simp: parse_condition.simps bind_result_Inr_iff count_list_0_iff split: if_splits)

subsection \<open>The meaning of the nodes\<close>

lemma into_node_select:
  assumes "\<forall>n \<in> set (cexp_names e). \<exists>node. map_of names n = Some node \<and> node_select E c rec node = Some (s n)"
  shows "\<exists>node. into_selection_node names (cexp_container e) = Inr node \<and>
           node_select E c rec node = Some (cexp_eval s e)"
  using assms
proof (induction e)
  case (Name n)
  then show ?case by auto
next
  case (Neg e)
  then show ?case by auto
next
  case (Conj es)
  let ?P = "\<lambda>x node. into_selection_node names (operand_of x) = Inr node \<and>
      node_select E c rec node = Some (cexp_eval s x)"
  have "\<forall>x \<in> set es. \<exists>node. ?P x node"
    using Conj by (auto simp: operand_of_def)
  then obtain f where f: "\<And>x. x \<in> set es \<Longrightarrow> ?P x (f x)" by metis
  have "map_result (into_selection_node names) (map operand_of es) = Inr (map f es)"
    using f by (induction es) auto
  moreover have "all_opt (node_select E c rec) (map f es) = Some (list_all (cexp_eval s) es)"
    using f by (induction es) (auto split: bool.split)
  ultimately show ?case by (simp add: operand_of_def [abs_def])
next
  case (Disj es)
  let ?g = "\<lambda>x. if is_disj x then ParenthesisContainer (cexp_container x) else cexp_container x"
  let ?P = "\<lambda>x node. into_selection_node names (?g x) = Inr node \<and>
      node_select E c rec node = Some (cexp_eval s x)"
  have "\<forall>x \<in> set es. \<exists>node. ?P x node"
    using Disj by auto
  then obtain f where f: "\<And>x. x \<in> set es \<Longrightarrow> ?P x (f x)" by metis
  have "map_result (into_selection_node names) (map ?g es) = Inr (map f es)"
    using f by (induction es) auto
  moreover have "any_opt (node_select E c rec) (map f es) = Some (list_ex (cexp_eval s) es)"
    using f by (induction es) (auto split: bool.split)
  ultimately show ?case by simp
qed

end
