(* ===== verification/Condition_Compile.thy ===== *)
theory Condition_Compile
  imports Condition_Grammar
begin

section \<open>From the text of a condition to its nodes\<close>

text \<open>
  Conditions as rule authors write them, and the properties of the whole compiler: the node
  it builds selects an event exactly when the expression is true of the selections' results.
\<close>

subsection \<open>Writing and lexing\<close>

fun token_text :: "ctoken \<Rightarrow> string" where
  "token_text LeftParenthesis = ''(''"
| "token_text RightParenthesis = '')''"
| "token_text CNot = ''not''"
| "token_text CAnd = ''and''"
| "token_text COr = ''or''"
| "token_text (SelectionReference n) = n"
| "token_text _ = []"

text \<open>One space between tokens, none inside the parentheses.\<close>

fun cond_text :: "ctoken list \<Rightarrow> string" where
  "cond_text [] = []"
| "cond_text [t] = token_text t"
| "cond_text (t # u # ts) =
     token_text t @ (if t = LeftParenthesis \<or> u = RightParenthesis then [] else '' '') @ cond_text (u # ts)"

definition word_plus_char :: "char \<Rightarrow> bool" where
  "word_plus_char c \<longleftrightarrow> ascii_word_char c \<or> c = CHR ''+''"

definition cond_name :: "string \<Rightarrow> bool" where
  "cond_name n \<longleftrightarrow> n \<noteq> [] \<and> list_all word_plus_char n \<and> n \<notin> {''not'', ''and'', ''or''}"

fun token_ok :: "ctoken \<Rightarrow> bool" where
  "token_ok LeftParenthesis = True"
| "token_ok RightParenthesis = True"
| "token_ok CNot = True"
| "token_ok CAnd = True"
| "token_ok COr = True"
| "token_ok (SelectionReference n) = cond_name n"
| "token_ok _ = False"

definition is_paren :: "ctoken \<Rightarrow> bool" where
  "is_paren t \<longleftrightarrow> t = LeftParenthesis \<or> t = RightParenthesis"

lemma plus_byte: "byte (CHR ''+'') = 43"
  by (simp add: byte_def)

lemma word_plus_ascii [tok_simps]: "byte c < 128 \<Longrightarrow> is_word_plus E [c] = word_plus_char c"
  by (auto simp: is_word_plus_def word_plus_char_def is_word_ascii)

lemma word_plus_byte: "word_plus_char c \<Longrightarrow> byte c < 128"
  by (auto simp: word_plus_char_def ascii_word_char_byte plus_byte)

lemma not_word_plus [tok_simps]:
  "\<not> word_plus_char (CHR '' '')" "\<not> word_plus_char (CHR ''('')" "\<not> word_plus_char (CHR '')'')"
  "\<not> word_plus_char (CHR ''|'')" "\<not> word_plus_char (CHR 0x0A)" "\<not> word_plus_char (CHR ''*'')"
  by (simp_all add: word_plus_char_def ascii_word_char_def byte_def)

lemma not_word_plus_groups [tok_simps]:
  "\<not> is_word_plus E '' ''" "\<not> is_word_plus E ''(''" "\<not> is_word_plus E '')''"
  by (simp_all add: word_plus_ascii not_word_plus literal_bytes)

lemma keyword_chars: "list_all word_plus_char ''not''" "list_all word_plus_char ''and''" "list_all word_plus_char ''or''"
  by (simp_all add: word_plus_char_def ascii_word_char_def byte_def)

lemma token_text_word:
  "token_ok t \<Longrightarrow> \<not> is_paren t \<Longrightarrow> token_text t \<noteq> [] \<and> list_all word_plus_char (token_text t)"
  using keyword_chars by (cases t) (auto simp: is_paren_def cond_name_def)

lemma token_text_back: "token_ok t \<Longrightarrow> to_condition_token (token_text t) = t"
proof (cases t)
  case (SelectionReference n)
  assume "token_ok t"
  with SelectionReference have n: "cond_name n" by simp
  then have "n \<noteq> ''(''" "n \<noteq> '')''" "n \<noteq> '' ''"
    by (auto simp: cond_name_def not_word_plus)
  with n SelectionReference show ?thesis by (simp add: to_condition_token_def cond_name_def)
qed (simp_all add: to_condition_token_def)

definition word_plus_end :: "env \<Rightarrow> string list \<Rightarrow> bool" where
  "word_plus_end E r \<longleftrightarrow> (case r of [] \<Rightarrow> True | g # _ \<Rightarrow> \<not> is_word_plus E g)"

lemma take_drop_words:
  assumes "list_all word_plus_char w" and "word_plus_end E r"
  shows "takeWhile (is_word_plus E) (groups w @ r) = groups w"
    and "dropWhile (is_word_plus E) (groups w @ r) = r"
  using assms
  by (induction w) (auto simp: groups_simps word_plus_ascii word_plus_byte word_plus_end_def split: list.splits)

lemma cond_step:
  assumes "first_match (condition_regexmap E) (pre @ r) = Some r" and "pre \<noteq> []"
  shows "cond_tokenize_chars E (pre @ r) =
     (if to_condition_token (concat pre) = CSpace then cond_tokenize_chars E r
      else bind_result (cond_tokenize_chars E r) (\<lambda>ts. Inr (to_condition_token (concat pre) # ts)))"
  using assms by (subst cond_tokenize_chars.simps) (simp add: Let_def)

lemma cond_tokenize_space: "cond_tokenize_chars E ('' '' # r) = cond_tokenize_chars E r"
proof -
  have "first_match (condition_regexmap E) ([[CHR '' '']] @ r) = Some r"
    by (simp add: condition_regexmap_def re_lit_def groups_def)
  from cond_step [OF this] show ?thesis by (simp add: to_condition_token_def)
qed

lemma cond_tokenize_token:
  assumes ok: "token_ok t" and r: "is_paren t \<or> word_plus_end E r"
  shows "cond_tokenize_chars E (groups (token_text t) @ r) =
     bind_result (cond_tokenize_chars E r) (\<lambda>ts. Inr (t # ts))"
proof -
  have first: "first_match (condition_regexmap E) (groups (token_text t) @ r) = Some r"
  proof (cases "is_paren t")
    case True
    then show ?thesis
      by (auto simp: is_paren_def condition_regexmap_def re_lit_def groups_def)
  next
    case False
    obtain c w where w: "token_text t = c # w" and c: "word_plus_char c"
      using token_text_word [OF ok False] by (cases "token_text t") auto
    have words: "re_words E (groups (token_text t) @ r) = Some r"
      using take_drop_words [of "token_text t" E r] token_text_word [OF ok False] r False
      by (simp add: re_words_def)
    have lit: "re_lit [d] (groups (token_text t) @ r) = None" if "\<not> word_plus_char d" for d
      using that c by (auto simp: re_lit_def w groups_simps)
    show ?thesis
      by (simp add: condition_regexmap_def words lit not_word_plus)
  qed
  have "token_text t \<noteq> []" "t \<noteq> CSpace"
    using ok by (cases t; auto simp: cond_name_def)+
  with cond_step [OF first] show ?thesis
    by (simp add: groups_simps token_text_back [OF ok])
qed

lemma cond_tokenize_spaces: "cond_tokenize_chars E (groups (replicate k (CHR '' ''))) = Inr []"
  by (induction k) (simp_all add: groups_simps cond_tokenize_space, simp add: cond_tokenize_chars.simps)

lemma word_end_spaces: "word_plus_end E (groups (replicate k (CHR '' '')))"
  by (cases k) (simp_all add: word_plus_end_def groups_simps not_word_plus_groups)

lemma cond_text_lex:
  "list_all token_ok ts \<Longrightarrow>
     cond_tokenize_chars E (groups (cond_text ts @ replicate k (CHR '' ''))) = Inr ts"
proof (induction ts rule: cond_text.induct)
  case 1
  then show ?case by (simp add: cond_tokenize_spaces)
next
  case (2 t)
  then show ?case
    by (simp add: groups_simps cond_tokenize_token word_end_spaces cond_tokenize_spaces)
next
  case (3 t u ts)
  let ?gap = "if t = LeftParenthesis \<or> u = RightParenthesis then [] else '' ''"
  let ?r = "groups (cond_text (u # ts) @ replicate k (CHR '' ''))"
  have IH: "cond_tokenize_chars E ?r = Inr (u # ts)" using 3 by simp
  have gap: "cond_tokenize_chars E (groups ?gap @ ?r) = Inr (u # ts)"
    using IH by (simp add: groups_simps cond_tokenize_space)
  have "is_paren t \<or> word_plus_end E (groups ?gap @ ?r)"
    by (cases ts) (auto simp: is_paren_def word_plus_end_def groups_simps not_word_plus_groups)
  from cond_tokenize_token [OF _ this] 3(2) gap show ?case by (simp add: groups_simps)
qed

lemma ascii_cond_text: "list_all token_ok ts \<Longrightarrow> is_ascii (cond_text ts @ replicate k (CHR '' ''))"
proof -
  have tt: "token_ok t \<Longrightarrow> is_ascii (token_text t)" for t
    using token_text_word [of t] word_plus_byte
    by (cases "is_paren t") (auto simp: is_paren_def literal_bytes is_ascii_def list_all_iff)
  have "list_all token_ok ts \<Longrightarrow> is_ascii (cond_text ts)"
    using tt by (induction ts rule: cond_text.induct) (auto simp: literal_bytes)
  moreover have "is_ascii (replicate k (CHR '' ''))"
    by (induction k) (simp_all add: literal_bytes)
  ultimately show "list_all token_ok ts \<Longrightarrow> ?thesis" by simp
qed

lemma cond_tokenize_text:
  "list_all token_ok ts \<Longrightarrow> cond_tokenize E (cond_text ts @ replicate k (CHR '' '')) = Inr ts"
  using utf8_chars_ascii [OF ascii_cond_text] cond_text_lex
  by (simp only: cond_tokenize_def groups_def)

lemma sep_by_all: "P t \<Longrightarrow> (\<And>u. u \<in> set us \<Longrightarrow> list_all P u) \<Longrightarrow> list_all P (sep_by t us)"
  by (induction t us rule: sep_by.induct) auto

lemma cexp_tokens_ok: "list_all cond_name (cexp_names e) \<Longrightarrow> list_all token_ok (cexp_tokens e)"
proof (induction e)
  case (Conj es)
  then have "list_all token_ok (cexp_tokens x)" if "x \<in> set es" for x using that by (auto simp: list_all_iff)
  then show ?case by (auto simp: paren_tokens_def intro!: sep_by_all)
next
  case (Disj es)
  then have "list_all token_ok (cexp_tokens x)" if "x \<in> set es" for x using that by (auto simp: list_all_iff)
  then show ?case by (auto simp: paren_tokens_def intro!: sep_by_all)
qed (auto simp: paren_tokens_def)

subsection \<open>The compiler\<close>

lemma cond_text_chars:
  "list_all token_ok ts \<Longrightarrow> c \<in> set (cond_text ts) \<Longrightarrow> word_plus_char c \<or> c \<in> {CHR '' '', CHR ''('', CHR '')''}"
proof (induction ts rule: cond_text.induct)
  case (2 t)
  then show ?case
    using token_text_word [of t] by (cases "is_paren t") (auto simp: is_paren_def list_all_iff)
next
  case (3 t u ts)
  have "c \<in> set (token_text t) \<Longrightarrow> ?thesis"
    using 3(2) token_text_word [of t] by (cases "is_paren t") (auto simp: is_paren_def list_all_iff)
  with 3 show ?case by (auto split: if_splits)
qed simp

lemma cond_text_no:
  assumes "list_all token_ok ts" and "\<not> word_plus_char c" and "c \<notin> {CHR '' '', CHR ''('', CHR '')''}"
  shows "c \<notin> set (cond_text ts)"
  using cond_text_chars [OF assms(1)] assms(2,3) by blast

lemma no_of_selection: "CHR ''*'' \<notin> set s \<Longrightarrow> of_selection_matches s = []"
proof (induction s)
  case (Cons c s)
  have all: "takeWhile (\<lambda>c. c \<noteq> CHR ''*'') (drop n (c # s)) = drop n (c # s)" for n
    using Cons.prems by (auto simp: takeWhile_eq_all_conv dest: in_set_dropD)
  have "of_selection_at (c # s) = None"
    by (auto simp: of_selection_at_def Let_def all)
  with Cons show ?case by (subst of_selection_matches.simps) simp
qed (simp add: of_selection_matches.simps)

lemma replace_cut: "c \<notin> set u \<Longrightarrow> replace_all (c # x) [] (u @ c # x) = u"
  by (induction u) (auto simp: starts_with_def)

lemma re_pipe_none: "CHR ''|'' \<notin> set s \<Longrightarrow> re_pipe s = None"
proof -
  assume "CHR ''|'' \<notin> set s"
  then have "dropWhile (\<lambda>c. c \<noteq> CHR ''|'') s = []" by (induction s) auto
  then show ?thesis by (simp only: re_pipe_def list.case)
qed

text \<open>The part of a condition the aggregation parser reads: nothing, or a pipe to the line end.\<close>

definition pipe_part :: "string \<Rightarrow> bool" where
  "pipe_part p \<longleftrightarrow> p = [] \<or> (hd p = CHR ''|'' \<and> CHR 0x0A \<notin> set p \<and> CHR ''*'' \<notin> set p)"

lemma compile_condition_text:
  assumes ts: "list_all token_ok ts" and p: "pipe_part p"
  shows "compile_condition E (cond_text ts @ replicate k (CHR '' '') @ p) names =
     (case bind_result (parse_condition ts) (into_selection_node names) of
        Inl msg \<Rightarrow> Inl (''A condition parse error has occurred. '' @ msg) | Inr n \<Rightarrow> Inr n)"
proof -
  let ?u = "cond_text ts @ replicate k (CHR '' '')"
  have no: "c \<notin> set ?u" if "c \<in> {CHR ''|'', CHR ''*''}" for c
    using that cond_text_no [OF ts, of c] not_word_plus by auto
  have conv: "convert_condition (?u @ p) (map fst names) = ?u @ p"
  proof -
    have "CHR ''*'' \<notin> set (?u @ p)"
      using no [of "CHR ''*''"] p by (cases p) (simp_all add: pipe_part_def)
    from no_of_selection [OF this] show ?thesis unfolding convert_condition_def by simp
  qed
  have cut: "(case re_pipe (?u @ p) of Some captured \<Rightarrow> replace_all captured [] (?u @ p) | None \<Rightarrow> ?u @ p) = ?u"
  proof (cases p)
    case Nil
    have "CHR ''|'' \<notin> set ?u" using no by blast
    with Nil re_pipe_none show ?thesis by simp
  next
    case (Cons c x)
    with p have c: "c = CHR ''|''" and x: "CHR 0x0A \<notin> set x" by (auto simp: pipe_part_def)
    have u: "CHR ''|'' \<notin> set ?u" using no by blast
    show ?thesis
      unfolding Cons c re_pipe_print [OF u x] option.case replace_cut [OF u] ..
  qed
  have "compile_condition E (?u @ p) names =
      (case compile_condition_body E ?u names of
         Inl msg \<Rightarrow> Inl (''A condition parse error has occurred. '' @ msg) | Inr n \<Rightarrow> Inr n)"
    unfolding compile_condition_def Let_def conv cut ..
  then show ?thesis
    by (simp only: compile_condition_body_def cond_tokenize_text [OF ts] bind_result.simps append_assoc)
qed

lemma compile_condition_select:
  assumes wf: "cexp_wf e" and names: "list_all cond_name (cexp_names e)" and p: "pipe_part p"
    and sel: "\<forall>n \<in> set (cexp_names e). \<exists>node. map_of names n = Some node \<and> node_select E c rec node = Some (s n)"
  shows "\<exists>node. compile_condition E (cond_text (cexp_tokens e) @ replicate k (CHR '' '') @ p) names = Inr node \<and>
     node_select E c rec node = Some (cexp_eval s e)"
  using into_node_select [OF sel]
  by (auto simp: compile_condition_text [OF cexp_tokens_ok [OF names] p] parse_condition_tokens [OF wf])

subsection \<open>Quantified selections\<close>

definition quantified :: "bool \<Rightarrow> string \<Rightarrow> string" where
  "quantified every pre = (if every then ''all of '' else ''1 of '') @ pre @ ''*''"

definition quantified_exp :: "bool \<Rightarrow> string list \<Rightarrow> cexp" where
  "quantified_exp every ks =
     (case ks of [k] \<Rightarrow> Name k | _ \<Rightarrow> if every then Conj (map Name ks) else Disj (map Name ks))"

lemma quantified_match:
  assumes "list_all word_plus_char pre" and "pre \<noteq> []"
  shows "of_selection_matches (quantified every pre) = [quantified every pre]"
proof -
  have stars: "takeWhile (\<lambda>c. c \<noteq> CHR ''*'') (pre @ ''*'') = pre"
    using assms(1) not_word_plus(6) by (induction pre) auto
  have "of_selection_at (quantified every pre) = Some (quantified every pre, [])"
    using assms(2) stars by (simp add: of_selection_at_def quantified_def Let_def)
  then show ?thesis
    by (subst of_selection_matches.simps) (auto simp: quantified_def of_selection_matches.simps split: list.split)
qed

lemma replace_all_absent_char:
  assumes "c \<in> set p" and "c \<notin> set s"
  shows "replace_all p r s = s"
proof (rule replace_all_id)
  show "p \<noteq> []" using assms(1) by auto
  show "\<not> contains_str s p" using assms by (auto simp: contains_str_iff)
qed

lemma quantified_prefix:
  assumes "list_all word_plus_char pre"
  shows "replace_all ''1 of '' [] (replace_all ''all of '' [] (replace_all ''*'' [] (quantified every pre))) = pre"
proof -
  have ch: "CHR '' '' \<notin> set pre" "CHR ''*'' \<notin> set pre"
    using assms not_word_plus by (auto simp: list_all_iff)
  have star: "replace_all ''*'' [] (quantified every pre) = (if every then ''all of '' else ''1 of '') @ pre"
    using ch(2) by (simp add: replace_all_filter quantified_def filter_neq_id)
  have sp: "replace_all ''all of '' [] pre = pre" "replace_all ''1 of '' [] pre = pre"
    using ch(1) by (simp_all add: replace_all_absent_char [of "CHR '' ''"])
  have one: "replace_all ''all of '' [] (''1 of '' @ pre) = ''1 of '' @ pre"
  proof -
    have "replace_all ''all of '' [] (CHR '' '' # pre) = CHR '' '' # pre" using sp(1) by simp
    then show ?thesis by simp
  qed
  show ?thesis
    using star sp one by (cases every) simp_all
qed

lemma join_cond_text:
  "op = CAnd \<or> op = COr \<Longrightarrow>
   join ('' '' @ token_text op @ '' '') ks = cond_text (sep_by op (map (\<lambda>k. [SelectionReference k]) ks))"
proof (induction ks)
  case (Cons k ks)
  show ?case
  proof (cases ks)
    case (Cons l ls)
    with Cons.IH Cons.prems show ?thesis by (cases ls) auto
  qed simp
qed simp

lemma quantified_tokens:
  "ks \<noteq> [] \<Longrightarrow> cexp_tokens (quantified_exp every ks) =
     sep_by (if every then CAnd else COr) (map (\<lambda>k. [SelectionReference k]) ks)"
  by (cases ks rule: remdups_adj.cases) (auto simp: quantified_exp_def comp_def)

lemma cond_text_paren:
  "ts \<noteq> [] \<Longrightarrow> cond_text (paren_tokens ts) = ''('' @ cond_text ts @ '')''"
proof -
  have "ts \<noteq> [] \<Longrightarrow> cond_text (ts @ [RightParenthesis]) = cond_text ts @ '')''"
    by (induction ts rule: cond_text.induct) auto
  then show "ts \<noteq> [] \<Longrightarrow> ?thesis" by (cases ts) (simp_all add: paren_tokens_def)
qed

lemma quantified_text:
  assumes "list_all word_plus_char pre" and "filter (\<lambda>k. starts_with k pre) keys = ks" and "ks \<noteq> []"
  shows "of_selection_text keys (quantified every pre) =
     cond_text (paren_tokens (cexp_tokens (quantified_exp every ks)))"
proof -
  have sep: "(if starts_with (quantified every pre) ''all'' then '' and '' else '' or '') =
      '' '' @ token_text (if every then CAnd else COr) @ '' ''"
    by (simp add: quantified_def)
  have ne: "cexp_tokens (quantified_exp every ks) \<noteq> []"
    using assms(3) unfolding quantified_tokens [OF assms(3)] by (cases ks rule: remdups_adj.cases) auto
  show ?thesis
    unfolding of_selection_text_def Let_def quantified_prefix [OF assms(1)] sep assms(2)
      cond_text_paren [OF ne]
    unfolding quantified_tokens [OF assms(3)]
    by (subst join_cond_text) auto
qed

lemma replace_all_self: "p \<noteq> [] \<Longrightarrow> replace_all p r p = r"
  by (cases p) (simp_all add: starts_with_def)

lemma parse_condition_paren:
  assumes "cexp_wf e"
  shows "parse_condition (paren_tokens (cexp_tokens e)) = Inr (ParenthesisContainer (cexp_container e))"
proof -
  have "flattens (paren_tokens (cexp_tokens e)) [ParenthesisContainer (cexp_container e)]"
    by (rule flattens_paren [OF parse_condition_tokens [OF assms]])
  then have "parenthesis_loop (paren_tokens (cexp_tokens e)) = Inr [ParenthesisContainer (cexp_container e)]"
    unfolding flattens_def by (metis append_Nil2 bind_result.simps(2) parenthesis_loop.simps(1))
  moreover have "parse_and_or_operator [ParenthesisContainer t] = Inr (ParenthesisContainer t)" for t
    by (simp add: parse_and_or_operator_def to_operand_container_def parse_operand_container_def)
  ultimately show ?thesis by (simp add: parse_condition.simps)
qed

lemma quantified_exp_ok:
  assumes "ks \<noteq> []"
  shows "cexp_wf (quantified_exp every ks)" and "cexp_names (quantified_exp every ks) = ks"
    and "cexp_eval s (quantified_exp every ks) = (if every then list_all s ks else list_ex s ks)"
  using assms by (cases ks rule: remdups_adj.cases; auto simp: quantified_exp_def list_all_iff list_ex_iff comp_def)+

lemma compile_quantified_select:
  assumes pre: "list_all word_plus_char pre" "pre \<noteq> []"
    and ks: "filter (\<lambda>k. starts_with k pre) (map fst names) = ks" "ks \<noteq> []" "list_all cond_name ks"
    and sel: "\<forall>n \<in> set ks. \<exists>node. map_of names n = Some node \<and> node_select E c rec node = Some (s n)"
  shows "\<exists>node. compile_condition E (quantified every pre) names = Inr node \<and>
     node_select E c rec node = Some (if every then list_all s ks else list_ex s ks)"
proof -
  let ?e = "quantified_exp every ks"
  let ?ts = "paren_tokens (cexp_tokens ?e)"
  note ok = quantified_exp_ok [OF ks(2), where every = every]
  have ts: "list_all token_ok ?ts"
    using cexp_tokens_ok [of ?e] ok ks(3) by (simp add: paren_tokens_def)
  have conv: "convert_condition (quantified every pre) (map fst names) = cond_text ?ts"
  proof -
    have "quantified every pre \<noteq> []" by (simp add: quantified_def)
    then show ?thesis
      using quantified_text [OF pre(1) ks(1,2)]
      by (simp add: convert_condition_def quantified_match [OF pre] replace_all_self)
  qed
  have same: "convert_condition (cond_text ?ts) (map fst names) = cond_text ?ts"
    using cond_text_no [OF ts, of "CHR ''*''"] not_word_plus
    by (simp add: convert_condition_def no_of_selection)
  have "compile_condition E (quantified every pre) names = compile_condition E (cond_text ?ts) names"
    by (simp only: compile_condition_def conv same)
  also have "\<dots> = (case bind_result (parse_condition ?ts) (into_selection_node names) of
      Inl msg \<Rightarrow> Inl (''A condition parse error has occurred. '' @ msg) | Inr n \<Rightarrow> Inr n)"
    using compile_condition_text [OF ts, of "[]" E 0 names] by (simp add: pipe_part_def)
  finally show ?thesis
    using into_node_select [of ?e names E c rec s] sel ok
    by (auto simp: parse_condition_paren)
qed

subsection \<open>The properties of the component\<close>

text \<open>
  C2: The condition compiler implements the expression language. For any well-formed Boolean
  expression over selection names, written with parentheses where precedence needs them, and
  whatever aggregation part follows the pipe, compiling the text succeeds, and the node it
  yields selects an event exactly when the expression is true of the selections' results:
  \<open>not\<close> binds tighter than \<open>and\<close>, \<open>and\<close> tighter than \<open>or\<close>.
\<close>

theorem compile_condition_correct:
  assumes "cexp_wf e" and "list_all cond_name (cexp_names e)" and "pipe_part p"
    and "\<forall>n \<in> set (cexp_names e). \<exists>node. map_of names n = Some node \<and> node_select E c rec node = Some (s n)"
  shows "\<exists>node. compile_condition E (cond_text (cexp_tokens e) @ replicate k (CHR '' '') @ p) names = Inr node \<and>
     node_select E c rec node = Some (cexp_eval s e)"
  by (rule compile_condition_select [OF assms])

text \<open>A table of three selections, one that every event satisfies and two that none does.\<close>

definition sample_names :: "(string \<times> snode) list" where
  "sample_names = [(''sel1'', AndNode []), (''sel2'', OrNode []), (''other'', OrNode [])]"

definition sample_rec :: recinfo where
  "sample_rec = \<lparr>evtx_filepath = ''a.evtx'', rec_data = JNull, data_string = [],
     key_2_value = Map.empty, recovered_record = False\<rparr>"

lemma sample_names_ok: "list_all cond_name [''sel1'', ''sel2'', ''other'']"
  by code_simp

theorem compile_condition_correct_witness:
  "cond_text (cexp_tokens (Conj [Name ''sel1'', Neg (Disj [Name ''sel2'', Name ''other''])])) =
     ''sel1 and not (sel2 or other)'' \<and>
   (\<exists>node. compile_condition env0 (cond_text (cexp_tokens (Conj [Name ''sel1'', Neg (Disj [Name ''sel2'', Name ''other''])])) @
       replicate 1 (CHR '' '') @ ''| count() > 3'') sample_names = Inr node \<and>
     node_select env0 new_alias_config sample_rec node =
       Some (cexp_eval (\<lambda>n. n = ''sel1'') (Conj [Name ''sel1'', Neg (Disj [Name ''sel2'', Name ''other''])])))"
proof
  show "cond_text (cexp_tokens (Conj [Name ''sel1'', Neg (Disj [Name ''sel2'', Name ''other''])])) =
     ''sel1 and not (sel2 or other)''"
    by (simp add: paren_tokens_def)
  show "\<exists>node. compile_condition env0 (cond_text (cexp_tokens (Conj [Name ''sel1'', Neg (Disj [Name ''sel2'', Name ''other''])])) @
       replicate 1 (CHR '' '') @ ''| count() > 3'') sample_names = Inr node \<and>
     node_select env0 new_alias_config sample_rec node =
       Some (cexp_eval (\<lambda>n. n = ''sel1'') (Conj [Name ''sel1'', Neg (Disj [Name ''sel2'', Name ''other''])]))"
    by (rule compile_condition_correct)
       (use sample_names_ok in \<open>simp_all add: pipe_part_def sample_names_def\<close>)
qed

text \<open>
  \<open>all of prefix*\<close> and \<open>1 of prefix*\<close> quantify over the selections whose name starts with
  the prefix. When at least one does, the condition compiles, and its node selects an event
  exactly when all of these selections, or at least one of them, select it.
\<close>

theorem compile_quantified_correct:
  assumes "list_all word_plus_char pre" and "pre \<noteq> []"
    and "filter (\<lambda>k. starts_with k pre) (map fst names) = ks" and "ks \<noteq> []" and "list_all cond_name ks"
    and "\<forall>n \<in> set ks. \<exists>node. map_of names n = Some node \<and> node_select E c rec node = Some (s n)"
  shows "\<exists>node. compile_condition E (quantified every pre) names = Inr node \<and>
     node_select E c rec node = Some (if every then list_all s ks else list_ex s ks)"
  by (rule compile_quantified_select [OF assms])

theorem compile_quantified_correct_witness:
  "quantified False ''sel'' = ''1 of sel*'' \<and>
   (\<exists>node. compile_condition env0 (quantified False ''sel'') sample_names = Inr node \<and>
     node_select env0 new_alias_config sample_rec node =
       Some (if False then list_all (\<lambda>n. n = ''sel1'') [''sel1'', ''sel2''] else list_ex (\<lambda>n. n = ''sel1'') [''sel1'', ''sel2'']))"
proof
  show "quantified False ''sel'' = ''1 of sel*''" by (simp add: quantified_def)
  have "list_all word_plus_char ''sel''" by code_simp
  then show "\<exists>node. compile_condition env0 (quantified False ''sel'') sample_names = Inr node \<and>
     node_select env0 new_alias_config sample_rec node =
       Some (if False then list_all (\<lambda>n. n = ''sel1'') [''sel1'', ''sel2''] else list_ex (\<lambda>n. n = ''sel1'') [''sel1'', ''sel2''])"
    by (rule compile_quantified_correct)
       (use sample_names_ok in \<open>simp_all add: sample_names_def\<close>)
qed

text \<open>
  The parser accepts no token sequence whose parentheses do not match in number; the two
  error messages for a missing left or right parenthesis, or another error, cover the rest.
\<close>

theorem parse_condition_parentheses:
  assumes "parse_condition ts = Inr t"
  shows "count_list ts LeftParenthesis = count_list ts RightParenthesis"
  by (rule parse_condition_balanced [OF assms])

theorem parse_condition_parentheses_witness:
  "count_list (cexp_tokens (Conj [Name ''a'', Neg (Disj [Name ''b'', Name ''c''])])) LeftParenthesis =
   count_list (cexp_tokens (Conj [Name ''a'', Neg (Disj [Name ''b'', Name ''c''])])) RightParenthesis"
proof -
  have "parse_condition (cexp_tokens (Conj [Name ''a'', Neg (Disj [Name ''b'', Name ''c''])])) =
      Inr (cexp_container (Conj [Name ''a'', Neg (Disj [Name ''b'', Name ''c''])]))"
    by (rule parse_condition_tokens) simp
  then show ?thesis by (rule parse_condition_parentheses)
qed

end
