(* ===== verification/Rule_Types.thy ===== *)
theory Rule_Types
  imports Condition_Parser
begin

section \<open>The state of a rule (rule/mod.rs, count.rs)\<close>

text \<open>
  The data of a loaded rule: its selections and conditions, the records collected for an
  aggregation, and the results of evaluating it. Hash maps are association lists. A point in
  time is its nanoseconds since the epoch, as \<open>chrono\<close> counts them.
\<close>

record agg_record =
  field_value :: string
  rec_time :: int
  rec_event_id :: string
  rec_computer :: string
  rec_channel :: string
  rec_file :: string

record time_frame_info =
  timetype :: string
  timenum :: "int option"

record agg_result =
  agg_data :: int
  agg_key :: string
  field_values :: "string list"
  start_timedate :: int
  agg_record_time_info :: "agg_record list"

datatype correlation_type =
    NoCorrelation
  | EventCount
  | ValueCount
  | Temporal "string list"
  | TemporalOrdered "string list"
  | TemporalRef bool string

record detection_node =
  name_to_selection :: "(string \<times> snode) list"
  cond_node :: "snode option"
  aggregation_condition :: "agg_info option"
  timeframe :: "time_frame_info option"

record rule_node =
  rulepath :: string
  rule_yaml :: yaml
  detection :: detection_node
  countdata :: "(string \<times> agg_record list) list"
  correlation :: correlation_type

definition detection_new :: detection_node where
  "detection_new =
     \<lparr>name_to_selection = [], cond_node = None, aggregation_condition = None, timeframe = None\<rparr>"

definition detection_new_with_data ::
  "(string \<times> snode) list \<Rightarrow> snode option \<Rightarrow> agg_info option \<Rightarrow> time_frame_info option \<Rightarrow> detection_node" where
  "detection_new_with_data n c a t =
     \<lparr>name_to_selection = n, cond_node = c, aggregation_condition = a, timeframe = t\<rparr>"

text \<open>\<open>CorrelationType::new\<close>; \<open>None\<close> is the panic on a rule list that is no list of strings.\<close>

fun strings_of :: "yaml list \<Rightarrow> string list option" where
  "strings_of [] = Some []"
| "strings_of (y # ys) =
     (case (as_str y, strings_of ys) of (Some s, Some ss) \<Rightarrow> Some (s # ss) | _ \<Rightarrow> None)"

definition correlation_type_new :: "yaml \<Rightarrow> correlation_type option" where
  "correlation_type_new y =
     (case as_str (yindex (yindex y ''correlation'') ''type'') of
        None \<Rightarrow> Some NoCorrelation
      | Some t \<Rightarrow>
          (if t = ''event_count'' then Some EventCount
           else if t = ''value_count'' then Some ValueCount
           else if t = ''temporal'' \<or> t = ''temporal_ordered'' then
             (case as_vec (yindex (yindex y ''correlation'') ''rules'') of
                None \<Rightarrow> None
              | Some ys \<Rightarrow>
                  map_option (\<lambda>rules. if t = ''temporal'' then Temporal rules else TemporalOrdered rules)
                    (strings_of ys))
           else Some NoCorrelation))"

definition rule_new_with_detection :: "string \<Rightarrow> yaml \<Rightarrow> detection_node \<Rightarrow> rule_node option" where
  "rule_new_with_detection path y d =
     map_option (\<lambda>c. \<lparr>rulepath = path, rule_yaml = y, detection = d, countdata = [], correlation = c\<rparr>)
       (correlation_type_new y)"

definition rule_new :: "string \<Rightarrow> yaml \<Rightarrow> rule_node option" where
  "rule_new path y = rule_new_with_detection path y detection_new"

definition create_rule :: "string \<Rightarrow> yaml \<Rightarrow> rule_node option" where
  "create_rule path y = rule_new path y"

definition has_agg_condition :: "rule_node \<Rightarrow> bool" where
  "has_agg_condition r \<longleftrightarrow> aggregation_condition (detection r) \<noteq> None"

definition get_agg_condition :: "rule_node \<Rightarrow> agg_info option" where
  "get_agg_condition r = aggregation_condition (detection r)"

definition check_exist_countdata :: "rule_node \<Rightarrow> bool" where
  "check_exist_countdata r \<longleftrightarrow> countdata r \<noteq> []"

definition agg_result_new ::
  "int \<Rightarrow> string \<Rightarrow> string list \<Rightarrow> int \<Rightarrow> agg_record list \<Rightarrow> agg_result" where
  "agg_result_new count_data key values start infos =
     \<lparr>agg_data = count_data, agg_key = key, field_values = values, start_timedate = start,
      agg_record_time_info = infos\<rparr>"

end
