(* ===== verification/Count.thy ===== *)
theory Count
  imports Rule_Types "HOL-Library.Multiset"
begin

section \<open>Counting and time frames (count.rs)\<close>

text \<open>
  The collection of matching records per group key, and the evaluation of an aggregation
  condition over sliding windows of the records in time order. A log of error messages is
  threaded through, newest last; \<open>None\<close> is a panic.
\<close>

subsection \<open>Collecting\<close>

text \<open>\<open>Path::file_name\<close>: the last component unless it is a parent reference.\<close>

definition file_name :: "string \<Rightarrow> string option" where
  "file_name p =
     (let comps = filter (\<lambda>c. c \<noteq> [] \<and> c \<noteq> ''.'') (split_char (CHR ''/'') p)
      in if comps = [] \<or> last comps = ''..'' then None else Some (last comps))"

definition alias_error :: "bool \<Rightarrow> string \<Rightarrow> string \<Rightarrow> string" where
  "alias_error is_by_alias file event_id =
     (if is_by_alias then ''count by clause'' else ''count field clause'') @
     '' alias value not found in count process. rule file:'' @ file @ '' EventID:'' @ event_id"

definition get_alias_value_in_record ::
  "env \<Rightarrow> alias_config \<Rightarrow> string \<Rightarrow> string \<Rightarrow> json \<Rightarrow> bool \<Rightarrow> bool \<Rightarrow> string list \<Rightarrow>
   (string option \<times> string list) option" where
  "get_alias_value_in_record E c path alias record is_by_alias quiet log =
     (if alias = [] then Some (None, log)
      else (case get_event_value c alias record of
              Some v \<Rightarrow> Some (Some (replace_all [CHR 0x22] [] (json_text E v)), log)
            | None \<Rightarrow>
                (case (file_name path, get_event_value c ''Event.System.EventID'' record) of
                   (Some file, Some eid) \<Rightarrow>
                     Some (None, if quiet then log
                       else log @ [''[ERROR] '' @ alias_error is_by_alias file (json_text E eid)])
                 | _ \<Rightarrow> None)))"

text \<open>The values of the fields after \<open>by\<close>, joined with commas; an underscore for a missing one.\<close>

fun count_key_values ::
  "env \<Rightarrow> alias_config \<Rightarrow> string \<Rightarrow> json \<Rightarrow> bool \<Rightarrow> string list \<Rightarrow> string list \<Rightarrow> (string list \<times> string list) option" where
  "count_key_values E c path record quiet [] log = Some ([], log)"
| "count_key_values E c path record quiet (k # ks) log =
     (case get_alias_value_in_record E c path k record True quiet log of
        None \<Rightarrow> None
      | Some (v, log') \<Rightarrow>
          map_option (\<lambda>(vs, log''). (unwrap_or ''_'' v # vs, log''))
            (count_key_values E c path record quiet ks log'))"

definition create_count_key ::
  "env \<Rightarrow> alias_config \<Rightarrow> rule_node \<Rightarrow> json \<Rightarrow> bool \<Rightarrow> string list \<Rightarrow> (string \<times> string list) option" where
  "create_count_key E c rule record quiet log =
     (case get_agg_condition rule of
        None \<Rightarrow> None
      | Some agg \<Rightarrow>
          (case by_field_name agg of
             None \<Rightarrow> Some (''_'', log)
           | Some by_field \<Rightarrow>
               (if CHR '','' \<in> set by_field
                then map_option (\<lambda>(vs, log'). (join '','' vs, log'))
                       (count_key_values E c (rulepath rule) record quiet
                          (map trim (split_char (CHR '','') by_field)) log)
                else map_option (\<lambda>(v, log'). (unwrap_or ''_'' v, log'))
                       (get_alias_value_in_record E c (rulepath rule) by_field record True quiet log))))"

text \<open>\<open>message::get_event_time\<close>.\<close>

definition str_time_to_datetime :: "env \<Rightarrow> string \<Rightarrow> int option" where
  "str_time_to_datetime E s = (if s = [] then None else parse_rfc3339 E s)"

definition get_event_time :: "env \<Rightarrow> json \<Rightarrow> bool \<Rightarrow> int option" where
  "get_event_time E event_record json_input_flag =
     (let sys = json_index (json_index event_record ''Event'') ''System'';
          t = (if json_input_flag then json_index sys ''@timestamp''
               else json_index (json_index sys ''TimeCreated_attributes'') ''SystemTime'')
      in str_time_to_datetime E (unwrap_or [] (json_as_str t)))"

text \<open>1977-01-01 00:00:00 UTC.\<close>

definition default_time :: int where
  "default_time = 220924800 * 10 ^ 9"

definition system_text :: "env \<Rightarrow> alias_config \<Rightarrow> string \<Rightarrow> json \<Rightarrow> string option" where
  "system_text E c key record =
     map_option (\<lambda>v. trim_matches (CHR 0x22) (json_text E v)) (get_event_value c key record)"

definition countup ::
  "env \<Rightarrow> alias_config \<Rightarrow> rule_node \<Rightarrow> string \<Rightarrow> string \<Rightarrow> recinfo \<Rightarrow> bool \<Rightarrow> rule_node option" where
  "countup E c rule key fval rec json_input_flag =
     (let record = rec_data rec in
      case (system_text E c ''Event.System.EventID'' record, system_text E c ''Event.System.Computer'' record,
            system_text E c ''Event.System.Channel'' record) of
        (Some eid, Some cmp, Some chan) \<Rightarrow>
          (let info = \<lparr>field_value = fval, rec_time = unwrap_or default_time (get_event_time E record json_input_flag),
                       rec_event_id = eid, rec_computer = cmp, rec_channel = chan,
                       rec_file = evtx_filepath rec\<rparr>
           in Some (rule\<lparr>countdata := assoc_insert key (unwrap_or [] (map_of (countdata rule) key) @ [info])
                             (countdata rule)\<rparr>))
      | _ \<Rightarrow> None)"

definition count ::
  "env \<Rightarrow> alias_config \<Rightarrow> rule_node \<Rightarrow> recinfo \<Rightarrow> bool \<Rightarrow> bool \<Rightarrow> string list \<Rightarrow> (rule_node \<times> string list) option" where
  "count E c rule rec quiet json_input_flag log =
     (case create_count_key E c rule (rec_data rec) quiet log of
        None \<Rightarrow> None
      | Some (key, log') \<Rightarrow>
          (let fname = (case get_agg_condition rule of None \<Rightarrow> [] | Some agg \<Rightarrow> unwrap_or [] (field_name agg)) in
           case get_alias_value_in_record E c (rulepath rule) fname (rec_data rec) False quiet log' of
             None \<Rightarrow> None
           | Some (v, log'') \<Rightarrow>
               map_option (\<lambda>r. (r, log'')) (countup E c rule key (unwrap_or [] v) rec json_input_flag)))"

subsection \<open>The time frame\<close>

text \<open>Multiplication on \<open>i64\<close>, which wraps (both build profiles disable the overflow check).\<close>

definition wrap_i64 :: "int \<Rightarrow> int" where
  "wrap_i64 n = (n + 2 ^ 63) mod 2 ^ 64 - 2 ^ 63"

definition parse_tframe :: "string \<Rightarrow> bool \<Rightarrow> string list \<Rightarrow> time_frame_info \<times> string list" where
  "parse_tframe v quiet log =
     (let ttype = (if ends_with v ''s'' then ''s'' else if ends_with v ''m'' then ''m''
                   else if ends_with v ''h'' then ''h'' else if ends_with v ''d'' then ''d'' else []);
          log' = (if ttype = [] \<and> \<not> quiet then log @ [''[ERROR] Timeframe is invalid. Input value:'' @ v] else log);
          target_val = (if ttype \<noteq> [] then take (length v - 1) v else v)
      in (\<lparr>timetype = ttype, timenum = parse_i64 target_val\<rparr>, log'))"

definition get_sec_timeframe :: "rule_node \<Rightarrow> int option" where
  "get_sec_timeframe rule =
     (case timeframe (detection rule) of
        None \<Rightarrow> None
      | Some tfi \<Rightarrow>
          (case timenum tfi of
             None \<Rightarrow> None
           | Some n \<Rightarrow>
               Some (if timetype tfi = ''d'' then wrap_i64 (n * 86400)
                     else if timetype tfi = ''h'' then wrap_i64 (n * 3600)
                     else if timetype tfi = ''m'' then wrap_i64 (n * 60)
                     else n)))"

definition select_aggcon :: "int \<Rightarrow> agg_info option \<Rightarrow> bool" where
  "select_aggcon cnt agg =
     (case agg of
        None \<Rightarrow> False
      | Some a \<Rightarrow>
          (case cmp_op a of
             EQ \<Rightarrow> cnt = cmp_num a
           | GE \<Rightarrow> cnt \<ge> cmp_num a
           | GT \<Rightarrow> cnt > cmp_num a
           | LE \<Rightarrow> cnt \<le> cmp_num a
           | LT \<Rightarrow> cnt < cmp_num a
           | _ \<Rightarrow> False))"

subsection \<open>Counting strategies\<close>

text \<open>
  The two implementations of \<open>CountStrategy\<close>: the number of records, or a table from field
  values to how often each occurs.
\<close>

datatype strategy =
    FieldStrategy "(string \<times> int) list"
  | NoFieldStrategy int

definition assoc_remove :: "'k \<Rightarrow> ('k \<times> 'v) list \<Rightarrow> ('k \<times> 'v) list" where
  "assoc_remove k xs = filter (\<lambda>e. fst e \<noteq> k) xs"

fun add_value :: "strategy \<Rightarrow> agg_record \<Rightarrow> strategy" where
  "add_value (FieldStrategy m) d =
     (case map_of m (field_value d) of
        Some n \<Rightarrow> FieldStrategy (assoc_insert (field_value d) (n + 1) m)
      | None \<Rightarrow> FieldStrategy (assoc_insert (field_value d) 1 m))"
| "add_value (NoFieldStrategy cnt) d = NoFieldStrategy (cnt + 1)"

fun remove_value :: "strategy \<Rightarrow> agg_record \<Rightarrow> strategy" where
  "remove_value (FieldStrategy m) d =
     (case map_of m (field_value d) of
        None \<Rightarrow> FieldStrategy m
      | Some n \<Rightarrow>
          (if n \<le> 1 then FieldStrategy (assoc_remove (field_value d) m)
           else FieldStrategy (assoc_insert (field_value d) (n - 1) m)))"
| "remove_value (NoFieldStrategy cnt) d = NoFieldStrategy (cnt - 1)"

definition add_data :: "nat \<Rightarrow> agg_record list \<Rightarrow> strategy \<Rightarrow> strategy" where
  "add_data idx datas st = (if idx \<ge> length datas then st else add_value st (datas ! idx))"

definition remove_data :: "nat \<Rightarrow> agg_record list \<Rightarrow> strategy \<Rightarrow> strategy" where
  "remove_data idx datas st = (if idx \<ge> length datas then st else remove_value st (datas ! idx))"

fun strategy_count :: "strategy \<Rightarrow> int" where
  "strategy_count (FieldStrategy m) = int (length m)"
| "strategy_count (NoFieldStrategy cnt) = cnt"

text \<open>The result of a block; the strategy starts again from nothing.\<close>

fun create_agg_result ::
  "agg_record list \<Rightarrow> int \<Rightarrow> string \<Rightarrow> strategy \<Rightarrow> (agg_result \<times> strategy) option" where
  "create_agg_result [] cnt key st = None"
| "create_agg_result (d # ds) cnt key (FieldStrategy m) =
     Some (agg_result_new (int (length m)) key (map fst m) (rec_time d) (d # ds), FieldStrategy [])"
| "create_agg_result (d # ds) cnt key (NoFieldStrategy n) =
     Some (agg_result_new cnt key [] (rec_time d) (d # ds), NoFieldStrategy 0)"

definition create_counter :: "agg_info \<Rightarrow> strategy" where
  "create_counter agg = (if field_name agg \<noteq> None then FieldStrategy [] else NoFieldStrategy 0)"

subsection \<open>Windows\<close>

definition timestamp :: "int \<Rightarrow> int" where
  "timestamp t = t div 10 ^ 9"

definition subsec_nanos :: "int \<Rightarrow> int" where
  "subsec_nanos t = t mod 10 ^ 9"

definition is_in_timeframe :: "nat \<Rightarrow> nat \<Rightarrow> int \<Rightarrow> agg_record list \<Rightarrow> bool" where
  "is_in_timeframe left right frame datas =
     (let left_time = timestamp (rec_time (datas ! left));
          left_nano = subsec_nanos (rec_time (datas ! left));
          right_time = timestamp (rec_time (datas ! right));
          right_nano = subsec_nanos (rec_time (datas ! right));
          right_time' = (if right_nano > left_nano then right_time + 1 else right_time)
      in right_time' - left_time \<le> frame)"

text \<open>The inner loop: take records in as long as they are in the frame.\<close>

function extend_right ::
  "int \<Rightarrow> agg_record list \<Rightarrow> nat \<Rightarrow> nat \<Rightarrow> strategy \<Rightarrow> nat \<times> strategy" where
  "extend_right frame datas left right st =
     (if right < length datas \<and> is_in_timeframe left right frame datas
      then extend_right frame datas left (right + 1) (add_data right datas st)
      else (right, st))"
  by pat_completeness auto
termination
  by (relation "measure (\<lambda>(frame, datas, left, right, st). length datas - right)") auto

declare extend_right.simps [simp del]

lemma extend_right_ge: "extend_right frame datas left right st = (right', st') \<Longrightarrow> right \<le> right'"
proof (induction frame datas left right st arbitrary: right' st' rule: extend_right.induct)
  case (1 frame datas left right st)
  then show ?case
    by (subst (asm) (2) extend_right.simps) (auto split: if_splits)
qed

text \<open>The outer loop. A block that is no slice of the records panics, and so does an empty one.\<close>

definition block :: "agg_record list \<Rightarrow> nat \<Rightarrow> nat \<Rightarrow> agg_record list option" where
  "block datas left right =
     (if left \<le> right \<and> right \<le> length datas then Some (take (right - left) (drop left datas)) else None)"

lemma create_agg_result_nonempty: "create_agg_result b cnt key st = Some r \<Longrightarrow> b \<noteq> []"
  by auto

function judge_loop ::
  "agg_info \<Rightarrow> int \<Rightarrow> string \<Rightarrow> agg_record list \<Rightarrow> nat \<Rightarrow> nat \<Rightarrow> strategy \<Rightarrow> agg_result list option" where
  "judge_loop agg frame key datas left right st =
     (if left < length datas \<and> right < length datas + 1
      then (case extend_right frame datas left right st of (right1, st1) \<Rightarrow>
        (let cnt = strategy_count st1 in
         if select_aggcon cnt (Some agg)
         then (case block datas left right1 of
                 None \<Rightarrow> None
               | Some b \<Rightarrow>
                   (case create_agg_result b cnt key st1 of
                      None \<Rightarrow> None
                    | Some (r, st2) \<Rightarrow>
                        map_option (\<lambda>rs. r # rs) (judge_loop agg frame key datas right1 right1 st2)))
         else judge_loop agg frame key datas (left + 1) (right1 + 1)
                (remove_data left datas (add_data right1 datas st1))))
      else Some [])"
  by pat_completeness auto
termination
proof (relation "measure (\<lambda>(agg, frame, key, datas, left, right, st). (length datas - left) + (length datas + 1 - right))",
    goal_cases)
  case 1
  then show ?case by simp
next
  case prems: (2 agg frame key datas left right st right1 st1 cnt b r)
  have "b \<noteq> []" using prems(6,7) by (auto dest: create_agg_result_nonempty)
  then have "left < right1" "right1 \<le> length datas"
    using prems(5) by (auto simp: block_def split: if_splits)
  moreover have "right \<le> right1" using prems(2) extend_right_ge by metis
  ultimately show ?case using prems(1) by auto
next
  case prems: (3 agg frame key datas left right st right1)
  have "right \<le> right1" using prems(2) extend_right_ge by metis
  with prems(1) show ?case by auto
qed

declare judge_loop.simps [simp del]

definition judge_timeframe ::
  "rule_node \<Rightarrow> agg_record list \<Rightarrow> string \<Rightarrow> agg_result list option" where
  "judge_timeframe rule time_datas key =
     (if time_datas = [] then Some []
      else (let datas = sort_key rec_time time_datas;
                def_frame = timestamp (rec_time (last datas)) - timestamp (rec_time (hd datas));
                frame = unwrap_or def_frame (get_sec_timeframe rule)
            in case get_agg_condition rule of
                 None \<Rightarrow> None
               | Some agg \<Rightarrow> judge_loop agg frame key datas 0 0 (create_counter agg)))"

fun judge_groups :: "rule_node \<Rightarrow> (string \<times> agg_record list) list \<Rightarrow> agg_result list option" where
  "judge_groups rule [] = Some []"
| "judge_groups rule ((key, v) # rest) =
     (case judge_timeframe rule v key of
        None \<Rightarrow> None
      | Some rs \<Rightarrow> map_option (\<lambda>rs'. rs @ rs') (judge_groups rule rest))"

definition aggregation_condition_select :: "rule_node \<Rightarrow> agg_result list option" where
  "aggregation_condition_select rule = judge_groups rule (countdata rule)"

definition judge_satisfy_aggcondition :: "rule_node \<Rightarrow> agg_result list option" where
  "judge_satisfy_aggcondition rule =
     (if \<not> has_agg_condition rule then Some [] else aggregation_condition_select rule)"

end
