(* ===== verification/Count_Windows.thy ===== *)
theory Count_Windows
  imports Count
begin

section \<open>What the sliding windows report\<close>

text \<open>
  The contract of a counting strategy as a locale: a state represents the records of the
  current window. The lemmas on the window loop are proved once from it and used for both
  strategies of the code.
\<close>

definition window :: "agg_record list \<Rightarrow> nat \<Rightarrow> nat \<Rightarrow> agg_record list" where
  "window datas l r = take (r - l) (drop l datas)"

lemma window_empty [agg_simps]: "window datas l l = []"
  by (simp add: window_def)

lemma window_snoc [agg_simps]:
  "l \<le> r \<Longrightarrow> r < length datas \<Longrightarrow> window datas l (Suc r) = window datas l r @ [datas ! r]"
  by (simp add: window_def Suc_diff_le take_Suc_conv_app_nth)

lemma window_cons [agg_simps]:
  "l < r \<Longrightarrow> l < length datas \<Longrightarrow> window datas l r = datas ! l # window datas (Suc l) r"
  by (simp add: window_def Cons_nth_drop_Suc [symmetric] Suc_diff_Suc [symmetric] del: Cons_nth_drop_Suc)

lemma length_window [agg_simps]: "r \<le> length datas \<Longrightarrow> length (window datas l r) = r - l"
  by (simp add: window_def)

lemma window_subset:
  assumes "l' \<le> l" and "r \<le> r'" and "r' \<le> length datas"
  shows "set (window datas l r) \<subseteq> set (window datas l' r')"
proof
  fix x assume "x \<in> set (window datas l r)"
  then obtain k where "k < r - l" "l + k < length datas" "x = datas ! (l + k)"
    using assms by (auto simp: window_def in_set_conv_nth)
  then have "l + k - l' < r' - l'" "x = datas ! (l' + (l + k - l'))" using assms by auto
  then show "x \<in> set (window datas l' r')"
    using assms by (auto simp: window_def in_set_conv_nth intro!: exI [of _ "l + k - l'"])
qed

subsection \<open>The time frame\<close>

lemma frame_arith:
  fixes q r q' r' f :: int
  assumes "0 \<le> r" "r < n" "0 \<le> r'" "r' < n"
  shows "(if r' > r then q' + 1 else q') - q \<le> f \<longleftrightarrow> (q' * n + r') - (q * n + r) \<le> f * n"
proof (cases "r' > r")
  case True
  have "(q' * n + r') - (q * n + r) \<le> f * n \<longleftrightarrow> (q' - q) * n + (r' - r) \<le> f * n"
    by (simp add: algebra_simps)
  also have "\<dots> \<longleftrightarrow> q' - q < f"
  proof
    assume "(q' - q) * n + (r' - r) \<le> f * n"
    with True have "(q' - q) * n < f * n" by linarith
    then show "q' - q < f" using assms by (simp add: mult_less_cancel_right)
  next
    assume "q' - q < f"
    then have "(q' - q + 1) * n \<le> f * n" using assms by (intro mult_right_mono) auto
    moreover have "(q' - q + 1) * n = (q' - q) * n + n" by (simp add: algebra_simps)
    ultimately show "(q' - q) * n + (r' - r) \<le> f * n" using assms by linarith
  qed
  finally show ?thesis using True by auto
next
  case False
  have "(q' * n + r') - (q * n + r) \<le> f * n \<longleftrightarrow> (q' - q) * n \<le> f * n + (r - r')"
    by (simp add: algebra_simps)
  also have "\<dots> \<longleftrightarrow> q' - q \<le> f"
  proof
    assume a: "(q' - q) * n \<le> f * n + (r - r')"
    show "q' - q \<le> f"
    proof (rule ccontr)
      assume "\<not> q' - q \<le> f"
      then have "(f + 1) * n \<le> (q' - q) * n" using assms by (intro mult_right_mono) auto
      moreover have "(f + 1) * n = f * n + n" by (simp add: algebra_simps)
      ultimately show False using a assms by linarith
    qed
  next
    assume "q' - q \<le> f"
    then have "(q' - q) * n \<le> f * n" using assms by (intro mult_right_mono) auto
    with False show "(q' - q) * n \<le> f * n + (r - r')" by linarith
  qed
  finally show ?thesis using False by auto
qed

text \<open>The comparison of seconds and nanoseconds is the comparison of the exact difference.\<close>

lemma is_in_timeframe_exact:
  "is_in_timeframe left right frame datas \<longleftrightarrow>
     rec_time (datas ! right) - rec_time (datas ! left) \<le> frame * 10 ^ 9"
proof -
  let ?n = "10 ^ 9 :: int" and ?a = "rec_time (datas ! left)" and ?b = "rec_time (datas ! right)"
  have "?a = (?a div ?n) * ?n + ?a mod ?n" "?b = (?b div ?n) * ?n + ?b mod ?n" by simp_all
  then show ?thesis
    using frame_arith [of "?a mod ?n" ?n "?b mod ?n" "?b div ?n" "?a div ?n" frame]
    unfolding is_in_timeframe_def Let_def timestamp_def subsec_nanos_def by simp
qed

lemma extend_right_step:
  "right < length datas \<Longrightarrow> is_in_timeframe left right frame datas \<Longrightarrow>
     extend_right frame datas left right st = extend_right frame datas left (right + 1) (add_data right datas st)"
  "\<not> (right < length datas \<and> is_in_timeframe left right frame datas) \<Longrightarrow>
     extend_right frame datas left right st = (right, st)"
  by (subst extend_right.simps, simp)+

lemma extend_right_all:
  "extend_right frame datas left right st = (right', st') \<Longrightarrow> right \<le> length datas \<Longrightarrow>
     right \<le> right' \<and> right' \<le> length datas \<and>
     (\<forall>k. right \<le> k \<and> k < right' \<longrightarrow> is_in_timeframe left k frame datas) \<and>
     (right' = length datas \<or> \<not> is_in_timeframe left right' frame datas)"
proof (induction frame datas left right st arbitrary: right' st' rule: extend_right.induct)
  case (1 frame datas left right st)
  show ?case
  proof (cases "right < length datas \<and> is_in_timeframe left right frame datas")
    case True
    then have "extend_right frame datas left (right + 1) (add_data right datas st) = (right', st')"
      using 1(2) extend_right_step(1) by simp
    note IH = 1(1) [OF True this]
    have "is_in_timeframe left k frame datas" if "right \<le> k" "k < right'" for k
      using that IH True by (cases "k = right") auto
    with IH True show ?thesis by auto
  next
    case False
    with 1(2,3) extend_right_step(2) [OF False, of st] show ?thesis by auto
  qed
qed

lemmas extend_right_props =
  extend_right_all [THEN conjunct1] extend_right_all [THEN conjunct2, THEN conjunct1]
  extend_right_all [THEN conjunct2, THEN conjunct2, THEN conjunct1]
  extend_right_all [THEN conjunct2, THEN conjunct2, THEN conjunct2]

lemma extend_right_progress:
  assumes "extend_right frame datas left left st = (right', st')" and "left < length datas" and "0 \<le> frame"
  shows "left < right'"
proof -
  have "is_in_timeframe left left frame datas" using assms(3) by (simp add: is_in_timeframe_exact)
  with assms(1,2) show ?thesis
    by (subst (asm) extend_right.simps) (auto dest: extend_right_ge)
qed

subsection \<open>The contract\<close>

lemma judge_loop_stop:
  "\<not> (left < length datas \<and> right < length datas + 1) \<Longrightarrow>
     judge_loop agg frame key datas left right st = Some []"
  by (subst judge_loop.simps) (rule if_not_P)

text \<open>The blocks of a result list: slices of the records in order, none overlapping another.\<close>

fun segments :: "agg_record list \<Rightarrow> nat \<Rightarrow> agg_result list \<Rightarrow> bool" where
  "segments datas n [] = True"
| "segments datas n (r # rs) =
     (\<exists>i j. n \<le> i \<and> i < j \<and> j \<le> length datas \<and> agg_record_time_info r = window datas i j \<and> segments datas j rs)"

lemma segments_mono: "segments datas m rs \<Longrightarrow> n \<le> m \<Longrightarrow> segments datas n rs"
proof (cases rs)
  case (Cons r rest)
  assume "segments datas m rs" and "n \<le> m"
  then obtain i j where "m \<le> i" "i < j" "j \<le> length datas"
    "agg_record_time_info r = window datas i j" "segments datas j rest"
    by (auto simp: Cons)
  moreover have "n \<le> i" using \<open>n \<le> m\<close> \<open>m \<le> i\<close> by simp
  ultimately show ?thesis unfolding Cons segments.simps by blast
qed simp

lemma judge_loop_shift:
  "left < length datas \<and> right < length datas + 1 \<Longrightarrow> extend_right frame datas left right st = (right1, st1) \<Longrightarrow>
     \<not> select_aggcon (strategy_count st1) (Some agg) \<Longrightarrow>
     judge_loop agg frame key datas left right st =
       judge_loop agg frame key datas (left + 1) (right1 + 1) (remove_data left datas (add_data right1 datas st1))"
  by (subst judge_loop.simps) (simp only: if_P prod.case Let_def if_False simp_thms)

lemma judge_loop_report:
  "left < length datas \<and> right < length datas + 1 \<Longrightarrow> extend_right frame datas left right st = (right1, st1) \<Longrightarrow>
     select_aggcon (strategy_count st1) (Some agg) \<Longrightarrow> block datas left right1 = Some b \<Longrightarrow>
     create_agg_result b (strategy_count st1) key st1 = Some (r, st2) \<Longrightarrow>
     judge_loop agg frame key datas left right st =
       map_option (\<lambda>rs. r # rs) (judge_loop agg frame key datas right1 right1 st2)"
  by (subst judge_loop.simps) (simp only: if_P prod.case Let_def if_True simp_thms option.case)

locale count_strategy =
  fixes repr :: "strategy \<Rightarrow> agg_record list \<Rightarrow> bool"
    and weight :: "agg_record list \<Rightarrow> int"
  assumes repr_add: "repr s xs \<Longrightarrow> repr (add_value s d) (xs @ [d])"
    and repr_remove: "repr s (d # xs) \<Longrightarrow> repr (remove_value s d) xs"
    and repr_count: "repr s xs \<Longrightarrow> strategy_count s = weight xs"
    and repr_result: "repr s (d # ds) \<Longrightarrow>
      \<exists>r s'. create_agg_result (d # ds) (strategy_count s) key s = Some (r, s') \<and> repr s' [] \<and>
        agg_record_time_info r = d # ds \<and> agg_data r = weight (d # ds) \<and> agg_key r = key \<and>
        start_timedate r = rec_time d \<and>
        set (field_values r) \<subseteq> set (map field_value (d # ds))"
    and weight_mono: "set (window datas l r) \<subseteq> set (window datas l' r') \<Longrightarrow>
      l' \<le> l \<Longrightarrow> r \<le> r' \<Longrightarrow> r' \<le> length datas \<Longrightarrow>
      weight (window datas l r) \<le> weight (window datas l' r')"
begin

lemma extend_repr:
  "extend_right frame datas left right st = (right', st') \<Longrightarrow> left \<le> right \<Longrightarrow> right \<le> length datas \<Longrightarrow>
     repr st (window datas left right) \<Longrightarrow> repr st' (window datas left right')"
proof (induction frame datas left right st arbitrary: right' st' rule: extend_right.induct)
  case (1 frame datas left right st)
  show ?case
  proof (cases "right < length datas \<and> is_in_timeframe left right frame datas")
    case True
    then have "extend_right frame datas left (right + 1) (add_data right datas st) = (right', st')"
      using 1(2) by (subst (asm) extend_right.simps) simp
    moreover have "repr (add_data right datas st) (window datas left (right + 1))"
      using True 1(3,5) repr_add by (simp add: add_data_def window_snoc)
    ultimately show ?thesis using 1(1) [OF True] True 1(3) by simp
  next
    case False
    with 1(2,5) show ?thesis by (subst (asm) extend_right.simps) auto
  qed
qed

lemma shift_repr:
  assumes "repr st (window datas left right)" and "left < right" and "right < length datas"
  shows "repr (remove_data left datas (add_data right datas st)) (window datas (left + 1) (right + 1))"
proof -
  have "repr (add_data right datas st) (window datas left (Suc right))"
    using assms repr_add by (simp add: add_data_def window_snoc)
  moreover have "window datas left (Suc right) = datas ! left # window datas (Suc left) (Suc right)"
    using assms by (intro window_cons) auto
  ultimately show ?thesis using assms repr_remove by (simp add: remove_data_def)
qed

text \<open>One round of the loop, with its state represented.\<close>

definition represented :: "agg_record list \<Rightarrow> nat \<Rightarrow> nat \<Rightarrow> strategy \<Rightarrow> bool" where
  "represented datas left right st \<longleftrightarrow> left \<le> right \<and> (right \<le> length datas \<longrightarrow> repr st (window datas left right))"

lemma represented_round:
  assumes "represented datas left right st" and "left < length datas" and "right < length datas + 1"
    and "0 \<le> frame" and "extend_right frame datas left right st = (right1, st1)"
  shows "left < right1" and "right1 \<le> length datas" and "repr st1 (window datas left right1)"
    and "represented datas (left + 1) (right1 + 1) (remove_data left datas (add_data right1 datas st1))"
proof -
  have st: "left \<le> right" "right \<le> length datas" "repr st (window datas left right)"
    using assms(1,3) by (auto simp: represented_def)
  show lt: "left < right1"
  proof (cases "left = right")
    case True
    with assms show ?thesis by (simp add: extend_right_progress)
  next
    case False
    with st extend_right_ge [OF assms(5)] show ?thesis by simp
  qed
  show le: "right1 \<le> length datas" by (rule extend_right_props(2) [OF assms(5) st(2)])
  show rp: "repr st1 (window datas left right1)" by (rule extend_repr [OF assms(5) st])
  show "represented datas (left + 1) (right1 + 1) (remove_data left datas (add_data right1 datas st1))"
    using shift_repr [OF rp lt] lt by (auto simp: represented_def)
qed

lemma block_result:
  assumes "repr st (window datas left right)" and "left < right" and "right \<le> length datas"
  obtains r st' where "block datas left right = Some (window datas left right)"
    and "create_agg_result (window datas left right) (strategy_count st) key st = Some (r, st')"
    and "represented datas right right st'" and "agg_record_time_info r = window datas left right"
    and "agg_data r = weight (window datas left right)" and "agg_key r = key"
    and "start_timedate r = rec_time (datas ! left)"
    and "set (field_values r) \<subseteq> set (map field_value (window datas left right))"
proof -
  have w: "window datas left right = datas ! left # window datas (Suc left) right"
    using assms by (intro window_cons) auto
  obtain r st' where r: "create_agg_result (window datas left right) (strategy_count st) key st = Some (r, st')"
    "repr st' []" "agg_record_time_info r = window datas left right"
    "agg_data r = weight (window datas left right)" "agg_key r = key"
    "start_timedate r = rec_time (datas ! left)"
    "set (field_values r) \<subseteq> set (map field_value (window datas left right))"
    using repr_result [of st "datas ! left" "window datas (Suc left) right" key] assms(1)
    unfolding w by blast
  have "represented datas right right st'" using r(2) by (simp add: represented_def window_empty)
  moreover have "block datas left right = Some (window datas left right)"
    using assms by (simp add: block_def window_def)
  ultimately show thesis using r that by blast
qed

definition result_ok :: "agg_info \<Rightarrow> string \<Rightarrow> agg_result \<Rightarrow> bool" where
  "result_ok agg key r \<longleftrightarrow> select_aggcon (agg_data r) (Some agg) \<and>
     agg_data r = weight (agg_record_time_info r) \<and> agg_key r = key \<and>
     start_timedate r = rec_time (hd (agg_record_time_info r))"

lemma judge_loop_sound:
  assumes "represented datas left right st" and "0 \<le> frame"
  shows "\<exists>rs. judge_loop agg frame key datas left right st = Some rs \<and> segments datas left rs \<and>
     list_all (result_ok agg key) rs"
  using assms
proof (induction agg frame key datas left right st rule: judge_loop.induct)
  case (1 agg frame key datas left right st)
  show ?case
  proof (cases "left < length datas \<and> right < length datas + 1")
    case False
    then show ?thesis by (simp add: judge_loop_stop)
  next
    case True
    obtain right1 st1 where ext: "extend_right frame datas left right st = (right1, st1)"
      by (cases "extend_right frame datas left right st")
    note rd = represented_round [OF 1(3) _ _ 1(4) ext]
    show ?thesis
    proof (cases "select_aggcon (strategy_count st1) (Some agg)")
      case False
      obtain rs where IH: "judge_loop agg frame key datas (left + 1) (right1 + 1)
            (remove_data left datas (add_data right1 datas st1)) = Some rs" "segments datas (left + 1) rs"
          "list_all (result_ok agg key) rs"
        using 1(2) [OF True ext [symmetric] refl False rd(4) 1(4)] True by auto
      have "judge_loop agg frame key datas left right st = Some rs"
        using judge_loop_shift [OF True ext False] IH(1) by simp
      moreover have "segments datas left rs" using IH(2) by (rule segments_mono) simp
      ultimately show ?thesis using IH(3) by blast
    next
      case sel: True
      have lt: "left < right1" and le: "right1 \<le> length datas" and rp: "repr st1 (window datas left right1)"
        using rd(1-3) True by auto
      obtain r st2 where r: "block datas left right1 = Some (window datas left right1)"
          "create_agg_result (window datas left right1) (strategy_count st1) key st1 = Some (r, st2)"
          "represented datas right1 right1 st2" "agg_record_time_info r = window datas left right1"
          "agg_data r = weight (window datas left right1)" "agg_key r = key"
          "start_timedate r = rec_time (datas ! left)"
        by (rule block_result [OF rp lt le, where key = key])
      obtain rs where IH: "judge_loop agg frame key datas right1 right1 st2 = Some rs" "segments datas right1 rs"
          "list_all (result_ok agg key) rs"
        using 1(1) [OF True ext [symmetric] refl sel r(1,2) refl r(3) 1(4)] by auto
      have "judge_loop agg frame key datas left right st = Some (r # rs)"
        using judge_loop_report [OF True ext sel r(1,2)] IH(1) by simp
      moreover have "segments datas left (r # rs)"
        using r(4) lt le IH(2) by auto
      moreover have "hd (window datas left right1) = datas ! left"
        using window_cons [of left right1 datas] lt le by simp
      then have "result_ok agg key r"
        using r(4-7) sel repr_count [OF rp] by (simp add: result_ok_def)
      ultimately show ?thesis using IH(3) by auto
    qed
  qed
qed

text \<open>
  A condition that more records cannot make false finds every window that satisfies it: the
  loop cannot pass it by without reporting something.
\<close>

lemma judge_loop_complete:
  assumes "represented datas left right st" and "0 \<le> frame"
    and "sorted (map rec_time datas)" and "left \<le> a" and "a < b" and "b \<le> length datas"
    and "is_in_timeframe a (b - 1) frame datas"
    and "select_aggcon (weight (window datas a b)) (Some agg)"
    and "\<And>m n. m \<le> n \<Longrightarrow> select_aggcon m (Some agg) \<Longrightarrow> select_aggcon n (Some agg)"
    and "right < length datas + 1"
  shows "judge_loop agg frame key datas left right st \<noteq> Some []"
  using assms
proof (induction agg frame key datas left right st rule: judge_loop.induct)
  case (1 agg frame key datas left right st)
  have True: "left < length datas \<and> right < length datas + 1" using 1(6,7,8,12) by simp
  obtain right1 st1 where ext: "extend_right frame datas left right st = (right1, st1)"
    by (cases "extend_right frame datas left right st")
  note rd = represented_round [OF 1(3) _ _ 1(4) ext]
  have lt: "left < right1" and le: "right1 \<le> length datas" and rp: "repr st1 (window datas left right1)"
    using rd(1-3) True by auto
  have covered: "select_aggcon (strategy_count st1) (Some agg)" if "b \<le> right1"
  proof -
    have "weight (window datas a b) \<le> weight (window datas left right1)"
      using weight_mono [OF window_subset] 1(6) that le by blast
    then show ?thesis using 1(11) [OF _ 1(10)] repr_count [OF rp] by simp
  qed
  show ?case
  proof (cases "select_aggcon (strategy_count st1) (Some agg)")
    case sel: True
    obtain r st2 where r: "block datas left right1 = Some (window datas left right1)"
        "create_agg_result (window datas left right1) (strategy_count st1) key st1 = Some (r, st2)"
      by (rule block_result [OF rp lt le, where key = key])
    show ?thesis
      using judge_loop_report [OF True ext sel r] by simp
  next
    case False
    then have nb: "right1 < b" using covered by (meson not_le)
    have "left \<noteq> a"
    proof
      assume "left = a"
      have "datas ! right1 \<in> set datas" "right1 \<le> b - 1" "b - 1 < length datas"
        using nb 1(8) by auto
      then have "rec_time (datas ! right1) \<le> rec_time (datas ! (b - 1))"
        using sorted_nth_mono [OF 1(5), of right1 "b - 1"] by simp
      with 1(9) have "is_in_timeframe left right1 frame datas"
        unfolding is_in_timeframe_exact \<open>left = a\<close> by linarith
      moreover have "right \<le> length datas" using True by simp
      ultimately show False
        using extend_right_props(4) [OF ext] nb 1(8) by auto
    qed
    with 1(6) have "left + 1 \<le> a" by simp
    then show ?thesis
      using 1(2) [OF True ext [symmetric] refl False rd(4) 1(4,5) _ 1(7,8,9,10,11)] True nb 1(8)
        judge_loop_shift [OF True ext False] by auto
  qed
qed

end

text \<open>A strategy that counts records alone: a shifted window of the same length counts the same.\<close>

locale length_strategy = count_strategy +
  assumes weight_length: "length xs = length ys \<Longrightarrow> weight xs = weight ys"
begin

definition unsatisfied :: "agg_info \<Rightarrow> agg_record list \<Rightarrow> nat \<Rightarrow> nat \<Rightarrow> bool" where
  "unsatisfied agg datas left right \<longleftrightarrow>
     left = right \<or> length datas < right \<or> \<not> select_aggcon (weight (window datas left right)) (Some agg)"

text \<open>Every block that such a strategy reports lies within the time frame.\<close>

lemma judge_loop_in_frame:
  assumes "represented datas left right st" and "0 \<le> frame" and "unsatisfied agg datas left right"
    and "judge_loop agg frame key datas left right st = Some rs"
  shows "\<forall>r \<in> set rs. \<exists>i j. i < j \<and> j \<le> length datas \<and> agg_record_time_info r = window datas i j \<and>
     rec_time (datas ! (j - 1)) - rec_time (datas ! i) \<le> frame * 10 ^ 9"
  using assms
proof (induction agg frame key datas left right st arbitrary: rs rule: judge_loop.induct)
  case (1 agg frame key datas left right st)
  show ?case
  proof (cases "left < length datas \<and> right < length datas + 1")
    case False
    with 1(6) show ?thesis by (simp add: judge_loop_stop)
  next
    case True
    obtain right1 st1 where ext: "extend_right frame datas left right st = (right1, st1)"
      by (cases "extend_right frame datas left right st")
    note rd = represented_round [OF 1(3) _ _ 1(4) ext]
    have lt: "left < right1" and le: "right1 \<le> length datas" and rp: "repr st1 (window datas left right1)"
      using rd(1-3) True by auto
    have right: "right \<le> length datas" using True by simp
    note props = extend_right_props [OF ext right]
    show ?thesis
    proof (cases "select_aggcon (strategy_count st1) (Some agg)")
      case False
      have "unsatisfied agg datas (left + 1) (right1 + 1)"
      proof (cases "right1 = length datas")
        case True
        then show ?thesis by (simp add: unsatisfied_def)
      next
        case nl: False
        have "length (window datas (left + 1) (right1 + 1)) = length (window datas left right1)"
          using nl le lt by (simp add: length_window)
        with False repr_count [OF rp] weight_length show ?thesis
          by (metis unsatisfied_def)
      qed
      moreover have "judge_loop agg frame key datas (left + 1) (right1 + 1)
          (remove_data left datas (add_data right1 datas st1)) = Some rs"
        using 1(6) judge_loop_shift [OF True ext False] by simp
      ultimately show ?thesis
        using 1(2) [OF True ext [symmetric] refl False rd(4) 1(4)] True by blast
    next
      case sel: True
      obtain r st2 where r: "block datas left right1 = Some (window datas left right1)"
          "create_agg_result (window datas left right1) (strategy_count st1) key st1 = Some (r, st2)"
          "represented datas right1 right1 st2" "agg_record_time_info r = window datas left right1"
        by (rule block_result [OF rp lt le, where key = key])
      obtain rs' where rs': "judge_loop agg frame key datas right1 right1 st2 = Some rs'" "rs = r # rs'"
        using 1(6) judge_loop_report [OF True ext sel r(1,2)] by auto
      have "right < right1 \<or> right = left"
      proof (rule ccontr)
        assume "\<not> ?thesis"
        then have "right1 = right" "right \<noteq> left" using props(1) by auto
        with 1(5) right repr_count [OF rp] sel show False by (simp add: unsatisfied_def)
      qed
      then have "is_in_timeframe left (right1 - 1) frame datas"
        using props(3) lt by auto
      then have "rec_time (datas ! (right1 - 1)) - rec_time (datas ! left) \<le> frame * 10 ^ 9"
        by (simp only: is_in_timeframe_exact)
      moreover have "\<forall>r \<in> set rs'. \<exists>i j. i < j \<and> j \<le> length datas \<and> agg_record_time_info r = window datas i j \<and>
          rec_time (datas ! (j - 1)) - rec_time (datas ! i) \<le> frame * 10 ^ 9"
        using 1(1) [OF True ext [symmetric] refl sel r(1,2) refl r(3) 1(4) _ rs'(1)]
        by (simp add: unsatisfied_def)
      ultimately show ?thesis
        using rs'(2) r(4) lt le by auto
    qed
  qed
qed

end

subsection \<open>The two strategies\<close>

definition nofield_repr :: "strategy \<Rightarrow> agg_record list \<Rightarrow> bool" where
  "nofield_repr s xs \<longleftrightarrow> s = NoFieldStrategy (int (length xs))"

definition record_count :: "agg_record list \<Rightarrow> int" where
  "record_count xs = int (length xs)"

interpretation nofield: length_strategy nofield_repr record_count
proof unfold_locales
  fix s d ds key
  assume "nofield_repr s (d # ds)"
  then show "\<exists>r s'. create_agg_result (d # ds) (strategy_count s) key s = Some (r, s') \<and> nofield_repr s' [] \<and>
      agg_record_time_info r = d # ds \<and> agg_data r = record_count (d # ds) \<and> agg_key r = key \<and>
      start_timedate r = rec_time d \<and> set (field_values r) \<subseteq> set (map field_value (d # ds))"
    by (simp add: nofield_repr_def record_count_def agg_result_new_def)
qed (auto simp: nofield_repr_def record_count_def length_window)

definition occurrences :: "string \<Rightarrow> agg_record list \<Rightarrow> nat" where
  "occurrences v xs = count_list (map field_value xs) v"

definition value_table :: "agg_record list \<Rightarrow> string \<rightharpoonup> int" where
  "value_table xs v = (if occurrences v xs = 0 then None else Some (int (occurrences v xs)))"

definition field_repr :: "strategy \<Rightarrow> agg_record list \<Rightarrow> bool" where
  "field_repr s xs \<longleftrightarrow> (\<exists>m. s = FieldStrategy m \<and> distinct (map fst m) \<and> map_of m = value_table xs)"

lemma occurrences_simps [agg_simps]:
  "occurrences v [] = 0"
  "occurrences v (d # xs) = (if field_value d = v then Suc (occurrences v xs) else occurrences v xs)"
  "occurrences v (xs @ [d]) = (if field_value d = v then Suc (occurrences v xs) else occurrences v xs)"
  by (simp_all add: occurrences_def)

lemma value_table_dom: "dom (value_table xs) = field_value ` set xs"
  by (auto simp: value_table_def occurrences_def count_list_0_iff split: if_splits)

definition value_count :: "agg_record list \<Rightarrow> int" where
  "value_count xs = int (card (set (map field_value xs)))"

lemma map_of_assoc_remove: "map_of (assoc_remove k m) = (map_of m)(k := None)"
  by (induction m) (auto simp: assoc_remove_def fun_eq_iff)

lemma distinct_assoc_remove: "distinct (map fst m) \<Longrightarrow> distinct (map fst (assoc_remove k m))"
  by (simp add: assoc_remove_def distinct_map_filter)

lemma field_repr_keys:
  assumes "field_repr (FieldStrategy m) xs"
  shows "set (map fst m) = set (map field_value xs)" and "length m = card (set (map field_value xs))"
proof -
  have m: "distinct (map fst m)" "map_of m = value_table xs"
    using assms by (auto simp: field_repr_def)
  then show keys: "set (map fst m) = set (map field_value xs)"
    using value_table_dom [of xs] by (simp add: dom_map_of_conv_image_fst [symmetric])
  show "length m = card (set (map field_value xs))"
    using distinct_card [OF m(1)] keys by simp
qed

lemma field_repr_add:
  assumes "field_repr s xs"
  shows "field_repr (add_value s d) (xs @ [d])"
proof -
  obtain m where s: "s = FieldStrategy m" and m: "distinct (map fst m)" "map_of m = value_table xs"
    using assms by (auto simp: field_repr_def)
  let ?n = "case value_table xs (field_value d) of Some n \<Rightarrow> n + 1 | None \<Rightarrow> 1"
  have "add_value s d = FieldStrategy (assoc_insert (field_value d) ?n m)"
    by (simp add: s m(2) split: option.split)
  moreover have "(value_table xs)(field_value d \<mapsto> ?n) = value_table (xs @ [d])"
    by (auto simp: fun_eq_iff value_table_def occurrences_simps)
  ultimately show ?thesis
    using m distinct_assoc_insert [OF m(1)] by (simp add: field_repr_def)
qed

lemma field_repr_remove:
  assumes "field_repr s (d # xs)"
  shows "field_repr (remove_value s d) xs"
proof -
  obtain m where s: "s = FieldStrategy m" and m: "distinct (map fst m)" "map_of m = value_table (d # xs)"
    using assms by (auto simp: field_repr_def)
  let ?v = "field_value d"
  have at: "map_of m ?v = Some (int (Suc (occurrences ?v xs)))"
    by (simp add: m(2) value_table_def occurrences_simps)
  show ?thesis
  proof (cases "occurrences ?v xs = 0")
    case True
    then have "remove_value s d = FieldStrategy (assoc_remove ?v m)" using at by (simp add: s)
    moreover have "(value_table (d # xs))(?v := None) = value_table xs"
      using True by (auto simp: fun_eq_iff value_table_def occurrences_simps)
    ultimately show ?thesis
      using m by (simp add: field_repr_def map_of_assoc_remove distinct_assoc_remove)
  next
    case False
    then have "remove_value s d = FieldStrategy (assoc_insert ?v (int (occurrences ?v xs)) m)"
      using at by (simp add: s)
    moreover have "(value_table (d # xs))(?v \<mapsto> int (occurrences ?v xs)) = value_table xs"
      using False by (auto simp: fun_eq_iff value_table_def occurrences_simps)
    ultimately show ?thesis
      using m distinct_assoc_insert [OF m(1)] by (simp add: field_repr_def)
  qed
qed

interpretation field: count_strategy field_repr value_count
proof unfold_locales
  show "field_repr s xs \<Longrightarrow> field_repr (add_value s d) (xs @ [d])" for s xs d
    by (rule field_repr_add)
  show "field_repr s (d # xs) \<Longrightarrow> field_repr (remove_value s d) xs" for s xs d
    by (rule field_repr_remove)
next
  fix s xs
  assume "field_repr s xs"
  then show "strategy_count s = value_count xs"
    using field_repr_keys(2) by (cases s) (auto simp: value_count_def field_repr_def)
next
  fix s d ds key
  assume r: "field_repr s (d # ds)"
  then obtain m where s: "s = FieldStrategy m" by (auto simp: field_repr_def)
  have "field_repr (FieldStrategy []) []" by (simp add: field_repr_def value_table_def occurrences_def fun_eq_iff)
  with r show "\<exists>r s'. create_agg_result (d # ds) (strategy_count s) key s = Some (r, s') \<and> field_repr s' [] \<and>
      agg_record_time_info r = d # ds \<and> agg_data r = value_count (d # ds) \<and> agg_key r = key \<and>
      start_timedate r = rec_time d \<and> set (field_values r) \<subseteq> set (map field_value (d # ds))"
    using field_repr_keys [of m "d # ds"]
    by (simp add: s agg_result_new_def value_count_def)
next
  fix datas l r l' r'
  assume "set (window datas l r) \<subseteq> set (window datas l' r')"
  then show "value_count (window datas l r) \<le> value_count (window datas l' r')"
    by (auto simp: value_count_def intro!: card_mono image_mono)
qed

subsection \<open>Properties of the evaluation\<close>

definition time_sorted :: "agg_record list \<Rightarrow> agg_record list" where
  "time_sorted ds = sort_key rec_time ds"

definition effective_frame :: "rule_node \<Rightarrow> agg_record list \<Rightarrow> int" where
  "effective_frame rule ds =
     unwrap_or (timestamp (rec_time (last (time_sorted ds))) - timestamp (rec_time (hd (time_sorted ds))))
       (get_sec_timeframe rule)"

definition aggregate :: "agg_info \<Rightarrow> agg_record list \<Rightarrow> int" where
  "aggregate agg xs =
     (if field_name agg = None then int (length xs) else int (card (set (map field_value xs))))"

lemma judge_timeframe_loop:
  assumes "get_agg_condition rule = Some agg" and "ds \<noteq> []"
  shows "judge_timeframe rule ds key =
     judge_loop agg (effective_frame rule ds) key (time_sorted ds) 0 0 (create_counter agg)"
  using assms by (simp add: judge_timeframe_def effective_frame_def time_sorted_def Let_def)

lemma create_counter_represented:
  "field_name agg = None \<Longrightarrow> nofield.represented datas 0 0 (create_counter agg)"
  "field_name agg \<noteq> None \<Longrightarrow> field.represented datas 0 0 (create_counter agg)"
  by (simp_all add: nofield.represented_def field.represented_def create_counter_def window_empty
      nofield_repr_def field_repr_def value_table_def occurrences_def fun_eq_iff)

lemma judge_timeframe_reports:
  assumes agg: "get_agg_condition rule = Some agg" and frame: "0 \<le> effective_frame rule ds"
  shows "\<exists>rs. judge_timeframe rule ds key = Some rs \<and> segments (time_sorted ds) 0 rs \<and>
     list_all (\<lambda>r. select_aggcon (agg_data r) (Some agg) \<and>
        agg_data r = aggregate agg (agg_record_time_info r) \<and> agg_key r = key \<and>
        start_timedate r = rec_time (hd (agg_record_time_info r))) rs"
proof (cases "ds = []")
  case True
  then show ?thesis by (simp add: judge_timeframe_def)
next
  case False
  note loop = judge_timeframe_loop [OF agg False, of key]
  show ?thesis
  proof (cases "field_name agg = None")
    case True
    from nofield.judge_loop_sound [OF create_counter_represented(1) [OF True] frame, of agg key "time_sorted ds"]
    show ?thesis
      using True by (simp add: loop nofield.result_ok_def [abs_def] record_count_def aggregate_def)
  next
    case nf: False
    from field.judge_loop_sound [OF create_counter_represented(2) [OF nf] frame, of agg key "time_sorted ds"]
    moreover obtain f where "field_name agg = Some f" using nf by auto
    ultimately show ?thesis
      by (simp add: loop field.result_ok_def [abs_def] value_count_def aggregate_def)
  qed
qed

text \<open>
  C3: For a rule with an aggregation condition and a time frame that is not negative, the
  evaluation of a group of records returns (it cannot panic), and what it reports is sound:
  the blocks are consecutive slices of the records in time order that do not overlap, each
  carries the group key and the time of its first record, its number is the number of its
  records (or of the distinct values of the count field among them), and that number
  satisfies the condition.
\<close>

theorem judge_timeframe_sound:
  assumes "get_agg_condition rule = Some agg" and "0 \<le> effective_frame rule ds"
  shows "\<exists>rs. judge_timeframe rule ds key = Some rs \<and> segments (time_sorted ds) 0 rs \<and>
     list_all (\<lambda>r. select_aggcon (agg_data r) (Some agg) \<and>
        agg_data r = aggregate agg (agg_record_time_info r) \<and> agg_key r = key \<and>
        start_timedate r = rec_time (hd (agg_record_time_info r))) rs"
  by (rule judge_timeframe_reports [OF assms])

definition sample_record :: "string \<Rightarrow> int \<Rightarrow> agg_record" where
  "sample_record v t = \<lparr>field_value = v, rec_time = t, rec_event_id = ''1'', rec_computer = ''c'',
     rec_channel = ''Security'', rec_file = ''a.evtx''\<rparr>"

definition sample_rule :: "string option \<Rightarrow> agg_token \<Rightarrow> int \<Rightarrow> time_frame_info option \<Rightarrow> rule_node" where
  "sample_rule f op n tf = \<lparr>rulepath = ''r.yml'', rule_yaml = YNull,
     detection = detection_new_with_data [] None
       (Some \<lparr>field_name = f, by_field_name = None, cmp_op = op, cmp_num = n\<rparr>) tf,
     countdata = [], correlation = NoCorrelation\<rparr>"

definition seconds :: "int \<Rightarrow> time_frame_info option" where
  "seconds n = Some \<lparr>timetype = ''s'', timenum = Some n\<rparr>"

lemma sample_rule_simps [agg_simps]:
  "get_agg_condition (sample_rule f op n tf) =
     Some \<lparr>field_name = f, by_field_name = None, cmp_op = op, cmp_num = n\<rparr>"
  "effective_frame (sample_rule f op n (seconds k)) ds = k"
  by (simp_all add: sample_rule_def get_agg_condition_def detection_new_with_data_def seconds_def
      effective_frame_def get_sec_timeframe_def)

theorem judge_timeframe_sound_witness:
  "\<exists>rs. judge_timeframe (sample_rule None GE 2 (seconds 60)) [sample_record ''a'' 0, sample_record ''b'' 5] ''_'' = Some rs \<and>
     segments (time_sorted [sample_record ''a'' 0, sample_record ''b'' 5]) 0 rs \<and>
     list_all (\<lambda>r. select_aggcon (agg_data r) (Some \<lparr>field_name = None, by_field_name = None, cmp_op = GE, cmp_num = 2\<rparr>) \<and>
        agg_data r = aggregate \<lparr>field_name = None, by_field_name = None, cmp_op = GE, cmp_num = 2\<rparr> (agg_record_time_info r) \<and>
        agg_key r = ''_'' \<and> start_timedate r = rec_time (hd (agg_record_time_info r))) rs"
proof (rule judge_timeframe_sound)
  show "0 \<le> effective_frame (sample_rule None GE 2 (seconds 60)) [sample_record ''a'' 0, sample_record ''b'' 5]"
    by (simp add: sample_rule_simps)
qed (simp add: sample_rule_simps)

text \<open>
  C10: A rule that counts records (without a count field) reports no block longer than its time
  frame: from the first record of a block to its last no more than the frame passes, to the
  nanosecond.
\<close>

theorem judge_timeframe_in_frame:
  assumes "get_agg_condition rule = Some agg" and "field_name agg = None"
    and "0 \<le> effective_frame rule ds" and "judge_timeframe rule ds key = Some rs" and "r \<in> set rs"
  shows "agg_record_time_info r \<noteq> [] \<and>
     rec_time (last (agg_record_time_info r)) - rec_time (hd (agg_record_time_info r))
       \<le> effective_frame rule ds * 10 ^ 9"
proof -
  let ?datas = "time_sorted ds"
  have ne: "ds \<noteq> []" using assms(4,5) by (auto simp: judge_timeframe_def)
  have "nofield.unsatisfied agg ?datas 0 0" by (simp add: nofield.unsatisfied_def)
  from nofield.judge_loop_in_frame [OF create_counter_represented(1) [OF assms(2)] assms(3) this
      assms(4) [unfolded judge_timeframe_loop [OF assms(1) ne]]] assms(5)
  obtain i j where ij: "i < j" "j \<le> length ?datas" "agg_record_time_info r = window ?datas i j"
    and fr: "rec_time (?datas ! (j - 1)) - rec_time (?datas ! i) \<le> effective_frame rule ds * 10 ^ 9"
    by auto
  have "window ?datas i j = ?datas ! i # window ?datas (Suc i) j"
    using ij by (intro window_cons) auto
  moreover have "window ?datas i j = window ?datas i (j - 1) @ [?datas ! (j - 1)]"
    using window_snoc [of i "j - 1" ?datas] ij by auto
  ultimately show ?thesis
    using fr ij(3) by (metis last_snoc list.sel(1) snoc_eq_iff_butlast)
qed

theorem judge_timeframe_in_frame_witness:
  "\<exists>rs. judge_timeframe (sample_rule None GE 2 (seconds 60)) [sample_record ''a'' 0, sample_record ''b'' 5] ''_'' = Some rs \<and>
     rs \<noteq> [] \<and> rec_time (last (agg_record_time_info (hd rs))) - rec_time (hd (agg_record_time_info (hd rs))) \<le> 60 * 10 ^ 9"
proof -
  let ?ds = "[sample_record ''a'' 0, sample_record ''b'' 5]"
  let ?r = "\<lparr>agg_data = 2, agg_key = ''_'', field_values = [], start_timedate = 0, agg_record_time_info = ?ds\<rparr>"
  have e: "judge_timeframe (sample_rule None GE 2 (seconds 60)) ?ds ''_'' = Some [?r]"
    by code_simp
  from judge_timeframe_in_frame [OF _ _ _ e, of _ ?r]
  have "rec_time (last (agg_record_time_info ?r)) - rec_time (hd (agg_record_time_info ?r)) \<le> 60 * 10 ^ 9"
    by (simp add: sample_rule_simps)
  with e show ?thesis by simp
qed

lemma judge_timeframe_misses_nothing:
  assumes "get_agg_condition rule = Some agg" and "cmp_op agg = GE \<or> cmp_op agg = GT"
    and "0 \<le> effective_frame rule ds" and "a < b" and "b \<le> length ds"
    and "rec_time (time_sorted ds ! (b - 1)) - rec_time (time_sorted ds ! a) \<le> effective_frame rule ds * 10 ^ 9"
    and "select_aggcon (aggregate agg (window (time_sorted ds) a b)) (Some agg)"
  shows "\<exists>r rs. judge_timeframe rule ds key = Some (r # rs)"
proof -
  let ?datas = "time_sorted ds"
  have ne: "ds \<noteq> []" using assms(4,5) by auto
  have len: "length ?datas = length ds" "sorted (map rec_time ?datas)" by (simp_all add: time_sorted_def)
  have fr: "is_in_timeframe a (b - 1) (effective_frame rule ds) ?datas"
    using assms(6) by (simp add: is_in_timeframe_exact)
  have mono: "select_aggcon n (Some agg)" if "m \<le> n" "select_aggcon m (Some agg)" for m n
    using that assms(2) by (auto simp: select_aggcon_def)
  have "judge_timeframe rule ds key \<noteq> Some []"
  proof (cases "field_name agg = None")
    case True
    show ?thesis
      unfolding judge_timeframe_loop [OF assms(1) ne]
      by (rule nofield.judge_loop_complete [OF create_counter_represented(1) [OF True] assms(3) len(2) _ assms(4) _ fr])
         (use assms(5,7) True mono len in \<open>auto simp: aggregate_def record_count_def\<close>)
  next
    case False
    show ?thesis
      unfolding judge_timeframe_loop [OF assms(1) ne]
      by (rule field.judge_loop_complete [OF create_counter_represented(2) [OF False] assms(3) len(2) _ assms(4) _ fr])
         (use assms(5,7) False mono len in \<open>auto simp: aggregate_def value_count_def\<close>)
  qed
  moreover obtain rs where "judge_timeframe rule ds key = Some rs"
    using judge_timeframe_reports [OF assms(1,3), of key] by blast
  ultimately show ?thesis by (cases rs) auto
qed

text \<open>
  C4: Nothing is missed when more records cannot make the condition false (\<open>>=\<close> and \<open>>\<close>): if
  some run of consecutive records in time order fits into the time frame and its number
  satisfies the condition, at least one block is reported, for record counts and for counts
  of distinct values alike.
\<close>

theorem judge_timeframe_complete:
  assumes "get_agg_condition rule = Some agg" and "cmp_op agg = GE \<or> cmp_op agg = GT"
    and "0 \<le> effective_frame rule ds" and "a < b" and "b \<le> length ds"
    and "rec_time (time_sorted ds ! (b - 1)) - rec_time (time_sorted ds ! a) \<le> effective_frame rule ds * 10 ^ 9"
    and "select_aggcon (aggregate agg (window (time_sorted ds) a b)) (Some agg)"
  shows "\<exists>r rs. judge_timeframe rule ds key = Some (r # rs)"
  by (rule judge_timeframe_misses_nothing [OF assms])

theorem judge_timeframe_complete_witness:
  "\<exists>r rs. judge_timeframe (sample_rule (Some ''User'') GE 2 (seconds 60))
     [sample_record ''b'' 5, sample_record ''a'' 0] ''_'' = Some (r # rs)"
proof (rule judge_timeframe_complete [where a = 0 and b = 2])
  let ?ds = "[sample_record ''b'' 5, sample_record ''a'' 0]"
  show "rec_time (time_sorted ?ds ! (2 - 1)) - rec_time (time_sorted ?ds ! 0)
      \<le> effective_frame (sample_rule (Some ''User'') GE 2 (seconds 60)) ?ds * 10 ^ 9"
    by code_simp
  show "select_aggcon (aggregate \<lparr>field_name = Some ''User'', by_field_name = None, cmp_op = GE, cmp_num = 2\<rparr>
      (window (time_sorted ?ds) 0 2)) (Some \<lparr>field_name = Some ''User'', by_field_name = None, cmp_op = GE, cmp_num = 2\<rparr>)"
    by code_simp
qed (simp_all add: sample_rule_simps)

text \<open>
  A rule that counts distinct values can report a block longer than its time frame. With a
  frame of ten seconds and the condition that two values occur, records at 0 s and 1 s with
  one value and at 100 s with another are reported as the block from 1 s to 100 s: the branch
  that moves the window adds the next record without testing the frame, and the count of
  distinct values can rise by it.
\<close>

theorem judge_timeframe_field_exceeds:
  "map_option (map (\<lambda>r. map rec_time (agg_record_time_info r)))
     (judge_timeframe (sample_rule (Some ''User'') GE 2 (seconds 10))
        [sample_record ''a'' 0, sample_record ''a'' (10 ^ 9), sample_record ''b'' (100 * 10 ^ 9)] ''_'') =
   Some [[10 ^ 9, 100 * 10 ^ 9]]"
  by code_simp

text \<open>
  Without a time frame the whole group is meant to be one window, but the default is
  computed in whole seconds: two records half a second apart that start on a full second
  satisfy \<open>count() >= 2\<close>, and nothing is reported.
\<close>

theorem judge_timeframe_default_truncates:
  "judge_timeframe (sample_rule None GE 2 None) [sample_record ''a'' 0, sample_record ''b'' 500000000] ''_'' = Some []"
  by code_simp

text \<open>
  A negative time frame makes the evaluation panic as soon as an empty window satisfies the
  condition: \<open>count() < 3\<close> with the time frame \<open>-5s\<close> fails on the first record of an empty block.
\<close>

theorem judge_timeframe_negative_panics:
  "Some (fst (parse_tframe ''-5s'' quiet log)) = seconds (- 5) \<and>
   judge_timeframe (sample_rule None LT 3 (seconds (- 5))) [sample_record ''a'' 0] ''_'' = None"
proof
  have "ends_with ''-5s'' ''s''" by (simp add: ends_with_def)
  moreover have "parse_i64 ''-5'' = Some (- 5)"
    by (simp add: parse_i64_def parse_digits_def is_digit_def byte_def)
  ultimately show "Some (fst (parse_tframe ''-5s'' quiet log)) = seconds (- 5)"
    by (simp add: parse_tframe_def seconds_def)
  show "judge_timeframe (sample_rule None LT 3 (seconds (- 5))) [sample_record ''a'' 0] ''_'' = None"
    by code_simp
qed

end
