(* ===== verification/Rule_Node.thy ===== *)
theory Rule_Node
  imports Count Condition_Compile
begin

section \<open>Rules (rule/mod.rs)\<close>

text \<open>
  Loading the detection part of a rule from its YAML, selecting an event with it, and the
  field names it reads. A panic (\<open>None\<close> or \<open>Panic\<close>) is a hash key that is no string or a
  panic of a matcher's \<open>init\<close>.
\<close>

subsection \<open>Selections\<close>

function parse_selection_recursively :: "string list \<Rightarrow> yaml \<Rightarrow> snode option" where
  "parse_selection_recursively kl y =
     (case y of
        YHash h \<Rightarrow>
          map_option AndNode
            (those (map (\<lambda>e. case as_str (fst e) of
                               None \<Rightarrow> None
                             | Some k \<Rightarrow> parse_selection_recursively (kl @ [k]) (snd e)) h))
      | YArray ys \<Rightarrow>
          (let childs = those (map (parse_selection_recursively kl) ys) in
           if length kl = 1 \<and> hd kl = ''|all'' then map_option AllNode childs
           else if list_ex (\<lambda>k. contains_str k ''|all'') kl then map_option AndNode childs
           else map_option OrNode childs)
      | _ \<Rightarrow> Some (LeafNode (new_leaf kl y)))"
  by pat_completeness auto
termination
  by (relation "measure (\<lambda>(kl, y). size y)")
     (auto simp del: yaml.size intro: size_yaml_hash_value size_yaml_array_elem)

declare parse_selection_recursively.simps [simp del]

text \<open>The loop over the keys of the detection: the table of nodes, and the errors of all.\<close>

fun parse_names ::
  "env \<Rightarrow> (yaml \<times> yaml) list \<Rightarrow> (string \<times> snode) list \<times> string list \<Rightarrow> ((string \<times> snode) list \<times> string list) option" where
  "parse_names E [] st = Some st"
| "parse_names E ((k, v) # rest) (names, errs) =
     (let name = unwrap_or [] (as_str k) in
      if name = [] \<or> name = ''condition'' \<or> name = ''timeframe'' then parse_names E rest (names, errs)
      else (case parse_selection_recursively [] v of
              None \<Rightarrow> None
            | Some node \<Rightarrow>
                (case node_init E node of
                   Panic \<Rightarrow> None
                 | Err e \<Rightarrow> parse_names E rest (names, errs @ e)
                 | Ok node' \<Rightarrow> parse_names E rest (assoc_insert name node' names, errs))))"

definition parse_name_to_selection :: "env \<Rightarrow> yaml \<Rightarrow> (string list, (string \<times> snode) list) outcome" where
  "parse_name_to_selection E y =
     (case as_hash y of
        None \<Rightarrow> Err [''Detection node was not found.'']
      | Some h \<Rightarrow>
          (case parse_names E h ([], []) of
             None \<Rightarrow> Panic
           | Some (names, errs) \<Rightarrow>
               (if errs \<noteq> [] then Err errs
                else if names = [] then Err [''There is no selection node under detection.'']
                else Ok names)))"

subsection \<open>Initialisation\<close>

definition parse_timeframe ::
  "yaml \<Rightarrow> bool \<Rightarrow> string list \<Rightarrow> time_frame_info option \<times> string list" where
  "parse_timeframe y quiet log =
     (case as_str (yindex y ''timeframe'') of
        None \<Rightarrow> (None, log)
      | Some v \<Rightarrow> (case parse_tframe v quiet log of (t, log') \<Rightarrow> (Some t, log')))"

definition condition_text :: "yaml \<Rightarrow> (string \<times> snode) list \<Rightarrow> string option" where
  "condition_text y names =
     (case as_str (yindex y ''condition'') of
        Some s \<Rightarrow> Some s
      | None \<Rightarrow> if length names \<ge> 2 then None else Some (fst (hd names)))"

definition compile_detection ::
  "env \<Rightarrow> (string \<times> snode) list \<Rightarrow> time_frame_info option \<Rightarrow> string \<Rightarrow> (string list, detection_node) outcome" where
  "compile_detection E names tf condition_str =
     (case (compile_condition E condition_str names, agg_compile E condition_str) of
        (Inr node, Inr info) \<Rightarrow> Ok (detection_new_with_data names (Some node) info tf)
      | (Inl e, Inr _) \<Rightarrow> Err [e]
      | (Inr _, Inl e) \<Rightarrow> Err [e]
      | (Inl e, Inl e') \<Rightarrow> Err [e, e'])"

definition detection_init ::
  "env \<Rightarrow> yaml \<Rightarrow> bool \<Rightarrow> string list \<Rightarrow> (string list, detection_node) outcome \<times> string list" where
  "detection_init E y quiet log =
     (case parse_name_to_selection E y of
        Panic \<Rightarrow> (Panic, log)
      | Err e \<Rightarrow> (Err e, log)
      | Ok names \<Rightarrow>
          (case parse_timeframe y quiet log of (tf, log') \<Rightarrow>
             (case condition_text y names of
                None \<Rightarrow> (Err [''There is no condition node under detection.''], log')
              | Some condition_str \<Rightarrow> (compile_detection E names tf condition_str, log'))))"

definition rule_init :: "env \<Rightarrow> rule_node \<Rightarrow> bool \<Rightarrow> string list \<Rightarrow> (string list, rule_node) outcome \<times> string list" where
  "rule_init E rule quiet log =
     (if yindex (rule_yaml rule) ''correlation'' \<noteq> YBadValue then (Ok rule, log)
      else (case detection_init E (yindex (rule_yaml rule) ''detection'') quiet log of
              (r, log') \<Rightarrow> (map_outcome (\<lambda>d. rule\<lparr>detection := d\<rparr>) r, log')))"

subsection \<open>Selecting events\<close>

definition detection_select :: "env \<Rightarrow> alias_config \<Rightarrow> detection_node \<Rightarrow> recinfo \<Rightarrow> bool option" where
  "detection_select E c d rec =
     (case cond_node d of None \<Rightarrow> Some False | Some n \<Rightarrow> node_select E c rec n)"

definition rule_select ::
  "env \<Rightarrow> alias_config \<Rightarrow> rule_node \<Rightarrow> recinfo \<Rightarrow> bool \<Rightarrow> bool \<Rightarrow> string list \<Rightarrow>
   (bool \<times> rule_node \<times> string list) option" where
  "rule_select E c rule rec quiet json_input_flag log =
     (case detection_select E c (detection rule) rec of
        None \<Rightarrow> None
      | Some result \<Rightarrow>
          (if result \<and> has_agg_condition rule
           then map_option (\<lambda>(rule', log'). (result, rule', log')) (count E c rule rec quiet json_input_flag log)
           else Some (result, rule, log)))"

definition node_keys :: "snode \<Rightarrow> string list" where
  "node_keys n = (case n of LeafNode l \<Rightarrow> filter (\<lambda>k. k \<noteq> []) (leaf_get_keys l) | _ \<Rightarrow> [])"

definition get_detection_keys :: "rule_node \<Rightarrow> string list" where
  "get_detection_keys rule =
     concat (map (\<lambda>e. concat (map node_keys (get_descendants (snd e)))) (name_to_selection (detection rule)))"

subsection \<open>What initialisation establishes\<close>

lemma those_Some_iff: "those xs = Some ys \<longleftrightarrow> xs = map Some ys"
  by (induction xs arbitrary: ys) (auto split: option.splits)

lemma parse_selection_scalar:
  "as_hash y = None \<Longrightarrow> as_vec y = None \<Longrightarrow>
     parse_selection_recursively kl y = Some (LeafNode (new_leaf kl y))"
  unfolding parse_selection_recursively.simps [of kl y] by (cases y) auto

lemma parse_selection_tree: "parse_selection_recursively kl y = Some n \<Longrightarrow> selection_tree n"
proof (induction kl y arbitrary: n rule: parse_selection_recursively.induct)
  case (1 kl y)
  show ?case
  proof (cases y)
    case (YHash h)
    with 1(3) obtain ns where n: "n = AndNode ns"
      and ns: "map (\<lambda>e. case as_str (fst e) of None \<Rightarrow> None
                 | Some k \<Rightarrow> parse_selection_recursively (kl @ [k]) (snd e)) h = map Some ns"
      by (subst (asm) parse_selection_recursively.simps) (auto simp: those_Some_iff)
    have "selection_tree m" if "m \<in> set ns" for m
    proof -
      have "Some m \<in> set (map Some ns)" using that by simp
      then obtain e k where "e \<in> set h" "as_str (fst e) = Some k"
        "parse_selection_recursively (kl @ [k]) (snd e) = Some m"
        unfolding ns [symmetric] by (auto split: option.splits)
      with 1(2) [OF YHash] show ?thesis by blast
    qed
    then show ?thesis by (simp add: n list_all_iff)
  next
    case (YArray ys)
    with 1(3) obtain ns where n: "n = AllNode ns \<or> n = AndNode ns \<or> n = OrNode ns"
      and ns: "map (parse_selection_recursively kl) ys = map Some ns"
      by (subst (asm) parse_selection_recursively.simps) (auto simp: those_Some_iff Let_def split: if_splits)
    have "selection_tree m" if "m \<in> set ns" for m
    proof -
      have "Some m \<in> set (map Some ns)" using that by simp
      then obtain e where "e \<in> set ys" "parse_selection_recursively kl e = Some m"
        unfolding ns [symmetric] by auto
      with 1(1) [OF YArray] show ?thesis by blast
    qed
    then show ?thesis using n by (auto simp: list_all_iff)
  qed (use 1(3) parse_selection_scalar [of y kl] in auto)
qed

definition names_ready :: "(string \<times> snode) list \<Rightarrow> bool" where
  "names_ready names \<longleftrightarrow> (\<forall>e \<in> set names. node_ready (snd e))"

lemma set_assoc_insert: "set (assoc_insert k v xs) \<subseteq> insert (k, v) (set xs)"
  by (induction k v xs rule: assoc_insert.induct) auto

lemma parse_names_ready:
  "parse_names E h st = Some (names, errs) \<Longrightarrow> names_ready (fst st) \<Longrightarrow> names_ready names"
proof (induction E h st rule: parse_names.induct)
  case (2 E k v rest names0 errs0)
  let ?name = "unwrap_or [] (as_str k)"
  show ?case
  proof (cases "?name = [] \<or> ?name = ''condition'' \<or> ?name = ''timeframe''")
    case True
    with 2 show ?thesis by simp
  next
    case False
    with "2.prems"(1) obtain node where node: "parse_selection_recursively [] v = Some node"
      by (cases "parse_selection_recursively [] v") (simp_all add: Let_def)
    show ?thesis
    proof (cases "node_init E node")
      case (Ok node')
      from node_init_ready [OF parse_selection_tree [OF node] Ok]
      have "names_ready (assoc_insert ?name node' names0)"
        using "2.prems"(2) set_assoc_insert [of ?name node' names0] by (auto simp: names_ready_def)
      with "2.IH" "2.prems"(1) False node Ok show ?thesis by (simp add: Let_def)
    next
      case (Err e)
      with "2.IH" "2.prems" False node show ?thesis by (simp add: Let_def)
    next
      case Panic
      with "2.prems"(1) False node show ?thesis by (simp add: Let_def)
    qed
  qed
qed simp

lemma parse_name_to_selection_ready:
  "parse_name_to_selection E y = Ok names \<Longrightarrow> names_ready names \<and> names \<noteq> []"
  using parse_names_ready [of E _ "([], [])" names]
  by (fastforce simp: parse_name_to_selection_def names_ready_def split: option.splits if_splits)

text \<open>The condition's node has no leaves but those of the selections it names.\<close>

lemma into_selection_node_ready:
  "names_ready names \<Longrightarrow> into_selection_node names t = Inr n \<Longrightarrow> node_ready n"
proof (induction t arbitrary: n)
  case (SelectionReference x)
  then show ?case
    by (auto simp: names_ready_def node_ready_def split: option.splits dest!: map_of_SomeD)
next
  case (AndContainer ts)
  then show ?case
    by (auto simp: bind_result_Inr_iff map_result_Inr_iff node_ready_def list_all2_conv_all_nth in_set_conv_nth)
       (metis in_set_conv_nth node_ready_def)
next
  case (OrContainer ts)
  then show ?case
    by (auto simp: bind_result_Inr_iff map_result_Inr_iff node_ready_def list_all2_conv_all_nth in_set_conv_nth)
       (metis in_set_conv_nth node_ready_def)
qed (auto simp: bind_result_Inr_iff node_ready_def)

lemma compile_condition_ready:
  "names_ready names \<Longrightarrow> compile_condition E s names = Inr n \<Longrightarrow> node_ready n"
  by (auto simp: compile_condition_def compile_condition_body_def Let_def bind_result_Inr_iff
      split: sum.splits intro: into_selection_node_ready)

lemma detection_init_cases:
  assumes "detection_init E y quiet log = (Ok d, log')"
  obtains names condition_str node info tf where
    "parse_name_to_selection E y = Ok names" "condition_text y names = Some condition_str"
    "compile_condition E condition_str names = Inr node" "agg_compile E condition_str = Inr info"
    "d = detection_new_with_data names (Some node) info tf"
  using assms
  by (auto simp: detection_init_def compile_detection_def split: outcome.splits prod.splits option.splits sum.splits)

lemma detection_init_ready:
  assumes "detection_init E y quiet log = (Ok d, log')"
  shows "names_ready (name_to_selection d) \<and> (\<forall>n. cond_node d = Some n \<longrightarrow> node_ready n)"
proof -
  obtain names condition_str node info tf where
    d: "parse_name_to_selection E y = Ok names" "compile_condition E condition_str names = Inr node"
      "d = detection_new_with_data names (Some node) info tf"
    using detection_init_cases [OF assms] by metis
  with parse_name_to_selection_ready [OF d(1)] compile_condition_ready [OF _ d(2)]
  show ?thesis by (simp add: detection_new_with_data_def)
qed

lemma detection_select_total:
  assumes "detection_init E y quiet log = (Ok d, log')"
  shows "detection_select E' c d rec \<noteq> None"
proof (cases "cond_node d")
  case (Some n)
  with detection_init_ready [OF assms] have "node_ready n" by blast
  from node_ready_select [OF this] show ?thesis by (simp add: detection_select_def Some)
qed (simp add: detection_select_def)

subsection \<open>The fields a rule reads\<close>

text \<open>Below an inner node every leaf is a descendant.\<close>

lemma leaf_descendant:
  "selection_tree n \<Longrightarrow> l \<in> set (node_leaves n) \<Longrightarrow> n \<noteq> LeafNode l \<Longrightarrow> LeafNode l \<in> set (get_descendants n)"
proof (induction n)
  case (AndNode ns)
  then obtain m where m: "m \<in> set ns" "l \<in> set (node_leaves m)" by auto
  with AndNode show ?case by (cases "m = LeafNode l") (auto simp: list_all_iff)
next
  case (AllNode ns)
  then obtain m where m: "m \<in> set ns" "l \<in> set (node_leaves m)" by auto
  with AllNode show ?case by (cases "m = LeafNode l") (auto simp: list_all_iff)
next
  case (OrNode ns)
  then obtain m where m: "m \<in> set ns" "l \<in> set (node_leaves m)" by auto
  with OrNode show ?case by (cases "m = LeafNode l") (auto simp: list_all_iff)
qed auto

text \<open>A selection that is a single leaf has no key.\<close>

definition rootless :: "snode \<Rightarrow> bool" where
  "rootless n \<longleftrightarrow> selection_tree n \<and> (\<forall>l. n = LeafNode l \<longrightarrow> leaf_get_keys l = [])"

lemma leaf_keys_collected:
  assumes "rootless n" and "l \<in> set (node_leaves n)" and "k \<in> set (leaf_get_keys l)" and "k \<noteq> []"
  shows "k \<in> set (concat (map node_keys (get_descendants n)))"
proof -
  have "n \<noteq> LeafNode l" using assms(1,3) by (auto simp: rootless_def)
  with leaf_descendant [OF _ assms(2)] assms(1) have "LeafNode l \<in> set (get_descendants n)"
    by (simp add: rootless_def)
  with assms(3,4) show ?thesis by (force simp: node_keys_def)
qed

lemma pipe_keys_Nil: "pipe_keys [] = []"
  by (simp add: pipe_keys_def)

lemma default_init_root_eqfield:
  assumes "default_init E [] y = Ok (DefaultMatcher m)"
  shows "default_get_eqfield_key m = None"
proof -
  have "pipes m = [] \<or> pipes m = [Wildcard]"
    using assms default_finish_keeps
    by (fastforce simp: default_init_def new_default_matcher_def pipe_keys_Nil parse_pipes_def
        split: if_splits option.splits sum.splits)
  then show ?thesis by (auto simp: default_get_eqfield_key_def)
qed

lemma leaf_init_root:
  assumes "leaf_init E (new_leaf [] y) = Ok l"
  shows "leaf_get_keys l = []"
proof -
  have "find_matcher E [] = Some (default_init E [])"
    by (simp add: find_matcher_def minlength_is_target_key_def regexes_is_target_key_def
        allowlist_is_target_key_def default_is_target_key_def)
  with assms obtain m where m: "default_init E [] y = Ok m"
    and l: "leaf_key l = []" "matcher l = Some m"
    by (auto simp: leaf_init_def new_leaf_def create_key_def split: option.splits outcome.splits if_splits)
  show ?thesis
    using m l default_init_root_eqfield by (cases m) (auto simp: leaf_get_keys_def)
qed

lemma parse_selection_leaf:
  assumes "parse_selection_recursively kl y = Some (LeafNode l)"
  shows "l = new_leaf kl y"
  using assms unfolding parse_selection_recursively.simps [of kl y]
  by (cases y) (auto simp: Let_def split: if_splits)

lemma parsed_rootless:
  assumes node: "parse_selection_recursively [] y = Some n" and init: "node_init E n = Ok n'"
  shows "rootless n'"
proof -
  have tree: "selection_tree n'"
    using node_init_ready [OF parse_selection_tree [OF node] init] by blast
  have "leaf_get_keys l' = []" if "n' = LeafNode l'" for l'
  proof (cases n)
    case (LeafNode l)
    with parse_selection_leaf [of "[]" y l] node have "l = new_leaf [] y" by simp
    with LeafNode init that show ?thesis
      by (auto simp: map_outcome_def intro: leaf_init_root split: outcome.splits)
  qed (use init that in \<open>auto simp: map_outcome_def split: outcome.splits\<close>)
  with tree show ?thesis by (simp add: rootless_def)
qed

definition names_rootless :: "(string \<times> snode) list \<Rightarrow> bool" where
  "names_rootless names \<longleftrightarrow> (\<forall>e \<in> set names. rootless (snd e))"

lemma parse_names_rootless:
  "parse_names E h st = Some (names, errs) \<Longrightarrow> names_rootless (fst st) \<Longrightarrow> names_rootless names"
proof (induction E h st rule: parse_names.induct)
  case (2 E k v rest names0 errs0)
  let ?name = "unwrap_or [] (as_str k)"
  show ?case
  proof (cases "?name = [] \<or> ?name = ''condition'' \<or> ?name = ''timeframe''")
    case True
    with 2 show ?thesis by simp
  next
    case False
    with "2.prems"(1) obtain node where node: "parse_selection_recursively [] v = Some node"
      by (cases "parse_selection_recursively [] v") (simp_all add: Let_def)
    show ?thesis
    proof (cases "node_init E node")
      case (Ok node')
      have "names_rootless (assoc_insert ?name node' names0)"
        using "2.prems"(2) set_assoc_insert [of ?name node' names0] parsed_rootless [OF node Ok]
        by (auto simp: names_rootless_def)
      with "2.IH" "2.prems"(1) False node Ok show ?thesis by (simp add: Let_def)
    next
      case (Err e)
      with "2.IH" "2.prems" False node show ?thesis by (simp add: Let_def)
    next
      case Panic
      with "2.prems"(1) False node show ?thesis by (simp add: Let_def)
    qed
  qed
qed simp

lemma detection_keys_complete:
  assumes init: "detection_init E y quiet log = (Ok (detection rule), log')"
    and e: "e \<in> set (name_to_selection (detection rule))" and l: "l \<in> set (node_leaves (snd e))"
    and k: "k \<in> set (leaf_get_keys l)" "k \<noteq> []"
  shows "k \<in> set (get_detection_keys rule)"
proof -
  obtain names node info tf where n: "parse_name_to_selection E y = Ok names"
    and d: "detection rule = detection_new_with_data names (Some node) info tf"
    using detection_init_cases [OF init] by metis
  then have names: "name_to_selection (detection rule) = names" by (simp add: detection_new_with_data_def)
  have "names_rootless names"
    using n parse_names_rootless [of E _ "([], [])" names]
    by (fastforce simp: parse_name_to_selection_def names_rootless_def split: option.splits if_splits)
  then have "\<forall>e \<in> set names. rootless (snd e)" by (simp add: names_rootless_def)
  with e names leaf_keys_collected [OF _ l k] show ?thesis
    by (auto simp: get_detection_keys_def)
qed

subsection \<open>What a verdict depends on\<close>

lemma node_init_leaves:
  assumes P: "\<forall>l l'. leaf_init E l = Ok l' \<longrightarrow> P l'"
  shows "selection_tree n \<Longrightarrow> node_init E n = Ok n' \<Longrightarrow> \<forall>l \<in> set (node_leaves n'). P l"
proof (induction n arbitrary: n')
  case (LeafNode l)
  then show ?case
    using P by (auto simp: map_outcome_def split: outcome.splits)
qed (fastforce simp: map_outcome_def list_all_iff split: outcome.splits dest: collect_outcomes_member)+

lemma parse_names_leaves:
  assumes P: "\<forall>l l'. leaf_init E l = Ok l' \<longrightarrow> P l'"
  shows "parse_names E h st = Some (names, errs) \<Longrightarrow> \<forall>e \<in> set (fst st). \<forall>l \<in> set (node_leaves (snd e)). P l \<Longrightarrow>
    \<forall>e \<in> set names. \<forall>l \<in> set (node_leaves (snd e)). P l"
  using P
proof (induction E h st rule: parse_names.induct)
  case (2 E k v rest names0 errs0)
  let ?name = "unwrap_or [] (as_str k)"
  show ?case
  proof (cases "?name = [] \<or> ?name = ''condition'' \<or> ?name = ''timeframe''")
    case True
    with "2.IH"(1) "2.prems" show ?thesis by simp
  next
    case False
    with "2.prems"(1) obtain node where node: "parse_selection_recursively [] v = Some node"
      by (cases "parse_selection_recursively [] v") (simp_all add: Let_def)
    show ?thesis
    proof (cases "node_init E node")
      case (Ok node')
      have "\<forall>e \<in> set (assoc_insert ?name node' names0). \<forall>l \<in> set (node_leaves (snd e)). P l"
        using "2.prems"(2) set_assoc_insert [of ?name node' names0]
          node_init_leaves [OF "2.prems"(3) parse_selection_tree [OF node] Ok] by fastforce
      with "2.IH" "2.prems"(1,3) False node Ok show ?thesis by (simp add: Let_def)
    next
      case (Err e)
      with "2.IH" "2.prems" False node show ?thesis by (simp add: Let_def)
    next
      case Panic
      with "2.prems"(1) False node show ?thesis by (simp add: Let_def)
    qed
  qed
qed simp

lemma into_selection_node_leaves:
  "into_selection_node names t = Inr n \<Longrightarrow> l \<in> set (node_leaves n) \<Longrightarrow>
     \<exists>e \<in> set names. l \<in> set (node_leaves (snd e))"
proof (induction t arbitrary: n)
  case (SelectionReference x)
  then show ?case by (force split: option.splits dest!: map_of_SomeD)
next
  case (AndContainer ts)
  then obtain ns m where "map_result (into_selection_node names) ts = Inr ns" "m \<in> set ns" "l \<in> set (node_leaves m)"
    by (auto simp: bind_result_Inr_iff)
  with map_result_member AndContainer.IH show ?case by metis
next
  case (OrContainer ts)
  then obtain ns m where "map_result (into_selection_node names) ts = Inr ns" "m \<in> set ns" "l \<in> set (node_leaves m)"
    by (auto simp: bind_result_Inr_iff)
  with map_result_member OrContainer.IH show ?case by metis
qed (auto simp: bind_result_Inr_iff)

lemma compile_condition_leaves:
  "compile_condition E s names = Inr n \<Longrightarrow> l \<in> set (node_leaves n) \<Longrightarrow>
     \<exists>e \<in> set names. l \<in> set (node_leaves (snd e))"
  by (auto simp: compile_condition_def compile_condition_body_def Let_def bind_result_Inr_iff
      split: sum.splits dest: into_selection_node_leaves)

text \<open>An initialised leaf reads the record under its own key and its matcher's field only.\<close>

definition leaf_keyed :: "leaf \<Rightarrow> bool" where
  "leaf_keyed l \<longleftrightarrow>
     (\<forall>m. matcher l = Some (DefaultMatcher m) \<longrightarrow>
        key_list m = leaf_key_list l \<and>
        (\<forall>k v. pipes m \<noteq> [] \<and> hd (pipes m) = Exists k v \<longrightarrow> k = leaf_key l))"

lemma pipe_element_new_exists:
  "pipe_element_new E key pat kl = Inr (Exists k v) \<Longrightarrow> k = hd (split_char (CHR ''|'') (hd kl))"
  by (auto simp: pipe_element_new_def number_pipe_def split: if_splits option.splits)

lemma parse_pipes_from:
  "parse_pipes E keys pat kl = Inr ps \<Longrightarrow> p \<in> set ps \<Longrightarrow> \<exists>key. pipe_element_new E key pat kl = Inr p"
  by (fastforce simp: parse_pipes_def Let_def split: if_splits sum.splits)


lemma default_init_keyed:
  assumes "default_init E kl y = Ok (DefaultMatcher m)"
  shows "key_list m = kl \<and> (\<forall>k v. pipes m \<noteq> [] \<and> hd (pipes m) = Exists k v \<longrightarrow> k = create_key kl)"
proof (cases "y = YNull")
  case True
  with assms show ?thesis by (auto simp: default_init_def new_default_matcher_def)
next
  case False
  with assms obtain pat ps f pats where ps: "parse_pipes E (pipe_keys kl) pat kl = Inr ps"
    and fin: "default_finish E kl ps f pats = Ok (DefaultMatcher m)"
    by (auto simp: default_init_def split: option.splits sum.splits)
  from default_finish_keeps [OF fin] have m: "key_list m = kl" "pipes m = ps \<or> pipes m = ps @ [Wildcard]"
    by auto
  have "k = create_key kl" if "pipes m \<noteq> []" "hd (pipes m) = Exists k v" for k v
  proof -
    from that m(2) have "Exists k v \<in> set ps" by (cases ps) auto
    with parse_pipes_from [OF ps] obtain key where "pipe_element_new E key pat kl = Inr (Exists k v)" by blast
    then have k: "k = hd (split_char (CHR ''|'') (hd kl))" by (rule pipe_element_new_exists)
    have "kl \<noteq> []" using ps \<open>Exists k v \<in> set ps\<close> by (auto simp: pipe_keys_Nil parse_pipes_def)
    with k show ?thesis by (cases kl) (simp_all add: create_key_def)
  qed
  with m show ?thesis by blast
qed

lemma leaf_init_keyed:
  assumes "leaf_init E l = Ok l'"
  shows "leaf_keyed l'"
proof -
  have min: "minlength_init kl v = Ok m \<Longrightarrow> \<exists>n. m = MinlengthMatcher n" for kl v m
    by (auto simp: minlength_init_def split: option.splits)
  have rx: "regexes_init E kl v = Ok m \<Longrightarrow> \<exists>r. m = RegexesFileMatcher r" for kl v m
    by (auto simp: regexes_init_def compile_file_regexes_def split: option.splits sum.splits if_splits)
  have al: "allowlist_init E kl v = Ok m \<Longrightarrow> \<exists>r. m = AllowlistFileMatcher r" for kl v m
    by (auto simp: allowlist_init_def compile_file_regexes_def split: option.splits sum.splits if_splits)
  obtain init m where init: "find_matcher E (leaf_key_list l) = Some init" "init (select_value l) = Ok m"
    and l': "l' = l\<lparr>leaf_key := create_key (leaf_key_list l), matcher := Some m\<rparr>"
    using assms by (auto simp: leaf_init_def split: option.splits outcome.splits if_splits)
  show ?thesis
  proof (cases m)
    case (DefaultMatcher d)
    with init min rx al have "default_init E (leaf_key_list l) (select_value l) = Ok (DefaultMatcher d)"
      by (fastforce simp: find_matcher_def split: if_splits)
    from default_init_keyed [OF this] show ?thesis by (auto simp: leaf_keyed_def l' DefaultMatcher)
  qed (simp_all add: leaf_keyed_def l')
qed

text \<open>Two records that agree on the event and on the fields a leaf may read.\<close>

definition same_event :: "recinfo \<Rightarrow> recinfo \<Rightarrow> leaf \<Rightarrow> bool" where
  "same_event rec rec' l \<longleftrightarrow>
     rec_data rec = rec_data rec' \<and> data_string rec = data_string rec' \<and>
     (\<forall>k \<in> insert (leaf_key l) (set (leaf_get_keys l) \<union> set (leaf_key_list l)). get_value rec k = get_value rec' k)"

lemma first_pipe_match_same:
  assumes "\<And>k. get_eqfield p = Some k \<Longrightarrow> get_value rec k = get_value rec' k"
    and "\<And>k v. p = Exists k v \<Longrightarrow> get_value rec k = get_value rec' k"
  shows "first_pipe_match E p ev rec = first_pipe_match E p ev rec'"
  using assms by (cases p) (auto simp: first_pipe_match_def is_eqfield_match_def is_eqfield.simps split: option.split)

lemma matcher_is_match_same:
  assumes keyed: "leaf_keyed l" and m: "matcher l = Some m" and same: "same_event rec rec' l"
  shows "matcher_is_match E m ev rec = matcher_is_match E m ev rec'"
proof (cases m)
  case (DefaultMatcher d)
  let ?p = "case pipes d of [] \<Rightarrow> Wildcard | p # _ \<Rightarrow> p"
  have kl: "key_list d = leaf_key_list l"
    and ex: "\<And>k v. pipes d \<noteq> [] \<Longrightarrow> hd (pipes d) = Exists k v \<Longrightarrow> k = leaf_key l"
    using keyed m DefaultMatcher by (auto simp: leaf_keyed_def)
  have "get_value rec k = get_value rec' k" if "get_eqfield ?p = Some k" for k
  proof -
    have "k \<in> set (leaf_get_keys l)"
      using that m DefaultMatcher
      by (auto simp: leaf_get_keys_def default_get_eqfield_key_def split: list.splits)
    with same show ?thesis by (simp add: same_event_def)
  qed
  moreover have "get_value rec k = get_value rec' k" if "?p = Exists k v" for k v
    using that ex [of k v] same by (auto simp: same_event_def split: list.splits)
  ultimately have "first_pipe_match E ?p ev rec = first_pipe_match E ?p ev rec'"
    by (rule first_pipe_match_same)
  moreover have "list_ex (\<lambda>v. get_value rec v = None) (key_list d) = list_ex (\<lambda>v. get_value rec' v = None) (key_list d)"
    using same kl by (auto simp: same_event_def list_ex_iff)
  ultimately show ?thesis by (simp only: DefaultMatcher default_is_match_def matcher_is_match.simps)
qed simp_all

lemma leaf_select_same:
  assumes "leaf_keyed l" and "same_event rec rec' l"
  shows "leaf_select E c rec l = leaf_select E c rec' l"
proof (cases "matcher l")
  case (Some m)
  note eq = matcher_is_match_same [OF assms(1) Some assms(2)]
  have "rec_data rec = rec_data rec'" "data_string rec = data_string rec'"
    "get_value rec (leaf_key l) = get_value rec' (leaf_key l)"
    using assms(2) by (simp_all add: same_event_def)
  moreover from this have "leaf_event_value l rec = leaf_event_value l rec'" by (simp add: leaf_event_value_def)
  ultimately show ?thesis by (simp only: leaf_select_def Some option.case eq)
qed (simp add: leaf_select_def)

lemma node_select_same:
  "(\<And>l. l \<in> set (node_leaves n) \<Longrightarrow> leaf_select E c rec l = leaf_select E c rec' l) \<Longrightarrow>
     node_select E c rec n = node_select E c rec' n"
  by (induction n) (auto intro!: all_opt_cong any_opt_cong)


lemma detection_init_leaves:
  assumes init: "detection_init E y quiet log = (Ok d, log')"
  shows "\<forall>e \<in> set (name_to_selection d). \<forall>l \<in> set (node_leaves (snd e)). leaf_keyed l"
    and "cond_node d = Some n \<Longrightarrow> l \<in> set (node_leaves n) \<Longrightarrow>
      \<exists>e \<in> set (name_to_selection d). l \<in> set (node_leaves (snd e))"
proof -
  obtain names s node info tf where names: "parse_name_to_selection E y = Ok names"
    and cond: "compile_condition E s names = Inr node"
    and d: "d = detection_new_with_data names (Some node) info tf"
    using detection_init_cases [OF init] by metis
  obtain h errs where "parse_names E h ([], []) = Some (names, errs)"
    using names by (auto simp: parse_name_to_selection_def split: option.splits if_splits)
  then have "\<forall>e \<in> set names. \<forall>l \<in> set (node_leaves (snd e)). leaf_keyed l"
    by (rule parse_names_leaves [rotated]) (auto intro: leaf_init_keyed)
  then show "\<forall>e \<in> set (name_to_selection d). \<forall>l \<in> set (node_leaves (snd e)). leaf_keyed l"
    by (simp add: d detection_new_with_data_def)
  show "cond_node d = Some n \<Longrightarrow> l \<in> set (node_leaves n) \<Longrightarrow>
      \<exists>e \<in> set (name_to_selection d). l \<in> set (node_leaves (snd e))"
    using compile_condition_leaves [OF cond] by (auto simp: d detection_new_with_data_def)
qed

lemma get_value_create_rec_info:
  "get_value (create_rec_info E c data path keys recovered True) k =
     (if k \<in> set keys then field_string c data k else None)"
proof -
  obtain m ev ch where m: "collect_keys c data True keys (Map.empty, None, None) = (m, ev, ch)"
    by (cases "collect_keys c data True keys (Map.empty, None, None)")
  with collect_keys_map [of c data True keys Map.empty None None] show ?thesis
    by (auto simp: create_rec_info_def get_value_def)
qed

lemma create_rec_info_data:
  "rec_data (create_rec_info E c data path keys recovered True) = data"
  "data_string (create_rec_info E c data path keys recovered True) = json_text E data"
  by (simp_all add: create_rec_info_def split: prod.split)

lemma field_string_Nil: "field_string c data [] = None"
  by (simp add: field_string_def get_event_value_def)

text \<open>
  No key of the other rules is a whole entry of the key path of one of the rule's leaves (the
  test for an absent field looks such entries up as they are written), unless the rule
  collects it itself.
\<close>

definition own_keys_only :: "rule_node \<Rightarrow> string list \<Rightarrow> bool" where
  "own_keys_only rule keys \<longleftrightarrow>
     (\<forall>e \<in> set (name_to_selection (detection rule)). \<forall>l \<in> set (node_leaves (snd e)).
        \<forall>k \<in> set (leaf_key_list l). k \<in> set keys \<longrightarrow> k \<in> set (get_detection_keys rule))"

end
