(* ===== verification/Samples.thy ===== *)
theory Samples
  imports Rule_Node Condition_Compile
begin

section \<open>A small rule, for the witnesses\<close>

text \<open>
  A detection with one selection (\<open>Image|contains: Mimi\<close>), what its initialisation makes of it,
  and a rule list of one rule with that detection.
\<close>

definition sample_detection :: yaml where
  "sample_detection =
     YHash [(YString ''selection'', YHash [(YString ''Image|contains'', YString ''Mimi'')]),
            (YString ''condition'', YString ''selection'')]"

definition sample_leaf :: leaf where
  "sample_leaf = \<lparr>leaf_key = ''Image'', leaf_key_list = [''Image|contains''], select_value = YString ''Mimi'',
     matcher = Some (DefaultMatcher image_contains_matcher)\<rparr>"

definition sample_selections :: "(string \<times> snode) list" where
  "sample_selections = [(''selection'', AndNode [LeafNode sample_leaf])]"

lemma sample_parse: "parse_name_to_selection env0 sample_detection = Ok sample_selections"
  by code_simp

lemma sample_condition:
  "compile_condition env0 ''selection'' sample_selections = Inr (RefNode (AndNode [LeafNode sample_leaf]))"
proof -
  have "list_all token_ok (cexp_tokens (Name ''selection''))" by code_simp
  from compile_condition_text [OF this, of "[]" env0 0 sample_selections]
  show ?thesis
    using parse_condition_tokens [of "Name ''selection''"]
    by (simp add: pipe_part_def sample_selections_def)
qed

lemma sample_agg: "agg_compile env0 ''selection'' = Inr None"
  by (simp add: agg_compile_def agg_compile_body_def re_pipe_def)

definition sample_detection_node :: detection_node where
  "sample_detection_node =
     detection_new_with_data sample_selections (Some (RefNode (AndNode [LeafNode sample_leaf]))) None None"

lemma sample_init: "detection_init env0 sample_detection quiet log = (Ok sample_detection_node, log)"
proof -
  have "as_str (yindex sample_detection ''condition'') = Some ''selection''"
    "as_str (yindex sample_detection ''timeframe'') = None"
    by (simp_all add: sample_detection_def yindex_def hash_get_def)
  then show ?thesis
    by (simp add: detection_init_def sample_parse parse_timeframe_def condition_text_def
        compile_detection_def sample_condition sample_agg sample_detection_node_def)
qed

definition sample_base :: rule_node where
  "sample_base =
     \<lparr>rulepath = ''r1.yml'',
      rule_yaml = YHash [(YString ''id'', YString ''r1''), (YString ''detection'', sample_detection)],
      detection = sample_detection_node, countdata = [], correlation = NoCorrelation\<rparr>"

lemma sample_base_yaml:
  "yindex (rule_yaml sample_base) ''correlation'' = YBadValue"
  "yindex (rule_yaml sample_base) ''detection'' = sample_detection"
  by (simp_all add: sample_base_def yindex_def hash_get_def)

lemma sample_base_init:
  "rule_new (rulepath sample_base) (rule_yaml sample_base) = Some (sample_base\<lparr>detection := detection_new\<rparr>)"
  "rule_init env0 (sample_base\<lparr>detection := detection_new\<rparr>) quiet log = (Ok sample_base, log)"
proof -
  show "rule_new (rulepath sample_base) (rule_yaml sample_base) = Some (sample_base\<lparr>detection := detection_new\<rparr>)"
    by (simp add: sample_base_yaml rule_new_def rule_new_with_detection_def correlation_type_new_def)
       (simp add: sample_base_def yindex_def)
  show "rule_init env0 (sample_base\<lparr>detection := detection_new\<rparr>) quiet log = (Ok sample_base, log)"
    by (simp add: rule_init_def sample_base_yaml sample_init map_outcome_def) (simp add: sample_base_def)
qed

end
