(* ===== verification/Correlation.thy ===== *)
theory Correlation
  imports Rule_Node
begin

section \<open>Correlation rules (rule/correlation_parser.rs)\<close>

text \<open>
  Correlation rules refer to other rules by id, title or name. An \<open>event_count\<close> or
  \<open>value_count\<close> rule is merged with the rules it refers to into one rule that selects what
  any of them selects and counts it; a temporal rule gets copies of them, each with an id of
  its own, which the evaluation later relates in time. The rule list, the error log and the
  number of parse errors are threaded through; \<open>None\<close> is a panic. New identifiers come from
  the \<open>uuid\<close> crate: the parameter \<open>uuid\<close> gives the n-th one.
\<close>

record parse_state =
  other_rules :: "rule_node list"
  error_stack :: "string list"
  parse_error_count :: nat

subsection \<open>Reading the YAML of a correlation rule\<close>

definition is_referenced_rule :: "rule_node \<Rightarrow> string \<Rightarrow> bool" where
  "is_referenced_rule rule id_or_title \<longleftrightarrow>
     (case as_hash (rule_yaml rule) of
        None \<Rightarrow> False
      | Some h \<Rightarrow>
          hash_get h ''id'' = Some (YString id_or_title) \<or>
          hash_get h ''title'' = Some (YString id_or_title) \<or>
          hash_get h ''name'' = Some (YString id_or_title))"

fun find_condition_field_value :: "yaml option \<Rightarrow> (yaml \<times> yaml) list \<Rightarrow> string option" where
  "find_condition_field_value rule_type [] = None"
| "find_condition_field_value rule_type ((key, v) # pairs) =
     (if as_str key = Some ''field'' \<and> rule_type = Some (YString ''value_count'') then as_str v
      else find_condition_field_value rule_type pairs)"

definition cmp_of_key :: "string \<Rightarrow> agg_token option" where
  "cmp_of_key k =
     (if k = ''eq'' then Some EQ else if k = ''lte'' then Some LE else if k = ''gte'' then Some GE
      else if k = ''lt'' then Some LT else if k = ''gt'' then Some GT else None)"

fun process_condition_pairs ::
  "(yaml \<times> yaml) list \<Rightarrow> string option \<Rightarrow> (agg_token \<times> int \<times> string option) result" where
  "process_condition_pairs [] field = Inl ''Failed to match any condition''"
| "process_condition_pairs ((key, v) # pairs) field =
     (case Option.bind (as_str key) cmp_of_key of
        None \<Rightarrow> process_condition_pairs pairs field
      | Some token \<Rightarrow>
          (case as_i64 v of
             None \<Rightarrow> Inl ''Failed to convert condition value to i64''
           | Some n \<Rightarrow> Inr (token, n, field)))"

definition parse_correlation_condition :: "yaml \<Rightarrow> (agg_token \<times> int \<times> string option) result" where
  "parse_correlation_condition y =
     (case as_hash y of
        None \<Rightarrow> Inl ''Failed to parse condition''
      | Some h \<Rightarrow>
          (case Option.bind (hash_get h ''condition'') as_hash of
             None \<Rightarrow> Inl ''Failed to parse condition''
           | Some pairs \<Rightarrow>
               process_condition_pairs pairs (find_condition_field_value (hash_get h ''type'') pairs)))"

definition quoted :: "string \<Rightarrow> string" where
  "quoted s = [CHR 0x27] @ s @ [CHR 0x27]"

fun rule_strings :: "yaml list \<Rightarrow> string list result" where
  "rule_strings [] = Inr []"
| "rule_strings (y # ys) =
     (case as_str y of
        None \<Rightarrow> Inl ''Failed to convert rule to string''
      | Some s \<Rightarrow> bind_result (rule_strings ys) (\<lambda>ss. Inr (s # ss)))"

definition get_related_rules_id :: "yaml \<Rightarrow> string list result" where
  "get_related_rules_id y =
     (case as_hash (yindex y ''correlation'') of
        None \<Rightarrow> Inl (''Failed to get '' @ quoted ''correlation'')
      | Some corr \<Rightarrow>
          (case hash_get corr ''rules'' of
             None \<Rightarrow> Inl (''Failed to get '' @ quoted ''rules'')
           | Some rules_yaml \<Rightarrow>
               (case as_vec rules_yaml of
                  None \<Rightarrow> Inl (''Failed to convert '' @ quoted ''rules'' @ '' to Vec'')
                | Some ys \<Rightarrow> rule_strings ys)))"

definition get_group_by_from_yaml :: "yaml \<Rightarrow> string option result" where
  "get_group_by_from_yaml y =
     (case as_hash (yindex y ''correlation'') of
        None \<Rightarrow> Inl (''Failed to get '' @ quoted ''correlation'')
      | Some corr \<Rightarrow>
          (case hash_get corr ''group-by'' of
             None \<Rightarrow> Inr None
           | Some group_by_yaml \<Rightarrow>
               Inr (Some (join '','' (case as_vec group_by_yaml of
                  None \<Rightarrow> []
                | Some ys \<Rightarrow> option_list (map as_str ys))))))"

definition parse_timespan :: "string \<Rightarrow> time_frame_info result" where
  "parse_timespan v =
     (if ends_with v ''s'' then Inr \<lparr>timetype = ''s'', timenum = parse_i64 (butlast v)\<rparr>
      else if ends_with v ''m'' then Inr \<lparr>timetype = ''m'', timenum = parse_i64 (butlast v)\<rparr>
      else if ends_with v ''h'' then Inr \<lparr>timetype = ''h'', timenum = parse_i64 (butlast v)\<rparr>
      else if ends_with v ''d'' then Inr \<lparr>timetype = ''d'', timenum = parse_i64 (butlast v)\<rparr>
      else Inl ''Invalid time frame'')"

text \<open>
  \<open>Hash::insert\<close> puts the entry at the end of the insertion order; \<open>yaml[k] = v\<close> replaces a
  value in its place and panics when there is none.
\<close>

definition hash_insert :: "(yaml \<times> yaml) list \<Rightarrow> string \<Rightarrow> yaml \<Rightarrow> (yaml \<times> yaml) list" where
  "hash_insert h k v = filter (\<lambda>e. fst e \<noteq> YString k) h @ [(YString k, v)]"

fun hash_replace :: "(yaml \<times> yaml) list \<Rightarrow> string \<Rightarrow> yaml \<Rightarrow> (yaml \<times> yaml) list option" where
  "hash_replace [] k v = None"
| "hash_replace ((k', v') # h) k v =
     (if k' = YString k then Some ((k', v) # h)
      else map_option (\<lambda>h'. (k', v') # h') (hash_replace h k v))"

definition yaml_replace :: "yaml \<Rightarrow> string \<Rightarrow> yaml \<Rightarrow> yaml option" where
  "yaml_replace y k v =
     (case as_hash y of None \<Rightarrow> None | Some h \<Rightarrow> map_option YHash (hash_replace h k v))"

text \<open>\<open>new_yaml["correlation"]["rules"] = Yaml::Array(ids)\<close>\<close>

definition set_correlation_rules :: "yaml \<Rightarrow> yaml list \<Rightarrow> yaml option" where
  "set_correlation_rules y ids =
     Option.bind (yaml_replace (yindex y ''correlation'') ''rules'' (YArray ids))
       (yaml_replace y ''correlation'')"

subsection \<open>A rule initialised without looking at the result\<close>

text \<open>
  The code calls \<open>init\<close> on a copy of a rule and discards the result: what it assigned before an
  error stays. \<open>detection_after\<close> is the detection that leaves.
\<close>

definition detection_after :: "env \<Rightarrow> yaml \<Rightarrow> bool \<Rightarrow> string list \<Rightarrow> (detection_node \<times> string list) option" where
  "detection_after E y quiet log =
     (case as_hash y of
        None \<Rightarrow> Some (detection_new, log)
      | Some h \<Rightarrow>
          (case parse_names E h ([], []) of
             None \<Rightarrow> None
           | Some (names, errs) \<Rightarrow>
               (if errs \<noteq> [] \<or> names = [] then Some (detection_new\<lparr>name_to_selection := names\<rparr>, log)
                else (case parse_timeframe y quiet log of (tf, log') \<Rightarrow>
                  (case condition_text y names of
                     None \<Rightarrow> Some (detection_new_with_data names None None tf, log')
                   | Some s \<Rightarrow>
                       Some (detection_new_with_data names
                               (case compile_condition E s names of Inr n \<Rightarrow> Some n | Inl _ \<Rightarrow> None)
                               (case agg_compile E s of Inr info \<Rightarrow> info | Inl _ \<Rightarrow> None) tf, log'))))))"

definition rule_after :: "env \<Rightarrow> rule_node \<Rightarrow> bool \<Rightarrow> string list \<Rightarrow> (rule_node \<times> string list) option" where
  "rule_after E rule quiet log =
     (if yindex (rule_yaml rule) ''correlation'' \<noteq> YBadValue then Some (rule, log)
      else map_option (\<lambda>(d, log'). (rule\<lparr>detection := d\<rparr>, log'))
             (detection_after E (yindex (rule_yaml rule) ''detection'') quiet log))"

lemma detection_after_init:
  "detection_init E y quiet log = (Ok d, log') \<Longrightarrow> detection_after E y quiet log = Some (d, log')"
  by (auto simp: detection_init_def detection_after_def parse_name_to_selection_def compile_detection_def
      split: option.splits prod.splits outcome.splits if_splits sum.splits)

lemma rule_after_init:
  "rule_init E r quiet log = (Ok r', log') \<Longrightarrow> rule_after E r quiet log = Some (r', log')"
  by (auto simp: rule_init_def rule_after_def map_outcome_def split: if_splits prod.splits outcome.splits
      dest: detection_after_init)

subsection \<open>Merging the rules a counting correlation refers to\<close>

text \<open>The inner loop: a fresh copy of every rule that goes by the name \<open>ident\<close>.\<close>

fun related_of ::
  "env \<Rightarrow> bool \<Rightarrow> string \<Rightarrow> rule_node list \<Rightarrow> string list \<Rightarrow> (rule_node list \<times> string list) option" where
  "related_of E quiet ident [] log = Some ([], log)"
| "related_of E quiet ident (other # others) log =
     (if is_referenced_rule other ident
      then Option.bind (rule_new (rulepath other) (rule_yaml other)) (\<lambda>r.
           Option.bind (rule_after E r quiet log) (\<lambda>(node, log1).
           map_option (\<lambda>(nodes, log2). (node # nodes, log2)) (related_of E quiet ident others log1)))
      else related_of E quiet ident others log)"

fun create_related_rule_nodes ::
  "env \<Rightarrow> bool \<Rightarrow> string list \<Rightarrow> rule_node list \<Rightarrow> string list \<Rightarrow> (rule_node list result \<times> string list) option" where
  "create_related_rule_nodes E quiet [] others log = Some (Inr [], log)"
| "create_related_rule_nodes E quiet (ident # ids) others log =
     Option.bind (related_of E quiet ident others log) (\<lambda>(nodes, log1).
       if \<not> list_ex (\<lambda>r. is_referenced_rule r ident) others
       then Some (Inl (''The referenced rule was not found: '' @ ident), log1)
       else map_option (\<lambda>(r, log2). (bind_result r (\<lambda>ns. Inr (nodes @ ns)), log2))
              (create_related_rule_nodes E quiet ids others log1))"

definition extend_names :: "rule_node list \<Rightarrow> (string \<times> snode) list" where
  "extend_names nodes =
     foldl (\<lambda>names e. assoc_insert (fst e) (snd e) names) [] (concat (map (\<lambda>r. name_to_selection (detection r)) nodes))"

text \<open>\<open>to_or_selection_node\<close>: the \<open>unwrap\<close> of a missing condition panics.\<close>

definition to_or_selection_node :: "rule_node list \<Rightarrow> snode option" where
  "to_or_selection_node nodes = map_option OrNode (those (map (\<lambda>r. cond_node (detection r)) nodes))"

definition create_detection :: "rule_node \<Rightarrow> rule_node list \<Rightarrow> detection_node result option" where
  "create_detection rule nodes =
     (case parse_correlation_condition (yindex (rule_yaml rule) ''correlation'') of
        Inl e \<Rightarrow> Some (Inl e)
      | Inr (op, num, field) \<Rightarrow>
          (case get_group_by_from_yaml (rule_yaml rule) of
             Inl e \<Rightarrow> Some (Inl e)
           | Inr group_by \<Rightarrow>
               (case as_str (yindex (yindex (rule_yaml rule) ''correlation'') ''timespan'') of
                  None \<Rightarrow> Some (Inl (''Failed to get '' @ quoted ''timespan''))
                | Some timespan \<Rightarrow>
                    (case parse_timespan timespan of
                       Inl e \<Rightarrow> Some (Inl e)
                     | Inr time_frame \<Rightarrow>
                         map_option (\<lambda>node. Inr (detection_new_with_data (extend_names nodes) (Some node)
                             (Some \<lparr>field_name = field, by_field_name = group_by, cmp_op = op, cmp_num = num\<rparr>)
                             (Some time_frame)))
                           (to_or_selection_node nodes)))))"

text \<open>\<open>error_log\<close>: the warning, and one parse error more.\<close>

definition error_log :: "bool \<Rightarrow> string \<Rightarrow> string \<Rightarrow> parse_state \<Rightarrow> parse_state" where
  "error_log quiet rule_path reason st =
     (let msg = ''Failed to parse rule. (FilePath : '' @ rule_path @ '') '' @ reason
      in st\<lparr>error_stack := (if quiet then error_stack st else error_stack st @ [''[WARN] '' @ msg]),
            parse_error_count := parse_error_count st + 1\<rparr>)"

definition id_title_name :: "rule_node \<Rightarrow> string list" where
  "id_title_name r =
     map (\<lambda>k. unwrap_or [] (as_str (yindex (rule_yaml r) k))) [''id'', ''title'', ''name'']"

definition is_not_referenced_rule :: "string list \<Rightarrow> rule_node \<Rightarrow> bool" where
  "is_not_referenced_rule ids r \<longleftrightarrow> list_all (\<lambda>s. s \<notin> set ids) (id_title_name r)"

definition generates :: "rule_node \<Rightarrow> bool" where
  "generates rule = unwrap_or False (as_bool (yindex (yindex (rule_yaml rule) ''correlation'') ''generate''))"

text \<open>The checks before the merge: the message of the first that fails, or the referenced ids.\<close>

definition check_correlation :: "rule_node \<Rightarrow> string + string list" where
  "check_correlation rule =
     (let corr = yindex (rule_yaml rule) ''correlation'';
          rule_type = as_str (yindex corr ''type'')
      in if rule_type \<noteq> Some ''event_count'' \<and> rule_type \<noteq> Some ''value_count'' \<and>
            rule_type \<noteq> Some ''temporal'' \<and> rule_type \<noteq> Some ''temporal_ordered''
         then Inl ''The type of correlation rule only supports event_count/value_count/temporal/temporal_ordered.''
         else (case get_related_rules_id (rule_yaml rule) of
                 Inl _ \<Rightarrow> Inl ''Referenced rule not found.''
               | Inr ids \<Rightarrow>
                   (if ids = [] then Inl ''Referenced rule not found.''
                    else if as_str (yindex corr ''timespan'') = None then Inl ''key timespan not found.''
                    else if as_vec (yindex corr ''group-by'') = None then Inl ''key group-by  not found.''
                    else Inr ids)))"

definition merged_rule :: "rule_node \<Rightarrow> rule_node list \<Rightarrow> detection_node \<Rightarrow> rule_node option" where
  "merged_rule rule nodes d =
     (case as_hash (rule_yaml rule) of
        None \<Rightarrow> None
      | Some h \<Rightarrow>
          rule_new_with_detection (rulepath rule)
            (YHash (hash_insert h ''detection''
               (YArray (map YHash (option_list (map (\<lambda>r. as_hash (rule_yaml r)) nodes)))))) d)"

definition merge_referenced_rule ::
  "env \<Rightarrow> bool \<Rightarrow> rule_node \<Rightarrow> parse_state \<Rightarrow> (rule_node \<times> parse_state) option" where
  "merge_referenced_rule E quiet rule st =
     (case check_correlation rule of
        Inl m \<Rightarrow> Some (rule, error_log quiet (rulepath rule) m st)
      | Inr referenced_ids \<Rightarrow>
          (let rule_type = as_str (yindex (yindex (rule_yaml rule) ''correlation'') ''type'') in
           if rule_type = Some ''temporal'' \<or> rule_type = Some ''temporal_ordered'' then Some (rule, st)
           else Option.bind (create_related_rule_nodes E quiet referenced_ids (other_rules st) (error_stack st))
             (\<lambda>(r, log1). let st1 = st\<lparr>error_stack := log1\<rparr> in
               case r of
                 Inl e \<Rightarrow> Some (rule, error_log quiet (rulepath rule) e st1)
               | Inr nodes \<Rightarrow>
                   (let st2 = (if generates rule then st1
                               else st1\<lparr>other_rules := filter (is_not_referenced_rule referenced_ids) (other_rules st1)\<rparr>)
                    in Option.bind (create_detection rule nodes) (\<lambda>d.
                      case d of
                        Inl e \<Rightarrow> Some (rule, error_log quiet (rulepath rule) e st2)
                      | Inr d \<Rightarrow> map_option (\<lambda>r'. (r', st2)) (merged_rule rule nodes d))))))"

text \<open>The counting correlations are merged one after the other; each sees the rules the former left.\<close>

fun merge_rules :: "env \<Rightarrow> bool \<Rightarrow> rule_node list \<Rightarrow> parse_state \<Rightarrow> (rule_node list \<times> parse_state) option" where
  "merge_rules E quiet [] st = Some ([], st)"
| "merge_rules E quiet (rule # rules) st =
     Option.bind (merge_referenced_rule E quiet rule st) (\<lambda>(r, st1).
       map_option (\<lambda>(rs, st2). (r # rs, st2)) (merge_rules E quiet rules st1))"

subsection \<open>Temporal rules\<close>

text \<open>
  The state of the loops: the copies made so far, the ids of the rule at hand, the names of the
  rules to delete, the number of ids drawn and the error log.
\<close>

record temporal_state =
  ref_rules :: "rule_node list"
  ref_ids :: "yaml list"
  del_ids :: "string list"
  drawn :: nat
  t_log :: "string list"

definition with_new_id :: "yaml \<Rightarrow> string \<Rightarrow> yaml" where
  "with_new_id y new_id =
     (case as_hash y of None \<Rightarrow> y | Some h \<Rightarrow> YHash (hash_insert h ''id'' (YString new_id)))"

definition temporal_agg :: "string option \<Rightarrow> agg_info" where
  "temporal_agg group_by = \<lparr>field_name = None, by_field_name = group_by, cmp_op = GE, cmp_num = 1\<rparr>"

text \<open>The aggregation and the time frame of a temporal rule; \<open>None\<close> is one of the three \<open>unwrap\<close>s.\<close>

definition temporal_frame :: "yaml \<Rightarrow> (agg_info \<times> time_frame_info) option" where
  "temporal_frame y =
     (case (get_group_by_from_yaml y, as_str (yindex (yindex y ''correlation'') ''timespan'')) of
        (Inr group_by, Some timespan) \<Rightarrow>
          (case parse_timespan timespan of
             Inr tf \<Rightarrow> Some (temporal_agg group_by, tf)
           | Inl _ \<Rightarrow> None)
      | _ \<Rightarrow> None)"

text \<open>One rule seen from one reference of a temporal rule.\<close>

definition reference_step ::
  "env \<Rightarrow> (nat \<Rightarrow> string) \<Rightarrow> bool \<Rightarrow> rule_node \<Rightarrow> string \<Rightarrow> rule_node \<Rightarrow> temporal_state \<Rightarrow>
   (rule_node \<times> temporal_state) option" where
  "reference_step E uuid quiet temporal ref_id other st =
     (if \<not> is_referenced_rule other ref_id then Some (other, st)
      else if correlation other \<noteq> NoCorrelation
      then Some (other\<lparr>correlation := TemporalRef (generates temporal) ref_id\<rparr>,
                 st\<lparr>ref_ids := ref_ids st @ [YString ref_id]\<rparr>)
      else (let new_id = uuid (drawn st) in
            Option.bind (rule_new (rulepath other) (with_new_id (rule_yaml other) new_id)) (\<lambda>r.
            Option.bind (rule_after E r quiet (t_log st)) (\<lambda>(node, log1).
            map_option (\<lambda>(agg, tf).
              (other,
               st\<lparr>ref_rules := ref_rules st @
                    [node\<lparr>correlation := TemporalRef (generates temporal) new_id,
                          detection := (detection node)\<lparr>aggregation_condition := Some agg, timeframe := Some tf\<rparr>\<rparr>],
                  ref_ids := ref_ids st @ [YString new_id],
                  del_ids := (if generates temporal then del_ids st else List.insert ref_id (del_ids st)),
                  drawn := drawn st + 1, t_log := log1\<rparr>))
              (temporal_frame (rule_yaml temporal))))))"

fun reference_others ::
  "env \<Rightarrow> (nat \<Rightarrow> string) \<Rightarrow> bool \<Rightarrow> rule_node \<Rightarrow> string \<Rightarrow> rule_node list \<Rightarrow> temporal_state \<Rightarrow>
   (rule_node list \<times> temporal_state) option" where
  "reference_others E uuid quiet temporal ref_id [] st = Some ([], st)"
| "reference_others E uuid quiet temporal ref_id (other # others) st =
     Option.bind (reference_step E uuid quiet temporal ref_id other st) (\<lambda>(o', st1).
       map_option (\<lambda>(os, st2). (o' # os, st2)) (reference_others E uuid quiet temporal ref_id others st1))"

fun reference_ids ::
  "env \<Rightarrow> (nat \<Rightarrow> string) \<Rightarrow> bool \<Rightarrow> rule_node \<Rightarrow> yaml list \<Rightarrow> rule_node list \<Rightarrow> temporal_state \<Rightarrow>
   (rule_node list \<times> temporal_state) option" where
  "reference_ids E uuid quiet temporal [] others st = Some (others, st)"
| "reference_ids E uuid quiet temporal (ref_id # ids) others st =
     Option.bind (reference_others E uuid quiet temporal (unwrap_or [] (as_str ref_id)) others st)
       (\<lambda>(os, st1). reference_ids E uuid quiet temporal ids os st1)"

definition temporal_node :: "rule_node \<Rightarrow> yaml list \<Rightarrow> rule_node option" where
  "temporal_node temporal ids =
     Option.bind (set_correlation_rules (rule_yaml temporal) ids) (\<lambda>y.
     Option.bind (rule_new (rulepath temporal) y) (\<lambda>node.
     map_option (\<lambda>(agg, tf).
       node\<lparr>detection := (detection node)\<lparr>aggregation_condition := Some agg, timeframe := Some tf\<rparr>\<rparr>)
       (temporal_frame (rule_yaml temporal))))"

text \<open>One temporal rule: its references over all rules, then the rule itself.\<close>

fun temporal_loop ::
  "env \<Rightarrow> (nat \<Rightarrow> string) \<Rightarrow> bool \<Rightarrow> rule_node list \<Rightarrow> rule_node list \<Rightarrow> temporal_state \<Rightarrow>
   (rule_node list \<times> rule_node list \<times> temporal_state) option" where
  "temporal_loop E uuid quiet [] others st = Some ([], others, st)"
| "temporal_loop E uuid quiet (temporal # temporals) others st =
     (case as_vec (yindex (yindex (rule_yaml temporal) ''correlation'') ''rules'') of
        None \<Rightarrow> temporal_loop E uuid quiet temporals others st
      | Some ids \<Rightarrow>
          Option.bind (reference_ids E uuid quiet temporal ids others (st\<lparr>ref_ids := []\<rparr>)) (\<lambda>(os, st1).
          Option.bind (temporal_node temporal (ref_ids st1)) (\<lambda>node.
          map_option (\<lambda>(nodes, os', st2). (node # nodes, os', st2))
            (temporal_loop E uuid quiet temporals os st1))))"

definition no_temporal :: "string list \<Rightarrow> temporal_state" where
  "no_temporal log = \<lparr>ref_rules = [], ref_ids = [], del_ids = [], drawn = 0, t_log = log\<rparr>"

text \<open>\<open>parse_temporal_rules\<close>: the temporal rules, and the rule list with the copies in it.\<close>

definition parse_temporal_rules ::
  "env \<Rightarrow> (nat \<Rightarrow> string) \<Rightarrow> bool \<Rightarrow> rule_node list \<Rightarrow> rule_node list \<Rightarrow> string list \<Rightarrow>
   (rule_node list \<times> rule_node list \<times> string list) option" where
  "parse_temporal_rules E uuid quiet temporal_rules others log =
     map_option (\<lambda>(nodes, os, st).
         (nodes, filter (is_not_referenced_rule (del_ids st)) os @ ref_rules st, t_log st))
       (temporal_loop E uuid quiet temporal_rules others (no_temporal log))"

subsection \<open>The whole pass\<close>

definition is_correlation :: "rule_node \<Rightarrow> bool" where
  "is_correlation r \<longleftrightarrow> yindex (rule_yaml r) ''correlation'' \<noteq> YBadValue"

definition is_temporal :: "rule_node \<Rightarrow> bool" where
  "is_temporal r \<longleftrightarrow>
     as_str (yindex (yindex (rule_yaml r) ''correlation'') ''type'') \<in> {Some ''temporal'', Some ''temporal_ordered''}"

definition parse_correlation_rules ::
  "env \<Rightarrow> (nat \<Rightarrow> string) \<Rightarrow> bool \<Rightarrow> rule_node list \<Rightarrow> string list \<Rightarrow> nat \<Rightarrow>
   (rule_node list \<times> string list \<times> nat) option" where
  "parse_correlation_rules E uuid quiet rule_nodes log errors =
     (let correlation_rules = filter is_correlation rule_nodes;
          temporal_rules = filter is_temporal correlation_rules;
          st = \<lparr>other_rules = filter (\<lambda>r. \<not> is_correlation r) rule_nodes, error_stack = log, parse_error_count = errors\<rparr>
      in Option.bind (merge_rules E quiet (filter (\<lambda>r. \<not> is_temporal r) correlation_rules) st) (\<lambda>(parsed, st1).
         map_option (\<lambda>(temporals, others, log'). (others @ temporals, log', parse_error_count st1))
           (parse_temporal_rules E uuid quiet temporal_rules (parsed @ other_rules st1) (error_stack st1))))"

end
