(* ===== verification/Correlation_Facts.thy ===== *)
theory Correlation_Facts
  imports Correlation Samples
begin

section \<open>Properties of the correlation pass\<close>

text \<open>
  A rule is loaded when it is what \<open>init\<close> makes of a rule newly read from its YAML. On loaded rules
  the copies the pass makes succeed, so its effect can be given in closed form: what a merged
  rule selects and counts, which rules it takes from the list, and where the references of the
  temporal rules point.
\<close>

subsection \<open>Loaded rules\<close>

definition loaded :: "env \<Rightarrow> bool \<Rightarrow> rule_node \<Rightarrow> bool" where
  "loaded E quiet r \<longleftrightarrow>
     (\<exists>r0 log log'. rule_new (rulepath r) (rule_yaml r) = Some r0 \<and> rule_init E r0 quiet log = (Ok r, log'))"

lemma parse_timeframe_log: "fst (parse_timeframe y quiet log) = fst (parse_timeframe y quiet log')"
  by (simp add: parse_timeframe_def parse_tframe_def Let_def split: option.split)

lemma detection_init_log: "fst (detection_init E y quiet log) = fst (detection_init E y quiet log')"
  using parse_timeframe_log [of y quiet log log']
  by (auto simp: detection_init_def split: outcome.split prod.split option.split)

lemma rule_new_shape:
  "rule_new path y = Some r \<longleftrightarrow>
     (\<exists>c. correlation_type_new y = Some c \<and>
        r = \<lparr>rulepath = path, rule_yaml = y, detection = detection_new, countdata = [], correlation = c\<rparr>)"
  by (auto simp: rule_new_def rule_new_with_detection_def)

lemma loaded_detection:
  assumes "loaded E quiet r" and "\<not> is_correlation r"
  shows "\<exists>log'. detection_init E (yindex (rule_yaml r) ''detection'') quiet log = (Ok (detection r), log')"
    and "countdata r = []" and "correlation_type_new (rule_yaml r) = Some (correlation r)"
proof -
  obtain r0 log0 log1 where r0: "rule_new (rulepath r) (rule_yaml r) = Some r0"
    and init: "rule_init E r0 quiet log0 = (Ok r, log1)"
    using assms(1) by (auto simp: loaded_def)
  have y: "rule_yaml r0 = rule_yaml r" "countdata r0 = []" "correlation_type_new (rule_yaml r) = Some (correlation r0)"
    using r0 by (auto simp: rule_new_shape)
  obtain q log2 where q: "detection_init E (yindex (rule_yaml r) ''detection'') quiet log0 = (q, log2)"
    by fastforce
  have nc: "yindex (rule_yaml r) ''correlation'' = YBadValue"
    using assms(2) by (simp add: is_correlation_def)
  have init': "(map_outcome (\<lambda>d. r0\<lparr>detection := d\<rparr>) q, log2) = (Ok r, log1)"
    using init y(1) by (simp only: rule_init_def nc q) simp
  then obtain d where d: "q = Ok d" and r: "r = r0\<lparr>detection := d\<rparr>"
    by (cases q) (simp_all add: map_outcome_def)
  have "fst (detection_init E (yindex (rule_yaml r) ''detection'') quiet log) = Ok d"
    using d q detection_init_log [of E "yindex (rule_yaml r) ''detection''" quiet log log0] by simp
  then have "detection_init E (yindex (rule_yaml r) ''detection'') quiet log =
      (Ok (detection r), snd (detection_init E (yindex (rule_yaml r) ''detection'') quiet log))"
    using r by (cases "detection_init E (yindex (rule_yaml r) ''detection'') quiet log") simp
  then show "\<exists>log'. detection_init E (yindex (rule_yaml r) ''detection'') quiet log = (Ok (detection r), log')"
    by blast
  show "countdata r = []" "correlation_type_new (rule_yaml r) = Some (correlation r)"
    using r y by simp_all
qed

lemma loaded_copy:
  assumes "loaded E quiet r" and "\<not> is_correlation r"
  obtains r0 log' where "rule_new (rulepath r) (rule_yaml r) = Some r0" "rule_after E r0 quiet log = Some (r, log')"
proof -
  note l = loaded_detection [OF assms]
  obtain log' where d: "detection_init E (yindex (rule_yaml r) ''detection'') quiet log = (Ok (detection r), log')"
    using l(1) by blast
  let ?r0 = "\<lparr>rulepath = rulepath r, rule_yaml = rule_yaml r, detection = detection_new, countdata = [],
      correlation = correlation r\<rparr>"
  have "rule_new (rulepath r) (rule_yaml r) = Some ?r0" using l(3) by (simp add: rule_new_shape)
  moreover have "rule_after E ?r0 quiet log = Some (r, log')"
    using assms(2) detection_after_init [OF d] l(2) by (simp add: rule_after_def is_correlation_def)
  ultimately show thesis by (rule that)
qed

definition all_loaded :: "env \<Rightarrow> bool \<Rightarrow> rule_node list \<Rightarrow> bool" where
  "all_loaded E quiet rs \<longleftrightarrow> (\<forall>r \<in> set rs. loaded E quiet r \<and> \<not> is_correlation r)"

lemma related_of_loaded:
  "all_loaded E quiet others \<Longrightarrow>
     \<exists>log'. related_of E quiet i others log = Some (filter (\<lambda>r. is_referenced_rule r i) others, log')"
proof (induction others arbitrary: log)
  case (Cons r others)
  then have l: "loaded E quiet r" "\<not> is_correlation r" and rest: "all_loaded E quiet others"
    by (simp_all add: all_loaded_def)
  obtain r0 log1 where "rule_new (rulepath r) (rule_yaml r) = Some r0" "rule_after E r0 quiet log = Some (r, log1)"
    using loaded_copy [OF l] by blast
  with Cons.IH [OF rest, of log] Cons.IH [OF rest, of log1] show ?case by auto
qed simp

definition related :: "string list \<Rightarrow> rule_node list \<Rightarrow> rule_node list" where
  "related ids others = concat (map (\<lambda>i. filter (\<lambda>r. is_referenced_rule r i) others) ids)"

lemma create_related_loaded:
  assumes "all_loaded E quiet others"
  shows "\<exists>r log'. create_related_rule_nodes E quiet ids others log = Some (r, log') \<and>
     (if \<forall>i \<in> set ids. \<exists>o' \<in> set others. is_referenced_rule o' i then r = Inr (related ids others) else \<exists>e. r = Inl e)"
proof (induction ids arbitrary: log)
  case (Cons i ids)
  obtain log1 where r: "related_of E quiet i others log = Some (filter (\<lambda>r. is_referenced_rule r i) others, log1)"
    using related_of_loaded [OF assms] by blast
  obtain q log2 where q: "create_related_rule_nodes E quiet ids others log1 = Some (q, log2)"
    "if \<forall>i \<in> set ids. \<exists>o' \<in> set others. is_referenced_rule o' i then q = Inr (related ids others) else \<exists>e. q = Inl e"
    using Cons.IH by blast
  show ?case
    using q r by (auto simp: related_def list_ex_iff split: if_splits)
qed (simp add: related_def)

lemma loaded_cond:
  assumes "loaded E quiet r" and "\<not> is_correlation r"
  obtains n where "cond_node (detection r) = Some n" "node_ready n"
proof -
  obtain log' where d: "detection_init E (yindex (rule_yaml r) ''detection'') quiet [] = (Ok (detection r), log')"
    using loaded_detection(1) [OF assms] by blast
  obtain n where "cond_node (detection r) = Some n"
    using detection_init_cases [OF d] by (metis detection_new_with_data_def detection_node.select_convs(2))
  with detection_init_ready [OF d] that show thesis by blast
qed

lemma to_or_selection_node_loaded:
  assumes "\<forall>r \<in> set nodes. loaded E quiet r \<and> \<not> is_correlation r"
  shows "to_or_selection_node nodes = Some (OrNode (map (\<lambda>r. the (cond_node (detection r))) nodes))"
proof -
  have "those (map (\<lambda>r. cond_node (detection r)) nodes) = Some (map (\<lambda>r. the (cond_node (detection r))) nodes)"
    unfolding those_Some_iff using assms loaded_cond by (auto) (metis option.sel)
  then show ?thesis by (simp add: to_or_selection_node_def)
qed

lemma or_select_loaded:
  assumes "\<forall>r \<in> set nodes. loaded E quiet r \<and> \<not> is_correlation r"
  shows "node_select E' c rec (OrNode (map (\<lambda>r. the (cond_node (detection r))) nodes)) =
    Some (\<exists>r \<in> set nodes. detection_select E' c (detection r) rec = Some True)"
proof -
  have "node_select E' c rec (the (cond_node (detection r))) =
      Some (detection_select E' c (detection r) rec = Some True)" if r: "r \<in> set nodes" for r
  proof -
    obtain n where n: "cond_node (detection r) = Some n" "node_ready n"
      using loaded_cond assms r by blast
    then show ?thesis
      using node_ready_select [OF n(2), of E' c rec] by (simp add: detection_select_def)
  qed
  then have "any_opt (node_select E' c rec) (map (\<lambda>r. the (cond_node (detection r))) nodes) =
      Some (list_ex (\<lambda>r. detection_select E' c (detection r) rec = Some True) nodes)"
    by (induction nodes) (auto split: bool.split)
  then show ?thesis by (simp add: list_ex_iff)
qed


subsection \<open>Merging loaded rules\<close>

definition counts_events :: "rule_node \<Rightarrow> bool" where
  "counts_events rule \<longleftrightarrow>
     as_str (yindex (yindex (rule_yaml rule) ''correlation'') ''type'') \<in> {Some ''event_count'', Some ''value_count''}"

definition resolves :: "string list \<Rightarrow> rule_node list \<Rightarrow> bool" where
  "resolves ids others \<longleftrightarrow> (\<forall>i \<in> set ids. \<exists>r \<in> set others. is_referenced_rule r i)"

lemma set_related: "set (related ids others) = {r \<in> set others. \<exists>i \<in> set ids. is_referenced_rule r i}"
  by (auto simp: related_def)

lemma yindex_YHash: "yindex (YHash h) k = (case map_of h (YString k) of Some v \<Rightarrow> v | None \<Rightarrow> YBadValue)"
  by (simp add: yindex_def hash_get_def)

lemma map_of_filter_other: "k \<noteq> k' \<Longrightarrow> map_of (filter (\<lambda>e. fst e \<noteq> k') h) k = map_of h k"
  by (induction h) auto

lemma yindex_hash_insert:
  "yindex (YHash (hash_insert h k v)) k' = (if k = k' then v else yindex (YHash h) k')"
proof -
  have "map_of (filter (\<lambda>e. fst e \<noteq> YString k) h) (YString k) = None"
    by (auto simp: map_of_eq_None_iff)
  then show ?thesis
    by (auto simp: yindex_YHash hash_insert_def map_add_def map_of_filter_other split: option.splits)
qed

lemma check_correlation_counting:
  assumes "check_correlation rule = Inr ids" and "counts_events rule"
  shows "\<exists>h. rule_yaml rule = YHash h" and "ids \<noteq> []"
    and "as_str (yindex (yindex (rule_yaml rule) ''correlation'') ''type'') \<noteq> Some ''temporal''"
    and "as_str (yindex (yindex (rule_yaml rule) ''correlation'') ''type'') \<noteq> Some ''temporal_ordered''"
proof -
  show "\<exists>h. rule_yaml rule = YHash h"
    using assms(2) by (cases "rule_yaml rule") (auto simp: counts_events_def yindex_def)
  show "ids \<noteq> []" using assms(1) by (auto simp: check_correlation_def Let_def split: if_splits sum.splits)
qed (use assms(2) in \<open>auto simp: counts_events_def\<close>)

lemma counting_type_new:
  "counts_events rule \<Longrightarrow> rule_yaml rule = YHash h \<Longrightarrow>
     correlation_type_new (YHash (hash_insert h ''detection'' v)) \<in> {Some EventCount, Some ValueCount}"
  by (auto simp: correlation_type_new_def yindex_hash_insert counts_events_def)

lemma create_detection_total:
  "to_or_selection_node nodes = Some n \<Longrightarrow> \<exists>q. create_detection rule nodes = Some q"
  by (auto simp: create_detection_def split: sum.split prod.split option.split)

text \<open>What the merge of a counting rule does when every other rule is loaded.\<close>

lemma merge_loaded:
  assumes check: "check_correlation rule = Inr ids" and cnt: "counts_events rule"
    and others: "all_loaded E quiet (other_rules st)"
  obtains
    (unresolved) e log' where "\<not> resolves ids (other_rules st)"
      "merge_referenced_rule E quiet rule st = Some (rule, error_log quiet (rulepath rule) e (st\<lparr>error_stack := log'\<rparr>))"
  | (invalid) e log' where "resolves ids (other_rules st)"
      "create_detection rule (related ids (other_rules st)) = Some (Inl e)"
      "merge_referenced_rule E quiet rule st = Some (rule, error_log quiet (rulepath rule) e
         (st\<lparr>error_stack := log', other_rules :=
            if generates rule then other_rules st else filter (is_not_referenced_rule ids) (other_rules st)\<rparr>))"
  | (merged) r' d log' where "resolves ids (other_rules st)"
      "merge_referenced_rule E quiet rule st = Some (r', st\<lparr>error_stack := log', other_rules :=
            if generates rule then other_rules st else filter (is_not_referenced_rule ids) (other_rules st)\<rparr>)"
      "create_detection rule (related ids (other_rules st)) = Some (Inr d)"
      "merged_rule rule (related ids (other_rules st)) d = Some r'"
proof -
  note c = check_correlation_counting [OF check cnt]
  have merge: "merge_referenced_rule E quiet rule st =
      Option.bind (create_related_rule_nodes E quiet ids (other_rules st) (error_stack st))
             (\<lambda>(r, log1). let st1 = st\<lparr>error_stack := log1\<rparr> in
               case r of
                 Inl e \<Rightarrow> Some (rule, error_log quiet (rulepath rule) e st1)
               | Inr nodes \<Rightarrow>
                   (let st2 = (if generates rule then st1
                               else st1\<lparr>other_rules := filter (is_not_referenced_rule ids) (other_rules st1)\<rparr>)
                    in Option.bind (create_detection rule nodes) (\<lambda>d.
                      case d of
                        Inl e \<Rightarrow> Some (rule, error_log quiet (rulepath rule) e st2)
                      | Inr d \<Rightarrow> map_option (\<lambda>r'. (r', st2)) (merged_rule rule nodes d))))"
    using c(3,4) by (simp add: merge_referenced_rule_def check Let_def)
  obtain r log' where r: "create_related_rule_nodes E quiet ids (other_rules st) (error_stack st) = Some (r, log')"
    and rc: "if \<forall>i \<in> set ids. \<exists>o' \<in> set (other_rules st). is_referenced_rule o' i
       then r = Inr (related ids (other_rules st)) else \<exists>e. r = Inl e"
    using create_related_loaded [OF others] by blast
  show thesis
  proof (cases "resolves ids (other_rules st)")
    case False
    then obtain e where "r = Inl e" using rc by (auto simp: resolves_def split: if_splits)
    with r merge False unresolved show thesis by simp
  next
    case True
    then have rr: "r = Inr (related ids (other_rules st))" using rc by (auto simp: resolves_def)
    have "\<forall>r \<in> set (related ids (other_rules st)). loaded E quiet r \<and> \<not> is_correlation r"
      using others by (auto simp: set_related all_loaded_def)
    from create_detection_total [OF to_or_selection_node_loaded [OF this]]
    obtain q where q: "create_detection rule (related ids (other_rules st)) = Some q"
      by blast
    let ?st2 = "st\<lparr>error_stack := log', other_rules :=
            if generates rule then other_rules st else filter (is_not_referenced_rule ids) (other_rules st)\<rparr>"
    show thesis
    proof (cases q)
      case (Inl e)
      with r rr merge q True invalid [of e log'] show thesis by (simp add: Let_def split: if_splits)
    next
      case (Inr d)
      obtain h where h: "rule_yaml rule = YHash h" using c(1) by blast
      have "\<exists>r'. merged_rule rule (related ids (other_rules st)) d = Some r'"
        using counting_type_new [OF cnt h] by (auto simp: merged_rule_def h rule_new_with_detection_def)
      then obtain r' where r': "merged_rule rule (related ids (other_rules st)) d = Some r'" by blast
      with r rr merge q Inr True merged [of r' log' d] show thesis by (simp add: Let_def split: if_splits)
    qed
  qed
qed

lemma create_detection_Inr:
  assumes "create_detection rule nodes = Some (Inr d)"
  obtains op num field group_by tf n where
    "parse_correlation_condition (yindex (rule_yaml rule) ''correlation'') = Inr (op, num, field)"
    "get_group_by_from_yaml (rule_yaml rule) = Inr group_by"
    "to_or_selection_node nodes = Some n"
    "d = detection_new_with_data (extend_names nodes) (Some n)
       (Some \<lparr>field_name = field, by_field_name = group_by, cmp_op = op, cmp_num = num\<rparr>) (Some tf)"
  using assms by (auto simp: create_detection_def split: sum.splits prod.splits option.splits)

lemma merged_rule_fields:
  "merged_rule rule nodes d = Some r' \<Longrightarrow> detection r' = d \<and> rulepath r' = rulepath rule"
  by (auto simp: merged_rule_def rule_new_with_detection_def split: option.splits)

text \<open>
  C7: A counting correlation selects what the rules it refers to select. When every ordinary rule is
  loaded and the merge reports no error, the merged rule selects a record exactly when some rule
  that goes by one of the referenced names selects it, and it counts with the comparison, the
  number and the field of the correlation's condition and the fields of its \<open>group-by\<close>.
\<close>

theorem merge_selects_any:
  assumes "check_correlation rule = Inr ids" and "counts_events rule"
    and "all_loaded E quiet (other_rules st)"
    and "merge_referenced_rule E quiet rule st = Some (r', st')"
    and "parse_error_count st' = parse_error_count st"
  shows "detection_select E' c (detection r') rec =
      Some (\<exists>r \<in> set (other_rules st). (\<exists>i \<in> set ids. is_referenced_rule r i) \<and>
        detection_select E' c (detection r) rec = Some True) \<and>
    (\<exists>op num field group_by.
       parse_correlation_condition (yindex (rule_yaml rule) ''correlation'') = Inr (op, num, field) \<and>
       get_group_by_from_yaml (rule_yaml rule) = Inr group_by \<and>
       get_agg_condition r' = Some \<lparr>field_name = field, by_field_name = group_by, cmp_op = op, cmp_num = num\<rparr>)"
  using assms(1-3)
proof (cases rule: merge_loaded)
  case (unresolved e log')
  then show ?thesis using assms(4,5) by (auto simp: error_log_def Let_def)
next
  case (invalid e log')
  then show ?thesis using assms(4,5) by (auto simp: error_log_def Let_def)
next
  case (merged r'' d log')
  let ?nodes = "related ids (other_rules st)"
  have r': "r'' = r'" using merged(2) assms(4) by simp
  have l: "\<forall>r \<in> set ?nodes. loaded E quiet r \<and> \<not> is_correlation r"
    using assms(3) by (auto simp: set_related all_loaded_def)
  obtain op num field group_by tf n where cd:
    "parse_correlation_condition (yindex (rule_yaml rule) ''correlation'') = Inr (op, num, field)"
    "get_group_by_from_yaml (rule_yaml rule) = Inr group_by" "to_or_selection_node ?nodes = Some n"
    "d = detection_new_with_data (extend_names ?nodes) (Some n)
       (Some \<lparr>field_name = field, by_field_name = group_by, cmp_op = op, cmp_num = num\<rparr>) (Some tf)"
    using create_detection_Inr [OF merged(3)] by metis
  have d: "detection r' = d" using merged_rule_fields [OF merged(4)] r' by simp
  have "detection_select E' c (detection r') rec = node_select E' c rec n"
    by (simp add: d cd(4) detection_new_with_data_def detection_select_def)
  also have "\<dots> = Some (\<exists>r \<in> set ?nodes. detection_select E' c (detection r) rec = Some True)"
    using or_select_loaded [OF l] to_or_selection_node_loaded [OF l] cd(3) by simp
  finally show ?thesis
    using cd(1,2) d by (auto simp: set_related cd(4) detection_new_with_data_def get_agg_condition_def)
qed

lemma referenced_in_names: "is_referenced_rule r i \<Longrightarrow> i \<in> set (id_title_name r)"
  by (auto simp: is_referenced_rule_def id_title_name_def yindex_def split: option.splits)

text \<open>
  Two counting correlations cannot share a rule. The first one that does not ask to \<open>generate\<close>
  takes the rules it refers to out of the list, so a second one that refers to one of them is
  left as it was, without a condition to match, and is counted as a parse error.
\<close>

theorem merge_consumes:
  assumes "check_correlation c1 = Inr ids1" and "counts_events c1" and "\<not> generates c1"
    and "check_correlation c2 = Inr ids2" and "counts_events c2"
    and "i \<in> set ids1" and "i \<in> set ids2"
    and "all_loaded E quiet (other_rules st)" and "resolves ids1 (other_rules st)"
  shows "\<exists>r1 st1 st2. merge_rules E quiet [c1, c2] st = Some ([r1, c2], st2) \<and>
    merge_referenced_rule E quiet c1 st = Some (r1, st1) \<and> parse_error_count st2 = parse_error_count st1 + 1"
proof -
  have "\<exists>r1 st1. merge_referenced_rule E quiet c1 st = Some (r1, st1) \<and>
      other_rules st1 = filter (is_not_referenced_rule ids1) (other_rules st)"
    using assms(1,2,8)
  proof (cases rule: merge_loaded)
    case (unresolved e log')
    with assms(9) show ?thesis by simp
  qed (use assms(3) in \<open>simp_all add: error_log_def Let_def\<close>)
  then obtain r1 st1 where st1: "merge_referenced_rule E quiet c1 st = Some (r1, st1)"
    "other_rules st1 = filter (is_not_referenced_rule ids1) (other_rules st)" by blast
  have "\<not> is_referenced_rule r i" if "r \<in> set (other_rules st1)" for r
    using that assms(6) referenced_in_names [of r i] by (auto simp: st1(2) is_not_referenced_rule_def list_all_iff)
  then have nr: "\<not> resolves ids2 (other_rules st1)" using assms(7) by (auto simp: resolves_def)
  have l: "all_loaded E quiet (other_rules st1)" using assms(8) by (auto simp: st1(2) all_loaded_def)
  have "\<exists>st2. merge_referenced_rule E quiet c2 st1 = Some (c2, st2) \<and> parse_error_count st2 = parse_error_count st1 + 1"
    using assms(4,5) l by (cases rule: merge_loaded) (use nr in \<open>auto simp: error_log_def Let_def\<close>)
  with st1 show ?thesis by auto
qed


subsection \<open>The temporal pass does not panic on valid rules\<close>

lemma yindex_with_new_id: "k \<noteq> ''id'' \<Longrightarrow> yindex (with_new_id y i) k = yindex y k"
  by (cases "as_hash y") (auto simp: with_new_id_def as_simps_iff yindex_hash_insert)

lemma correlation_type_new_cong:
  "yindex y ''correlation'' = yindex y' ''correlation'' \<Longrightarrow> correlation_type_new y = correlation_type_new y'"
  by (simp only: correlation_type_new_def)

lemma hash_replace_map_of:
  "hash_replace h k v = Some h' \<Longrightarrow> map_of h' = (map_of h)(YString k \<mapsto> v)"
  by (induction h k v arbitrary: h' rule: hash_replace.induct) (auto split: if_splits)

lemma hash_replace_Some: "map_of h (YString k) \<noteq> None \<Longrightarrow> hash_replace h k v \<noteq> None"
  by (induction h k v rule: hash_replace.induct) auto

lemma yindex_yaml_replace:
  "yaml_replace y k v = Some y' \<Longrightarrow> yindex y' k' = (if k = k' then v else yindex y k')"
  by (auto simp: yaml_replace_def yindex_def hash_get_def as_simps_iff dest!: hash_replace_map_of split: option.splits)

lemma yaml_replace_Some: "yindex y k \<noteq> YBadValue \<Longrightarrow> \<exists>y'. yaml_replace y k v = Some y'"
  using hash_replace_Some by (fastforce simp: yaml_replace_def yindex_def hash_get_def split: option.splits)

lemma set_correlation_rules_Some:
  assumes "as_vec (yindex (yindex y ''correlation'') ''rules'') = Some ids"
  obtains y' where "set_correlation_rules y new = Some y'"
    "yindex (yindex y' ''correlation'') ''rules'' = YArray new"
    "yindex (yindex y' ''correlation'') ''type'' = yindex (yindex y ''correlation'') ''type''"
proof -
  have r: "yindex (yindex y ''correlation'') ''rules'' \<noteq> YBadValue" using assms by auto
  then have c: "yindex y ''correlation'' \<noteq> YBadValue" by (auto simp: yindex_def)
  obtain c' where c': "yaml_replace (yindex y ''correlation'') ''rules'' (YArray new) = Some c'"
    using yaml_replace_Some [OF r] by blast
  obtain y' where y': "yaml_replace y ''correlation'' c' = Some y'"
    using yaml_replace_Some [OF c] by blast
  have "set_correlation_rules y new = Some y'" using c' y' by (simp add: set_correlation_rules_def)
  then show thesis
    by (rule that) (simp_all add: yindex_yaml_replace [OF y'] yindex_yaml_replace [OF c'])
qed

lemma strings_of_map [simp]: "strings_of (map YString xs) = Some xs"
  by (induction xs) auto

definition temporal_refs :: "rule_node \<Rightarrow> string list" where
  "temporal_refs r = (case correlation r of Temporal xs \<Rightarrow> xs | TemporalOrdered xs \<Rightarrow> xs | _ \<Rightarrow> [])"

lemma temporal_node_total:
  assumes "is_temporal t" and "as_vec (yindex (yindex (rule_yaml t) ''correlation'') ''rules'') = Some ids"
    and "temporal_frame (rule_yaml t) \<noteq> None"
  obtains n where "temporal_node t (map YString xs) = Some n" "temporal_refs n = xs"
proof -
  obtain y' where y': "set_correlation_rules (rule_yaml t) (map YString xs) = Some y'"
    "yindex (yindex y' ''correlation'') ''rules'' = YArray (map YString xs)"
    "yindex (yindex y' ''correlation'') ''type'' = yindex (yindex (rule_yaml t) ''correlation'') ''type''"
    using set_correlation_rules_Some [OF assms(2)] by metis
  have "correlation_type_new y' \<in> {Some (Temporal xs), Some (TemporalOrdered xs)}"
    using assms(1) y'(2,3) by (auto simp: correlation_type_new_def is_temporal_def)
  then obtain c where c: "correlation_type_new y' = Some c" "c \<in> {Temporal xs, TemporalOrdered xs}" by auto
  obtain agg tf where f: "temporal_frame (rule_yaml t) = Some (agg, tf)" using assms(3) by auto
  show thesis
    using c f y'(1) that by (auto simp: temporal_node_def rule_new_def rule_new_with_detection_def temporal_refs_def)
qed

text \<open>A rule a temporal rule may refer to: an ordinary loaded rule, or a correlation.\<close>

definition referable :: "env \<Rightarrow> bool \<Rightarrow> rule_node \<Rightarrow> bool" where
  "referable E quiet r \<longleftrightarrow>
     (correlation r = NoCorrelation \<longrightarrow>
        correlation_type_new (rule_yaml r) = Some NoCorrelation \<and> (is_correlation r \<or> loaded E quiet r))"

definition string_ids :: "temporal_state \<Rightarrow> bool" where
  "string_ids st \<longleftrightarrow> (\<exists>xs. ref_ids st = map YString xs)"

lemma rule_after_new_id:
  assumes "referable E quiet r" and "correlation r = NoCorrelation"
  obtains r0 node log' where "rule_new (rulepath r) (with_new_id (rule_yaml r) i) = Some r0"
    "rule_after E r0 quiet log = Some (node, log')"
    "\<not> is_correlation r \<Longrightarrow> detection node = detection r"
proof -
  let ?y = "with_new_id (rule_yaml r) i"
  have y: "yindex ?y ''correlation'' = yindex (rule_yaml r) ''correlation''"
    "yindex ?y ''detection'' = yindex (rule_yaml r) ''detection''" by (simp_all add: yindex_with_new_id)
  have ct: "correlation_type_new ?y = Some NoCorrelation"
    using correlation_type_new_cong [OF y(1)] assms by (simp add: referable_def)
  let ?r0 = "\<lparr>rulepath = rulepath r, rule_yaml = ?y, detection = detection_new, countdata = [], correlation = NoCorrelation\<rparr>"
  have r0: "rule_new (rulepath r) ?y = Some ?r0" using ct by (simp add: rule_new_shape)
  show thesis
  proof (cases "is_correlation r")
    case True
    then have "rule_after E ?r0 quiet log = Some (?r0, log)"
      using y(1) by (simp add: rule_after_def is_correlation_def)
    from that [OF r0 this] True show thesis by simp
  next
    case False
    then have "loaded E quiet r" using assms by (simp add: referable_def)
    from loaded_detection(1) [OF this False, of log]
    obtain log' where "detection_init E (yindex (rule_yaml r) ''detection'') quiet log = (Ok (detection r), log')" by blast
    from detection_after_init [OF this]
    have "rule_after E ?r0 quiet log = Some (?r0\<lparr>detection := detection r\<rparr>, log')"
      using y False by (simp add: rule_after_def is_correlation_def)
    from that [OF r0 this] show thesis by simp
  qed
qed

text \<open>A copy selects what the original does and goes by the id it was given.\<close>

definition copy_of :: "rule_node \<Rightarrow> rule_node \<Rightarrow> string \<Rightarrow> bool" where
  "copy_of r r' i \<longleftrightarrow> (\<exists>g. correlation r' = TemporalRef g i) \<and> cond_node (detection r') = cond_node (detection r)"

definition copies :: "rule_node list \<Rightarrow> string set \<Rightarrow> temporal_state \<Rightarrow> string \<Rightarrow> bool" where
  "copies others J st i \<longleftrightarrow>
     (\<exists>r' \<in> set (ref_rules st). \<exists>r \<in> set others. (\<exists>j \<in> J. is_referenced_rule r j) \<and> copy_of r r' i)"

lemma reference_step_total:
  assumes "referable E quiet r" and "temporal_frame (rule_yaml t) \<noteq> None" and "string_ids st"
  obtains r' st' where "reference_step E uuid quiet t i r st = Some (r', st')" "referable E quiet r'" "string_ids st'"
proof -
  consider "\<not> is_referenced_rule r i" | "is_referenced_rule r i" "correlation r \<noteq> NoCorrelation"
    | "is_referenced_rule r i" "correlation r = NoCorrelation" by blast
  then show thesis
  proof cases
    case 1
    with that assms show thesis by (simp add: reference_step_def)
  next
    case 2
    obtain xs where "ref_ids st = map YString xs" using assms(3) by (auto simp: string_ids_def)
    then have "string_ids (st\<lparr>ref_ids := ref_ids st @ [YString i]\<rparr>)"
      by (auto simp: string_ids_def intro: exI [of _ "xs @ [i]"])
    moreover have "referable E quiet (r\<lparr>correlation := TemporalRef g i\<rparr>)" for g by (simp add: referable_def)
    ultimately show thesis using 2 that by (simp add: reference_step_def)
  next
    case 3
    obtain r0 node log' where n: "rule_new (rulepath r) (with_new_id (rule_yaml r) (uuid (drawn st))) = Some r0"
      "rule_after E r0 quiet (t_log st) = Some (node, log')"
      using rule_after_new_id [OF assms(1) 3(2)] by metis
    obtain agg tf where f: "temporal_frame (rule_yaml t) = Some (agg, tf)" using assms(2) by auto
    obtain xs where "ref_ids st = map YString xs" using assms(3) by (auto simp: string_ids_def)
    then have "ref_ids st @ [YString (uuid (drawn st))] = map YString (xs @ [uuid (drawn st)])" by simp
    then have ids: "\<exists>ys. ref_ids st @ [YString (uuid (drawn st))] = map YString ys" by blast
    show thesis
      using 3 n f ids assms(1) that by (auto simp: reference_step_def Let_def string_ids_def)
  qed
qed

lemma reference_others_total:
  assumes "temporal_frame (rule_yaml t) \<noteq> None"
  shows "\<forall>r \<in> set others. referable E quiet r \<Longrightarrow> string_ids st \<Longrightarrow>
    \<exists>os st'. reference_others E uuid quiet t i others st = Some (os, st') \<and>
      (\<forall>r \<in> set os. referable E quiet r) \<and> string_ids st'"
proof (induction others arbitrary: st)
  case (Cons r others)
  obtain r' st1 where s: "reference_step E uuid quiet t i r st = Some (r', st1)" "referable E quiet r'" "string_ids st1"
    using reference_step_total [OF _ assms Cons.prems(2)] Cons.prems(1) by (metis list.set_intros(1))
  from Cons.IH [OF _ s(3)] Cons.prems(1) s show ?case by auto
qed simp

lemma reference_ids_total:
  assumes "temporal_frame (rule_yaml t) \<noteq> None"
  shows "\<forall>r \<in> set others. referable E quiet r \<Longrightarrow> string_ids st \<Longrightarrow>
    \<exists>os st'. reference_ids E uuid quiet t ids others st = Some (os, st') \<and>
      (\<forall>r \<in> set os. referable E quiet r) \<and> string_ids st'"
proof (induction ids arbitrary: others st)
  case (Cons i ids)
  from reference_others_total [OF assms Cons.prems, of uuid "unwrap_or [] (as_str i)"]
  obtain os st1 where s: "reference_others E uuid quiet t (unwrap_or [] (as_str i)) others st = Some (os, st1)"
    "\<forall>r \<in> set os. referable E quiet r" "string_ids st1" by blast
  from Cons.IH [OF s(2,3)] s show ?case by auto
qed simp

definition temporal_valid :: "rule_node \<Rightarrow> bool" where
  "temporal_valid t \<longleftrightarrow> is_temporal t \<and> temporal_frame (rule_yaml t) \<noteq> None"

lemma temporal_loop_total:
  "\<forall>t \<in> set ts. temporal_valid t \<Longrightarrow> \<forall>r \<in> set others. referable E quiet r \<Longrightarrow>
     \<exists>res. temporal_loop E uuid quiet ts others st = Some res"
proof (induction ts arbitrary: others st)
  case (Cons t ts)
  then have t: "is_temporal t" "temporal_frame (rule_yaml t) \<noteq> None" by (simp_all add: temporal_valid_def)
  show ?case
  proof (cases "as_vec (yindex (yindex (rule_yaml t) ''correlation'') ''rules'')")
    case (Some ids)
    have "string_ids (st\<lparr>ref_ids := []\<rparr>)" by (auto simp: string_ids_def)
    from reference_ids_total [OF t(2) Cons.prems(2) this]
    obtain os st1 where s: "reference_ids E uuid quiet t ids others (st\<lparr>ref_ids := []\<rparr>) = Some (os, st1)"
      "\<forall>r \<in> set os. referable E quiet r" "string_ids st1" by blast
    then obtain xs where "ref_ids st1 = map YString xs" by (auto simp: string_ids_def)
    with temporal_node_total [OF t(1) Some t(2)] obtain n where n: "temporal_node t (ref_ids st1) = Some n" by metis
    have "\<exists>res. temporal_loop E uuid quiet ts os st1 = Some res"
      using Cons.IH [OF _ s(2)] Cons.prems(1) by simp
    then show ?thesis using Some s(1) n by auto
  qed (use Cons in simp)
qed simp


subsection \<open>The whole pass does not panic\<close>

text \<open>A rule list as the loader leaves it: every rule was made from its YAML, the ordinary ones are loaded.\<close>

definition well_loaded :: "env \<Rightarrow> bool \<Rightarrow> rule_node \<Rightarrow> bool" where
  "well_loaded E quiet r \<longleftrightarrow>
     correlation_type_new (rule_yaml r) = Some (correlation r) \<and> (is_correlation r \<or> loaded E quiet r)"

lemma well_loaded_referable: "well_loaded E quiet r \<Longrightarrow> referable E quiet r"
  by (simp add: well_loaded_def referable_def)

lemma merged_rule_well_loaded:
  assumes "merged_rule rule nodes d = Some r'" and "is_correlation rule"
  shows "well_loaded E quiet r'"
proof -
  obtain h c v where h: "rule_yaml rule = YHash h" and y: "rule_yaml r' = YHash (hash_insert h ''detection'' v)"
    and c: "correlation_type_new (rule_yaml r') = Some (correlation r')"
    using assms(1) by (auto simp: merged_rule_def rule_new_with_detection_def as_simps_iff split: option.splits)
  have "is_correlation r'" using assms(2) by (simp add: is_correlation_def h y yindex_hash_insert)
  with c show ?thesis by (simp add: well_loaded_def)
qed

lemma merge_total:
  assumes "is_correlation rule" and "\<not> is_temporal rule" and "well_loaded E quiet rule"
    and "all_loaded E quiet (other_rules st)"
  shows "\<exists>r' st'. merge_referenced_rule E quiet rule st = Some (r', st') \<and> well_loaded E quiet r' \<and>
    set (other_rules st') \<subseteq> set (other_rules st)"
proof (cases "check_correlation rule")
  case (Inl m)
  with assms(3) show ?thesis by (simp add: merge_referenced_rule_def error_log_def Let_def)
next
  case (Inr ids)
  then have cnt: "counts_events rule"
    using assms(2) by (auto simp: check_correlation_def counts_events_def is_temporal_def Let_def split: if_splits)
  show ?thesis
    using Inr cnt assms(4)
  proof (cases rule: merge_loaded)
    case (merged r' d log')
    with merged_rule_well_loaded [OF merged(4) assms(1)] show ?thesis by auto
  qed (use assms(3) in \<open>auto simp: error_log_def Let_def\<close>)
qed

lemma merge_rules_total:
  "\<forall>r \<in> set rules. is_correlation r \<and> \<not> is_temporal r \<and> well_loaded E quiet r \<Longrightarrow>
   all_loaded E quiet (other_rules st) \<Longrightarrow>
     \<exists>rs st'. merge_rules E quiet rules st = Some (rs, st') \<and> (\<forall>r \<in> set rs. well_loaded E quiet r) \<and>
       set (other_rules st') \<subseteq> set (other_rules st)"
proof (induction rules arbitrary: st)
  case (Cons rule rules)
  then have r: "is_correlation rule" "\<not> is_temporal rule" "well_loaded E quiet rule" by simp_all
  obtain r' st1 where s: "merge_referenced_rule E quiet rule st = Some (r', st1)" "well_loaded E quiet r'"
    "set (other_rules st1) \<subseteq> set (other_rules st)"
    using merge_total [OF r Cons.prems(2)] by blast
  have "all_loaded E quiet (other_rules st1)" using Cons.prems(2) s(3) by (auto simp: all_loaded_def)
  with Cons.IH Cons.prems(1) obtain rs st2 where "merge_rules E quiet rules st1 = Some (rs, st2)"
    "\<forall>r \<in> set rs. well_loaded E quiet r" "set (other_rules st2) \<subseteq> set (other_rules st1)" by fastforce
  with s show ?case by auto
qed simp

lemma parse_correlation_total:
  assumes "\<forall>r \<in> set rules. well_loaded E quiet r"
    and "\<forall>r \<in> set rules. is_correlation r \<and> is_temporal r \<longrightarrow> temporal_frame (rule_yaml r) \<noteq> None"
  shows "parse_correlation_rules E uuid quiet rules log errors \<noteq> None"
proof -
  let ?corr = "filter is_correlation rules"
  let ?st = "\<lparr>other_rules = filter (\<lambda>r. \<not> is_correlation r) rules, error_stack = log, parse_error_count = errors\<rparr>"
  have all: "all_loaded E quiet (other_rules ?st)" using assms(1) by (auto simp: all_loaded_def well_loaded_def)
  obtain rs st1 where s: "merge_rules E quiet (filter (\<lambda>r. \<not> is_temporal r) ?corr) ?st = Some (rs, st1)"
    "\<forall>r \<in> set rs. well_loaded E quiet r" "set (other_rules st1) \<subseteq> set (other_rules ?st)"
    using merge_rules_total [OF _ all, of "filter (\<lambda>r. \<not> is_temporal r) ?corr"] assms(1) by auto
  have "\<forall>r \<in> set (rs @ other_rules st1). referable E quiet r"
    using s(2,3) assms(1) well_loaded_referable by auto
  from temporal_loop_total [OF _ this, of "filter is_temporal ?corr" uuid "no_temporal (error_stack st1)"] assms(2)
  obtain res where "temporal_loop E uuid quiet (filter is_temporal ?corr) (rs @ other_rules st1)
      (no_temporal (error_stack st1)) = Some res"
    by (auto simp: temporal_valid_def)
  with s(1) show ?thesis
    by (auto simp: parse_correlation_rules_def Let_def parse_temporal_rules_def split: prod.split)
qed

subsection \<open>A temporal rule without a valid time span panics\<close>

lemma temporal_loop_panics:
  "t \<in> set ts \<Longrightarrow> as_vec (yindex (yindex (rule_yaml t) ''correlation'') ''rules'') \<noteq> None \<Longrightarrow>
     temporal_frame (rule_yaml t) = None \<Longrightarrow> temporal_loop E uuid quiet ts others st = None"
proof (induction ts arbitrary: others st)
  case (Cons t' ts)
  show ?case
  proof (cases "t = t'")
    case True
    then have "temporal_node t' ids = None" for ids
      using Cons.prems(3) by (auto simp: temporal_node_def bind_eq_None_conv)
    then show ?thesis using Cons.prems True by (auto simp: bind_eq_None_conv split: option.split)
  next
    case False
    with Cons show ?thesis by (auto simp: bind_eq_None_conv split: option.split)
  qed
qed simp

text \<open>
  A temporal rule without a time span makes the whole pass panic, whatever the other rules are:
  the check that reports a missing time span is only reached by counting rules.
\<close>

theorem temporal_without_timespan_panics:
  assumes "t \<in> set rules" and "is_correlation t" and "is_temporal t"
    and "as_vec (yindex (yindex (rule_yaml t) ''correlation'') ''rules'') \<noteq> None"
    and "as_str (yindex (yindex (rule_yaml t) ''correlation'') ''timespan'') = None"
  shows "parse_correlation_rules E uuid quiet rules log errors = None"
proof -
  have "temporal_frame (rule_yaml t) = None"
    using assms(5) by (simp add: temporal_frame_def split: sum.split)
  from temporal_loop_panics [OF _ assms(4) this] assms(1-3)
  show ?thesis
    by (auto simp: parse_correlation_rules_def Let_def parse_temporal_rules_def bind_eq_None_conv)
qed


subsection \<open>Every reference of a temporal rule resolves\<close>

definition refs_resolve :: "rule_node list \<Rightarrow> string set \<Rightarrow> temporal_state \<Rightarrow> bool" where
  "refs_resolve others J st \<longleftrightarrow> (\<exists>xs. ref_ids st = map YString xs \<and> (\<forall>i \<in> set xs. copies others J st i))"

definition plain_reference :: "env \<Rightarrow> bool \<Rightarrow> rule_node \<Rightarrow> string \<Rightarrow> bool" where
  "plain_reference E quiet r i \<longleftrightarrow> (is_referenced_rule r i \<longrightarrow> \<not> is_correlation r \<and> loaded E quiet r)"

lemma plain_no_correlation:
  assumes "\<not> is_correlation r" and "loaded E quiet r"
  shows "correlation r = NoCorrelation" and "referable E quiet r"
proof -
  have "correlation_type_new (rule_yaml r) = Some NoCorrelation"
    using assms(1) by (simp add: correlation_type_new_def is_correlation_def yindex_def)
  moreover have "correlation_type_new (rule_yaml r) = Some (correlation r)"
    using loaded_detection(3) [OF assms(2,1)] .
  ultimately show "correlation r = NoCorrelation" "referable E quiet r"
    using assms by (simp_all add: referable_def)
qed

lemma copies_mono:
  "copies others J st i \<Longrightarrow> set (ref_rules st) \<subseteq> set (ref_rules st') \<Longrightarrow> copies others J st' i"
  by (auto simp: copies_def)

lemma reference_step_resolves:
  assumes r: "r \<in> set others" and j: "i \<in> J" and plain: "plain_reference E quiet r i" and inv: "refs_resolve others J st"
    and step: "reference_step E uuid quiet t i r st = Some (r', st')"
  shows "r' = r \<and> refs_resolve others J st' \<and> set (ref_rules st) \<subseteq> set (ref_rules st')"
proof (cases "is_referenced_rule r i")
  case False
  with step inv show ?thesis by (simp add: reference_step_def)
next
  case True
  with plain have p: "\<not> is_correlation r" "loaded E quiet r" by (simp_all add: plain_reference_def)
  note nc = plain_no_correlation [OF p]
  let ?id = "uuid (drawn st)"
  obtain r0 node log' where n: "rule_new (rulepath r) (with_new_id (rule_yaml r) ?id) = Some r0"
    "rule_after E r0 quiet (t_log st) = Some (node, log')" "detection node = detection r"
    using rule_after_new_id [OF nc(2,1)] p(1) by metis
  obtain agg tf where st': "r' = r"
    "ref_rules st' = ref_rules st @ [node\<lparr>correlation := TemporalRef (generates t) ?id,
       detection := (detection node)\<lparr>aggregation_condition := Some agg, timeframe := Some tf\<rparr>\<rparr>]"
    "ref_ids st' = ref_ids st @ [YString ?id]"
    using step True nc(1) n by (auto simp: reference_step_def Let_def)
  obtain xs where xs: "ref_ids st = map YString xs" "\<forall>i \<in> set xs. copies others J st i"
    using inv by (auto simp: refs_resolve_def)
  have "copies others J st' ?id" using r n(3) j True by (auto simp: copies_def copy_of_def st'(2))
  moreover have "\<forall>i \<in> set xs. copies others J st' i" using xs(2) by (auto intro: copies_mono simp: st'(2))
  ultimately have "refs_resolve others J st'"
    unfolding refs_resolve_def using xs(1) by (intro exI [of _ "xs @ [?id]"]) (auto simp: st'(3))
  then show ?thesis by (auto simp: st')
qed

lemma reference_others_resolves:
  "i \<in> J \<Longrightarrow> set rs \<subseteq> set others \<Longrightarrow> \<forall>r \<in> set rs. plain_reference E quiet r i \<Longrightarrow> refs_resolve others J st \<Longrightarrow>
   reference_others E uuid quiet t i rs st = Some (rs', st') \<Longrightarrow>
     rs' = rs \<and> refs_resolve others J st' \<and> set (ref_rules st) \<subseteq> set (ref_rules st')"
proof (induction rs arbitrary: st rs')
  case (Cons r rs)
  from Cons.prems(5) obtain r' st1 rs1 where s: "reference_step E uuid quiet t i r st = Some (r', st1)"
    "reference_others E uuid quiet t i rs st1 = Some (rs1, st')" "rs' = r' # rs1"
    by (auto simp: bind_eq_Some_conv)
  from reference_step_resolves [OF _ Cons.prems(1) _ Cons.prems(4) s(1)] Cons.prems(2,3)
  have "r' = r" "refs_resolve others J st1" "set (ref_rules st) \<subseteq> set (ref_rules st1)" by auto
  with Cons.IH [OF _ _ _ _ s(2)] Cons.prems(1-3) s(3) show ?case by auto
qed simp

lemma reference_ids_resolves:
  "\<forall>i \<in> set ids. unwrap_or [] (as_str i) \<in> J \<and> (\<forall>r \<in> set others. plain_reference E quiet r (unwrap_or [] (as_str i))) \<Longrightarrow> refs_resolve others J st \<Longrightarrow>
   reference_ids E uuid quiet t ids others st = Some (os, st') \<Longrightarrow>
     os = others \<and> refs_resolve others J st' \<and> set (ref_rules st) \<subseteq> set (ref_rules st')"
proof (induction ids arbitrary: st)
  case (Cons i ids)
  from Cons.prems(3) obtain os1 st1 where
    s: "reference_others E uuid quiet t (unwrap_or [] (as_str i)) others st = Some (os1, st1)"
    "reference_ids E uuid quiet t ids os1 st1 = Some (os, st')"
    by (auto simp: bind_eq_Some_conv)
  from reference_others_resolves [OF _ _ _ Cons.prems(2) s(1)] Cons.prems(1)
  have "os1 = others" "refs_resolve others J st1" "set (ref_rules st) \<subseteq> set (ref_rules st1)" by auto
  with Cons.IH [of st1] Cons.prems(1) s(2) show ?case by auto
qed simp

definition rule_refs :: "rule_node \<Rightarrow> string list" where
  "rule_refs t = (case as_vec (yindex (yindex (rule_yaml t) ''correlation'') ''rules'') of
     None \<Rightarrow> [] | Some ids \<Rightarrow> map (\<lambda>i. unwrap_or [] (as_str i)) ids)"

definition has_rules :: "rule_node \<Rightarrow> bool" where
  "has_rules t \<longleftrightarrow> as_vec (yindex (yindex (rule_yaml t) ''correlation'') ''rules'') \<noteq> None"

lemma temporal_node_refs:
  assumes "temporal_node t (map YString xs) = Some n" and "is_temporal t"
    and "as_vec (yindex (yindex (rule_yaml t) ''correlation'') ''rules'') \<noteq> None"
  shows "temporal_refs n = xs"
proof -
  have "temporal_frame (rule_yaml t) \<noteq> None" using assms(1) by (auto simp: temporal_node_def bind_eq_Some_conv)
  with temporal_node_total [OF assms(2)] assms(1,3) show ?thesis by (metis option.exhaust option.inject)
qed

lemma temporal_loop_resolves:
  "\<forall>t \<in> set ts. is_temporal t \<and> (\<forall>i \<in> set (rule_refs t). \<forall>r \<in> set others. plain_reference E quiet r i) \<Longrightarrow>
   temporal_loop E uuid quiet ts others st = Some (nodes, os, st') \<Longrightarrow>
     os = others \<and> set (ref_rules st) \<subseteq> set (ref_rules st') \<and>
     list_all2 (\<lambda>t n. \<forall>i \<in> set (temporal_refs n). copies others (set (rule_refs t)) st' i) (filter has_rules ts) nodes"
proof (induction ts arbitrary: st nodes)
  case (Cons t ts)
  let ?J = "set (rule_refs t)"
  show ?case
  proof (cases "as_vec (yindex (yindex (rule_yaml t) ''correlation'') ''rules'')")
    case (Some ids)
    from Cons.prems(2) Some obtain os1 st1 n ns where
      s: "reference_ids E uuid quiet t ids others (st\<lparr>ref_ids := []\<rparr>) = Some (os1, st1)"
      "temporal_node t (ref_ids st1) = Some n" "temporal_loop E uuid quiet ts os1 st1 = Some (ns, os, st')"
      "nodes = n # ns"
      by (auto simp: bind_eq_Some_conv)
    have "refs_resolve others ?J (st\<lparr>ref_ids := []\<rparr>)" by (simp add: refs_resolve_def)
    from reference_ids_resolves [OF _ this s(1)] Cons.prems(1)
    have o1: "os1 = others" "refs_resolve others ?J st1" "set (ref_rules st) \<subseteq> set (ref_rules st1)"
      by (auto simp: rule_refs_def Some)
    from Cons.IH [of st1 ns] Cons.prems(1) s(3) o1(1)
    have ih: "os = others" "set (ref_rules st1) \<subseteq> set (ref_rules st')"
      "list_all2 (\<lambda>t n. \<forall>i \<in> set (temporal_refs n). copies others (set (rule_refs t)) st' i) (filter has_rules ts) ns"
      by auto
    obtain xs where xs: "ref_ids st1 = map YString xs" "\<forall>i \<in> set xs. copies others ?J st1 i"
      using o1(2) by (auto simp: refs_resolve_def)
    have "temporal_refs n = xs" using temporal_node_refs [of t xs n] s(2) xs(1) Cons.prems(1) Some by simp
    with xs(2) ih(2) have "\<forall>i \<in> set (temporal_refs n). copies others ?J st' i" by (auto intro: copies_mono)
    moreover have "has_rules t" by (simp add: has_rules_def Some)
    ultimately show ?thesis using ih o1(3) s(4) by auto
  qed (use Cons in \<open>simp add: rule_refs_def has_rules_def\<close>)
qed simp

text \<open>
  C15: Every reference of a temporal rule resolves. When temporal rules refer to ordinary loaded
  rules, each identifier in a parsed temporal rule belongs to a rule of the final list that is
  marked as referred to and selects exactly what the rule it was copied from selects, and the
  original goes by a name the temporal rule lists.
\<close>

theorem temporal_references_resolve:
  assumes "parse_temporal_rules E uuid quiet ts others log = Some (nodes, rules, log')"
    and "\<forall>t \<in> set ts. is_temporal t \<and> (\<forall>i \<in> set (rule_refs t). \<forall>r \<in> set others. plain_reference E quiet r i)"
  shows "list_all2 (\<lambda>t n. \<forall>i \<in> set (temporal_refs n).
      \<exists>r' \<in> set rules. (\<exists>g. correlation r' = TemporalRef g i) \<and>
        (\<exists>r \<in> set others. (\<exists>j \<in> set (rule_refs t). is_referenced_rule r j) \<and>
          (\<forall>E' c rec. detection_select E' c (detection r') rec = detection_select E' c (detection r) rec)))
    (filter has_rules ts) nodes"
proof -
  obtain os st' where t: "temporal_loop E uuid quiet ts others (no_temporal log) = Some (nodes, os, st')"
    "rules = filter (is_not_referenced_rule (del_ids st')) os @ ref_rules st'"
    using assms(1) by (auto simp: parse_temporal_rules_def)
  have same: "copy_of r r' i \<Longrightarrow> detection_select E' c (detection r') rec = detection_select E' c (detection r) rec"
    for r r' i E' c rec by (simp add: copy_of_def detection_select_def)
  from temporal_loop_resolves [OF assms(2) t(1)]
  have "list_all2 (\<lambda>t n. \<forall>i \<in> set (temporal_refs n). copies others (set (rule_refs t)) st' i)
      (filter has_rules ts) nodes" by blast
  then show ?thesis
  proof (rule list_all2_mono, intro ballI)
    fix t n i assume "\<forall>i \<in> set (temporal_refs n). copies others (set (rule_refs t)) st' i" "i \<in> set (temporal_refs n)"
    then obtain r' r j where "r' \<in> set (ref_rules st')" "r \<in> set others" "j \<in> set (rule_refs t)"
      "is_referenced_rule r j" and c: "copy_of r r' i"
      by (auto simp: copies_def)
    then have r: "r' \<in> set rules" "\<exists>j \<in> set (rule_refs t). is_referenced_rule r j" "r \<in> set others"
      by (auto simp: t(2))
    have "\<exists>g. correlation r' = TemporalRef g i" using c by (simp add: copy_of_def)
    with r same [OF c] show "\<exists>r' \<in> set rules. (\<exists>g. correlation r' = TemporalRef g i) \<and>
        (\<exists>r \<in> set others. (\<exists>j \<in> set (rule_refs t). is_referenced_rule r j) \<and>
          (\<forall>E' c rec. detection_select E' c (detection r') rec = detection_select E' c (detection r) rec))"
      by blast
  qed
qed

subsection \<open>Witnesses\<close>

definition sample_counting :: rule_node where
  "sample_counting =
     \<lparr>rulepath = ''c.yml'',
      rule_yaml = YHash [(YString ''correlation'', YHash
        [(YString ''type'', YString ''event_count''), (YString ''rules'', YArray [YString ''r1'']),
         (YString ''group-by'', YArray [YString ''Computer'']), (YString ''timespan'', YString ''1m''),
         (YString ''condition'', YHash [(YString ''gte'', YInteger 3)])])],
      detection = detection_new, countdata = [], correlation = EventCount\<rparr>"

definition sample_state :: parse_state where
  "sample_state = \<lparr>other_rules = [sample_base], error_stack = [], parse_error_count = 0\<rparr>"

lemma sample_base_loaded: "loaded env0 True sample_base" "\<not> is_correlation sample_base"
  using sample_base_init by (auto simp: loaded_def is_correlation_def sample_base_yaml)

lemma sample_state_loaded: "all_loaded env0 True (other_rules sample_state)"
  using sample_base_loaded by (simp add: all_loaded_def sample_state_def)

lemma sample_counting_checks:
  "check_correlation sample_counting = Inr [''r1'']" "counts_events sample_counting" "\<not> generates sample_counting"
  by code_simp+

lemma sample_resolves: "resolves [''r1''] (other_rules sample_state)"
  by (simp add: resolves_def sample_state_def is_referenced_rule_def sample_base_def hash_get_def)

lemma sample_merge:
  "\<exists>r' st'. merge_referenced_rule env0 True sample_counting sample_state = Some (r', st') \<and>
     parse_error_count st' = parse_error_count sample_state"
  using sample_counting_checks(1,2) sample_state_loaded
proof (cases rule: merge_loaded)
  case (unresolved e log')
  with sample_resolves show ?thesis by simp
next
  case (merged r' d log')
  then show ?thesis by simp
next
  case (invalid e log')
  obtain op num field where p:
    "parse_correlation_condition (yindex (rule_yaml sample_counting) ''correlation'') = Inr (op, num, field)"
    by (simp add: sample_counting_def yindex_def hash_get_def parse_correlation_condition_def cmp_of_key_def)
  have "\<exists>g. get_group_by_from_yaml (rule_yaml sample_counting) = Inr g"
    "as_str (yindex (yindex (rule_yaml sample_counting) ''correlation'') ''timespan'') = Some ''1m''"
    by (simp_all add: sample_counting_def yindex_def hash_get_def get_group_by_from_yaml_def)
  moreover have "\<exists>tf. parse_timespan ''1m'' = Inr tf" by (simp add: parse_timespan_def ends_with_def)
  ultimately have cd: "\<exists>d. create_detection sample_counting nodes = Some (Inr d)"
    if "to_or_selection_node nodes = Some n" for nodes n
    using that p by (auto simp: create_detection_def)
  have "\<forall>r \<in> set (related [''r1''] (other_rules sample_state)). loaded env0 True r \<and> \<not> is_correlation r"
    using sample_state_loaded by (auto simp: set_related all_loaded_def)
  from cd [OF to_or_selection_node_loaded [OF this]] invalid(2) show ?thesis by simp
qed

theorem merge_selects_any_witness:
  "\<exists>r' st'. merge_referenced_rule env0 True sample_counting sample_state = Some (r', st') \<and>
     detection_select env0 new_alias_config (detection r') blank_record =
       Some (\<exists>r \<in> set (other_rules sample_state). (\<exists>i \<in> set [''r1'']. is_referenced_rule r i) \<and>
         detection_select env0 new_alias_config (detection r) blank_record = Some True)"
proof -
  obtain r' st' where m: "merge_referenced_rule env0 True sample_counting sample_state = Some (r', st')"
    "parse_error_count st' = parse_error_count sample_state" using sample_merge by blast
  from merge_selects_any [OF sample_counting_checks(1,2) sample_state_loaded m] m show ?thesis by blast
qed

theorem merge_consumes_witness:
  "\<exists>r1 st1 st2. merge_rules env0 True [sample_counting, sample_counting] sample_state = Some ([r1, sample_counting], st2) \<and>
    merge_referenced_rule env0 True sample_counting sample_state = Some (r1, st1) \<and>
    parse_error_count st2 = parse_error_count st1 + 1"
  by (rule merge_consumes [OF sample_counting_checks sample_counting_checks(1,2) _ _ sample_state_loaded sample_resolves])
     simp_all

definition sample_temporal :: "(yaml \<times> yaml) list \<Rightarrow> rule_node" where
  "sample_temporal span =
     \<lparr>rulepath = ''t.yml'',
      rule_yaml = YHash [(YString ''correlation'', YHash
        ([(YString ''type'', YString ''temporal''), (YString ''rules'', YArray [YString ''r1'']),
          (YString ''group-by'', YArray [YString ''Computer''])] @ span))],
      detection = detection_new, countdata = [], correlation = Temporal [''r1'']\<rparr>"

abbreviation minute :: "(yaml \<times> yaml) list" where
  "minute \<equiv> [(YString ''timespan'', YString ''1m'')]"

lemma sample_temporal_facts:
  "is_correlation (sample_temporal s)" "is_temporal (sample_temporal s)"
  "correlation_type_new (rule_yaml (sample_temporal s)) = Some (correlation (sample_temporal s))"
  "as_vec (yindex (yindex (rule_yaml (sample_temporal s)) ''correlation'') ''rules'') = Some [YString ''r1'']"
  by (simp_all add: sample_temporal_def is_correlation_def is_temporal_def correlation_type_new_def yindex_def hash_get_def)

lemma sample_temporal_frame: "temporal_frame (rule_yaml (sample_temporal minute)) \<noteq> None"
  by (simp add: sample_temporal_def temporal_frame_def yindex_def hash_get_def get_group_by_from_yaml_def
      parse_timespan_def ends_with_def)

lemma sample_base_well_loaded: "well_loaded env0 True sample_base"
  using sample_base_loaded loaded_detection(3) [OF sample_base_loaded] by (simp add: well_loaded_def)

theorem temporal_without_timespan_panics_witness:
  "parse_correlation_rules env0 (\<lambda>n. ''uuid'') True [sample_base, sample_temporal []] [] 0 = None"
proof (rule temporal_without_timespan_panics [OF _ sample_temporal_facts(1,2) [of "[]"]])
  show "as_vec (yindex (yindex (rule_yaml (sample_temporal [])) ''correlation'') ''rules'') \<noteq> None"
    by (simp add: sample_temporal_facts(4))
  show "as_str (yindex (yindex (rule_yaml (sample_temporal [])) ''correlation'') ''timespan'') = None"
    by (simp add: sample_temporal_def yindex_def hash_get_def)
qed simp

theorem temporal_references_resolve_witness:
  "\<exists>nodes rules log'. parse_temporal_rules env0 (\<lambda>n. ''uuid'') True [sample_temporal minute] [sample_base] [] =
      Some (nodes, rules, log') \<and>
    list_all2 (\<lambda>t n. \<forall>i \<in> set (temporal_refs n).
      \<exists>r' \<in> set rules. (\<exists>g. correlation r' = TemporalRef g i) \<and>
        (\<exists>r \<in> set [sample_base]. (\<exists>j \<in> set (rule_refs t). is_referenced_rule r j) \<and>
          (\<forall>E' c rec. detection_select E' c (detection r') rec = detection_select E' c (detection r) rec)))
    (filter has_rules [sample_temporal minute]) nodes"
proof -
  have "referable env0 True sample_base"
    using sample_base_well_loaded by (rule well_loaded_referable)
  then obtain res where "temporal_loop env0 (\<lambda>n. ''uuid'') True [sample_temporal minute] [sample_base] (no_temporal []) = Some res"
    using temporal_loop_total [of "[sample_temporal minute]" "[sample_base]" env0 True "\<lambda>n. ''uuid''" "no_temporal []"]
      sample_temporal_facts sample_temporal_frame by (auto simp: temporal_valid_def)
  then obtain nodes rules log' where p:
    "parse_temporal_rules env0 (\<lambda>n. ''uuid'') True [sample_temporal minute] [sample_base] [] = Some (nodes, rules, log')"
    by (cases res) (simp add: parse_temporal_rules_def del: temporal_loop.simps)
  from temporal_references_resolve [OF p] sample_base_loaded sample_temporal_facts(2)
  have "list_all2 (\<lambda>t n. \<forall>i \<in> set (temporal_refs n).
      \<exists>r' \<in> set rules. (\<exists>g. correlation r' = TemporalRef g i) \<and>
        (\<exists>r \<in> set [sample_base]. (\<exists>j \<in> set (rule_refs t). is_referenced_rule r j) \<and>
          (\<forall>E' c rec. detection_select E' c (detection r') rec = detection_select E' c (detection r) rec)))
    (filter has_rules [sample_temporal minute]) nodes"
    by (simp add: plain_reference_def)
  with p show ?thesis by blast
qed

end
