(* ===== verification/Pivot.thy ===== *)
theory Pivot
  imports Event_Utils
begin

section \<open>Pivot keywords (options/pivot.rs, configs.rs, main.rs)\<close>

text \<open>
  Values of chosen fields are collected from the events that match a rule. The map of them is shared by
  all tasks of a scan; \<open>insert_pivot_keyword\<close> holds its lock while it adds the values of one event.
\<close>

subsection \<open>Data and configuration\<close>

record pivot_keyword =
  pk_keywords :: "string list"
  pk_fields :: "string list"

definition pivot_keyword_new :: pivot_keyword where
  "pivot_keyword_new = \<lparr>pk_keywords = [], pk_fields = []\<rparr>"

text \<open>\<open>IndexSet::insert\<close> keeps the order of insertion.\<close>

definition index_insert :: "string \<Rightarrow> string list \<Rightarrow> string list" where
  "index_insert x xs = (if x \<in> set xs then xs else xs @ [x])"

text \<open>
  A line of the configuration. The test of the upper bound of \<open>size_hint\<close> is always passed, so a
  line without a dot fails when its second part is taken.
\<close>

definition pivot_line :: "string \<Rightarrow> (string \<times> pivot_keyword) list \<Rightarrow> (string \<times> pivot_keyword) list option" where
  "pivot_line line m =
     (case split_char (CHR ''.'') line of
        key # value # _ \<Rightarrow>
          (let p = unwrap_or pivot_keyword_new (map_of m key)
           in Some (assoc_insert key (p\<lparr>pk_fields := index_insert value (pk_fields p)\<rparr>) m))
      | _ \<Rightarrow> None)"

fun pivot_lines :: "string list \<Rightarrow> (string \<times> pivot_keyword) list \<Rightarrow> (string \<times> pivot_keyword) list option" where
  "pivot_lines [] m = Some m"
| "pivot_lines (l # ls) m = Option.bind (pivot_line l m) (pivot_lines ls)"

definition load_pivot_keywords ::
  "string + string list \<Rightarrow> (string \<times> pivot_keyword) list \<Rightarrow> (string \<times> pivot_keyword) list option" where
  "load_pivot_keywords read_result m = (case read_result of Inl _ \<Rightarrow> Some m | Inr ls \<Rightarrow> pivot_lines ls m)"

text \<open>A part of the path that is missing is passed over.\<close>

fun pivot_walk :: "string list \<Rightarrow> json \<Rightarrow> bool \<Rightarrow> json \<times> bool" where
  "pivot_walk [] v found = (v, found)"
| "pivot_walk (s # ss) v found =
     (case json_get s v of Some w \<Rightarrow> pivot_walk ss w True | None \<Rightarrow> pivot_walk ss v found)"

definition pivot_value :: "env \<Rightarrow> alias_config \<Rightarrow> json \<Rightarrow> string \<Rightarrow> string option" where
  "pivot_value E alias rec field =
     (case get_event_key alias field of
        None \<Rightarrow> None
      | Some array_str \<Rightarrow>
          (case pivot_walk (split_char (CHR ''.'') array_str) rec False of
             (v, True) \<Rightarrow>
               (case get_serde_number_to_string E v False of
                  Some value \<Rightarrow> if value = ''-'' \<or> value = ''127.0.0.1'' \<or> value = ''::1'' then None else Some value
                | None \<Rightarrow> None)
           | (_, False) \<Rightarrow> None))"

definition pivot_level_excluded :: "env \<Rightarrow> alias_config \<Rightarrow> json \<Rightarrow> bool" where
  "pivot_level_excluded E alias rec =
     (case get_event_value alias ''Event.System.Level'' rec of
        None \<Rightarrow> True
      | Some record_level \<Rightarrow>
          (case get_serde_number_to_string E record_level False of
             Some s \<Rightarrow> s = ''infomational'' \<or> s = ''undefined'' \<or> s = ''-''
           | None \<Rightarrow> False))"

definition add_pivot_values :: "env \<Rightarrow> alias_config \<Rightarrow> json \<Rightarrow> pivot_keyword \<Rightarrow> pivot_keyword" where
  "add_pivot_values E alias rec p =
     p\<lparr>pk_keywords := fold (\<lambda>f ks. case pivot_value E alias rec f of Some v \<Rightarrow> index_insert v ks | None \<Rightarrow> ks)
         (pk_fields p) (pk_keywords p)\<rparr>"

definition insert_pivot_keyword ::
  "env \<Rightarrow> alias_config \<Rightarrow> json \<Rightarrow> (string \<times> pivot_keyword) list \<Rightarrow> (string \<times> pivot_keyword) list" where
  "insert_pivot_keyword E alias rec pivots =
     (if pivot_level_excluded E alias rec then pivots
      else map (\<lambda>(k, p). (k, add_pivot_values E alias rec p)) pivots)"

definition fmt_headers :: "string \<Rightarrow> string \<Rightarrow> pivot_keyword \<Rightarrow> string" where
  "fmt_headers output key p =
     output @ key @ '': ( '' @ concat (map (\<lambda>i. ''%'' @ i @ ''% '') (pk_fields p)) @ ''):'' @
     (if pk_keywords p = [] then [] else [CHR 0x0A])"

definition fmt_keywords_results :: "string \<Rightarrow> pivot_keyword \<Rightarrow> string" where
  "fmt_keywords_results output p = output @ concat (map (\<lambda>i. i @ [CHR 0x0A]) (pk_keywords p))"

text \<open>The text for a file, and what is printed on the terminal otherwise.\<close>

definition create_output :: "string \<Rightarrow> string \<Rightarrow> pivot_keyword \<Rightarrow> string \<Rightarrow> string \<times> (string \<times> bool) list" where
  "create_output output key p place =
     (if place = ''standard'' then ([], [(fmt_headers [] key p, False), (fmt_keywords_results [] p, True)])
      else (fmt_keywords_results (fmt_headers output key p) p, []))"

definition pivot_file_name :: "string \<Rightarrow> string \<Rightarrow> string" where
  "pivot_file_name path key = path @ ''-'' @ key @ ''.txt''"

definition pivot_name_taken :: "(string \<Rightarrow> bool) \<Rightarrow> bool \<Rightarrow> string \<Rightarrow> (string \<times> pivot_keyword) list \<Rightarrow> bool" where
  "pivot_name_taken exists clobber path pivots =
     list_ex (\<lambda>(k, _). \<not> clobber \<and> exists (pivot_file_name path k)) pivots"

definition pivot_files :: "string \<Rightarrow> (string \<times> pivot_keyword) list \<Rightarrow> (string \<times> string) list" where
  "pivot_files path pivots = map (\<lambda>(k, p). (pivot_file_name path k, fst (create_output [] k p ''file''))) pivots"

definition pivot_console :: "(string \<times> pivot_keyword) list \<Rightarrow> (string \<times> bool) list" where
  "pivot_console pivots =
     (''The following pivot keywords were found:'', True) #
     concat (map (\<lambda>(k, p). snd (create_output [] k p ''standard'') @
       (if pk_keywords p = [] then [(''No keywords found'' @ [CHR 0x0A], True)] else [])) pivots)"

subsection \<open>What is collected does not depend on the order\<close>

text \<open>
  The values one event adds to the keywords of some fields, said without the loops: the event has a level,
  which is none of the three texts; some part of the path of the field is in the event; and the value that
  is reached by taking the parts that are there has a text other than a dash and the local addresses.
\<close>

definition level_counts_as_pivot :: "env \<Rightarrow> alias_config \<Rightarrow> json \<Rightarrow> bool" where
  "level_counts_as_pivot E c rec \<longleftrightarrow>
     (\<exists>l. get_event_value c ''Event.System.Level'' rec = Some l \<and>
       (\<forall>s \<in> {''infomational'', ''undefined'', ''-''}. get_serde_number_to_string E l False \<noteq> Some s))"

definition reached :: "string list \<Rightarrow> json \<Rightarrow> json" where
  "reached ss v = foldl (\<lambda>w s. unwrap_or w (json_get s w)) v ss"

definition pivot_values :: "env \<Rightarrow> alias_config \<Rightarrow> json \<Rightarrow> string list \<Rightarrow> string set" where
  "pivot_values E c rec fs =
     {v. level_counts_as_pivot E c rec \<and> v \<notin> {''-'', ''127.0.0.1'', ''::1''} \<and>
       (\<exists>f \<in> set fs. \<exists>path. get_event_key c f = Some path \<and>
         (\<exists>s \<in> set (split_char (CHR ''.'') path). json_get s rec \<noteq> None) \<and>
         get_serde_number_to_string E (reached (split_char (CHR ''.'') path) rec) False = Some v)}"

lemma pivot_walk_reached: "pivot_walk ss v found = (reached ss v, found \<or> (\<exists>s \<in> set ss. json_get s v \<noteq> None))"
proof -
  have t: "pivot_walk ss v True = (reached ss v, True)" for ss v
    by (induction ss arbitrary: v) (simp_all add: reached_def split: option.split)
  show ?thesis
  proof (induction ss arbitrary: v)
    case (Cons s ss)
    then show ?case by (cases "json_get s v") (simp_all add: t, simp_all add: reached_def)
  qed (simp add: reached_def)
qed

lemma pivot_value_iff:
  "pivot_value E c rec f = Some v \<longleftrightarrow>
     v \<notin> {''-'', ''127.0.0.1'', ''::1''} \<and> (\<exists>path. get_event_key c f = Some path \<and>
       (\<exists>s \<in> set (split_char (CHR ''.'') path). json_get s rec \<noteq> None) \<and>
       get_serde_number_to_string E (reached (split_char (CHR ''.'') path) rec) False = Some v)"
  by (auto simp: pivot_value_def pivot_walk_reached split: option.splits bool.splits)

lemma pivot_level_excluded_iff: "pivot_level_excluded E c rec \<longleftrightarrow> \<not> level_counts_as_pivot E c rec"
  by (auto simp: pivot_level_excluded_def level_counts_as_pivot_def split: option.splits)

lemma pivot_values_added:
  "pivot_values E c rec fs = (if pivot_level_excluded E c rec then {} else {v. \<exists>f \<in> set fs. pivot_value E c rec f = Some v})"
  unfolding pivot_values_def pivot_level_excluded_iff pivot_value_iff by auto

text \<open>
  The map after the events \<open>recs\<close> in whatever order: the same keys and fields, and under each key the
  keywords from before, each value once, and those of the events.
\<close>

type_synonym pivot_map = "(string \<times> pivot_keyword) list"

definition pivots_collected :: "env \<Rightarrow> alias_config \<Rightarrow> json set \<Rightarrow> pivot_map \<Rightarrow> pivot_map \<Rightarrow> bool" where
  "pivots_collected E c recs pv pv' \<longleftrightarrow>
     list_all2 (\<lambda>(k, p) (k', p'). k' = k \<and> pk_fields p' = pk_fields p \<and>
       set (pk_keywords p') = set (pk_keywords p) \<union> (\<Union>r \<in> recs. pivot_values E c r (pk_fields p)) \<and>
       (distinct (pk_keywords p) \<longrightarrow> distinct (pk_keywords p'))) pv pv'"

text \<open>Two maps that differ in the order of the keywords alone.\<close>

definition same_pivots :: "pivot_map \<Rightarrow> pivot_map \<Rightarrow> bool" where
  "same_pivots pv pv' \<longleftrightarrow>
     list_all2 (\<lambda>(k, p) (k', p'). k' = k \<and> pk_fields p' = pk_fields p \<and> set (pk_keywords p') = set (pk_keywords p)) pv pv'"

lemma set_index_insert [simp]: "set (index_insert x xs) = insert x (set xs)"
  by (auto simp: index_insert_def)

lemma distinct_index_insert: "distinct xs \<Longrightarrow> distinct (index_insert x xs)"
  by (simp add: index_insert_def)

lemma add_pivot_values_keywords:
  "set (pk_keywords (add_pivot_values E c rec p)) =
     set (pk_keywords p) \<union> {v. \<exists>f \<in> set (pk_fields p). pivot_value E c rec f = Some v}"
  "distinct (pk_keywords p) \<Longrightarrow> distinct (pk_keywords (add_pivot_values E c rec p))"
  "pk_fields (add_pivot_values E c rec p) = pk_fields p"
proof -
  let ?add = "\<lambda>f ks. case pivot_value E c rec f of Some v \<Rightarrow> index_insert v ks | None \<Rightarrow> ks"
  have "set (fold ?add fs ks) = set ks \<union> {v. \<exists>f \<in> set fs. pivot_value E c rec f = Some v}" for fs ks
    by (induction fs arbitrary: ks) (auto split: option.split)
  then show "set (pk_keywords (add_pivot_values E c rec p)) =
     set (pk_keywords p) \<union> {v. \<exists>f \<in> set (pk_fields p). pivot_value E c rec f = Some v}"
    by (simp add: add_pivot_values_def)
  have "distinct ks \<Longrightarrow> distinct (fold ?add fs ks)" for fs ks
    by (induction fs arbitrary: ks) (auto simp: distinct_index_insert split: option.split)
  then show "distinct (pk_keywords p) \<Longrightarrow> distinct (pk_keywords (add_pivot_values E c rec p))"
    by (simp add: add_pivot_values_def)
qed (simp add: add_pivot_values_def)

lemma pivots_collected_refl: "pivots_collected E c {} pv pv"
  by (auto simp: pivots_collected_def intro: list.rel_refl)

lemma pivots_collected_insert:
  assumes "pivots_collected E c recs pv pv'"
  shows "pivots_collected E c (insert r recs) pv (insert_pivot_keyword E c r pv')"
proof (cases "pivot_level_excluded E c r")
  case True
  then show ?thesis using assms by (simp add: pivots_collected_def insert_pivot_keyword_def pivot_values_added)
next
  case False
  show ?thesis
    using assms unfolding pivots_collected_def insert_pivot_keyword_def
    by (auto simp: False list.rel_map case_prod_beta pivot_values_added add_pivot_values_keywords elim!: list.rel_mono_strong)
qed

lemma pivots_collected_same:
  assumes "pivots_collected E c recs pv a" and "pivots_collected E c recs pv b"
  shows "same_pivots a b"
  using assms unfolding pivots_collected_def same_pivots_def
  by (fastforce simp: list_all2_conv_all_nth case_prod_beta)

subsection \<open>Departures\<close>

text \<open>A line of the configuration without a dot fails.\<close>

lemma pivot_line_without_dot_fails: "load_pivot_keywords (Inr [''users'']) [] = None"
  by code_simp

text \<open>No event is left out for its level: a level is a number, and the name is misspelled.\<close>

definition event_of_level :: "json \<Rightarrow> json" where
  "event_of_level l = JObject [(''Event'', JObject [(''System'', JObject [(''Level'', l)])])]"

lemma pivot_level_never_excludes:
  "\<not> pivot_level_excluded env0 new_alias_config (event_of_level (JNumber (JInt 4)))"
  "\<not> pivot_level_excluded env0 new_alias_config (event_of_level (JString ''informational''))"
  by code_simp+

end
