(* ===== verification/Detection_Run.thy ===== *)
theory Detection_Run
  imports Correlation_Facts Count_Windows Pivot
begin

section \<open>Running the rules (detection.rs)\<close>

text \<open>
  Loading the rule files, matching every rule against every record, and evaluating the
  aggregations and the temporal correlations afterwards. What the program reports is given by
  the calls that build a report: \<open>LogRecord rule record\<close> stands for \<open>create_log_record\<close> and
  \<open>AggLogRecord rule result\<close> for \<open>create_agg_log_record\<close>; the text they lay out is presentation.
  The rules run as concurrent tasks that own their rule and share the error log and, for the command
  that lists pivot keywords, the map of the keywords; the tasks are awaited in order. \<open>None\<close> is a
  panic.
\<close>

datatype detect_info = LogRecord rule_node recinfo | AggLogRecord rule_node agg_result

datatype emitted = Report detect_info | PivotKeywords recinfo

fun reports :: "emitted list \<Rightarrow> detect_info list" where
  "reports [] = []"
| "reports (Report d # es) = d # reports es"
| "reports (PivotKeywords r # es) = reports es"

text \<open>The calls of \<open>insert_pivot_keyword\<close> among what was emitted, on the shared map.\<close>

fun insert_pivots :: "env \<Rightarrow> alias_config \<Rightarrow> emitted list \<Rightarrow> pivot_map \<Rightarrow> pivot_map" where
  "insert_pivots E c [] pv = pv"
| "insert_pivots E c (Report d # es) pv = insert_pivots E c es pv"
| "insert_pivots E c (PivotKeywords r # es) pv = insert_pivots E c es (insert_pivot_keyword E c (rec_data r) pv)"

record run_config =
  quiet_errors :: bool
  json_input :: bool
  pivot_keyword_list :: bool

subsection \<open>Loading the rule files\<close>

definition init_error_log :: "bool \<Rightarrow> string \<Rightarrow> string list \<Rightarrow> string list \<Rightarrow> string list" where
  "init_error_log quiet path msgs log =
     (if quiet then log
      else log @ map (\<lambda>m. ''[WARN] '' @ m) ((''Failed to parse rule file. (FilePath : '' @ path @ '')'') # msgs))"

text \<open>\<open>return_if_success\<close> over the files: the rules that initialise, and one error more for each other.\<close>

fun init_rules ::
  "env \<Rightarrow> bool \<Rightarrow> (string \<times> yaml) list \<Rightarrow> string list \<Rightarrow> nat \<Rightarrow> (rule_node list \<times> string list \<times> nat) option" where
  "init_rules E quiet [] log errors = Some ([], log, errors)"
| "init_rules E quiet ((path, y) # files) log errors =
     (case create_rule path y of
        None \<Rightarrow> None
      | Some r \<Rightarrow>
          (case rule_init E r quiet log of
             (Panic, _) \<Rightarrow> None
           | (Err msgs, log1) \<Rightarrow> init_rules E quiet files (init_error_log quiet path msgs log1) (errors + 1)
           | (Ok r', log1) \<Rightarrow>
               map_option (\<lambda>(rs, log2, n). (r' # rs, log2, n)) (init_rules E quiet files log1 errors)))"

definition parse_rule_files ::
  "env \<Rightarrow> (nat \<Rightarrow> string) \<Rightarrow> bool \<Rightarrow> (string \<times> yaml) list \<Rightarrow> string list \<Rightarrow> nat \<Rightarrow>
   (rule_node list \<times> string list \<times> nat) option" where
  "parse_rule_files E uuid quiet files log errorrule_count =
     Option.bind (init_rules E quiet files log errorrule_count)
       (\<lambda>(rs, log1, n). parse_correlation_rules E uuid quiet rs log1 n)"

subsection \<open>One rule against the records\<close>

text \<open>The body of the loop: the rule after the record, what it emits, and the error log.\<close>

definition execute_record ::
  "env \<Rightarrow> alias_config \<Rightarrow> run_config \<Rightarrow> bool \<Rightarrow> rule_node \<Rightarrow> recinfo \<Rightarrow> string list \<Rightarrow>
   (rule_node \<times> emitted list \<times> string list) option" where
  "execute_record E c cfg agg_condition rule record_info log =
     map_option (\<lambda>(result, rule', log').
         (rule',
          if \<not> result then []
          else if pivot_keyword_list cfg then [PivotKeywords record_info]
          else if \<not> agg_condition then [Report (LogRecord rule' record_info)]
          else [], log'))
       (rule_select E c rule record_info (quiet_errors cfg) (json_input cfg) log)"

fun execute_loop ::
  "env \<Rightarrow> alias_config \<Rightarrow> run_config \<Rightarrow> bool \<Rightarrow> rule_node \<Rightarrow> recinfo list \<Rightarrow> string list \<Rightarrow>
   (rule_node \<times> emitted list \<times> string list) option" where
  "execute_loop E c cfg agg rule [] log = Some (rule, [], log)"
| "execute_loop E c cfg agg rule (r # rs) log =
     Option.bind (execute_record E c cfg agg rule r log) (\<lambda>(rule1, es, log1).
       map_option (\<lambda>(rule2, es', log2). (rule2, es @ es', log2)) (execute_loop E c cfg agg rule1 rs log1))"

definition execute_rule ::
  "env \<Rightarrow> alias_config \<Rightarrow> run_config \<Rightarrow> rule_node \<Rightarrow> recinfo list \<Rightarrow> string list \<Rightarrow>
   (rule_node \<times> emitted list \<times> string list) option" where
  "execute_rule E c cfg rule records log = execute_loop E c cfg (has_agg_condition rule) rule records log"

text \<open>\<open>execute_rules\<close> when the tasks run one after the other.\<close>

fun execute_rules ::
  "env \<Rightarrow> alias_config \<Rightarrow> run_config \<Rightarrow> rule_node list \<Rightarrow> recinfo list \<Rightarrow> string list \<Rightarrow>
   (rule_node list \<times> emitted list \<times> string list) option" where
  "execute_rules E c cfg [] records log = Some ([], [], log)"
| "execute_rules E c cfg (rule # rules) records log =
     Option.bind (execute_rule E c cfg rule records log) (\<lambda>(rule', es, log1).
       map_option (\<lambda>(rules', es', log2). (rule' # rules', es @ es', log2))
         (execute_rules E c cfg rules records log1))"

subsection \<open>The tasks\<close>

text \<open>
  A task owns its rule, the records it has not seen and what it has emitted; a step lets one of
  the tasks process its next record, with the shared state as the other tasks left it: the error log,
  and the map of the pivot keywords, which keeps the keywords in the order in which they come. What a
  task emits is the call that reports a record; the text that is made of it then, with the shared cache
  of locations and the shared table of tactics, is not part of a step: \<open>Scan\<close> makes it in the order of the rules.
\<close>

record task =
  task_rule :: rule_node
  task_agg :: bool
  todo :: "recinfo list"
  emits :: "emitted list"

definition new_task :: "recinfo list \<Rightarrow> rule_node \<Rightarrow> task" where
  "new_task records rule = \<lparr>task_rule = rule, task_agg = has_agg_condition rule, todo = records, emits = []\<rparr>"

inductive run_step ::
  "env \<Rightarrow> alias_config \<Rightarrow> run_config \<Rightarrow> task list \<times> string list \<times> pivot_map \<Rightarrow>
   task list \<times> string list \<times> pivot_map \<Rightarrow> bool"
  for E :: env and c :: alias_config and cfg :: run_config where
  process: "i < length ts \<Longrightarrow> todo (ts ! i) = r # rs \<Longrightarrow>
     execute_record E c cfg (task_agg (ts ! i)) (task_rule (ts ! i)) r log = Some (rule', es, log') \<Longrightarrow>
     run_step E c cfg (ts, log, pv)
       (ts[i := (ts ! i)\<lparr>task_rule := rule', todo := rs, emits := emits (ts ! i) @ es\<rparr>], log', insert_pivots E c es pv)"

inductive_cases run_step_elim: "run_step E c cfg (ts, log, pv) s"

definition finished :: "task list \<Rightarrow> bool" where
  "finished ts \<longleftrightarrow> (\<forall>t \<in> set ts. todo t = [])"

subsection \<open>Temporal correlation\<close>

text \<open>
  \<open>chrono\<close> times are bounded (here in nanoseconds); adding a duration beyond the bounds panics,
  and so does making one of more seconds than fit into 64-bit milliseconds.
\<close>

definition time_in_range :: "int \<Rightarrow> bool" where
  "time_in_range t \<longleftrightarrow> - 8334601228800 * 10 ^ 9 \<le> t \<and> t < 8210266876800 * 10 ^ 9"

definition add_time :: "int \<Rightarrow> int \<Rightarrow> int option" where
  "add_time t d = (if time_in_range (t + d) then Some (t + d) else None)"

definition duration_seconds :: "int \<Rightarrow> int option" where
  "duration_seconds s = (if \<bar>s\<bar> \<le> 9223372036854775 then Some (s * 10 ^ 9) else None)"

definition within_ordered :: "int \<Rightarrow> agg_result \<Rightarrow> agg_result \<Rightarrow> bool option" where
  "within_ordered tf last_base t =
     (if start_timedate t \<ge> start_timedate last_base
      then map_option (\<lambda>hi. start_timedate t \<le> hi) (add_time (start_timedate last_base) tf)
      else Some False)"

definition within_unordered :: "int \<Rightarrow> agg_result \<Rightarrow> agg_result \<Rightarrow> bool option" where
  "within_unordered tf base t =
     Option.bind (add_time (start_timedate base) (- tf)) (\<lambda>lo.
       if start_timedate t \<ge> lo
       then map_option (\<lambda>hi. start_timedate t \<le> hi) (add_time (start_timedate base) tf)
       else Some False)"

text \<open>
  The loop over the other ids: the flag starts as false for each, a missing id leaves it so, an
  id without a result in range ends the loop. \<open>last_base\<close> is set to \<open>base\<close> again each time.
\<close>

fun others_found ::
  "(string \<rightharpoonup> agg_result list) \<Rightarrow> int \<Rightarrow> bool \<Rightarrow> agg_result \<Rightarrow> agg_result \<Rightarrow> string list \<Rightarrow> bool \<Rightarrow> bool option" where
  "others_found results tf ordered base last_base [] found = Some found"
| "others_found results tf ordered base last_base (i # ids) found =
     (case results i of
        None \<Rightarrow> others_found results tf ordered base last_base ids False
      | Some targets \<Rightarrow>
          (case any_opt (\<lambda>t. if ordered then within_ordered tf last_base t else within_unordered tf base t) targets of
             None \<Rightarrow> None
           | Some False \<Rightarrow> Some False
           | Some True \<Rightarrow> others_found results tf ordered base base ids True))"

fun base_loop ::
  "(string \<rightharpoonup> agg_result list) \<Rightarrow> int \<Rightarrow> bool \<Rightarrow> string list \<Rightarrow> agg_result list \<Rightarrow> agg_result list option" where
  "base_loop results tf ordered ids [] = Some []"
| "base_loop results tf ordered ids (base # bases) =
     (case others_found results tf ordered base base ids False of
        None \<Rightarrow> None
      | Some found \<Rightarrow>
          map_option (\<lambda>rs. if found then base # rs else rs) (base_loop results tf ordered ids bases))"

definition detect_within_timeframe ::
  "string list \<Rightarrow> (string \<rightharpoonup> agg_result list) \<Rightarrow> int \<Rightarrow> bool \<Rightarrow> agg_result list option" where
  "detect_within_timeframe ids results tf ordered =
     (case ids of
        [] \<Rightarrow> Some []
      | key # rest \<Rightarrow>
          (case results key of
             None \<Rightarrow> Some []
           | Some base_records \<Rightarrow> base_loop results tf ordered rest base_records))"

subsection \<open>Aggregations and correlations after the run\<close>

text \<open>The results of one rule, kept for the temporal rules if it is one they refer to.\<close>

definition aggregate_rule ::
  "rule_node \<Rightarrow> (string \<rightharpoonup> agg_result list) \<Rightarrow> (detect_info list \<times> (string \<rightharpoonup> agg_result list)) option" where
  "aggregate_rule rule refs =
     (if \<not> has_agg_condition rule then Some ([], refs)
      else map_option (\<lambda>rs.
        (case correlation rule of
           TemporalRef generate uuid \<Rightarrow>
             (if generate then map (AggLogRecord rule) rs else [],
              if rs = [] then refs else refs(uuid \<mapsto> unwrap_or [] (refs uuid) @ rs))
         | _ \<Rightarrow> (map (AggLogRecord rule) rs, refs)))
       (judge_satisfy_aggcondition rule))"

fun aggregate_rules ::
  "rule_node list \<Rightarrow> (string \<rightharpoonup> agg_result list) \<Rightarrow> (detect_info list \<times> (string \<rightharpoonup> agg_result list)) option" where
  "aggregate_rules [] refs = Some ([], refs)"
| "aggregate_rules (rule # rules) refs =
     Option.bind (aggregate_rule rule refs) (\<lambda>(ds, refs1).
       map_option (\<lambda>(ds', refs2). (ds @ ds', refs2)) (aggregate_rules rules refs1))"

definition temporal_rule :: "rule_node \<Rightarrow> (string \<rightharpoonup> agg_result list) \<Rightarrow> detect_info list option" where
  "temporal_rule rule refs =
     (case (case correlation rule of
              Temporal ids \<Rightarrow> Some (ids, False)
            | TemporalOrdered ids \<Rightarrow> Some (ids, True)
            | _ \<Rightarrow> None) of
        None \<Rightarrow> Some []
      | Some (ids, ordered) \<Rightarrow>
          (if list_all (\<lambda>i. refs i \<noteq> None) ids
           then (case get_sec_timeframe rule of
                   None \<Rightarrow> Some []
                 | Some s \<Rightarrow>
                     Option.bind (duration_seconds s) (\<lambda>d.
                       map_option (map (AggLogRecord rule))
                         (detect_within_timeframe ids (\<lambda>i. if i \<in> set ids then refs i else None) d ordered)))
           else Some []))"

fun temporal_rules :: "rule_node list \<Rightarrow> (string \<rightharpoonup> agg_result list) \<Rightarrow> detect_info list option" where
  "temporal_rules [] refs = Some []"
| "temporal_rules (rule # rules) refs =
     Option.bind (temporal_rule rule refs) (\<lambda>ds. map_option (\<lambda>ds'. ds @ ds') (temporal_rules rules refs))"

definition add_aggcondition_msg :: "rule_node list \<Rightarrow> detect_info list option" where
  "add_aggcondition_msg rules =
     Option.bind (aggregate_rules rules Map.empty) (\<lambda>(ds, refs).
       map_option (\<lambda>ds'. ds @ ds') (temporal_rules rules refs))"

end
