(* ===== verification/Detection_Facts.thy ===== *)
theory Detection_Facts
  imports Detection_Run
begin

section \<open>Properties of a run\<close>

text \<open>
  The concurrent tasks against the sequential run, the path of a counting rule from the records
  to the report, and the specification of the temporal detection. The error log only grows, so
  a task's verdict does not depend on what the others have logged.
\<close>

subsection \<open>The error log only grows\<close>

lemma alias_value_log:
  "get_alias_value_in_record E c path alias ev is_by quiet log =
     map_option (\<lambda>(v, l). (v, log @ l)) (get_alias_value_in_record E c path alias ev is_by quiet [])"
  by (simp add: get_alias_value_in_record_def split: option.split)

lemma count_key_values_log:
  "count_key_values E c path ev quiet ks log =
     map_option (\<lambda>(v, l). (v, log @ l)) (count_key_values E c path ev quiet ks [])"
proof (induction ks arbitrary: log)
  case (Cons k ks)
  show ?case
  proof (cases "get_alias_value_in_record E c path k ev True quiet []")
    case (Some a)
    obtain v l where a: "a = (v, l)" by (cases a)
    show ?thesis
      using Cons.IH [of "log @ l"] Cons.IH [of l]
      by (simp add: alias_value_log [of E c path k ev True quiet log] Some a option.map_comp comp_def split_def)
  qed (simp add: alias_value_log [of E c path k ev True quiet log])
qed simp

lemma create_count_key_log:
  "create_count_key E c rule ev quiet log =
     map_option (\<lambda>(v, l). (v, log @ l)) (create_count_key E c rule ev quiet [])"
  by (simp add: create_count_key_def option.map_comp comp_def split_def
      alias_value_log [of _ _ _ _ _ _ _ log] count_key_values_log [of _ _ _ _ _ _ log] split: option.split)

lemma count_log:
  "count E c rule rec quiet json log =
     map_option (\<lambda>(r, l). (r, log @ l)) (count E c rule rec quiet json [])"
proof (cases "create_count_key E c rule (rec_data rec) quiet []")
  case (Some a)
  obtain v l where a: "a = (v, l)" by (cases a)
  show ?thesis
    by (simp add: count_def create_count_key_log [of _ _ _ _ _ log] Some a Let_def
        alias_value_log [of _ _ _ _ _ _ _ "log @ l"] alias_value_log [of _ _ _ _ _ _ _ l] option.map_comp comp_def
        split: option.split)
qed (simp add: count_def create_count_key_log [of _ _ _ _ _ log])

lemma rule_select_log:
  "rule_select E c rule rec quiet json log =
     map_option (\<lambda>(b, r, l). (b, r, log @ l)) (rule_select E c rule rec quiet json [])"
  by (simp add: rule_select_def count_log [of _ _ _ _ _ _ log] option.map_comp comp_def split_def split: option.split)

lemma execute_record_log:
  "execute_record E c cfg agg rule r log =
     map_option (\<lambda>(r', es, l). (r', es, log @ l)) (execute_record E c cfg agg rule r [])"
  by (simp add: execute_record_def rule_select_log [of _ _ _ _ _ _ log] option.map_comp comp_def split_def
      cong: if_cong)

lemma execute_loop_log:
  "execute_loop E c cfg agg rule rs log =
     map_option (\<lambda>(r', es, l). (r', es, log @ l)) (execute_loop E c cfg agg rule rs [])"
proof (induction rs arbitrary: rule log)
  case (Cons r rs)
  show ?case
  proof (cases "execute_record E c cfg agg rule r []")
    case (Some a)
    obtain r1 es l where a: "a = (r1, es, l)" by (cases a)
    show ?thesis
      using Cons.IH [of r1 "log @ l"] Cons.IH [of r1 l]
      by (simp add: execute_record_log [of _ _ _ _ _ _ log] Some a option.map_comp comp_def split_def)
  qed (simp add: execute_record_log [of _ _ _ _ _ _ log])
qed simp


subsection \<open>The order of the tasks does not matter\<close>

text \<open>What a task will have emitted when it is done, and the errors it has still to log.\<close>

definition finish :: "env \<Rightarrow> alias_config \<Rightarrow> run_config \<Rightarrow> task \<Rightarrow> (rule_node \<times> emitted list \<times> string list) option" where
  "finish E c cfg t = execute_loop E c cfg (task_agg t) (task_rule t) (todo t) []"

definition task_verdict :: "env \<Rightarrow> alias_config \<Rightarrow> run_config \<Rightarrow> task \<Rightarrow> (rule_node \<times> emitted list) option" where
  "task_verdict E c cfg t = map_option (\<lambda>(r, es, l). (r, emits t @ es)) (finish E c cfg t)"

definition pending :: "env \<Rightarrow> alias_config \<Rightarrow> run_config \<Rightarrow> task \<Rightarrow> string multiset" where
  "pending E c cfg t = (case finish E c cfg t of None \<Rightarrow> {#} | Some (r, es, l) \<Rightarrow> mset l)"

definition pending_sum :: "env \<Rightarrow> alias_config \<Rightarrow> run_config \<Rightarrow> task list \<Rightarrow> string multiset" where
  "pending_sum E c cfg ts = (\<Sum>i<length ts. pending E c cfg (ts ! i))"

definition tasks_ok :: "env \<Rightarrow> alias_config \<Rightarrow> run_config \<Rightarrow> task list \<Rightarrow> bool" where
  "tasks_ok E c cfg ts \<longleftrightarrow> (\<forall>t \<in> set ts. finish E c cfg t \<noteq> None)"

lemma finish_todo:
  assumes "todo t = r # rs" and "execute_record E c cfg (task_agg t) (task_rule t) r log = Some (rule', es, log')"
  obtains l where "log' = log @ l"
    "finish E c cfg t = map_option (\<lambda>(r2, es2, l2). (r2, es @ es2, l @ l2))
       (finish E c cfg (t\<lparr>task_rule := rule', todo := rs, emits := e\<rparr>))"
proof -
  from assms(2) obtain l where l: "execute_record E c cfg (task_agg t) (task_rule t) r [] = Some (rule', es, l)" "log' = log @ l"
    by (subst (asm) execute_record_log) auto
  have "finish E c cfg t = map_option (\<lambda>(r2, es2, l2). (r2, es @ es2, l @ l2))
       (finish E c cfg (t\<lparr>task_rule := rule', todo := rs, emits := e\<rparr>))"
    by (simp add: finish_def assms(1) l(1) execute_loop_log [of _ _ _ _ _ _ l] option.map_comp comp_def split_def)
  with l(2) show thesis by (rule that)
qed

lemma run_step_verdict:
  assumes "run_step E c cfg (ts, log, pv) (ts', log', pv')"
  shows "map (task_verdict E c cfg) ts' = map (task_verdict E c cfg) ts \<and>
    (tasks_ok E c cfg ts \<longrightarrow> tasks_ok E c cfg ts' \<and>
      mset log' + pending_sum E c cfg ts' = mset log + pending_sum E c cfg ts)"
  using assms
proof (elim run_step_elim)
  fix i r rs rule' es l'
  let ?t = "ts ! i"
  let ?t' = "?t\<lparr>task_rule := rule', todo := rs, emits := emits ?t @ es\<rparr>"
  assume i: "i < length ts" and td: "todo ?t = r # rs"
    and ex: "execute_record E c cfg (task_agg ?t) (task_rule ?t) r log = Some (rule', es, l')"
    and s: "(ts', log', pv') = (ts[i := ?t'], l', insert_pivots E c es pv)"
  obtain l where l: "l' = log @ l" "finish E c cfg ?t = map_option (\<lambda>(r2, es2, l2). (r2, es @ es2, l @ l2)) (finish E c cfg ?t')"
    using finish_todo [OF td ex] by blast
  have v: "task_verdict E c cfg ?t' = task_verdict E c cfg ?t"
    by (simp add: task_verdict_def l(2) option.map_comp comp_def split_def)
  have "map (task_verdict E c cfg) ts' = map (task_verdict E c cfg) ts"
    using s v i by (simp add: map_update) (metis list_update_id nth_map map_update)
  moreover have "tasks_ok E c cfg ts' \<and> mset log' + pending_sum E c cfg ts' = mset log + pending_sum E c cfg ts"
    if ok: "tasks_ok E c cfg ts"
  proof -
  have "finish E c cfg ?t \<noteq> None" using ok i by (simp add: tasks_ok_def)
  then obtain r2 es2 l2 where f': "finish E c cfg ?t' = Some (r2, es2, l2)" using l(2) by (cases "finish E c cfg ?t'") auto
  then have p: "pending E c cfg ?t = mset l + pending E c cfg ?t'" by (simp add: pending_def l(2))
  have "tasks_ok E c cfg (ts[i := ?t'])"
    using ok f' set_update_subset_insert [of ts i ?t'] by (auto simp: tasks_ok_def)
  moreover have "mset log' + pending_sum E c cfg (ts[i := ?t']) = mset log + pending_sum E c cfg ts"
  proof -
    have "pending_sum E c cfg (ts[i := ?t']) = pending E c cfg ?t' + (\<Sum>j \<in> {..<length ts} - {i}. pending E c cfg (ts ! j))"
      unfolding pending_sum_def using i by (subst sum.remove [of _ i]) (auto intro: sum.cong)
    moreover have "pending_sum E c cfg ts = pending E c cfg ?t + (\<Sum>j \<in> {..<length ts} - {i}. pending E c cfg (ts ! j))"
      unfolding pending_sum_def using i by (subst sum.remove [of _ i]) auto
    ultimately show ?thesis using s l(1) p by simp
  qed
  ultimately show ?thesis using s by simp
  qed
  ultimately show "map (task_verdict E c cfg) ts' = map (task_verdict E c cfg) ts \<and>
    (tasks_ok E c cfg ts \<longrightarrow> tasks_ok E c cfg ts' \<and>
      mset log' + pending_sum E c cfg ts' = mset log + pending_sum E c cfg ts)" by blast
qed

lemma run_steps_verdict:
  assumes "(run_step E c cfg)\<^sup>*\<^sup>* s s'"
  shows "map (task_verdict E c cfg) (fst s') = map (task_verdict E c cfg) (fst s) \<and>
    (tasks_ok E c cfg (fst s) \<longrightarrow> tasks_ok E c cfg (fst s') \<and>
      mset (fst (snd s')) + pending_sum E c cfg (fst s') = mset (fst (snd s)) + pending_sum E c cfg (fst s))"
  using assms
proof (induction rule: rtranclp_induct)
  case (step s1 s2)
  then show ?case
    using run_step_verdict [of E c cfg "fst s1" "fst (snd s1)" "snd (snd s1)" "fst s2" "fst (snd s2)" "snd (snd s2)"] by auto
qed simp

lemma finished_verdict:
  assumes "finished ts" and "t \<in> set ts"
  shows "finish E c cfg t = Some (task_rule t, [], [])" and "task_verdict E c cfg t = Some (task_rule t, emits t)"
  using assms by (simp_all add: finished_def finish_def task_verdict_def)

lemma execute_rules_verdicts:
  assumes "map (task_verdict E c cfg) (map (new_task recs) rules) = map Some vs"
  shows "\<exists>l. execute_rules E c cfg rules recs log = Some (map fst vs, concat (map snd vs), log @ l) \<and>
    mset l = pending_sum E c cfg (map (new_task recs) rules)"
  using assms
proof (induction rules arbitrary: vs log)
  case Nil
  then show ?case by (simp add: pending_sum_def)
next
  case (Cons rule rules)
  then obtain v vs' where vs: "vs = v # vs'" "task_verdict E c cfg (new_task recs rule) = Some v"
    "map (task_verdict E c cfg) (map (new_task recs) rules) = map Some vs'"
    by (cases vs) auto
  obtain rule' es l where f: "finish E c cfg (new_task recs rule) = Some (rule', es, l)" "v = (rule', es)"
    using vs(2) by (auto simp: task_verdict_def new_task_def)
  have e: "execute_rule E c cfg rule recs log = Some (rule', es, log @ l)"
    using f(1) by (simp add: finish_def new_task_def execute_rule_def execute_loop_log [of _ _ _ _ _ _ log])
  obtain l' where l': "execute_rules E c cfg rules recs (log @ l) = Some (map fst vs', concat (map snd vs'), (log @ l) @ l')"
    "mset l' = pending_sum E c cfg (map (new_task recs) rules)"
    using Cons.IH [OF vs(3)] by blast
  have "pending_sum E c cfg (map (new_task recs) (rule # rules)) = mset l + mset l'"
    using f(1) l'(2) by (simp add: pending_sum_def pending_def lessThan_Suc_eq_insert_0 sum.reindex)
  with e l'(1) f(2) vs(1) show ?case by simp
qed

text \<open>The events whose values a task has put into the shared map.\<close>

definition pivot_records :: "emitted list \<Rightarrow> json set" where
  "pivot_records es = {rec_data r | r. PivotKeywords r \<in> set es}"

lemma pivot_records_simps [simp]:
  "pivot_records [] = {}" "pivot_records (Report d # es) = pivot_records es"
  "pivot_records (PivotKeywords r # es) = insert (rec_data r) (pivot_records es)"
  "pivot_records (es @ es') = pivot_records es \<union> pivot_records es'"
  by (auto simp: pivot_records_def)

lemma pivot_records_concat: "pivot_records (concat ess) = (\<Union>es \<in> set ess. pivot_records es)"
  by (induction ess) auto

lemma insert_pivots_collected:
  "pivots_collected E c recs pv pv' \<Longrightarrow> pivots_collected E c (recs \<union> pivot_records es) pv (insert_pivots E c es pv')"
proof (induction es arbitrary: recs pv')
  case (Cons e es)
  then show ?case
    using Cons.IH [OF pivots_collected_insert [OF Cons.prems]] by (cases e) (simp_all add: insert_commute Un_insert_left [symmetric] del: Un_insert_left)
qed simp

lemma run_steps_pivots:
  assumes "(run_step E c cfg)\<^sup>*\<^sup>* s s'"
  shows "pivots_collected E c (\<Union>t \<in> set (fst s). pivot_records (emits t)) pv (snd (snd s)) \<Longrightarrow>
    pivots_collected E c (\<Union>t \<in> set (fst s'). pivot_records (emits t)) pv (snd (snd s'))"
  using assms
proof (induction rule: rtranclp_induct)
  case (step s1 s2)
  from step(2) show ?case
  proof (cases rule: run_step.cases)
    case (process i ts r rs log rule' es log' pv1)
    let ?t' = "(ts ! i)\<lparr>task_rule := rule', todo := rs, emits := emits (ts ! i) @ es\<rparr>"
    have "set (ts[i := ?t']) = insert ?t' (set (ts[i := ?t']))" "set ts = insert (ts ! i) (set ts)"
      using process(3) by (auto simp: set_update_memI insert_absorb)
    have "(\<Union>t \<in> set (ts[i := ?t']). pivot_records (emits t)) = (\<Union>t \<in> set ts. pivot_records (emits t)) \<union> pivot_records es"
      (is "?l = ?r")
    proof
      show "?l \<subseteq> ?r" using set_update_subset_insert [of ts i ?t'] process(3) by fastforce
      have "pivot_records (emits (ts ! j)) \<subseteq> ?l" if "j < length ts" for j
      proof (cases "j = i")
        case True
        have "?t' \<in> set (ts[i := ?t'])" using process(3) by (rule set_update_memI)
        from UN_upper [OF this, of "\<lambda>t. pivot_records (emits t)"] show ?thesis unfolding True by auto
      next
        case False
        then have "ts ! j \<in> set (ts[i := ?t'])" using that by (metis length_list_update nth_list_update_neq nth_mem)
        then show ?thesis by blast
      qed
      moreover have "pivot_records es \<subseteq> ?l" using set_update_memI [OF process(3), of ?t'] by force
      ultimately show "?r \<subseteq> ?l" by (fastforce simp: in_set_conv_nth)
    qed
    then show ?thesis
      using insert_pivots_collected [OF step(3) [OF step(4)], of es] process(1,2) by simp
  qed
qed simp

lemma start_pivots:
  "(run_step E c cfg)\<^sup>*\<^sup>* (map (new_task recs) rules, log, pv) (ts, log', pv') \<Longrightarrow>
     pivots_collected E c (pivot_records (concat (map emits ts))) pv pv'"
proof -
  assume r: "(run_step E c cfg)\<^sup>*\<^sup>* (map (new_task recs) rules, log, pv) (ts, log', pv')"
  have none: "(\<Union>t \<in> set (map (new_task recs) rules). pivot_records (emits t)) = {}" by (auto simp: new_task_def)
  from run_steps_pivots [OF r, of pv] show ?thesis
    unfolding fst_conv snd_conv none by (simp add: pivot_records_concat pivots_collected_refl)
qed

lemma run_verdicts:
  assumes "(run_step E c cfg)\<^sup>*\<^sup>* (map (new_task recs) rules, log, pv) (ts, log', pv')" and "finished ts"
  shows "\<exists>log''. execute_rules E c cfg rules recs log = Some (map task_rule ts, concat (map emits ts), log'') \<and> mset log'' = mset log'"
proof -
  let ?vs = "map (\<lambda>t. (task_rule t, emits t)) ts"
  have inv: "map (task_verdict E c cfg) (map (new_task recs) rules) = map (task_verdict E c cfg) ts"
    "tasks_ok E c cfg (map (new_task recs) rules) \<Longrightarrow>
       mset log' + pending_sum E c cfg ts = mset log + pending_sum E c cfg (map (new_task recs) rules)"
    using run_steps_verdict [OF assms(1)] by simp_all
  have vs: "map (task_verdict E c cfg) (map (new_task recs) rules) = map Some ?vs"
    using inv(1) finished_verdict(2) [OF assms(2)] by simp
  have ok: "tasks_ok E c cfg (map (new_task recs) rules)"
  proof -
    have "task_verdict E c cfg t \<noteq> None" if "t \<in> set (map (new_task recs) rules)" for t
    proof -
      have "task_verdict E c cfg t \<in> set (map Some ?vs)" unfolding vs [symmetric] using that by force
      then show ?thesis by auto
    qed
    then show ?thesis by (auto simp: tasks_ok_def task_verdict_def)
  qed
  have "pending_sum E c cfg ts = {#}"
    using finished_verdict(1) [OF assms(2)] by (simp add: pending_sum_def pending_def)
  then have "mset log' = mset log + pending_sum E c cfg (map (new_task recs) rules)"
    using inv(2) [OF ok] by simp
  with execute_rules_verdicts [OF vs, of log] show ?thesis by (auto simp: comp_def)
qed

text \<open>
  C6: The order in which the concurrent tasks run does not matter. Whatever interleaving of the
  rules' tasks over the records a run takes, once every task is done the rules, with what they
  have counted, and what they reported, in the order of the rules, are those of running the rules
  one after the other, and the shared map of pivot keywords has the same keywords under each key; only
  the order of the lines in the shared error log and the order of the keywords under a key can differ.
  What is reported is meant here, not the text that is made of it: the tasks also share the cache of
  locations and the table of tactics of the report, which are outside of this model of the tasks.
\<close>

theorem run_schedule_independent:
  assumes "(run_step E c cfg)\<^sup>*\<^sup>* (map (new_task recs) rules, log, pv) (ts, log', pv')" and "finished ts"
  shows "\<exists>log''. execute_rules E c cfg rules recs log = Some (map task_rule ts, concat (map emits ts), log'') \<and>
    mset log'' = mset log' \<and> same_pivots (insert_pivots E c (concat (map emits ts)) pv) pv'"
proof -
  have "pivots_collected E c (pivot_records (concat (map emits ts))) pv (insert_pivots E c (concat (map emits ts)) pv)"
    using insert_pivots_collected [OF pivots_collected_refl [of E c pv]] by simp
  then have "same_pivots (insert_pivots E c (concat (map emits ts)) pv) pv'"
    using start_pivots [OF assms(1)] by (rule pivots_collected_same)
  with run_verdicts [OF assms] show ?thesis by blast
qed

subsection \<open>Every step is progress\<close>

definition work :: "task list \<Rightarrow> nat" where
  "work ts = sum_list (map (\<lambda>t. length (todo t)) ts)"

lemma run_progress:
  assumes "tasks_ok E c cfg ts" and "\<not> finished ts"
  obtains s' where "run_step E c cfg (ts, log, pv) s'" "work (fst s') < work ts"
proof -
  obtain t where "t \<in> set ts" "todo t \<noteq> []" using assms(2) by (auto simp: finished_def)
  then obtain i r rs where i: "i < length ts" "todo (ts ! i) = r # rs"
    by (metis in_set_conv_nth neq_Nil_conv)
  have "finish E c cfg (ts ! i) \<noteq> None" using assms(1) i(1) by (simp add: tasks_ok_def)
  then have "execute_record E c cfg (task_agg (ts ! i)) (task_rule (ts ! i)) r [] \<noteq> None"
    by (auto simp: finish_def i(2) bind_eq_Some_conv)
  then obtain rule' es log' where ex:
    "execute_record E c cfg (task_agg (ts ! i)) (task_rule (ts ! i)) r log = Some (rule', es, log')"
    by (auto simp: execute_record_log [of _ _ _ _ _ _ log])
  let ?t' = "(ts ! i)\<lparr>task_rule := rule', todo := rs, emits := emits (ts ! i) @ es\<rparr>"
  have "length (todo (ts ! i)) \<le> work ts"
    unfolding work_def using i(1) by (intro member_le_sum_list) auto
  then have "work (ts[i := ?t']) < work ts"
    using i by (simp add: work_def map_update sum_list_update)
  with that [OF process [OF i ex]] show thesis by simp
qed

lemma execute_rules_tasks_ok:
  "execute_rules E c cfg rules recs log \<noteq> None \<Longrightarrow> tasks_ok E c cfg (map (new_task recs) rules)"
proof (induction rules arbitrary: log)
  case (Cons rule rules)
  then obtain r es l where e: "execute_rule E c cfg rule recs log = Some (r, es, l)"
    "execute_rules E c cfg rules recs l \<noteq> None"
    by (auto simp: bind_eq_Some_conv)
  have "finish E c cfg (new_task recs rule) \<noteq> None"
    using e(1) by (auto simp: finish_def new_task_def execute_rule_def execute_loop_log [of _ _ _ _ _ _ log])
  with Cons.IH [OF e(2)] show ?case by (simp add: tasks_ok_def)
qed (simp add: tasks_ok_def)

text \<open>Whichever task goes first, a step takes one record from one task.\<close>

lemma run_step_work: "run_step E c cfg s s' \<Longrightarrow> work (fst s') < work (fst s)"
proof (induction rule: run_step.induct)
  case (process i ts r rs log rule' es log' pv)
  have "length (todo (ts ! i)) \<le> work ts"
    unfolding work_def using process(1) by (intro member_le_sum_list) auto
  with process(1,2) show ?case by (simp add: work_def map_update sum_list_update)
qed

lemma run_finite: "\<nexists>f. \<forall>n. run_step E c cfg (f n) (f (Suc n))"
proof -
  have "wf {(s', s). run_step E c cfg s s'}"
    by (rule wf_subset [OF wf_measure [of "\<lambda>s. work (fst s)"]]) (auto dest: run_step_work)
  then show ?thesis by (simp add: wf_iff_no_infinite_down_chain)
qed

lemma run_stuck_finished:
  assumes "execute_rules E c cfg rules recs log \<noteq> None"
    and "(run_step E c cfg)\<^sup>*\<^sup>* (map (new_task recs) rules, log, pv) (ts, log', pv')"
    and "\<nexists>s'. run_step E c cfg (ts, log', pv') s'"
  shows "finished ts"
proof -
  have "tasks_ok E c cfg ts"
    using run_steps_verdict [OF assms(2)] execute_rules_tasks_ok [OF assms(1)] by simp
  then show ?thesis using assms(3) run_progress by metis
qed

subsection \<open>What one rule reports and collects\<close>

definition selects :: "env \<Rightarrow> alias_config \<Rightarrow> rule_node \<Rightarrow> recinfo \<Rightarrow> bool" where
  "selects E c rule rec \<longleftrightarrow> detection_select E c (detection rule) rec = Some True"

lemma countup_keeps:
  "countup E c rule key v rec json = Some rule' \<Longrightarrow>
     detection rule' = detection rule \<and> rulepath rule' = rulepath rule \<and> correlation rule' = correlation rule"
  by (auto simp: countup_def Let_def split: option.splits)

lemma rule_select_keeps:
  "rule_select E c rule rec quiet json log = Some (b, rule', log') \<Longrightarrow>
     detection rule' = detection rule \<and> rulepath rule' = rulepath rule \<and> correlation rule' = correlation rule \<and>
     b = selects E c rule rec \<and> detection_select E c (detection rule) rec \<noteq> None"
  by (auto simp: rule_select_def count_def selects_def Let_def split: option.splits if_splits prod.splits dest: countup_keeps)

lemma execute_loop_plain:
  assumes "\<not> has_agg_condition rule" and "\<not> pivot_keyword_list cfg"
  shows "\<forall>r \<in> set recs. detection_select E c (detection rule) r \<noteq> None \<Longrightarrow>
    execute_loop E c cfg False rule recs log =
      Some (rule, map (\<lambda>r. Report (LogRecord rule r)) (filter (selects E c rule) recs), log)"
proof (induction recs)
  case (Cons r recs)
  then obtain b where b: "detection_select E c (detection rule) r = Some b" by auto
  then have "execute_record E c cfg False rule r log =
      Some (rule, if b then [Report (LogRecord rule r)] else [], log)"
    using assms by (simp add: execute_record_def rule_select_def)
  with Cons b show ?case by (auto simp: selects_def)
qed simp

text \<open>
  A loaded rule without an aggregation reports exactly the records it selects, each once, in their
  order, keeps its state and logs nothing.
\<close>

theorem execute_rule_reports:
  assumes "detection_init E0 y quiet log0 = (Ok (detection rule), log1)"
    and "\<not> has_agg_condition rule" and "\<not> pivot_keyword_list cfg"
  shows "execute_rule E c cfg rule recs log =
    Some (rule, map (\<lambda>r. Report (LogRecord rule r)) (filter (selects E c rule) recs), log)"
proof -
  have "detection_select E c (detection rule) r \<noteq> None" for r
    by (rule detection_select_total [OF assms(1)])
  with execute_loop_plain [OF assms(2,3), of recs E c log] assms(2) show ?thesis
    by (simp add: execute_rule_def)
qed

text \<open>The group of a record and what is kept of it, without the error log.\<close>

definition group_key :: "env \<Rightarrow> alias_config \<Rightarrow> rule_node \<Rightarrow> recinfo \<Rightarrow> string" where
  "group_key E c rule rec = (case create_count_key E c rule (rec_data rec) True [] of Some (k, _) \<Rightarrow> k | None \<Rightarrow> [])"

definition entry_info :: "env \<Rightarrow> alias_config \<Rightarrow> run_config \<Rightarrow> rule_node \<Rightarrow> recinfo \<Rightarrow> agg_record" where
  "entry_info E c cfg rule rec =
     \<lparr>field_value = (case get_agg_condition rule of None \<Rightarrow> []
          | Some agg \<Rightarrow> (case get_alias_value_in_record E c (rulepath rule) (unwrap_or [] (field_name agg)) (rec_data rec) False True []
                         of Some (v, _) \<Rightarrow> unwrap_or [] v | None \<Rightarrow> [])),
      rec_time = unwrap_or default_time (get_event_time E (rec_data rec) (json_input cfg)),
      rec_event_id = unwrap_or [] (system_text E c ''Event.System.EventID'' (rec_data rec)),
      rec_computer = unwrap_or [] (system_text E c ''Event.System.Computer'' (rec_data rec)),
      rec_channel = unwrap_or [] (system_text E c ''Event.System.Channel'' (rec_data rec)),
      rec_file = evtx_filepath rec\<rparr>"

lemma alias_value_quiet:
  "get_alias_value_in_record E c path alias ev is_by quiet log = Some (v, l) \<Longrightarrow>
     \<exists>l'. get_alias_value_in_record E c path alias ev is_by True log' = Some (v, l')"
  by (auto simp: get_alias_value_in_record_def split: if_splits option.splits)

lemma count_key_values_quiet:
  "count_key_values E c path ev quiet ks log = Some (vs, l) \<Longrightarrow>
     \<exists>l'. count_key_values E c path ev True ks log' = Some (vs, l')"
proof (induction ks arbitrary: log log' vs)
  case (Cons k ks)
  then obtain v l1 vs' where v: "get_alias_value_in_record E c path k ev True quiet log = Some (v, l1)"
    "count_key_values E c path ev quiet ks l1 = Some (vs', l)" "vs = unwrap_or ''_'' v # vs'"
    by (auto split: option.splits)
  obtain l2 where "get_alias_value_in_record E c path k ev True True log' = Some (v, l2)"
    using alias_value_quiet [OF v(1)] by blast
  moreover obtain l3 where "count_key_values E c path ev True ks l2 = Some (vs', l3)"
    using Cons.IH [OF v(2)] by blast
  ultimately show ?case by (simp add: v(3))
qed simp

lemma create_count_key_quiet:
  "create_count_key E c rule ev quiet log = Some (k, l) \<Longrightarrow>
     \<exists>l'. create_count_key E c rule ev True [] = Some (k, l')"
  by (auto simp: create_count_key_def split: option.splits if_splits
      dest: alias_value_quiet [where log' = "[]"] count_key_values_quiet [where log' = "[]"]) 

lemma count_effect:
  assumes "count E c rule rec quiet (json_input cfg) log = Some (rule', log')"
  shows "countdata rule' = assoc_insert (group_key E c rule rec)
    (unwrap_or [] (map_of (countdata rule) (group_key E c rule rec)) @ [entry_info E c cfg rule rec]) (countdata rule)"
proof -
  obtain key l1 v l2 where k: "create_count_key E c rule (rec_data rec) quiet log = Some (key, l1)"
    and v: "get_alias_value_in_record E c (rulepath rule)
        (case get_agg_condition rule of None \<Rightarrow> [] | Some agg \<Rightarrow> unwrap_or [] (field_name agg)) (rec_data rec) False quiet l1 = Some (v, l2)"
    and u: "countup E c rule key (unwrap_or [] v) rec (json_input cfg) = Some rule'"
    using assms by (auto simp: count_def Let_def split: option.splits)
  obtain agg where agg: "get_agg_condition rule = Some agg"
    using k by (auto simp: create_count_key_def split: option.splits)
  have key: "group_key E c rule rec = key" using create_count_key_quiet [OF k] by (auto simp: group_key_def)
  obtain l where v': "get_alias_value_in_record E c (rulepath rule) (unwrap_or [] (field_name agg)) (rec_data rec) False True [] = Some (v, l)"
    using alias_value_quiet [OF v [unfolded agg option.case]] by blast
  from u show ?thesis
    by (auto simp: countup_def Let_def key entry_info_def agg v' split: option.splits)
qed

lemma entry_cong:
  assumes "detection rule' = detection rule" and "rulepath rule' = rulepath rule"
  shows "group_key E c rule' rec = group_key E c rule rec" and "entry_info E c cfg rule' rec = entry_info E c cfg rule rec"
    and "selects E c rule' rec = selects E c rule rec"
  unfolding group_key_def create_count_key_def get_agg_condition_def entry_info_def selects_def assms by (rule refl)+

definition group_of :: "env \<Rightarrow> alias_config \<Rightarrow> run_config \<Rightarrow> rule_node \<Rightarrow> recinfo list \<Rightarrow> string \<Rightarrow> agg_record list" where
  "group_of E c cfg rule recs k =
     map (entry_info E c cfg rule) (filter (\<lambda>r. selects E c rule r \<and> group_key E c rule r = k) recs)"

lemma execute_loop_counts:
  assumes "has_agg_condition rule" and "\<not> pivot_keyword_list cfg"
    and "execute_loop E c cfg True rule recs log = Some (rule', es, log')"
  shows "es = [] \<and> detection rule' = detection rule \<and> rulepath rule' = rulepath rule \<and>
    correlation rule' = correlation rule \<and>
    (\<forall>k. unwrap_or [] (map_of (countdata rule') k) = unwrap_or [] (map_of (countdata rule) k) @ group_of E c cfg rule recs k)"
  using assms(1,3)
proof (induction recs arbitrary: rule log es)
  case (Cons r recs)
  then obtain rule1 es1 log1 es2 where s: "execute_record E c cfg True rule r log = Some (rule1, es1, log1)"
    "execute_loop E c cfg True rule1 recs log1 = Some (rule', es2, log')" "es = es1 @ es2"
    by (auto simp: bind_eq_Some_conv)
  then obtain b where rs: "rule_select E c rule r (quiet_errors cfg) (json_input cfg) log = Some (b, rule1, log1)" "es1 = []"
    using assms(2) by (auto simp: execute_record_def split: if_splits)
  note keep = rule_select_keeps [OF rs(1)]
  have d: "detection rule1 = detection rule" "rulepath rule1 = rulepath rule" using keep by auto
  have "has_agg_condition rule1" using Cons.prems(1) d(1) by (simp add: has_agg_condition_def)
  note ih = Cons.IH [OF this s(2)]
  have g: "group_of E c cfg rule1 recs k = group_of E c cfg rule recs k" for k
    by (simp add: group_of_def entry_cong [OF d])
  have "unwrap_or [] (map_of (countdata rule1) k) = unwrap_or [] (map_of (countdata rule) k) @ group_of E c cfg rule [r] k" for k
  proof (cases b)
    case True
    then have "count E c rule r (quiet_errors cfg) (json_input cfg) log = Some (rule1, log1)"
      using rs(1) Cons.prems(1) by (auto simp: rule_select_def split: option.splits if_splits)
    from count_effect [OF this] True keep show ?thesis by (simp add: group_of_def)
  next
    case False
    then have "rule1 = rule" using rs(1) by (auto simp: rule_select_def split: option.splits if_splits)
    with False keep show ?thesis by (simp add: group_of_def)
  qed
  then show ?case using ih g keep d rs(2) s(3) by (auto simp: group_of_def)
qed (simp add: group_of_def)

text \<open>
  C16: Nothing is lost in counting. Unless pivot keywords are listed, a rule with an aggregation reports
  no record by itself, and when it starts without counts, the records it has collected under a group
  key after the run are exactly the selected ones with that key, in their order.
\<close>

theorem execute_rule_counts:
  assumes "has_agg_condition rule" and "\<not> pivot_keyword_list cfg" and "countdata rule = []"
    and "execute_rule E c cfg rule recs log = Some (rule', es, log')"
  shows "es = [] \<and> (\<forall>k. unwrap_or [] (map_of (countdata rule') k) = group_of E c cfg rule recs k)"
  using execute_loop_counts [OF assms(1,2)] assms(1,3,4) by (simp add: execute_rule_def)

subsection \<open>Every schedule ends with the same reports\<close>

text \<open>What a rule emits for the records it selects.\<close>

definition rule_emits :: "env \<Rightarrow> alias_config \<Rightarrow> run_config \<Rightarrow> rule_node \<Rightarrow> recinfo list \<Rightarrow> emitted list" where
  "rule_emits E c cfg rule recs =
     (let hits = filter (selects E c rule) recs in
      if pivot_keyword_list cfg then map PivotKeywords hits
      else if has_agg_condition rule then []
      else map (\<lambda>r. Report (LogRecord rule r)) hits)"

lemma execute_loop_emits:
  assumes "execute_loop E c cfg (has_agg_condition rule) rule recs log = Some (rule', es, log')"
  shows "es = rule_emits E c cfg rule recs"
proof (cases "has_agg_condition rule")
  case True
  have "execute_loop E c cfg True r recs log = Some (rule', es, log') \<Longrightarrow> detection r = detection rule \<Longrightarrow>
      es = (if pivot_keyword_list cfg then map PivotKeywords (filter (selects E c rule) recs) else [])" for r
  proof (induction recs arbitrary: r log es)
    case (Cons x recs)
    then obtain r1 es1 log1 es2 where s: "execute_record E c cfg True r x log = Some (r1, es1, log1)"
      "execute_loop E c cfg True r1 recs log1 = Some (rule', es2, log')" "es = es1 @ es2"
      by (auto simp: bind_eq_Some_conv)
    then obtain b where b: "rule_select E c r x (quiet_errors cfg) (json_input cfg) log = Some (b, r1, log1)"
      "es1 = (if \<not> b then [] else if pivot_keyword_list cfg then [PivotKeywords x] else [])"
      by (auto simp: execute_record_def)
    have "b = selects E c rule x" "detection r1 = detection rule"
      using rule_select_keeps [OF b(1)] Cons.prems(2) by (simp_all add: selects_def)
    with Cons.IH [OF s(2)] b(2) s(3) show ?case by simp
  qed simp
  from this [of rule] assms True show ?thesis by (simp add: rule_emits_def Let_def)
next
  case False
  have "execute_loop E c cfg False rule recs log = Some (rule', es, log') \<Longrightarrow>
      es = (if pivot_keyword_list cfg then map PivotKeywords (filter (selects E c rule) recs)
            else map (\<lambda>r. Report (LogRecord rule r)) (filter (selects E c rule) recs))"
  proof (induction recs arbitrary: log es)
    case (Cons x recs)
    then obtain r1 es1 log1 es2 where s: "execute_record E c cfg False rule x log = Some (r1, es1, log1)"
      "execute_loop E c cfg False r1 recs log1 = Some (rule', es2, log')" "es = es1 @ es2"
      by (auto simp: bind_eq_Some_conv)
    then obtain b where b: "rule_select E c rule x (quiet_errors cfg) (json_input cfg) log = Some (b, r1, log1)"
      "es1 = (if \<not> b then [] else if pivot_keyword_list cfg then [PivotKeywords x] else [Report (LogRecord r1 x)])"
      by (auto simp: execute_record_def)
    have "r1 = rule" using b(1) False by (auto simp: rule_select_def split: option.splits if_splits)
    moreover have "b = selects E c rule x" using rule_select_keeps [OF b(1)] by simp
    ultimately show ?case using Cons.IH [of log1 es2] s(2,3) b(2) by simp
  qed simp
  from this assms False show ?thesis by (simp add: rule_emits_def Let_def)
qed

lemma execute_rules_emits:
  "execute_rules E c cfg rules recs log = Some (rules', es, log') \<Longrightarrow> es = concat (map (\<lambda>rule. rule_emits E c cfg rule recs) rules)"
proof (induction rules arbitrary: log rules' es)
  case (Cons rule rules)
  then obtain r1 es1 log1 rs es2 where "execute_rule E c cfg rule recs log = Some (r1, es1, log1)"
    "execute_rules E c cfg rules recs log1 = Some (rs, es2, log')" "es = es1 @ es2"
    by (auto simp: bind_eq_Some_conv)
  then show ?case using Cons.IH execute_loop_emits by (simp add: execute_rule_def)
qed simp

text \<open>
  C18: Every schedule of the tasks ends, and it ends with the right reports. No schedule is infinite. If
  the rules run one after the other without a panic, a schedule stops only when every task has seen all
  its records, and what has been emitted is then, rule by rule in the order of the rules and for each
  in the order of the records: for the list of pivot keywords the call for each record that the rule
  selects, else nothing for a rule that counts and for any other rule a report of each record that it
  selects, and of no other.
\<close>

theorem run_terminates:
  assumes "execute_rules E c cfg rules recs log \<noteq> None"
  shows "(\<nexists>f. \<forall>n. run_step E c cfg (f n) (f (Suc n))) \<and>
    (\<forall>ts log' pv'. (run_step E c cfg)\<^sup>*\<^sup>* (map (new_task recs) rules, log, pv) (ts, log', pv') \<longrightarrow>
       (\<nexists>s'. run_step E c cfg (ts, log', pv') s') \<longrightarrow>
       finished ts \<and> concat (map emits ts) = concat (map (\<lambda>rule. rule_emits E c cfg rule recs) rules))"
proof (intro conjI allI impI run_finite)
  fix ts log' pv'
  assume r: "(run_step E c cfg)\<^sup>*\<^sup>* (map (new_task recs) rules, log, pv) (ts, log', pv')"
    and "\<nexists>s'. run_step E c cfg (ts, log', pv') s'"
  then show f: "finished ts" using run_stuck_finished [OF assms] by blast
  obtain log'' where "execute_rules E c cfg rules recs log = Some (map task_rule ts, concat (map emits ts), log'')"
    using run_verdicts [OF r f] by blast
  then show "concat (map emits ts) = concat (map (\<lambda>rule. rule_emits E c cfg rule recs) rules)"
    by (rule execute_rules_emits)
qed



subsection \<open>A counting rule from the records to the report\<close>

lemma judge_groups_member:
  "judge_groups rule gs = Some all \<Longrightarrow> (k, ds) \<in> set gs \<Longrightarrow>
     \<exists>rs. judge_timeframe rule ds k = Some rs \<and> set rs \<subseteq> set all"
  by (induction rule gs arbitrary: all rule: judge_groups.induct) (fastforce split: option.splits)+

lemma aggregate_rules_member:
  "aggregate_rules rules refs = Some (ds, refs') \<Longrightarrow> rule \<in> set rules \<Longrightarrow> has_agg_condition rule \<Longrightarrow>
   (\<forall>u. correlation rule \<noteq> TemporalRef False u) \<Longrightarrow>
     \<exists>rs. judge_satisfy_aggcondition rule = Some rs \<and> AggLogRecord rule ` set rs \<subseteq> set ds"
proof (induction rules arbitrary: refs ds)
  case (Cons r rules)
  then obtain ds1 refs1 ds2 where s: "aggregate_rule r refs = Some (ds1, refs1)"
    "aggregate_rules rules refs1 = Some (ds2, refs')" "ds = ds1 @ ds2"
    by (auto simp: bind_eq_Some_conv)
  show ?case
  proof (cases "rule = r")
    case True
    then show ?thesis
      using s(1,3) Cons.prems(3,4) by (cases "correlation r") (auto simp: aggregate_rule_def split: bool.splits)
  next
    case False
    with Cons.IH [OF s(2)] Cons.prems s(3) show ?thesis by auto
  qed
qed simp

text \<open>
  C5: A counting rule detects, from the records to the report. When a rule with a time frame that asks for
  at least (or more than) some number, and is not one that only a temporal rule refers to, starts
  without counts and has run over the records, pivot keywords not being listed, and among the selected
  records of one group some that follow each other in time fit into the time frame and satisfy the
  condition, then the final report has a result of the rule for that group whose number satisfies it.
\<close>

theorem counting_rule_detects:
  assumes "get_agg_condition rule = Some agg" and "cmp_op agg = GE \<or> cmp_op agg = GT"
    and "get_sec_timeframe rule = Some frame" and "0 \<le> frame"
    and "\<forall>u. correlation rule \<noteq> TemporalRef False u" and "countdata rule = []" and "\<not> pivot_keyword_list cfg"
    and "execute_rule E c cfg rule recs log = Some (rule', es, log')"
    and "rule' \<in> set rules" and "add_aggcondition_msg rules = Some out"
    and "a < b" and "b \<le> length (group_of E c cfg rule recs k)"
    and "rec_time (time_sorted (group_of E c cfg rule recs k) ! (b - 1)) -
         rec_time (time_sorted (group_of E c cfg rule recs k) ! a) \<le> frame * 10 ^ 9"
    and "select_aggcon (aggregate agg (window (time_sorted (group_of E c cfg rule recs k)) a b)) (Some agg)"
  shows "\<exists>r. AggLogRecord rule' r \<in> set out \<and> agg_key r = k \<and> select_aggcon (agg_data r) (Some agg)"
proof -
  let ?ds = "group_of E c cfg rule recs k"
  have has: "has_agg_condition rule" using assms(1) by (simp add: has_agg_condition_def get_agg_condition_def)
  have r': "detection rule' = detection rule" "correlation rule' = correlation rule"
    "unwrap_or [] (map_of (countdata rule') k) = ?ds"
    using execute_loop_counts [OF has assms(7)] assms(8) has by (simp_all add: execute_rule_def assms(6))
  have agg': "get_agg_condition rule' = Some agg" "has_agg_condition rule'"
    "get_sec_timeframe rule' = Some frame" "\<forall>u. correlation rule' \<noteq> TemporalRef False u"
    using assms(1,3,5) has r' by (simp_all add: get_agg_condition_def get_sec_timeframe_def has_agg_condition_def)
  have eff: "effective_frame rule' ?ds = frame" by (simp add: effective_frame_def agg'(3))
  have "?ds \<noteq> []" using assms(11,12) by auto
  then have "map_of (countdata rule') k = Some ?ds" using r'(3) by (cases "map_of (countdata rule') k") auto
  then have mem: "(k, ?ds) \<in> set (countdata rule')" by (rule map_of_SomeD)
  obtain ds refs ds' where o1: "aggregate_rules rules Map.empty = Some (ds, refs)" "out = ds @ ds'"
    using assms(10) by (auto simp: add_aggcondition_msg_def bind_eq_Some_conv)
  from aggregate_rules_member [OF o1(1) assms(9) agg'(2,4)]
  obtain rs where rs: "judge_satisfy_aggcondition rule' = Some rs" "AggLogRecord rule' ` set rs \<subseteq> set ds" by blast
  have "judge_groups rule' (countdata rule') = Some rs"
    using rs(1) agg'(2) by (simp add: judge_satisfy_aggcondition_def aggregation_condition_select_def)
  from judge_groups_member [OF this mem] obtain rs1 where
    rs1: "judge_timeframe rule' ?ds k = Some rs1" "set rs1 \<subseteq> set rs" by blast
  have "\<exists>r rs. judge_timeframe rule' ?ds k = Some (r # rs)"
    by (rule judge_timeframe_misses_nothing [OF agg'(1) assms(2) _ assms(11,12)])
       (use assms(4,13,14) eff in simp_all)
  then have "rs1 \<noteq> []" using rs1(1) by auto
  then obtain r where r: "r \<in> set rs1" by (cases rs1) auto
  have "list_all (\<lambda>r. select_aggcon (agg_data r) (Some agg) \<and> agg_key r = k) rs1"
    using judge_timeframe_reports [OF agg'(1), of ?ds k] assms(4) rs1(1) eff by (auto elim: list.pred_mono_strong)
  then have "agg_key r = k" "select_aggcon (agg_data r) (Some agg)" using r by (auto simp: list_all_iff)
  with r rs(2) rs1(2) o1(2) show ?thesis by auto
qed

subsection \<open>Temporal correlation\<close>

definition in_window :: "bool \<Rightarrow> int \<Rightarrow> agg_result \<Rightarrow> agg_result \<Rightarrow> bool" where
  "in_window ordered tf base t \<longleftrightarrow>
     (if ordered then start_timedate base else start_timedate base - tf) \<le> start_timedate t \<and>
     start_timedate t \<le> start_timedate base + tf"

definition base_in_range :: "int \<Rightarrow> agg_result \<Rightarrow> bool" where
  "base_in_range tf b \<longleftrightarrow> time_in_range (start_timedate b + tf) \<and> time_in_range (start_timedate b - tf)"

lemma within_in_window:
  "base_in_range tf base \<Longrightarrow>
     (if ordered then within_ordered tf base t else within_unordered tf base t) = Some (in_window ordered tf base t)"
  by (auto simp: base_in_range_def within_ordered_def within_unordered_def add_time_def in_window_def)

lemma others_found_window:
  assumes "base_in_range tf base"
  shows "\<forall>i \<in> set ids. results i \<noteq> None \<Longrightarrow>
    others_found results tf ordered base base ids found =
      Some (if ids = [] then found else \<forall>i \<in> set ids. \<exists>t \<in> set (the (results i)). in_window ordered tf base t)"
proof (induction ids arbitrary: found)
  case (Cons i ids)
  then obtain ts where ts: "results i = Some ts" by auto
  have "any_opt (\<lambda>t. if ordered then within_ordered tf base t else within_unordered tf base t) ts =
      Some (list_ex (in_window ordered tf base) ts)"
    by (rule any_opt_total) (rule within_in_window [OF assms])
  with Cons ts show ?case by (auto simp: list_ex_iff split: bool.split)
qed simp

lemma base_loop_filter:
  assumes "\<forall>i \<in> set ids. results i \<noteq> None"
  shows "\<forall>b \<in> set bases. base_in_range tf b \<Longrightarrow>
    base_loop results tf ordered ids bases =
      Some (filter (\<lambda>b. ids \<noteq> [] \<and> (\<forall>i \<in> set ids. \<exists>t \<in> set (the (results i)). in_window ordered tf b t)) bases)"
  by (induction bases) (auto simp: others_found_window [OF _ assms])

text \<open>
  C8: The temporal detection is a filter. When all rules a temporal rule refers to have results and the
  times are in the range of the clock, the base results, those of the first of these rules, that are
  reported, in their order, are those for which every other rule has a result within the time frame:
  on both sides of the base, or after it for an ordered rule. A rule that refers to one rule alone
  reports nothing.
\<close>

theorem temporal_detection_spec:
  assumes "\<forall>i \<in> set (key # ids). results i \<noteq> None"
    and "\<forall>b \<in> set (the (results key)). base_in_range tf b"
  shows "detect_within_timeframe (key # ids) results tf ordered =
    Some (filter (\<lambda>b. ids \<noteq> [] \<and> (\<forall>i \<in> set ids. \<exists>t \<in> set (the (results i)). in_window ordered tf b t))
      (the (results key)))"
  using assms base_loop_filter [of ids results "the (results key)" tf ordered]
  by (auto simp: detect_within_timeframe_def)

definition sample_result :: "string \<Rightarrow> int \<Rightarrow> agg_result" where
  "sample_result key t = \<lparr>agg_data = 1, agg_key = key, field_values = [], start_timedate = t, agg_record_time_info = []\<rparr>"

theorem temporal_detection_spec_witness:
  "detect_within_timeframe [''a'', ''b''] [''a'' \<mapsto> [sample_result ''_'' 5], ''b'' \<mapsto> [sample_result ''_'' 9]] 10 True =
    Some (filter (\<lambda>b. [''b''] \<noteq> [] \<and> (\<forall>i \<in> set [''b''].
        \<exists>t \<in> set (the (([''a'' \<mapsto> [sample_result ''_'' 5], ''b'' \<mapsto> [sample_result ''_'' 9]]) i)). in_window True 10 b t))
      (the (([''a'' \<mapsto> [sample_result ''_'' 5], ''b'' \<mapsto> [sample_result ''_'' 9]]) ''a'')))"
  by (rule temporal_detection_spec) (simp_all add: base_in_range_def time_in_range_def sample_result_def)

text \<open>
  An ordered temporal rule only orders the others after the first: with the results of three
  rules at 0, 20 and 10, in a frame of 30 and in groups that differ, the base is reported although
  the third came before the second. A temporal rule that refers to one rule never reports.
\<close>

theorem temporal_ordered_ignores_later_order:
  "detect_within_timeframe [''a'', ''b'', ''c'']
     [''a'' \<mapsto> [sample_result ''pc1'' 0], ''b'' \<mapsto> [sample_result ''pc2'' 20], ''c'' \<mapsto> [sample_result ''pc3'' 10]] 30 True =
   Some [sample_result ''pc1'' 0] \<and>
   detect_within_timeframe [key] results tf ordered = Some []"
proof
  show "detect_within_timeframe [''a'', ''b'', ''c'']
     [''a'' \<mapsto> [sample_result ''pc1'' 0], ''b'' \<mapsto> [sample_result ''pc2'' 20], ''c'' \<mapsto> [sample_result ''pc3'' 10]] 30 True =
   Some [sample_result ''pc1'' 0]"
    by code_simp
  have "base_loop results tf ordered [] bases = Some []" for bases by (induction bases) simp_all
  then show "detect_within_timeframe [key] results tf ordered = Some []"
    by (simp add: detect_within_timeframe_def split: option.split)
qed

subsection \<open>Loading\<close>

lemma create_rule_new: "create_rule path y = rule_new path y"
  by (simp add: create_rule_def)

lemma init_rules_well_loaded:
  "init_rules E quiet files log errors = Some (rs, log', n) \<Longrightarrow> r \<in> set rs \<Longrightarrow> well_loaded E quiet r"
proof (induction files arbitrary: log errors rs)
  case (Cons f files)
  obtain path y where f: "f = (path, y)" by (cases f)
  from Cons.prems(1) obtain r0 where r0: "rule_new path y = Some r0"
    by (auto simp: f create_rule_new split: option.splits)
  then have y: "rule_yaml r0 = y" "rulepath r0 = path" "correlation_type_new y = Some (correlation r0)"
    by (auto simp: rule_new_shape)
  obtain q log1 where q: "rule_init E r0 quiet log = (q, log1)" by fastforce
  show ?case
  proof (cases q)
    case (Ok r')
    then obtain rs' where rs: "init_rules E quiet files log1 errors = Some (rs', log', n)" "rs = r' # rs'"
      using Cons.prems(1) r0 q by (auto simp: f create_rule_new)
    have same: "rule_yaml r' = y" "rulepath r' = path" "correlation r' = correlation r0"
      using q Ok y by (auto simp: rule_init_def map_outcome_def split: if_splits prod.splits outcome.splits)
    have "loaded E quiet r'" using r0 q Ok same by (auto simp: loaded_def)
    then have "well_loaded E quiet r'" using y(3) same by (simp add: well_loaded_def)
    with Cons.IH [OF rs(1)] Cons.prems(2) rs(2) show ?thesis by auto
  next
    case (Err e)
    with Cons.prems r0 q Cons.IH show ?thesis by (auto simp: f create_rule_new)
  next
    case Panic
    with Cons.prems r0 q show ?thesis by (simp add: f create_rule_new)
  qed
qed simp

text \<open>
  C19: Loading does not panic after the files are read: if the rules of the files initialise or fail with
  an error, and those that are temporal have a time span with a unit, the correlation pass
  returns the final list.
\<close>

theorem rule_files_load:
  assumes "init_rules E quiet files log errors = Some (rs, log1, n)"
    and "\<forall>r \<in> set rs. is_correlation r \<and> is_temporal r \<longrightarrow> temporal_frame (rule_yaml r) \<noteq> None"
  shows "parse_rule_files E uuid quiet files log errors \<noteq> None"
  using parse_correlation_total [of rs E quiet uuid log1 n] init_rules_well_loaded [OF assms(1)] assms
  by (simp add: parse_rule_files_def)

subsection \<open>Witnesses\<close>

definition sample_event :: recinfo where
  "sample_event = \<lparr>evtx_filepath = ''a.evtx'',
     rec_data = JObject [(''Event'', JObject [(''System'', JObject
       [(''EventID'', JNumber (JInt 1)), (''Computer'', JString ''pc''), (''Channel'', JString ''Sysmon'')])])],
     data_string = [], key_2_value = [''Image'' \<mapsto> ''C:/Mimikatz''], recovered_record = False\<rparr>"

definition sample_config :: run_config where
  "sample_config = \<lparr>quiet_errors = True, json_input = False, pivot_keyword_list = False\<rparr>"

definition sample_count_rule :: rule_node where
  "sample_count_rule = sample_base\<lparr>detection := sample_detection_node\<lparr>
     aggregation_condition := Some \<lparr>field_name = None, by_field_name = None, cmp_op = GE, cmp_num = 1\<rparr>,
     timeframe := seconds 60\<rparr>\<rparr>"

theorem rule_files_load_witness:
  "parse_rule_files env0 (\<lambda>n. ''uuid'') True
     [(''r1.yml'', rule_yaml sample_base), (''t.yml'', rule_yaml (sample_temporal minute))] [] 0 \<noteq> None"
proof (rule rule_files_load)
  have base: "rule_new ''r1.yml'' (rule_yaml sample_base) = Some (sample_base\<lparr>detection := detection_new\<rparr>)"
    using sample_base_init(1) by (simp add: sample_base_def)
  have t: "rule_new ''t.yml'' (rule_yaml (sample_temporal minute)) = Some (sample_temporal minute)"
    using sample_temporal_facts(3) [of minute] by (simp add: rule_new_shape) (simp add: sample_temporal_def)
  have ti: "rule_init env0 (sample_temporal minute) True [] = (Ok (sample_temporal minute), [])"
    using sample_temporal_facts(1) [of minute] by (simp add: rule_init_def is_correlation_def)
  show "init_rules env0 True
     [(''r1.yml'', rule_yaml sample_base), (''t.yml'', rule_yaml (sample_temporal minute))] [] 0 =
       Some ([sample_base, sample_temporal minute], [], 0)"
    by (simp add: create_rule_new base t ti sample_base_init(2))
  show "\<forall>r \<in> set [sample_base, sample_temporal minute]. is_correlation r \<and> is_temporal r \<longrightarrow>
      temporal_frame (rule_yaml r) \<noteq> None"
    using sample_base_loaded(2) sample_temporal_frame by simp
qed

lemma sample_selected: "detection_select env0 new_alias_config sample_detection_node sample_event = Some True"
  by code_simp

lemma sample_count_selected: "detection_select env0 new_alias_config (detection sample_count_rule) sample_event = Some True"
  using sample_selected by (simp add: sample_count_rule_def detection_select_def)

lemma sample_base_simps:
  "detection sample_base = sample_detection_node" "\<not> has_agg_condition sample_base"
  by (simp_all add: sample_base_def has_agg_condition_def sample_detection_node_def detection_new_with_data_def)

lemma sample_execute:
  "execute_record env0 new_alias_config sample_config False sample_base sample_event log =
     Some (sample_base, [Report (LogRecord sample_base sample_event)], log)"
  by (simp add: execute_record_def rule_select_def sample_base_simps sample_selected sample_config_def)

theorem execute_rule_reports_witness:
  "execute_rule env0 new_alias_config sample_config sample_base [blank_record, sample_event] [] =
     Some (sample_base, map (\<lambda>r. Report (LogRecord sample_base r))
       (filter (selects env0 new_alias_config sample_base) [blank_record, sample_event]), [])"
  by (rule execute_rule_reports [of env0 sample_detection True "[]" _ "[]"])
     (simp_all add: sample_base_simps sample_init sample_config_def)

lemma sample_run:
  "run_step env0 new_alias_config sample_config (map (new_task [sample_event]) [sample_base], [], pv)
     ([\<lparr>task_rule = sample_base, task_agg = False, todo = [], emits = [Report (LogRecord sample_base sample_event)]\<rparr>], [], pv)"
  using process [of 0 "map (new_task [sample_event]) [sample_base]" sample_event "[]" env0 new_alias_config sample_config "[]" _ _ _ pv,
      unfolded new_task_def] sample_execute [of "[]"]
  by (simp add: new_task_def sample_base_simps)

theorem run_schedule_independent_witness:
  "\<exists>log''. execute_rules env0 new_alias_config sample_config [sample_base] [sample_event] [] =
     Some ([sample_base], [Report (LogRecord sample_base sample_event)], log'') \<and> mset log'' = mset [] \<and>
   same_pivots [(''Users'', pivot_keyword_new)] [(''Users'', pivot_keyword_new)]"
  using run_schedule_independent [OF r_into_rtranclp [where r = "run_step env0 new_alias_config sample_config",
      OF sample_run [of "[(''Users'', pivot_keyword_new)]"]]]
  by (simp add: finished_def)

theorem run_terminates_witness:
  "(\<nexists>f. \<forall>n. run_step env0 new_alias_config sample_config (f n) (f (Suc n))) \<and>
   concat (map emits [\<lparr>task_rule = sample_base, task_agg = False, todo = [], emits = [Report (LogRecord sample_base sample_event)]\<rparr>]) =
     concat (map (\<lambda>rule. rule_emits env0 new_alias_config sample_config rule [sample_event]) [sample_base])"
proof -
  let ?ts = "[\<lparr>task_rule = sample_base, task_agg = False, todo = [], emits = [Report (LogRecord sample_base sample_event)]\<rparr>]"
  have ok: "execute_rules env0 new_alias_config sample_config [sample_base] [sample_event] [] \<noteq> None"
    by (simp add: execute_rule_def sample_base_simps sample_execute)
  have "\<nexists>s'. run_step env0 new_alias_config sample_config (?ts, [], []) s'" by (auto elim!: run_step_elim)
  moreover have "(run_step env0 new_alias_config sample_config)\<^sup>*\<^sup>* (map (new_task [sample_event]) [sample_base], [], []) (?ts, [], [])"
    by (rule r_into_rtranclp [where r = "run_step env0 new_alias_config sample_config", OF sample_run [of "[]"]])
  ultimately show ?thesis using run_terminates [OF ok, of "[]"] by blast
qed

text \<open>An event with a level and a user, for the list of pivot keywords.\<close>

definition sample_pivot_event :: recinfo where
  "sample_pivot_event = sample_event\<lparr>rec_data := JObject [(''Event'', JObject
     [(''System'', JObject [(''Level'', JNumber (JInt 4))]), (''EventData'', JObject [(''SubjectUserName'', JString ''bob'')])])]\<rparr>"

definition sample_pivot_alias :: alias_config where
  "sample_pivot_alias = foldl add_alias_line new_alias_config [[''SubjectUserName'', ''Event.EventData.SubjectUserName'']]"

definition sample_pivots :: pivot_map where
  "sample_pivots = [(''Users'', \<lparr>pk_keywords = [], pk_fields = [''SubjectUserName'']\<rparr>)]"


lemma sample_count_run:
  "\<exists>rule'. execute_rule env0 new_alias_config sample_config sample_count_rule [sample_event] [] = Some (rule', [], [])"
proof -
  have agg: "get_agg_condition sample_count_rule = Some \<lparr>field_name = None, by_field_name = None, cmp_op = GE, cmp_num = 1\<rparr>"
    by (simp add: sample_count_rule_def get_agg_condition_def)
  have "\<exists>r. countup env0 new_alias_config sample_count_rule ''_'' [] sample_event False = Some r"
    by (simp add: countup_def system_text_def sample_event_def get_event_value_def get_event_key_def new_alias_config_def
        json_index_def)
  then have "\<exists>r. count env0 new_alias_config sample_count_rule sample_event True False [] = Some (r, [])"
    by (auto simp: count_def create_count_key_def agg get_alias_value_in_record_def)
  then show ?thesis
    using agg by (auto simp: execute_rule_def execute_record_def rule_select_def sample_count_selected
        has_agg_condition_def get_agg_condition_def sample_config_def)
qed


theorem execute_rule_counts_witness:
  "\<exists>rule'. execute_rule env0 new_alias_config sample_config sample_count_rule [sample_event] [] = Some (rule', [], []) \<and>
     (\<forall>k. unwrap_or [] (map_of (countdata rule') k) =
       group_of env0 new_alias_config sample_config sample_count_rule [sample_event] k)"
proof -
  obtain rule' where ex: "execute_rule env0 new_alias_config sample_config sample_count_rule [sample_event] [] = Some (rule', [], [])"
    using sample_count_run by blast
  have "has_agg_condition sample_count_rule" "countdata sample_count_rule = []"
    by (simp_all add: sample_count_rule_def has_agg_condition_def sample_base_def)
  with execute_rule_counts [OF _ _ _ ex] ex show ?thesis by (simp add: sample_config_def)
qed

lemma sample_count_agg:
  "get_agg_condition sample_count_rule = Some \<lparr>field_name = None, by_field_name = None, cmp_op = GE, cmp_num = 1\<rparr>"
  "get_sec_timeframe sample_count_rule = Some 60" "correlation sample_count_rule = NoCorrelation"
  "countdata sample_count_rule = []"
  by (simp_all add: sample_count_rule_def get_agg_condition_def get_sec_timeframe_def seconds_def sample_base_def)

lemma sample_group:
  "group_of env0 new_alias_config sample_config sample_count_rule [sample_event] ''_'' =
     [entry_info env0 new_alias_config sample_config sample_count_rule sample_event]"
  using sample_count_selected
  by (simp add: group_of_def selects_def group_key_def create_count_key_def sample_count_agg)

lemma judge_groups_total:
  assumes "get_agg_condition rule = Some agg" and "get_sec_timeframe rule = Some frame" and "0 \<le> frame"
  shows "\<exists>rs. judge_groups rule gs = Some rs"
proof (induction gs)
  case (Cons g gs)
  obtain k ds where g: "g = (k, ds)" by (cases g)
  have "0 \<le> effective_frame rule ds" using assms(2,3) by (simp add: effective_frame_def)
  from judge_timeframe_reports [OF assms(1) this, of k] Cons g show ?case by auto
qed simp

theorem counting_rule_detects_witness:
  "\<exists>rule' out r. execute_rule env0 new_alias_config sample_config sample_count_rule [sample_event] [] = Some (rule', [], []) \<and>
     add_aggcondition_msg [rule'] = Some out \<and> AggLogRecord rule' r \<in> set out \<and> agg_key r = ''_'' \<and> agg_data r \<ge> 1"
proof -
  obtain rule' where ex: "execute_rule env0 new_alias_config sample_config sample_count_rule [sample_event] [] = Some (rule', [], [])"
    using sample_count_run by blast
  have has: "has_agg_condition sample_count_rule" using sample_count_agg(1) by (simp add: has_agg_condition_def get_agg_condition_def)
  have pivot: "\<not> pivot_keyword_list sample_config" by (simp add: sample_config_def)
  have loop: "execute_loop env0 new_alias_config sample_config True sample_count_rule [sample_event] [] = Some (rule', [], [])"
    using ex has by (simp only: execute_rule_def)
  have d: "detection rule' = detection sample_count_rule" "correlation rule' = NoCorrelation"
    using execute_loop_counts [OF has pivot loop] sample_count_agg(3) by simp_all
  have agg: "get_agg_condition rule' = get_agg_condition sample_count_rule"
    "get_sec_timeframe rule' = get_sec_timeframe sample_count_rule" "has_agg_condition rule'"
    using d has by (simp_all add: get_agg_condition_def get_sec_timeframe_def has_agg_condition_def)
  have "\<exists>rs. judge_satisfy_aggcondition rule' = Some rs"
    using judge_groups_total [of rule' _ 60 "countdata rule'"] agg sample_count_agg
    by (simp add: judge_satisfy_aggcondition_def aggregation_condition_select_def)
  then obtain out where out: "add_aggcondition_msg [rule'] = Some out"
    using d(2) agg(3) by (auto simp: add_aggcondition_msg_def aggregate_rule_def temporal_rule_def)
  let ?g = "group_of env0 new_alias_config sample_config sample_count_rule [sample_event] ''_''"
  have "\<exists>r. AggLogRecord rule' r \<in> set out \<and> agg_key r = ''_'' \<and>
      select_aggcon (agg_data r) (Some \<lparr>field_name = None, by_field_name = None, cmp_op = GE, cmp_num = 1\<rparr>)"
    by (rule counting_rule_detects [OF sample_count_agg(1) _ sample_count_agg(2) _ _ sample_count_agg(4) pivot ex _ out,
          where a = 0 and b = 1])
       (simp_all add: sample_count_agg sample_group time_sorted_def window_def aggregate_def select_aggcon_def)
  then obtain r where "AggLogRecord rule' r \<in> set out" "agg_key r = ''_''" "agg_data r \<ge> 1"
    by (auto simp: select_aggcon_def)
  with ex out show ?thesis by blast
qed

end
