(* ===== verification/Yaml_Expand.thy ===== *)
theory Yaml_Expand
  imports Rule_Node
begin

section \<open>Placeholders in rules (yaml\_expand.rs)\<close>

text \<open>
  The keys of a rule with the modifier \<open>expand\<close> get their placeholders replaced by the lines of
  the files under \<open>config/expand\<close>. The two flags the source threads through the walk, whether a
  key with the modifier was found and whether one of their values changed, are a pair.
\<close>

type_synonym expand_map = "(string \<times> string list) list"
type_synonym expand_flags = "bool \<times> bool"

definition replaced_values :: "expand_map \<Rightarrow> string \<Rightarrow> yaml list" where
  "replaced_values R s =
     concat (map (\<lambda>(p, vs). if contains_str s p then map (\<lambda>v. YString (replace_all p v s)) vs else []) R)"

text \<open>\<open>Hash::insert\<close> with any key: the entry goes to the end of the insertion order.\<close>

definition hash_put :: "(yaml \<times> yaml) list \<Rightarrow> yaml \<Rightarrow> yaml \<Rightarrow> (yaml \<times> yaml) list" where
  "hash_put h k v = filter (\<lambda>e. fst e \<noteq> k) h @ [(k, v)]"

definition expand_key :: "yaml \<Rightarrow> bool" where
  "expand_key k \<longleftrightarrow> (case as_str k of Some s \<Rightarrow> contains_str s ''|expand'' | None \<Rightarrow> False)"

definition new_key :: "yaml \<Rightarrow> yaml" where
  "new_key k = YString (replace_all ''|expand'' [] (unwrap_or [] (as_str k)))"

function (sequential)
  process_yaml :: "expand_map \<Rightarrow> yaml \<Rightarrow> expand_flags \<Rightarrow> yaml \<times> expand_flags"
  and process_value :: "expand_map \<Rightarrow> yaml \<Rightarrow> expand_flags \<Rightarrow> yaml \<times> expand_flags"
  and process_items :: "expand_map \<Rightarrow> yaml list \<Rightarrow> expand_flags \<Rightarrow> yaml list \<times> expand_flags"
  and process_pairs ::
    "expand_map \<Rightarrow> (yaml \<times> yaml) list \<Rightarrow> (yaml \<times> yaml) list \<Rightarrow> expand_flags \<Rightarrow> (yaml \<times> yaml) list \<times> expand_flags"
where
  "process_yaml R (YHash h) fl = map_prod YHash id (process_pairs R h [] fl)"
| "process_yaml R (YArray ys) fl = map_prod YArray id (process_items R ys fl)"
| "process_yaml R y fl = (y, fl)"
| "process_value R (YString s) fl =
     (let rs = replaced_values R s in (if rs = [] then YString s else YArray rs, fl))"
| "process_value R (YArray ys) fl = map_prod YArray id (process_items R ys fl)"
| "process_value R y fl = process_yaml R y fl"
| "process_items R [] fl = ([], fl)"
| "process_items R (y # ys) fl =
     (case process_yaml R y fl of (y', fl1) \<Rightarrow>
        (case process_items R ys fl1 of (ys', fl2) \<Rightarrow> (y' # ys', fl2)))"
| "process_pairs R [] acc fl = (acc, fl)"
| "process_pairs R ((k, v) # h) acc fl =
     (if expand_key k
      then (case process_value R v (True, snd fl) of (v', found, enabled) \<Rightarrow>
              process_pairs R h (hash_put acc (new_key k) v') (found, enabled \<or> v \<noteq> v'))
      else (case process_yaml R v fl of (v', fl1) \<Rightarrow> process_pairs R h (hash_put acc k v') fl1))"
  by pat_completeness auto
termination
  by (relation "measure (\<lambda>x. case x of
        Inl (Inl (R, y, fl)) \<Rightarrow> 2 * size y
      | Inl (Inr (R, y, fl)) \<Rightarrow> 2 * size y + 1
      | Inr (Inl (R, ys, fl)) \<Rightarrow> 2 * size_list size ys + 1
      | Inr (Inr (R, h, acc, fl)) \<Rightarrow> 2 * size_list (size_prod size size) h + 1)") auto

text \<open>
  The files of \<open>config/expand\<close> with the extension \<open>txt\<close>: the stem of the name, and the lines or the
  error of opening the file, which ends the reading.
\<close>

fun read_expand_loop :: "(string \<times> (string + string list)) list \<Rightarrow> expand_map \<Rightarrow> string + expand_map" where
  "read_expand_loop [] m = Inr m"
| "read_expand_loop ((key, Inl e) # files) m = Inl e"
| "read_expand_loop ((key, Inr ls) # files) m =
     (let values = map trim ls in
      read_expand_loop files (if values = [] then m else assoc_insert (''%'' @ key @ ''%'') values m))"

definition read_expand_files :: "(string \<times> (string + string list)) list option \<Rightarrow> string + expand_map" where
  "read_expand_files dir = (case dir of None \<Rightarrow> Inr [] | Some files \<Rightarrow> read_expand_loop files [])"

subsection \<open>The walk as pure functions\<close>

text \<open>
  The expanded document, whether it has a key with the modifier, and whether the value of such a
  key changes, each by itself.
\<close>

function expanded :: "expand_map \<Rightarrow> yaml \<Rightarrow> yaml" where
  "expanded R y =
     (case y of
        YHash h \<Rightarrow>
          YHash (fold (\<lambda>(k, v) acc. hash_put acc k v)
            (map (\<lambda>e. if expand_key (fst e)
                      then (new_key (fst e),
                            (case as_str (snd e) of
                               Some s \<Rightarrow> if replaced_values R s = [] then snd e else YArray (replaced_values R s)
                             | None \<Rightarrow> expanded R (snd e)))
                      else (fst e, expanded R (snd e))) h) [])
      | YArray ys \<Rightarrow> YArray (map (expanded R) ys)
      | _ \<Rightarrow> y)"
  by pat_completeness auto
termination
  by (relation "measure (\<lambda>(R, y). size y)")
     (auto simp del: yaml.size intro: size_yaml_hash_value size_yaml_array_elem)

declare expanded.simps [simp del]

definition expanded_value :: "expand_map \<Rightarrow> yaml \<Rightarrow> yaml" where
  "expanded_value R v =
     (case as_str v of
        Some s \<Rightarrow> if replaced_values R s = [] then v else YArray (replaced_values R s)
      | None \<Rightarrow> expanded R v)"

definition expanded_pair :: "expand_map \<Rightarrow> yaml \<times> yaml \<Rightarrow> yaml \<times> yaml" where
  "expanded_pair R e =
     (if expand_key (fst e) then (new_key (fst e), expanded_value R (snd e)) else (fst e, expanded R (snd e)))"

lemma expanded_simps [simp]:
  "expanded R (YHash h) = YHash (fold (\<lambda>(k, v) acc. hash_put acc k v) (map (expanded_pair R) h) [])"
  "expanded R (YArray ys) = YArray (map (expanded R) ys)"
  "expanded R (YString s) = YString s" "expanded R (YReal s) = YReal s"
  "expanded R (YInteger i) = YInteger i" "expanded R (YBoolean b) = YBoolean b"
  "expanded R (YAlias n) = YAlias n" "expanded R YNull = YNull" "expanded R YBadValue = YBadValue"
  unfolding expanded_pair_def [abs_def] expanded_value_def [abs_def] by (subst expanded.simps, simp)+

function uses_expand :: "yaml \<Rightarrow> bool" where
  "uses_expand y =
     (case y of
        YHash h \<Rightarrow> list_ex (\<lambda>e. expand_key (fst e) \<or> uses_expand (snd e)) h
      | YArray ys \<Rightarrow> list_ex uses_expand ys
      | _ \<Rightarrow> False)"
  by pat_completeness auto
termination
  by (relation "measure size")
     (auto simp del: yaml.size intro: size_yaml_hash_value size_yaml_array_elem)

declare uses_expand.simps [simp del]

lemma uses_expand_simps [simp]:
  "uses_expand (YHash h) \<longleftrightarrow> (\<exists>e \<in> set h. expand_key (fst e) \<or> uses_expand (snd e))"
  "uses_expand (YArray ys) \<longleftrightarrow> (\<exists>y \<in> set ys. uses_expand y)"
  "\<not> uses_expand (YString s)" "\<not> uses_expand (YReal s)" "\<not> uses_expand (YInteger i)"
  "\<not> uses_expand (YBoolean b)" "\<not> uses_expand (YAlias n)" "\<not> uses_expand YNull" "\<not> uses_expand YBadValue"
  by (subst uses_expand.simps, simp add: list_ex_iff)+

function expand_enabled :: "expand_map \<Rightarrow> yaml \<Rightarrow> bool" where
  "expand_enabled R y =
     (case y of
        YHash h \<Rightarrow>
          list_ex (\<lambda>e. expand_key (fst e) \<and> snd e \<noteq> expanded_value R (snd e) \<or> expand_enabled R (snd e)) h
      | YArray ys \<Rightarrow> list_ex (expand_enabled R) ys
      | _ \<Rightarrow> False)"
  by pat_completeness auto
termination
  by (relation "measure (\<lambda>(R, y). size y)")
     (auto simp del: yaml.size intro: size_yaml_hash_value size_yaml_array_elem)

declare expand_enabled.simps [simp del]

lemma expand_enabled_simps [simp]:
  "expand_enabled R (YHash h) \<longleftrightarrow>
     (\<exists>e \<in> set h. expand_key (fst e) \<and> snd e \<noteq> expanded_value R (snd e) \<or> expand_enabled R (snd e))"
  "expand_enabled R (YArray ys) \<longleftrightarrow> (\<exists>y \<in> set ys. expand_enabled R y)"
  "\<not> expand_enabled R (YString s)" "\<not> expand_enabled R (YReal s)" "\<not> expand_enabled R (YInteger i)"
  "\<not> expand_enabled R (YBoolean b)" "\<not> expand_enabled R (YAlias n)" "\<not> expand_enabled R YNull"
  "\<not> expand_enabled R YBadValue"
  by (subst expand_enabled.simps, simp add: list_ex_iff)+

subsection \<open>The walk computes them\<close>

lemma expanded_value_simps:
  "expanded_value R (YString s) = (if replaced_values R s = [] then YString s else YArray (replaced_values R s))"
  "as_str v = None \<Longrightarrow> expanded_value R v = expanded R v"
  by (simp_all add: expanded_value_def)

lemma process_eq:
  "process_yaml R y (f, e) = (expanded R y, f \<or> uses_expand y, e \<or> expand_enabled R y)"
  "process_value R y (f, e) = (expanded_value R y, f \<or> uses_expand y, e \<or> expand_enabled R y)"
  "process_items R ys (f, e) = (map (expanded R) ys, f \<or> (\<exists>y \<in> set ys. uses_expand y), e \<or> (\<exists>y \<in> set ys. expand_enabled R y))"
  "process_pairs R h acc (f, e) =
     (fold (\<lambda>(k, v) acc. hash_put acc k v) (map (expanded_pair R) h) acc,
      f \<or> uses_expand (YHash h), e \<or> expand_enabled R (YHash h))"
proof (induction R y "(f, e)" and R y "(f, e)" and R ys "(f, e)" and R h acc "(f, e)"
       arbitrary: f e and f e and f e and f e
       rule: process_yaml_process_value_process_items_process_pairs.induct)
qed (auto simp: expanded_value_simps Let_def expanded_pair_def)

lemma contains_str_suffix: "contains_str (k @ p) p"
  unfolding contains_str_iff by (metis append_Nil2)

lemma expand_key_suffix [simp]: "expand_key (YString (k @ ''|expand''))"
  unfolding expand_key_def using contains_str_suffix [of k] by simp

lemma replace_all_suffix:
  "\<not> contains_str k ''|expand'' \<Longrightarrow> replace_all ''|expand'' [] (k @ ''|expand'') = k"
proof (induction k)
  case (Cons c k)
  have "\<not> starts_with (c # k @ ''|expand'') ''|expand''"
  proof
    assume l: "starts_with (c # k @ ''|expand'') ''|expand''"
    then obtain t where t: "k @ ''|expand'' = ''expand'' @ t" and c: "c = CHR ''|''"
      by (auto simp: starts_with_iff)
    have p: "take 6 (k @ ''|expand'') = ''expand''"
      unfolding t by simp
    show False
    proof (cases "6 \<le> length k")
      case True
      with p have "take 6 k = ''expand''" by simp
      then have "k = ''expand'' @ drop 6 k" by (metis append_take_drop_id)
      with c have "c # k = [] @ ''|expand'' @ drop 6 k" by simp
      with Cons.prems show False unfolding contains_str_iff by blast
    next
      case False
      then have "take 6 (k @ ''|expand'') ! length k = CHR ''|''"
        by (simp add: nth_append del: take_append)
      moreover have "''expand'' ! length k \<in> set ''expand''"
        using False by (intro nth_mem) simp
      ultimately show False unfolding p by auto
    qed
  qed
  moreover have "\<not> contains_str k ''|expand''"
    using Cons.prems by (auto simp: contains_str_iff) (metis append_Cons)
  ultimately show ?case using Cons.IH by auto
qed simp

lemma new_key_suffix:
  "\<not> contains_str k ''|expand'' \<Longrightarrow> new_key (YString (k @ ''|expand'')) = YString k"
  by (simp add: new_key_def replace_all_suffix)

text \<open>A scalar value with one known placeholder becomes the list of its expansions.\<close>

lemma replaced_values_one:
  assumes "[e \<leftarrow> R. contains_str s (fst e)] = [(p, vs)]"
  shows "replaced_values R s = map (\<lambda>v. YString (replace_all p v s)) vs"
proof -
  have "replaced_values R s =
      concat (map (\<lambda>e. map (\<lambda>v. YString (replace_all (fst e) v s)) (snd e)) [e \<leftarrow> R. contains_str s (fst e)])"
    unfolding replaced_values_def by (induction R) (auto split: prod.splits)
  with assms show ?thesis by simp
qed

text \<open>
  The modifier \<open>expand\<close> turns a placeholder into alternatives. A selection \<open>field|expand\<close>
  whose text holds exactly one placeholder with a file of values becomes, once the rule is
  expanded and its selection parsed, a disjunction with one leaf for each value, in the order
  of the file, and the key without the modifier.
\<close>

theorem expand_selection:
  assumes "[e \<leftarrow> R. contains_str s (fst e)] = [(p, vs)]" and "vs \<noteq> []"
    and "\<not> contains_str k ''|expand''" and "\<not> contains_str k ''|all''"
  shows "parse_selection_recursively [] (fst (process_yaml R (YHash [(YString (k @ ''|expand''), YString s)]) fl)) =
    Some (AndNode [OrNode (map (\<lambda>v. LeafNode (new_leaf [k] (YString (replace_all p v s)))) vs)])"
proof -
  obtain f e where fl: "fl = (f, e)" by fastforce
  have "k \<noteq> ''|all''" using assms(4) by auto
  moreover have "those (map (\<lambda>v. parse_selection_recursively [k] (YString (replace_all p v s))) vs) =
      Some (map (\<lambda>v. LeafNode (new_leaf [k] (YString (replace_all p v s)))) vs)"
    by (induction vs) (simp_all add: parse_selection_scalar)
  ultimately show ?thesis
    using assms
    by (simp add: fl process_eq expanded_pair_def expanded_value_simps new_key_suffix hash_put_def
        replaced_values_one [OF assms(1)] parse_selection_recursively.simps [of _ "YHash _"]
        parse_selection_recursively.simps [of _ "YArray _"] comp_def)
qed

theorem expand_selection_witness:
  "parse_selection_recursively []
     (fst (process_yaml [(''%dc%'', [''a'', ''b''])]
       (YHash [(YString (''Computer'' @ ''|expand''), YString ''%dc%$'')]) (False, False))) =
   Some (AndNode [OrNode (map (\<lambda>v. LeafNode (new_leaf [''Computer''] (YString (replace_all ''%dc%'' v ''%dc%$''))))
     [''a'', ''b''])])"
  by (rule expand_selection) (simp_all add: starts_with_def)

text \<open>
  The walk that expands a rule returns the document with every value of a key with the
  modifier \<open>expand\<close> replaced, wherever it stands; it raises the first flag exactly when there is
  such a key, and the second exactly when one of their values changed.
\<close>

theorem process_yaml_meaning:
  "process_yaml R y (found, enabled) = (expanded R y, found \<or> uses_expand y, enabled \<or> expand_enabled R y)"
  by (rule process_eq)

text \<open>
  Placeholders in a list are never replaced: under a key with the modifier \<open>expand\<close>, a list of
  strings is left as it is whatever the files of values hold, and the rule counts as not enabled.
\<close>

theorem expand_list_ignored:
  "process_yaml R (YHash [(YString (k @ ''|expand''), YArray (map YString ss))]) (False, False) =
    (YHash [(new_key (YString (k @ ''|expand'')), YArray (map YString ss))], (True, False))"
  by (auto simp: process_eq expanded_pair_def expanded_value_simps hash_put_def comp_def)

text \<open>A text with two placeholders: each of the results still holds one of them.\<close>

lemma two_placeholders:
  "replaced_values [(''%a%'', [''1'']), (''%b%'', [''2''])] ''%a%-%b%'' = [YString ''1-%b%'', YString ''%a%-2'']"
  by (simp add: replaced_values_def starts_with_def)

end
