(* ===== verification/Rule_Filter.thy ===== *)
theory Rule_Filter
  imports Yaml_Expand Lookup Levels
begin

section \<open>Loading and filtering the rule files (yaml.rs, filter.rs)\<close>

text \<open>
  The walk over the rule directory, the check of each rule's format, and the filters by id, level,
  status, category and tags. What the command line and the configuration say is the record
  \<open>rule_filters\<close>; the counters and the loaded files of \<open>ParseYaml\<close>, the error log and the look-up
  tables that are registered on the way are the record \<open>loader\<close>. The file system is a value,
  the parser of YAML a parameter.
\<close>

subsection \<open>Excluded ids (RuleExclude, TargetIds)\<close>

definition id_char :: "char \<Rightarrow> bool" where
  "id_char c \<longleftrightarrow> is_digit c \<or> (97 \<le> byte c \<and> byte c \<le> 122)"

text \<open>The regex \<open>IDS_REGEX\<close>: five groups of lower case letters and digits.\<close>

definition is_rule_id :: "string \<Rightarrow> bool" where
  "is_rule_id s \<longleftrightarrow>
     map length (split_char (CHR ''-'') s) = [8, 4, 4, 4, 12] \<and>
     list_all (list_all id_char) (split_char (CHR ''-'') s)"

text \<open>The path without its directories (the regex \<open>.*/\<close>; a path has no line feed).\<close>

definition base_name :: "string \<Rightarrow> string" where
  "base_name path = last (split_char (CHR ''/'') path)"

definition exclude_line :: "string \<Rightarrow> string option" where
  "exclude_line l =
     (let v = trim (hd (split_char (CHR ''#'') l)) in
      if v = [] \<or> \<not> is_rule_id v then None else Some v)"

text \<open>
  The lines come from the bundled configuration, or from the file; a file that does not open is
  noted in the error log.
\<close>

definition insert_ids ::
  "(string \<rightharpoonup> string) \<Rightarrow> (string \<Rightarrow> string list option) \<Rightarrow> bool \<Rightarrow> string \<Rightarrow>
   (string \<times> string) list \<times> string list \<Rightarrow> (string \<times> string) list \<times> string list" where
  "insert_ids one_config files quiet filename st =
     (case (case one_config (base_name filename) of
              Some text \<Rightarrow> Some (split_char (CHR 0x0A) text)
            | None \<Rightarrow> files filename) of
        None \<Rightarrow> (fst st, if quiet then snd st else snd st @ [filename @ '' does not exist''])
      | Some ls \<Rightarrow>
          (fold (\<lambda>v m. assoc_insert v filename m) (option_list (map exclude_line ls)) (fst st), snd st))"

definition exclude_ids ::
  "(string \<rightharpoonup> string) \<Rightarrow> (string \<Rightarrow> string list option) \<Rightarrow> bool \<Rightarrow> string \<Rightarrow> string list \<Rightarrow>
   (string \<times> string) list \<times> string list" where
  "exclude_ids one_config files quiet config_path log =
     insert_ids one_config files quiet (config_path @ ''/exclude_rules.txt'')
       (insert_ids one_config files quiet (config_path @ ''/noisy_rules.txt'') ([], log))"

definition target_ids_is_target :: "string list \<Rightarrow> string \<Rightarrow> bool \<Rightarrow> bool" where
  "target_ids_is_target ids rule_id flag_in_case_empty =
     (if ids = [] then flag_in_case_empty else rule_id \<in> set ids)"

definition load_target_ids :: "string + string list \<Rightarrow> string list" where
  "load_target_ids content =
     (case content of Inl e \<Rightarrow> [] | Inr ls \<Rightarrow> fold List.insert (filter (\<lambda>l. l \<noteq> []) ls) [])"

subsection \<open>The format of a rule\<close>

definition re_digit :: "env \<Rightarrow> string \<Rightarrow> bool" where
  "re_digit E g \<longleftrightarrow> (case g of [c] \<Rightarrow> if byte c < 128 then is_digit c else uni_digit E g | _ \<Rightarrow> uni_digit E g)"

definition date_sep :: "string \<Rightarrow> bool" where
  "date_sep g \<longleftrightarrow> g = ''-'' \<or> g = ''/''"

text \<open>The regex \<open>^\d{4}[-/]\d{1,2}[-/]\d{1,2}$\<close>.\<close>

definition date_ok :: "env \<Rightarrow> string \<Rightarrow> bool" where
  "date_ok E s \<longleftrightarrow>
     (let year = take 4 (utf8_chars s); r = drop 4 (utf8_chars s);
          month = takeWhile (re_digit E) (tl r); r2 = dropWhile (re_digit E) (tl r);
          day = tl r2
      in length year = 4 \<and> list_all (re_digit E) year \<and> r \<noteq> [] \<and> date_sep (hd r) \<and>
         length month \<in> {1, 2} \<and> r2 \<noteq> [] \<and> date_sep (hd r2) \<and>
         length day \<in> {1, 2} \<and> list_all (re_digit E) day)"

definition key_error :: "env \<Rightarrow> yaml \<Rightarrow> string \<Rightarrow> string option" where
  "key_error E y key =
     (if yindex y key = YBadValue then Some (''Missing: '' @ key)
      else if key = ''level'' then
        (if unwrap_or [] (as_str (yindex y key)) \<in> {''informational'', ''low'', ''medium'', ''high'', ''critical''}
         then None else Some (''Invalid: '' @ key))
      else if key = ''status'' then
        (if unwrap_or [] (as_str (yindex y key)) \<in> {''stable'', ''test'', ''experimental'', ''deprecated'', ''unsupported''}
         then None else Some (''Invalid: '' @ key))
      else if key = ''date'' \<and> \<not> date_ok E (unwrap_or [] (as_str (yindex y key)))
        then Some (''Invalid: '' @ key)
      else None)"

definition required_keys :: "yaml \<Rightarrow> string list" where
  "required_keys y =
     filter (\<lambda>key. as_hash (yindex y ''correlation'') \<noteq> None \<longrightarrow> key \<noteq> ''logsource'' \<and> key \<noteq> ''detection'')
       [''author'', ''title'', ''logsource'', ''detection'', ''level'', ''status'', ''date'', ''id'']"

definition check_hayabusa_rule_fmt :: "env \<Rightarrow> yaml \<Rightarrow> string + unit" where
  "check_hayabusa_rule_fmt E y =
     (let errors = option_list (map (key_error E y) (required_keys y)) in
      if errors = [] then Inr () else Inl (join bar_sep errors))"

subsection \<open>State and configuration\<close>

record loader =
  files :: "(string \<times> yaml) list"
  rulecounter :: counter
  rule_load_cnt :: counter
  rule_status_cnt :: counter
  rule_cor_cnt :: counter
  rule_cor_ref_cnt :: counter
  rule_expand_cnt :: nat
  rule_expand_enabled_cnt :: nat
  errorrule_count :: nat
  load_log :: "string list"
  registry :: lookup_state

record output_filters =
  exclude_status :: "string list option"
  enable_noisy_rules :: bool
  enable_deprecated_rules :: bool
  enable_unsupported_rules :: bool
  include_category :: "string list option"
  exclude_category :: "string list option"
  include_tag :: "string list option"
  exclude_tag :: "string list option"

record rule_filters =
  min_level :: string
  target_level :: string
  no_use_rule :: "(string \<times> string) list"
  target_ruleids :: "string list"
  include_status :: "string list"
  output_option :: "output_filters option"
  need_rules :: bool
  quiet_load :: bool

definition loader_new :: "string list \<Rightarrow> lookup_state \<Rightarrow> loader" where
  "loader_new log reg =
     \<lparr>files = [], rulecounter = [], rule_load_cnt = [(''excluded'', 0), (''noisy'', 0)],
      rule_status_cnt = [(''deprecated'', 0), (''unsupported'', 0)], rule_cor_cnt = [], rule_cor_ref_cnt = [],
      rule_expand_cnt = 0, rule_expand_enabled_cnt = 0, errorrule_count = 0, load_log = log, registry = reg\<rparr>"

text \<open>The set of statuses to leave out, which \<open>new\<close> takes from the output options.\<close>

definition excluded_statuses :: "rule_filters \<Rightarrow> string list" where
  "excluded_statuses F =
     (case output_option F of None \<Rightarrow> [] | Some opt \<Rightarrow> unwrap_or [] (exclude_status opt))"

definition up_rule_load_cnt :: "string \<Rightarrow> loader \<Rightarrow> loader" where
  "up_rule_load_cnt k ld = ld\<lparr>rule_load_cnt := bump k (rule_load_cnt ld)\<rparr>"

definition up_rule_status_cnt :: "string \<Rightarrow> loader \<Rightarrow> loader" where
  "up_rule_status_cnt k ld = ld\<lparr>rule_status_cnt := bump k (rule_status_cnt ld)\<rparr>"

definition load_warning :: "rule_filters \<Rightarrow> string \<Rightarrow> loader \<Rightarrow> loader" where
  "load_warning F msg ld =
     ld\<lparr>load_log := (if quiet_load F then load_log ld else load_log ld @ [msg]),
        errorrule_count := errorrule_count ld + 1\<rparr>"

subsection \<open>One document\<close>

text \<open>
  The exclusion by id: the counters after it, and whether the rule is left out. The value in
  \<open>no_use_rule\<close> is the path of the file that lists the id.
\<close>

definition is_output_set :: "rule_filters \<Rightarrow> (output_filters \<Rightarrow> bool) \<Rightarrow> bool" where
  "is_output_set F flag \<longleftrightarrow> (case output_option F of None \<Rightarrow> False | Some opt \<Rightarrow> flag opt)"

definition entry_key :: "string \<Rightarrow> string" where
  "entry_key path = (if contains_str path ''exclude_rule'' then ''excluded'' else ''noisy'')"

definition zero_id :: string where
  "zero_id = ''00000000-0000-0000-0000-000000000000''"

definition exclude_untargeted :: "rule_filters \<Rightarrow> string \<Rightarrow> loader \<Rightarrow> loader \<times> bool" where
  "exclude_untargeted F rule_id ld =
     (if \<not> target_ids_is_target (target_ruleids F) rule_id True
      then (up_rule_load_cnt ''excluded'' ld, True) else (ld, False))"

definition exclude_by_id :: "rule_filters \<Rightarrow> yaml \<Rightarrow> loader \<Rightarrow> loader \<times> bool" where
  "exclude_by_id F y ld =
     (case as_str (yindex y ''id'') of
        None \<Rightarrow> (ld, False)
      | Some rule_id \<Rightarrow>
          (case map_of (no_use_rule F) rule_id of
             None \<Rightarrow> exclude_untargeted F rule_id ld
           | Some v \<Rightarrow>
               (let ld1 = (if v \<noteq> zero_id then up_rule_load_cnt (entry_key v) ld else ld) in
                if entry_key v = ''excluded'' \<or>
                   (entry_key v = ''noisy'' \<and> \<not> is_output_set F enable_noisy_rules)
                then (ld1, True)
                else exclude_untargeted F rule_id ld1)))"

text \<open>The level; the format check before it leaves only ASCII texts.\<close>

definition ascii_upper_char :: "char \<Rightarrow> char" where
  "ascii_upper_char c = (if 97 \<le> byte c \<and> byte c \<le> 122 then char_of (byte c - 32) else c)"

definition level_excluded :: "env \<Rightarrow> rule_filters \<Rightarrow> yaml \<Rightarrow> bool" where
  "level_excluded E F y \<longleftrightarrow>
     (let doc_level = map ascii_upper_char (unwrap_or ''informational'' (as_str (yindex y ''level'')));
          doc_level_num = level_index (level_from E doc_level);
          args_level_num = level_index (level_from E (min_level F));
          target_level_num = level_index (level_from E (target_level F))
      in doc_level_num < args_level_num \<or> (target_level_num \<noteq> 0 \<and> doc_level_num \<noteq> target_level_num))"

text \<open>The status: loaded, counted as excluded, or counted under its status and left out.\<close>

datatype verdict = Loaded | Excluded | CountedStatus string

definition all_statuses_allowed :: "rule_filters \<Rightarrow> bool" where
  "all_statuses_allowed F \<longleftrightarrow> ''*'' \<in> set (include_status F)"

definition status_verdict :: "rule_filters \<Rightarrow> string option \<Rightarrow> verdict" where
  "status_verdict F status =
     (case status of
        Some s \<Rightarrow>
          (if s \<in> set (excluded_statuses F) \<or> \<not> (all_statuses_allowed F \<or> s \<in> set (include_status F))
           then Excluded
           else if output_option F \<noteq> None \<and>
             (s = ''deprecated'' \<and> \<not> is_output_set F enable_deprecated_rules \<or>
              s = ''unsupported'' \<and> \<not> is_output_set F enable_unsupported_rules)
           then CountedStatus s
           else Loaded)
      | None \<Rightarrow> if \<not> all_statuses_allowed F \<and> need_rules F then Excluded else Loaded)"

definition category_excluded :: "rule_filters \<Rightarrow> yaml \<Rightarrow> bool" where
  "category_excluded F y \<longleftrightarrow>
     (case output_option F of
        None \<Rightarrow> False
      | Some opt \<Rightarrow>
          (let category_in_rule = unwrap_or [] (as_str (yindex (yindex y ''logsource'') ''category''));
               include = unwrap_or [] (include_category opt);
               exclude = unwrap_or [] (exclude_category opt)
           in include \<noteq> [] \<and> category_in_rule \<notin> set include \<or>
              exclude \<noteq> [] \<and> category_in_rule \<in> set exclude))"

definition has_tag :: "yaml list \<Rightarrow> string list \<Rightarrow> bool" where
  "has_tag rule_tags tags \<longleftrightarrow> list_ex (\<lambda>tag. unwrap_or [] (as_str tag) \<in> set tags) rule_tags"

definition tags_excluded :: "rule_filters \<Rightarrow> yaml \<Rightarrow> bool" where
  "tags_excluded F y \<longleftrightarrow>
     (case output_option F of
        None \<Rightarrow> False
      | Some opt \<Rightarrow>
          (case include_tag opt of
             None \<Rightarrow> False
           | Some target_tags \<Rightarrow>
               (case as_vec (yindex y ''tags'') of
                  None \<Rightarrow> True | Some rule_tags \<Rightarrow> \<not> has_tag rule_tags target_tags)) \<or>
          (case exclude_tag opt of
             None \<Rightarrow> False
           | Some tags \<Rightarrow>
               (case as_vec (yindex y ''tags'') of
                  None \<Rightarrow> False | Some rule_tags \<Rightarrow> has_tag rule_tags tags)))"

definition count_loaded :: "yaml \<Rightarrow> loader \<Rightarrow> loader" where
  "count_loaded y ld =
     (let ld1 = ld\<lparr>rulecounter := bump (unwrap_or ''Other'' (as_str (yindex y ''ruletype''))) (rulecounter ld)\<rparr>
      in up_rule_status_cnt (unwrap_or ''undefined'' (as_str (yindex y ''status''))) ld1)"

text \<open>The body of the closure over the documents: the counters, and the document if it is kept.\<close>

definition count_expand :: "bool \<Rightarrow> bool \<Rightarrow> loader \<Rightarrow> loader" where
  "count_expand found enabled ld =
     (if found
      then ld\<lparr>rule_expand_cnt := rule_expand_cnt ld + 1,
              rule_expand_enabled_cnt := rule_expand_enabled_cnt ld + (if enabled then 1 else 0)\<rparr>
      else ld)"

definition load_doc ::
  "env \<Rightarrow> rule_filters \<Rightarrow> expand_map \<Rightarrow> string \<times> yaml \<Rightarrow> loader \<Rightarrow> loader \<times> (string \<times> yaml) option" where
  "load_doc E F R d ld =
     (case process_yaml R (snd d) (False, False) of (y, found, enabled) \<Rightarrow>
        let ld1 = count_expand found enabled ld in
        if found \<and> \<not> enabled then (ld1, None)
        else
          (case exclude_by_id F y ld1 of
             (ld2, True) \<Rightarrow> (ld2, None)
           | (ld2, False) \<Rightarrow>
               (case check_hayabusa_rule_fmt E y of
                  Inl errmsg \<Rightarrow>
                    (load_warning F (''[WARN] Invalid rule. '' @ errmsg @ '' ('' @ fst d @ '')'') ld2, None)
                | Inr _ \<Rightarrow>
                    if level_excluded E F y then (up_rule_load_cnt ''excluded'' ld2, None)
                    else
                      (case status_verdict F (as_str (yindex y ''status'')) of
                         Excluded \<Rightarrow> (up_rule_load_cnt ''excluded'' ld2, None)
                       | CountedStatus s \<Rightarrow> (up_rule_status_cnt s ld2, None)
                       | Loaded \<Rightarrow>
                           if category_excluded F y \<or> tags_excluded F y
                           then (up_rule_load_cnt ''excluded'' ld2, None)
                           else (count_loaded y ld2, Some (fst d, y))))))"

fun load_docs ::
  "env \<Rightarrow> rule_filters \<Rightarrow> expand_map \<Rightarrow> (string \<times> yaml) list \<Rightarrow> loader \<Rightarrow> loader \<times> (string \<times> yaml) list" where
  "load_docs E F R [] ld = (ld, [])"
| "load_docs E F R (d # ds) ld =
     (case load_doc E F R d ld of (ld1, kept) \<Rightarrow>
        (case load_docs E F R ds ld1 of (ld2, rest) \<Rightarrow>
           (ld2, case kept of None \<Rightarrow> rest | Some x \<Rightarrow> x # rest)))"

subsection \<open>Files and directories\<close>

text \<open>
  A directory entry as \<open>fs::read_dir\<close> yields it: a file with its bytes or the error of opening it,
  a directory with its entries, each of which can be an error, or something else. Paths are Unix
  paths.
\<close>

datatype fs_entry =
    RFile string "string + string"
  | RDir string "string + (string + fs_entry) list"
  | ROther string

record rule_world =
  yaml_load :: "string \<Rightarrow> string + yaml list"
  file_text :: "string \<Rightarrow> string + string"
  path_exists :: "string \<Rightarrow> bool"
  expand_files :: "(string \<times> (string + string list)) list option"

text \<open>\<open>String::from_utf8\<close>: well-formed UTF-8, on byte values.\<close>

definition cont_byte :: "nat \<Rightarrow> bool" where
  "cont_byte b \<longleftrightarrow> 128 \<le> b \<and> b \<le> 191"

fun valid_utf8 :: "nat list \<Rightarrow> bool" where
  "valid_utf8 [] = True"
| "valid_utf8 (a # bs) =
     (if a < 128 then valid_utf8 bs
      else
        (case bs of
           [] \<Rightarrow> False
         | b # cs \<Rightarrow>
             if 194 \<le> a \<and> a \<le> 223 then cont_byte b \<and> valid_utf8 cs
             else
               (case cs of
                  [] \<Rightarrow> False
                | c # ds \<Rightarrow>
                    if 224 \<le> a \<and> a \<le> 239
                    then cont_byte b \<and> (a = 224 \<longrightarrow> 160 \<le> b) \<and> (a = 237 \<longrightarrow> b \<le> 159) \<and>
                         cont_byte c \<and> valid_utf8 ds
                    else
                      (case ds of
                         [] \<Rightarrow> False
                       | d # es \<Rightarrow>
                           240 \<le> a \<and> a \<le> 244 \<and> cont_byte b \<and> (a = 240 \<longrightarrow> 144 \<le> b) \<and>
                           (a = 244 \<longrightarrow> b \<le> 143) \<and> cont_byte c \<and> cont_byte d \<and> valid_utf8 es))))"

definition read_file :: "string + string \<Rightarrow> string + string" where
  "read_file content =
     bind_result content (\<lambda>bytes.
       if valid_utf8 (map byte bytes) then Inr bytes else Inl ''stream did not contain valid UTF-8'')"

text \<open>The rules of the release are stored with every byte combined with the key \<open>0xAA\<close>.\<close>

definition decode_byte :: "char \<Rightarrow> char" where
  "decode_byte c = char_of (semiring_bit_operations_class.xor (byte c) 0xAA)"

definition read_encoded_file :: "string + string \<Rightarrow> (string, string) outcome" where
  "read_encoded_file content =
     (case content of
        Inl e \<Rightarrow> Err e
      | Inr bytes \<Rightarrow>
          (let s = map decode_byte bytes in if valid_utf8 (map byte s) then Ok s else Panic))"

definition extension :: "string \<Rightarrow> string option" where
  "extension path =
     (let parts = split_char (CHR ''.'') (base_name path) in
      if length parts = 1 \<or> (length parts = 2 \<and> hd parts = []) \<or> base_name path = ''..'' then None
      else Some (last parts))"

definition parent_dir :: "string \<Rightarrow> string" where
  "parent_dir path =
     (let ds = butlast (split_char (CHR ''/'') path) in if ds = [[]] then ''/'' else join ''/'' ds)"

definition path_join :: "string \<Rightarrow> string \<Rightarrow> string" where
  "path_join dir file =
     (if starts_with file ''/'' \<or> dir = [] then file
      else if ends_with dir ''/'' then dir @ file
      else dir @ ''/'' @ file)"

text \<open>\<open>register_lookup_tables\<close>: the first candidate path that exists and loads.\<close>

fun load_candidate :: "rule_world \<Rightarrow> string \<Rightarrow> string list \<Rightarrow> lookup_state \<Rightarrow> lookup_state" where
  "load_candidate W name [] st = st"
| "load_candidate W name (cand # cands) st =
     (if path_exists W cand
      then (case load_table_from_file (file_text W) name cand st of
              (st', Inr n) \<Rightarrow> st'
            | (st', Inl e) \<Rightarrow> load_candidate W name cands st')
      else load_candidate W name cands st)"

definition register_entry :: "rule_world \<Rightarrow> string \<Rightarrow> yaml \<Rightarrow> lookup_state \<Rightarrow> lookup_state" where
  "register_entry W rule_path entry st =
     (case (as_str (yindex entry ''name''), as_str (yindex entry ''file'')) of
        (Some name, Some file_str) \<Rightarrow>
          load_candidate W name [path_join (parent_dir rule_path) file_str, file_str] st
      | _ \<Rightarrow> st)"

definition register_lookup_tables :: "rule_world \<Rightarrow> yaml list \<Rightarrow> string \<Rightarrow> lookup_state \<Rightarrow> lookup_state" where
  "register_lookup_tables W docs rule_path st =
     fold (\<lambda>doc st. fold (register_entry W rule_path) (unwrap_or [] (as_vec (yindex doc ''lookup''))) st) docs st"

text \<open>\<open>update_correlation_counts\<close>.\<close>

definition count_correlation :: "yaml \<Rightarrow> loader \<Rightarrow> loader" where
  "count_correlation doc ld =
     (case as_hash (yindex doc ''correlation'') of
        None \<Rightarrow> ld
      | Some cor \<Rightarrow>
          ld\<lparr>rule_cor_cnt := bump ''correlation'' (rule_cor_cnt ld),
             rule_cor_ref_cnt :=
               fold bump (option_list (map as_str (unwrap_or [] (Option.bind (hash_get cor ''rules'') as_vec))))
                 (rule_cor_ref_cnt ld)\<rparr>)"

definition update_correlation_counts :: "yaml list \<Rightarrow> loader \<Rightarrow> loader" where
  "update_correlation_counts docs ld = fold count_correlation docs ld"

text \<open>One file of a directory: its documents with its path, or a warning.\<close>

definition failed :: "rule_filters \<Rightarrow> string \<Rightarrow> string \<Rightarrow> string \<Rightarrow> loader \<Rightarrow> loader" where
  "failed F what path e ld =
     load_warning F (''[WARN] '' @ what @ path @ [CHR 0x0A] @ e @ '' '') ld"

definition parsed :: "rule_world \<Rightarrow> rule_filters \<Rightarrow> string \<Rightarrow> (yaml \<Rightarrow> string) \<Rightarrow> string \<Rightarrow> loader \<Rightarrow>
   loader \<times> (string \<times> yaml) list" where
  "parsed W F path filepath content ld =
     (case yaml_load W content of
        Inl e \<Rightarrow> (failed F ''Failed to parse yml: '' path e ld, [])
      | Inr contents \<Rightarrow>
          (let ld1 = update_correlation_counts contents ld in
           (ld1\<lparr>registry := register_lookup_tables W contents path (registry ld1)\<rparr>,
            map (\<lambda>y. (filepath y, y)) contents)))"

definition ignored_path :: "string \<Rightarrow> bool" where
  "ignored_path path \<longleftrightarrow>
     extension path \<noteq> Some ''yml'' \<or>
     contains_str path ''/.git/'' \<or> contains_str path [CHR 0x5C, CHR ''.'', CHR ''g'', CHR ''i'', CHR ''t'', CHR 0x5C] \<or>
     contains_str path ''rules/tools/sigmac/test_files'' \<or>
     contains_str path (join [CHR 0x5C] [''rules'', ''tools'', ''sigmac'', ''test_files''])"

definition read_entry_file ::
  "rule_world \<Rightarrow> rule_filters \<Rightarrow> string \<Rightarrow> string + string \<Rightarrow> loader \<Rightarrow> loader \<times> (string \<times> yaml) list" where
  "read_entry_file W F path content ld =
     (if ignored_path path then (ld, [])
      else (case read_file content of
              Inl e \<Rightarrow> (failed F ''fail to read file: '' path e ld, [])
            | Inr text \<Rightarrow> parsed W F path (\<lambda>_. path) text ld))"

text \<open>The rule path itself is a file.\<close>

definition read_single_file ::
  "rule_world \<Rightarrow> rule_filters \<Rightarrow> string \<Rightarrow> string + string \<Rightarrow> loader \<Rightarrow> (string, loader \<times> (string \<times> yaml) list) outcome" where
  "read_single_file W F path content ld =
     (if extension path \<noteq> Some ''yml'' then Ok (ld, [])
      else
        (let is_encoded = (base_name path = ''encoded_rules.yml'') in
         (case (if is_encoded then read_encoded_file content
                else (case read_file content of Inl e \<Rightarrow> Err e | Inr t \<Rightarrow> Ok t)) of
            Panic \<Rightarrow> Panic
          | Err e \<Rightarrow> Ok (failed F ''fail to read file: '' path e ld, [])
          | Ok text \<Rightarrow>
              Ok (parsed W F path
                (\<lambda>y. if is_encoded then unwrap_or [] (as_str (yindex y ''rulefile'')) else path) text ld))))"

text \<open>
  The end of \<open>read_dir\<close>: the filters over the documents. The map of the placeholders is unwrapped
  inside the closure, so an error of reading it panics at the first document.
\<close>

definition load_all :: "env \<Rightarrow> rule_world \<Rightarrow> rule_filters \<Rightarrow> (string \<times> yaml) list \<Rightarrow> loader \<Rightarrow>
   loader \<times> (string, unit) outcome" where
  "load_all E W F docs ld =
     (case read_expand_files (expand_files W) of
        Inl e \<Rightarrow> (ld, if docs = [] then Ok () else Panic)
      | Inr R \<Rightarrow>
          (case load_docs E F R docs ld of (ld1, kept) \<Rightarrow> (ld1\<lparr>files := files ld1 @ kept\<rparr>, Ok ())))"

function (sequential)
  read_dir :: "env \<Rightarrow> rule_world \<Rightarrow> rule_filters \<Rightarrow> fs_entry \<Rightarrow> loader \<Rightarrow> loader \<times> (string, unit) outcome"
  and read_entries :: "env \<Rightarrow> rule_world \<Rightarrow> rule_filters \<Rightarrow> (string + fs_entry) list \<Rightarrow> (string \<times> yaml) list \<Rightarrow> loader \<Rightarrow>
     loader \<times> (string, (string \<times> yaml) list) outcome"
where
  "read_dir E W F (RFile path content) ld =
     (case read_single_file W F path content ld of
        Panic \<Rightarrow> (ld, Panic)
      | Err e \<Rightarrow> (ld, Err e)
      | Ok (ld1, docs) \<Rightarrow> load_all E W F docs ld1)"
| "read_dir E W F (RDir path (Inl e)) ld = (ld, Err e)"
| "read_dir E W F (RDir path (Inr es)) ld =
     (case read_entries E W F es [] ld of
        (ld1, Panic) \<Rightarrow> (ld1, Panic)
      | (ld1, Err e) \<Rightarrow> (ld1, Err e)
      | (ld1, Ok docs) \<Rightarrow> load_all E W F docs ld1)"
| "read_dir E W F (ROther path) ld = (ld, Err ''Not a directory (os error 20)'')"
| "read_entries E W F [] docs ld = (ld, Ok docs)"
| "read_entries E W F (Inl e # es) docs ld = (ld, Err e)"
| "read_entries E W F (Inr (RDir path d) # es) docs ld =
     (case read_dir E W F (RDir path d) ld of
        (ld1, Panic) \<Rightarrow> (ld1, Panic)
      | (ld1, Err e) \<Rightarrow> (ld1, Err e)
      | (ld1, Ok _) \<Rightarrow> read_entries E W F es docs ld1)"
| "read_entries E W F (Inr (ROther path) # es) docs ld = read_entries E W F es docs ld"
| "read_entries E W F (Inr (RFile path content) # es) docs ld =
     (case read_entry_file W F path content ld of
        (ld1, docs1) \<Rightarrow> read_entries E W F es (docs @ docs1) ld1)"
  by pat_completeness auto
termination
  by (relation "measure (\<lambda>x. case x of
        Inl (E, W, F, e, ld) \<Rightarrow> size e
      | Inr (E, W, F, es, docs, ld) \<Rightarrow> size_list (size_sum (\<lambda>_. 0) size) es)") auto

text \<open>The rule path of the command line may not exist, which is an entry of the error log.\<close>

definition read_rule_path ::
  "env \<Rightarrow> rule_world \<Rightarrow> rule_filters \<Rightarrow> string \<Rightarrow> string + fs_entry \<Rightarrow> loader \<Rightarrow> loader \<times> (string, unit) outcome" where
  "read_rule_path E W F path metadata ld =
     (case metadata of
        Inr e \<Rightarrow> read_dir E W F e ld
      | Inl err_contents \<Rightarrow>
          (let errmsg = ''fail to read metadata of file: '' @ path @ '' '' @ err_contents;
               hint = ''. You may not be able to load evtx files when there are spaces in the directory path. '' @
                 ''Please enclose the path with double quotes and remove any trailing slash at the end of the path.'';
               msg = (if ends_with err_contents ''123)'' then errmsg @ hint else errmsg)
           in (if quiet_load F then ld else ld\<lparr>load_log := load_log ld @ [''[ERROR] '' @ msg]\<rparr>, Ok ())))"

text \<open>
  The first part of \<open>parse_rule_files\<close> (detection.rs): the files the loader ends with, none when it
  failed, its error log and its count of errors.
\<close>

definition load_rule_files ::
  "env \<Rightarrow> rule_world \<Rightarrow> rule_filters \<Rightarrow> string \<Rightarrow> string + fs_entry \<Rightarrow> string list \<Rightarrow> lookup_state \<Rightarrow>
   ((string \<times> yaml) list \<times> loader) option" where
  "load_rule_files E W F path metadata log reg =
     (case read_rule_path E W F path metadata (loader_new log reg) of
        (ld, Panic) \<Rightarrow> None
      | (ld, Err e) \<Rightarrow>
          Some ([], if quiet_load F then ld else ld\<lparr>load_log := load_log ld @ [''[ERROR] '' @ e]\<rparr>)
      | (ld, Ok _) \<Rightarrow> Some (files ld, ld))"

end
