(* ===== verification/Rule_Filter_Facts.thy ===== *)
theory Rule_Filter_Facts
  imports Rule_Filter
begin

section \<open>Which rules are loaded, and what is counted\<close>

text \<open>
  The decision about one document as a predicate, the documents of a directory as a list, and the
  theorems that the loader keeps exactly the documents the predicate holds of, and counts each
  document once.
\<close>

subsection \<open>The decision\<close>

definition id_dropped :: "rule_filters \<Rightarrow> yaml \<Rightarrow> bool" where
  "id_dropped F y \<longleftrightarrow>
     (case as_str (yindex y ''id'') of
        None \<Rightarrow> False
      | Some rule_id \<Rightarrow>
          (case map_of (no_use_rule F) rule_id of
             None \<Rightarrow> False
           | Some v \<Rightarrow> entry_key v = ''excluded'' \<or> \<not> is_output_set F enable_noisy_rules) \<or>
          \<not> target_ids_is_target (target_ruleids F) rule_id True)"

definition passes :: "env \<Rightarrow> rule_filters \<Rightarrow> yaml \<Rightarrow> bool" where
  "passes E F y \<longleftrightarrow>
     \<not> id_dropped F y \<and> check_hayabusa_rule_fmt E y = Inr () \<and> \<not> level_excluded E F y \<and>
     status_verdict F (as_str (yindex y ''status'')) = Loaded \<and> \<not> category_excluded F y \<and> \<not> tags_excluded F y"

definition rule_kept :: "env \<Rightarrow> rule_filters \<Rightarrow> expand_map \<Rightarrow> yaml \<Rightarrow> bool" where
  "rule_kept E F R y \<longleftrightarrow> (uses_expand y \<longrightarrow> expand_enabled R y) \<and> passes E F (expanded R y)"

lemma snd_exclude_by_id: "snd (exclude_by_id F y ld) = id_dropped F y"
  by (auto simp: exclude_by_id_def id_dropped_def exclude_untargeted_def Let_def entry_key_def split: option.split)

lemma exclude_by_id_pair: "exclude_by_id F y ld = (fst (exclude_by_id F y ld), id_dropped F y)"
  by (simp add: prod_eq_iff snd_exclude_by_id)

lemma load_doc_eq:
  "load_doc E F R d ld =
     (let y = expanded R (snd d);
          ld1 = count_expand (uses_expand (snd d)) (expand_enabled R (snd d)) ld;
          ld2 = fst (exclude_by_id F y ld1)
      in if uses_expand (snd d) \<and> \<not> expand_enabled R (snd d) then (ld1, None)
         else if id_dropped F y then (ld2, None)
         else (case check_hayabusa_rule_fmt E y of
                 Inl errmsg \<Rightarrow>
                   (load_warning F (''[WARN] Invalid rule. '' @ errmsg @ '' ('' @ fst d @ '')'') ld2, None)
               | Inr _ \<Rightarrow>
                   if level_excluded E F y then (up_rule_load_cnt ''excluded'' ld2, None)
                   else
                     (case status_verdict F (as_str (yindex y ''status'')) of
                        Excluded \<Rightarrow> (up_rule_load_cnt ''excluded'' ld2, None)
                      | CountedStatus s \<Rightarrow> (up_rule_status_cnt s ld2, None)
                      | Loaded \<Rightarrow>
                          if category_excluded F y \<or> tags_excluded F y
                          then (up_rule_load_cnt ''excluded'' ld2, None)
                          else (count_loaded y ld2, Some (fst d, y)))))"
  unfolding load_doc_def process_eq
  by (subst exclude_by_id_pair) (simp add: Let_def split: bool.split)

lemma load_doc_kept:
  "snd (load_doc E F R d ld) = (if rule_kept E F R (snd d) then Some (fst d, expanded R (snd d)) else None)"
  by (auto simp: load_doc_eq Let_def rule_kept_def passes_def split: sum.split verdict.split)

subsection \<open>Which rules are wanted\<close>

text \<open>
  What the options ask for, without the code's way of deciding it: levels by their order of severity, a
  date by its parts, statuses, categories and tags by the lists of the options.
\<close>

definition severity :: "string list" where
  "severity = [''informational'', ''low'', ''medium'', ''high'', ''critical'', ''emergency'']"

definition level_named :: "string \<Rightarrow> bool" where
  "level_named s \<longleftrightarrow> to_ascii_lowercase s \<in> set severity"

text \<open>The level \<open>least\<close> is \<open>l\<close> or stands before it in the order of severity.\<close>

definition at_least :: "string \<Rightarrow> string \<Rightarrow> bool" where
  "at_least l least \<longleftrightarrow> least = l \<or> least \<in> set (takeWhile (\<lambda>x. x \<noteq> l) severity)"

definition level_wanted :: "rule_filters \<Rightarrow> yaml \<Rightarrow> bool" where
  "level_wanted F y \<longleftrightarrow>
     (\<exists>l. as_str (yindex y ''level'') = Some l \<and> at_least l (to_ascii_lowercase (min_level F)) \<and>
        (target_level F = [] \<or> l = to_ascii_lowercase (target_level F)))"

text \<open>A year of four digits, a month and a day of one or two, separated by dashes or slashes.\<close>

definition date_text :: "env \<Rightarrow> string \<Rightarrow> bool" where
  "date_text E s \<longleftrightarrow>
     (\<exists>year a month b day. utf8_chars s = year @ a # month @ b # day \<and>
        length year = 4 \<and> length month \<in> {1, 2} \<and> length day \<in> {1, 2} \<and>
        list_all (re_digit E) (year @ month @ day) \<and> a \<in> {''-'', ''/''} \<and> b \<in> {''-'', ''/''})"

definition rule_complete :: "env \<Rightarrow> yaml \<Rightarrow> bool" where
  "rule_complete E y \<longleftrightarrow>
     (\<forall>k \<in> {''author'', ''title'', ''id''}. yindex y k \<noteq> YBadValue) \<and>
     (as_hash (yindex y ''correlation'') = None \<longrightarrow> yindex y ''logsource'' \<noteq> YBadValue \<and> yindex y ''detection'' \<noteq> YBadValue) \<and>
     (\<exists>l. as_str (yindex y ''level'') = Some l \<and> l \<in> set (butlast severity)) \<and>
     (\<exists>s. as_str (yindex y ''status'') = Some s \<and> s \<in> {''stable'', ''test'', ''experimental'', ''deprecated'', ''unsupported''}) \<and>
     (\<exists>d. as_str (yindex y ''date'') = Some d \<and> date_text E d)"

text \<open>An id that is excluded, or noisy without the option for noisy rules, or not among those asked for.\<close>

definition id_wanted :: "rule_filters \<Rightarrow> yaml \<Rightarrow> bool" where
  "id_wanted F y \<longleftrightarrow>
     (\<forall>i. as_str (yindex y ''id'') = Some i \<longrightarrow>
        (\<forall>path. map_of (no_use_rule F) i = Some path \<longrightarrow>
           \<not> contains_str path ''exclude_rule'' \<and> (\<exists>opt. output_option F = Some opt \<and> enable_noisy_rules opt)) \<and>
        (target_ruleids F = [] \<or> i \<in> set (target_ruleids F)))"

definition status_wanted :: "rule_filters \<Rightarrow> yaml \<Rightarrow> bool" where
  "status_wanted F y \<longleftrightarrow>
     (\<exists>s. as_str (yindex y ''status'') = Some s \<and> (''*'' \<in> set (include_status F) \<or> s \<in> set (include_status F)) \<and>
        (\<forall>opt. output_option F = Some opt \<longrightarrow>
           (\<forall>excluded. exclude_status opt = Some excluded \<longrightarrow> s \<notin> set excluded) \<and>
           (s = ''deprecated'' \<longrightarrow> enable_deprecated_rules opt) \<and> (s = ''unsupported'' \<longrightarrow> enable_unsupported_rules opt)))"

definition category_wanted :: "rule_filters \<Rightarrow> yaml \<Rightarrow> bool" where
  "category_wanted F y \<longleftrightarrow>
     (\<forall>opt. output_option F = Some opt \<longrightarrow>
        (let category = unwrap_or [] (as_str (yindex (yindex y ''logsource'') ''category'')) in
         (\<forall>only. include_category opt = Some only \<and> only \<noteq> [] \<longrightarrow> category \<in> set only) \<and>
         (\<forall>but. exclude_category opt = Some but \<longrightarrow> category \<notin> set but)))"

definition rule_tags :: "yaml \<Rightarrow> string set option" where
  "rule_tags y = map_option (\<lambda>ts. (\<lambda>t. unwrap_or [] (as_str t)) ` set ts) (as_vec (yindex y ''tags''))"

definition tags_wanted :: "rule_filters \<Rightarrow> yaml \<Rightarrow> bool" where
  "tags_wanted F y \<longleftrightarrow>
     (\<forall>opt. output_option F = Some opt \<longrightarrow>
        (\<forall>only. include_tag opt = Some only \<longrightarrow> (\<exists>ts. rule_tags y = Some ts \<and> ts \<inter> set only \<noteq> {})) \<and>
        (\<forall>but ts. exclude_tag opt = Some but \<and> rule_tags y = Some ts \<longrightarrow> ts \<inter> set but = {}))"

definition rule_wanted :: "env \<Rightarrow> rule_filters \<Rightarrow> yaml \<Rightarrow> bool" where
  "rule_wanted E F y \<longleftrightarrow>
     rule_complete E y \<and> id_wanted F y \<and> level_wanted F y \<and> status_wanted F y \<and> category_wanted F y \<and> tags_wanted F y"

lemma ascii_lower_char: "byte (ascii_lower_char c) < 128 \<longleftrightarrow> byte c < 128"
  by (auto simp: ascii_lower_char_def byte_def)

lemma level_named_ascii: "level_named s \<Longrightarrow> is_ascii s"
proof -
  have "list_all is_ascii severity" by code_simp
  moreover have "is_ascii (to_ascii_lowercase s) \<longleftrightarrow> is_ascii s"
    by (simp add: is_ascii_def to_ascii_lowercase_def list_all_iff ascii_lower_char)
  ultimately show "level_named s \<Longrightarrow> is_ascii s" by (auto simp: level_named_def list_all_iff)
qed

lemma level_from_named: "level_named s \<Longrightarrow> level_from E s = level_from E (to_ascii_lowercase s)"
proof -
  assume n: "level_named s"
  have "is_ascii (to_ascii_lowercase s)"
    using level_named_ascii [OF n] by (simp add: is_ascii_def to_ascii_lowercase_def ascii_lower_char)
  with level_named_ascii [OF n] show ?thesis
    by (simp add: level_from_def to_ascii_lowercase_def comp_def Let_def)
qed

lemma level_from_severity [simp]:
  "level_from E ''informational'' = INFORMATIONAL" "level_from E ''low'' = LOW" "level_from E ''medium'' = MEDIUM"
  "level_from E ''high'' = HIGH" "level_from E ''critical'' = CRITICAL" "level_from E ''emergency'' = EMERGENCY"
proof -
  have a: "list_all is_ascii severity" "list_all (\<lambda>s. to_ascii_lowercase s = s) severity" by code_simp+
  show "level_from E ''informational'' = INFORMATIONAL" "level_from E ''low'' = LOW" "level_from E ''medium'' = MEDIUM"
  "level_from E ''high'' = HIGH" "level_from E ''critical'' = CRITICAL" "level_from E ''emergency'' = EMERGENCY"
    using a by (simp_all add: severity_def level_from_def Let_def)
qed

lemma level_from_upper:
  "l \<in> set (butlast severity) \<Longrightarrow> level_from E (map ascii_upper_char l) = level_from E l"
proof -
  have "list_all (\<lambda>s. to_ascii_lowercase (map ascii_upper_char s) = s) (butlast severity)" by code_simp
  moreover assume l: "l \<in> set (butlast severity)"
  ultimately have e: "to_ascii_lowercase (map ascii_upper_char l) = l" by (simp add: list_all_iff)
  moreover have "l \<in> set severity" using l by (auto simp: severity_def)
  ultimately have "level_named (map ascii_upper_char l)" by (simp add: level_named_def)
  from level_from_named [OF this] e show ?thesis by simp
qed

lemma takeWhile_order:
  assumes "distinct xs" and "k \<in> set xs" and "l \<in> set xs"
  shows "k = l \<or> k \<in> set (takeWhile (\<lambda>x. x \<noteq> l) xs) \<longleftrightarrow>
      length (takeWhile (\<lambda>x. x \<noteq> k) xs) \<le> length (takeWhile (\<lambda>x. x \<noteq> l) xs)"
    and "length (takeWhile (\<lambda>x. x \<noteq> k) xs) = length (takeWhile (\<lambda>x. x \<noteq> l) xs) \<longleftrightarrow> k = l"
  using assms by (induction xs) auto

lemma level_index_severity:
  assumes "l \<in> set severity"
  shows "level_index (level_from E l) = Suc (length (takeWhile (\<lambda>x. x \<noteq> l) severity))"
proof -
  have "map (\<lambda>l. Suc (length (takeWhile (\<lambda>x. x \<noteq> l) severity))) severity = [1, 2, 3, 4, 5, 6]"
    by code_simp
  moreover have "map (\<lambda>l. level_index (level_from E l)) severity = [1, 2, 3, 4, 5, 6]"
    by (simp add: severity_def)
  ultimately have "map (\<lambda>l. level_index (level_from E l)) severity =
      map (\<lambda>l. Suc (length (takeWhile (\<lambda>x. x \<noteq> l) severity))) severity"
    by (rule trans [rotated, OF sym])
  with assms show ?thesis by (simp only: map_eq_conv)
qed

lemma severity_distinct: "distinct severity"
  by code_simp

lemma at_least_index:
  assumes "l \<in> set severity" and "least \<in> set severity"
  shows "at_least l least \<longleftrightarrow> level_index (level_from E least) \<le> level_index (level_from E l)"
  using takeWhile_order(1) [OF severity_distinct assms(2,1)] by (simp add: at_least_def level_index_severity assms)

lemma same_level_index:
  assumes "l \<in> set severity" and "k \<in> set severity"
  shows "level_index (level_from E l) = level_index (level_from E k) \<longleftrightarrow> l = k"
  using takeWhile_order(2) [OF severity_distinct assms] by (simp add: level_index_severity assms)

lemma level_index_named: "k \<in> set severity \<Longrightarrow> level_index (level_from E k) \<noteq> 0"
  by (simp add: level_index_severity)

lemma level_excluded_wanted:
  assumes "level_named (min_level F)" and "target_level F = [] \<or> level_named (target_level F)"
    and "as_str (yindex y ''level'') = Some l" and "l \<in> set (butlast severity)"
  shows "level_excluded E F y \<longleftrightarrow> \<not> level_wanted F y"
proof -
  have l: "l \<in> set severity" using assms(4) by (auto simp: severity_def)
  have e: "level_from E [] = UNDEFINED"
    by (simp add: level_from_def to_lowercase_def to_ascii_lowercase_def is_ascii_def)
  have lo: "to_ascii_lowercase (min_level F) \<in> set severity" using assms(1) by (simp add: level_named_def)
  have lvl: "level_excluded E F y \<longleftrightarrow> level_index (level_from E l) < level_index (level_from E (to_ascii_lowercase (min_level F))) \<or>
     (level_index (level_from E (target_level F)) \<noteq> 0 \<and> level_index (level_from E l) \<noteq> level_index (level_from E (target_level F)))"
    using level_from_named [OF assms(1)] by (simp add: level_excluded_def assms(3) level_from_upper [OF assms(4)] Let_def)
  show ?thesis
  proof (cases "target_level F = []")
    case True
    then show ?thesis
      using lvl at_least_index [OF l lo, of E] by (auto simp: level_wanted_def assms(3) e not_le)
  next
    case False
    then have t: "level_named (target_level F)" using assms(2) by simp
    then have t': "to_ascii_lowercase (target_level F) \<in> set severity" by (simp add: level_named_def)
    show ?thesis
      using False lvl at_least_index [OF l lo, of E] same_level_index [OF l t', of E] level_index_named [OF t', of E] level_from_named [OF t, of E]
      by (auto simp: level_wanted_def assms(3) not_le)
  qed
qed

lemma takeWhile_prefix: "list_all P xs \<Longrightarrow> \<not> P a \<Longrightarrow> takeWhile P (xs @ a # ys) = xs \<and> dropWhile P (xs @ a # ys) = a # ys"
  by (induction xs) auto

lemma date_sep_no_digit: "date_sep g \<Longrightarrow> \<not> re_digit E g"
  by (auto simp: date_sep_def re_digit_def is_digit_def byte_def)

lemma date_ok_text: "date_ok E s \<longleftrightarrow> date_text E s"
proof
  assume d: "date_ok E s"
  let ?c = "utf8_chars s"
  let ?r = "drop 4 ?c"
  let ?month = "takeWhile (re_digit E) (tl ?r)"
  let ?r2 = "dropWhile (re_digit E) (tl ?r)"
  have f: "length (take 4 ?c) = 4" "list_all (re_digit E) (take 4 ?c)" "?r \<noteq> []" "date_sep (hd ?r)" "length ?month \<in> {1, 2}"
    "?r2 \<noteq> []" "date_sep (hd ?r2)" "length (tl ?r2) \<in> {1, 2}" "list_all (re_digit E) (tl ?r2)"
    using d unfolding date_ok_def Let_def by blast+
  have "?c = take 4 ?c @ ?r" by simp
  also have "?r = hd ?r # ?month @ ?r2" using f(3) by simp
  also have "?r2 = hd ?r2 # tl ?r2" using f(6) by simp
  finally have "?c = take 4 ?c @ hd ?r # ?month @ hd ?r2 # tl ?r2" .
  moreover have "list_all (re_digit E) ?month" by (auto simp: list_all_iff dest: set_takeWhileD)
  ultimately show "date_text E s"
    using f unfolding date_text_def date_sep_def
    by (intro exI [of _ "take 4 ?c"] exI [of _ "hd ?r"] exI [of _ ?month] exI [of _ "hd ?r2"] exI [of _ "tl ?r2"]) auto
next
  assume "date_text E s"
  then obtain year a month b day where c: "utf8_chars s = year @ a # month @ b # day" "length year = 4"
    "length month \<in> {1, 2}" "length day \<in> {1, 2}" "list_all (re_digit E) year" "list_all (re_digit E) month"
    "list_all (re_digit E) day" "date_sep a" "date_sep b"
    by (auto simp: date_text_def date_sep_def)
  have "takeWhile (re_digit E) (month @ b # day) = month" "dropWhile (re_digit E) (month @ b # day) = b # day"
    using takeWhile_prefix [OF c(6) date_sep_no_digit [OF c(9)]] by simp_all
  moreover have "\<not> re_digit E b" using date_sep_no_digit [OF c(9)] .
  ultimately show "date_ok E s" using c by (simp only: date_ok_def Let_def) simp
qed

lemma key_error_plain:
  "k \<in> {''author'', ''title'', ''logsource'', ''detection'', ''id''} \<Longrightarrow> key_error E y k = None \<longleftrightarrow> yindex y k \<noteq> YBadValue"
  by (auto simp: key_error_def)

lemma key_error_level:
  "key_error E y ''level'' = None \<longleftrightarrow> (\<exists>l. as_str (yindex y ''level'') = Some l \<and> l \<in> set (butlast severity))"
  by (cases "as_str (yindex y ''level'')") (auto simp: key_error_def severity_def)

lemma key_error_status:
  "key_error E y ''status'' = None \<longleftrightarrow>
     (\<exists>s. as_str (yindex y ''status'') = Some s \<and> s \<in> {''stable'', ''test'', ''experimental'', ''deprecated'', ''unsupported''})"
  by (cases "as_str (yindex y ''status'')") (auto simp: key_error_def)

lemma key_error_date:
  "key_error E y ''date'' = None \<longleftrightarrow> (\<exists>d. as_str (yindex y ''date'') = Some d \<and> date_text E d)"
proof -
  have "\<not> date_ok E []" by (simp add: date_ok_def)
  then show ?thesis by (cases "as_str (yindex y ''date'')") (auto simp: key_error_def date_ok_text)
qed

lemma option_list_none: "option_list xs = [] \<longleftrightarrow> (\<forall>x \<in> set xs. x = None)"
  by (induction xs rule: option_list.induct) auto

lemma fmt_complete: "check_hayabusa_rule_fmt E y = Inr () \<longleftrightarrow> rule_complete E y"
proof -
  have "check_hayabusa_rule_fmt E y = Inr () \<longleftrightarrow> (\<forall>k \<in> set (required_keys y). key_error E y k = None)"
    by (simp add: check_hayabusa_rule_fmt_def Let_def option_list_none)
  also have "\<dots> \<longleftrightarrow> (\<forall>k \<in> {''author'', ''title'', ''id''}. key_error E y k = None) \<and>
     (as_hash (yindex y ''correlation'') = None \<longrightarrow> key_error E y ''logsource'' = None \<and> key_error E y ''detection'' = None) \<and>
     key_error E y ''level'' = None \<and> key_error E y ''status'' = None \<and> key_error E y ''date'' = None"
    by (cases "as_hash (yindex y ''correlation'')") (simp_all add: required_keys_def conj_ac)
  also have "\<dots> \<longleftrightarrow> rule_complete E y"
    unfolding rule_complete_def key_error_level key_error_status key_error_date by (simp add: key_error_plain)
  finally show ?thesis .
qed

lemma id_dropped_wanted: "id_dropped F y \<longleftrightarrow> \<not> id_wanted F y"
  by (auto simp: id_dropped_def id_wanted_def entry_key_def is_output_set_def target_ids_is_target_def split: option.splits if_splits)

lemma status_wanted_verdict:
  assumes "as_str (yindex y ''status'') = Some s"
  shows "status_verdict F (Some s) = Loaded \<longleftrightarrow> status_wanted F y"
  using assms
  by (auto simp: status_wanted_def status_verdict_def excluded_statuses_def all_statuses_allowed_def is_output_set_def
      unwrap_or_def split: option.splits)

lemma category_excluded_wanted: "category_excluded F y \<longleftrightarrow> \<not> category_wanted F y"
  by (auto simp: category_excluded_def category_wanted_def Let_def unwrap_or_def split: option.splits)

lemma tags_excluded_wanted: "tags_excluded F y \<longleftrightarrow> \<not> tags_wanted F y"
  by (auto simp: tags_excluded_def tags_wanted_def rule_tags_def has_tag_def list_ex_iff split: option.splits) 

lemma passes_wanted:
  assumes "level_named (min_level F)" and "target_level F = [] \<or> level_named (target_level F)"
  shows "passes E F y \<longleftrightarrow> rule_wanted E F y"
proof (cases "rule_complete E y")
  case True
  then obtain l s where l: "as_str (yindex y ''level'') = Some l" "l \<in> set (butlast severity)"
    and s: "as_str (yindex y ''status'') = Some s"
    by (auto simp: rule_complete_def)
  show ?thesis
    using True level_excluded_wanted [OF assms l] status_wanted_verdict [OF s]
    by (auto simp: passes_def rule_wanted_def fmt_complete id_dropped_wanted category_excluded_wanted tags_excluded_wanted s)
qed (simp add: passes_def rule_wanted_def fmt_complete)

subsection \<open>What every step keeps\<close>

named_theorems loader_simps "fields of the loader after a step"

lemma up_loader [loader_simps]:
  "files (up_rule_load_cnt k ld) = files ld" "rulecounter (up_rule_load_cnt k ld) = rulecounter ld"
  "files (up_rule_status_cnt k ld) = files ld" "rulecounter (up_rule_status_cnt k ld) = rulecounter ld"
  "files (load_warning F msg ld) = files ld" "rulecounter (load_warning F msg ld) = rulecounter ld"
  "files (count_expand found enabled ld) = files ld" "rulecounter (count_expand found enabled ld) = rulecounter ld"
  "files (count_loaded y ld) = files ld"
  by (simp_all add: up_rule_load_cnt_def up_rule_status_cnt_def load_warning_def count_expand_def count_loaded_def Let_def)

lemma exclude_by_id_keeps [loader_simps]:
  "files (fst (exclude_by_id F y ld)) = files ld" "rulecounter (fst (exclude_by_id F y ld)) = rulecounter ld"
  by (auto simp: exclude_by_id_def exclude_untargeted_def Let_def loader_simps split: option.split)

lemma load_doc_files [loader_simps]: "files (fst (load_doc E F R d ld)) = files ld"
  by (auto simp: load_doc_eq Let_def loader_simps split: sum.split verdict.split)

lemma load_docs_files [loader_simps]: "files (fst (load_docs E F R ds ld)) = files ld"
  by (induction ds arbitrary: ld) (auto simp: split_beta loader_simps)

lemma load_docs_kept:
  "snd (load_docs E F R ds ld) = [(fst d, expanded R (snd d)). d \<leftarrow> ds, rule_kept E F R (snd d)]"
  by (induction ds arbitrary: ld) (auto simp: split_beta load_doc_kept)

lemma count_correlation_files [loader_simps]:
  "files (fold count_correlation docs ld) = files ld"
  "rulecounter (fold count_correlation docs ld) = rulecounter ld"
  by (induction docs arbitrary: ld) (auto simp: count_correlation_def split: option.split)

lemma parsed_files [loader_simps]:
  "files (fst (parsed W F path f content ld)) = files ld"
  "rulecounter (fst (parsed W F path f content ld)) = rulecounter ld"
  by (auto simp: parsed_def failed_def Let_def update_correlation_counts_def loader_simps split: sum.split)

lemma read_entry_file_files [loader_simps]:
  "files (fst (read_entry_file W F path content ld)) = files ld"
  "rulecounter (fst (read_entry_file W F path content ld)) = rulecounter ld"
  by (auto simp: read_entry_file_def failed_def loader_simps split: sum.split)

subsection \<open>A sample directory\<close>

text \<open>One rule, the default filters, and a directory with its file and another one.\<close>

definition sample_rule :: yaml where
  "sample_rule =
     YHash (map (\<lambda>(k, v). (YString k, YString v))
       [(''author'', ''a''), (''title'', ''t''), (''logsource'', ''s''), (''detection'', ''d''), (''level'', ''high''),
        (''status'', ''test''), (''date'', ''2024/01/31''), (''id'', ''i'')])"

definition sample_filters :: rule_filters where
  "sample_filters =
     \<lparr>min_level = ''informational'', target_level = [], no_use_rule = [(''x'', ''config/noisy_rules.txt'')],
      target_ruleids = [], include_status = [''*''], output_option = None, need_rules = True, quiet_load = False\<rparr>"

definition sample_world :: rule_world where
  "sample_world =
     \<lparr>yaml_load = (\<lambda>t. if t = ''rule'' then Inr [sample_rule] else Inl ''error''), file_text = (\<lambda>_. Inl []),
      path_exists = (\<lambda>_. False), expand_files = None\<rparr>"

definition sample_dir :: "string + (string + fs_entry) list" where
  "sample_dir = Inr [Inr (RFile ''rules/a.yml'' (Inr ''rule'')), Inr (RDir ''rules/.git'' (Inr [])),
     Inr (RFile ''rules/a.txt'' (Inr ''text''))]"

lemma sample_rule_kept: "rule_kept env0 sample_filters [] sample_rule" "expanded [] sample_rule = sample_rule"
proof -
  show e: "expanded [] sample_rule = sample_rule"
    by code_simp
  have u: "uses_expand sample_rule = False"
    by code_simp
  have "passes env0 sample_filters sample_rule \<longleftrightarrow> True" by code_simp
  then show "rule_kept env0 sample_filters [] sample_rule" by (simp only: rule_kept_def e u) simp
qed

subsection \<open>The counters\<close>

text \<open>The documents that the counters of the loader account for.\<close>

definition docs_counted :: "loader \<Rightarrow> int" where
  "docs_counted ld =
     int (rule_expand_cnt ld) - int (rule_expand_enabled_cnt ld) + int (errorrule_count ld) +
     int (counter_total (rule_load_cnt ld)) + int (counter_total (rule_status_cnt ld))"

lemma docs_counted_up [loader_simps]:
  "docs_counted (up_rule_load_cnt k ld) = docs_counted ld + 1"
  "docs_counted (up_rule_status_cnt k ld) = docs_counted ld + 1"
  "docs_counted (load_warning F msg ld) = docs_counted ld + 1"
  "docs_counted (count_loaded y ld) = docs_counted ld + 1"
  "docs_counted (count_expand found enabled ld) = docs_counted ld + (if found \<and> \<not> enabled then 1 else 0)"
  by (simp_all add: docs_counted_def up_rule_load_cnt_def up_rule_status_cnt_def load_warning_def
      count_loaded_def count_expand_def Let_def)

lemma docs_counted_exclude:
  assumes "\<not> is_output_set F enable_noisy_rules" and "zero_id \<notin> snd ` set (no_use_rule F)"
  shows "docs_counted (fst (exclude_by_id F y ld)) = docs_counted ld + (if id_dropped F y then 1 else 0)"
proof -
  have "v \<noteq> zero_id" if "map_of (no_use_rule F) i = Some v" for i v
    using assms(2) map_of_SomeD [OF that] by force
  moreover have "entry_key v = ''excluded'' \<or> entry_key v = ''noisy''" for v
    by (simp add: entry_key_def)
  ultimately show ?thesis
    using assms(1)
    by (auto simp: exclude_by_id_def id_dropped_def exclude_untargeted_def Let_def loader_simps
        split: option.split)
qed

lemma load_doc_counted:
  assumes "\<not> is_output_set F enable_noisy_rules" and "zero_id \<notin> snd ` set (no_use_rule F)"
  shows "docs_counted (fst (load_doc E F R d ld)) = docs_counted ld + 1"
  by (auto simp: load_doc_eq Let_def loader_simps docs_counted_exclude [OF assms] split: sum.split verdict.split)

text \<open>
  Every document is accounted for. Unless noisy rules are enabled, each document that reaches
  the filters adds one to exactly one of the counters the summary is made of: placeholders without
  values, invalid rules, excluded or noisy rules, and the rules by status, which hold the loaded
  ones and those left out as deprecated or unsupported.
\<close>

theorem load_docs_accounted:
  assumes "\<not> is_output_set F enable_noisy_rules" and "zero_id \<notin> snd ` set (no_use_rule F)"
  shows "docs_counted (fst (load_docs E F R ds ld)) = docs_counted ld + int (length ds)"
  by (induction ds arbitrary: ld) (auto simp: split_beta load_doc_counted [OF assms])

lemma load_doc_rulecounter:
  "counter_total (rulecounter (fst (load_doc E F R d ld))) =
     counter_total (rulecounter ld) + (if rule_kept E F R (snd d) then 1 else 0)"
  by (auto simp: load_doc_eq Let_def loader_simps rule_kept_def passes_def count_loaded_def
      split: sum.split verdict.split)

lemma load_docs_rulecounter:
  "counter_total (rulecounter (fst (load_docs E F R ds ld))) =
     counter_total (rulecounter ld) + length (snd (load_docs E F R ds ld))"
  by (induction ds arbitrary: ld) (auto simp: split_beta load_doc_rulecounter load_doc_kept)

subsection \<open>The documents of a directory\<close>

definition file_docs :: "rule_world \<Rightarrow> string \<Rightarrow> string + string \<Rightarrow> (string \<times> yaml) list" where
  "file_docs W path content =
     (if ignored_path path then []
      else (case bind_result (read_file content) (yaml_load W) of Inl e \<Rightarrow> [] | Inr ys \<Rightarrow> map (Pair path) ys))"

fun entry_docs :: "rule_world \<Rightarrow> string + fs_entry \<Rightarrow> (string \<times> yaml) list" where
  "entry_docs W (Inr (RFile path content)) = file_docs W path content"
| "entry_docs W _ = []"

text \<open>The files of the subdirectories, in the order they are found, come before those of the directory itself.\<close>

function dir_docs :: "rule_world \<Rightarrow> fs_entry \<Rightarrow> (string \<times> yaml) list" where
  "dir_docs W e =
     (case e of
        RDir path (Inr es) \<Rightarrow>
          concat (map (\<lambda>x. case x of Inr (RDir q d) \<Rightarrow> dir_docs W (RDir q d) | _ \<Rightarrow> []) es) @
          concat (map (entry_docs W) es)
      | _ \<Rightarrow> [])"
  by pat_completeness auto

lemma size_entry: "Inr x \<in> set es \<Longrightarrow> size x < size (RDir path (Inr es))"
  by (induction es) auto

termination dir_docs
  by (relation "measure (\<lambda>(W, e). size e)") (auto simp del: fs_entry.size intro: size_entry)

declare dir_docs.simps [simp del]

definition sub_docs :: "rule_world \<Rightarrow> string + fs_entry \<Rightarrow> (string \<times> yaml) list" where
  "sub_docs W x = (case x of Inr (RDir q d) \<Rightarrow> dir_docs W (RDir q d) | _ \<Rightarrow> [])"

lemma dir_docs_RDir:
  "dir_docs W (RDir path (Inr es)) = concat (map (sub_docs W) es) @ concat (map (entry_docs W) es)"
  by (subst dir_docs.simps) (simp add: sub_docs_def [abs_def])

definition kept_docs :: "env \<Rightarrow> rule_filters \<Rightarrow> expand_map \<Rightarrow> (string \<times> yaml) list \<Rightarrow> (string \<times> yaml) list" where
  "kept_docs E F R ds = [(fst d, expanded R (snd d)). d \<leftarrow> ds, rule_kept E F R (snd d)]"

lemma kept_docs_append [simp]: "kept_docs E F R (xs @ ys) = kept_docs E F R xs @ kept_docs E F R ys"
  and kept_docs_Nil [simp]: "kept_docs E F R [] = []"
  by (simp_all add: kept_docs_def)

lemma read_entry_file_docs: "snd (read_entry_file W F path content ld) = file_docs W path content"
  by (auto simp: read_entry_file_def file_docs_def parsed_def Let_def split: sum.split)

lemma load_all_files:
  assumes "read_expand_files (expand_files W) = Inr R"
  shows "load_all E W F docs ld = (ld', r) \<Longrightarrow>
    r = Ok () \<and> files ld' = files ld @ kept_docs E F R docs \<and>
    counter_total (rulecounter ld') = counter_total (rulecounter ld) + length (kept_docs E F R docs)"
  using assms load_docs_rulecounter [of E F R docs ld]
  by (auto simp: load_all_def split_beta loader_simps load_docs_kept kept_docs_def)

lemma read_dir_files:
  assumes "read_expand_files (expand_files W) = Inr R"
  shows "(\<And>path content. e \<noteq> RFile path content) \<Longrightarrow> read_dir E W F e ld = (ld', Ok ()) \<Longrightarrow>
      files ld' = files ld @ kept_docs E F R (dir_docs W e) \<and>
      counter_total (rulecounter ld') = counter_total (rulecounter ld) + length (kept_docs E F R (dir_docs W e))"
    and "read_entries E W F es docs ld = (ld', Ok docs') \<Longrightarrow>
      files ld' = files ld @ kept_docs E F R (concat (map (sub_docs W) es)) \<and>
      docs' = docs @ concat (map (entry_docs W) es) \<and>
      counter_total (rulecounter ld') = counter_total (rulecounter ld) + length (kept_docs E F R (concat (map (sub_docs W) es)))"
  using assms
proof (induction E W F e ld and E W F es docs ld arbitrary: ld' and ld' docs' rule: read_dir_read_entries.induct)
  case (1 E W F path content ld)
  then show ?case by blast
next
  case (3 E W F path es ld)
  from 3(3) obtain ld1 docs where r: "read_entries E W F es [] ld = (ld1, Ok docs)"
    and l: "load_all E W F docs ld1 = (ld', Ok ())"
    by (auto split: prod.splits outcome.splits)
  with 3(1) [OF r 3(4)] load_all_files [OF 3(4) l] show ?case by (auto simp: dir_docs_RDir)
next
  case (7 E W F path d es docs ld)
  from 7(3) obtain ld1 u where r: "read_dir E W F (RDir path d) ld = (ld1, Ok u)"
    and l: "read_entries E W F es docs ld1 = (ld', Ok docs')"
    by (auto split: prod.splits outcome.splits)
  have "read_dir E W F (RDir path d) ld = (ld1, Ok ())" using r by simp
  note IH1 = 7(1) [OF _ this 7(4)]
  from 7(2) [OF r [symmetric] refl l 7(4)] IH1 show ?case by (simp add: sub_docs_def)
next
  case (8 E W F path es docs ld)
  then show ?case by (simp add: sub_docs_def)
next
  case (9 E W F path content es docs ld)
  obtain ld1 docs1 where r: "read_entry_file W F path content ld = (ld1, docs1)"
    by fastforce
  have "docs1 = file_docs W path content" "files ld1 = files ld" "rulecounter ld1 = rulecounter ld"
    using read_entry_file_docs [of W F path content ld] read_entry_file_files [of W F path content ld] r
    by simp_all
  moreover have "read_entries E W F es (docs @ docs1) ld1 = (ld', Ok docs')"
    using 9(2) r by simp
  note 9(1) [OF r [symmetric] this 9(3)]
  ultimately show ?case by (simp add: sub_docs_def)
qed (simp_all add: sub_docs_def)

text \<open>A directory whose entries, and those of its subdirectories, can all be read.\<close>

inductive readable :: "fs_entry \<Rightarrow> bool" where
  dir: "(\<And>x. x \<in> set es \<Longrightarrow> \<exists>e. x = Inr e \<and> (\<forall>q d. e = RDir q d \<longrightarrow> readable e)) \<Longrightarrow>
    readable (RDir path (Inr es))"

inductive_simps readable_simps [simp]: "readable (RDir path (Inr es))" "readable (RDir path (Inl e))"
  "readable (RFile path c)" "readable (ROther path)"

lemma read_dir_ok:
  assumes "read_expand_files (expand_files W) = Inr R"
  shows "readable e \<Longrightarrow> snd (read_dir E W F e ld) = Ok ()"
    and "(\<And>x. x \<in> set es \<Longrightarrow> \<exists>e. x = Inr e \<and> (\<forall>q d. e = RDir q d \<longrightarrow> readable e)) \<Longrightarrow>
      \<exists>docs'. snd (read_entries E W F es docs ld) = Ok docs'"
  using assms
proof (induction E W F e ld and E W F es docs ld rule: read_dir_read_entries.induct)
  case (3 E W F path es ld)
  then have "\<exists>docs'. snd (read_entries E W F es [] ld) = Ok docs'" by simp
  then show ?case using 3(3) by (auto simp: load_all_def split: prod.split)
next
  case (7 E W F path d es docs ld)
  have d: "readable (RDir path d)" using 7(3) [of "Inr (RDir path d)"] by simp
  obtain ld1 where r: "read_dir E W F (RDir path d) ld = (ld1, Ok ())"
    using 7(1) [OF d 7(4)] by (metis prod.collapse)
  have "\<exists>docs'. snd (read_entries E W F es docs ld1) = Ok docs'"
    by (rule 7(2) [OF r [symmetric] refl _ 7(4)]) (use 7(3) in simp)
  then show ?case by (simp add: r)
next
  case (9 E W F path content es docs ld)
  then show ?case by (auto split: prod.split)
qed auto


lemma sample_dir_docs: "dir_docs sample_world (RDir ''rules'' sample_dir) = [(''rules/a.yml'', sample_rule)]"
proof -
  have "ignored_path ''rules/a.yml'' = False" "ignored_path ''rules/a.txt'' = True" "valid_utf8 (map byte ''rule'')"
    by code_simp+
  then show ?thesis
    by (simp add: sample_dir_def dir_docs_RDir sub_docs_def file_docs_def read_file_def sample_world_def)
qed

lemma sample_dir_readable: "readable (RDir ''rules'' sample_dir)"
  by (simp add: sample_dir_def)


theorem load_docs_accounted_witness:
  "docs_counted (fst (load_docs env0 sample_filters [] [(''r.yml'', sample_rule), (''b.yml'', YNull)] (loader_new [] no_tables))) = 2"
  using load_docs_accounted [of sample_filters env0 "[]" "[(''r.yml'', sample_rule), (''b.yml'', YNull)]"
      "loader_new [] no_tables"]
  by (simp add: sample_filters_def is_output_set_def zero_id_def)
     (simp add: docs_counted_def loader_new_def counter_total_def)

subsection \<open>Counted by type\<close>

definition types_counted :: "loader \<Rightarrow> bool" where
  "types_counted ld \<longleftrightarrow> counter_total (rulecounter ld) = length (files ld)"

lemma load_all_types: "types_counted ld \<Longrightarrow> load_all E W F docs ld = (ld', r) \<Longrightarrow> types_counted ld'"
  using load_docs_rulecounter
  by (auto simp: types_counted_def load_all_def split_beta loader_simps split: sum.splits)

lemma read_entry_file_types:
  "types_counted ld \<Longrightarrow> types_counted (fst (read_entry_file W F path content ld))"
  by (simp add: types_counted_def loader_simps)

lemma read_single_file_types:
  "types_counted ld \<Longrightarrow> read_single_file W F path content ld = Ok (ld', docs) \<Longrightarrow> types_counted ld'"
  using parsed_files
  by (auto simp: types_counted_def read_single_file_def failed_def loader_simps Let_def
      split: if_splits outcome.splits sum.splits dest!: arg_cong [of _ _ fst])

lemma read_dir_types:
  "types_counted ld \<Longrightarrow> types_counted (fst (read_dir E W F e ld))"
  "types_counted ld \<Longrightarrow> types_counted (fst (read_entries E W F es docs ld))"
proof (induction E W F e ld and E W F es docs ld rule: read_dir_read_entries.induct)
  case (1 E W F path content ld)
  then show ?case
    by (auto split: outcome.split prod.split dest: read_single_file_types intro: load_all_types)
       (metis fst_conv load_all_types read_single_file_types surj_pair)
next
  case (3 E W F path es ld)
  then show ?case
    by (auto split: outcome.split prod.split) (metis fst_conv load_all_types surj_pair)
next
  case (7 E W F path d es docs ld)
  then show ?case by (auto split: outcome.split prod.split)
next
  case (9 E W F path content es docs ld)
  then show ?case using read_entry_file_types [of ld W F path content] by (auto split: prod.split)
qed auto

text \<open>
  However the walk over the rule directory ends, with a file system error, a panic or all files
  read, and whatever the filters are, the counters of the loaded rules by type add up to the number
  of rules loaded.
\<close>

theorem read_rules_types_counted:
  assumes "types_counted ld"
  shows "types_counted (fst (read_rule_path E W F path metadata ld))"
  using read_dir_types(1) [OF assms] assms
  by (auto simp: read_rule_path_def Let_def types_counted_def split: sum.split)

theorem read_rules_types_counted_witness:
  "types_counted (fst (read_rule_path env0 sample_world sample_filters ''rules'' (Inr (RDir ''rules'' sample_dir))
     (loader_new [] no_tables)))"
  by (rule read_rules_types_counted) (simp add: types_counted_def counter_total_def loader_new_def)

subsection \<open>Rules with lists of placeholders\<close>

function list_placeholders :: "yaml \<Rightarrow> bool" where
  "list_placeholders y =
     (case y of
        YHash h \<Rightarrow>
          list_all (\<lambda>e. if expand_key (fst e)
                       then (case as_vec (snd e) of None \<Rightarrow> False | Some ys \<Rightarrow> list_all (\<lambda>v. as_str v \<noteq> None) ys)
                       else list_placeholders (snd e)) h
      | YArray ys \<Rightarrow> list_all list_placeholders ys
      | _ \<Rightarrow> True)"
  by pat_completeness auto
termination
  by (relation "measure size")
     (auto simp del: yaml.size intro: size_yaml_hash_value size_yaml_array_elem)

declare list_placeholders.simps [simp del]

lemma string_list_fixed:
  assumes "as_vec v = Some ys" and "list_all (\<lambda>v. as_str v \<noteq> None) ys"
  shows "expanded_value R v = v" and "\<not> expand_enabled R v"
proof -
  have v: "v = YArray ys" using assms(1) by (cases v) simp_all
  have ys: "\<exists>s. y = YString s" if "y \<in> set ys" for y
    using assms(2) that by (cases y) (auto simp: list_all_iff)
  then have "map (expanded R) ys = ys" by (metis expanded_simps(3) map_idI)
  with v show "expanded_value R v = v" by (simp add: expanded_value_simps)
  show "\<not> expand_enabled R v" using ys by (auto simp: v dest!: ys)
qed

lemma list_placeholders_simps:
  "list_placeholders (YArray ys) \<longleftrightarrow> (\<forall>y \<in> set ys. list_placeholders y)"
  "list_placeholders (YHash h) \<longleftrightarrow>
     (\<forall>e \<in> set h. if expand_key (fst e)
        then (case as_vec (snd e) of None \<Rightarrow> False | Some ys \<Rightarrow> list_all (\<lambda>v. as_str v \<noteq> None) ys)
        else list_placeholders (snd e))"
  by (subst list_placeholders.simps, simp add: list_all_iff)+

lemma list_placeholders_not_enabled: "list_placeholders y \<Longrightarrow> \<not> expand_enabled R y"
proof (induction y rule: list_placeholders.induct)
  case (1 y)
  show ?case
  proof (cases y)
    case (YArray ys)
    with 1 show ?thesis by (auto simp: list_placeholders_simps)
  next
    case (YHash h)
    have "\<not> (expand_key (fst e) \<and> snd e \<noteq> expanded_value R (snd e)) \<and> \<not> expand_enabled R (snd e)"
      if e: "e \<in> set h" for e
    proof (cases "expand_key (fst e)")
      case True
      with 1(3) e YHash obtain ys where "as_vec (snd e) = Some ys" "list_all (\<lambda>v. as_str v \<noteq> None) ys"
        by (auto simp: list_placeholders_simps split: option.splits)
      from string_list_fixed [OF this, of R] show ?thesis by simp
    next
      case False
      with 1(3) e YHash have "list_placeholders (snd e)" by (auto simp: list_placeholders_simps)
      with 1(2) [OF YHash e False] False show ?thesis by simp
    qed
    then show ?thesis by (auto simp: YHash)
  qed simp_all
qed

text \<open>
  A rule whose placeholders stand in lists can never be enabled. If every key of a rule with the
  modifier \<open>expand\<close> has a list of strings as its value, the loader leaves the rule out whatever the
  files of values hold, and counts it as one without values.
\<close>

theorem list_placeholder_rule_never_loaded:
  assumes "uses_expand y" and "list_placeholders y"
  shows "load_doc E F R (path, y) ld = (ld\<lparr>rule_expand_cnt := rule_expand_cnt ld + 1\<rparr>, None)"
  using assms list_placeholders_not_enabled [OF assms(2), of R]
  by (simp add: load_doc_eq Let_def count_expand_def)

text \<open>The selection of the rule \<open>win_security_susp_interactive_logons.yml\<close> that lists placeholders.\<close>

theorem list_placeholder_rule_never_loaded_witness:
  "load_doc env0 sample_filters [(''%ServerSystems%'', [''srv1'']), (''%DomainControllers%'', [''dc1''])]
     (''r.yml'', YHash [(YString ''detection'', YHash [(YString ''selection'',
        YHash [(YString ''ComputerName|expand'', YArray [YString ''%ServerSystems%'', YString ''%DomainControllers%''])])])])
     (loader_new [] no_tables) =
   ((loader_new [] no_tables)\<lparr>rule_expand_cnt := 1\<rparr>, None)"
proof -
  let ?y = "YHash [(YString ''detection'', YHash [(YString ''selection'',
    YHash [(YString ''ComputerName|expand'', YArray [YString ''%ServerSystems%'', YString ''%DomainControllers%''])])])]"
  have k: "expand_key (YString ''ComputerName|expand'')" "\<not> expand_key (YString ''selection'')"
    "\<not> expand_key (YString ''detection'')" by code_simp+
  have "uses_expand ?y" by (simp add: k)
  moreover have "list_placeholders ?y" by (simp add: k list_placeholders_simps)
  ultimately show ?thesis
    using list_placeholder_rule_never_loaded [of ?y env0 sample_filters _ "''r.yml''" "loader_new [] no_tables"]
    by (simp add: loader_new_def)
qed

subsection \<open>The encoded rules\<close>

lemma decode_byte_involution [simp]: "decode_byte (decode_byte c) = c"
proof -
  let ?x = "semiring_bit_operations_class.xor (byte c) 0xAA"
  have "take_bit 8 (byte c) = byte c" "take_bit 8 (0xAA :: nat) = 0xAA"
    by (simp_all add: take_bit_nat_eq_self)
  then have "take_bit 8 ?x = ?x" by (simp only: take_bit_xor)
  then have "?x < 256" using take_bit_nat_less_exp [of 8 ?x] by simp
  moreover have "semiring_bit_operations_class.xor ?x 0xAA = byte c"
    by (simp only: xor.assoc xor_self_eq xor.right_neutral)
  ultimately show ?thesis by (simp add: decode_byte_def byte_inject [symmetric])
qed

text \<open>
  The encoded rule file is read back as the text it was made of: the bytes of a well-formed text,
  each combined with the key, are decoded to that text, and bytes that decode to no text panic.
\<close>

theorem read_encoded_roundtrip:
  "read_encoded_file (Inr (map decode_byte s)) = (if valid_utf8 (map byte s) then Ok s else Panic)"
  by (simp add: read_encoded_file_def comp_def)

subsection \<open>The id of the test rules\<close>

text \<open>
  The test that is to keep the rules with the id of zeros out of the counts compares the path of the
  list with it, not the id: such a rule is counted like every other.
\<close>

lemma zero_id_counted:
  assumes "as_str (yindex y ''id'') = Some zero_id"
    and "map_of (no_use_rule F) zero_id = Some (config_path @ ''/exclude_rules.txt'')"
  shows "exclude_by_id F y ld = (up_rule_load_cnt ''excluded'' ld, True)"
proof -
  have "last (config_path @ ''/exclude_rules.txt'') \<noteq> last zero_id" by (simp add: zero_id_def)
  then have "config_path @ ''/exclude_rules.txt'' \<noteq> zero_id" by metis
  moreover have "config_path @ ''/exclude_rules.txt'' = (config_path @ ''/'') @ ''exclude_rule'' @ ''s.txt''"
    by simp
  then have "contains_str (config_path @ ''/exclude_rules.txt'') ''exclude_rule''"
    unfolding contains_str_iff by blast
  ultimately show ?thesis
    using assms by (simp add: exclude_by_id_def entry_key_def Let_def)
qed

end
