(* ===== verification/Channel_Filter.thy ===== *)
theory Channel_Filter
  imports Rule_Filter Matchers Count
begin

section \<open>Which event files a rule set needs (filter.rs, main.rs)\<close>

text \<open>
  The channel of an event file is that of its first record. From the channels of the files and the
  values of the keys \<open>Channel\<close> in the rules the program decides which files to scan and which rules
  to keep. The parser of event files is a parameter: what it finds first in a file.
\<close>

datatype first_record = NoFile | NoRecord | FirstRecord json

type_synonym channels_map = "(string \<times> string list) list"

definition record_channel :: "json \<Rightarrow> string" where
  "record_channel r =
     trim_matches (CHR 0x22)
       (unwrap_or [] (json_as_str (json_index (json_index (json_index r ''Event'') ''System'') ''Channel'')))"

definition push :: "string \<Rightarrow> string \<Rightarrow> channels_map \<Rightarrow> channels_map" where
  "push k v m = assoc_insert k (unwrap_or [] (map_of m k) @ [v]) m"

fun peek_channel_from_evtx_first_record ::
  "(string \<Rightarrow> first_record) \<Rightarrow> bool \<Rightarrow> string list \<Rightarrow> channels_map \<times> string list \<Rightarrow> channels_map \<times> string list" where
  "peek_channel_from_evtx_first_record FR quiet [] st = st"
| "peek_channel_from_evtx_first_record FR quiet (path # paths) (m, log) =
     peek_channel_from_evtx_first_record FR quiet paths
       (case FR path of
          FirstRecord r \<Rightarrow> (push (record_channel r) path m, log)
        | NoRecord \<Rightarrow> (m, log)
        | NoFile \<Rightarrow> (m, if quiet then log else log @ [''Failed to open evtx file: '' @ path]))"

text \<open>The channels that a string under a key \<open>Channel\<close> names, of those that the files have.\<close>

definition named_channels :: "string list \<Rightarrow> string \<Rightarrow> string list" where
  "named_channels evtx_channels s =
     (if CHR ''*'' \<in> set s then filter (\<lambda>ch. contains_str ch (trim_matches (CHR ''*'') s)) evtx_channels
      else if s \<in> set evtx_channels then [s]
      else [])"

text \<open>\<open>visit_value\<close>: what it adds to the channels; a key that is no string panics.\<close>

function visit_value :: "string \<Rightarrow> yaml \<Rightarrow> string list \<Rightarrow> string list option" where
  "visit_value key y evtx_channels =
     (case y of
        YString s \<Rightarrow> Some (if key = ''Channel'' then named_channels evtx_channels s else [])
      | YHash h \<Rightarrow>
          map_option concat
            (those (map (\<lambda>e. case as_str (fst e) of
                               None \<Rightarrow> None
                             | Some k \<Rightarrow> visit_value k (snd e) evtx_channels) h))
      | YArray ys \<Rightarrow> map_option concat (those (map (\<lambda>v. visit_value key v evtx_channels) ys))
      | _ \<Rightarrow> Some [])"
  by pat_completeness auto
termination
  by (relation "measure (\<lambda>(key, y, chs). size y)")
     (auto simp del: yaml.size intro: size_yaml_hash_value size_yaml_array_elem)

declare visit_value.simps [simp del]

fun extract_channel_from_rules ::
  "rule_node list \<Rightarrow> string list \<Rightarrow> (string list \<times> string list) option" where
  "extract_channel_from_rules [] evtx_channels = Some ([], [])"
| "extract_channel_from_rules (rule # rules) evtx_channels =
     Option.bind (visit_value [] (rule_yaml rule) evtx_channels) (\<lambda>chs.
       map_option (\<lambda>(paths, inter). (if chs = [] then paths else rulepath rule # paths, chs @ inter))
         (extract_channel_from_rules rules evtx_channels))"

record channel_filter =
  rulepathes :: "string list"
  intersec_channels :: "string list"
  evtx_channels_map :: channels_map

definition channel_filter_new :: channel_filter where
  "channel_filter_new = \<lparr>rulepathes = [], intersec_channels = [], evtx_channels_map = []\<rparr>"

definition scanable_rule_exists :: "channel_filter \<Rightarrow> string \<Rightarrow> bool" where
  "scanable_rule_exists cf path \<longleftrightarrow>
     list_ex (\<lambda>(channel, paths). path \<in> set paths \<and> channel \<in> set (intersec_channels cf)) (evtx_channels_map cf)"

definition create_channel_filter ::
  "(string \<Rightarrow> first_record) \<Rightarrow> string list \<Rightarrow> rule_node list \<Rightarrow> bool \<Rightarrow> string list \<Rightarrow>
   (channel_filter \<times> string list) option" where
  "create_channel_filter FR evtx_files rule_nodes quiet log =
     (case peek_channel_from_evtx_first_record FR quiet evtx_files ([], log) of (channels, log1) \<Rightarrow>
        if channels \<noteq> [] then
          map_option (\<lambda>(x, y). (\<lparr>rulepathes = x, intersec_channels = y, evtx_channels_map = channels\<rparr>, log1))
            (extract_channel_from_rules rule_nodes (map fst channels))
        else Some (channel_filter_new, log1))"

subsection \<open>Filters of the command line\<close>

text \<open>
  \<open>apply_channel_filter\<close> writes the channels into the text of a rule, which it gives to the parser
  of YAML; without a document there is no filter.
\<close>

definition channel_rule_text :: "string list \<Rightarrow> string" where
  "channel_rule_text channels =
     (let nl = [CHR 0x0A]; q = [CHR 0x27] in
      nl @ ''detection:'' @ nl @ ''    selection:'' @ nl @ ''        Channel:'' @ nl @
      join nl (map (\<lambda>c. ''            - '' @ q @ c @ q) channels))"

definition apply_channel_filter ::
  "(string \<Rightarrow> string + yaml list) \<Rightarrow> (string \<Rightarrow> first_record) \<Rightarrow> string list \<Rightarrow> string list option \<Rightarrow> bool \<Rightarrow>
   string list \<Rightarrow> (string list \<times> string list) option" where
  "apply_channel_filter load FR evtx_files channels is_exclude log =
     (case channels of
        None \<Rightarrow> Some (evtx_files, log)
      | Some chs \<Rightarrow>
          (case load (channel_rule_text chs) of
             Inr (doc # docs) \<Rightarrow>
               Option.bind (rule_new ''log-metrics'' doc) (\<lambda>node.
                 map_option (\<lambda>(cf, log1). (filter (\<lambda>e. scanable_rule_exists cf e \<noteq> is_exclude) evtx_files, log1))
                   (create_channel_filter FR evtx_files [node] False log))
           | _ \<Rightarrow> Some (evtx_files, log)))"

text \<open>The matcher of file names is the crate \<open>wildmatch\<close>.\<close>

definition apply_filename_filter ::
  "(string \<Rightarrow> string \<Rightarrow> bool) \<Rightarrow> string list \<Rightarrow> string list option \<Rightarrow> bool \<Rightarrow> string list" where
  "apply_filename_filter wild evtx_files patterns is_exclude =
     (case patterns of
        None \<Rightarrow> evtx_files
      | Some ps \<Rightarrow>
          filter (\<lambda>path.
            case file_name path of
              None \<Rightarrow> False
            | Some name \<Rightarrow>
                list_ex (\<lambda>p. wild (to_ascii_lowercase p) (to_ascii_lowercase name)) ps \<noteq> is_exclude) evtx_files)"

definition filter_evtx_files ::
  "(string \<Rightarrow> string + yaml list) \<Rightarrow> (string \<Rightarrow> first_record) \<Rightarrow> (string \<Rightarrow> string \<Rightarrow> bool) \<Rightarrow> string list \<Rightarrow>
   string list option \<Rightarrow> string list option \<Rightarrow> string list option \<Rightarrow> string list option \<Rightarrow> string list \<Rightarrow>
   (string list \<times> string list) option" where
  "filter_evtx_files load FR wild evtx_files include_channel include_filename exclude_channel exclude_filename log =
     Option.bind (apply_channel_filter load FR evtx_files include_channel False log) (\<lambda>(files1, log1).
       map_option (\<lambda>(files2, log2).
           (apply_filename_filter wild (apply_filename_filter wild files2 include_filename False)
              exclude_filename True, log2))
         (apply_channel_filter load FR files1 exclude_channel True log1))"

subsection \<open>The filter of a scan\<close>

record scan_options =
  json_input_flag :: bool
  scan_all_evtx_files :: bool
  enable_all_rules :: bool

definition filter_scan ::
  "(string \<Rightarrow> first_record) \<Rightarrow> scan_options \<Rightarrow> bool \<Rightarrow> string list \<Rightarrow> rule_node list \<Rightarrow> string list \<Rightarrow>
   (string list \<times> rule_node list \<times> string list) option" where
  "filter_scan FR opt quiet evtx_files rule_files log =
     (if \<not> json_input_flag opt \<and> \<not> scan_all_evtx_files opt \<and> \<not> enable_all_rules opt then
        map_option (\<lambda>(cf, log1).
            (if scan_all_evtx_files opt then evtx_files else filter (scanable_rule_exists cf) evtx_files,
             if enable_all_rules opt then rule_files
             else filter (\<lambda>r. rulepath r \<in> set (rulepathes cf) \<or> yindex (rule_yaml r) ''correlation'' \<noteq> YBadValue)
               rule_files, log1))
          (create_channel_filter FR evtx_files rule_files quiet log)
      else Some (evtx_files, rule_files, log))"

subsection \<open>What the filter keeps\<close>

text \<open>
  The strings that stand under a key \<open>Channel\<close>, directly or in arrays, anywhere in a document, and
  when one of them names a channel.
\<close>

function channel_strings :: "string \<Rightarrow> yaml \<Rightarrow> string set" where
  "channel_strings key y =
     (case y of
        YString s \<Rightarrow> if key = ''Channel'' then {s} else {}
      | YHash h \<Rightarrow> (\<Union>e \<in> set h. channel_strings (unwrap_or [] (as_str (fst e))) (snd e))
      | YArray ys \<Rightarrow> (\<Union>v \<in> set ys. channel_strings key v)
      | _ \<Rightarrow> {})"
  by pat_completeness auto
termination
  by (relation "measure (\<lambda>(key, y). size y)")
     (auto simp del: yaml.size intro: size_yaml_hash_value size_yaml_array_elem)

declare channel_strings.simps [simp del]

function string_keys :: "yaml \<Rightarrow> bool" where
  "string_keys y =
     (case y of
        YHash h \<Rightarrow> list_all (\<lambda>e. as_str (fst e) \<noteq> None \<and> string_keys (snd e)) h
      | YArray ys \<Rightarrow> list_all string_keys ys
      | _ \<Rightarrow> True)"
  by pat_completeness auto
termination
  by (relation "measure size")
     (auto simp del: yaml.size intro: size_yaml_hash_value size_yaml_array_elem)

declare string_keys.simps [simp del]

definition names_channel :: "string \<Rightarrow> string \<Rightarrow> bool" where
  "names_channel s ch \<longleftrightarrow> (if CHR ''*'' \<in> set s then contains_str ch (trim_matches (CHR ''*'') s) else ch = s)"

definition rule_names :: "rule_node \<Rightarrow> string \<Rightarrow> bool" where
  "rule_names r ch \<longleftrightarrow> (\<exists>s \<in> channel_strings [] (rule_yaml r). names_channel s ch)"

definition file_channel :: "(string \<Rightarrow> first_record) \<Rightarrow> string \<Rightarrow> string option" where
  "file_channel FR path = (case FR path of FirstRecord r \<Rightarrow> Some (record_channel r) | _ \<Rightarrow> None)"

lemma set_named_channels: "set (named_channels chs s) = {ch \<in> set chs. names_channel s ch}"
  by (auto simp: named_channels_def names_channel_def)

lemma those_map_total:
  "(\<And>x. x \<in> set xs \<Longrightarrow> \<exists>y. f x = Some y \<and> set y = g x) \<Longrightarrow>
     \<exists>ys. those (map f xs) = Some ys \<and> set (concat ys) = (\<Union>x \<in> set xs. g x)"
proof (induction xs)
  case (Cons x xs)
  then obtain y ys where "f x = Some y" "set y = g x" "those (map f xs) = Some ys"
    "set (concat ys) = (\<Union>x \<in> set xs. g x)"
    by force
  then show ?case by (auto intro!: exI [of _ "y # ys"])
qed simp

lemma visit_value_set:
  "string_keys y \<Longrightarrow> \<exists>r. visit_value key y chs = Some r \<and>
     set r = {ch \<in> set chs. \<exists>s \<in> channel_strings key y. names_channel s ch}"
proof (induction key y chs rule: visit_value.induct)
  case (1 key y chs)
  show ?case
  proof (cases y)
    case (YString s)
    then show ?thesis
      by (simp add: visit_value.simps [of _ "YString s"] channel_strings.simps [of _ "YString s"] set_named_channels)
  next
    case (YArray ys)
    let ?g = "\<lambda>v. {ch \<in> set chs. \<exists>s \<in> channel_strings key v. names_channel s ch}"
    have "\<exists>r. visit_value key v chs = Some r \<and> set r = ?g v" if "v \<in> set ys" for v
      using 1(1) [OF YArray that] 1(3) that
      by (simp add: YArray string_keys.simps [of "YArray ys"] list_all_iff)
    from those_map_total [of ys "\<lambda>v. visit_value key v chs" ?g, OF this]
    obtain rs where "those (map (\<lambda>v. visit_value key v chs) ys) = Some rs" "set (concat rs) = (\<Union>v \<in> set ys. ?g v)"
      by blast
    then show ?thesis
      by (auto simp: YArray visit_value.simps [of _ "YArray ys"] channel_strings.simps [of _ "YArray ys"])
  next
    case (YHash h)
    let ?k = "\<lambda>e. unwrap_or [] (as_str (fst e))"
    let ?f = "\<lambda>e. case as_str (fst e) of None \<Rightarrow> None | Some k \<Rightarrow> visit_value k (snd e) chs"
    let ?g = "\<lambda>e. {ch \<in> set chs. \<exists>s \<in> channel_strings (?k e) (snd e). names_channel s ch}"
    have "\<exists>r. ?f e = Some r \<and> set r = ?g e" if "e \<in> set h" for e
    proof -
      from 1(3) that obtain k where k: "as_str (fst e) = Some k" "string_keys (snd e)"
        by (auto simp: YHash string_keys.simps [of "YHash h"] list_all_iff)
      from 1(2) [OF YHash that k] k(1) show ?thesis by simp
    qed
    from those_map_total [of h ?f ?g, OF this]
    obtain rs where "those (map ?f h) = Some rs" "set (concat rs) = (\<Union>e \<in> set h. ?g e)"
      by blast
    then show ?thesis
      by (auto simp: YHash visit_value.simps [of _ "YHash h"] channel_strings.simps [of _ "YHash h"])
  qed (simp_all add: visit_value.simps channel_strings.simps)
qed

lemma extract_channel_set:
  "(\<And>r. r \<in> set rules \<Longrightarrow> string_keys (rule_yaml r)) \<Longrightarrow>
   \<exists>inter. extract_channel_from_rules rules chs =
       Some (map rulepath (filter (\<lambda>r. \<exists>ch \<in> set chs. rule_names r ch) rules), inter) \<and>
     set inter = {ch \<in> set chs. \<exists>r \<in> set rules. rule_names r ch}"
proof (induction rules)
  case (Cons r rules)
  then obtain inter where i: "extract_channel_from_rules rules chs =
       Some (map rulepath (filter (\<lambda>r. \<exists>ch \<in> set chs. rule_names r ch) rules), inter)"
    "set inter = {ch \<in> set chs. \<exists>r \<in> set rules. rule_names r ch}"
    by auto
  obtain res where v: "visit_value [] (rule_yaml r) chs = Some res" "set res = {ch \<in> set chs. rule_names r ch}"
    using visit_value_set [of "rule_yaml r" "[]" chs] Cons.prems by (auto simp: rule_names_def)
  have "res = [] \<longleftrightarrow> \<not> (\<exists>ch \<in> set chs. rule_names r ch)"
    unfolding set_empty [symmetric] v(2) by blast
  then show ?case using i v by auto
qed simp

text \<open>The table of channels holds each file under the channel of its first record.\<close>

lemma map_of_push: "map_of (push k v m) = (map_of m)(k \<mapsto> unwrap_or [] (map_of m k) @ [v])"
  by (simp add: push_def)

lemma distinct_push: "distinct (map fst m) \<Longrightarrow> distinct (map fst (push k v m))"
  by (simp add: push_def distinct_assoc_insert)

lemma peek_table:
  assumes "distinct (map fst m)"
  shows "distinct (map fst (fst (peek_channel_from_evtx_first_record FR quiet paths (m, log)))) \<and>
    (\<forall>ch. set (unwrap_or [] (map_of (fst (peek_channel_from_evtx_first_record FR quiet paths (m, log))) ch)) =
       set (unwrap_or [] (map_of m ch)) \<union> {p \<in> set paths. file_channel FR p = Some ch}) \<and>
    (\<forall>ch. ch \<in> dom (map_of (fst (peek_channel_from_evtx_first_record FR quiet paths (m, log)))) \<longleftrightarrow>
       ch \<in> dom (map_of m) \<or> (\<exists>p \<in> set paths. file_channel FR p = Some ch))"
  using assms
proof (induction paths arbitrary: m log)
  case (Cons p paths)
  show ?case
  proof (cases "FR p")
    case (FirstRecord r)
    then have f: "file_channel FR p = Some (record_channel r)" by (simp add: file_channel_def)
    have d: "distinct (map fst (push (record_channel r) p m))" by (rule distinct_push [OF Cons.prems])
    note IH = Cons.IH [OF d, of log]
    show ?thesis
      using IH by (auto simp: FirstRecord f map_of_push dom_def split: if_splits)
  qed (use Cons.IH [OF Cons.prems] in \<open>auto simp: file_channel_def\<close>)
qed simp

lemma scanable_iff:
  assumes "distinct (map fst (evtx_channels_map cf))"
  shows "scanable_rule_exists cf path \<longleftrightarrow>
    (\<exists>ch. path \<in> set (unwrap_or [] (map_of (evtx_channels_map cf) ch)) \<and> ch \<in> set (intersec_channels cf))"
proof -
  have "path \<in> set (unwrap_or [] (map_of (evtx_channels_map cf) ch)) \<longleftrightarrow>
      (\<exists>paths. (ch, paths) \<in> set (evtx_channels_map cf) \<and> path \<in> set paths)" for ch
    by (simp add: unwrap_or_def split: option.split)
      (metis assms map_of_SomeD map_of_eq_None_iff map_of_is_SomeI fst_conv image_eqI option.inject)
  then show ?thesis by (fastforce simp: scanable_rule_exists_def list_ex_iff)
qed

lemma create_channel_filter_keeps:
  assumes "\<And>r. r \<in> set rules \<Longrightarrow> string_keys (rule_yaml r)"
  shows "\<exists>cf log'. create_channel_filter FR evtx_files rules quiet log = Some (cf, log') \<and>
    (\<forall>p \<in> set evtx_files. scanable_rule_exists cf p \<longleftrightarrow>
       (\<exists>ch r. file_channel FR p = Some ch \<and> r \<in> set rules \<and> rule_names r ch)) \<and>
    rulepathes cf = map rulepath
      (filter (\<lambda>r. \<exists>p ch. p \<in> set evtx_files \<and> file_channel FR p = Some ch \<and> rule_names r ch) rules)"
proof -
  obtain m log1 where m: "peek_channel_from_evtx_first_record FR quiet evtx_files ([], log) = (m, log1)"
    by fastforce
  have t: "distinct (map fst m)"
    "set (unwrap_or [] (map_of m ch)) = {p \<in> set evtx_files. file_channel FR p = Some ch}"
    "ch \<in> fst ` set m \<longleftrightarrow> (\<exists>p \<in> set evtx_files. file_channel FR p = Some ch)" for ch
    using peek_table [of "[]" FR quiet evtx_files log] by (simp_all add: m dom_map_of_conv_image_fst)
  obtain inter where x: "extract_channel_from_rules rules (map fst m) =
      Some (map rulepath (filter (\<lambda>r. \<exists>ch \<in> fst ` set m. rule_names r ch) rules), inter)"
    "set inter = {ch \<in> fst ` set m. \<exists>r \<in> set rules. rule_names r ch}"
    using extract_channel_set [of rules "map fst m"] assms by auto
  show ?thesis
  proof (cases "m = []")
    case True
    then have "\<not> (\<exists>p \<in> set evtx_files. file_channel FR p = Some ch)" for ch using t(3) [of ch] by simp
    then show ?thesis
      using m True by (auto simp: create_channel_filter_def channel_filter_new_def scanable_rule_exists_def)
  next
    case False
    let ?cf = "\<lparr>rulepathes = map rulepath (filter (\<lambda>r. \<exists>ch \<in> fst ` set m. rule_names r ch) rules),
      intersec_channels = inter, evtx_channels_map = m\<rparr>"
    have "create_channel_filter FR evtx_files rules quiet log = Some (?cf, log1)"
      using m x(1) False by (simp add: create_channel_filter_def)
    moreover have "scanable_rule_exists ?cf p \<longleftrightarrow>
        (\<exists>ch r. file_channel FR p = Some ch \<and> r \<in> set rules \<and> rule_names r ch)" if "p \<in> set evtx_files" for p
      using that t(1) by (subst scanable_iff) (auto simp: t x(2))
    moreover have "(\<exists>ch \<in> fst ` set m. rule_names r ch) \<longleftrightarrow>
        (\<exists>p ch. p \<in> set evtx_files \<and> file_channel FR p = Some ch \<and> rule_names r ch)" for r
      using t(3) by blast
    ultimately show ?thesis by auto
  qed
qed

text \<open>
  C23: The channel filter of a scan keeps what the rules name. If no rule has a key that is no string,
  the filter does not panic and keeps, in their order, exactly the event files whose first record's
  channel is named by some rule under a key \<open>Channel\<close> (equal to its text, or containing it without
  the asterisks at its ends when it has one), and the rules of the rule files that name the channel
  of some event file, or have a correlation.
\<close>

theorem scan_filter_keeps:
  assumes "\<forall>r \<in> set rules. string_keys (rule_yaml r)"
    and "\<not> json_input_flag opt" and "\<not> scan_all_evtx_files opt" and "\<not> enable_all_rules opt"
  shows "\<exists>log'. filter_scan FR opt quiet evtx_files rules log = Some
    (filter (\<lambda>p. \<exists>ch r. file_channel FR p = Some ch \<and> r \<in> set rules \<and> rule_names r ch) evtx_files,
     filter (\<lambda>r. (\<exists>r' p ch. r' \<in> set rules \<and> rulepath r' = rulepath r \<and> p \<in> set evtx_files \<and>
                    file_channel FR p = Some ch \<and> rule_names r' ch) \<or>
                 yindex (rule_yaml r) ''correlation'' \<noteq> YBadValue) rules,
     log')"
proof -
  obtain cf log' where c: "create_channel_filter FR evtx_files rules quiet log = Some (cf, log')"
    and s: "\<And>p. p \<in> set evtx_files \<Longrightarrow> scanable_rule_exists cf p \<longleftrightarrow>
       (\<exists>ch r. file_channel FR p = Some ch \<and> r \<in> set rules \<and> rule_names r ch)"
    and r: "rulepathes cf = map rulepath
      (filter (\<lambda>r. \<exists>p ch. p \<in> set evtx_files \<and> file_channel FR p = Some ch \<and> rule_names r ch) rules)"
    using create_channel_filter_keeps [of rules FR evtx_files quiet log] assms(1) by blast
  have k: "rulepath r \<in> set (rulepathes cf) \<longleftrightarrow> (\<exists>r' p ch. r' \<in> set rules \<and> rulepath r' = rulepath r \<and>
      p \<in> set evtx_files \<and> file_channel FR p = Some ch \<and> rule_names r' ch)" for r
    unfolding r by force
  have e1: "filter_scan FR opt quiet evtx_files rules log = Some
      (filter (scanable_rule_exists cf) evtx_files,
       filter (\<lambda>r. rulepath r \<in> set (rulepathes cf) \<or> yindex (rule_yaml r) ''correlation'' \<noteq> YBadValue) rules, log')"
    using assms(2-4) c by (simp add: filter_scan_def)
  have e2: "filter (scanable_rule_exists cf) evtx_files =
      filter (\<lambda>p. \<exists>ch r. file_channel FR p = Some ch \<and> r \<in> set rules \<and> rule_names r ch) evtx_files"
    by (rule filter_cong [OF refl s])
  show ?thesis unfolding e1 e2 k by (intro exI) (rule refl)
qed

definition channel_sample :: "string \<Rightarrow> rule_node" where
  "channel_sample ch =
     \<lparr>rulepath = ''r.yml'', rule_yaml = YHash [(YString ''detection'', YHash [(YString ''selection'',
        YHash [(YString ''Channel'', YString ch)])])],
      detection = detection_new, countdata = [], correlation = NoCorrelation\<rparr>"

definition first_sample :: "string \<Rightarrow> first_record" where
  "first_sample path =
     FirstRecord (JObject [(''Event'', JObject [(''System'', JObject [(''Channel'', JString ''Security'')])])])"

definition filters_on :: scan_options where
  "filters_on = \<lparr>json_input_flag = False, scan_all_evtx_files = False, enable_all_rules = False\<rparr>"

lemma channel_sample_yaml [simp]:
  "string_keys (rule_yaml (channel_sample ch))"
  "rule_names (channel_sample ch) c \<longleftrightarrow> names_channel ch c"
  "file_channel first_sample p = Some ''Security''"
  by (simp_all add: channel_sample_def string_keys.simps rule_names_def channel_strings.simps file_channel_def
      first_sample_def record_channel_def json_index_def trim_matches_def)

theorem scan_filter_keeps_witness:
  "\<exists>log'. filter_scan first_sample filters_on True [''a.evtx''] [channel_sample ''Sec*''] [] =
     Some ([''a.evtx''], [channel_sample ''Sec*''], log')"
  using scan_filter_keeps [of "[channel_sample ''Sec*'']" filters_on first_sample True "[''a.evtx'']" "[]"]
  by (simp add: filters_on_def names_channel_def trim_matches_def starts_with_def)

text \<open>
  The channel filter distinguishes case and the rules do not. A rule for the channel
  \<open>security\<close> matches events of the channel \<open>Security\<close>, but the filter drops the rule and the
  file of those events before the scan.
\<close>

theorem channel_filter_case:
  "filter_scan first_sample filters_on True [''a.evtx''] [channel_sample ''security''] [] = Some ([], [], []) \<and>
   (\<exists>m. default_init env0 [''Channel''] (YString ''security'') = Ok (DefaultMatcher m) \<and>
      default_is_match env0 m (Some ''Security'') blank_record = Some True)"
proof
  show "filter_scan first_sample filters_on True [''a.evtx''] [channel_sample ''security''] [] = Some ([], [], [])"
    by (simp add: filter_scan_def filters_on_def create_channel_filter_def first_sample_def push_def record_channel_def
        json_index_def trim_matches_def channel_sample_def visit_value.simps named_channels_def scanable_rule_exists_def
        yindex_def hash_get_def)
  let ?m = "\<lparr>re = None, fast = Some [FExact ''security''], pipes = [], key_list = [''Channel'']\<rparr>"
  have "default_init env0 [''Channel''] (YString ''security'') = Ok (DefaultMatcher ?m)" by code_simp
  moreover have "default_is_match env0 ?m (Some ''Security'') blank_record = Some True" by code_simp
  ultimately show "\<exists>m. default_init env0 [''Channel''] (YString ''security'') = Ok (DefaultMatcher m) \<and>
      default_is_match env0 m (Some ''Security'') blank_record = Some True" by blast
qed

text \<open>
  Either option to widen a scan switches off both filters, although the help of each speaks of one.
\<close>

lemma scan_options_disable_both:
  "scan_all_evtx_files opt \<or> enable_all_rules opt \<Longrightarrow>
     filter_scan FR opt quiet evtx_files rules log = Some (evtx_files, rules, log)"
  by (auto simp: filter_scan_def)

end
