(* ===== verification/Afterfact.thy ===== *)
theory Afterfact
  imports Rule_Types Levels "HOL-Library.List_Lexorder" "HOL-Library.Char_ord" "HOL-Library.Multiset"
begin

section \<open>Sorting, de-duplication and statistics of the detections (afterfact.rs)\<close>

text \<open>
  What happens to the detections after a scan, up to their output: the order, the indices that are
  left out as duplicates, and the counters of the summary. A point in time is its nanoseconds, the
  texts of times and dates are parameters.
\<close>

text \<open>U+1F6C2, which stands for a backslash in front of r, n and t.\<close>

definition passport :: string where "passport = [CHR 0xF0, CHR 0x9F, CHR 0x9B, CHR 0x82]"

subsection \<open>Data\<close>

datatype profile =
    PTimestamp string | PComputer string | PChannel string | PLevel string | PEventID string
  | PRecordID string | PRuleTitle string | PAllFieldInfo string | PRuleFile string | PEvtxFile string
  | PMitreTactics string | PMitreTags string | POtherTags string | PRuleAuthor string
  | PRuleCreationDate string | PRuleModifiedDate string | PStatus string | PRuleID string
  | PProvider string | PDetails string | PRenderedMessage string | PSrcASN string | PSrcCountry string
  | PSrcCity string | PTgtASN string | PTgtCountry string | PTgtCity string | PExtraFieldInfo string
  | PRecoveredRecord string | PLiteral string

fun to_value :: "profile \<Rightarrow> string" where
  "to_value (PTimestamp v) = v" | "to_value (PComputer v) = v" | "to_value (PChannel v) = v"
| "to_value (PLevel v) = v" | "to_value (PEventID v) = v" | "to_value (PRecordID v) = v"
| "to_value (PRuleTitle v) = v" | "to_value (PAllFieldInfo v) = v" | "to_value (PRuleFile v) = v"
| "to_value (PEvtxFile v) = v" | "to_value (PMitreTactics v) = v" | "to_value (PMitreTags v) = v"
| "to_value (POtherTags v) = v" | "to_value (PRuleAuthor v) = v" | "to_value (PRuleCreationDate v) = v"
| "to_value (PRuleModifiedDate v) = v" | "to_value (PStatus v) = v" | "to_value (PRuleID v) = v"
| "to_value (PProvider v) = v" | "to_value (PDetails v) = v" | "to_value (PRenderedMessage v) = v"
| "to_value (PSrcASN v) = v" | "to_value (PSrcCountry v) = v" | "to_value (PSrcCity v) = v"
| "to_value (PTgtASN v) = v" | "to_value (PTgtCountry v) = v" | "to_value (PTgtCity v) = v"
| "to_value (PExtraFieldInfo v) = v" | "to_value (PRecoveredRecord v) = v" | "to_value (PLiteral v) = v"

record detection_info =
  detected_time :: int
  di_rulepath :: string
  di_ruleid :: string
  di_ruletitle :: string
  di_ruleauthor :: string
  di_level :: level
  di_computername :: string
  di_rec_id :: string
  di_eventid :: string
  di_detail :: string
  ext_field :: "(string \<times> profile) list"
  di_agg_result :: "agg_result option"
  details_convert_map :: "(string \<times> string list) list"

subsection \<open>The order of the output\<close>

datatype ordering = Less | Equal | Greater

definition compare :: "'a::linorder \<Rightarrow> 'a \<Rightarrow> ordering" where
  "compare a b = (if a < b then Less else if a = b then Equal else Greater)"

definition detect_cmp :: "detection_info \<Rightarrow> detection_info \<Rightarrow> ordering" where
  "detect_cmp a b =
     (let cmp_time = compare (detected_time a) (detected_time b) in
      if cmp_time \<noteq> Equal then cmp_time
      else
        (let level_cmp = compare (level_index (di_level a)) (level_index (di_level b)) in
         if level_cmp \<noteq> Equal then level_cmp
         else
           (let event_id_cmp = compare (di_eventid a) (di_eventid b) in
            if event_id_cmp \<noteq> Equal then event_id_cmp
            else
              (let rulepath_cmp = compare (di_rulepath a) (di_rulepath b) in
               if rulepath_cmp \<noteq> Equal then rulepath_cmp
               else
                 (let computer_cmp = compare (di_computername a) (di_computername b) in
                  if computer_cmp \<noteq> Equal then computer_cmp
                  else compare (di_rec_id a) (di_rec_id b))))))"

text \<open>
  \<open>sort_unstable_by\<close> puts the slice in ascending order; the order of elements that compare as equal
  is not determined, so the sort is a relation between the slice before and after.
\<close>

definition sort_detect_info :: "detection_info list \<Rightarrow> detection_info list \<Rightarrow> bool" where
  "sort_detect_info xs ys \<longleftrightarrow> mset ys = mset xs \<and> sorted_wrt (\<lambda>a b. detect_cmp a b \<noteq> Greater) ys"

subsection \<open>Duplicates\<close>

fun is_evtx_file :: "profile \<Rightarrow> bool" where
  "is_evtx_file (PEvtxFile _) = True"
| "is_evtx_file _ = False"

definition dup_fields :: "detection_info \<Rightarrow> (string \<times> profile) list" where
  "dup_fields d = filter (\<lambda>(_, p). \<not> is_evtx_file p) (ext_field d)"

text \<open>The loop from index one on: the detection before, and the fields seen at its time.\<close>

fun duplicate_loop ::
  "nat \<Rightarrow> detection_info \<Rightarrow> (string \<times> profile) list list \<Rightarrow> detection_info list \<Rightarrow> nat list" where
  "duplicate_loop i prev seen [] = []"
| "duplicate_loop i prev seen (d # ds) =
     (if detected_time prev \<noteq> detected_time d then duplicate_loop (i + 1) d [] ds
      else if dup_fields d \<in> set seen then i # duplicate_loop (i + 1) d seen ds
      else duplicate_loop (i + 1) d (dup_fields d # seen) ds)"

definition get_duplicate_idxes :: "detection_info list \<Rightarrow> nat list" where
  "get_duplicate_idxes ds = (case ds of [] \<Rightarrow> [] | d # ds' \<Rightarrow> duplicate_loop 1 d [] ds')"

subsection \<open>Statistics\<close>

type_synonym level_counts = "(level \<times> counter) list"

record afterfact_info =
  timestamps :: "int list"
  detected_record_idset :: "string list"
  total_detect_counts_by_level :: "nat list"
  unique_detect_counts_by_level :: "nat list"
  detect_counts_by_date_and_level :: level_counts
  detect_counts_by_computer_and_level :: level_counts
  detect_counts_by_rule_and_level :: level_counts
  detect_rule_authors :: "(string \<times> string) list"
  rule_title_path_map :: "(string \<times> string) list"
  rule_author_counter :: counter
  detected_rule_files :: "string list"
  detected_rule_ids :: "string list"
  detected_computer_and_rule_names :: "string list"

definition all_levels :: "level list" where
  "all_levels = [UNDEFINED, INFORMATIONAL, LOW, MEDIUM, HIGH, CRITICAL, EMERGENCY]"

definition afterfact_default :: afterfact_info where
  "afterfact_default =
     \<lparr>timestamps = [], detected_record_idset = [], total_detect_counts_by_level = replicate 7 0,
      unique_detect_counts_by_level = replicate 7 0,
      detect_counts_by_date_and_level = map (\<lambda>l. (l, [])) all_levels,
      detect_counts_by_computer_and_level = map (\<lambda>l. (l, [])) all_levels,
      detect_counts_by_rule_and_level = map (\<lambda>l. (l, [])) all_levels,
      detect_rule_authors = [], rule_title_path_map = [], rule_author_counter = [],
      detected_rule_files = [], detected_rule_ids = [], detected_computer_and_rule_names = []\<rparr>"

text \<open>A level without an entry takes the counts of the undefined level; \<open>None\<close> is the panic without that.\<close>

definition countup_aggregation :: "level \<Rightarrow> string \<Rightarrow> level_counts \<Rightarrow> level_counts option" where
  "countup_aggregation lv entry_key count_map =
     map_option (\<lambda>counts. assoc_insert lv (bump entry_key counts) count_map)
       (case map_of count_map lv of Some c \<Rightarrow> Some c | None \<Rightarrow> map_of count_map UNDEFINED)"

text \<open>\<open>v[i] += 1\<close> panics out of the bounds.\<close>

definition inc_at :: "nat \<Rightarrow> nat list \<Rightarrow> nat list option" where
  "inc_at i xs = (if i < length xs then Some (xs[i := xs ! i + 1]) else None)"

text \<open>The names of the authors: cut at commas, parentheses and semicolons, without slashes and quotes.\<close>

definition extract_author_name :: "string \<Rightarrow> string list" where
  "extract_author_name author =
     map (\<lambda>r. concat (map (\<lambda>p. filter (\<lambda>c. c \<noteq> CHR 0x22 \<and> c \<noteq> CHR 0x27) (trim p)) (split_char (CHR ''/'') r)))
       (concat (map (\<lambda>s. split_char (CHR '';'') (hd (split_char (CHR ''('') s))) (split_char (CHR '','') author)))"

text \<open>How the times are written is given by \<open>chrono\<close> and the options of the output.\<close>

record time_texts =
  show_time :: "int \<Rightarrow> string"
  show_date :: "int \<Rightarrow> string"

definition record_ids :: "time_texts \<Rightarrow> detection_info \<Rightarrow> string list" where
  "record_ids T d =
     (case di_agg_result d of
        None \<Rightarrow> [show_time T (detected_time d) @ ''_'' @ di_eventid d]
      | Some agg \<Rightarrow> map (\<lambda>a. show_time T (rec_time a) @ ''_'' @ rec_event_id a) (agg_record_time_info agg))"

definition count_authors :: "detection_info \<Rightarrow> afterfact_info \<Rightarrow> afterfact_info" where
  "count_authors d st =
     (let author_list = extract_author_name (di_ruleauthor d);
          author_str = join '', '' author_list;
          st1 = st\<lparr>detect_rule_authors := assoc_insert (di_rulepath d) author_str (detect_rule_authors st)\<rparr>
      in if author_str \<noteq> ''-'' \<and> di_rulepath d \<notin> set (detected_rule_files st1)
         then st1\<lparr>detected_rule_files := di_rulepath d # detected_rule_files st1,
                  rule_author_counter := fold bump author_list (rule_author_counter st1)\<rparr>
         else st1)"

definition count_unique_rule :: "detection_info \<Rightarrow> afterfact_info \<Rightarrow> afterfact_info option" where
  "count_unique_rule d st =
     (if di_ruleid d \<in> set (detected_rule_ids st) then Some st
      else map_option (\<lambda>u. st\<lparr>detected_rule_ids := di_ruleid d # detected_rule_ids st,
                             unique_detect_counts_by_level := u\<rparr>)
             (inc_at (level_index (di_level d)) (unique_detect_counts_by_level st)))"

definition computer_names :: "detection_info \<Rightarrow> string list" where
  "computer_names d =
     (case di_agg_result d of
        None \<Rightarrow> [di_computername d]
      | Some agg \<Rightarrow> sort (remdups (map rec_computer (agg_record_time_info agg))))"

fun count_computers :: "detection_info \<Rightarrow> string list \<Rightarrow> afterfact_info \<Rightarrow> afterfact_info option" where
  "count_computers d [] st = Some st"
| "count_computers d (computer # computers) st =
     (let check_key = computer @ ''|'' @ di_rulepath d in
      if check_key \<in> set (detected_computer_and_rule_names st) then count_computers d computers st
      else Option.bind (countup_aggregation (di_level d) computer (detect_counts_by_computer_and_level st)) (\<lambda>m.
             count_computers d computers
               (st\<lparr>detected_computer_and_rule_names := check_key # detected_computer_and_rule_names st,
                   detect_counts_by_computer_and_level := m\<rparr>)))"

definition count_detection :: "time_texts \<Rightarrow> detection_info \<Rightarrow> afterfact_info \<Rightarrow> afterfact_info option" where
  "count_detection T d st =
     Option.bind (count_unique_rule d (count_authors d st)) (\<lambda>st1.
     Option.bind (count_computers d (computer_names d) st1) (\<lambda>st2.
     Option.bind (countup_aggregation (di_level d) (show_date T (detected_time d)) (detect_counts_by_date_and_level st2)) (\<lambda>by_date.
     Option.bind (countup_aggregation (di_level d) (di_ruletitle d) (detect_counts_by_rule_and_level st2)) (\<lambda>by_rule.
     map_option (\<lambda>total.
         st2\<lparr>rule_title_path_map := assoc_insert (di_ruletitle d) (di_rulepath d) (rule_title_path_map st2),
             detect_counts_by_date_and_level := by_date,
             detect_counts_by_rule_and_level := by_rule,
             total_detect_counts_by_level := total\<rparr>)
       (inc_at (level_index (di_level d)) (total_detect_counts_by_level st2))))))"

definition calc_one :: "time_texts \<Rightarrow> bool \<Rightarrow> detection_info \<Rightarrow> afterfact_info \<Rightarrow> afterfact_info option" where
  "calc_one T no_summary d st =
     (let st1 = st\<lparr>timestamps := timestamps st @ [detected_time d div 10 ^ 9],
                   detected_record_idset := fold List.insert (record_ids T d) (detected_record_idset st)\<rparr>
      in if no_summary then Some st1 else count_detection T d st1)"

fun calc_loop ::
  "time_texts \<Rightarrow> bool \<Rightarrow> nat list \<Rightarrow> nat \<Rightarrow> detection_info list \<Rightarrow> afterfact_info \<Rightarrow> afterfact_info option" where
  "calc_loop T no_summary dups i [] st = Some st"
| "calc_loop T no_summary dups i (d # ds) st =
     (if i \<in> set dups then calc_loop T no_summary dups (i + 1) ds st
      else Option.bind (calc_one T no_summary d st) (calc_loop T no_summary dups (i + 1) ds))"

definition calc_statistic_info ::
  "time_texts \<Rightarrow> bool \<Rightarrow> detection_info list \<Rightarrow> nat list \<Rightarrow> afterfact_info \<Rightarrow> afterfact_info option" where
  "calc_statistic_info T no_summary ds dups st = calc_loop T no_summary dups 0 ds st"

text \<open>The detections that are written, in their order: those whose index is none of the duplicates.\<close>

definition emitted_infos :: "detection_info list \<Rightarrow> nat list \<Rightarrow> detection_info list" where
  "emitted_infos ds dups = map snd (filter (\<lambda>(i, d). i \<notin> set dups) (enumerate 0 ds))"

end
