(* ===== verification/Json_Output.thy ===== *)
theory Json_Output
  imports Afterfact
begin

section \<open>The JSON output (afterfact.rs)\<close>

text \<open>
  The text of one detection in the JSON and JSONL formats. The program writes the JSON by hand: the
  fields of the profile one by one, the details as an object of their own.
\<close>

subsection \<open>Texts\<close>

definition quote :: string where "quote = [CHR 0x22]"

definition newline :: string where "newline = [CHR 0x0A]"

text \<open>The broken bar U+00A6.\<close>

definition broken_bar :: string where "broken_bar = [CHR 0xC2, CHR 0xA6]"

definition hex_digit :: "nat \<Rightarrow> char" where
  "hex_digit n = char_of (if n < 10 then 48 + n else 55 + n)"

text \<open>\<open>CONTROL_CHAT_REPLACE_MAP\<close> on one byte: control characters but for the line feed.\<close>

definition control_replace :: "char \<Rightarrow> string" where
  "control_replace c =
     (if byte c < 32 \<and> c \<noteq> CHR 0x0A
      then [CHR 0x5C, CHR ''u'', CHR ''0'', CHR ''0'', hex_digit (byte c div 16), hex_digit (byte c mod 16)]
      else [c])"

definition escape_controls :: "string \<Rightarrow> string" where
  "escape_controls s = concat (map control_replace s)"

definition create_json_output_format :: "string \<Rightarrow> string \<Rightarrow> bool \<Rightarrow> bool \<Rightarrow> nat \<Rightarrow> string" where
  "create_json_output_format key value key_quote_exclude_flag concat_flag space_cnt =
     (let head = (if key_quote_exclude_flag then escape_controls key else escape_controls (quote @ key @ quote));
          spaces = replicate space_cnt (CHR '' '')
      in case parse_i64 value of
           Some i \<Rightarrow> spaces @ head @ '': '' @ show_int i
         | None \<Rightarrow>
             if value = ''true'' \<or> value = ''false'' then spaces @ head @ '': '' @ value
             else if concat_flag then spaces @ head @ '': '' @ escape_controls value
             else spaces @ head @ '': '' @ quote @ escape_controls value @ quote)"

text \<open>The callers pass at least one text; slicing an empty vector would panic.\<close>

definition escape_json :: "string \<Rightarrow> string" where
  "escape_json s =
     replace_all quote [CHR 0x5C, CHR 0x22] (replace_all [CHR 0x5C] [CHR 0x5C, CHR 0x5C] (replace_all passport [CHR 0x5C] s))"

definition convert_valid_json_str :: "string list \<Rightarrow> bool \<Rightarrow> string" where
  "convert_valid_json_str input concat_flag =
     (let con_cal = (if length input = 1 then hd input
                     else if concat_flag then join '': '' input
                     else join '': '' (tl input))
      in if con_cal = [] then con_cal
         else if starts_with con_cal quote
         then escape_json con_cal @
           (if \<not> ends_with con_cal quote \<and> concat_flag then quote
            else if \<not> ends_with con_cal quote then [CHR 0x5C, CHR 0x22]
            else [])
         else escape_json con_cal)"

definition details_vec :: "string \<Rightarrow> string list" where
  "details_vec s =
     (let ret = split_str bar_sep [] s in if s = hd ret \<and> \<not> contains_str s '': '' then [] else ret)"

fun get_json_vec :: "profile \<Rightarrow> string \<Rightarrow> string list" where
  "get_json_vec (PMitreTactics _) s = split_str '': '' [] s"
| "get_json_vec (PMitreTags _) s = split_str '': '' [] s"
| "get_json_vec (POtherTags _) s = split_str '': '' [] s"
| "get_json_vec (PDetails _) s = details_vec s"
| "get_json_vec (PAllFieldInfo _) s = details_vec s"
| "get_json_vec (PExtraFieldInfo _) s = details_vec s"
| "get_json_vec _ s = []"

subsection \<open>The details\<close>

text \<open>
  \<open>process_target_stock\<close>: the values of each key, in the order in which the keys first appear. A
  content without a colon has an empty key and an empty value.
\<close>

definition add_child :: "string \<times> string \<Rightarrow> (string \<times> string list) list \<Rightarrow> (string \<times> string list) list" where
  "add_child c m = assoc_insert (fst c) (unwrap_or [] (map_of m (fst c)) @ [snd c]) m"

definition child_of :: "string \<Rightarrow> string \<times> string" where
  "child_of contents =
     (case unwrap_or ([], []) (split_once (CHR '':'') contents) of
        (key, value) \<Rightarrow> (convert_valid_json_str [trim key] False, convert_valid_json_str [trim value] False))"

definition process_target_stock :: "string list \<Rightarrow> (string \<times> string list) list" where
  "process_target_stock stock = fold add_child (map child_of stock) []"

fun details_key :: "profile \<Rightarrow> string" where
  "details_key (PDetails _) = ''Details''"
| "details_key (PAllFieldInfo _) = ''AllFieldInfo''"
| "details_key (PExtraFieldInfo _) = ''ExtraFieldInfo''"
| "details_key _ = []"

fun is_extra :: "profile \<Rightarrow> bool" where
  "is_extra (PExtraFieldInfo _) = True"
| "is_extra _ = False"

fun is_field_info :: "profile \<Rightarrow> bool" where
  "is_field_info (PAllFieldInfo _) = True"
| "is_field_info (PExtraFieldInfo _) = True"
| "is_field_info _ = False"

fun is_details :: "profile \<Rightarrow> bool" where
  "is_details (PDetails _) = True"
| "is_details _ = False"

definition empty_object :: "string \<Rightarrow> string" where
  "empty_object key = ''    '' @ quote @ key @ quote @ '': {}''"

definition child_value :: "string list \<Rightarrow> string" where
  "child_value vs =
     (if length vs = 1 then hd vs else ''['' @ join '', '' (map (\<lambda>x. quote @ x @ quote) vs) @ '']'')"

definition child_line :: "string \<times> string list \<Rightarrow> string" where
  "child_line c =
     (let fmted = child_value (snd c) in
      create_json_output_format (fst c) fmted (starts_with (fst c) quote)
        (starts_with fmted quote \<or> length (snd c) \<noteq> 1) 8)"

text \<open>A comma after every line, but for the last one unless something follows.\<close>

fun with_commas :: "bool \<Rightarrow> string list \<Rightarrow> string list" where
  "with_commas follow [] = []"
| "with_commas follow [l] = [l @ (if follow then '','' else [])]"
| "with_commas follow (l # ls) = (l @ '','') # with_commas follow ls"

definition geo_keys :: "string list" where
  "geo_keys = [''SrcASN'', ''SrcCountry'', ''SrcCity'', ''TgtASN'', ''TgtCountry'', ''TgtCity'']"

definition valid_geo_keys :: "(string \<rightharpoonup> profile) \<Rightarrow> string list" where
  "valid_geo_keys ext_field_map =
     filter (\<lambda>k. case ext_field_map k of None \<Rightarrow> False | Some p \<Rightarrow> to_value p \<noteq> ''-'') geo_keys"

definition geo_line :: "(string \<rightharpoonup> profile) \<Rightarrow> string \<Rightarrow> string" where
  "geo_line ext_field_map target_key =
     (let v = (case ext_field_map target_key of None \<Rightarrow> [] | Some p \<Rightarrow> to_value p) in
      create_json_output_format target_key v (starts_with target_key quote) (starts_with v quote) 8)"

definition details_object ::
  "detection_info \<Rightarrow> bool \<Rightarrow> bool \<Rightarrow> (string \<rightharpoonup> profile) \<Rightarrow> string \<Rightarrow> profile \<Rightarrow> string list" where
  "details_object d jsonl geo ext_field_map key p =
     (case map_of (details_convert_map d) (''#'' @ details_key p) of
        None \<Rightarrow> []
      | Some stock \<Rightarrow>
          (if stock = [] \<or> (di_agg_result d \<noteq> None \<and> hd stock = ''-'') then [empty_object key]
           else
             (let children = process_target_stock
                    (if di_agg_result d \<noteq> None then split_str bar_sep [] (hd stock) else stock);
                  with_geo = (geo \<and> \<not> is_extra p);
                  valid = valid_geo_keys ext_field_map;
                  out = [''    '' @ quote @ key @ quote @ '': {''] @
                        with_commas (with_geo \<and> valid \<noteq> []) (map child_line children) @
                        (if with_geo then with_commas False (map (geo_line ext_field_map) valid) else []) @
                        [''    }'']
              in [join (if jsonl then [] else newline) out])))"

subsection \<open>Tags\<close>

definition tag_text :: "string \<Rightarrow> string" where
  "tag_text tag_val =
     ''        '' @ quote @ join (quote @ '', '' @ quote) (map trim (split_str broken_bar [] tag_val)) @ quote"

definition tags_field :: "bool \<Rightarrow> string \<Rightarrow> string \<Rightarrow> string list" where
  "tags_field jsonl key0 val =
     (let key = convert_valid_json_str [key0] False;
          values = filter (\<lambda>x. trim x \<noteq> []) (split_str '': '' [] val)
      in if values = [] then []
         else
           (let value = ''['' @ newline @ join ('','' @ newline) (map tag_text values) @ newline @ ''    ]'';
                fmted = (if jsonl then replace_all newline [] value else value)
            in [create_json_output_format key (trim fmted) (starts_with key quote) True 4]))"

subsection \<open>One detection\<close>

text \<open>What a field repeats from the detection before becomes \<open>DUP\<close>.\<close>

fun mark_repeated ::
  "detection_info \<Rightarrow> (string \<times> profile) list \<Rightarrow> (string \<times> string list) list \<Rightarrow> (string \<times> profile) list \<Rightarrow>
   (string \<times> profile) list \<Rightarrow> (string \<times> profile) list \<times> (string \<times> profile) list" where
  "mark_repeated d prev_message prev_details [] next = ([], next)"
| "mark_repeated d prev_message prev_details ((fname, p) # fs) next =
     (if details_key p \<noteq> [] then
        (let now = unwrap_or [] (map_of (details_convert_map d) (''#'' @ details_key p));
             prev = unwrap_or [] (map_of prev_details (''#'' @ details_key p));
             dup_flag = (to_value p \<noteq> [] \<and>
                 (case map_of prev_message fname of None \<Rightarrow> [] | Some q \<Rightarrow> to_value q) = to_value p) \<or>
               (now \<noteq> [] \<and> prev \<noteq> [] \<and> now = prev)
         in if dup_flag
            then (case mark_repeated d prev_message prev_details fs next of (out, next') \<Rightarrow>
                    ((fname, PLiteral ''DUP'') # out, next'))
            else (case mark_repeated d prev_message prev_details fs (assoc_insert fname p next) of
                    (out, next') \<Rightarrow> ((fname, p) # out, next')))
      else (case mark_repeated d prev_message prev_details fs next of (out, next') \<Rightarrow>
              ((fname, p) # out, next')))"

text \<open>One field of the object; a field without a text adds nothing.\<close>

definition json_field ::
  "detection_info \<Rightarrow> bool \<Rightarrow> bool \<Rightarrow> (string \<rightharpoonup> profile) \<Rightarrow> string \<times> profile \<Rightarrow> string list" where
  "json_field d jsonl geo ext_field_map f =
     (case f of (key, p) \<Rightarrow>
        let val = to_value p in
        if \<not> is_field_info p \<and> val = [] then []
        else if key \<notin> set geo_keys \<and> \<not> is_field_info p \<and> get_json_vec p val = [] then
          (if is_details p \<and> val = ''-'' then [empty_object key]
           else (let output_val = convert_valid_json_str (split_str '': '' [] val) False in
                 [create_json_output_format key (trim output_val) (starts_with key quote)
                    (starts_with output_val quote) 4]))
        else
          (case p of
             PRecoveredRecord data \<Rightarrow>
               [create_json_output_format ''RecoveredRecord'' data False (starts_with data quote) 4]
           | PDetails _ \<Rightarrow> details_object d jsonl geo ext_field_map key p
           | PAllFieldInfo _ \<Rightarrow> details_object d jsonl geo ext_field_map key p
           | PExtraFieldInfo _ \<Rightarrow> details_object d jsonl geo ext_field_map key p
           | PMitreTags _ \<Rightarrow> tags_field jsonl key val
           | PMitreTactics _ \<Rightarrow> tags_field jsonl key val
           | POtherTags _ \<Rightarrow> tags_field jsonl key val
           | _ \<Rightarrow> []))"

definition output_json_str ::
  "detection_info \<Rightarrow> (string \<times> profile) list \<Rightarrow> (string \<times> string list) list \<Rightarrow> bool \<Rightarrow> bool \<Rightarrow> bool \<Rightarrow>
   string \<times> (string \<times> profile) list" where
  "output_json_str d prev_message prev_details jsonl geo remove_duplicate =
     (case (if remove_duplicate then mark_repeated d prev_message prev_details (ext_field d) prev_message
            else (ext_field d, prev_message)) of
        (fs, next_prev_message) \<Rightarrow>
          let target = concat (map (json_field d jsonl geo (map_of (rev (ext_field d)))) fs) in
          (if jsonl then join '','' (map (replace_all ''  '' []) target)
           else join ('','' @ newline) target, next_prev_message))"

end
