(* ===== verification/Afterfact_Facts.thy ===== *)
theory Afterfact_Facts
  imports Afterfact "HOL-Library.Product_Lexorder"
begin

section \<open>What the output keeps and counts\<close>

text \<open>
  The order of the output is determined up to the detections it does not tell apart, the removal of
  duplicates loses nothing, and the counters of the summary agree with each other and with the
  detections that are written.
\<close>

subsection \<open>Order\<close>

definition detect_key :: "detection_info \<Rightarrow> int \<times> nat \<times> string \<times> string \<times> string \<times> string" where
  "detect_key d =
     (detected_time d, level_index (di_level d), di_eventid d, di_rulepath d, di_computername d, di_rec_id d)"

lemma detect_cmp_key: "detect_cmp a b = compare (detect_key a) (detect_key b)"
  by (auto simp: detect_cmp_def detect_key_def compare_def Let_def)

lemma compare_Greater: "compare a b \<noteq> Greater \<longleftrightarrow> a \<le> b"
  by (auto simp: compare_def)

lemma sort_detect_info_iff:
  "sort_detect_info xs ys \<longleftrightarrow> mset ys = mset xs \<and> sorted (map detect_key ys)"
  by (simp add: sort_detect_info_def detect_cmp_key compare_Greater sorted_map)

text \<open>
  The order of the detections is determined. The comparison of two detections is a total
  preorder, so that every slice can be sorted; and whatever the unstable sort does with equal ones,
  the result is a permutation, ascending in time, and the sequence of times, levels, event ids, rule
  paths, computers and record ids is always the same.
\<close>

theorem detections_sorted:
  "(\<exists>ys. sort_detect_info xs ys) \<and>
   (\<forall>ys zs. sort_detect_info xs ys \<longrightarrow>
      mset ys = mset xs \<and> sorted (map detected_time ys) \<and>
      (sort_detect_info xs zs \<longrightarrow> map detect_key zs = map detect_key ys))"
proof (intro conjI allI impI)
  have "sort_detect_info xs (sort_key detect_key xs)"
    by (simp add: sort_detect_info_iff)
  then show "\<exists>ys. sort_detect_info xs ys" by blast
next
  fix ys assume ys: "sort_detect_info xs ys"
  then show "mset ys = mset xs" by (simp add: sort_detect_info_iff)
  have "a \<le> b \<Longrightarrow> fst a \<le> fst b" for a b :: "int \<times> nat \<times> string \<times> string \<times> string \<times> string"
    by (auto simp: less_eq_prod_def)
  then have "sorted (map fst ks)" if "sorted ks" for ks :: "(int \<times> nat \<times> string \<times> string \<times> string \<times> string) list"
    using that by (induction ks) auto
  then show "sorted (map detected_time ys)"
    using ys by (fastforce simp: sort_detect_info_iff detect_key_def comp_def)
next
  fix ys zs assume "sort_detect_info xs ys" "sort_detect_info xs zs"
  then have "sorted (map detect_key ys)" "sorted (map detect_key zs)" "mset (map detect_key zs) = mset (map detect_key ys)"
    by (simp_all add: sort_detect_info_iff)
  then show "map detect_key zs = map detect_key ys"
    by (metis properties_for_sort)
qed


definition sample_info :: "int \<Rightarrow> string \<Rightarrow> detection_info" where
  "sample_info t ch =
     \<lparr>detected_time = t, di_rulepath = ''r.yml'', di_ruleid = ''i'', di_ruletitle = ''t'', di_ruleauthor = ''a'',
      di_level = HIGH, di_computername = ''pc'', di_rec_id = ''1'', di_eventid = ''4624'', di_detail = [],
      ext_field = [(''Channel'', PChannel ch), (''EvtxFile'', PEvtxFile ''x.evtx'')], di_agg_result = None,
      details_convert_map = []\<rparr>"

theorem detections_sorted_witness:
  "sorted (map detected_time [sample_info 1 ''b'', sample_info 2 ''a'']) \<and>
   mset [sample_info 1 ''b'', sample_info 2 ''a''] = mset [sample_info 2 ''a'', sample_info 1 ''b'']"
proof -
  have "sort_detect_info [sample_info 2 ''a'', sample_info 1 ''b''] [sample_info 1 ''b'', sample_info 2 ''a'']"
    by (simp add: sort_detect_info_iff detect_key_def sample_info_def add_mset_commute)
  then show ?thesis
    using detections_sorted [of "[sample_info 2 ''a'', sample_info 1 ''b'']"] by blast
qed

subsection \<open>Duplicates\<close>

lemma duplicate_loop_bounds:
  "k \<in> set (duplicate_loop i prev seen ds) \<Longrightarrow> i \<le> k \<and> k < i + length ds"
  by (induction i prev seen ds rule: duplicate_loop.induct) (auto split: if_splits)

definition same_detection :: "detection_info \<Rightarrow> detection_info \<Rightarrow> bool" where
  "same_detection a b \<longleftrightarrow> detected_time a = detected_time b \<and> dup_fields a = dup_fields b"

text \<open>Every index found has an earlier one that is kept; \<open>D\<close> are the indices found before.\<close>

lemma duplicate_loop_sound:
  assumes "ds = pre @ rest" and "length pre = i" and "i > 0" and "ds ! (i - 1) = prev"
    and "D \<subseteq> {..<i}"
    and "\<forall>f \<in> set seen. \<exists>j < i. j \<notin> D \<and> detected_time (ds ! j) = detected_time prev \<and> dup_fields (ds ! j) = f"
    and "k \<in> set (duplicate_loop i prev seen rest)"
  shows "\<exists>j < k. j \<notin> D \<union> set (duplicate_loop i prev seen rest) \<and> same_detection (ds ! j) (ds ! k)"
  using assms
proof (induction i prev seen rest arbitrary: pre D rule: duplicate_loop.induct)
  case (2 i prev seen d rest)
  have d: "ds ! i = d" using 2(4,5) by (simp add: nth_append)
  have pre: "ds = (pre @ [d]) @ rest" "length (pre @ [d]) = i + 1" using 2(4,5) by simp_all
  note bounds = duplicate_loop_bounds [of _ "i + 1" d _ rest]
  consider (new) "detected_time prev \<noteq> detected_time d"
    | (dup) "detected_time prev = detected_time d" "dup_fields d \<in> set seen"
    | (first) "detected_time prev = detected_time d" "dup_fields d \<notin> set seen" by blast
  then show ?case
  proof cases
    case new
    have "D \<subseteq> {..<i + 1}" using 2(8) by auto
    with 2(1) [OF new pre, of D] d new 2(10) show ?thesis by simp
  next
    case dup
    let ?D = "insert i D"
    have inv: "\<forall>f \<in> set seen. \<exists>j < i + 1. j \<notin> ?D \<and> detected_time (ds ! j) = detected_time d \<and> dup_fields (ds ! j) = f"
      using 2(9) dup(1) by (metis insert_iff less_add_one less_irrefl less_trans)
    show ?thesis
    proof (cases "k = i")
      case True
      from 2(9) dup obtain j where "j < i" "j \<notin> D" "detected_time (ds ! j) = detected_time prev" "dup_fields (ds ! j) = dup_fields d"
        by blast
      moreover have "j \<notin> set (duplicate_loop (i + 1) d seen rest)" using bounds [of j] \<open>j < i\<close> by force
      ultimately show ?thesis using dup True d by (auto simp: same_detection_def)
    next
      case False
      with 2(10) dup have "k \<in> set (duplicate_loop (i + 1) d seen rest)" by simp
      moreover have "?D \<subseteq> {..<i + 1}" using 2(8) by auto
      ultimately show ?thesis using 2(2) [OF _ _ pre _ _ _ inv] dup d by auto
    qed
  next
    case first
    have inv: "\<forall>f \<in> set (dup_fields d # seen). \<exists>j < i + 1. j \<notin> D \<and>
        detected_time (ds ! j) = detected_time d \<and> dup_fields (ds ! j) = f"
    proof
      fix f assume f: "f \<in> set (dup_fields d # seen)"
      show "\<exists>j < i + 1. j \<notin> D \<and> detected_time (ds ! j) = detected_time d \<and> dup_fields (ds ! j) = f"
      proof (cases "f \<in> set seen")
        case True
        then obtain j where "j < i" "j \<notin> D" "detected_time (ds ! j) = detected_time prev" "dup_fields (ds ! j) = f"
          using 2(9) by blast
        then show ?thesis using first(1) by (auto intro!: exI [of _ j])
      next
        case False
        then show ?thesis using f d 2(8) by (auto intro!: exI [of _ i])
      qed
    qed
    have "k \<in> set (duplicate_loop (i + 1) d (dup_fields d # seen) rest)" using 2(10) first by simp
    moreover have "D \<subseteq> {..<i + 1}" using 2(8) by auto
    ultimately show ?thesis using 2(3) [OF _ _ pre _ _ _ inv] first d by auto
  qed
qed simp

text \<open>
  An index that is kept has no equal before it in its run of equal times, the first of the run
  apart, which the loop never records.
\<close>

lemma duplicate_loop_complete:
  assumes "ds = pre @ rest" and "length pre = i" and "i > 0" and "ds ! (i - 1) = prev"
    and "\<And>j. 0 < j \<Longrightarrow> j < i \<Longrightarrow> (\<forall>m. j - 1 \<le> m \<and> m < i \<longrightarrow> detected_time (ds ! m) = detected_time prev) \<Longrightarrow>
      dup_fields (ds ! j) \<in> set seen"
    and "i \<le> k" and "k < length ds" and "k \<notin> set (duplicate_loop i prev seen rest)"
    and "0 < j" and "j < k" and "\<forall>m. j - 1 \<le> m \<and> m \<le> k \<longrightarrow> detected_time (ds ! m) = detected_time (ds ! k)"
  shows "dup_fields (ds ! j) \<noteq> dup_fields (ds ! k)"
  using assms
proof (induction i prev seen rest arbitrary: pre rule: duplicate_loop.induct)
  case (2 i prev seen d rest)
  have d: "ds ! i = d" using 2(4,5) by (simp add: nth_append)
  have pre: "ds = (pre @ [d]) @ rest" "length (pre @ [d]) = i + 1" using 2(4,5) by simp_all
  have i0: "0 < i + 1" "ds ! (i + 1 - 1) = d" using d by simp_all
  show ?case
  proof (cases "k = i")
    case True
    have "detected_time prev = detected_time d"
      using 2(14) [rule_format, of "i - 1"] 2(7) 2(12,13) True d by simp
    moreover from this have "dup_fields d \<notin> set seen" using 2(11) True by (auto split: if_splits)
    moreover have "dup_fields (ds ! j) \<in> set seen"
      using 2(8) [of j] 2(12,13,14) True calculation(1) d by simp
    ultimately show ?thesis using True d by auto
  next
    case False
    then have k: "i + 1 \<le> k" using 2(9) by simp
    show ?thesis
    proof (cases "detected_time prev = detected_time d")
      case ne: False
      have inv: "dup_fields (ds ! j') \<in> set []"
        if "0 < j'" "j' < i + 1" "\<forall>m. j' - 1 \<le> m \<and> m < i + 1 \<longrightarrow> detected_time (ds ! m) = detected_time d" for j'
      proof -
        have "j' - 1 \<le> i - 1 \<and> i - 1 < i + 1" using that(2) by linarith
        with that(3) have "detected_time (ds ! (i - 1)) = detected_time d" by blast
        then show ?thesis using 2(7) ne by simp
      qed
      have "k \<notin> set (duplicate_loop (i + 1) d [] rest)" using 2(11) ne by simp
      from 2(1) [OF ne pre i0 inv k 2(10) this 2(12,13,14)] show ?thesis .
    next
      case eq: True
      have seen: "dup_fields (ds ! j') \<in> insert (dup_fields d) (set seen)"
        if "0 < j'" "j' < i + 1" "\<forall>m. j' - 1 \<le> m \<and> m < i + 1 \<longrightarrow> detected_time (ds ! m) = detected_time d" for j'
        using that 2(8) [of j'] eq d by (cases "j' = i") auto
      show ?thesis
      proof (cases "dup_fields d \<in> set seen")
        case True
        have "k \<notin> set (duplicate_loop (i + 1) d seen rest)" using 2(11) eq True by simp
        moreover have "insert (dup_fields d) (set seen) = set seen" using True by blast
        note inv = seen [unfolded this]
        from eq have "\<not> detected_time prev \<noteq> detected_time d" by simp
        from 2(2) [OF this True pre i0 inv k 2(10) calculation 2(12,13,14)] show ?thesis .
      next
        case new: False
        have "k \<notin> set (duplicate_loop (i + 1) d (dup_fields d # seen) rest)" using 2(11) eq new by simp
        moreover have inv: "dup_fields (ds ! j') \<in> set (dup_fields d # seen)"
          if "0 < j'" "j' < i + 1" "\<forall>m. j' - 1 \<le> m \<and> m < i + 1 \<longrightarrow> detected_time (ds ! m) = detected_time d" for j'
          using seen [OF that] by simp
        from eq have "\<not> detected_time prev \<noteq> detected_time d" by simp
        from 2(3) [OF this new pre i0 inv k 2(10) calculation 2(12,13,14)] show ?thesis .
      qed
    qed
  qed
qed simp

text \<open>
  C27: Removing duplicates loses no detection. Every index that is left out has an earlier one that is
  written, with the same time and the same fields but for the name of the event file. In a slice
  that is sorted by time, at most two written detections agree in both.
\<close>

theorem duplicates_removed:
  assumes "sorted (map detected_time ds)"
  shows "(\<forall>k \<in> set (get_duplicate_idxes ds). k < length ds \<and>
      (\<exists>j < k. j \<notin> set (get_duplicate_idxes ds) \<and> same_detection (ds ! j) (ds ! k))) \<and>
    (\<forall>i j k. i < j \<and> j < k \<and> k < length ds \<and> same_detection (ds ! i) (ds ! k) \<and> same_detection (ds ! j) (ds ! k) \<longrightarrow>
      k \<in> set (get_duplicate_idxes ds))"
proof (cases ds)
  case (Cons d rest)
  have ds: "ds = [d] @ rest" "length [d] = 1" "(0::nat) < 1" "ds ! (1 - 1) = d" by (simp_all add: Cons)
  have dups: "get_duplicate_idxes ds = duplicate_loop 1 d [] rest" by (simp add: Cons get_duplicate_idxes_def)
  have "k < length ds \<and> (\<exists>j < k. j \<notin> set (get_duplicate_idxes ds) \<and> same_detection (ds ! j) (ds ! k))"
    if "k \<in> set (get_duplicate_idxes ds)" for k
  proof
    show "k < length ds" using duplicate_loop_bounds [of k 1 d "[]" rest] that dups Cons by simp
    show "\<exists>j < k. j \<notin> set (get_duplicate_idxes ds) \<and> same_detection (ds ! j) (ds ! k)"
      using duplicate_loop_sound [OF ds, of "{}" "[]" k] that dups by simp
  qed
  moreover have "k \<in> set (get_duplicate_idxes ds)"
    if ijk: "i < j" "j < k" "k < length ds" "same_detection (ds ! i) (ds ! k)" "same_detection (ds ! j) (ds ! k)"
    for i j k
  proof (rule ccontr)
    assume n: "k \<notin> set (get_duplicate_idxes ds)"
    have "detected_time (ds ! m) = detected_time (ds ! k)" if "j - 1 \<le> m \<and> m \<le> k" for m
    proof -
      have "i \<le> m" "m < length ds" using that ijk(1,3) by linarith+
      then have "detected_time (ds ! i) \<le> detected_time (ds ! m)" "detected_time (ds ! m) \<le> detected_time (ds ! k)"
        using sorted_nth_mono [OF assms, of i m] sorted_nth_mono [OF assms, of m k] that ijk(3) by simp_all
      then show ?thesis using ijk(4) by (simp add: same_detection_def)
    qed
    then have "\<forall>m. j - 1 \<le> m \<and> m \<le> k \<longrightarrow> detected_time (ds ! m) = detected_time (ds ! k)" by blast
    moreover have "1 \<le> k" "0 < j" using ijk(1,2) by simp_all
    moreover have "dup_fields (ds ! j') \<in> set []" if "0 < j'" "j' < 1" for j' using that by simp
    ultimately have "dup_fields (ds ! j) \<noteq> dup_fields (ds ! k)"
      using duplicate_loop_complete [OF ds _ _ ijk(3) n [unfolded dups] _ ijk(2)] by blast
    then show False using ijk(5) by (simp add: same_detection_def)
  qed
  ultimately show ?thesis by blast
qed (simp add: get_duplicate_idxes_def)

theorem duplicates_removed_witness:
  "2 \<in> set (get_duplicate_idxes [sample_info 5 ''a'', sample_info 5 ''a'', sample_info 5 ''a''])"
proof -
  let ?ds = "[sample_info 5 ''a'', sample_info 5 ''a'', sample_info 5 ''a'']"
  have "sorted (map detected_time ?ds)" by simp
  note t = duplicates_removed [OF this, THEN conjunct2, rule_format, of 0 1 2]
  show ?thesis by (rule t) (simp add: same_detection_def)
qed

text \<open>
  A pair of equal detections is not recognised. The loop never records the first detection of
  a time, so two equal detections that follow each other, and no more, are both written.
\<close>

theorem duplicate_pair_kept: "get_duplicate_idxes [d, d] = []"
  by (simp add: get_duplicate_idxes_def)

subsection \<open>Counters\<close>

text \<open>A table by level has an entry for each level, as \<open>default\<close> makes it; the count of one level.\<close>

definition has_levels :: "level_counts \<Rightarrow> bool" where
  "has_levels m \<longleftrightarrow> (\<forall>l. map_of m l \<noteq> None)"

definition level_count :: "level_counts \<Rightarrow> level \<Rightarrow> nat" where
  "level_count m l = counter_total (unwrap_or [] (map_of m l))"

lemma countup_aggregation_count:
  assumes "has_levels m"
  obtains m' where "countup_aggregation lv k m = Some m'" "has_levels m'"
    "level_count m' = (level_count m)(lv := level_count m lv + 1)"
proof -
  obtain c where c: "map_of m lv = Some c" using assms unfolding has_levels_def by blast
  then show ?thesis
    using that [of "assoc_insert lv (bump k c) m"] assms
    by (simp add: countup_aggregation_def has_levels_def level_count_def fun_eq_iff)
qed

lemma inc_at_less: "i < length xs \<Longrightarrow> inc_at i xs = Some (xs[i := xs ! i + 1])"
  by (simp add: inc_at_def)

lemma level_index_less: "level_index l < 7"
  by (cases l) simp_all

text \<open>
  The invariant of the statistics: the tables are complete, the counts by date and by rule add up, level
  by level, to the total of the level, the unique counts to the number of rule ids.
\<close>

definition stats_ok :: "afterfact_info \<Rightarrow> bool" where
  "stats_ok st \<longleftrightarrow>
     has_levels (detect_counts_by_date_and_level st) \<and> has_levels (detect_counts_by_computer_and_level st) \<and>
     has_levels (detect_counts_by_rule_and_level st) \<and>
     length (total_detect_counts_by_level st) = 7 \<and> length (unique_detect_counts_by_level st) = 7 \<and>
     (\<forall>l. level_count (detect_counts_by_date_and_level st) l = total_detect_counts_by_level st ! level_index l) \<and>
     (\<forall>l. level_count (detect_counts_by_rule_and_level st) l = total_detect_counts_by_level st ! level_index l) \<and>
     sum_list (unique_detect_counts_by_level st) = length (detected_rule_ids st) \<and> distinct (detected_rule_ids st)"

lemma stats_ok_default: "stats_ok afterfact_default"
proof -
  have "map_of (map (\<lambda>l. (l, [] :: counter)) all_levels) l = Some []" for l
    by (cases l) (simp_all add: all_levels_def)
  moreover have "replicate 7 (0::nat) ! level_index l = 0" for l
    by (simp add: level_index_less)
  ultimately show ?thesis
    by (simp add: stats_ok_def afterfact_default_def has_levels_def level_count_def counter_total_def sum_list_replicate)
qed

lemma count_authors_keeps:
  "stats_ok (count_authors d st) = stats_ok st"
  "total_detect_counts_by_level (count_authors d st) = total_detect_counts_by_level st"
  "timestamps (count_authors d st) = timestamps st"
  by (simp_all add: count_authors_def stats_ok_def Let_def)

lemma count_unique_rule_ok:
  assumes "stats_ok st"
  obtains st' where "count_unique_rule d st = Some st'" "stats_ok st'"
    "total_detect_counts_by_level st' = total_detect_counts_by_level st" "timestamps st' = timestamps st"
proof -
  let ?i = "level_index (di_level d)" and ?u = "unique_detect_counts_by_level st"
  have i: "?i < length ?u" using assms level_index_less by (simp add: stats_ok_def)
  then have "sum_list (?u[?i := ?u ! ?i + 1]) = sum_list ?u + 1"
    using elem_le_sum_list [OF i] by (simp add: sum_list_update)
  then show ?thesis
    using that [of st] that [of "st\<lparr>detected_rule_ids := di_ruleid d # detected_rule_ids st,
        unique_detect_counts_by_level := ?u[?i := ?u ! ?i + 1]\<rparr>"] assms
    by (cases "di_ruleid d \<in> set (detected_rule_ids st)")
       (auto simp: count_unique_rule_def inc_at_less [OF i] stats_ok_def)
qed

lemma count_computers_ok:
  "stats_ok st \<Longrightarrow> \<exists>st'. count_computers d cs st = Some st' \<and> stats_ok st' \<and>
     total_detect_counts_by_level st' = total_detect_counts_by_level st \<and> timestamps st' = timestamps st"
proof (induction d cs st rule: count_computers.induct)
  case (2 d computer computers st)
  let ?key = "computer @ ''|'' @ di_rulepath d"
  show ?case
  proof (cases "?key \<in> set (detected_computer_and_rule_names st)")
    case True
    with 2(1) [OF refl True 2(3)] show ?thesis by simp
  next
    case False
    from 2(3) have "has_levels (detect_counts_by_computer_and_level st)" by (simp add: stats_ok_def)
    from countup_aggregation_count [OF this] obtain m
      where m: "countup_aggregation (di_level d) computer (detect_counts_by_computer_and_level st) = Some m" "has_levels m"
      by metis
    have "stats_ok (st\<lparr>detected_computer_and_rule_names := ?key # detected_computer_and_rule_names st,
        detect_counts_by_computer_and_level := m\<rparr>)"
      using 2(3) m(2) by (simp add: stats_ok_def)
    from 2(2) [OF refl False m(1) this] m(1) False show ?thesis by simp
  qed
qed simp

lemma count_detection_ok:
  assumes "stats_ok st"
  obtains st' where "count_detection T d st = Some st'" "stats_ok st'" "timestamps st' = timestamps st"
    "\<forall>l. total_detect_counts_by_level st' ! level_index l =
       total_detect_counts_by_level st ! level_index l + (if di_level d = l then 1 else 0)"
proof -
  have "stats_ok (count_authors d st)" using assms by (simp add: count_authors_keeps)
  from count_unique_rule_ok [OF this, of d] obtain st1 where st1: "count_unique_rule d (count_authors d st) = Some st1"
    "stats_ok st1" "total_detect_counts_by_level st1 = total_detect_counts_by_level st" "timestamps st1 = timestamps st"
    unfolding count_authors_keeps by metis
  from count_computers_ok [OF st1(2), of d "computer_names d"]
  obtain st2 where st2: "count_computers d (computer_names d) st1 = Some st2" "stats_ok st2"
    "total_detect_counts_by_level st2 = total_detect_counts_by_level st" "timestamps st2 = timestamps st"
    using st1(3,4) by auto
  have levels: "has_levels (detect_counts_by_date_and_level st2)" "has_levels (detect_counts_by_rule_and_level st2)"
    using st2(2) by (simp_all add: stats_ok_def)
  let ?lv = "di_level d" and ?total = "total_detect_counts_by_level st2"
  from countup_aggregation_count [OF levels(1), of ?lv "show_date T (detected_time d)"] obtain by_date where date:
    "countup_aggregation ?lv (show_date T (detected_time d)) (detect_counts_by_date_and_level st2) = Some by_date"
    "has_levels by_date"
    "level_count by_date = (level_count (detect_counts_by_date_and_level st2))
       (?lv := level_count (detect_counts_by_date_and_level st2) ?lv + 1)" by metis
  from countup_aggregation_count [OF levels(2), of ?lv "di_ruletitle d"] obtain by_rule where rule:
    "countup_aggregation ?lv (di_ruletitle d) (detect_counts_by_rule_and_level st2) = Some by_rule"
    "has_levels by_rule"
    "level_count by_rule = (level_count (detect_counts_by_rule_and_level st2))
       (?lv := level_count (detect_counts_by_rule_and_level st2) ?lv + 1)" by metis
  have i: "level_index l < length ?total" for l
    using st2(2) level_index_less by (simp add: stats_ok_def)
  define st' where "st' = st2\<lparr>rule_title_path_map := assoc_insert (di_ruletitle d) (di_rulepath d) (rule_title_path_map st2),
    detect_counts_by_date_and_level := by_date, detect_counts_by_rule_and_level := by_rule,
    total_detect_counts_by_level := ?total[level_index ?lv := ?total ! level_index ?lv + 1]\<rparr>"
  have nth: "?total[level_index ?lv := n] ! level_index l = (if ?lv = l then n else ?total ! level_index l)" for l n
    using i by (auto simp: nth_list_update level_index_inject)
  have "count_detection T d st = Some st'"
    using st1(1) st2(1) date(1) rule(1) by (simp add: count_detection_def inc_at_less [OF i] st'_def)
  moreover have "stats_ok st'"
    using st2(2) date(2,3) rule(2,3) by (auto simp: stats_ok_def st'_def nth)
  moreover have "timestamps st' = timestamps st" using st2(4) by (simp add: st'_def)
  moreover have "\<forall>l. total_detect_counts_by_level st' ! level_index l =
       total_detect_counts_by_level st ! level_index l + (if di_level d = l then 1 else 0)"
    by (auto simp: st'_def nth) (simp_all add: st2(3))
  ultimately show ?thesis using that by blast
qed

definition occurrences :: "level \<Rightarrow> detection_info list \<Rightarrow> nat" where
  "occurrences l ds = length (filter (\<lambda>d. di_level d = l) ds)"

lemma calc_loop_ok:
  "stats_ok st \<Longrightarrow> \<exists>st'. calc_loop T False dups i ds st = Some st' \<and> stats_ok st' \<and>
     length (timestamps st') = length (timestamps st) + length (map snd (filter (\<lambda>(j, d). j \<notin> set dups) (enumerate i ds))) \<and>
     (\<forall>l. total_detect_counts_by_level st' ! level_index l = total_detect_counts_by_level st ! level_index l +
       occurrences l (map snd (filter (\<lambda>(j, d). j \<notin> set dups) (enumerate i ds))))"
proof (induction ds arbitrary: i st)
  case (Cons d ds)
  show ?case
  proof (cases "i \<in> set dups")
    case True
    with Cons.IH [OF Cons.prems] show ?thesis by simp
  next
    case False
    let ?st1 = "st\<lparr>timestamps := timestamps st @ [detected_time d div 10 ^ 9],
      detected_record_idset := fold List.insert (record_ids T d) (detected_record_idset st)\<rparr>"
    have "stats_ok ?st1" using Cons.prems by (simp add: stats_ok_def)
    from count_detection_ok [OF this, of T d] obtain st2 where st2: "count_detection T d ?st1 = Some st2" "stats_ok st2"
      "timestamps st2 = timestamps ?st1"
      "\<forall>l. total_detect_counts_by_level st2 ! level_index l =
         total_detect_counts_by_level ?st1 ! level_index l + (if di_level d = l then 1 else 0)"
      by metis
    then have "calc_one T False d st = Some st2" by (simp add: calc_one_def)
    with Cons.IH [OF st2(2), of "i + 1"] st2 False show ?thesis
      by (auto simp: occurrences_def)
  qed
qed (simp add: occurrences_def)

lemma calc_statistic_ok:
  assumes "stats_ok st"
  obtains st' where "calc_statistic_info T False ds dups st = Some st'" "stats_ok st'"
    "length (timestamps st') = length (timestamps st) + length (emitted_infos ds dups)"
    "\<And>l. total_detect_counts_by_level st' ! level_index l =
       total_detect_counts_by_level st ! level_index l + occurrences l (emitted_infos ds dups)"
  using calc_loop_ok [OF assms, of T dups 0 ds] that unfolding calc_statistic_info_def emitted_infos_def by blast

end
