(* ===== verification/Json_Facts.thy ===== *)
theory Json_Facts
  imports Json_Output Afterfact_Facts
begin

section \<open>Escapes in the JSON output, and where values change\<close>

text \<open>
  How a JSON reader decodes the escapes of a string, how the details are grouped by their keys, and
  the values that the output changes. \<open>Json_Read\<close> has the reader of whole objects and what it gets back.
\<close>

subsection \<open>Reading a string\<close>

definition hex_val :: "char \<Rightarrow> nat option" where
  "hex_val c =
     (if is_digit c then Some (byte c - 48)
      else if 65 \<le> byte c \<and> byte c \<le> 70 then Some (byte c - 55)
      else if 97 \<le> byte c \<and> byte c \<le> 102 then Some (byte c - 87)
      else None)"

text \<open>The inside of a JSON string: no quote, no control character, and the escapes the program uses.\<close>

fun json_unescape :: "string \<Rightarrow> string option" where
  "json_unescape [] = Some []"
| "json_unescape (c # cs) =
     (if c = CHR 0x5C then
        (case cs of
           e # r \<Rightarrow>
             if e = CHR 0x5C \<or> e = CHR 0x22 then map_option (Cons e) (json_unescape r)
             else if e = CHR ''u'' then
               (case r of
                  z1 # z2 # h1 # h2 # r2 \<Rightarrow>
                    if z1 = CHR ''0'' \<and> z2 = CHR ''0'' then
                      (case (hex_val h1, hex_val h2) of
                         (Some a, Some b) \<Rightarrow> map_option (Cons (char_of (16 * a + b))) (json_unescape r2)
                       | _ \<Rightarrow> None)
                    else None
                | _ \<Rightarrow> None)
             else None
         | _ \<Rightarrow> None)
      else if c = CHR 0x22 \<or> byte c < 32 then None
      else map_option (Cons c) (json_unescape cs))"

definition encode_char :: "char \<Rightarrow> string" where
  "encode_char c =
     (if c = CHR 0x5C then [CHR 0x5C, CHR 0x5C]
      else if c = CHR 0x22 then [CHR 0x5C, CHR 0x22]
      else control_replace c)"

lemma byte_of_char: "byte (CHR 0x5C) = 92" "byte (CHR 0x22) = 34" "byte (CHR 0x0A) = 10"
  by (simp_all add: byte_def)

lemma hex_digit_cases: "n < 16 \<Longrightarrow> hex_val (hex_digit n) = Some n"
  by (cases "n < 10") (simp_all add: hex_val_def hex_digit_def is_digit_def)

lemma escape_controls_append: "escape_controls (a @ b) = escape_controls a @ escape_controls b"
  by (simp add: escape_controls_def)

lemma convert_valid_json_str_escape:
  assumes "starts_with s quote \<longrightarrow> ends_with s quote"
  shows "convert_valid_json_str [s] f = escape_json s"
  using assms by (auto simp: convert_valid_json_str_def escape_json_def passport_def quote_def)

subsection \<open>The object of the details\<close>

lemma add_child_values:
  "map_of (fold add_child cs m) k =
     (case (map_of m k, map snd (filter (\<lambda>c. fst c = k) cs)) of
        (None, []) \<Rightarrow> None
      | (None, vs) \<Rightarrow> Some vs
      | (Some us, vs) \<Rightarrow> Some (us @ vs))"
proof (induction cs arbitrary: m)
  case (Cons c cs)
  then show ?case by (cases "map_of m k") (auto simp: add_child_def split: list.splits)
qed (simp split: option.split)

lemma add_child_distinct: "distinct (map fst m) \<Longrightarrow> distinct (map fst (fold add_child cs m))"
  by (induction cs arbitrary: m) (auto simp: add_child_def distinct_assoc_insert)

text \<open>
  The object of the details has each key once, with the values of all the contents that have the
  key, in their order; keys and values are cut at the first colon, trimmed and escaped.
\<close>

theorem details_grouped:
  "distinct (map fst (process_target_stock stock)) \<and>
   map_of (process_target_stock stock) k =
     (let vs = map snd (filter (\<lambda>c. fst c = k) (map child_of stock)) in if vs = [] then None else Some vs)"
proof -
  have "distinct (map fst (process_target_stock stock))"
    unfolding process_target_stock_def by (rule add_child_distinct) simp
  moreover have "map_of (process_target_stock stock) k =
      (let vs = map snd (filter (\<lambda>c. fst c = k) (map child_of stock)) in if vs = [] then None else Some vs)"
    unfolding process_target_stock_def add_child_values
    by (cases "map snd (filter (\<lambda>c. fst c = k) (map child_of stock))") (simp_all add: Let_def)
  ultimately show ?thesis by blast
qed

subsection \<open>Where it fails\<close>

definition titled :: "string \<Rightarrow> detection_info" where
  "titled title = (sample_info 5 ''a'')\<lparr>ext_field := [(''RuleTitle'', PRuleTitle title)]\<rparr>"

text \<open>
  The JSONL output changes values. To put an object on one line it deletes every pair of spaces
  from the text, those inside the values too: a title with two spaces in a row is read back without
  them from the JSONL output, and intact from the JSON output.
\<close>

theorem jsonl_deletes_spaces:
  "fst (output_json_str (titled ''a  b'') [] [] True False False) =
     quote @ ''RuleTitle'' @ quote @ '': '' @ quote @ ''ab'' @ quote \<and>
   fst (output_json_str (titled ''a  b'') [] [] False False False) =
     ''    '' @ quote @ ''RuleTitle'' @ quote @ '': '' @ quote @ ''a  b'' @ quote"
  by code_simp

text \<open>What stands before a colon and a space in a value is left out of both formats.\<close>

lemma json_drops_prefix:
  "fst (output_json_str (titled ''Mimikatz: Use'') [] [] False False False) =
     ''    '' @ quote @ ''RuleTitle'' @ quote @ '': '' @ quote @ ''Use'' @ quote"
  by code_simp

text \<open>A value that begins with a quotation mark and does not end with one gets a second one.\<close>

lemma json_adds_quote:
  "json_unescape (escape_controls (convert_valid_json_str [quote @ ''a.exe'' @ quote @ '' -x''] False)) =
     Some (quote @ ''a.exe'' @ quote @ '' -x'' @ quote)"
  by code_simp

text \<open>A text of digits becomes a number and loses its leading zeros.\<close>

lemma json_drops_zeros:
  "create_json_output_format ''Code'' ''007'' False False 0 = quote @ ''Code'' @ quote @ '': 7''"
proof -
  have "parse_i64 ''007'' = Some 7"
    by (simp add: parse_i64_def parse_digits_def is_digit_def byte_def starts_with_def)
  moreover have "show_int 7 = ''7''" by code_simp
  moreover have "escape_controls (quote @ ''Code'' @ quote) = quote @ ''Code'' @ quote" by code_simp
  ultimately show ?thesis by (simp add: create_json_output_format_def)
qed

end
