(* ===== verification/Json_Read.thy ===== *)
theory Json_Read
  imports Json_Facts
begin

section \<open>Reading the JSON output back\<close>

text \<open>
  A reader of JSON, written for the purpose, and the objects that it finds in what the program
  writes for a detection: the columns of the profile with their values, and the details as an object of
  their own. The reader knows objects, arrays, strings with the escapes the program uses, truth values
  and decimal integers.
\<close>

subsection \<open>The reader\<close>

datatype jread = ReadText string | ReadInt int | ReadBool bool | ReadList "jread list" | ReadObject "(string \<times> jread) list"

definition is_json_space :: "char \<Rightarrow> bool" where
  "is_json_space c \<longleftrightarrow> byte c = 32 \<or> byte c = 9 \<or> byte c = 10 \<or> byte c = 13"

definition skip_ws :: "string \<Rightarrow> string" where
  "skip_ws s = dropWhile is_json_space s"

text \<open>The rest of a string after its opening quote: the text up to the closing one, and what follows.\<close>

fun scan_string :: "string \<Rightarrow> (string \<times> string) option" where
  "scan_string [] = None"
| "scan_string (c # cs) =
     (if c = CHR 0x22 then Some ([], cs)
      else if c = CHR 0x5C then
        (case cs of
           e # r \<Rightarrow>
             if e = CHR 0x5C \<or> e = CHR 0x22 then map_option (apfst (Cons e)) (scan_string r)
             else if e = CHR ''u'' then
               (case r of
                  z1 # z2 # h1 # h2 # r2 \<Rightarrow>
                    if z1 = CHR ''0'' \<and> z2 = CHR ''0'' then
                      (case (hex_val h1, hex_val h2) of
                         (Some a, Some b) \<Rightarrow> map_option (apfst (Cons (char_of (16 * a + b)))) (scan_string r2)
                       | _ \<Rightarrow> None)
                    else None
                | _ \<Rightarrow> None)
             else None
         | _ \<Rightarrow> None)
      else if byte c < 32 then None
      else map_option (apfst (Cons c)) (scan_string cs))"

definition is_bare :: "char \<Rightarrow> bool" where
  "is_bare c \<longleftrightarrow> \<not> is_json_space c \<and> c \<notin> {CHR '','', CHR '':'', CHR ''}'', CHR '']'', CHR ''{'', CHR ''['', CHR 0x22}"

definition bare_value :: "string \<Rightarrow> jread option" where
  "bare_value t =
     (if t = ''true'' then Some (ReadBool True)
      else if t = ''false'' then Some (ReadBool False)
      else (case parse_i64 t of
              Some i \<Rightarrow> if show_int i = t then Some (ReadInt i) else None
            | None \<Rightarrow> None))"

definition read_bare :: "string \<Rightarrow> (jread \<times> string) option" where
  "read_bare s = map_option (\<lambda>v. (v, dropWhile is_bare s)) (bare_value (takeWhile is_bare s))"

text \<open>
  Values, the members of an object after its brace, the items of an array after its bracket. What is
  left after a piece is shorter than what was there before, which the reader checks.
\<close>

function read_value :: "string \<Rightarrow> (jread \<times> string) option"
  and read_members :: "string \<Rightarrow> ((string \<times> jread) list \<times> string) option"
  and read_items :: "string \<Rightarrow> (jread list \<times> string) option" where
  "read_value s =
     (case skip_ws s of
        [] \<Rightarrow> None
      | c # r \<Rightarrow>
          if length s < length r + 1 then None
          else if c = CHR 0x22 then map_option (apfst ReadText) (scan_string r)
          else if c = CHR ''{'' then
            (case skip_ws r of
               [] \<Rightarrow> None
             | d # r1 \<Rightarrow> if d = CHR ''}'' then Some (ReadObject [], r1) else map_option (apfst ReadObject) (read_members r))
          else if c = CHR ''['' then map_option (apfst ReadList) (read_items r)
          else read_bare (c # r))"
| "read_members s =
     (case skip_ws s of
        [] \<Rightarrow> None
      | c # r \<Rightarrow>
          if c \<noteq> CHR 0x22 then None
          else (case scan_string r of
                  None \<Rightarrow> None
                | Some (k, r1) \<Rightarrow>
                    (case skip_ws r1 of
                       [] \<Rightarrow> None
                     | d # r2 \<Rightarrow>
                         if d \<noteq> CHR '':'' \<or> \<not> length r2 < length s then None
                         else (case read_value r2 of
                                 None \<Rightarrow> None
                               | Some (v, r3) \<Rightarrow>
                                   (case skip_ws r3 of
                                      [] \<Rightarrow> None
                                    | e # r4 \<Rightarrow>
                                        if e = CHR ''}'' then Some ([(k, v)], r4)
                                        else if e = CHR '','' \<and> length r4 < length s
                                        then map_option (apfst (Cons (k, v))) (read_members r4)
                                        else None)))))"
| "read_items s =
     (if s = [] then None
      else (case read_value s of
        None \<Rightarrow> None
      | Some (v, r3) \<Rightarrow>
          (case skip_ws r3 of
             [] \<Rightarrow> None
           | e # r4 \<Rightarrow>
               if e = CHR '']'' then Some ([v], r4)
               else if e = CHR '','' \<and> length r4 < length s then map_option (apfst (Cons v)) (read_items r4)
               else None)))"
  by pat_completeness auto

termination
  by (relation "measure (\<lambda>x. case x of Inl s \<Rightarrow> 2 * length s | Inr (Inl s) \<Rightarrow> 2 * length s | Inr (Inr s) \<Rightarrow> 2 * length s + 1)")
     (auto split: if_splits)

definition read_json :: "string \<Rightarrow> jread option" where
  "read_json s =
     (case read_value s of
        Some (v, r) \<Rightarrow> if skip_ws r = [] then Some v else None
      | None \<Rightarrow> None)"

declare read_value.simps [simp del] read_members.simps [simp del] read_items.simps [simp del]

subsection \<open>Pieces of text\<close>

lemma skip_ws_simps [simp]:
  "skip_ws [] = []"
  "is_json_space c \<Longrightarrow> skip_ws (c # s) = skip_ws s"
  "\<not> is_json_space c \<Longrightarrow> skip_ws (c # s) = c # s"
  by (simp_all add: skip_ws_def)

lemma skip_ws_append [simp]: "\<forall>c \<in> set a. is_json_space c \<Longrightarrow> skip_ws (a @ s) = skip_ws s"
  by (simp add: skip_ws_def dropWhile_append)

lemma json_space_chars [simp]:
  "is_json_space (CHR 0x20)" "is_json_space (CHR 0x0A)" "\<not> is_json_space (CHR 0x22)" "\<not> is_json_space (CHR '':'')"
  "\<not> is_json_space (CHR '','')" "\<not> is_json_space (CHR ''{'')" "\<not> is_json_space (CHR ''}'')"
  "\<not> is_json_space (CHR ''['')" "\<not> is_json_space (CHR '']'')"
  by (simp_all add: is_json_space_def byte_def)

lemma scan_encode_char:
  assumes "c \<noteq> CHR 0x0A"
  shows "scan_string (encode_char c @ rest) = map_option (apfst (Cons c)) (scan_string rest)"
proof (cases "byte c < 32")
  case True
  then have ne: "c \<noteq> CHR 0x5C" "c \<noteq> CHR 0x22" by (auto simp: byte_of_char)
  have "byte c div 16 < 16" "byte c mod 16 < 16" using True by simp_all
  moreover have "char_of (16 * (byte c div 16) + byte c mod 16) = c" by (simp add: byte_def)
  ultimately show ?thesis
    using True assms ne by (simp add: encode_char_def control_replace_def hex_digit_cases)
next
  case False
  then show ?thesis by (simp add: encode_char_def control_replace_def)
qed

text \<open>The text of a value: what stands for a backslash in it is read as one.\<close>

definition shown :: "string \<Rightarrow> string" where
  "shown s = replace_all passport [CHR 0x5C] s"

definition encoded :: "string \<Rightarrow> string" where
  "encoded s = concat (map encode_char s)"

lemma scan_encoded: "CHR 0x0A \<notin> set s \<Longrightarrow> scan_string (encoded s @ CHR 0x22 # rest) = Some (s, rest)"
  by (induction s) (auto simp: encoded_def scan_encode_char)

lemma set_replace_all: "p \<noteq> [] \<Longrightarrow> set (replace_all p r s) \<subseteq> set s \<union> set r"
proof (induction p r s rule: replace_all.induct)
  case (2 p r c cs)
  have d: "set (drop (length p - 1) cs) \<subseteq> set cs" by (rule set_drop_subset)
  show ?case
  proof (cases "starts_with (c # cs) p")
    case True
    with 2(1,3) d show ?thesis by auto
  next
    case False
    with 2(2,3) show ?thesis by auto
  qed
qed simp

lemma passport_not_Nil [simp]: "passport \<noteq> []"
  by (simp add: passport_def)

lemma shown_line: "CHR 0x0A \<notin> set s \<Longrightarrow> CHR 0x0A \<notin> set (shown s)"
  using set_replace_all [of passport "[CHR 0x5C]" s] by (auto simp: shown_def)

definition escape_char :: "char \<Rightarrow> string" where
  "escape_char c =
     (if c = CHR 0x5C then [CHR 0x5C, CHR 0x5C] else if c = CHR 0x22 then [CHR 0x5C, CHR 0x22] else [c])"

lemma escape_json_shown: "escape_json s = concat (map escape_char (shown s))"
proof -
  have "concat (map (\<lambda>d. if d = CHR 0x22 then [CHR 0x5C, CHR 0x22] else [d])
      (concat (map (\<lambda>d. if d = CHR 0x5C then [CHR 0x5C, CHR 0x5C] else [d]) t))) = concat (map escape_char t)" for t
    by (induction t) (auto simp: escape_char_def)
  then show ?thesis by (simp add: escape_json_def shown_def quote_def replace_all_char)
qed

lemma escape_controls_shown: "escape_controls (escape_json s) = encoded (shown s)"
proof -
  have "escape_controls (concat (map escape_char t)) = encoded t" for t
    by (induction t) (simp_all add: encoded_def escape_controls_def encode_char_def escape_char_def control_replace_def byte_of_char)
  then show ?thesis by (simp add: escape_json_shown)
qed

lemma escape_json_no_quote: "\<not> starts_with (escape_json s) quote"
  unfolding escape_json_shown by (cases "shown s") (auto simp: escape_char_def quote_def starts_with_def split: if_splits)

subsection \<open>Numbers\<close>

lemma shown_same: "\<not> contains_str s passport \<Longrightarrow> shown s = s"
  unfolding shown_def by (rule replace_all_id) (simp_all add: passport_def)

lemma escape_json_same:
  assumes "CHR 0x5C \<notin> set s" "CHR 0x22 \<notin> set s" "\<not> contains_str s passport"
  shows "escape_json s = s"
proof -
  have "concat (map escape_char t) = t" if "CHR 0x5C \<notin> set t" "CHR 0x22 \<notin> set t" for t
    using that by (induction t) (auto simp: escape_char_def)
  with assms show ?thesis by (simp add: escape_json_shown shown_same)
qed

lemma shown_passport: "contains_str s passport \<Longrightarrow> CHR 0x5C \<in> set (shown s)"
  unfolding shown_def
proof (induction passport "[CHR 0x5C]" s rule: replace_all.induct)
  case (2 c cs)
  then show ?case by (cases "starts_with (c # cs) passport") (auto simp: passport_def)
qed (simp add: passport_def)

lemma escape_json_plain:
  assumes "CHR 0x5C \<notin> set (escape_json s)"
  shows "escape_json s = s"
proof -
  have "CHR 0x5C \<in> set (concat (map escape_char t))" if "CHR 0x5C \<in> set t \<or> CHR 0x22 \<in> set t" for t
    using that by (force simp: escape_char_def)
  with assms have no: "CHR 0x5C \<notin> set (shown s)" "CHR 0x22 \<notin> set (shown s)"
    unfolding escape_json_shown by blast+
  then have "\<not> contains_str s passport" using shown_passport by blast
  then have "shown s = s" by (rule shown_same)
  with no \<open>\<not> contains_str s passport\<close> show ?thesis by (intro escape_json_same) simp_all
qed

lemma parse_digits_chars: "parse_digits s = Some n \<Longrightarrow> list_all is_digit s"
  by (simp add: parse_digits_def split: if_splits)

lemma parse_i64_chars:
  assumes "parse_i64 s = Some i"
  shows "\<forall>c \<in> set s. is_digit c \<or> c = CHR ''-'' \<or> c = CHR ''+''"
  using assms
  by (cases s) (auto simp: parse_i64_def list_all_iff starts_with_def dest!: parse_digits_chars split: if_splits option.splits)

lemma parse_i64_bounds: "parse_i64 s = Some i \<Longrightarrow> - (2 ^ 63) \<le> i \<and> i < 2 ^ 63"
  by (auto simp: parse_i64_def split: if_splits option.splits)

lemma parse_i64_escape: "parse_i64 (escape_json s) = parse_i64 s"
proof -
  have bs: "\<not> is_digit (CHR 0x5C)" by (simp add: is_digit_def byte_def)
  have "parse_i64 (escape_json s) = Some i \<Longrightarrow> escape_json s = s" for i
    by (rule escape_json_plain) (use parse_i64_chars bs in fastforce)
  moreover have "escape_json s = s" if "parse_i64 s = Some i" for i
  proof -
    have c: "\<forall>c \<in> set s. is_digit c \<or> c = CHR ''-'' \<or> c = CHR ''+''" by (rule parse_i64_chars [OF that])
    have "CHR 0xF0 \<notin> set s" using c by (auto simp: is_digit_def byte_def)
    then have "\<not> contains_str s passport" by (auto simp: contains_str_iff passport_def)
    moreover have "CHR 0x5C \<notin> set s" "CHR 0x22 \<notin> set s" using c by (auto simp: is_digit_def byte_def)
    ultimately show ?thesis by (intro escape_json_same)
  qed
  ultimately show ?thesis by (cases "parse_i64 (escape_json s)"; cases "parse_i64 s") auto
qed

subsection \<open>Reading the pieces\<close>

lemma length_skip_ws: "length (skip_ws s) \<le> length s"
  by (simp add: skip_ws_def length_dropWhile_le)

lemma read_value_eq:
  "read_value s =
     (case skip_ws s of
        [] \<Rightarrow> None
      | c # r \<Rightarrow>
          if c = CHR 0x22 then map_option (apfst ReadText) (scan_string r)
          else if c = CHR ''{'' then
            (case skip_ws r of
               [] \<Rightarrow> None
             | d # r1 \<Rightarrow> if d = CHR ''}'' then Some (ReadObject [], r1) else map_option (apfst ReadObject) (read_members r))
          else if c = CHR ''['' then map_option (apfst ReadList) (read_items r)
          else read_bare (c # r))"
  using length_skip_ws [of s] by (subst read_value.simps) (auto split: list.split)

lemma read_value_space: "\<forall>c \<in> set w. is_json_space c \<Longrightarrow> read_value (w @ s) = read_value s"
  by (simp add: read_value_eq)

text \<open>A piece is read as a value when what follows does not prolong it.\<close>

definition ends_piece :: "string \<Rightarrow> bool" where
  "ends_piece rest \<longleftrightarrow> rest = [] \<or> \<not> is_bare (hd rest)"

definition reads_value :: "string \<Rightarrow> jread \<Rightarrow> bool" where
  "reads_value t v \<longleftrightarrow> (\<forall>rest. ends_piece rest \<longrightarrow> read_value (t @ rest) = Some (v, rest))"

lemma reads_text: "CHR 0x0A \<notin> set s \<Longrightarrow> reads_value (quote @ encoded s @ quote) (ReadText s)"
  by (simp add: reads_value_def read_value_eq quote_def scan_encoded)

lemma reads_bare:
  assumes "bare_value t = Some v" "list_all is_bare t" "t \<noteq> []"
  shows "reads_value t v"
  unfolding reads_value_def
proof (intro allI impI)
  fix rest assume e: "ends_piece rest"
  obtain c r where t: "t = c # r" using assms(3) by (cases t) auto
  have b: "is_bare c" using assms(2) t by simp
  have "takeWhile is_bare (t @ rest) = t" "dropWhile is_bare (t @ rest) = rest"
    using assms(2) e by (auto simp: list_all_iff ends_piece_def takeWhile_append dropWhile_append)
      (cases rest; simp)+
  then have "read_bare (t @ rest) = Some (v, rest)" using assms(1) by (simp add: read_bare_def)
  then show "read_value (t @ rest) = Some (v, rest)"
    using b t by (auto simp: read_value_eq is_bare_def)
qed

definition scalar :: "string \<Rightarrow> jread" where
  "scalar v =
     (case parse_i64 v of
        Some i \<Rightarrow> ReadInt i
      | None \<Rightarrow> if v = ''true'' then ReadBool True else if v = ''false'' then ReadBool False else ReadText (shown v))"

lemma bare_digit: "is_digit c \<Longrightarrow> is_bare c"
  by (auto simp: is_bare_def is_digit_def is_json_space_def byte_def)

lemma reads_int:
  assumes "- (2 ^ 63) \<le> i" "i < 2 ^ 63"
  shows "reads_value (show_int i) (ReadInt i)"
proof (rule reads_bare)
  have d: "list_all is_digit (show_nat n)" "show_nat n \<noteq> []" for n using show_nat_digits by auto
  have "is_bare (CHR ''-'')" by (simp add: is_bare_def is_json_space_def byte_def)
  with d(1) show "list_all is_bare (show_int i)"
    by (auto simp: show_int_def list_all_iff intro: bare_digit)
  show "show_int i \<noteq> []" using d(2) by (simp add: show_int_def)
  have "\<forall>c \<in> set (show_int i). is_digit c \<or> c = CHR ''-''" using d(1) by (auto simp: show_int_def list_all_iff)
  then have "show_int i \<noteq> ''true''" "show_int i \<noteq> ''false''"
    by (auto simp: is_digit_def byte_def)
  then show "bare_value (show_int i) = Some (ReadInt i)"
    using parse_i64_show_int [OF assms] by (simp add: bare_value_def)
qed

lemma reads_bool: "reads_value ''true'' (ReadBool True)" "reads_value ''false'' (ReadBool False)"
  by (rule reads_bare; simp add: bare_value_def is_bare_def is_json_space_def byte_def)+

lemma escape_json_words:
  "escape_json v = ''true'' \<longleftrightarrow> v = ''true''" "escape_json v = ''false'' \<longleftrightarrow> v = ''false''"
proof -
  have w: "escape_json ''true'' = ''true''" "escape_json ''false'' = ''false''" by code_simp+
  have "escape_json v = v" if "escape_json v = ''true'' \<or> escape_json v = ''false''"
    by (rule escape_json_plain) (use that in auto)
  with w show "escape_json v = ''true'' \<longleftrightarrow> v = ''true''" "escape_json v = ''false'' \<longleftrightarrow> v = ''false''" by metis+
qed

text \<open>A member of an object: its key, and a piece that is read as its value.\<close>

definition reads_member :: "string \<Rightarrow> string \<times> jread \<Rightarrow> bool" where
  "reads_member l kv \<longleftrightarrow>
     (\<exists>w t. l = w @ quote @ encoded (fst kv) @ quote @ '': '' @ t \<and> (\<forall>c \<in> set w. is_json_space c) \<and>
       CHR 0x0A \<notin> set (fst kv) \<and> reads_value t (snd kv))"

lemma scalar_member:
  assumes "CHR 0x0A \<notin> set v" "CHR 0x0A \<notin> set k" "escape_controls (quote @ key @ quote) = quote @ encoded k @ quote"
  shows "reads_member (create_json_output_format key (escape_json v) False False n) (k, scalar v)"
proof -
  obtain t where t: "create_json_output_format key (escape_json v) False False n =
      replicate n (CHR '' '') @ quote @ encoded k @ quote @ '': '' @ t" "reads_value t (scalar v)"
  proof (cases "parse_i64 v")
    case (Some i)
    with parse_i64_bounds [OF Some] show ?thesis
      by (intro that [of "show_int i"])
        (simp_all add: create_json_output_format_def parse_i64_escape assms(3) scalar_def reads_int)
  next
    case None
    show ?thesis
    proof (cases "v = ''true'' \<or> v = ''false''")
      case True
      with None show ?thesis
        by (intro that [of v])
          (auto simp: create_json_output_format_def parse_i64_escape assms(3) scalar_def reads_bool escape_json_words)
    next
      case False
      with None show ?thesis
        by (intro that [of "quote @ encoded (shown v) @ quote"])
          (auto simp: create_json_output_format_def parse_i64_escape assms(3) scalar_def escape_json_words
            escape_controls_shown reads_text [OF shown_line [OF assms(1)]])
    qed
  qed
  then show ?thesis
    using assms(2) unfolding reads_member_def by (intro exI [of _ "replicate n (CHR '' '')"] exI [of _ t]) simp
qed

subsection \<open>Objects and arrays\<close>

definition sep_line :: string where "sep_line = '','' @ newline"

lemma ends_piece_simps [simp]:
  "ends_piece (CHR '','' # s)" "ends_piece (CHR 0x0A # s)" "ends_piece (CHR ''}'' # s)" "ends_piece (CHR '']'' # s)"
  by (simp_all add: ends_piece_def is_bare_def)

lemma read_member:
  assumes "reads_member l (k, v)" "ends_piece rest" "\<forall>c \<in> set w. is_json_space c"
  shows "read_members (w @ l @ rest) =
     (case skip_ws rest of
        [] \<Rightarrow> None
      | e # r4 \<Rightarrow>
          if e = CHR ''}'' then Some ([(k, v)], r4)
          else if e = CHR '','' then map_option (apfst (Cons (k, v))) (read_members r4)
          else None)"
proof -
  obtain w' t where l: "l = w' @ quote @ encoded k @ quote @ '': '' @ t" and w': "\<forall>c \<in> set w'. is_json_space c"
    and k: "CHR 0x0A \<notin> set k" and t: "reads_value t v"
    using assms(1) by (auto simp: reads_member_def)
  have ws: "\<forall>c \<in> set (w @ w'). is_json_space c" using assms(3) w' by auto
  have skip: "skip_ws (w @ l @ rest) = CHR 0x22 # encoded k @ CHR 0x22 # '': '' @ t @ rest"
    using skip_ws_append [OF ws, of "CHR 0x22 # encoded k @ CHR 0x22 # '': '' @ t @ rest"] by (simp add: l quote_def)
  have scan: "scan_string (encoded k @ CHR 0x22 # '': '' @ t @ rest) = Some (k, '': '' @ t @ rest)"
    by (rule scan_encoded [OF k])
  have val: "read_value ('' '' @ t @ rest) = Some (v, rest)"
    using t assms(2) by (subst read_value_space) (simp_all add: reads_value_def)
  have len: "length r4 < length (w @ l @ rest)" if "skip_ws rest = e # r4" for e r4
    using length_skip_ws [of rest] that by (simp add: l)
  show ?thesis
    apply (subst read_members.simps)
    using skip scan val len by (simp add: l quote_def split: list.split)
qed

lemma read_member_list:
  assumes "list_all2 reads_member ls kvs" "ls \<noteq> []" "\<forall>c \<in> set w2. is_json_space c" "w2 \<noteq> []"
  shows "\<forall>c \<in> set w. is_json_space c \<Longrightarrow>
    read_members (w @ join sep_line ls @ w2 @ CHR ''}'' # rest) = Some (kvs, rest)"
  using assms(1,2)
proof (induction ls kvs arbitrary: w rule: list_all2_induct)
  case (Cons l ls kv kvs)
  obtain k v where kv: "kv = (k, v)" by (cases kv)
  show ?case
  proof (cases "ls = []")
    case True
    with Cons.hyps have "kvs = []" by simp
    obtain c w3 where w2: "w2 = c # w3" using assms(4) by (cases w2) auto
    then have "ends_piece (w2 @ CHR ''}'' # rest)" using assms(3) by (auto simp: ends_piece_def is_bare_def)
    then show ?thesis
      using read_member [OF Cons.hyps(1) [unfolded kv] _ Cons.prems(1)] assms(3) True \<open>kvs = []\<close> by (simp add: kv)
  next
    case False
    have "ends_piece (sep_line @ s)" for s by (simp add: sep_line_def)
    moreover have "read_members (newline @ join sep_line ls @ w2 @ CHR ''}'' # rest) = Some (kvs, rest)"
      by (rule Cons.IH) (use False in \<open>simp_all add: newline_def\<close>)
    ultimately show ?thesis
      using read_member [OF Cons.hyps(1) [unfolded kv] _ Cons.prems(1)]
      by (simp add: kv join_Cons [OF False] sep_line_def)
  qed
qed simp

lemma reads_object:
  assumes "list_all2 reads_member ls kvs"
  shows "reads_value (''{'' @ newline @ join sep_line ls @ newline @ replicate n (CHR '' '') @ ''}'') (ReadObject kvs)"
  unfolding reads_value_def
proof (intro allI impI)
  fix rest assume "ends_piece rest"
  let ?w2 = "newline @ replicate n (CHR '' '')"
  have ws: "\<forall>c \<in> set ?w2. is_json_space c" "\<forall>c \<in> set newline. is_json_space c" "?w2 \<noteq> []"
    by (auto simp: newline_def)
  show "read_value ((''{'' @ newline @ join sep_line ls @ newline @ replicate n (CHR '' '') @ ''}'') @ rest) =
      Some (ReadObject kvs, rest)"
  proof (cases ls)
    case Nil
    with assms have "kvs = []" by simp
    have "skip_ws (newline @ ?w2 @ CHR ''}'' # rest) = CHR ''}'' # rest"
      using skip_ws_append [of "newline @ ?w2" "CHR ''}'' # rest"] ws by auto
    then show ?thesis by (simp add: read_value_eq Nil \<open>kvs = []\<close>)
  next
    case (Cons l ls')
    with assms obtain kv where "reads_member l kv" by (auto simp: list_all2_Cons1)
    then obtain w t where l: "l = w @ quote @ t" "\<forall>c \<in> set w. is_json_space c" by (auto simp: reads_member_def)
    obtain u where u: "join sep_line ls = w @ quote @ u" unfolding Cons l(1) by (cases ls') simp_all
    have "skip_ws (newline @ join sep_line ls @ ?w2 @ CHR ''}'' # rest) = CHR 0x22 # u @ ?w2 @ CHR ''}'' # rest"
      using skip_ws_append [of "newline @ w" "CHR 0x22 # u @ ?w2 @ CHR ''}'' # rest"] ws(2) l(2)
      by (auto simp: u quote_def)
    moreover have "read_members (newline @ join sep_line ls @ ?w2 @ CHR ''}'' # rest) = Some (kvs, rest)"
      by (rule read_member_list [OF assms _ ws(1,3,2)]) (simp add: Cons)
    ultimately show ?thesis by (simp add: read_value_eq)
  qed
qed

lemma read_item_list:
  assumes "ss \<noteq> []" "\<forall>s \<in> set ss. CHR 0x0A \<notin> set s"
  shows "\<forall>c \<in> set w. is_json_space c \<Longrightarrow>
    read_items (w @ join '', '' (map (\<lambda>s. quote @ encoded s @ quote) ss) @ CHR '']'' # rest) = Some (map ReadText ss, rest)"
  using assms
proof (induction ss arbitrary: w)
  case (Cons s ss)
  have item: "read_value (w @ (quote @ encoded s @ quote) @ r) = Some (ReadText s, r)" if "ends_piece r" for r
    using reads_text [of s] Cons.prems(1,3) that by (subst read_value_space) (simp_all add: reads_value_def)
  show ?case
  proof (cases "ss = []")
    case True
    then show ?thesis
      apply (subst read_items.simps)
      using item [of "CHR '']'' # rest"] by (simp add: quote_def)
  next
    case False
    have "read_items ('' '' @ join '', '' (map (\<lambda>s. quote @ encoded s @ quote) ss) @ CHR '']'' # rest) =
        Some (map ReadText ss, rest)"
      by (rule Cons.IH) (use False Cons.prems(3) in simp_all)
    then show ?thesis
      apply (subst read_items.simps)
      using False item [of "'', '' @ join '', '' (map (\<lambda>s. quote @ encoded s @ quote) ss) @ CHR '']'' # rest"]
      by (simp add: join_Cons quote_def)
  qed
qed simp

lemma reads_array:
  assumes "ss \<noteq> []" "\<forall>s \<in> set ss. CHR 0x0A \<notin> set s"
  shows "reads_value (''['' @ join '', '' (map (\<lambda>s. quote @ encoded s @ quote) ss) @ '']'') (ReadList (map ReadText ss))"
  using read_item_list [OF assms, of "[]"] by (simp add: reads_value_def read_value_eq)

subsection \<open>The entries of the details\<close>

text \<open>The keys in the order in which they first appear, each with all its values in their order.\<close>

definition first_keys :: "'k list \<Rightarrow> 'k list" where
  "first_keys ks = rev (remdups (rev ks))"

definition values_of :: "('k \<times> 'v) list \<Rightarrow> 'k \<Rightarrow> 'v list" where
  "values_of es k = map snd (filter (\<lambda>e. fst e = k) es)"

definition grouped :: "('k \<times> 'v) list \<Rightarrow> ('k \<times> 'v list) list" where
  "grouped es = map (\<lambda>k. (k, values_of es k)) (first_keys (map fst es))"

lemma first_keys_snoc: "first_keys (ks @ [k]) = (if k \<in> set ks then first_keys ks else first_keys ks @ [k])"
  by (simp add: first_keys_def)

lemma set_first_keys [simp]: "set (first_keys ks) = set ks" and distinct_first_keys [simp]: "distinct (first_keys ks)"
  by (simp_all add: first_keys_def)

lemma values_of_snoc: "values_of (es @ [(k, v)]) j = (if j = k then values_of es j @ [v] else values_of es j)"
  by (simp add: values_of_def)

lemma values_of_new: "k \<notin> fst ` set es \<Longrightarrow> values_of es k = []"
  by (auto simp: values_of_def filter_empty_conv)

lemma assoc_insert_absent: "k \<notin> fst ` set m \<Longrightarrow> assoc_insert k v m = m @ [(k, v)]"
  by (induction k v m rule: assoc_insert.induct) auto

lemma assoc_insert_old:
  assumes "inj g"
  shows "distinct ks \<Longrightarrow> k \<in> set ks \<Longrightarrow>
    assoc_insert (g k) x (map (\<lambda>j. (g j, h j)) ks) = map (\<lambda>j. (g j, if j = k then x else h j)) ks"
  using injD [OF assms] by (induction ks) (auto intro!: map_cong)

lemma add_child_grouped:
  assumes "inj g"
  shows "fold add_child (map (\<lambda>(k, v). (g k, f v)) es) [] = map (\<lambda>(k, vs). (g k, map f vs)) (grouped es)"
proof (induction es rule: rev_induct)
  case (snoc e es)
  obtain k v where e: "e = (k, v)" by (cases e)
  let ?h = "\<lambda>j. map f (values_of es j)"
  have IH: "fold add_child (map (\<lambda>(k, v). (g k, f v)) es) [] = map (\<lambda>j. (g j, ?h j)) (first_keys (map fst es))"
    using snoc by (simp add: grouped_def comp_def)
  let ?m = "map (\<lambda>j. (g j, ?h j)) (first_keys (map fst es))"
  have "fold add_child (map (\<lambda>(k, v). (g k, f v)) (es @ [e])) [] = add_child (g k, f v) ?m" by (simp add: e IH)
  then have step: "fold add_child (map (\<lambda>(k, v). (g k, f v)) (es @ [e])) [] =
      assoc_insert (g k) (unwrap_or [] (map_of ?m (g k)) @ [f v]) ?m"
    by (simp add: add_child_def)
  show ?case
  proof (cases "k \<in> set (map fst es)")
    case True
    have "map_of (map (\<lambda>j. (g j, ?h j)) ks) (g k) = Some (?h k)" if "k \<in> set ks" for ks
      using that injD [OF assms] by (induction ks) auto
    then have "map_of (map (\<lambda>j. (g j, ?h j)) (first_keys (map fst es))) (g k) = Some (?h k)" using True by simp
    then show ?thesis
      unfolding step using True by (auto simp: e assoc_insert_old [OF assms] grouped_def comp_def first_keys_snoc
          values_of_snoc intro!: map_cong)
  next
    case False
    have "fst ` set ?m = g ` set (map fst es)" by force
    with False have "g k \<notin> fst ` set ?m" by (simp only: inj_image_mem_iff [OF assms]) simp
    then show ?thesis
      unfolding step using False by (auto simp: e assoc_insert_absent map_of_eq_None_iff [THEN iffD2] grouped_def
          comp_def first_keys_snoc values_of_snoc values_of_new simp del: list.set_map)
  qed
qed (simp add: grouped_def first_keys_def)

lemma inj_escape: "inj (\<lambda>s. concat (map escape_char s))"
proof (rule injI)
  fix s t show "concat (map escape_char s) = concat (map escape_char t) \<Longrightarrow> s = t"
  proof (induction s arbitrary: t)
    case Nil
    then show ?case by (cases t) (auto simp: escape_char_def split: if_splits)
  next
    case (Cons c s)
    then show ?case by (cases t) (auto simp: escape_char_def split: if_splits)
  qed
qed

text \<open>A text the output can represent: no line feed, and no quotation mark before it without one after it.\<close>

definition text_ok :: "string \<Rightarrow> bool" where
  "text_ok s \<longleftrightarrow> CHR 0x0A \<notin> set s \<and> (starts_with s quote \<longrightarrow> ends_with s quote)"

definition entry_of :: "string \<Rightarrow> string \<times> string" where
  "entry_of contents = (case split_once (CHR '':'') contents of None \<Rightarrow> ([], []) | Some (k, v) \<Rightarrow> (trim k, trim v))"

definition entry_value :: "string list \<Rightarrow> jread" where
  "entry_value vs = (case vs of [v] \<Rightarrow> scalar v | _ \<Rightarrow> ReadList (map (\<lambda>v. ReadText (shown v)) vs))"

definition entries_read :: "string list \<Rightarrow> (string \<times> jread) list" where
  "entries_read stock =
     map (\<lambda>(k, vs). (k, entry_value vs)) (grouped (map (\<lambda>c. (shown (fst (entry_of c)), snd (entry_of c))) stock))"

definition entry_ok :: "string \<Rightarrow> bool" where
  "entry_ok c \<longleftrightarrow> text_ok (fst (entry_of c)) \<and> text_ok (snd (entry_of c))"

lemma child_of_entry:
  assumes "entry_ok c"
  shows "child_of c = (concat (map escape_char (shown (fst (entry_of c)))), escape_json (snd (entry_of c)))"
proof -
  have "convert_valid_json_str [s] False = escape_json s" if "text_ok s" for s
    using that by (simp add: text_ok_def convert_valid_json_str_escape)
  then show ?thesis
    using assms unfolding entry_ok_def entry_of_def child_of_def
    by (cases "split_once (CHR '':'') c") (auto simp: escape_json_shown [symmetric] convert_valid_json_str_def escape_json_shown shown_def
        split: prod.splits)
qed

lemma process_grouped:
  assumes "list_all entry_ok stock"
  shows "process_target_stock stock =
    map (\<lambda>(k, vs). (concat (map escape_char k), map escape_json vs))
      (grouped (map (\<lambda>c. (shown (fst (entry_of c)), snd (entry_of c))) stock))"
proof -
  have "map child_of stock =
      map (\<lambda>(k, v). (concat (map escape_char k), escape_json v)) (map (\<lambda>c. (shown (fst (entry_of c)), snd (entry_of c))) stock)"
    using assms by (auto simp: list_all_iff child_of_entry)
  then show ?thesis
    unfolding process_target_stock_def by (simp only: add_child_grouped [OF inj_escape, where f = escape_json])
qed

lemma escape_controls_quote: "escape_controls quote = quote"
  by (simp add: escape_controls_def control_replace_def quote_def byte_of_char)

lemma escape_controls_quoted: "escape_controls (quote @ t @ quote) = quote @ escape_controls t @ quote"
  by (simp add: escape_controls_append escape_controls_quote)

lemma escape_controls_escape: "escape_controls (concat (map escape_char k)) = encoded k"
  by (induction k) (simp_all add: encoded_def escape_controls_def encode_char_def escape_char_def control_replace_def byte_of_char)

lemma escape_controls_join:
  "escape_controls (join sep xs) = join (escape_controls sep) (map escape_controls xs)"
  by (induction sep xs rule: join.induct) (simp_all add: escape_controls_append escape_controls_def)

lemma child_line_member:
  assumes "CHR 0x0A \<notin> set k" "\<forall>v \<in> set vs. CHR 0x0A \<notin> set v" "vs \<noteq> []"
  shows "reads_member (child_line (concat (map escape_char k), map escape_json vs)) (k, entry_value vs)"
proof -
  have kq: "\<not> starts_with (concat (map escape_char k)) quote"
    by (cases k) (auto simp: escape_char_def quote_def starts_with_def split: if_splits)
  have key: "escape_controls (quote @ concat (map escape_char k) @ quote) = quote @ encoded k @ quote"
    by (simp add: escape_controls_quoted escape_controls_escape)
  show ?thesis
  proof (cases "length vs = 1")
    case True
    then obtain v where v: "vs = [v]" by (auto simp: length_Suc_conv)
    then show ?thesis
      using scalar_member [OF _ assms(1) key, of v 8] assms(2) kq
      by (simp add: child_line_def child_value_def escape_json_no_quote entry_value_def)
  next
    case False
    let ?t = "''['' @ join '', '' (map (\<lambda>s. quote @ encoded s @ quote) (map shown vs)) @ '']''"
    let ?c = "child_value (map escape_json vs)"
    have c: "?c = ''['' @ join '', '' (map (\<lambda>x. quote @ x @ quote) (map escape_json vs)) @ '']''"
      using False by (simp add: child_value_def)
    then obtain u where u: "?c = CHR ''['' # u" by simp
    have p: "parse_i64 ?c = None" unfolding u by (simp add: parse_i64_def parse_digits_def is_digit_def byte_def starts_with_def)
    have brackets: "escape_controls ''['' = ''[''" "escape_controls '']'' = '']''" "escape_controls '', '' = '', ''"
      by code_simp+
    have "escape_controls ?c = ?t"
      unfolding c by (simp only: escape_controls_append escape_controls_join brackets list.map_comp comp_def
          escape_controls_quote escape_controls_shown)
    then have l: "child_line (concat (map escape_char k), map escape_json vs) =
        replicate 8 (CHR '' '') @ quote @ encoded k @ quote @ '': '' @ ?t"
      using False kq p key u by (simp add: child_line_def create_json_output_format_def Let_def)
    have "entry_value vs = ReadList (map ReadText (map shown vs))"
      using False assms(3) by (auto simp: entry_value_def comp_def split: list.split)
    moreover have "reads_value ?t (ReadList (map ReadText (map shown vs)))"
      by (rule reads_array) (use assms(2,3) shown_line in auto)
    ultimately show ?thesis
      unfolding reads_member_def l fst_conv snd_conv using assms(1)
      by (intro exI [of _ "replicate 8 (CHR '' '')"] exI [of _ ?t]) auto
  qed
qed

subsection \<open>The columns\<close>

lemma split_str_all: "\<not> contains_str s sep \<Longrightarrow> split_str sep acc s = [rev acc @ s]"
  by (induction sep acc s rule: split_str.induct) auto

lemma hd_split_str: "contains_str s sep \<Longrightarrow> sep \<noteq> [] \<Longrightarrow> length (hd (split_str sep acc s)) < length acc + length s"
  by (induction sep acc s rule: split_str.induct) (auto split: if_splits)

text \<open>Details of one piece: no separator of entries, no colon with a blank.\<close>

definition one_piece :: "string \<Rightarrow> bool" where
  "one_piece s \<longleftrightarrow> \<not> contains_str s bar_sep \<and> \<not> contains_str s '': ''"

lemma split_str_not_Nil: "split_str sep acc s \<noteq> []"
  by (induction sep acc s rule: split_str.induct) auto

lemma details_vec_one_piece: "details_vec s = [] \<longleftrightarrow> one_piece s"
proof -
  have "bar_sep \<noteq> []" by (simp add: bar_sep_def)
  then have "s = hd (split_str bar_sep [] s) \<longleftrightarrow> \<not> contains_str s bar_sep"
    using hd_split_str [of s bar_sep "[]"] split_str_all [of s bar_sep "[]"] by fastforce
  then show ?thesis using split_str_not_Nil [of bar_sep "[]" s] by (auto simp: details_vec_def one_piece_def Let_def)
qed

definition no_outer_space :: "string \<Rightarrow> bool" where
  "no_outer_space s \<longleftrightarrow> s = [] \<or> (\<not> is_whitespace (hd (utf8_chars s)) \<and> \<not> is_whitespace (last (utf8_chars s)))"

definition escape_group :: "string \<Rightarrow> string list" where
  "escape_group g =
     (if hd g = CHR 0x5C then [[CHR 0x5C], g] else if hd g = CHR 0x22 then [[CHR 0x5C], g] else [g])"

lemma escape_cont:
  "takeWhile is_cont (concat (map escape_char s)) = takeWhile is_cont s \<and>
   dropWhile is_cont (concat (map escape_char s)) = concat (map escape_char (dropWhile is_cont s))"
  by (induction s) (auto simp: escape_char_def is_cont_def byte_of_char)

lemma utf8_chars_escape: "utf8_chars (concat (map escape_char s)) = concat (map escape_group (utf8_chars s))"
proof (induction s rule: utf8_chars.induct)
  case (2 c cs)
  have "\<not> is_cont (CHR 0x5C)" "\<not> is_cont (CHR 0x22)" by (simp_all add: is_cont_def byte_of_char)
  moreover have "escape_char c = (if c = CHR 0x5C \<or> c = CHR 0x22 then [CHR 0x5C, c] else [c])"
    by (simp add: escape_char_def)
  ultimately show ?case using 2 escape_cont [of cs] by (simp add: escape_group_def)
qed simp

lemma trim_outer:
  assumes "no_outer_space s"
  shows "trim s = s"
proof (cases "utf8_chars s")
  case Nil
  then have "s = []" by (metis concat_utf8_chars concat.simps(1))
  then show ?thesis by simp
next
  case (Cons g gs)
  with assms have ends: "\<not> is_whitespace (hd (utf8_chars s))" "\<not> is_whitespace (last (utf8_chars s))"
    by (auto simp: no_outer_space_def)
  have d: "dropWhile is_whitespace (utf8_chars s) = utf8_chars s" using ends(1) Cons by simp
  have r: "dropWhile is_whitespace (rev (utf8_chars s)) = rev (utf8_chars s)"
    using ends(2) by (cases "utf8_chars s" rule: rev_cases) simp_all
  show ?thesis by (simp add: trim_def d r)
qed

lemma trim_escape:
  assumes "no_outer_space s"
  shows "trim (concat (map escape_char s)) = concat (map escape_char s)"
proof (rule trim_outer)
  have bs: "\<not> is_whitespace [CHR 0x5C]" by (simp add: is_whitespace_def byte_of_char)
  have g: "\<not> is_whitespace (hd (escape_group h))" "\<not> is_whitespace (last (escape_group h))" "escape_group h \<noteq> []"
    if "\<not> is_whitespace h" for h
    using that bs by (auto simp: escape_group_def)
  show "no_outer_space (concat (map escape_char s))"
  proof (cases "utf8_chars s")
    case Nil
    then have "s = []" by (metis concat_utf8_chars concat.simps(1))
    then show ?thesis by (simp add: no_outer_space_def)
  next
    case (Cons h hs)
    with assms have ends: "\<not> is_whitespace h" "\<not> is_whitespace (last (h # hs))" by (auto simp: no_outer_space_def)
    have "concat (map escape_group (h # hs)) = concat (map escape_group (butlast (h # hs))) @ escape_group (last (h # hs))"
      using arg_cong [OF append_butlast_last_id [of "h # hs"], of "\<lambda>x. concat (map escape_group x)"] by simp
    then have "last (concat (map escape_group (h # hs))) = last (escape_group (last (h # hs)))"
      using g(3) [OF ends(2)] by simp
    then show ?thesis
      using g(2) [OF ends(2)] g(1,3) [OF ends(1)] by (simp add: no_outer_space_def utf8_chars_escape Cons hd_append)
  qed
qed

text \<open>
  The entries of the details of a detection: those of the record, or the pieces of the text that a
  counting rule reports. Details of one piece are a plain value, all others an object.
\<close>

definition stock_of :: "detection_info \<Rightarrow> profile \<Rightarrow> string list option" where
  "stock_of d p =
     map_option (\<lambda>stock.
       if di_agg_result d = None then stock
       else if stock = [] \<or> hd stock = ''-'' then [] else split_str bar_sep [] (hd stock))
     (map_of (details_convert_map d) (''#'' @ details_key p))"

definition is_object_column :: "profile \<Rightarrow> bool" where
  "is_object_column p \<longleftrightarrow> is_field_info p \<or> (is_details p \<and> \<not> one_piece (to_value p))"

fun column_read :: "detection_info \<Rightarrow> string \<times> profile \<Rightarrow> (string \<times> jread) list" where
  "column_read d (name, p) =
     (if is_object_column p
      then (case stock_of d p of None \<Rightarrow> [] | Some stock \<Rightarrow> [(name, ReadObject (entries_read stock))])
      else if to_value p = [] then []
      else if is_details p \<and> to_value p = ''-'' then [(name, ReadObject [])]
      else [(name, scalar (to_value p))])"

text \<open>The columns of the theorem: names without escapes, no tags or locations, texts as above.\<close>

fun is_tag_column :: "profile \<Rightarrow> bool" where
  "is_tag_column (PMitreTactics _) = True"
| "is_tag_column (PMitreTags _) = True"
| "is_tag_column (POtherTags _) = True"
| "is_tag_column _ = False"

definition plain_name :: "string \<Rightarrow> bool" where
  "plain_name s \<longleftrightarrow> (\<forall>c \<in> set s. 32 \<le> byte c \<and> c \<noteq> CHR 0x22 \<and> c \<noteq> CHR 0x5C)"

fun column_ok :: "detection_info \<Rightarrow> string \<times> profile \<Rightarrow> bool" where
  "column_ok d (name, p) =
     (plain_name name \<and> name \<notin> set geo_keys \<and> \<not> is_tag_column p \<and>
      (if is_object_column p
       then (case stock_of d p of None \<Rightarrow> True | Some stock \<Rightarrow> list_all entry_ok stock)
       else text_ok (to_value p) \<and> no_outer_space (shown (to_value p)) \<and> \<not> contains_str (to_value p) '': ''))"

lemma encoded_name: "plain_name s \<Longrightarrow> encoded s = s"
  by (induction s) (auto simp: plain_name_def encoded_def encode_char_def control_replace_def)

lemma name_member:
  assumes "plain_name name"
  shows "escape_controls (quote @ name @ quote) = quote @ encoded name @ quote" "CHR 0x0A \<notin> set name"
    "\<not> starts_with name quote"
proof -
  have "escape_controls name = name" using assms
    by (induction name) (auto simp: plain_name_def escape_controls_def control_replace_def)
  then show "escape_controls (quote @ name @ quote) = quote @ encoded name @ quote"
    by (simp add: escape_controls_quoted encoded_name [OF assms])
  show "CHR 0x0A \<notin> set name"
  proof
    assume "CHR 0x0A \<in> set name"
    with assms have "32 \<le> byte (CHR 0x0A)" unfolding plain_name_def by blast
    then show False by (simp add: byte_def)
  qed
  show "\<not> starts_with name quote" using assms by (cases name) (auto simp: plain_name_def quote_def starts_with_def)
qed

lemma join_snoc: "xs \<noteq> [] \<Longrightarrow> join sep (xs @ [f]) = join sep xs @ sep @ f"
  by (induction sep xs rule: join.induct) simp_all

lemma with_commas_not_Nil: "with_commas b ls = [] \<longleftrightarrow> ls = []"
  by (induction b ls rule: with_commas.induct) simp_all

lemma with_commas_Cons: "ls \<noteq> [] \<Longrightarrow> with_commas b (l # ls) = (l @ '','') # with_commas b ls"
  by (cases ls) simp_all

lemma join_commas: "join newline (with_commas False ls) = join sep_line ls"
proof (induction ls)
  case (Cons l ls)
  then show ?case
    by (cases "ls = []") (simp_all add: with_commas_Cons join_Cons with_commas_not_Nil sep_line_def)
qed simp

lemma replicate_4: "replicate 4 c = [c, c, c, c]"
  by (simp add: numeral_eq_Suc)

lemma join_object:
  assumes "ls \<noteq> []"
  shows "join newline ([h @ ''{''] @ with_commas False ls @ [''    }'']) =
    h @ ''{'' @ newline @ join sep_line ls @ newline @ replicate 4 (CHR '' '') @ ''}''"
proof -
  have "with_commas False ls \<noteq> []" using assms by (simp add: with_commas_not_Nil)
  then show ?thesis
    by (simp add: join_Cons join_snoc join_commas replicate_4)
qed

lemma empty_object_member:
  assumes "plain_name name"
  shows "reads_member (empty_object name) (name, ReadObject [])"
proof -
  have "reads_value ''{}'' (ReadObject [])" by (simp add: reads_value_def read_value_eq)
  then show ?thesis
    unfolding reads_member_def using name_member(2) [OF assms]
    by (intro exI [of _ "''    ''"] exI [of _ "''{}''"]) (simp add: empty_object_def encoded_name [OF assms])
qed

lemma child_lines_read:
  assumes "list_all entry_ok stock"
  shows "list_all2 reads_member (map child_line (process_target_stock stock)) (entries_read stock)"
proof -
  let ?es = "map (\<lambda>c. (shown (fst (entry_of c)), snd (entry_of c))) stock"
  have lf: "CHR 0x0A \<notin> set (fst e) \<and> CHR 0x0A \<notin> set (snd e)" if "e \<in> set ?es" for e
    using assms that by (auto simp: list_all_iff entry_ok_def text_ok_def) (metis shown_line)
  have "reads_member (child_line (concat (map escape_char k), map escape_json vs)) (k, entry_value vs)"
    if g: "(k, vs) \<in> set (grouped ?es)" for k vs
  proof (rule child_line_member)
    have "k \<in> set (first_keys (map fst ?es))" and vs: "vs = values_of ?es k"
      using g by (auto simp: grouped_def simp del: set_first_keys)
    from this(1) have k: "k \<in> fst ` set ?es" unfolding set_first_keys set_map .
    show "CHR 0x0A \<notin> set k" using k lf by auto
    show "\<forall>v \<in> set vs. CHR 0x0A \<notin> set v" unfolding vs values_of_def using lf by auto
    show "vs \<noteq> []" unfolding vs values_of_def using k by (auto simp: filter_empty_conv)
  qed
  then show ?thesis
    unfolding process_grouped [OF assms] entries_read_def
    by (simp add: list_all2_map1 list_all2_map2 list_all2_same split_beta)
qed

lemma process_not_Nil: "stock \<noteq> [] \<Longrightarrow> process_target_stock stock \<noteq> []"
proof -
  have "fold add_child cs m \<noteq> []" if "m \<noteq> [] \<or> cs \<noteq> []" for cs m
    using that
  proof (induction cs arbitrary: m)
    case (Cons c cs)
    have "add_child c m \<noteq> []" by (cases m) (auto simp: add_child_def)
    with Cons.IH show ?case by simp
  qed simp
  then show "stock \<noteq> [] \<Longrightarrow> process_target_stock stock \<noteq> []" by (simp add: process_target_stock_def)
qed

lemma object_member:
  assumes "plain_name name" "valid_geo_keys M = []" "stock_of d p = Some stock" "list_all entry_ok stock"
  shows "list_all2 reads_member (details_object d False geo M name p) [(name, ReadObject (entries_read stock))]"
proof -
  obtain raw where raw: "map_of (details_convert_map d) (''#'' @ details_key p) = Some raw"
    "stock = (if di_agg_result d = None then raw
       else if raw = [] \<or> hd raw = ''-'' then [] else split_str bar_sep [] (hd raw))"
    using assms(3) by (auto simp: stock_of_def)
  show ?thesis
  proof (cases "raw = [] \<or> (di_agg_result d \<noteq> None \<and> hd raw = ''-'')")
    case True
    then have "stock = []" using raw(2) by auto
    then show ?thesis
      using True raw(1) empty_object_member [OF assms(1)]
      by (simp add: details_object_def entries_read_def grouped_def first_keys_def)
  next
    case False
    then have st: "stock = (if di_agg_result d \<noteq> None then split_str bar_sep [] (hd raw) else raw)" "stock \<noteq> []"
      using raw(2) split_str_not_Nil [of bar_sep "[]" "hd raw"] by auto
    have no: "(raw = [] \<or> (di_agg_result d \<noteq> None \<and> hd raw = ''-'')) = False" using False by simp
    let ?ls = "map child_line (process_target_stock stock)"
    have ls: "?ls \<noteq> []" using process_not_Nil [OF st(2)] by simp
    let ?h = "''    '' @ quote @ name @ quote @ '': ''"
    have "details_object d False geo M name p = [join newline ([?h @ ''{''] @ with_commas False ?ls @ [''    }''])]"
      unfolding details_object_def raw(1) option.case no if_False Let_def st(1) [symmetric] by (simp add: assms(2))
    also have "\<dots> = [?h @ ''{'' @ newline @ join sep_line ?ls @ newline @ replicate 4 (CHR '' '') @ ''}'']"
      by (simp only: join_object [OF ls])
    finally have "details_object d False geo M name p =
      [?h @ ''{'' @ newline @ join sep_line ?ls @ newline @ replicate 4 (CHR '' '') @ ''}'']" .
    moreover have "reads_member (?h @ ''{'' @ newline @ join sep_line ?ls @ newline @ replicate 4 (CHR '' '') @ ''}'')
        (name, ReadObject (entries_read stock))"
      unfolding reads_member_def using name_member(2) [OF assms(1)] reads_object [OF child_lines_read [OF assms(4)], of 4]
      by (intro exI [of _ "''    ''"]
          exI [of _ "''{'' @ newline @ join sep_line ?ls @ newline @ replicate 4 (CHR '' '') @ ''}''"])
        (simp add: encoded_name [OF assms(1)])
    ultimately show ?thesis by simp
  qed
qed

lemma value_member:
  assumes "plain_name name" "text_ok v" "no_outer_space (shown v)" "\<not> contains_str v '': ''"
  shows "reads_member (create_json_output_format name
      (trim (convert_valid_json_str (split_str '': '' [] v) False)) (starts_with name quote)
      (starts_with (convert_valid_json_str (split_str '': '' [] v) False) quote) 4) (name, scalar v)"
proof -
  have c: "convert_valid_json_str (split_str '': '' [] v) False = escape_json v"
    using assms(2,4) by (simp add: split_str_all convert_valid_json_str_escape text_ok_def)
  have t: "trim (escape_json v) = escape_json v"
    unfolding escape_json_shown by (rule trim_escape [OF assms(3)])
  show ?thesis
    using scalar_member [OF _ name_member(2,1) [OF assms(1)], of v 4] assms(2) name_member(3) [OF assms(1)]
    by (simp add: c t escape_json_no_quote text_ok_def)
qed

lemma get_json_vec_plain: "\<not> is_tag_column p \<Longrightarrow> \<not> is_object_column p \<Longrightarrow> get_json_vec p (to_value p) = []"
  by (cases p) (simp_all add: is_object_column_def details_vec_one_piece)

lemma field_member:
  assumes "column_ok d (name, p)" "valid_geo_keys M = []"
  shows "list_all2 reads_member (json_field d False geo M (name, p)) (column_read d (name, p))"
proof -
  have n: "plain_name name" "name \<notin> set geo_keys" "\<not> is_tag_column p" using assms(1) by simp_all
  show ?thesis
  proof (cases "is_object_column p")
    case True
    have f: "json_field d False geo M (name, p) = details_object d False geo M name p"
      using True n(2) by (cases p) (auto simp: json_field_def is_object_column_def details_vec_one_piece one_piece_def bar_sep_def)
    show ?thesis
    proof (cases "stock_of d p")
      case None
      then show ?thesis using True f by (simp add: details_object_def stock_of_def)
    next
      case (Some stock)
      then have "list_all entry_ok stock" using True assms(1) by simp
      with object_member [OF n(1) assms(2) Some] show ?thesis using True f Some by simp
    qed
  next
    case False
    then have v: "text_ok (to_value p)" "no_outer_space (shown (to_value p))" "\<not> contains_str (to_value p) '': ''"
      using assms(1) by simp_all
    have fi: "\<not> is_field_info p" using False by (simp add: is_object_column_def)
    have g: "get_json_vec p (to_value p) = []" by (rule get_json_vec_plain [OF n(3) False])
    show ?thesis
      using False fi g n(2) value_member [OF n(1) v] empty_object_member [OF n(1)]
      by (simp add: json_field_def Let_def)
  qed
qed

lemma list_all2_concat: "list_all2 (\<lambda>x y. list_all2 P x y) xs ys \<Longrightarrow> list_all2 P (concat xs) (concat ys)"
  by (induction xs ys rule: list_all2_induct) (simp_all add: list_all2_appendI)

text \<open>
  C32: The JSON output can be read back. For a detection written as JSON (not on one line each, and
  without marking repetitions) the object, in its braces, is read by a JSON reader as an object with
  the columns of the profile in their order: a column has its value, an integer or a truth value where
  the value is the text of one; a column of details is an object with each key once, where it first
  appears, and its value, or the list of its values if it appears more than once. An empty value is
  left out, and so are details that the detection does not have.
  The columns are those without tags and locations, with names without quotation marks, backslashes
  and control characters. The texts, after the sign that stands for a backslash is read as one, are
  without a line feed and do not begin with a quotation mark unless they end with one; those of a
  plain column have no space at either end and no colon followed by a space. What happens to the texts
  left out is shown in \<open>Json_Facts\<close>: the part before a colon and a space is lost, a quotation mark
  is added, and on one line pairs of spaces are deleted.
\<close>

theorem json_read_back:
  assumes "\<And>f. f \<in> set (ext_field d) \<Longrightarrow> column_ok d f"
  shows "read_json (join newline [''{'', fst (output_json_str d prev_message prev_details False geo False), ''}'']) =
    Some (ReadObject (concat (map (column_read d) (ext_field d))))"
proof -
  let ?M = "map_of (rev (ext_field d))" and ?fs = "ext_field d"
  have "?M k = None" if "k \<in> set geo_keys" for k
  proof -
    have "k \<notin> fst ` set ?fs" using assms that by fastforce
    then show ?thesis by (simp add: map_of_eq_None_iff)
  qed
  then have geo: "valid_geo_keys ?M = []" by (auto simp: valid_geo_keys_def filter_empty_conv)
  have "list_all2 reads_member (json_field d False geo ?M f) (column_read d f)" if "f \<in> set ?fs" for f
    using field_member [OF _ geo, of d "fst f" "snd f"] assms [OF that] by simp
  then have "list_all2 (\<lambda>x y. list_all2 reads_member x y) (map (json_field d False geo ?M) ?fs) (map (column_read d) ?fs)"
    by (simp add: list_all2_map1 list_all2_map2 list_all2_same)
  note m = reads_object [OF list_all2_concat [OF this], of 0]
  have "fst (output_json_str d prev_message prev_details False geo False) =
      join sep_line (concat (map (json_field d False geo ?M) ?fs))"
    by (simp add: output_json_str_def sep_line_def)
  with m show ?thesis by (simp add: read_json_def reads_value_def ends_piece_def)
qed

definition sample_json_info :: detection_info where
  "sample_json_info = (sample_info 5 ''a'')
     \<lparr>ext_field := [(''RuleTitle'', PRuleTitle (''Use of '' @ [CHR 0x5C] @ ''psexec'')), (''EventID'', PEventID ''4688''),
        (''Details'', PDetails ''Cmd: C: and others'')],
      details_convert_map := [(''#Details'', [''Cmd: C:'' @ [CHR 0x5C] @ ''a.exe'', ''Pid: 7'', ''Cmd: b''])]\<rparr>"

theorem json_read_back_witness:
  "read_json (join newline [''{'', fst (output_json_str sample_json_info [] [] False False False), ''}'']) =
     Some (ReadObject [(''RuleTitle'', ReadText (''Use of '' @ [CHR 0x5C] @ ''psexec'')), (''EventID'', ReadInt 4688),
       (''Details'', ReadObject [(''Cmd'', ReadList [ReadText (''C:'' @ [CHR 0x5C] @ ''a.exe''), ReadText ''b'']), (''Pid'', ReadInt 7)])])"
proof -
  have "list_all (column_ok sample_json_info) (ext_field sample_json_info)" by code_simp
  then have ok: "column_ok sample_json_info f" if "f \<in> set (ext_field sample_json_info)" for f
    using that by (simp only: list_all_iff)
  let ?t = "''Use of '' @ [CHR 0x5C] @ ''psexec''" and ?c = "''C:'' @ [CHR 0x5C] @ ''a.exe''"
  let ?stock = "[''Cmd: C:'' @ [CHR 0x5C] @ ''a.exe'', ''Pid: 7'', ''Cmd: b'']"
  have texts: "shown ?t = ?t" "shown ?c = ?c" "shown ''b'' = ''b''"
    by code_simp+
  have nums: "parse_i64 ?t = None" "parse_i64 ''4688'' = Some 4688" "parse_i64 ''7'' = Some 7"
    by (simp_all add: parse_i64_def parse_digits_def is_digit_def byte_def starts_with_def)
  have p: "\<not> is_object_column (PRuleTitle ?t)" "\<not> is_object_column (PEventID ''4688'')"
      "is_object_column (PDetails ''Cmd: C: and others'')"
    by code_simp+
  have stock: "stock_of sample_json_info (PDetails ''Cmd: C: and others'') = Some ?stock"
    by code_simp
  have groups: "grouped (map (\<lambda>c. (shown (fst (entry_of c)), snd (entry_of c))) ?stock) = [(''Cmd'', [?c, ''b'']), (''Pid'', [''7''])]"
    by code_simp
  have fs: "ext_field sample_json_info = [(''RuleTitle'', PRuleTitle ?t), (''EventID'', PEventID ''4688''),
      (''Details'', PDetails ''Cmd: C: and others'')]"
    by (simp add: sample_json_info_def)
  have read: "concat (map (column_read sample_json_info) (ext_field sample_json_info)) =
     [(''RuleTitle'', ReadText ?t), (''EventID'', ReadInt 4688),
       (''Details'', ReadObject [(''Cmd'', ReadList [ReadText ?c, ReadText ''b'']), (''Pid'', ReadInt 7)])]"
    unfolding fs using texts nums p stock groups by (simp add: scalar_def entries_read_def entry_value_def)
  show ?thesis
    using json_read_back [OF ok, where prev_message = "[]" and prev_details = "[]" and geo = False] by (simp only: read)
qed

end
