(* ===== verification/Target_Time.thy ===== *)
theory Target_Time
  imports Rust_Str Values "HOL-Library.Word"
begin

section \<open>The time range of a scan (configs.rs)\<close>

text \<open>
  The options for the start and the end of the time line, the offset back from now, and the test
  whether an event is in the range. Reading a date and going back in the calendar are \<open>chrono\<close>'s.
  The amounts of an offset are 32 bit numbers; years are turned into months with a multiplication
  that wraps.
\<close>

record calendar =
  parse_date :: "string \<Rightarrow> string \<Rightarrow> int option"
  go_back :: "32 word \<Rightarrow> 32 word list \<Rightarrow> string option"

text \<open>\<open>str::parse::<u32>\<close>.\<close>

definition parse_u32 :: "string \<Rightarrow> nat option" where
  "parse_u32 s =
     (case parse_usize s of Some n \<Rightarrow> if n < 2 ^ 32 then Some n else None | None \<Rightarrow> None)"

definition timekey :: string where
  "timekey = ''yMdhms''"

text \<open>The text in front of the first occurrence of a key, after the last key in it.\<close>

definition target_num :: "char \<Rightarrow> string \<Rightarrow> string" where
  "target_num key offset =
     rev (takeWhile (\<lambda>c. c \<notin> set timekey) (rev (hd (split_char key offset))))"

fun time_numbers :: "string \<Rightarrow> string \<Rightarrow> nat list option" where
  "time_numbers [] offset = Some []"
| "time_numbers (key # keys) offset =
     (let t = target_num key offset in
      if t = [] then map_option (Cons 0) (time_numbers keys offset)
      else
        (case parse_u32 t of
           None \<Rightarrow> None
         | Some n \<Rightarrow> map_option (Cons n) (time_numbers keys offset)))"

text \<open>The start time of an offset as text, and whether the offset was understood.\<close>

definition get_time_offset :: "calendar \<Rightarrow> string option \<Rightarrow> bool \<Rightarrow> string option \<times> bool" where
  "get_time_offset C time_offset ok =
     (case time_offset of
        None \<Rightarrow> (None, ok)
      | Some offset \<Rightarrow>
          (case time_numbers timekey offset of
             None \<Rightarrow> (None, False)
           | Some nums \<Rightarrow>
               (if list_all (\<lambda>x. x = 0) nums then (None, False)
                else
                  (case go_back C (word_of_nat (hd nums) * 12) (map word_of_nat (tl nums)) of
                     Some start \<Rightarrow> (Some start, ok)
                   | None \<Rightarrow> (None, False)))))"

definition get_time :: "calendar \<Rightarrow> string option \<Rightarrow> bool \<Rightarrow> int option \<times> bool" where
  "get_time C input_time ok =
     (case input_time of
        None \<Rightarrow> (None, ok)
      | Some time \<Rightarrow>
          (case parse_date C ''%Y-%m-%d %H:%M:%S %z'' time of
             Some t \<Rightarrow> (Some t, ok)
           | None \<Rightarrow>
               (case parse_date C ''%Y/%m/%d %H:%M:%S %z'' time of
                  Some t \<Rightarrow> (Some t, ok)
                | None \<Rightarrow> (None, False))))"

record target_event_time =
  parse_success_flag :: bool
  start_time :: "int option"
  end_time :: "int option"

text \<open>
  The actions by what they offer: a start and an end of the time line with an offset, the offset
  alone, or nothing.
\<close>

datatype time_action =
    WithTimeline "string option" "string option"
  | OffsetOnly
  | NoTimes

definition target_event_time_new :: "calendar \<Rightarrow> string option \<Rightarrow> time_action \<Rightarrow> target_event_time" where
  "target_event_time_new C offset act =
     (case get_time_offset C offset True of (time_offset, ok) \<Rightarrow>
        case act of
          WithTimeline start_timeline end_timeline \<Rightarrow>
            (case get_time C (if time_offset \<noteq> None then time_offset else start_timeline) ok of
               (s, ok1) \<Rightarrow>
                 (case get_time C end_timeline ok1 of
                    (e, ok2) \<Rightarrow> \<lparr>parse_success_flag = ok2, start_time = s, end_time = e\<rparr>))
        | OffsetOnly \<Rightarrow>
            (case (if time_offset \<noteq> None then get_time C time_offset ok else (None, ok)) of
               (s, ok1) \<Rightarrow> \<lparr>parse_success_flag = ok1, start_time = s, end_time = None\<rparr>)
        | NoTimes \<Rightarrow> \<lparr>parse_success_flag = ok, start_time = None, end_time = None\<rparr>)"

definition event_time_is_target :: "target_event_time \<Rightarrow> int option \<Rightarrow> bool" where
  "event_time_is_target r eventtime =
     (case eventtime of
        None \<Rightarrow> True
      | Some t \<Rightarrow>
          (case start_time r of Some s \<Rightarrow> \<not> t < s | None \<Rightarrow> True) \<and>
          (case end_time r of Some e \<Rightarrow> \<not> t > e | None \<Rightarrow> True))"

definition convert_option_vecs_to_hs :: "string list option \<Rightarrow> string list" where
  "convert_option_vecs_to_hs arg = remdups (unwrap_or [] arg)"

definition get_target_extensions :: "string list option \<Rightarrow> bool \<Rightarrow> string list" where
  "get_target_extensions arg json_input_flag =
     (let exts = convert_option_vecs_to_hs arg in
      if json_input_flag then List.insert ''jsonl'' (List.insert ''json'' exts) else List.insert ''evtx'' exts)"

subsection \<open>Offsets as they are meant\<close>

text \<open>An offset written out: for each key, from years to seconds, an amount or nothing.\<close>

fun offset_text :: "(char \<times> nat option) list \<Rightarrow> string" where
  "offset_text [] = []"
| "offset_text ((k, None) # ks) = offset_text ks"
| "offset_text ((k, Some n) # ks) = show_nat n @ [k] @ offset_text ks"

lemma offset_text_append: "offset_text (xs @ ys) = offset_text xs @ offset_text ys"
  by (induction xs rule: offset_text.induct) simp_all

lemma digit_no_key: "is_digit c \<Longrightarrow> c \<notin> set timekey"
  by (auto simp: timekey_def is_digit_def byte_def)

lemma show_nat_no_key: "c \<in> set (show_nat n) \<Longrightarrow> c \<notin> set timekey"
  using show_nat_digits [of n] digit_no_key by (auto simp: list_all_iff)

lemma offset_text_chars:
  "c \<in> set (offset_text ks) \<Longrightarrow> c \<in> fst ` set ks \<or> is_digit c"
  using show_nat_digits
  by (induction ks rule: offset_text.induct) (auto simp: list_all_iff)

lemma offset_text_last:
  "fst ` set ks \<subseteq> set timekey \<Longrightarrow> offset_text ks = [] \<or> last (offset_text ks) \<in> set timekey"
  by (induction ks rule: offset_text.induct) auto

lemma hd_split_char_prefix: "k \<notin> set p \<Longrightarrow> hd (split_char k (p @ k # s)) = p"
  by (simp add: split_char_append)

lemma after_last_key:
  assumes "fst ` set ks \<subseteq> set timekey" and "\<forall>c \<in> set t. c \<notin> set timekey"
  shows "rev (takeWhile (\<lambda>c. c \<notin> set timekey) (rev (offset_text ks @ t))) = t"
proof -
  have "takeWhile (\<lambda>c. c \<notin> set timekey) (rev (offset_text ks)) = []"
    using offset_text_last [OF assms(1)] by (cases "offset_text ks" rule: rev_cases) auto
  then show ?thesis using assms(2) by (simp add: takeWhile_append)
qed

lemma target_num_entry:
  assumes "fst ` set (pre @ (k, a) # post) \<subseteq> set timekey" and "distinct (map fst (pre @ (k, a) # post))"
  shows "target_num k (offset_text (pre @ (k, a) # post)) = (case a of None \<Rightarrow> [] | Some n \<Rightarrow> show_nat n)"
proof -
  have k: "k \<notin> fst ` set pre" "k \<notin> fst ` set post" "\<not> is_digit k"
    using assms digit_no_key by (auto simp: image_iff)
  have keys: "fst ` set pre \<subseteq> set timekey" "fst ` set (pre @ post) \<subseteq> set timekey"
    using assms(1) by (simp_all add: image_Un)
  show ?thesis
  proof (cases a)
    case None
    have "k \<notin> set (offset_text (pre @ post))" using offset_text_chars [of k "pre @ post"] k by auto
    then show ?thesis
      using after_last_key [OF keys(2), of "[]"] by (simp add: None target_num_def offset_text_append split_char_id)
  next
    case (Some n)
    have "k \<notin> set (offset_text pre @ show_nat n)"
      using offset_text_chars [of k pre] k show_nat_digits [of n] by (auto simp: list_all_iff)
    from hd_split_char_prefix [OF this, of "offset_text post"]
    have "hd (split_char k (offset_text (pre @ (k, a) # post))) = offset_text pre @ show_nat n"
      by (simp add: Some offset_text_append)
    then show ?thesis
      using after_last_key [OF keys(1), of "show_nat n"] show_nat_no_key by (simp add: Some target_num_def)
  qed
qed

lemma time_numbers_suffix:
  assumes "fst ` set (pre @ ks) \<subseteq> set timekey" and "distinct (map fst (pre @ ks))"
    and "\<forall>n. Some n \<in> snd ` set ks \<longrightarrow> n < 2 ^ 32"
  shows "time_numbers (map fst ks) (offset_text (pre @ ks)) = Some (map (\<lambda>e. unwrap_or 0 (snd e)) ks)"
  using assms
proof (induction ks arbitrary: pre)
  case (Cons e ks)
  obtain k a where e: "e = (k, a)" by fastforce
  have IH: "time_numbers (map fst ks) (offset_text (pre @ e # ks)) = Some (map (\<lambda>e. unwrap_or 0 (snd e)) ks)"
    using Cons.IH [of "pre @ [e]"] Cons.prems by auto
  have t: "target_num k (offset_text (pre @ e # ks)) = (case a of None \<Rightarrow> [] | Some n \<Rightarrow> show_nat n)"
    using target_num_entry [of pre k a ks] Cons.prems(1,2) by (simp add: e)
  show ?case
  proof (cases a)
    case None
    then show ?thesis using IH t by (simp add: e)
  next
    case (Some n)
    then have "n < 2 ^ 32" using Cons.prems(3) by (auto simp: e)
    then have "parse_u32 (show_nat n) = Some n" by (simp add: parse_u32_def parse_usize_show_nat)
    moreover have "show_nat n \<noteq> []" using show_nat_digits by blast
    ultimately show ?thesis using IH t Some by (simp add: e)
  qed
qed simp

text \<open>
  An offset means what it says. An offset that gives some of the amounts of years, months, days,
  hours, minutes and seconds in this order, each below the bound of 32 bits, is read as these
  amounts, and as zero for those it leaves out.
\<close>

theorem time_offset_roundtrip:
  assumes "map fst ks = timekey" and "\<forall>n. Some n \<in> snd ` set ks \<longrightarrow> n < 2 ^ 32"
  shows "time_numbers timekey (offset_text ks) = Some (map (\<lambda>e. unwrap_or 0 (snd e)) ks)"
proof -
  have "set (map fst ks) = set timekey" "distinct (map fst ks)"
    unfolding assms(1) by (simp_all add: timekey_def)
  then have "time_numbers (map fst ks) (offset_text ([] @ ks)) = Some (map (\<lambda>e. unwrap_or 0 (snd e)) ks)"
    using assms(2) by (intro time_numbers_suffix) auto
  then show ?thesis by (simp add: assms(1))
qed

theorem time_offset_roundtrip_witness:
  "time_numbers timekey ''1y30d'' = Some [1, 0, 30, 0, 0, 0]"
proof -
  let ?ks = "[(CHR ''y'', Some 1), (CHR ''M'', None), (CHR ''d'', Some 30), (CHR ''h'', None),
    (CHR ''m'', None), (CHR ''s'', None)]"
  have t: "offset_text ?ks = ''1y30d''" by code_simp
  have "time_numbers timekey (offset_text ?ks) = Some (map (\<lambda>e. unwrap_or 0 (snd e)) ?ks)"
    by (rule time_offset_roundtrip) (auto simp: timekey_def)
  then show ?thesis unfolding t by simp
qed

text \<open>
  An amount without a unit at the end of the offset is taken for every unit that does not occur: the
  text of a bare number goes back that many years, months, days, hours, minutes and seconds at once.
\<close>

lemma offset_without_unit:
  "time_numbers timekey ''30'' = Some [30, 30, 30, 30, 30, 30]"
  "time_numbers timekey ''1h30'' = Some [30, 30, 30, 1, 30, 30]"
proof -
  have p: "parse_u32 ''30'' = Some 30" "parse_u32 ''1'' = Some 1"
    by (simp_all add: parse_u32_def parse_usize_def parse_digits_def is_digit_def byte_def starts_with_def)
  show "time_numbers timekey ''30'' = Some [30, 30, 30, 30, 30, 30]"
    by (simp add: timekey_def target_num_def p)
  show "time_numbers timekey ''1h30'' = Some [30, 30, 30, 1, 30, 30]"
    by (simp add: timekey_def target_num_def p)
qed

end
