(* ===== verification/Field_Data_Map.thy ===== *)
theory Field_Data_Map
  imports Event_Utils Rule_Filter
begin

section \<open>Mapping of field values (field\_data\_map.rs)\<close>

text \<open>
  Tables per channel and event id that turn coded values of a field into text, or hexadecimal numbers
  into decimal ones. The search of several patterns at once is the crate \<open>aho_corasick\<close>.
\<close>

record aho =
  ac_ok :: "string list \<Rightarrow> bool"
  ac_replace :: "string list \<Rightarrow> string list \<Rightarrow> string \<Rightarrow> string"

datatype converter = HexToDecimal | ReplaceStr "string list" "string list" "string list"

type_synonym field_data_key = "string \<times> string"
type_synonym field_data_entry = "(string \<times> converter) list"
type_synonym field_data_map = "(field_data_key \<times> field_data_entry) list"

definition field_data_key_new :: "env \<Rightarrow> yaml \<Rightarrow> field_data_key" where
  "field_data_key_new E y =
     (to_lowercase E (unwrap_or [] (as_str (yindex y ''Channel''))),
      show_int (unwrap_or 0 (as_i64 (yindex y ''EventID''))))"

text \<open>The providers, a set; the pairs of patterns and replacements of one field.\<close>

definition providers_of :: "yaml \<Rightarrow> string list" where
  "providers_of y =
     (case as_vec (yindex y ''Provider_Name'') of
        Some ps \<Rightarrow> remdups (map (\<lambda>p. unwrap_or [] (as_str p)) ps)
      | None \<Rightarrow> (case as_str (yindex y ''Provider_Name'') of Some p \<Rightarrow> [p] | None \<Rightarrow> []))"

definition replace_pairs :: "yaml list \<Rightarrow> (string \<times> string) list" where
  "replace_pairs vs =
     map (\<lambda>(p, r). (unwrap_or [] (as_str p), unwrap_or [] (as_str r))) (concat (option_list (map as_hash vs)))"

definition rewrite_entry :: "env \<Rightarrow> aho \<Rightarrow> string list \<Rightarrow> yaml \<times> yaml \<Rightarrow> field_data_entry \<Rightarrow> field_data_entry" where
  "rewrite_entry E A providers kv mapping =
     (let field = unwrap_or [] (as_str (fst kv)) in
      case as_vec (snd kv) of
        None \<Rightarrow> mapping
      | Some vs \<Rightarrow>
          (let ptns = map fst (replace_pairs vs); reps = map snd (replace_pairs vs) in
           if field = [] \<or> \<not> ac_ok A ptns then mapping
           else assoc_insert (to_lowercase E field) (ReplaceStr ptns reps providers) mapping))"

definition build_field_data_map ::
  "env \<Rightarrow> aho \<Rightarrow> (string \<Rightarrow> string + yaml list) \<Rightarrow> yaml \<Rightarrow> field_data_key \<times> field_data_entry" where
  "build_field_data_map E A load y =
     (let rewrite_field_data = as_hash (yindex y ''RewriteFieldData'');
          hex2decimal =
            (case as_str (yindex y ''HexToDecimal'') of
               Some s \<Rightarrow> Some (case load s of Inr docs \<Rightarrow> docs | Inl _ \<Rightarrow> [])
             | None \<Rightarrow> as_vec (yindex y ''HexToDecimal''))
      in if rewrite_field_data = None \<and> hex2decimal = None then (([], []), [])
         else
           (let mapping = fold (rewrite_entry E A (providers_of y)) (unwrap_or [] rewrite_field_data) [];
                mapping' = fold (\<lambda>f m. case as_str f of None \<Rightarrow> m | Some k \<Rightarrow> assoc_insert (to_lowercase E k) HexToDecimal m)
                  (unwrap_or [] hex2decimal) mapping
            in (field_data_key_new E y, mapping')))"

text \<open>\<open>u64::from_str_radix(.., 16)\<close>.\<close>

definition hex_value :: "char \<Rightarrow> nat option" where
  "hex_value c =
     (if is_digit c then Some (byte c - 48)
      else if 65 \<le> byte c \<and> byte c \<le> 70 then Some (byte c - 55)
      else if 97 \<le> byte c \<and> byte c \<le> 102 then Some (byte c - 87)
      else None)"

fun hex_digits :: "nat \<Rightarrow> string \<Rightarrow> nat option" where
  "hex_digits n [] = Some n"
| "hex_digits n (c # cs) = (case hex_value c of None \<Rightarrow> None | Some d \<Rightarrow> hex_digits (16 * n + d) cs)"

definition parse_hex_u64 :: "string \<Rightarrow> nat option" where
  "parse_hex_u64 s =
     (let ds = (if starts_with s ''+'' then tl s else s) in
      if ds = [] then None
      else (case hex_digits 0 ds of Some n \<Rightarrow> if n < 2 ^ 64 then Some n else None | None \<Rightarrow> None))"

definition strip_hex :: "string \<Rightarrow> string option" where
  "strip_hex s = (if starts_with s ''0x'' \<or> starts_with s ''0X'' then Some (drop 2 s) else None)"

definition provider_of :: "env \<Rightarrow> json \<Rightarrow> string" where
  "provider_of E rec =
     unwrap_or [] (get_serde_number_to_string E
       (json_index (json_index (json_index (json_index rec ''Event'') ''System'') ''Provider_attributes'') ''Name'') False)"

definition convert_field_data ::
  "env \<Rightarrow> aho \<Rightarrow> field_data_map \<Rightarrow> field_data_key \<Rightarrow> string \<Rightarrow> string \<Rightarrow> json \<Rightarrow> string option" where
  "convert_field_data E A data_map key field field_data_str rec =
     (case Option.bind (map_of data_map key) (\<lambda>entry. map_of entry field) of
        None \<Rightarrow> None
      | Some (ReplaceStr ptns reps providers) \<Rightarrow>
          (if providers \<noteq> [] \<and> provider_of E rec \<notin> set providers then Some field_data_str
           else Some (ac_replace A ptns reps field_data_str))
      | Some HexToDecimal \<Rightarrow>
          (case strip_hex field_data_str of
             None \<Rightarrow> Some field_data_str
           | Some hex \<Rightarrow>
               (case parse_hex_u64 hex of
                  Some n \<Rightarrow> Some (show_nat n)
                | None \<Rightarrow> Some field_data_str)))"

text \<open>
  The tables of the bundled configuration, or of the files of a directory. A later document for the
  same channel and event id replaces an earlier one.
\<close>

definition collect_field_data :: "(field_data_key \<times> field_data_entry) list \<Rightarrow> field_data_map" where
  "collect_field_data es = fold (\<lambda>(k, e) m. assoc_insert k e m) es []"

definition load_yaml_files :: "(string \<Rightarrow> string + yaml list) \<Rightarrow> string \<Rightarrow> (string + (string \<times> string) list) option \<Rightarrow> string + yaml list" where
  "load_yaml_files load path dir =
     (case dir of
        None \<Rightarrow> Inl (''Field mapping dir['' @ path @ ''] does not exist.'')
      | Some (Inl e) \<Rightarrow> Inl e
      | Some (Inr fs) \<Rightarrow>
          Inr (concat (map (\<lambda>(name, text). if extension name = Some ''yaml''
                                           then (case load text of Inr docs \<Rightarrow> docs | Inl _ \<Rightarrow> []) else []) fs)))"

definition create_field_data_map ::
  "env \<Rightarrow> aho \<Rightarrow> (string \<Rightarrow> string + yaml list) \<Rightarrow> (string \<times> string) list \<Rightarrow> string \<Rightarrow>
   (string + (string \<times> string) list) option \<Rightarrow> field_data_map option" where
  "create_field_data_map E A load one_config path dir =
     (let values = map snd (filter (\<lambda>(k, _). contains_str k ''.yaml'' \<and> \<not> contains_str k ''geoip_field_mapping.yaml'') one_config) in
      if values \<noteq> []
      then Some (collect_field_data (map (build_field_data_map E A load)
                  (concat (map (\<lambda>v. case load v of Inr docs \<Rightarrow> docs | Inl _ \<Rightarrow> []) values))))
      else (case load_yaml_files load path dir of
              Inl _ \<Rightarrow> None
            | Inr ys \<Rightarrow> Some (collect_field_data (map (build_field_data_map E A load) ys))))"

subsection \<open>Hexadecimal numbers\<close>

fun show_hex :: "nat \<Rightarrow> string" where
  "show_hex n =
     (if n < 16 then [] else show_hex (n div 16)) @ [char_of (if n mod 16 < 10 then 48 + n mod 16 else 87 + n mod 16)]"

declare show_hex.simps [simp del]

lemma hex_digits_append:
  "hex_digits n (xs @ ys) = Option.bind (hex_digits n xs) (\<lambda>m. hex_digits m ys)"
  by (induction n xs rule: hex_digits.induct) (auto split: option.split)

lemma hex_value_digit: "d < 16 \<Longrightarrow> hex_value (char_of (if d < 10 then 48 + d else 87 + d)) = Some d"
  by (auto simp: hex_value_def is_digit_def)

lemma hex_digits_show_hex: "hex_digits 0 (show_hex n) = Some n"
proof (induction n rule: show_hex.induct)
  case (1 n)
  show ?case
  proof (cases "n < 16")
    case True
    then have "show_hex n = [char_of (if n < 10 then 48 + n else 87 + n)]" by (subst show_hex.simps) simp
    then show ?thesis using hex_value_digit [of n] True by (simp split del: if_split)
  next
    case False
    have "hex_digits 0 (show_hex n) =
        Option.bind (hex_digits 0 (show_hex (n div 16))) (\<lambda>m. hex_digits m [char_of (if n mod 16 < 10 then 48 + n mod 16 else 87 + n mod 16)])"
      using False by (subst show_hex.simps) (simp only: hex_digits_append if_False)
    also have "\<dots> = Some n" using 1 [OF False] hex_value_digit [of "n mod 16"] by simp
    finally show ?thesis .
  qed
qed

lemma show_hex_head: "show_hex n \<noteq> [] \<and> \<not> starts_with (show_hex n) ''+''"
proof -
  have "starts_with (show_hex n) ''+'' \<Longrightarrow> hex_digits 0 (show_hex n) = None"
    by (auto simp: starts_with_iff hex_value_def is_digit_def byte_def)
  then show ?thesis using hex_digits_show_hex [of n] by (subst show_hex.simps) (auto simp: show_hex.simps [of n])
qed

text \<open>
  The hexadecimal mapping is exact. A field with the mapping whose value is a number written in
  hexadecimal after \<open>0x\<close> becomes the same number in decimal as long as it fits 64 bits, and is left
  as it is beyond.
\<close>

theorem hex_to_decimal_exact:
  assumes "map_of data_map key = Some entry" and "map_of entry field = Some HexToDecimal"
  shows "convert_field_data E A data_map key field (''0x'' @ show_hex n) rec =
    Some (if n < 2 ^ 64 then show_nat n else ''0x'' @ show_hex n)"
  using assms show_hex_head [of n] hex_digits_show_hex [of n]
  by (simp add: convert_field_data_def strip_hex_def parse_hex_u64_def)

theorem hex_to_decimal_exact_witness:
  "convert_field_data env0 \<lparr>ac_ok = (\<lambda>_. True), ac_replace = (\<lambda>_ _ s. s)\<rparr>
     [((''security'', ''4688''), [(''newprocessid'', HexToDecimal)])] (''security'', ''4688'') ''newprocessid''
     (''0x'' @ show_hex 255) JNull = Some (if (255::nat) < 2 ^ 64 then show_nat 255 else ''0x'' @ show_hex 255)"
  by (rule hex_to_decimal_exact [where entry = "[(''newprocessid'', HexToDecimal)]"]) (simp_all only: map_of.simps fst_conv snd_conv if_True refl fun_upd_same)

end
