(* ===== verification/Message.thy ===== *)
theory Message
  imports Field_Data_Map Afterfact "HOL-Library.Word" "HOL-Library.Product_Lexorder"
begin

section \<open>Messages of a detection (message.rs, utils.rs, profile.rs)\<close>

text \<open>
  The text of a detection: aliases between percent signs are replaced by values of the event, every
  field of the event is listed for the column of all fields, and the columns of the profile are
  filled in. The two characters the program writes into texts, the broken bar between fields and the
  emoji before an escaped line break, are the byte strings \<open>bar_sep\<close> and \<open>passport\<close>.
\<close>

subsection \<open>White space\<close>

text \<open>\<open>char::is_control\<close> and \<open>char::is_ascii_whitespace\<close> on one UTF-8 character.\<close>

definition is_control :: "string \<Rightarrow> bool" where
  "is_control g \<longleftrightarrow>
     (case map byte g of
        [a] \<Rightarrow> a < 32 \<or> a = 127
      | [a, b] \<Rightarrow> a = 194 \<and> 128 \<le> b \<and> b \<le> 159
      | _ \<Rightarrow> False)"

definition ascii_white :: "char \<Rightarrow> bool" where
  "ascii_white c \<longleftrightarrow> byte c \<in> {32, 9, 10, 12, 13}"

fun ascii_words :: "string \<Rightarrow> string \<Rightarrow> string list" where
  "ascii_words acc [] = (if acc = [] then [] else [rev acc])"
| "ascii_words acc (c # s) =
     (if ascii_white c then (if acc = [] then ascii_words [] s else rev acc # ascii_words [] s)
      else ascii_words (c # acc) s)"

definition split_ascii_whitespace :: "string \<Rightarrow> string list" where
  "split_ascii_whitespace s = ascii_words [] s"

text \<open>
  \<open>remove_sp_char\<close>: line breaks and tabs become an emoji and a letter, other control characters and
  every space after a space are dropped.
\<close>

fun retain_chars :: "string \<Rightarrow> string list \<Rightarrow> string list" where
  "retain_chars prev [] = []"
| "retain_chars prev (g # gs) =
     (if (prev = '' '' \<and> g = '' '') \<or> is_control g then retain_chars prev gs
      else g # retain_chars g gs)"

definition remove_sp_char :: "string \<Rightarrow> string" where
  "remove_sp_char s =
     (let newline_replaced = replace_all [CHR 0x09] (passport @ ''t'')
            (replace_all [CHR 0x0D] (passport @ ''r'') (replace_all [CHR 0x0A] (passport @ ''n'') s))
      in trim (concat (retain_chars ''a'' (utf8_chars newline_replaced))))"

text \<open>\<open>str::split_once\<close> at a string.\<close>

fun split_once_str :: "string \<Rightarrow> string \<Rightarrow> (string \<times> string) option" where
  "split_once_str sep [] = (if sep = [] then Some ([], []) else None)"
| "split_once_str sep (c # s) =
     (if starts_with (c # s) sep then Some ([], drop (length sep) (c # s))
      else map_option (\<lambda>(a, b). (c # a, b)) (split_once_str sep s))"

definition key_and_value :: "string \<Rightarrow> string \<times> string" where
  "key_and_value s = unwrap_or ([], []) (split_once_str '': '' s)"

subsection \<open>All fields of an event\<close>

text \<open>\<open>convert_field_data\<close> with the tables that are loaded, if any.\<close>

definition field_converter ::
  "env \<Rightarrow> aho \<Rightarrow> field_data_map option \<Rightarrow> field_data_key \<Rightarrow> json \<Rightarrow> string \<Rightarrow> string \<Rightarrow> string option" where
  "field_converter E A data_map key rec f value =
     (case data_map of None \<Rightarrow> None | Some m \<Rightarrow> convert_field_data E A m key f value rec)"

definition clean_value :: "string \<Rightarrow> string" where
  "clean_value s = concat (map (\<lambda>g.
     if (is_control g \<or> (length g = 1 \<and> ascii_white (hd g))) \<and>
        g \<notin> {[CHR 0x0D], [CHR 0x0A], [CHR 0x09]} then '' '' else g) (utf8_chars s))"

text \<open>
  The walk over the members; \<open>arr_index\<close> is an \<open>i8\<close>, negative outside arrays, and the conversion of
  an index to it keeps the low eight bits.
\<close>

definition record_key :: "string \<Rightarrow> 8 word \<Rightarrow> string" where
  "record_key parent_key arr_index =
     (if 0 \<le> sint arr_index then parent_key @ ''['' @ show_int (sint (arr_index + 1)) @ '']'' else parent_key)"

definition leaf_record ::
  "env \<Rightarrow> (string \<Rightarrow> string \<Rightarrow> string option) \<Rightarrow> string \<Rightarrow> 8 word \<Rightarrow> json \<Rightarrow> (string \<times> string) list" where
  "leaf_record E conv parent_key arr_index v =
     (case value_to_string v of
        None \<Rightarrow> []
      | Some t \<Rightarrow>
          (let strval = clean_value t;
               key = record_key parent_key arr_index
           in [(key, if 0 \<le> sint arr_index then unwrap_or strval (conv (to_lowercase E key) strval) else strval)]))"

function collect_recordinfo ::
    "env \<Rightarrow> (string \<Rightarrow> string \<Rightarrow> string option) \<Rightarrow> string list \<Rightarrow> string \<Rightarrow> 8 word \<Rightarrow> json \<Rightarrow> (string \<times> string) list"
  and collect_elements ::
    "env \<Rightarrow> (string \<Rightarrow> string \<Rightarrow> string option) \<Rightarrow> string list \<Rightarrow> string \<Rightarrow> nat \<Rightarrow> json list \<Rightarrow> (string \<times> string) list"
  and collect_object ::
    "env \<Rightarrow> (string \<Rightarrow> string \<Rightarrow> string option) \<Rightarrow> string list \<Rightarrow> (string \<times> json) list \<Rightarrow> (string \<times> string) list" where
  "collect_recordinfo E conv ks parent_key i (JArray vs) = collect_elements E conv ks parent_key 0 vs"
| "collect_recordinfo E conv ks parent_key i (JObject kvs) =
     collect_object E conv (if parent_key \<noteq> [] then ks @ [parent_key] else ks) kvs"
| "collect_recordinfo E conv ks parent_key i JNull = []"
| "collect_recordinfo E conv ks parent_key i (JBool b) = leaf_record E conv parent_key i (JBool b)"
| "collect_recordinfo E conv ks parent_key i (JNumber n) = leaf_record E conv parent_key i (JNumber n)"
| "collect_recordinfo E conv ks parent_key i (JString s) = leaf_record E conv parent_key i (JString s)"
| "collect_elements E conv ks parent_key i [] = []"
| "collect_elements E conv ks parent_key i (v # vs) =
     collect_recordinfo E conv ks parent_key (of_nat i) v @ collect_elements E conv ks parent_key (i + 1) vs"
| "collect_object E conv ks [] = []"
| "collect_object E conv ks ((k, v) # kvs) =
     (if k = ''xmlns'' \<or> (k = ''System'' \<and> ks \<noteq> [] \<and> hd ks = ''Event'') then []
      else collect_recordinfo E conv ks k (- 1) v) @ collect_object E conv ks kvs"
  by pat_completeness auto
termination
  by (relation "measure (\<lambda>x. case x of
        Inl (E, conv, ks, p, i, v) \<Rightarrow> size v
      | Inr (Inl (E, conv, ks, p, i, vs)) \<Rightarrow> size_list size vs
      | Inr (Inr (E, conv, ks, kvs)) \<Rightarrow> size_list (size_prod (\<lambda>_. 0) size) kvs)") auto

definition create_recordinfos ::
  "env \<Rightarrow> aho \<Rightarrow> json \<Rightarrow> field_data_key \<Rightarrow> field_data_map option \<Rightarrow> string list" where
  "create_recordinfos E A rec key data_map =
     (let conv = field_converter E A data_map key rec in
      map (\<lambda>(k, v). k @ '': '' @ remove_sp_char (unwrap_or v (conv (to_lowercase E k) v)))
        (sort (remdups (collect_recordinfo E conv [] [] (- 1) rec))))"

subsection \<open>Aliases in a message\<close>

text \<open>\<open>%[a-zA-Z0-9-_\[\]]+%\<close>: the names in the order of their matches, which do not overlap.\<close>

definition alias_char :: "char \<Rightarrow> bool" where
  "alias_char c \<longleftrightarrow>
     (97 \<le> byte c \<and> byte c \<le> 122) \<or> (65 \<le> byte c \<and> byte c \<le> 90) \<or> is_digit c \<or> c \<in> set ''-_[]''"

function find_aliases :: "string \<Rightarrow> string list" where
  "find_aliases [] = []"
| "find_aliases (c # cs) =
     (if c = CHR ''%'' \<and> takeWhile alias_char cs \<noteq> [] \<and> starts_with (dropWhile alias_char cs) ''%''
      then takeWhile alias_char cs # find_aliases (tl (dropWhile alias_char cs))
      else find_aliases cs)"
  by pat_completeness auto
termination
proof (relation "measure length")
  fix c cs
  have "length (tl (dropWhile alias_char cs)) \<le> length cs"
    using length_dropWhile_le [of alias_char cs] by simp
  then show "(tl (dropWhile alias_char cs), c # cs) \<in> measure length" by simp
qed auto

text \<open>\<open>\[([0-9]+)\]\<close>: the digits of the first match.\<close>

fun find_suffix :: "string \<Rightarrow> string option" where
  "find_suffix [] = None"
| "find_suffix (c # cs) =
     (if c = CHR ''['' \<and> takeWhile is_digit cs \<noteq> [] \<and> starts_with (dropWhile is_digit cs) '']''
      then Some (takeWhile is_digit cs) else find_suffix cs)"

definition alias_suffix :: "string \<Rightarrow> int" where
  "alias_suffix target_str = unwrap_or (- 1) (Option.bind (find_suffix target_str) parse_i64)"

text \<open>The walk along the path of the alias; a missing member is skipped. The field is the last one found.\<close>

fun walk_record :: "json \<Rightarrow> string \<Rightarrow> string list \<Rightarrow> json \<times> string" where
  "walk_record rec fld [] = (rec, fld)"
| "walk_record rec fld (s # ss) =
     (case json_get s rec of Some r \<Rightarrow> walk_record r s ss | None \<Rightarrow> walk_record rec fld ss)"

definition array_get :: "json \<Rightarrow> nat \<Rightarrow> json option" where
  "array_get v i = (case v of JArray vs \<Rightarrow> if i < length vs then Some (vs ! i) else None | _ \<Rightarrow> None)"

definition alias_target :: "alias_config \<Rightarrow> json \<Rightarrow> string \<Rightarrow> json \<times> string" where
  "alias_target c event_record target_str =
     (let array_str = (case get_event_key c target_str of Some s \<Rightarrow> s | None \<Rightarrow> ''Event.EventData.'' @ target_str);
          (rec, fld) = walk_record event_record [] (split_char (CHR ''.'') array_str);
          suffix = alias_suffix target_str
      in if suffix \<ge> 1
         then (unwrap_or rec (array_get (unwrap_or rec (json_get ''Data'' rec)) (nat (suffix - 1))), target_str)
         else (rec, fld))"

definition alias_value ::
  "env \<Rightarrow> aho \<Rightarrow> alias_config \<Rightarrow> field_data_key \<Rightarrow> field_data_map option \<Rightarrow> bool \<Rightarrow> json \<Rightarrow> string \<Rightarrow> string" where
  "alias_value E A c key data_map json_timeline_flag event_record target_str =
     (let (rec, fld) = alias_target c event_record target_str in
      case get_serde_number_to_string E rec False of
        None \<Rightarrow> ''n/a''
      | Some hash_value \<Rightarrow>
          (let field_data =
                 (if fld = [] then hash_value
                  else unwrap_or hash_value
                         (field_converter E A data_map key event_record (to_lowercase E fld) hash_value))
           in if json_timeline_flag then field_data else join '' '' (split_ascii_whitespace field_data)))"

definition details_key_and_value :: "string list \<Rightarrow> (string \<times> string) list \<Rightarrow> string list" where
  "details_key_and_value details_key hash_map =
     (if hash_map = [] then map (\<lambda>d. fst (key_and_value d) @ '': '' @ snd (key_and_value d)) details_key
      else option_list (map (\<lambda>(k, v).
             map_option (\<lambda>d. fst (key_and_value d) @ '': '' @ v) (find (\<lambda>d. contains_str d k) details_key)) hash_map))"

definition parse_message ::
  "env \<Rightarrow> aho \<Rightarrow> json \<Rightarrow> string \<Rightarrow> alias_config \<Rightarrow> bool \<Rightarrow> field_data_key \<Rightarrow> field_data_map option \<Rightarrow>
   string \<times> string list" where
  "parse_message E A event_record output c json_timeline_flag key data_map =
     (let details_key = split_str bar_sep [] output;
          hash_map = map (\<lambda>a. (''%'' @ a @ ''%'', alias_value E A c key data_map json_timeline_flag event_record a))
            (find_aliases output);
          return_message =
            (if json_timeline_flag then output else fold (\<lambda>(k, v) m. replace_all k v m) hash_map output)
      in (return_message, details_key_and_value details_key hash_map))"

subsection \<open>The columns of the profile\<close>

fun profile_convert :: "profile \<Rightarrow> string \<Rightarrow> profile" where
  "profile_convert (PTimestamp _) v = PTimestamp v" | "profile_convert (PComputer _) v = PComputer v"
| "profile_convert (PChannel _) v = PChannel v" | "profile_convert (PLevel _) v = PLevel v"
| "profile_convert (PEventID _) v = PEventID v" | "profile_convert (PRecordID _) v = PRecordID v"
| "profile_convert (PRuleTitle _) v = PRuleTitle v" | "profile_convert (PAllFieldInfo _) v = PAllFieldInfo v"
| "profile_convert (PRuleFile _) v = PRuleFile v" | "profile_convert (PEvtxFile _) v = PEvtxFile v"
| "profile_convert (PMitreTactics _) v = PMitreTactics v" | "profile_convert (PMitreTags _) v = PMitreTags v"
| "profile_convert (POtherTags _) v = POtherTags v" | "profile_convert (PRuleAuthor _) v = PRuleAuthor v"
| "profile_convert (PRuleCreationDate _) v = PRuleCreationDate v"
| "profile_convert (PRuleModifiedDate _) v = PRuleModifiedDate v"
| "profile_convert (PStatus _) v = PStatus v" | "profile_convert (PRuleID _) v = PRuleID v"
| "profile_convert (PProvider _) v = PProvider v" | "profile_convert (PDetails _) v = PDetails v"
| "profile_convert (PRenderedMessage _) v = PRenderedMessage v" | "profile_convert (PSrcASN _) v = PSrcASN v"
| "profile_convert (PSrcCountry _) v = PSrcCountry v" | "profile_convert (PSrcCity _) v = PSrcCity v"
| "profile_convert (PTgtASN _) v = PTgtASN v" | "profile_convert (PTgtCountry _) v = PTgtCountry v"
| "profile_convert (PTgtCity _) v = PTgtCity v" | "profile_convert (PExtraFieldInfo _) v = PExtraFieldInfo v"
| "profile_convert (PRecoveredRecord _) v = PRecoveredRecord v" | "profile_convert (PLiteral w) v = PLiteral w"

fun is_geo :: "profile \<Rightarrow> bool" where
  "is_geo (PSrcASN _) = True" | "is_geo (PSrcCountry _) = True" | "is_geo (PSrcCity _) = True"
| "is_geo (PTgtASN _) = True" | "is_geo (PTgtCountry _) = True" | "is_geo (PTgtCity _) = True"
| "is_geo _ = False"

text \<open>
  What the loop over the columns threads: the columns so far, the text of the details, which the
  first column that takes it leaves empty, the parts kept for the JSON output, and whether the
  column of all fields was seen.
\<close>

record message_state =
  replaced_profiles :: "(string \<times> profile) list"
  ms_detail :: string
  details_info_map :: "(string \<times> string list) list"
  exist_all_field_info :: bool

record message_config =
  mc_alias :: alias_config
  mc_key :: field_data_key
  mc_data_map :: "field_data_map option"
  mc_agg :: bool
  mc_json :: bool

abbreviation push_profile :: "string \<Rightarrow> profile \<Rightarrow> message_state \<Rightarrow> message_state" where
  "push_profile k p s \<equiv> s\<lparr>replaced_profiles := replaced_profiles s @ [(k, p)]\<rparr>"

abbreviation put_info :: "string \<Rightarrow> string list \<Rightarrow> message_state \<Rightarrow> message_state" where
  "put_info k v s \<equiv> s\<lparr>details_info_map := assoc_insert k v (details_info_map s)\<rparr>"

definition all_field_values :: "env \<Rightarrow> aho \<Rightarrow> message_config \<Rightarrow> json \<Rightarrow> message_state \<Rightarrow> string list" where
  "all_field_values E A mc event_record s =
     (case map_of (details_info_map s) ''#AllFieldInfo'' of
        Some c \<Rightarrow> c
      | None \<Rightarrow> create_recordinfos E A event_record (mc_key mc) (mc_data_map mc))"

definition all_field_column ::
  "env \<Rightarrow> aho \<Rightarrow> message_config \<Rightarrow> json \<Rightarrow> string \<Rightarrow> message_state \<Rightarrow> message_state" where
  "all_field_column E A mc event_record k st =
     (let s = st\<lparr>exist_all_field_info := True\<rparr> in
      if mc_agg mc then
        (let s' = push_profile k (PAllFieldInfo (ms_detail s)) s in
         if mc_json mc then put_info ''#AllFieldInfo'' [ms_detail s] s' else s')
      else
        (let recinfos = all_field_values E A mc event_record s in
         if mc_json mc then push_profile k (PAllFieldInfo []) (put_info ''#AllFieldInfo'' recinfos s)
         else push_profile k (PAllFieldInfo (if recinfos = [] then ''-'' else join bar_sep recinfos)) s))"

text \<open>The values of the details, without a trailing comma, hide the fields with the same value.\<close>

definition details_splits :: "string list \<Rightarrow> string list" where
  "details_splits sp_removed =
     map (\<lambda>x. let v = snd (key_and_value x) in if ends_with v '','' then butlast v else v) sp_removed"

definition extra_fields :: "string list \<Rightarrow> string list \<Rightarrow> string list" where
  "extra_fields sp_removed infos =
     sort (filter (\<lambda>x. snd (key_and_value x) \<notin> set (details_splits sp_removed)) infos)"

definition extra_field_column ::
  "env \<Rightarrow> aho \<Rightarrow> message_config \<Rightarrow> json \<Rightarrow> string list \<Rightarrow> string \<Rightarrow> message_state \<Rightarrow> message_state" where
  "extra_field_column E A mc event_record sp_removed k s =
     (if mc_agg mc then
        push_profile k (PExtraFieldInfo ''-'') (if mc_json mc then put_info ''#ExtraFieldInfo'' [''-''] s else s)
      else
        (let infos = all_field_values E A mc event_record s;
             s' = put_info ''#AllFieldInfo'' infos s;
             extra_field_vec = extra_fields sp_removed infos
         in if mc_json mc
            then push_profile k (PExtraFieldInfo ''-'') (put_info ''#ExtraFieldInfo'' extra_field_vec s')
            else push_profile k (PExtraFieldInfo (if extra_field_vec = [] then ''-'' else join bar_sep extra_field_vec)) s'))"

text \<open>One column; \<open>None\<close> is the panic on a location column without a value.\<close>

definition message_column ::
  "env \<Rightarrow> aho \<Rightarrow> message_config \<Rightarrow> json \<Rightarrow> (string \<rightharpoonup> profile) \<Rightarrow> string list \<Rightarrow> string \<times> profile \<Rightarrow>
   message_state \<Rightarrow> message_state option" where
  "message_column E A mc event_record profile_converter sp_removed kp s =
     (let (k, p) = kp in
      case p of
        PDetails _ \<Rightarrow>
          Some (if ms_detail s = [] then push_profile k p s
                else (push_profile k (PDetails (ms_detail s)) s)\<lparr>ms_detail := []\<rparr>)
      | PAllFieldInfo _ \<Rightarrow> Some (all_field_column E A mc event_record k s)
      | PLiteral _ \<Rightarrow> Some (push_profile k p s)
      | PExtraFieldInfo _ \<Rightarrow> Some (extra_field_column E A mc event_record sp_removed k s)
      | _ \<Rightarrow>
          (if is_geo p then map_option (\<lambda>q. push_profile k q s) (profile_converter k)
           else Some (case profile_converter k of
                        None \<Rightarrow> s
                      | Some q \<Rightarrow>
                          push_profile k (profile_convert p
                            (fst (parse_message E A event_record (to_value q) (mc_alias mc) (mc_json mc)
                                    (mc_key mc) (mc_data_map mc)))) s)))"

fun message_columns ::
  "env \<Rightarrow> aho \<Rightarrow> message_config \<Rightarrow> json \<Rightarrow> (string \<rightharpoonup> profile) \<Rightarrow> string list \<Rightarrow> (string \<times> profile) list \<Rightarrow>
   message_state \<Rightarrow> message_state option" where
  "message_columns E A mc event_record profile_converter sp_removed [] s = Some s"
| "message_columns E A mc event_record profile_converter sp_removed (kp # kps) s =
     Option.bind (message_column E A mc event_record profile_converter sp_removed kp s)
       (message_columns E A mc event_record profile_converter sp_removed kps)"

definition initial_message ::
  "env \<Rightarrow> aho \<Rightarrow> message_config \<Rightarrow> json \<Rightarrow> string \<Rightarrow> detection_info \<Rightarrow> string list \<times> message_state" where
  "initial_message E A mc event_record output d =
     (let s = \<lparr>replaced_profiles = [], ms_detail = di_detail d, details_info_map = [], exist_all_field_info = False\<rparr> in
      if \<not> mc_agg mc then
        (let (parsed, details) = parse_message E A event_record output (mc_alias mc) (mc_json mc) (mc_key mc) (mc_data_map mc);
             sp_removed = map remove_sp_char details;
             parsed_detail = remove_sp_char parsed;
             s' = (if mc_json mc then put_info ''#Details'' sp_removed s else s)
         in (sp_removed, s'\<lparr>ms_detail := (if parsed_detail = [] then ''-'' else parsed_detail)\<rparr>))
      else ([], put_info ''#Details'' [if output \<noteq> ''-'' then output
                                      else if di_detail d \<noteq> ''-'' then di_detail d else ''-''] s))"

definition create_message ::
  "env \<Rightarrow> aho \<Rightarrow> json \<Rightarrow> string \<Rightarrow> detection_info \<Rightarrow> (string \<rightharpoonup> profile) \<Rightarrow> message_config \<Rightarrow> detection_info option" where
  "create_message E A event_record output d profile_converter mc =
     (let (sp_removed, s) = initial_message E A mc event_record output d in
      map_option (\<lambda>s'. d\<lparr>di_detail := ms_detail s', ext_field := replaced_profiles s',
          details_convert_map :=
            (if exist_all_field_info s' then details_info_map s'
             else filter (\<lambda>(k, _). k \<noteq> ''#AllFieldInfo'') (details_info_map s'))\<rparr>)
        (message_columns E A mc event_record profile_converter sp_removed (ext_field d) s))"
subsection \<open>Configuration of abbreviations\<close>

text \<open>
  \<open>create_output_filter_config\<close>: the rows of a file, or of the bundled one for the tactics; the key is
  the first cell. \<open>None\<close> is the panic on a row without cells.
\<close>

definition filter_config_row :: "bool \<Rightarrow> string list \<Rightarrow> (string \<times> string) list \<Rightarrow> (string \<times> string) list option" where
  "filter_config_row is_lower_case row m =
     (case row of
        [] \<Rightarrow> None
      | k # vs \<Rightarrow> Some (assoc_insert (if is_lower_case then to_ascii_lowercase (trim k) else trim k)
                     (join '','' (map trim vs)) m))"

fun filter_config_rows :: "bool \<Rightarrow> string list list \<Rightarrow> (string \<times> string) list \<Rightarrow> (string \<times> string) list option" where
  "filter_config_rows is_lower_case [] m = Some m"
| "filter_config_rows is_lower_case (r # rs) m =
     Option.bind (filter_config_row is_lower_case r m) (filter_config_rows is_lower_case rs)"

definition create_output_filter_config ::
  "(string \<Rightarrow> string + string list list) \<Rightarrow> string list list \<Rightarrow> string \<Rightarrow> bool \<Rightarrow> bool \<Rightarrow> (string \<times> string) list option" where
  "create_output_filter_config read_csv bundled path is_lower_case disable_abbreviation =
     (if disable_abbreviation then Some []
      else filter_config_rows is_lower_case
             (case read_csv path of
                Inr c \<Rightarrow> c
              | Inl e \<Rightarrow> if contains_str path ''mitre_tactics.txt'' then bundled else []) [])"

subsection \<open>Templates\<close>

text \<open>
  A template is a text and a list of aliases, each with the text after it. Texts hold no percent sign;
  between two aliases there is a character that cannot be part of an alias.
\<close>

definition alias_name :: "string \<Rightarrow> bool" where
  "alias_name a \<longleftrightarrow> a \<noteq> [] \<and> list_all alias_char a"

definition template_ok :: "string \<Rightarrow> (string \<times> string) list \<Rightarrow> bool" where
  "template_ok s0 aps \<longleftrightarrow>
     CHR ''%'' \<notin> set s0 \<and> (\<forall>(a, t) \<in> set aps. alias_name a \<and> CHR ''%'' \<notin> set t) \<and>
     (\<forall>(a, t) \<in> set (butlast aps). \<exists>c \<in> set t. \<not> alias_char c)"

definition fill_template :: "(string \<Rightarrow> string) \<Rightarrow> string \<Rightarrow> (string \<times> string) list \<Rightarrow> string" where
  "fill_template f s0 aps = s0 @ concat (map (\<lambda>(a, t). f a @ t) aps)"

abbreviation percent_quoted :: "string \<Rightarrow> string" where
  "percent_quoted a \<equiv> ''%'' @ a @ ''%''"

lemma percent_not_alias [simp]: "\<not> alias_char (CHR ''%'')"
  by code_simp

lemma alias_name_no_percent: "alias_name a \<Longrightarrow> CHR ''%'' \<notin> set a"
  by (auto simp: alias_name_def list_all_iff)

lemma find_aliases_text: "CHR ''%'' \<notin> set s \<Longrightarrow> find_aliases (s @ t) = find_aliases t"
  by (induction s) auto

lemma find_aliases_quoted:
  assumes "alias_name a"
  shows "find_aliases (percent_quoted a @ t) = a # find_aliases t"
proof -
  have "takeWhile alias_char (a @ ''%'' @ t) = a" and "dropWhile alias_char (a @ ''%'' @ t) = ''%'' @ t"
    using assms by (auto simp: alias_name_def list_all_iff takeWhile_append dropWhile_append)
  with assms show ?thesis by (simp add: alias_name_def)
qed

lemma find_aliases_template:
  "template_ok s0 aps \<Longrightarrow> find_aliases (fill_template percent_quoted s0 aps) = map fst aps"
proof -
  have tail: "\<forall>(a, t) \<in> set aps. alias_name a \<and> CHR ''%'' \<notin> set t \<Longrightarrow>
      find_aliases (concat (map (\<lambda>(a, t). percent_quoted a @ t) aps)) = map fst aps" for aps
  proof (induction aps)
    case (Cons p aps)
    obtain a t where [simp]: "p = (a, t)" by (cases p)
    show ?case
      using Cons find_aliases_quoted [of a "t @ concat (map (\<lambda>(a, t). percent_quoted a @ t) aps)"]
      by (simp add: find_aliases_text)
  qed simp
  assume "template_ok s0 aps"
  then show ?thesis using tail [of aps] by (simp add: fill_template_def template_ok_def find_aliases_text)
qed

text \<open>
  Replacing one alias: a percent sign that closes another alias starts no occurrence, since the text
  after it up to the next percent sign has a character that is in no alias.
\<close>

lemma replace_text:
  "CHR ''%'' \<notin> set s \<Longrightarrow> replace_all (CHR ''%'' # p) r (s @ t) = s @ replace_all (CHR ''%'' # p) r t"
  by (induction s) auto

lemma starts_alias_same:
  assumes "alias_name a" and "alias_name k" and "starts_with (a @ ''%'' @ t) (k @ ''%'')"
  shows "a = k"
proof -
  obtain u where "a @ ''%'' @ t = k @ ''%'' @ u" using assms(3) by (auto simp: starts_with_iff)
  then have "takeWhile (\<lambda>c. c \<noteq> CHR ''%'') (a @ ''%'' @ t) = takeWhile (\<lambda>c. c \<noteq> CHR ''%'') (k @ ''%'' @ u)"
    by simp
  moreover have "takeWhile (\<lambda>c. c \<noteq> CHR ''%'') (b @ ''%'' @ v) = b" if "alias_name b" for b v
    using alias_name_no_percent [OF that] by (subst takeWhile_append2) auto
  ultimately show ?thesis using assms(1,2) by metis
qed

lemma no_start_after_text:
  assumes "alias_name k" and "\<exists>c \<in> set s. \<not> alias_char c" and "CHR ''%'' \<notin> set s"
  shows "\<not> starts_with (s @ t) (k @ ''%'')"
proof
  assume "starts_with (s @ t) (k @ ''%'')"
  then obtain u where u: "s @ t = k @ ''%'' @ u" by (auto simp: starts_with_iff)
  show False
  proof (cases "length s \<le> length k")
    case True
    then have "s = take (length s) k" using u by (metis append_eq_append_conv_if)
    then show False using assms(1,2) by (metis alias_name_def in_set_takeD list_all_iff)
  next
    case False
    then have "s ! length k = CHR ''%''" using u by (metis append_Cons linorder_not_le nth_append nth_append_length)
    then show False using assms(3) False by (metis linorder_not_le nth_mem)
  qed
qed

lemma replace_quoted_same:
  "replace_all (percent_quoted a) r (percent_quoted a @ t) = r @ replace_all (percent_quoted a) r t"
  by (simp add: starts_with_def)

lemma replace_quoted_other:
  assumes "alias_name a" and "alias_name k" and "a \<noteq> k" and "\<not> starts_with t (k @ ''%'')"
  shows "replace_all (percent_quoted k) r (percent_quoted a @ t) = percent_quoted a @ replace_all (percent_quoted k) r t"
proof -
  have 1: "\<not> starts_with (a @ CHR ''%'' # t) (k @ ''%'')" using starts_alias_same [OF assms(1,2), of t] assms(3) by auto
  have "replace_all (percent_quoted k) r (percent_quoted a @ t) = CHR ''%'' # replace_all (percent_quoted k) r (a @ ''%'' @ t)"
    using 1 by (simp add: starts_with_def)
  also have "replace_all (percent_quoted k) r (a @ ''%'' @ t) = a @ replace_all (percent_quoted k) r (''%'' @ t)"
    using replace_text [OF alias_name_no_percent [OF assms(1)], of "k @ ''%''" r "''%'' @ t"] by simp
  also have "replace_all (percent_quoted k) r (''%'' @ t) = ''%'' @ replace_all (percent_quoted k) r t"
    using assms(4) by simp
  finally show ?thesis by simp
qed

definition partly_filled :: "string set \<Rightarrow> (string \<Rightarrow> string) \<Rightarrow> string \<Rightarrow> string" where
  "partly_filled D f a = (if a \<in> D then f a else percent_quoted a)"

abbreviation filled_tail :: "string set \<Rightarrow> (string \<Rightarrow> string) \<Rightarrow> (string \<times> string) list \<Rightarrow> string" where
  "filled_tail D f aps \<equiv> concat (map (\<lambda>(a, t). partly_filled D f a @ t) aps)"

lemma replace_in_tail:
  assumes "alias_name k" and "\<forall>a \<in> D. CHR ''%'' \<notin> set (f a)"
    and "\<forall>(a, t) \<in> set aps. alias_name a \<and> CHR ''%'' \<notin> set t"
    and "\<forall>(a, t) \<in> set (butlast aps). \<exists>c \<in> set t. \<not> alias_char c"
  shows "replace_all (percent_quoted k) (f k) (filled_tail D f aps) = filled_tail (insert k D) f aps"
  using assms(3,4)
proof (induction aps)
  case (Cons p aps)
  obtain a t where p [simp]: "p = (a, t)" by (cases p)
  have at: "alias_name a" "CHR ''%'' \<notin> set t" using Cons.prems by auto
  have tail: "replace_all (percent_quoted k) (f k) (t @ filled_tail D f aps) = t @ filled_tail (insert k D) f aps"
    using Cons at(2) replace_text [OF at(2), of "k @ ''%''" "f k" "filled_tail D f aps"]
    by (cases aps) auto
  consider (already) "a \<in> D" | (same) "a \<notin> D" "a = k" | (other) "a \<notin> D" "a \<noteq> k" by blast
  then show ?case
  proof cases
    case already
    then show ?thesis
      using tail assms(2) replace_text [of "f a" "k @ ''%''" "f k" "t @ filled_tail D f aps"]
      by (simp add: partly_filled_def)
  next
    case same
    then show ?thesis
      using tail replace_quoted_same [of k "f k" "t @ filled_tail D f aps"] by (simp add: partly_filled_def)
  next
    case other
    have "\<not> starts_with (t @ filled_tail D f aps) (k @ ''%'')"
    proof (cases "aps = []")
      case True
      then show ?thesis using at(2) by (auto simp: starts_with_iff)
    next
      case False
      then show ?thesis using Cons.prems at(2) no_start_after_text [OF assms(1)] by auto
    qed
    then show ?thesis
      using tail other replace_quoted_other [OF at(1) assms(1)] by (simp add: partly_filled_def)
  qed
qed simp
lemma replace_in_template:
  assumes "template_ok s0 aps" and "alias_name k" and "\<forall>a \<in> D. CHR ''%'' \<notin> set (f a)"
  shows "replace_all (percent_quoted k) (f k) (fill_template (partly_filled D f) s0 aps) =
    fill_template (partly_filled (insert k D) f) s0 aps"
  using assms replace_in_tail [OF assms(2,3), of aps]
    replace_text [of s0 "k @ ''%''" "f k" "filled_tail D f aps"]
  by (simp add: template_ok_def fill_template_def)

lemma replace_aliases:
  assumes "template_ok s0 aps" and "\<forall>a \<in> set ks. alias_name a \<and> CHR ''%'' \<notin> set (f a)"
    and "\<forall>a \<in> D. CHR ''%'' \<notin> set (f a)"
  shows "fold (\<lambda>a. replace_all (percent_quoted a) (f a)) ks (fill_template (partly_filled D f) s0 aps) =
    fill_template (partly_filled (set ks \<union> D) f) s0 aps"
  using assms(2,3)
proof (induction ks arbitrary: D)
  case (Cons k ks)
  then show ?case using Cons.IH [of "insert k D"] replace_in_template [OF assms(1)] by simp
qed simp

text \<open>
  C37: The details of a detection are what their template says. In the form that is not JSON, for a
  template whose aliases are separated by texts without a percent sign, each with a character that
  cannot stand in an alias, and for event values without a percent sign, the program's one-after-the-other replacement puts the value of every alias in its
  place and leaves everything else as it is.
\<close>

theorem parse_message_fills_template:
  assumes "template_ok s0 aps"
    and "\<forall>(a, t) \<in> set aps. CHR ''%'' \<notin> set (alias_value E A c key data_map False event_record a)"
  shows "fst (parse_message E A event_record (fill_template (\<lambda>a. ''%'' @ a @ ''%'') s0 aps) c False key data_map) =
    fill_template (alias_value E A c key data_map False event_record) s0 aps"
proof -
  define f where "f = alias_value E A c key data_map False event_record"
  have start: "fill_template percent_quoted s0 aps = fill_template (partly_filled {} f) s0 aps"
    by (simp add: fill_template_def partly_filled_def)
  have "fill_template (partly_filled (set (map fst aps)) f) s0 aps = fill_template f s0 aps"
    by (auto simp: fill_template_def partly_filled_def intro!: arg_cong [of _ _ concat] map_cong; force)
  moreover have "fst (parse_message E A event_record (fill_template percent_quoted s0 aps) c False key data_map) =
      fold (\<lambda>a. replace_all (percent_quoted a) (f a)) (map fst aps) (fill_template percent_quoted s0 aps)"
    using find_aliases_template [OF assms(1)] by (simp add: parse_message_def fold_map comp_def f_def)
  moreover have "\<forall>a \<in> set (map fst aps). alias_name a \<and> CHR ''%'' \<notin> set (f a)"
    using assms by (auto simp: template_ok_def f_def)
  ultimately show ?thesis
    using replace_aliases [OF assms(1), of "map fst aps" f "{}"] start by (simp add: f_def)
qed
definition no_aho :: aho where
  "no_aho = \<lparr>ac_ok = (\<lambda>_. True), ac_replace = (\<lambda>_ _ s. s)\<rparr>"

definition event_of :: "(string \<times> json) list \<Rightarrow> json" where
  "event_of kvs = JObject [(''Event'', JObject [(''EventData'', JObject kvs)])]"

theorem parse_message_fills_template_witness:
  "fst (parse_message env0 no_aho (event_of [(''User'', JString ''bob'')]) (fill_template (\<lambda>a. ''%'' @ a @ ''%'') ''U: '' [(''User'', ''.'')])
     new_alias_config False ([], []) None) =
   fill_template (alias_value env0 no_aho new_alias_config ([], []) None False (event_of [(''User'', JString ''bob'')])) ''U: '' [(''User'', ''.'')]"
  by (rule parse_message_fills_template) code_simp+

text \<open>A value that looks like an alias is itself replaced when the template has that alias later on.\<close>

lemma alias_in_value_is_expanded:
  "fst (parse_message env0 no_aho (event_of [(''Cmd'', JString ''x %User% y''), (''User'', JString ''bob'')])
     (''C: %Cmd%'' @ bar_sep @ ''U: %User%'') new_alias_config False ([], []) None) = ''C: x bob y'' @ bar_sep @ ''U: bob''"
  by code_simp

text \<open>In the JSON form an alias that occurs in two parts is kept only in the first.\<close>

lemma repeated_alias_part_lost:
  "snd (parse_message env0 no_aho (event_of [(''User'', JString ''bob'')])
     (''From: %User%'' @ bar_sep @ ''To: %User%'') new_alias_config True ([], []) None) = [''From: bob'', ''From: bob'']"
  by code_simp

lemma part_without_alias_lost:
  "snd (parse_message env0 no_aho (event_of [(''User'', JString ''bob'')])
     (''Note: checked'' @ bar_sep @ ''User: %User%'') new_alias_config True ([], []) None) = [''User: bob'']"
  by code_simp

text \<open>The index of an array element wraps at 128, where the key becomes a negative one.\<close>

lemma record_key_index:
  "i < 127 \<Longrightarrow> record_key p (of_nat i) = p @ ''['' @ show_nat (i + 1) @ '']''"
proof -
  have small: "sint (word_of_nat n :: 8 word) = int n" if "n < 128" for n
    using that by (simp add: signed_of_nat signed_take_bit_int_eq_self)
  assume "i < 127"
  moreover have "word_of_nat i + 1 = (word_of_nat (Suc i) :: 8 word)" by simp
  ultimately show ?thesis using small [of i] small [of "Suc i"]
    by (simp add: record_key_def show_int_def del: of_nat_Suc)
qed

lemma record_key_wraps: "record_key ''Data'' (of_nat 127) = ''Data[-128]''" "record_key ''Data'' (of_nat 128) = ''Data''"
  by code_simp+
end
