(* ===== verification/Geo_IP.thy ===== *)
theory Geo_IP
  imports Values "HOL-Library.Word"
begin

section \<open>Locations of IP addresses (geoip\_search.rs)\<close>

text \<open>
  The look-up of an address in the three MaxMind databases, behind the special addresses, the private
  ranges and a cache. Addresses are words of 32 and 128 bits, read by the parser of the Rust standard
  library; the reader of the databases is a parameter.
\<close>

subsection \<open>Parsing addresses (\<open>IpAddr::from_str\<close>)\<close>

datatype ip_addr = V4 "32 word" | V6 "128 word"

definition below :: "nat \<Rightarrow> nat \<Rightarrow> nat option" where
  "below radix d = (if d < radix then Some d else None)"

definition digit_value :: "nat \<Rightarrow> char \<Rightarrow> nat option" where
  "digit_value radix c =
     (if 48 \<le> byte c \<and> byte c \<le> 57 then below radix (byte c - 48)
      else if 97 \<le> byte c \<and> byte c \<le> 122 then below radix (byte c - 87)
      else if 65 \<le> byte c \<and> byte c \<le> 90 then below radix (byte c - 55)
      else None)"

text \<open>The digits at the front and their value; too many digits, or none, or a value too big, is a failure.\<close>

fun take_digits :: "nat \<Rightarrow> nat \<Rightarrow> nat \<Rightarrow> string \<Rightarrow> nat \<times> nat \<times> string" where
  "take_digits radix n acc [] = (n, acc, [])"
| "take_digits radix n acc (c # cs) =
     (case digit_value radix c of
        Some d \<Rightarrow> take_digits radix (n + 1) (acc * radix + d) cs
      | None \<Rightarrow> (n, acc, c # cs))"

definition read_number :: "nat \<Rightarrow> nat \<Rightarrow> bool \<Rightarrow> nat \<Rightarrow> string \<Rightarrow> (nat \<times> string) option" where
  "read_number radix max_digits allow_zero_prefix bound s =
     (case take_digits radix 0 0 s of
        (n, v, rest) \<Rightarrow>
          if n = 0 \<or> max_digits < n \<or> bound \<le> v \<or> (\<not> allow_zero_prefix \<and> starts_with s ''0'' \<and> 1 < n)
          then None else Some (v, rest))"

definition read_char :: "char \<Rightarrow> string \<Rightarrow> string option" where
  "read_char c s = (case s of d # ds \<Rightarrow> if d = c then Some ds else None | [] \<Rightarrow> None)"

definition read_separated :: "char \<Rightarrow> nat \<Rightarrow> (string \<Rightarrow> ('a \<times> string) option) \<Rightarrow> string \<Rightarrow> ('a \<times> string) option" where
  "read_separated sep i inner s =
     (if i = 0 then inner s else Option.bind (read_char sep s) inner)"

fun read_octets :: "nat \<Rightarrow> nat \<Rightarrow> nat list \<Rightarrow> string \<Rightarrow> (nat list \<times> string) option" where
  "read_octets 0 i os s = Some (os, s)"
| "read_octets (Suc n) i os s =
     (case read_separated (CHR ''.'') i (read_number 10 3 False 256) s of
        None \<Rightarrow> None
      | Some (v, rest) \<Rightarrow> read_octets n (i + 1) (os @ [v]) rest)"

definition read_ipv4 :: "string \<Rightarrow> (nat list \<times> string) option" where
  "read_ipv4 s = read_octets 4 0 [] s"

text \<open>
  Up to \<open>limit\<close> groups of four hexadecimal digits; an IPv4 address may stand for two of them. The flag
  says that one did.
\<close>

fun read_groups :: "nat \<Rightarrow> nat \<Rightarrow> nat list \<Rightarrow> string \<Rightarrow> nat list \<times> bool \<times> string" where
  "read_groups 0 i gs s = (gs, False, s)"
| "read_groups (Suc n) i gs s =
     (case (if n > 0 then read_separated (CHR '':'') i read_ipv4 s else None) of
        Some (os, rest) \<Rightarrow> (gs @ [os ! 0 * 256 + os ! 1, os ! 2 * 256 + os ! 3], True, rest)
      | None \<Rightarrow>
          (case read_separated (CHR '':'') i (read_number 16 4 True 65536) s of
             Some (g, rest) \<Rightarrow> read_groups n (i + 1) (gs @ [g]) rest
           | None \<Rightarrow> (gs, False, s)))"

definition read_ipv6 :: "string \<Rightarrow> (nat list \<times> string) option" where
  "read_ipv6 s =
     (case read_groups 8 0 [] s of
        (head, head_ipv4, rest) \<Rightarrow>
          if length head = 8 then Some (head, rest)
          else if head_ipv4 then None
          else (case Option.bind (read_char (CHR '':'') rest) (read_char (CHR '':'')) of
                  None \<Rightarrow> None
                | Some rest1 \<Rightarrow>
                    (case read_groups (8 - (length head + 1)) 0 [] rest1 of
                       (tail, _, rest2) \<Rightarrow>
                         Some (head @ replicate (8 - length head - length tail) 0 @ tail, rest2))))"

definition number_of_groups :: "nat \<Rightarrow> nat list \<Rightarrow> nat" where
  "number_of_groups base gs = foldl (\<lambda>a g. a * base + g) 0 gs"

definition parse_ip :: "string \<Rightarrow> ip_addr option" where
  "parse_ip s =
     (case read_ipv4 s of
        Some (os, rest) \<Rightarrow> if rest = [] then Some (V4 (of_nat (number_of_groups 256 os))) else None
      | None \<Rightarrow>
          (case read_ipv6 s of
             Some (gs, rest) \<Rightarrow> if rest = [] then Some (V6 (of_nat (number_of_groups 65536 gs))) else None
           | None \<Rightarrow> None))"

subsection \<open>Private ranges\<close>

text \<open>A CIDR block: an address is in it when its first \<open>bits\<close> bits are those of the block.\<close>

definition cidr_contains :: "nat \<Rightarrow> 'a::len word \<Rightarrow> 'a word \<Rightarrow> bool" where
  "cidr_contains bits block a =
     (drop_bit (LENGTH('a) - bits) a = drop_bit (LENGTH('a) - bits) block)"

definition private_v4 :: "(nat \<times> 32 word) list" where
  "private_v4 = [(8, 0x0A000000), (12, 0xAC100000), (16, 0xC0A80000)]"

definition private_v6 :: "(nat \<times> 128 word) list" where
  "private_v6 = [(128, 0), (3, 0x20000000000000000000000000000000), (10, 0xFE800000000000000000000000000000),
     (7, 0xFC000000000000000000000000000000), (8, 0xFD000000000000000000000000000000),
     (8, 0xFF000000000000000000000000000000)]"

definition check_in_private_ip_range :: "ip_addr \<Rightarrow> bool" where
  "check_in_private_ip_range ip =
     (case ip of
        V4 a \<Rightarrow> list_ex (\<lambda>(bits, block). cidr_contains bits block a) private_v4
      | V6 a \<Rightarrow> list_ex (\<lambda>(bits, block). cidr_contains bits block a) private_v6)"

definition is_loopback :: "ip_addr \<Rightarrow> bool" where
  "is_loopback ip = (case ip of V4 a \<Rightarrow> drop_bit 24 a = 127 | V6 a \<Rightarrow> a = 1)"

subsection \<open>The look-up\<close>

text \<open>
  What a reader answers: the look-up fails, the entry does not decode or is missing, or it is there
  and may have the name the program asks for.
\<close>

datatype mm_answer = LookupFailed | NotDecoded | Decoded "string option"

record geo_readers =
  asn_reader :: "ip_addr \<Rightarrow> mm_answer"
  country_reader :: "ip_addr \<Rightarrow> mm_answer"
  city_reader :: "ip_addr \<Rightarrow> mm_answer"

definition eagle :: string where
  "eagle = [CHR 0xF0, CHR 0x9F, CHR 0xA6, CHR 0x85]"

definition local_ja :: string where
  "local_ja = [CHR 0xE3, CHR 0x83, CHR 0xAD, CHR 0xE3, CHR 0x83, CHR 0xBC,
     CHR 0xE3, CHR 0x82, CHR 0xAB, CHR 0xE3, CHR 0x83, CHR 0xAB]"

definition geo_text :: "string \<Rightarrow> string \<Rightarrow> string \<Rightarrow> string" where
  "geo_text asn country city = asn @ eagle @ country @ eagle @ city"

definition database_lookup :: "geo_readers \<Rightarrow> ip_addr \<Rightarrow> string" where
  "database_lookup G ip =
     geo_text
       (case asn_reader G ip of Decoded n \<Rightarrow> unwrap_or ''-'' n | _ \<Rightarrow> [])
       (case country_reader G ip of Decoded n \<Rightarrow> unwrap_or [] n | NotDecoded \<Rightarrow> [] | LookupFailed \<Rightarrow> ''-'')
       (case city_reader G ip of Decoded n \<Rightarrow> unwrap_or [] n | _ \<Rightarrow> [])"

type_synonym ip_map = "(ip_addr \<times> string) list"

definition convert_ip_to_geo :: "geo_readers \<Rightarrow> string \<Rightarrow> ip_map \<Rightarrow> (string + string) \<times> ip_map" where
  "convert_ip_to_geo G target_ip cache =
     (if target_ip = local_ja \<or> target_ip = ''LOCAL'' then (Inr (geo_text ''Local'' ''-'' ''-''), cache)
      else
        (let target = (if starts_with target_ip ''::ffff:'' then replace_all ''::ffff:'' [] target_ip else target_ip) in
         case parse_ip target of
           None \<Rightarrow> (Inl (''Failed Convert IP Address. input: '' @ target_ip), cache)
         | Some addr \<Rightarrow>
             (if is_loopback addr \<or> target_ip = ''0.0.0.0'' then (Inr (geo_text ''Local'' ''-'' ''-''), cache)
              else if check_in_private_ip_range addr then (Inr (geo_text ''Private'' ''-'' ''-''), cache)
              else (case map_of cache addr of
                      Some cached_data \<Rightarrow> (Inr cached_data, cache)
                    | None \<Rightarrow>
                        (let geo_data = database_lookup G addr
                         in (Inr geo_data, assoc_insert addr geo_data cache))))))"

definition check_exist_geo_ip_files ::
  "(string \<Rightarrow> bool) \<Rightarrow> string option \<Rightarrow> string list \<Rightarrow> string + string option" where
  "check_exist_geo_ip_files path_exists dir check_files =
     (case dir of
        None \<Rightarrow> Inr None
      | Some d \<Rightarrow>
          (let combined_err = map (\<lambda>f. ''Cannot find the appropriate MaxMind GeoIP .mmdb database files. filepath: '' @
                 [CHR 0x22] @ d @ ''/'' @ f @ [CHR 0x22])
                 (filter (\<lambda>f. \<not> path_exists (d @ ''/'' @ f)) check_files)
           in if combined_err = [] then Inr dir else Inl (join [CHR 0x0A] combined_err)))"

subsection \<open>The cache is transparent\<close>

definition cache_ok :: "geo_readers \<Rightarrow> ip_map \<Rightarrow> bool" where
  "cache_ok G cache \<longleftrightarrow> (\<forall>(ip, t) \<in> set cache. t = database_lookup G ip)"

lemma cache_ok_empty [simp]: "cache_ok G []"
  by (simp add: cache_ok_def)

lemma cache_ok_lookup: "cache_ok G cache \<Longrightarrow> map_of cache ip = Some t \<Longrightarrow> t = database_lookup G ip"
  by (auto simp: cache_ok_def dest!: map_of_SomeD)

lemma cache_ok_insert: "cache_ok G cache \<Longrightarrow> cache_ok G (assoc_insert ip (database_lookup G ip) cache)"
  by (induction ip "database_lookup G ip" cache rule: assoc_insert.induct) (auto simp: cache_ok_def)

lemma convert_keeps_cache: "cache_ok G cache \<Longrightarrow> cache_ok G (snd (convert_ip_to_geo G ip cache))"
  by (auto simp: convert_ip_to_geo_def Let_def cache_ok_insert split: option.split)

lemma convert_without_cache:
  "cache_ok G cache \<Longrightarrow> fst (convert_ip_to_geo G ip cache) = fst (convert_ip_to_geo G ip [])"
  by (auto simp: convert_ip_to_geo_def Let_def split: option.split intro: cache_ok_lookup)

fun convert_all :: "geo_readers \<Rightarrow> string list \<Rightarrow> ip_map \<Rightarrow> (string + string) list" where
  "convert_all G [] cache = []"
| "convert_all G (ip # ips) cache =
     (case convert_ip_to_geo G ip cache of (r, cache') \<Rightarrow> r # convert_all G ips cache')"

text \<open>
  The cache of looked-up addresses is transparent. Whatever addresses are looked up in whatever
  order, from the empty cache on, every answer is the one a look-up without a cache gives.
\<close>

theorem geo_cache_transparent:
  "convert_all G ips [] = map (\<lambda>ip. fst (convert_ip_to_geo G ip [])) ips"
proof -
  have "cache_ok G cache \<Longrightarrow> convert_all G ips cache = map (\<lambda>ip. fst (convert_ip_to_geo G ip [])) ips" for cache
  proof (induction ips arbitrary: cache)
    case (Cons ip ips)
    then show ?case using convert_keeps_cache [of G cache ip] convert_without_cache [of G cache ip]
      by (auto split: prod.split)
  qed simp
  then show ?thesis by simp
qed

subsection \<open>Public IPv6 addresses are reported as private\<close>

lemma global_unicast_is_private:
  assumes "drop_bit 125 a = 1"
  shows "check_in_private_ip_range (V6 a)"
proof -
  have "drop_bit 125 (0x20000000000000000000000000000000 :: 128 word) = 1" by code_simp
  with assms show ?thesis by (simp add: check_in_private_ip_range_def private_v6_def cidr_contains_def)
qed

lemma read_numeral [simp]:
  "read_octets (numeral k) i os s =
     (case read_separated (CHR ''.'') i (read_number 10 3 False 256) s of
        None \<Rightarrow> None
      | Some (v, rest) \<Rightarrow> read_octets (pred_numeral k) (i + 1) (os @ [v]) rest)"
  "read_groups (numeral k) i gs s =
     (case (if pred_numeral k > 0 then read_separated (CHR '':'') i read_ipv4 s else None) of
        Some (os, rest) \<Rightarrow> (gs @ [os ! 0 * 256 + os ! 1, os ! 2 * 256 + os ! 3], True, rest)
      | None \<Rightarrow>
          (case read_separated (CHR '':'') i (read_number 16 4 True 65536) s of
             Some (g, rest) \<Rightarrow> read_groups (pred_numeral k) (i + 1) (gs @ [g]) rest
           | None \<Rightarrow> (gs, False, s)))"
  by (simp_all add: numeral_eq_Suc)

lemma replicate_numeral_Cons: "replicate (numeral k) x = x # replicate (pred_numeral k) x"
  by (simp add: numeral_eq_Suc)

lemmas ip_simps = parse_ip_def number_of_groups_def read_number_def digit_value_def below_def byte_def
  read_separated_def read_char_def read_ipv4_def read_ipv6_def replicate_numeral_Cons

lemma parse_ip_samples:
  "parse_ip ''10.0.0.1'' = Some (V4 0x0A000001)"
  "parse_ip ''10.0.0.256'' = None"
  "parse_ip ''10.0.00.6'' = None"
  "parse_ip ''::1'' = Some (V6 1)"
  "parse_ip ''::1.2.3.4'' = Some (V6 0x01020304)"
  "parse_ip ''2001:4860:4860::8888'' = Some (V6 0x20014860486000000000000000008888)"
  by (simp_all add: ip_simps)

lemma public_dns_is_private:
  "fst (convert_ip_to_geo G ''2001:4860:4860::8888'' []) = Inr (geo_text ''Private'' ''-'' ''-'')"
proof -
  have "check_in_private_ip_range (V6 0x20014860486000000000000000008888)"
    by (rule global_unicast_is_private) simp
  then show ?thesis
    by (simp add: convert_ip_to_geo_def parse_ip_samples is_loopback_def local_ja_def starts_with_def)
qed

end
