(* ===== verification/Log_Record.thy ===== *)
theory Log_Record
  imports Message Geo_IP Detection_Run
begin

section \<open>The records of the report (detection.rs, profile.rs)\<close>

text \<open>
  A matched record, or an aggregation that holds, becomes one detection: the columns of the output
  profile are computed from the rule and the event, the details are laid out, and the location of an
  address is looked up. What changes besides is the cache of the locations and the counters of tactics
  per computer of the HTML report, both in \<open>log_state\<close>. A location is only ever looked up for the
  events of the filter. Texts of times, the replacement of abbreviations by the crate \<open>aho_corasick\<close> and
  the readers of the databases are parameters; \<open>None\<close> is a panic.
\<close>

record output_config =
  oc_profiles :: "(string \<times> profile) list"
  oc_alias :: alias_config
  oc_json_input :: bool
  oc_json_timeline :: bool
  oc_disable_abbreviation :: bool
  oc_output_file :: bool
  oc_split_authors :: bool
  oc_html_report :: bool
  oc_time_text :: "int \<Rightarrow> string"
  oc_channel_abbr :: "string \<rightharpoonup> string"
  oc_provider_abbr :: "string \<rightharpoonup> string"
  oc_abbreviate :: "string \<Rightarrow> string"
  oc_default_details :: "string \<rightharpoonup> string"
  oc_data_map :: "field_data_map option"
  oc_tags :: "(string \<times> string) list"
  oc_critical :: "string list"
  oc_geo_mapping :: "(string \<times> yaml) list option"
  oc_geo_filter :: "yaml list option"
  oc_geo_parser :: "geo_readers option"
  oc_yaml_from_str :: "string \<Rightarrow> yaml"

record log_state =
  ls_cache :: ip_map
  ls_attck :: "(string \<times> (string \<times> int \<times> int) list) list"
  ls_attck_keys :: "string list"

subsection \<open>Output profiles\<close>

definition profile_from :: "string \<Rightarrow> profile" where
  "profile_from s =
     (if s = ''%Timestamp%'' then PTimestamp []
      else if s = ''%Computer%'' then PComputer []
      else if s = ''%Channel%'' then PChannel []
      else if s = ''%Level%'' then PLevel []
      else if s = ''%EventID%'' then PEventID []
      else if s = ''%RecordID%'' then PRecordID []
      else if s = ''%RuleTitle%'' then PRuleTitle []
      else if s = ''%AllFieldInfo%'' then PAllFieldInfo []
      else if s = ''%RuleFile%'' then PRuleFile []
      else if s = ''%EvtxFile%'' then PEvtxFile []
      else if s = ''%MitreTactics%'' then PMitreTactics []
      else if s = ''%MitreTags%'' then PMitreTags []
      else if s = ''%OtherTags%'' then POtherTags []
      else if s = ''%RuleAuthor%'' then PRuleAuthor []
      else if s = ''%RuleCreationDate%'' then PRuleCreationDate []
      else if s = ''%RuleModifiedDate%'' then PRuleModifiedDate []
      else if s = ''%Status%'' then PStatus []
      else if s = ''%RuleID%'' then PRuleID []
      else if s = ''%Provider%'' then PProvider []
      else if s = ''%Details%'' then PDetails []
      else if s = ''%RenderedMessage%'' then PRenderedMessage []
      else if s = ''%ExtraFieldInfo%'' then PExtraFieldInfo []
      else if s = ''%RecoveredRecord%'' then PRecoveredRecord []
      else PLiteral s)"

text \<open>
  \<open>load_profile\<close>: the documents of the default file, or of the profile file when a profile is named.
  A missing profile and an empty file end the run (\<open>Ok None\<close>); entries that are not texts panic.
\<close>

fun profile_columns :: "(yaml \<times> yaml) list \<Rightarrow> (string \<times> profile) list option" where
  "profile_columns [] = Some []"
| "profile_columns ((k, v) # kvs) =
     (case (as_str k, as_str v, profile_columns kvs) of
        (Some c, Some t, Some cs) \<Rightarrow> Some ((c, profile_from t) # cs)
      | _ \<Rightarrow> None)"

definition geo_columns :: "(string \<times> profile) list" where
  "geo_columns = [(''SrcASN'', PSrcASN []), (''SrcCountry'', PSrcCountry []), (''SrcCity'', PSrcCity []),
     (''TgtASN'', PTgtASN []), (''TgtCountry'', PTgtCountry []), (''TgtCity'', PTgtCity [])]"

definition load_profile ::
  "(string \<Rightarrow> string + yaml list) \<Rightarrow> string \<Rightarrow> string \<Rightarrow> string option \<Rightarrow> bool \<Rightarrow> bool \<Rightarrow>
   (string, (string \<times> profile) list option) outcome" where
  "load_profile read_profile_data default_profile_path profile_path profile has_geo_db recover_records =
     (case read_profile_data (if profile = None then default_profile_path else profile_path) of
        Inr (profile_data # _) \<Rightarrow>
          (let target = (case profile of None \<Rightarrow> profile_data | Some n \<Rightarrow> yindex profile_data n) in
           if profile \<noteq> None \<and> target = YBadValue
           then (if Option.bind (as_hash profile_data) (\<lambda>h. strings_of (map fst h)) = None then Panic else Ok None)
           else (case Option.bind (as_hash target) profile_columns of
                   None \<Rightarrow> Panic
                 | Some cs \<Rightarrow>
                     Ok (Some (cs @ (if has_geo_db then geo_columns else []) @
                          (if recover_records then [(''RecoveredRecord'', PRecoveredRecord [])] else [])))))
      | _ \<Rightarrow> Ok None)"

definition get_profile_list :: "(string + yaml list) \<Rightarrow> (string \<times> string) list option" where
  "get_profile_list data =
     (let row = (\<lambda>(k, v). case (as_str k, map_option (\<lambda>h. strings_of (map snd h)) (as_hash v)) of
            (Some n, Some (Some ts)) \<Rightarrow> Some (n, join '', '' ts) | _ \<Rightarrow> None)
      in map_option concat (those (map (\<lambda>y. Option.bind (as_hash y) (\<lambda>h. those (map row h)))
           (case data of Inr ys \<Rightarrow> ys | Inl _ \<Rightarrow> []))))"

subsection \<open>Pieces of text\<close>

definition get_tag_info :: "(string \<times> string) list \<Rightarrow> rule_node \<Rightarrow> string list" where
  "get_tag_info tags rule =
     map (\<lambda>info. let t = unwrap_or [] (as_str info) in unwrap_or t (map_of tags t))
       (unwrap_or [] (as_vec (yindex (rule_yaml rule) ''tags'')))"

definition join_agg_values :: "(agg_record \<Rightarrow> string) \<Rightarrow> agg_record list \<Rightarrow> string" where
  "join_agg_values f infos = join bar_sep (sort (remdups (map f infos)))"

definition zip_and_concat_strings :: "string \<Rightarrow> string \<Rightarrow> string" where
  "zip_and_concat_strings s1 s2 =
     join bar_sep (map (\<lambda>(a, b). a @ '':'' @ b) (zip (split_char (CHR '','') s1) (split_char (CHR '','') s2)))"

definition create_count_output :: "rule_node \<Rightarrow> agg_result \<Rightarrow> string option" where
  "create_count_output rule agg =
     map_option (\<lambda>cond.
       ''Count:'' @ show_int (agg_data agg) @
       (case field_name cond of
          None \<Rightarrow> []
        | Some f \<Rightarrow> bar_sep @ f @ '':'' @ join ''/'' (sort (field_values agg))) @
       (case by_field_name cond of
          None \<Rightarrow> []
        | Some f \<Rightarrow>
            (if CHR '','' \<in> set f then bar_sep @ zip_and_concat_strings f (agg_key agg)
             else bar_sep @ f @ '':'' @ agg_key agg)))
     (get_agg_condition rule)"

definition make_ascii_titlecase :: "string \<Rightarrow> string" where
  "make_ascii_titlecase s =
     (case utf8_chars (trim s) of
        [] \<Rightarrow> []
      | g # gs \<Rightarrow>
          (if \<not> is_ascii g then s
           else map (\<lambda>c. if 97 \<le> byte c \<and> byte c \<le> 122 then char_of (byte c - 32) else c) g @ concat gs))"

fun split_set :: "char list \<Rightarrow> string \<Rightarrow> string \<Rightarrow> string list" where
  "split_set seps acc [] = [rev acc]"
| "split_set seps acc (c # cs) =
     (if c \<in> set seps then rev acc # split_set seps [] cs else split_set seps (c # acc) cs)"

definition author_text :: "bool \<Rightarrow> rule_node \<Rightarrow> string" where
  "author_text split_authors rule =
     (let a = unwrap_or ''-'' (as_str (yindex (rule_yaml rule) ''author'')) in
      if split_authors then join (passport @ passport) (map trim (split_set '',/;'' [] a)) else a)"

definition technique_tag :: "string \<Rightarrow> bool" where
  "technique_tag x \<longleftrightarrow>
     starts_with x ''attack.t'' \<or> starts_with x ''attack.g'' \<or> starts_with x ''attack.s''"

definition tactics_of :: "(string \<times> string) list \<Rightarrow> string list \<Rightarrow> string list" where
  "tactics_of tags tag_info = filter (\<lambda>x. x \<in> snd ` set tags) tag_info"

definition tactics_text :: "(string \<times> string) list \<Rightarrow> string list \<Rightarrow> string" where
  "tactics_text tags tag_info = join bar_sep (map (\<lambda>x. hd (split_char (CHR '','') x)) (tactics_of tags tag_info))"

definition techniques_text :: "(string \<times> string) list \<Rightarrow> string list \<Rightarrow> string" where
  "techniques_text tags tag_info =
     join bar_sep (map (\<lambda>y. make_ascii_titlecase (replace_all ''attack.'' [] y))
       (filter (\<lambda>x. x \<notin> snd ` set tags \<and> technique_tag x) tag_info))"

definition other_tags_text :: "(string \<times> string) list \<Rightarrow> string list \<Rightarrow> string" where
  "other_tags_text tags tag_info =
     join bar_sep (filter (\<lambda>x. \<not> (x \<in> snd ` set tags \<or> technique_tag x)) tag_info)"

definition level_text :: "output_config \<Rightarrow> level \<Rightarrow> string" where
  "level_text oc l =
     (let s = (if oc_disable_abbreviation oc then to_full l else to_abbrev l)
      in if oc_output_file oc then trim s else s)"

definition rule_text :: "string \<Rightarrow> rule_node \<Rightarrow> string \<Rightarrow> string" where
  "rule_text dflt rule k = unwrap_or dflt (as_str (yindex (rule_yaml rule) k))"

definition rule_file_text :: "rule_node \<Rightarrow> string" where
  "rule_file_text rule = unwrap_or [] (file_name (rulepath rule))"

definition rendered_text :: "json \<Rightarrow> string" where
  "rendered_text rec =
     (case json_as_str (json_index (json_index (json_index rec ''Event'') ''RenderingInfo'') ''Message'') of
        None \<Rightarrow> ''n/a''
      | Some message \<Rightarrow>
          join [CHR 0x5C, CHR ''r'', CHR 0x5C, CHR ''n'']
            (map trim (split_str [CHR 0x0D, CHR 0x0A] [] (replace_all [CHR 0x09] [CHR 0x5C, CHR ''t''] message))))"

definition system_field :: "json \<Rightarrow> string \<Rightarrow> json" where
  "system_field rec k = json_index (json_index (json_index rec ''Event'') ''System'') k"

definition channel_text :: "output_config \<Rightarrow> string \<Rightarrow> string" where
  "channel_text oc ch = oc_abbreviate oc (unwrap_or ch (oc_channel_abbr oc (to_ascii_lowercase ch)))"

definition provider_text :: "env \<Rightarrow> output_config \<Rightarrow> json \<Rightarrow> string" where
  "provider_text E oc rec =
     (let p = replace_all [CHR 0x22] [] (json_text E (json_index (system_field rec ''Provider_attributes'') ''Name''))
      in oc_abbreviate oc (unwrap_or p (oc_provider_abbr oc p)))"

subsection \<open>Locations of addresses\<close>

text \<open>The first alias with a value, or a dash.\<close>

fun get_alias_data :: "env \<Rightarrow> aho \<Rightarrow> string list \<Rightarrow> json \<Rightarrow> alias_config \<Rightarrow> bool \<Rightarrow> string" where
  "get_alias_data E A [] rec c is_csv_output = ''-''"
| "get_alias_data E A (alias # as) rec c is_csv_output =
     (let search_data = fst (parse_message E A rec alias c is_csv_output ([], []) None) in
      if search_data \<noteq> ''n/a'' then search_data else get_alias_data E A as rec c is_csv_output)"

text \<open>Whether the filter names the channel and the event id of the event.\<close>

definition geoip_target :: "(string \<Rightarrow> yaml) \<Rightarrow> yaml list \<Rightarrow> string \<Rightarrow> string \<Rightarrow> bool option" where
  "geoip_target yaml_from_str target_condition ch_str eid =
     any_opt (\<lambda>condition.
       Option.bind (as_hash condition) (any_opt (\<lambda>(target_channel, target_eids).
         Option.bind (as_str target_channel) (\<lambda>ch.
           if ch_str \<noteq> ch then Some False
           else map_option (\<lambda>eids. yaml_from_str eid \<in> set eids) (as_vec target_eids))))) target_condition"

definition geo_aliases :: "yaml \<Rightarrow> string list option" where
  "geo_aliases y = Option.bind (as_vec y) strings_of"

text \<open>
  The three columns of one side, source or target, and the name of its entry in the mapping. The
  filter is only needed for the source when there is one, and always for the target.
\<close>

datatype geo_side = Src | Tgt

definition geo_fill :: "geo_side \<Rightarrow> string \<Rightarrow> string \<Rightarrow> string \<Rightarrow> (string \<times> profile) list \<Rightarrow> (string \<times> profile) list" where
  "geo_fill side asn country city pc =
     (case side of
        Src \<Rightarrow> assoc_insert ''SrcCity'' (PSrcCity city)
                 (assoc_insert ''SrcCountry'' (PSrcCountry country) (assoc_insert ''SrcASN'' (PSrcASN asn) pc))
      | Tgt \<Rightarrow> assoc_insert ''TgtCity'' (PTgtCity city)
                 (assoc_insert ''TgtCountry'' (PTgtCountry country) (assoc_insert ''TgtASN'' (PTgtASN asn) pc)))"

definition geo_lookup ::
  "env \<Rightarrow> aho \<Rightarrow> output_config \<Rightarrow> geo_side \<Rightarrow> json \<Rightarrow> string \<Rightarrow> string \<Rightarrow> ip_map \<Rightarrow>
   ((string \<times> string \<times> string) option \<times> ip_map) option" where
  "geo_lookup E A oc side rec ch_str eid cache =
     (case oc_geo_mapping oc of
        None \<Rightarrow> None
      | Some mapping \<Rightarrow>
          (case map_of mapping (case side of Src \<Rightarrow> ''SrcIP'' | Tgt \<Rightarrow> ''TgtIP'') of
             None \<Rightarrow> Some (None, cache)
           | Some target_alias \<Rightarrow>
               (case oc_geo_filter oc of
                  None \<Rightarrow> (case side of Src \<Rightarrow> Some (None, cache) | Tgt \<Rightarrow> None)
                | Some target_condition \<Rightarrow>
                    (case geoip_target (oc_yaml_from_str oc) target_condition ch_str eid of
                       None \<Rightarrow> None
                     | Some False \<Rightarrow> Some (None, cache)
                     | Some True \<Rightarrow>
                         (case (geo_aliases target_alias, oc_geo_parser oc) of
                            (Some as, Some G) \<Rightarrow>
                              (case convert_ip_to_geo G (get_alias_data E A as rec (oc_alias oc) False) cache of
                                 (Inl _, cache') \<Rightarrow> Some (None, cache')
                               | (Inr geo_data, cache') \<Rightarrow>
                                   (case split_str eagle [] geo_data of
                                      asn # country # city # _ \<Rightarrow> Some (Some (asn, country, city), cache')
                                    | _ \<Rightarrow> None))
                          | _ \<Rightarrow> None)))))"

subsection \<open>The columns of a matched record\<close>

text \<open>The counts per computer and tactic, unique by rule and in all, for the HTML report.\<close>

fun count_tactics ::
  "string \<Rightarrow> string \<Rightarrow> string list \<Rightarrow> (string \<times> int \<times> int) list \<Rightarrow> string list \<Rightarrow>
   (string \<times> int \<times> int) list \<times> string list" where
  "count_tactics computer path [] m keys = (m, keys)"
| "count_tactics computer path (t # ts) m keys =
     (let unique_key = computer @ ''|'' @ t @ ''|'' @ path;
          one = (if unique_key \<notin> set keys then 1 else 0);
          m' = (case map_of m t of
                  Some (u, n) \<Rightarrow> assoc_insert t (u + one, n + 1) m
                | None \<Rightarrow> sort_key fst (m @ [(t, one, 1)]))
      in count_tactics computer path ts m' (List.insert unique_key keys))"

definition second_part :: "string \<Rightarrow> string" where
  "second_part x = (case split_char (CHR '','') x of _ # b # _ \<Rightarrow> b | _ \<Rightarrow> [])"

definition stock_tactics :: "string \<Rightarrow> string \<Rightarrow> string list \<Rightarrow> log_state \<Rightarrow> log_state" where
  "stock_tactics computer path ts ls =
     (case count_tactics computer path ts (unwrap_or [] (map_of (ls_attck ls) computer)) (ls_attck_keys ls) of
        (m, keys) \<Rightarrow> ls\<lparr>ls_attck := assoc_insert computer m (ls_attck ls), ls_attck_keys := keys\<rparr>)"

record column_state =
  cs_converter :: "(string \<times> profile) list"
  cs_level :: level
  cs_tactics_computer :: string
  cs_log :: log_state

record log_args =
  la_time :: int
  la_channel :: string
  la_eid :: string
  la_rec_id :: string
  la_computer :: string
  la_tags :: "string list"

abbreviation put_column :: "string \<Rightarrow> profile \<Rightarrow> column_state \<Rightarrow> column_state" where
  "put_column k p s \<equiv> s\<lparr>cs_converter := assoc_insert k p (cs_converter s)\<rparr>"

definition geo_column ::
  "env \<Rightarrow> aho \<Rightarrow> output_config \<Rightarrow> json \<Rightarrow> log_args \<Rightarrow> geo_side \<Rightarrow> string \<Rightarrow> column_state \<Rightarrow> column_state option" where
  "geo_column E A oc rec a side k s =
     (if map_of (cs_converter s) k \<noteq> None then Some s
      else map_option (\<lambda>(r, cache).
             let (asn, country, city) = unwrap_or ([], [], []) r
             in s\<lparr>cs_converter := geo_fill side asn country city (cs_converter s),
                  cs_log := (cs_log s)\<lparr>ls_cache := cache\<rparr>\<rparr>)
           (geo_lookup E A oc side rec (la_channel a) (la_eid a) (ls_cache (cs_log s))))"

definition tactics_column :: "output_config \<Rightarrow> rule_node \<Rightarrow> log_args \<Rightarrow> string \<Rightarrow> column_state \<Rightarrow> column_state" where
  "tactics_column oc rule a k s =
     (let html_tactics = map second_part (tactics_of (oc_tags oc) (la_tags a));
          s' = put_column k (PMitreTactics (tactics_text (oc_tags oc) (la_tags a))) s
      in if oc_html_report oc \<and> html_tactics \<noteq> []
         then s'\<lparr>cs_log := stock_tactics (cs_tactics_computer s) (rulepath rule) html_tactics (cs_log s)\<rparr>
         else s')"

definition log_column ::
  "env \<Rightarrow> aho \<Rightarrow> output_config \<Rightarrow> rule_node \<Rightarrow> recinfo \<Rightarrow> log_args \<Rightarrow> string \<times> profile \<Rightarrow> column_state \<Rightarrow>
   column_state option" where
  "log_column E A oc rule r a kp s =
     (let (k, p) = kp in
      case p of
        PTimestamp _ \<Rightarrow> Some (put_column k (PTimestamp (oc_time_text oc (la_time a))) s)
      | PComputer _ \<Rightarrow>
          Some (put_column k (PComputer (la_computer a))
                  (if oc_html_report oc then s\<lparr>cs_tactics_computer := la_computer a\<rparr> else s))
      | PChannel _ \<Rightarrow> Some (put_column k (PChannel (channel_text oc (la_channel a))) s)
      | PLevel _ \<Rightarrow>
          (let l = level_convert (oc_critical oc) (cs_level s) (la_computer a)
           in Some (put_column k (PLevel (level_text oc l)) (s\<lparr>cs_level := l\<rparr>)))
      | PEventID _ \<Rightarrow> Some (put_column k (PEventID (la_eid a)) s)
      | PRecordID _ \<Rightarrow> Some (put_column k (PRecordID (la_rec_id a)) s)
      | PRuleTitle _ \<Rightarrow> Some (put_column k (PRuleTitle (rule_text [] rule ''title'')) s)
      | PRuleFile _ \<Rightarrow> Some (put_column k (PRuleFile (rule_file_text rule)) s)
      | PEvtxFile _ \<Rightarrow> Some (put_column k (PEvtxFile (evtx_filepath r)) s)
      | PMitreTactics _ \<Rightarrow> Some (tactics_column oc rule a k s)
      | PMitreTags _ \<Rightarrow> Some (put_column k (PMitreTags (techniques_text (oc_tags oc) (la_tags a))) s)
      | POtherTags _ \<Rightarrow> Some (put_column k (POtherTags (other_tags_text (oc_tags oc) (la_tags a))) s)
      | PRuleAuthor _ \<Rightarrow> Some (put_column k (PRuleAuthor (author_text (oc_split_authors oc) rule)) s)
      | PRuleCreationDate _ \<Rightarrow> Some (put_column k (PRuleCreationDate (rule_text ''-'' rule ''date'')) s)
      | PRuleModifiedDate _ \<Rightarrow> Some (put_column k (PRuleModifiedDate (rule_text [] rule ''modified'')) s)
      | PStatus _ \<Rightarrow> Some (put_column k (PStatus (rule_text ''-'' rule ''status'')) s)
      | PRuleID _ \<Rightarrow> Some (put_column k (PRuleID (rule_text ''-'' rule ''id'')) s)
      | PProvider _ \<Rightarrow> Some (put_column k (PProvider (provider_text E oc (rec_data r))) s)
      | PRecoveredRecord _ \<Rightarrow>
          Some (put_column ''RecoveredRecord'' (PRecoveredRecord (if recovered_record r then ''Y'' else [])) s)
      | PRenderedMessage _ \<Rightarrow> Some (put_column k (PRenderedMessage (rendered_text (rec_data r))) s)
      | PTgtASN _ \<Rightarrow> geo_column E A oc (rec_data r) a Tgt k s
      | PTgtCountry _ \<Rightarrow> geo_column E A oc (rec_data r) a Tgt k s
      | PTgtCity _ \<Rightarrow> geo_column E A oc (rec_data r) a Tgt k s
      | PSrcASN _ \<Rightarrow> geo_column E A oc (rec_data r) a Src k s
      | PSrcCountry _ \<Rightarrow> geo_column E A oc (rec_data r) a Src k s
      | PSrcCity _ \<Rightarrow> geo_column E A oc (rec_data r) a Src k s
      | _ \<Rightarrow> Some s)"

fun log_columns ::
  "env \<Rightarrow> aho \<Rightarrow> output_config \<Rightarrow> rule_node \<Rightarrow> recinfo \<Rightarrow> log_args \<Rightarrow> (string \<times> profile) list \<Rightarrow> column_state \<Rightarrow>
   column_state option" where
  "log_columns E A oc rule r a [] s = Some s"
| "log_columns E A oc rule r a (kp # kps) s =
     Option.bind (log_column E A oc rule r a kp s) (log_columns E A oc rule r a kps)"
definition default_log_time :: int where
  "default_log_time = 0"

definition log_args_of :: "env \<Rightarrow> output_config \<Rightarrow> rule_node \<Rightarrow> recinfo \<Rightarrow> log_args" where
  "log_args_of E oc rule r =
     (let rec = rec_data r; str = (\<lambda>v. unwrap_or [] (get_serde_number_to_string E v False)) in
      \<lparr>la_time = unwrap_or default_log_time (get_event_time E rec (oc_json_input oc)),
       la_channel = str (system_field rec ''Channel''),
       la_eid = str (system_field rec ''EventID''),
       la_rec_id = (if PRecordID [] \<in> snd ` set (oc_profiles oc) then str (system_field rec ''EventRecordID'') else []),
       la_computer = replace_all [CHR 0x22] [] (unwrap_or [] (json_as_str (system_field rec ''Computer''))),
       la_tags = get_tag_info (oc_tags oc) rule\<rparr>)"

definition log_details :: "env \<Rightarrow> aho \<Rightarrow> output_config \<Rightarrow> rule_node \<Rightarrow> json \<Rightarrow> field_data_key \<Rightarrow> string \<Rightarrow> string" where
  "log_details E A oc rule rec key eid =
     (case as_str (yindex (rule_yaml rule) ''details'') of
        Some s \<Rightarrow> s
      | None \<Rightarrow>
          (let provider = replace_all [CHR 0x27] []
                 (unwrap_or [] (get_serde_number_to_string E (json_index (system_field rec ''Provider_attributes'') ''Name'') False))
           in case oc_default_details oc (provider @ ''_'' @ eid) of
                Some s \<Rightarrow> s
              | None \<Rightarrow> join bar_sep (create_recordinfos E A rec key (oc_data_map oc))))"

definition initial_level :: "env \<Rightarrow> rule_node \<Rightarrow> level" where
  "initial_level E rule = level_from E (rule_text ''-'' rule ''level'')"

definition create_log_record ::
  "env \<Rightarrow> aho \<Rightarrow> output_config \<Rightarrow> rule_node \<Rightarrow> recinfo \<Rightarrow> log_state \<Rightarrow> (detection_info \<times> log_state) option" where
  "create_log_record E A oc rule r ls =
     (let a = log_args_of E oc rule r in
      case log_columns E A oc rule r a (oc_profiles oc)
             \<lparr>cs_converter = [], cs_level = initial_level E rule, cs_tactics_computer = [], cs_log = ls\<rparr> of
        None \<Rightarrow> None
      | Some s \<Rightarrow>
          (let key = (if oc_data_map oc = None then ([], []) else (to_lowercase E (la_channel a), la_eid a));
               d = \<lparr>detected_time = la_time a, di_rulepath = rulepath rule,
                    di_ruleid = rule_text ''-'' rule ''id'', di_ruletitle = rule_text ''-'' rule ''title'',
                    di_ruleauthor = rule_text ''-'' rule ''author'', di_level = cs_level s,
                    di_computername = la_computer a, di_rec_id = la_rec_id a, di_eventid = la_eid a,
                    di_detail = [], ext_field = oc_profiles oc, di_agg_result = None, details_convert_map = []\<rparr>
           in map_option (\<lambda>d'. (d', cs_log s))
                (create_message E A (rec_data r) (log_details E A oc rule (rec_data r) key (la_eid a)) d
                   (map_of (cs_converter s))
                   \<lparr>mc_alias = oc_alias oc, mc_key = key, mc_data_map = oc_data_map oc, mc_agg = False,
                    mc_json = oc_json_timeline oc\<rparr>)))"

subsection \<open>The columns of an aggregation\<close>

definition agg_geo :: "geo_side \<Rightarrow> string \<Rightarrow> (string \<times> profile) list \<Rightarrow> (string \<times> profile) list" where
  "agg_geo side k pc = (if map_of pc k \<noteq> None then pc else geo_fill side ''-'' ''-'' ''-'' pc)"

definition agg_column ::
  "output_config \<Rightarrow> rule_node \<Rightarrow> agg_result \<Rightarrow> string \<Rightarrow> string list \<Rightarrow> string \<times> profile \<Rightarrow>
   (string \<times> profile) list \<times> level \<Rightarrow> (string \<times> profile) list \<times> level" where
  "agg_column oc rule agg computers tag_info kp s =
     (let (k, p) = kp; (pc, l) = s; infos = agg_record_time_info agg in
      case p of
        PTimestamp _ \<Rightarrow> (assoc_insert k (PTimestamp (oc_time_text oc (start_timedate agg))) pc, l)
      | PComputer _ \<Rightarrow> (assoc_insert k (PComputer computers) pc, l)
      | PChannel _ \<Rightarrow>
          (assoc_insert k (PChannel (join_agg_values (\<lambda>x. channel_text oc (rec_channel x)) infos)) pc, l)
      | PLevel _ \<Rightarrow>
          (let l' = level_convert (oc_critical oc) l computers
           in (assoc_insert k (PLevel (level_text oc l')) pc, l'))
      | PEventID _ \<Rightarrow> (assoc_insert k (PEventID (join_agg_values rec_event_id infos)) pc, l)
      | PRecordID _ \<Rightarrow> (assoc_insert k (PRecordID []) pc, l)
      | PRuleTitle _ \<Rightarrow> (assoc_insert k (PRuleTitle (rule_text [] rule ''title'')) pc, l)
      | PRuleFile _ \<Rightarrow> (assoc_insert k (PRuleFile (rule_file_text rule)) pc, l)
      | PEvtxFile _ \<Rightarrow> (assoc_insert k (PEvtxFile (join_agg_values rec_file infos)) pc, l)
      | PMitreTactics _ \<Rightarrow> (assoc_insert k (PMitreTactics (tactics_text (oc_tags oc) tag_info)) pc, l)
      | PMitreTags _ \<Rightarrow> (assoc_insert k (PMitreTags (techniques_text (oc_tags oc) tag_info)) pc, l)
      | POtherTags _ \<Rightarrow> (assoc_insert k (POtherTags (other_tags_text (oc_tags oc) tag_info)) pc, l)
      | PRuleAuthor _ \<Rightarrow> (assoc_insert k (PRuleAuthor (author_text (oc_split_authors oc) rule)) pc, l)
      | PRuleCreationDate _ \<Rightarrow> (assoc_insert k (PRuleCreationDate (rule_text ''-'' rule ''date'')) pc, l)
      | PRuleModifiedDate _ \<Rightarrow> (assoc_insert k (PRuleModifiedDate (rule_text [] rule ''modified'')) pc, l)
      | PStatus _ \<Rightarrow> (assoc_insert k (PStatus (rule_text ''-'' rule ''status'')) pc, l)
      | PRuleID _ \<Rightarrow> (assoc_insert k (PRuleID (rule_text ''-'' rule ''id'')) pc, l)
      | PProvider _ \<Rightarrow> (assoc_insert k (PProvider ''-'') pc, l)
      | PRecoveredRecord _ \<Rightarrow> (assoc_insert ''RecoveredRecord'' (PRenderedMessage []) pc, l)
      | PRenderedMessage _ \<Rightarrow> (assoc_insert k (PRenderedMessage ''-'') pc, l)
      | PTgtASN _ \<Rightarrow> (agg_geo Tgt k pc, l)
      | PTgtCountry _ \<Rightarrow> (agg_geo Tgt k pc, l)
      | PTgtCity _ \<Rightarrow> (agg_geo Tgt k pc, l)
      | PSrcASN _ \<Rightarrow> (agg_geo Src k pc, l)
      | PSrcCountry _ \<Rightarrow> (agg_geo Src k pc, l)
      | PSrcCity _ \<Rightarrow> (agg_geo Src k pc, l)
      | _ \<Rightarrow> (pc, l))"

definition create_agg_log_record ::
  "env \<Rightarrow> aho \<Rightarrow> output_config \<Rightarrow> rule_node \<Rightarrow> agg_result \<Rightarrow> detection_info option" where
  "create_agg_log_record E A oc rule agg =
     (case create_count_output rule agg of
        None \<Rightarrow> None
      | Some output \<Rightarrow>
          (let tag_info = get_tag_info (oc_tags oc) rule;
               computers = join_agg_values rec_computer (agg_record_time_info agg);
               (pc, l) = fold (agg_column oc rule agg computers tag_info) (oc_profiles oc) ([], initial_level E rule);
               d = \<lparr>detected_time = start_timedate agg, di_rulepath = rulepath rule,
                    di_ruleid = rule_text ''-'' rule ''id'', di_ruletitle = rule_text ''-'' rule ''title'',
                    di_ruleauthor = rule_text ''-'' rule ''author'', di_level = l,
                    di_computername = ''-'', di_rec_id = ''-'', di_eventid = ''-'',
                    di_detail = output, ext_field = oc_profiles oc, di_agg_result = Some agg, details_convert_map = []\<rparr>
           in create_message E A JNull output d (map_of pc)
                \<lparr>mc_alias = oc_alias oc, mc_key = ([], []), mc_data_map = None, mc_agg = True,
                 mc_json = oc_json_timeline oc\<rparr>))"

text \<open>The detections of what the execution of the rules reports.\<close>

fun render :: "env \<Rightarrow> aho \<Rightarrow> output_config \<Rightarrow> detect_info \<Rightarrow> log_state \<Rightarrow> (detection_info \<times> log_state) option" where
  "render E A oc (LogRecord rule r) ls = create_log_record E A oc rule r ls"
| "render E A oc (AggLogRecord rule agg) ls = map_option (\<lambda>d. (d, ls)) (create_agg_log_record E A oc rule agg)"
end
