(* ===== verification/Log_Record_Facts.thy ===== *)
theory Log_Record_Facts
  imports Log_Record
begin

section \<open>Facts about the records of the report\<close>

text \<open>
  Every column of the profile is in the detection, in its place and with its kind, and building the
  detection does not panic once the location tables are well formed; the level is raised once for
  every column that shows it.
\<close>

subsection \<open>Kinds of columns\<close>

abbreviation kind :: "profile \<Rightarrow> profile" where
  "kind p \<equiv> profile_convert p []"

abbreviation kinds :: "(string \<times> profile) list \<Rightarrow> (string \<times> profile) list" where
  "kinds kps \<equiv> map (\<lambda>(k, p). (k, kind p)) kps"

lemma kind_convert [simp]: "kind (profile_convert p v) = kind p"
  by (cases p) simp_all

definition geo_names :: "string set" where
  "geo_names = fst ` set geo_columns"

definition column_ok :: "string \<times> profile \<Rightarrow> bool" where
  "column_ok kp \<longleftrightarrow>
     (if is_geo (snd kp) then (fst kp, profile_convert (snd kp) []) \<in> set geo_columns
      else fst kp \<notin> fst ` set geo_columns \<and>
        (profile_convert (snd kp) [] = PRecoveredRecord [] \<longrightarrow> fst kp = ''RecoveredRecord''))"

fun needs_value :: "profile \<Rightarrow> bool" where
  "needs_value (PDetails _) = False" | "needs_value (PAllFieldInfo _) = False"
| "needs_value (PExtraFieldInfo _) = False" | "needs_value (PLiteral _) = False"
| "needs_value _ = True"

definition value_ready :: "(string \<rightharpoonup> profile) \<Rightarrow> string \<times> profile \<Rightarrow> bool" where
  "value_ready pc kp \<longleftrightarrow>
     (needs_value (snd kp) \<longrightarrow> (\<exists>q. pc (fst kp) = Some q \<and> (is_geo (snd kp) \<longrightarrow> kind q = kind (snd kp))))"

lemma replaced_profiles_steps [simp]:
  "kinds (replaced_profiles (all_field_column E A mc rec k s)) = kinds (replaced_profiles s) @ [(k, PAllFieldInfo [])]"
  "kinds (replaced_profiles (extra_field_column E A mc rec sp k s)) = kinds (replaced_profiles s) @ [(k, PExtraFieldInfo [])]"
  by (simp_all add: all_field_column_def extra_field_column_def Let_def)

lemma message_column_kind:
  assumes "value_ready pc kp"
  shows "\<exists>s'. message_column E A mc rec pc sp kp s = Some s' \<and>
    kinds (replaced_profiles s') = kinds (replaced_profiles s) @ kinds [kp]"
proof -
  obtain k p where [simp]: "kp = (k, p)" by (cases kp)
  show ?thesis using assms by (cases p) (auto simp: message_column_def value_ready_def)
qed

lemma message_columns_kinds:
  assumes "\<forall>kp \<in> set kps. value_ready pc kp"
  shows "\<exists>s'. message_columns E A mc rec pc sp kps s = Some s' \<and>
    kinds (replaced_profiles s') = kinds (replaced_profiles s) @ kinds kps"
  using assms
proof (induction kps arbitrary: s)
  case (Cons kp kps)
  obtain s1 where s1: "message_column E A mc rec pc sp kp s = Some s1"
    "kinds (replaced_profiles s1) = kinds (replaced_profiles s) @ kinds [kp]"
    using message_column_kind [of pc kp E A mc rec sp s] Cons.prems by auto
  with Cons.IH [of s1] Cons.prems show ?case by auto
qed simp

lemma initial_message_columns [simp]: "replaced_profiles (snd (initial_message E A mc rec out d)) = []"
  by (simp add: initial_message_def Let_def split: prod.split)

lemma create_message_kinds:
  assumes "\<forall>kp \<in> set (ext_field d). value_ready pc kp"
  shows "\<exists>d'. create_message E A rec out d pc mc = Some d' \<and> kinds (ext_field d') = kinds (ext_field d) \<and>
    di_level d' = di_level d"
proof -
  obtain sp s where i: "initial_message E A mc rec out d = (sp, s)" by fastforce
  then have "replaced_profiles s = []" by (metis initial_message_columns snd_conv)
  with message_columns_kinds [OF assms, of E A mc rec sp s]
  obtain s' where "message_columns E A mc rec pc sp (ext_field d) s = Some s'"
    "kinds (replaced_profiles s') = kinds (ext_field d)" by auto
  with i show ?thesis by (simp add: create_message_def)
qed

subsection \<open>The values of the columns\<close>

definition geo_inv :: "(string \<times> profile) list \<Rightarrow> bool" where
  "geo_inv pc \<longleftrightarrow> (\<forall>k q. map_of pc k = Some q \<and> k \<in> geo_names \<longrightarrow> (k, kind q) \<in> set geo_columns)"

lemma geo_inv_Nil [simp]: "geo_inv []"
  by (simp add: geo_inv_def)

lemma geo_inv_insert: "geo_inv pc \<Longrightarrow> k \<notin> geo_names \<Longrightarrow> geo_inv (assoc_insert k q pc)"
  by (auto simp: geo_inv_def)

lemma geo_inv_insert_geo: "geo_inv pc \<Longrightarrow> (k, kind q) \<in> set geo_columns \<Longrightarrow> geo_inv (assoc_insert k q pc)"
  by (auto simp: geo_inv_def)

lemma geo_inv_fill: "geo_inv pc \<Longrightarrow> geo_inv (geo_fill side a c t pc)"
  by (cases side) (simp_all add: geo_fill_def geo_inv_insert_geo geo_columns_def)

definition side_names :: "geo_side \<Rightarrow> string set" where
  "side_names side = (case side of Src \<Rightarrow> {''SrcASN'', ''SrcCountry'', ''SrcCity''} | Tgt \<Rightarrow> {''TgtASN'', ''TgtCountry'', ''TgtCity''})"

lemma dom_geo_fill: "dom (map_of (geo_fill side a c t pc)) = side_names side \<union> dom (map_of pc)"
  by (cases side) (auto simp: geo_fill_def side_names_def)

text \<open>What a step of the loop keeps and adds.\<close>

definition step_ok :: "string \<times> profile \<Rightarrow> (string \<times> profile) list \<Rightarrow> (string \<times> profile) list \<Rightarrow> bool" where
  "step_ok kp pc pc' \<longleftrightarrow> geo_inv pc' \<and> dom (map_of pc) \<subseteq> dom (map_of pc') \<and>
     (needs_value (snd kp) \<longrightarrow> map_of pc' (fst kp) \<noteq> None)"

lemma step_ok_put:
  "geo_inv pc \<Longrightarrow> column_ok (k, p) \<Longrightarrow> \<not> is_geo p \<Longrightarrow> step_ok (k, p) pc (assoc_insert k q pc)"
  by (auto simp: step_ok_def column_ok_def geo_names_def intro!: geo_inv_insert)

lemma step_ok_recovered:
  "geo_inv pc \<Longrightarrow> column_ok (k, PRecoveredRecord v) \<Longrightarrow>
    step_ok (k, PRecoveredRecord v) pc (assoc_insert ''RecoveredRecord'' q pc)"
  by (auto simp: step_ok_def column_ok_def geo_names_def intro!: geo_inv_insert)

lemma step_ok_keep: "geo_inv pc \<Longrightarrow> \<not> needs_value p \<Longrightarrow> step_ok (k, p) pc pc"
  by (auto simp: step_ok_def)

lemma step_ok_present: "geo_inv pc \<Longrightarrow> map_of pc k \<noteq> None \<Longrightarrow> step_ok (k, p) pc pc"
  by (auto simp: step_ok_def)

lemma step_ok_fill: "geo_inv pc \<Longrightarrow> k \<in> side_names side \<Longrightarrow> step_ok (k, p) pc (geo_fill side a c t pc)"
  using dom_geo_fill [of side a c t pc] by (auto simp: step_ok_def geo_inv_fill)

lemma value_ready_from_inv:
  assumes "geo_inv pc" and "column_ok kp" and "needs_value (snd kp) \<longrightarrow> map_of pc (fst kp) \<noteq> None"
  shows "value_ready (map_of pc) kp"
proof -
  obtain k p where kp [simp]: "kp = (k, p)" by (cases kp)
  have "kind q = kind p" if "is_geo p" "map_of pc k = Some q" for q
  proof -
    have "(k, kind p) \<in> set geo_columns" using assms(2) that(1) by (simp add: column_ok_def)
    moreover from this have "k \<in> geo_names" by (force simp: geo_names_def)
    then have "(k, kind q) \<in> set geo_columns" using assms(1) that(2) by (auto simp: geo_inv_def)
    ultimately show ?thesis by (auto simp: geo_columns_def)
  qed
  with assms(3) show ?thesis by (auto simp: value_ready_def)
qed

subsection \<open>Locations\<close>

definition geo_filter_ok :: "yaml \<Rightarrow> bool" where
  "geo_filter_ok y \<longleftrightarrow>
     (\<exists>h. as_hash y = Some h \<and> list_all (\<lambda>(k, v). as_str k \<noteq> None \<and> as_vec v \<noteq> None) h)"

text \<open>The location tables as the program loads them, with entries of the right shape.\<close>

definition geo_config_ok :: "output_config \<Rightarrow> bool" where
  "geo_config_ok oc \<longleftrightarrow>
     (\<exists>mapping conds G. oc_geo_mapping oc = Some mapping \<and> oc_geo_filter oc = Some conds \<and> oc_geo_parser oc = Some G \<and>
        (\<forall>kv \<in> set mapping. geo_aliases (snd kv) \<noteq> None) \<and> (\<forall>y \<in> set conds. geo_filter_ok y))"

definition log_cache_ok :: "output_config \<Rightarrow> log_state \<Rightarrow> bool" where
  "log_cache_ok oc ls \<longleftrightarrow> (\<forall>G. oc_geo_parser oc = Some G \<longrightarrow> cache_ok G (ls_cache ls))"

lemma geoip_target_total:
  assumes "\<forall>y \<in> set conds. geo_filter_ok y"
  shows "geoip_target f conds ch eid \<noteq> None"
  unfolding geoip_target_def
proof (rule any_opt_not_None)
  fix y assume "y \<in> set conds"
  then obtain h where h: "as_hash y = Some h" "\<forall>kv \<in> set h. as_str (fst kv) \<noteq> None \<and> as_vec (snd kv) \<noteq> None"
    using assms by (fastforce simp: geo_filter_ok_def list_all_iff)
  have "any_opt (\<lambda>(target_channel, target_eids). Option.bind (as_str target_channel) (\<lambda>c.
      if ch \<noteq> c then Some False else map_option (\<lambda>eids. f eid \<in> set eids) (as_vec target_eids))) h \<noteq> None"
  proof (rule any_opt_not_None)
    fix kv assume "kv \<in> set h"
    then obtain c es where "as_str (fst kv) = Some c" "as_vec (snd kv) = Some es" using h(2) by blast
    then show "(case kv of (target_channel, target_eids) \<Rightarrow> Option.bind (as_str target_channel) (\<lambda>c.
        if ch \<noteq> c then Some False else map_option (\<lambda>eids. f eid \<in> set eids) (as_vec target_eids))) \<noteq> None"
      by (cases kv) (auto intro: exI [of _ False])
  qed
  with h(1) show "Option.bind (as_hash y) (any_opt (\<lambda>(target_channel, target_eids). Option.bind (as_str target_channel) (\<lambda>c.
      if ch \<noteq> c then Some False else map_option (\<lambda>eids. f eid \<in> set eids) (as_vec target_eids)))) \<noteq> None" by simp
qed

text \<open>Every answer of the look-up has three parts: the separator starts with a byte it has nowhere else.\<close>

lemma length_split_str: "length (split_str sep acc s) \<ge> 1"
  by (induction sep acc s rule: split_str.induct) auto

lemma split_eagle:
  "length (split_str eagle acc (u @ eagle @ v)) \<ge> Suc (length (split_str eagle [] v))"
proof (induction u arbitrary: acc rule: length_induct)
  case (1 u)
  show ?case
  proof (cases u)
    case Nil
    then show ?thesis by (simp add: eagle_def)
  next
    case (Cons c cs)
    show ?thesis
    proof (cases "starts_with (u @ eagle @ v) eagle")
      case False
      then show ?thesis using 1 Cons by auto
    next
      case True
      have "3 \<le> length cs"
      proof (rule ccontr)
        assume "\<not> 3 \<le> length cs"
        then consider "cs = []" | x where "cs = [x]" | x y where "cs = [x, y]"
          by (cases cs; cases "tl cs"; cases "tl (tl cs)") auto
        then show False using True Cons by cases (auto simp: eagle_def)
      qed
      then have "drop 3 (cs @ eagle @ v) = drop 3 cs @ eagle @ v" by simp
      moreover have "length (split_str eagle [] (drop 3 cs @ eagle @ v)) \<ge> Suc (length (split_str eagle [] v))"
        using 1 [rule_format, of "drop 3 cs" "[]"] Cons by simp
      moreover have "split_str eagle acc (u @ eagle @ v) = rev acc # split_str eagle [] (drop 3 (cs @ eagle @ v))"
        using True Cons by (simp add: eagle_def numeral_3_eq_3)
      ultimately show ?thesis by simp
    qed
  qed
qed

lemma split_geo_text:
  obtains x y z r where "split_str eagle [] (geo_text a b c) = x # y # z # r"
proof -
  have "length (split_str eagle [] c) \<ge> 1" by (rule length_split_str)
  then have "length (split_str eagle [] (geo_text a b c)) \<ge> 3"
    using split_eagle [where u = a and v = "b @ eagle @ c" and acc = "[]"] split_eagle [where u = b and v = c and acc = "[]"] by (simp add: geo_text_def)
  then obtain x y z r where "split_str eagle [] (geo_text a b c) = x # y # z # r"
    by (metis One_nat_def Suc_le_length_iff numeral_3_eq_3)
  then show thesis by (rule that)
qed

lemma convert_is_geo_text:
  assumes "cache_ok G cache" and "fst (convert_ip_to_geo G ip cache) = Inr t"
  obtains a b c where "t = geo_text a b c"
proof -
  have "\<exists>a b c. t = geo_text a b c"
    using assms(2) convert_without_cache [OF assms(1), of ip]
    by (auto simp: convert_ip_to_geo_def Let_def database_lookup_def split: if_splits option.splits)
  then show thesis using that by blast
qed

lemma geo_lookup_total:
  assumes "geo_config_ok oc" and "log_cache_ok oc ls"
  shows "\<exists>r cache. geo_lookup E A oc side rec ch eid (ls_cache ls) = Some (r, cache) \<and>
    log_cache_ok oc (ls\<lparr>ls_cache := cache\<rparr>)"
proof -
  obtain mapping conds G where g: "oc_geo_mapping oc = Some mapping" "oc_geo_filter oc = Some conds"
    "oc_geo_parser oc = Some G" "\<forall>kv \<in> set mapping. geo_aliases (snd kv) \<noteq> None" "\<forall>y \<in> set conds. geo_filter_ok y"
    using assms(1) by (auto simp: geo_config_ok_def)
  have c: "cache_ok G (ls_cache ls)" using assms(2) g(3) by (simp add: log_cache_ok_def)
  show ?thesis
  proof (cases "map_of mapping (case side of Src \<Rightarrow> ''SrcIP'' | Tgt \<Rightarrow> ''TgtIP'')")
    case None
    then show ?thesis using g assms(2) by (simp add: geo_lookup_def)
  next
    case (Some y)
    then obtain as where as: "geo_aliases y = Some as" using g(4) by (force dest: map_of_SomeD)
    obtain b where b: "geoip_target (oc_yaml_from_str oc) conds ch eid = Some b"
      using geoip_target_total [OF g(5)] by blast
    define ip where "ip = get_alias_data E A as rec (oc_alias oc) False"
    obtain res cache where conv: "convert_ip_to_geo G ip (ls_cache ls) = (res, cache)" by fastforce
    have "cache_ok G cache" using convert_keeps_cache [OF c, of ip] conv by simp
    then have "log_cache_ok oc (ls\<lparr>ls_cache := cache\<rparr>)" using g(3) by (simp add: log_cache_ok_def)
    moreover have "\<exists>x. geo_lookup E A oc side rec ch eid (ls_cache ls) = Some (x, if b then cache else ls_cache ls)"
    proof (cases res)
      case (Inl e)
      then show ?thesis using g Some as b conv by (cases b) (simp_all add: geo_lookup_def ip_def)
    next
      case (Inr t)
      then obtain p q r where "t = geo_text p q r" using convert_is_geo_text [OF c, of ip t] conv by auto
      then obtain x y' z r' where "split_str eagle [] t = x # y' # z # r'" using split_geo_text by metis
      then show ?thesis using Inr g Some as b conv by (cases b) (simp_all add: geo_lookup_def ip_def)
    qed
    ultimately show ?thesis using assms(2) by (cases b) auto
  qed
qed
subsection \<open>The loop over the columns\<close>

lemma geo_column_step:
  assumes "geo_config_ok oc" and "log_cache_ok oc (cs_log s)" and "geo_inv (cs_converter s)" and "k \<in> side_names side"
  shows "\<exists>s'. geo_column E A oc rec a side k s = Some s' \<and> log_cache_ok oc (cs_log s') \<and>
    step_ok (k, p) (cs_converter s) (cs_converter s')"
proof (cases "map_of (cs_converter s) k")
  case None
  obtain r cache where "geo_lookup E A oc side rec (la_channel a) (la_eid a) (ls_cache (cs_log s)) = Some (r, cache)"
    "log_cache_ok oc ((cs_log s)\<lparr>ls_cache := cache\<rparr>)"
    using geo_lookup_total [OF assms(1,2)] by blast
  then show ?thesis
    using None assms(3,4) by (auto simp: geo_column_def step_ok_fill split: prod.split)
next
  case (Some q)
  then show ?thesis using assms by (simp add: geo_column_def step_ok_present)
qed

lemma stock_tactics_cache [simp]: "ls_cache (stock_tactics c p ts ls) = ls_cache ls"
  by (simp add: stock_tactics_def split: prod.split)

lemma tactics_column_step [simp]:
  "cs_converter (tactics_column oc rule a k s) =
    assoc_insert k (PMitreTactics (tactics_text (oc_tags oc) (la_tags a))) (cs_converter s)"
  "ls_cache (cs_log (tactics_column oc rule a k s)) = ls_cache (cs_log s)"
  by (simp_all add: tactics_column_def Let_def)

lemma log_column_step:
  assumes "column_ok (k, p)" and "is_geo p \<longrightarrow> geo_config_ok oc" and "log_cache_ok oc (cs_log s)"
    and "geo_inv (cs_converter s)"
  shows "\<exists>s'. log_column E A oc rule r a (k, p) s = Some s' \<and> log_cache_ok oc (cs_log s') \<and>
    step_ok (k, p) (cs_converter s) (cs_converter s')"
proof (cases "is_geo p")
  case True
  have k: "(k, kind p) \<in> set geo_columns" using assms(1) True by (simp add: column_ok_def)
  have "\<exists>side. log_column E A oc rule r a (k, p) s = geo_column E A oc (rec_data r) a side k s \<and> k \<in> side_names side"
    using True k by (cases p) (auto simp: log_column_def geo_columns_def side_names_def intro: exI [of _ Src] exI [of _ Tgt])
  with geo_column_step [OF _ assms(3,4)] assms(2) True show ?thesis by metis
next
  case False
  note put = step_ok_put [OF assms(4,1) False] and rest = assms(3,4) False
  show ?thesis
  proof (cases "needs_value p")
    case True
    with False put rest show ?thesis
      using assms(1) step_ok_recovered [OF assms(4), of k]
      by (cases p) (simp_all add: log_column_def log_cache_ok_def Let_def)
  next
    case no: False
    then show ?thesis using rest step_ok_keep [of "cs_converter s" p k] by (cases p) (simp_all add: log_column_def)
  qed
qed
lemma log_columns_loop:
  assumes "\<forall>kp \<in> set kps. column_ok kp \<and> (is_geo (snd kp) \<longrightarrow> geo_config_ok oc)"
    and "log_cache_ok oc (cs_log s)" and "geo_inv (cs_converter s)"
  shows "\<exists>s'. log_columns E A oc rule r a kps s = Some s' \<and> log_cache_ok oc (cs_log s') \<and> geo_inv (cs_converter s') \<and>
    dom (map_of (cs_converter s)) \<subseteq> dom (map_of (cs_converter s')) \<and>
    (\<forall>kp \<in> set kps. needs_value (snd kp) \<longrightarrow> map_of (cs_converter s') (fst kp) \<noteq> None)"
  using assms
proof (induction kps arbitrary: s)
  case (Cons kp kps)
  obtain k p where kp [simp]: "kp = (k, p)" by (cases kp)
  obtain s1 where s1: "log_column E A oc rule r a (k, p) s = Some s1" "log_cache_ok oc (cs_log s1)"
    "step_ok (k, p) (cs_converter s) (cs_converter s1)"
    using log_column_step [of k p oc s E A rule r a] Cons.prems by auto
  then have inv: "geo_inv (cs_converter s1)" by (simp add: step_ok_def)
  obtain s' where s': "log_columns E A oc rule r a kps s1 = Some s'" "log_cache_ok oc (cs_log s')"
    "geo_inv (cs_converter s')" "dom (map_of (cs_converter s1)) \<subseteq> dom (map_of (cs_converter s'))"
    "\<forall>kp \<in> set kps. needs_value (snd kp) \<longrightarrow> map_of (cs_converter s') (fst kp) \<noteq> None"
    using Cons.IH [of s1] Cons.prems s1(2) inv by auto
  have "needs_value p \<longrightarrow> k \<in> dom (map_of (cs_converter s'))" using s1(3) s'(4) by (auto simp: step_ok_def)
  moreover have "dom (map_of (cs_converter s)) \<subseteq> dom (map_of (cs_converter s'))"
    using s1(3) s'(4) unfolding step_ok_def by (blast intro: subset_trans)
  ultimately show ?case using s1(1) s' by (auto simp: domIff)
qed simp

lemma create_log_record_message:
  assumes "log_columns E A oc rule r (log_args_of E oc rule r) (oc_profiles oc)
    \<lparr>cs_converter = [], cs_level = initial_level E rule, cs_tactics_computer = [], cs_log = ls\<rparr> = Some s"
  shows "\<exists>out d mc. create_log_record E A oc rule r ls =
      map_option (\<lambda>d'. (d', cs_log s)) (create_message E A (rec_data r) out d (map_of (cs_converter s)) mc) \<and>
    ext_field d = oc_profiles oc \<and> di_level d = cs_level s"
  unfolding create_log_record_def Let_def assms option.case
  by (intro exI conjI, rule refl) simp_all

text \<open>
  C38: A report never loses, adds, reorders or mistypes a column, and building it never panics. For a
  profile in which the location columns and the recovered-record column carry their own names, and
  location tables of the right shape when there are location columns, a matched record gives a
  detection whose columns are those of the profile, in order, each with the name and kind it has there,
  literals unchanged; and the cache of locations stays truthful.
\<close>

theorem log_record_columns:
  assumes "\<forall>kp \<in> set (oc_profiles oc). column_ok kp \<and> (is_geo (snd kp) \<longrightarrow> geo_config_ok oc)"
    and "log_cache_ok oc ls"
  shows "\<exists>d ls'. create_log_record E A oc rule r ls = Some (d, ls') \<and> log_cache_ok oc ls' \<and>
    map (\<lambda>(k, p). (k, profile_convert p [])) (ext_field d) =
    map (\<lambda>(k, p). (k, profile_convert p [])) (oc_profiles oc)"
proof -
  define s0 where "s0 = \<lparr>cs_converter = [], cs_level = initial_level E rule, cs_tactics_computer = [], cs_log = ls\<rparr>"
  obtain s where s: "log_columns E A oc rule r (log_args_of E oc rule r) (oc_profiles oc) s0 = Some s"
    "log_cache_ok oc (cs_log s)" "geo_inv (cs_converter s)"
    "\<forall>kp \<in> set (oc_profiles oc). needs_value (snd kp) \<longrightarrow> map_of (cs_converter s) (fst kp) \<noteq> None"
    using log_columns_loop [OF assms(1), of s0 E A rule r "log_args_of E oc rule r"] assms(2) by (auto simp: s0_def)
  have "\<forall>kp \<in> set (oc_profiles oc). value_ready (map_of (cs_converter s)) kp"
    using assms(1) s(3,4) value_ready_from_inv by blast
  moreover obtain out d mc where d:
    "create_log_record E A oc rule r ls =
      map_option (\<lambda>d'. (d', cs_log s)) (create_message E A (rec_data r) out d (map_of (cs_converter s)) mc)"
    "ext_field d = oc_profiles oc" "di_level d = cs_level s"
    using create_log_record_message s(1) unfolding s0_def by metis
  ultimately show ?thesis using create_message_kinds [of d "map_of (cs_converter s)" E A "rec_data r" out mc] s(2) by auto
qed
definition sample_config :: output_config where
  "sample_config = \<lparr>oc_profiles = [(''Time'', PTimestamp []), (''Computer'', PComputer []), (''Details'', PDetails []),
       (''Tool'', PLiteral ''engine''), (''RecoveredRecord'', PRecoveredRecord [])],
     oc_alias = new_alias_config, oc_json_input = False, oc_json_timeline = False, oc_disable_abbreviation = False,
     oc_output_file = True, oc_split_authors = False, oc_html_report = False, oc_time_text = show_int,
     oc_channel_abbr = Map.empty, oc_provider_abbr = Map.empty, oc_abbreviate = (\<lambda>s. s), oc_default_details = Map.empty,
     oc_data_map = None, oc_tags = [], oc_critical = [], oc_geo_mapping = None, oc_geo_filter = None, oc_geo_parser = None,
     oc_yaml_from_str = YString\<rparr>"

definition empty_log :: log_state where
  "empty_log = \<lparr>ls_cache = [], ls_attck = [], ls_attck_keys = []\<rparr>"

lemma sample_config_ok:
  "\<forall>kp \<in> set (oc_profiles sample_config). column_ok kp \<and> (is_geo (snd kp) \<longrightarrow> geo_config_ok sample_config)"
  by (simp add: sample_config_def column_ok_def geo_columns_def)

theorem log_record_columns_witness:
  "\<exists>d ls'. create_log_record env0 no_aho sample_config
      \<lparr>rulepath = ''a.yml'', rule_yaml = YNull, detection = detection_new, countdata = [], correlation = NoCorrelation\<rparr>
      \<lparr>evtx_filepath = ''a.evtx'', rec_data = JNull, data_string = [], key_2_value = Map.empty, recovered_record = False\<rparr>
      empty_log = Some (d, ls') \<and> log_cache_ok sample_config ls' \<and>
    map (\<lambda>(k, p). (k, profile_convert p [])) (ext_field d) =
    map (\<lambda>(k, p). (k, profile_convert p [])) (oc_profiles sample_config)"
  by (rule log_record_columns [OF sample_config_ok]) (simp add: log_cache_ok_def sample_config_def)

subsection \<open>The level of a detection\<close>

fun is_level_column :: "string \<times> profile \<Rightarrow> bool" where
  "is_level_column (_, PLevel _) = True"
| "is_level_column _ = False"

lemma geo_column_level: "geo_column E A oc rec a side k s = Some s' \<Longrightarrow> cs_level s' = cs_level s"
  by (auto simp: geo_column_def case_prod_beta split: if_splits)

lemma log_column_level:
  assumes "log_column E A oc rule r a kp s = Some s'"
  shows "cs_level s' =
    (if is_level_column kp then level_convert (oc_critical oc) (cs_level s) (la_computer a) else cs_level s)"
proof -
  obtain k p where [simp]: "kp = (k, p)" by (cases kp)
  show ?thesis
  proof (cases p)
    case (PMitreTactics v)
    then show ?thesis using assms by (auto simp: log_column_def tactics_column_def Let_def)
  qed (use assms in \<open>auto simp: log_column_def Let_def dest: geo_column_level\<close>)
qed

lemma log_columns_level:
  "log_columns E A oc rule r a kps s = Some s' \<Longrightarrow>
    cs_level s' = ((\<lambda>l. level_convert (oc_critical oc) l (la_computer a)) ^^ length (filter is_level_column kps)) (cs_level s)"
  by (induction kps arbitrary: s) (auto simp: bind_eq_Some_conv dest!: log_column_level
      simp: funpow_swap1 [where f = "\<lambda>l. level_convert (oc_critical oc) l (la_computer a)", symmetric])

lemma create_message_level:
  "create_message E A rec out d pc mc = Some d' \<Longrightarrow> di_level d' = di_level d"
  by (auto simp: create_message_def split: prod.splits)

lemma log_record_level_lemma:
  assumes "create_log_record E A oc rule r ls = Some (d, ls')"
  shows "di_level d =
    ((\<lambda>l. level_convert (oc_critical oc) l (la_computer (log_args_of E oc rule r)))
       ^^ length (filter is_level_column (oc_profiles oc))) (initial_level E rule)"
proof -
  define s0 where "s0 = \<lparr>cs_converter = [], cs_level = initial_level E rule, cs_tactics_computer = [], cs_log = ls\<rparr>"
  obtain s where s: "log_columns E A oc rule r (log_args_of E oc rule r) (oc_profiles oc) s0 = Some s"
    using assms by (auto simp: create_log_record_def Let_def s0_def split: option.splits)
  obtain out dd mc where "create_log_record E A oc rule r ls =
      map_option (\<lambda>d'. (d', cs_log s)) (create_message E A (rec_data r) out dd (map_of (cs_converter s)) mc)"
    "di_level dd = cs_level s"
    using create_log_record_message s unfolding s0_def by metis
  with assms have "di_level d = cs_level s" by (auto dest: create_message_level)
  with log_columns_level [OF s] show ?thesis by (simp add: s0_def)
qed

text \<open>
  The level of a reported detection is the rule's, raised for a critical computer once for every
  column of the profile that shows the level: not at all when no column does.
\<close>

theorem log_record_level:
  "case create_log_record E A oc rule r ls of
     None \<Rightarrow> True
   | Some (d, ls') \<Rightarrow> di_level d =
       ((\<lambda>l. level_convert (oc_critical oc) l (la_computer (log_args_of E oc rule r)))
          ^^ length (filter is_level_column (oc_profiles oc))) (initial_level E rule)"
  by (auto split: option.split dest: log_record_level_lemma)

lemma level_not_raised_without_column:
  assumes "create_log_record E A oc rule r ls = Some (d, ls')" and "filter is_level_column (oc_profiles oc) = []"
  shows "di_level d = initial_level E rule"
  using log_record_level_lemma [OF assms(1)] assms(2) by simp

subsection \<open>Aggregations\<close>

lemma agg_column_step:
  assumes "column_ok (k, p)" and "geo_inv pc"
  shows "step_ok (k, p) pc (fst (agg_column oc rule agg cmp tags (k, p) (pc, l)))"
proof (cases "is_geo p")
  case True
  have k: "(k, kind p) \<in> set geo_columns" using assms(1) True by (simp add: column_ok_def)
  have "\<exists>side. fst (agg_column oc rule agg cmp tags (k, p) (pc, l)) = agg_geo side k pc \<and> k \<in> side_names side"
    using True k by (cases p) (auto simp: agg_column_def geo_columns_def side_names_def intro: exI [of _ Src] exI [of _ Tgt])
  with assms(2) show ?thesis by (auto simp: agg_geo_def step_ok_fill step_ok_present)
next
  case False
  note put = step_ok_put [OF assms(2,1) False]
  show ?thesis
  proof (cases "needs_value p")
    case True
    with False put show ?thesis using assms step_ok_recovered [OF assms(2), of k]
      by (cases p) (simp_all add: agg_column_def Let_def)
  next
    case no: False
    then show ?thesis using False assms(2) step_ok_keep [of pc p k] by (cases p) (simp_all add: agg_column_def)
  qed
qed

lemma agg_columns_loop:
  assumes "\<forall>kp \<in> set kps. column_ok kp" and "geo_inv pc" and "fold (agg_column oc rule agg cmp tags) kps (pc, l) = (pc', l')"
  shows "geo_inv pc' \<and> dom (map_of pc) \<subseteq> dom (map_of pc') \<and>
    (\<forall>kp \<in> set kps. needs_value (snd kp) \<longrightarrow> map_of pc' (fst kp) \<noteq> None)"
  using assms
proof (induction kps arbitrary: pc l)
  case (Cons kp kps)
  obtain k p where kp [simp]: "kp = (k, p)" by (cases kp)
  obtain pc1 l1 where s1: "agg_column oc rule agg cmp tags (k, p) (pc, l) = (pc1, l1)" by fastforce
  have st: "step_ok (k, p) pc pc1" using agg_column_step [of k p pc oc rule agg cmp tags l] Cons.prems s1 by simp
  have rest: "geo_inv pc'" "dom (map_of pc1) \<subseteq> dom (map_of pc')"
    "\<forall>kp \<in> set kps. needs_value (snd kp) \<longrightarrow> map_of pc' (fst kp) \<noteq> None"
    using Cons.IH [of pc1 l1] Cons.prems s1 st by (auto simp: step_ok_def)
  have "needs_value p \<longrightarrow> k \<in> dom (map_of pc')" using st rest(2) by (auto simp: step_ok_def)
  moreover have "dom (map_of pc) \<subseteq> dom (map_of pc')" using st rest(2) unfolding step_ok_def by (blast intro: subset_trans)
  ultimately show ?case using rest by (auto simp: domIff)
qed simp

lemma agg_record_columns:
  assumes "\<forall>kp \<in> set (oc_profiles oc). column_ok kp" and "has_agg_condition rule"
  shows "\<exists>d. create_agg_log_record E A oc rule agg = Some d \<and> kinds (ext_field d) = kinds (oc_profiles oc)"
proof -
  obtain out where out: "create_count_output rule agg = Some out"
    using assms(2) by (auto simp: create_count_output_def get_agg_condition_def has_agg_condition_def)
  define cmp where "cmp = join_agg_values rec_computer (agg_record_time_info agg)"
  obtain pc l where f: "fold (agg_column oc rule agg cmp (get_tag_info (oc_tags oc) rule)) (oc_profiles oc)
      ([], initial_level E rule) = (pc, l)" by fastforce
  have "\<forall>kp \<in> set (oc_profiles oc). value_ready (map_of pc) kp"
    using agg_columns_loop [OF assms(1) _ f] assms(1) value_ready_from_inv by simp
  then have "\<exists>d'. create_message E A JNull out d (map_of pc) mc = Some d' \<and> kinds (ext_field d') = kinds (oc_profiles oc)"
    if "ext_field d = oc_profiles oc" for d mc
    using create_message_kinds [of d "map_of pc"] that by metis
  then show ?thesis using out f by (simp add: create_agg_log_record_def Let_def cmp_def)
qed
end
