(* ===== verification/Metrics.thy ===== *)
theory Metrics
  imports Event_Utils "HOL-Library.List_Lexorder" "HOL-Library.Char_ord"
begin

section \<open>Metrics of event logs (timeline/metrics.rs, log\_metrics.rs, computer\_metrics.rs, timelines.rs)\<close>

text \<open>
  The counters of the metrics commands: events by id and channel, logons by account, figures by log
  file and by computer, and the critical systems that a log gives away. A point in time is its
  nanoseconds; parsing and printing of times are parameters. \<open>None\<close> is a panic.
\<close>

record metrics_config =
  xc_alias :: alias_config
  xc_quiet :: bool
  xc_remove_duplicates :: bool
  xc_include_computer :: "string list"
  xc_exclude_computer :: "string list"
  xc_parse_utc :: "string \<Rightarrow> string + int"
  xc_parse_offset :: "string \<Rightarrow> string + int"
  xc_show_time :: "int \<Rightarrow> string"
  xc_file_size :: "string \<Rightarrow> string"
  xc_win_versions :: "((string \<times> string) \<times> (string \<times> string)) list"

record login_event =
  le_channel :: string
  le_dst_user :: string
  le_dst_domain :: string
  le_hostname :: string
  le_logontype :: string
  le_src_user :: string
  le_src_domain :: string
  le_source_computer :: string
  le_source_ip :: string

record log_metrics =
  lm_filepath :: string
  lm_filename :: string
  lm_file_size :: string
  lm_computers :: "string list"
  lm_event_count :: nat
  lm_first :: "int option"
  lm_last :: "int option"
  lm_channels :: "string list"
  lm_providers :: "string list"

record computer_stat =
  cm_os :: string
  cm_uptime :: string
  cm_timezone :: string
  cm_last :: string
  cm_count :: nat

record event_metrics =
  em_total :: nat
  em_filepath :: string
  em_start :: "int option"
  em_end :: "int option"
  em_stats_list :: "((string \<times> string) \<times> nat) list"
  em_computers :: "(string \<times> computer_stat) list"
  em_logins :: "(login_event \<times> nat \<times> nat) list"
  em_logfiles :: "log_metrics list"
  em_counted :: "(string \<times> string) list"

definition event_metrics_default :: event_metrics where
  "event_metrics_default = \<lparr>em_total = 0, em_filepath = [], em_start = None, em_end = None, em_stats_list = [],
     em_computers = [], em_logins = [], em_logfiles = [], em_counted = []\<rparr>"

subsection \<open>First and last time\<close>

definition evtx_service_released :: int where
  "evtx_service_released = 1170115200 * 10 ^ 9"

definition parse_event_time :: "metrics_config \<Rightarrow> string \<Rightarrow> string list \<Rightarrow> int option \<times> string list" where
  "parse_event_time mc evttime log =
     (case xc_parse_utc mc evttime of
        Inr t \<Rightarrow> (Some t, log)
      | Inl _ \<Rightarrow>
          (case xc_parse_offset mc evttime of
             Inr t \<Rightarrow> (Some t, log)
           | Inl e \<Rightarrow>
               (None, if xc_quiet mc then log
                      else log @ [''[ERROR] Timestamp parse error.'' @ [CHR 0x0A] @ ''Input: '' @ evttime @ [CHR 0x0A] @
                                  ''Error: '' @ e @ [CHR 0x0A]])))"

definition check_start_end_time :: "metrics_config \<Rightarrow> string \<Rightarrow> event_metrics \<times> string list \<Rightarrow> event_metrics \<times> string list" where
  "check_start_end_time mc evttime s =
     (let (st, log) = s in
      case parse_event_time mc evttime log of
        (None, log1) \<Rightarrow> (st, log1)
      | (Some t, log1) \<Rightarrow>
          (let earlier = (case em_start st of None \<Rightarrow> True | Some b \<Rightarrow> t < b);
               valid = evtx_service_released \<le> t;
               st1 = (if earlier \<and> valid then st\<lparr>em_start := Some t\<rparr> else st);
               log2 = (if earlier \<and> \<not> valid
                       then log1 @ [''[ERROR] Invalid record found.'' @ [CHR 0x0A] @ ''EventFile:'' @ em_filepath st @ [CHR 0x0A] @
                                    ''Timestamp:'' @ xc_show_time mc t @ [CHR 0x0A]]
                       else log1)
           in (if (case em_end st of None \<Rightarrow> True | Some b \<Rightarrow> b < t) then st1\<lparr>em_end := Some t\<rparr> else st1, log2)))"

definition time_text_of :: "env \<Rightarrow> json \<Rightarrow> string" where
  "time_text_of E v = replace_all [CHR 0x22] [] (replace_all [CHR 0x5C, CHR 0x22] [] (json_text E v))"

definition record_time :: "env \<Rightarrow> metrics_config \<Rightarrow> json \<Rightarrow> string option" where
  "record_time E mc rec =
     (case get_event_value (xc_alias mc) ''Event.System.TimeCreated_attributes.SystemTime'' rec of
        Some v \<Rightarrow> Some (time_text_of E v)
      | None \<Rightarrow> map_option (time_text_of E) (get_event_value (xc_alias mc) ''Event.System.@timestamp'' rec))"

definition stats_time_cnt ::
  "env \<Rightarrow> metrics_config \<Rightarrow> recinfo list \<Rightarrow> event_metrics \<times> string list \<Rightarrow> event_metrics \<times> string list" where
  "stats_time_cnt E mc records s =
     (if records = [] then s
      else
        (let (st, log) = s;
             s1 = (st\<lparr>em_filepath := evtx_filepath (hd records)\<rparr>, log);
             (st2, log2) = fold (\<lambda>r s. case record_time E mc (rec_data r) of None \<Rightarrow> s | Some t \<Rightarrow> check_start_end_time mc t s)
                             [hd records, last records] s1
         in (st2\<lparr>em_total := em_total st2 + length records\<rparr>, log2)))"

subsection \<open>Events by id and channel\<close>

definition is_filtered_by_computer_name :: "json option \<Rightarrow> string list \<Rightarrow> string list \<Rightarrow> bool" where
  "is_filtered_by_computer_name rec include_computer exclude_computer =
     (case rec of
        None \<Rightarrow> False
      | Some computer_name \<Rightarrow>
          (let s = replace_all [CHR 0x22] [] (unwrap_or [] (json_as_str computer_name))
           in (include_computer \<noteq> [] \<and> s \<notin> set include_computer) \<or> (exclude_computer \<noteq> [] \<and> s \<in> set exclude_computer)))"

definition counted_key :: "env \<Rightarrow> json \<Rightarrow> string \<times> string" where
  "counted_key E rec =
     (let event = json_index (json_index rec ''Event'') ''System''
      in (json_text E (json_index event ''EventRecordID''),
          json_text E (json_index (json_index event ''TimeCreated_attributes'') ''SystemTime'')))"

text \<open>Whether a record was counted before; a record that was not is remembered.\<close>

definition seen_before :: "env \<Rightarrow> metrics_config \<Rightarrow> json \<Rightarrow> event_metrics \<Rightarrow> bool" where
  "seen_before E mc rec st \<longleftrightarrow> xc_remove_duplicates mc \<and> counted_key E rec \<in> set (em_counted st)"

definition remember :: "env \<Rightarrow> metrics_config \<Rightarrow> json \<Rightarrow> event_metrics \<Rightarrow> event_metrics" where
  "remember E mc rec st =
     (if xc_remove_duplicates mc then st\<lparr>em_counted := List.insert (counted_key E rec) (em_counted st)\<rparr> else st)"

definition count_eventid :: "env \<Rightarrow> metrics_config \<Rightarrow> json \<Rightarrow> event_metrics \<Rightarrow> event_metrics option" where
  "count_eventid E mc rec st =
     (if is_filtered_by_computer_name (get_event_value (xc_alias mc) ''Event.System.Computer'' rec)
           (xc_include_computer mc) (xc_exclude_computer mc) then Some st
      else
        (case (case get_event_value (xc_alias mc) ''Channel'' rec of Some ch \<Rightarrow> json_as_str ch | None \<Rightarrow> Some ''-'') of
           None \<Rightarrow> None
         | Some channel \<Rightarrow>
             (case get_event_value (xc_alias mc) ''EventID'' rec of
                None \<Rightarrow> Some st
              | Some idnum \<Rightarrow>
                  (if seen_before E mc rec st then Some st
                   else
                     (let key = (to_lowercase E (replace_all [CHR 0x22] [] (json_text E idnum)), to_lowercase E channel);
                          st1 = remember E mc rec st
                      in Some (st1\<lparr>em_stats_list := assoc_insert key (unwrap_or 0 (map_of (em_stats_list st1) key) + 1)
                                     (em_stats_list st1)\<rparr>))))))"

fun stats_eventid :: "env \<Rightarrow> metrics_config \<Rightarrow> recinfo list \<Rightarrow> event_metrics \<Rightarrow> event_metrics option" where
  "stats_eventid E mc [] st = Some st"
| "stats_eventid E mc (r # rs) st = Option.bind (count_eventid E mc (rec_data r) st) (stats_eventid E mc rs)"

definition evt_stats_start ::
  "env \<Rightarrow> metrics_config \<Rightarrow> bool \<Rightarrow> recinfo list \<Rightarrow> event_metrics \<times> string list \<Rightarrow> (event_metrics \<times> string list) option" where
  "evt_stats_start E mc metrics_flag records s =
     (let (st, log) = stats_time_cnt E mc records s in
      if \<not> metrics_flag then Some (st, log) else map_option (\<lambda>st'. (st', log)) (stats_eventid E mc records st))"

subsection \<open>Logons\<close>

definition get_event_value_as_string :: "env \<Rightarrow> metrics_config \<Rightarrow> string \<Rightarrow> json \<Rightarrow> string" where
  "get_event_value_as_string E mc key rec =
     filter (\<lambda>c. c \<noteq> CHR 0x22 \<and> c \<noteq> CHR 0x27)
       (unwrap_or ''-'' (get_serde_number_to_string E (unwrap_or JNull (get_event_value (xc_alias mc) key rec)) False))"

datatype logon_channel = Sec | RdsLsm | RdsGtw

definition is_target_event :: "int \<Rightarrow> string \<Rightarrow> logon_channel option" where
  "is_target_event idnum channel =
     (if (idnum = 4624 \<or> idnum = 4625) \<and> channel = ''Security'' then Some Sec
      else if idnum = 21 \<and> channel = ''Microsoft-Windows-TerminalServices-LocalSessionManager/Operational'' then Some RdsLsm
      else if idnum = 302 \<and> channel = ''Microsoft-Windows-TerminalServices-Gateway/Operational'' then Some RdsGtw
      else None)"

definition logontype_map :: "(string \<times> string) list" where
  "logontype_map = [(''0'', ''0 - System''), (''2'', ''2 - Interactive''), (''3'', ''3 - Network''), (''4'', ''4 - Batch''),
     (''5'', ''5 - Service''), (''7'', ''7 - Unlock''), (''8'', ''8 - NetworkCleartext''), (''9'', ''9 - NewInteractive''),
     (''10'', ''10 - RemoteInteractive''), (''11'', ''11 - CachedInteractive''), (''12'', ''12 - CachedRemoteInteractive''),
     (''13'', ''13 - CachedUnlock'')]"

definition after_backslash :: "string \<Rightarrow> string" where
  "after_backslash s = last (split_char (CHR 0x5C) s)"

definition before_backslash :: "string \<Rightarrow> string" where
  "before_backslash s =
     (let ps = split_char (CHR 0x5C) s in if length ps < 2 then ''-'' else join [CHR 0x5C] (butlast ps))"

definition login_event_of :: "env \<Rightarrow> metrics_config \<Rightarrow> json \<Rightarrow> int \<Rightarrow> logon_channel \<Rightarrow> login_event" where
  "login_event_of E mc rec idnum ch =
     (let str = (\<lambda>k. get_event_value_as_string E mc k rec);
          logontype = str ''LogonType''
      in \<lparr>le_channel = (case ch of Sec \<Rightarrow> if idnum = 4624 then ''Sec 4624'' else ''Sec 4625'' | RdsLsm \<Rightarrow> ''RDS-LSM 21''
                        | RdsGtw \<Rightarrow> ''RDS-GTW 302''),
          le_dst_user = (case ch of Sec \<Rightarrow> str ''TargetUserName'' | RdsLsm \<Rightarrow> after_backslash (str ''UserDataUser'')
                         | RdsGtw \<Rightarrow> after_backslash (str ''RdsGtwUsername'')),
          le_dst_domain = (case ch of Sec \<Rightarrow> str ''TargetDomainName'' | RdsLsm \<Rightarrow> before_backslash (str ''UserDataUser'')
                           | RdsGtw \<Rightarrow> before_backslash (str ''RdsGtwUserName'')),
          le_hostname = str ''Computer'',
          le_logontype = unwrap_or logontype (map_of logontype_map logontype),
          le_src_user = str ''SubjectUserName'',
          le_src_domain = str ''SubjectDomainName'',
          le_source_computer = str ''WorkstationName'',
          le_source_ip = (case ch of Sec \<Rightarrow> str ''IpAddress'' | RdsLsm \<Rightarrow> str ''UserDataAddress''
                          | RdsGtw \<Rightarrow> str ''RdsGtwIpAddress'')\<rparr>)"

definition add_login :: "int \<Rightarrow> login_event \<Rightarrow> (login_event \<times> nat \<times> nat) list \<Rightarrow> (login_event \<times> nat \<times> nat) list" where
  "add_login idnum e m =
     (let (s, f) = unwrap_or (0, 0) (map_of m e)
      in assoc_insert e (if idnum = 4624 \<or> idnum = 21 \<or> idnum = 302 then (s + 1, f)
                         else if idnum = 4625 then (s, f + 1) else (s, f)) m)"

definition event_id_error :: "env \<Rightarrow> metrics_config \<Rightarrow> recinfo \<Rightarrow> string list \<Rightarrow> string list" where
  "event_id_error E mc r log =
     (let rec_id = unwrap_or ''n/a'' (get_serde_number_to_string E
            (json_index (json_index (json_index (rec_data r) ''Event'') ''System'') ''EventRecordID'') False)
      in if xc_quiet mc then log
         else log @ [''[ERROR] Failed to parse event ID from event file: '' @ evtx_filepath r @ [CHR 0x0A] @
                     ''Event record ID: '' @ rec_id @ [CHR 0x0A]])"

definition count_login ::
  "env \<Rightarrow> metrics_config \<Rightarrow> recinfo \<Rightarrow> event_metrics \<times> string list \<Rightarrow> (event_metrics \<times> string list) option" where
  "count_login E mc r s =
     (let (st, log) = s; rec = rec_data r in
      case get_event_value (xc_alias mc) ''EventID'' rec of
        None \<Rightarrow> Some s
      | Some evtid \<Rightarrow>
          (if \<not> (case evtid of JNumber _ \<Rightarrow> True | _ \<Rightarrow> False) then Some (st, event_id_error E mc r log)
           else (case json_as_i64 evtid of
                   None \<Rightarrow> None
                 | Some idnum \<Rightarrow>
                     (case is_target_event idnum (get_event_value_as_string E mc ''Channel'' rec) of
                        None \<Rightarrow> Some s
                      | Some ch \<Rightarrow>
                          (if seen_before E mc rec st then Some s
                           else
                             (let st1 = remember E mc rec st
                              in Some (st1\<lparr>em_logins := add_login idnum (login_event_of E mc rec idnum ch) (em_logins st1)\<rparr>,
                                       log)))))))"

fun stats_login_eventid ::
  "env \<Rightarrow> metrics_config \<Rightarrow> recinfo list \<Rightarrow> event_metrics \<times> string list \<Rightarrow> (event_metrics \<times> string list) option" where
  "stats_login_eventid E mc [] s = Some s"
| "stats_login_eventid E mc (r # rs) s = Option.bind (count_login E mc r s) (stats_login_eventid E mc rs)"

definition logon_stats_start ::
  "env \<Rightarrow> metrics_config \<Rightarrow> bool \<Rightarrow> recinfo list \<Rightarrow> event_metrics \<times> string list \<Rightarrow> (event_metrics \<times> string list) option" where
  "logon_stats_start E mc logon_summary_flag records s =
     (if \<not> logon_summary_flag then Some s else stats_login_eventid E mc records (stats_time_cnt E mc records s))"

subsection \<open>Figures by log file\<close>

definition log_metrics_new :: "string \<Rightarrow> string \<Rightarrow> string \<Rightarrow> log_metrics" where
  "log_metrics_new filepath filename file_size =
     \<lparr>lm_filepath = filepath, lm_filename = filename, lm_file_size = file_size, lm_computers = [], lm_event_count = 0,
      lm_first = None, lm_last = None, lm_channels = [], lm_providers = []\<rparr>"

definition update_times :: "int option \<Rightarrow> log_metrics \<Rightarrow> log_metrics" where
  "update_times time lm =
     (case time of
        None \<Rightarrow> lm
      | Some t \<Rightarrow>
          lm\<lparr>lm_first := (case lm_first lm of None \<Rightarrow> Some t | Some b \<Rightarrow> Some (min t b)),
             lm_last := (case lm_last lm of None \<Rightarrow> Some t | Some b \<Rightarrow> Some (max t b))\<rparr>)"

definition add_text :: "env \<Rightarrow> metrics_config \<Rightarrow> string \<Rightarrow> json \<Rightarrow> string list \<Rightarrow> string list" where
  "add_text E mc key rec xs =
     (case get_event_value (xc_alias mc) key rec of
        None \<Rightarrow> xs
      | Some v \<Rightarrow> List.insert (trim_matches (CHR 0x22) (json_text E v)) xs)"

definition log_metrics_record ::
  "env \<Rightarrow> metrics_config \<Rightarrow> recinfo \<Rightarrow> log_metrics \<times> string list \<Rightarrow> log_metrics \<times> string list" where
  "log_metrics_record E mc r s =
     (let (lm, log) = s; rec = rec_data r;
          (time, log1) = (case get_event_value (xc_alias mc) ''Event.System.TimeCreated_attributes.SystemTime'' rec of
                            None \<Rightarrow> (None, log)
                          | Some v \<Rightarrow> parse_event_time mc (time_text_of E v) log);
          lm1 = update_times time lm
      in (lm1\<lparr>lm_computers := add_text E mc ''Computer'' rec (lm_computers lm1),
              lm_channels := add_text E mc ''Channel'' rec (lm_channels lm1),
              lm_providers := add_text E mc ''ProviderName'' rec (lm_providers lm1),
              lm_event_count := lm_event_count lm1 + 1\<rparr>, log1))"

definition log_metrics_update ::
  "env \<Rightarrow> metrics_config \<Rightarrow> recinfo list \<Rightarrow> log_metrics \<times> string list \<Rightarrow> log_metrics \<times> string list" where
  "log_metrics_update E mc records s = fold (log_metrics_record E mc) records s"

definition path_file_name :: "string \<Rightarrow> string" where
  "path_file_name p =
     (let comps = filter (\<lambda>c. c \<noteq> [] \<and> c \<noteq> ''.'') (split_char (CHR ''/'') p)
      in if comps = [] \<or> last comps = ''..'' then [] else last comps)"

text \<open>The entry for the file and the computer of the first record of the block, which is read only when asked for.\<close>

fun find_logfile ::
  "env \<Rightarrow> metrics_config \<Rightarrow> string \<Rightarrow> string \<Rightarrow> recinfo list \<Rightarrow> log_metrics list \<Rightarrow> nat option option" where
  "find_logfile E mc path name records [] = Some None"
| "find_logfile E mc path name records (lm # lms) =
     (if lm_filepath lm = path \<and> lm_filename lm = name then
        (case records of
           [] \<Rightarrow> None
         | r # _ \<Rightarrow>
             (if trim_matches (CHR 0x22) (get_event_value_as_string E mc ''Computer'' (rec_data r)) \<in> set (lm_computers lm)
              then Some (Some 0)
              else map_option (map_option Suc) (find_logfile E mc path name records lms)))
      else map_option (map_option Suc) (find_logfile E mc path name records lms))"

definition logfile_stats_start ::
  "env \<Rightarrow> metrics_config \<Rightarrow> bool \<Rightarrow> recinfo list \<Rightarrow> event_metrics \<times> string list \<Rightarrow> (event_metrics \<times> string list) option" where
  "logfile_stats_start E mc log_metrics_flag records s =
     (if \<not> log_metrics_flag then Some s
      else
        (let (st, log) = stats_time_cnt E mc records s;
             path = em_filepath st; name = path_file_name path
         in case find_logfile E mc path name records (em_logfiles st) of
              None \<Rightarrow> None
            | Some (Some i) \<Rightarrow>
                (let (lm, log1) = log_metrics_update E mc records (em_logfiles st ! i, log)
                 in Some (st\<lparr>em_logfiles := (em_logfiles st)[i := lm]\<rparr>, log1))
            | Some None \<Rightarrow>
                (let (lm, log1) = log_metrics_update E mc records (log_metrics_new path name (xc_file_size mc path), log)
                 in Some (st\<lparr>em_logfiles := em_logfiles st @ [lm]\<rparr>, log1))))"

text \<open>A line of the table; a log is left out by the computers it holds.\<close>

definition create_record_array ::
  "metrics_config \<Rightarrow> (int \<Rightarrow> string) \<Rightarrow> (string \<Rightarrow> string) \<Rightarrow> (string \<Rightarrow> string) \<Rightarrow> (nat \<Rightarrow> string) \<Rightarrow> bool \<Rightarrow> bool \<Rightarrow>
   string \<Rightarrow> log_metrics \<Rightarrow> string list option" where
  "create_record_array mc format_time channel_abbr provider_abbr thousands multiline tab sep0 lm =
     (if xc_include_computer mc \<noteq> [] \<and> list_all (\<lambda>c. c \<notin> set (xc_include_computer mc)) (lm_computers lm) then None
      else if xc_exclude_computer mc \<noteq> [] \<and> list_ex (\<lambda>c. c \<in> set (xc_exclude_computer mc)) (lm_computers lm) then None
      else
        (let sep = (if multiline then [CHR 0x0A] else if tab then [CHR 0x09] else sep0) in
         Some [lm_filename lm, join sep (sort (lm_computers lm)), thousands (lm_event_count lm),
               format_time (unwrap_or 0 (lm_first lm)), format_time (unwrap_or 0 (lm_last lm)),
               join sep (sort (map channel_abbr (lm_channels lm))), join sep (sort (map provider_abbr (lm_providers lm))),
               lm_file_size lm]))"

subsection \<open>Figures by computer\<close>

definition computer_stat_new :: computer_stat where
  "computer_stat_new = \<lparr>cm_os = [], cm_uptime = [], cm_timezone = [], cm_last = [], cm_count = 0\<rparr>"

definition win_version :: "metrics_config \<Rightarrow> json list \<Rightarrow> string option" where
  "win_version mc arr =
     (case arr of
        a # b # _ \<Rightarrow>
          (let ver = replace_all ''.00'' ''.0'' (replace_all ''.01'' ''.1''
                  (trim_matches (CHR ''.'') (unwrap_or [] (json_as_str a))));
               bui = unwrap_or [] (json_as_str b)
           in Some (case map_of (xc_win_versions mc) (ver, bui) of
                      Some (win, data) \<Rightarrow> ''Windows '' @ win @ '' ('' @ data @ '')''
                    | None \<Rightarrow> ''Version: '' @ ver @ '' Build: '' @ bui))
      | _ \<Rightarrow> None)"

definition timezone_text :: "json list \<Rightarrow> string option" where
  "timezone_text arr =
     (if length arr \<le> 6 then None
      else (let tz = unwrap_or [] (json_as_str (arr ! 6))
            in Some (case find_char (CHR '' '') tz of Some i \<Rightarrow> drop (i + 1) tz | None \<Rightarrow> tz)))"

definition json_array :: "json \<Rightarrow> json list option" where
  "json_array v = (case v of JArray vs \<Rightarrow> Some vs | _ \<Rightarrow> None)"

definition later :: "string \<Rightarrow> string \<Rightarrow> string" where
  "later new old = (if old < new then new else old)"

text \<open>What a record of the System log tells of its computer.\<close>

definition system_event :: "env \<Rightarrow> metrics_config \<Rightarrow> json \<Rightarrow> int \<Rightarrow> computer_stat \<Rightarrow> computer_stat option" where
  "system_event E mc rec eid v =
     (let data = json_array (json_index (json_index (json_index rec ''Event'') ''EventData'') ''Data'');
          v1 = (if eid = 6009 \<and> cm_os v = [] \<and> xc_win_versions mc \<noteq> []
                then (case data of None \<Rightarrow> Some v | Some arr \<Rightarrow> map_option (\<lambda>os. v\<lparr>cm_os := os\<rparr>) (win_version mc arr))
                else if eid = 6013
                then (case data of None \<Rightarrow> Some v | Some arr \<Rightarrow> map_option (\<lambda>tz. v\<lparr>cm_timezone := tz\<rparr>) (timezone_text arr))
                else Some v);
          evt_time = trim_matches (CHR 0x22) (json_text E (json_index (json_index (json_index (json_index rec ''Event'')
            ''System'') ''TimeCreated_attributes'') ''SystemTime''))
      in map_option (\<lambda>v2.
           (if eid = 12 \<or> eid = 6005 \<or> eid = 6009 then v2\<lparr>cm_uptime := later evt_time (cm_uptime v2)\<rparr> else v2)
             \<lparr>cm_last := later evt_time (cm_last v2)\<rparr>) v1)"

definition countup_event_by_computer :: "env \<Rightarrow> metrics_config \<Rightarrow> json \<Rightarrow> event_metrics \<Rightarrow> event_metrics option" where
  "countup_event_by_computer E mc rec st =
     (case get_event_value (xc_alias mc) ''Event.System.Computer'' rec of
        None \<Rightarrow> Some st
      | Some computer_name \<Rightarrow>
          (let key = replace_all [CHR 0x22] [] (json_text E computer_name);
               v = unwrap_or computer_stat_new (map_of (em_computers st) key);
               system = json_index (json_index rec ''Event'') ''System'';
               v1 = (case (json_as_str (json_index system ''Channel''), json_as_i64 (json_index system ''EventID'')) of
                       (Some ch, Some eid) \<Rightarrow> if ch = ''System'' then system_event E mc rec eid v else Some v
                     | _ \<Rightarrow> Some v)
           in map_option (\<lambda>v2. st\<lparr>em_computers := assoc_insert key (v2\<lparr>cm_count := cm_count v2 + 1\<rparr>) (em_computers st)\<rparr>) v1))"

text \<open>The time from the last start to the last record; seconds of 64 bits.\<close>

definition uptime_parts :: "int \<Rightarrow> int list" where
  "uptime_parts seconds =
     [seconds div 31536000, (seconds mod 31536000) div 2592000, (seconds mod 2592000) div 86400,
      (seconds mod 86400) div 3600, (seconds mod 3600) div 60, seconds mod 60]"

definition format_uptime :: "int \<Rightarrow> string" where
  "format_uptime seconds = join '' '' (map (\<lambda>(n, u). show_int n @ [u]) (zip (uptime_parts seconds) ''YMdhms''))"

definition calc_elapsed_seconds :: "env \<Rightarrow> string \<Rightarrow> string \<Rightarrow> string" where
  "calc_elapsed_seconds E uptime last_timestamp =
     (if uptime = [] \<or> last_timestamp = [] then []
      else (case (parse_rfc3339 E uptime, parse_rfc3339 E last_timestamp) of
              (Some a, Some b) \<Rightarrow>
                (let elapsed = b div 10 ^ 9 - a div 10 ^ 9 in if elapsed \<le> 0 then [] else format_uptime elapsed)
            | _ \<Rightarrow> []))"

definition computer_rows :: "env \<Rightarrow> (nat \<Rightarrow> string) \<Rightarrow> (string \<times> computer_stat) list \<Rightarrow> string list list" where
  "computer_rows E count_text result_list =
     map (\<lambda>(n, v). [n, cm_os v, calc_elapsed_seconds E (cm_uptime v) (cm_last v), cm_timezone v, count_text (cm_count v)])
       (sort_key (\<lambda>(n, v). - int (cm_count v)) (sort_key fst result_list))"

subsection \<open>Rows of the tables\<close>

definition tm_stats_set_msg ::
  "(nat \<Rightarrow> nat \<Rightarrow> string) \<Rightarrow> (string \<Rightarrow> string) \<Rightarrow> (string \<times> string \<Rightarrow> string option) \<Rightarrow> event_metrics \<Rightarrow> string list list" where
  "tm_stats_set_msg percent channel_abbr title st =
     map (\<lambda>((event_id, channel), cnt).
       [show_nat cnt, percent cnt (em_total st), trim (channel_abbr channel)] @
       (case title (channel, event_id) of
          Some t \<Rightarrow> [event_id, t]
        | None \<Rightarrow> [replace_all [CHR 0x22] [] event_id, ''Unknown'']))
       (sort_key (\<lambda>(k, n). - int n) (em_stats_list st))"

definition login_rows :: "bool \<Rightarrow> (login_event \<times> nat \<times> nat) list \<Rightarrow> string list list" where
  "login_rows failed m =
     map (\<lambda>(e, s, f). [show_nat (if failed then f else s), le_channel e, le_dst_user e, le_dst_domain e, le_hostname e,
            le_logontype e, le_src_user e, le_src_domain e, le_source_computer e, le_source_ip e])
       (filter (\<lambda>(e, s, f). (if failed then f else s) \<noteq> 0) (sort_key (\<lambda>(e, s, f). - int (if failed then f else s)) m))"

subsection \<open>Critical systems\<close>

datatype computer_type = DomainController | FileServer

definition find_critical_computers ::
  "json \<Rightarrow> (computer_type \<times> string list) list \<Rightarrow> (computer_type \<times> string list) list" where
  "find_critical_computers data m =
     (let system = json_index (json_index data ''Event'') ''System'';
          computer = unwrap_or [] (json_as_str (json_index system ''Computer''));
          put = (\<lambda>t. assoc_insert t (List.insert computer (unwrap_or [] (map_of m t))) m)
      in case (json_as_str (json_index system ''Channel''), json_as_i64 (json_index system ''EventID'')) of
           (Some ch, Some eid) \<Rightarrow>
             (if ch \<noteq> ''Security'' then m
              else if eid = 4768 then put DomainController
              else if eid = 5145 then
                (if unwrap_or [] (json_as_str (json_index (json_index (json_index data ''Event'') ''EventData'') ''ShareName'')) =
                    [CHR 0x5C, CHR 0x5C, CHR ''*'', CHR 0x5C] @ ''IPC$'' then m
                 else put FileServer)
              else m)
         | _ \<Rightarrow> m)"

definition process_critical ::
  "recinfo list \<Rightarrow> (computer_type \<times> string list) list \<Rightarrow> (computer_type \<times> string list) list" where
  "process_critical records m = fold (\<lambda>r. find_critical_computers (rec_data r)) records m"

text \<open>The file after the names were appended: every line once, in order.\<close>

definition sort_and_dedup_lines :: "string list \<Rightarrow> string list" where
  "sort_and_dedup_lines ls = sort (remdups ls)"

subsection \<open>Every event is counted once\<close>

definition countable_event :: "metrics_config \<Rightarrow> json \<Rightarrow> bool" where
  "countable_event mc rec \<longleftrightarrow>
     \<not> is_filtered_by_computer_name (get_event_value (xc_alias mc) ''Event.System.Computer'' rec)
         (xc_include_computer mc) (xc_exclude_computer mc) \<and>
     get_event_value (xc_alias mc) ''EventID'' rec \<noteq> None"

text \<open>The counter an event belongs to: its id and its channel, in small letters.\<close>

definition event_counter :: "env \<Rightarrow> metrics_config \<Rightarrow> json \<Rightarrow> string \<times> string" where
  "event_counter E mc rec =
     (to_lowercase E (replace_all [CHR 0x22] [] (case get_event_value (xc_alias mc) ''EventID'' rec of
        Some i \<Rightarrow> json_text E i | None \<Rightarrow> [])),
      to_lowercase E (case get_event_value (xc_alias mc) ''Channel'' rec of
        Some ch \<Rightarrow> unwrap_or [] (json_as_str ch) | None \<Rightarrow> ''-''))"

text \<open>
  The record at position \<open>i\<close> counts: it can be counted, and when duplicates are removed, its record number
  and time are not among those of the blocks before, nor those of an earlier record that can be counted.
\<close>

definition counts_at :: "env \<Rightarrow> metrics_config \<Rightarrow> (string \<times> string) set \<Rightarrow> recinfo list \<Rightarrow> nat \<Rightarrow> bool" where
  "counts_at E mc before rs i \<longleftrightarrow>
     countable_event mc (rec_data (rs ! i)) \<and>
     (xc_remove_duplicates mc \<longrightarrow>
        counted_key E (rec_data (rs ! i)) \<notin> before \<and>
        (\<forall>j < i. countable_event mc (rec_data (rs ! j)) \<longrightarrow> counted_key E (rec_data (rs ! j)) \<noteq> counted_key E (rec_data (rs ! i))))"

definition counter_of :: "event_metrics \<Rightarrow> string \<times> string \<Rightarrow> nat" where
  "counter_of st k = unwrap_or 0 (map_of (em_stats_list st) k)"

lemma count_eventid_counter:
  assumes "count_eventid E mc rec st = Some st'"
  shows "counter_of st' k = counter_of st k +
      (if countable_event mc rec \<and> \<not> seen_before E mc rec st \<and> event_counter E mc rec = k then 1 else 0)"
    and "set (em_counted st') = set (em_counted st) \<union>
      (if countable_event mc rec \<and> xc_remove_duplicates mc then {counted_key E rec} else {})"
  using assms
  by (auto simp: count_eventid_def countable_event_def counter_of_def event_counter_def seen_before_def remember_def Let_def
      split: if_splits option.splits)

lemma card_Suc_split:
  "card {i. i < Suc n \<and> P i} = (if P 0 then 1 else 0) + card {i. i < n \<and> P (Suc i)}"
proof -
  have "{i. i < Suc n \<and> P i} = (if P 0 then {0} else {}) \<union> Suc ` {i. i < n \<and> P (Suc i)}"
    by (auto simp: image_iff less_Suc_eq_0_disj split: if_splits)
  moreover have "card (Suc ` {i. i < n \<and> P (Suc i)}) = card {i. i < n \<and> P (Suc i)}" by (rule card_image) simp
  moreover have "finite (Suc ` {i. i < n \<and> P (Suc i)})" by simp
  ultimately show ?thesis by (auto simp: card_Un_disjoint)
qed

lemma counts_at_Cons:
  "counts_at E mc before (r # rs) 0 \<longleftrightarrow> countable_event mc (rec_data r) \<and>
     (xc_remove_duplicates mc \<longrightarrow> counted_key E (rec_data r) \<notin> before)"
  "counts_at E mc before (r # rs) (Suc i) \<longleftrightarrow>
     counts_at E mc (before \<union> (if countable_event mc (rec_data r) \<and> xc_remove_duplicates mc then {counted_key E (rec_data r)} else {})) rs i"
  by (auto simp: counts_at_def less_Suc_eq_0_disj)

text \<open>
  C36: Each event counter is exact. After the records of a block, whatever blocks and files came before,
  the counter of an event id and a channel has grown by the number of records of the block that belong to
  it and count: they have an event id and pass the computer filter and, when duplicates are removed, no
  record that counted before, in this block or an earlier one, has the same record number and time. The
  numbers and times that are remembered are those from before and of these records.
\<close>

theorem events_counted_once:
  assumes "stats_eventid E mc rs st = Some st'"
  shows "counter_of st' k = counter_of st k +
      card {i. i < length rs \<and> counts_at E mc (set (em_counted st)) rs i \<and> event_counter E mc (rec_data (rs ! i)) = k} \<and>
    set (em_counted st') = set (em_counted st) \<union>
      (if xc_remove_duplicates mc
       then (\<lambda>r. counted_key E (rec_data r)) ` {r \<in> set rs. countable_event mc (rec_data r)} else {})"
  using assms
proof (induction rs arbitrary: st)
  case (Cons r rs)
  then obtain st1 where s: "count_eventid E mc (rec_data r) st = Some st1" "stats_eventid E mc rs st1 = Some st'"
    by (auto simp: bind_eq_Some_conv)
  have f: "counts_at E mc (set (em_counted st)) (r # rs) 0 \<longleftrightarrow>
      countable_event mc (rec_data r) \<and> \<not> seen_before E mc (rec_data r) st"
    by (auto simp: counts_at_Cons seen_before_def)
  show ?case
    using Cons.IH [OF s(2)] count_eventid_counter [OF s(1)]
    by (auto simp: card_Suc_split [of "length rs"] counts_at_Cons(2) f)
qed simp

definition metrics_sample :: metrics_config where
  "metrics_sample = \<lparr>xc_alias = foldl add_alias_line new_alias_config
       [[''EventID'', ''Event.System.EventID''], [''Channel'', ''Event.System.Channel''], [''RdsGtwUsername'', ''Event.UserData.EventInfo.Username'']],
     xc_quiet = False, xc_remove_duplicates = True, xc_include_computer = [], xc_exclude_computer = [],
     xc_parse_utc = (\<lambda>_. Inl ''no time''), xc_parse_offset = (\<lambda>_. Inl ''no time''), xc_show_time = show_int,
     xc_file_size = (\<lambda>_. []), xc_win_versions = []\<rparr>"

definition metrics_record :: "(string \<times> json) list \<Rightarrow> recinfo" where
  "metrics_record system = \<lparr>evtx_filepath = ''a.evtx'', rec_data = JObject [(''Event'', JObject [(''System'', JObject system)])],
     data_string = [], key_2_value = Map.empty, recovered_record = False\<rparr>"

lemma metrics_sample_run:
  "stats_eventid env0 metrics_sample [metrics_record [(''EventID'', JNumber (JInt 1)), (''Channel'', JString ''Sys'')]]
     event_metrics_default =
   Some (event_metrics_default\<lparr>em_stats_list := [(([], ''sys''), 1)], em_counted := [([], [])]\<rparr>)"
  by code_simp

theorem events_counted_once_witness:
  "counter_of (event_metrics_default\<lparr>em_stats_list := [(([], ''sys''), 1)], em_counted := [([], [])]\<rparr>) ([], ''sys'') =
     counter_of event_metrics_default ([], ''sys'') +
     card {i. i < length [metrics_record [(''EventID'', JNumber (JInt 1)), (''Channel'', JString ''Sys'')]] \<and>
       counts_at env0 metrics_sample (set (em_counted event_metrics_default)) [metrics_record [(''EventID'', JNumber (JInt 1)), (''Channel'', JString ''Sys'')]] i \<and>
       event_counter env0 metrics_sample (rec_data ([metrics_record [(''EventID'', JNumber (JInt 1)), (''Channel'', JString ''Sys'')]] ! i)) = ([], ''sys'')}"
  using events_counted_once [OF metrics_sample_run] by blast

subsection \<open>Departures\<close>

text \<open>An event without a channel, whose look-up gives null, ends the run.\<close>

lemma event_without_channel_panics:
  "stats_eventid env0 metrics_sample [metrics_record [(''EventID'', JNumber (JInt 1))]] event_metrics_default = None"
  by code_simp

text \<open>The domain of a gateway logon is read under a name that is no alias.\<close>

lemma gateway_domain_missing:
  "let rec = JObject [(''Event'', JObject [(''UserData'', JObject [(''EventInfo'', JObject [(''Username'', JString (''CORP'' @ [CHR 0x5C] @ ''bob''))])])])];
       e = login_event_of env0 metrics_sample rec 302 RdsGtw
   in le_dst_user e = ''bob'' \<and> le_dst_domain e = ''-''"
  by code_simp

text \<open>A time before the service existed is reported as invalid and still taken as the end of the range.\<close>

lemma invalid_time_is_end:
  assumes "xc_parse_utc mc t = Inr n" and "n < evtx_service_released" and "em_end st = None" and "em_start st = None"
  shows "em_end (fst (check_start_end_time mc t (st, log))) = Some n \<and>
    em_start (fst (check_start_end_time mc t (st, log))) = None"
  using assms by (simp add: check_start_end_time_def parse_event_time_def)

text \<open>
  The parts of an uptime add up below one year. Beyond, months are counted from the year and days from
  blocks of thirty days, so the five days left of a year are counted again.
\<close>

lemma div_mod_dvd: "c dvd b \<Longrightarrow> (s mod b) div c * c + s mod c = s mod (b :: int)"
  by (metis div_mult_mod_eq mod_mod_cancel)

lemma split_sum: "q + a = s \<Longrightarrow> b + c = a \<Longrightarrow> d + e = c \<Longrightarrow> f + g = e \<Longrightarrow> q + b + d + f + g = (s :: int)"
  by simp

lemma uptime_below_one_year:
  assumes "0 \<le> s" and "s < 31536000"
  shows "\<exists>mo d h m sec. uptime_parts s = [0, mo, d, h, m, sec] \<and>
    mo * 2592000 + d * 86400 + h * 3600 + m * 60 + sec = s \<and> d < 30 \<and> h < 24 \<and> m < 60 \<and> sec < 60"
proof -
  have year: "s div 31536000 = 0" "s mod 31536000 = s" using assms by simp_all
  have "s div 2592000 * 2592000 + (s mod 2592000) div 86400 * 86400 + (s mod 86400) div 3600 * 3600 +
      (s mod 3600) div 60 * 60 + s mod 60 = s"
    by (rule split_sum [OF div_mult_mod_eq div_mod_dvd div_mod_dvd div_mod_dvd]) simp_all
  moreover have "(s mod 2592000) div 86400 < 30" "(s mod 86400) div 3600 < 24" "(s mod 3600) div 60 < 60" "s mod 60 < 60"
    using pos_mod_bound [of 2592000 s] pos_mod_bound [of 86400 s] pos_mod_bound [of 3600 s] pos_mod_bound [of 60 s]
    by (auto simp: div_less_iff_less_mult)
  ultimately show ?thesis by (simp add: uptime_parts_def year)
qed

lemma uptime_of_one_year: "format_uptime 31536000 = ''1Y 0M 5d 0h 0m 0s''"
  by code_simp

text \<open>A time zone record with fewer than seven values ends the run.\<close>

lemma short_timezone_panics: "timezone_text [] = None"
  by (simp add: timezone_text_def)
end
