(* ===== verification/Search.thy ===== *)
theory Search
  imports Log_Record_Facts Json_Output
begin

section \<open>The search command (timeline/search.rs)\<close>

text \<open>
  Records that pass the filters and contain the keywords, or match the regex, are written at once or
  collected, sorted and written at the end. The wildcard matcher of the filters is the crate
  \<open>wildmatch\<close>. What is written is a list of items: a line of a table, the three fields of a JSON
  object, or the pieces of a line on the terminal with whether a line break follows each.
\<close>

record search_option =
  so_keywords :: "string list option"
  so_regex :: "string option"
  so_ignore_case :: bool
  so_and_logic :: bool
  so_filter :: "string list"
  so_output :: bool
  so_json_output :: bool
  so_jsonl_output :: bool
  so_sort_events :: bool
  so_multiline :: bool
  so_tab_separator :: bool

record search_config =
  sc_output :: output_config
  sc_default_details :: "(string \<times> string) list"
  sc_event_title :: "string \<times> string \<Rightarrow> string option"
  sc_wildmatch :: "string \<Rightarrow> string \<Rightarrow> bool"

record search_hit =
  sh_timestamp :: string
  sh_hostname :: string
  sh_channel :: string
  sh_event_id :: string
  sh_record_id :: string
  sh_all_field_info :: string
  sh_evtx_file :: string

datatype search_item =
    TableRow "string list"
  | JsonFields "string list"
  | Console "(string \<times> bool) list"

record event_search =
  es_filepath :: string
  es_result :: "search_hit list"
  es_count :: nat
  es_written :: "search_item list"

definition event_search_new :: "string \<Rightarrow> event_search" where
  "event_search_new path = \<lparr>es_filepath = path, es_result = [], es_count = 0, es_written = []\<rparr>"

subsection \<open>Filters\<close>

definition filter_condition :: "string \<Rightarrow> string list" where
  "filter_condition f =
     (let p = (if starts_with f [CHR 0x22] then tl f else f);
          t = (if ends_with p [CHR 0x22] then butlast p else p)
      in map trim (split_char (CHR '':'') t))"

definition create_filter_rule :: "string list \<Rightarrow> (string \<times> string list) list" where
  "create_filter_rule filters =
     foldl (\<lambda>acc f.
       (case filter_condition f of
          k # x # xs \<Rightarrow> assoc_insert k (unwrap_or [] (map_of acc k) @ x # xs) acc
        | _ \<Rightarrow> acc)) [] filters"

definition filter_record ::
  "env \<Rightarrow> alias_config \<Rightarrow> (string \<Rightarrow> string \<Rightarrow> bool) \<Rightarrow> json \<Rightarrow> (string \<times> string list) list \<Rightarrow> bool" where
  "filter_record E alias wild rec filter_rule =
     list_all (\<lambda>(k, v).
       (let alias_target_val = filter (\<lambda>c. c \<noteq> CHR 0x22 \<and> c \<noteq> CHR 0x27)
              (unwrap_or ''n/a'' (get_serde_number_to_string E (unwrap_or JNull (get_event_value alias k rec)) True))
        in if list_all (\<lambda>p. wild p alias_target_val) v then True
           else (let allfieldinfo = unwrap_or ''-'' (get_serde_number_to_string E
                       (json_index (json_index (json_index rec ''Event'') ''EventData'') k) True)
                 in list_all (\<lambda>p. wild p allfieldinfo) v))) filter_rule"

subsection \<open>What is written of a record\<close>

definition details_pair :: "string \<Rightarrow> (string \<times> string) option" where
  "details_pair x =
     (case split_str '': '' [] x of
        [abbr, full] \<Rightarrow> Some (trim (replace_all ''%'' [] full), abbr)
      | _ \<Rightarrow> None)"

definition get_default_details_mapping_table ::
  "(string \<times> string) list \<Rightarrow> (string \<times> (string \<times> string) list) list" where
  "get_default_details_mapping_table default_details =
     map (\<lambda>(k, v). (k, fold (\<lambda>(full, abbr). assoc_insert full abbr)
       (option_list (map details_pair (split_str bar_sep [] v))) [])) default_details"

definition replace_all_field_info_abbr :: "string \<Rightarrow> (string \<times> string) list option \<Rightarrow> string" where
  "replace_all_field_info_abbr value all_field_info_abbr =
     fold (\<lambda>(k, v). replace_all k v) (sort_key (\<lambda>(k, v). length k) (unwrap_or [] all_field_info_abbr)) value"

definition extract_search_event_info ::
  "env \<Rightarrow> aho \<Rightarrow> output_config \<Rightarrow> json \<Rightarrow> search_hit" where
  "extract_search_event_info E A oc rec =
     \<lparr>sh_timestamp = oc_time_text oc (unwrap_or 0 (get_event_time E rec False)),
      sh_hostname = filter (\<lambda>c. c \<noteq> CHR 0x22 \<and> c \<noteq> CHR 0x27)
        (unwrap_or ''n/a'' (get_serde_number_to_string E (unwrap_or JNull (get_event_value (oc_alias oc) ''Computer'' rec)) True)),
      sh_channel = unwrap_or [] (get_serde_number_to_string E (system_field rec ''Channel'') False),
      sh_event_id = (case get_event_value (oc_alias oc) ''EventID'' rec of
          Some (JNumber (JInt i)) \<Rightarrow> if 0 \<le> i then json_text E (JNumber (JInt i)) else ''-''
        | _ \<Rightarrow> ''-''),
      sh_record_id = unwrap_or ''-'' (get_serde_number_to_string E (system_field rec ''EventRecordID'') True),
      sh_all_field_info = (case create_recordinfos E A rec ([], []) None of
          [] \<Rightarrow> ''-''
        | infos \<Rightarrow> join bar_sep infos),
      sh_evtx_file = []\<rparr>"

text \<open>The escaped line breaks and tabs of a value become spaces.\<close>

definition unescape_field_info :: "aho \<Rightarrow> string \<Rightarrow> string" where
  "unescape_field_info A s =
     join '' '' (filter (\<lambda>x. x \<noteq> [])
       (split_str eagle [] (ac_replace A (map (\<lambda>c. passport @ [c]) ''rnt'') [eagle, eagle, eagle] s)))"

definition search_hit_of ::
  "env \<Rightarrow> aho \<Rightarrow> output_config \<Rightarrow> (string \<times> (string \<times> string) list) list \<Rightarrow> recinfo \<Rightarrow> search_hit" where
  "search_hit_of E A oc replace_table r =
     (let h = extract_search_event_info E A oc (rec_data r);
          provider = replace_all [CHR 0x22] [] (json_text E (json_index (system_field (rec_data r) ''Provider_attributes'') ''Name''))
      in h\<lparr>sh_all_field_info := replace_all_field_info_abbr (unescape_field_info A (sh_all_field_info h))
               (map_of replace_table (provider @ ''_'' @ sh_event_id h)),
           sh_evtx_file := evtx_filepath r\<rparr>)"

subsection \<open>Writing a record\<close>

definition output_headers :: "string list" where
  "output_headers = [''Timestamp'', ''EventTitle'', ''Hostname'', ''Channel'', ''Event ID'', ''Record ID'', ''AllFieldInfo'', ''EvtxFile'']"

definition dot_sep :: string where
  "dot_sep = '' '' @ [CHR 0xC2, CHR 0xB7] @ '' ''"

definition write_header :: "search_option \<Rightarrow> search_item list" where
  "write_header so =
     (if so_output so \<and> \<not> so_json_output so \<and> \<not> so_jsonl_output so then [TableRow output_headers]
      else if \<not> so_output so then [Console [(join dot_sep output_headers, True)]]
      else [])"

fun words_of :: "string list \<Rightarrow> string list \<Rightarrow> string list" where
  "words_of acc [] = (if acc = [] then [] else [concat (rev acc)])"
| "words_of acc (g # gs) =
     (if is_whitespace g then (if acc = [] then words_of [] gs else concat (rev acc) # words_of [] gs)
      else words_of (g # acc) gs)"

definition split_whitespace :: "string \<Rightarrow> string list" where
  "split_whitespace s = words_of [] (utf8_chars s)"

definition record_data :: "search_config \<Rightarrow> search_option \<Rightarrow> search_hit \<Rightarrow> string list" where
  "record_data sc so h =
     (let title = unwrap_or ''-'' (sc_event_title sc (to_ascii_lowercase (sh_channel h), sh_event_id h));
          fmted = join '' '' (split_whitespace (sh_all_field_info h));
          info = (if so_output so \<and> so_multiline so then replace_all bar_sep [CHR 0x0D, CHR 0x0A] fmted
                  else if so_tab_separator so then replace_all bar_sep [CHR 0x09] fmted
                  else fmted)
      in [sh_timestamp h, title, sh_hostname h, channel_text (sc_output sc) (sh_channel h), sh_event_id h,
          sh_record_id h, info, sh_evtx_file h])"

text \<open>The detection that is handed to the JSON output.\<close>

definition search_detection :: "string list \<Rightarrow> detection_info" where
  "search_detection row =
     \<lparr>detected_time = 0, di_rulepath = [], di_ruleid = [], di_ruletitle = [], di_ruleauthor = [], di_level = UNDEFINED,
      di_computername = [], di_rec_id = [], di_eventid = [], di_detail = [],
      ext_field = [(''Timestamp'', PTimestamp (row ! 0)), (''Hostname'', PComputer (row ! 2)),
        (''Channel'', PChannel (row ! 3)), (''Event ID'', PEventID (row ! 4)), (''Record ID'', PRecordID (row ! 5)),
        (''EventTitle'', PLiteral (row ! 1)), (''AllFieldInfo'', PAllFieldInfo (row ! 6)), (''EvtxFile'', PEvtxFile (row ! 7))],
      di_agg_result = None,
      details_convert_map = [(''#AllFieldInfo'', split_str broken_bar [] (row ! 6))]\<rparr>"

definition console_field :: "string \<Rightarrow> (string \<times> bool) list" where
  "console_field f =
     (case map (\<lambda>x. join '' '' (split_whitespace x)) (split_char (CHR '':'') f) of
        name # rest \<Rightarrow> [(name @ '': '', False), (trim (join '':'' rest), False)]
      | [] \<Rightarrow> [])"

fun join_pieces :: "(string \<times> bool) list list \<Rightarrow> (string \<times> bool) list" where
  "join_pieces [] = []"
| "join_pieces [p] = p"
| "join_pieces (p # ps) = p @ (bar_sep, False) # join_pieces ps"

definition console_line :: "string list \<Rightarrow> (string \<times> bool) list" where
  "console_line row =
     concat (map (\<lambda>(i, f).
       (if i = 6 then join_pieces (map console_field (split_str broken_bar [] f)) else [(f, i = length row - 1)]) @
       (if i = length row - 1 then [] else [(dot_sep, False)]))
       (zip [0..<length row] row)) @ [([], True)]"

definition write_record :: "search_config \<Rightarrow> search_option \<Rightarrow> bool \<Rightarrow> search_hit \<Rightarrow> search_item list" where
  "write_record sc so is_write_header h =
     (let row = record_data sc so h
      in (if is_write_header then write_header so else []) @
         [if \<not> so_output so then Console (console_line row)
          else if so_json_output so \<or> so_jsonl_output so
          then JsonFields [''{'', fst (output_json_str (search_detection row) [] [] (so_jsonl_output so) False False), ''}'']
          else TableRow row])"

subsection \<open>The search\<close>

definition contain_keywords :: "env \<Rightarrow> search_option \<Rightarrow> string list \<Rightarrow> recinfo \<Rightarrow> bool" where
  "contain_keywords E so keywords r =
     (let conv = (\<lambda>s. if so_ignore_case so then to_lowercase E s else s);
          search_target = conv (data_string r)
      in if so_and_logic so then list_all (\<lambda>key. contains_str search_target (conv key)) keywords
         else list_ex (\<lambda>key. contains_str search_target (conv key)) keywords)"

text \<open>A hit is collected, or written with the header before the first.\<close>

definition add_hit :: "search_config \<Rightarrow> search_option \<Rightarrow> search_hit \<Rightarrow> event_search \<Rightarrow> event_search" where
  "add_hit sc so h es =
     (if so_sort_events so
      then es\<lparr>es_result := List.insert h (es_result es), es_count := es_count es + 1\<rparr>
      else es\<lparr>es_written := es_written es @ write_record sc so (es_count es = 0) h, es_count := es_count es + 1\<rparr>)"

definition search_record ::
  "env \<Rightarrow> aho \<Rightarrow> search_config \<Rightarrow> search_option \<Rightarrow> (recinfo \<Rightarrow> bool) \<Rightarrow> recinfo \<Rightarrow> event_search \<Rightarrow> event_search" where
  "search_record E A sc so matches r es =
     (if \<not> filter_record E (oc_alias (sc_output sc)) (sc_wildmatch sc) (rec_data r) (create_filter_rule (so_filter so)) then es
      else
        (let es1 = es\<lparr>es_filepath := evtx_filepath r\<rparr>
         in if \<not> matches r then es1
            else add_hit sc so (search_hit_of E A (sc_output sc)
                   (get_default_details_mapping_table (sc_default_details sc)) r) es1))"

definition search_keyword ::
  "env \<Rightarrow> aho \<Rightarrow> search_config \<Rightarrow> search_option \<Rightarrow> recinfo list \<Rightarrow> event_search \<Rightarrow> event_search" where
  "search_keyword E A sc so records es =
     (case so_keywords so of
        None \<Rightarrow> es
      | Some keywords \<Rightarrow>
          (if records = [] \<or> keywords = [] then es
           else fold (search_record E A sc so (contain_keywords E so keywords)) records es))"

text \<open>A pattern that is no regex ends the program.\<close>

definition search_regex ::
  "env \<Rightarrow> aho \<Rightarrow> search_config \<Rightarrow> search_option \<Rightarrow> string \<Rightarrow> recinfo list \<Rightarrow> event_search \<Rightarrow> event_search option" where
  "search_regex E A sc so regex records es =
     (if \<not> rx_ok E regex then None
      else Some (fold (search_record E A sc so (\<lambda>r. rx_match E regex (data_string r))) records es))"

definition search_start ::
  "env \<Rightarrow> aho \<Rightarrow> search_config \<Rightarrow> search_option \<Rightarrow> recinfo list \<Rightarrow> event_search \<Rightarrow> event_search option" where
  "search_start E A sc so records es =
     (let es1 = search_keyword E A sc so records es
      in case so_regex so of
           None \<Rightarrow> Some es1
         | Some regex \<Rightarrow> search_regex E A sc so regex records es1)"

text \<open>The order of collected hits: time, record number and file, all as text.\<close>

definition hit_key :: "search_hit \<Rightarrow> string \<times> string \<times> string" where
  "hit_key h = (sh_timestamp h, sh_record_id h, sh_evtx_file h)"

fun write_sorted :: "search_config \<Rightarrow> search_option \<Rightarrow> bool \<Rightarrow> search_hit list \<Rightarrow> search_item list" where
  "write_sorted sc so is_firstline [] = []"
| "write_sorted sc so is_firstline (h # hs) = write_record sc so is_firstline h @ write_sorted sc so False hs"

definition search_result_dsp_msg ::
  "(nat \<Rightarrow> string) \<Rightarrow> search_config \<Rightarrow> search_option \<Rightarrow> event_search \<Rightarrow> search_item list" where
  "search_result_dsp_msg thousands sc so es =
     (if so_sort_events so then write_sorted sc so True (sort_key hit_key (es_result es)) else []) @
     (if es_count es = 0 then [Console [([CHR 0x0A] @ ''No matches found.'' @ [CHR 0x0A], True)]] else []) @
     [Console [(''Total findings: '', False), (thousands (es_count es), True)]]"

subsection \<open>What a search finds\<close>

text \<open>All patterns that the filters give for a key; the text of the record they are held against.\<close>

definition filter_patterns :: "string list \<Rightarrow> string \<Rightarrow> string list" where
  "filter_patterns filters k =
     concat (map (\<lambda>f. case filter_condition f of k' # ps \<Rightarrow> if k' = k then ps else [] | [] \<Rightarrow> []) filters)"

definition alias_text :: "env \<Rightarrow> alias_config \<Rightarrow> json \<Rightarrow> string \<Rightarrow> string" where
  "alias_text E alias rec k = filter (\<lambda>c. c \<noteq> CHR 0x22 \<and> c \<noteq> CHR 0x27)
     (unwrap_or ''n/a'' (get_serde_number_to_string E (unwrap_or JNull (get_event_value alias k rec)) True))"

definition event_data_text :: "env \<Rightarrow> json \<Rightarrow> string \<Rightarrow> string" where
  "event_data_text E rec k = unwrap_or ''-'' (get_serde_number_to_string E
     (json_index (json_index (json_index rec ''Event'') ''EventData'') k) True)"

definition passes_filters :: "env \<Rightarrow> alias_config \<Rightarrow> (string \<Rightarrow> string \<Rightarrow> bool) \<Rightarrow> string list \<Rightarrow> json \<Rightarrow> bool" where
  "passes_filters E alias wild filters rec \<longleftrightarrow>
     (\<forall>k. (\<forall>p \<in> set (filter_patterns filters k). wild p (alias_text E alias rec k)) \<or>
          (\<forall>p \<in> set (filter_patterns filters k). wild p (event_data_text E rec k)))"

definition has_keywords :: "env \<Rightarrow> search_option \<Rightarrow> string list \<Rightarrow> recinfo \<Rightarrow> bool" where
  "has_keywords E so keywords r \<longleftrightarrow>
     (let conv = (\<lambda>s. if so_ignore_case so then to_lowercase E s else s);
          found = (\<lambda>key. \<exists>before after. conv (data_string r) = before @ conv key @ after)
      in if so_and_logic so then \<forall>key \<in> set keywords. found key else \<exists>key \<in> set keywords. found key)"

lemma filter_patterns_simps [simp]:
  "filter_patterns [] k = []"
  "filter_patterns (fs @ [f]) k = filter_patterns fs k @
     (case filter_condition f of k' # ps \<Rightarrow> if k' = k then ps else [] | [] \<Rightarrow> [])"
  by (simp_all add: filter_patterns_def)

lemma create_filter_rule_patterns:
  "map_of (create_filter_rule fs) k = (if filter_patterns fs k = [] then None else Some (filter_patterns fs k))"
proof (induction fs rule: rev_induct)
  case (snoc f fs)
  then show ?case
    by (cases "filter_condition f"; cases "tl (filter_condition f)")
      (auto simp: create_filter_rule_def unwrap_or_def)
qed (simp add: create_filter_rule_def)

lemma create_filter_rule_distinct: "distinct (map fst (create_filter_rule fs))"
  by (induction fs rule: rev_induct)
    (auto simp: create_filter_rule_def distinct_assoc_insert split: list.splits)

lemma list_all_map_of: "distinct (map fst m) \<Longrightarrow> list_all P m \<longleftrightarrow> (\<forall>k v. map_of m k = Some v \<longrightarrow> P (k, v))"
  by (auto simp: list_all_iff)

lemma filter_record_texts:
  "filter_record E alias wild rec m = list_all (\<lambda>(k, v).
     (\<forall>p \<in> set v. wild p (alias_text E alias rec k)) \<or> (\<forall>p \<in> set v. wild p (event_data_text E rec k))) m"
  unfolding filter_record_def alias_text_def event_data_text_def list_all_iff Let_def
  by (rule ball_cong) (auto split: prod.splits)

lemma filter_record_passes:
  "filter_record E alias wild rec (create_filter_rule fs) = passes_filters E alias wild fs rec"
proof -
  have "filter_record E alias wild rec (create_filter_rule fs) \<longleftrightarrow>
    (\<forall>k v. map_of (create_filter_rule fs) k = Some v \<longrightarrow>
      (\<forall>p \<in> set v. wild p (alias_text E alias rec k)) \<or> (\<forall>p \<in> set v. wild p (event_data_text E rec k)))"
    by (simp add: filter_record_texts list_all_map_of [OF create_filter_rule_distinct])
  also have "\<dots> \<longleftrightarrow> passes_filters E alias wild fs rec"
    unfolding create_filter_rule_patterns passes_filters_def by (metis empty_iff list.set(1) option.distinct(1) option.inject)
  finally show ?thesis .
qed

lemma contain_keywords_has: "contain_keywords E so ks r = has_keywords E so ks r"
  by (simp add: contain_keywords_def has_keywords_def contains_str_iff list_all_iff list_ex_iff Let_def)

definition found_hits ::
  "env \<Rightarrow> aho \<Rightarrow> search_config \<Rightarrow> search_option \<Rightarrow> (recinfo \<Rightarrow> bool) \<Rightarrow> recinfo list \<Rightarrow> search_hit list" where
  "found_hits E A sc so matches records =
     map (search_hit_of E A (sc_output sc) (get_default_details_mapping_table (sc_default_details sc)))
       (filter (\<lambda>r. passes_filters E (oc_alias (sc_output sc)) (sc_wildmatch sc) (so_filter so) (rec_data r) \<and> matches r) records)"

lemma search_record_step:
  "search_record E A sc so matches r es =
    (case found_hits E A sc so matches [r] of
       [] \<Rightarrow> es\<lparr>es_filepath := es_filepath (search_record E A sc so matches r es)\<rparr>
     | h # _ \<Rightarrow> add_hit sc so h (es\<lparr>es_filepath := evtx_filepath r\<rparr>))"
  by (simp add: search_record_def found_hits_def filter_record_passes)

lemma found_hits_Cons: "found_hits E A sc so matches (r # rs) = found_hits E A sc so matches [r] @ found_hits E A sc so matches rs"
  by (simp add: found_hits_def)

abbreviation header_of :: "search_option \<Rightarrow> event_search \<Rightarrow> search_hit list \<Rightarrow> search_item list" where
  "header_of so es hs \<equiv> (if es_count es = 0 \<and> hs \<noteq> [] then write_header so else [])"

definition hits_added :: "search_config \<Rightarrow> search_option \<Rightarrow> search_hit list \<Rightarrow> event_search \<Rightarrow> event_search \<Rightarrow> bool" where
  "hits_added sc so hits es es' \<longleftrightarrow>
     es_count es' = es_count es + length hits \<and>
     (if so_sort_events so
      then set (es_result es') = set (es_result es) \<union> set hits \<and> es_written es' = es_written es
      else es_result es' = es_result es \<and>
        es_written es' = es_written es @ header_of so es hits @ concat (map (write_record sc so False) hits))"

lemma write_record_header: "write_record sc so b h = (if b then write_header so else []) @ write_record sc so False h"
  by (simp add: write_record_def Let_def)

lemma hits_added_Nil: "hits_added sc so [] es (es\<lparr>es_filepath := p\<rparr>)"
  by (simp add: hits_added_def)

lemma hits_added_one: "hits_added sc so [h] es (add_hit sc so h (es\<lparr>es_filepath := p\<rparr>))"
  using write_record_header [of sc so "es_count es = 0" h] by (auto simp: hits_added_def add_hit_def)

lemma hits_added_append:
  "hits_added sc so hs1 es es1 \<Longrightarrow> hits_added sc so hs2 es1 es2 \<Longrightarrow> hits_added sc so (hs1 @ hs2) es es2"
  by (auto simp: hits_added_def split: if_splits)

lemma search_records_hits:
  "hits_added sc so (found_hits E A sc so matches records) es (fold (search_record E A sc so matches) records es)"
proof (induction records arbitrary: es)
  case (Cons r rs)
  have "hits_added sc so (found_hits E A sc so matches [r]) es (search_record E A sc so matches r es)"
    using hits_added_Nil hits_added_one
    by (subst search_record_step) (auto simp: found_hits_def split: list.splits)
  from hits_added_append [OF this Cons.IH] show ?case by (simp add: found_hits_Cons [of _ _ _ _ _ r rs])
qed (simp add: found_hits_def hits_added_def)

lemma search_keyword_hits:
  assumes "so_keywords so = Some ks" and "ks \<noteq> []"
  shows "hits_added sc so (found_hits E A sc so (has_keywords E so ks) records) es (search_keyword E A sc so records es)"
  using search_records_hits [of sc so E A "contain_keywords E so ks" records es] assms
  by (cases "records = []") (auto simp: search_keyword_def contain_keywords_has [abs_def] found_hits_def hits_added_def)

text \<open>
  C35: A search with keywords finds exactly the records that pass every filter, under the name of an
  alias or as a field of the event data, and contain all keywords or one of them as the option says.
  The counter grows by their number; they are collected as a set or written in order, the header
  before the first one only.
\<close>

theorem search_finds_exactly:
  assumes "so_keywords so = Some ks" and "ks \<noteq> []" and "so_regex so = None"
    and "search_start E A sc so records es = Some es'"
  shows "let hits = map (search_hit_of E A (sc_output sc) (get_default_details_mapping_table (sc_default_details sc)))
      (filter (\<lambda>r. passes_filters E (oc_alias (sc_output sc)) (sc_wildmatch sc) (so_filter so) (rec_data r) \<and>
         has_keywords E so ks r) records)
    in es_count es' = es_count es + length hits \<and>
      (if so_sort_events so
       then set (es_result es') = set (es_result es) \<union> set hits \<and> es_written es' = es_written es
       else es_result es' = es_result es \<and>
         es_written es' = es_written es @ (if es_count es = 0 \<and> hits \<noteq> [] then write_header so else []) @
           concat (map (write_record sc so False) hits))"
proof -
  have "es' = search_keyword E A sc so records es" using assms(3,4) by (simp add: search_start_def)
  then have "hits_added sc so (found_hits E A sc so (has_keywords E so ks) records) es es'"
    using search_keyword_hits [OF assms(1,2)] by simp
  then show ?thesis unfolding Let_def found_hits_def hits_added_def .
qed

definition search_sample :: search_option where
  "search_sample = \<lparr>so_keywords = Some [''mimikatz'', ''psexec''], so_regex = None, so_ignore_case = True, so_and_logic = False,
     so_filter = [''EventID:1''], so_output = True, so_json_output = False, so_jsonl_output = False, so_sort_events = False,
     so_multiline = False, so_tab_separator = False\<rparr>"

definition search_sample_config :: search_config where
  "search_sample_config = \<lparr>sc_output = sample_config, sc_default_details = [], sc_event_title = (\<lambda>_. None),
     sc_wildmatch = (\<lambda>p s. p = s)\<rparr>"

theorem search_finds_exactly_witness:
  "let r = \<lparr>evtx_filepath = ''a.evtx'',
        rec_data = JObject [(''Event'', JObject [(''EventData'', JObject [(''EventID'', JNumber (JInt 1))])])], data_string = ''run PsExec'', key_2_value = Map.empty,
        recovered_record = False\<rparr>; so = search_sample;
      es = event_search_new [];
      es' = search_keyword env0 no_aho search_sample_config so [r] es;
      hits = map (search_hit_of env0 no_aho (sc_output search_sample_config)
          (get_default_details_mapping_table (sc_default_details search_sample_config)))
        (filter (\<lambda>r. passes_filters env0 (oc_alias (sc_output search_sample_config)) (sc_wildmatch search_sample_config)
           (so_filter so) (rec_data r) \<and> has_keywords env0 so [''mimikatz'', ''psexec''] r) [r])
    in es_count es' = es_count es + length hits \<and>
      (if so_sort_events so
       then set (es_result es') = set (es_result es) \<union> set hits \<and> es_written es' = es_written es
       else es_result es' = es_result es \<and>
         es_written es' = es_written es @ (if es_count es = 0 \<and> hits \<noteq> [] then write_header so else []) @
           concat (map (write_record search_sample_config so False) hits))"
  unfolding Let_def
  by (rule search_finds_exactly [unfolded Let_def]) (simp_all add: search_sample_def search_start_def)

subsection \<open>Departures\<close>

text \<open>A colon in the value of a filter splits it into two patterns, both of which must match the field.\<close>

lemma filter_value_with_colon: "filter_patterns [''Path:C:x''] ''Path'' = [''C'', ''x'']"
  by code_simp

text \<open>
  Short names are replaced first, also inside longer names, which are then not found any more, and
  inside values.
\<close>

lemma abbreviation_inside_names:
  "replace_all_field_info_abbr ''UserName: User'' (Some [(''UserName'', ''Name''), (''User'', ''U'')]) = ''UName: U''"
  by code_simp

text \<open>With keywords and a regex every record that has both is reported twice.\<close>

lemma keywords_and_regex_count_twice:
  assumes "so_keywords so = Some ks" and "ks \<noteq> []" and "so_regex so = Some regex"
    and "search_start E A sc so records es = Some es'"
  shows "es_count es' = es_count es + length (found_hits E A sc so (has_keywords E so ks) records) +
    length (found_hits E A sc so (\<lambda>r. rx_match E regex (data_string r)) records)"
  using assms search_keyword_hits [OF assms(1,2), of sc E A records es]
    search_records_hits [of sc so E A "\<lambda>r. rx_match E regex (data_string r)" records "search_keyword E A sc so records es"]
  by (auto simp: search_start_def search_regex_def hits_added_def split: if_splits)

text \<open>Record numbers are ordered as text.\<close>

lemma record_numbers_as_text:
  "hit_key (event_hit\<lparr>sh_timestamp := t, sh_record_id := ''10''\<rparr>) \<le> hit_key (event_hit\<lparr>sh_timestamp := t, sh_record_id := ''9''\<rparr>)"
  by (simp add: hit_key_def less_eq_prod_def)

end
