(* ===== verification/Extract_Base64.thy ===== *)
theory Extract_Base64
  imports Log_Record Rule_Filter
begin

section \<open>Extraction of Base64 strings (timeline/extract\_base64.rs)\<close>

text \<open>
  Command lines and scripts are searched for Base64 strings, which are decoded and classified. The
  crates that decode Base64, decode text and guess the type of a file are parameters; the
  conversions of UTF-16 and UTF-8 of the standard library are written out. \<open>None\<close> is a panic.
\<close>

record codec =
  cd_no_pad :: "string \<Rightarrow> nat list option"
  cd_std :: "string \<Rightarrow> nat list option"
  cd_utf8 :: "nat list \<Rightarrow> bool"
  cd_utf16le :: "nat list \<Rightarrow> bool"
  cd_utf16be :: "nat list \<Rightarrow> bool"
  cd_infer :: "nat list \<Rightarrow> string option"
  cd_alphabetic :: "string \<Rightarrow> bool"

datatype base64_event = Sec4688 | Sysmon1 | System7045 | PwSh4104 | PwSh4103 | PwShClassic400

fun event_text :: "base64_event \<Rightarrow> string" where
  "event_text Sec4688 = ''Sec 4688''"
| "event_text Sysmon1 = ''Sysmon 1''"
| "event_text System7045 = ''Sys 7045''"
| "event_text PwSh4104 = ''PwSh 4104''"
| "event_text PwSh4103 = ''PwSh 4103''"
| "event_text PwShClassic400 = ''PwShClassic 400''"

subsection \<open>Text from bytes\<close>

definition encode_utf8 :: "nat \<Rightarrow> string" where
  "encode_utf8 n =
     map char_of
       (if n < 128 then [n]
        else if n < 2048 then [192 + n div 64, 128 + n mod 64]
        else if n < 65536 then [224 + n div 4096, 128 + n div 64 mod 64, 128 + n mod 64]
        else [240 + n div 262144, 128 + n div 4096 mod 64, 128 + n div 64 mod 64, 128 + n mod 64])"

fun from_utf16 :: "nat list \<Rightarrow> string option" where
  "from_utf16 [] = Some []"
| "from_utf16 [u] = (if 55296 \<le> u \<and> u < 57344 then None else Some (encode_utf8 u))"
| "from_utf16 (u # v # us) =
     (if u < 55296 \<or> 57344 \<le> u then map_option ((@) (encode_utf8 u)) (from_utf16 (v # us))
      else if u < 56320 \<and> 56320 \<le> v \<and> v < 57344
      then map_option ((@) (encode_utf8 (65536 + (u - 55296) * 1024 + (v - 56320)))) (from_utf16 us)
      else None)"

text \<open>The units of two bytes; a single byte at the end is an index out of range.\<close>

fun units_le :: "nat list \<Rightarrow> nat list option" where
  "units_le [] = Some []"
| "units_le [a] = None"
| "units_le (a # b # bs) = map_option ((#) (a + 256 * b)) (units_le bs)"

fun units_be :: "nat list \<Rightarrow> nat list option" where
  "units_be [] = Some []"
| "units_be [a] = None"
| "units_be (a # b # bs) = map_option ((#) (256 * a + b)) (units_be bs)"

definition utf16_le_to_string :: "nat list \<Rightarrow> string option option" where
  "utf16_le_to_string bs = map_option from_utf16 (units_le bs)"

definition utf16_be_to_string :: "nat list \<Rightarrow> string option option" where
  "utf16_be_to_string bs = map_option from_utf16 (units_be bs)"

definition from_utf8 :: "nat list \<Rightarrow> string option" where
  "from_utf8 bs = (if valid_utf8 bs then Some (map char_of bs) else None)"

subsection \<open>What a payload is\<close>

datatype base64_data =
    Utf8 string string
  | Utf16Le string string
  | Utf16Be string string
  | Binary string "nat list" "string option"
  | Unknown string

definition is_utf8 :: "codec \<Rightarrow> nat list \<Rightarrow> bool" where
  "is_utf8 C bs \<longleftrightarrow> bs \<noteq> [] \<and> \<not> length bs < 5 \<and> cd_utf8 C bs"

definition is_utf16_le :: "codec \<Rightarrow> nat list \<Rightarrow> bool" where
  "is_utf16_le C bs \<longleftrightarrow> bs \<noteq> [] \<and> \<not> length bs < 5 \<and> cd_utf16le C bs"

definition is_utf16_be :: "codec \<Rightarrow> nat list \<Rightarrow> bool" where
  "is_utf16_be C bs \<longleftrightarrow> bs \<noteq> [] \<and> \<not> length bs < 5 \<and> cd_utf16be C bs"

definition base64_data_new :: "codec \<Rightarrow> string \<Rightarrow> nat list \<Rightarrow> base64_data option" where
  "base64_data_new C token payload =
     (if is_utf16_le C payload then
        map_option (Utf16Le token) (Option.bind (utf16_le_to_string payload) (\<lambda>r. r))
      else if is_utf16_be C payload then
        map_option (Utf16Be token) (Option.bind (utf16_be_to_string payload) (\<lambda>r. r))
      else if is_utf8 C payload then map_option (Utf8 token) (from_utf8 payload)
      else Some (case cd_infer C payload of
                   Some k \<Rightarrow> Binary token payload (Some k)
                 | None \<Rightarrow> Unknown token))"

fun base64_str :: "base64_data \<Rightarrow> string" where
  "base64_str (Utf8 s _) = s"
| "base64_str (Utf16Le s _) = s"
| "base64_str (Utf16Be s _) = s"
| "base64_str (Binary s _ _) = s"
| "base64_str (Unknown s) = s"

definition without_controls :: "string \<Rightarrow> string" where
  "without_controls s = concat (filter (\<lambda>g. \<not> is_control g) (utf8_chars s))"

fun decoded_str :: "base64_data \<Rightarrow> string" where
  "decoded_str (Utf8 _ s) = without_controls s"
| "decoded_str (Utf16Le _ s) = without_controls s"
| "decoded_str (Utf16Be _ s) = without_controls s"
| "decoded_str (Binary _ _ _) = []"
| "decoded_str (Unknown _) = []"

fun file_type :: "base64_data \<Rightarrow> string" where
  "file_type (Binary _ _ kind) = unwrap_or ''Unknown'' kind"
| "file_type (Unknown _) = ''Unknown''"
| "file_type _ = ''text''"

fun data_len :: "base64_data \<Rightarrow> nat" where
  "data_len (Utf8 _ s) = length s"
| "data_len (Utf16Le _ s) = length s"
| "data_len (Utf16Be _ s) = length s"
| "data_len (Binary _ bytes _) = length bytes"
| "data_len (Unknown s) = length s"

fun is_unknown :: "base64_data \<Rightarrow> bool" where
  "is_unknown (Unknown _) = True"
| "is_unknown _ = False"

fun is_binary :: "base64_data \<Rightarrow> string" where
  "is_binary (Binary _ _ _) = ''Y''"
| "is_binary (Unknown _) = ''Y''"
| "is_binary _ = ''N''"

fun encoding_text :: "base64_data \<Rightarrow> string" where
  "encoding_text (Utf8 _ _) = ''UTF-8''"
| "encoding_text (Utf16Le _ _) = ''UTF-16 LE''"
| "encoding_text (Utf16Be _ _) = ''UTF-16 BE''"
| "encoding_text (Binary _ _ _) = ''Binary''"
| "encoding_text (Unknown _) = ''Unknown''"

subsection \<open>Tokens\<close>

text \<open>\<open>[\w+/]+\<close>: the longest runs of such characters.\<close>

fun token_runs :: "(string \<Rightarrow> bool) \<Rightarrow> string list \<Rightarrow> string list \<Rightarrow> string list" where
  "token_runs P acc [] = (if acc = [] then [] else [concat (rev acc)])"
| "token_runs P acc (g # gs) =
     (if P g then token_runs P (g # acc) gs
      else if acc = [] then token_runs P [] gs else concat (rev acc) # token_runs P [] gs)"

definition tokenize :: "env \<Rightarrow> string \<Rightarrow> string list" where
  "tokenize E s = token_runs (\<lambda>g. is_word E g \<or> g = ''+'' \<or> g = ''/'') [] (utf8_chars s)"

definition is_base64 :: "codec \<Rightarrow> string \<Rightarrow> bool" where
  "is_base64 C s \<longleftrightarrow> (if cd_no_pad C s \<noteq> None then True else cd_std C s \<noteq> None)"

definition is_alphabetic :: "codec \<Rightarrow> string \<Rightarrow> bool" where
  "is_alphabetic C g =
     (case map byte g of
        [a] \<Rightarrow> (65 \<le> a \<and> a \<le> 90) \<or> (97 \<le> a \<and> a \<le> 122)
      | _ \<Rightarrow> cd_alphabetic C g)"

text \<open>What becomes of a token: a panic, nothing, or its data.\<close>

definition token_data :: "codec \<Rightarrow> string \<Rightarrow> base64_data option option" where
  "token_data C token =
     (if \<not> is_base64 C token \<or> length token < 10 \<or> list_all (is_alphabetic C) (utf8_chars token) then Some None
      else
        (case (case cd_no_pad C token of Some payload \<Rightarrow> Some payload | None \<Rightarrow> cd_std C token) of
           None \<Rightarrow> None
         | Some payload \<Rightarrow>
             map_option (\<lambda>d. if is_unknown d then None else Some d) (base64_data_new C token payload)))"

fun double_encoded :: "codec \<Rightarrow> string list \<Rightarrow> string option" where
  "double_encoded C [] = Some ''N''"
| "double_encoded C (t # ts) =
     (case token_data C t of
        None \<Rightarrow> None
      | Some None \<Rightarrow> double_encoded C ts
      | Some (Some _) \<Rightarrow> Some ''Y'')"

definition is_double_encoding :: "env \<Rightarrow> codec \<Rightarrow> base64_data \<Rightarrow> string option" where
  "is_double_encoding E C d = double_encoded C (tokenize E (decoded_str d))"

subsection \<open>Payloads of an event\<close>

definition data_element :: "json \<Rightarrow> nat \<Rightarrow> json" where
  "data_element v i = (case v of JArray vs \<Rightarrow> if i < length vs then vs ! i else JNull | _ \<Rightarrow> JNull)"

definition extract_payload :: "json \<Rightarrow> (json \<times> base64_event) list" where
  "extract_payload data =
     (let field = (\<lambda>k. json_index (json_index (json_index data ''Event'') ''EventData'') k);
          values = (case (json_as_str (system_field data ''Channel''), json_as_i64 (system_field data ''EventID'')) of
            (Some ch, Some eid) \<Rightarrow>
              if ch = ''Security'' \<and> eid = 4688 then [(field ''CommandLine'', Sec4688)]
              else if ch = ''Microsoft-Windows-Sysmon/Operational'' \<and> eid = 1
              then [(field ''CommandLine'', Sysmon1), (field ''ParentCommandLine'', Sysmon1)]
              else if (ch = ''Microsoft-Windows-PowerShell/Operational'' \<or> ch = ''PowerShellCore/Operational'') \<and> eid = 4104
              then [(field ''ScriptBlockText'', PwSh4104)]
              else if (ch = ''Microsoft-Windows-PowerShell/Operational'' \<or> ch = ''PowerShellCore/Operational'') \<and> eid = 4103
              then [(field ''Payload'', PwSh4103)]
              else if ch = ''Windows PowerShell'' \<and> eid = 400 then [(data_element (field ''Data'') 2, PwShClassic400)]
              else if ch = ''System'' \<and> eid = 7045 then [(field ''ImagePath'', System7045)]
              else []
          | _ \<Rightarrow> [])
      in filter (\<lambda>(v, _). v \<noteq> JNull) values)"

subsection \<open>Rows\<close>

record evtx_info =
  ei_ts :: string
  ei_computer :: string
  ei_rec_id :: string
  ei_file_name :: string
  ei_event :: string

definition evtx_info_new :: "env \<Rightarrow> (int \<Rightarrow> string) \<Rightarrow> json \<Rightarrow> string \<Rightarrow> base64_event \<Rightarrow> evtx_info option" where
  "evtx_info_new E time_text v path event =
     (case json_as_i64 (system_field v ''EventRecordID'') of
        None \<Rightarrow> None
      | Some i \<Rightarrow>
          Some \<lparr>ei_ts = time_text (unwrap_or 0 (get_event_time E v False)),
                ei_computer = unwrap_or [] (json_as_str (system_field v ''Computer'')),
                ei_rec_id = show_int i, ei_file_name = path, ei_event = event_text event\<rparr>)"

definition base64_mark :: string where
  "base64_mark = ''<Base64String>''"

text \<open>\<open><Base64String>(=*)\<close> is replaced by the mark alone.\<close>

function strip_padding :: "string \<Rightarrow> string" where
  "strip_padding [] = []"
| "strip_padding (c # cs) =
     (if starts_with (c # cs) base64_mark
      then base64_mark @ strip_padding (dropWhile (\<lambda>d. d = CHR ''='') (drop (length base64_mark - 1) cs))
      else c # strip_padding cs)"
  by pat_completeness auto
termination
  by (relation "measure length") (auto intro!: le_imp_less_Suc order_trans [OF length_dropWhile_le])

definition token_row :: "env \<Rightarrow> codec \<Rightarrow> evtx_info \<Rightarrow> string \<Rightarrow> base64_data \<Rightarrow> string list list option" where
  "token_row E C evtx possible_base64 d =
     (let original = strip_padding (replace_all (base64_str d) base64_mark possible_base64) in
      if contains_str original (''-'' @ base64_mark) then Some []
      else map_option (\<lambda>double.
        [[ei_ts evtx, ei_computer evtx, base64_str d, decoded_str d, original, show_nat (data_len d), is_binary d,
          double, encoding_text d, file_type d, ei_event evtx, ei_rec_id evtx, ei_file_name evtx]])
        (is_double_encoding E C d))"

fun token_rows :: "env \<Rightarrow> codec \<Rightarrow> evtx_info \<Rightarrow> string \<Rightarrow> string list \<Rightarrow> string list list option" where
  "token_rows E C evtx text [] = Some []"
| "token_rows E C evtx text (t # ts) =
     (case token_data C t of
        None \<Rightarrow> None
      | Some None \<Rightarrow> token_rows E C evtx text ts
      | Some (Some d) \<Rightarrow>
          Option.bind (token_row E C evtx text d) (\<lambda>row. map_option ((@) row) (token_rows E C evtx text ts)))"

definition create_base64_extracted_record ::
  "env \<Rightarrow> codec \<Rightarrow> (int \<Rightarrow> string) \<Rightarrow> string \<Rightarrow> string \<Rightarrow> json \<Rightarrow> base64_event \<Rightarrow> string list list option" where
  "create_base64_extracted_record E C time_text file possible_base64 data event =
     Option.bind (evtx_info_new E time_text data file event)
       (\<lambda>evtx. token_rows E C evtx possible_base64 (tokenize E possible_base64))"

fun payload_rows ::
  "env \<Rightarrow> codec \<Rightarrow> (int \<Rightarrow> string) \<Rightarrow> string \<Rightarrow> json \<Rightarrow> (json \<times> base64_event) list \<Rightarrow> string list list option" where
  "payload_rows E C time_text file data [] = Some []"
| "payload_rows E C time_text file data ((p, event) # ps) =
     Option.bind (create_base64_extracted_record E C time_text file (unwrap_or [] (json_as_str p)) data event)
       (\<lambda>rows. map_option ((@) rows) (payload_rows E C time_text file data ps))"

definition process_record :: "env \<Rightarrow> codec \<Rightarrow> (int \<Rightarrow> string) \<Rightarrow> json \<Rightarrow> string \<Rightarrow> string list list option" where
  "process_record E C time_text data file = payload_rows E C time_text file data (extract_payload data)"

fun process_evtx_record_infos :: "env \<Rightarrow> codec \<Rightarrow> (int \<Rightarrow> string) \<Rightarrow> recinfo list \<Rightarrow> string list list option" where
  "process_evtx_record_infos E C time_text [] = Some []"
| "process_evtx_record_infos E C time_text (r # rs) =
     Option.bind (process_record E C time_text (rec_data r) (evtx_filepath r))
       (\<lambda>rows. map_option ((@) rows) (process_evtx_record_infos E C time_text rs))"

text \<open>The rows of the file, or the first four columns of the table on the terminal.\<close>

definition output_all :: "bool \<Rightarrow> string list list \<Rightarrow> string list list" where
  "output_all to_file all_records =
     (if all_records = [] then [[''No matches found.'']]
      else (let rows = map (\<lambda>row. if row ! 6 = ''Y'' then row[3 := ''(Binary Data)''] else row) all_records
            in if to_file
               then [''Timestamp'', ''Computer'', ''Base64 String'', ''Decoded String'', ''Original Field'', ''Length'', ''Binary'',
                     ''Double Encoding'', ''Encoding'', ''File Type'', ''Event'', ''Record ID'', ''File Name''] # rows
               else [''Timestamp'', ''Computer'', ''Base64 String'', ''Decoded String''] # map (take 4) rows))"

subsection \<open>Text is recovered, and no payload ends the run\<close>

definition bytes_le :: "nat list \<Rightarrow> nat list" where
  "bytes_le us = concat (map (\<lambda>u. [u, 0]) us)"

definition bytes_be :: "nat list \<Rightarrow> nat list" where
  "bytes_be us = concat (map (\<lambda>u. [0, u]) us)"

text \<open>
  What the decoders of \<open>encoding_rs\<close> promise: what does not decode becomes a replacement character, so
  the decoded text is ASCII for encodings of ASCII text only.
\<close>

definition codec_exact :: "codec \<Rightarrow> bool" where
  "codec_exact C \<longleftrightarrow>
     (\<forall>bs. cd_utf8 C bs \<longleftrightarrow> (\<forall>b \<in> set bs. b < 128)) \<and>
     (\<forall>bs. cd_utf16le C bs \<longleftrightarrow> (\<exists>us. (\<forall>u \<in> set us. u < 128) \<and> bs = bytes_le us)) \<and>
     (\<forall>bs. cd_utf16be C bs \<longleftrightarrow> (\<exists>us. (\<forall>u \<in> set us. u < 128) \<and> bs = bytes_be us))"

lemma bytes_simps [simp]:
  "bytes_le [] = []" "bytes_le (u # us) = u # 0 # bytes_le us"
  "bytes_be [] = []" "bytes_be (u # us) = 0 # u # bytes_be us"
  "length (bytes_le us) = 2 * length us" "length (bytes_be us) = 2 * length us"
  by (auto simp: bytes_le_def bytes_be_def) (induction us; simp)+

lemma bytes_Nil_iff [simp]: "bytes_le us = [] \<longleftrightarrow> us = []" "bytes_be us = [] \<longleftrightarrow> us = []"
  by (cases us; simp)+

lemma units_bytes [simp]: "units_le (bytes_le us) = Some us" "units_be (bytes_be us) = Some us"
  by (induction us) auto

lemma from_utf16_ascii: "\<forall>u \<in> set us. u < 128 \<Longrightarrow> from_utf16 us = Some (map char_of us)"
  by (induction us rule: from_utf16.induct) (auto simp: encode_utf8_def)

lemma valid_utf8_ascii: "\<forall>b \<in> set bs. b < 128 \<Longrightarrow> valid_utf8 bs"
  by (induction bs) auto

lemma codec_exact_decodes:
  assumes "codec_exact C"
  shows "cd_utf16le C bs \<Longrightarrow> \<exists>s. utf16_le_to_string bs = Some (Some s)"
    and "cd_utf16be C bs \<Longrightarrow> \<exists>s. utf16_be_to_string bs = Some (Some s)"
    and "cd_utf8 C bs \<Longrightarrow> \<exists>s. from_utf8 bs = Some s"
  using assms by (auto simp: codec_exact_def utf16_le_to_string_def utf16_be_to_string_def from_utf16_ascii from_utf8_def valid_utf8_ascii)

lemma base64_data_total: "codec_exact C \<Longrightarrow> base64_data_new C token payload \<noteq> None"
  using codec_exact_decodes [of C payload]
  by (auto simp: base64_data_new_def is_utf8_def is_utf16_le_def is_utf16_be_def)

lemma token_data_total: "codec_exact C \<Longrightarrow> token_data C t \<noteq> None"
  using base64_data_total [of C t]
  by (auto simp: token_data_def is_base64_def split: option.splits if_splits)

lemma double_encoded_total: "codec_exact C \<Longrightarrow> double_encoded C ts \<noteq> None"
  using token_data_total [of C] by (induction ts) (auto split: option.splits)

lemma token_rows_total: "codec_exact C \<Longrightarrow> token_rows E C evtx text ts \<noteq> None"
proof (induction ts)
  case (Cons t ts)
  moreover have "token_row E C evtx text d \<noteq> None" for d
    using double_encoded_total [OF Cons.prems] by (simp add: token_row_def is_double_encoding_def Let_def)
  ultimately show ?case using token_data_total [of C t] by (fastforce simp: bind_eq_Some_conv split: option.splits)
qed simp

lemma payload_rows_total:
  "codec_exact C \<Longrightarrow> payload_rows E C tt file data ps = None \<longleftrightarrow>
    ps \<noteq> [] \<and> json_as_i64 (system_field data ''EventRecordID'') = None"
proof (induction ps)
  case (Cons p ps)
  then show ?case using token_rows_total [of C E]
    by (cases p) (auto simp: create_base64_extracted_record_def evtx_info_new_def bind_eq_None_conv split: option.splits)
qed simp

lemma process_record_panics:
  "codec_exact C \<Longrightarrow> process_record E C tt data file = None \<longleftrightarrow>
    extract_payload data \<noteq> [] \<and> json_as_i64 (system_field data ''EventRecordID'') = None"
  by (simp add: process_record_def payload_rows_total)

text \<open>
  The extraction never fails over the strings it finds, however they are encoded, cut or nested:
  no conversion that the code unwraps can fail and no byte is read past the end. It ends the run with
  a panic in one case only, an event with a payload whose record number is not an integer.
\<close>

theorem extraction_panics_only_on_record_id:
  assumes "codec_exact C"
  shows "process_evtx_record_infos E C time_text records = None \<longleftrightarrow>
    (\<exists>r \<in> set records. extract_payload (rec_data r) \<noteq> [] \<and>
       json_as_i64 (json_index (json_index (json_index (rec_data r) ''Event'') ''System'') ''EventRecordID'') = None)"
  using assms
  by (induction records) (auto simp: bind_eq_None_conv process_record_panics system_field_def)

definition ascii_units :: "nat list option \<Rightarrow> bool" where
  "ascii_units us = (case us of None \<Rightarrow> False | Some us \<Rightarrow> list_all (\<lambda>u. u < 128) us)"

definition sample_codec :: codec where
  "sample_codec = \<lparr>cd_no_pad = (\<lambda>_. None), cd_std = (\<lambda>s. Some (map byte s)), cd_utf8 = list_all (\<lambda>b. b < 128),
     cd_utf16le = (\<lambda>bs. ascii_units (units_le bs)), cd_utf16be = (\<lambda>bs. ascii_units (units_be bs)),
     cd_infer = (\<lambda>_. None), cd_alphabetic = (\<lambda>_. False)\<rparr>"

lemma units_le_ascii: "units_le bs = Some us \<Longrightarrow> \<forall>u \<in> set us. u < 128 \<Longrightarrow> bs = bytes_le us"
  by (induction bs arbitrary: us rule: units_le.induct) auto

lemma units_be_ascii: "units_be bs = Some us \<Longrightarrow> \<forall>u \<in> set us. u < 128 \<Longrightarrow> bs = bytes_be us"
  by (induction bs arbitrary: us rule: units_be.induct) auto

lemma sample_codec_exact: "codec_exact sample_codec"
  by (auto simp: codec_exact_def sample_codec_def ascii_units_def list_all_iff dest: units_le_ascii units_be_ascii
      split: option.splits)

definition base64_sample :: "json \<Rightarrow> recinfo" where
  "base64_sample n = \<lparr>evtx_filepath = ''a.evtx'',
     rec_data = JObject [(''Event'', JObject [
       (''System'', JObject [(''Channel'', JString ''System''), (''EventID'', JNumber (JInt 7045)), (''EventRecordID'', n)]),
       (''EventData'', JObject [(''ImagePath'', JString ''dGVzdDEyMzQ1'')])])],
     data_string = [], key_2_value = Map.empty, recovered_record = False\<rparr>"

theorem extraction_panics_only_on_record_id_witness:
  "process_evtx_record_infos env0 sample_codec show_int [base64_sample (JNumber (JInt 7)), base64_sample JNull] = None \<longleftrightarrow>
    (\<exists>r \<in> set [base64_sample (JNumber (JInt 7)), base64_sample JNull]. extract_payload (rec_data r) \<noteq> [] \<and>
       json_as_i64 (json_index (json_index (json_index (rec_data r) ''Event'') ''System'') ''EventRecordID'') = None)"
  by (rule extraction_panics_only_on_record_id [OF sample_codec_exact])

text \<open>An integer record number is enough, null is not.\<close>

lemma base64_sample_record_id: "system_field (rec_data (base64_sample n)) ''EventRecordID'' = n"
  by (simp add: base64_sample_def system_field_def json_index_def)

lemma base64_sample_payload: "extract_payload (rec_data (base64_sample n)) = [(JString ''dGVzdDEyMzQ1'', System7045)]"
  by (simp only: extract_payload_def Let_def) (simp add: base64_sample_def system_field_def json_index_def)

lemma record_id_panics:
  "process_evtx_record_infos env0 sample_codec show_int [base64_sample JNull] = None"
  "process_evtx_record_infos env0 sample_codec show_int [base64_sample (JNumber (JInt 7))] \<noteq> None"
  using process_record_panics [OF sample_codec_exact, where E = env0 and tt = show_int]
  by (auto simp: base64_sample_record_id base64_sample_payload bind_eq_None_conv)

lemma char_of_byte [simp]: "char_of (byte c) = c"
  by (simp add: byte_def)

lemma printable_not_utf16:
  assumes "\<forall>c \<in> set s. 32 \<le> byte c" and "5 \<le> length s"
  shows "map byte s \<noteq> bytes_le us" "map byte s \<noteq> bytes_be us" "bytes_be (map byte s) \<noteq> bytes_le us"
proof -
  from assms(2) obtain c d cs where s: "s = c # d # cs" by (cases s; cases "tl s") auto
  show "map byte s \<noteq> bytes_le us" "map byte s \<noteq> bytes_be us" "bytes_be (map byte s) \<noteq> bytes_le us"
    using assms(1) by (cases us; auto simp: s)+
qed

text \<open>A text of printable ASCII characters is decoded to itself from each of the three encodings.\<close>

lemma payload_recovered:
  assumes "codec_exact C" and "\<forall>c \<in> set s. 32 \<le> byte c \<and> byte c < 127" and "5 \<le> length s"
  shows "base64_data_new C t (map byte s) = Some (Utf8 t s) \<and>
    base64_data_new C t (bytes_le (map byte s)) = Some (Utf16Le t s) \<and>
    base64_data_new C t (bytes_be (map byte s)) = Some (Utf16Be t s)"
proof -
  have printable: "\<forall>c \<in> set s. 32 \<le> byte c" and ascii: "\<forall>b \<in> set (map byte s). b < 128"
    using assms(2) by fastforce+
  note other = printable_not_utf16 [OF printable assms(3)]
  have ne: "s \<noteq> []" using assms(3) by auto
  from ascii have le: "cd_utf16le C (bytes_le (map byte s))" and be: "cd_utf16be C (bytes_be (map byte s))"
    and u8: "cd_utf8 C (map byte s)" using assms(1) unfolding codec_exact_def by blast+
  from other have "\<not> cd_utf16le C (map byte s)" "\<not> cd_utf16be C (map byte s)" "\<not> cd_utf16le C (bytes_be (map byte s))"
    using assms(1) by (auto simp: codec_exact_def)
  with le be u8 assms(3) ne show ?thesis
    by (simp add: base64_data_new_def is_utf8_def is_utf16_le_def is_utf16_be_def utf16_le_to_string_def
        utf16_be_to_string_def from_utf16_ascii [OF ascii] from_utf8_def valid_utf8_ascii [OF ascii] comp_def
        bytes_le_def [symmetric] bytes_be_def [symmetric])
qed

lemma without_controls_printable:
  assumes "\<forall>c \<in> set s. 32 \<le> byte c \<and> byte c < 127"
  shows "without_controls s = s"
proof -
  have "utf8_chars s = map (\<lambda>c. [c]) s" using assms by (intro utf8_chars_ascii) (auto simp: is_ascii_def)
  moreover have "\<forall>c \<in> set s. \<not> is_control [c]" using assms by (auto simp: is_control_def)
  ultimately show ?thesis by (simp add: without_controls_def filter_map comp_def filter_id_conv) 
qed

lemma token_rows_member:
  assumes "codec_exact C" and "t \<in> set ts" and "token_data C t = Some (Some d)"
    and "token_row E C evtx text d = Some [row]"
  shows "\<exists>rows. token_rows E C evtx text ts = Some rows \<and> row \<in> set rows"
proof -
  obtain rows where rows: "token_rows E C evtx text ts = Some rows" using token_rows_total [OF assms(1)] by blast
  have "row \<in> set rows" using assms(2) rows
  proof (induction ts arbitrary: rows)
    case (Cons u ts)
    then show ?case using assms(3,4) by (auto split: option.splits simp: bind_eq_Some_conv)
  qed simp
  with rows show ?thesis by blast
qed

lemma payload_rows_member:
  assumes "payload_rows E C tt file data ps = Some rows" and "(v, event) \<in> set ps"
  shows "\<exists>rs. create_base64_extracted_record E C tt file (unwrap_or [] (json_as_str v)) data event = Some rs \<and> set rs \<subseteq> set rows"
  using assms
proof (induction ps arbitrary: rows)
  case (Cons p ps)
  obtain q ev where p: "p = (q, ev)" by (cases p)
  from Cons.prems(1) obtain r1 r2 where r: "create_base64_extracted_record E C tt file (unwrap_or [] (json_as_str q)) data ev = Some r1"
    "payload_rows E C tt file data ps = Some r2" "rows = r1 @ r2"
    by (auto simp: p bind_eq_Some_conv)
  show ?case
  proof (cases "(v, event) = p")
    case True
    with r p show ?thesis by auto
  next
    case False
    with Cons.IH [OF r(2)] Cons.prems(2) r(3) show ?thesis by fastforce
  qed
qed simp

text \<open>The encodings of a text that are recognised, with the names they are reported under.\<close>

definition text_payloads :: "string \<Rightarrow> (nat list \<times> string) set" where
  "text_payloads s =
     {(map byte s, ''UTF-8''), (bytes_le (map byte s), ''UTF-16 LE''), (bytes_be (map byte s), ''UTF-16 BE'')}"

text \<open>
  C39: Hidden text is reported. When a field of an event that is searched has, among its longest runs of
  word characters, plus signs and slashes, one of at least ten bytes, not all letters, that the decoder
  of Base64 decodes to the bytes of a text of at least five printable ASCII characters, plain or in
  UTF-16 of either byte order, then the rows of the event are made and one of them has the run, the very
  text and the name of its encoding: for a record number that is an integer, and unless a dash stands
  before an occurrence of the run in the field.
\<close>

theorem base64_text_recovered:
  assumes "codec_exact C" and "\<forall>c \<in> set s. 32 \<le> byte c \<and> byte c < 127" and "5 \<le> length s"
    and "json_as_i64 (system_field data ''EventRecordID'') \<noteq> None"
    and "(v, event) \<in> set (extract_payload data)" and "json_as_str v = Some field"
    and "t \<in> set (tokenize E field)" and "10 \<le> length t" and "\<not> list_all (is_alphabetic C) (utf8_chars t)"
    and "cd_no_pad C t = Some payload" and "(payload, encoding) \<in> text_payloads s"
    and "\<not> contains_str (strip_padding (replace_all t base64_mark field)) (''-'' @ base64_mark)"
  shows "\<exists>rows. process_record E C time_text data file = Some rows \<and>
    (\<exists>row \<in> set rows. row ! 2 = t \<and> row ! 3 = s \<and> row ! 8 = encoding)"
proof -
  obtain evtx where evtx: "evtx_info_new E time_text data file event = Some evtx"
    using assms(4) by (auto simp: evtx_info_new_def)
  obtain d where d: "base64_data_new C t payload = Some d" "base64_str d = t" "decoded_str d = s" "encoding_text d = encoding"
      "\<not> is_unknown d"
    using assms(11) payload_recovered [OF assms(1-3), of t] without_controls_printable [OF assms(2)]
    by (auto simp: text_payloads_def)
  have td: "token_data C t = Some (Some d)"
    using assms(8-10) d(1,5) by (simp add: token_data_def is_base64_def)
  obtain double where "is_double_encoding E C d = Some double"
    using double_encoded_total [OF assms(1)] by (auto simp: is_double_encoding_def)
  then obtain row where row: "token_row E C evtx field d = Some [row]" "row ! 2 = t" "row ! 3 = s" "row ! 8 = encoding"
    using assms(12) d(2-4) by (simp add: token_row_def Let_def)
  obtain rs where rs: "create_base64_extracted_record E C time_text file field data event = Some rs" "row \<in> set rs"
    using token_rows_member [OF assms(1,7) td row(1)] by (auto simp: create_base64_extracted_record_def evtx)
  obtain rows where rows: "process_record E C time_text data file = Some rows"
    using process_record_panics [OF assms(1)] assms(4) by (metis option.exhaust)
  have "set rs \<subseteq> set rows"
    using payload_rows_member [OF rows [unfolded process_record_def] assms(5)] rs(1) assms(6) by auto
  with rs(2) rows row(2-4) show ?thesis by blast
qed

text \<open>A decoder that knows one token, the encoding of the text \<open>whoami /all\<close>.\<close>

definition whoami_codec :: codec where
  "whoami_codec = sample_codec\<lparr>cd_no_pad := (\<lambda>t. if t = ''d2hvYW1pIC9hbGw'' then Some (map byte ''whoami /all'') else None)\<rparr>"

definition whoami_event :: json where
  "whoami_event = JObject [(''Event'', JObject [
     (''System'', JObject [(''Channel'', JString ''Security''), (''EventID'', JNumber (JInt 4688)), (''EventRecordID'', JNumber (JInt 7))]),
     (''EventData'', JObject [(''CommandLine'', JString ''powershell d2hvYW1pIC9hbGw'')])])]"

theorem base64_text_recovered_witness:
  "\<exists>rows. process_record env0 whoami_codec show_int whoami_event ''a.evtx'' = Some rows \<and>
    (\<exists>row \<in> set rows. row ! 2 = ''d2hvYW1pIC9hbGw'' \<and> row ! 3 = ''whoami /all'' \<and> row ! 8 = ''UTF-8'')"
proof (rule base64_text_recovered)
  show "codec_exact whoami_codec" using sample_codec_exact by (simp add: codec_exact_def whoami_codec_def)
  show "json_as_i64 (system_field whoami_event ''EventRecordID'') \<noteq> None"
    by (simp add: whoami_event_def system_field_def json_index_def)
  have "extract_payload whoami_event = [(JString ''powershell d2hvYW1pIC9hbGw'', Sec4688)]"
    by (simp only: extract_payload_def Let_def) (simp add: whoami_event_def system_field_def json_index_def)
  then show "(JString ''powershell d2hvYW1pIC9hbGw'', Sec4688) \<in> set (extract_payload whoami_event)" by simp
  show "json_as_str (JString ''powershell d2hvYW1pIC9hbGw'') = Some ''powershell d2hvYW1pIC9hbGw''" by simp
  have "tokenize env0 ''powershell d2hvYW1pIC9hbGw'' = [''powershell'', ''d2hvYW1pIC9hbGw'']" by code_simp
  then show "''d2hvYW1pIC9hbGw'' \<in> set (tokenize env0 ''powershell d2hvYW1pIC9hbGw'')" by simp
  have "list_all (is_alphabetic whoami_codec) (utf8_chars ''d2hvYW1pIC9hbGw'') = False" by code_simp
  then show "\<not> list_all (is_alphabetic whoami_codec) (utf8_chars ''d2hvYW1pIC9hbGw'')" by simp
  show "cd_no_pad whoami_codec ''d2hvYW1pIC9hbGw'' = Some (map byte ''whoami /all'')" by (simp add: whoami_codec_def)
  show "(map byte ''whoami /all'', ''UTF-8'') \<in> text_payloads ''whoami /all''" by (simp add: text_payloads_def)
  have "contains_str (strip_padding (replace_all ''d2hvYW1pIC9hbGw'' base64_mark ''powershell d2hvYW1pIC9hbGw'')) (''-'' @ base64_mark) = False"
    by code_simp
  then show "\<not> contains_str (strip_padding (replace_all ''d2hvYW1pIC9hbGw'' base64_mark ''powershell d2hvYW1pIC9hbGw'')) (''-'' @ base64_mark)"
    by simp
qed (simp_all add: byte_def)

end
