(* ===== verification/Keywords.thy ===== *)
theory Keywords
  imports Rule_Filter Pivot
begin

section \<open>Level tuning and placeholder lists (options/level\_tuning.rs, expand\_list.rs)\<close>

text \<open>
  Two commands around the rules: the levels in rule files are rewritten from a list, and the
  placeholders in the rules are listed. Files are values of a map from paths to texts.
\<close>

subsection \<open>Level tuning\<close>

definition tuning_level :: "string \<Rightarrow> string option" where
  "tuning_level s =
     (let level = hd (split_char (CHR ''#'') s) in
      if list_ex (starts_with s) [''informational'', ''low'', ''medium'', ''high'', ''critical''] then Some level
      else if starts_with s ''info'' then Some (replace_all ''info'' ''informational'' level)
      else None)"

fun tuning_lines :: "string list list \<Rightarrow> (string \<times> string) list \<Rightarrow> (string, (string \<times> string) list) outcome" where
  "tuning_lines [] m = Ok m"
| "tuning_lines (line # ls) m =
     (case line of
        [] \<Rightarrow> Panic
      | i # rest \<Rightarrow>
          (if \<not> is_rule_id i then Err (''Failed to read level tuning file. '' @ i @ '' is not correct id format, fix it.'')
           else (case rest of
                   [] \<Rightarrow> Err ''Failed to read level...''
                 | l # _ \<Rightarrow>
                     (case tuning_level l of
                        None \<Rightarrow> Err ''level tuning file's level must in informational, low, medium, high, critical''
                      | Some level \<Rightarrow> tuning_lines ls (assoc_insert i level m)))))"

definition tuned_levels :: "(string list \<times> string) list" where
  "tuned_levels = [([''informational'', ''info''], ''informational''), ([''low''], ''low''), ([''medium''], ''medium''),
     ([''high''], ''high''), ([''critical''], ''critical'')]"

definition tune_content :: "string \<Rightarrow> string \<Rightarrow> string \<Rightarrow> string" where
  "tune_content new_level past_level content =
     fold (\<lambda>(ps, name) c. if list_ex (starts_with new_level) ps then replace_all past_level (''level: '' @ name) c else c)
       tuned_levels content"

text \<open>The texts of the files by path, and the paths that cannot be opened for writing.\<close>

type_synonym file_texts = "string \<Rightarrow> string + string"

fun tune_files ::
  "(string \<Rightarrow> string option) \<Rightarrow> (string \<times> string) list \<Rightarrow> (string \<times> yaml) list \<Rightarrow> file_texts \<Rightarrow>
   file_texts \<times> (string, unit) outcome" where
  "tune_files read_only m [] fs = (fs, Ok ())"
| "tune_files read_only m ((path, rule) # rs) fs =
     (case as_str (yindex rule ''id'') of
        None \<Rightarrow> (fs, Panic)
      | Some i \<Rightarrow>
          (case map_of m i of
             None \<Rightarrow> tune_files read_only m rs fs
           | Some new_level \<Rightarrow>
               (case fs path of
                  Inl e \<Rightarrow> (fs, Err e)
                | Inr content \<Rightarrow>
                    (case as_str (yindex rule ''level'') of
                       None \<Rightarrow> (fs, Panic)
                     | Some old \<Rightarrow>
                         (case read_only path of
                            Some e \<Rightarrow> (fs, Err e)
                          | None \<Rightarrow> tune_files read_only m rs
                              (fs(path := Inr (tune_content new_level (''level: '' @ old) content))))))))"

definition level_tuning_run ::
  "env \<Rightarrow> rule_world \<Rightarrow> rule_filters \<Rightarrow> string \<Rightarrow> string + fs_entry \<Rightarrow> lookup_state \<Rightarrow> (string \<Rightarrow> string option) \<Rightarrow>
   string + string list list \<Rightarrow> file_texts \<Rightarrow> file_texts \<times> (string, unit) outcome" where
  "level_tuning_run E W F rules_path metadata reg read_only read_result fs =
     (case read_result of
        Inl e \<Rightarrow> (fs, Err e)
      | Inr ls \<Rightarrow>
          (case tuning_lines ls [] of
             Panic \<Rightarrow> (fs, Panic)
           | Err e \<Rightarrow> (fs, Err e)
           | Ok m \<Rightarrow>
               (let F' = F\<lparr>min_level := ''informational'', target_level := [], no_use_rule := []\<rparr>
                in case read_rule_path E W F' rules_path metadata (loader_new [] reg) of
                     (ld, Panic) \<Rightarrow> (fs, Panic)
                   | (ld, Err e) \<Rightarrow> (fs, Err e)
                   | (ld, Ok _) \<Rightarrow> tune_files read_only m (files ld) fs)))"

subsection \<open>The list of placeholders\<close>

datatype dir_tree = DirFile string | Dir string "dir_tree list option"

text \<open>A directory that cannot be read has no entries; what is neither file nor directory counts as a file.\<close>

fun list_yml_files :: "dir_tree list \<Rightarrow> string list" where
  "list_yml_files [] = []"
| "list_yml_files (Dir path es # ts) = (case es of None \<Rightarrow> [] | Some es \<Rightarrow> list_yml_files es) @ list_yml_files ts"
| "list_yml_files (DirFile path # ts) = (if extension path = Some ''yml'' then [path] else []) @ list_yml_files ts"

function extract_expand_keys_recursive :: "(yaml \<times> yaml) list \<Rightarrow> (string \<times> string) list \<Rightarrow> (string \<times> string) list" where
  "extract_expand_keys_recursive [] m = m"
| "extract_expand_keys_recursive ((key, value) # h) m =
     (case as_str key of
        None \<Rightarrow> extract_expand_keys_recursive h m
      | Some k \<Rightarrow>
          (let m1 = (case (contains_str k ''|expand'', as_str value) of (True, Some v) \<Rightarrow> assoc_insert k v m | _ \<Rightarrow> m);
               m2 = (case value of YHash sub \<Rightarrow> extract_expand_keys_recursive sub m1 | _ \<Rightarrow> m1)
           in extract_expand_keys_recursive h m2))"
  by pat_completeness auto
termination
  by (relation "measure (\<lambda>(h, m). size_list (size_prod size size) h)") auto

definition extract_expand_keys :: "(yaml \<times> yaml) list \<Rightarrow> (string \<times> string) list" where
  "extract_expand_keys h = extract_expand_keys_recursive h []"

definition expand_list ::
  "(string \<Rightarrow> string + string) \<Rightarrow> (string \<Rightarrow> string + yaml list) \<Rightarrow> dir_tree list \<Rightarrow> string set" where
  "expand_list read_to_string load dir =
     (\<Union>path \<in> set (list_yml_files dir).
        case read_to_string path of
          Inl _ \<Rightarrow> {}
        | Inr content \<Rightarrow>
            (case load content of
               Inl _ \<Rightarrow> {}
             | Inr [] \<Rightarrow> {}
             | Inr (doc # _) \<Rightarrow>
                 (case as_hash (yindex doc ''detection'') of
                    None \<Rightarrow> {}
                  | Some h \<Rightarrow> snd ` set (extract_expand_keys h))))"

subsection \<open>What the commands do\<close>

lemma replace_all_absent: "\<not> contains_str b p \<Longrightarrow> replace_all p r b = b"
  by (cases "p = []") (simp_all add: replace_all_id)

lemma replace_all_once:
  assumes "p \<noteq> []" and "\<not> contains_str (a @ butlast p) p" and "\<not> contains_str b p"
  shows "replace_all p r (a @ p @ b) = a @ r @ b"
  using assms(2)
proof (induction a)
  case Nil
  then show ?case using assms by (cases p) (simp_all add: starts_with_iff replace_all_absent)
next
  case (Cons c a)
  have "\<not> starts_with (c # a @ p @ b) p"
  proof
    assume "starts_with (c # a @ p @ b) p"
    then have "take (length p) (c # a @ p @ b) = p" by (simp add: starts_with_def)
    moreover have "take (length p) (c # a @ p @ b) = take (length p) (c # a @ butlast p)"
      using assms(1) by (cases p rule: rev_cases) (auto simp: take_Cons' min_def)
    ultimately have "starts_with (c # a @ butlast p) p" by (simp add: starts_with_def)
    with Cons.prems show False by simp
  qed
  moreover have "\<not> contains_str (a @ butlast p) p" using Cons.prems by simp
  ultimately show ?case using Cons.IH assms(1) by simp
qed

text \<open>A rule file whose text has the level once is written back with the new level and nothing else changed.\<close>

lemma tune_content_once:
  assumes "new_level \<in> {''informational'', ''low'', ''medium'', ''high'', ''critical''}"
    and "\<not> contains_str (before @ butlast (''level: '' @ old)) (''level: '' @ old)"
    and "\<not> contains_str after (''level: '' @ old)"
  shows "tune_content new_level (''level: '' @ old) (before @ (''level: '' @ old) @ after) =
    before @ ''level: '' @ new_level @ after"
proof -
  have "tune_content new_level p c = replace_all p (''level: '' @ new_level) c" for p c
    using assms(1) by (auto simp: tune_content_def tuned_levels_def)
  with replace_all_once [OF _ assms(2,3), of "''level: '' @ new_level"] show ?thesis by simp
qed

subsection \<open>Departures\<close>

text \<open>A level between quotes is reported as tuned but the file is not changed.\<close>

lemma quoted_level_not_tuned:
  "tune_content ''critical'' ''level: high'' (''level: '' @ [CHR 0x22] @ ''high'' @ [CHR 0x22]) = ''level: '' @ [CHR 0x22] @ ''high'' @ [CHR 0x22]"
  by code_simp

text \<open>Every text of the same form in the file is changed, also that of another rule or a longer word.\<close>

lemma level_text_elsewhere_tuned:
  "tune_content ''critical'' ''level: low'' ''level: low; also level: lower'' = ''level: critical; also level: criticaler''"
  by code_simp

text \<open>The placeholders of two selections under the same key overwrite each other, and lists of selections are not searched.\<close>

lemma placeholder_lost:
  "extract_expand_keys [(YString ''a'', YHash [(YString ''User|expand'', YString ''%admins%'')]),
     (YString ''b'', YHash [(YString ''User|expand'', YString ''%guests%'')])] = [(''User|expand'', ''%guests%'')]"
  "extract_expand_keys [(YString ''a'', YArray [YHash [(YString ''User|expand'', YString ''%admins%'')]])] = []"
  by code_simp+
end
