(* ===== verification/Scan_Input.thy ===== *)
theory Scan_Input
  imports Metrics Rule_Filter Target_Time
begin

section \<open>Records for a scan (main.rs, utils.rs)\<close>

text \<open>
  Which files a scan reads, how the records of JSON files are brought into the shape of the records of
  event files, and which records are filtered out. The file system is a value; the parsers of JSON
  and of times are parameters. \<open>None\<close> is a panic.
\<close>

record scan_filter =
  sf_metrics :: metrics_config
  sf_include_eid :: "string list"
  sf_exclude_eid :: "string list"
  sf_eid_filter :: bool
  sf_target_ids :: "string list"
  sf_time :: target_event_time
  sf_json_input :: bool
  sf_parse_time :: "string \<Rightarrow> string \<Rightarrow> int option"
  sf_show_utc :: "int \<Rightarrow> string"

abbreviation sf_alias :: "scan_filter \<Rightarrow> alias_config" where
  "sf_alias sf \<equiv> xc_alias (sf_metrics sf)"

subsection \<open>Files\<close>

datatype file_tree = EvtxFile string | Directory string "string + file_tree option list"

definition unquote :: "string \<Rightarrow> string" where
  "unquote s = (let t = (if starts_with s [CHR 0x22] then tl s else s) in if ends_with t [CHR 0x22] then butlast t else t)"

definition path_stem :: "string \<Rightarrow> string" where
  "path_stem p =
     (let f = path_file_name p
      in if f = [] then ''.''
         else (case rev (split_char (CHR ''.'') f) of
                 e # s # rest \<Rightarrow> (if join ''.'' (rev (s # rest)) = [] then f else join ''.'' (rev (s # rest)))
               | _ \<Rightarrow> f))"

definition read_dir_error :: "string \<Rightarrow> string" where
  "read_dir_error e =
     (if ends_with e ''123)''
      then e @ ''. You may not be able to load evtx files when there are spaces in the directory path. '' @
        ''Please enclose the path with double quotes and remove any trailing slash at the end of the path.''
      else e)"

text \<open>The files with a wanted extension that are not hidden; entries that cannot be read are passed over.\<close>

fun collect_evtxfiles :: "string list \<Rightarrow> bool \<Rightarrow> file_tree option list \<Rightarrow> string list \<Rightarrow> string list \<times> string list" where
  "collect_evtxfiles exts quiet [] log = ([], log)"
| "collect_evtxfiles exts quiet (None # es) log = collect_evtxfiles exts quiet es log"
| "collect_evtxfiles exts quiet (Some (EvtxFile path) # es) log =
     (case collect_evtxfiles exts quiet es log of
        (ps, log') \<Rightarrow>
          (if unwrap_or [] (extension path) \<in> set exts \<and> \<not> starts_with (path_stem path) ''.'' then path # ps else ps, log'))"
| "collect_evtxfiles exts quiet (Some (Directory path (Inl e)) # es) log =
     collect_evtxfiles exts quiet es (if quiet then log else log @ [''[ERROR] '' @ read_dir_error e])"
| "collect_evtxfiles exts quiet (Some (Directory path (Inr sub)) # es) log =
     (case collect_evtxfiles exts quiet sub log of
        (ps1, log1) \<Rightarrow> (case collect_evtxfiles exts quiet es log1 of (ps2, log2) \<Rightarrow> (ps1 @ ps2, log2)))"

text \<open>The input of the command line: directories that are opened, or one file; \<open>None\<close> where nothing is analysed.\<close>

datatype scan_input = LiveAnalysis | Directories "(string + file_tree option list) list" | InputFile string bool | NoInput

definition analysis_targets :: "string list \<Rightarrow> bool \<Rightarrow> scan_input \<Rightarrow> string list \<Rightarrow> string list option \<times> string list" where
  "analysis_targets exts quiet input log =
     (case input of
        LiveAnalysis \<Rightarrow> (None, log)
      | Directories ds \<Rightarrow>
          (case fold (\<lambda>d (ps, log).
                  case collect_evtxfiles exts quiet [Some (Directory [] d)] log of (ps', log') \<Rightarrow> (ps @ ps', log')) ds ([], log) of
             (ps, log') \<Rightarrow> (if ps = [] then None else Some ps, log'))
      | InputFile path exists \<Rightarrow>
          (let p = unquote path in
           (if \<not> exists then None
            else if unwrap_or ''.'' (extension p) \<notin> set exts \<or> starts_with (trim (path_stem p)) ''.'' then None
            else Some [p], log))
      | NoInput \<Rightarrow> (None, log))"

subsection \<open>JSON files\<close>

definition wrap_event :: "json \<Rightarrow> json" where
  "wrap_event v = JObject [(''Event'', JObject [(''EventData'', v)])]"

text \<open>The lines of a file, each a text or an error; parsing them is lazy, so a bad line ends the run only when it is reached.\<close>

definition read_jsonl_to_value ::
  "(string \<Rightarrow> json option) \<Rightarrow> (string + string) list option \<Rightarrow> (string + json option list) option" where
  "read_jsonl_to_value parse file =
     (case file of
        None \<Rightarrow> Some (Inl ''Cannot open file. [file:{path}]'')
      | Some [] \<Rightarrow> None
      | Some (l # ls) \<Rightarrow>
          (if (case l of Inr s \<Rightarrow> parse s \<noteq> None | Inl _ \<Rightarrow> False)
           then Some (Inr (map (\<lambda>s. map_option wrap_event (parse s))
                  (filter (\<lambda>s. trim s \<noteq> []) (option_list (map (\<lambda>l. case l of Inr s \<Rightarrow> Some s | Inl _ \<Rightarrow> None) (l # ls))))))
           else Some (Inl ''Conversion failed because it is not in JSONL format.'')))"

definition jq_text :: "string \<Rightarrow> string" where
  "jq_text contents =
     (let s = filter (\<lambda>c. c \<noteq> CHR 0x0A \<and> c \<noteq> CHR 0x0D) contents
      in ''['' @ join ''},{'' (filter (\<lambda>p. trim p \<noteq> []) (split_str ''}{'' [] s)) @ '']'')"

definition read_json_to_value ::
  "(string \<Rightarrow> string + json) \<Rightarrow> string option \<Rightarrow> (string + json list) option" where
  "read_json_to_value parse contents =
     (case contents of
        None \<Rightarrow> Some (Inl ''Cannot open file. [file:{path}]'')
      | Some s \<Rightarrow>
          (case parse s of
             Inr (JArray vs) \<Rightarrow> Some (Inr (map wrap_event vs))
           | _ \<Rightarrow>
               (case parse (jq_text s) of
                  Inl e \<Rightarrow> Some (Inl e)
                | Inr (JArray vs) \<Rightarrow> Some (Inr (map wrap_event vs))
                | Inr _ \<Rightarrow> None)))"

text \<open>\<open>value[a][b] = w\<close>: a null on the way becomes an object, anything else but an object is a panic.\<close>

fun json_set :: "string list \<Rightarrow> json \<Rightarrow> json \<Rightarrow> json option" where
  "json_set [] w v = Some w"
| "json_set (k # ks) w JNull = map_option (\<lambda>x. JObject [(k, x)]) (json_set ks w JNull)"
| "json_set (k # ks) w (JObject kvs) =
     map_option (\<lambda>x. JObject (assoc_insert k x kvs)) (json_set ks w (unwrap_or JNull (map_of kvs k)))"
| "json_set (k # ks) w v = None"

definition json_at :: "json \<Rightarrow> string list \<Rightarrow> json" where
  "json_at v ks = foldl json_index v ks"

text \<open>A sequence of assignments, each with a value read from the record so far.\<close>

fun json_assign :: "(string list \<times> (json \<Rightarrow> json)) list \<Rightarrow> json \<Rightarrow> json option" where
  "json_assign [] v = Some v"
| "json_assign ((ks, f) # as) v = Option.bind (json_set ks (f v) v) (json_assign as)"

abbreviation event_data :: "string list \<Rightarrow> json \<Rightarrow> json" where
  "event_data ks v \<equiv> json_at v ([''Event'', ''EventData''] @ ks)"

definition is_array :: "json \<Rightarrow> bool" where
  "is_array v = (case v of JArray _ \<Rightarrow> True | _ \<Rightarrow> False)"

definition is_splunk_json :: "json \<Rightarrow> bool" where
  "is_splunk_json data = is_object (event_data [''result''] data)"

definition is_splunk_api_json :: "json \<Rightarrow> bool" where
  "is_splunk_api_json data \<longleftrightarrow> event_data [''rows''] data \<noteq> JNull"

definition provider_object :: json where
  "provider_object = JObject [(''Name'', JNumber (JInt 1))]"

text \<open>\<open>Event.System\<close> is the event data itself, or its first element; a record where it is then no object ends the run.\<close>

definition fill_system :: "json \<Rightarrow> json option" where
  "fill_system data =
     (case event_data [] data of
        JObject kvs \<Rightarrow> json_set [''Event'', ''System''] (JObject kvs) data
      | JArray [] \<Rightarrow> None
      | JArray (v # _) \<Rightarrow> json_set [''Event'', ''System''] v data
      | _ \<Rightarrow> Some data)"

definition normalize_record :: "json \<Rightarrow> json option" where
  "normalize_record data =
     (let splunk = is_splunk_json data in
      Option.bind (if splunk
                   then json_assign [([''Event'', ''System''], event_data [''result'']),
                                     ([''Event'', ''EventData''], event_data [''result''])] data
                   else Some data) (\<lambda>d0.
      Option.bind (fill_system d0) (\<lambda>d1.
      if \<not> is_object (json_at d1 [''Event'', ''System'']) then None
      else json_assign
        ([([''Event'', ''System'', ''EventRecordID''], event_data [''RecordNumber'']),
          ([''Event'', ''System'', ''Provider_attributes''], \<lambda>_. provider_object),
          ([''Event'', ''UserData''], event_data [])] @
         (if splunk
          then [([''Event'', ''EventData'', ''@timestamp''], event_data [''_time'']),
                ([''Event'', ''System'', ''@timestamp''], event_data [''_time'']),
                ([''Event'', ''System'', ''Provider_attributes'', ''Name''], event_data [''Name''])]
          else [([''Event'', ''System'', ''Provider_attributes'', ''Name''], event_data [''SourceName'']),
                ([''Event'', ''System'', ''Computer''], event_data [''Hostname''])])) d1)))"

text \<open>The rows of an answer of the Splunk API: a record of each row.\<close>

definition array_of :: "json \<Rightarrow> json list" where
  "array_of v = (case v of JArray vs \<Rightarrow> vs | _ \<Rightarrow> [])"

definition array_nth :: "json \<Rightarrow> nat \<Rightarrow> json" where
  "array_nth v i = (case v of JArray vs \<Rightarrow> if i < length vs then vs ! i else JNull | _ \<Rightarrow> JNull)"

definition api_fields :: "json \<Rightarrow> (nat \<times> json) list \<Rightarrow> (string list \<times> (json \<Rightarrow> json)) list" where
  "api_fields row keys =
     concat (map (\<lambda>(i, name). case name of
       JString k \<Rightarrow> [([''Event'', ''System'', k], \<lambda>_. array_nth row i), ([''Event'', ''EventData'', k], \<lambda>_. array_nth row i)]
     | _ \<Rightarrow> []) keys)"

definition strip_quotes :: "env \<Rightarrow> json \<Rightarrow> string" where
  "strip_quotes E v = filter (\<lambda>c. c \<noteq> CHR 0x22 \<and> c \<noteq> CHR 0x27) (replace_all [CHR 0x5C, CHR 0x22] [] (json_text E v))"

definition api_record :: "env \<Rightarrow> scan_filter \<Rightarrow> json list \<Rightarrow> json \<Rightarrow> json option" where
  "api_record E sf keys row =
     Option.bind (json_assign (api_fields row (zip [0..<length keys] keys)) JNull) (\<lambda>r.
       (let t = unwrap_or 0 (sf_parse_time sf ''%Y-%m-%dT%H:%M:%S%.9fZ'' (strip_quotes E (json_at r [''Event'', ''System'', ''SystemTime''])))
        in json_assign
          [([''Event'', ''UserData''], event_data []),
           ([''Event'', ''EventData'', ''@timestamp''], \<lambda>_. JString (sf_show_utc sf t)),
           ([''Event'', ''System'', ''@timestamp''], event_data [''@timestamp'']),
           ([''Event'', ''System'', ''Provider_attributes''], \<lambda>_. provider_object),
           ([''Event'', ''System'', ''Provider_attributes'', ''Name''], event_data [''Name''])] r))"

subsection \<open>Filters\<close>

definition is_target_event_id :: "scan_filter \<Rightarrow> json \<Rightarrow> bool" where
  "is_target_event_id sf data =
     (case get_event_value (sf_alias sf) ''Event.System.EventID'' data of
        Some (JString s) \<Rightarrow> target_ids_is_target (sf_target_ids sf) (replace_all [CHR 0x22] [] s) True
      | Some (JNumber n) \<Rightarrow> target_ids_is_target (sf_target_ids sf) (replace_all [CHR 0x22] [] (show_jnum n)) True
      | _ \<Rightarrow> True)"

definition is_valid_channel :: "scan_filter \<Rightarrow> json \<Rightarrow> string \<Rightarrow> bool" where
  "is_valid_channel sf data channel_key =
     (case get_event_value (sf_alias sf) channel_key data of
        Some (JString s) \<Rightarrow> s \<noteq> ''null''
      | _ \<Rightarrow> False)"

definition is_filtered_by_eid :: "env \<Rightarrow> scan_filter \<Rightarrow> json \<Rightarrow> bool" where
  "is_filtered_by_eid E sf data \<longleftrightarrow>
     (let target_eid =
        (if sf_include_eid sf \<noteq> [] \<or> sf_exclude_eid sf \<noteq> []
         then (case get_event_value (sf_alias sf) ''Event.System.EventID'' data of
                 Some v \<Rightarrow> unwrap_or [] (get_serde_number_to_string E v False)
               | None \<Rightarrow> [])
         else [])
      in (sf_include_eid sf \<noteq> [] \<and> target_eid \<notin> set (sf_include_eid sf)) \<or>
         (sf_exclude_eid sf \<noteq> [] \<and> target_eid \<in> set (sf_exclude_eid sf)) \<or>
         (sf_eid_filter sf \<and> \<not> is_target_event_id sf data))"

definition is_filtered_computer :: "scan_filter \<Rightarrow> json \<Rightarrow> bool" where
  "is_filtered_computer sf data =
     is_filtered_by_computer_name (get_event_value (sf_alias sf) ''Event.System.Computer'' data)
       (xc_include_computer (sf_metrics sf)) (xc_exclude_computer (sf_metrics sf))"

text \<open>The filters of an event file; the search command leaves all but the time out.\<close>

definition evtx_filtered :: "env \<Rightarrow> scan_filter \<Rightarrow> bool \<Rightarrow> json \<Rightarrow> bool" where
  "evtx_filtered E sf search_flag data \<longleftrightarrow>
     (\<not> search_flag \<and>
        (is_filtered_computer sf data \<or> is_filtered_by_eid E sf data \<or>
         \<not> is_valid_channel sf data ''Event.System.Channel'')) \<or>
     \<not> event_time_is_target (sf_time sf) (get_event_time E data (sf_json_input sf))"

definition json_record_time :: "env \<Rightarrow> scan_filter \<Rightarrow> bool \<Rightarrow> bool \<Rightarrow> json \<Rightarrow> int option" where
  "json_record_time E sf splunk splunk_api data =
     (let v = (if event_data [''@timestamp''] data = JNull then event_data [''TimeGenerated''] data
               else event_data [''@timestamp''] data);
          fmt = (if splunk then ''%Y-%m-%dT%H:%M:%S%.3f%:z''
                 else if splunk_api then ''%Y-%m-%dT%H:%M:%S%.9fZ''
                 else ''%Y-%m-%dT%H:%M:%S%.fZ'')
      in sf_parse_time sf fmt (strip_quotes E v))"

definition is_filtered_record :: "env \<Rightarrow> scan_filter \<Rightarrow> bool \<Rightarrow> bool \<Rightarrow> json \<Rightarrow> bool" where
  "is_filtered_record E sf splunk splunk_api data \<longleftrightarrow>
     is_filtered_computer sf data \<or> is_filtered_by_eid E sf data \<or>
     \<not> is_valid_channel sf data ''Event.EventData.Channel'' \<or>
     \<not> event_time_is_target (sf_time sf) (json_record_time E sf splunk splunk_api data)"

subsection \<open>The shape of a JSON record\<close>

lemma assoc_insert_twice [simp]: "assoc_insert k x (assoc_insert k y m) = assoc_insert k x m"
  by (induction k y m rule: assoc_insert.induct) auto

lemma json_at_simps [simp]: "json_at v [] = v" "json_at v (k # ks) = json_at (json_index v k) ks"
  by (simp_all add: json_at_def)

lemma json_index_object [simp]: "json_index (JObject kvs) k = unwrap_or JNull (map_of kvs k)"
  by (simp add: json_index_def unwrap_or_def)

lemma json_index_other [simp]: "\<not> is_object v \<Longrightarrow> json_index v k = JNull"
  by (cases v) (auto simp: json_index_def)

lemmas normalize_simps = normalize_record_def wrap_event_def is_splunk_json_def fill_system_def provider_object_def Let_def unwrap_or_def

lemma normalize_splunk:
  assumes "map_of kvs ''result'' = Some (JObject rs)"
  shows "normalize_record (wrap_event (JObject kvs)) \<noteq> None"
  using assms by (simp add: normalize_simps)

lemma normalize_object:
  assumes "\<not> is_object (json_index (JObject kvs) ''result'')"
  shows "normalize_record (wrap_event (JObject kvs)) =
    Some (JObject [(''Event'', JObject [(''EventData'', JObject kvs),
      (''System'', JObject (assoc_insert ''Computer'' (json_index (JObject kvs) ''Hostname'')
         (assoc_insert ''Provider_attributes'' (JObject [(''Name'', json_index (JObject kvs) ''SourceName'')])
           (assoc_insert ''EventRecordID'' (json_index (JObject kvs) ''RecordNumber'') kvs)))),
      (''UserData'', JObject kvs)])])"
  using assms by (simp add: normalize_simps)

lemma normalize_array_object: "normalize_record (wrap_event (JArray (JObject kvs # vs))) \<noteq> None"
  by (simp add: normalize_simps)

lemma normalize_panics_array: "\<not> is_object w \<Longrightarrow> normalize_record (wrap_event (JArray (w # vs))) = None"
  by (simp add: normalize_simps)

lemma normalize_panics_other: "\<not> is_object v \<Longrightarrow> \<not> is_array v \<or> v = JArray [] \<Longrightarrow> normalize_record (wrap_event v) = None"
  by (cases v) (auto simp: normalize_simps is_array_def)

lemma normalize_total_object: "normalize_record (wrap_event (JObject kvs)) \<noteq> None"
proof (cases "is_object (json_index (JObject kvs) ''result'')")
  case True
  then obtain rs where "map_of kvs ''result'' = Some (JObject rs)"
    by (cases "map_of kvs ''result''"; cases "json_index (JObject kvs) ''result''") (auto simp: unwrap_or_def)
  then show ?thesis by (rule normalize_splunk)
next
  case False
  then show ?thesis by (simp add: normalize_object del: json_index_object)
qed

text \<open>
  Which records of a JSON file have a normal form, and that of an object that is no answer of Splunk.
\<close>

lemma json_record_normalized:
  "(normalize_record (wrap_event v) = None \<longleftrightarrow> \<not> is_object v \<and> (\<nexists>kvs vs. v = JArray (JObject kvs # vs))) \<and>
   (case v of JObject kvs \<Rightarrow>
      is_object (json_index v ''result'') \<or>
      (\<exists>sys. normalize_record (wrap_event v) =
         Some (JObject [(''Event'', JObject [(''EventData'', v), (''System'', JObject sys), (''UserData'', v)])]) \<and>
        map_of sys = (map_of kvs)(''EventRecordID'' \<mapsto> json_index v ''RecordNumber'',
          ''Provider_attributes'' \<mapsto> JObject [(''Name'', json_index v ''SourceName'')],
          ''Computer'' \<mapsto> json_index v ''Hostname''))
    | _ \<Rightarrow> True)"
proof (cases v)
  case (JObject kvs)
  then show ?thesis using normalize_total_object normalize_object [of kvs] by (auto simp del: json_index_object)
next
  case (JArray vs)
  then show ?thesis
    using normalize_array_object normalize_panics_array normalize_panics_other [of v]
    by (cases vs; cases "hd vs") (auto simp: is_array_def simp del: not_None_eq)
qed (use normalize_panics_other [of v] in \<open>simp_all add: is_array_def\<close>)

text \<open>A row of the Splunk API always gives a record: the parts written to are objects or absent.\<close>

definition api_shape :: "json \<Rightarrow> bool" where
  "api_shape v \<longleftrightarrow> v = JNull \<or> (\<exists>e. v = JObject [(''Event'', JObject e)] \<and>
     (\<forall>k w. map_of e k = Some w \<and> k \<in> {''System'', ''EventData''} \<longrightarrow> is_object w))"

lemma json_set_field:
  assumes "api_shape v" and "s \<in> {''System'', ''EventData''}"
  shows "\<exists>v'. json_set [''Event'', s, k] w v = Some v' \<and> api_shape v'"
proof (cases "v = JNull")
  case True
  with assms(2) show ?thesis by (auto simp: api_shape_def)
next
  case False
  with assms obtain e where v: "v = JObject [(''Event'', JObject e)]"
    and e: "\<And>k w. map_of e k = Some w \<Longrightarrow> k \<in> {''System'', ''EventData''} \<Longrightarrow> is_object w"
    unfolding api_shape_def by blast
  show ?thesis
  proof (cases "map_of e s")
    case None
    with v e assms(2) show ?thesis by (auto simp: api_shape_def unwrap_or_def)
  next
    case (Some x)
    with e [OF this assms(2)] obtain kvs where "x = JObject kvs" by (cases x) auto
    with Some v e assms(2) show ?thesis by (auto simp: api_shape_def unwrap_or_def)
  qed
qed

lemma json_set_user_data: "api_shape v \<Longrightarrow> \<exists>v'. json_set [''Event'', ''UserData''] w v = Some v' \<and> api_shape v'"
  by (auto simp: api_shape_def)

lemma api_fields_set:
  "api_shape v \<Longrightarrow> \<exists>v'. json_assign (api_fields row keys) v = Some v' \<and> api_shape v'"
proof (induction keys arbitrary: v)
  case (Cons ik keys)
  obtain i name where ik: "ik = (i, name)" by (cases ik)
  show ?case
  proof (cases name)
    case (JString k)
    obtain v1 where v1: "json_set [''Event'', ''System'', k] (array_nth row i) v = Some v1" "api_shape v1"
      using json_set_field [OF Cons.prems] by blast
    obtain v2 where v2: "json_set [''Event'', ''EventData'', k] (array_nth row i) v1 = Some v2" "api_shape v2"
      using json_set_field [OF v1(2)] by blast
    from Cons.IH [OF v2(2)] v1(1) v2(1) show ?thesis by (simp add: api_fields_def ik JString)
  qed (use Cons in \<open>simp_all add: api_fields_def ik\<close>)
qed (simp add: api_fields_def)

lemma json_set_provider_name:
  assumes "api_shape v" and "json_set [''Event'', ''System'', ''Provider_attributes''] provider_object v = Some v'"
  shows "json_set [''Event'', ''System'', ''Provider_attributes'', ''Name''] w v' \<noteq> None"
proof (cases "v = JNull")
  case True
  with assms(2) show ?thesis by (auto simp: provider_object_def unwrap_or_def)
next
  case False
  with assms obtain e where v: "v = JObject [(''Event'', JObject e)]"
    and e: "\<And>k w. map_of e k = Some w \<Longrightarrow> k \<in> {''System'', ''EventData''} \<Longrightarrow> is_object w"
    unfolding api_shape_def by blast
  show ?thesis
  proof (cases "map_of e ''System''")
    case None
    with v assms(2) show ?thesis by (auto simp: provider_object_def unwrap_or_def)
  next
    case (Some x)
    with e [OF this] obtain kvs where "x = JObject kvs" by (cases x) auto
    with Some v assms(2) show ?thesis by (auto simp: provider_object_def unwrap_or_def)
  qed
qed

lemma api_record_total: "api_record E sf keys row \<noteq> None"
proof -
  let ?f = "\<lambda>r. sf_show_utc sf (unwrap_or 0 (sf_parse_time sf ''%Y-%m-%dT%H:%M:%S%.9fZ''
    (strip_quotes E (json_at r [''Event'', ''System'', ''SystemTime'']))))"
  have "api_shape JNull" by (simp add: api_shape_def)
  then obtain r where r: "json_assign (api_fields row (zip [0..<length keys] keys)) JNull = Some r" "api_shape r"
    using api_fields_set by blast
  obtain r1 where r1: "json_set [''Event'', ''UserData''] (event_data [] r) r = Some r1" "api_shape r1"
    using json_set_user_data [OF r(2)] by blast
  obtain r2 where r2: "json_set [''Event'', ''EventData'', ''@timestamp''] (JString (?f r)) r1 = Some r2" "api_shape r2"
    using json_set_field [OF r1(2)] by blast
  obtain r3 where r3: "json_set [''Event'', ''System'', ''@timestamp''] (event_data [''@timestamp''] r2) r2 = Some r3" "api_shape r3"
    using json_set_field [OF r2(2)] by blast
  obtain r4 where r4: "json_set [''Event'', ''System'', ''Provider_attributes''] provider_object r3 = Some r4" "api_shape r4"
    using json_set_field [OF r3(2)] by blast
  have r5: "json_set [''Event'', ''System'', ''Provider_attributes'', ''Name''] (event_data [''Name''] r4) r4 \<noteq> None"
    by (rule json_set_provider_name [OF r3(2) r4(1)])
  from r(1) r1(1) r2(1) r3(1) r4(1) r5 show ?thesis by (auto simp add: api_record_def Let_def simp del: json_set.simps)
qed

subsection \<open>Departures\<close>

text \<open>An empty file ends the run.\<close>

lemma empty_json_file_panics: "read_jsonl_to_value parse (Some []) = None"
  by (simp add: read_jsonl_to_value_def)

text \<open>A later line that is not JSON ends the run when it is reached.\<close>

lemma bad_line_panics:
  assumes "parse a = Some v" and "parse b = None" and "trim a \<noteq> []" and "trim b \<noteq> []"
  shows "read_jsonl_to_value parse (Some [Inr a, Inr b]) = Some (Inr [Some (wrap_event v), None])"
  using assms by (simp add: read_jsonl_to_value_def)

text \<open>Two braces inside a value are taken for the border of two records.\<close>

lemma braces_in_value: "jq_text ''{name:x}{y}'' = ''[{name:x},{y}]''"
  by code_simp
end
