(* ===== verification/Scan.thy ===== *)
theory Scan
  imports Scan_Input Search Extract_Base64 Keywords Detection_Facts
begin

section \<open>Analysing the files of a scan (main.rs, timelines.rs)\<close>

text \<open>
  The records of a file are read in blocks, filtered, handed to the time line of the command and to
  the rules. An event file is the list of what its parser gives: records, with a mark for recovered
  ones, or errors. \<open>None\<close> is a panic.
\<close>

datatype scan_action =
    CsvTimeline | JsonTimeline | PivotKeywordsList | EidMetrics | LogonSummary | LogMetrics | ComputerMetrics
  | SearchCommand | ExtractBase64 | ConfigCriticalSystems

record timeline =
  tl_total :: nat
  tl_stats :: event_metrics
  tl_search :: event_search
  tl_base64 :: "string list list"
  tl_critical :: "(computer_type \<times> string list) list"

definition timeline_new :: timeline where
  "timeline_new = \<lparr>tl_total = 0, tl_stats = event_metrics_default, tl_search = event_search_new [], tl_base64 = [], tl_critical = []\<rparr>"

record scan_config =
  sn_action :: scan_action
  sn_filter :: scan_filter
  sn_search :: search_config
  sn_search_option :: search_option
  sn_aho :: aho
  sn_codec :: codec
  sn_base64_time :: "int \<Rightarrow> string"
  sn_output :: output_config
  sn_run :: run_config
  sn_rule_keys :: "string list"
  sn_no_pwsh :: bool
  sn_low_memory :: bool

abbreviation sn_metrics :: "scan_config \<Rightarrow> metrics_config" where
  "sn_metrics sn \<equiv> sf_metrics (sn_filter sn)"

abbreviation sn_alias :: "scan_config \<Rightarrow> alias_config" where
  "sn_alias sn \<equiv> sf_alias (sn_filter sn)"

text \<open>The number of records of a block.\<close>

definition max_detect_records :: nat where
  "max_detect_records = 1000"

text \<open>What a scan carries from file to file; \<open>st_emitted\<close> are the blocks written at once in low-memory mode.\<close>

record scan_state =
  st_rules :: "rule_node list"
  st_log :: "string list"
  st_timeline :: timeline
  st_render :: log_state
  st_pivots :: "(string \<times> pivot_keyword) list"
  st_detections :: "detection_info list"
  st_emitted :: "detection_info list list"
  st_detect_start :: "int option"
  st_detect_end :: "int option"
  st_records :: nat
  st_recovered :: nat

subsection \<open>The time line of a command (Timeline::start)\<close>

definition put_stats :: "scan_state \<Rightarrow> event_metrics \<times> string list \<Rightarrow> scan_state" where
  "put_stats st s = st\<lparr>st_timeline := (st_timeline st)\<lparr>tl_stats := fst s\<rparr>, st_log := snd s\<rparr>"

definition timeline_start :: "env \<Rightarrow> scan_config \<Rightarrow> recinfo list \<Rightarrow> scan_state \<Rightarrow> scan_state option" where
  "timeline_start E sn records st =
     (let tl = st_timeline st; mc = sn_metrics sn; s = (tl_stats tl, st_log st) in
      case sn_action sn of
        EidMetrics \<Rightarrow> map_option (put_stats st) (evt_stats_start E mc True records s)
      | LogonSummary \<Rightarrow> map_option (put_stats st) (logon_stats_start E mc True records s)
      | LogMetrics \<Rightarrow> map_option (put_stats st) (logfile_stats_start E mc True records s)
      | SearchCommand \<Rightarrow>
          map_option (\<lambda>es. st\<lparr>st_timeline := tl\<lparr>tl_search := es\<rparr>\<rparr>)
            (search_start E (sn_aho sn) (sn_search sn) (sn_search_option sn) records (tl_search tl))
      | ExtractBase64 \<Rightarrow>
          map_option (\<lambda>rows. st\<lparr>st_timeline := tl\<lparr>tl_base64 := tl_base64 tl @ rows\<rparr>\<rparr>)
            (process_evtx_record_infos E (sn_codec sn) (sn_base64_time sn) records)
      | ConfigCriticalSystems \<Rightarrow> Some (st\<lparr>st_timeline := tl\<lparr>tl_critical := process_critical records (tl_critical tl)\<rparr>\<rparr>)
      | CsvTimeline \<Rightarrow> Some (put_stats st (stats_time_cnt E mc records s))
      | JsonTimeline \<Rightarrow> Some (put_stats st (stats_time_cnt E mc records s))
      | _ \<Rightarrow> Some st)"

subsection \<open>Detection on a block (Detection::start)\<close>

text \<open>What the rules emit: pivot keywords go to their table, reports become detections.\<close>

fun emit_all ::
  "env \<Rightarrow> scan_config \<Rightarrow> emitted list \<Rightarrow> log_state \<Rightarrow> (string \<times> pivot_keyword) list \<Rightarrow>
   (detection_info list \<times> log_state \<times> (string \<times> pivot_keyword) list) option" where
  "emit_all E sn [] ls pivots = Some ([], ls, pivots)"
| "emit_all E sn (PivotKeywords r # es) ls pivots =
     emit_all E sn es ls (insert_pivot_keyword E (sn_alias sn) (rec_data r) pivots)"
| "emit_all E sn (Report d # es) ls pivots =
     Option.bind (render E (sn_aho sn) (sn_output sn) d ls) (\<lambda>(info, ls').
       map_option (\<lambda>(infos, s). (info # infos, s)) (emit_all E sn es ls' pivots))"

definition detection_start ::
  "env \<Rightarrow> scan_config \<Rightarrow> recinfo list \<Rightarrow> scan_state \<Rightarrow> (detection_info list \<times> scan_state) option" where
  "detection_start E sn records st =
     Option.bind (execute_rules E (sn_alias sn) (sn_run sn) (st_rules st) records (st_log st)) (\<lambda>(rules, es, log).
       map_option (\<lambda>(infos, ls, pivots). (infos, st\<lparr>st_rules := rules, st_log := log, st_render := ls, st_pivots := pivots\<rparr>))
         (emit_all E sn es (st_render st) (st_pivots st)))"

text \<open>The first and last time of the detections; \<open>minmax\<close> answers \<open>MinMax\<close> only for two or more.\<close>

definition update_detect_times :: "detection_info list \<Rightarrow> scan_state \<Rightarrow> scan_state" where
  "update_detect_times infos st =
     (case map detected_time infos of
        t1 # t2 # ts \<Rightarrow>
          (let lo = Min (set (t1 # t2 # ts)); hi = Max (set (t1 # t2 # ts))
           in st\<lparr>st_detect_start := (case st_detect_start st of None \<Rightarrow> Some lo | Some b \<Rightarrow> Some (if b > lo then lo else b)),
                 st_detect_end := (case st_detect_end st of None \<Rightarrow> Some hi | Some b \<Rightarrow> Some (if b < hi then hi else b))\<rparr>)
      | _ \<Rightarrow> st)"

definition store_detections :: "scan_config \<Rightarrow> detection_info list \<Rightarrow> scan_state \<Rightarrow> scan_state" where
  "store_detections sn infos st =
     (if sn_low_memory sn then st\<lparr>st_emitted := st_emitted st @ [infos]\<rparr>
      else st\<lparr>st_detections := st_detections st @ infos\<rparr>)"

definition create_rec_infos :: "env \<Rightarrow> scan_config \<Rightarrow> string \<Rightarrow> (json \<times> bool) list \<Rightarrow> recinfo list" where
  "create_rec_infos E sn path records_per_detect =
     map (\<lambda>(rec, recovered). create_rec_info E (sn_alias sn) rec path (sn_rule_keys sn) recovered (sn_no_pwsh sn)) records_per_detect"

definition evtx_block :: "env \<Rightarrow> scan_config \<Rightarrow> string \<Rightarrow> (json \<times> bool) list \<Rightarrow> scan_state \<Rightarrow> scan_state option" where
  "evtx_block E sn path blk st =
     (let records = create_rec_infos E sn path blk in
      Option.bind (timeline_start E sn records st) (\<lambda>st1.
        if sn_action sn \<in> {CsvTimeline, JsonTimeline, PivotKeywordsList}
        then map_option (\<lambda>(infos, st2). store_detections sn infos (update_detect_times infos st2)) (detection_start E sn records st1)
        else Some st1))"

definition json_block :: "env \<Rightarrow> scan_config \<Rightarrow> string \<Rightarrow> (json \<times> bool) list \<Rightarrow> scan_state \<Rightarrow> scan_state option" where
  "json_block E sn path blk st =
     (let records = create_rec_infos E sn path blk in
      Option.bind (timeline_start E sn records st) (\<lambda>st1.
        if sn_action sn \<in> {EidMetrics, LogonSummary, LogMetrics, SearchCommand} then Some st1
        else map_option (\<lambda>(infos, st2). store_detections sn infos st2) (detection_start E sn records st1)))"

subsection \<open>Blocks\<close>

text \<open>
  Records are taken until the block is full or none is left; a record adds to the block what its step
  says. Blocks are handled until one stays empty.
\<close>

fun fill_block ::
  "nat \<Rightarrow> ('r \<Rightarrow> 's \<Rightarrow> ('x list \<times> 's) option) \<Rightarrow> 'r list \<Rightarrow> 'x list \<Rightarrow> 's \<Rightarrow> ('x list \<times> 'r list \<times> 's) option" where
  "fill_block n step [] blk s = Some (blk, [], s)"
| "fill_block n step (r # rs) blk s =
     (if n \<le> length blk then Some (blk, r # rs, s)
      else Option.bind (step r s) (\<lambda>(xs, s'). fill_block n step rs (blk @ xs) s'))"

lemma fill_block_rest: "fill_block n step rs blk s = Some (blk', rs', s') \<Longrightarrow> \<exists>used. rs = used @ rs' \<and> (used = [] \<longrightarrow> blk' = blk)"
proof (induction rs arbitrary: blk s)
  case (Cons r rs)
  show ?case
  proof (cases "n \<le> length blk")
    case False
    with Cons.prems obtain xs s1 where "fill_block n step rs (blk @ xs) s1 = Some (blk', rs', s')"
      by (auto simp: bind_eq_Some_conv)
    from Cons.IH [OF this] obtain used where "rs = used @ rs'" by blast
    then show ?thesis by (intro exI [of _ "r # used"]) simp
  qed (use Cons.prems in simp)
qed simp

function run_blocks ::
  "nat \<Rightarrow> ('r \<Rightarrow> 's \<Rightarrow> ('x list \<times> 's) option) \<Rightarrow> ('x list \<Rightarrow> 's \<Rightarrow> 's option) \<Rightarrow> 'r list \<Rightarrow> 's \<Rightarrow> 's option" where
  "run_blocks n step handle rs s =
     (case fill_block n step rs [] s of
        None \<Rightarrow> None
      | Some (blk, rs', s') \<Rightarrow>
          (if blk = [] then Some s' else Option.bind (handle blk s') (run_blocks n step handle rs')))"
  by pat_completeness auto
termination
  by (relation "measure (\<lambda>(n, step, handle, rs, s). length rs)") (auto dest!: fill_block_rest)

subsection \<open>Event files\<close>

datatype evtx_record = ParsedRecord json bool | FailedRecord string

definition evtx_failure :: "scan_config \<Rightarrow> string \<Rightarrow> string \<Rightarrow> string \<Rightarrow> string list \<Rightarrow> string list" where
  "evtx_failure sn what path e log =
     (if quiet_errors (sn_run sn) then log
      else log @ [''[ERROR] Failed to '' @ what @ '' event file.'' @ [CHR 0x0A] @ ''EventFile: '' @ path @ [CHR 0x0A] @
                  ''Error: '' @ e @ [CHR 0x0A]])"

definition count_record :: "bool \<Rightarrow> scan_state \<Rightarrow> scan_state" where
  "count_record recovered st =
     st\<lparr>st_records := st_records st + 1, st_recovered := st_recovered st + (if recovered then 1 else 0)\<rparr>"

definition count_computer :: "env \<Rightarrow> scan_config \<Rightarrow> json \<Rightarrow> scan_state \<Rightarrow> scan_state option" where
  "count_computer E sn data st =
     map_option (\<lambda>em. st\<lparr>st_timeline := (st_timeline st)\<lparr>tl_stats := em\<rparr>\<rparr>)
       (countup_event_by_computer E (sn_metrics sn) data (tl_stats (st_timeline st)))"

definition evtx_step ::
  "env \<Rightarrow> scan_config \<Rightarrow> string \<Rightarrow> evtx_record \<Rightarrow> scan_state \<Rightarrow> ((json \<times> bool) list \<times> scan_state) option" where
  "evtx_step E sn path r st =
     (case r of
        FailedRecord e \<Rightarrow>
          Some ([], (count_record False st)\<lparr>st_log := evtx_failure sn ''parse'' path e (st_log st)\<rparr>)
      | ParsedRecord data recovered \<Rightarrow>
          (let st1 = count_record recovered st in
           if sn_action sn = ComputerMetrics then map_option (\<lambda>st2. ([], st2)) (count_computer E sn data st1)
           else if evtx_filtered E (sn_filter sn) (sn_action sn = SearchCommand) data then Some ([], st1)
           else Some ([(data, recovered)], st1)))"

definition add_total :: "nat \<Rightarrow> scan_state \<Rightarrow> scan_state" where
  "add_total before st =
     st\<lparr>st_timeline := (st_timeline st)\<lparr>tl_total := tl_total (st_timeline st) + (st_records st - before)\<rparr>\<rparr>"

definition analysis_file ::
  "env \<Rightarrow> scan_config \<Rightarrow> string \<Rightarrow> string + evtx_record list \<Rightarrow> scan_state \<Rightarrow> scan_state option" where
  "analysis_file E sn path parser st =
     (case parser of
        Inl e \<Rightarrow> Some (st\<lparr>st_log := evtx_failure sn ''open'' path e (st_log st)\<rparr>)
      | Inr records \<Rightarrow>
          map_option (add_total (st_records st)) (run_blocks max_detect_records (evtx_step E sn path) (evtx_block E sn path) records st))"

subsection \<open>JSON files\<close>

text \<open>The rows of a Splunk answer, which are counted for the computers and still analysed.\<close>

fun api_rows ::
  "env \<Rightarrow> scan_config \<Rightarrow> bool \<Rightarrow> json list \<Rightarrow> json list \<Rightarrow> scan_state \<Rightarrow> ((json \<times> bool) list \<times> scan_state) option" where
  "api_rows E sn splunk keys [] st = Some ([], st)"
| "api_rows E sn splunk keys (row # rows) st =
     Option.bind (api_record E (sn_filter sn) keys row) (\<lambda>rec.
     Option.bind (if sn_action sn = ComputerMetrics then count_computer E sn rec st else Some st) (\<lambda>st1.
       map_option (\<lambda>(xs, st2). ((if is_filtered_record E (sn_filter sn) splunk True rec then [] else [(rec, False)]) @ xs, st2))
         (api_rows E sn splunk keys rows st1)))"

definition json_step ::
  "env \<Rightarrow> scan_config \<Rightarrow> json option \<Rightarrow> scan_state \<Rightarrow> ((json \<times> bool) list \<times> scan_state) option" where
  "json_step E sn line st =
     (case line of
        None \<Rightarrow> None
      | Some data \<Rightarrow>
          (if is_splunk_api_json data
           then (let rows = array_of (event_data [''rows''] data)
                 in api_rows E sn (is_splunk_json data) (array_of (event_data [''fields''] data)) rows
                      (st\<lparr>st_records := st_records st + length rows\<rparr>))
           else Option.bind (normalize_record data) (\<lambda>rec.
             (let st1 = count_record False st in
              if sn_action sn = ComputerMetrics then map_option (\<lambda>st2. ([], st2)) (count_computer E sn rec st1)
              else if is_filtered_record E (sn_filter sn) (is_splunk_json data) False rec then Some ([], st1)
              else Some ([(rec, False)], st1)))))"

text \<open>A file is tried as one record a line, then as an array or a sequence of objects.\<close>

definition json_records ::
  "(string \<Rightarrow> string + json) \<Rightarrow> (string + string) list option \<Rightarrow> string option \<Rightarrow> (string + json option list) option" where
  "json_records parse ls contents =
     (case read_jsonl_to_value (\<lambda>s. case parse s of Inl _ \<Rightarrow> None | Inr v \<Rightarrow> Some v) ls of
        None \<Rightarrow> None
      | Some (Inr vs) \<Rightarrow> Some (Inr vs)
      | Some (Inl _) \<Rightarrow> map_option (map_sum id (map Some)) (read_json_to_value parse contents))"

definition analysis_json_file ::
  "env \<Rightarrow> scan_config \<Rightarrow> (string \<Rightarrow> string + json) \<Rightarrow> string \<Rightarrow> (string + string) list option \<Rightarrow> string option \<Rightarrow>
   scan_state \<Rightarrow> scan_state option" where
  "analysis_json_file E sn parse path ls contents st =
     (case json_records parse ls contents of
        None \<Rightarrow> None
      | Some (Inl e) \<Rightarrow> Some st
      | Some (Inr vs) \<Rightarrow>
          map_option (add_total (st_records st)) (run_blocks max_detect_records (json_step E sn) (json_block E sn path) vs st))"

subsection \<open>The files of a scan\<close>

datatype scan_file = EventLog string "string + evtx_record list" | JsonLog string "(string + string) list option" "string option"

fun analysis_loop ::
  "env \<Rightarrow> scan_config \<Rightarrow> (string \<Rightarrow> string + json) \<Rightarrow> scan_file list \<Rightarrow> scan_state \<Rightarrow> scan_state option" where
  "analysis_loop E sn parse [] st = Some st"
| "analysis_loop E sn parse (EventLog path recs # fs) st =
     Option.bind (analysis_file E sn path recs st) (analysis_loop E sn parse fs)"
| "analysis_loop E sn parse (JsonLog path ls contents # fs) st =
     Option.bind (analysis_json_file E sn parse path ls contents st) (analysis_loop E sn parse fs)"

text \<open>After the files, the rules that count and correlate add their detections.\<close>

fun render_all ::
  "env \<Rightarrow> scan_config \<Rightarrow> detect_info list \<Rightarrow> log_state \<Rightarrow> (detection_info list \<times> log_state) option" where
  "render_all E sn [] ls = Some ([], ls)"
| "render_all E sn (d # ds) ls =
     Option.bind (render E (sn_aho sn) (sn_output sn) d ls) (\<lambda>(info, ls1).
       map_option (\<lambda>(infos, ls2). (info # infos, ls2)) (render_all E sn ds ls1))"

definition analysis_files ::
  "env \<Rightarrow> scan_config \<Rightarrow> (string \<Rightarrow> string + json) \<Rightarrow> scan_file list \<Rightarrow> scan_state \<Rightarrow> scan_state option" where
  "analysis_files E sn parse fs st =
     Option.bind (analysis_loop E sn parse fs st) (\<lambda>st1.
       if sn_action sn \<in> {CsvTimeline, JsonTimeline}
       then Option.bind (add_aggcondition_msg (st_rules st1)) (\<lambda>ds.
         map_option (\<lambda>(infos, ls). store_detections sn infos (st1\<lparr>st_render := ls\<rparr>)) (render_all E sn ds (st_render st1)))
       else Some st1)"

end
