(* ===== verification/Scan_Facts.thy ===== *)
theory Scan_Facts
  imports Scan
begin

section \<open>What a scan sees\<close>

text \<open>
  The blocks of a scan are an implementation detail: the rules end as if they had been run once over
  all records that pass the filters, in order, and every record of the file is counted once. The
  two locales hold the argument for any step and any handler of blocks; they are interpreted for event
  files and for JSON files.
\<close>

subsection \<open>Blocks\<close>

lemma run_blocks_induct [case_names block]:
  assumes "\<And>rs s. (\<And>blk rs' s' s1. fill_block n step rs [] s = Some (blk, rs', s') \<Longrightarrow> blk \<noteq> [] \<Longrightarrow> P rs' s1) \<Longrightarrow> P rs s"
  shows "P rs s"
proof (induction "length rs" arbitrary: rs s rule: less_induct)
  case less
  show ?case by (rule assms, rule less) (auto dest!: fill_block_rest)
qed

lemma fill_block_grows: "fill_block n step rs xs s = Some (blk, rs', s') \<Longrightarrow> length xs \<le> length blk"
  by (induction rs arbitrary: xs s) (auto simp: bind_eq_Some_conv split: if_splits, force)

lemma fill_block_stops: "0 < n \<Longrightarrow> fill_block n step rs [] s = Some ([], rs', s') \<Longrightarrow> rs' = []"
proof (induction rs arbitrary: s)
  case (Cons r rs)
  then obtain xs s1 where f: "fill_block n step rs xs s1 = Some ([], rs', s')" by (auto simp: bind_eq_Some_conv)
  with fill_block_grows [OF f] Cons show ?case by simp
qed simp

declare run_blocks.simps [simp del]

locale block_run =
  fixes step :: "'r \<Rightarrow> 's \<Rightarrow> ('x list \<times> 's) option"
    and handle :: "'x list \<Rightarrow> 's \<Rightarrow> 's option"
    and accepted :: "'r \<Rightarrow> 'x list"
    and view :: "'s \<Rightarrow> 'a"
    and effect :: "'x list \<Rightarrow> 'a \<Rightarrow> 'a \<Rightarrow> bool"
  assumes step_view: "step r s = Some (xs, s') \<Longrightarrow> xs = accepted r \<and> view s' = view s"
    and handle_effect: "handle blk s = Some s' \<Longrightarrow> effect blk (view s) (view s')"
    and effect_Nil: "effect [] a a"
    and effect_append: "effect xs a b \<Longrightarrow> effect ys b c \<Longrightarrow> effect (xs @ ys) a c"
begin

lemma fill_block_view:
  "fill_block n step rs blk s = Some (blk', rs', s') \<Longrightarrow>
    \<exists>used. rs = used @ rs' \<and> blk' = blk @ concat (map accepted used) \<and> view s' = view s"
proof (induction rs arbitrary: blk s)
  case (Cons r rs)
  show ?case
  proof (cases "n \<le> length blk")
    case False
    with Cons.prems obtain xs s1 where s1: "step r s = Some (xs, s1)"
      and f: "fill_block n step rs (blk @ xs) s1 = Some (blk', rs', s')" by (auto simp: bind_eq_Some_conv)
    from Cons.IH [OF f] obtain used where
      "rs = used @ rs' \<and> blk' = (blk @ xs) @ concat (map accepted used) \<and> view s' = view s1" by blast
    with step_view [OF s1] show ?thesis by (intro exI [of _ "r # used"]) simp
  qed (use Cons.prems in simp)
qed simp

lemma run_blocks_effect:
  "0 < n \<Longrightarrow> run_blocks n step handle rs s = Some s' \<Longrightarrow> effect (concat (map accepted rs)) (view s) (view s')"
proof (induction rs s rule: run_blocks_induct [where n = n and step = step])
  case (block rs s)
  from block.prems(2) obtain blk rs' s1 where f: "fill_block n step rs [] s = Some (blk, rs', s1)"
    by (subst (asm) run_blocks.simps) (auto split: option.splits)
  from fill_block_view [OF f] obtain used where used: "rs = used @ rs'" "blk = concat (map accepted used)" "view s1 = view s"
    by auto
  show ?case
  proof (cases "blk = []")
    case True
    with f fill_block_stops [OF block.prems(1)] have "rs' = []" by simp
    moreover have "s' = s1" using block.prems(2) f True by (simp add: run_blocks.simps [of n step handle rs])
    ultimately show ?thesis using used True effect_Nil by (metis append_Nil2)
  next
    case False
    with block.prems(2) f obtain s2 where h: "handle blk s1 = Some s2" and r: "run_blocks n step handle rs' s2 = Some s'"
      by (auto simp: run_blocks.simps [of n step handle rs] bind_eq_Some_conv)
    from effect_append [OF handle_effect [OF h] block.IH [OF f False block.prems(1) r]] used show ?thesis by simp
  qed
qed

end

locale block_count =
  fixes step :: "'r \<Rightarrow> 's \<Rightarrow> ('x list \<times> 's) option"
    and handle :: "'x list \<Rightarrow> 's \<Rightarrow> 's option"
    and weight :: "'r \<Rightarrow> nat"
    and total :: "'s \<Rightarrow> nat"
  assumes step_total: "step r s = Some (xs, s') \<Longrightarrow> total s' = total s + weight r"
    and handle_total: "handle blk s = Some s' \<Longrightarrow> total s' = total s"
begin

lemma fill_block_total:
  "fill_block n step rs blk s = Some (blk', rs', s') \<Longrightarrow> total s' + sum_list (map weight rs') = total s + sum_list (map weight rs)"
proof (induction rs arbitrary: blk s)
  case (Cons r rs)
  then show ?case
    by (cases "n \<le> length blk") (auto simp: bind_eq_Some_conv dest!: step_total)
qed simp

lemma run_blocks_total:
  "0 < n \<Longrightarrow> run_blocks n step handle rs s = Some s' \<Longrightarrow> total s' = total s + sum_list (map weight rs)"
proof (induction rs s rule: run_blocks_induct [where n = n and step = step])
  case (block rs s)
  from block.prems(2) obtain blk rs' s1 where f: "fill_block n step rs [] s = Some (blk, rs', s1)"
    by (subst (asm) run_blocks.simps) (auto split: option.splits)
  show ?case
  proof (cases "blk = []")
    case True
    with f fill_block_stops [OF block.prems(1)] have "rs' = []" by simp
    moreover have "s' = s1" using block.prems(2) f True by (simp add: run_blocks.simps [of n step handle rs])
    ultimately show ?thesis using fill_block_total [OF f] by simp
  next
    case False
    with block.prems(2) f obtain s2 where h: "handle blk s1 = Some s2" and r: "run_blocks n step handle rs' s2 = Some s'"
      by (auto simp: run_blocks.simps [of n step handle rs] bind_eq_Some_conv)
    from block.IH [OF f False block.prems(1) r] handle_total [OF h] fill_block_total [OF f] show ?thesis by simp
  qed
qed

end

subsection \<open>Rules over records in parts\<close>

definition rule_ran :: "env \<Rightarrow> scan_config \<Rightarrow> recinfo list \<Rightarrow> rule_node \<Rightarrow> rule_node \<Rightarrow> bool" where
  "rule_ran E sn records rule rule' \<longleftrightarrow>
     (\<exists>es log. execute_rule E (sn_alias sn) (sn_run sn) rule records [] = Some (rule', es, log))"

lemma execute_loop_keeps_agg: "execute_loop E c cfg agg rule rs log = Some (rule', es, log') \<Longrightarrow> has_agg_condition rule' = has_agg_condition rule"
proof (induction rs arbitrary: rule log es)
  case (Cons r rs)
  then show ?case
    by (fastforce simp: bind_eq_Some_conv execute_record_def has_agg_condition_def dest!: rule_select_keeps)
qed simp

lemma execute_loop_append:
  assumes "execute_loop E c cfg agg rule xs [] = Some (rule1, es1, l1)" and "execute_loop E c cfg agg rule1 ys [] = Some (rule2, es2, l2)"
  shows "\<exists>es l. execute_loop E c cfg agg rule (xs @ ys) [] = Some (rule2, es, l)"
proof -
  have "execute_loop E c cfg agg rule xs log = Some (rule1, es, l) \<Longrightarrow>
    \<exists>es' l'. execute_loop E c cfg agg rule (xs @ ys) log = Some (rule2, es', l')" for xs rule log es l
  proof (induction xs arbitrary: rule log es)
    case Nil
    with assms(2) show ?case using execute_loop_log [of E c cfg agg rule1 ys log] by simp
  next
    case (Cons x xs)
    then show ?case by (fastforce simp: bind_eq_Some_conv)
  qed
  with assms(1) show ?thesis by blast
qed

lemma rule_ran_append: "rule_ran E sn xs a b \<Longrightarrow> rule_ran E sn ys b c \<Longrightarrow> rule_ran E sn (xs @ ys) a c"
proof -
  assume "rule_ran E sn xs a b" "rule_ran E sn ys b c"
  then obtain es1 l1 es2 l2 where
    "execute_loop E (sn_alias sn) (sn_run sn) (has_agg_condition a) a xs [] = Some (b, es1, l1)"
    "execute_loop E (sn_alias sn) (sn_run sn) (has_agg_condition b) b ys [] = Some (c, es2, l2)"
    unfolding rule_ran_def execute_rule_def by blast
  then show ?thesis unfolding rule_ran_def execute_rule_def
    using execute_loop_append execute_loop_keeps_agg [of E "sn_alias sn" "sn_run sn" _ a xs "[]" b] by auto
qed

lemma execute_rules_after:
  "execute_rules E (sn_alias sn) (sn_run sn) rules records log = Some (rules', es, log') \<Longrightarrow> list_all2 (rule_ran E sn records) rules rules'"
proof (induction rules arbitrary: log es rules')
  case (Cons rule rules)
  then obtain rule' es1 l1 rules1 es2 where "execute_rule E (sn_alias sn) (sn_run sn) rule records log = Some (rule', es1, l1)"
    and rest: "execute_rules E (sn_alias sn) (sn_run sn) rules records l1 = Some (rules1, es2, log')" and "rules' = rule' # rules1"
    by (auto simp: bind_eq_Some_conv)
  moreover from this(1) have "rule_ran E sn records rule rule'"
    unfolding rule_ran_def execute_rule_def by (subst (asm) execute_loop_log) auto
  ultimately show ?case using Cons.IH [OF rest] by simp
qed simp

subsection \<open>Event files\<close>

definition detects :: "scan_config \<Rightarrow> bool" where
  "detects sn \<longleftrightarrow> sn_action sn \<in> {CsvTimeline, JsonTimeline, PivotKeywordsList}"

definition evtx_accepted :: "env \<Rightarrow> scan_config \<Rightarrow> evtx_record \<Rightarrow> (json \<times> bool) list" where
  "evtx_accepted E sn r =
     (case r of
        FailedRecord e \<Rightarrow> []
      | ParsedRecord data recovered \<Rightarrow>
          (if sn_action sn = ComputerMetrics \<or> evtx_filtered E (sn_filter sn) (sn_action sn = SearchCommand) data then []
           else [(data, recovered)]))"

definition rules_after :: "env \<Rightarrow> scan_config \<Rightarrow> bool \<Rightarrow> string \<Rightarrow> (json \<times> bool) list \<Rightarrow> rule_node list \<Rightarrow> rule_node list \<Rightarrow> bool" where
  "rules_after E sn runs path blk rules rules' \<longleftrightarrow>
     (if runs then list_all2 (rule_ran E sn (create_rec_infos E sn path blk)) rules rules' else rules' = rules)"

lemma state_simps [simp]:
  "st_rules (put_stats st s) = st_rules st" "st_records (put_stats st s) = st_records st" "st_recovered (put_stats st s) = st_recovered st"
  "st_rules (count_record b st) = st_rules st" "st_records (count_record b st) = st_records st + 1"
  "st_rules (update_detect_times infos st) = st_rules st" "st_records (update_detect_times infos st) = st_records st"
  "st_rules (store_detections sn infos st) = st_rules st" "st_records (store_detections sn infos st) = st_records st"
  by (auto simp: put_stats_def count_record_def update_detect_times_def store_detections_def Let_def split: list.splits)

lemma timeline_start_keeps:
  "timeline_start E sn records st = Some st' \<Longrightarrow> st_rules st' = st_rules st \<and> st_records st' = st_records st"
  by (auto simp: timeline_start_def Let_def split: scan_action.splits)

lemma count_computer_keeps:
  "count_computer E sn data st = Some st' \<Longrightarrow> st_rules st' = st_rules st \<and> st_records st' = st_records st"
  by (auto simp: count_computer_def)

lemma detection_start_after:
  "detection_start E sn records st = Some (infos, st') \<Longrightarrow>
    list_all2 (rule_ran E sn records) (st_rules st) (st_rules st') \<and> st_records st' = st_records st"
  by (auto simp: detection_start_def bind_eq_Some_conv dest!: execute_rules_after)

lemma rules_after_Nil: "rules_after E sn runs path [] rules rules"
  by (auto simp: rules_after_def rule_ran_def create_rec_infos_def execute_rule_def intro: list.rel_refl)

lemma rules_after_append:
  assumes "rules_after E sn runs path xs a b" and "rules_after E sn runs path ys b c"
  shows "rules_after E sn runs path (xs @ ys) a c"
proof (cases runs)
  case True
  let ?X = "create_rec_infos E sn path xs" and ?Y = "create_rec_infos E sn path ys"
  from True assms have "list_all2 (rule_ran E sn ?X) a b" "list_all2 (rule_ran E sn ?Y) b c"
    by (simp_all add: rules_after_def)
  with list_all2_trans [of "rule_ran E sn ?X" "rule_ran E sn ?Y" "rule_ran E sn (?X @ ?Y)" a b c] rule_ran_append
  have "list_all2 (rule_ran E sn (?X @ ?Y)) a c" by blast
  with True show ?thesis by (simp add: rules_after_def create_rec_infos_def)
next
  case False
  with assms show ?thesis by (simp add: rules_after_def)
qed

lemma evtx_step_view:
  assumes "evtx_step E sn path r st = Some (xs, st')"
  shows "xs = evtx_accepted E sn r \<and> st_rules st' = st_rules st \<and> st_records st' = st_records st + 1"
proof (cases r)
  case (ParsedRecord data recovered)
  show ?thesis
  proof (cases "sn_action sn = ComputerMetrics")
    case True
    with assms ParsedRecord obtain st2 where "count_computer E sn data (count_record recovered st) = Some st2" "xs = []" "st' = st2"
      by (auto simp: evtx_step_def)
    with count_computer_keeps [OF this(1)] True ParsedRecord show ?thesis by (simp add: evtx_accepted_def)
  qed (use assms ParsedRecord in \<open>auto simp: evtx_step_def evtx_accepted_def split: if_splits\<close>)
qed (use assms in \<open>auto simp: evtx_step_def evtx_accepted_def\<close>)

lemma evtx_block_after:
  assumes "evtx_block E sn path blk st = Some st'"
  shows "rules_after E sn (detects sn) path blk (st_rules st) (st_rules st') \<and> st_records st' = st_records st"
proof -
  let ?records = "create_rec_infos E sn path blk"
  from assms obtain st1 where t: "timeline_start E sn ?records st = Some st1"
    and r: "(if detects sn
        then map_option (\<lambda>(infos, st2). store_detections sn infos (update_detect_times infos st2)) (detection_start E sn ?records st1)
        else Some st1) = Some st'"
    by (auto simp: evtx_block_def detects_def Let_def bind_eq_Some_conv)
  show ?thesis
  proof (cases "detects sn")
    case True
    with r obtain infos st2 where d: "detection_start E sn ?records st1 = Some (infos, st2)"
      and "st' = store_detections sn infos (update_detect_times infos st2)" by auto
    with timeline_start_keeps [OF t] detection_start_after [OF d] True show ?thesis by (simp add: rules_after_def)
  next
    case False
    with r timeline_start_keeps [OF t] show ?thesis by (simp add: rules_after_def)
  qed
qed

interpretation evtx_run: block_run "evtx_step E sn path" "evtx_block E sn path" "evtx_accepted E sn" st_rules "rules_after E sn (detects sn) path"
  for E sn path
  by unfold_locales (auto dest: evtx_step_view evtx_block_after intro: rules_after_Nil rules_after_append)

interpretation evtx_count: block_count "evtx_step E sn path" "evtx_block E sn path" "\<lambda>_. 1" st_records
  for E sn path
  by unfold_locales (auto dest: evtx_step_view evtx_block_after)

text \<open>
  C22: The blocks of a scan do not matter. Whatever the size of the blocks, after the records of an
  event file every rule is in the state it reaches when it runs once over all records that parse and
  pass the filters, in their order, and every record of the file was counted.
\<close>

theorem evtx_blocks_do_not_matter:
  assumes "sn_action sn \<in> {CsvTimeline, JsonTimeline, PivotKeywordsList}" and "0 < n"
    and "run_blocks n (evtx_step E sn path) (evtx_block E sn path) records st = Some st'"
  shows "list_all2 (\<lambda>rule rule'. \<exists>es log. execute_rule E (sn_alias sn) (sn_run sn) rule
      (concat (map (\<lambda>r. case r of
           FailedRecord _ \<Rightarrow> []
         | ParsedRecord data recovered \<Rightarrow>
             if evtx_filtered E (sn_filter sn) False data then []
             else [create_rec_info E (sn_alias sn) data path (sn_rule_keys sn) recovered (sn_no_pwsh sn)]) records))
      [] = Some (rule', es, log)) (st_rules st) (st_rules st') \<and>
    st_records st' = st_records st + length records"
proof -
  have "create_rec_infos E sn path (concat (map (evtx_accepted E sn) records)) =
    concat (map (\<lambda>r. case r of
         FailedRecord _ \<Rightarrow> []
       | ParsedRecord data recovered \<Rightarrow>
           if evtx_filtered E (sn_filter sn) False data then []
           else [create_rec_info E (sn_alias sn) data path (sn_rule_keys sn) recovered (sn_no_pwsh sn)]) records)"
    using assms(1) by (induction records) (auto simp: create_rec_infos_def evtx_accepted_def split: evtx_record.splits)
  with evtx_run.run_blocks_effect [OF assms(2,3)] evtx_count.run_blocks_total [OF assms(2,3)] assms(1)
  show ?thesis by (simp add: rules_after_def detects_def sum_list_triv rule_ran_def [abs_def])
qed

subsection \<open>JSON files\<close>

definition json_detects :: "scan_config \<Rightarrow> bool" where
  "json_detects sn \<longleftrightarrow> sn_action sn \<notin> {EidMetrics, LogonSummary, LogMetrics, SearchCommand}"

definition kept_record :: "env \<Rightarrow> scan_config \<Rightarrow> bool \<Rightarrow> bool \<Rightarrow> json option \<Rightarrow> (json \<times> bool) list" where
  "kept_record E sn splunk api rec =
     (case rec of None \<Rightarrow> [] | Some rec \<Rightarrow> if is_filtered_record E (sn_filter sn) splunk api rec then [] else [(rec, False)])"

definition json_accepted :: "env \<Rightarrow> scan_config \<Rightarrow> json option \<Rightarrow> (json \<times> bool) list" where
  "json_accepted E sn line =
     (case line of
        None \<Rightarrow> []
      | Some data \<Rightarrow>
          (if is_splunk_api_json data
           then concat (map (\<lambda>row. kept_record E sn (is_splunk_json data) True
                  (api_record E (sn_filter sn) (array_of (event_data [''fields''] data)) row)) (array_of (event_data [''rows''] data)))
           else if sn_action sn = ComputerMetrics then []
           else kept_record E sn (is_splunk_json data) False (normalize_record data)))"

definition json_weight :: "json option \<Rightarrow> nat" where
  "json_weight line =
     (case line of
        Some data \<Rightarrow> if is_splunk_api_json data then length (array_of (event_data [''rows''] data)) else 1
      | None \<Rightarrow> 1)"

lemma api_rows_view:
  "api_rows E sn splunk keys rows st = Some (xs, st') \<Longrightarrow>
    xs = concat (map (\<lambda>row. kept_record E sn splunk True (api_record E (sn_filter sn) keys row)) rows) \<and>
    st_rules st' = st_rules st \<and> st_records st' = st_records st"
proof (induction rows arbitrary: st xs)
  case (Cons row rows)
  then obtain rec st1 ys where "api_record E (sn_filter sn) keys row = Some rec"
    and c: "(if sn_action sn = ComputerMetrics then count_computer E sn rec st else Some st) = Some st1"
    and r: "api_rows E sn splunk keys rows st1 = Some (ys, st')"
    and "xs = (if is_filtered_record E (sn_filter sn) splunk True rec then [] else [(rec, False)]) @ ys"
    by (auto simp: bind_eq_Some_conv)
  moreover have "st_rules st1 = st_rules st \<and> st_records st1 = st_records st"
    using c count_computer_keeps by (auto split: if_splits)
  ultimately show ?case using Cons.IH [OF r] by (simp add: kept_record_def)
qed simp

lemma json_step_view:
  assumes "json_step E sn line st = Some (xs, st')"
  shows "xs = json_accepted E sn line \<and> st_rules st' = st_rules st \<and> st_records st' = st_records st + json_weight line"
proof (cases line)
  case (Some data)
  show ?thesis
  proof (cases "is_splunk_api_json data")
    case True
    with assms Some have "api_rows E sn (is_splunk_json data) (array_of (event_data [''fields''] data)) (array_of (event_data [''rows''] data))
        (st\<lparr>st_records := st_records st + length (array_of (event_data [''rows''] data))\<rparr>) = Some (xs, st')"
      by (simp add: json_step_def Let_def)
    from api_rows_view [OF this] show ?thesis using True Some by (simp add: json_accepted_def json_weight_def)
  next
    case False
    with assms Some obtain rec where n: "normalize_record data = Some rec"
      and r: "(if sn_action sn = ComputerMetrics then map_option (\<lambda>st2. ([], st2)) (count_computer E sn rec (count_record False st))
        else if is_filtered_record E (sn_filter sn) (is_splunk_json data) False rec then Some ([], count_record False st)
        else Some ([(rec, False)], count_record False st)) = Some (xs, st')"
      by (auto simp: json_step_def Let_def bind_eq_Some_conv)
    show ?thesis
    proof (cases "sn_action sn = ComputerMetrics")
      case True
      with r obtain st2 where "count_computer E sn rec (count_record False st) = Some st2" "xs = []" "st' = st2" by auto
      with count_computer_keeps [OF this(1)] False Some True show ?thesis by (simp add: json_accepted_def json_weight_def)
    next
      case False
      with r n Some \<open>\<not> is_splunk_api_json data\<close> show ?thesis
        by (auto simp add: json_accepted_def json_weight_def kept_record_def split: if_splits)
    qed
  qed
qed (use assms in \<open>simp add: json_step_def\<close>)

lemma json_block_after:
  assumes "json_block E sn path blk st = Some st'"
  shows "rules_after E sn (json_detects sn) path blk (st_rules st) (st_rules st') \<and> st_records st' = st_records st"
proof -
  let ?records = "create_rec_infos E sn path blk"
  from assms obtain st1 where t: "timeline_start E sn ?records st = Some st1"
    and r: "(if \<not> json_detects sn then Some st1
        else map_option (\<lambda>(infos, st2). store_detections sn infos st2) (detection_start E sn ?records st1)) = Some st'"
    by (auto simp: json_block_def json_detects_def Let_def bind_eq_Some_conv)
  show ?thesis
  proof (cases "json_detects sn")
    case True
    with r obtain infos st2 where d: "detection_start E sn ?records st1 = Some (infos, st2)"
      and "st' = store_detections sn infos st2" by auto
    with timeline_start_keeps [OF t] detection_start_after [OF d] True show ?thesis by (simp add: rules_after_def)
  next
    case False
    with r timeline_start_keeps [OF t] show ?thesis by (simp add: rules_after_def)
  qed
qed

interpretation json_run: block_run "json_step E sn" "json_block E sn path" "json_accepted E sn" st_rules
  "rules_after E sn (json_detects sn) path"
  for E sn path
  by unfold_locales (auto dest: json_step_view json_block_after intro: rules_after_Nil rules_after_append)

interpretation json_count: block_count "json_step E sn" "json_block E sn path" json_weight st_records
  for E sn path
  by unfold_locales (auto dest: json_step_view json_block_after)

lemma json_blocks_do_not_matter:
  assumes "json_detects sn" and "0 < n" and "run_blocks n (json_step E sn) (json_block E sn path) ls st = Some st'"
  shows "list_all2 (rule_ran E sn (create_rec_infos E sn path (concat (map (json_accepted E sn) ls)))) (st_rules st) (st_rules st') \<and>
    st_records st' = st_records st + sum_list (map json_weight ls)"
  using json_run.run_blocks_effect [OF assms(2,3)] json_count.run_blocks_total [OF assms(2,3)] assms(1)
  by (simp add: rules_after_def)

subsection \<open>Departures\<close>

text \<open>A block with a single detection leaves the first and last time of the detections as they were.\<close>

lemma single_detection_has_no_time: "update_detect_times [info] st = st"
  by (simp add: update_detect_times_def)

text \<open>The search reads all records of event files but only the filtered ones of JSON files.\<close>

lemma search_filters_json_only:
  assumes "\<not> is_valid_channel (sn_filter sn) data ''Event.EventData.Channel''" and "sn_action sn = SearchCommand"
    and "normalize_record raw = Some data" and "\<not> is_splunk_api_json raw"
    and "event_time_is_target (sf_time (sn_filter sn)) (get_event_time E data (sf_json_input (sn_filter sn)))"
  shows "json_accepted E sn (Some raw) = [] \<and> evtx_accepted E sn (ParsedRecord data False) = [(data, False)]"
  using assms by (simp add: json_accepted_def kept_record_def is_filtered_record_def evtx_accepted_def evtx_filtered_def)


subsection \<open>A sample scan\<close>

definition scan_sample :: scan_config where
  "scan_sample = \<lparr>sn_action = PivotKeywordsList,
     sn_filter = \<lparr>sf_metrics = metrics_sample, sf_include_eid = [], sf_exclude_eid = [], sf_eid_filter = False, sf_target_ids = [],
       sf_time = \<lparr>parse_success_flag = True, start_time = None, end_time = None\<rparr>, sf_json_input = False,
       sf_parse_time = (\<lambda>_ _. None), sf_show_utc = show_int\<rparr>,
     sn_search = search_sample_config, sn_search_option = search_sample, sn_aho = no_aho, sn_codec = sample_codec,
     sn_base64_time = show_int, sn_output = Log_Record_Facts.sample_config,
     sn_run = \<lparr>quiet_errors = False, json_input = False, pivot_keyword_list = True\<rparr>,
     sn_rule_keys = [''Image''], sn_no_pwsh = True, sn_low_memory = False\<rparr>"

definition scan_start :: "rule_node list \<Rightarrow> scan_state" where
  "scan_start rules = \<lparr>st_rules = rules, st_log = [], st_timeline = timeline_new, st_render = empty_log, st_pivots = [],
     st_detections = [], st_emitted = [], st_detect_start = None, st_detect_end = None, st_records = 0, st_recovered = 0\<rparr>"
definition scan_records :: "evtx_record list" where
  "scan_records =
     [FailedRecord ''bad'',
      ParsedRecord (JObject [(''Event'', JObject [
        (''System'', JObject [(''Channel'', JString ''Sys''), (''EventID'', JNumber (JInt 1))]),
        (''EventData'', JObject [(''Image'', JString ''Mimikatz'')])])]) True]"

definition scan_end :: scan_state where
  "scan_end = the (run_blocks 1 (evtx_step env0 scan_sample ''a.evtx'') (evtx_block env0 scan_sample ''a.evtx'') scan_records
     (scan_start [sample_base]))"

lemma scan_sample_run:
  "run_blocks 1 (evtx_step env0 scan_sample ''a.evtx'') (evtx_block env0 scan_sample ''a.evtx'') scan_records
     (scan_start [sample_base]) = Some scan_end"
proof -
  have "run_blocks 1 (evtx_step env0 scan_sample ''a.evtx'') (evtx_block env0 scan_sample ''a.evtx'') scan_records
     (scan_start [sample_base]) \<noteq> None" by code_simp
  then show ?thesis by (simp add: scan_end_def)
qed

theorem evtx_blocks_do_not_matter_witness:
  "list_all2 (\<lambda>rule rule'. \<exists>es log. execute_rule env0 (sn_alias scan_sample) (sn_run scan_sample) rule
      (concat (map (\<lambda>r. case r of
           FailedRecord _ \<Rightarrow> []
         | ParsedRecord data recovered \<Rightarrow>
             if evtx_filtered env0 (sn_filter scan_sample) False data then []
             else [create_rec_info env0 (sn_alias scan_sample) data ''a.evtx'' (sn_rule_keys scan_sample) recovered
               (sn_no_pwsh scan_sample)]) scan_records))
      [] = Some (rule', es, log)) (st_rules (scan_start [sample_base])) (st_rules scan_end) \<and>
    st_records scan_end = st_records (scan_start [sample_base]) + length scan_records"
  by (rule evtx_blocks_do_not_matter [OF _ zero_less_one scan_sample_run]) (simp add: scan_sample_def)

text \<open>The pivot keywords that a block leaves are those of \<open>Detection_Run\<close>, whatever is rendered between.\<close>

lemma emit_all_pivots:
  "emit_all E sn es ls pivots = Some (infos, ls', pivots') \<Longrightarrow> pivots' = insert_pivots E (sn_alias sn) es pivots"
proof (induction es arbitrary: ls pivots infos)
  case (Cons e es)
  then show ?case by (cases e) (auto simp: bind_eq_Some_conv split: prod.splits)
qed simp

subsection \<open>The lines of a JSON file\<close>

lemma api_rows_total:
  assumes "sn_action sn \<noteq> ComputerMetrics"
  shows "api_rows E sn splunk keys rows st \<noteq> None"
proof (induction rows arbitrary: st)
  case (Cons row rows)
  obtain rec where rec: "api_record E (sn_filter sn) keys row = Some rec" using api_record_total by blast
  obtain r where "api_rows E sn splunk keys rows st = Some r" using Cons by blast
  with rec assms show ?case by simp
qed simp

lemma rows_of_object: "json_index v k \<noteq> JNull \<Longrightarrow> is_object v"
  by (cases v) simp_all

lemma api_json_wrap: "is_splunk_api_json (wrap_event v) \<longleftrightarrow> json_index v ''rows'' \<noteq> JNull"
  by (simp add: is_splunk_api_json_def wrap_event_def json_at_def)

text \<open>
  C40: Which lines of a JSON file the scan can take. Unless it counts computers, the loop over the lines
  panics at a line exactly when that is not JSON, or neither an object nor an array that
  starts with one: a number, a text, a null or an empty array is enough. A line that is an object, and
  neither an answer of Splunk nor one of its API, counts as one record. It is handed on, unless a
  filter drops it, with its fields as the event data and the user data, and as the system part too, with
  the record number, the computer and the provider there from the fields that stand for them. What
  later steps make of the record is not part of this: they can panic on other values.
\<close>

theorem json_lines_read:
  assumes "sn_action sn \<noteq> ComputerMetrics"
  shows "(json_step E sn (map_option wrap_event line) st = None \<longleftrightarrow>
      (case line of None \<Rightarrow> True | Some v \<Rightarrow> \<not> is_object v \<and> (\<nexists>kvs vs. v = JArray (JObject kvs # vs)))) \<and>
    (\<forall>kvs. line = Some (JObject kvs) \<longrightarrow> map_of kvs ''rows'' \<in> {None, Some JNull} \<longrightarrow>
      \<not> is_object (unwrap_or JNull (map_of kvs ''result'')) \<longrightarrow>
      (\<exists>sys. let rec = JObject [(''Event'', JObject [(''EventData'', JObject kvs), (''System'', JObject sys), (''UserData'', JObject kvs)])] in
        json_step E sn (map_option wrap_event line) st =
          Some (if is_filtered_record E (sn_filter sn) False False rec then [] else [(rec, False)], count_record False st) \<and>
        map_of sys = (map_of kvs)
          (''EventRecordID'' \<mapsto> unwrap_or JNull (map_of kvs ''RecordNumber''),
           ''Provider_attributes'' \<mapsto> JObject [(''Name'', unwrap_or JNull (map_of kvs ''SourceName''))],
           ''Computer'' \<mapsto> unwrap_or JNull (map_of kvs ''Hostname''))))"
proof (intro conjI allI impI)
  show "json_step E sn (map_option wrap_event line) st = None \<longleftrightarrow>
      (case line of None \<Rightarrow> True | Some v \<Rightarrow> \<not> is_object v \<and> (\<nexists>kvs vs. v = JArray (JObject kvs # vs)))"
  proof (cases line)
    case (Some v)
    show ?thesis
    proof (cases "is_splunk_api_json (wrap_event v)")
      case True
      then have "is_object v" using rows_of_object by (simp add: api_json_wrap)
      then show ?thesis using True Some api_rows_total [OF assms] by (simp add: json_step_def Let_def)
    next
      case False
      then have "json_step E sn (Some (wrap_event v)) st = None \<longleftrightarrow> normalize_record (wrap_event v) = None"
        using assms by (auto simp: json_step_def Let_def split: bind_splits)
      then show ?thesis using Some json_record_normalized [of v] by simp
    qed
  qed (simp add: json_step_def)
next
  fix kvs
  assume l: "line = Some (JObject kvs)" and rows: "map_of kvs ''rows'' \<in> {None, Some JNull}"
    and res: "\<not> is_object (unwrap_or JNull (map_of kvs ''result''))"
  have api: "\<not> is_splunk_api_json (wrap_event (JObject kvs))" using rows by (auto simp: api_json_wrap)
  have splunk: "\<not> is_splunk_json (wrap_event (JObject kvs))"
    using res by (simp add: is_splunk_json_def wrap_event_def json_at_def)
  obtain sys where n: "normalize_record (wrap_event (JObject kvs)) =
      Some (JObject [(''Event'', JObject [(''EventData'', JObject kvs), (''System'', JObject sys), (''UserData'', JObject kvs)])])"
    and sys: "map_of sys = (map_of kvs)
          (''EventRecordID'' \<mapsto> unwrap_or JNull (map_of kvs ''RecordNumber''),
           ''Provider_attributes'' \<mapsto> JObject [(''Name'', unwrap_or JNull (map_of kvs ''SourceName''))],
           ''Computer'' \<mapsto> unwrap_or JNull (map_of kvs ''Hostname''))"
    using json_record_normalized [of "JObject kvs"] res by auto
  show "\<exists>sys. let rec = JObject [(''Event'', JObject [(''EventData'', JObject kvs), (''System'', JObject sys), (''UserData'', JObject kvs)])] in
        json_step E sn (map_option wrap_event line) st =
          Some (if is_filtered_record E (sn_filter sn) False False rec then [] else [(rec, False)], count_record False st) \<and>
        map_of sys = (map_of kvs)
          (''EventRecordID'' \<mapsto> unwrap_or JNull (map_of kvs ''RecordNumber''),
           ''Provider_attributes'' \<mapsto> JObject [(''Name'', unwrap_or JNull (map_of kvs ''SourceName''))],
           ''Computer'' \<mapsto> unwrap_or JNull (map_of kvs ''Hostname''))"
    by (rule exI [of _ sys]) (use api splunk n sys assms l in \<open>simp add: json_step_def Let_def\<close>)
qed

text \<open>A line with a number ends the scan, a line with an object is a record whose computer comes from its host name.\<close>

theorem json_lines_read_witness:
  "json_step env0 scan_sample (map_option wrap_event (Some (JNumber (JInt 1)))) (scan_start []) = None \<and>
   (\<exists>sys rest. json_step env0 scan_sample (map_option wrap_event (Some (JObject [(''Hostname'', JString ''pc'')]))) (scan_start []) =
      Some (rest, count_record False (scan_start [])) \<and> map_of sys ''Computer'' = Some (JString ''pc''))"
proof -
  have a: "sn_action scan_sample \<noteq> ComputerMetrics" by (simp add: scan_sample_def)
  note t = json_lines_read [OF a, where E = env0 and st = "scan_start []"]
  have "json_step env0 scan_sample (map_option wrap_event (Some (JNumber (JInt 1)))) (scan_start []) = None"
    by (rule t [THEN conjunct1, THEN iffD2]) simp
  moreover obtain sys where
    "json_step env0 scan_sample (map_option wrap_event (Some (JObject [(''Hostname'', JString ''pc'')]))) (scan_start []) =
       Some (if is_filtered_record env0 (sn_filter scan_sample) False False (JObject [(''Event'', JObject
         [(''EventData'', JObject [(''Hostname'', JString ''pc'')]), (''System'', JObject sys),
          (''UserData'', JObject [(''Hostname'', JString ''pc'')])])]) then []
         else [(JObject [(''Event'', JObject [(''EventData'', JObject [(''Hostname'', JString ''pc'')]), (''System'', JObject sys),
          (''UserData'', JObject [(''Hostname'', JString ''pc'')])])], False)], count_record False (scan_start []))"
    "map_of sys ''Computer'' = Some (JString ''pc'')"
    using t [THEN conjunct2, rule_format, where line = "Some (JObject [(''Hostname'', JString ''pc'')])"
        and kvs = "[(''Hostname'', JString ''pc'')]"]
    by (auto simp: Let_def simp del: option.map)
  ultimately show ?thesis by blast
qed

end
