(* ===== verification/Wizard.thy ===== *)
theory Wizard
  imports Rule_Filter_Facts
begin

section \<open>The scan wizard (yaml.rs, main.rs)\<close>

text \<open>
  Before a scan the wizard counts the rules of the rule directory by status, level and tag
  (\<open>count_rules\<close>), shows how many rules each of five sets has, and turns the answers into the filters
  of the loader. The crate \<open>dialoguer\<close> that asks the questions and the crate \<open>num_format\<close> that
  writes the numbers are parameters.
\<close>

subsection \<open>Counting the rules\<close>

type_synonym tag_counts = "(string \<times> int) list"
type_synonym level_tag_counts = "(string \<times> tag_counts) list"
type_synonym rule_counts = "(string \<times> level_tag_counts) list"

text \<open>What the counting is given; \<open>to_uppercase\<close> is that of the standard library.\<close>

record counting =
  ct_env :: env
  ct_to_uppercase :: "string \<Rightarrow> string"
  ct_world :: rule_world
  ct_no_use :: "(string \<times> string) list"
  ct_quiet :: bool

definition add_tag_count :: "int \<Rightarrow> string \<Rightarrow> tag_counts \<Rightarrow> tag_counts" where
  "add_tag_count n k m = assoc_insert k (unwrap_or 0 (map_of m k) + n) m"

definition add_level_count :: "int \<Rightarrow> string \<Rightarrow> string \<Rightarrow> level_tag_counts \<Rightarrow> level_tag_counts" where
  "add_level_count n lv k m = assoc_insert lv (add_tag_count n k (unwrap_or [] (map_of m lv))) m"

definition add_count :: "int \<Rightarrow> string \<Rightarrow> string \<Rightarrow> string \<Rightarrow> rule_counts \<Rightarrow> rule_counts" where
  "add_count n status lv k m = assoc_insert status (add_level_count n lv k (unwrap_or [] (map_of m status))) m"

definition target_wizard_tags :: "string list" where
  "target_wizard_tags = [''detection.emerging_threats'', ''detection.threat_hunting'', ''sysmon'']"

definition included_tags :: "yaml \<Rightarrow> string list" where
  "included_tags y =
     filter (\<lambda>t. t \<in> set target_wizard_tags) (option_list (map as_str (unwrap_or [] (as_vec (yindex y ''tags'')))))"

definition counted_level :: "counting \<Rightarrow> yaml \<Rightarrow> string" where
  "counted_level C y = ct_to_uppercase C (unwrap_or ''informational'' (as_str (yindex y ''level'')))"

text \<open>
  One document: under the list that holds its id, or under its status; there by its tags, with a
  correction for a rule of several tags.
\<close>

definition count_excluded :: "counting \<Rightarrow> yaml \<Rightarrow> string \<Rightarrow> rule_counts \<Rightarrow> rule_counts" where
  "count_excluded C y v m =
     (if v \<noteq> zero_id
      then add_count 1 (entry_key v) (counted_level C y)
             (to_lowercase (ct_env C) (unwrap_or ''undefined'' (as_str (yindex y ''status'')))) m
      else m)"

definition count_status :: "counting \<Rightarrow> yaml \<Rightarrow> string \<Rightarrow> rule_counts \<Rightarrow> rule_counts" where
  "count_status C y s m =
     (let tags = included_tags y; lv = counted_level C y in
      if tags = [] then add_count 1 s lv ''other'' m
      else fold (add_count 1 s lv) tags
             (if 1 < length tags then add_count (- (int (length tags) - 1)) s lv ''duplicated'' m else m))"

definition excluding_list :: "counting \<Rightarrow> yaml \<Rightarrow> string option" where
  "excluding_list C y = Option.bind (as_str (yindex y ''id'')) (map_of (ct_no_use C))"

definition count_doc :: "counting \<Rightarrow> yaml \<Rightarrow> rule_counts \<Rightarrow> rule_counts" where
  "count_doc C y m =
     (case excluding_list C y of
        Some v \<Rightarrow> count_excluded C y v m
      | None \<Rightarrow> (case as_str (yindex y ''status'') of None \<Rightarrow> m | Some s \<Rightarrow> count_status C y s m))"

text \<open>
  The state is the counters and the error log. A file of a directory that is not YAML is noted in
  the log; a single file that is not is ignored.
\<close>

type_synonym count_state = "rule_counts \<times> string list"

definition count_entry_file :: "counting \<Rightarrow> string \<Rightarrow> string + string \<Rightarrow> string list \<Rightarrow> string list \<times> yaml list" where
  "count_entry_file C path content log =
     (if ignored_path path then (log, [])
      else (case read_file content of
              Inl e \<Rightarrow> (log, [])
            | Inr text \<Rightarrow>
                (case yaml_load (ct_world C) text of
                   Inl e \<Rightarrow>
                     (if ct_quiet C then log
                      else log @ [''[WARN] Failed to parse yml: '' @ path @ [CHR 0x0A] @ e @ '' ''], [])
                 | Inr ys \<Rightarrow> (log, ys))))"

definition count_docs :: "counting \<Rightarrow> yaml list \<Rightarrow> count_state \<Rightarrow> count_state" where
  "count_docs C ys st = (fold (count_doc C) ys (fst st), snd st)"

text \<open>
  A subdirectory is counted when it is met; an entry that cannot be read drops the documents of its
  directory, and not those of the subdirectories before it.
\<close>

function (sequential)
  count_dir :: "counting \<Rightarrow> fs_entry \<Rightarrow> count_state \<Rightarrow> count_state"
  and count_entries :: "counting \<Rightarrow> (string + fs_entry) list \<Rightarrow> yaml list \<Rightarrow> count_state \<Rightarrow> count_state \<times> yaml list"
where
  "count_dir C (RDir path (Inr es)) st = (case count_entries C es [] st of (st1, ys) \<Rightarrow> count_docs C ys st1)"
| "count_dir C _ st = st"
| "count_entries C [] ys st = (st, ys)"
| "count_entries C (Inl e # es) ys st = (st, [])"
| "count_entries C (Inr (RDir path d) # es) ys st = count_entries C es ys (count_dir C (RDir path d) st)"
| "count_entries C (Inr (ROther path) # es) ys st = count_entries C es ys st"
| "count_entries C (Inr (RFile path content) # es) ys st =
     (case count_entry_file C path content (snd st) of (log, ys1) \<Rightarrow> count_entries C es (ys @ ys1) (fst st, log))"
  by pat_completeness auto
termination
  by (relation "measure (\<lambda>x. case x of
        Inl (C, e, st) \<Rightarrow> size e
      | Inr (C, es, ys, st) \<Rightarrow> size_list (size_sum (\<lambda>_. 0) size) es)") auto

definition count_single_file :: "counting \<Rightarrow> string \<Rightarrow> string + string \<Rightarrow> count_state \<Rightarrow> count_state option" where
  "count_single_file C path content st =
     (if extension path \<noteq> Some ''yml'' then Some st
      else (case (if base_name path = ''encoded_rules.yml'' then read_encoded_file content
                  else (case read_file content of Inl e \<Rightarrow> Err e | Inr t \<Rightarrow> Ok t)) of
              Panic \<Rightarrow> None
            | Err e \<Rightarrow> Some st
            | Ok text \<Rightarrow>
                (case yaml_load (ct_world C) text of
                   Inl e \<Rightarrow> Some st
                 | Inr ys \<Rightarrow> Some (count_docs C ys st))))"

text \<open>The rule path of the command line; the error is that of its metadata.\<close>

definition count_rules :: "counting \<Rightarrow> string + fs_entry \<Rightarrow> count_state \<Rightarrow> count_state option" where
  "count_rules C metadata st =
     (case metadata of
        Inl e \<Rightarrow> Some st
      | Inr (RFile path content) \<Rightarrow> count_single_file C path content st
      | Inr e \<Rightarrow> Some (count_dir C e st))"

subsection \<open>The numbers of the wizard\<close>

definition level_at_least :: "env \<Rightarrow> string \<Rightarrow> string \<Rightarrow> bool" where
  "level_at_least E least rule_level \<longleftrightarrow>
     level_index (level_from E least) \<le> level_index (level_from E rule_level)"

definition levels_sum :: "env \<Rightarrow> string \<Rightarrow> level_tag_counts \<Rightarrow> int" where
  "levels_sum E least m =
     sum_list (map (\<lambda>(lv, tags). if level_at_least E least lv then sum_list (map snd tags) else 0) m)"

text \<open>\<open>calcurate_wizard_rule_count\<close> with its flag: the counts under the given statuses.\<close>

definition status_counts :: "env \<Rightarrow> rule_counts \<Rightarrow> string list \<Rightarrow> string \<Rightarrow> tag_counts" where
  "status_counts E counts statuses least =
     fold (\<lambda>s ret.
       (let ret_cnt = (case map_of counts s of None \<Rightarrow> 0 | Some levels \<Rightarrow> levels_sum E least levels)
        in if 0 < ret_cnt then assoc_insert s ret_cnt ret else ret)) statuses []"

text \<open>And without it: by tag when tags are given, else by status.\<close>

definition add_tags :: "env \<Rightarrow> string \<Rightarrow> string list \<Rightarrow> level_tag_counts \<Rightarrow> tag_counts \<Rightarrow> tag_counts" where
  "add_tags E least target_tags levels ret =
     fold (\<lambda>(lv, tags) ret.
       if level_at_least E least lv
       then fold (\<lambda>(tag, cnt) ret. if tag \<in> set target_tags then add_tag_count cnt tag ret else ret) tags ret
       else ret) levels ret"

definition target_step ::
  "env \<Rightarrow> rule_counts \<Rightarrow> string list \<Rightarrow> string \<Rightarrow> string list \<Rightarrow> string list \<Rightarrow> string \<Rightarrow> tag_counts \<Rightarrow> tag_counts" where
  "target_step E counts exclude_noisy_status least target_status target_tags s ret =
     (if (s \<in> set exclude_noisy_status \<or> s \<notin> set target_status) \<and> ''*'' \<notin> set target_status then ret
      else (case map_of counts s of
              None \<Rightarrow> ret
            | Some levels \<Rightarrow>
                (if target_tags \<noteq> [] then add_tags E least target_tags levels ret
                 else (let ret_cnt = levels_sum E least levels
                       in if 0 < ret_cnt then assoc_insert s ret_cnt ret else ret))))"

definition target_counts ::
  "env \<Rightarrow> rule_counts \<Rightarrow> string list \<Rightarrow> string \<Rightarrow> string list \<Rightarrow> string list \<Rightarrow> tag_counts" where
  "target_counts E counts exclude_noisy_status least target_status target_tags =
     fold (target_step E counts exclude_noisy_status least target_status target_tags) (map fst counts) []"

definition calcurate_wizard_rule_count ::
  "env \<Rightarrow> rule_counts \<Rightarrow> bool \<Rightarrow> string list \<Rightarrow> string \<Rightarrow> string list \<Rightarrow> string list \<Rightarrow> tag_counts" where
  "calcurate_wizard_rule_count E counts exclude_noisytarget_flag exclude_noisy_status least target_status target_tags =
     (if exclude_noisytarget_flag then status_counts E counts exclude_noisy_status least
      else target_counts E counts exclude_noisy_status least target_status target_tags)"

text \<open>The five sets: the text without the number, the statuses and the least level.\<close>

definition selections_status :: "(string \<times> string list \<times> string) list" where
  "selections_status =
     [(''1. Core ( status: test, stable | level: high, critical )'', [''test'', ''stable''], ''high''),
      (''2. Core+ ( status: test, stable | level: medium, high, critical )'', [''test'', ''stable''], ''medium''),
      (''3. Core++ ( status: experimental, test, stable | level: medium, high, critical )'',
       [''experimental'', ''test'', ''stable''], ''medium''),
      (''4. All alert rules ( status: * | level: low+ )'', [''*''], ''low''),
      (''5. All event and alert rules ( status: * | level: informational+ )'', [''*''], ''informational'')]"

definition selection_heads :: "(string \<times> string) list" where
  "selection_heads =
     [(''1. Core ('', '' rules) ( status: test, stable | level: high, critical )''),
      (''2. Core+ ('', '' rules) ( status: test, stable | level: medium, high, critical )''),
      (''3. Core++ ('', '' rules) ( status: experimental, test, stable | level: medium, high, critical )''),
      (''4. All alert rules ('', '' rules) ( status: * | level: low+ )''),
      (''5. All event and alert rules ('', '' rules) ( status: * | level: informational+ )'')]"

definition section_count :: "env \<Rightarrow> rule_counts \<Rightarrow> string list \<times> string \<Rightarrow> int" where
  "section_count E counts sel =
     (let cnt = calcurate_wizard_rule_count E counts False [''excluded'', ''deprecated'', ''unsupported'', ''noisy'']
            (snd sel) (fst sel) []
      in sum_list (map snd cnt) - unwrap_or 0 (map_of cnt ''excluded''))"

definition selection_status_items :: "env \<Rightarrow> (int \<Rightarrow> string) \<Rightarrow> rule_counts \<Rightarrow> string list" where
  "selection_status_items E fmt counts =
     map (\<lambda>((head, rest), sel). head @ fmt (section_count E counts (snd sel)) @ rest)
       (zip selection_heads selections_status)"


subsection \<open>The dialogue\<close>

record wizard_ui =
  ui_select :: "string list \<Rightarrow> nat"
  ui_confirm :: "string \<Rightarrow> bool \<Rightarrow> bool"
  ui_number :: "int \<Rightarrow> string"

text \<open>A question is asked when the counter has an entry; the answer \<open>None\<close> is that it was not asked.\<close>

definition ask_include :: "wizard_ui \<Rightarrow> tag_counts \<Rightarrow> string \<Rightarrow> string \<Rightarrow> bool \<Rightarrow> bool option" where
  "ask_include U counts key what default_answer =
     map_option (\<lambda>cnt. ui_confirm U (''Include '' @ what @ '' rules? ('' @ ui_number U cnt @ '' rules)'') default_answer)
       (map_of counts key)"

definition refuse_tag :: "string \<Rightarrow> bool option \<Rightarrow> string list \<Rightarrow> string list" where
  "refuse_tag tag answer exclude_tags = (if answer = Some False then exclude_tags @ [tag] else exclude_tags)"

definition ask_tags :: "wizard_ui \<Rightarrow> tag_counts \<Rightarrow> nat \<Rightarrow> string list \<Rightarrow> string list" where
  "ask_tags U tags_cnt i exclude_tags =
     (if i < 3
      then refuse_tag ''detection.threat_hunting'' (ask_include U tags_cnt ''detection.threat_hunting'' ''Threat Hunting'' False)
             (refuse_tag ''detection.emerging_threats''
               (ask_include U tags_cnt ''detection.emerging_threats'' ''Emerging Threats'' True) exclude_tags)
      else exclude_tags)"

definition ask_statuses :: "wizard_ui \<Rightarrow> tag_counts \<Rightarrow> nat \<Rightarrow> output_filters \<Rightarrow> output_filters" where
  "ask_statuses U noisy_cnt i opt =
     (if i < 3 then opt
      else (let opt1 = (if ask_include U noisy_cnt ''deprecated'' ''deprecated'' False = Some True
                        then opt\<lparr>enable_deprecated_rules := True\<rparr> else opt)
            in if ask_include U noisy_cnt ''unsupported'' ''unsupported'' False = Some True
               then opt1\<lparr>enable_unsupported_rules := True\<rparr> else opt1))"

definition ask_noisy :: "wizard_ui \<Rightarrow> tag_counts \<Rightarrow> output_filters \<Rightarrow> output_filters" where
  "ask_noisy U noisy_cnt opt =
     (if ask_include U noisy_cnt ''noisy'' ''noisy'' False = Some True then opt\<lparr>enable_noisy_rules := True\<rparr> else opt)"

text \<open>
  The set that is chosen decides the least level and the statuses. An index beyond the sets and
  options that are absent are panics.
\<close>

definition wizard_tag_counts :: "env \<Rightarrow> rule_counts \<Rightarrow> string list \<times> string \<Rightarrow> tag_counts" where
  "wizard_tag_counts E counts sel =
     calcurate_wizard_rule_count E counts False [] (snd sel) (fst sel) target_wizard_tags"

definition wizard_noisy_counts :: "env \<Rightarrow> rule_counts \<Rightarrow> string list \<times> string \<Rightarrow> tag_counts" where
  "wizard_noisy_counts E counts sel =
     calcurate_wizard_rule_count E counts True [''excluded'', ''noisy'', ''deprecated'', ''unsupported''] (snd sel) [] []"

definition wizard_apply :: "env \<Rightarrow> wizard_ui \<Rightarrow> rule_counts \<Rightarrow> nat \<Rightarrow> output_filters \<Rightarrow> rule_filters \<Rightarrow> rule_filters" where
  "wizard_apply E U counts i opt F =
     (let sel = snd (selections_status ! i);
          exclude_noisy_cnt = wizard_noisy_counts E counts sel;
          tags_cnt = wizard_tag_counts E counts sel;
          tags = refuse_tag ''sysmon'' (ask_include U tags_cnt ''sysmon'' ''sysmon'' True)
            (ask_tags U tags_cnt i (unwrap_or [] (exclude_tag opt)));
          opt1 = ask_noisy U exclude_noisy_cnt (ask_statuses U exclude_noisy_cnt i opt)
      in F\<lparr>min_level := snd sel,
           include_status := fold List.insert (fst sel) (include_status F),
           output_option := Some (if tags = [] then opt1 else opt1\<lparr>exclude_tag := Some tags\<rparr>)\<rparr>)"

definition wizard :: "env \<Rightarrow> wizard_ui \<Rightarrow> rule_counts \<Rightarrow> rule_filters \<Rightarrow> rule_filters option" where
  "wizard E U counts F =
     (let i = ui_select U (selection_status_items E (ui_number U) counts) in
      if length selections_status \<le> i then None
      else map_option (\<lambda>opt. wizard_apply E U counts i opt F) (output_option F))"

text \<open>Without the wizard every status is loaded unless some are named.\<close>

definition scan_filters :: "counting \<Rightarrow> wizard_ui \<Rightarrow> bool \<Rightarrow> string + fs_entry \<Rightarrow> rule_filters \<Rightarrow> rule_filters option" where
  "scan_filters C U need_wizard rules F =
     (if need_wizard
      then Option.bind (count_rules C rules ([], [])) (\<lambda>st. wizard (ct_env C) U (fst st) F)
      else Some (if include_status F = [] then F\<lparr>include_status := [''*'']\<rparr> else F))"

subsection \<open>What is counted\<close>

text \<open>Under which status and level a document is counted, if it is.\<close>

definition counted_as :: "counting \<Rightarrow> yaml \<Rightarrow> (string \<times> string) option" where
  "counted_as C y =
     (case excluding_list C y of
        Some v \<Rightarrow> if v = zero_id then None else Some (entry_key v, counted_level C y)
      | None \<Rightarrow> map_option (\<lambda>s. (s, counted_level C y)) (as_str (yindex y ''status'')))"

definition counts_sum :: "(string \<Rightarrow> string \<Rightarrow> bool) \<Rightarrow> rule_counts \<Rightarrow> int" where
  "counts_sum P m =
     sum_list (map (\<lambda>(s, levels). sum_list (map (\<lambda>(lv, tags). if P s lv then sum_list (map snd tags) else 0) levels)) m)"

definition counted_by :: "counting \<Rightarrow> (string \<Rightarrow> string \<Rightarrow> bool) \<Rightarrow> yaml \<Rightarrow> bool" where
  "counted_by C P y \<longleftrightarrow> (case counted_as C y of None \<Rightarrow> False | Some (s, lv) \<Rightarrow> P s lv)"

text \<open>A sum over an association list changes by what the entry of the key changes.\<close>

lemma sum_insert_diff:
  fixes f :: "'k \<times> 'v \<Rightarrow> int"
  shows "sum_list (map f (assoc_insert k v m)) =
     sum_list (map f m) + f (k, v) - (case map_of m k of None \<Rightarrow> 0 | Some w \<Rightarrow> f (k, w))"
  by (induction k v m rule: assoc_insert.induct) auto

lemma add_tag_count_sum: "sum_list (map snd (add_tag_count n k m)) = sum_list (map snd m) + n"
  by (simp add: add_tag_count_def sum_insert_diff unwrap_or_def split: option.split)

lemma add_level_count_sum:
  "sum_list (map (\<lambda>(lv, tags). if P lv then sum_list (map snd tags) else 0) (add_level_count n lv k m)) =
   sum_list (map (\<lambda>(lv, tags). if P lv then sum_list (map snd tags) else 0) m) + (if P lv then n else 0)"
  by (simp add: add_level_count_def sum_insert_diff add_tag_count_sum unwrap_or_def split: option.split)

lemma add_count_sum: "counts_sum P (add_count n s lv k m) = counts_sum P m + (if P s lv then n else 0)"
  by (simp add: counts_sum_def add_count_def sum_insert_diff add_level_count_sum unwrap_or_def split: option.split)

lemma add_counts_sum: "counts_sum P (fold (add_count 1 s lv) ks m) = counts_sum P m + (if P s lv then int (length ks) else 0)"
  by (induction ks arbitrary: m) (auto simp: add_count_sum)

lemma count_doc_sum: "counts_sum P (count_doc C y m) = counts_sum P m + (if counted_by C P y then 1 else 0)"
  by (auto simp: count_doc_def count_excluded_def count_status_def counted_by_def counted_as_def add_count_sum
      add_counts_sum Let_def Suc_le_eq not_less le_Suc_eq split: option.split)

lemma count_docs_sum:
  "counts_sum P (fst (count_docs C ys st)) = counts_sum P (fst st) + int (length (filter (counted_by C P) ys))"
proof -
  have "counts_sum P (fold (count_doc C) ys m) = counts_sum P m + int (length (filter (counted_by C P) ys))" for m
    by (induction ys arbitrary: m) (auto simp: count_doc_sum)
  then show ?thesis by (simp add: count_docs_def)
qed

lemma count_entry_file_docs:
  "snd (count_entry_file C path content log) = map snd (file_docs (ct_world C) path content)"
  by (auto simp: count_entry_file_def file_docs_def comp_def split: sum.split)

lemma count_dir_sum:
  shows "(\<And>path content. e \<noteq> RFile path content) \<Longrightarrow> readable e \<Longrightarrow>
      counts_sum P (fst (count_dir C e st)) =
        counts_sum P (fst st) + int (length (filter (counted_by C P) (map snd (dir_docs (ct_world C) e))))"
    and "(\<And>x. x \<in> set es \<Longrightarrow> \<exists>e. x = Inr e \<and> (\<forall>q d. e = RDir q d \<longrightarrow> readable e)) \<Longrightarrow>
      counts_sum P (fst (fst (count_entries C es ys st))) =
        counts_sum P (fst st) +
        int (length (filter (counted_by C P) (map snd (concat (map (sub_docs (ct_world C)) es))))) \<and>
      snd (count_entries C es ys st) = ys @ map snd (concat (map (entry_docs (ct_world C)) es))"
proof (induction C e st and C es ys st rule: count_dir_count_entries.induct)
  case (1 C path es st)
  have "counts_sum P (fst (fst (count_entries C es [] st))) =
        counts_sum P (fst st) +
        int (length (filter (counted_by C P) (map snd (concat (map (sub_docs (ct_world C)) es))))) \<and>
      snd (count_entries C es [] st) = [] @ map snd (concat (map (entry_docs (ct_world C)) es))"
    by (rule 1(1)) (use 1(3) in simp)
  then show ?case by (simp add: count_docs_sum dir_docs_RDir split_beta)
next
  case (5 C path d es ys st)
  have "readable (RDir path d)" using 5(3) [of "Inr (RDir path d)"] by simp
  moreover have "x \<in> set es \<Longrightarrow> \<exists>e. x = Inr e \<and> (\<forall>q d. e = RDir q d \<longrightarrow> readable e)" for x using 5(3) by simp
  ultimately show ?case using 5(1,2) by (simp add: sub_docs_def)
next
  case (7 C path content es ys st)
  obtain log ys1 where r: "count_entry_file C path content (snd st) = (log, ys1)" by fastforce
  have ys1: "ys1 = map snd (file_docs (ct_world C) path content)"
    using count_entry_file_docs [of C path content "snd st"] r by simp
  have "x \<in> set es \<Longrightarrow> \<exists>e. x = Inr e \<and> (\<forall>q d. e = RDir q d \<longrightarrow> readable e)" for x using 7(2) by simp
  with 7(1) [OF r [symmetric]] show ?case by (simp add: r ys1 sub_docs_def)
qed (auto simp: sub_docs_def)

lemma distinct_add_count: "distinct (map fst m) \<Longrightarrow> distinct (map fst (add_count n s lv k m))"
  by (simp add: add_count_def distinct_assoc_insert)

lemma distinct_count_doc: "distinct (map fst m) \<Longrightarrow> distinct (map fst (count_doc C y m))"
proof -
  assume m: "distinct (map fst m)"
  have f: "distinct (map fst (fold (add_count 1 s lv) ks m))" if "distinct (map fst m)" for s lv ks m
    using that by (induction ks arbitrary: m) (auto simp: distinct_add_count simp del: distinct_map)
  show ?thesis using m
    by (auto simp: count_doc_def count_excluded_def count_status_def Let_def distinct_add_count f split: option.split)
qed

lemma distinct_count_docs: "distinct (map fst (fst st)) \<Longrightarrow> distinct (map fst (fst (count_docs C ys st)))"
proof -
  have "distinct (map fst m) \<Longrightarrow> distinct (map fst (fold (count_doc C) ys m))" for m
    by (induction ys arbitrary: m) (auto simp: distinct_count_doc simp del: distinct_map)
  then show "distinct (map fst (fst st)) \<Longrightarrow> ?thesis" by (simp add: count_docs_def)
qed

lemma distinct_count_dir:
  shows "distinct (map fst (fst st)) \<Longrightarrow> distinct (map fst (fst (count_dir C e st)))"
    and "distinct (map fst (fst st)) \<Longrightarrow> distinct (map fst (fst (fst (count_entries C es ys st))))"
  by (induction C e st and C es ys st rule: count_dir_count_entries.induct)
    (auto simp: split_beta distinct_count_docs simp del: distinct_map)

subsection \<open>The numbers that are shown\<close>

definition status_shown :: "string list \<Rightarrow> string \<Rightarrow> bool" where
  "status_shown statuses s \<longleftrightarrow> s \<noteq> ''excluded'' \<and> (''*'' \<in> set statuses \<or> s \<in> set statuses)"

text \<open>The documents that a set offers, by what they are counted as.\<close>

definition offered :: "counting \<Rightarrow> string list \<times> string \<Rightarrow> yaml \<Rightarrow> bool" where
  "offered C sel y = counted_by C (\<lambda>s lv. status_shown (fst sel) s \<and> level_at_least (ct_env C) (snd sel) lv) y"

lemma assoc_insert_fresh: "k \<notin> fst ` set m \<Longrightarrow> assoc_insert k v m = m @ [(k, v)]"
  by (induction k v m rule: assoc_insert.induct) auto

lemma target_counts_filter:
  assumes "distinct (map fst counts)"
  shows "target_counts E counts ex least statuses [] =
    map (\<lambda>(s, levels). (s, levels_sum E least levels))
      (filter (\<lambda>(s, levels). (''*'' \<in> set statuses \<or> s \<notin> set ex \<and> s \<in> set statuses) \<and> 0 < levels_sum E least levels) counts)"
proof -
  let ?f = "\<lambda>(s, levels). (s, levels_sum E least levels)"
  let ?p = "\<lambda>(s, levels). (''*'' \<in> set statuses \<or> s \<notin> set ex \<and> s \<in> set statuses) \<and> 0 < levels_sum E least levels"
  have "fold (target_step E counts ex least statuses []) (map fst rest) ret = ret @ map ?f (filter ?p rest)"
    if "\<And>s levels. (s, levels) \<in> set rest \<Longrightarrow> map_of counts s = Some levels"
      and "distinct (map fst rest)" and "fst ` set rest \<inter> fst ` set ret = {}" for rest ret
    using that
  proof (induction rest arbitrary: ret)
    case (Cons x rest)
    obtain s levels where x: "x = (s, levels)" by (cases x)
    have m: "map_of counts s = Some levels" using Cons.prems(1) [of s levels] x by simp
    have "fst ` set rest \<inter> insert s (fst ` set ret) = {}" using Cons.prems(2,3) x by auto
    then have step: "fold (target_step E counts ex least statuses []) (map fst rest) ret' = ret' @ map ?f (filter ?p rest)"
      if "fst ` set ret' \<subseteq> insert s (fst ` set ret)" for ret'
    proof (intro Cons.IH)
      show "map_of counts a = Some b" if "(a, b) \<in> set rest" for a b
        using Cons.prems(1) [of a b] that by simp
      show "distinct (map fst rest)" using Cons.prems(2) by simp
      show "fst ` set rest \<inter> fst ` set ret' = {}" if "fst ` set rest \<inter> insert s (fst ` set ret) = {}"
        using that \<open>fst ` set ret' \<subseteq> insert s (fst ` set ret)\<close> by blast
    qed
    have "s \<notin> fst ` set ret" using Cons.prems(3) x by auto
    then have one: "target_step E counts ex least statuses [] s ret =
        ret @ (if ?p x then [(s, levels_sum E least levels)] else [])"
      by (simp add: x target_step_def m Let_def assoc_insert_fresh)
    have "fold (target_step E counts ex least statuses []) (map fst (x # rest)) ret =
        fold (target_step E counts ex least statuses []) (map fst rest) (target_step E counts ex least statuses [] s ret)"
      by (simp add: x)
    also have "\<dots> = target_step E counts ex least statuses [] s ret @ map ?f (filter ?p rest)"
      by (rule step) (auto simp: one)
    finally show ?case by (simp only: one) (simp add: x)
  qed simp
  from this [of counts "[]"] assms show ?thesis by (simp add: target_counts_def)
qed

lemma sum_without_key:
  assumes "distinct (map fst m)"
  shows "sum_list (map snd m) - unwrap_or 0 (map_of m k) = (sum_list (map snd (filter (\<lambda>x. fst x \<noteq> k) m)) :: int)"
  using assms
proof (induction m)
  case (Cons x m)
  show ?case
  proof (cases "fst x = k")
    case True
    have "filter (\<lambda>x. fst x \<noteq> k) m = m"
      by (rule filter_all_True) (use Cons.prems True in \<open>metis distinct.simps(2) imageI list.simps(9) list.set_map\<close>)
    with True show ?thesis by simp
  next
    case False
    with Cons show ?thesis by (auto simp: algebra_simps)
  qed
qed simp

lemma levels_sum_filter: "counts_sum (\<lambda>s lv. P s \<and> level_at_least E least lv) m =
    sum_list (map (\<lambda>(s, levels). if P s then levels_sum E least levels else 0) m)"
proof -
  have "(\<Sum>(lv, tags)\<leftarrow>levels. if P s \<and> level_at_least E least lv then sum_list (map snd tags) else 0) =
      (if P s then levels_sum E least levels else 0)" for s levels
  proof (cases "P s")
    case False
    then show ?thesis by (induction levels) auto
  qed (simp add: levels_sum_def)
  then show ?thesis by (simp add: counts_sum_def)
qed

lemma section_count_sum:
  assumes d: "distinct (map fst counts)"
    and nonneg: "\<And>s levels. (s, levels) \<in> set counts \<Longrightarrow> 0 \<le> levels_sum E (snd sel) levels"
    and ok: "''*'' \<in> set (fst sel) \<or> set (fst sel) \<inter> {''excluded'', ''deprecated'', ''unsupported'', ''noisy''} = {}"
  shows "section_count E counts sel = counts_sum (\<lambda>s lv. status_shown (fst sel) s \<and> level_at_least E (snd sel) lv) counts"
proof -
  let ?n = "\<lambda>levels. levels_sum E (snd sel) levels"
  let ?ex = "[''excluded'', ''deprecated'', ''unsupported'', ''noisy'']"
  let ?inc = "\<lambda>s. ''*'' \<in> set (fst sel) \<or> s \<notin> set ?ex \<and> s \<in> set (fst sel)"
  let ?m = "map (\<lambda>(s, levels). (s, ?n levels)) (filter (\<lambda>(s, levels). ?inc s \<and> 0 < ?n levels) counts)"
  have t: "target_counts E counts ?ex (snd sel) (fst sel) [] = ?m"
    using d by (rule target_counts_filter)
  have fst_m: "map fst ?m = map fst (filter (\<lambda>(s, levels). ?inc s \<and> 0 < ?n levels) counts)"
    by (simp add: case_prod_beta comp_def)
  have "distinct (map fst ?m)"
    unfolding fst_m using d by (rule distinct_map_filter)
  then have "section_count E counts sel = sum_list (map snd (filter (\<lambda>x. fst x \<noteq> ''excluded'') ?m))"
    by (simp only: section_count_def calcurate_wizard_rule_count_def Let_def if_False t sum_without_key)
  also have "\<dots> = sum_list (map (\<lambda>(s, levels). if status_shown (fst sel) s then ?n levels else 0) counts)"
  proof -
    have inc: "?inc s \<and> s \<noteq> ''excluded'' \<longleftrightarrow> status_shown (fst sel) s" for s
      using ok by (auto simp: status_shown_def)
    have "sum_list (map snd (filter (\<lambda>x. fst x \<noteq> ''excluded'')
            (map (\<lambda>(s, levels). (s, ?n levels)) (filter (\<lambda>(s, levels). ?inc s \<and> 0 < ?n levels) xs)))) =
          sum_list (map (\<lambda>(s, levels). if status_shown (fst sel) s then ?n levels else 0) xs)"
      if "\<And>s levels. (s, levels) \<in> set xs \<Longrightarrow> 0 \<le> ?n levels" for xs
      using that
    proof (induction xs)
      case (Cons x xs)
      obtain s levels where x: "x = (s, levels)" by (cases x)
      have n: "0 \<le> ?n levels" using Cons.prems [of s levels] x by simp
      have ih: "sum_list (map snd (filter (\<lambda>x. fst x \<noteq> ''excluded'')
            (map (\<lambda>(s, levels). (s, ?n levels)) (filter (\<lambda>(s, levels). ?inc s \<and> 0 < ?n levels) xs)))) =
          sum_list (map (\<lambda>(s, levels). if status_shown (fst sel) s then ?n levels else 0) xs)"
        by (rule Cons.IH, erule Cons.prems [OF list.set_intros(2)])
      show ?case
      proof (cases "0 < ?n levels")
        case True
        then have "sum_list (map snd (filter (\<lambda>x. fst x \<noteq> ''excluded'')
              (map (\<lambda>(s, levels). (s, ?n levels)) (filter (\<lambda>(s, levels). ?inc s \<and> 0 < ?n levels) (x # xs))))) =
            (if ?inc s \<and> s \<noteq> ''excluded'' then ?n levels else 0) +
            sum_list (map snd (filter (\<lambda>x. fst x \<noteq> ''excluded'')
              (map (\<lambda>(s, levels). (s, ?n levels)) (filter (\<lambda>(s, levels). ?inc s \<and> 0 < ?n levels) xs))))"
          by (simp only: x filter.simps list.map case_prod_conv) simp
        then show ?thesis by (simp only: inc ih) (simp add: x)
      next
        case False
        with n have "?n levels = 0" by simp
        then show ?thesis using ih by (simp add: x)
      qed
    qed simp
    from this [of counts] nonneg show ?thesis by blast
  qed
  finally show ?thesis by (simp add: levels_sum_filter)
qed

lemma counts_sum_single:
  assumes "distinct (map fst m)" and "(s, levels) \<in> set m"
  shows "counts_sum (\<lambda>s' lv. s' = s \<and> level_at_least E least lv) m = levels_sum E least levels"
proof -
  have zero: "s \<notin> fst ` set xs \<Longrightarrow> sum_list (map (\<lambda>(s', levels). if s' = s then levels_sum E least levels else 0) xs) = 0" for xs
    by (induction xs) auto
  have "sum_list (map (\<lambda>(s', levels). if s' = s then levels_sum E least levels else 0) m) = levels_sum E least levels"
    using assms
  proof (induction m)
    case (Cons x m)
    obtain s' levels' where x: "x = (s', levels')" by (cases x)
    show ?case
    proof (cases "s' = s")
      case True
      with Cons.prems x have "s \<notin> fst ` set m" "levels' = levels" by (auto simp: image_iff)
      then show ?thesis using True zero [of m] by (simp add: x)
    next
      case False
      with Cons show ?thesis by (simp add: x)
    qed
  qed simp
  then show ?thesis by (simp add: levels_sum_filter [of "\<lambda>s'. s' = s"])
qed

lemma selections_ok:
  assumes "sel \<in> set (map snd selections_status)"
  shows "''*'' \<in> set (fst sel) \<or> set (fst sel) \<inter> {''excluded'', ''deprecated'', ''unsupported'', ''noisy''} = {}"
proof -
  have "list_all (\<lambda>sel. ''*'' \<in> set (fst sel) \<or>
      list_all (\<lambda>s. s \<notin> set [''excluded'', ''deprecated'', ''unsupported'', ''noisy'']) (fst sel)) (map snd selections_status) \<longleftrightarrow> True"
    by code_simp
  with assms show ?thesis by (auto simp: list_all_iff)
qed

text \<open>
  The numbers of the scan wizard are those of the rules. Over a rule directory whose entries can
  be read, the number that the wizard shows for each of its five sets is the number of the rule
  documents of the directory that are not in the list of excluded rules and whose status and level
  are those of the set; rules of several wizard tags are counted once. Documents in the list of
  noisy rules count under the status noisy, which only the sets of every status show.
\<close>

theorem wizard_numbers:
  assumes "readable (RDir path d)" and "sel \<in> set (map snd selections_status)"
  shows "\<exists>st. count_rules C (Inr (RDir path d)) ([], []) = Some st \<and>
    section_count (ct_env C) (fst st) sel =
      int (length (filter (offered C sel) (map snd (dir_docs (ct_world C) (RDir path d)))))"
proof -
  let ?st = "count_dir C (RDir path d) ([], [])"
  have sum: "counts_sum P (fst ?st) = int (length (filter (counted_by C P) (map snd (dir_docs (ct_world C) (RDir path d)))))" for P
    using count_dir_sum(1) [OF _ assms(1), of P C "([], [])"] by (simp add: counts_sum_def)
  have d: "distinct (map fst (fst ?st))" by (rule distinct_count_dir(1)) simp
  have "0 \<le> levels_sum (ct_env C) (snd sel) levels" if "(s, levels) \<in> set (fst ?st)" for s levels
    using counts_sum_single [OF d that, of "ct_env C" "snd sel", symmetric] by (simp only: sum)
  then have "section_count (ct_env C) (fst ?st) sel =
      counts_sum (\<lambda>s lv. status_shown (fst sel) s \<and> level_at_least (ct_env C) (snd sel) lv) (fst ?st)"
    by (rule section_count_sum [OF d _ selections_ok [OF assms(2)]])
  then show ?thesis by (simp add: count_rules_def sum offered_def [abs_def])
qed

definition sample_counted :: counting where
  "sample_counted =
     \<lparr>ct_env = env0, ct_to_uppercase = map ascii_upper_char, ct_world = sample_world, ct_no_use = [], ct_quiet = False\<rparr>"

theorem wizard_numbers_witness:
  "\<exists>st. count_rules sample_counted (Inr (RDir ''rules'' sample_dir)) ([], []) = Some st \<and>
    section_count env0 (fst st) ([''test'', ''stable''], ''high'') = 1"
proof -
  have d: "dir_docs (ct_world sample_counted) (RDir ''rules'' sample_dir) = [(''rules/a.yml'', sample_rule)]"
    using sample_dir_docs by (simp add: sample_counted_def)
  have o: "offered sample_counted ([''test'', ''stable''], ''high'') sample_rule = True"
    by code_simp
  have e: "ct_env sample_counted = env0" by (simp add: sample_counted_def)
  have s: "([''test'', ''stable''], ''high'') \<in> set (map snd selections_status)"
    by (simp add: selections_status_def)
  show ?thesis
    using wizard_numbers [OF sample_dir_readable s, of sample_counted] by (simp add: d o e)
qed

subsection \<open>The choice\<close>

lemma refuse_tag_keeps: "set exclude_tags \<subseteq> set (refuse_tag tag answer exclude_tags)"
  by (auto simp: refuse_tag_def)

lemma ask_opts:
  "exclude_tag (ask_noisy U c opt) = exclude_tag opt" "exclude_tag (ask_statuses U c i opt) = exclude_tag opt"
  "enable_deprecated_rules (ask_noisy U c opt) = enable_deprecated_rules opt"
  "enable_deprecated_rules (ask_statuses U c i opt) \<longrightarrow>
     enable_deprecated_rules opt \<or> ask_include U c ''deprecated'' ''deprecated'' False = Some True"
  by (simp_all add: ask_noisy_def ask_statuses_def)

lemma set_insert_all: "set (fold List.insert xs ys) = set xs \<union> set ys"
  by (induction xs arbitrary: ys) auto

lemma kept_status:
  assumes "rule_kept E F R y" "output_option F = Some opt" "\<not> all_statuses_allowed F \<or> ''*'' \<in> set S"
    "\<And>s. s \<in> set (include_status F) \<Longrightarrow> s \<in> set S"
  shows "\<exists>s. as_str (yindex (expanded R y) ''status'') = Some s \<and> (''*'' \<in> set S \<or> s \<in> set S) \<and>
    (s = ''deprecated'' \<longrightarrow> enable_deprecated_rules opt)"
proof -
  let ?y = "expanded R y"
  from assms(1) have fmt: "check_hayabusa_rule_fmt E ?y = Inr ()"
    and st: "status_verdict F (as_str (yindex ?y ''status'')) = Loaded"
    by (simp_all add: rule_kept_def passes_def)
  have "''status'' \<in> set (required_keys ?y)" by (simp add: required_keys_def)
  then have "key_error E ?y ''status'' \<in> set (map (key_error E ?y) (required_keys ?y))" by simp
  moreover have "set (option_list (map (key_error E ?y) (required_keys ?y))) = {}"
    using fmt by (simp add: check_hayabusa_rule_fmt_def Let_def del: set_option_list split: if_splits)
  ultimately have "key_error E ?y ''status'' = None"
    by (metis (no_types, lifting) empty_iff mem_Collect_eq not_None_eq set_option_list)
  then obtain s where s: "as_str (yindex ?y ''status'') = Some s"
    by (cases "as_str (yindex ?y ''status'')") (auto simp: key_error_def split: if_splits)
  with st assms(2) have "all_statuses_allowed F \<or> s \<in> set (include_status F)"
    and "s = ''deprecated'' \<longrightarrow> enable_deprecated_rules opt"
    by (auto simp: status_verdict_def is_output_set_def split: if_splits)
  with assms(3,4) s show ?thesis by blast
qed

lemma kept_tags:
  assumes "rule_kept E F R y" "output_option F = Some opt" "exclude_tag opt = Some tags" "tag \<in> set tags"
    "as_vec (yindex (expanded R y) ''tags'') = Some ts"
  shows "YString tag \<notin> set ts"
proof
  assume "YString tag \<in> set ts"
  with assms(4) have "has_tag ts tags" by (force simp: has_tag_def list_ex_iff)
  with assms(2,3,5) have "tags_excluded F (expanded R y)" by (simp add: tags_excluded_def)
  with assms(1) show False by (simp add: rule_kept_def passes_def)
qed

text \<open>
  C26: The loader does what the scan wizard was told. After the dialogue, every rule that is loaded
  from the rule directory has a status of the chosen set and at least its level; it is deprecated only
  if deprecated rules were enabled before or the question about them was answered with yes; and it
  does not bear the tag sysmon when the question about that was answered with no.
\<close>

theorem wizard_choice_respected:
  assumes "wizard E U counts F = Some F'" and "include_status F = []" and "output_option F = Some opt"
    and "read_expand_files (expand_files W) = Inr R"
    and "read_dir E W F' (RDir path d) (loader_new log reg) = (ld, Ok ())" and "(file, y) \<in> set (files ld)"
    and "sel = snd (selections_status ! ui_select U (selection_status_items E (ui_number U) counts))"
  shows "\<exists>s. as_str (yindex y ''status'') = Some s \<and> (''*'' \<in> set (fst sel) \<or> s \<in> set (fst sel)) \<and>
      level_at_least E (snd sel) (map ascii_upper_char (unwrap_or ''informational'' (as_str (yindex y ''level'')))) \<and>
      (s = ''deprecated'' \<longrightarrow> enable_deprecated_rules opt \<or>
        ask_include U (wizard_noisy_counts E counts sel) ''deprecated'' ''deprecated'' False = Some True) \<and>
      (ask_include U (wizard_tag_counts E counts sel) ''sysmon'' ''sysmon'' True = Some False \<longrightarrow>
        YString ''sysmon'' \<notin> set (unwrap_or [] (as_vec (yindex y ''tags''))))"
proof -
  let ?i = "ui_select U (selection_status_items E (ui_number U) counts)"
  have F': "F' = wizard_apply E U counts ?i opt F"
    using assms(1,3) by (auto simp: wizard_def Let_def split: if_splits)
  have "files ld = kept_docs E F' R (dir_docs W (RDir path d))"
    using read_dir_files(1) [OF assms(4) _ assms(5)] by (simp add: loader_new_def)
  with assms(6) obtain y0 where k: "rule_kept E F' R y0" and y: "y = expanded R y0"
    by (auto simp: kept_docs_def)
  obtain opt' where opt': "output_option F' = Some opt'"
    and dep: "enable_deprecated_rules opt' \<longrightarrow> enable_deprecated_rules opt \<or>
        ask_include U (wizard_noisy_counts E counts sel) ''deprecated'' ''deprecated'' False = Some True"
    and sys: "ask_include U (wizard_tag_counts E counts sel) ''sysmon'' ''sysmon'' True = Some False \<longrightarrow>
        (\<exists>tags. exclude_tag opt' = Some tags \<and> ''sysmon'' \<in> set tags)"
    using ask_opts by (auto simp: F' wizard_apply_def Let_def assms(7) [symmetric] refuse_tag_def)
  have inc: "include_status F' = fold List.insert (fst sel) []" and least: "min_level F' = snd sel"
    by (simp_all add: F' wizard_apply_def Let_def assms(2,7))
  have set_inc: "set (include_status F') = set (fst sel)"
    by (simp add: inc set_insert_all)
  have "level_at_least E (snd sel) (map ascii_upper_char (unwrap_or ''informational'' (as_str (yindex y ''level''))))"
    using k by (simp add: rule_kept_def passes_def level_excluded_def Let_def level_at_least_def y least not_less)
  moreover have "\<exists>s. as_str (yindex y ''status'') = Some s \<and> (''*'' \<in> set (fst sel) \<or> s \<in> set (fst sel)) \<and>
      (s = ''deprecated'' \<longrightarrow> enable_deprecated_rules opt')"
    unfolding y by (rule kept_status [OF k opt']) (auto simp: all_statuses_allowed_def set_inc)
  moreover have "ask_include U (wizard_tag_counts E counts sel) ''sysmon'' ''sysmon'' True = Some False \<longrightarrow>
      YString ''sysmon'' \<notin> set (unwrap_or [] (as_vec (yindex y ''tags'')))"
    using sys kept_tags [OF k opt'] by (cases "as_vec (yindex y ''tags'')") (auto simp: y)
  ultimately show ?thesis using dep by blast
qed

text \<open>A sample dialogue: the first set, and every question about rules is answered with no.\<close>

definition sample_ui :: wizard_ui where
  "sample_ui = \<lparr>ui_select = (\<lambda>_. 0), ui_confirm = (\<lambda>_ _. False), ui_number = show_int\<rparr>"

definition sample_opt :: output_filters where
  "sample_opt =
     \<lparr>exclude_status = None, enable_noisy_rules = False, enable_deprecated_rules = False,
      enable_unsupported_rules = False, include_category = None, exclude_category = None, include_tag = None,
      exclude_tag = None\<rparr>"

definition sample_wizard_filters :: rule_filters where
  "sample_wizard_filters = sample_filters\<lparr>include_status := [], output_option := Some sample_opt\<rparr>"

definition sample_counts :: rule_counts where
  "sample_counts = [(''test'', [(''HIGH'', [(''sysmon'', 1), (''other'', 1)])])]"

definition sample_chosen :: rule_filters where
  "sample_chosen = wizard_apply env0 sample_ui sample_counts 0 sample_opt sample_wizard_filters"

lemma sample_wizard: "wizard env0 sample_ui sample_counts sample_wizard_filters = Some sample_chosen"
  by (simp add: wizard_def sample_chosen_def sample_ui_def sample_wizard_filters_def selections_status_def)

theorem wizard_choice_respected_witness:
  "\<exists>ld. read_dir env0 sample_world sample_chosen (RDir ''rules'' sample_dir) (loader_new [] no_tables) = (ld, Ok ()) \<and>
     files ld = [(''rules/a.yml'', sample_rule)] \<and>
     (\<exists>s. as_str (yindex sample_rule ''status'') = Some s \<and> s \<in> {''test'', ''stable''}) \<and>
     exclude_tag (the (output_option sample_chosen)) = Some [''sysmon'']"
proof -
  have R: "read_expand_files (expand_files sample_world) = Inr []"
    by (simp add: read_expand_files_def sample_world_def)
  obtain ld where r: "read_dir env0 sample_world sample_chosen (RDir ''rules'' sample_dir) (loader_new [] no_tables) = (ld, Ok ())"
    using read_dir_ok(1) [OF R sample_dir_readable] by (metis prod.collapse)
  have "passes env0 sample_chosen sample_rule \<longleftrightarrow> True" by code_simp
  moreover have "uses_expand sample_rule = False" by code_simp
  ultimately have k: "rule_kept env0 sample_chosen [] sample_rule"
    by (simp add: rule_kept_def sample_rule_kept(2))
  have f: "files ld = [(''rules/a.yml'', sample_rule)]"
    using read_dir_files(1) [OF R _ r]
    by (simp add: kept_docs_def sample_dir_docs k sample_rule_kept(2) loader_new_def)
  have "exclude_tag (the (output_option sample_chosen)) = Some [''sysmon'']" by code_simp
  moreover have "include_status sample_wizard_filters = []" "output_option sample_wizard_filters = Some sample_opt"
    "(''rules/a.yml'', sample_rule) \<in> set (files ld)"
    by (simp_all add: sample_wizard_filters_def f)
  note wizard_choice_respected [OF sample_wizard this(1,2) R r this(3) refl]
  ultimately show ?thesis using r f by (auto simp: selections_status_def sample_ui_def)
qed

text \<open>The sets of every status show deprecated, unsupported and noisy rules, which are not loaded unless a question is answered with yes.\<close>

lemma wizard_shows_deprecated:
  "section_count env0 [(''deprecated'', [(''HIGH'', [(''other'', 1)])]), (''noisy'', [(''HIGH'', [(''test'', 1)])])] ([''*''], ''low'') = 2"
  by code_simp
end
