(* ===== verification/Html_Report.thy ===== *)
theory Html_Report
  imports Json_Output
begin

section \<open>The HTML report (htmlreport.rs, utils.rs, afterfact.rs)\<close>

text \<open>
  The report is collected as lines of Markdown in named sections and rendered at the end. Texts from
  the event logs are escaped before they go into a line. The crates that render Markdown, encode
  Base64 and embed the images are parameters.
\<close>

subsection \<open>Escaping\<close>

definition html_escape_char :: "char \<Rightarrow> string" where
  "html_escape_char c =
     (if c = CHR ''<'' then ''&lt;''
      else if c = CHR ''>'' then ''&gt;''
      else if c = CHR ''&'' then ''&amp;''
      else if c = CHR 0x22 then ''&quot;''
      else if c = CHR 0x27 then ''&#39;''
      else [c])"

definition html_escape_value :: "string \<Rightarrow> string" where
  "html_escape_value s = concat (map html_escape_char s)"

subsection \<open>The reporter\<close>

record html_reporter =
  section_order :: "string list"
  md_datas :: "(string \<times> string list) list"

definition general_overview :: string where
  "general_overview = ''General Overview {#general_overview}''"

definition results_summary :: string where
  "results_summary = ''Results Summary {#results_summary}''"

definition get_init_md_data_map :: "string list \<times> (string \<times> string list) list" where
  "get_init_md_data_map =
     (let section_order = [general_overview, results_summary] in (section_order, map (\<lambda>s. (s, [])) section_order))"

definition html_reporter_new :: html_reporter where
  "html_reporter_new =
     (case get_init_md_data_map of (order, data) \<Rightarrow> \<lparr>section_order = order, md_datas = data\<rparr>)"

text \<open>No lines make no entry, so an unknown section is only made by a line for it.\<close>

definition add_md_data :: "string \<Rightarrow> string list \<Rightarrow> html_reporter \<Rightarrow> html_reporter" where
  "add_md_data name data r =
     r\<lparr>md_datas := fold (\<lambda>c m. assoc_insert name (unwrap_or [] (map_of m name) @ [c]) m) data (md_datas r)\<rparr>"

definition output_and_data_stack_for_html :: "string \<Rightarrow> string \<Rightarrow> bool \<Rightarrow> html_reporter \<Rightarrow> html_reporter" where
  "output_and_data_stack_for_html output_str name html_report_flag r =
     (if html_report_flag then add_md_data name [''- '' @ output_str] r else r)"

text \<open>The Markdown of a section, if there is one, and of the report; the rest is the renderer's.\<close>

definition section_md :: "html_reporter \<Rightarrow> string \<Rightarrow> string list" where
  "section_md r name =
     (case map_of (md_datas r) name of
        None \<Rightarrow> []
      | Some v \<Rightarrow>
          [''## '' @ name @ newline, if v = [] then ''not found data.'' @ newline else join newline v])"

definition report_md :: "html_reporter \<Rightarrow> string" where
  "report_md r = join newline (concat (map (section_md r) (section_order r)))"

definition create_html :: "(string \<Rightarrow> string) \<Rightarrow> html_reporter \<Rightarrow> string" where
  "create_html render r = render (report_md r)"

subsection \<open>Images\<close>

definition get_file_type :: "string \<Rightarrow> string" where
  "get_file_type hex =
     (if starts_with hex ''ffd8ffe0'' then ''jpeg''
      else if starts_with hex ''89504e47'' then ''png''
      else if starts_with hex ''47494638'' then ''gif''
      else [])"

definition img_to_base64 ::
  "(string \<Rightarrow> nat list option) \<Rightarrow> (nat list \<Rightarrow> string) \<Rightarrow> (nat list \<Rightarrow> string) \<Rightarrow> string \<Rightarrow> string" where
  "img_to_base64 embedded hex_encode base64_encode path =
     (case embedded path of
        None \<Rightarrow> []
      | Some bytes \<Rightarrow>
          (let file_type = get_file_type (hex_encode bytes) in
           if file_type = [] then []
           else ''data:image/'' @ file_type @ '';base64,'' @
             replace_all [CHR 0x0D, CHR 0x0A] [] (base64_encode bytes)))"

subsection \<open>The table of tactics\<close>

text \<open>
  The computers with the tactics of the rules that matched on them. The order is that of a text made
  of the last tactic and the name, descending. A computer without a tactic would be a panic; the
  program adds a computer only together with a tactic.
\<close>

type_synonym attck_map = "(string \<times> (string \<times> int \<times> int) list) list"

definition attck_key :: "string \<times> (string \<times> int \<times> int) list \<Rightarrow> string" where
  "attck_key e = fst (last (snd e)) @ ''-'' @ fst e"

definition attck_row :: "string \<times> (string \<times> int \<times> int) list \<Rightarrow> string" where
  "attck_row e =
     ''|'' @ html_escape_value (fst e) @ ''|'' @
     join ''<br>'' (map (\<lambda>(tactic, uniq, sum). tactic @ '' ('' @ show_int uniq @ '' &#124; '' @ show_int sum @ '')'') (snd e)) @
     ''|''"

text \<open>\<open>sorted_by\<close> is stable: entries with equal keys stay in the order of the map.\<close>

definition attck_sorted :: "attck_map \<Rightarrow> attck_map" where
  "attck_sorted m = rev (sort_key attck_key (rev m))"

definition output_html_computer_by_mitre_attck :: "attck_map \<Rightarrow> string list option" where
  "output_html_computer_by_mitre_attck m =
     (if 2 \<le> length m \<and> list_ex (\<lambda>e. snd e = []) m then None
      else Some
        ([''### MITRE ATT&CK Tactics:{#computers_with_mitre_attck_detections}''] @
         (if m = []
          then [''- No computers were detected with MITRE ATT&CK Tactics.<br>Make sure you run Hayabusa with a profile that includes %MitreTactics% in order to get this info.<br>'']
          else [''|Computer| MITRE ATT&CK Tactics|'', ''|---|---|'']) @
         map attck_row (attck_sorted m)))"

subsection \<open>Escaped texts\<close>

text \<open>The reader of the report, on the five entities.\<close>

function html_unescape :: "string \<Rightarrow> string" where
  "html_unescape [] = []"
| "html_unescape (c # s) =
     (if c \<noteq> CHR ''&'' then c # html_unescape s
      else if starts_with s ''lt;'' then CHR ''<'' # html_unescape (drop 3 s)
      else if starts_with s ''gt;'' then CHR ''>'' # html_unescape (drop 3 s)
      else if starts_with s ''amp;'' then CHR ''&'' # html_unescape (drop 4 s)
      else if starts_with s ''quot;'' then CHR 0x22 # html_unescape (drop 5 s)
      else if starts_with s ''#39;'' then CHR 0x27 # html_unescape (drop 4 s)
      else c # html_unescape s)"
  by pat_completeness auto
termination by (relation "measure length") auto

lemma html_unescape_char: "html_unescape (html_escape_char c @ t) = c # html_unescape t"
  by (simp add: html_escape_char_def)

lemma html_unescape_escape: "html_unescape (html_escape_value s) = s"
  by (induction s) (simp_all add: html_escape_value_def html_unescape_char)

lemma html_escape_char_safe: "set (html_escape_char c) \<inter> {CHR ''<'', CHR ''>'', CHR 0x22, CHR 0x27} = {}"
  by (simp add: html_escape_char_def)

subsection \<open>Lines of the report\<close>

lemma md_datas_add:
  "map_of (md_datas (add_md_data name data r)) n =
     (if n = name \<and> data \<noteq> [] then Some (unwrap_or [] (map_of (md_datas r) name) @ data) else map_of (md_datas r) n)"
proof -
  have "map_of (fold (\<lambda>c m. assoc_insert name (unwrap_or [] (map_of m name) @ [c]) m) data m) n =
     (if n = name \<and> data \<noteq> [] then Some (unwrap_or [] (map_of m name) @ data) else map_of m n)" for m
    by (induction data arbitrary: m) auto
  then show ?thesis by (simp add: add_md_data_def)
qed

text \<open>A name that ends in the sign of a table cell breaks the row: only the five characters are escaped.\<close>

lemma bar_not_escaped: "attck_row (''a|b'', [(''Exec'', 1, 2)]) = ''|a|b|Exec (1 &#124; 2)|''"
  by code_simp

end
