(* ===== verification/Summary.thy ===== *)
theory Summary
  imports Html_Report "HOL-Library.Word"
begin

section \<open>The summary of a scan (afterfact.rs, utils.rs)\<close>

text \<open>
  What is written after the detections: the rule authors, the times, the numbers of events and
  detections by level, date, computer and rule, on the terminal and as lines of the HTML report.
  \<open>num_format\<close> and \<open>chrono\<close> write numbers and times, and are parameters, as is the text of a
  percentage, which the program computes in floating point. The tables are the texts of their cells.
\<close>

subsection \<open>Terminal output\<close>

type_synonym rgb = "nat \<times> nat \<times> nat"

datatype console = Put "rgb option" string | Newline | Table "(string \<times> rgb option) list list"

definition get_writable_color :: "rgb option \<Rightarrow> bool \<Rightarrow> rgb option" where
  "get_writable_color color no_color = (if no_color then None else color)"

definition write_color_buffer :: "rgb option \<Rightarrow> string \<Rightarrow> bool \<Rightarrow> console list" where
  "write_color_buffer color output_str newline_flag = Put color output_str # (if newline_flag then [Newline] else [])"

subsection \<open>Times\<close>

record time_format_options =
  european_time :: bool
  iso_8601 :: bool
  rfc_2822 :: bool
  rfc_3339 :: bool
  us_military_time :: bool
  us_time :: bool
  utc :: bool

definition time_pattern :: "bool \<Rightarrow> time_format_options \<Rightarrow> string" where
  "time_pattern date_only t =
     (if rfc_2822 t then (if date_only then ''%a, %e %b %Y'' else ''%a, %e %b %Y %H:%M:%S %:z'')
      else if rfc_3339 t then (if date_only then ''%Y-%m-%d'' else ''%Y-%m-%d %H:%M:%S%.6f%:z'')
      else if us_time t then (if date_only then ''%m-%d-%Y'' else ''%m-%d-%Y %I:%M:%S%.3f %p %:z'')
      else if us_military_time t then (if date_only then ''%m-%d-%Y'' else ''%m-%d-%Y %H:%M:%S%.3f %:z'')
      else if european_time t then (if date_only then ''%d-%m-%Y'' else ''%d-%m-%Y %H:%M:%S%.3f %:z'')
      else if iso_8601 t then (if date_only then ''%Y-%m-%d'' else ''%Y-%m-%dT%H:%M:%S%.fZ'')
      else if date_only then ''%Y-%m-%d'' else ''%Y-%m-%d %H:%M:%S%.3f %:z'')"

text \<open>\<open>strftime local pattern time\<close> is \<open>DateTime::format\<close>, in the local time zone or in UTC.\<close>

definition format_time :: "(bool \<Rightarrow> string \<Rightarrow> int \<Rightarrow> string) \<Rightarrow> int \<Rightarrow> bool \<Rightarrow> time_format_options \<Rightarrow> string" where
  "format_time strftime time date_only t =
     strftime (\<not> (utc t \<or> iso_8601 t)) (time_pattern date_only t) time"

text \<open>\<open>_get_timestamp\<close>: seconds, shifted by the local offset of the epoch.\<close>

definition get_timestamp :: "int \<Rightarrow> time_format_options \<Rightarrow> int \<Rightarrow> int" where
  "get_timestamp local_offset t time =
     (if utc t \<or> iso_8601 t then time div 10 ^ 9 else local_offset + time div 10 ^ 9)"

definition pad_left :: "nat \<Rightarrow> string \<Rightarrow> string" where
  "pad_left n s = replicate (n - length s) (CHR ''0'') @ s"

text \<open>\<open>output_duration\<close>; the remainder and the quotient are those of non-negative seconds.\<close>

definition output_duration :: "int \<times> int \<Rightarrow> string" where
  "output_duration d =
     (case (if fst d < 0 then (- fst d, - snd d) else d) of
        (s, ms) \<Rightarrow>
          pad_left 2 (show_int (s div 3600)) @ '':'' @ pad_left 2 (show_int (s mod 3600 div 60)) @ '':'' @
          pad_left 2 (show_int (s mod 60)) @ ''.'' @
          (if ms < 0 then CHR ''-'' # pad_left 2 (show_int (- ms)) else pad_left 3 (show_int ms)))"

subsection \<open>Configuration\<close>

record summary_config =
  sm_number :: "int \<Rightarrow> string"
  sm_percent :: "nat \<Rightarrow> nat \<Rightarrow> string"
  sm_time :: "int \<Rightarrow> string"
  sm_color :: "level \<rightharpoonup> rgb"
  sm_no_color :: bool
  sm_html :: bool
  sm_recover :: bool
  sm_no_summary :: bool
  sm_visualize :: bool
  sm_display :: bool
  sm_width :: "nat option"
  sm_encoded_rules :: bool
  sm_markers :: "int list \<Rightarrow> nat \<Rightarrow> nat \<Rightarrow> string \<times> string"
  sm_sparkline :: "int list \<Rightarrow> nat \<Rightarrow> nat \<Rightarrow> string"

record summary_info = afterfact_info +
  tl_starttime :: "int option"
  tl_endtime :: "int option"
  detect_starttime :: "int option"
  detect_endtime :: "int option"
  record_cnt :: nat
  recover_record_cnt :: nat

text \<open>The levels that are shown, from the highest down; \<open>LEVEL::iter().rev()\<close> without the undefined level.\<close>

definition shown_levels :: "level list" where
  "shown_levels = filter (\<lambda>l. l \<noteq> UNDEFINED) (rev all_levels)"

text \<open>Subtraction of \<open>usize\<close>, which wraps: overflow checks are off in both profiles of the build.\<close>

definition usize_sub :: "nat \<Rightarrow> nat \<Rightarrow> nat" where
  "usize_sub a b = unat ((of_nat a :: 64 word) - of_nat b)"

text \<open>A slice of a text up to a byte, a panic inside a character.\<close>

definition str_prefix :: "nat \<Rightarrow> string \<Rightarrow> string option" where
  "str_prefix n s = (if n < length s \<and> is_cont (s ! n) \<or> length s < n then None else Some (take n s))"

text \<open>\<open>sort_by_key\<close> on the negated count is stable; the list is the iteration order of the map.\<close>

definition by_count :: "(string \<times> nat) list \<Rightarrow> (string \<times> nat) list" where
  "by_count m = sort_key (\<lambda>a. - int (snd a)) m"

subsection \<open>Rule authors\<close>

definition table_column_num :: "nat \<Rightarrow> nat" where
  "table_column_num w =
     (if w \<le> 105 then 2 else if w < 140 then 3 else if w < 175 then 4 else if w \<le> 210 then 5 else 6)"

definition author_rows :: "nat \<Rightarrow> nat \<Rightarrow> nat" where
  "author_rows authors_num columns =
     (if authors_num \<le> columns then 1
      else if authors_num mod 4 \<noteq> 0 then authors_num div columns + 1
      else authors_num div columns)"

text \<open>The positions of the sorted authors in each column.\<close>

definition author_columns :: "nat \<Rightarrow> nat \<Rightarrow> nat list list" where
  "author_columns n columns =
     map (\<lambda>x. filter (\<lambda>i. i < n) (map (\<lambda>y. y * columns + x) [0..<author_rows n columns])) [0..<columns]"

definition author_cell :: "string \<times> nat \<Rightarrow> string option" where
  "author_cell a =
     map_option (\<lambda>name. name @ '' ('' @ show_nat (snd a) @ '')'')
       (if length (fst a) \<le> 27 then Some (fst a) else map_option (\<lambda>p. p @ ''...'') (str_prefix 24 (fst a)))"

definition author_table :: "counter \<Rightarrow> nat \<Rightarrow> string list option" where
  "author_table authors columns =
     (let sorted_authors = by_count authors in
      map_option (map (join newline))
        (those (map (\<lambda>col. those (map (\<lambda>i. author_cell (sorted_authors ! i)) col))
           (filter (\<lambda>col. col \<noteq> []) (author_columns (length sorted_authors) columns)))))"

definition output_detected_rule_authors :: "counter \<Rightarrow> nat \<Rightarrow> console list option" where
  "output_detected_rule_authors authors columns =
     map_option (\<lambda>cells. [Table (if cells = [] then [] else [map (\<lambda>c. (c, None)) cells]), Newline])
       (author_table authors columns)"


subsection \<open>Detections by level\<close>

definition percent_text :: "summary_config \<Rightarrow> nat \<Rightarrow> nat \<Rightarrow> string" where
  "percent_text S part whole = (if whole = 0 then ''0.00'' else sm_percent S part whole)"

text \<open>
  The counters are read from their end, but the share of the unique detections from their start. A
  list that is too short is a panic.
\<close>

definition number_text :: "summary_config \<Rightarrow> nat \<Rightarrow> string" where
  "number_text S n = sm_number S (int n)"

definition level_html :: "summary_config \<Rightarrow> level \<Rightarrow> nat \<Rightarrow> string \<Rightarrow> string" where
  "level_html S l n percent = ''    - '' @ to_full l @ '': '' @ number_text S n @ '' ('' @ percent @ ''%)''"

definition level_line :: "summary_config \<Rightarrow> string \<times> string \<Rightarrow> level \<Rightarrow> nat \<times> string \<Rightarrow> nat \<times> string \<Rightarrow> string" where
  "level_line S words l a u =
     fst words @ '' '' @ to_full l @ '' '' @ snd words @ '': '' @
     number_text S (fst a) @ '' ('' @ snd a @ ''%) | '' @ number_text S (fst u) @ '' ('' @ snd u @ ''%)''"

definition level_shares :: "summary_config \<Rightarrow> nat list \<Rightarrow> nat list \<Rightarrow> (level \<times> (nat \<times> string) \<times> nat \<times> string) list" where
  "level_shares S counts uniques =
     map (\<lambda>(i, l).
       (l, (rev counts ! i, percent_text S (rev counts ! i) (sum_list counts)),
           (rev uniques ! i, percent_text S (uniques ! i) (sum_list uniques))))
       (enumerate 0 shown_levels)"

definition print_unique_results ::
  "summary_config \<Rightarrow> nat list \<Rightarrow> nat list \<Rightarrow> string \<times> string \<Rightarrow> (console list \<times> string list) option" where
  "print_unique_results S counts uniques words =
     (if length counts < length shown_levels \<or> length uniques < length shown_levels then None
      else
        (let shares = level_shares S counts uniques;
             head = fst words @ '' '' @ snd words @ '': '' @ number_text S (sum_list counts) @ '' | '' @
               number_text S (sum_list uniques)
         in Some
           (write_color_buffer None head True @
            concat (map (\<lambda>(l, a, u). write_color_buffer (sm_color S l) (level_line S words l a u) True) shares),
            if sm_html S
            then ''- Total detections:'' # map (\<lambda>(l, a, u). level_html S l (fst a) (snd a)) shares @
                 ''- Unique detections:'' # map (\<lambda>(l, a, u). level_html S l (fst u) (snd u)) shares
            else [])))"

subsection \<open>Detections by date\<close>

definition count_text :: "summary_config \<Rightarrow> string \<times> nat \<Rightarrow> string" where
  "count_text S e = fst e @ '' ('' @ number_text S (snd e) @ '')''"

definition max_date :: "counter \<Rightarrow> (string \<times> nat) option" where
  "max_date detections_by_day =
     fold (\<lambda>e best. if (case best of None \<Rightarrow> 0 | Some b \<Rightarrow> snd b) < snd e then Some e else best) detections_by_day None"

definition date_text :: "summary_config \<Rightarrow> level \<Rightarrow> counter \<Rightarrow> string" where
  "date_text S l m = to_full l @ '': '' @ (case max_date m of None \<Rightarrow> ''n/a'' | Some e \<Rightarrow> count_text S e)"

text \<open>A level without an entry is a panic, here and below; the counters start with one for each level.\<close>

definition level_entries :: "level_counts \<Rightarrow> (level \<times> counter) list option" where
  "level_entries counts = those (map (\<lambda>l. map_option (Pair l) (map_of counts l)) shown_levels)"

definition print_detection_summary_by_date :: "summary_config \<Rightarrow> level_counts \<Rightarrow> (console list \<times> string list) option" where
  "print_detection_summary_by_date S counts =
     map_option (\<lambda>es.
       (write_color_buffer None ''Dates with most total detections:'' True @
        concat (map (\<lambda>(i, l, m). Put (sm_color S l) (date_text S l m) # (if i \<noteq> length all_levels - 2 then [Put None '', ''] else []))
          (enumerate 0 es)),
        if sm_html S
        then ''- Dates with most total detections:'' # map (\<lambda>(l, m). ''    - '' @ date_text S l m) es
        else []))
     (level_entries counts)"

subsection \<open>Detections by computer\<close>

definition sorted_computers :: "counter \<Rightarrow> (string \<times> nat) list" where
  "sorted_computers m = by_count (filter (\<lambda>a. fst a \<noteq> ''-'') m)"

definition computer_html :: "summary_config \<Rightarrow> level \<times> counter \<Rightarrow> string list" where
  "computer_html S e =
     (''### Computers with most unique '' @ to_full (fst e) @ '' detections: {#computers_with_most_unique_'' @
       to_full (fst e) @ ''_detections}'') #
     map (\<lambda>x. ''- '' @ count_text S (html_escape_value (fst x), snd x)) (sorted_computers (snd e)) @ [[]]"

definition computer_line :: "summary_config \<Rightarrow> level \<times> counter \<Rightarrow> string" where
  "computer_line S e =
     (let result = map (count_text S) (take 5 (sorted_computers (snd e))) in
      to_full (fst e) @ '': '' @ (if result = [] then ''n/a'' else join '', '' result))"

definition print_detection_summary_by_computer ::
  "summary_config \<Rightarrow> level_counts \<Rightarrow> (console list \<times> string list) option" where
  "print_detection_summary_by_computer S counts =
     map_option (\<lambda>es.
       ([Put None ''Top 5 computers with most unique detections:'', Newline] @
        concat (map (\<lambda>e. [Put (sm_color S (fst e)) (computer_line S e), Newline]) es),
        if sm_html S then concat (map (computer_html S) es) else []))
     (level_entries counts)"

subsection \<open>Detections by rule\<close>

definition not_found_path :: string where
  "not_found_path = ''<Not Found Path>''"

definition rule_html ::
  "summary_config \<Rightarrow> (string \<times> string) list \<Rightarrow> (string \<times> string) list \<Rightarrow> string \<times> nat \<Rightarrow> string" where
  "rule_html S title_path authors x =
     (let rule_path = unwrap_or not_found_path (map_of title_path (fst x));
          author = html_escape_value (unwrap_or not_found_path (map_of authors rule_path));
          title = html_escape_value (fst x)
      in (if sm_encoded_rules S then ''- '' @ title
          else ''- ['' @ title @ '']('' @ replace_all [CHR 0x5C] ''/'' rule_path @ '')'') @
         '' ('' @ number_text S (snd x) @ '') - '' @ author)"

definition rules_html ::
  "summary_config \<Rightarrow> (string \<times> string) list \<Rightarrow> (string \<times> string) list \<Rightarrow> level \<times> counter \<Rightarrow> string list" where
  "rules_html S title_path authors e =
     (''### All '' @ to_full (fst e) @ '' alerts: {#all_'' @ to_full (fst e) @ ''_alerts}'') #
     map (rule_html S title_path authors) (by_count (snd e)) @ [[]]"

definition title_cell :: "summary_config \<Rightarrow> nat \<Rightarrow> string \<times> nat \<Rightarrow> string option" where
  "title_cell S limit_num x =
     map_option (\<lambda>t. count_text S (t, snd x))
       (if usize_sub limit_num 3 < length (fst x)
        then map_option (\<lambda>p. p @ ''...'') (str_prefix (usize_sub limit_num 3) (fst x))
        else Some (fst x))"

definition rule_column :: "summary_config \<Rightarrow> nat \<Rightarrow> level \<times> counter \<Rightarrow> (string \<times> string) option" where
  "rule_column S limit_num e =
     map_option (\<lambda>cells. (''Top '' @ to_full (fst e) @ '' alerts:'', join newline (cells @ replicate (5 - length (snd e)) ''n/a'')))
       (those (map (title_cell S limit_num) (take 5 (by_count (snd e)))))"

text \<open>Two levels side by side: a row of titles and a row of the rules.\<close>

fun table_rows :: "((string \<times> string) \<times> rgb option) list \<Rightarrow> (string \<times> rgb option) list list" where
  "table_rows (((t, c), k) # ((t', c'), k') # rest) = [(t, k), (t', k')] # [(c, k), (c', k')] # table_rows rest"
| "table_rows _ = []"

definition print_detection_summary_tables ::
  "summary_config \<Rightarrow> level_counts \<Rightarrow> (string \<times> string) list \<Rightarrow> (string \<times> string) list \<Rightarrow> nat \<Rightarrow>
   (console list \<times> string list) option" where
  "print_detection_summary_tables S counts title_path authors limit_num =
     Option.bind (level_entries counts) (\<lambda>es.
       map_option (\<lambda>cols.
         ([Table (table_rows (zip cols (map (\<lambda>e. sm_color S (fst e)) es))), Newline],
          if sm_html S then concat (map (rules_html S title_path authors) es) else []))
       (those (map (rule_column S limit_num) es)))"

subsection \<open>The histogram\<close>

text \<open>
  Blanks before a title. An allocation that no machine can serve ends the program; with a width less
  than that of the title the subtraction wraps and asks for one.
\<close>

definition blanks :: "nat \<Rightarrow> string option" where
  "blanks n = (if 2 ^ 47 \<le> n then None else Some (replicate n (CHR '' '')))"

definition hist_title :: string where
  "hist_title = ''Detection Frequency Timeline''"

definition margin_lines :: "string \<Rightarrow> nat \<Rightarrow> console list" where
  "margin_lines text margin =
     concat (map (\<lambda>l. [Put None (replicate margin (CHR '' '') @ l), Newline]) (lines text))"

definition print_timeline_hist :: "summary_config \<Rightarrow> int list \<Rightarrow> nat \<Rightarrow> nat \<Rightarrow> console list option" where
  "print_timeline_hist S ts len side_margin_size =
     (if ts = [] then Some []
      else if length ts < 5 then
        Some [Put None ''Detection Frequency Timeline could not be displayed as there needs to be more than 5 events.'', Newline]
      else
        map_option (\<lambda>sp.
          (let marker_num = min (length ts - 2) 18;
               inner = usize_sub len (side_margin_size * 2);
               (header, footer) = sm_markers S ts marker_num inner;
               margin = side_margin_size - 1
           in [Newline, Put None (sp @ hist_title), Newline] @ margin_lines header margin @
              margin_lines (sm_sparkline S ts inner 5) margin @ margin_lines footer margin))
        (blanks (usize_sub len (length hist_title) div 2)))"

subsection \<open>The whole summary\<close>

definition green :: rgb where "green = (0, 255, 0)"
definition yellow :: rgb where "yellow = (255, 255, 0)"
definition cyan :: rgb where "cyan = (0, 255, 255)"

definition colored_text :: "summary_config \<Rightarrow> rgb option \<Rightarrow> string \<Rightarrow> bool \<Rightarrow> console list" where
  "colored_text S color s newline_flag = write_color_buffer (get_writable_color color (sm_no_color S)) s newline_flag"

text \<open>The four times: the label, the time, and whether a blank line follows on the terminal.\<close>

definition summary_times :: "summary_config \<Rightarrow> summary_info \<Rightarrow> (string \<times> bool) list" where
  "summary_times S I =
     option_list (map (\<lambda>(label, t, blank). map_option (\<lambda>t. (label @ '': '' @ sm_time S t, blank)) t)
       [(''First timestamp'', tl_starttime I, False), (''Last timestamp'', tl_endtime I, True),
        (''First detection'', detect_starttime I, False), (''Last detection'', detect_endtime I, True)])"

definition times_html :: "summary_config \<Rightarrow> summary_info \<Rightarrow> html_reporter \<Rightarrow> html_reporter" where
  "times_html S I r =
     fold (\<lambda>(text, _). output_and_data_stack_for_html text results_summary (sm_html S)) (summary_times S I) r"

definition times_console :: "summary_config \<Rightarrow> summary_info \<Rightarrow> console list" where
  "times_console S I =
     concat (map (\<lambda>(text, blank). write_color_buffer None text True @ (if blank then [Newline] else [])) (summary_times S I))"

text \<open>The blank lines that are printed while the times are put into the report.\<close>

definition times_blanks :: "summary_config \<Rightarrow> summary_info \<Rightarrow> console list" where
  "times_blanks S I = concat (map (\<lambda>(_, blank). if blank then [Newline] else []) (summary_times S I))"

text \<open>\<open>u128\<close> subtraction wraps like \<open>usize\<close>'s.\<close>

definition reducted_record_cnt :: "summary_info \<Rightarrow> nat" where
  "reducted_record_cnt I = unat ((of_nat (record_cnt I) :: 128 word) - of_nat (length (detected_record_idset I)))"

definition hits :: "summary_info \<Rightarrow> nat" where
  "hits I = unat ((of_nat (record_cnt I) :: 128 word) - of_nat (reducted_record_cnt I))"

definition reduction_output :: "summary_config \<Rightarrow> summary_info \<Rightarrow> string" where
  "reduction_output S I =
     ''Data reduction: '' @ number_text S (reducted_record_cnt I) @ '' events ('' @
     percent_text S (reducted_record_cnt I) (record_cnt I) @ ''%)''"

definition records_console :: "summary_config \<Rightarrow> summary_info \<Rightarrow> console list" where
  "records_console S I =
     colored_text S (Some yellow) ''Events with hits'' False @ colored_text S None '' / '' False @
     colored_text S (Some cyan) ''Total events'' False @ colored_text S None '': '' False @
     colored_text S (Some yellow) (number_text S (hits I)) False @ colored_text S None '' / '' False @
     colored_text S (Some cyan) (number_text S (record_cnt I)) False @ colored_text S None '' ('' False @
     colored_text S (Some green) (reduction_output S I) False @ colored_text S None '')'' True @
     (if sm_recover S
      then colored_text S (Some cyan) ''Recovered records'' False @ colored_text S None '': '' False @
           colored_text S (Some cyan) (number_text S (recover_record_cnt I)) True
      else []) @ [Newline]"

definition records_html :: "summary_config \<Rightarrow> summary_info \<Rightarrow> string list" where
  "records_html S I =
     (if sm_html S
      then [''- Events with hits: '' @ number_text S (hits I),
            ''- Total events analyzed: '' @ number_text S (record_cnt I), ''- '' @ reduction_output S I,
            ''- Recovered events analyzed: '' @ number_text S (recover_record_cnt I)]
      else [])"

definition html_blank :: "summary_config \<Rightarrow> string list" where
  "html_blank S = (if sm_html S then [[]] else [])"

text \<open>The sections one after the other, on the terminal and in the report.\<close>

definition summary_sections :: "summary_config \<Rightarrow> nat \<Rightarrow> summary_info \<Rightarrow> (console list \<times> string list) option" where
  "summary_sections S width I =
     Option.bind (print_unique_results S (total_detect_counts_by_level I) (unique_detect_counts_by_level I)
         (''Total | Unique'', ''detections'')) (\<lambda>(c1, h1).
     Option.bind (print_detection_summary_by_date S (detect_counts_by_date_and_level I)) (\<lambda>(c2, h2).
     Option.bind (print_detection_summary_by_computer S (detect_counts_by_computer_and_level I)) (\<lambda>(c3, h3).
     map_option (\<lambda>(c4, h4).
       (records_console S I @ c1 @ [Newline] @ times_console S I @ c2 @ [Newline, Newline] @ c3 @ [Newline] @ c4 @ [Newline],
        records_html S I @ h1 @ h2 @ html_blank S @ h3 @ html_blank S @ h4 @ html_blank S))
     (print_detection_summary_tables S (detect_counts_by_rule_and_level I) (rule_title_path_map I)
        (detect_rule_authors I) (min (usize_sub (width div 2) 15) 200)))))"

definition authors_section :: "summary_config \<Rightarrow> nat \<Rightarrow> summary_info \<Rightarrow> console list option" where
  "authors_section S width I =
     (if sm_no_summary S \<or> rule_author_counter I = [] then Some []
      else map_option (\<lambda>c. colored_text S (Some green) ''Rule Authors:'' False @ colored_text S None '' '' True @ [Newline] @ c)
        (output_detected_rule_authors (rule_author_counter I) (table_column_num width)))"

definition output_additional_afterfact ::
  "summary_config \<Rightarrow> attck_map \<Rightarrow> summary_info \<Rightarrow> html_reporter \<Rightarrow> (console list \<times> html_reporter) option" where
  "output_additional_afterfact S attck I r =
     (let width = unwrap_or 100 (sm_width S) in
      Option.bind (authors_section S width I) (\<lambda>c1.
      Option.bind (if sm_visualize S then map_option (\<lambda>c. c @ [Newline]) (print_timeline_hist S (timestamps I) width 3) else Some []) (\<lambda>c2.
      Option.bind (if sm_no_summary S then Some ([], [])
                   else map_option (\<lambda>(c, h). (colored_text S (Some green) ''Results Summary:'' False @ times_blanks S I @ c, h))
                     (summary_sections S width I)) (\<lambda>(c3, h).
      let r1 = (if sm_no_summary S then r else times_html S I r);
          out = (if sm_display S then [Newline] else []) @ c1 @ [Newline] @ c2 @ c3
      in if sm_html S
         then map_option (\<lambda>tactics. (out, add_md_data results_summary (h @ tactics) r1))
           (output_html_computer_by_mitre_attck attck)
         else Some (out, r1)))))"
end
