(* ===== verification/Csv_Output.thy ===== *)
theory Csv_Output
  imports Search Summary
begin

section \<open>The CSV and terminal output (afterfact.rs)\<close>

text \<open>
  How the detections are written: as rows of a CSV file, as JSON objects, or as coloured text on the
  terminal. The crate \<open>csv\<close>, which quotes and separates the cells, and the search of several patterns
  at once are parameters. \<open>emit_csv_inner\<close> gives what is handed to the writer; what happens when the
  file refuses it is in \<open>Scan_End\<close>.
\<close>

subsection \<open>The text of a value\<close>

datatype output_mode = CsvMode | JsonMode | JsonlMode

record emit_config =
  ec_mode :: output_mode
  ec_remove_duplicate_data :: bool
  ec_multiline :: bool
  ec_tab_separator :: bool
  ec_display :: bool
  ec_output_file :: bool
  ec_no_color :: bool
  ec_color :: "level \<rightharpoonup> rgb"
  ec_geo :: bool
  ec_profile :: "(string \<times> profile) list"

definition cr_lf :: string where "cr_lf = [CHR 0x0D, CHR 0x0A]"

definition output_replaced_maps :: "(string \<times> string) list" where
  "output_replaced_maps =
     [(passport @ ''r'', [CHR 0x0D]), (passport @ ''n'', [CHR 0x0A]), (passport @ ''t'', [CHR 0x09])]"

definition removed_replaced_maps :: "emit_config \<Rightarrow> (string \<times> string) list" where
  "removed_replaced_maps C =
     [([CHR 0x0A], '' ''), ([CHR 0x0D], '' ''), ([CHR 0x09], '' '')] @
     (if ec_multiline C then [(passport @ passport, cr_lf), (bar_sep, cr_lf)]
      else if ec_tab_separator C then [(passport @ passport, [CHR 0x09]), (bar_sep, [CHR 0x09])]
      else [])"

definition replace_maps :: "aho \<Rightarrow> (string \<times> string) list \<Rightarrow> string \<Rightarrow> string" where
  "replace_maps A m s = ac_replace A (map fst m) (map snd m) s"

definition output_text :: "aho \<Rightarrow> emit_config \<Rightarrow> string \<Rightarrow> string" where
  "output_text A C s =
     replace_maps A (removed_replaced_maps C)
       (join '' '' (split_whitespace (replace_maps A output_replaced_maps s)))"

subsection \<open>CSV rows\<close>

fun has_details :: "profile \<Rightarrow> bool" where
  "has_details (PDetails _) = True"
| "has_details (PAllFieldInfo _) = True"
| "has_details (PExtraFieldInfo _) = True"
| "has_details _ = False"

text \<open>
  A column of details that repeats the value written before it becomes \<open>DUP\<close>; before the first value
  stands a dash.
\<close>

type_synonym columns = "(string \<times> profile) list"

fun csv_cells :: "aho \<Rightarrow> emit_config \<Rightarrow> columns \<Rightarrow> columns \<Rightarrow> string list \<times> columns" where
  "csv_cells A C prev [] = ([], prev)"
| "csv_cells A C prev ((name, p) # fs) =
     (if has_details p
      then (let ret = (if ec_remove_duplicate_data C \<and>
                          to_value p = to_value (unwrap_or (PLiteral ''-'') (map_of prev name))
                       then ''DUP'' else output_text A C (to_value p))
            in map_prod ((#) ret) id (csv_cells A C (assoc_insert name p prev) fs))
      else map_prod ((#) (output_text A C (to_value p))) id (csv_cells A C prev fs))"

subsection \<open>Terminal rows\<close>

datatype col_pos = First | Last | Other

definition format_cellpos :: "string \<Rightarrow> col_pos \<Rightarrow> string" where
  "format_cellpos colval column =
     (case column of First \<Rightarrow> colval @ '' '' | Last \<Rightarrow> '' '' @ colval | Other \<Rightarrow> '' '' @ colval @ '' '')"

definition col_pos_of :: "nat \<Rightarrow> nat \<Rightarrow> col_pos" where
  "col_pos_of n i = (if i = 0 then First else if i = n - 1 then Last else Other)"

text \<open>The header: cells separated by a bar, which becomes a dot; an eagle in a name becomes a bar.\<close>

definition middle_dot :: string where "middle_dot = [CHR 0xC2, CHR 0xB7]"

definition disp_header :: "columns \<Rightarrow> string" where
  "disp_header data =
     replace_all eagle ''|'' (replace_all ''|'' middle_dot
       (join ''|'' (map (\<lambda>(i, d). format_cellpos (fst d) (col_pos_of (length data) i)) (enumerate 0 data)) @ newline))"

definition disp_text :: "aho \<Rightarrow> emit_config \<Rightarrow> string \<Rightarrow> string" where
  "disp_text A C s = join '' '' (split_ascii_whitespace (output_text A C s))"

fun uses_level_color :: "profile \<Rightarrow> bool" where
  "uses_level_color (PTimestamp _) = True"
| "uses_level_color (PLevel _) = True"
| "uses_level_color (PRuleTitle _) = True"
| "uses_level_color _ = False"

definition orange :: rgb where "orange = (255, 158, 61)"

text \<open>The parts of details: a part with a colon is a field and its value, other parts are left out.\<close>

definition field_pieces :: "aho \<Rightarrow> emit_config \<Rightarrow> string \<Rightarrow> (string \<times> rgb option) list option" where
  "field_pieces A C c =
     map_option (\<lambda>(field, val).
       [('' '' @ trim field @ '': '', get_writable_color (Some orange) (ec_no_color C)),
        (disp_text A C val @ '' '', get_writable_color (Some cyan) (ec_no_color C))])
     (split_once (CHR '':'') c)"

definition cell_pieces :: "aho \<Rightarrow> emit_config \<Rightarrow> rgb option \<Rightarrow> profile \<Rightarrow> string \<Rightarrow> (string \<times> rgb option) list list" where
  "cell_pieces A C level_color p contents =
     (if uses_level_color p then [[(contents, get_writable_color level_color (ec_no_color C))]]
      else if has_details p then
        (let pairs = option_list (map (field_pieces A C) (split_str broken_bar [] contents))
         in if pairs = [] then [[(contents, None)]] else pairs)
      else [[(contents, None)]])"

fun put_pieces :: "(string \<times> rgb option) list list \<Rightarrow> console list" where
  "put_pieces [] = []"
| "put_pieces [ps] = map (\<lambda>(c, k). Put k c) ps"
| "put_pieces (ps # rest) = map (\<lambda>(c, k). Put k c) ps @ [Put None broken_bar] @ put_pieces rest"

definition disp_row :: "aho \<Rightarrow> emit_config \<Rightarrow> rgb option \<Rightarrow> columns \<Rightarrow> console list" where
  "disp_row A C level_color data =
     concat (map (\<lambda>(i, d).
       put_pieces (cell_pieces A C level_color (snd d)
         (format_cellpos (disp_text A C (to_value (snd d))) (col_pos_of (length data) i))) @
       (if i \<noteq> length data - 1 then [Put (get_writable_color (Some orange) (ec_no_color C)) middle_dot]
        else [Newline, Newline])) (enumerate 0 data))"

subsection \<open>Writing the detections\<close>

text \<open>What is written: a row of the CSV writer, single fields of it, or text on the terminal.\<close>

datatype emitted_item = CsvRow "string list" | JsonFieldsOut "string list" | Screen "console list"

record emit_state =
  has_displayed_header :: bool
  prev_message :: columns
  prev_details_convert_map :: "(string \<times> string list) list"

definition emit_state_default :: emit_state where
  "emit_state_default = \<lparr>has_displayed_header = False, prev_message = [], prev_details_convert_map = []\<rparr>"

definition level_color_of :: "emit_config \<Rightarrow> detection_info \<Rightarrow> rgb option" where
  "level_color_of C d = get_writable_color (ec_color C (di_level d)) (ec_no_color C)"

definition emit_screen :: "aho \<Rightarrow> emit_config \<Rightarrow> detection_info \<Rightarrow> emit_state \<Rightarrow> emitted_item list \<times> emit_state" where
  "emit_screen A C d st =
     ((if has_displayed_header st then [] else [Screen [Put (get_writable_color None (ec_no_color C)) (disp_header (ec_profile C))]]) @
      [Screen (disp_row A C (level_color_of C d) (ext_field d))],
      st\<lparr>has_displayed_header := True\<rparr>)"

definition emit_json :: "emit_config \<Rightarrow> detection_info \<Rightarrow> emit_state \<Rightarrow> emitted_item list \<times> emit_state" where
  "emit_json C d st =
     (let jsonl = (ec_mode C = JsonlMode);
          result = output_json_str d (prev_message st) (prev_details_convert_map st) jsonl (ec_geo C) (ec_remove_duplicate_data C);
          st' = st\<lparr>prev_message := snd result, prev_details_convert_map := details_convert_map d\<rparr>
      in ([if ec_display C
           then Screen (write_color_buffer None
                  (if jsonl then ''{ '' @ fst result @ '' }'' else ''{'' @ newline @ fst result @ newline @ ''}'') True)
           else JsonFieldsOut (if jsonl then [''{ '' @ fst result @ '' }''] else [''{'', fst result, ''}''])],
          st'))"

definition emit_csv_row :: "aho \<Rightarrow> emit_config \<Rightarrow> detection_info \<Rightarrow> emit_state \<Rightarrow> emitted_item list \<times> emit_state" where
  "emit_csv_row A C d st =
     (case csv_cells A C (prev_message st) (ext_field d) of
        (cells, prev) \<Rightarrow>
          ((if has_displayed_header st then [] else [CsvRow (map (\<lambda>x. trim (fst x)) (ext_field d))]) @ [CsvRow cells],
           st\<lparr>has_displayed_header := True, prev_message := prev\<rparr>))"

definition emit_detection :: "aho \<Rightarrow> emit_config \<Rightarrow> detection_info \<Rightarrow> emit_state \<Rightarrow> emitted_item list \<times> emit_state" where
  "emit_detection A C d st =
     (if ec_display C \<and> ec_mode C = CsvMode then emit_screen A C d st
      else if ec_mode C \<noteq> CsvMode then emit_json C d st
      else emit_csv_row A C d st)"

fun emit_loop ::
  "aho \<Rightarrow> emit_config \<Rightarrow> nat list \<Rightarrow> nat \<Rightarrow> detection_info list \<Rightarrow> emit_state \<Rightarrow> emitted_item list \<times> emit_state" where
  "emit_loop A C dups i [] st = ([], st)"
| "emit_loop A C dups i (d # ds) st =
     (if i \<in> set dups then emit_loop A C dups (i + 1) ds st
      else (case emit_detection A C d st of
              (items, st1) \<Rightarrow> map_prod ((@) items) id (emit_loop A C dups (i + 1) ds st1)))"

definition emit_csv_inner ::
  "aho \<Rightarrow> emit_config \<Rightarrow> detection_info list \<Rightarrow> nat list \<Rightarrow> emit_state \<Rightarrow> emitted_item list \<times> emit_state" where
  "emit_csv_inner A C ds dups st =
     (case emit_loop A C dups 0 ds st of
        (items, st') \<Rightarrow>
          (items @ (if ec_mode C \<noteq> CsvMode \<and> \<not> ec_output_file C then [Screen [Newline]] else []), st'))"

subsection \<open>The rows can be read back\<close>

text \<open>
  A reader of the rows: a cell of the columns \<open>D\<close> of details that says \<open>DUP\<close> stands for the value read
  before it in that column, \<open>dash\<close> for the first.
\<close>

fun undo_cells ::
  "(string \<Rightarrow> bool) \<Rightarrow> string \<Rightarrow> (string \<rightharpoonup> string) \<Rightarrow> string list \<Rightarrow> string list \<Rightarrow> string list \<times> (string \<rightharpoonup> string)" where
  "undo_cells D dash prev (n # ns) (c # cs) =
     (let v = (if D n \<and> c = ''DUP'' then unwrap_or dash (prev n) else c)
      in map_prod ((#) v) id (undo_cells D dash (if D n then prev(n \<mapsto> v) else prev) ns cs))"
| "undo_cells D dash prev _ _ = ([], prev)"

fun undo_rows ::
  "(string \<Rightarrow> bool) \<Rightarrow> string \<Rightarrow> string list \<Rightarrow> (string \<rightharpoonup> string) \<Rightarrow> string list list \<Rightarrow> string list list" where
  "undo_rows D dash names prev [] = []"
| "undo_rows D dash names prev (r # rs) =
     (case undo_cells D dash prev names r of (vs, prev') \<Rightarrow> vs # undo_rows D dash names prev' rs)"

definition row_values :: "aho \<Rightarrow> emit_config \<Rightarrow> detection_info \<Rightarrow> string list" where
  "row_values A C d = map (\<lambda>x. output_text A C (to_value (snd x))) (ext_field d)"

text \<open>A detection with the columns of the profile, whose details are not the text \<open>DUP\<close> themselves.\<close>

definition csv_row_ok :: "aho \<Rightarrow> emit_config \<Rightarrow> (string \<Rightarrow> bool) \<Rightarrow> string list \<Rightarrow> columns \<Rightarrow> bool" where
  "csv_row_ok A C D names fs \<longleftrightarrow>
     map fst fs = names \<and>
     list_all (\<lambda>x. has_details (snd x) = D (fst x) \<and>
       (has_details (snd x) \<longrightarrow> output_text A C (to_value (snd x)) \<noteq> ''DUP'')) fs"

definition prev_read :: "aho \<Rightarrow> emit_config \<Rightarrow> (string \<Rightarrow> bool) \<Rightarrow> columns \<Rightarrow> (string \<rightharpoonup> string) \<Rightarrow> bool" where
  "prev_read A C D prev seen \<longleftrightarrow> (\<forall>n. D n \<longrightarrow> seen n = map_option (\<lambda>p. output_text A C (to_value p)) (map_of prev n))"

lemma undo_csv_cells:
  assumes "csv_row_ok A C D names fs" and "prev_read A C D prev seen" and "csv_cells A C prev fs = (cells, prev')"
  shows "\<exists>seen'. undo_cells D (output_text A C ''-'') seen names cells =
      (map (\<lambda>x. output_text A C (to_value (snd x))) fs, seen') \<and> prev_read A C D prev' seen'"
  using assms
proof (induction fs arbitrary: names prev seen cells prev')
  case Nil
  then show ?case by (simp add: csv_row_ok_def)
next
  case (Cons f fs)
  obtain name p where f: "f = (name, p)" by (cases f)
  let ?v = "output_text A C (to_value p)"
  let ?prev1 = "if has_details p then assoc_insert name p prev else prev"
  let ?seen1 = "if D name then seen(name \<mapsto> ?v) else seen"
  obtain ns where ns: "names = name # ns" "csv_row_ok A C D ns fs"
    and D: "has_details p = D name" "D name \<longrightarrow> ?v \<noteq> ''DUP''"
    using Cons.prems(1) by (auto simp: csv_row_ok_def f)
  obtain cs prev2 where cs: "csv_cells A C ?prev1 fs = (cs, prev2)" by fastforce
  have p1: "prev_read A C D ?prev1 ?seen1" using Cons.prems(2) D(1) by (auto simp: prev_read_def)
  obtain seen' where s: "undo_cells D (output_text A C ''-'') ?seen1 ns cs =
      (map (\<lambda>x. output_text A C (to_value (snd x))) fs, seen')" "prev_read A C D prev2 seen'"
    using Cons.IH [OF ns(2) p1 cs] by blast
  let ?dup = "has_details p \<and> ec_remove_duplicate_data C \<and> to_value p = to_value (unwrap_or (PLiteral ''-'') (map_of prev name))"
  have out: "cells = (if ?dup then ''DUP'' else ?v) # cs" "prev' = prev2"
    using Cons.prems(3) cs by (auto simp: f Let_def split: if_splits)
  have "(if D name \<and> (if ?dup then ''DUP'' else ?v) = ''DUP'' then unwrap_or (output_text A C ''-'') (seen name)
      else (if ?dup then ''DUP'' else ?v)) = ?v"
  proof (cases ?dup)
    case True
    then have "seen name = map_option (\<lambda>p. output_text A C (to_value p)) (map_of prev name)"
      using Cons.prems(2) D(1) by (simp add: prev_read_def)
    then have "unwrap_or (output_text A C ''-'') (seen name) = ?v" using True by (cases "map_of prev name") simp_all
    with True D(1) show ?thesis by simp
  next
    case False
    then show ?thesis using D by auto
  qed
  then show ?case using s by (simp only: ns(1) out undo_cells.simps Let_def) (simp add: f)
qed

lemma emit_loop_csv:
  assumes "ec_mode C = CsvMode" "\<not> ec_display C"
  shows "prev_read A C D (prev_message st) seen \<Longrightarrow>
    (\<And>d. d \<in> set ds \<Longrightarrow> csv_row_ok A C D names (ext_field d)) \<Longrightarrow>
    \<exists>rows. fst (emit_loop A C dups i ds st) =
        (if has_displayed_header st \<or> rows = [] then [] else [CsvRow (map trim names)]) @ map CsvRow rows \<and>
      undo_rows D (output_text A C ''-'') names seen rows =
        map (row_values A C) (map snd (filter (\<lambda>(j, d). j \<notin> set dups) (enumerate i ds)))"
proof (induction ds arbitrary: i st seen)
  case Nil
  show ?case by (intro exI [of _ "[]"]) simp
next
  case (Cons d ds)
  have ok: "csv_row_ok A C D names (ext_field x)" if "x \<in> set ds" for x using Cons.prems(2) that by simp
  show ?case
  proof (cases "i \<in> set dups")
    case True
    from Cons.IH [OF Cons.prems(1) ok, of "Suc i"] True show ?thesis by simp
  next
    case False
    obtain cells prev where c: "csv_cells A C (prev_message st) (ext_field d) = (cells, prev)" by fastforce
    let ?st = "st\<lparr>has_displayed_header := True, prev_message := prev\<rparr>"
    have d: "csv_row_ok A C D names (ext_field d)" using Cons.prems(2) by simp
    obtain seen' where s: "undo_cells D (output_text A C ''-'') seen names cells = (row_values A C d, seen')"
      "prev_read A C D prev seen'"
      using undo_csv_cells [OF d Cons.prems(1) c] by (auto simp: row_values_def)
    have "prev_read A C D (prev_message ?st) seen'" using s(2) by simp
    from Cons.IH [OF this ok, of "Suc i"] obtain rows where
      r: "fst (emit_loop A C dups (Suc i) ds ?st) = map CsvRow rows"
        "undo_rows D (output_text A C ''-'') names seen' rows =
          map (row_values A C) (map snd (filter (\<lambda>(j, d). j \<notin> set dups) (enumerate (Suc i) ds)))"
      by auto
    have e: "emit_detection A C d st =
        ((if has_displayed_header st then [] else [CsvRow (map trim names)]) @ [CsvRow cells], ?st)"
      using assms d by (auto simp: emit_detection_def emit_csv_row_def c csv_row_ok_def)
    show ?thesis
      by (rule exI [of _ "cells # rows"]) (use False r s(1) in \<open>simp add: e\<close>)
  qed
qed

text \<open>
  C31: The CSV file holds what was detected. For detections with the columns of the profile, the
  output is one header, if none was written yet and there is anything to write, and one row for each
  detection that is no duplicate, in their order; a reader who replaces each \<open>DUP\<close> of a column of
  details by the value before it, and the first by a dash, gets the text of every field of them.
  Detections whose details are the very text \<open>DUP\<close> are left out, since the reader could not tell them
  from a repetition.
\<close>

theorem csv_read_back:
  assumes "ec_mode C = CsvMode" "\<not> ec_display C" and "\<And>d. d \<in> set ds \<Longrightarrow> csv_row_ok A C D names (ext_field d)"
  shows "\<exists>rows. fst (emit_csv_inner A C ds dups emit_state_default) =
      (if emitted_infos ds dups = [] then [] else [CsvRow (map trim names)]) @ map CsvRow rows \<and>
    undo_rows D (output_text A C ''-'') names Map.empty rows = map (row_values A C) (emitted_infos ds dups)"
proof -
  have "prev_read A C D (prev_message emit_state_default) Map.empty"
    by (simp add: prev_read_def emit_state_default_def)
  from emit_loop_csv [OF assms(1,2) this assms(3), where dups = dups and i = 0] obtain rows where
    r: "fst (emit_loop A C dups 0 ds emit_state_default) =
        (if has_displayed_header emit_state_default \<or> rows = [] then [] else [CsvRow (map trim names)]) @ map CsvRow rows"
      "undo_rows D (output_text A C ''-'') names Map.empty rows = map (row_values A C) (emitted_infos ds dups)"
    unfolding emitted_infos_def by blast
  have len: "length (undo_rows D dash ns seen rs) = length rs" for dash ns seen rs
    by (induction rs arbitrary: seen) (simp_all add: split_beta)
  have "rows = [] \<longleftrightarrow> emitted_infos ds dups = []"
    using arg_cong [OF r(2), of length] by (auto simp: len)
  with r show ?thesis
    using assms(1) by (simp add: emit_csv_inner_def split_beta emit_state_default_def) blast
qed

definition sample_emit_config :: emit_config where
  "sample_emit_config =
     \<lparr>ec_mode = CsvMode, ec_remove_duplicate_data = True, ec_multiline = False, ec_tab_separator = False,
      ec_display = False, ec_output_file = True, ec_no_color = True, ec_color = Map.empty, ec_geo = False, ec_profile = []\<rparr>"

definition sample_csv_info :: "string \<Rightarrow> detection_info" where
  "sample_csv_info v = (search_detection (replicate 8 []))\<lparr>ext_field := [(''Details'', PDetails v)]\<rparr>"

theorem csv_read_back_witness:
  "fst (emit_csv_inner no_aho sample_emit_config [sample_csv_info ''x'', sample_csv_info ''x''] [] emit_state_default) =
     [CsvRow [''Details''], CsvRow [''x''], CsvRow [''DUP'']] \<and>
   undo_rows (\<lambda>n. n = ''Details'') ''-'' [''Details''] Map.empty [[''x''], [''DUP'']] = [[''x''], [''x'']]"
proof -
  let ?ds = "[sample_csv_info ''x'', sample_csv_info ''x'']"
  have tx: "output_text no_aho sample_emit_config ''x'' = ''x''" "output_text no_aho sample_emit_config ''-'' = ''-''"
    by code_simp+
  have ext: "ext_field (sample_csv_info v) = [(''Details'', PDetails v)]" for v by (simp add: sample_csv_info_def)
  have ok: "csv_row_ok no_aho sample_emit_config (\<lambda>n. n = ''Details'') [''Details''] (ext_field d)" if "d \<in> set ?ds" for d
    using that by (auto simp: csv_row_ok_def ext tx)
  have m: "ec_mode sample_emit_config = CsvMode" "\<not> ec_display sample_emit_config" by (simp_all add: sample_emit_config_def)
  have out: "fst (emit_csv_inner no_aho sample_emit_config ?ds [] emit_state_default) =
     [CsvRow [''Details''], CsvRow [''x''], CsvRow [''DUP'']]"
    by code_simp
  have em: "emitted_infos ?ds [] = ?ds" by (simp add: emitted_infos_def)
  obtain rows where r: "[CsvRow [''Details''], CsvRow [''x''], CsvRow [''DUP'']] =
      (if ?ds = [] then [] else [CsvRow (map trim [''Details''])]) @ map CsvRow rows"
      "undo_rows (\<lambda>n. n = ''Details'') ''-'' [''Details''] Map.empty rows = map (row_values no_aho sample_emit_config) ?ds"
    using csv_read_back [OF m ok, where dups = "[]" and ds = ?ds, unfolded out em tx] by blast
  have "rows = [[''x''], [''DUP'']]" using r(1) by (auto simp: Cons_eq_map_conv)
  with r(2) show ?thesis using out by (simp add: row_values_def ext tx)
qed

subsection \<open>Where the output departs from the data\<close>

text \<open>
  The first detection whose details are a dash is written as a repetition; a tab, a line feed or a
  carriage return that was kept in a value becomes a blank; on the terminal a part of the details
  without a colon is left out.
\<close>

lemma first_dash_is_dup:
  "fst (emit_csv_inner no_aho sample_emit_config [sample_csv_info ''-''] [] emit_state_default) =
     [CsvRow [''Details''], CsvRow [''DUP'']]"
  by code_simp

lemma line_break_lost: "join '' '' (split_whitespace (''a'' @ [CHR 0x0D, CHR 0x0A] @ ''b'')) = ''a b''"
  by code_simp

lemma part_without_colon_lost:
  "cell_pieces no_aho sample_emit_config None (PDetails []) (''a: b '' @ broken_bar @ '' c'') = [[('' a: '', None), (''b '', None)]]"
  by code_simp
end
