(* ===== verification/Summary_Facts.thy ===== *)
theory Summary_Facts
  imports Summary Afterfact_Facts
begin

section \<open>What the summary shows\<close>

text \<open>
  When the summary can be written at all, which numbers it shows, which computers are the top ones
  and which authors are listed.
\<close>

subsection \<open>The top entries\<close>

lemma sorted_by_count: "sorted_wrt (\<lambda>a b. snd b \<le> snd a) (by_count m)"
proof -
  have "sorted (map (\<lambda>a. - int (snd a)) (by_count m))" by (simp add: by_count_def)
  then show ?thesis by (simp add: sorted_map)
qed

lemma set_by_count [simp]: "set (by_count m) = set m"
  and length_by_count [simp]: "length (by_count m) = length m"
  by (simp_all add: by_count_def)

lemma sorted_wrt_take_drop:
  "sorted_wrt P xs \<Longrightarrow> x \<in> set (take n xs) \<Longrightarrow> y \<in> set (drop n xs) \<Longrightarrow> P x y"
  by (metis append_take_drop_id sorted_wrt_append)

text \<open>
  The computers that are listed as those with most detections are. The program lists at most five
  of the computers of a level, all of them if there are no more; the entry for detections without a
  computer is not listed, and no computer that is left out has more detections than one that is listed.
\<close>

theorem top_computers:
  assumes "listed = take 5 (sorted_computers m)"
  shows "set listed \<subseteq> set m \<and> (\<forall>x \<in> set listed. fst x \<noteq> ''-'') \<and>
    length listed = min 5 (length (filter (\<lambda>x. fst x \<noteq> ''-'') m)) \<and>
    (\<forall>x \<in> set listed. \<forall>y \<in> set m. fst y \<noteq> ''-'' \<and> y \<notin> set listed \<longrightarrow> snd y \<le> snd x)"
proof -
  let ?s = "sorted_computers m"
  have s: "set ?s = {x \<in> set m. fst x \<noteq> ''-''}" by (simp add: sorted_computers_def)
  have "snd y \<le> snd x" if "x \<in> set listed" "y \<in> set m" "fst y \<noteq> ''-''" "y \<notin> set listed" for x y
  proof (rule sorted_wrt_take_drop [of "\<lambda>a b. snd b \<le> snd a" ?s x 5 y])
    show "sorted_wrt (\<lambda>a b. snd b \<le> snd a) ?s" by (simp add: sorted_computers_def sorted_by_count)
    show "x \<in> set (take 5 ?s)" using that(1) assms by simp
    have "y \<in> set ?s" using that s by simp
    then show "y \<in> set (drop 5 ?s)" using that(4) assms by (metis Un_iff append_take_drop_id set_append)
  qed
  moreover have "set listed \<subseteq> set ?s" unfolding assms by (rule set_take_subset)
  moreover have "length listed = min 5 (length (filter (\<lambda>x. fst x \<noteq> ''-'') m))"
    by (simp add: assms sorted_computers_def min.commute)
  ultimately show ?thesis using s by blast
qed

theorem top_computers_witness:
  "take 5 (sorted_computers [(''a'', 1), (''-'', 9), (''b'', 2)]) = [(''b'', 2), (''a'', 1)] \<and>
   length (take 5 (sorted_computers [(''a'', 1), (''-'', 9), (''b'', 2)])) = 2"
  using top_computers [OF refl, of "[(''a'', 1), (''-'', 9), (''b'', 2)]"]
  by (simp add: sorted_computers_def by_count_def)

subsection \<open>The table of authors\<close>

lemma author_positions:
  assumes "0 < c"
  shows "set (concat (author_columns n c)) = {i. i < n \<and> i < author_rows n c * c}"
proof -
  have "(\<exists>x<c. \<exists>y<r. i = y * c + x) \<longleftrightarrow> i < r * c" for i r
  proof
    assume "i < r * c"
    then have "i div c < r" by (simp add: less_mult_imp_div_less)
    moreover have "i mod c < c" "i = i div c * c + i mod c" using assms by simp_all
    ultimately show "\<exists>x<c. \<exists>y<r. i = y * c + x" by blast
  next
    assume "\<exists>x<c. \<exists>y<r. i = y * c + x"
    then obtain x y where "x < c" "y < r" "i = y * c + x" by blast
    then have "i < Suc y * c" by simp
    also have "\<dots> \<le> r * c" using \<open>y < r\<close> by (intro mult_le_mono1) simp
    finally show "i < r * c" .
  qed
  moreover have "set (concat (author_columns n c)) = {i. i < n \<and> (\<exists>x<c. \<exists>y<author_rows n c. i = y * c + x)}"
    by (auto simp: author_columns_def)
  ultimately show ?thesis by simp
qed

lemma author_columns_distinct: "distinct (concat (author_columns n c))"
proof -
  let ?col = "\<lambda>x. filter (\<lambda>i. i < n) (map (\<lambda>y. y * c + x) [0..<author_rows n c])"
  have col: "distinct (?col x)" if "x < c" for x
    using that by (intro distinct_filter) (simp add: distinct_map inj_on_def)
  have mod: "i mod c = x" if "i \<in> set (?col x)" "x < c" for i x
    using that by auto
  have "distinct (concat (map ?col xs))" if "distinct xs" "set xs \<subseteq> {..<c}" for xs
    using that
  proof (induction xs)
    case (Cons x xs)
    have "set (?col x) \<inter> set (concat (map ?col xs)) = {}"
    proof (rule ccontr)
      assume "set (?col x) \<inter> set (concat (map ?col xs)) \<noteq> {}"
      then obtain i x' where "i \<in> set (?col x)" "x' \<in> set xs" "i \<in> set (?col x')" by auto
      moreover have "x' < c" "x < c" using Cons.prems(2) \<open>x' \<in> set xs\<close> by auto
      ultimately have "x = x'" using mod by metis
      with \<open>x' \<in> set xs\<close> Cons.prems(1) show False by simp
    qed
    moreover have "distinct (?col x)" using col Cons.prems(2) by simp
    moreover have "distinct (concat (map ?col xs))" using Cons by simp
    ultimately show ?case by (simp del: set_concat)
  qed simp
  from this [of "[0..<c]"] show ?thesis unfolding author_columns_def by fastforce
qed

text \<open>
  The table of rule authors. No author is listed twice, and every author is listed if the authors
  fit into one row, fill all rows, or are not a multiple of four in number: the last row is left out
  when the number is a multiple of four but not of the number of columns.
\<close>

theorem authors_listed:
  assumes "0 < columns"
  shows "distinct (concat (author_columns n columns)) \<and> set (concat (author_columns n columns)) \<subseteq> {..<n} \<and>
    (set (concat (author_columns n columns)) = {..<n} \<longleftrightarrow> n \<le> columns \<or> n mod 4 \<noteq> 0 \<or> n mod columns = 0)"
proof -
  let ?r = "author_rows n columns * columns"
  have "n \<le> ?r \<longleftrightarrow> n \<le> columns \<or> n mod 4 \<noteq> 0 \<or> n mod columns = 0"
  proof -
    have "n div columns * columns + n mod columns = n" by simp
    moreover have "n mod columns < columns" using assms by simp
    ultimately have "n \<le> n div columns * columns \<longleftrightarrow> n mod columns = 0" "n \<le> (n div columns + 1) * columns"
      by (linarith, unfold add_mult_distrib, linarith)
    then show ?thesis by (simp add: author_rows_def)
  qed
  moreover have "{i. i < n \<and> i < ?r} = {..<n} \<longleftrightarrow> n \<le> ?r"
  proof
    assume eq: "{i. i < n \<and> i < ?r} = {..<n}"
    show "n \<le> ?r"
    proof (rule ccontr)
      assume "\<not> n \<le> ?r"
      then have "?r \<in> {..<n}" by simp
      then show False using eq by blast
    qed
  qed auto
  ultimately have "{i. i < n \<and> i < ?r} = {..<n} \<longleftrightarrow> n \<le> columns \<or> n mod 4 \<noteq> 0 \<or> n mod columns = 0"
    by (simp only:)
  moreover have "{i. i < n \<and> i < ?r} \<subseteq> {..<n}" by blast
  ultimately show ?thesis
    using author_columns_distinct [of n columns] unfolding author_positions [OF assms] by blast
qed

theorem authors_listed_witness:
  "set (concat (author_columns 5 3)) = {..<5} \<and> set (concat (author_columns 8 3)) \<noteq> {..<8}"
  using authors_listed [of 3 5] authors_listed [of 3 8] by simp


subsection \<open>The summary can be written\<close>

lemma those_all:
  assumes "\<And>x. x \<in> set xs \<Longrightarrow> f x \<noteq> None"
  shows "\<exists>ys. those (map f xs) = Some ys"
  using assms
proof (induction xs)
  case (Cons x xs)
  obtain y where "f x = Some y" using Cons.prems [of x] by auto
  moreover obtain ys where "those (map f xs) = Some ys" using Cons by force
  ultimately show ?case by simp
qed simp

lemma str_prefix_ascii: "is_ascii s \<Longrightarrow> n \<le> length s \<Longrightarrow> str_prefix n s = Some (take n s)"
proof -
  assume a: "is_ascii s" and n: "n \<le> length s"
  have "\<not> is_cont (s ! n)" if "n < length s"
    using a nth_mem [OF that] by (auto simp: is_ascii_def is_cont_def)
  with n show ?thesis by (auto simp: str_prefix_def)
qed

lemma author_cell_ascii: "is_ascii (fst a) \<Longrightarrow> author_cell a \<noteq> None"
  by (simp add: author_cell_def str_prefix_ascii)

lemma title_cell_ascii: "is_ascii (fst x) \<Longrightarrow> title_cell S limit_num x \<noteq> None"
  by (simp add: title_cell_def str_prefix_ascii)

lemma authors_written:
  assumes "\<And>a. a \<in> set authors \<Longrightarrow> is_ascii (fst a)"
  shows "output_detected_rule_authors authors columns \<noteq> None"
proof -
  have col: "\<exists>ts. those (map (\<lambda>i. author_cell (by_count authors ! i)) c) = Some ts"
    if "c \<in> set (author_columns (length authors) columns)" for c
  proof (rule those_all)
    fix i assume "i \<in> set c"
    with that have "i < length (by_count authors)" by (auto simp: author_columns_def)
    then have "by_count authors ! i \<in> set authors" using nth_mem [of i "by_count authors"] by simp
    then show "author_cell (by_count authors ! i) \<noteq> None" using assms by (simp add: author_cell_ascii)
  qed
  have "\<exists>cols. those (map (\<lambda>col. those (map (\<lambda>i. author_cell (by_count authors ! i)) col))
      (filter (\<lambda>col. col \<noteq> []) (author_columns (length authors) columns))) = Some cols"
    by (rule those_all) (use col in auto)
  then show ?thesis by (auto simp: output_detected_rule_authors_def author_table_def)
qed

lemma level_entries_ok:
  assumes "has_levels m"
  obtains es where "level_entries m = Some es" "\<And>l c. (l, c) \<in> set es \<Longrightarrow> map_of m l = Some c"
proof -
  have "map_option (Pair l) (map_of m l) = Some (l, the (map_of m l))" for l
    using assms by (auto simp: has_levels_def)
  then have "level_entries m = those (map (\<lambda>l. Some (l, the (map_of m l))) shown_levels)"
    by (simp only: level_entries_def)
  also have "\<dots> = Some (map (\<lambda>l. (l, the (map_of m l))) shown_levels)"
    by (simp add: shown_levels_def all_levels_def)
  finally have "level_entries m = Some (map (\<lambda>l. (l, the (map_of m l))) shown_levels)" .
  then show thesis using that assms by (force simp: has_levels_def)
qed

lemma tables_written:
  assumes "has_levels m" and "\<And>l c e. map_of m l = Some c \<Longrightarrow> e \<in> set c \<Longrightarrow> is_ascii (fst e)"
  shows "print_detection_summary_tables S m title_path authors limit_num \<noteq> None"
proof -
  obtain es where es: "level_entries m = Some es" "\<And>l c. (l, c) \<in> set es \<Longrightarrow> map_of m l = Some c"
    using level_entries_ok [OF assms(1)] by metis
  have "rule_column S limit_num e \<noteq> None" if e: "e \<in> set es" for e
  proof -
    have "\<exists>cells. those (map (title_cell S limit_num) (take 5 (by_count (snd e)))) = Some cells"
    proof (rule those_all, rule title_cell_ascii)
      fix x assume "x \<in> set (take 5 (by_count (snd e)))"
      then have "x \<in> set (snd e)" by (metis in_set_takeD set_by_count)
      then show "is_ascii (fst x)" using assms(2) es(2) [of "fst e" "snd e"] e by simp
    qed
    then show ?thesis by (auto simp: rule_column_def)
  qed
  then obtain cols where "those (map (rule_column S limit_num) es) = Some cols"
    using those_all [of es "rule_column S limit_num"] by blast
  then show ?thesis by (simp add: print_detection_summary_tables_def es(1))
qed

lemma shown_levels_set: "l \<in> set shown_levels \<longleftrightarrow> l \<noteq> UNDEFINED" "length shown_levels = 6"
  by (cases l; simp add: shown_levels_def all_levels_def)+

lemma own_count:
  assumes "length counts = 7" and "i < 6"
  shows "rev counts ! i = counts ! level_index (shown_levels ! i)"
proof -
  have "i \<in> {0, 1, 2, 3, 4, 5}" using assms(2) by auto
  then have "level_index (shown_levels ! i) = 6 - i"
    by (auto simp: shown_levels_def all_levels_def)
  then show ?thesis using assms by (simp add: rev_nth)
qed

lemma level_shares_own:
  assumes "length counts = 7" "length uniques = 7" "l \<noteq> UNDEFINED"
  obtains p q where "(l, (counts ! level_index l, p), (uniques ! level_index l, q)) \<in> set (level_shares S counts uniques)"
proof -
  have "l \<in> set shown_levels" using assms(3) by (simp add: shown_levels_set)
  then obtain i where i: "i < length shown_levels" "shown_levels ! i = l" by (metis in_set_conv_nth)
  then have "(i, l) \<in> set (enumerate 0 shown_levels)" by (force simp: in_set_enumerate_eq)
  then have "(l, (rev counts ! i, percent_text S (rev counts ! i) (sum_list counts)),
      (rev uniques ! i, percent_text S (uniques ! i) (sum_list uniques))) \<in> set (level_shares S counts uniques)"
    unfolding level_shares_def by (force intro: image_eqI [of _ _ "(i, l)"])
  with own_count [OF assms(1)] own_count [OF assms(2)] i show thesis
    by (intro that) (simp add: shown_levels_set(2))
qed

lemma unique_results_written:
  assumes "length counts = 7" "length uniques = 7"
  shows "\<exists>c h. print_unique_results S counts uniques words = Some (c, h) \<and>
    (\<forall>l. l \<noteq> UNDEFINED \<longrightarrow> (\<exists>p q. Put (sm_color S l)
       (level_line S words l (counts ! level_index l, p) (uniques ! level_index l, q)) \<in> set c))"
proof -
  let ?c = "write_color_buffer None (fst words @ '' '' @ snd words @ '': '' @ number_text S (sum_list counts) @ '' | '' @
      number_text S (sum_list uniques)) True @
    concat (map (\<lambda>(l, a, u). write_color_buffer (sm_color S l) (level_line S words l a u) True) (level_shares S counts uniques))"
  have "\<exists>h. print_unique_results S counts uniques words = Some (?c, h)"
    using assms by (simp add: print_unique_results_def shown_levels_set(2) Let_def)
  moreover have "\<exists>p q. Put (sm_color S l)
       (level_line S words l (counts ! level_index l, p) (uniques ! level_index l, q)) \<in> set ?c" if l: "l \<noteq> UNDEFINED" for l
  proof -
    obtain p q where m: "(l, (counts ! level_index l, p), (uniques ! level_index l, q)) \<in> set (level_shares S counts uniques)"
      by (rule level_shares_own [OF assms l])
    then have "Put (sm_color S l) (level_line S words l (counts ! level_index l, p) (uniques ! level_index l, q)) \<in> set ?c"
      by (force simp: write_color_buffer_def)
    then show ?thesis by blast
  qed
  ultimately show ?thesis by blast
qed

text \<open>The statistics are those the scan keeps, and the names that are cut to fit the tables are ASCII.\<close>

definition summary_ok :: "summary_config \<Rightarrow> attck_map \<Rightarrow> summary_info \<Rightarrow> bool" where
  "summary_ok S attck I \<longleftrightarrow>
     stats_ok (afterfact_info.truncate I) \<and>
     (\<forall>a \<in> set (rule_author_counter I). is_ascii (fst a)) \<and>
     (\<forall>l c e. map_of (detect_counts_by_rule_and_level I) l = Some c \<longrightarrow> e \<in> set c \<longrightarrow> is_ascii (fst e)) \<and>
     (\<forall>e \<in> set attck. snd e \<noteq> []) \<and>
     unwrap_or 100 (sm_width S) < 2 ^ 16 \<and> (sm_visualize S \<longrightarrow> 28 \<le> unwrap_or 100 (sm_width S))"

lemma truncate_sel:
  "detect_counts_by_date_and_level (afterfact_info.truncate I) = detect_counts_by_date_and_level I"
  "detect_counts_by_computer_and_level (afterfact_info.truncate I) = detect_counts_by_computer_and_level I"
  "detect_counts_by_rule_and_level (afterfact_info.truncate I) = detect_counts_by_rule_and_level I"
  "total_detect_counts_by_level (afterfact_info.truncate I) = total_detect_counts_by_level I"
  "unique_detect_counts_by_level (afterfact_info.truncate I) = unique_detect_counts_by_level I"
  by (simp_all add: afterfact_info.truncate_def)

lemma hist_written:
  assumes "28 \<le> width" "width < 2 ^ 16"
  shows "print_timeline_hist S ts width 3 \<noteq> None"
proof -
  have len: "length hist_title = 28" by (simp add: hist_title_def)
  have "usize_sub width 28 \<le> width"
    using assms by (simp add: usize_sub_def unat_sub_if_size word_size unat_of_nat)
  then have "usize_sub width (length hist_title) div 2 < 2 ^ 47"
    using assms(2) by (simp add: len)
  then show ?thesis by (simp add: print_timeline_hist_def blanks_def)
qed

lemma sections_written:
  assumes "summary_ok S attck I"
  obtains c h where "summary_sections S width I = Some (c, h)"
    "\<And>l. l \<noteq> UNDEFINED \<Longrightarrow> \<exists>p q. Put (sm_color S l) (level_line S (''Total | Unique'', ''detections'') l
       (total_detect_counts_by_level I ! level_index l, p) (unique_detect_counts_by_level I ! level_index l, q)) \<in> set c"
proof -
  have st: "has_levels (detect_counts_by_date_and_level I)" "has_levels (detect_counts_by_computer_and_level I)"
    "has_levels (detect_counts_by_rule_and_level I)" "length (total_detect_counts_by_level I) = 7"
    "length (unique_detect_counts_by_level I) = 7"
    using assms by (simp_all add: summary_ok_def stats_ok_def truncate_sel)
  obtain c1 h1 where 1: "print_unique_results S (total_detect_counts_by_level I) (unique_detect_counts_by_level I)
      (''Total | Unique'', ''detections'') = Some (c1, h1)"
    and own: "\<And>l. l \<noteq> UNDEFINED \<Longrightarrow> \<exists>p q. Put (sm_color S l) (level_line S (''Total | Unique'', ''detections'') l
       (total_detect_counts_by_level I ! level_index l, p) (unique_detect_counts_by_level I ! level_index l, q)) \<in> set c1"
    using unique_results_written [OF st(4,5), where S = S and words = "(''Total | Unique'', ''detections'')"] by blast
  obtain c2 h2 where 2: "print_detection_summary_by_date S (detect_counts_by_date_and_level I) = Some (c2, h2)"
    by (rule level_entries_ok [OF st(1)]) (simp add: print_detection_summary_by_date_def)
  obtain c3 h3 where 3: "print_detection_summary_by_computer S (detect_counts_by_computer_and_level I) = Some (c3, h3)"
    by (rule level_entries_ok [OF st(2)]) (simp add: print_detection_summary_by_computer_def)
  obtain c4 h4 where 4: "print_detection_summary_tables S (detect_counts_by_rule_and_level I) (rule_title_path_map I)
      (detect_rule_authors I) (min (usize_sub (width div 2) 15) 200) = Some (c4, h4)"
    using tables_written [OF st(3)] assms unfolding summary_ok_def by (metis not_None_eq surj_pair)
  obtain c h where s: "summary_sections S width I = Some (c, h)" and sub: "set c1 \<subseteq> set c"
    by (auto simp: summary_sections_def 1 2 3 4)
  show thesis by (rule that [OF s]) (use own sub in blast)
qed

lemma additional_written:
  assumes "summary_ok S attck I"
  shows "\<exists>out r'. output_additional_afterfact S attck I r = Some (out, r') \<and>
    (\<not> sm_no_summary S \<longrightarrow> (\<forall>l. l \<noteq> UNDEFINED \<longrightarrow>
      (\<exists>p q. Put (sm_color S l) (level_line S (''Total | Unique'', ''detections'') l
         (total_detect_counts_by_level I ! level_index l, p) (unique_detect_counts_by_level I ! level_index l, q)) \<in> set out)))"
proof -
  let ?w = "unwrap_or 100 (sm_width S)"
  obtain c1 where 1: "authors_section S ?w I = Some c1"
    using authors_written [of "rule_author_counter I" "table_column_num ?w"] assms
    by (fastforce simp: authors_section_def summary_ok_def)
  obtain c2 where 2: "(if sm_visualize S then map_option (\<lambda>c. c @ [Newline]) (print_timeline_hist S (timestamps I) ?w 3)
      else Some []) = Some c2"
    using hist_written [of ?w S "timestamps I"] assms by (fastforce simp: summary_ok_def)
  obtain c h where 3: "summary_sections S ?w I = Some (c, h)"
    and own: "\<And>l. l \<noteq> UNDEFINED \<Longrightarrow> \<exists>p q. Put (sm_color S l) (level_line S (''Total | Unique'', ''detections'') l
       (total_detect_counts_by_level I ! level_index l, p) (unique_detect_counts_by_level I ! level_index l, q)) \<in> set c"
    using sections_written [OF assms, of ?w] by metis
  obtain t where t: "output_html_computer_by_mitre_attck attck = Some t"
    using assms by (auto simp: summary_ok_def output_html_computer_by_mitre_attck_def list_ex_iff)
  show ?thesis
    unfolding output_additional_afterfact_def Let_def
    by (simp add: 1 2 3 t) (use own in fastforce)
qed

text \<open>
  C29: The summary can always be written, and shows the right numbers. For statistics that the scan
  keeps consistent, with names in ASCII and a terminal that has room for the title of the histogram,
  the summary is written without a panic; unless it is switched off, it has for each level from
  emergency to informational a line, in the colour of the level, with the number of all detections
  and the number of unique detections of that very level.
\<close>

theorem summary_written:
  assumes "summary_ok S attck I"
  shows "\<exists>out r'. output_additional_afterfact S attck I r = Some (out, r') \<and>
    (\<not> sm_no_summary S \<longrightarrow> (\<forall>l. l \<noteq> UNDEFINED \<longrightarrow>
      (\<exists>p q. Put (sm_color S l) (level_line S (''Total | Unique'', ''detections'') l
         (total_detect_counts_by_level I ! level_index l, p) (unique_detect_counts_by_level I ! level_index l, q)) \<in> set out)))"
  by (rule additional_written [OF assms])

text \<open>A sample summary: one detection, a name, the report switched on.\<close>

definition sample_summary_config :: summary_config where
  "sample_summary_config =
     \<lparr>sm_number = show_int, sm_percent = (\<lambda>_ _. ''100.00''), sm_time = show_int, sm_color = (\<lambda>_. None),
      sm_no_color = True, sm_html = True, sm_recover = False, sm_no_summary = False, sm_visualize = False,
      sm_display = True, sm_width = Some 80, sm_encoded_rules = False, sm_markers = (\<lambda>_ _ _. ([], [])),
      sm_sparkline = (\<lambda>_ _ _. [])\<rparr>"

definition sample_summary_info :: summary_info where
  "sample_summary_info =
     afterfact_info.extend afterfact_default
       (summary_info.fields None None None None 1 0)"

lemma sample_summary_ok: "summary_ok sample_summary_config [] sample_summary_info"
proof -
  have "afterfact_info.truncate sample_summary_info = afterfact_default"
    by (simp add: sample_summary_info_def afterfact_info.truncate_def afterfact_info.extend_def afterfact_default_def
        summary_info.fields_def)
  moreover have "map_of (map (\<lambda>l. (l, [] :: counter)) all_levels) l = Some c \<Longrightarrow> c = []" for l c
    by (drule map_of_SomeD) auto
  moreover have "rule_author_counter sample_summary_info = []"
    "detect_counts_by_rule_and_level sample_summary_info = map (\<lambda>l. (l, [])) all_levels"
    by (simp_all add: sample_summary_info_def afterfact_info.extend_def afterfact_default_def summary_info.fields_def)
  ultimately show ?thesis
    by (fastforce simp: summary_ok_def stats_ok_default sample_summary_config_def)
qed

theorem summary_written_witness:
  "\<exists>out r'. output_additional_afterfact sample_summary_config [] sample_summary_info html_reporter_new = Some (out, r') \<and>
    (\<exists>p q. Put None (level_line sample_summary_config (''Total | Unique'', ''detections'') HIGH (0, p) (0, q)) \<in> set out)"
proof -
  have c: "total_detect_counts_by_level sample_summary_info ! level_index HIGH = 0"
    "unique_detect_counts_by_level sample_summary_info ! level_index HIGH = 0"
    by (simp_all add: sample_summary_info_def afterfact_info.extend_def afterfact_default_def summary_info.fields_def)
  have s: "\<not> sm_no_summary sample_summary_config" "sm_color sample_summary_config HIGH = None" "HIGH \<noteq> UNDEFINED"
    by (simp_all add: sample_summary_config_def)
  from summary_written [OF sample_summary_ok, of html_reporter_new] obtain out r' where
    "output_additional_afterfact sample_summary_config [] sample_summary_info html_reporter_new = Some (out, r')"
    and all: "\<forall>l. l \<noteq> UNDEFINED \<longrightarrow>
      (\<exists>p q. Put (sm_color sample_summary_config l) (level_line sample_summary_config (''Total | Unique'', ''detections'') l
         (total_detect_counts_by_level sample_summary_info ! level_index l, p)
         (unique_detect_counts_by_level sample_summary_info ! level_index l, q)) \<in> set out)"
    using s(1) by blast
  moreover from all s(2,3) have "\<exists>p q. Put None (level_line sample_summary_config (''Total | Unique'', ''detections'') HIGH (0, p) (0, q)) \<in> set out"
    by (metis c)
  ultimately show ?thesis by blast
qed

subsection \<open>Where the summary fails\<close>

text \<open>
  The share of the unique detections belongs to the level on the other side of the list; a name cut
  inside a character ends the program; so does a histogram on a terminal narrower than its title.
\<close>

lemma unique_share_mirrored:
  "(HIGH, (1, sm_percent S 1 1), (1, sm_percent S 0 1)) \<in> set (level_shares S [0, 0, 0, 0, 1, 0, 0] [0, 0, 0, 0, 1, 0, 0])"
  by (simp add: level_shares_def shown_levels_def all_levels_def percent_text_def)

lemma long_author_panics:
  "author_cell (replicate 23 (CHR ''a'') @ [CHR 0xC3, CHR 0xA9] @ replicate 5 (CHR ''b''), 1) = None"
  by code_simp

lemma long_title_panics:
  "title_cell S 6 (''ab'' @ [CHR 0xC3, CHR 0xA9] @ ''cd'', 1) = None"
proof -
  have "usize_sub 6 3 = 3" by (simp add: usize_sub_def)
  moreover have "str_prefix 3 (''ab'' @ [CHR 0xC3, CHR 0xA9] @ ''cd'') = None" by code_simp
  ultimately show ?thesis by (simp add: title_cell_def)
qed

lemma narrow_histogram_panics:
  "print_timeline_hist S [1, 2, 3, 4, 5] 20 3 = None"
proof -
  have "length hist_title = 28" by (simp add: hist_title_def)
  moreover have "usize_sub 20 28 = 2 ^ 64 - 8" by (simp add: usize_sub_def)
  ultimately show ?thesis by (simp add: print_timeline_hist_def blanks_def)
qed
end
