(* ===== verification/Scan_End.thy ===== *)
theory Scan_End
  imports Csv_Output Summary_Facts
begin

section \<open>The end of a scan (afterfact.rs, main.rs)\<close>

text \<open>
  The output of a block of detections, and the whole of what happens after the last block: the
  detections are sorted, freed of duplicates, written and counted, and the summary follows. The sort
  of the standard library, whose order of equal elements is not determined, and what the operating
  system answers when rows are written are parameters: \<open>refused items\<close> is the error of the file,
  if there is one, after which the program writes a message and exits with code one.
\<close>

subsection \<open>Operations\<close>

type_synonym writer = "emitted_item list \<Rightarrow> string option"

text \<open>The question marks of \<open>emit_csv_inner\<close>: on a terminal nothing goes through the CSV writer.\<close>

definition write_items ::
  "aho \<Rightarrow> emit_config \<Rightarrow> writer \<Rightarrow> detection_info list \<Rightarrow> nat list \<Rightarrow> emit_state \<Rightarrow>
   string + emitted_item list \<times> emit_state" where
  "write_items A C refused ds dups es =
     (case emit_csv_inner A C ds dups es of
        (items, es') \<Rightarrow>
          (case if ec_display C then None else refused items of
             Some e \<Rightarrow> Inl e
           | None \<Rightarrow> Inr (items, es')))"

text \<open>\<open>output_afterfact_err\<close>: the message of the exit.\<close>

definition output_afterfact_err :: "string \<Rightarrow> string" where
  "output_afterfact_err e = ''Failed to write CSV. '' @ e"

text \<open>The statistics are the part of the information of a scan that the detections change.\<close>

definition calc_statistic ::
  "time_texts \<Rightarrow> bool \<Rightarrow> detection_info list \<Rightarrow> nat list \<Rightarrow> summary_info \<Rightarrow> summary_info option" where
  "calc_statistic T no_summary ds dups I =
     map_option (\<lambda>info. afterfact_info.extend info (afterfact_info.more I))
       (calc_statistic_info T no_summary ds dups (afterfact_info.truncate I))"

type_synonym end_output = "emitted_item list \<times> emit_state \<times> summary_info"

definition emit_csv ::
  "time_texts \<Rightarrow> summary_config \<Rightarrow> aho \<Rightarrow> emit_config \<Rightarrow> writer \<Rightarrow> detection_info list \<Rightarrow> nat list \<Rightarrow>
   emit_state \<Rightarrow> summary_info \<Rightarrow> (string, end_output) outcome" where
  "emit_csv T S A C refused ds dups es I =
     (if ds = [] then Ok ([], es, I)
      else (case write_items A C refused ds dups es of
              Inl e \<Rightarrow> Err (output_afterfact_err e)
            | Inr (items, es') \<Rightarrow>
                (case calc_statistic T (sm_no_summary S) ds dups I of
                   None \<Rightarrow> Panic
                 | Some I' \<Rightarrow> Ok (items, es', I'))))"

definition output_afterfact_inner ::
  "time_texts \<Rightarrow> summary_config \<Rightarrow> attck_map \<Rightarrow> aho \<Rightarrow> emit_config \<Rightarrow> writer \<Rightarrow>
   (detection_info list \<Rightarrow> detection_info list) \<Rightarrow> bool \<Rightarrow> detection_info list \<Rightarrow>
   emit_state \<Rightarrow> summary_info \<Rightarrow> html_reporter \<Rightarrow> (string, end_output \<times> html_reporter) outcome" where
  "output_afterfact_inner T S attck A C refused sort_by remove_duplicate_detections detect_infos es I r =
     (let sorted_infos = sort_by detect_infos;
          dups = (if remove_duplicate_detections then get_duplicate_idxes sorted_infos else []) in
      case write_items A C refused sorted_infos dups es of
        Inl e \<Rightarrow> Err e
      | Inr (items, es') \<Rightarrow>
          (case calc_statistic T (sm_no_summary S) sorted_infos dups I of
             None \<Rightarrow> Panic
           | Some I' \<Rightarrow>
               (case output_additional_afterfact S attck I' r of
                  None \<Rightarrow> Panic
                | Some (c, r') \<Rightarrow>
                    Ok (((if ec_display C then [Screen [Newline]] else []) @ items @ [Screen c], es', I'), r'))))"

fun map_err :: "('e \<Rightarrow> 'f) \<Rightarrow> ('e, 'a) outcome \<Rightarrow> ('f, 'a) outcome" where
  "map_err f (Ok a) = Ok a"
| "map_err f (Err e) = Err (f e)"
| "map_err f Panic = Panic"

definition output_afterfact ::
  "time_texts \<Rightarrow> summary_config \<Rightarrow> attck_map \<Rightarrow> aho \<Rightarrow> emit_config \<Rightarrow> writer \<Rightarrow>
   (detection_info list \<Rightarrow> detection_info list) \<Rightarrow> bool \<Rightarrow> detection_info list \<Rightarrow>
   emit_state \<Rightarrow> summary_info \<Rightarrow> html_reporter \<Rightarrow> (string, end_output \<times> html_reporter) outcome" where
  "output_afterfact T S attck A C refused sort_by rd detect_infos es I r =
     map_err output_afterfact_err (output_afterfact_inner T S attck A C refused sort_by rd detect_infos es I r)"

text \<open>
  After the last file: \<open>log_records\<close> are the detections of the rules that count or correlate. With little
  memory the blocks were written before, and only these are left; otherwise all detections come now.
\<close>

record scan_end_config =
  se_low_memory :: bool
  se_remove_duplicates :: bool

definition set_times :: "int option \<Rightarrow> int option \<Rightarrow> summary_info \<Rightarrow> summary_info" where
  "set_times first last_time I = I\<lparr>tl_starttime := first, tl_endtime := last_time\<rparr>"

definition finish_scan ::
  "scan_end_config \<Rightarrow> time_texts \<Rightarrow> summary_config \<Rightarrow> attck_map \<Rightarrow> aho \<Rightarrow> emit_config \<Rightarrow> writer \<Rightarrow>
   (detection_info list \<Rightarrow> detection_info list) \<Rightarrow> int option \<times> int option \<Rightarrow>
   detection_info list \<Rightarrow> detection_info list \<Rightarrow>
   emit_state \<Rightarrow> summary_info \<Rightarrow> html_reporter \<Rightarrow> (string, end_output \<times> html_reporter) outcome" where
  "finish_scan Z T S attck A C refused sort_by seen_times all_detect_infos log_records es I r =
     (if se_low_memory Z
      then (case emit_csv T S A C refused log_records [] es I of
              Err e \<Rightarrow> Err e
            | Panic \<Rightarrow> Panic
            | Ok (items, es', I') \<Rightarrow>
                (let I2 = set_times (fst seen_times) (snd seen_times) I' in
                 case output_additional_afterfact S attck I2 r of
                   None \<Rightarrow> Panic
                 | Some (c, r') \<Rightarrow> Ok ((items @ [Screen c], es', I2), r')))
      else output_afterfact T S attck A C refused sort_by (se_remove_duplicates Z) (all_detect_infos @ log_records) es
             (set_times (fst seen_times) (snd seen_times) I) r)"

subsection \<open>The counters at the end\<close>

text \<open>The counters of \<open>I'\<close> agree, and count the detections \<open>out\<close> on top of what \<open>I\<close> has counted.\<close>

definition counted_after :: "detection_info list \<Rightarrow> summary_info \<Rightarrow> summary_info \<Rightarrow> bool" where
  "counted_after out I I' \<longleftrightarrow>
     stats_ok (afterfact_info.truncate I') \<and> length (timestamps I') = length (timestamps I) + length out \<and>
     (\<forall>l. total_detect_counts_by_level I' ! level_index l =
        total_detect_counts_by_level I ! level_index l + occurrences l out)"

lemma truncate_extend [simp]:
  "afterfact_info.truncate (afterfact_info.extend info m) = info"
  "timestamps (afterfact_info.extend info m) = timestamps info"
  "total_detect_counts_by_level (afterfact_info.extend info m) = total_detect_counts_by_level info"
  by (simp_all add: afterfact_info.truncate_def afterfact_info.extend_def)

lemma truncate_timestamps: "timestamps (afterfact_info.truncate I) = timestamps I"
  by (simp add: afterfact_info.truncate_def)

lemma set_times_keeps [simp]:
  "afterfact_info.truncate (set_times a b I) = afterfact_info.truncate I"
  "timestamps (set_times a b I) = timestamps I"
  "total_detect_counts_by_level (set_times a b I) = total_detect_counts_by_level I"
  by (simp_all add: set_times_def afterfact_info.truncate_def)

lemma counted_after_times [simp]:
  "counted_after out (set_times a b I) I' = counted_after out I I'"
  "counted_after out I (set_times a b I') = counted_after out I I'"
  by (simp_all add: counted_after_def)

lemma calc_statistic_counted:
  assumes "stats_ok (afterfact_info.truncate I)"
  obtains I' where "calc_statistic T False ds dups I = Some I'" "counted_after (emitted_infos ds dups) I I'"
proof -
  obtain info where info: "calc_statistic_info T False ds dups (afterfact_info.truncate I) = Some info" "stats_ok info"
    "length (timestamps info) = length (timestamps (afterfact_info.truncate I)) + length (emitted_infos ds dups)"
    "\<And>l. total_detect_counts_by_level info ! level_index l =
       total_detect_counts_by_level (afterfact_info.truncate I) ! level_index l + occurrences l (emitted_infos ds dups)"
    by (rule calc_statistic_ok [OF assms]) blast
  show thesis
  proof (rule that)
    show "calc_statistic T False ds dups I = Some (afterfact_info.extend info (afterfact_info.more I))"
      by (simp add: calc_statistic_def info(1))
    show "counted_after (emitted_infos ds dups) I (afterfact_info.extend info (afterfact_info.more I))"
      using info(2-4) by (simp add: counted_after_def truncate_sel truncate_timestamps)
  qed
qed

lemma additional_panics: "output_additional_afterfact S attck I r = None \<Longrightarrow> \<not> summary_ok S attck I"
  by (rule notI, drule additional_written [where r = r]) simp

lemma write_items_refused:
  "write_items A C refused ds dups es = Inl e \<Longrightarrow> \<not> ec_display C \<and> (\<exists>items. refused items = Some e)"
  by (auto simp: write_items_def split: prod.splits option.splits if_splits)

lemma counted_after_none: "stats_ok (afterfact_info.truncate I) \<Longrightarrow> counted_after (emitted_infos [] dups) I I"
  by (simp add: counted_after_def emitted_infos_def occurrences_def)

lemma emit_csv_counted:
  assumes "stats_ok (afterfact_info.truncate I)" "\<not> sm_no_summary S"
  shows "case emit_csv T S A C refused ds dups es I of
      Ok (items, es', I') \<Rightarrow> counted_after (emitted_infos ds dups) I I'
    | Err e \<Rightarrow> \<not> ec_display C \<and> (\<exists>items w. refused items = Some w \<and> e = output_afterfact_err w)
    | Panic \<Rightarrow> False"
proof -
  obtain I' where I': "calc_statistic T False ds dups I = Some I'" "counted_after (emitted_infos ds dups) I I'"
    by (rule calc_statistic_counted [OF assms(1)])
  show ?thesis
  proof (cases "ds = []")
    case True
    then show ?thesis using assms(1) by (simp add: emit_csv_def counted_after_none)
  next
    case ds: False
    show ?thesis
    proof (cases "write_items A C refused ds dups es")
      case (Inl e)
      with ds write_items_refused [OF Inl] show ?thesis by (auto simp: emit_csv_def)
    next
      case (Inr p)
      with ds I' assms(2) show ?thesis by (cases p) (simp add: emit_csv_def)
    qed
  qed
qed

lemma output_afterfact_counted:
  assumes "stats_ok (afterfact_info.truncate I)" "\<not> sm_no_summary S"
  shows "case output_afterfact T S attck A C refused sort_by rd infos es I r of
      Ok ((items, es', I'), r') \<Rightarrow>
        counted_after (emitted_infos (sort_by infos) (if rd then get_duplicate_idxes (sort_by infos) else [])) I I'
    | Err e \<Rightarrow> \<not> ec_display C \<and> (\<exists>items w. refused items = Some w \<and> e = output_afterfact_err w)
    | Panic \<Rightarrow> \<exists>I'. counted_after (emitted_infos (sort_by infos) (if rd then get_duplicate_idxes (sort_by infos) else [])) I I' \<and>
        \<not> summary_ok S attck I'"
proof -
  let ?ds = "sort_by infos" and ?dups = "if rd then get_duplicate_idxes (sort_by infos) else []"
  obtain I' where I': "calc_statistic T False ?ds ?dups I = Some I'" "counted_after (emitted_infos ?ds ?dups) I I'"
    by (rule calc_statistic_counted [OF assms(1)])
  show ?thesis
  proof (cases "write_items A C refused ?ds ?dups es")
    case (Inl e)
    then show ?thesis
      using write_items_refused [OF Inl] by (auto simp: output_afterfact_def output_afterfact_inner_def Let_def)
  next
    case (Inr p)
    with I' assms(2) additional_panics [of S attck I' r] show ?thesis
      by (cases p; cases "output_additional_afterfact S attck I' r")
         (auto simp: output_afterfact_def output_afterfact_inner_def Let_def)
  qed
qed

text \<open>
  C28: The summary counts what was written. When the counters of a scan agree and the summary is not
  switched off, its end can go in three ways. It returns: then the counters agree again (level by
  level the total equals the sum of the counts by date and the sum of the counts by rule, the unique
  counts add up to the number of rule ids), and the total of each level has grown by the number of
  written detections of that level, which are those of the counting rules with little memory, and
  otherwise all, sorted and without the duplicates if that is asked for. The file refuses the rows:
  then the program exits with that error; on a terminal this does not happen. Or it panics: then in
  the printing of the summary and never in the counting, the counters agree and have grown likewise,
  and a name that is not ASCII, a computer without a tactic or the width of the terminal is to blame.
\<close>

theorem summary_counts:
  assumes "stats_ok (afterfact_info.truncate I)" and "\<not> sm_no_summary S"
    and "out = (if se_low_memory Z then log_records
      else emitted_infos (sort_by (all_infos @ log_records))
        (if se_remove_duplicates Z then get_duplicate_idxes (sort_by (all_infos @ log_records)) else []))"
  shows "case finish_scan Z T S attck A C refused sort_by seen_times all_infos log_records es I r of
      Ok ((items, es', I'), r') \<Rightarrow> counted_after out I I'
    | Err e \<Rightarrow> \<not> ec_display C \<and> (\<exists>items w. refused items = Some w \<and> e = output_afterfact_err w)
    | Panic \<Rightarrow> \<exists>I'. counted_after out I I' \<and> \<not> summary_ok S attck I'"
proof (cases "se_low_memory Z")
  case True
  then have out: "out = emitted_infos log_records []" using assms(3) by (simp add: emitted_infos_def)
  show ?thesis
  proof (cases "emit_csv T S A C refused log_records [] es I")
    case (Ok p)
    obtain items es' I' where p: "p = (items, es', I')" by (metis surj_pair)
    let ?I = "set_times (fst seen_times) (snd seen_times) I'"
    have "counted_after out I ?I"
      using emit_csv_counted [OF assms(1,2), where T = T and A = A and C = C and refused = refused and ds = log_records and dups = "[]" and es = es] Ok p out by simp
    show ?thesis
    proof (cases "output_additional_afterfact S attck ?I r")
      case None
      with additional_panics [OF None] \<open>counted_after out I ?I\<close> True Ok p show ?thesis
        by (auto simp: finish_scan_def Let_def simp del: counted_after_times)
    next
      case (Some q)
      with \<open>counted_after out I ?I\<close> True Ok p show ?thesis
        by (cases q) (simp add: finish_scan_def Let_def)
    qed
  qed (use emit_csv_counted [OF assms(1,2), where T = T and A = A and C = C and refused = refused and ds = log_records and dups = "[]" and es = es] True in
      \<open>auto simp: finish_scan_def\<close>)
next
  case False
  then have out: "out = emitted_infos (sort_by (all_infos @ log_records))
      (if se_remove_duplicates Z then get_duplicate_idxes (sort_by (all_infos @ log_records)) else [])"
    using assms(3) by simp
  let ?I = "set_times (fst seen_times) (snd seen_times) I"
  have "stats_ok (afterfact_info.truncate ?I)" using assms(1) by simp
  from output_afterfact_counted [OF this assms(2), where T = T and attck = attck and A = A and C = C and refused = refused
        and sort_by = sort_by and rd = "se_remove_duplicates Z" and infos = "all_infos @ log_records" and es = es and r = r]
  show ?thesis by (simp only: finish_scan_def False if_False out counted_after_times)
qed

definition sample_end :: "(string, end_output \<times> html_reporter) outcome" where
  "sample_end =
     finish_scan \<lparr>se_low_memory = False, se_remove_duplicates = True\<rparr>
       \<lparr>show_time = (\<lambda>_. ''t''), show_date = (\<lambda>_. ''d'')\<rparr> sample_summary_config [] no_aho sample_emit_config
       (\<lambda>_. None) (\<lambda>ds. ds) (None, None) [sample_info 5 ''a''] [sample_info 5 ''b''] emit_state_default
       sample_summary_info html_reporter_new"

theorem summary_counts_witness:
  "case sample_end of
     Ok ((items, es', I'), r') \<Rightarrow> total_detect_counts_by_level I' ! 4 = 2
   | Err e \<Rightarrow> False
   | Panic \<Rightarrow> \<exists>I'. counted_after [sample_info 5 ''a'', sample_info 5 ''b''] sample_summary_info I' \<and>
       \<not> summary_ok sample_summary_config [] I'"
proof -
  have st: "stats_ok (afterfact_info.truncate sample_summary_info)"
    using sample_summary_ok by (simp add: summary_ok_def)
  have no: "\<not> sm_no_summary sample_summary_config" by (simp add: sample_summary_config_def)
  have "get_duplicate_idxes [sample_info 5 ''a'', sample_info 5 ''b''] = []"
    by (simp add: get_duplicate_idxes_def)
  then have out: "[sample_info 5 ''a'', sample_info 5 ''b''] =
      (if se_low_memory \<lparr>se_low_memory = False, se_remove_duplicates = True\<rparr> then [sample_info 5 ''b'']
       else emitted_infos ([sample_info 5 ''a''] @ [sample_info 5 ''b''])
        (if se_remove_duplicates \<lparr>se_low_memory = False, se_remove_duplicates = True\<rparr>
         then get_duplicate_idxes ([sample_info 5 ''a''] @ [sample_info 5 ''b'']) else []))"
    by (simp add: emitted_infos_def)
  have "total_detect_counts_by_level sample_summary_info ! 4 = 0"
    by (simp add: sample_summary_info_def afterfact_default_def)
  moreover have "occurrences HIGH [sample_info 5 ''a'', sample_info 5 ''b''] = 2"
    by (simp add: occurrences_def sample_info_def numeral_2_eq_2)
  ultimately have "counted_after [sample_info 5 ''a'', sample_info 5 ''b''] sample_summary_info I' \<Longrightarrow>
      total_detect_counts_by_level I' ! 4 = 2" for I'
    unfolding counted_after_def by (auto dest: spec [of _ HIGH])
  with summary_counts [where Z = "\<lparr>se_low_memory = False, se_remove_duplicates = True\<rparr>" and sort_by = "\<lambda>ds. ds", OF st no out,
      where T = "\<lparr>show_time = (\<lambda>_. ''t''), show_date = (\<lambda>_. ''d'')\<rparr>" and attck = "[]" and A = no_aho
        and C = sample_emit_config and refused = "\<lambda>_. None" and seen_times = "(None, None)" and es = emit_state_default
        and r = html_reporter_new]
  show ?thesis by (auto simp: sample_end_def split: outcome.splits prod.splits)
qed

end
