(* ===== verification/Html_Facts.thy ===== *)
theory Html_Facts
  imports Summary_Facts
begin

section \<open>The names in the report\<close>

text \<open>
  What the lines of the report that carry names from the logs, the rule titles and the authors give to
  the renderer: no sign of HTML that a name brought in, and after the five entities are read the
  very names. The signs of Markdown are another matter, and are not escaped.
\<close>

definition markup_free :: "string \<Rightarrow> bool" where
  "markup_free s \<longleftrightarrow> set s \<inter> {CHR ''<'', CHR ''>'', CHR 0x22, CHR 0x27} = {}"

definition plain_text :: "string \<Rightarrow> bool" where
  "plain_text s \<longleftrightarrow> markup_free s \<and> CHR ''&'' \<notin> set s"

text \<open>\<open>e\<close> brings in no sign of HTML and reads as \<open>s\<close>, whatever follows it.\<close>

definition reads_as :: "string \<Rightarrow> string \<Rightarrow> bool" where
  "reads_as e s \<longleftrightarrow> markup_free e \<and> (\<forall>t. html_unescape (e @ t) = s @ html_unescape t)"

named_theorems reads

lemma reads_as_append [reads]: "reads_as e s \<Longrightarrow> reads_as e' s' \<Longrightarrow> reads_as (e @ e') (s @ s')"
  by (auto simp: reads_as_def markup_free_def)

lemma reads_as_escape [reads]: "reads_as (html_escape_value s) s"
proof -
  have "markup_free (html_escape_value s)"
    using html_escape_char_safe by (fastforce simp: markup_free_def html_escape_value_def)
  moreover have "html_unescape (html_escape_value s @ t) = s @ html_unescape t" for t
    by (induction s) (simp_all add: html_escape_value_def html_unescape_char)
  ultimately show ?thesis by (simp add: reads_as_def)
qed

lemma html_unescape_other: "c \<noteq> CHR ''&'' \<Longrightarrow> html_unescape (c # t) = c # html_unescape t"
  by simp

lemma reads_as_plain: "plain_text s \<Longrightarrow> reads_as s s"
proof -
  assume "plain_text s"
  moreover from this have "html_unescape (s @ t) = s @ html_unescape t" for t
    by (induction s) (auto simp: plain_text_def markup_free_def html_unescape_other simp del: html_unescape.simps(2))
  ultimately show ?thesis by (simp add: reads_as_def plain_text_def)
qed

lemma reads_as_literals [reads]:
  "reads_as ''- '' ''- ''" "reads_as '' ('' '' (''" "reads_as '')'' '')''" "reads_as ''- ['' ''- [''"
  "reads_as ''](''  '']('' " "reads_as '') - '' '') - ''" "reads_as ''|'' ''|''"
  by (rule reads_as_plain, simp add: plain_text_def markup_free_def)+

lemma reads_as_all: "reads_as e s \<Longrightarrow> markup_free e \<and> html_unescape e = s"
  unfolding reads_as_def by (metis append_Nil2 html_unescape.simps(1))

lemma plain_path: "plain_text p \<Longrightarrow> plain_text (replace_all [CHR 0x5C] ''/'' p)"
  by (auto simp: replace_all_char plain_text_def markup_free_def)

text \<open>The line of a rule with the names as they are.\<close>

definition raw_rule_line ::
  "summary_config \<Rightarrow> (string \<times> string) list \<Rightarrow> (string \<times> string) list \<Rightarrow> string \<times> nat \<Rightarrow> string" where
  "raw_rule_line S title_path authors x =
     (let rule_path = unwrap_or not_found_path (map_of title_path (fst x))
      in (if sm_encoded_rules S then ''- '' @ fst x
          else ''- ['' @ fst x @ '']('' @ replace_all [CHR 0x5C] ''/'' rule_path @ '')'') @
         '' ('' @ number_text S (snd x) @ '') - '' @ unwrap_or not_found_path (map_of authors rule_path))"

lemma computer_line_read:
  assumes "plain_text (number_text S n)"
  shows "reads_as (''- '' @ count_text S (html_escape_value c, n)) (''- '' @ count_text S (c, n))"
  unfolding count_text_def fst_conv snd_conv by (intro reads reads_as_plain [OF assms])

lemma rule_line_read:
  assumes "plain_text (number_text S (snd x))"
    and "sm_encoded_rules S \<or> (\<exists>p. map_of title_path (fst x) = Some p \<and> plain_text p)"
  shows "reads_as (rule_html S title_path authors x) (raw_rule_line S title_path authors x)"
proof (cases "sm_encoded_rules S")
  case True
  then show ?thesis
    unfolding rule_html_def raw_rule_line_def Let_def by (simp only: if_True) (intro reads reads_as_plain [OF assms(1)])
next
  case False
  with assms(2) obtain p where p: "map_of title_path (fst x) = Some p" "plain_text p" by blast
  have "reads_as (replace_all [CHR 0x5C] ''/'' p) (replace_all [CHR 0x5C] ''/'' p)"
    by (rule reads_as_plain [OF plain_path [OF p(2)]])
  then show ?thesis
    unfolding rule_html_def raw_rule_line_def Let_def p(1) unwrap_or_simps
    by (simp only: False if_False) (intro reads reads_as_plain [OF assms(1)])
qed

lemma plain_heading:
  "plain_text (''### Computers with most unique '' @ to_full l @ '' detections: {#computers_with_most_unique_'' @ to_full l @ ''_detections}'')"
  "plain_text (''### All '' @ to_full l @ '' alerts: {#all_'' @ to_full l @ ''_alerts}'')"
  by (cases l; simp add: plain_text_def markup_free_def)+

lemma attck_row_cell: "attck_row (c, ts) = ''|'' @ html_escape_value c @ tl (attck_row ([], ts))"
  by (simp add: attck_row_def html_escape_value_def)

text \<open>
  C30: Names bring no HTML into the report, and are shown as they are. The lines of the report with the
  computers of a level hold no angle bracket and no quotation mark, and a reader of the five entities
  reads in them the names of the computers with their counts; so do the lines with the rules of a level
  and their authors, provided that each rule has a path of plain text or paths are left out since the
  rules are encoded; and the cell of a computer in the table of tactics is such a text too. How numbers
  are written is given by a crate, and taken to be plain. This is about the signs of HTML: those of
  Markdown, a bar or a link, are not escaped (\<open>bar_not_escaped\<close>, \<open>link_not_escaped\<close>).
\<close>

theorem report_names_escaped:
  assumes numbers: "\<And>n. plain_text (number_text S n)"
    and paths: "sm_encoded_rules S \<or> (\<forall>x \<in> set m. \<exists>p. map_of title_path (fst x) = Some p \<and> plain_text p)"
  shows "(\<forall>line \<in> set (computer_html S (l, m) @ rules_html S title_path authors (l, m)). markup_free line) \<and>
    map html_unescape (tl (computer_html S (l, m))) =
      map (\<lambda>x. ''- '' @ count_text S x) (sorted_computers m) @ [[]] \<and>
    map html_unescape (tl (rules_html S title_path authors (l, m))) =
      map (raw_rule_line S title_path authors) (by_count m) @ [[]] \<and>
    (\<exists>cell. attck_row (c, ts) = ''|'' @ cell @ tl (attck_row ([], ts)) \<and> markup_free cell \<and> html_unescape cell = c)"
proof -
  have c: "markup_free (''- '' @ count_text S (html_escape_value (fst x), snd x)) \<and>
      html_unescape (''- '' @ count_text S (html_escape_value (fst x), snd x)) = ''- '' @ count_text S x" for x
    using reads_as_all [OF computer_line_read [OF numbers [of "snd x"], of "fst x"]] by simp
  have r: "markup_free (rule_html S title_path authors x) \<and>
      html_unescape (rule_html S title_path authors x) = raw_rule_line S title_path authors x" if "x \<in> set m" for x
    by (rule reads_as_all [OF rule_line_read]) (use numbers paths that in auto)
  have e: "markup_free []" by (simp add: markup_free_def)
  have h: "markup_free (''### Computers with most unique '' @ to_full l @ '' detections: {#computers_with_most_unique_'' @ to_full l @ ''_detections}'')"
    "markup_free (''### All '' @ to_full l @ '' alerts: {#all_'' @ to_full l @ ''_alerts}'')"
    using plain_heading [of l] unfolding plain_text_def by blast+
  have "\<forall>line \<in> set (computer_html S (l, m) @ rules_html S title_path authors (l, m)). markup_free line"
    using c r e h by (auto simp only: computer_html_def rules_html_def fst_conv snd_conv set_append set_simps list.set_map
        set_by_count Un_iff image_iff insert_iff empty_iff)
  moreover have "map html_unescape (tl (computer_html S (l, m))) =
      map (\<lambda>x. ''- '' @ count_text S x) (sorted_computers m) @ [[]]"
    unfolding computer_html_def list.sel(3) fst_conv snd_conv map_append list.map_comp
    using c by (simp add: comp_def del: append_Cons append_Nil html_unescape.simps(2))
  moreover have "map html_unescape (tl (rules_html S title_path authors (l, m))) =
      map (raw_rule_line S title_path authors) (by_count m) @ [[]]"
    using r by (simp add: rules_html_def)
  moreover have "markup_free (html_escape_value c) \<and> html_unescape (html_escape_value c) = c"
    by (rule reads_as_all [OF reads_as_escape])
  ultimately show ?thesis using attck_row_cell by blast
qed

definition sample_html_config :: summary_config where
  "sample_html_config = sample_summary_config\<lparr>sm_number := (\<lambda>_. ''one'')\<rparr>"

theorem report_names_escaped_witness:
  "map html_unescape (tl (rules_html sample_html_config [(''a<b'', ''rules/x.yml'')] [(''rules/x.yml'', ''A & B'')] (HIGH, [(''a<b'', 1)]))) =
     [''- [a<b](rules/x.yml) (one) - A & B'', []] \<and>
   tl (rules_html sample_html_config [(''a<b'', ''rules/x.yml'')] [(''rules/x.yml'', ''A & B'')] (HIGH, [(''a<b'', 1)])) =
     [''- [a&lt;b](rules/x.yml) (one) - A &amp; B'', []]"
proof -
  have n: "plain_text (number_text sample_html_config n)" for n
    by (simp add: number_text_def sample_html_config_def plain_text_def markup_free_def)
  have p: "sm_encoded_rules sample_html_config \<or>
      (\<forall>x \<in> set [(''a<b'', 1 :: nat)]. \<exists>p. map_of [(''a<b'', ''rules/x.yml'')] (fst x) = Some p \<and> plain_text p)"
    by (simp add: plain_text_def markup_free_def)
  have raw: "map (raw_rule_line sample_html_config [(''a<b'', ''rules/x.yml'')] [(''rules/x.yml'', ''A & B'')]) (by_count [(''a<b'', 1)]) @ [[]] =
      [''- [a<b](rules/x.yml) (one) - A & B'', []]"
    by code_simp
  have out: "tl (rules_html sample_html_config [(''a<b'', ''rules/x.yml'')] [(''rules/x.yml'', ''A & B'')] (HIGH, [(''a<b'', 1)])) =
     [''- [a&lt;b](rules/x.yml) (one) - A &amp; B'', []]"
    by code_simp
  from report_names_escaped [OF n p, where l = HIGH and authors = "[(''rules/x.yml'', ''A & B'')]"] raw out
  show ?thesis by simp
qed

text \<open>What Markdown reads is handed on: a name that looks like a link is one in the report.\<close>

lemma link_not_escaped:
  "computer_html sample_html_config (HIGH, [(''[x](javascript:1)'', 1)]) ! 1 = ''- [x](javascript:1) (one)''"
  by code_simp

end
