(* ===== verification/Settings.thy ===== *)
theory Settings
  imports Channel_Filter Log_Record
begin

section \<open>Configuration files (configs.rs, utils.rs, options/profile.rs)\<close>

text \<open>
  Where the configuration comes from: a file that bundles all configuration files, or the files
  themselves, next to the program or in the current directory. \<open>disk\<close> is what the program sees of
  the file system: whether a path exists, the lines of a file and its text, with an error for a line
  or a text that is no UTF-8. The readers of CSV and YAML are parameters. Paths are those of Unix and
  have no line breaks.
\<close>

record disk =
  dk_exe :: string
  dk_exists :: "string \<Rightarrow> bool"
  dk_lines :: "string \<Rightarrow> (string + string) list option"
  dk_text :: "string \<Rightarrow> (string + string) option"
  dk_bundle :: "(string \<times> string) list"

subsection \<open>The bundle of configuration files\<close>

record bundle_state =
  bs_sections :: "(string \<times> string) list"
  bs_path :: string
  bs_content :: string
  bs_in_content :: bool

definition path_mark :: string where "path_mark = ''path: ''"

definition bundle_line :: "string \<Rightarrow> bundle_state \<Rightarrow> bundle_state" where
  "bundle_line line st =
     (if starts_with line ''---FILE_START---'' then st\<lparr>bs_path := [], bs_content := [], bs_in_content := False\<rparr>
      else if starts_with line path_mark then st\<lparr>bs_path := drop (length path_mark) line\<rparr>
      else if starts_with line ''---CONTENT---'' then st\<lparr>bs_in_content := True\<rparr>
      else if starts_with line ''---FILE_END---'' then
        st\<lparr>bs_sections := assoc_insert (bs_path st) (bs_content st) (bs_sections st)\<rparr>
      else if bs_in_content st then st\<lparr>bs_content := bs_content st @ line @ [CHR 0x0A]\<rparr>
      else st)"

fun bundle_lines :: "(string + string) list \<Rightarrow> bundle_state \<Rightarrow> string + (string \<times> string) list" where
  "bundle_lines [] st = Inr (bs_sections st)"
| "bundle_lines (Inl e # ls) st = Inl e"
| "bundle_lines (Inr l # ls) st = bundle_lines ls (bundle_line l st)"

definition read_one_config_file :: "(string + string) list option \<Rightarrow> string + (string \<times> string) list" where
  "read_one_config_file file =
     (case file of
        None \<Rightarrow> Inl ''No such file''
      | Some ls \<Rightarrow> bundle_lines ls \<lparr>bs_sections = [], bs_path = [], bs_content = [], bs_in_content = False\<rparr>)"

definition one_config_map :: "(string + string) list option \<Rightarrow> (string \<times> string) list" where
  "one_config_map file = (case read_one_config_file file of Inl _ \<Rightarrow> [] | Inr m \<Rightarrow> m)"

subsection \<open>Paths\<close>

text \<open>Equality of paths is that of their components: empty ones do not count, nor dots but the first.\<close>

definition path_components :: "string \<Rightarrow> string list" where
  "path_components p =
     (let cs = split_char (CHR ''/'') p in
      (if starts_with p ''/'' then [''/''] else if hd cs = ''.'' then [''.''] else []) @
      filter (\<lambda>c. c \<noteq> [] \<and> c \<noteq> ''.'') cs)"

definition path_eq :: "string \<Rightarrow> string \<Rightarrow> bool" where
  "path_eq p q \<longleftrightarrow> path_components p = path_components q"

definition in_bundle :: "disk \<Rightarrow> string \<Rightarrow> bool" where
  "in_bundle D name \<longleftrightarrow> map_of (dk_bundle D) name \<noteq> None"

definition check_setting_path :: "disk \<Rightarrow> string \<Rightarrow> string \<Rightarrow> bool \<Rightarrow> string option" where
  "check_setting_path D base path ignore_err =
     (if in_bundle D (base_name path) then Some path
      else if dk_exists D (path_join base path) then Some (path_join base path)
      else if ignore_err then Some path
      else None)"

text \<open>\<open>check_setting_path(&CURRENT_EXE_PATH, path, true).unwrap()\<close>, which always is a path.\<close>

definition beside_exe :: "disk \<Rightarrow> string \<Rightarrow> string" where
  "beside_exe D path = unwrap_or path (check_setting_path D (dk_exe D) path True)"

text \<open>A file of the rules' configuration: in the directory of the options, or beside the program.\<close>

definition config_file :: "disk \<Rightarrow> string \<Rightarrow> string \<Rightarrow> string" where
  "config_file D config_path name =
     (case check_setting_path D config_path name False of
        Some p \<Rightarrow> p
      | None \<Rightarrow> beside_exe D (''rules/config/'' @ name))"

definition check_file_expect_not_exist :: "disk \<Rightarrow> string \<Rightarrow> bool" where
  "check_file_expect_not_exist D path = dk_exists D path"

definition rule_config_files :: "string list" where
  "rule_config_files = [''channel_abbreviations.txt'', ''target_event_IDs.txt'', ''default_details.txt'',
     ''level_tuning.txt'', ''channel_eid_info.txt'', ''eventkey_alias.txt'']"

definition check_rule_config :: "disk \<Rightarrow> string \<Rightarrow> string + unit" where
  "check_rule_config D config_path =
     (if list_all (in_bundle D) rule_config_files then Inr ()
      else if check_setting_path D config_path (if path_eq config_path (dk_exe D) then ''rules/config'' else []) False = None
      then Inl ''The required rules and config files were not found. Please download them with the update-rules command.''
      else
        (case filter (\<lambda>f. check_setting_path D config_path f False = None) rule_config_files of
           [] \<Rightarrow> Inr ()
         | missing \<Rightarrow> Inl (''Could not find the following config files: '' @ join '', '' missing @ [CHR 0x0A] @
             ''Please specify a correct rules config directory.'' @ [CHR 0x0A])))"

subsection \<open>Reading\<close>

definition read_txt :: "disk \<Rightarrow> string \<Rightarrow> string + string list" where
  "read_txt D filename =
     (let filepath = (if starts_with filename ''./'' then beside_exe D filename else filename) in
      case map_of (dk_bundle D) (base_name filename) of
        Some s \<Rightarrow> Inr (lines s)
      | None \<Rightarrow>
          (case dk_lines D filepath of
             None \<Rightarrow> Inl (''Cannot open file. [file:'' @ filename @ '']'')
           | Some ls \<Rightarrow> Inr (map (\<lambda>l. case l of Inr s \<Rightarrow> s | Inl _ \<Rightarrow> []) ls)))"

text \<open>\<open>csv text\<close> are the records after the header, each a list of fields or an error.\<close>

definition good_records :: "(string + string list) list \<Rightarrow> string list list" where
  "good_records rs = option_list (map (\<lambda>r. case r of Inr v \<Rightarrow> Some v | Inl _ \<Rightarrow> None) rs)"

definition parse_csv :: "(string \<Rightarrow> (string + string list) list) \<Rightarrow> string \<Rightarrow> string list list" where
  "parse_csv csv s = good_records (csv s)"

definition read_csv ::
  "(string \<Rightarrow> (string + string list) list) \<Rightarrow> disk \<Rightarrow> string \<Rightarrow> string + string list list" where
  "read_csv csv D filename =
     (case map_of (dk_bundle D) (base_name filename) of
        Some s \<Rightarrow> Inr (parse_csv csv s)
      | None \<Rightarrow>
          (case dk_text D filename of
             None \<Rightarrow> Inl (''Cannot open file. [file:'' @ filename @ '']'')
           | Some (Inl e) \<Rightarrow> Inl e
           | Some (Inr s) \<Rightarrow> Inr (parse_csv csv s)))"

subsection \<open>Default details, event titles, dashes, versions\<close>

text \<open>The first line that is not in order ends the reading; what was read before it is kept.\<close>

definition default_details_line :: "string list \<Rightarrow> string + string \<times> string" where
  "default_details_line line =
     (case line of
        [] \<Rightarrow> Inl ''Failed to read provider in default_details.txt.''
      | [provider] \<Rightarrow> Inl ''Failed to read EventID in default_details.txt.''
      | provider # eid_str # rest \<Rightarrow>
          (case parse_i64 (trim eid_str) of
             None \<Rightarrow> Inl ''EventID parsing error in default_details.txt.''
           | Some eid \<Rightarrow>
               (case rest of
                  [] \<Rightarrow> Inl ''Failed to read details in default_details.txt.''
                | detail # _ \<Rightarrow> Inr (trim provider @ ''_'' @ show_int eid, trim detail))))"

fun default_details_lines :: "string list list \<Rightarrow> (string \<times> string) list \<Rightarrow> (string \<times> string) list" where
  "default_details_lines [] m = m"
| "default_details_lines (l # ls) m =
     (case default_details_line l of
        Inl _ \<Rightarrow> m
      | Inr (k, v) \<Rightarrow> default_details_lines ls (assoc_insert k v m))"

definition get_default_details :: "string + string list list \<Rightarrow> bool \<Rightarrow> (string \<times> string) list" where
  "get_default_details read_result disable_abbreviations =
     (if disable_abbreviations then []
      else (case read_result of Inl _ \<Rightarrow> [] | Inr ls \<Rightarrow> default_details_lines ls []))"

type_synonym event_titles = "((string \<times> string) \<times> string) list"

definition event_title_line :: "env \<Rightarrow> string list \<Rightarrow> event_titles \<Rightarrow> event_titles" where
  "event_title_line E line m =
     (case line of
        [channel, eventcode, event_title] \<Rightarrow> assoc_insert (to_lowercase E channel, eventcode) event_title m
      | _ \<Rightarrow> m)"

definition load_eventcode_info :: "env \<Rightarrow> string + string list list \<Rightarrow> event_titles" where
  "load_eventcode_info E read_result =
     (case read_result of Inl _ \<Rightarrow> [] | Inr ls \<Rightarrow> fold (event_title_line E) ls [])"

definition get_event_id :: "event_titles \<Rightarrow> string \<Rightarrow> string \<Rightarrow> string option" where
  "get_event_id m channel eventid = map_of m (channel, eventid)"

text \<open>Characters are their UTF-8 bytes: the hyphen, the two dashes and the horizontal bar.\<close>

definition default_windash :: "string list" where
  "default_windash = [''-'', [CHR 0xE2, CHR 0x80, CHR 0x93], [CHR 0xE2, CHR 0x80, CHR 0x94], [CHR 0xE2, CHR 0x80, CHR 0x95]]"

definition first_char :: "string \<Rightarrow> string option" where
  "first_char s = (case utf8_chars s of [] \<Rightarrow> None | c # _ \<Rightarrow> Some c)"

definition load_windash_characters :: "disk \<Rightarrow> string \<Rightarrow> string list option" where
  "load_windash_characters D file_path =
     (case map_of (dk_bundle D) ''windash_characters.txt'' of
        Some s \<Rightarrow> those (map first_char (lines s))
      | None \<Rightarrow>
          (case dk_lines D file_path of
             None \<Rightarrow> Some default_windash
           | Some ls \<Rightarrow>
               map_option (\<lambda>ss. option_list (map first_char ss))
                 (those (map (\<lambda>l. case l of Inr s \<Rightarrow> Some s | Inl _ \<Rightarrow> None) ls))))"

definition nth_or_empty :: "string list \<Rightarrow> nat \<Rightarrow> string" where
  "nth_or_empty r i = (if i < length r then r ! i else [])"

definition win_version_rows :: "string list list \<Rightarrow> ((string \<times> string) \<times> string \<times> string) list" where
  "win_version_rows rows =
     fold (\<lambda>r. assoc_insert (nth_or_empty r 0, nth_or_empty r 1) (nth_or_empty r 2, nth_or_empty r 3)) rows []"

text \<open>Here the file comes before the bundle; \<open>csv\<close> reads what was opened, record by record.\<close>

definition load_win_versions ::
  "(string + string \<Rightarrow> (string + string list) list) \<Rightarrow> disk \<Rightarrow> ((string \<times> string) \<times> string \<times> string) list" where
  "load_win_versions csv D =
     (case dk_text D ''rules/config/windows_versions.csv'' of
        Some f \<Rightarrow> win_version_rows (good_records (csv f))
      | None \<Rightarrow>
          (case map_of (dk_bundle D) ''windows_versions.csv'' of
             Some s \<Rightarrow> win_version_rows (good_records (csv (Inr s)))
           | None \<Rightarrow> []))"

subsection \<open>The default profile\<close>

text \<open>
  \<open>embedded\<close> are the files inside the program, \<open>load\<close> the YAML parser, \<open>dump\<close> the emitter. The texts of
  files are a map from paths; a file that is not there, or is read-only, cannot be opened for writing.
\<close>

definition read_profile_data ::
  "(string \<Rightarrow> string + yaml list) \<Rightarrow> (string \<rightharpoonup> string) \<Rightarrow> (string \<rightharpoonup> string) \<Rightarrow> string \<Rightarrow> (string, yaml list) outcome" where
  "read_profile_data load embedded texts profile_path =
     (let parsed = (\<lambda>s. case load s of
            Inr ys \<Rightarrow> Ok ys
          | Inl e \<Rightarrow> Err (''Parse error: '' @ profile_path @ ''. '' @ e))
      in case texts profile_path of
           Some s \<Rightarrow> parsed s
         | None \<Rightarrow>
             (case file_name profile_path of
                None \<Rightarrow> Panic
              | Some name \<Rightarrow>
                  (case embedded name of
                     Some s \<Rightarrow> parsed s
                   | None \<Rightarrow> Err (''The profile file('' @ profile_path @
                       '') does not exist. Please check your default profile.''))))"

definition with_file_name :: "string \<Rightarrow> string \<Rightarrow> string" where
  "with_file_name path name = take (length path - length (base_name path)) path @ name"

definition overwrite :: "(string \<Rightarrow> bool) \<Rightarrow> string \<Rightarrow> string \<Rightarrow> (string \<rightharpoonup> string) \<Rightarrow> (string \<rightharpoonup> string) option" where
  "overwrite read_only path s texts =
     (if texts path = None \<or> read_only path then None else Some (texts(path \<mapsto> s)))"

text \<open>
  The name of the profile is \<open>None\<close> where the option is missing. The file is emptied when it is opened,
  before the profile is looked up.
\<close>

definition set_default_profile ::
  "(string \<Rightarrow> string + yaml list) \<Rightarrow> (yaml \<Rightarrow> string + string) \<Rightarrow> (string \<rightharpoonup> string) \<Rightarrow> (string \<Rightarrow> bool) \<Rightarrow>
   string \<Rightarrow> string \<Rightarrow> string option \<Rightarrow> (string \<rightharpoonup> string) \<Rightarrow> (string \<rightharpoonup> string) \<times> (string, unit) outcome" where
  "set_default_profile load dump embedded read_only default_profile_path profile_path profile texts =
     (case read_profile_data load embedded texts profile_path of
        Panic \<Rightarrow> (texts, Panic)
      | Err e \<Rightarrow> (texts, Err ''Failed to set the default profile.'')
      | Ok profile_data \<Rightarrow>
          (case profile of
             None \<Rightarrow> (texts, Panic)
           | Some profile_name \<Rightarrow>
               (case overwrite read_only default_profile_path [] texts of
                  None \<Rightarrow> (texts, Err (''Failed to set the default profile file('' @ profile_path @ '').''))
                | Some texts1 \<Rightarrow>
                    (case profile_data of
                       [] \<Rightarrow> (texts1, Panic)
                     | prof_all_data # _ \<Rightarrow>
                         (let y = yindex prof_all_data profile_name in
                          if y \<noteq> YBadValue then
                            (case dump y of
                               Inl e \<Rightarrow> (texts1, Err (''Failed to set the default profile file('' @ profile_path @ ''). '' @ e))
                             | Inr out_str \<Rightarrow>
                                 (let texts2 = texts1(default_profile_path \<mapsto> out_str)
                                  in (unwrap_or texts2
                                        (overwrite read_only (with_file_name default_profile_path ''default_profile_name.txt'')
                                           profile_name texts2), Ok ())))
                          else
                            (case Option.bind (as_hash prof_all_data) (\<lambda>h. strings_of (map fst h)) of
                               None \<Rightarrow> (texts1, Panic)
                             | Some names \<Rightarrow>
                                 (texts1, Err (''Invalid profile specified: '' @ profile_name @ [CHR 0x0A] @
                                    ''Please specify one of the following profiles:'' @ [CHR 0x0A] @ join '', '' names))))))))"

definition load_profile_from ::
  "(string \<Rightarrow> string + yaml list) \<Rightarrow> (string \<rightharpoonup> string) \<Rightarrow> string \<Rightarrow> string \<Rightarrow> string option \<Rightarrow> bool \<Rightarrow> bool \<Rightarrow> (string \<rightharpoonup> string) \<Rightarrow>
   (string, (string \<times> profile) list option) outcome" where
  "load_profile_from load embedded default_profile_path profile_path profile has_geo_db recover_records texts =
     (case read_profile_data load embedded texts (if profile = None then default_profile_path else profile_path) of
        Panic \<Rightarrow> Panic
      | r \<Rightarrow> load_profile (\<lambda>_. case r of Ok ys \<Rightarrow> Inr ys | Err e \<Rightarrow> Inl e | Panic \<Rightarrow> Inr [])
               default_profile_path profile_path profile has_geo_db recover_records)"


subsection \<open>A bundle holds its files\<close>

definition unlines :: "string list \<Rightarrow> string" where
  "unlines ls = concat (map (\<lambda>l. l @ [CHR 0x0A]) ls)"

definition bundle_section :: "string \<times> string list \<Rightarrow> string list" where
  "bundle_section f = (case f of (p, ls) \<Rightarrow>
     [''---FILE_START---'', path_mark @ p, ''---CONTENT---''] @ ls @ [''---FILE_END---''])"

definition plain_line :: "string \<Rightarrow> bool" where
  "plain_line l \<longleftrightarrow> \<not> starts_with l ''---FILE_START---'' \<and> \<not> starts_with l path_mark \<and>
     \<not> starts_with l ''---CONTENT---'' \<and> \<not> starts_with l ''---FILE_END---''"

lemma unlines_simps [simp]: "unlines [] = []" "unlines (l # ls) = l @ CHR 0x0A # unlines ls"
  by (simp_all add: unlines_def)

lemma bundle_content:
  "list_all plain_line ls \<Longrightarrow> bs_in_content st \<Longrightarrow>
   bundle_lines (map Inr ls @ rest) st = bundle_lines rest (st\<lparr>bs_content := bs_content st @ unlines ls\<rparr>)"
  by (induction ls arbitrary: st) (simp_all add: bundle_line_def plain_line_def)

lemma bundle_marks:
  "bundle_line ''---FILE_START---'' st = st\<lparr>bs_path := [], bs_content := [], bs_in_content := False\<rparr>"
  "bundle_line (path_mark @ p) st = st\<lparr>bs_path := p\<rparr>"
  "bundle_line ''---CONTENT---'' st = st\<lparr>bs_in_content := True\<rparr>"
  "bundle_line ''---FILE_END---'' st = st\<lparr>bs_sections := assoc_insert (bs_path st) (bs_content st) (bs_sections st)\<rparr>"
  by (simp_all add: bundle_line_def path_mark_def starts_with_def)

lemma bundle_section_read:
  assumes "list_all plain_line ls"
  shows "\<exists>st'. bundle_lines (map Inr (bundle_section (p, ls)) @ rest) st = bundle_lines rest st' \<and>
    bs_sections st' = assoc_insert p (unlines ls) (bs_sections st)"
proof -
  let ?st = "st\<lparr>bs_content := [], bs_path := p, bs_in_content := True\<rparr>"
  have "bundle_lines (map Inr (bundle_section (p, ls)) @ rest) st =
      bundle_lines (map Inr ls @ Inr ''---FILE_END---'' # rest) ?st"
    by (simp add: bundle_section_def bundle_marks)
  also have "\<dots> = bundle_lines rest (bundle_line ''---FILE_END---'' (?st\<lparr>bs_content := unlines ls\<rparr>))"
    using bundle_content [OF assms, of ?st] by simp
  finally show ?thesis by (auto simp: bundle_marks)
qed

lemma bundle_sections_read:
  assumes "\<forall>(p, ls) \<in> set fs. list_all plain_line ls"
  shows "bundle_lines (map Inr (concat (map bundle_section fs))) st =
    Inr (fold (\<lambda>(p, ls). assoc_insert p (unlines ls)) fs (bs_sections st))"
  using assms
proof (induction fs arbitrary: st)
  case (Cons f fs)
  obtain p ls where f: "f = (p, ls)" by fastforce
  obtain st' where "bundle_lines (map Inr (bundle_section (p, ls)) @ map Inr (concat (map bundle_section fs))) st =
      bundle_lines (map Inr (concat (map bundle_section fs))) st'"
    "bs_sections st' = assoc_insert p (unlines ls) (bs_sections st)"
    using bundle_section_read [of ls p] Cons.prems f by force
  with Cons.IH [of st'] Cons.prems f show ?case by simp
qed simp

lemma assoc_insert_new: "k \<notin> fst ` set m \<Longrightarrow> assoc_insert k v m = m @ [(k, v)]"
  by (induction k v m rule: assoc_insert.induct) auto

lemma fold_assoc_insert_new:
  "distinct (map fst fs) \<Longrightarrow> fst ` set fs \<inter> fst ` set m = {} \<Longrightarrow>
   fold (\<lambda>(k, v). assoc_insert k (g k v)) fs m = m @ map (\<lambda>(k, v). (k, g k v)) fs"
proof (induction fs arbitrary: m)
  case (Cons f fs)
  then show ?case by (cases f) (auto simp: assoc_insert_new)
qed simp

text \<open>
  A bundle gives back the files it was made of. If no line of a file looks like one of the marks of
  the format and no name occurs twice, reading the bundle yields every file under its name with all
  its lines, and nothing else.
\<close>

theorem bundle_read_back:
  assumes "distinct (map fst fs)" and "\<forall>(p, ls) \<in> set fs. list_all plain_line ls"
  shows "read_one_config_file (Some (map Inr (concat (map bundle_section fs)))) =
    Inr (map (\<lambda>(p, ls). (p, unlines ls)) fs)"
  using assms by (simp add: read_one_config_file_def bundle_sections_read fold_assoc_insert_new)

theorem bundle_read_back_witness:
  "read_one_config_file (Some (map Inr (concat (map bundle_section
       [(''geoip_field_mapping.yaml'', [''SrcIP:'', ''  - IpAddress'']), (''proven_rules.txt'', [])])))) =
    Inr [(''geoip_field_mapping.yaml'', unlines [''SrcIP:'', ''  - IpAddress'']), (''proven_rules.txt'', [])]"
proof -
  have "list_all plain_line [''SrcIP:'', ''  - IpAddress'']" by code_simp
  with bundle_read_back [of "[(''geoip_field_mapping.yaml'', [''SrcIP:'', ''  - IpAddress'']), (''proven_rules.txt'', [])]"]
  show ?thesis by simp
qed

text \<open>A line of a file that begins like the mark of a path is lost and renames the file.\<close>

lemma path_line_renames_file:
  "read_one_config_file (Some (map Inr (bundle_section (''mapping.yaml'', [''path: C:'', ''x: y''])))) =
    Inr [(''C:'', ''x: y'' @ [CHR 0x0A])]"
  by code_simp

subsection \<open>Default details\<close>

definition good_details :: "string list list \<Rightarrow> string list list" where
  "good_details ls = takeWhile (\<lambda>l. case default_details_line l of Inr _ \<Rightarrow> True | Inl _ \<Rightarrow> False) ls"

text \<open>What is loaded are the lines before the first bad one, and of two with the same key the later.\<close>

lemma default_details_prefix:
  "default_details_lines ls m =
    fold (\<lambda>l. case default_details_line l of Inr (k, v) \<Rightarrow> assoc_insert k v | Inl _ \<Rightarrow> id) (good_details ls) m"
  by (induction ls arbitrary: m) (auto simp: good_details_def split: sum.split)

text \<open>One line with a bad number hides every line after it, and nothing is reported.\<close>

lemma bad_line_hides_rest:
  "default_details_line bad = Inl e \<Longrightarrow> default_details_lines (ls @ bad # rest) m = default_details_lines ls m"
  by (induction ls arbitrary: m) (auto split: sum.split)

lemma bad_line: "default_details_line [provider, ''one'', detail] = Inl ''EventID parsing error in default_details.txt.''"
proof -
  have "parse_i64 (trim ''one'') = None" by code_simp
  then show ?thesis by (simp add: default_details_line_def)
qed

subsection \<open>Dashes\<close>

text \<open>An empty line is passed over in a file of its own, but ends the program in the bundle.\<close>

lemma empty_dash_line:
  "load_windash_characters \<lparr>dk_exe = [], dk_exists = (\<lambda>_. False), dk_lines = (\<lambda>_. Some [Inr ''-'', Inr []]),
     dk_text = (\<lambda>_. None), dk_bundle = []\<rparr> ''windash_characters.txt'' = Some [''-'']"
  "load_windash_characters \<lparr>dk_exe = [], dk_exists = (\<lambda>_. False), dk_lines = (\<lambda>_. None), dk_text = (\<lambda>_. None),
     dk_bundle = [(''windash_characters.txt'', ''-'' @ [CHR 0x0A, CHR 0x0A])]\<rparr> ''windash_characters.txt'' = None"
  by code_simp+

subsection \<open>Setting the default profile\<close>

lemma set_default_profile_Ok:
  assumes "set_default_profile load dump embedded read_only dp pp (Some n) texts = (texts', Ok ())"
  obtains all rest s texts2 where
    "read_profile_data load embedded texts pp = Ok (all # rest)" "yindex all n \<noteq> YBadValue"
    "dump (yindex all n) = Inr s" "texts2 = texts(dp \<mapsto> s)"
    "texts' = unwrap_or texts2 (overwrite read_only (with_file_name dp ''default_profile_name.txt'') n texts2)"
proof -
  obtain data where r: "read_profile_data load embedded texts pp = Ok data"
    using assms by (auto simp: set_default_profile_def split: outcome.splits)
  obtain texts1 where o: "overwrite read_only dp [] texts = Some texts1"
    using assms r by (auto simp: set_default_profile_def split: option.splits)
  then have t: "texts1 = texts(dp \<mapsto> [])" by (auto simp: overwrite_def split: if_splits)
  obtain all rest where d: "data = all # rest"
    using assms r o by (cases data) (auto simp: set_default_profile_def)
  have y: "yindex all n \<noteq> YBadValue"
    using assms r o d by (auto simp: set_default_profile_def split: option.splits)
  obtain s where s: "dump (yindex all n) = Inr s"
    using assms r o d y by (auto simp: set_default_profile_def split: sum.splits)
  show ?thesis
    using assms r o d y s t by (intro that [of all rest s]) (auto simp: set_default_profile_def Let_def)
qed

text \<open>
  C33: A default profile that was set is the one that is used. If setting the profile succeeded, the
  columns of a run without a named profile are afterwards those of a run that names it, provided that
  the parser reads back what the emitter wrote.
\<close>

theorem default_profile_set:
  assumes "set_default_profile load dump embedded read_only dp pp (Some n) texts = (texts', Ok ())"
    and "\<And>y s. dump y = Inr s \<Longrightarrow> load s = Inr [y]" and "with_file_name dp ''default_profile_name.txt'' \<noteq> dp"
  shows "load_profile_from load embedded dp pp None geo recover texts' =
    load_profile_from load embedded dp pp (Some n) geo recover texts"
proof -
  obtain all rest s texts2 where a: "read_profile_data load embedded texts pp = Ok (all # rest)"
    "yindex all n \<noteq> YBadValue" "dump (yindex all n) = Inr s" "texts2 = texts(dp \<mapsto> s)"
    "texts' = unwrap_or texts2 (overwrite read_only (with_file_name dp ''default_profile_name.txt'') n texts2)"
    by (rule set_default_profile_Ok [OF assms(1)])
  have "texts' dp = Some s"
    using a(4,5) assms(3) by (auto simp: overwrite_def)
  then have "read_profile_data load embedded texts' dp = Ok [yindex all n]"
    using assms(2) [OF a(3)] by (simp add: read_profile_data_def)
  with a(1,2) show ?thesis by (simp add: load_profile_from_def load_profile_def)
qed

definition sample_profiles :: yaml where
  "sample_profiles = YHash [(YString ''minimal'', YHash [(YString ''Time'', YString ''%Timestamp%'')])]"

definition sample_load :: "string \<Rightarrow> string + yaml list" where
  "sample_load s =
     (if s = ''all'' then Inr [sample_profiles]
      else if s = ''one'' then Inr [yindex sample_profiles ''minimal'']
      else if s = [] then Inr [] else Inl ''?'')"

definition sample_dump :: "yaml \<Rightarrow> string + string" where
  "sample_dump y = (if y = yindex sample_profiles ''minimal'' then Inr ''one'' else Inl ''?'')"

definition sample_texts :: "string \<rightharpoonup> string" where
  "sample_texts = [''config/default_profile.yaml'' \<mapsto> ''old'', ''config/profiles.yaml'' \<mapsto> ''all'']"

theorem default_profile_set_witness:
  "load_profile_from sample_load Map.empty ''config/default_profile.yaml'' ''config/profiles.yaml'' None False False
     (fst (set_default_profile sample_load sample_dump Map.empty (\<lambda>_. False) ''config/default_profile.yaml''
        ''config/profiles.yaml'' (Some ''minimal'') sample_texts)) =
   load_profile_from sample_load Map.empty ''config/default_profile.yaml'' ''config/profiles.yaml'' (Some ''minimal'')
     False False sample_texts"
proof (rule default_profile_set [where dump = sample_dump and read_only = "\<lambda>_. False"])
  have "snd (set_default_profile sample_load sample_dump Map.empty (\<lambda>_. False) ''config/default_profile.yaml''
        ''config/profiles.yaml'' (Some ''minimal'') sample_texts) = Ok ()"
    by code_simp
  then show "set_default_profile sample_load sample_dump Map.empty (\<lambda>_. False) ''config/default_profile.yaml''
        ''config/profiles.yaml'' (Some ''minimal'') sample_texts =
      (fst (set_default_profile sample_load sample_dump Map.empty (\<lambda>_. False) ''config/default_profile.yaml''
        ''config/profiles.yaml'' (Some ''minimal'') sample_texts), Ok ())"
    by (simp add: prod_eq_iff)
  show "sample_load s = Inr [y]" if "sample_dump y = Inr s" for y s
    using that by (auto simp: sample_dump_def sample_load_def split: if_splits)
  show "with_file_name ''config/default_profile.yaml'' ''default_profile_name.txt'' \<noteq> ''config/default_profile.yaml''"
    by code_simp
qed

text \<open>
  A name that is no profile empties the file of the default profile, after which no run without a named
  profile finds one: every command ends at once, without a message, and so does setting the profile again.
\<close>

lemma wrong_profile_empties_default:
  assumes "read_profile_data load embedded texts pp = Ok (all # rest)" and "yindex all n = YBadValue"
    and "texts dp \<noteq> None" and "\<not> read_only dp" and "load [] = Inr []"
  shows "fst (set_default_profile load dump embedded read_only dp pp (Some n) texts) = texts(dp \<mapsto> [])"
    and "load_profile_from load embedded dp pp None geo recover (texts(dp \<mapsto> [])) = Ok None"
  using assms
  by (auto simp: set_default_profile_def overwrite_def load_profile_from_def load_profile_def read_profile_data_def
      split: option.split)

text \<open>Without the name of a profile the command panics.\<close>

lemma no_profile_named_panics:
  assumes "read_profile_data load embedded texts pp = Ok data"
  shows "snd (set_default_profile load dump embedded read_only dp pp None texts) = Panic"
  using assms by (simp add: set_default_profile_def)

subsection \<open>The check of the configuration\<close>

lemma check_rule_config_Inr:
  assumes "check_rule_config D config_path = Inr ()" and "f \<in> set rule_config_files"
  shows "in_bundle D (base_name f) \<or> dk_exists D (path_join config_path f)"
proof (cases "list_all (in_bundle D) rule_config_files")
  case True
  have "base_name f = f" using assms(2) unfolding rule_config_files_def by simp (elim disjE; simp; code_simp)
  with True assms(2) show ?thesis by (auto simp: list_all_iff)
next
  case False
  with assms(1) have "filter (\<lambda>f. check_setting_path D config_path f False = None) rule_config_files = []"
    by (auto simp: check_rule_config_def split: if_splits list.splits)
  with assms(2) have "check_setting_path D config_path f False \<noteq> None" by (auto simp: filter_empty_conv)
  then show ?thesis by (auto simp: check_setting_path_def split: if_splits)
qed

text \<open>
  What passed the check is what is read: each file comes from the bundle or from the directory that was
  checked, never from the one beside the program.
\<close>

lemma checked_config_used:
  assumes "check_rule_config D config_path = Inr ()" and "f \<in> set rule_config_files"
  shows "config_file D config_path f \<in> {f, path_join config_path f}"
  using check_rule_config_Inr [OF assms] by (auto simp: config_file_def check_setting_path_def)
end
