(* ===== verification/Options.thy ===== *)
theory Options
  imports Settings Scan Summary Target_Time Geo_IP
begin

section \<open>The options of the command line (configs.rs)\<close>

text \<open>
  The arguments of every command as the library \<open>clap\<close> hands them over, and what the program derives
  from them: the flags and filters of a run (\<open>StoredStatic\<close>), the output options that the commands
  share, the time range and the action of the scan. Paths are texts.
\<close>

subsection \<open>Arguments\<close>

record common_options =
  co_no_color :: bool
  co_quiet :: bool
  co_help :: "bool option"

record input_option =
  in_directory :: "string list option"
  in_filepath :: "string option"
  in_live_analysis :: bool
  in_recover_records :: bool
  in_time_offset :: "string option"

record detect_common_option =
  dc_json_input :: bool
  dc_validate_checksums :: bool
  dc_evtx_file_ext :: "string list option"
  dc_thread_number :: "nat option"
  dc_quiet_errors :: bool
  dc_config :: string
  dc_verbose :: bool
  dc_include_computer :: "string list option"
  dc_exclude_computer :: "string list option"

record output_args =
  oa_input_args :: input_option
  oa_profile :: "string option"
  oa_common_options :: common_options
  oa_enable_deprecated_rules :: bool
  oa_enable_unsupported_rules :: bool
  oa_exclude_status :: "string list option"
  oa_include_status :: "string list option"
  oa_include_tag :: "string list option"
  oa_include_category :: "string list option"
  oa_exclude_category :: "string list option"
  oa_min_level :: string
  oa_exact_level :: "string option"
  oa_enable_noisy_rules :: bool
  oa_end_timeline :: "string option"
  oa_start_timeline :: "string option"
  oa_eid_filter :: bool
  oa_proven_rules :: bool
  oa_exclude_tag :: "string list option"
  oa_include_eid :: "string list option"
  oa_exclude_eid :: "string list option"
  oa_detect_common_options :: detect_common_option
  oa_time_format_options :: time_format_options
  oa_visualize_timeline :: bool
  oa_rules :: string
  oa_html_report :: "string option"
  oa_no_summary :: bool
  oa_clobber :: bool
  oa_no_field :: bool
  oa_no_pwsh_field_extraction :: bool
  oa_remove_duplicate_data :: bool
  oa_remove_duplicate_detections :: bool
  oa_no_wizard :: bool
  oa_sort_events :: bool
  oa_enable_all_rules :: bool
  oa_scan_all_evtx_files :: bool

record csv_output_option =
  cv_output_options :: output_args
  cv_multiline :: bool
  cv_tab_separator :: bool
  cv_geo_ip :: "string option"
  cv_output :: "string option"
  cv_disable_abbreviations :: bool

record json_output_option =
  js_output_options :: output_args
  js_output :: "string option"
  js_jsonl_timeline :: bool
  js_geo_ip :: "string option"
  js_disable_abbreviations :: bool

record search_args =
  sa_common_options :: common_options
  sa_input_args :: input_option
  sa_keywords :: "string list option"
  sa_regex :: "string option"
  sa_ignore_case :: bool
  sa_and_logic :: bool
  sa_filter :: "string list"
  sa_end_timeline :: "string option"
  sa_start_timeline :: "string option"
  sa_output :: "string option"
  sa_evtx_file_ext :: "string list option"
  sa_thread_number :: "nat option"
  sa_quiet_errors :: bool
  sa_config :: string
  sa_verbose :: bool
  sa_multiline :: bool
  sa_tab_separator :: bool
  sa_clobber :: bool
  sa_json_output :: bool
  sa_jsonl_output :: bool
  sa_time_format_options :: time_format_options
  sa_disable_abbreviations :: bool
  sa_sort_events :: bool
  sa_validate_checksums :: bool

record eid_metrics_option =
  em_input_args :: input_option
  em_output :: "string option"
  em_remove_duplicate_detections :: bool
  em_common_options :: common_options
  em_detect_common_options :: detect_common_option
  em_time_format_options :: time_format_options
  em_clobber :: bool

record pivot_keyword_option =
  pv_input_args :: input_option
  pv_output :: "string option"
  pv_common_options :: common_options
  pv_enable_deprecated_rules :: bool
  pv_enable_unsupported_rules :: bool
  pv_exclude_status :: "string list option"
  pv_include_status :: "string list option"
  pv_include_tag :: "string list option"
  pv_exclude_tag :: "string list option"
  pv_min_level :: string
  pv_exact_level :: "string option"
  pv_enable_noisy_rules :: bool
  pv_end_timeline :: "string option"
  pv_start_timeline :: "string option"
  pv_eid_filter :: bool
  pv_include_eid :: "string list option"
  pv_exclude_eid :: "string list option"
  pv_detect_common_options :: detect_common_option
  pv_clobber :: bool
  pv_no_wizard :: bool

record logon_summary_option =
  ls_input_args :: input_option
  ls_output :: "string option"
  ls_remove_duplicate_detections :: bool
  ls_common_options :: common_options
  ls_detect_common_options :: detect_common_option
  ls_time_format_options :: time_format_options
  ls_clobber :: bool
  ls_end_timeline :: "string option"
  ls_start_timeline :: "string option"

record computer_metrics_option =
  cm_input_args :: input_option
  cm_output :: "string option"
  cm_common_options :: common_options
  cm_json_input :: bool
  cm_evtx_file_ext :: "string list option"
  cm_quiet_errors :: bool
  cm_config :: string
  cm_verbose :: bool
  cm_clobber :: bool
  cm_validate_checksums :: bool

record log_metrics_option =
  lm_input_args :: input_option
  lm_output :: "string option"
  lm_common_options :: common_options
  lm_detect_common_options :: detect_common_option
  lm_time_format_options :: time_format_options
  lm_multiline :: bool
  lm_tab_separator :: bool
  lm_clobber :: bool
  lm_disable_abbreviations :: bool
  lm_include_channel :: "string list option"
  lm_exclude_channel :: "string list option"
  lm_include_filename :: "string list option"
  lm_exclude_filename :: "string list option"

record extract_base64_option =
  eb_input_args :: input_option
  eb_output :: "string option"
  eb_common_options :: common_options
  eb_detect_common_options :: detect_common_option
  eb_time_format_options :: time_format_options
  eb_clobber :: bool

record update_option =
  up_common_options :: common_options
  up_rules :: string

record level_tuning_option =
  lt_common_options :: common_options
  lt_level_tuning :: string

record default_profile_option =
  dp_common_options :: common_options
  dp_profile :: "string option"

record expand_list_option =
  el_rules :: string
  el_common_options :: common_options

record config_critical_systems_option =
  cc_directory :: "string list option"
  cc_filepath :: "string option"
  cc_common_options :: common_options

text \<open>The commands; their names carry a \<open>Cmd\<close> where the scan has an action of the same name.\<close>

datatype action =
    CmdCsvTimeline csv_output_option
  | CmdJsonTimeline json_output_option
  | CmdLogMetrics log_metrics_option
  | CmdLogonSummary logon_summary_option
  | CmdEidMetrics eid_metrics_option
  | CmdExpandList expand_list_option
  | CmdExtractBase64 extract_base64_option
  | CmdPivotKeywordsList pivot_keyword_option
  | CmdSearch search_args
  | CmdUpdateRules update_option
  | CmdLevelTuning level_tuning_option
  | CmdSetDefaultProfile default_profile_option
  | CmdListContributors common_options
  | CmdListProfiles common_options
  | CmdComputerMetrics computer_metrics_option
  | CmdConfigCriticalSystems config_critical_systems_option

definition action_to_usize :: "action option \<Rightarrow> nat" where
  "action_to_usize act =
     (case act of
        None \<Rightarrow> 100
      | Some a \<Rightarrow>
          (case a of
             CmdCsvTimeline _ \<Rightarrow> 0 | CmdJsonTimeline _ \<Rightarrow> 1 | CmdLogonSummary _ \<Rightarrow> 2 | CmdEidMetrics _ \<Rightarrow> 3
           | CmdPivotKeywordsList _ \<Rightarrow> 4 | CmdUpdateRules _ \<Rightarrow> 5 | CmdLevelTuning _ \<Rightarrow> 6
           | CmdSetDefaultProfile _ \<Rightarrow> 7 | CmdListContributors _ \<Rightarrow> 8 | CmdListProfiles _ \<Rightarrow> 9 | CmdSearch _ \<Rightarrow> 10
           | CmdComputerMetrics _ \<Rightarrow> 11 | CmdLogMetrics _ \<Rightarrow> 12 | CmdExtractBase64 _ \<Rightarrow> 13 | CmdExpandList _ \<Rightarrow> 14
           | CmdConfigCriticalSystems _ \<Rightarrow> 15))"

definition get_action_name :: "action option \<Rightarrow> string" where
  "get_action_name act =
     (case act of
        None \<Rightarrow> []
      | Some a \<Rightarrow>
          (case a of
             CmdCsvTimeline _ \<Rightarrow> ''csv-timeline'' | CmdJsonTimeline _ \<Rightarrow> ''json-timeline''
           | CmdLogonSummary _ \<Rightarrow> ''logon-summary'' | CmdEidMetrics _ \<Rightarrow> ''eid-metrics''
           | CmdPivotKeywordsList _ \<Rightarrow> ''pivot-keywords-list'' | CmdUpdateRules _ \<Rightarrow> ''update-rules''
           | CmdLevelTuning _ \<Rightarrow> ''level-tuning'' | CmdSetDefaultProfile _ \<Rightarrow> ''set-default-profile''
           | CmdListContributors _ \<Rightarrow> ''list-contributors'' | CmdListProfiles _ \<Rightarrow> ''list-profiles''
           | CmdSearch _ \<Rightarrow> ''search'' | CmdComputerMetrics _ \<Rightarrow> ''computer-metrics''
           | CmdLogMetrics _ \<Rightarrow> ''log-metrics'' | CmdExtractBase64 _ \<Rightarrow> ''extract-base64''
           | CmdExpandList _ \<Rightarrow> ''expand-list'' | CmdConfigCriticalSystems _ \<Rightarrow> ''config-critical-systems''))"


subsection \<open>What a run takes from its options\<close>

definition quiet_errors_of :: "action option \<Rightarrow> bool" where
  "quiet_errors_of act =
     (case act of
        Some (CmdCsvTimeline opt) \<Rightarrow> dc_quiet_errors (oa_detect_common_options (cv_output_options opt))
      | Some (CmdJsonTimeline opt) \<Rightarrow> dc_quiet_errors (oa_detect_common_options (js_output_options opt))
      | Some (CmdLogonSummary opt) \<Rightarrow> dc_quiet_errors (ls_detect_common_options opt)
      | Some (CmdEidMetrics opt) \<Rightarrow> dc_quiet_errors (em_detect_common_options opt)
      | Some (CmdExpandList opt) \<Rightarrow> co_quiet (el_common_options opt)
      | Some (CmdExtractBase64 opt) \<Rightarrow> dc_quiet_errors (eb_detect_common_options opt)
      | Some (CmdPivotKeywordsList opt) \<Rightarrow> dc_quiet_errors (pv_detect_common_options opt)
      | Some (CmdSearch opt) \<Rightarrow> sa_quiet_errors opt
      | Some (CmdComputerMetrics opt) \<Rightarrow> cm_quiet_errors opt
      | Some (CmdLogMetrics opt) \<Rightarrow> dc_quiet_errors (lm_detect_common_options opt)
      | _ \<Rightarrow> False)"

definition common_options_of :: "action option \<Rightarrow> common_options" where
  "common_options_of act =
     (case act of
        None \<Rightarrow> \<lparr>co_no_color = False, co_quiet = False, co_help = None\<rparr>
      | Some (CmdCsvTimeline opt) \<Rightarrow> oa_common_options (cv_output_options opt)
      | Some (CmdJsonTimeline opt) \<Rightarrow> oa_common_options (js_output_options opt)
      | Some (CmdLevelTuning opt) \<Rightarrow> lt_common_options opt
      | Some (CmdLogonSummary opt) \<Rightarrow> ls_common_options opt
      | Some (CmdEidMetrics opt) \<Rightarrow> em_common_options opt
      | Some (CmdExtractBase64 opt) \<Rightarrow> eb_common_options opt
      | Some (CmdPivotKeywordsList opt) \<Rightarrow> pv_common_options opt
      | Some (CmdSetDefaultProfile opt) \<Rightarrow> dp_common_options opt
      | Some (CmdListContributors opt) \<Rightarrow> opt
      | Some (CmdListProfiles opt) \<Rightarrow> opt
      | Some (CmdUpdateRules opt) \<Rightarrow> up_common_options opt
      | Some (CmdSearch opt) \<Rightarrow> sa_common_options opt
      | Some (CmdComputerMetrics opt) \<Rightarrow> cm_common_options opt
      | Some (CmdLogMetrics opt) \<Rightarrow> lm_common_options opt
      | Some (CmdExpandList opt) \<Rightarrow> el_common_options opt
      | Some (CmdConfigCriticalSystems opt) \<Rightarrow> cc_common_options opt)"

definition config_path_of :: "action option \<Rightarrow> string" where
  "config_path_of act =
     (case act of
        Some (CmdCsvTimeline opt) \<Rightarrow> dc_config (oa_detect_common_options (cv_output_options opt))
      | Some (CmdJsonTimeline opt) \<Rightarrow> dc_config (oa_detect_common_options (js_output_options opt))
      | Some (CmdLogonSummary opt) \<Rightarrow> dc_config (ls_detect_common_options opt)
      | Some (CmdEidMetrics opt) \<Rightarrow> dc_config (em_detect_common_options opt)
      | Some (CmdExtractBase64 opt) \<Rightarrow> dc_config (eb_detect_common_options opt)
      | Some (CmdPivotKeywordsList opt) \<Rightarrow> dc_config (pv_detect_common_options opt)
      | Some (CmdSearch opt) \<Rightarrow> sa_config opt
      | Some (CmdComputerMetrics opt) \<Rightarrow> cm_config opt
      | Some (CmdLogMetrics opt) \<Rightarrow> dc_config (lm_detect_common_options opt)
      | _ \<Rightarrow> ''./rules/config'')"

definition verbose_of :: "action option \<Rightarrow> bool" where
  "verbose_of act =
     (case act of
        Some (CmdCsvTimeline opt) \<Rightarrow> dc_verbose (oa_detect_common_options (cv_output_options opt))
      | Some (CmdJsonTimeline opt) \<Rightarrow> dc_verbose (oa_detect_common_options (js_output_options opt))
      | Some (CmdLogonSummary opt) \<Rightarrow> dc_verbose (ls_detect_common_options opt)
      | Some (CmdEidMetrics opt) \<Rightarrow> dc_verbose (em_detect_common_options opt)
      | Some (CmdExtractBase64 opt) \<Rightarrow> dc_verbose (eb_detect_common_options opt)
      | Some (CmdPivotKeywordsList opt) \<Rightarrow> dc_verbose (pv_detect_common_options opt)
      | Some (CmdSearch opt) \<Rightarrow> sa_verbose opt
      | Some (CmdComputerMetrics opt) \<Rightarrow> cm_verbose opt
      | Some (CmdLogMetrics opt) \<Rightarrow> dc_verbose (lm_detect_common_options opt)
      | _ \<Rightarrow> False)"

definition json_input_of :: "action option \<Rightarrow> bool" where
  "json_input_of act =
     (case act of
        Some (CmdCsvTimeline opt) \<Rightarrow> dc_json_input (oa_detect_common_options (cv_output_options opt))
      | Some (CmdJsonTimeline opt) \<Rightarrow> dc_json_input (oa_detect_common_options (js_output_options opt))
      | Some (CmdLogonSummary opt) \<Rightarrow> dc_json_input (ls_detect_common_options opt)
      | Some (CmdEidMetrics opt) \<Rightarrow> dc_json_input (em_detect_common_options opt)
      | Some (CmdExtractBase64 opt) \<Rightarrow> dc_json_input (eb_detect_common_options opt)
      | Some (CmdPivotKeywordsList opt) \<Rightarrow> dc_json_input (pv_detect_common_options opt)
      | Some (CmdComputerMetrics opt) \<Rightarrow> cm_json_input opt
      | Some (CmdLogMetrics opt) \<Rightarrow> dc_json_input (lm_detect_common_options opt)
      | _ \<Rightarrow> False)"

text \<open>A level is valid if it is the name of one, in any case.\<close>

definition is_level_name :: "env \<Rightarrow> string \<Rightarrow> bool" where
  "is_level_name E s = list_ex (\<lambda>l. level_eq_str l (to_lowercase E s)) all_levels"

definition is_valid_min_level :: "env \<Rightarrow> action option \<Rightarrow> bool" where
  "is_valid_min_level E act =
     (case act of
        Some (CmdCsvTimeline opt) \<Rightarrow> is_level_name E (oa_min_level (cv_output_options opt))
      | Some (CmdJsonTimeline opt) \<Rightarrow> is_level_name E (oa_min_level (js_output_options opt))
      | Some (CmdPivotKeywordsList opt) \<Rightarrow> is_level_name E (pv_min_level opt)
      | _ \<Rightarrow> True)"

definition is_valid_exact_level :: "env \<Rightarrow> action option \<Rightarrow> bool" where
  "is_valid_exact_level E act =
     (case act of
        Some (CmdCsvTimeline opt) \<Rightarrow> (case oa_exact_level (cv_output_options opt) of None \<Rightarrow> True | Some l \<Rightarrow> is_level_name E l)
      | Some (CmdJsonTimeline opt) \<Rightarrow> (case oa_exact_level (js_output_options opt) of None \<Rightarrow> True | Some l \<Rightarrow> is_level_name E l)
      | Some (CmdPivotKeywordsList opt) \<Rightarrow> (case pv_exact_level opt of None \<Rightarrow> True | Some l \<Rightarrow> is_level_name E l)
      | _ \<Rightarrow> True)"

definition geo_ip_of :: "action option \<Rightarrow> string option" where
  "geo_ip_of act =
     (case act of
        Some (CmdCsvTimeline opt) \<Rightarrow> cv_geo_ip opt
      | Some (CmdJsonTimeline opt) \<Rightarrow> js_geo_ip opt
      | _ \<Rightarrow> None)"

definition output_path_of :: "action option \<Rightarrow> string option" where
  "output_path_of act =
     (case act of
        Some (CmdCsvTimeline opt) \<Rightarrow> cv_output opt
      | Some (CmdJsonTimeline opt) \<Rightarrow> js_output opt
      | Some (CmdEidMetrics opt) \<Rightarrow> em_output opt
      | Some (CmdExtractBase64 opt) \<Rightarrow> eb_output opt
      | Some (CmdPivotKeywordsList opt) \<Rightarrow> pv_output opt
      | Some (CmdLogonSummary opt) \<Rightarrow> ls_output opt
      | Some (CmdSearch opt) \<Rightarrow> sa_output opt
      | Some (CmdComputerMetrics opt) \<Rightarrow> cm_output opt
      | Some (CmdLogMetrics opt) \<Rightarrow> lm_output opt
      | _ \<Rightarrow> None)"

definition disable_abbreviation_of :: "action option \<Rightarrow> bool" where
  "disable_abbreviation_of act =
     (case act of
        Some (CmdCsvTimeline opt) \<Rightarrow> cv_disable_abbreviations opt
      | Some (CmdJsonTimeline opt) \<Rightarrow> js_disable_abbreviations opt
      | Some (CmdSearch opt) \<Rightarrow> sa_disable_abbreviations opt
      | Some (CmdLogMetrics opt) \<Rightarrow> lm_disable_abbreviations opt
      | _ \<Rightarrow> False)"

definition multiline_of :: "action option \<Rightarrow> bool" where
  "multiline_of act =
     (case act of
        Some (CmdCsvTimeline opt) \<Rightarrow> cv_multiline opt
      | Some (CmdSearch opt) \<Rightarrow> sa_multiline opt
      | Some (CmdLogMetrics opt) \<Rightarrow> lm_multiline opt
      | _ \<Rightarrow> False)"

definition tab_separator_of :: "action option \<Rightarrow> bool" where
  "tab_separator_of act =
     (case act of
        Some (CmdCsvTimeline opt) \<Rightarrow> cv_tab_separator opt
      | Some (CmdSearch opt) \<Rightarrow> sa_tab_separator opt
      | Some (CmdLogMetrics opt) \<Rightarrow> lm_tab_separator opt
      | _ \<Rightarrow> False)"

definition proven_rules_of :: "action option \<Rightarrow> bool" where
  "proven_rules_of act =
     (case act of
        Some (CmdCsvTimeline opt) \<Rightarrow> oa_proven_rules (cv_output_options opt)
      | Some (CmdJsonTimeline opt) \<Rightarrow> oa_proven_rules (js_output_options opt)
      | _ \<Rightarrow> False)"

text \<open>A set of texts from an optional list.\<close>

definition collect_set :: "string list option \<Rightarrow> string set" where
  "collect_set xs = set (unwrap_or [] xs)"

definition include_computer_of :: "action option \<Rightarrow> string set" where
  "include_computer_of act =
     (case act of
        Some (CmdCsvTimeline opt) \<Rightarrow> collect_set (dc_include_computer (oa_detect_common_options (cv_output_options opt)))
      | Some (CmdJsonTimeline opt) \<Rightarrow> collect_set (dc_include_computer (oa_detect_common_options (js_output_options opt)))
      | Some (CmdEidMetrics opt) \<Rightarrow> collect_set (dc_include_computer (em_detect_common_options opt))
      | Some (CmdExtractBase64 opt) \<Rightarrow> collect_set (dc_include_computer (eb_detect_common_options opt))
      | Some (CmdPivotKeywordsList opt) \<Rightarrow> collect_set (dc_include_computer (pv_detect_common_options opt))
      | Some (CmdLogonSummary opt) \<Rightarrow> collect_set (dc_include_computer (ls_detect_common_options opt))
      | Some (CmdLogMetrics opt) \<Rightarrow> collect_set (dc_include_computer (lm_detect_common_options opt))
      | _ \<Rightarrow> {})"

definition exclude_computer_of :: "action option \<Rightarrow> string set" where
  "exclude_computer_of act =
     (case act of
        Some (CmdCsvTimeline opt) \<Rightarrow> collect_set (dc_exclude_computer (oa_detect_common_options (cv_output_options opt)))
      | Some (CmdJsonTimeline opt) \<Rightarrow> collect_set (dc_exclude_computer (oa_detect_common_options (js_output_options opt)))
      | Some (CmdEidMetrics opt) \<Rightarrow> collect_set (dc_exclude_computer (em_detect_common_options opt))
      | Some (CmdExtractBase64 opt) \<Rightarrow> collect_set (dc_exclude_computer (eb_detect_common_options opt))
      | Some (CmdPivotKeywordsList opt) \<Rightarrow> collect_set (dc_exclude_computer (pv_detect_common_options opt))
      | Some (CmdLogonSummary opt) \<Rightarrow> collect_set (dc_exclude_computer (ls_detect_common_options opt))
      | Some (CmdLogMetrics opt) \<Rightarrow> collect_set (dc_exclude_computer (lm_detect_common_options opt))
      | _ \<Rightarrow> {})"

definition include_eid_of :: "action option \<Rightarrow> string set" where
  "include_eid_of act =
     (case act of
        Some (CmdCsvTimeline opt) \<Rightarrow> collect_set (oa_include_eid (cv_output_options opt))
      | Some (CmdJsonTimeline opt) \<Rightarrow> collect_set (oa_include_eid (js_output_options opt))
      | Some (CmdPivotKeywordsList opt) \<Rightarrow> collect_set (pv_include_eid opt)
      | _ \<Rightarrow> {})"

definition exclude_eid_of :: "action option \<Rightarrow> string set" where
  "exclude_eid_of act =
     (case act of
        Some (CmdCsvTimeline opt) \<Rightarrow> collect_set (oa_exclude_eid (cv_output_options opt))
      | Some (CmdJsonTimeline opt) \<Rightarrow> collect_set (oa_exclude_eid (js_output_options opt))
      | Some (CmdPivotKeywordsList opt) \<Rightarrow> collect_set (pv_exclude_eid opt)
      | _ \<Rightarrow> {})"

definition no_field_of :: "action option \<Rightarrow> bool" where
  "no_field_of act =
     (case act of
        Some (CmdCsvTimeline opt) \<Rightarrow> oa_no_field (cv_output_options opt)
      | Some (CmdJsonTimeline opt) \<Rightarrow> oa_no_field (js_output_options opt)
      | _ \<Rightarrow> False)"

definition no_pwsh_field_extraction_of :: "action option \<Rightarrow> bool" where
  "no_pwsh_field_extraction_of act =
     (case act of
        Some (CmdCsvTimeline opt) \<Rightarrow> oa_no_pwsh_field_extraction (cv_output_options opt)
      | Some (CmdJsonTimeline opt) \<Rightarrow> oa_no_pwsh_field_extraction (js_output_options opt)
      | _ \<Rightarrow> False)"

definition recover_records_of :: "action option \<Rightarrow> bool" where
  "recover_records_of act =
     (case act of
        Some (CmdCsvTimeline opt) \<Rightarrow> in_recover_records (oa_input_args (cv_output_options opt))
      | Some (CmdJsonTimeline opt) \<Rightarrow> in_recover_records (oa_input_args (js_output_options opt))
      | Some (CmdEidMetrics opt) \<Rightarrow> in_recover_records (em_input_args opt)
      | Some (CmdExtractBase64 opt) \<Rightarrow> in_recover_records (eb_input_args opt)
      | Some (CmdLogonSummary opt) \<Rightarrow> in_recover_records (ls_input_args opt)
      | Some (CmdPivotKeywordsList opt) \<Rightarrow> in_recover_records (pv_input_args opt)
      | Some (CmdSearch opt) \<Rightarrow> in_recover_records (sa_input_args opt)
      | Some (CmdLogMetrics opt) \<Rightarrow> in_recover_records (lm_input_args opt)
      | _ \<Rightarrow> False)"

definition time_offset_of :: "action option \<Rightarrow> string option" where
  "time_offset_of act =
     (case act of
        Some (CmdCsvTimeline opt) \<Rightarrow> in_time_offset (oa_input_args (cv_output_options opt))
      | Some (CmdJsonTimeline opt) \<Rightarrow> in_time_offset (oa_input_args (js_output_options opt))
      | Some (CmdEidMetrics opt) \<Rightarrow> in_time_offset (em_input_args opt)
      | Some (CmdExtractBase64 opt) \<Rightarrow> in_time_offset (eb_input_args opt)
      | Some (CmdLogonSummary opt) \<Rightarrow> in_time_offset (ls_input_args opt)
      | Some (CmdPivotKeywordsList opt) \<Rightarrow> in_time_offset (pv_input_args opt)
      | Some (CmdSearch opt) \<Rightarrow> in_time_offset (sa_input_args opt)
      | Some (CmdComputerMetrics opt) \<Rightarrow> in_time_offset (cm_input_args opt)
      | Some (CmdLogMetrics opt) \<Rightarrow> in_time_offset (lm_input_args opt)
      | _ \<Rightarrow> None)"

definition include_status_of :: "action option \<Rightarrow> string set" where
  "include_status_of act =
     (case act of
        Some (CmdCsvTimeline opt) \<Rightarrow> collect_set (oa_include_status (cv_output_options opt))
      | Some (CmdJsonTimeline opt) \<Rightarrow> collect_set (oa_include_status (js_output_options opt))
      | Some (CmdPivotKeywordsList opt) \<Rightarrow> collect_set (pv_include_status opt)
      | _ \<Rightarrow> {})"

definition is_low_memory_of :: "action option \<Rightarrow> bool" where
  "is_low_memory_of act =
     (case act of
        Some (CmdCsvTimeline opt) \<Rightarrow> \<not> oa_sort_events (cv_output_options opt)
      | Some (CmdJsonTimeline opt) \<Rightarrow> \<not> oa_sort_events (js_output_options opt)
      | _ \<Rightarrow> False)"

definition enable_all_rules_of :: "action option \<Rightarrow> bool" where
  "enable_all_rules_of act =
     (case act of
        Some (CmdCsvTimeline opt) \<Rightarrow> oa_enable_all_rules (cv_output_options opt)
      | Some (CmdJsonTimeline opt) \<Rightarrow> oa_enable_all_rules (js_output_options opt)
      | _ \<Rightarrow> False)"

definition scan_all_evtx_files_of :: "action option \<Rightarrow> bool" where
  "scan_all_evtx_files_of act =
     (case act of
        Some (CmdCsvTimeline opt) \<Rightarrow> oa_scan_all_evtx_files (cv_output_options opt)
      | Some (CmdJsonTimeline opt) \<Rightarrow> oa_scan_all_evtx_files (js_output_options opt)
      | _ \<Rightarrow> False)"

definition metrics_remove_duplication_of :: "action option \<Rightarrow> bool" where
  "metrics_remove_duplication_of act =
     (case act of
        Some (CmdEidMetrics opt) \<Rightarrow> em_remove_duplicate_detections opt
      | Some (CmdLogonSummary opt) \<Rightarrow> ls_remove_duplicate_detections opt
      | _ \<Rightarrow> False)"

definition validate_checksum_of :: "action option \<Rightarrow> bool" where
  "validate_checksum_of act =
     (case act of
        Some (CmdCsvTimeline opt) \<Rightarrow> dc_validate_checksums (oa_detect_common_options (cv_output_options opt))
      | Some (CmdJsonTimeline opt) \<Rightarrow> dc_validate_checksums (oa_detect_common_options (js_output_options opt))
      | Some (CmdLogonSummary opt) \<Rightarrow> dc_validate_checksums (ls_detect_common_options opt)
      | Some (CmdEidMetrics opt) \<Rightarrow> dc_validate_checksums (em_detect_common_options opt)
      | Some (CmdExtractBase64 opt) \<Rightarrow> dc_validate_checksums (eb_detect_common_options opt)
      | Some (CmdPivotKeywordsList opt) \<Rightarrow> dc_validate_checksums (pv_detect_common_options opt)
      | Some (CmdSearch opt) \<Rightarrow> sa_validate_checksums opt
      | Some (CmdComputerMetrics opt) \<Rightarrow> cm_validate_checksums opt
      | Some (CmdLogMetrics opt) \<Rightarrow> dc_validate_checksums (lm_detect_common_options opt)
      | _ \<Rightarrow> False)"

definition check_thread_number :: "action option \<Rightarrow> nat option" where
  "check_thread_number act =
     (case act of
        Some (CmdCsvTimeline opt) \<Rightarrow> dc_thread_number (oa_detect_common_options (cv_output_options opt))
      | Some (CmdJsonTimeline opt) \<Rightarrow> dc_thread_number (oa_detect_common_options (js_output_options opt))
      | Some (CmdLogonSummary opt) \<Rightarrow> dc_thread_number (ls_detect_common_options opt)
      | Some (CmdEidMetrics opt) \<Rightarrow> dc_thread_number (em_detect_common_options opt)
      | Some (CmdExtractBase64 opt) \<Rightarrow> dc_thread_number (eb_detect_common_options opt)
      | Some (CmdPivotKeywordsList opt) \<Rightarrow> dc_thread_number (pv_detect_common_options opt)
      | Some (CmdLogMetrics opt) \<Rightarrow> dc_thread_number (lm_detect_common_options opt)
      | Some (CmdSearch opt) \<Rightarrow> sa_thread_number opt
      | _ \<Rightarrow> None)"

definition check_html_flag :: "action option \<Rightarrow> bool" where
  "check_html_flag act =
     (case act of
        Some (CmdCsvTimeline opt) \<Rightarrow> oa_html_report (cv_output_options opt) \<noteq> None
      | Some (CmdJsonTimeline opt) \<Rightarrow> oa_html_report (js_output_options opt) \<noteq> None
      | _ \<Rightarrow> False)"

subsection \<open>The output options all commands share\<close>

definition input_option_default :: input_option where
  "input_option_default = \<lparr>in_directory = None, in_filepath = None, in_live_analysis = False,
     in_recover_records = False, in_time_offset = None\<rparr>"

definition time_format_options_default :: time_format_options where
  "time_format_options_default = \<lparr>european_time = False, iso_8601 = False, rfc_2822 = False, rfc_3339 = False,
     us_military_time = False, us_time = False, utc = False\<rparr>"

definition detect_common_option_default :: detect_common_option where
  "detect_common_option_default = \<lparr>dc_json_input = False, dc_validate_checksums = False, dc_evtx_file_ext = None,
     dc_thread_number = None, dc_quiet_errors = False, dc_config = [], dc_verbose = False,
     dc_include_computer = None, dc_exclude_computer = None\<rparr>"

definition output_args_default :: output_args where
  "output_args_default = \<lparr>oa_input_args = input_option_default, oa_profile = None,
     oa_common_options = \<lparr>co_no_color = False, co_quiet = False, co_help = None\<rparr>,
     oa_enable_deprecated_rules = False, oa_enable_unsupported_rules = False, oa_exclude_status = None,
     oa_include_status = None, oa_include_tag = None, oa_include_category = None, oa_exclude_category = None,
     oa_min_level = [], oa_exact_level = None, oa_enable_noisy_rules = False, oa_end_timeline = None,
     oa_start_timeline = None, oa_eid_filter = False, oa_proven_rules = False, oa_exclude_tag = None,
     oa_include_eid = None, oa_exclude_eid = None, oa_detect_common_options = detect_common_option_default,
     oa_time_format_options = time_format_options_default, oa_visualize_timeline = False, oa_rules = [],
     oa_html_report = None, oa_no_summary = False, oa_clobber = False, oa_no_field = False,
     oa_no_pwsh_field_extraction = False, oa_remove_duplicate_data = False, oa_remove_duplicate_detections = False,
     oa_no_wizard = False, oa_sort_events = False, oa_enable_all_rules = False, oa_scan_all_evtx_files = False\<rparr>"

definition extract_search_options :: "action option \<Rightarrow> search_args option" where
  "extract_search_options act = (case act of Some (CmdSearch opt) \<Rightarrow> Some opt | _ \<Rightarrow> None)"

definition pivot_output_options :: "pivot_keyword_option \<Rightarrow> output_args" where
  "pivot_output_options opt = output_args_default\<lparr>
     oa_input_args := pv_input_args opt, oa_enable_deprecated_rules := pv_enable_deprecated_rules opt,
     oa_enable_noisy_rules := pv_enable_noisy_rules opt, oa_exclude_status := pv_exclude_status opt,
     oa_min_level := pv_min_level opt, oa_exact_level := pv_exact_level opt,
     oa_end_timeline := pv_end_timeline opt, oa_start_timeline := pv_start_timeline opt,
     oa_eid_filter := pv_eid_filter opt, oa_rules := ''./rules'', oa_common_options := pv_common_options opt,
     oa_detect_common_options := pv_detect_common_options opt,
     oa_enable_unsupported_rules := pv_enable_unsupported_rules opt, oa_clobber := pv_clobber opt,
     oa_include_tag := pv_include_tag opt, oa_exclude_tag := pv_exclude_tag opt,
     oa_include_eid := pv_include_eid opt, oa_exclude_eid := pv_exclude_eid opt,
     oa_no_wizard := pv_no_wizard opt, oa_include_status := pv_include_status opt\<rparr>"

definition computer_metrics_output_options :: "computer_metrics_option \<Rightarrow> output_args" where
  "computer_metrics_output_options opt = output_args_default\<lparr>
     oa_input_args := cm_input_args opt, oa_common_options := cm_common_options opt,
     oa_detect_common_options := \<lparr>dc_json_input = cm_json_input opt, dc_validate_checksums = cm_validate_checksums opt,
       dc_evtx_file_ext = cm_evtx_file_ext opt, dc_thread_number = None, dc_quiet_errors = cm_quiet_errors opt,
       dc_config = cm_config opt, dc_verbose = cm_verbose opt, dc_include_computer = None, dc_exclude_computer = None\<rparr>,
     oa_clobber := cm_clobber opt, oa_no_wizard := True\<rparr>"

definition search_output_options :: "search_args \<Rightarrow> output_args" where
  "search_output_options opt = output_args_default\<lparr>
     oa_input_args := sa_input_args opt, oa_time_format_options := sa_time_format_options opt,
     oa_common_options := sa_common_options opt,
     oa_detect_common_options := \<lparr>dc_json_input = False, dc_validate_checksums = sa_validate_checksums opt,
       dc_evtx_file_ext = sa_evtx_file_ext opt, dc_thread_number = sa_thread_number opt,
       dc_quiet_errors = sa_quiet_errors opt, dc_config = sa_config opt, dc_verbose = sa_verbose opt,
       dc_include_computer = None, dc_exclude_computer = None\<rparr>,
     oa_clobber := sa_clobber opt, oa_no_wizard := True\<rparr>"

definition extract_output_options :: "action option \<Rightarrow> output_args option" where
  "extract_output_options act =
     (case act of
        Some (CmdCsvTimeline opt) \<Rightarrow> Some (cv_output_options opt)
      | Some (CmdJsonTimeline opt) \<Rightarrow> Some (js_output_options opt)
      | Some (CmdPivotKeywordsList opt) \<Rightarrow> Some (pivot_output_options opt)
      | Some (CmdEidMetrics opt) \<Rightarrow> Some (output_args_default\<lparr>
          oa_input_args := em_input_args opt, oa_time_format_options := em_time_format_options opt,
          oa_common_options := em_common_options opt, oa_detect_common_options := em_detect_common_options opt,
          oa_clobber := em_clobber opt, oa_no_wizard := True\<rparr>)
      | Some (CmdExtractBase64 opt) \<Rightarrow> Some (output_args_default\<lparr>
          oa_input_args := eb_input_args opt, oa_time_format_options := eb_time_format_options opt,
          oa_rules := ''./rules'', oa_common_options := eb_common_options opt,
          oa_detect_common_options := eb_detect_common_options opt, oa_clobber := eb_clobber opt, oa_no_wizard := True\<rparr>)
      | Some (CmdLogonSummary opt) \<Rightarrow> Some (output_args_default\<lparr>
          oa_input_args := ls_input_args opt, oa_time_format_options := ls_time_format_options opt,
          oa_common_options := ls_common_options opt, oa_detect_common_options := ls_detect_common_options opt,
          oa_clobber := ls_clobber opt, oa_no_wizard := True\<rparr>)
      | Some (CmdComputerMetrics opt) \<Rightarrow> Some (computer_metrics_output_options opt)
      | Some (CmdLogMetrics opt) \<Rightarrow> Some (output_args_default\<lparr>
          oa_input_args := lm_input_args opt, oa_common_options := lm_common_options opt,
          oa_detect_common_options := lm_detect_common_options opt,
          oa_time_format_options := lm_time_format_options opt, oa_clobber := lm_clobber opt, oa_no_wizard := True\<rparr>)
      | Some (CmdSearch opt) \<Rightarrow> Some (search_output_options opt)
      | Some (CmdSetDefaultProfile opt) \<Rightarrow> Some (output_args_default\<lparr>
          oa_common_options := dp_common_options opt, oa_no_wizard := True\<rparr>)
      | Some (CmdUpdateRules opt) \<Rightarrow> Some (output_args_default\<lparr>
          oa_enable_deprecated_rules := True, oa_enable_noisy_rules := True,
          oa_common_options := up_common_options opt, oa_enable_unsupported_rules := True, oa_no_wizard := True\<rparr>)
      | Some (CmdConfigCriticalSystems opt) \<Rightarrow> Some (output_args_default\<lparr>
          oa_input_args := \<lparr>in_directory = cc_directory opt, in_filepath = cc_filepath opt, in_live_analysis = False,
            in_recover_records = False, in_time_offset = None\<rparr>,
          oa_common_options := cc_common_options opt, oa_no_wizard := True\<rparr>)
      | _ \<Rightarrow> None)"

subsection \<open>What the parts of a run are handed\<close>

text \<open>The rule loader, the time range and the scan take what they need from the shared options.\<close>

definition output_filters_of :: "output_args \<Rightarrow> output_filters" where
  "output_filters_of oa = \<lparr>exclude_status = oa_exclude_status oa, enable_noisy_rules = oa_enable_noisy_rules oa,
     enable_deprecated_rules = oa_enable_deprecated_rules oa, enable_unsupported_rules = oa_enable_unsupported_rules oa,
     include_category = oa_include_category oa, exclude_category = oa_exclude_category oa,
     include_tag = oa_include_tag oa, exclude_tag = oa_exclude_tag oa\<rparr>"

definition time_action_of :: "action option \<Rightarrow> time_action" where
  "time_action_of act =
     (case act of
        Some (CmdCsvTimeline opt) \<Rightarrow>
          WithTimeline (oa_start_timeline (cv_output_options opt)) (oa_end_timeline (cv_output_options opt))
      | Some (CmdJsonTimeline opt) \<Rightarrow>
          WithTimeline (oa_start_timeline (js_output_options opt)) (oa_end_timeline (js_output_options opt))
      | Some (CmdPivotKeywordsList opt) \<Rightarrow> WithTimeline (pv_start_timeline opt) (pv_end_timeline opt)
      | Some (CmdLogonSummary opt) \<Rightarrow> WithTimeline (ls_start_timeline opt) (ls_end_timeline opt)
      | Some (CmdSearch opt) \<Rightarrow> WithTimeline (sa_start_timeline opt) (sa_end_timeline opt)
      | Some (CmdLogMetrics _) \<Rightarrow> OffsetOnly
      | Some (CmdEidMetrics _) \<Rightarrow> OffsetOnly
      | Some (CmdComputerMetrics _) \<Rightarrow> OffsetOnly
      | Some (CmdExtractBase64 _) \<Rightarrow> OffsetOnly
      | _ \<Rightarrow> NoTimes)"

definition scan_action_of :: "action \<Rightarrow> scan_action option" where
  "scan_action_of a =
     (case a of
        CmdCsvTimeline _ \<Rightarrow> Some CsvTimeline | CmdJsonTimeline _ \<Rightarrow> Some JsonTimeline
      | CmdPivotKeywordsList _ \<Rightarrow> Some PivotKeywordsList | CmdEidMetrics _ \<Rightarrow> Some EidMetrics
      | CmdLogonSummary _ \<Rightarrow> Some LogonSummary | CmdLogMetrics _ \<Rightarrow> Some LogMetrics
      | CmdComputerMetrics _ \<Rightarrow> Some ComputerMetrics | CmdSearch _ \<Rightarrow> Some SearchCommand
      | CmdExtractBase64 _ \<Rightarrow> Some ExtractBase64 | CmdConfigCriticalSystems _ \<Rightarrow> Some ConfigCriticalSystems
      | _ \<Rightarrow> None)"

definition search_option_of :: "search_args \<Rightarrow> search_option" where
  "search_option_of s = \<lparr>so_keywords = sa_keywords s, so_regex = sa_regex s, so_ignore_case = sa_ignore_case s,
     so_and_logic = sa_and_logic s, so_filter = sa_filter s, so_output = (sa_output s \<noteq> None),
     so_json_output = sa_json_output s, so_jsonl_output = sa_jsonl_output s, so_sort_events = sa_sort_events s,
     so_multiline = sa_multiline s, so_tab_separator = sa_tab_separator s\<rparr>"

subsection \<open>The static data of a run\<close>

text \<open>
  What the program holds for the whole run. Files and parsers are those of \<open>Settings\<close>;
  \<open>se_tactics\<close> are the rows of the bundled table of tactics and \<open>se_dir\<close> the files of a directory.
\<close>

record static_env =
  se_env :: env
  se_aho :: aho
  se_disk :: disk
  se_csv :: "string \<Rightarrow> (string + string list) list"
  se_tactics :: "string list list"
  se_load :: "string \<Rightarrow> string + yaml list"
  se_embedded :: "string \<rightharpoonup> string"
  se_texts :: "string \<rightharpoonup> string"
  se_dir :: "string \<Rightarrow> (string + (string \<times> string) list) option"

record stored_static =
  ss_config_action :: "action option"
  ss_config_path :: string
  ss_eventkey_alias :: alias_config
  ss_ch_config :: "(string \<times> string) list"
  ss_disp_abbr :: "(string \<times> string) list"
  ss_provider_abbr_config :: "(string \<times> string) list"
  ss_quiet_errors_flag :: bool
  ss_verbose_flag :: bool
  ss_metrics_flag :: bool
  ss_logon_summary_flag :: bool
  ss_search_flag :: bool
  ss_computer_metrics_flag :: bool
  ss_log_metrics_flag :: bool
  ss_extract_base64_flag :: bool
  ss_search_option :: "search_args option"
  ss_output_option :: "output_args option"
  ss_pivot_keyword_list_flag :: bool
  ss_default_details :: "(string \<times> string) list"
  ss_html_report_flag :: bool
  ss_profiles :: "(string \<times> profile) list option"
  ss_event_timeline_config :: event_titles
  ss_target_eventids :: "string list"
  ss_target_ruleids :: "string list"
  ss_thread_number :: "nat option"
  ss_json_input_flag :: bool
  ss_output_path :: "string option"
  ss_common_options :: common_options
  ss_multiline_flag :: bool
  ss_tab_separator_flag :: bool
  ss_include_computer :: "string set"
  ss_exclude_computer :: "string set"
  ss_include_eid :: "string set"
  ss_exclude_eid :: "string set"
  ss_include_status :: "string set"
  ss_field_data_map :: "field_data_map option"
  ss_no_pwsh_field_extraction :: bool
  ss_enable_recover_records :: bool
  ss_time_offset :: "string option"
  ss_is_low_memory :: bool
  ss_enable_all_rules :: bool
  ss_scan_all_evtx_files :: bool
  ss_metrics_remove_duplication :: bool
  ss_disable_abbreviation :: bool
  ss_validate_checksum :: bool

text \<open>
  The mapping of locations: its filter, and of the two keys those with a list that is not empty. A file
  that does not parse counts as an empty one, whose first document is then missing.
\<close>

definition geo_maxmind_files :: "string list" where
  "geo_maxmind_files = [''GeoLite2-ASN.mmdb'', ''GeoLite2-Country.mmdb'', ''GeoLite2-City.mmdb'']"

definition geo_conf_of :: "yaml \<Rightarrow> yaml list \<times> (string \<times> yaml) list" where
  "geo_conf_of target_map =
     (unwrap_or [] (as_vec (yindex target_map ''Filter'')),
      concat (map (\<lambda>k. let y = yindex target_map k in
          if y \<noteq> YBadValue \<and> unwrap_or [] (as_vec y) \<noteq> [] then [(k, y)] else []) [''SrcIP'', ''TgtIP'']))"

definition geo_mapping_path :: "disk \<Rightarrow> string \<Rightarrow> string" where
  "geo_mapping_path D config_path =
     (case check_setting_path D config_path ''geoip_field_mapping'' False of
        Some p \<Rightarrow> p
      | None \<Rightarrow> beside_exe D ''rules/config/geoip_field_mapping.yaml'')"

definition load_geo_config ::
  "(string \<Rightarrow> string + yaml list) \<Rightarrow> disk \<Rightarrow> string \<Rightarrow> (string, yaml list \<times> (string \<times> yaml) list) outcome" where
  "load_geo_config load D config_path =
     (let geo_ip_file_path = geo_mapping_path D config_path;
          bundled = map_of (dk_bundle D) ''geoip_field_mapping.yaml''
      in if \<not> dk_exists D geo_ip_file_path \<and> bundled = None
         then Err ''Could not find the geoip_field_mapping.yaml config file. Please run update-rules.''
         else
           (case (case bundled of
                    Some s \<Rightarrow> Some s
                  | None \<Rightarrow> (case dk_text D geo_ip_file_path of Some (Inr s) \<Rightarrow> Some s | _ \<Rightarrow> None)) of
              None \<Rightarrow> Panic
            | Some contents \<Rightarrow>
                (case (case load contents of Inr ys \<Rightarrow> ys | Inl _ \<Rightarrow> []) of
                   [] \<Rightarrow> Panic
                 | target_map # _ \<Rightarrow> Ok (geo_conf_of target_map))))"


definition or_panic :: "'a option \<Rightarrow> ('a \<Rightarrow> ('e, 'b) outcome) \<Rightarrow> ('e, 'b) outcome" where
  "or_panic x f = (case x of None \<Rightarrow> Panic | Some a \<Rightarrow> f a)"

definition filter_config_file :: "static_env \<Rightarrow> string \<Rightarrow> string \<Rightarrow> bool \<Rightarrow> bool \<Rightarrow> (string \<times> string) list option" where
  "filter_config_file S config_path name is_lower_case disable =
     create_output_filter_config (read_csv (se_csv S) (se_disk S)) (se_tactics S)
       (config_file (se_disk S) config_path name) is_lower_case disable"

definition read_config_csv :: "static_env \<Rightarrow> string \<Rightarrow> string \<Rightarrow> string + string list list" where
  "read_config_csv S config_path name = read_csv (se_csv S) (se_disk S) (config_file (se_disk S) config_path name)"

text \<open>
  The levels and the databases of locations are checked first; an error there ends the program. The
  configuration of the locations is returned beside the data of the run.
\<close>

definition check_levels :: "env \<Rightarrow> action option \<Rightarrow> string + unit" where
  "check_levels E act =
     (if \<not> is_valid_min_level E act \<or> \<not> is_valid_exact_level E act
      then Inl '' You specified an invalid level. Please specify informational, low, medium, high or critical.''
      else Inr ())"

definition geo_of :: "static_env \<Rightarrow> action option \<Rightarrow> (string, (yaml list \<times> (string \<times> yaml) list) option) outcome" where
  "geo_of S act =
     (case check_exist_geo_ip_files (dk_exists (se_disk S)) (geo_ip_of act) geo_maxmind_files of
        Inl e \<Rightarrow> Err e
      | Inr None \<Rightarrow> Ok None
      | Inr (Some _) \<Rightarrow>
          (case load_geo_config (se_load S) (se_disk S) (config_path_of act) of
             Ok c \<Rightarrow> Ok (Some c) | Err e \<Rightarrow> Err e | Panic \<Rightarrow> Panic))"

definition target_ruleids_of :: "static_env \<Rightarrow> action option \<Rightarrow> string list" where
  "target_ruleids_of S act =
     (if proven_rules_of act
      then load_target_ids (read_txt (se_disk S) (config_file (se_disk S) (config_path_of act) ''proven_rules.txt''))
      else [])"

definition field_data_map_of :: "static_env \<Rightarrow> action option \<Rightarrow> field_data_map option" where
  "field_data_map_of S act =
     (if no_field_of act then None
      else (let path = config_file (se_disk S) (config_path_of act) ''data_mapping''
            in create_field_data_map (se_env S) (se_aho S) (se_load S) (dk_bundle (se_disk S)) path (se_dir S path)))"

definition profiles_of :: "static_env \<Rightarrow> action option \<Rightarrow> bool \<Rightarrow> (string, (string \<times> profile) list option) outcome" where
  "profiles_of S act has_geo_db =
     (let out = extract_output_options act in
      load_profile_from (se_load S) (se_embedded S) (beside_exe (se_disk S) ''config/default_profile.yaml'')
        (beside_exe (se_disk S) ''config/profiles.yaml'') (Option.bind out oa_profile) has_geo_db
        (case out of Some oa \<Rightarrow> in_recover_records (oa_input_args oa) | None \<Rightarrow> False) (se_texts S))"

definition static_data ::
  "static_env \<Rightarrow> action option \<Rightarrow> (string \<times> string) list \<Rightarrow> (string \<times> string) list \<Rightarrow> (string \<times> string) list \<Rightarrow>
   (string \<times> profile) list option \<Rightarrow> stored_static" where
  "static_data S act general channels providers profiles =
     (let path = config_path_of act in
      \<lparr>ss_config_action = act, ss_config_path = path,
       ss_eventkey_alias = load_eventkey_alias (read_config_csv S path ''eventkey_alias.txt''),
       ss_ch_config = channels, ss_disp_abbr = general, ss_provider_abbr_config = providers,
       ss_quiet_errors_flag = quiet_errors_of act, ss_verbose_flag = verbose_of act,
       ss_metrics_flag = (action_to_usize act = 3), ss_logon_summary_flag = (action_to_usize act = 2),
       ss_search_flag = (action_to_usize act = 10), ss_computer_metrics_flag = (action_to_usize act = 11),
       ss_log_metrics_flag = (action_to_usize act = 12), ss_extract_base64_flag = (action_to_usize act = 13),
       ss_search_option = extract_search_options act, ss_output_option = extract_output_options act,
       ss_pivot_keyword_list_flag = (action_to_usize act = 4),
       ss_default_details = get_default_details (read_config_csv S path ''default_details.txt'') (disable_abbreviation_of act),
       ss_html_report_flag = check_html_flag act, ss_profiles = profiles,
       ss_event_timeline_config = load_eventcode_info (se_env S) (read_config_csv S path ''channel_eid_info.txt''),
       ss_target_eventids = load_target_ids (read_txt (se_disk S) (config_file (se_disk S) path ''target_event_IDs.txt'')),
       ss_target_ruleids = target_ruleids_of S act, ss_thread_number = check_thread_number act,
       ss_json_input_flag = json_input_of act, ss_output_path = output_path_of act,
       ss_common_options = common_options_of act, ss_multiline_flag = multiline_of act,
       ss_tab_separator_flag = tab_separator_of act, ss_include_computer = include_computer_of act,
       ss_exclude_computer = exclude_computer_of act, ss_include_eid = include_eid_of act,
       ss_exclude_eid = exclude_eid_of act, ss_include_status = include_status_of act,
       ss_field_data_map = field_data_map_of S act, ss_no_pwsh_field_extraction = no_pwsh_field_extraction_of act,
       ss_enable_recover_records = recover_records_of act, ss_time_offset = time_offset_of act,
       ss_is_low_memory = is_low_memory_of act, ss_enable_all_rules = enable_all_rules_of act,
       ss_scan_all_evtx_files = scan_all_evtx_files_of act,
       ss_metrics_remove_duplication = metrics_remove_duplication_of act,
       ss_disable_abbreviation = disable_abbreviation_of act, ss_validate_checksum = validate_checksum_of act\<rparr>)"

definition create_static_data ::
  "static_env \<Rightarrow> action option \<Rightarrow> (string, stored_static \<times> (yaml list \<times> (string \<times> yaml) list) option) outcome" where
  "create_static_data S act =
     (case check_levels (se_env S) act of
        Inl e \<Rightarrow> Err e
      | Inr _ \<Rightarrow>
          (case geo_of S act of
             Err e \<Rightarrow> Err e
           | Panic \<Rightarrow> Panic
           | Ok geo \<Rightarrow>
               (let path = config_path_of act; disable = disable_abbreviation_of act in
                or_panic (filter_config_file S path ''generic_abbreviations.txt'' False disable) (\<lambda>general.
                or_panic (filter_config_file S path ''channel_abbreviations.txt'' True disable) (\<lambda>channels.
                or_panic (filter_config_file S path ''provider_abbreviations.txt'' False disable) (\<lambda>providers.
                  case profiles_of S act (geo \<noteq> None) of
                    Ok profiles \<Rightarrow> Ok (static_data S act general channels providers profiles, geo)
                  | Err e \<Rightarrow> Err e
                  | Panic \<Rightarrow> Panic))))))"

subsection \<open>The copies of an option agree\<close>

lemmas option_views =
  quiet_errors_of_def common_options_of_def verbose_of_def json_input_of_def validate_checksum_of_def
  time_offset_of_def include_computer_of_def exclude_computer_of_def include_eid_of_def exclude_eid_of_def
  include_status_of_def check_thread_number_def recover_records_of_def enable_all_rules_of_def
  scan_all_evtx_files_of_def proven_rules_of_def no_field_of_def no_pwsh_field_extraction_of_def check_html_flag_def

lemmas output_views =
  extract_output_options_def pivot_output_options_def computer_metrics_output_options_def search_output_options_def
  output_args_default_def detect_common_option_default_def input_option_default_def collect_set_def

text \<open>
  The flags of a run and the output options that its parts share come from the same arguments. Where a
  command has shared output options, they say the same as the flags on the colours and the quietness of the
  console, errors, verbosity, JSON input, checksums, the offset of the time range, the threads, the
  computers, the event identifiers and statuses, the rules and fields, and the report.
\<close>

theorem shared_options_agree:
  assumes "extract_output_options act = Some oa"
  shows "oa_common_options oa = common_options_of act \<and>
    dc_quiet_errors (oa_detect_common_options oa) = quiet_errors_of act \<and>
    dc_verbose (oa_detect_common_options oa) = verbose_of act \<and>
    dc_json_input (oa_detect_common_options oa) = json_input_of act \<and>
    dc_validate_checksums (oa_detect_common_options oa) = validate_checksum_of act \<and>
    in_time_offset (oa_input_args oa) = time_offset_of act \<and>
    dc_thread_number (oa_detect_common_options oa) = check_thread_number act \<and>
    collect_set (dc_include_computer (oa_detect_common_options oa)) = include_computer_of act \<and>
    collect_set (dc_exclude_computer (oa_detect_common_options oa)) = exclude_computer_of act \<and>
    collect_set (oa_include_eid oa) = include_eid_of act \<and> collect_set (oa_exclude_eid oa) = exclude_eid_of act \<and>
    collect_set (oa_include_status oa) = include_status_of act \<and>
    oa_enable_all_rules oa = enable_all_rules_of act \<and> oa_scan_all_evtx_files oa = scan_all_evtx_files_of act \<and>
    oa_proven_rules oa = proven_rules_of act \<and> oa_no_field oa = no_field_of act \<and>
    oa_no_pwsh_field_extraction oa = no_pwsh_field_extraction_of act \<and>
    (oa_html_report oa \<noteq> None) = check_html_flag act"
proof (cases act)
  case (Some a)
  with assms show ?thesis by (cases a) (simp_all add: output_views option_views, auto simp: output_views)
qed (use assms in \<open>simp add: extract_output_options_def\<close>)

definition sample_metrics :: computer_metrics_option where
  "sample_metrics = \<lparr>cm_input_args = input_option_default\<lparr>in_recover_records := True\<rparr>, cm_output = Some ''out.csv'',
     cm_common_options = \<lparr>co_no_color = True, co_quiet = False, co_help = None\<rparr>, cm_json_input = True,
     cm_evtx_file_ext = None, cm_quiet_errors = True, cm_config = ''./rules/config'', cm_verbose = True,
     cm_clobber = False, cm_validate_checksums = True\<rparr>"

theorem shared_options_agree_witness:
  "quiet_errors_of (Some (CmdComputerMetrics sample_metrics)) =
     dc_quiet_errors (oa_detect_common_options (computer_metrics_output_options sample_metrics))"
  using shared_options_agree [of "Some (CmdComputerMetrics sample_metrics)" "computer_metrics_output_options sample_metrics"]
  by (simp add: extract_output_options_def)

text \<open>Every command that scans has shared options, so the parts of the scan that unwrap them do not fail.\<close>

lemma scan_has_output_options:
  "scan_action_of a \<noteq> None \<Longrightarrow> extract_output_options (Some a) \<noteq> None"
  by (cases a) (simp_all add: scan_action_of_def extract_output_options_def)

text \<open>The option to recover records is dropped by the command that counts computers.\<close>

lemma computer_metrics_drops_recovery:
  "in_recover_records (oa_input_args (computer_metrics_output_options sample_metrics)) \<and>
   \<not> recover_records_of (Some (CmdComputerMetrics sample_metrics))"
  by (simp add: computer_metrics_output_options_def sample_metrics_def recover_records_of_def input_option_default_def)

text \<open>
  The short names of the levels pass the check but stand for no level: with one of them as the exact or
  the lowest level, every rule is loaded.
\<close>

lemma short_level_ignored:
  assumes "l \<in> {''info'', ''med'', ''crit'', ''emer'', ''undef'', ''undefined''}"
  shows "is_level_name E l" and "\<not> level_excluded E (F\<lparr>min_level := l, target_level := l\<rparr>) y"
proof -
  have "list_all (\<lambda>l. is_ascii l \<and> to_ascii_lowercase l = l) [''info'', ''med'', ''crit'', ''emer'', ''undef'', ''undefined'']"
    by code_simp
  with assms have "to_lowercase E l = l" by (auto simp del: to_ascii_lowercase_simps)
  with assms have "level_from E l = UNDEFINED" and "is_level_name E l"
    by (auto simp: level_from_def is_level_name_def level_eq_str_def all_levels_def)
  then show "is_level_name E l" and "\<not> level_excluded E (F\<lparr>min_level := l, target_level := l\<rparr>) y"
    by (simp_all add: level_excluded_def Let_def)
qed

text \<open>The message of the check leaves out a level that it accepts.\<close>

lemma emergency_is_level: "is_level_name E ''emergency''"
proof -
  have "is_ascii ''emergency'' \<and> to_ascii_lowercase ''emergency'' = ''emergency''" by code_simp
  then show ?thesis by (simp add: is_level_name_def level_eq_str_def all_levels_def)
qed

text \<open>
  The mapping of the locations is never taken from the directory that the options name, since it is looked
  up without its extension (a file of that other name aside).
\<close>

lemma geo_mapping_not_from_config:
  assumes "\<not> in_bundle D ''geoip_field_mapping''" and "\<not> dk_exists D (path_join config_path ''geoip_field_mapping'')"
  shows "geo_mapping_path D config_path = beside_exe D ''rules/config/geoip_field_mapping.yaml''"
proof -
  have "base_name ''geoip_field_mapping'' = ''geoip_field_mapping''" by code_simp
  with assms show ?thesis by (simp add: geo_mapping_path_def check_setting_path_def)
qed

text \<open>A mapping that does not parse is reported and then ends the program.\<close>

lemma broken_geo_mapping_panics:
  assumes "map_of (dk_bundle D) ''geoip_field_mapping.yaml'' = Some s" and "load s = Inl e"
  shows "load_geo_config load D config_path = Panic"
  using assms by (simp add: load_geo_config_def Let_def)
end
