(* ===== verification/Update.thy ===== *)
theory Update
  imports Keywords Options
begin

section \<open>Updating the rules (options/update.rs, main.rs)\<close>

text \<open>
  The command that fetches the rules, tells which of them changed and whether there is a new version
  of the program. Git and the network are parameters: the answers of a repository to each call. What
  a command does besides its result is a list of effects in the order of the code.
\<close>

datatype effect =
    Printed "console list"
  | Alert string
  | Warning string
  | Help_Text string
  | Report_Line string string
  | Write_File string string
  | Csv_File string "string list list"
  | Make_Dir string
  | Remove_Dir string
  | Rules_Path string
  | Run_Scan
  | Report_File string
  | Error_Log
  | Log_Error string
  | Search_Results "string option" "search_item list"
  | Pieces "(string \<times> bool) list"
  | New_Texts "string \<rightharpoonup> string"
  | Tuned_Levels

abbreviation printed_line :: "rgb option \<Rightarrow> string \<Rightarrow> effect" where
  "printed_line color s \<equiv> Printed (write_color_buffer color s True)"

definition update_green :: rgb where "update_green = (0, 255, 0)"

definition amber :: rgb where "amber = (255, 175, 0)"

subsection \<open>Repositories\<close>

datatype merge_analysis = UpToDate | FastForward | NormalMerge | OtherMerge

text \<open>
  \<open>gr_main\<close> is the commit of the local branch \<open>main\<close> with its object, \<open>gr_fetch_head\<close> the fetched commit,
  \<open>gr_forward\<close> the calls that move the branch and check it out.
\<close>

record git_repo =
  gr_main :: "string option"
  gr_reset :: "string + unit"
  gr_remote :: "string + unit"
  gr_fetch :: "string + unit"
  gr_fetch_head :: "string + string"
  gr_merge :: "string + merge_analysis"
  gr_forward :: "string + unit"

definition repo_main_reset_hard :: "git_repo \<Rightarrow> (string, unit) outcome" where
  "repo_main_reset_hard r =
     (case gr_main r of
        None \<Rightarrow> Panic
      | Some _ \<Rightarrow> (case gr_reset r of Inr _ \<Rightarrow> Ok () | Inl _ \<Rightarrow> Err ''Failed reset main branch in rules''))"

definition pull_repository :: "git_repo \<Rightarrow> effect list \<times> (string + string)" where
  "pull_repository r =
     (case gr_remote r of
        Inl e \<Rightarrow> ([], Inl e)
      | Inr _ \<Rightarrow>
          (case gr_fetch r of
             Inl e \<Rightarrow> ([Alert (''Failed git fetch to rules folder. '' @ e)], Inl [])
           | Inr _ \<Rightarrow>
               (case gr_fetch_head r of
                  Inl e \<Rightarrow> ([], Inl e)
                | Inr _ \<Rightarrow>
                    (case gr_merge r of
                       Inl e \<Rightarrow> ([], Inl e)
                     | Inr UpToDate \<Rightarrow> ([], Inr ''Already up to date'')
                     | Inr FastForward \<Rightarrow>
                         (case gr_forward r of
                            Inl e \<Rightarrow> ([], Inl e)
                          | Inr _ \<Rightarrow> ([], Inr ''Finished fast forward merge.''))
                     | Inr NormalMerge \<Rightarrow>
                         ([Alert ''update-rules option is git Fast-Forward merge only. please check your rules folder.''], Inl [])
                     | Inr OtherMerge \<Rightarrow> ([], Inl [])))))"

text \<open>\<open>clone\<close>: the error carries whether its code is that something exists already.\<close>

definition clone_rules :: "(bool \<times> string) + unit \<Rightarrow> effect list \<times> (string + string)" where
  "clone_rules clone =
     (case clone of
        Inr _ \<Rightarrow> ([Printed [Put None ''Finished cloning the hayabusa-rules repository.'', Newline]], Inr ''Finished clone'')
      | Inl (True, e) \<Rightarrow>
          ([Alert (''You need to update the rules as the user that you downloaded Hayabusa with.'' @ [CHR 0x0A] @
             ''        You can also move or delete the current rules folder to sync to the latest rules.'')], Inl e)
      | Inl (False, e) \<Rightarrow>
          ([Alert ''Failed to git clone into the rules folder. Please rename your rules folder name.''], Inl e))"

subsection \<open>What changed\<close>

definition rule_title :: "yaml \<Rightarrow> string" where
  "rule_title y = unwrap_or [] (as_str (yindex y ''title''))"

definition rule_modified :: "yaml \<Rightarrow> string" where
  "rule_modified y = unwrap_or (unwrap_or ''-'' (as_str (yindex y ''date''))) (as_str (yindex y ''modified''))"

definition rule_type :: "yaml \<Rightarrow> string" where
  "rule_type y = unwrap_or ''Other'' (as_str (yindex y ''ruletype''))"

text \<open>A rule as one text; \<open>debug\<close> is the debug format of YAML. Of several documents of a file the last stays.\<close>

definition rule_line :: "(yaml \<Rightarrow> string) \<Rightarrow> string \<Rightarrow> yaml \<Rightarrow> string" where
  "rule_line debug path y =
     rule_title y @ ''|'' @ rule_modified y @ ''|'' @ path @ ''|'' @ rule_type y @ ''|'' @ debug y"

definition rule_lines :: "(yaml \<Rightarrow> string) \<Rightarrow> (string \<times> yaml) list \<Rightarrow> (string \<times> string) list" where
  "rule_lines debug rs = fold (\<lambda>(p, y). assoc_insert p (rule_line debug p y)) rs []"

definition get_updated_rules ::
  "env \<Rightarrow> rule_world \<Rightarrow> rule_filters \<Rightarrow> (yaml \<Rightarrow> string) \<Rightarrow> string \<Rightarrow> string + fs_entry \<Rightarrow> lookup_state \<Rightarrow>
   (string \<times> string) list option" where
  "get_updated_rules E W F debug rule_folder_path metadata reg =
     (let F' = F\<lparr>min_level := ''INFORMATIONAL'', target_level := [], no_use_rule := []\<rparr>
      in case read_rule_path E W F' rule_folder_path metadata (loader_new [] reg) of
           (ld, Panic) \<Rightarrow> None
         | (ld, _) \<Rightarrow> Some (rule_lines debug (files ld)))"

definition rule_diff :: "(string \<times> string) list \<Rightarrow> (string \<times> string) list \<Rightarrow> string list" where
  "rule_diff prev_sets updated_sets =
     map snd (filter (\<lambda>(k, v). map_of prev_sets k \<noteq> Some v) updated_sets)"

definition shown_path :: "string \<Rightarrow> string" where
  "shown_path p = (if starts_with p ''./'' then drop 2 p else p)"

definition diff_line :: "string list \<Rightarrow> string" where
  "diff_line tmp = '' - '' @ tmp ! 0 @ '' (Modified: '' @ tmp ! 1 @ '' | Path: '' @ shown_path (tmp ! 2) @ '')''"

definition type_count_lines :: "counter \<Rightarrow> bool \<Rightarrow> effect list" where
  "type_count_lines counts no_color =
     concat (map (\<lambda>(key, value).
       [Printed (write_color_buffer (get_writable_color (Some update_green) no_color) (''Updated '' @ key @ '' rules: '') False),
        printed_line None (show_nat value)]) counts)"

definition print_diff_modified_rule_dates ::
  "(string \<times> string) list \<Rightarrow> (string \<times> string) list \<Rightarrow> bool \<Rightarrow> effect list \<times> string" where
  "print_diff_modified_rule_dates prev_sets updated_sets no_color =
     (let parts = map (split_char (CHR ''|'')) (rule_diff prev_sets updated_sets);
          update_count_by_rule_type = fold (\<lambda>tmp. bump (tmp ! 3)) parts [];
          shown = map (\<lambda>tmp. printed_line None (diff_line tmp)) parts
      in if update_count_by_rule_type \<noteq> [] then
           (shown @ [Printed [Newline]] @ type_count_lines update_count_by_rule_type no_color @ [Printed [Newline]],
            ''Rule updated'')
         else (shown @ [printed_line (get_writable_color (Some amber) no_color) ''You currently have the latest rules.''],
               ''You currently have the latest rules.''))"

subsection \<open>The update\<close>

record update_env =
  ue_submodules :: "(string + ((string + unit) \<times> (string + git_repo)) list) option"
  ue_rule_repo :: "git_repo option"
  ue_clone :: "(bool \<times> string) + unit"
  ue_rules_exist :: bool
  ue_before :: "(string \<times> string) list option"
  ue_after :: "(string \<times> string) list option"

text \<open>Each submodule is updated, opened and pulled; a failed pull is remembered, the other errors end the update.\<close>

fun update_submodules ::
  "((string + unit) \<times> (string + git_repo)) list \<Rightarrow> bool \<Rightarrow> effect list \<times> (string + bool)" where
  "update_submodules [] ok = ([], Inr ok)"
| "update_submodules ((Inl e, _) # ms) ok = ([], Inl e)"
| "update_submodules ((Inr _, Inl e) # ms) ok = ([], Inl e)"
| "update_submodules ((Inr _, Inr repo) # ms) ok =
     (case pull_repository repo of
        (es, Inr _) \<Rightarrow> map_prod ((@) es) id (update_submodules ms ok)
      | (es, Inl e) \<Rightarrow> map_prod ((@) (es @ [Alert (''Failed submodule update. '' @ e)])) id (update_submodules ms False))"

definition cloning_text :: string where
  "cloning_text = ''Attempting to git clone the hayabusa-rules repository into the rules folder.''"

text \<open>
  The fetch: its effects, the rules before it where they were read, and its result. \<open>ue_submodules\<close> is
  \<open>None\<close> where the current directory is no repository.
\<close>

definition fetch_rules ::
  "update_env \<Rightarrow> string \<Rightarrow> effect list \<times> (string \<times> string) list \<times> (string, string + string) outcome" where
  "fetch_rules U rule_path =
     (case (ue_submodules U, ue_rule_repo U) of
        (None, None) \<Rightarrow>
          (case clone_rules (ue_clone U) of (es, r) \<Rightarrow> (printed_line None cloning_text # es, [], Ok r))
      | (_, Some repo) \<Rightarrow>
          (case repo_main_reset_hard repo of
             Panic \<Rightarrow> ([], [], Panic)
           | Err e \<Rightarrow> ([], [], Err e)
           | Ok _ \<Rightarrow>
               (case ue_before U of
                  None \<Rightarrow> ([], [], Panic)
                | Some prev \<Rightarrow> (case pull_repository repo of (es, r) \<Rightarrow> (es, prev, Ok r))))
      | (Some submodules, None) \<Rightarrow>
          (let made = (if ue_rules_exist U then [] else [Make_Dir rule_path]) in
           if rule_path = ''./rules'' then
             (case submodules of
                Inl e \<Rightarrow> (made, [], Err e)
              | Inr ms \<Rightarrow>
                  (case update_submodules ms True of
                     (es, Inl e) \<Rightarrow> (made @ Remove_Dir ''.git/.submodule/rules'' # es, [], Err e)
                   | (es, Inr ok) \<Rightarrow> (made @ Remove_Dir ''.git/.submodule/rules'' # es, [],
                       Ok (if ok then Inr ''Successed submodule update'' else Inl []))))
           else
             (case clone_rules (ue_clone U) of (es, r) \<Rightarrow> (made @ printed_line None cloning_text # es, [], Ok r))))"

definition update_rules :: "update_env \<Rightarrow> string \<Rightarrow> bool \<Rightarrow> effect list \<times> (string, string) outcome" where
  "update_rules U rule_path no_color =
     (case fetch_rules U rule_path of
        (es, prev, Panic) \<Rightarrow> (es, Panic)
      | (es, prev, Err e) \<Rightarrow> (es, Err e)
      | (es, prev, Ok (Inl e)) \<Rightarrow> (es, Err e)
      | (es, prev, Ok (Inr _)) \<Rightarrow>
          (case ue_after U of
             None \<Rightarrow> (es, Panic)
           | Some updated \<Rightarrow>
               (case print_diff_modified_rule_dates prev updated no_color of (es', r) \<Rightarrow> (es @ es', Ok r))))"


subsection \<open>The new version\<close>

definition parse_i8 :: "string \<Rightarrow> int option" where
  "parse_i8 s =
     (case parse_i64 s of Some n \<Rightarrow> if - 128 \<le> n \<and> n \<le> 127 then Some n else None | None \<Rightarrow> None)"

definition version_parts :: "string \<Rightarrow> int list" where
  "version_parts s = option_list (map parse_i8 (split_char (CHR ''.'') s))"

text \<open>The order of vectors, element by element and then by length.\<close>

fun vec_greater :: "int list \<Rightarrow> int list \<Rightarrow> bool" where
  "vec_greater [] _ = False"
| "vec_greater (_ # _) [] = True"
| "vec_greater (x # xs) (y # ys) = (x > y \<or> (x = y \<and> vec_greater xs ys))"

text \<open>
  The answer of the server is JSON text with its quotes; \<open>pkg_version\<close> is the version of the build. The last
  case would be a panic.
\<close>

definition split_now_version :: "string \<Rightarrow> int list" where
  "split_now_version now_version = version_parts (replace_all ''v'' [] (replace_all ''-dev'' [] now_version))"

definition split_latest_version :: "string \<Rightarrow> int list" where
  "split_latest_version latest = version_parts (replace_all ''v'' [] (replace_all [CHR 0x22] [] latest))"

definition new_version_message :: "string \<Rightarrow> string option \<Rightarrow> bool \<Rightarrow> effect list option" where
  "new_version_message pkg_version latest no_color =
     (let now_version = CHR ''v'' # pkg_version; color = get_writable_color (Some amber) no_color in
      if vec_greater (split_latest_version (unwrap_or now_version latest)) (split_now_version now_version) then
        (case latest of
           None \<Rightarrow> None
         | Some l \<Rightarrow> Some
             [printed_line color (''There is a new version of Hayabusa: '' @ replace_all [CHR 0x22] [] l),
              printed_line color ''You can download it at https://github.com/Yamato-Security/hayabusa/releases''])
      else Some [])"

text \<open>\<open>get_latest_hayabusa_version\<close>: the tag of the last release as JSON text, if there is one.\<close>

definition get_latest_hayabusa_version ::
  "(string \<Rightarrow> string + json) \<Rightarrow> (json \<Rightarrow> string) \<Rightarrow> string + string \<Rightarrow> string + string option" where
  "get_latest_hayabusa_version parse to_text answer =
     (case answer of
        Inl e \<Rightarrow> Inl e
      | Inr body \<Rightarrow>
          (case parse body of
             Inl e \<Rightarrow> Inl e
           | Inr v \<Rightarrow>
               (case unwrap_or JNull (json_get ''tag_name'' v) of
                  JNull \<Rightarrow> Inr None
                | tag \<Rightarrow> Inr (Some (to_text tag)))))"

subsection \<open>Changed rules are reported\<close>

definition no_bar :: "string \<Rightarrow> bool" where
  "no_bar s \<longleftrightarrow> CHR ''|'' \<notin> set s"

definition plain_rule :: "string \<times> yaml \<Rightarrow> bool" where
  "plain_rule r \<longleftrightarrow> (case r of (p, y) \<Rightarrow> no_bar (rule_title y) \<and> no_bar (rule_modified y) \<and> no_bar p \<and> no_bar (rule_type y))"

definition change_text :: "string \<times> yaml \<Rightarrow> string" where
  "change_text r = (case r of (p, y) \<Rightarrow>
     '' - '' @ rule_title y @ '' (Modified: '' @ rule_modified y @ '' | Path: '' @ shown_path p @ '')'')"

lemma split_rule_line:
  "plain_rule (p, y) \<Longrightarrow> split_char (CHR ''|'') (rule_line debug p y) =
    rule_title y # rule_modified y # p # rule_type y # split_char (CHR ''|'') (debug y)"
  by (simp add: plain_rule_def no_bar_def rule_line_def split_char_append)

lemma rule_line_eq:
  assumes "plain_rule (p, y)" and "plain_rule (p, y')" and "rule_line debug p y = rule_line debug p y'"
  shows "debug y = debug y'"
proof -
  have "split_char (CHR ''|'') (debug y) = split_char (CHR ''|'') (debug y')"
    using split_rule_line [OF assms(1), of debug] split_rule_line [OF assms(2), of debug] assms(3) by simp
  then show ?thesis by (metis join_split_char)
qed

lemma rule_lines_distinct:
  "distinct (map fst rs) \<Longrightarrow> rule_lines debug rs = map (\<lambda>(p, y). (p, rule_line debug p y)) rs"
  by (simp add: rule_lines_def fold_assoc_insert_new)

lemma rule_lines_member:
  assumes "distinct (map fst rs)" and "inj_on debug (snd ` set (r # rs))" and "\<forall>q \<in> set (r # rs). plain_rule q"
  shows "map_of (rule_lines debug rs) (fst r) = Some (rule_line debug (fst r) (snd r)) \<longleftrightarrow> r \<in> set rs"
proof -
  obtain p y where r: "r = (p, y)" by fastforce
  have "map fst (map (\<lambda>(p, y). (p, rule_line debug p y)) rs) = map fst rs" by (induction rs) auto
  with assms(1) have "distinct (map fst (map (\<lambda>(p, y). (p, rule_line debug p y)) rs))" by (simp only:)
  then have "map_of (rule_lines debug rs) p = Some (rule_line debug p y) \<longleftrightarrow>
      (\<exists>y'. (p, y') \<in> set rs \<and> rule_line debug p y' = rule_line debug p y)"
    unfolding rule_lines_distinct [OF assms(1)] by (subst map_of_eq_Some_iff) force+
  also have "\<dots> \<longleftrightarrow> (p, y) \<in> set rs"
  proof
    assume "\<exists>y'. (p, y') \<in> set rs \<and> rule_line debug p y' = rule_line debug p y"
    then obtain y' where y': "(p, y') \<in> set rs" "rule_line debug p y' = rule_line debug p y" by blast
    have "plain_rule (p, y')" "plain_rule (p, y)" using assms(3) r y'(1) by auto
    from rule_line_eq [OF this y'(2)] have "debug y' = debug y" .
    moreover have "y' \<in> snd ` set (r # rs)" "y \<in> snd ` set (r # rs)" using y'(1) r by force+
    ultimately have "y' = y" by (rule inj_onD [OF assms(2)])
    with y'(1) show "(p, y) \<in> set rs" by simp
  qed auto
  finally show ?thesis by (simp add: r)
qed

definition changed_rules :: "(string \<times> yaml) list \<Rightarrow> (string \<times> yaml) list \<Rightarrow> (string \<times> yaml) list" where
  "changed_rules before after = filter (\<lambda>r. r \<notin> set before) after"

lemma rule_diff_changed:
  assumes "distinct (map fst before)" and "distinct (map fst after)"
    and "inj_on debug (snd ` set (before @ after))" and "\<forall>r \<in> set (before @ after). plain_rule r"
  shows "rule_diff (rule_lines debug before) (rule_lines debug after) =
    map (\<lambda>(p, y). rule_line debug p y) (changed_rules before after)"
proof -
  have "map_of (rule_lines debug before) (fst r) = Some (rule_line debug (fst r) (snd r)) \<longleftrightarrow> r \<in> set before"
    if "r \<in> set after" for r
  proof (rule rule_lines_member [OF assms(1)])
    show "inj_on debug (snd ` set (r # before))" by (rule inj_on_subset [OF assms(3)]) (use that in auto)
  qed (use that assms(4) in auto)
  then have "filter (\<lambda>(k, v). map_of (rule_lines debug before) k \<noteq> Some v)
        (map (\<lambda>(p, y). (p, rule_line debug p y)) after) =
      map (\<lambda>(p, y). (p, rule_line debug p y)) (changed_rules before after)"
    unfolding changed_rules_def filter_map comp_def
    by (intro arg_cong [where f = "map _"] filter_cong) auto
  then show ?thesis using assms(2)
    by (simp add: rule_diff_def rule_lines_distinct) (simp add: case_prod_beta comp_def)
qed

lemma fold_bump:
  "unwrap_or 0 (map_of (fold (\<lambda>x. bump (f x)) xs m) t) = unwrap_or 0 (map_of m t) + length (filter (\<lambda>x. f x = t) xs)"
  by (induction xs arbitrary: m) (auto simp: bump_def)

lemma fold_bump_Nil: "fold (\<lambda>x. bump (f x)) xs m = [] \<longleftrightarrow> xs = [] \<and> m = []"
proof (induction xs arbitrary: m)
  case (Cons x xs)
  have "bump (f x) m \<noteq> []" by (cases m) (auto simp: bump_def)
  with Cons.IH show ?case by simp
qed simp

text \<open>
  C34: An update tells exactly what changed. If every file holds one rule, the debug format tells the rules
  apart and no title, date, path or type has a bar in it, then the lines that are printed are, in some
  order, those of the rules that are new or different, the numbers under them count these rules by
  type, and the rules are called the latest exactly if there is none.
\<close>

theorem changed_rules_reported:
  assumes "distinct (map fst before)" and "distinct (map fst after)"
    and "inj_on debug (snd ` set (before @ after))" and "\<forall>r \<in> set (before @ after). plain_rule r"
  shows "\<exists>counts.
    print_diff_modified_rule_dates (rule_lines debug before) (rule_lines debug after) no_color =
      (map (\<lambda>r. printed_line None (change_text r)) (changed_rules before after) @
         (if changed_rules before after \<noteq> []
          then Printed [Newline] # type_count_lines counts no_color @ [Printed [Newline]]
          else [printed_line (get_writable_color (Some amber) no_color) ''You currently have the latest rules.'']),
       if changed_rules before after \<noteq> [] then ''Rule updated'' else ''You currently have the latest rules.'') \<and>
    (\<forall>t. unwrap_or 0 (map_of counts t) = length (filter (\<lambda>r. rule_type (snd r) = t) (changed_rules before after)))"
proof -
  let ?changed = "changed_rules before after"
  let ?parts = "map (\<lambda>(p, y). split_char (CHR ''|'') (rule_line debug p y)) ?changed"
  let ?counts = "fold (\<lambda>tmp. bump (tmp ! 3)) ?parts []"
  have plain: "plain_rule r" if "r \<in> set ?changed" for r
    using that assms(4) by (auto simp: changed_rules_def)
  have parts: "?parts = map (\<lambda>(p, y). rule_title y # rule_modified y # p # rule_type y # split_char (CHR ''|'') (debug y)) ?changed"
    using plain by (auto simp: split_rule_line)
  have texts: "map (\<lambda>tmp. printed_line None (diff_line tmp)) ?parts = map (\<lambda>r. printed_line None (change_text r)) ?changed"
    unfolding parts by (auto simp: diff_line_def change_text_def)
  have counts: "?counts = fold (\<lambda>r. bump (rule_type (snd r))) ?changed []"
    unfolding parts by (simp add: fold_map comp_def case_prod_beta)
  have split: "map (split_char (CHR ''|'')) (map (\<lambda>(p, y). rule_line debug p y) ?changed) = ?parts"
    by (simp add: comp_def case_prod_beta)
  show ?thesis
    unfolding print_diff_modified_rule_dates_def rule_diff_changed [OF assms] split Let_def
    by (rule exI [of _ ?counts], simp only: texts fold_bump_Nil map_is_Nil_conv) (simp add: counts fold_bump)
qed

definition old_rule :: yaml where
  "old_rule = YHash [(YString ''title'', YString ''Mimikatz''), (YString ''date'', YString ''2024-01-01'')]"

definition new_rule :: yaml where
  "new_rule = YHash [(YString ''title'', YString ''Mimikatz''), (YString ''date'', YString ''2024-01-01''),
     (YString ''modified'', YString ''2025-02-02'')]"

theorem changed_rules_reported_witness:
  "fst (print_diff_modified_rule_dates (rule_lines (\<lambda>y. if y = old_rule then ''a'' else ''b'') [(''./a.yml'', old_rule), (''b.yml'', old_rule)])
     (rule_lines (\<lambda>y. if y = old_rule then ''a'' else ''b'') [(''./a.yml'', new_rule), (''b.yml'', old_rule)]) True) ! 0 =
   printed_line None '' - Mimikatz (Modified: 2025-02-02 | Path: a.yml)''"
proof -
  let ?b = "[(''./a.yml'', old_rule), (''b.yml'', old_rule)]" and ?a = "[(''./a.yml'', new_rule), (''b.yml'', old_rule)]"
  let ?debug = "\<lambda>y. if y = old_rule then ''a'' else ''b''"
  have ne: "new_rule \<noteq> old_rule" by (simp add: new_rule_def old_rule_def)
  have c: "changed_rules ?b ?a = [(''./a.yml'', new_rule)]" using ne by (simp add: changed_rules_def)
  have t: "change_text (''./a.yml'', new_rule) = '' - Mimikatz (Modified: 2025-02-02 | Path: a.yml)''" by code_simp
  have p: "plain_rule (''./a.yml'', old_rule) \<and> plain_rule (''b.yml'', old_rule) \<and> plain_rule (''./a.yml'', new_rule)"
    by code_simp
  have "inj_on ?debug (snd ` set (?b @ ?a))" by (auto simp: inj_on_def)
  from changed_rules_reported [OF _ _ this, of True] p show ?thesis by (auto simp: c t)
qed

subsection \<open>Departures of the update\<close>

text \<open>Where the rules are no repository of their own, nothing is compared: every rule counts as changed.\<close>

lemma nothing_compared:
  "ue_rule_repo U = None \<Longrightarrow> fetch_rules U rule_path = (es, prev, r) \<Longrightarrow> prev = []"
  by (auto simp: fetch_rules_def Let_def split: option.splits sum.splits prod.splits if_splits)

lemma all_rules_reported: "rule_diff [] updated = map snd updated"
  by (simp add: rule_diff_def)

text \<open>A bar in the title moves the date, the path and the type of the rule by one.\<close>

lemma bar_in_title:
  "diff_line (split_char (CHR ''|'') (rule_line (\<lambda>_. []) ''a.yml''
     (YHash [(YString ''title'', YString ''A | B''), (YString ''modified'', YString ''2025-02-02'')]))) =
   '' - A  (Modified:  B | Path: 2025-02-02)''"
  by code_simp

text \<open>Of several documents in a file only the last is compared.\<close>

lemma last_document_compared: "rule_lines debug [(p, y), (p, y')] = [(p, rule_line debug p y')]"
  by (simp add: rule_lines_def)

subsection \<open>Versions\<close>

lemma parse_i8_show_nat: "parse_i8 (show_nat n) = (if n \<le> 127 then Some (int n) else None)"
proof (cases "n < 2 ^ 63")
  case True
  have "show_int (int n) = show_nat n" by (simp add: show_int_def)
  with parse_i64_show_int [of "int n"] True have "parse_i64 (show_nat n) = Some (int n)" by simp
  then show ?thesis by (auto simp: parse_i8_def)
next
  case False
  then have "parse_i64 (show_nat n) = None" using show_nat_no_sign by (simp add: parse_i64_def)
  with False show ?thesis by (simp add: parse_i8_def)
qed

definition version_text :: "nat list \<Rightarrow> string" where
  "version_text ns = join ''.'' (map show_nat ns)"

lemma version_chars: "c \<in> set (version_text ns) \<Longrightarrow> is_digit c \<or> c = CHR ''.''"
proof -
  have "set (join ''.'' ws) \<subseteq> insert (CHR ''.'') (\<Union> (set ` set ws))" for ws
    by (induction ws rule: induct_list012) auto
  from this [of "map show_nat ns"] show "c \<in> set (version_text ns) \<Longrightarrow> is_digit c \<or> c = CHR ''.''"
    using show_nat_digits by (auto simp: version_text_def list_all_iff)
qed

text \<open>Numbers above 127 are left out, so that a version with one of them compares as a shorter one.\<close>

lemma version_parts_text:
  assumes "ns \<noteq> []"
  shows "version_parts (version_text ns) = map int (filter (\<lambda>n. n \<le> 127) ns)"
proof -
  have "\<not> is_digit (CHR ''.'')" by code_simp
  then have "\<forall>w \<in> set (map show_nat ns). CHR ''.'' \<notin> set w"
    using show_nat_digits by (auto simp: list_all_iff)
  then have "split_char (CHR ''.'') (version_text ns) = map show_nat ns"
    using assms by (simp add: version_text_def split_char_join)
  moreover have "option_list (map parse_i8 (map show_nat ns)) = map int (filter (\<lambda>n. n \<le> 127) ns)"
    by (induction ns) (simp_all add: parse_i8_show_nat)
  ultimately show ?thesis by (simp add: version_parts_def)
qed

lemma version_text_filter:
  "\<not> is_digit c \<Longrightarrow> c \<noteq> CHR ''.'' \<Longrightarrow> filter (\<lambda>d. d \<noteq> c) (version_text ns) = version_text ns"
  using version_chars by (intro filter_neq_id) blast

lemma split_latest_version_tag:
  assumes "ns \<noteq> []"
  shows "split_latest_version (CHR 0x22 # CHR ''v'' # version_text ns @ [CHR 0x22]) = map int (filter (\<lambda>n. n \<le> 127) ns)"
proof -
  have "\<not> is_digit (CHR 0x22)" "\<not> is_digit (CHR ''v'')" by code_simp+
  then show ?thesis
    by (simp add: split_latest_version_def replace_all_filter version_text_filter version_parts_text [OF assms])
qed

lemma split_now_version_release:
  assumes "ns \<noteq> []"
  shows "split_now_version (CHR ''v'' # version_text ns) = map int (filter (\<lambda>n. n \<le> 127) ns)"
proof -
  have d: "\<not> is_digit (CHR ''v'')" "\<not> is_digit (CHR ''-'')" by code_simp+
  have "CHR ''-'' \<notin> set (CHR ''v'' # version_text ns)" using version_chars [of _ ns] d by auto
  moreover have "CHR ''-'' \<in> set (t @ ''-dev'' @ u)" for t u by simp
  ultimately have "\<not> contains_str (CHR ''v'' # version_text ns) ''-dev''"
    unfolding contains_str_iff by metis
  then have "replace_all ''-dev'' [] (CHR ''v'' # version_text ns) = CHR ''v'' # version_text ns"
    by (intro replace_all_id) auto
  then show ?thesis
    by (simp add: split_now_version_def replace_all_filter version_text_filter d version_parts_text [OF assms])
qed

text \<open>A new release is announced exactly if its version is higher.\<close>

lemma new_version_announced:
  assumes "ns \<noteq> []" and "ms \<noteq> []" and "\<forall>n \<in> set (ns @ ms). n \<le> 127"
  shows "\<exists>es. new_version_message (version_text ns) (Some (CHR 0x22 # CHR ''v'' # version_text ms @ [CHR 0x22])) no_color = Some es \<and>
    (es \<noteq> [] \<longleftrightarrow> vec_greater (map int ms) (map int ns))"
proof -
  have "filter (\<lambda>n. n \<le> 127) ns = ns" "filter (\<lambda>n. n \<le> 127) ms = ms" using assms(3) by auto
  then show ?thesis
    by (simp add: new_version_message_def Let_def split_latest_version_tag [OF assms(2)] split_now_version_release [OF assms(1)])
qed

lemma high_version_not_announced: "\<not> vec_greater (map int (filter (\<lambda>n. n \<le> 127) [3, 200, 0])) (map int [3, 10, 0])"
  by simp
end
