(* ===== verification/Timeline_Output.thy ===== *)
theory Timeline_Output
  imports Update
begin

section \<open>What the metrics commands write (timelines.rs, computer\_metrics.rs, config\_critical\_systems.rs)\<close>

text \<open>
  The tables of the commands that count instead of matching rules: as rows of a CSV file, or drawn on
  the terminal, which is a library's. A step of a command goes on, ends the program or panics, with its
  effects so far. \<open>create_error path\<close> is the error where the file cannot be created.
\<close>

datatype step = Go "effect list" | Stop "effect list" | Fail "effect list"

fun step_effects :: "step \<Rightarrow> effect list" where
  "step_effects (Go es) = es"
| "step_effects (Stop es) = es"
| "step_effects (Fail es) = es"

fun step_after :: "effect list \<Rightarrow> step \<Rightarrow> step" where
  "step_after es (Go fs) = Go (es @ fs)"
| "step_after es (Stop fs) = Stop (es @ fs)"
| "step_after es (Fail fs) = Fail (es @ fs)"

fun and_then :: "step \<Rightarrow> step \<Rightarrow> step" where
  "and_then (Go es) s = step_after es s"
| "and_then s _ = s"

record display_env =
  de_create_error :: "string \<Rightarrow> string option"
  de_number :: "nat \<Rightarrow> string"
  de_percent :: "nat \<Rightarrow> nat \<Rightarrow> string"
  de_format_time :: "int \<Rightarrow> string"
  de_channel_abbr :: "string \<Rightarrow> string"
  de_provider_abbr :: "string \<Rightarrow> string"
  de_no_color :: bool

abbreviation green_of :: "display_env \<Rightarrow> rgb option" where
  "green_of V \<equiv> get_writable_color (Some green) (de_no_color V)"

text \<open>\<open>replace_channel_abbr\<close>, \<open>replace_provider_abbr\<close>: the name of the table, then its abbreviations.\<close>

definition replace_channel_abbr :: "(string \<Rightarrow> string) \<Rightarrow> (string \<times> string) list \<Rightarrow> string \<Rightarrow> string" where
  "replace_channel_abbr abbreviate ch_config channel =
     abbreviate (unwrap_or channel (map_of ch_config (to_ascii_lowercase channel)))"

definition replace_provider_abbr :: "(string \<Rightarrow> string) \<Rightarrow> (string \<times> string) list \<Rightarrow> string \<Rightarrow> string" where
  "replace_provider_abbr abbreviate provider_config provider =
     abbreviate (unwrap_or provider (map_of provider_config provider))"

subsection \<open>The heading\<close>

text \<open>The texts are shown in two parts, cut at the first colon; a text without one gets an empty second part.\<close>

definition heading_texts :: "display_env \<Rightarrow> bool \<Rightarrow> nat \<Rightarrow> event_metrics \<Rightarrow> string list" where
  "heading_texts V has_filepath rec_total st =
     (if has_filepath then [''Evtx File Path: '' @ em_filepath st] else []) @
     [[CHR 0x0A, CHR 0x0A] @ ''Total Event Records: '' @ de_number V rec_total @ [CHR 0x0A]] @
     (case em_start st of Some t \<Rightarrow> [''First Timestamp: '' @ de_format_time V t] | None \<Rightarrow> []) @
     (case em_end st of Some t \<Rightarrow> [''Last Timestamp: '' @ de_format_time V t @ [CHR 0x0A]] | None \<Rightarrow> [])"

fun cut_colon :: "string \<Rightarrow> string \<times> string" where
  "cut_colon [] = ([], [])"
| "cut_colon (c # cs) = (if c = CHR '':'' then ([], cs) else map_prod ((#) c) id (cut_colon cs))"

definition heading_effects :: "display_env \<Rightarrow> string \<Rightarrow> effect list" where
  "heading_effects V s =
     (case cut_colon s of (a, b) \<Rightarrow>
        [Printed (write_color_buffer (green_of V) a False), printed_line None ('': '' @ b)])"

subsection \<open>Tables\<close>

abbreviation table_row :: "string list \<Rightarrow> (string \<times> rgb option) list" where
  "table_row r \<equiv> map (\<lambda>c. (c, None)) r"

definition drawn_table :: "string list \<Rightarrow> string list list \<Rightarrow> effect" where
  "drawn_table header rows = Printed [Table (map table_row (header # rows)), Newline]"

definition create_csv :: "display_env \<Rightarrow> string \<Rightarrow> step" where
  "create_csv V path =
     (case de_create_error V path of
        Some err \<Rightarrow> Stop [Alert (''Failed to open file. '' @ err)]
      | None \<Rightarrow> Go [])"

definition stats_header :: "string list" where
  "stats_header = [''Total'', ''%'', ''Channel'', ''ID'', ''Event'']"

definition tm_stats_dsp_msg ::
  "display_env \<Rightarrow> event_titles \<Rightarrow> action option \<Rightarrow> nat \<Rightarrow> event_metrics \<Rightarrow> step" where
  "tm_stats_dsp_msg V titles act rec_total st =
     (case act of
        Some (CmdEidMetrics opt) \<Rightarrow>
          (let rows = tm_stats_set_msg (de_percent V) (de_channel_abbr V) (\<lambda>(c, i). get_event_id titles c i) st;
               heading = concat (map (heading_effects V)
                 (heading_texts V (in_filepath (em_input_args opt) \<noteq> None) rec_total st))
           in case em_output opt of
                Some path \<Rightarrow> and_then (create_csv V path) (Go (heading @ [Csv_File path (stats_header # rows)]))
              | None \<Rightarrow> Go (heading @ [drawn_table stats_header rows]))
      | _ \<Rightarrow> Go [])"

text \<open>The columns on the terminal are six of the ten in the file.\<close>

definition logon_header :: "string \<Rightarrow> string list" where
  "logon_header logon_res = [make_ascii_titlecase logon_res, ''Event'', ''Target Account'', ''Target Domain'',
     ''Target Computer'', ''Logon Type'', ''Source Account'', ''Source Domain'', ''Source Computer'',
     ''Source IP Address'']"

definition six_columns :: "string list \<Rightarrow> string list" where
  "six_columns r = map ((!) r) [0, 1, 2, 4, 8, 9]"

definition logon_file_name :: "string \<Rightarrow> string \<Rightarrow> string" where
  "logon_file_name path logon_res = path @ ''-'' @ logon_res @ ''.csv''"

definition tm_loginstats_tb_dsp_msg :: "display_env \<Rightarrow> string \<Rightarrow> string option \<Rightarrow> event_metrics \<Rightarrow> step" where
  "tm_loginstats_tb_dsp_msg V logon_res out st =
     (let header = logon_header logon_res;
          rows = login_rows (logon_res = ''failed'') (em_logins st);
          none_found = [Printed [Put None ('' No logon '' @ logon_res @ '' events were detected.''), Newline]]
      in case out of
           Some path \<Rightarrow>
             and_then (create_csv V (logon_file_name path logon_res))
               (Go ((if rows = [] then none_found else []) @ [Csv_File (logon_file_name path logon_res) (header # rows)]))
         | None \<Rightarrow>
             Go ([printed_line (green_of V) (make_ascii_titlecase logon_res @ '' Logons:''), Printed [Put None []]] @
                 (if rows = [] then none_found
                  else [drawn_table (six_columns header) (map six_columns rows)])))"

definition tm_loginstats_tb_set_msg :: "display_env \<Rightarrow> string option \<Rightarrow> event_metrics \<Rightarrow> step" where
  "tm_loginstats_tb_set_msg V out st =
     step_after
       (if out = None then [printed_line (green_of V) ''Logon Summary:'', Printed [Put None []]] else [])
       (if em_logins st = [] then
          Go (map (\<lambda>s. Printed [Put None s, Newline])
            [''-----------------------------------------'', ''|     No logon events were detected.    |'',
             ''-----------------------------------------'' @ [CHR 0x0A]])
        else
          and_then (tm_loginstats_tb_dsp_msg V ''successful'' out st)
            (step_after (if out = None then [Printed [Put None [CHR 0x0A, CHR 0x0A], Newline]] else [])
              (tm_loginstats_tb_dsp_msg V ''failed'' out st)))"

definition tm_logon_stats_dsp_msg :: "display_env \<Rightarrow> action option \<Rightarrow> nat \<Rightarrow> event_metrics \<Rightarrow> step" where
  "tm_logon_stats_dsp_msg V act rec_total st =
     (case act of
        Some (CmdLogonSummary opt) \<Rightarrow>
          step_after (concat (map (heading_effects V)
              (heading_texts V (in_filepath (ls_input_args opt) \<noteq> None) rec_total st)))
            (tm_loginstats_tb_set_msg V (ls_output opt) st)
      | _ \<Rightarrow> Go [])"

definition computer_header :: "string list" where
  "computer_header = [''Computer'', ''OS information'', ''UpTime'', ''Timezone'', ''Events'']"

definition computer_metrics_table :: "env \<Rightarrow> display_env \<Rightarrow> (string \<times> computer_stat) list \<Rightarrow> string option \<Rightarrow> step" where
  "computer_metrics_table E V result_list out =
     (case out of
        Some path \<Rightarrow>
          and_then (create_csv V path) (Go [Csv_File path (computer_header # computer_rows E show_nat result_list)])
      | None \<Rightarrow>
          Go [if result_list = [] then Printed [Table [], Newline]
              else drawn_table computer_header (computer_rows E (de_number V) result_list)])"

definition computer_metrics_dsp_msg :: "env \<Rightarrow> display_env \<Rightarrow> action option \<Rightarrow> event_metrics \<Rightarrow> step" where
  "computer_metrics_dsp_msg E V act st =
     (case act of
        Some (CmdComputerMetrics opt) \<Rightarrow>
          (if em_computers st = [] then
             Go [printed_line (Some (238, 102, 97)) ([CHR 0x0A, CHR 0x0A] @ ''No matches found.'')]
           else
             step_after [Printed [Newline]]
               (and_then (computer_metrics_table E V (em_computers st) (cm_output opt))
                 (Go [Printed (write_color_buffer (green_of V) ''Total computers: '' False),
                      printed_line None (de_number V (length (em_computers st)))])))
      | _ \<Rightarrow> Go [])"

definition log_metrics_header :: "string list" where
  "log_metrics_header = [''Filename'', ''Computers'', ''Events'', ''First Timestamp'', ''Last Timestamp'', ''Channels'',
     ''Providers'', ''Size'']"

text \<open>A file that cannot be created is a panic here.\<close>

definition log_metrics_dsp_msg :: "metrics_config \<Rightarrow> display_env \<Rightarrow> action option \<Rightarrow> event_metrics \<Rightarrow> step" where
  "log_metrics_dsp_msg mc V act st =
     (case act of
        Some (CmdLogMetrics opt) \<Rightarrow>
          (let logs = sort_key (\<lambda>l. - int (lm_event_count l)) (em_logfiles st);
               row = (\<lambda>sep. create_record_array mc (de_format_time V) (de_channel_abbr V) (de_provider_abbr V)
                 (de_number V) (lm_multiline opt) (lm_tab_separator opt) sep)
           in case lm_output opt of
                Some path \<Rightarrow>
                  (if de_create_error V path \<noteq> None then Fail []
                   else Go [Csv_File path (log_metrics_header # option_list (map (row ('' '' @ [CHR 0xC2, CHR 0xA6])) logs))])
              | None \<Rightarrow>
                  (if logs = [] then Go [Printed [Put None ''No matches found.'', Newline]]
                   else Go [drawn_table log_metrics_header (option_list (map (row [CHR 0x0A]) logs))]))
      | _ \<Rightarrow> Go [])"


definition extract_base64_dsp_msg :: "display_env \<Rightarrow> bool \<Rightarrow> bool \<Rightarrow> string option \<Rightarrow> string list list \<Rightarrow> step" where
  "extract_base64_dsp_msg V verbose quiet_e out records =
     (if records = [] then Go [printed_line (get_writable_color (Some amber) (de_no_color V)) ''No matches found.'', Printed [Newline]]
      else (case out of
              Some path \<Rightarrow>
                Go (case de_create_error V path of
                      Some err \<Rightarrow>
                        (let errmsg = ''Failed to output extracted base64 records. '' @ err
                         in (if verbose then [Alert errmsg] else []) @
                            (if quiet_e then [] else [Log_Error (''[ERROR] '' @ errmsg)]))
                    | None \<Rightarrow> [Csv_File path (output_all True records)])
            | None \<Rightarrow> Go [Printed [Table (map table_row (output_all False records)), Newline]]))"

text \<open>The file is opened for appending and made if it is not there; the findings are those of \<open>Search\<close>.\<close>

definition result_writer_new :: "display_env \<Rightarrow> search_args \<Rightarrow> step" where
  "result_writer_new V opt = (case sa_output opt of Some path \<Rightarrow> create_csv V path | None \<Rightarrow> Go [])"

definition search_dsp_msg :: "display_env \<Rightarrow> search_config \<Rightarrow> action option \<Rightarrow> event_search \<Rightarrow> step" where
  "search_dsp_msg V sc act es =
     (case act of
        Some (CmdSearch opt) \<Rightarrow>
          and_then (result_writer_new V opt)
            (Go [Search_Results (sa_output opt) (search_result_dsp_msg (de_number V) sc (search_option_of opt) es)])
      | _ \<Rightarrow> Go [])"

subsection \<open>Critical systems\<close>

fun computer_type_str :: "computer_type \<Rightarrow> string" where
  "computer_type_str DomainController = ''Domain Controllers''"
| "computer_type_str FileServer = ''File Servers''"

fun computer_type_debug :: "computer_type \<Rightarrow> string" where
  "computer_type_debug DomainController = ''DomainController''"
| "computer_type_debug FileServer = ''FileServer''"

definition critical_systems_file :: string where
  "critical_systems_file = ''config/critical_systems.txt''"

definition sort_and_dedup_file :: "string \<Rightarrow> string" where
  "sort_and_dedup_file s = unlines (sort_and_dedup_lines (lines s))"

definition add_critical :: "string list \<Rightarrow> string \<Rightarrow> string" where
  "add_critical names s = sort_and_dedup_file (s @ unlines names)"

text \<open>The question is answered yes or no, or cannot be asked; the text of the file is passed on.\<close>

fun output_computers ::
  "display_env \<Rightarrow> (computer_type \<Rightarrow> bool option) \<Rightarrow> string \<Rightarrow> (computer_type \<times> string list) list \<Rightarrow>
   computer_type list \<Rightarrow> string \<Rightarrow> step" where
  "output_computers V confirm path m [] s = Go []"
| "output_computers V confirm path m (t # ts) s =
     (case map_of m t of
        None \<Rightarrow>
          step_after [printed_line (get_writable_color (Some (215, 0, 0)) (de_no_color V)) (''No '' @ computer_type_debug t @ '' found.''),
              Printed [Newline]]
            (output_computers V confirm path m ts s)
      | Some names \<Rightarrow>
          step_after ([printed_line (green_of V) (computer_type_str t @ '' found ('' @ show_nat (length names) @ ''):'')] @
              map (printed_line None) (sort names) @ [Printed [Newline]])
            (case confirm t of
               None \<Rightarrow> Fail []
             | Some False \<Rightarrow> output_computers V confirm path m ts s
             | Some True \<Rightarrow>
                 (if de_create_error V path \<noteq> None then Fail []
                  else (let s' = add_critical (sort names) s in
                    step_after [Write_File path s',
                        printed_line (get_writable_color (Some amber) (de_no_color V)) (''Added to the '' @ critical_systems_file @ '' file.''),
                        Printed [Newline]]
                      (output_computers V confirm path m ts s')))))"

definition config_critical_systems_dsp_msg ::
  "display_env \<Rightarrow> disk \<Rightarrow> (computer_type \<Rightarrow> bool option) \<Rightarrow> (computer_type \<times> string list) list \<Rightarrow> string \<Rightarrow> step" where
  "config_critical_systems_dsp_msg V D confirm m s =
     output_computers V confirm (beside_exe D critical_systems_file) m [DomainController, FileServer] s"

subsection \<open>The display of a scan\<close>

text \<open>What a scan is shown as: the first of the flags decides; the commands with rules show nothing here.\<close>

definition display_timeline ::
  "env \<Rightarrow> metrics_config \<Rightarrow> search_config \<Rightarrow> display_env \<Rightarrow> stored_static \<Rightarrow> disk \<Rightarrow>
   (computer_type \<Rightarrow> bool option) \<Rightarrow> string \<Rightarrow> nat \<Rightarrow> timeline \<Rightarrow> step" where
  "display_timeline E mc sc V ss D confirm critical_text rec_total t =
     (let act = ss_config_action ss in
      if ss_metrics_flag ss then tm_stats_dsp_msg V (ss_event_timeline_config ss) act rec_total (tl_stats t)
      else if ss_logon_summary_flag ss then tm_logon_stats_dsp_msg V act rec_total (tl_stats t)
      else if ss_search_flag ss then search_dsp_msg V sc act (tl_search t)
      else if ss_computer_metrics_flag ss then computer_metrics_dsp_msg E V act (tl_stats t)
      else if ss_log_metrics_flag ss then log_metrics_dsp_msg mc V act (tl_stats t)
      else if ss_extract_base64_flag ss then extract_base64_dsp_msg V (ss_verbose_flag ss) (ss_quiet_errors_flag ss) (ss_output_path ss) (tl_base64 t)
      else (case act of
              Some (CmdConfigCriticalSystems _) \<Rightarrow>
                config_critical_systems_dsp_msg V D confirm (tl_critical t) critical_text
            | _ \<Rightarrow> Go []))"

subsection \<open>The files that are written\<close>

text \<open>
  The files of a command's results: the one of the output option, for the logons one for each result. The
  list of pivot keywords has its own.
\<close>

definition result_files :: "action \<Rightarrow> string list" where
  "result_files a =
     (case a of
        CmdLogonSummary opt \<Rightarrow>
          (case ls_output opt of None \<Rightarrow> [] | Some p \<Rightarrow> map (logon_file_name p) [''successful'', ''failed''])
      | CmdPivotKeywordsList _ \<Rightarrow> []
      | _ \<Rightarrow> (case output_path_of (Some a) of None \<Rightarrow> [] | Some p \<Rightarrow> [p]))"

fun written_files :: "effect list \<Rightarrow> string list" where
  "written_files [] = []"
| "written_files (Csv_File p _ # es) = p # written_files es"
| "written_files (Search_Results (Some p) _ # es) = p # written_files es"
| "written_files (Write_File p _ # es) = p # written_files es"
| "written_files (_ # es) = written_files es"

lemma written_files_append [simp]: "written_files (es @ fs) = written_files es @ written_files fs"
  by (induction es rule: written_files.induct) simp_all

lemma written_files_printed [simp]: "written_files (map (\<lambda>x. Printed (f x)) xs) = []"
  by (induction xs) simp_all

lemma step_effects_after [simp]: "step_effects (step_after es s) = es @ step_effects s"
  by (cases s) simp_all

lemma step_effects_and_then: "step_effects (and_then s t) = step_effects s @ (case s of Go _ \<Rightarrow> step_effects t | _ \<Rightarrow> [])"
  by (cases s) simp_all

lemma written_files_heading [simp]: "written_files (concat (map (heading_effects V) ss)) = []"
  by (induction ss) (simp_all add: heading_effects_def split: prod.split)

lemma written_create_csv [simp]: "written_files (step_effects (create_csv V p)) = []"
  by (simp add: create_csv_def split: option.split)

text \<open>The flags of a run are those of its command.\<close>

definition flags_of_action :: "stored_static \<Rightarrow> bool" where
  "flags_of_action ss \<longleftrightarrow>
     (let n = action_to_usize (ss_config_action ss) in
      ss_metrics_flag ss = (n = 3) \<and> ss_logon_summary_flag ss = (n = 2) \<and> ss_search_flag ss = (n = 10) \<and>
      ss_computer_metrics_flag ss = (n = 11) \<and> ss_log_metrics_flag ss = (n = 12) \<and>
      ss_extract_base64_flag ss = (n = 13) \<and> ss_output_path ss = output_path_of (ss_config_action ss))"

lemma create_static_data_flags:
  assumes "create_static_data S act = Ok (ss, geo)"
  shows "flags_of_action ss \<and> ss_config_action ss = act \<and> ss_output_option ss = extract_output_options act"
proof -
  obtain general channels providers profiles where "ss = static_data S act general channels providers profiles"
    using assms by (auto simp: create_static_data_def or_panic_def Let_def split: sum.splits outcome.splits option.splits)
  then show ?thesis by (simp add: flags_of_action_def static_data_def Let_def)
qed

lemma written_logon_table:
  "set (written_files (step_effects (tm_loginstats_tb_dsp_msg V r out st))) \<subseteq> (case out of None \<Rightarrow> {} | Some p \<Rightarrow> {logon_file_name p r})"
  by (auto simp: tm_loginstats_tb_dsp_msg_def Let_def drawn_table_def step_effects_and_then split: option.splits step.splits if_splits)

lemma written_logon:
  "set (written_files (step_effects (tm_loginstats_tb_set_msg V out st))) \<subseteq>
     (case out of None \<Rightarrow> {} | Some p \<Rightarrow> {logon_file_name p ''successful'', logon_file_name p ''failed''})"
  using written_logon_table [of V "''successful''" out st] written_logon_table [of V "''failed''" out st]
  by (cases "tm_loginstats_tb_dsp_msg V ''successful'' out st")
    (auto simp: tm_loginstats_tb_set_msg_def step_effects_and_then split: option.splits)

text \<open>
  A command that counts writes no file but those of its results: the file of its output option, or the
  two files of the logons, whatever was counted and whatever cannot be opened.
\<close>

theorem display_writes_result_files:
  assumes "flags_of_action ss" and "ss_config_action ss = Some a" and "scan_action_of a \<noteq> Some ConfigCriticalSystems"
  shows "set (written_files (step_effects (display_timeline E mc sc V ss D confirm critical_text n t))) \<subseteq> set (result_files a)"
proof -
  have fl: "ss_metrics_flag ss = (action_to_usize (Some a) = 3)" "ss_logon_summary_flag ss = (action_to_usize (Some a) = 2)"
    "ss_search_flag ss = (action_to_usize (Some a) = 10)" "ss_computer_metrics_flag ss = (action_to_usize (Some a) = 11)"
    "ss_log_metrics_flag ss = (action_to_usize (Some a) = 12)" "ss_extract_base64_flag ss = (action_to_usize (Some a) = 13)"
    "ss_output_path ss = output_path_of (Some a)"
    using assms(1,2) by (simp_all add: flags_of_action_def Let_def)
  show ?thesis
  proof (cases a)
    case (CmdLogonSummary opt)
    with written_logon [of V "ls_output opt" "tl_stats t"] show ?thesis
      by (auto simp: display_timeline_def fl assms(2) action_to_usize_def tm_logon_stats_dsp_msg_def result_files_def
          split: option.splits)
  next
    case (CmdEidMetrics opt)
    then show ?thesis
      by (auto simp: display_timeline_def fl assms(2) action_to_usize_def tm_stats_dsp_msg_def result_files_def Let_def
          output_path_of_def drawn_table_def step_effects_and_then split: option.splits step.splits)
  next
    case (CmdSearch opt)
    then show ?thesis
      by (auto simp: display_timeline_def fl assms(2) action_to_usize_def search_dsp_msg_def result_writer_new_def
          result_files_def output_path_of_def step_effects_and_then split: option.splits step.splits)
  next
    case (CmdComputerMetrics opt)
    then show ?thesis
      by (auto simp: display_timeline_def fl assms(2) action_to_usize_def computer_metrics_dsp_msg_def
          computer_metrics_table_def result_files_def output_path_of_def drawn_table_def step_effects_and_then
          split: option.splits step.splits if_splits)
  next
    case (CmdLogMetrics opt)
    then show ?thesis
      by (auto simp: display_timeline_def fl assms(2) action_to_usize_def log_metrics_dsp_msg_def Let_def
          result_files_def output_path_of_def drawn_table_def split: option.splits if_splits)
  next
    case (CmdExtractBase64 opt)
    then show ?thesis
      by (auto simp: display_timeline_def fl assms(2) action_to_usize_def extract_base64_dsp_msg_def Let_def
          result_files_def output_path_of_def split: option.splits if_splits)
  qed (use assms(3) in \<open>simp_all add: display_timeline_def fl assms(2) action_to_usize_def scan_action_of_def\<close>)
qed

theorem display_writes_result_files_witness:
  "set (written_files (step_effects (display_timeline env0 mc sc V
     (static_data S (Some (CmdComputerMetrics sample_metrics)) [] [] [] None) D confirm [] 0 timeline_new))) \<subseteq> {''out.csv''}"
proof -
  let ?ss = "static_data S (Some (CmdComputerMetrics sample_metrics)) [] [] [] None"
  have "flags_of_action ?ss" "ss_config_action ?ss = Some (CmdComputerMetrics sample_metrics)"
    by (simp_all add: flags_of_action_def static_data_def Let_def)
  from display_writes_result_files [OF this] show ?thesis
    by (simp add: scan_action_of_def result_files_def output_path_of_def sample_metrics_def)
qed

subsection \<open>Critical systems are added\<close>

lemma split_char_mid: "split_char c (u @ c # v) = split_char c u @ split_char c v"
proof (induction u)
  case (Cons d u)
  then show ?case by (cases "split_char c u") auto
qed simp

lemma split_char_unlines:
  "\<forall>n \<in> set ns. CHR 0x0A \<notin> set n \<Longrightarrow> split_char (CHR 0x0A) (unlines ns) = ns @ [[]]"
  by (induction ns) (simp_all add: split_char_append)

text \<open>After the names were added the file holds its old lines and the names, in order and each once.\<close>

lemma critical_added:
  assumes "s = [] \<or> last s = CHR 0x0A" and "\<forall>n \<in> set names. CHR 0x0A \<notin> set n \<and> \<not> ends_with n [CHR 0x0D]"
  shows "add_critical names s = unlines (sort (remdups (lines s @ names)))"
proof -
  have names: "map strip_cr names = names" using assms(2) by (auto simp: strip_cr_def intro!: map_idI)
  have no_lf: "\<forall>n \<in> set names. CHR 0x0A \<notin> set n" using assms(2) by blast
  have "lines (s @ unlines names) = lines s @ names"
  proof (cases "s = []")
    case True
    then show ?thesis by (simp add: lines_def Let_def split_char_unlines [OF no_lf] names)
  next
    case False
    with assms(1) obtain u where s: "s = u @ [CHR 0x0A]" by (metis append_butlast_last_id)
    then have "split_char (CHR 0x0A) s = split_char (CHR 0x0A) u @ [[]]"
      by (simp add: split_char_mid)
    moreover have "split_char (CHR 0x0A) (s @ unlines names) = split_char (CHR 0x0A) u @ names @ [[]]"
      by (simp add: s split_char_mid split_char_unlines [OF no_lf])
    ultimately show ?thesis by (simp add: lines_def Let_def butlast_append names)
  qed
  then show ?thesis by (simp add: add_critical_def sort_and_dedup_file_def sort_and_dedup_lines_def)
qed

text \<open>Where the last line of the file has no line feed, the first name is glued to it and both are lost.\<close>

lemma name_glued_to_last_line: "add_critical [''DC2''] ''DC1'' = ''DC1DC2'' @ [CHR 0x0A]"
  by code_simp
end
