(* ===== verification/Command.thy ===== *)
theory Command
  imports Timeline_Output Html_Report
begin

section \<open>The program (main.rs)\<close>

text \<open>
  From the arguments to the end of the program: the checks before a scan, what each command does around
  it, and the messages. A scan is one effect here; what happens inside is in \<open>Scan\<close> and the theories
  after it. The file system before the run is the \<open>disk\<close>; what is asked, drawn by lot, fetched or found
  by the scan are fields of the environment. On Windows a guard for the file system is held as long as
  the program runs; it is left out.
\<close>

record command_env =
  ce_static :: static_env
  ce_calendar :: calendar
  ce_args :: nat
  ce_command_line :: string
  ce_start :: string
  ce_date :: string
  ce_elapsed :: string
  ce_logo :: string
  ce_art :: "string \<Rightarrow> string"
  ce_contributors :: string
  ce_choose :: "string list \<Rightarrow> string option"
  ce_file_len :: "string \<Rightarrow> nat option"
  ce_size_after :: "string \<Rightarrow> string option"
  ce_erase :: "bool option"
  ce_matched :: "json list"
  ce_create_error :: "string \<Rightarrow> string option"
  ce_latest :: "string option"
  ce_version :: string
  ce_get_rules :: "string option"
  ce_get_config :: "string option"
  ce_update :: update_env
  ce_git_debug :: "string \<Rightarrow> string"
  ce_tune :: "string \<Rightarrow> string \<Rightarrow> (string, unit) outcome"
  ce_dump :: "yaml \<Rightarrow> string + string"
  ce_read_only :: "string \<Rightarrow> bool"
  ce_expand :: "string \<Rightarrow> string list"
  ce_errors :: bool
  ce_profile_name :: string

abbreviation ce_disk :: "command_env \<Rightarrow> disk" where
  "ce_disk X \<equiv> se_disk (ce_static X)"

abbreviation ss_no_color :: "stored_static \<Rightarrow> bool" where
  "ss_no_color ss \<equiv> co_no_color (ss_common_options ss)"

abbreviation ss_quiet :: "stored_static \<Rightarrow> bool" where
  "ss_quiet ss \<equiv> co_quiet (ss_common_options ss)"

abbreviation colored :: "stored_static \<Rightarrow> rgb \<Rightarrow> rgb option" where
  "colored ss c \<equiv> get_writable_color (Some c) (ss_no_color ss)"

abbreviation blank :: effect where
  "blank \<equiv> Printed [Newline]"

subsection \<open>Messages\<close>

definition output_logo :: "command_env \<Rightarrow> stored_static \<Rightarrow> effect list" where
  "output_logo X ss = [printed_line (if ss_no_color ss then None else Some green) (ce_logo X)]"

definition eggs :: "(string \<times> string \<times> rgb) list" where
  "eggs = [(''01/01'', ''happynewyear.txt'', 255, 0, 0), (''02/22'', ''ninja.txt'', 0, 171, 240),
     (''05/09'', ''goku.txt'', 243, 156, 22), (''08/08'', ''takoyaki.txt'', 181, 101, 29),
     (''10/31'', ''halloween.txt'', 255, 87, 51), (''12/24'', ''christmas.txt'', 0, 255, 0),
     (''12/25'', ''christmas.txt'', 0, 255, 0)]"

definition output_eggs :: "command_env \<Rightarrow> effect list" where
  "output_eggs X =
     (case map_of eggs (ce_date X) of
        None \<Rightarrow> []
      | Some (path, color) \<Rightarrow> [printed_line (Some color) (ce_art X path)])"

definition random_message :: "command_env \<Rightarrow> stored_static \<Rightarrow> string list \<Rightarrow> effect list" where
  "random_message X ss ls =
     (case ce_choose X ls of None \<Rightarrow> [] | Some l \<Rightarrow> [printed_line (colored ss amber) l, blank])"

definition output_open_close_message :: "command_env \<Rightarrow> stored_static \<Rightarrow> string \<Rightarrow> effect list" where
  "output_open_close_message X ss file_path =
     (if ss_quiet ss then []
      else
        (let D = ce_disk X; f = beside_exe D (''rules/config/'' @ file_path) in
         if dk_exists D f then
           (case dk_lines D f of
              None \<Rightarrow> []
            | Some ls \<Rightarrow>
                (case those (map (\<lambda>l. case l of Inr s \<Rightarrow> Some s | Inl _ \<Rightarrow> None) ls) of
                   None \<Rightarrow> []
                 | Some ss' \<Rightarrow> random_message X ss ss' @ [Printed [Put None []]]))
         else
           (case map_of (dk_bundle D) file_path of
              None \<Rightarrow> []
            | Some contents \<Rightarrow> random_message X ss (lines contents)) @ [Printed [Put None []]]))"

definition check_is_valid_args_num :: "command_env \<Rightarrow> action \<Rightarrow> bool" where
  "check_is_valid_args_num X a =
     (case a of
        CmdCsvTimeline _ \<Rightarrow> ce_args X \<noteq> 2 | CmdJsonTimeline _ \<Rightarrow> ce_args X \<noteq> 2 | CmdLogonSummary _ \<Rightarrow> ce_args X \<noteq> 2
      | CmdEidMetrics _ \<Rightarrow> ce_args X \<noteq> 2 | CmdPivotKeywordsList _ \<Rightarrow> ce_args X \<noteq> 2
      | CmdSetDefaultProfile _ \<Rightarrow> ce_args X \<noteq> 2 | CmdSearch _ \<Rightarrow> ce_args X \<noteq> 2
      | CmdComputerMetrics _ \<Rightarrow> ce_args X \<noteq> 2
      | _ \<Rightarrow> True)"

definition report_line :: "stored_static \<Rightarrow> string \<Rightarrow> effect list" where
  "report_line ss s = (if ss_html_report_flag ss then [Report_Line general_overview (''- '' @ s)] else [])"

definition output_saved_file :: "command_env \<Rightarrow> stored_static \<Rightarrow> string option \<Rightarrow> string \<Rightarrow> effect list" where
  "output_saved_file X ss output_path message =
     (case Option.bind output_path (\<lambda>p. map_option (Pair p) (ce_size_after X p)) of
        None \<Rightarrow> []
      | Some (path, sz) \<Rightarrow>
          (let file_str = '' '' @ path @ '' ('' @ sz @ '')'' in
           [Printed (write_color_buffer (colored ss green) (message @ '':'') False), printed_line None file_str, blank] @
           report_line ss (message @ '': '' @ file_str)))"

text \<open>The name of the profile goes to the terminal or into the report, depending on \<open>stdout\<close>.\<close>

definition default_profile_name :: "command_env \<Rightarrow> string" where
  "default_profile_name X =
     (case se_texts (ce_static X) (beside_exe (ce_disk X) ''config/default_profile_name.txt'') of
        Some name \<Rightarrow> trim name
      | None \<Rightarrow> ce_profile_name X)"

definition output_profile_name :: "command_env \<Rightarrow> stored_static \<Rightarrow> bool \<Rightarrow> effect list" where
  "output_profile_name X ss stdout =
     (case ss_output_option ss of
        None \<Rightarrow> []
      | Some oa \<Rightarrow>
          (let profile_name = unwrap_or (default_profile_name X) (oa_profile oa) in
           if stdout then
             [Printed (write_color_buffer (colored ss green) ''Output profile: '' False), printed_line None profile_name]
           else if oa_html_report oa \<noteq> None then [Report_Line general_overview (''- Output profile: '' @ profile_name)]
           else []))"

subsection \<open>Before the command\<close>

definition both_rules :: "command_env \<Rightarrow> bool" where
  "both_rules X \<longleftrightarrow> dk_exists (ce_disk X) ''encoded_rules.yml'' \<and> dk_exists (ce_disk X) ''rules''"

definition used_config_path :: "command_env \<Rightarrow> stored_static \<Rightarrow> string" where
  "used_config_path X ss =
     (if path_eq (ss_config_path ss) ''./rules/config'' then beside_exe (ce_disk X) ''rules/config'' else ss_config_path ss)"

definition greeting :: "command_env \<Rightarrow> stored_static \<Rightarrow> effect list" where
  "greeting X ss = (if ss_quiet ss then [] else output_logo X ss @ [printed_line None []])"

definition exec_arguments :: "command_env \<Rightarrow> stored_static \<Rightarrow> step" where
  "exec_arguments X ss =
     (let report = (if ss_html_report_flag ss
            then [Report_Line general_overview (''- Command line: '' @ ce_command_line X),
                  Report_Line general_overview (''- Start time: '' @ ce_start X)] else [])
      in if ss_profiles ss = None then Stop []
         else step_after report
           (case ss_config_action ss of
              None \<Rightarrow> Stop (greeting X ss @ [Help_Text [], blank])
            | Some a \<Rightarrow>
                (if \<not> check_is_valid_args_num X a
                 then Stop (greeting X ss @ [Help_Text (get_action_name (Some a)), blank])
                 else Go (if ss_quiet ss then [] else greeting X ss @ output_eggs X))))"

definition exec_environment :: "command_env \<Rightarrow> stored_static \<Rightarrow> step" where
  "exec_environment X ss =
     (if both_rules X
      then Stop [Printed [Put None ''You have the rules directory and encoded_rules.yml in your path. Please delete one of them.'',
                 Newline], blank]
      else if \<not> parse_success_flag (target_event_time_new (ce_calendar X) (ss_time_offset ss) (time_action_of (ss_config_action ss)))
      then Stop []
      else
        step_after (output_open_close_message X ss ''opening_messages.txt'')
          (case ss_config_action ss of
             Some (CmdListContributors _) \<Rightarrow> Stop [printed_line None (ce_contributors X)]
           | _ \<Rightarrow> Go ((if ss_metrics_flag ss then [printed_line (colored ss amber) ''Generating Event ID Metrics'', blank] else []) @
               (if ss_logon_summary_flag ss then [printed_line (colored ss amber) ''Generating Logon Summary'', blank] else []) @
               (if ss_search_flag ss then [printed_line (colored ss amber) ''Searching...'', blank] else []))))"

definition critical_message :: string where
  "critical_message = join [CHR 0x0A]
     [''This command tries to find critical systems like domain controllers and file servers by checking for logs that should only exist in those systems.'',
      ''It will search for Security 4768 (Kerberos TGT requested) events to determine if it is a domain controller.'',
      ''It will search for Security 5145 (Network Share File Access) events to determine if it is a file server.'',
      ''Any hostnames added to the critical_systems.txt file will have all alerts above low increased by one level with a maximum of emergency level.'']"

text \<open>The file of the critical systems is made if it is not there; one that is not empty may be erased.\<close>

definition exec_critical :: "command_env \<Rightarrow> stored_static \<Rightarrow> step" where
  "exec_critical X ss =
     (case ss_config_action ss of
        Some (CmdConfigCriticalSystems _) \<Rightarrow>
          (let D = ce_disk X; conf = path_join (dk_exe D) ''config''; config_path = path_join conf ''critical_systems.txt'' in
           step_after
             ([printed_line (colored ss amber) critical_message, blank] @
              (if dk_exists D conf then [] else [Make_Dir conf]) @
              (if dk_exists D config_path then [] else [Write_File config_path []]))
             (if dk_exists D config_path \<and> (case ce_file_len X config_path of Some n \<Rightarrow> n > 0 | None \<Rightarrow> False) then
                (case ce_erase X of
                   None \<Rightarrow> Fail []
                 | Some True \<Rightarrow>
                     (if ce_create_error X config_path \<noteq> None then Fail [] else Go [Write_File config_path [], blank])
                 | Some False \<Rightarrow> Go [blank])
              else Go []))
      | _ \<Rightarrow> Go [])"

definition exec_start :: "command_env \<Rightarrow> stored_static \<Rightarrow> step" where
  "exec_start X ss =
     and_then (exec_arguments X ss)
       (and_then (exec_environment X ss)
         (and_then (exec_critical X ss)
           (Go [Printed (write_color_buffer (colored ss green) ''Start time: '' False),
                Printed (write_color_buffer None (ce_start X @ [CHR 0x0A]) False)])))"


subsection \<open>Commands with results\<close>

definition exists_text :: "string \<Rightarrow> string" where
  "exists_text p = '' The file '' @ p @
     '' already exists. Please specify a different filename or add the -C, --clobber option to overwrite.'' @ [CHR 0x0A]"

definition base_exists_text :: "string \<Rightarrow> string" where
  "base_exists_text p = '' The files with a base name of '' @ p @
     '' already exist. Please specify a different base filename or add the -C, --clobber option to overwrite.'' @ [CHR 0x0A]"

text \<open>\<open>guard_file\<close>: a file that exists ends the command unless it may be overwritten.\<close>

definition guard_file :: "command_env \<Rightarrow> bool \<Rightarrow> string \<Rightarrow> string \<Rightarrow> step" where
  "guard_file X clobber path message =
     (if \<not> clobber \<and> check_file_expect_not_exist (ce_disk X) path then Stop [Alert message] else Go [])"

definition guard_output :: "command_env \<Rightarrow> output_args \<Rightarrow> string option \<Rightarrow> step" where
  "guard_output X oa out =
     (case out of None \<Rightarrow> Go [] | Some path \<Rightarrow> guard_file X (oa_clobber oa) path (exists_text path))"

definition timeline_guards :: "command_env \<Rightarrow> stored_static \<Rightarrow> output_args \<Rightarrow> step" where
  "timeline_guards X ss oa =
     (case check_rule_config (ce_disk X) (used_config_path X ss) of
        Inl e \<Rightarrow> Stop [Alert e]
      | Inr _ \<Rightarrow>
          (if ss_profiles ss = None then Stop []
           else
             and_then (guard_output X oa (oa_html_report oa))
               (and_then (guard_output X oa (ss_output_path ss))
                 (if ss_json_input_flag ss \<and> (ss_scan_all_evtx_files ss \<or> ss_enable_all_rules ss)
                  then Stop [Alert (''It is not necessary to specify -A (--enable-all-rules) or -a (--scan-all-evtx-files) with -J '' @
                         ''(--JSON-input) because the default channel filter only works with EVTX files.''), blank]
                  else Go []))))"

text \<open>Where the rules are read: those of the default option come from beside the program.\<close>

definition timeline_rules :: "command_env \<Rightarrow> output_args \<Rightarrow> string" where
  "timeline_rules X oa =
     (if path_eq (oa_rules oa) ''./rules'' then
        (if dk_exists (ce_disk X) ''./encoded_rules.yml'' then beside_exe (ce_disk X) ''encoded_rules.yml''
         else beside_exe (ce_disk X) ''rules'')
      else oa_rules oa)"

definition pivot_rules :: "command_env \<Rightarrow> output_args \<Rightarrow> string" where
  "pivot_rules X oa =
     (if dk_exists (ce_disk X) ''./encoded_rules.yml'' then beside_exe (ce_disk X) ''encoded_rules.yml'' else oa_rules oa)"

definition exec_timeline :: "command_env \<Rightarrow> stored_static \<Rightarrow> step" where
  "exec_timeline X ss =
     (case ss_output_option ss of
        None \<Rightarrow> Fail []
      | Some oa \<Rightarrow>
          and_then (timeline_guards X ss oa)
            (Go (Rules_Path (timeline_rules X oa) # Run_Scan # output_profile_name X ss False @
               output_saved_file X ss (ss_output_path ss) ''Saved file'')))"

definition exec_counting :: "command_env \<Rightarrow> stored_static \<Rightarrow> step" where
  "exec_counting X ss =
     (case (ss_output_path ss, ss_output_option ss) of
        (Some path, None) \<Rightarrow> Fail []
      | (out, oa) \<Rightarrow>
          and_then (case oa of Some oa \<Rightarrow> guard_output X oa out | None \<Rightarrow> Go [])
            (Go (Run_Scan # output_saved_file X ss out ''Saved results'')))"

definition exec_logon_summary :: "command_env \<Rightarrow> stored_static \<Rightarrow> step" where
  "exec_logon_summary X ss =
     (case (ss_output_path ss, ss_output_option ss) of
        (None, _) \<Rightarrow> Go [Run_Scan, blank]
      | (Some path, None) \<Rightarrow> Fail []
      | (Some path, Some oa) \<Rightarrow>
          (let target = (\<lambda>r. logon_file_name path r) in
           and_then (guard_file X (oa_clobber oa) (target ''successful'') (base_exists_text path))
             (and_then (guard_file X (oa_clobber oa) (target ''failed'') (base_exists_text path))
               (Go (Run_Scan # output_saved_file X ss (Some (target ''successful'')) ''Successful logon results'' @
                  output_saved_file X ss (Some (target ''failed'')) ''Failed logon results'' @ [blank])))))"

text \<open>Every pivot file that exists is reported before the command ends.\<close>

definition pivot_taken :: "command_env \<Rightarrow> bool \<Rightarrow> string \<Rightarrow> (string \<times> pivot_keyword) list \<Rightarrow> string list" where
  "pivot_taken X clobber path pivots =
     (if clobber then []
      else filter (check_file_expect_not_exist (ce_disk X)) (map (\<lambda>(k, _). pivot_file_name path k) pivots))"

fun write_pivots :: "command_env \<Rightarrow> (string \<times> string) list \<Rightarrow> step" where
  "write_pivots X [] = Go []"
| "write_pivots X ((p, s) # fs) =
     (if ce_create_error X p \<noteq> None then Fail [] else step_after [Write_File p s] (write_pivots X fs))"

text \<open>The keywords of the events that matched, in the order in which they were found.\<close>

definition pivots_found :: "command_env \<Rightarrow> stored_static \<Rightarrow> (string \<times> pivot_keyword) list \<Rightarrow> (string \<times> pivot_keyword) list" where
  "pivots_found X ss pivots =
     fold (insert_pivot_keyword (se_env (ce_static X)) (ss_eventkey_alias ss)) (ce_matched X) pivots"

definition exec_pivot :: "command_env \<Rightarrow> stored_static \<Rightarrow> step" where
  "exec_pivot X ss =
     (case load_pivot_keywords (read_txt (ce_disk X) (beside_exe (ce_disk X) ''rules/config/pivot_keywords.txt'')) [] of
        None \<Rightarrow> Fail []
      | Some pivots \<Rightarrow>
          (case ss_output_option ss of
             None \<Rightarrow> Fail []
           | Some oa \<Rightarrow>
               (let taken = (case ss_output_path ss of Some path \<Rightarrow> pivot_taken X (oa_clobber oa) path pivots | None \<Rightarrow> []) in
                if taken \<noteq> [] then Stop (map (\<lambda>p. Alert (exists_text p)) taken @ [blank])
                else
                  step_after [Rules_Path (pivot_rules X oa), Run_Scan]
                    (let found = pivots_found X ss pivots in
                     case ss_output_path ss of
                       Some path \<Rightarrow>
                         and_then (write_pivots X (pivot_files path found))
                           (Go [blank, blank,
                              printed_line (colored ss green) ''Pivot keyword results were saved to the following files: '',
                              printed_line None (unlines (map (\<lambda>(k, _). pivot_file_name path k) found))])
                     | None \<Rightarrow> Go [Pieces (pivot_console found)]))))"

subsection \<open>Commands around the rules\<close>

definition download :: "command_env \<Rightarrow> stored_static \<Rightarrow> string option \<Rightarrow> string \<Rightarrow> string \<Rightarrow> string \<Rightarrow> step" where
  "download X ss answer path done_text failed_text =
     (case answer of
        None \<Rightarrow> Go [Alert failed_text]
      | Some s \<Rightarrow>
          (if ce_create_error X path \<noteq> None then Fail []
           else Go [Write_File path s, printed_line (colored ss amber) done_text]))"

definition exec_fetch :: "command_env \<Rightarrow> stored_static \<Rightarrow> string \<Rightarrow> step" where
  "exec_fetch X ss rule_path =
     (if dk_exists (ce_disk X) (beside_exe (ce_disk X) ''encoded_rules.yml'') then
        and_then (download X ss (ce_get_rules X) ''./encoded_rules.yml''
            ''Rules file encoded_rules.yml updated successfully.'' ''Failed to update rules.'')
          (if dk_bundle (ce_disk X) \<noteq> [] then
             download X ss (ce_get_config X) ''./rules_config_files.txt''
               ''Config file rules_config_files.txt updated successfully.'' ''Failed to update config file.''
           else Go [])
      else
        (case update_rules (ce_update X) rule_path (ss_no_color ss) of
           (es, Panic) \<Rightarrow> Fail es
         | (es, Ok out) \<Rightarrow>
             Go (es @ (if out \<noteq> ''You currently have the latest rules.''
                then [printed_line (colored ss amber) ''Rules updated successfully.''] else []))
         | (es, Err e) \<Rightarrow>
             Go (es @ [Alert (if e = [] then ''Failed to update rules.''
                else ''Failed to update rules. '' @ ce_git_debug X e @ ''  '')])))"

definition closing :: "command_env \<Rightarrow> stored_static \<Rightarrow> step" where
  "closing X ss = Stop (output_open_close_message X ss ''closing_messages.txt'')"

definition exec_update :: "command_env \<Rightarrow> stored_static \<Rightarrow> update_option \<Rightarrow> step" where
  "exec_update X ss opt =
     step_after [blank]
       (and_then (exec_fetch X ss (up_rules opt))
         (case new_version_message (ce_version X) (ce_latest X) (ss_no_color ss) of
            None \<Rightarrow> Fail []
          | Some es \<Rightarrow> step_after (es @ [blank]) (closing X ss)))"

text \<open>
  The file of the new levels: the one that is named if it exists, or else the one beside the program. The
  levels are those of the rules in \<open>./rules\<close>.
\<close>

definition path_parent :: "string \<Rightarrow> string" where
  "path_parent p =
     (case butlast (path_components p) of
        [] \<Rightarrow> []
      | c # cs \<Rightarrow> if c = ''/'' then ''/'' @ join ''/'' cs else join ''/'' (c # cs))"

definition level_tuning_path :: "command_env \<Rightarrow> stored_static \<Rightarrow> string \<Rightarrow> string option" where
  "level_tuning_path X ss path =
     (let D = ce_disk X; fallback = beside_exe D ''rules/config/level_tuning.txt'' in
      if path \<noteq> ''./rules/config/level_tuning.txt'' then
        map_option (\<lambda>name. unwrap_or fallback (check_setting_path D (path_parent path) name False)) (file_name path)
      else Some (unwrap_or fallback (check_setting_path D (used_config_path X ss) ''level_tuning.txt'' False)))"

definition exec_level_tuning :: "command_env \<Rightarrow> stored_static \<Rightarrow> level_tuning_option \<Rightarrow> step" where
  "exec_level_tuning X ss opt =
     (case level_tuning_path X ss (lt_level_tuning opt) of
        None \<Rightarrow> Fail []
      | Some path \<Rightarrow>
          (if dk_exists (ce_disk X) path then
             (case ce_tune X path (case ss_output_option ss of Some oa \<Rightarrow> oa_rules oa | None \<Rightarrow> ''./rules'') of
                Panic \<Rightarrow> Fail []
              | Err e \<Rightarrow> step_after [Tuned_Levels, Alert e] (closing X ss)
              | Ok _ \<Rightarrow> step_after [Tuned_Levels] (closing X ss))
           else step_after [Alert ''Need rule_levels.txt file to use --level-tuning option [default: ./rules/config/level_tuning.txt]'']
                  (closing X ss)))"

text \<open>What setting the profile prints itself: that the profiles cannot be read, or that the name of the profile was stored.\<close>

definition set_profile_messages ::
  "command_env \<Rightarrow> string \<Rightarrow> string \<Rightarrow> (string, unit) outcome \<Rightarrow> effect list" where
  "set_profile_messages X default_profile_path profile_path result =
     (let S = ce_static X; name_path = with_file_name default_profile_path ''default_profile_name.txt'' in
      case read_profile_data (se_load S) (se_embedded S) (se_texts S) profile_path of
        Err e \<Rightarrow> [Alert e]
      | _ \<Rightarrow>
          (case result of
             Ok _ \<Rightarrow>
               if se_texts S name_path \<noteq> None \<and> \<not> ce_read_only X name_path
               then [Printed [Put None (''Successfully updated the default profile.'' @ [CHR 0x0A]), Newline]] else []
           | _ \<Rightarrow> []))"

definition exec_set_default_profile :: "command_env \<Rightarrow> stored_static \<Rightarrow> default_profile_option \<Rightarrow> step" where
  "exec_set_default_profile X ss opt =
     (let D = ce_disk X; S = ce_static X;
          default_profile_path = beside_exe D ''config/default_profile.yaml''; profile_path = beside_exe D ''config/profiles.yaml''
      in step_after [blank]
        (if \<not> dk_exists D (path_join (dk_exe D) ''config'') \<and> \<not> dk_exists D ''config'' then
           Stop [Printed [Put None ''Default profile cannot be set due to the absence of a config folder. Please check the config folder.'', Newline]]
         else
           (case set_default_profile (se_load S) (ce_dump X) (se_embedded S) (ce_read_only X)
                   default_profile_path profile_path (dp_profile opt) (se_texts S) of
              (texts, result) \<Rightarrow>
                step_after (New_Texts texts # set_profile_messages X default_profile_path profile_path result)
                  (case result of
                     Panic \<Rightarrow> Fail []
                   | Err e \<Rightarrow> step_after [Alert e] (closing X ss)
                   | Ok _ \<Rightarrow> closing X ss))))"

definition pad_right :: "nat \<Rightarrow> string \<Rightarrow> string" where
  "pad_right n s = s @ replicate (n - length (utf8_chars s)) (CHR '' '')"

definition exec_list_profiles :: "command_env \<Rightarrow> stored_static \<Rightarrow> step" where
  "exec_list_profiles X ss =
     (let S = ce_static X;
          data = read_profile_data (se_load S) (se_embedded S) (se_texts S) ''config/profiles.yaml''
      in case (case data of Ok ys \<Rightarrow> get_profile_list (Inr ys) | Err e \<Rightarrow> get_profile_list (Inl e) | Panic \<Rightarrow> None) of
           None \<Rightarrow> Fail []
         | Some profiles \<Rightarrow>
             step_after ((case data of Err e \<Rightarrow> [Alert e] | _ \<Rightarrow> []) @
                 [printed_line (colored ss green) ''List of available profiles:''] @
                 concat (map (\<lambda>(name, columns).
                   [Printed (write_color_buffer (Some green) (''- '' @ pad_right 25 (name @ '':'')) False),
                    printed_line None columns]) profiles) @ [blank])
               (closing X ss))"

definition exec_expand_list :: "command_env \<Rightarrow> stored_static \<Rightarrow> expand_list_option \<Rightarrow> step" where
  "exec_expand_list X ss opt =
     (let D = ce_disk X;
          rule_dir = (if dk_exists D ''./encoded_rules.yml'' then ''./encoded_rules.yml'' else el_rules opt)
      in if \<not> dk_exists D rule_dir then Stop [Alert ''The rules directory does not exist. Please check the path.'']
         else
           (let result = ce_expand X rule_dir in
            step_after ([blank] @
              (if result = [] then [printed_line (colored ss amber) ''No expanded rules found.'']
               else printed_line (colored ss green) (show_nat (length result) @ '' unique expand placeholders found:'') #
                 map (\<lambda>e. printed_line None (replace_all ''%'' [] e)) result) @ [blank])
              (closing X ss)))"

definition exec_action :: "command_env \<Rightarrow> stored_static \<Rightarrow> step" where
  "exec_action X ss =
     (case ss_config_action ss of
        None \<Rightarrow> Fail []
      | Some a \<Rightarrow>
          (case a of
             CmdCsvTimeline _ \<Rightarrow> exec_timeline X ss | CmdJsonTimeline _ \<Rightarrow> exec_timeline X ss
           | CmdLogonSummary _ \<Rightarrow> exec_logon_summary X ss
           | CmdEidMetrics _ \<Rightarrow> exec_counting X ss | CmdComputerMetrics _ \<Rightarrow> exec_counting X ss
           | CmdLogMetrics _ \<Rightarrow> exec_counting X ss | CmdSearch _ \<Rightarrow> exec_counting X ss
           | CmdExtractBase64 _ \<Rightarrow> exec_counting X ss
           | CmdPivotKeywordsList _ \<Rightarrow> exec_pivot X ss
           | CmdUpdateRules opt \<Rightarrow> exec_update X ss opt
           | CmdLevelTuning opt \<Rightarrow> exec_level_tuning X ss opt
           | CmdSetDefaultProfile opt \<Rightarrow> exec_set_default_profile X ss opt
           | CmdListProfiles _ \<Rightarrow> exec_list_profiles X ss
           | CmdExpandList opt \<Rightarrow> exec_expand_list X ss opt
           | CmdConfigCriticalSystems _ \<Rightarrow> step_after [Run_Scan] (closing X ss)
           | CmdListContributors _ \<Rightarrow> Go []))"

subsection \<open>The end of the program\<close>

definition issue_texts :: "(string \<times> string) list" where
  "issue_texts =
     [(''Please report any issues with Hayabusa rules to: '', ''https://github.com/Yamato-Security/hayabusa-rules/issues''),
      (''Please report any false positives with Sigma rules to: '', ''https://github.com/SigmaHQ/sigma/issues''),
      (''Please submit new Sigma rules with pull requests to: '', ''https://github.com/SigmaHQ/sigma/pulls'')]"

definition is_timeline :: "action option \<Rightarrow> bool" where
  "is_timeline act = (case act of Some (CmdCsvTimeline _) \<Rightarrow> True | Some (CmdJsonTimeline _) \<Rightarrow> True | _ \<Rightarrow> False)"

definition exec_end :: "command_env \<Rightarrow> stored_static \<Rightarrow> step" where
  "exec_end X ss =
     step_after
       (report_line ss (''Elapsed time: '' @ ce_elapsed X) @
        [Printed (write_color_buffer (colored ss green) ''Elapsed time: '' False), printed_line None (ce_elapsed X)] @
        (if is_timeline (ss_config_action ss) then
           blank # concat (map (\<lambda>(t, url). [Printed (write_color_buffer (colored ss green) t False), printed_line None url]) issue_texts)
         else []))
       (and_then
         (if is_timeline (ss_config_action ss) \<and> ss_html_report_flag ss then
            (case Option.bind (ss_output_option ss) oa_html_report of
               None \<Rightarrow> Fail []
             | Some path \<Rightarrow> Go [Report_File path])
          else Go [])
         (Go ((if ce_errors X \<and> \<not> ss_quiet_errors_flag ss then [Error_Log] else []) @ [blank] @
              output_open_close_message X ss ''closing_messages.txt'')))"

definition exec :: "command_env \<Rightarrow> stored_static \<Rightarrow> step" where
  "exec X ss = and_then (exec_start X ss) (and_then (exec_action X ss) (exec_end X ss))"

subsection \<open>No result is overwritten\<close>

text \<open>The files that a run produces: those it writes itself, those of the scan, the report.\<close>

fun produced_files :: "action \<Rightarrow> effect list \<Rightarrow> string list" where
  "produced_files a [] = []"
| "produced_files a (Run_Scan # es) = result_files a @ produced_files a es"
| "produced_files a (Report_File p # es) = p # produced_files a es"
| "produced_files a (e # es) = written_files [e] @ produced_files a es"

lemma produced_append [simp]: "produced_files a (es @ fs) = produced_files a es @ produced_files a fs"
  by (induction a es rule: produced_files.induct) simp_all

lemma produced_printed [simp]: "produced_files a (map (\<lambda>x. Printed (f x)) xs) = []"
  by (induction xs) simp_all

lemma produced_alerts [simp]: "produced_files a (map (\<lambda>x. Alert (f x)) xs) = []"
  by (induction xs) simp_all

lemma produced_concat: "(\<And>x. x \<in> set xs \<Longrightarrow> produced_files a (f x) = []) \<Longrightarrow> produced_files a (concat (map f xs)) = []"
  by (induction xs) simp_all

definition keeps :: "command_env \<Rightarrow> action \<Rightarrow> step \<Rightarrow> bool" where
  "keeps X a s \<longleftrightarrow> (\<forall>p \<in> set (produced_files a (step_effects s)). \<not> dk_exists (ce_disk X) p)"

lemma keeps_and_then: "keeps X a s \<Longrightarrow> (\<And>es. s = Go es \<Longrightarrow> keeps X a t) \<Longrightarrow> keeps X a (and_then s t)"
  by (cases s) (auto simp: keeps_def)

lemma keeps_after: "produced_files a es = [] \<Longrightarrow> keeps X a s \<Longrightarrow> keeps X a (step_after es s)"
  by (simp add: keeps_def)

lemma keeps_none: "produced_files a (step_effects s) = [] \<Longrightarrow> keeps X a s"
  by (simp add: keeps_def)

lemma produced_messages [simp]:
  "produced_files a (output_open_close_message X ss f) = []"
  "produced_files a (report_line ss s) = []"
  "produced_files a (output_saved_file X ss out m) = []"
  "produced_files a (output_profile_name X ss b) = []"
  "produced_files a (greeting X ss) = []"
  "produced_files a (output_eggs X) = []"
  by (auto simp: output_open_close_message_def random_message_def Let_def report_line_def output_saved_file_def
      output_profile_name_def greeting_def output_logo_def output_eggs_def split: option.split)

lemma keeps_start:
  assumes "ss_config_action ss = Some a" and "scan_action_of a \<noteq> Some ConfigCriticalSystems"
  shows "keeps X a (exec_start X ss)"
proof -
  have "keeps X a (exec_arguments X ss)"
    by (rule keeps_none) (simp add: exec_arguments_def assms)
  moreover have "keeps X a (exec_environment X ss)"
    by (rule keeps_none) (cases a; simp add: exec_environment_def assms)
  moreover have "keeps X a (exec_critical X ss)"
    using assms by (intro keeps_none) (cases a; simp add: exec_critical_def scan_action_of_def)
  ultimately show ?thesis
    unfolding exec_start_def by (intro keeps_and_then) (simp_all add: keeps_def)
qed

lemma guard_file_Go: "guard_file X False p m = Go es \<Longrightarrow> \<not> dk_exists (ce_disk X) p"
  by (auto simp: guard_file_def check_file_expect_not_exist_def split: if_splits)

lemma keeps_guard_file [simp]: "keeps X a (guard_file X c p m)"
  by (rule keeps_none) (simp add: guard_file_def)

lemma keeps_guard_output [simp]: "keeps X a (guard_output X oa out)"
  by (cases out) (simp_all add: guard_output_def keeps_def [of X a "Go []"])

lemma and_then_Go: "and_then s t = Go es \<longleftrightarrow> (\<exists>fs gs. s = Go fs \<and> t = Go gs \<and> es = fs @ gs)"
  by (cases s; cases t) auto

lemma guard_output_Go:
  "guard_output X oa (Some p) = Go es \<Longrightarrow> \<not> oa_clobber oa \<Longrightarrow> \<not> dk_exists (ce_disk X) p"
  by (auto simp: guard_output_def dest: guard_file_Go)

lemma timeline_guards_Go:
  assumes "timeline_guards X ss oa = Go es" and "\<not> oa_clobber oa"
    and "p \<in> set_option (oa_html_report oa) \<union> set_option (ss_output_path ss)"
  shows "\<not> dk_exists (ce_disk X) p"
proof -
  obtain fs gs where "guard_output X oa (oa_html_report oa) = Go fs" "guard_output X oa (ss_output_path ss) = Go gs"
    using assms(1) by (auto simp: timeline_guards_def and_then_Go split: sum.splits if_splits)
  with assms(2,3) guard_output_Go show ?thesis by auto
qed

lemma keeps_timeline_guards [simp]: "keeps X a (timeline_guards X ss oa)"
proof (cases "check_rule_config (ce_disk X) (used_config_path X ss)")
  case (Inr u)
  have "keeps X a (Stop [Alert s, blank])" "keeps X a (Go [])" "keeps X a (Stop [])" for s
    by (simp_all add: keeps_def)
  with Inr show ?thesis by (auto simp: timeline_guards_def intro!: keeps_and_then)
qed (simp add: timeline_guards_def keeps_def)

lemma keeps_timeline:
  assumes "ss_output_option ss = Some oa" and "\<not> oa_clobber oa"
    and "set (result_files a) \<subseteq> set_option (ss_output_path ss)"
  shows "keeps X a (exec_timeline X ss)"
  unfolding exec_timeline_def assms(1) option.case
proof (rule keeps_and_then)
  fix es assume "timeline_guards X ss oa = Go es"
  from timeline_guards_Go [OF this assms(2)] assms(3)
  show "keeps X a (Go (Rules_Path (timeline_rules X oa) # Run_Scan # output_profile_name X ss False @ output_saved_file X ss (ss_output_path ss) ''Saved file''))"
    by (auto simp: keeps_def)
qed simp

lemma keeps_counting:
  assumes "ss_output_option ss = Some oa" and "\<not> oa_clobber oa"
    and "set (result_files a) \<subseteq> set_option (ss_output_path ss)"
  shows "keeps X a (exec_counting X ss)"
proof -
  have "keeps X a (and_then (guard_output X oa (ss_output_path ss))
      (Go (Run_Scan # output_saved_file X ss (ss_output_path ss) ''Saved results'')))"
  proof (rule keeps_and_then)
    fix es assume "guard_output X oa (ss_output_path ss) = Go es"
    with guard_output_Go [of X oa _ es] assms(2,3)
    show "keeps X a (Go (Run_Scan # output_saved_file X ss (ss_output_path ss) ''Saved results''))"
      by (auto simp: keeps_def)
  qed simp
  then show ?thesis by (cases "ss_output_path ss") (simp_all add: exec_counting_def assms(1))
qed

lemma keeps_logon_summary:
  assumes "ss_output_option ss = Some oa" and "\<not> oa_clobber oa"
    and "set (result_files a) \<subseteq> (case ss_output_path ss of None \<Rightarrow> {}
           | Some p \<Rightarrow> {logon_file_name p ''successful'', logon_file_name p ''failed''})"
  shows "keeps X a (exec_logon_summary X ss)"
proof (cases "ss_output_path ss")
  case None
  with assms(3) show ?thesis by (simp add: exec_logon_summary_def keeps_def)
next
  case (Some path)
  show ?thesis
    unfolding exec_logon_summary_def Some assms(1) option.case prod.case Let_def
  proof (intro keeps_and_then keeps_guard_file)
    fix es fs
    assume "guard_file X (oa_clobber oa) (logon_file_name path ''successful'') (base_exists_text path) = Go es"
      and "guard_file X (oa_clobber oa) (logon_file_name path ''failed'') (base_exists_text path) = Go fs"
    then have "\<not> dk_exists (ce_disk X) (logon_file_name path ''successful'')"
      "\<not> dk_exists (ce_disk X) (logon_file_name path ''failed'')"
      using assms(2) by (simp_all add: guard_file_Go)
    with assms(3) Some
    show "keeps X a (Go (Run_Scan # output_saved_file X ss (Some (logon_file_name path ''successful'')) ''Successful logon results'' @
        output_saved_file X ss (Some (logon_file_name path ''failed'')) ''Failed logon results'' @ [blank]))"
      by (auto simp: keeps_def)
  qed
qed

lemma pivots_found_keys: "map fst (pivots_found X ss pivots) = map fst pivots"
proof -
  have "map fst (insert_pivot_keyword E c r ps) = map fst ps" for E c r and ps :: "(string \<times> pivot_keyword) list"
    by (auto simp: insert_pivot_keyword_def comp_def case_prod_beta)
  then have "map fst (fold (insert_pivot_keyword E c) rs ps) = map fst ps" for E c rs and ps :: "(string \<times> pivot_keyword) list"
    by (induction rs arbitrary: ps) simp_all
  then show ?thesis by (simp add: pivots_found_def)
qed

lemma produced_write_pivots: "set (produced_files a (step_effects (write_pivots X fs))) \<subseteq> fst ` set fs"
  by (induction fs rule: write_pivots.induct) auto

lemma keeps_pivot:
  assumes "ss_output_option ss = Some oa" and "\<not> oa_clobber oa" and "result_files a = []"
  shows "keeps X a (exec_pivot X ss)"
proof (cases "load_pivot_keywords (read_txt (ce_disk X) (beside_exe (ce_disk X) ''rules/config/pivot_keywords.txt'')) []")
  case None
  then show ?thesis by (simp add: exec_pivot_def keeps_def)
next
  case (Some pivots)
  note pivots = Some
  show ?thesis
  proof (cases "ss_output_path ss")
    case None
    with pivots assms show ?thesis by (simp add: exec_pivot_def keeps_def Let_def)
  next
    case (Some path)
    show ?thesis
    proof (cases "pivot_taken X (oa_clobber oa) path pivots")
      case Nil
      then have free: "\<not> dk_exists (ce_disk X) (pivot_file_name path k)" if "k \<in> fst ` set pivots" for k
        using that assms(2) by (force simp: pivot_taken_def check_file_expect_not_exist_def filter_empty_conv)
      have "fst ` set (pivots_found X ss pivots) = fst ` set pivots"
        using arg_cong [OF pivots_found_keys, of set] by simp
      moreover have "fst ` set (pivot_files path m) = pivot_file_name path ` fst ` set m" for m
        by (simp add: pivot_files_def image_image case_prod_beta)
      ultimately have "fst ` set (pivot_files path (pivots_found X ss pivots)) = pivot_file_name path ` fst ` set pivots"
        by simp
      then have "set (produced_files a (step_effects (write_pivots X (pivot_files path (pivots_found X ss pivots))))) \<subseteq>
          pivot_file_name path ` fst ` set pivots"
        using produced_write_pivots [of a X "pivot_files path (pivots_found X ss pivots)"] by simp
      with free have w: "keeps X a (write_pivots X (pivot_files path (pivots_found X ss pivots)))"
        unfolding keeps_def by blast
      have "keeps X a (step_after [Rules_Path (pivot_rules X oa), Run_Scan] (and_then (write_pivots X (pivot_files path (pivots_found X ss pivots)))
          (Go [blank, blank, printed_line (colored ss green) ''Pivot keyword results were saved to the following files: '',
            printed_line None (unlines (map (\<lambda>(k, _). pivot_file_name path k) (pivots_found X ss pivots)))])))"
        by (intro keeps_after keeps_and_then w) (simp_all add: assms(3) keeps_def)
      then show ?thesis
        unfolding exec_pivot_def pivots assms(1) Some option.case Nil Let_def by (simp only: simp_thms if_False)
    next
      case (Cons p ps)
      then show ?thesis
        unfolding exec_pivot_def pivots assms(1) Some option.case Let_def
        by (simp add: keeps_def)
    qed
  qed
qed

lemma keeps_end:
  assumes "ss_output_option ss = Some oa"
    and "is_timeline (ss_config_action ss) \<Longrightarrow> \<forall>p \<in> set_option (oa_html_report oa). \<not> dk_exists (ce_disk X) p"
  shows "keeps X a (exec_end X ss)"
proof -
  have "produced_files a (concat (map (\<lambda>(t, url). [Printed (write_color_buffer (colored ss green) t False),
      printed_line None url]) issue_texts)) = []"
    by (rule produced_concat) auto
  moreover have "keeps X a (if is_timeline (ss_config_action ss) \<and> ss_html_report_flag ss then
            (case Option.bind (ss_output_option ss) oa_html_report of
               None \<Rightarrow> Fail []
             | Some path \<Rightarrow> Go [Report_File path])
          else Go [])"
    using assms by (auto simp: keeps_def split: option.split)
  ultimately show ?thesis
    unfolding exec_end_def by (intro keeps_after keeps_and_then) (simp_all add: keeps_def)
qed

text \<open>
  Whatever was asked for on the command line, the files that a run with a scan for results produces were
  not there before it, unless the option to overwrite was given.
\<close>

lemma exec_keeps_files:
  assumes static: "create_static_data S (Some a) = Ok (ss, geo)"
    and scan: "scan_action_of a \<notin> {None, Some ConfigCriticalSystems}"
    and oa: "extract_output_options (Some a) = Some oa" and "\<not> oa_clobber oa"
    and produced: "p \<in> set (produced_files a (step_effects (exec X ss)))"
  shows "\<not> dk_exists (ce_disk X) p"
proof -
  have ss: "ss_config_action ss = Some a" "ss_output_option ss = Some oa" "ss_output_path ss = output_path_of (Some a)"
    using create_static_data_flags [OF static] oa by (auto simp: flags_of_action_def Let_def)
  have start: "keeps X a (exec_start X ss)" using keeps_start ss(1) scan by blast
  have files: "set (result_files a) \<subseteq> set_option (ss_output_path ss)" if "scan_action_of a \<noteq> Some LogonSummary"
    using that scan ss(3) by (cases a) (auto simp: result_files_def scan_action_of_def output_path_of_def split: option.splits)
  have "keeps X a (exec_action X ss)"
  proof (cases a)
    case (CmdLogonSummary opt)
    then have "set (result_files a) \<subseteq> (case ss_output_path ss of None \<Rightarrow> {}
        | Some p \<Rightarrow> {logon_file_name p ''successful'', logon_file_name p ''failed''})"
      by (auto simp: result_files_def ss(3) output_path_of_def split: option.split)
    from keeps_logon_summary [OF ss(2) assms(4) this] CmdLogonSummary show ?thesis by (simp add: exec_action_def ss(1))
  next
    case (CmdPivotKeywordsList opt)
    with keeps_pivot [OF ss(2) assms(4), of a X] show ?thesis by (simp add: exec_action_def ss(1) result_files_def)
  qed (use scan files keeps_timeline [OF ss(2) assms(4), of a X] keeps_counting [OF ss(2) assms(4), of a X] in
      \<open>simp_all add: exec_action_def ss(1) scan_action_of_def\<close>)
  moreover have "keeps X a (exec_end X ss)" if "exec_action X ss = Go es" for es
  proof (rule keeps_end [OF ss(2)])
    assume "is_timeline (ss_config_action ss)"
    then have "exec_action X ss = exec_timeline X ss"
      by (cases a) (simp_all add: is_timeline_def exec_action_def ss(1))
    with that obtain gs where "timeline_guards X ss oa = Go gs"
      by (auto simp: exec_timeline_def ss(2) and_then_Go)
    from timeline_guards_Go [OF this assms(4)] show "\<forall>p \<in> set_option (oa_html_report oa). \<not> dk_exists (ce_disk X) p" by blast
  qed
  ultimately have "keeps X a (exec X ss)"
    unfolding exec_def by (intro keeps_and_then start)
  with produced show ?thesis by (auto simp: keeps_def)
qed

definition sample_disk :: disk where
  "sample_disk = \<lparr>dk_exe = ''/opt/hayabusa'', dk_exists = (\<lambda>_. False), dk_lines = (\<lambda>_. None), dk_text = (\<lambda>_. None), dk_bundle = []\<rparr>"

definition sample_static :: static_env where
  "sample_static = \<lparr>se_env = env0, se_aho = no_aho, se_disk = sample_disk, se_csv = (\<lambda>_. []), se_tactics = [],
     se_load = sample_load, se_embedded = [''default_profile.yaml'' \<mapsto> ''one''], se_texts = Map.empty, se_dir = (\<lambda>_. None)\<rparr>"

definition sample_command_env :: command_env where
  "sample_command_env = \<lparr>ce_static = sample_static,
     ce_calendar = \<lparr>parse_date = (\<lambda>_ _. None), go_back = (\<lambda>_ _. None)\<rparr>, ce_args = 6, ce_command_line = [],
     ce_start = [], ce_date = ''06/01'', ce_elapsed = [], ce_logo = [], ce_art = (\<lambda>_. []), ce_contributors = [],
     ce_choose = (\<lambda>_. None), ce_file_len = (\<lambda>_. None), ce_size_after = (\<lambda>_. None), ce_erase = None, ce_matched = [],
     ce_create_error = (\<lambda>_. None), ce_latest = None, ce_version = ''3.10.0-dev'', ce_get_rules = None, ce_get_config = None,
     ce_update = \<lparr>ue_submodules = None, ue_rule_repo = None, ue_clone = Inr (), ue_rules_exist = False,
       ue_before = None, ue_after = None\<rparr>,
     ce_git_debug = (\<lambda>s. s), ce_tune = (\<lambda>_ _. Ok ()), ce_dump = sample_dump, ce_read_only = (\<lambda>_. False),
     ce_expand = (\<lambda>_. []), ce_errors = False, ce_profile_name = ''standard''\<rparr>"

definition sample_run :: stored_static where
  "sample_run = static_data sample_static (Some (CmdComputerMetrics sample_metrics)) [] [] []
     (Some [(''Time'', PTimestamp []), (''RecoveredRecord'', PRecoveredRecord [])])"

lemma sample_run_created:
  "create_static_data sample_static (Some (CmdComputerMetrics sample_metrics)) = Ok (sample_run, None)"
proof -
  let ?a = "Some (CmdComputerMetrics sample_metrics)"
  have "check_levels (se_env sample_static) ?a = Inr ()"
    by (simp add: check_levels_def is_valid_min_level_def is_valid_exact_level_def)
  moreover have "geo_of sample_static ?a = Ok None"
    by (simp add: geo_of_def geo_ip_of_def check_exist_geo_ip_files_def)
  moreover have "filter_config_file sample_static (config_path_of ?a) ''generic_abbreviations.txt'' False (disable_abbreviation_of ?a) = Some []"
    by code_simp
  moreover have "filter_config_file sample_static (config_path_of ?a) ''channel_abbreviations.txt'' True (disable_abbreviation_of ?a) = Some []"
    by code_simp
  moreover have "filter_config_file sample_static (config_path_of ?a) ''provider_abbreviations.txt'' False (disable_abbreviation_of ?a) = Some []"
    by code_simp
  moreover have "profiles_of sample_static ?a False = Ok (Some [(''Time'', PTimestamp []), (''RecoveredRecord'', PRecoveredRecord [])])"
    by code_simp
  ultimately show ?thesis
    by (simp add: create_static_data_def or_panic_def Let_def sample_run_def)
qed

lemma sample_run_produces:
  "''out.csv'' \<in> set (produced_files (CmdComputerMetrics sample_metrics) (step_effects (exec sample_command_env sample_run)))"
  by code_simp

subsection \<open>Departures\<close>

text \<open>Where no profile can be loaded, every command ends without a word, also the one that sets a profile.\<close>

lemma no_profile_no_word: "ss_profiles ss = None \<Longrightarrow> exec X ss = Stop []"
  by (simp add: exec_def exec_start_def exec_arguments_def Let_def)

text \<open>
  The way there: the name of a profile that does not exist is given once, and the static data of the next
  run, for whatever command without a named profile, have none.
\<close>

lemma wrong_profile_disables_program:
  assumes "read_profile_data (se_load S) (se_embedded S) (se_texts S) (beside_exe (se_disk S) ''config/profiles.yaml'') = Ok (all # rest)"
    and "yindex all name = YBadValue" and "se_load S [] = Inr []"
    and "se_texts S (beside_exe (se_disk S) ''config/default_profile.yaml'') \<noteq> None"
    and "\<not> read_only (beside_exe (se_disk S) ''config/default_profile.yaml'')"
    and "texts = fst (set_default_profile (se_load S) dump (se_embedded S) read_only
        (beside_exe (se_disk S) ''config/default_profile.yaml'') (beside_exe (se_disk S) ''config/profiles.yaml'') (Some name) (se_texts S))"
    and "create_static_data (S\<lparr>se_texts := texts\<rparr>) act = Ok (ss, geo)"
    and "Option.bind (extract_output_options act) oa_profile = None"
  shows "exec X ss = Stop []"
proof -
  let ?dp = "beside_exe (se_disk S) ''config/default_profile.yaml''"
  note empties = wrong_profile_empties_default [where dp = ?dp and read_only = read_only and texts = "se_texts S",
      OF assms(1,2,4,5,3)]
  have t: "texts = (se_texts S)(?dp \<mapsto> [])" using empties(1) assms(6) by simp
  have "profiles_of (S\<lparr>se_texts := texts\<rparr>) act g = Ok None" for g
    using empties(2) assms(8) by (simp add: profiles_of_def Let_def t)
  then have "ss_profiles ss = None"
    using assms(7)
    by (auto simp: create_static_data_def or_panic_def Let_def static_data_def split: sum.splits outcome.splits option.splits)
  then show ?thesis by (rule no_profile_no_word)
qed

text \<open>A file of levels that is named but does not exist is passed over for the one beside the program, without a word.\<close>

lemma named_levels_passed_over:
  assumes "path \<noteq> ''./rules/config/level_tuning.txt''" and "file_name path = Some name"
    and "\<not> in_bundle (ce_disk X) (base_name name)" and "\<not> dk_exists (ce_disk X) (path_join (path_parent path) name)"
  shows "level_tuning_path X ss path = Some (beside_exe (ce_disk X) ''rules/config/level_tuning.txt'')"
  using assms by (simp add: level_tuning_path_def check_setting_path_def Let_def)

text \<open>The picture of the day is coloured whatever the options say.\<close>

lemma egg_ignores_no_color:
  "output_eggs (X\<lparr>ce_date := ''12/24''\<rparr>) = [Printed (write_color_buffer (Some (0, 255, 0)) (ce_art X ''christmas.txt'') True)]"
  by (simp add: output_eggs_def eggs_def)

text \<open>The lines on the analysed files go to a section that the report does not have, and are not in it.\<close>

definition analysed_section :: string where
  "analysed_section = ''General Overview #{general_overview}''"

lemma analysed_files_not_reported:
  assumes "analysed_section \<notin> set (section_order r)"
  shows "report_md (add_md_data analysed_section ls r) = report_md r"
proof -
  have md: "map_of (fold (\<lambda>c m. assoc_insert analysed_section (unwrap_or [] (map_of m analysed_section) @ [c]) m) ls m) s = map_of m s"
    if "s \<noteq> analysed_section" for s m
    using that by (induction ls arbitrary: m) simp_all
  have "section_md (add_md_data analysed_section ls r) s = section_md r s" if "s \<in> set (section_order r)" for s
  proof -
    have "s \<noteq> analysed_section" using that assms by blast
    then show ?thesis by (simp add: section_md_def add_md_data_def md)
  qed
  then have "map (section_md (add_md_data analysed_section ls r)) (section_order r) = map (section_md r) (section_order r)"
    by (intro map_cong) simp_all
  moreover have "section_order (add_md_data analysed_section ls r) = section_order r" by (simp add: add_md_data_def)
  ultimately show ?thesis by (simp only: report_md_def)
qed

lemma analysed_section_unknown: "analysed_section \<notin> set (section_order html_reporter_new)"
  by code_simp
end
