(* ===== verification/Run.thy ===== *)
theory Run
  imports Command
begin

section \<open>Around the scan (main.rs, afterfact.rs, utils.rs)\<close>

text \<open>
  What \<open>analysis_files\<close> does before and after the loop over the files: the figures it shows, the files and
  rules it goes on with, the writer of the results, and the last steps. The loop itself is in \<open>Scan\<close>, the
  dialogue of the wizard in \<open>Wizard\<close>.
\<close>

subsection \<open>Figures\<close>

text \<open>\<open>fs::metadata\<close> is a length or an error; an error counts as no bytes. Sizes are 64 bit.\<close>

definition get_file_size :: "(string \<Rightarrow> string + 64 word) \<Rightarrow> bool \<Rightarrow> bool \<Rightarrow> string \<Rightarrow> effect list \<times> 64 word" where
  "get_file_size metadata verbose quiet_e path =
     (case metadata path of
        Inr n \<Rightarrow> ([], n)
      | Inl err \<Rightarrow>
          ((if verbose then [Warning err] else []) @ (if quiet_e then [] else [Log_Error (''[WARN] '' @ err)]), 0))"

definition total_file_size :: "(string \<Rightarrow> string + 64 word) \<Rightarrow> bool \<Rightarrow> bool \<Rightarrow> string list \<Rightarrow> effect list \<times> 64 word" where
  "total_file_size metadata verbose quiet_e paths =
     foldl (\<lambda>(es, n) p. case get_file_size metadata verbose quiet_e p of (fs, m) \<Rightarrow> (es @ fs, n + m)) ([], 0) paths"

record run_texts =
  rt_number :: "nat \<Rightarrow> string"
  rt_bytes :: "64 word \<Rightarrow> string"

definition files_shown :: "run_texts \<Rightarrow> stored_static \<Rightarrow> (string \<Rightarrow> string + 64 word) \<Rightarrow> string list \<Rightarrow> effect list" where
  "files_shown T ss metadata evtx_files =
     (case total_file_size metadata (ss_verbose_flag ss) (ss_quiet_errors_flag ss) evtx_files of
        (es, sum_bytes) \<Rightarrow>
          [Printed (write_color_buffer (colored ss green) ''Total event log files: '' False),
           printed_line None (rt_number T (length evtx_files))] @ es @
          [Printed (write_color_buffer (colored ss green) ''Total file size: '' False),
           printed_line None (rt_bytes T sum_bytes)])"

text \<open>The lines on the files for the report, with the set of rules that was chosen and the tags left out.\<close>

definition analysed_lines :: "run_texts \<Rightarrow> nat \<Rightarrow> 64 word \<Rightarrow> string option \<Rightarrow> string list option \<Rightarrow> string list" where
  "analysed_lines T n sum_bytes status excluded =
     [''- Analyzed event files: '' @ rt_number T n, ''- '' @ rt_bytes T sum_bytes] @
     (case status of Some s \<Rightarrow> [''- Selected deteciton rule set: '' @ s] | None \<Rightarrow> []) @
     (let tags = join '' / '' (unwrap_or [] excluded) in if tags \<noteq> [] then [''- Excluded tags: '' @ tags] else [])"

definition analysed_report ::
  "run_texts \<Rightarrow> stored_static \<Rightarrow> nat \<Rightarrow> 64 word \<Rightarrow> string option \<Rightarrow> string list option \<Rightarrow> effect list" where
  "analysed_report T ss n sum_bytes status excluded =
     (if ss_html_report_flag ss then map (Report_Line analysed_section) (analysed_lines T n sum_bytes status excluded) else [])"

definition needs_rules :: "action option \<Rightarrow> bool" where
  "needs_rules act =
     (case act of
        Some (CmdCsvTimeline _) \<Rightarrow> True | Some (CmdJsonTimeline _) \<Rightarrow> True | Some (CmdPivotKeywordsList _) \<Rightarrow> True
      | _ \<Rightarrow> False)"

definition need_wizard :: "stored_static \<Rightarrow> bool option" where
  "need_wizard ss =
     (if needs_rules (ss_config_action ss) then map_option (\<lambda>oa. \<not> oa_no_wizard oa) (ss_output_option ss) else Some False)"

definition wait_message :: "stored_static \<Rightarrow> string" where
  "wait_message ss =
     (if needs_rules (ss_config_action ss) then ''Loading detection rules. Please wait.''
      else if ss_logon_summary_flag ss then ''Currently scanning for the logon summary. Please wait.''
      else if ss_search_flag ss then ''Currently searching. Please wait.''
      else if ss_metrics_flag ss then ''Currently scanning for event ID metrics. Please wait.''
      else if ss_computer_metrics_flag ss then ''Currently scanning for computer metrics. Please wait.''
      else if ss_log_metrics_flag ss then ''Currently scanning for log metrics. Please wait.''
      else [])"

definition wait_effects :: "stored_static \<Rightarrow> effect list" where
  "wait_effects ss =
     (if wait_message ss \<noteq> [] then [blank, printed_line (colored ss amber) (wait_message ss)] else []) @ [blank]"

subsection \<open>Rules and files of the scan\<close>

text \<open>
  With rules: the files and rules that the channel filter keeps, or the end where no rule was loaded.
  \<open>None\<close> is a panic of the filter.
\<close>

definition scan_options_of :: "stored_static \<Rightarrow> scan_options" where
  "scan_options_of ss = \<lparr>json_input_flag = ss_json_input_flag ss, scan_all_evtx_files = ss_scan_all_evtx_files ss,
     enable_all_rules = ss_enable_all_rules ss\<rparr>"

definition filter_effects :: "run_texts \<Rightarrow> stored_static \<Rightarrow> nat \<Rightarrow> nat \<Rightarrow> effect list" where
  "filter_effects T ss n_files n_rules =
     (if \<not> ss_json_input_flag ss \<and> \<not> ss_scan_all_evtx_files ss \<and> \<not> ss_enable_all_rules ss then
        [printed_line (colored ss amber) ''Creating the channel filter. Please wait.'', blank] @
        (if \<not> ss_scan_all_evtx_files ss then
           [Printed (write_color_buffer (colored ss green) ''Evtx files loaded after channel filter: '' False),
            printed_line None (rt_number T n_files)] else []) @
        (if \<not> ss_enable_all_rules ss then
           [Printed (write_color_buffer (colored ss green) ''Detection rules enabled after channel filter: '' False),
            printed_line None (rt_number T n_rules), blank] else [])
      else [])"

definition prepare_rules ::
  "command_env \<Rightarrow> run_texts \<Rightarrow> stored_static \<Rightarrow> (string \<Rightarrow> first_record) \<Rightarrow> string list \<Rightarrow> rule_node list \<Rightarrow> string list \<Rightarrow>
   step \<times> string list \<times> rule_node list" where
  "prepare_rules X T ss FR evtx_files rule_files log =
     (if \<not> needs_rules (ss_config_action ss) then (Go [], evtx_files, [])
      else if rule_files = [] then
        (Stop [Alert (''No rules were loaded. Please download the latest rules with the update-rules command.'' @ [CHR 0x0D, CHR 0x0A])],
         evtx_files, [])
      else
        (case filter_scan FR (scan_options_of ss) (ss_quiet_errors_flag ss) evtx_files rule_files log of
           None \<Rightarrow> (Fail [], evtx_files, rule_files)
         | Some (kept, rules, _) \<Rightarrow>
             (Go (filter_effects T ss (length kept) (length rules) @ output_profile_name X ss True @
                [blank, printed_line (colored ss amber) ''Scanning in progress. Please wait.'', blank]), kept, rules)))"

text \<open>The rules that stand for the channels two commands read.\<close>

definition channel_doc :: "yaml \<Rightarrow> yaml" where
  "channel_doc channel =
     YHash [(YString ''detection'', YHash [(YString ''selection'', YHash [(YString ''Channel'', channel)])])]"

definition logon_channels :: "string list" where
  "logon_channels = [''Security'', ''Microsoft-Windows-TerminalServices-Gateway/Operational'',
     ''Microsoft-Windows-TerminalServices-LocalSessionManager/Operational'']"

definition channel_files ::
  "(string \<Rightarrow> first_record) \<Rightarrow> bool \<Rightarrow> string \<Rightarrow> yaml \<Rightarrow> string list \<times> string list \<Rightarrow> (string list \<times> string list) option" where
  "channel_files FR quiet_e name doc st =
     (case st of (evtx_files, log) \<Rightarrow>
        Option.bind (rule_new name doc) (\<lambda>node.
          map_option (\<lambda>(cf, log1). (filter (scanable_rule_exists cf) evtx_files, log1))
            (create_channel_filter FR evtx_files [node] quiet_e log)))"

definition command_files ::
  "(string \<Rightarrow> string + yaml list) \<Rightarrow> (string \<Rightarrow> first_record) \<Rightarrow> (string \<Rightarrow> string \<Rightarrow> bool) \<Rightarrow> stored_static \<Rightarrow>
   string list \<Rightarrow> string list \<Rightarrow> (string list \<times> string list) option" where
  "command_files load FR wild ss evtx_files log =
     (case ss_config_action ss of
        Some (CmdConfigCriticalSystems _) \<Rightarrow>
          channel_files FR (ss_quiet_errors_flag ss) ''config-critical-systems'' (channel_doc (YString ''Security'')) (evtx_files, log)
      | Some (CmdLogMetrics opt) \<Rightarrow>
          filter_evtx_files load FR wild evtx_files (lm_include_channel opt) (lm_include_filename opt)
            (lm_exclude_channel opt) (lm_exclude_filename opt) log
      | _ \<Rightarrow>
          (if ss_logon_summary_flag ss \<and> \<not> ss_json_input_flag ss
           then channel_files FR (ss_quiet_errors_flag ss) ''logon'' (channel_doc (YArray (map YString logon_channels))) (evtx_files, log)
           else Some (evtx_files, log)))"

subsection \<open>The writer\<close>

datatype writer_format = JsonLines | NonNumericQuotes | PlainCsv

text \<open>\<open>wr_file\<close> is the file the results go to, \<open>None\<close> for the terminal.\<close>

record afterfact_writer =
  wr_file :: "string option"
  wr_format :: writer_format
  wr_display :: bool

definition init_writer :: "(string \<Rightarrow> string option) \<Rightarrow> stored_static \<Rightarrow> step \<times> afterfact_writer" where
  "init_writer create_error ss =
     (let format = (case ss_config_action ss of
                      Some (CmdJsonTimeline _) \<Rightarrow> JsonLines | Some (CmdCsvTimeline _) \<Rightarrow> NonNumericQuotes | _ \<Rightarrow> PlainCsv);
          screen = (case ss_config_action ss of
                      Some (CmdPivotKeywordsList _) \<Rightarrow> True | Some (CmdLogonSummary _) \<Rightarrow> True | _ \<Rightarrow> False)
      in case ss_output_path ss of
           None \<Rightarrow> (Go [], \<lparr>wr_file = None, wr_format = format, wr_display = True\<rparr>)
         | Some path \<Rightarrow>
             (if screen then (Go [], \<lparr>wr_file = None, wr_format = format, wr_display = False\<rparr>)
              else
                (case create_error path of
                   Some err \<Rightarrow> (Stop [Alert (''Failed to open file. '' @ err)], \<lparr>wr_file = None, wr_format = format, wr_display = False\<rparr>)
                 | None \<Rightarrow> (Go [Write_File path []], \<lparr>wr_file = Some path, wr_format = format, wr_display = False\<rparr>))))"

definition shows_progress :: "stored_static \<Rightarrow> bool" where
  "shows_progress ss \<longleftrightarrow> ss_output_path ss \<noteq> None \<or>
     (case ss_config_action ss of
        Some (CmdConfigCriticalSystems _) \<Rightarrow> True | Some (CmdPivotKeywordsList _) \<Rightarrow> True
      | Some (CmdExtractBase64 _) \<Rightarrow> True | Some (CmdLogonSummary _) \<Rightarrow> True
      | Some (CmdComputerMetrics _) \<Rightarrow> True | Some (CmdLogMetrics _) \<Rightarrow> True | Some (CmdEidMetrics _) \<Rightarrow> True
      | _ \<Rightarrow> False)"

subsection \<open>The end of the scan\<close>

text \<open>What the progress bar is finished with, or what is printed in its place.\<close>

definition finish_message :: "stored_static \<Rightarrow> effect list" where
  "finish_message ss =
     (let text = (if is_timeline (ss_config_action ss) \<and> ss_output_path ss \<noteq> None
                  then ''Scanning finished. Please wait while the results are being saved.'' @ [CHR 0x0A]
                  else ''Scanning finished.'' @ [CHR 0x0A])
      in if \<not> is_timeline (ss_config_action ss) \<or> shows_progress ss then [Printed [Put (Some (if ss_no_color ss then (255, 255, 255) else amber)) text]]
         else [printed_line (colored ss amber) ''Scanning finished.''])"

text \<open>A line feed is added to a file of JSON lines, where it can be opened.\<close>

definition jsonl_newline :: "stored_static \<Rightarrow> (string \<rightharpoonup> string) \<Rightarrow> (string \<rightharpoonup> string)" where
  "jsonl_newline ss texts =
     (case (ss_config_action ss, ss_output_path ss) of
        (Some (CmdJsonTimeline opt), Some path) \<Rightarrow>
          (case (js_jsonl_timeline opt, texts path) of
             (True, Some s) \<Rightarrow> texts(path \<mapsto> s @ [CHR 0x0A])
           | _ \<Rightarrow> texts)
      | _ \<Rightarrow> texts)"


subsection \<open>The files two commands read\<close>

lemma channel_doc_strings [simp]:
  "string_keys (channel_doc (YString s))" "string_keys (channel_doc (YArray (map YString ss)))"
  by (simp_all add: channel_doc_def string_keys.simps list_all_iff)

lemma channel_doc_names [simp]:
  "channel_strings [] (channel_doc (YString s)) = {s}"
  "channel_strings [] (channel_doc (YArray (map YString ss))) = set ss"
  by (auto simp: channel_doc_def channel_strings.simps)

lemma channel_files_keeps:
  assumes "string_keys doc" and "rule_new name doc = Some node"
  shows "\<exists>log'. channel_files FR quiet_e name doc (evtx_files, log) =
    Some (filter (\<lambda>p. \<exists>ch. file_channel FR p = Some ch \<and> (\<exists>s \<in> channel_strings [] doc. names_channel s ch)) evtx_files, log')"
proof -
  have y: "rule_yaml node = doc"
    using assms(2) by (auto simp: rule_new_def rule_new_with_detection_def split: option.splits)
  obtain cf log' where cf: "create_channel_filter FR evtx_files [node] quiet_e log = Some (cf, log')"
    "\<forall>p \<in> set evtx_files. scanable_rule_exists cf p \<longleftrightarrow> (\<exists>ch r. file_channel FR p = Some ch \<and> r \<in> set [node] \<and> rule_names r ch)"
    using create_channel_filter_keeps [of "[node]" FR evtx_files quiet_e log] y assms(1) by auto
  then have "filter (scanable_rule_exists cf) evtx_files =
      filter (\<lambda>p. \<exists>ch. file_channel FR p = Some ch \<and> (\<exists>s \<in> channel_strings [] doc. names_channel s ch)) evtx_files"
    by (intro filter_cong) (auto simp: rule_names_def y)
  with cf(1) assms(2) show ?thesis by (simp add: channel_files_def)
qed

lemma channel_doc_new [simp]: "rule_new name (channel_doc v) \<noteq> None"
  by (simp add: rule_new_def rule_new_with_detection_def correlation_type_new_def channel_doc_def yindex_def hash_get_def)

lemma plain_channel: "s \<in> set logon_channels \<Longrightarrow> names_channel s ch \<longleftrightarrow> ch = s"
proof -
  have "list_all (\<lambda>s. CHR ''*'' \<notin> set s) logon_channels" by code_simp
  then show "s \<in> set logon_channels \<Longrightarrow> names_channel s ch \<longleftrightarrow> ch = s" by (auto simp: list_all_iff names_channel_def)
qed

lemma any_channel: "(\<exists>s \<in> set logon_channels. names_channel s ch) \<longleftrightarrow> (\<exists>s \<in> set logon_channels. ch = s)"
  by (rule bex_cong [OF refl plain_channel])

text \<open>The channels a logon can be counted in are those that the filter is made of.\<close>

lemma logon_channel_counts: "(\<exists>idnum. is_target_event idnum ch \<noteq> None) \<longleftrightarrow> ch \<in> set logon_channels"
proof
  show "\<exists>idnum. is_target_event idnum ch \<noteq> None \<Longrightarrow> ch \<in> set logon_channels"
    by (auto simp: is_target_event_def logon_channels_def split: if_splits)
  have "is_target_event 4624 ''Security'' \<noteq> None"
    "is_target_event 21 ''Microsoft-Windows-TerminalServices-LocalSessionManager/Operational'' \<noteq> None"
    "is_target_event 302 ''Microsoft-Windows-TerminalServices-Gateway/Operational'' \<noteq> None"
    by code_simp+
  then show "ch \<in> set logon_channels \<Longrightarrow> \<exists>idnum. is_target_event idnum ch \<noteq> None"
    by (auto simp: logon_channels_def)
qed

text \<open>
  C25: The logon summary reads exactly the event files that can hold a logon it counts. For a scan of event
  files, the files that are left are those whose first record names a channel in which \<open>is_target_event\<close>
  takes some event id for a logon, in their order: no such file is left out, and no other is read. The
  search for critical systems reads those of the security channel.
\<close>

theorem command_files_kept:
  assumes "flags_of_action ss"
  shows "(ss_logon_summary_flag ss \<and> \<not> ss_json_input_flag ss \<longrightarrow>
      (\<exists>log'. command_files load FR wild ss evtx_files log =
        Some (filter (\<lambda>p. \<exists>ch idnum. file_channel FR p = Some ch \<and> is_target_event idnum ch \<noteq> None) evtx_files, log'))) \<and>
    ((\<exists>opt. ss_config_action ss = Some (CmdConfigCriticalSystems opt)) \<longrightarrow>
      (\<exists>log'. command_files load FR wild ss evtx_files log =
        Some (filter (\<lambda>p. file_channel FR p = Some ''Security'') evtx_files, log')))"
proof (intro conjI impI)
  assume logon: "ss_logon_summary_flag ss \<and> \<not> ss_json_input_flag ss"
  then obtain opt where act: "ss_config_action ss = Some (CmdLogonSummary opt)"
    using assms by (auto simp: flags_of_action_def Let_def action_to_usize_def split: option.splits action.splits)
  obtain node where "rule_new ''logon'' (channel_doc (YArray (map YString logon_channels))) = Some node"
    using channel_doc_new by (cases "rule_new ''logon'' (channel_doc (YArray (map YString logon_channels)))") auto
  from channel_files_keeps [OF channel_doc_strings(2) this, of FR "ss_quiet_errors_flag ss" evtx_files log]
  obtain log' where "channel_files FR (ss_quiet_errors_flag ss) ''logon'' (channel_doc (YArray (map YString logon_channels)))
      (evtx_files, log) = Some (filter (\<lambda>p. \<exists>ch. file_channel FR p = Some ch \<and> (\<exists>s \<in> set logon_channels. names_channel s ch)) evtx_files, log')"
    by auto
  moreover have "(\<exists>ch. file_channel FR p = Some ch \<and> (\<exists>s \<in> set logon_channels. names_channel s ch)) \<longleftrightarrow>
      (\<exists>ch idnum. file_channel FR p = Some ch \<and> is_target_event idnum ch \<noteq> None)" for p
    unfolding any_channel using logon_channel_counts by blast
  ultimately show "\<exists>log'. command_files load FR wild ss evtx_files log =
      Some (filter (\<lambda>p. \<exists>ch idnum. file_channel FR p = Some ch \<and> is_target_event idnum ch \<noteq> None) evtx_files, log')"
    using logon by (simp add: command_files_def act)
next
  assume "\<exists>opt. ss_config_action ss = Some (CmdConfigCriticalSystems opt)"
  then obtain opt where act: "ss_config_action ss = Some (CmdConfigCriticalSystems opt)" by blast
  obtain node where "rule_new ''config-critical-systems'' (channel_doc (YString ''Security'')) = Some node"
    using channel_doc_new by (cases "rule_new ''config-critical-systems'' (channel_doc (YString ''Security''))") auto
  from channel_files_keeps [OF channel_doc_strings(1) this, of FR "ss_quiet_errors_flag ss" evtx_files log]
  show "\<exists>log'. command_files load FR wild ss evtx_files log =
      Some (filter (\<lambda>p. file_channel FR p = Some ''Security'') evtx_files, log')"
    using plain_channel [of "''Security''"] by (auto simp: command_files_def act logon_channels_def)
qed

definition sample_logon :: logon_summary_option where
  "sample_logon = \<lparr>ls_input_args = input_option_default, ls_output = None, ls_remove_duplicate_detections = False,
     ls_common_options = \<lparr>co_no_color = True, co_quiet = False, co_help = None\<rparr>,
     ls_detect_common_options = detect_common_option_default, ls_time_format_options = time_format_options_default,
     ls_clobber = False, ls_end_timeline = None, ls_start_timeline = None\<rparr>"

theorem command_files_kept_witness:
  "\<exists>log'. command_files (\<lambda>_. Inl []) first_sample (\<lambda>_ _. True) (static_data sample_static (Some (CmdLogonSummary sample_logon)) [] [] [] None) [''a.evtx''] [] =
     Some ([''a.evtx''], log')"
proof -
  let ?ss = "static_data sample_static (Some (CmdLogonSummary sample_logon)) [] [] [] None"
  have "flags_of_action ?ss" by (simp add: flags_of_action_def static_data_def Let_def)
  moreover have "ss_logon_summary_flag ?ss" "\<not> ss_json_input_flag ?ss"
    by (simp_all add: static_data_def Let_def action_to_usize_def json_input_of_def sample_logon_def detect_common_option_default_def)
  moreover have "(\<exists>idnum y. is_target_event idnum ''Security'' = Some y) \<longleftrightarrow> True"
    using logon_channel_counts [of "''Security''"] by (simp add: logon_channels_def)
  ultimately show ?thesis
    using command_files_kept [of ?ss "\<lambda>_. Inl []" first_sample "\<lambda>_ _. True" "[''a.evtx'']" "[]"] by simp
qed

text \<open>
  A file that the writer makes is the file of the results; the commands with several files of results make
  theirs elsewhere, and their writer stays on the terminal.
\<close>

lemma init_writer_files:
  assumes "flags_of_action ss" and "ss_config_action ss = Some a"
  shows "set (written_files (step_effects (fst (init_writer create_error ss)))) \<subseteq> set (result_files a)"
proof -
  have "ss_output_path ss = output_path_of (Some a)" using assms by (simp add: flags_of_action_def Let_def)
  with assms(2) show ?thesis
    by (cases a) (auto simp: init_writer_def Let_def result_files_def output_path_of_def split: option.split)
qed

text \<open>The writer of a time line that is shown has no file, and that of a file is not shown.\<close>

lemma init_writer_display:
  "init_writer create_error ss = (Go es, w) \<Longrightarrow> wr_display w \<longleftrightarrow> ss_output_path ss = None"
  by (auto simp: init_writer_def Let_def split: option.splits if_splits)
end
