(* ===== verification/Load_Report.thy ===== *)
theory Load_Report
  imports Command Rule_Filter_Facts
begin

section \<open>What is told about the rules that were loaded (detections/detection.rs)\<close>

text \<open>
  \<open>print_rule_load_info\<close>: the counters of the loader on the terminal and in the report, and the theorem that
  the total it shows is the number of rules that were loaded. The text of a number and of a
  percentage of two numbers are parameters; a division by zero is one of floating point numbers.
\<close>

record load_texts =
  lt_number :: "nat \<Rightarrow> string"
  lt_rate :: "nat \<Rightarrow> nat \<Rightarrow> string"

definition load_line :: "stored_static \<Rightarrow> string \<times> string \<Rightarrow> effect list" where
  "load_line ss kv =
     [Printed (write_color_buffer (colored ss green) (fst kv) False), printed_line None (snd kv)]"

definition load_lines :: "stored_static \<Rightarrow> (string \<times> string) list \<Rightarrow> effect list" where
  "load_lines ss kvs = concat (map (load_line ss) kvs)"

definition disabled_text :: "bool \<Rightarrow> string" where
  "disabled_text b = (if b then '' (Disabled)'' else [])"

text \<open>Excluded and noisy rules; what was not found is not shown.\<close>

definition excluded_rule_lines :: "load_texts \<Rightarrow> output_args \<Rightarrow> counter \<Rightarrow> (string \<times> string) list" where
  "excluded_rule_lines T oa ld_rc =
     map (\<lambda>(key, n). (make_ascii_titlecase key @ '' rules: '',
         lt_number T n @ disabled_text (key = ''noisy'' \<and> \<not> oa_enable_noisy_rules oa)))
       (filter (\<lambda>(key, n). n \<noteq> 0) (sort_key fst ld_rc))"

definition is_filtered_rule_flag :: "output_args \<Rightarrow> string \<Rightarrow> bool" where
  "is_filtered_rule_flag oa x \<longleftrightarrow>
     x = ''deprecated'' \<and> \<not> oa_enable_deprecated_rules oa \<or> x = ''unsupported'' \<and> \<not> oa_enable_unsupported_rules oa"

definition total_loaded_rules :: "output_args \<Rightarrow> counter \<Rightarrow> nat" where
  "total_loaded_rules oa st_rc = sum_list (map snd (filter (\<lambda>(k, _). \<not> is_filtered_rule_flag oa k) st_rc))"

definition status_rule_lines :: "load_texts \<Rightarrow> output_args \<Rightarrow> counter \<Rightarrow> (string \<times> string) list" where
  "status_rule_lines T oa st_rc =
     map (\<lambda>(key, n). (make_ascii_titlecase key @ '' rules: '',
         lt_number T n @ '' ('' @ lt_rate T n (total_loaded_rules oa st_rc) @ ''%)'' @ disabled_text (is_filtered_rule_flag oa key)))
       (filter (\<lambda>(key, n). n \<noteq> 0) (sort_key fst st_rc))"

definition correlation_lines :: "load_texts \<Rightarrow> nat \<Rightarrow> counter \<Rightarrow> counter \<Rightarrow> (string \<times> string) list" where
  "correlation_lines T rules_total cor_rc cor_ref_rc =
     (let cor_total = sum_list (map snd cor_rc); cor_ref_total = sum_list (map snd cor_ref_rc) in
      if cor_total \<noteq> 0 then
        [(''Correlation rules: '', lt_number T cor_total @ '' ('' @ lt_rate T cor_total rules_total @ ''%)''),
         (''Correlation referenced rules: '', lt_number T cor_ref_total @ '' ('' @ lt_rate T cor_ref_total rules_total @ ''%)'')]
      else [])"

definition expand_rate :: "load_texts \<Rightarrow> nat \<Rightarrow> nat \<Rightarrow> string" where
  "expand_rate T n rules_total = (if rules_total \<noteq> 0 then lt_rate T n rules_total else ''0.00'')"

definition expand_lines :: "load_texts \<Rightarrow> nat \<Rightarrow> loader \<Rightarrow> (string \<times> string) list" where
  "expand_lines T rules_total ld =
     [(''Expand rules: '', lt_number T (rule_expand_cnt ld) @ '' ('' @ expand_rate T (rule_expand_cnt ld) rules_total @ ''%)''),
      (''Enabled expand rules: '',
       lt_number T (rule_expand_enabled_cnt ld) @ '' ('' @ expand_rate T (rule_expand_enabled_cnt ld) rules_total @ ''%)'')]"

definition type_rule_lines :: "load_texts \<Rightarrow> counter \<Rightarrow> (string \<times> string) list" where
  "type_rule_lines T rc = map (\<lambda>(key, n). (key @ '' rules: '', lt_number T n)) (sort_key fst rc)"

definition total_line :: "load_texts \<Rightarrow> nat \<Rightarrow> string \<times> string" where
  "total_line T n = (''Total detection rules: '', lt_number T n)"

text \<open>What comes before the rules by type, and what goes into the report, which has no lines on placeholders.\<close>

definition load_info_head :: "load_texts \<Rightarrow> stored_static \<Rightarrow> output_args \<Rightarrow> loader \<Rightarrow> nat \<Rightarrow> effect list" where
  "load_info_head T ss oa ld err_rc =
     (let rules_total = total_loaded_rules oa (rule_status_cnt ld);
          correlations = correlation_lines T rules_total (rule_cor_cnt ld) (rule_cor_ref_cnt ld)
      in load_lines ss (excluded_rule_lines T oa (rule_load_cnt ld)) @
         (if err_rc \<noteq> 0 then [printed_line (Some (255, 0, 0)) (''Rule parsing errors: '' @ show_nat err_rc)] else []) @
         (if rule_load_cnt ld \<noteq> [] then [blank] else []) @
         load_lines ss (status_rule_lines T oa (rule_status_cnt ld)) @ [blank] @
         load_lines ss correlations @ (if correlations \<noteq> [] then [blank] else []) @
         load_lines ss (expand_lines T rules_total ld) @ [blank])"

definition load_info_report :: "load_texts \<Rightarrow> stored_static \<Rightarrow> output_args \<Rightarrow> loader \<Rightarrow> effect list" where
  "load_info_report T ss oa ld =
     (let rules_total = total_loaded_rules oa (rule_status_cnt ld) in
      if ss_html_report_flag ss then
        map (\<lambda>(k, v). Report_Line general_overview (''- '' @ k @ v))
          (excluded_rule_lines T oa (rule_load_cnt ld) @ status_rule_lines T oa (rule_status_cnt ld) @
           correlation_lines T rules_total (rule_cor_cnt ld) (rule_cor_ref_cnt ld) @
           type_rule_lines T (rulecounter ld) @ [total_line T rules_total])
      else [])"

text \<open>Without output options the code would panic.\<close>

definition print_rule_load_info :: "load_texts \<Rightarrow> stored_static \<Rightarrow> loader \<Rightarrow> nat \<Rightarrow> effect list option" where
  "print_rule_load_info T ss ld err_rc =
     map_option (\<lambda>oa.
       load_info_head T ss oa ld err_rc @ load_lines ss (type_rule_lines T (rulecounter ld)) @
       load_line ss (total_line T (total_loaded_rules oa (rule_status_cnt ld))) @ [blank] @
       load_info_report T ss oa ld)
     (ss_output_option ss)"

subsection \<open>The total is the number of rules loaded\<close>

text \<open>The rules by status that are not disabled are as many as the rules by type.\<close>

definition statuses_counted :: "output_args \<Rightarrow> loader \<Rightarrow> bool" where
  "statuses_counted oa ld \<longleftrightarrow> total_loaded_rules oa (rule_status_cnt ld) = counter_total (rulecounter ld)"

lemma total_loaded_bump:
  "total_loaded_rules oa (bump k m) = total_loaded_rules oa m + (if is_filtered_rule_flag oa k then 0 else 1)"
  by (induction m) (auto simp: bump_def total_loaded_rules_def)

lemma status_loaded_counted:
  assumes "output_option F = Some (output_filters_of oa)"
  shows "status_verdict F s = CountedStatus k \<Longrightarrow> is_filtered_rule_flag oa k"
    and "status_verdict F s = Loaded \<Longrightarrow> \<not> is_filtered_rule_flag oa (unwrap_or ''undefined'' s)"
  using assms
  by (auto simp: status_verdict_def is_filtered_rule_flag_def is_output_set_def output_filters_of_def
      split: option.splits if_splits)

lemma statuses_counted_steps [loader_simps]:
  "statuses_counted oa (up_rule_load_cnt k ld) = statuses_counted oa ld"
  "statuses_counted oa (load_warning F msg ld) = statuses_counted oa ld"
  "statuses_counted oa (count_expand found enabled ld) = statuses_counted oa ld"
  "statuses_counted oa (fst (exclude_by_id F y ld)) = statuses_counted oa ld"
  by (simp_all add: statuses_counted_def up_rule_load_cnt_def load_warning_def count_expand_def exclude_by_id_def
      exclude_untargeted_def Let_def split: option.split)

lemma load_doc_statuses:
  assumes "output_option F = Some (output_filters_of oa)" and "statuses_counted oa ld"
  shows "statuses_counted oa (fst (load_doc E F R d ld))"
proof -
  let ?y = "expanded R (snd d)"
  have kept: "statuses_counted oa (count_loaded ?y ld')"
    if "status_verdict F (as_str (yindex ?y ''status'')) = Loaded" "statuses_counted oa ld'" for ld'
    using status_loaded_counted(2) [OF assms(1) that(1)] that(2)
    by (simp add: statuses_counted_def count_loaded_def up_rule_status_cnt_def Let_def total_loaded_bump)
  have disabled: "statuses_counted oa (up_rule_status_cnt k ld')"
    if "status_verdict F (as_str (yindex ?y ''status'')) = CountedStatus k" "statuses_counted oa ld'" for k ld'
    using status_loaded_counted(1) [OF assms(1) that(1)] that(2)
    by (simp add: statuses_counted_def up_rule_status_cnt_def total_loaded_bump)
  show ?thesis
    using assms(2) by (auto simp: load_doc_eq Let_def loader_simps split: sum.split verdict.split intro: kept disabled)
qed

lemma load_docs_statuses:
  assumes "output_option F = Some (output_filters_of oa)"
  shows "statuses_counted oa ld \<Longrightarrow> statuses_counted oa (fst (load_docs E F R ds ld))"
  using load_doc_statuses [OF assms] by (induction ds arbitrary: ld) (auto simp: split_beta)

lemma statuses_counted_files [loader_simps]:
  "statuses_counted oa (ld\<lparr>files := x\<rparr>) = statuses_counted oa ld"
  "statuses_counted oa (ld\<lparr>registry := r\<rparr>) = statuses_counted oa ld"
  "statuses_counted oa (ld\<lparr>load_log := l\<rparr>) = statuses_counted oa ld"
  "statuses_counted oa (failed F what path e ld) = statuses_counted oa ld"
  "statuses_counted oa (update_correlation_counts docs ld) = statuses_counted oa ld"
proof -
  show "statuses_counted oa (update_correlation_counts docs ld) = statuses_counted oa ld"
    unfolding update_correlation_counts_def
    by (induction docs arbitrary: ld) (auto simp: count_correlation_def statuses_counted_def split: option.split)
qed (simp_all add: statuses_counted_def failed_def load_warning_def)

lemma parsed_statuses [loader_simps]:
  "statuses_counted oa (fst (parsed W F path f content ld)) = statuses_counted oa ld"
  "statuses_counted oa (fst (read_entry_file W F path bytes ld)) = statuses_counted oa ld"
  by (auto simp: parsed_def read_entry_file_def Let_def loader_simps split: sum.split)

lemma load_all_statuses:
  "output_option F = Some (output_filters_of oa) \<Longrightarrow> statuses_counted oa ld \<Longrightarrow>
   statuses_counted oa (fst (load_all E W F docs ld))"
  by (auto simp: load_all_def split_beta loader_simps load_docs_statuses split: sum.split)

lemma read_single_file_statuses:
  "read_single_file W F path content ld = Ok (ld', docs) \<Longrightarrow> statuses_counted oa ld' = statuses_counted oa ld"
  using parsed_statuses(1) [of oa W F path]
  by (auto simp: read_single_file_def loader_simps Let_def split: if_splits outcome.splits sum.splits
      dest!: arg_cong [of _ _ fst])

lemma read_dir_statuses:
  assumes "output_option F = Some (output_filters_of oa)"
  shows "statuses_counted oa ld \<Longrightarrow> statuses_counted oa (fst (read_dir E W F e ld))"
    and "statuses_counted oa ld \<Longrightarrow> statuses_counted oa (fst (read_entries E W F es docs ld))"
  using assms
proof (induction E W F e ld and E W F es docs ld rule: read_dir_read_entries.induct)
  case (1 E W F path content ld)
  then show ?case
    by (auto split: outcome.split prod.split dest: read_single_file_statuses intro!: load_all_statuses)
next
  case (3 E W F path es ld)
  then show ?case by (auto split: outcome.split prod.split intro!: load_all_statuses)
next
  case (7 E W F path d es docs ld)
  then show ?case by (auto split: outcome.split prod.split)
next
  case (9 E W F path content es docs ld)
  then show ?case using parsed_statuses(2) [of oa W F path content ld] by (auto split: prod.split)
qed auto
text \<open>
  C21: The number of detection rules that is told is the number of rules that were loaded. Whatever the
  directory and the filters are, if the loader and the display have the same output options then the total,
  which leaves out the disabled statuses, is the number of rules kept, and so is the sum of the numbers by
  type above it.
\<close>

theorem loaded_rules_told:
  assumes "ss_output_option ss = Some oa" and "output_option F = Some (output_filters_of oa)"
    and "ld = fst (read_rule_path E W F path metadata (loader_new log reg))"
  shows "print_rule_load_info T ss ld err_rc =
      Some (load_info_head T ss oa ld err_rc @ load_lines ss (type_rule_lines T (rulecounter ld)) @
        load_line ss (total_line T (length (files ld))) @ [blank] @ load_info_report T ss oa ld) \<and>
    counter_total (rulecounter ld) = length (files ld)"
proof -
  have new: "types_counted (loader_new log reg)" "statuses_counted oa (loader_new log reg)"
    by (simp_all add: types_counted_def statuses_counted_def total_loaded_rules_def loader_new_def counter_total_def)
  have types: "types_counted ld"
    using read_dir_types(1) [OF new(1), of E W F] new(1) assms(3)
    by (auto simp: read_rule_path_def Let_def types_counted_def split: sum.split)
  have "statuses_counted oa ld"
    using read_dir_statuses(1) [OF assms(2) new(2), of E W] new(2) assms(3)
    by (auto simp: read_rule_path_def Let_def loader_simps split: sum.split)
  with types have "total_loaded_rules oa (rule_status_cnt ld) = length (files ld)"
    by (simp add: statuses_counted_def types_counted_def)
  with types show ?thesis by (simp add: print_rule_load_info_def assms(1) types_counted_def)
qed

definition sample_load_texts :: load_texts where
  "sample_load_texts = \<lparr>lt_number = show_nat, lt_rate = (\<lambda>_ _. ''0'')\<rparr>"

definition sample_output_filters :: rule_filters where
  "sample_output_filters = sample_filters\<lparr>output_option :=
     Some (output_filters_of (computer_metrics_output_options sample_metrics))\<rparr>"

definition sample_loader :: loader where
  "sample_loader = fst (read_rule_path env0 sample_world sample_output_filters ''rules''
     (Inr (RDir ''rules'' sample_dir)) (loader_new [] no_tables))"

lemma sample_loader_files: "length (files sample_loader) = 1"
  by code_simp

theorem loaded_rules_told_witness:
  "\<exists>before report. print_rule_load_info sample_load_texts sample_run sample_loader 0 =
     Some (before @ load_lines sample_run (type_rule_lines sample_load_texts (rulecounter sample_loader)) @
       load_line sample_run (''Total detection rules: '', ''1'') @ [blank] @ report)"
proof -
  have "ss_output_option sample_run = Some (computer_metrics_output_options sample_metrics)"
    by (simp add: sample_run_def static_data_def Let_def extract_output_options_def)
  moreover have "output_option sample_output_filters = Some (output_filters_of (computer_metrics_output_options sample_metrics))"
    by (simp add: sample_output_filters_def)
  moreover have "total_line sample_load_texts (length (files sample_loader)) = (''Total detection rules: '', ''1'')"
    unfolding sample_loader_files by (simp add: total_line_def sample_load_texts_def) code_simp
  ultimately show ?thesis
    using loaded_rules_told [OF _ _ sample_loader_def, of sample_run _ sample_load_texts 0] by metis
qed

end
