(* ===== verification/Timer.thy ===== *)
theory Timer
  imports Summary
begin

section \<open>The time a run takes (debug/checkpoint\_process\_timer.rs)\<close>

text \<open>
  The timer of the parts of a run: a point is set, a lap is taken under a name, the laps are added up for
  the elapsed time. The clock is an argument, in nanoseconds; the seconds and milliseconds of a
  duration are cut towards zero.
\<close>

record checkpoint_time_store =
  ct_output_str :: string
  ct_sec :: int
  ct_msec :: int

record checkpoint_timer =
  prev_checkpoint :: "int option"
  stocked_results :: "checkpoint_time_store list"

definition cut :: "int \<Rightarrow> int \<Rightarrow> int" where
  "cut d n = sgn d * (\<bar>d\<bar> div n)"

definition num_seconds :: "int \<Rightarrow> int" where "num_seconds d = cut d (10 ^ 9)"

definition num_milliseconds :: "int \<Rightarrow> int" where "num_milliseconds d = cut d (10 ^ 6)"

definition create_checkpoint_timer :: checkpoint_timer where
  "create_checkpoint_timer = \<lparr>prev_checkpoint = None, stocked_results = []\<rparr>"

definition set_checkpoint :: "int \<Rightarrow> checkpoint_timer \<Rightarrow> checkpoint_timer" where
  "set_checkpoint time t = t\<lparr>prev_checkpoint := Some time\<rparr>"

text \<open>A lap under the name of the last one is added to it.\<close>

definition add_lap :: "string \<Rightarrow> int \<Rightarrow> int \<Rightarrow> checkpoint_time_store list \<Rightarrow> checkpoint_time_store list" where
  "add_lap output_str s ms rs =
     (if rs \<noteq> [] \<and> ct_output_str (last rs) = output_str
      then butlast rs @ [(last rs)\<lparr>ct_sec := ct_sec (last rs) + s, ct_msec := ct_msec (last rs) + ms\<rparr>]
      else rs @ [\<lparr>ct_output_str = output_str, ct_sec = s, ct_msec = ms\<rparr>])"

definition rap_checkpoint :: "int \<Rightarrow> string \<Rightarrow> checkpoint_timer \<Rightarrow> checkpoint_timer" where
  "rap_checkpoint now output_str t =
     (case prev_checkpoint t of
        None \<Rightarrow> t
      | Some prev \<Rightarrow>
          (let duration = now - prev; s = num_seconds duration; ms = num_milliseconds duration - 1000 * s in
           t\<lparr>stocked_results := add_lap output_str s ms (stocked_results t), prev_checkpoint := None\<rparr>))"

definition output_stocked_result :: "checkpoint_timer \<Rightarrow> string list" where
  "output_stocked_result t =
     map (\<lambda>r. ct_output_str r @ '': '' @ output_duration (ct_sec r, ct_msec r)) (stocked_results t)"

definition stocked_total :: "checkpoint_time_store list \<Rightarrow> int \<times> int" where
  "stocked_total rs = (sum_list (map ct_sec rs), sum_list (map ct_msec rs))"

definition calculate_all_stocked_results :: "int \<Rightarrow> checkpoint_timer \<Rightarrow> string" where
  "calculate_all_stocked_results now t =
     (case stocked_total (stocked_results t) of
        (s, ms) \<Rightarrow>
          (case prev_checkpoint t of
             None \<Rightarrow> output_duration (s, ms)
           | Some prev \<Rightarrow>
               (let duration = now - prev in
                output_duration (s + num_seconds duration, ms + (num_milliseconds duration - 1000 * num_seconds duration)))))"

subsection \<open>Every lap is counted once\<close>

definition stocked_msecs :: "checkpoint_timer \<Rightarrow> int" where
  "stocked_msecs t = (case stocked_total (stocked_results t) of (s, ms) \<Rightarrow> 1000 * s + ms)"

fun run_laps :: "(int \<times> int \<times> string) list \<Rightarrow> checkpoint_timer \<Rightarrow> checkpoint_timer" where
  "run_laps [] t = t"
| "run_laps ((a, b, name) # laps) t = run_laps laps (rap_checkpoint b name (set_checkpoint a t))"

lemma add_lap_total:
  "stocked_total (add_lap name s ms rs) = (fst (stocked_total rs) + s, snd (stocked_total rs) + ms)"
proof (cases "rs \<noteq> [] \<and> ct_output_str (last rs) = name")
  case True
  then obtain qs r where "rs = qs @ [r]" by (metis rev_exhaust)
  with True show ?thesis by (simp add: add_lap_def stocked_total_def)
qed (auto simp: add_lap_def stocked_total_def)

lemma rap_checkpoint_msecs:
  "stocked_msecs (rap_checkpoint b name (set_checkpoint a t)) = stocked_msecs t + num_milliseconds (b - a)"
  by (simp add: stocked_msecs_def rap_checkpoint_def set_checkpoint_def Let_def add_lap_total case_prod_beta)

lemma add_lap_names:
  "map ct_output_str (add_lap name s ms rs) =
     (if rs \<noteq> [] \<and> ct_output_str (last rs) = name then map ct_output_str rs else map ct_output_str rs @ [name])"
proof (cases "rs \<noteq> [] \<and> ct_output_str (last rs) = name")
  case True
  then obtain qs r where "rs = qs @ [r]" by (metis rev_exhaust)
  with True show ?thesis by (simp add: add_lap_def)
qed (auto simp: add_lap_def)

text \<open>
  Whatever laps are taken, the milliseconds of the results are those of the laps together, and no two
  neighbouring results have the same name.
\<close>

lemma laps_counted: "stocked_msecs (run_laps laps t) = stocked_msecs t + sum_list (map (\<lambda>(a, b, name). num_milliseconds (b - a)) laps)"
  by (induction laps t rule: run_laps.induct) (simp_all add: rap_checkpoint_msecs)

lemma laps_named_apart:
  "distinct_adj (map ct_output_str (stocked_results t)) \<Longrightarrow> distinct_adj (map ct_output_str (stocked_results (run_laps laps t)))"
proof (induction laps t rule: run_laps.induct)
  case (2 a b name laps t)
  let ?rs = "stocked_results t"
  have "distinct_adj (map ct_output_str (add_lap name s ms ?rs))" for s ms
    using "2.prems" by (auto simp: add_lap_names distinct_adj_append_iff last_map)
  with "2.IH" show ?case by (simp add: rap_checkpoint_def set_checkpoint_def Let_def)
qed simp

text \<open>The milliseconds are added without a carry: two laps of 600 milliseconds are shown as 1200 milliseconds.\<close>

lemma milliseconds_not_carried:
  "calculate_all_stocked_results 0
     (run_laps [(0, 600000000, ''Rule Parse''), (0, 600000000, ''Analysis'')] create_checkpoint_timer) = ''00:00:00.1200''"
proof -
  have n: "num_milliseconds 600000000 = 600" "num_seconds 600000000 = 0"
    by (simp_all add: num_milliseconds_def num_seconds_def cut_def)
  have "output_duration (0, 1200) = ''00:00:00.1200''" by code_simp
  then show ?thesis
    by (simp add: calculate_all_stocked_results_def create_checkpoint_timer_def rap_checkpoint_def set_checkpoint_def
        add_lap_def stocked_total_def Let_def n)
qed

end
