(* ===== verification/Program.thy ===== *)
theory Program
  imports Run Load_Report Timer
begin

section \<open>The whole program (main.rs, message.rs, htmlreport.rs)\<close>

text \<open>
  \<open>main\<close> and the two files that are written at its end, which \<open>Command\<close> has as single effects: the
  log of the errors and the report. The frame of the report is a template of a crate, the texts inside
  it are those of \<open>Html_Report\<close>.
\<close>

subsection \<open>Live analysis\<close>

text \<open>Off Windows there is only the message; \<open>windir\<close> is the environment variable, unwrapped where it is used.\<close>

definition collect_liveanalysis_files ::
  "bool \<Rightarrow> bool \<Rightarrow> string option \<Rightarrow> (string \<Rightarrow> string list) \<Rightarrow> (effect list \<times> string list option) option" where
  "collect_liveanalysis_files windows elevated windir collect =
     (let refused = ([Alert ''-l, --live-analysis needs to be run as Administrator on Windows.'', blank], None) in
      if \<not> windows \<or> \<not> elevated then Some refused
      else
        map_option (\<lambda>log_dir.
          case collect (join ''/'' [log_dir, ''System32'' @ [bsl] @ ''winevt'' @ [bsl] @ ''Logs'']) of
            [] \<Rightarrow> ([Alert ''No .evtx files were found.''], None)
          | evtx_files \<Rightarrow> ([], Some evtx_files)) windir)"

subsection \<open>The log of the errors\<close>

definition error_log_path :: "string \<Rightarrow> string" where
  "error_log_path now = ''./logs/errorlog-'' @ now @ ''.log''"

definition error_log_text :: "string \<Rightarrow> string list \<Rightarrow> string" where
  "error_log_text command_line error_logs = ''user input: '' @ command_line @ CHR 0x0A # unlines error_logs"

definition create_error_log :: "command_env \<Rightarrow> stored_static \<Rightarrow> string \<Rightarrow> string list \<Rightarrow> step" where
  "create_error_log X ss now error_logs =
     (let file_path = error_log_path now in
      if ss_quiet_errors_flag ss then Go []
      else
        step_after (if dk_exists (ce_disk X) ''./logs'' then [] else [Make_Dir ''./logs''])
          (if ce_create_error X file_path \<noteq> None then Fail []
           else Go [Write_File file_path (error_log_text (ce_command_line X) error_logs), blank,
                  printed_line (colored ss (255, 0, 0)) (''Errors were generated. Please check '' @ file_path @ '' for details.''),
                  Printed (write_color_buffer None [] False)]))"

subsection \<open>The report\<close>

text \<open>\<open>parent\<close> of a path, which a path without components does not have.\<close>

definition parent_of :: "string \<Rightarrow> string option" where
  "parent_of path = (if path_components path \<in> {[], [''/'']} then None else Some (path_parent path))"

record report_frame =
  rf_css :: string
  rf_logo :: string
  rf_favicon :: string
  rf_html :: "string \<Rightarrow> string \<Rightarrow> string \<Rightarrow> string \<Rightarrow> string"

definition create_html_file :: "command_env \<Rightarrow> stored_static \<Rightarrow> report_frame \<Rightarrow> string \<Rightarrow> string \<Rightarrow> step" where
  "create_html_file X ss R input_html path =
     (case parent_of path of
        None \<Rightarrow> Fail []
      | Some dir \<Rightarrow>
          step_after (if dk_exists (ce_disk X) dir then [] else [Make_Dir dir])
            (if ce_create_error X path \<noteq> None then Fail []
             else Go [Write_File path (rf_html R (rf_css R) (rf_favicon R) (rf_logo R) input_html @ [CHR 0x0A]),
                    Printed (write_color_buffer (colored ss green) ''HTML report: '' False), printed_line None path]))"

text \<open>What the two effects of \<open>Command\<close> stand for.\<close>

fun perform ::
  "command_env \<Rightarrow> stored_static \<Rightarrow> report_frame \<Rightarrow> string \<Rightarrow> string list \<Rightarrow> string \<Rightarrow> effect \<Rightarrow> step" where
  "perform X ss R now error_logs input_html Error_Log = create_error_log X ss now error_logs"
| "perform X ss R now error_logs input_html (Report_File path) = create_html_file X ss R input_html path"
| "perform X ss R now error_logs input_html e = Go [e]"

fun perform_all ::
  "command_env \<Rightarrow> stored_static \<Rightarrow> report_frame \<Rightarrow> string \<Rightarrow> string list \<Rightarrow> string \<Rightarrow> effect list \<Rightarrow> step" where
  "perform_all X ss R now error_logs input_html [] = Go []"
| "perform_all X ss R now error_logs input_html (e # es) =
     and_then (perform X ss R now error_logs input_html e) (perform_all X ss R now error_logs input_html es)"

subsection \<open>main\<close>

definition main_program :: "command_env \<Rightarrow> action option \<Rightarrow> step" where
  "main_program X act =
     (case create_static_data (ce_static X) act of
        Err e \<Rightarrow> Stop [Alert e]
      | Panic \<Rightarrow> Fail []
      | Ok (ss, _) \<Rightarrow> exec X ss)"

subsection \<open>The files of a run\<close>

lemma produced_html_file:
  "set (produced_files a (step_effects (create_html_file X ss R html path))) \<subseteq> {path}"
  by (auto simp: create_html_file_def split: option.split)

lemma produced_error_log:
  "set (produced_files a (step_effects (create_error_log X ss now logs))) \<subseteq> {error_log_path now}"
  by (simp add: create_error_log_def Let_def)

lemma produced_perform:
  "set (produced_files a (step_effects (perform X ss R now logs html e))) \<subseteq>
     set (produced_files a [e]) \<union> {error_log_path now}"
  by (cases e) (use produced_html_file produced_error_log in force)+

text \<open>Carrying out the effects adds no other file than the log of the errors.\<close>

lemma produced_perform_all:
  "set (produced_files a (step_effects (perform_all X ss R now logs html es))) \<subseteq>
     set (produced_files a es) \<union> {error_log_path now}"
proof (induction es)
  case (Cons e es)
  have "produced_files a (e # es) = produced_files a [e] @ produced_files a es"
    using produced_append [of a "[e]" es] by simp
  moreover have "set (produced_files a (step_effects (perform X ss R now logs html e))) \<subseteq>
      set (produced_files a [e]) \<union> {error_log_path now}"
    by (rule produced_perform)
  ultimately show ?case using Cons.IH
    by (auto simp: step_effects_and_then split: step.splits)
qed simp

text \<open>
  C24: Without the option to overwrite, no file that exists is written. Whatever was asked for on the command
  line, a run of the program with a scan for results - time lines, counts, logons, searches, pivot keywords -
  produces only files that were not there before it: those of the results, the report and the lists of
  keywords; the one exception is the log of the errors, whose name is the time.
\<close>

theorem no_result_overwritten:
  assumes static: "create_static_data (ce_static X) (Some a) = Ok (ss, geo)"
    and "scan_action_of a \<notin> {None, Some ConfigCriticalSystems}"
    and "extract_output_options (Some a) = Some oa" and "\<not> oa_clobber oa"
    and produced: "p \<in> set (produced_files a (step_effects
        (perform_all X ss R now logs html (step_effects (main_program X (Some a))))))"
  shows "p = error_log_path now \<or> \<not> dk_exists (ce_disk X) p"
proof -
  have "main_program X (Some a) = exec X ss" by (simp add: main_program_def static)
  then have "p \<in> set (produced_files a (step_effects (exec X ss))) \<or> p = error_log_path now"
    using produced produced_perform_all [of a X ss R now logs html "step_effects (exec X ss)"] by auto
  then show ?thesis using exec_keeps_files [OF static assms(2-4)] by blast
qed

definition sample_frame :: report_frame where
  "sample_frame = \<lparr>rf_css = [], rf_logo = [], rf_favicon = [], rf_html = (\<lambda>_ _ _ s. s)\<rparr>"

theorem no_result_overwritten_witness: "\<not> dk_exists (ce_disk sample_command_env) ''out.csv''"
proof -
  have static: "create_static_data (ce_static sample_command_env) (Some (CmdComputerMetrics sample_metrics)) = Ok (sample_run, None)"
    using sample_run_created by (simp add: sample_command_env_def)
  have produced: "''out.csv'' \<in> set (produced_files (CmdComputerMetrics sample_metrics) (step_effects
      (perform_all sample_command_env sample_run sample_frame ''20250601_000000'' [] []
        (step_effects (main_program sample_command_env (Some (CmdComputerMetrics sample_metrics)))))))"
    unfolding main_program_def static by code_simp
  have "scan_action_of (CmdComputerMetrics sample_metrics) \<notin> {None, Some ConfigCriticalSystems}"
    by (simp add: scan_action_of_def)
  moreover have "extract_output_options (Some (CmdComputerMetrics sample_metrics)) = Some (computer_metrics_output_options sample_metrics)"
    by (simp add: extract_output_options_def)
  moreover have "\<not> oa_clobber (computer_metrics_output_options sample_metrics)"
    by (simp add: computer_metrics_output_options_def sample_metrics_def)
  ultimately show ?thesis
    using no_result_overwritten [OF static _ _ _ produced] by (auto simp: error_log_path_def)
qed

text \<open>Without a command there is only help: nothing is written, nothing is scanned.\<close>

lemma no_command_no_files: "produced_files a (step_effects (main_program X None)) = []"
proof -
  have "produced_files a (step_effects (exec X ss)) = []" if "ss_config_action ss = None" for ss
    using that
    by (simp add: exec_def exec_start_def exec_arguments_def Let_def greeting_def output_logo_def step_effects_and_then)
  then show ?thesis
    using create_static_data_flags [of "ce_static X" None]
    by (auto simp: main_program_def split: outcome.split)
qed

text \<open>Where the file of the report cannot be created, the program panics after the scan, before the log of the errors.\<close>

lemma report_not_created_panics:
  "ce_create_error X path \<noteq> None \<Longrightarrow> \<exists>es. create_html_file X ss R html path = Fail es"
  by (cases "parent_of path") (auto simp: create_html_file_def)

end
