(* ===== verification/Spec2Isabelle.thy ===== *)
theory Spec2Isabelle
  imports Levels Event_Utils Lookup Matchers Condition_Compile Count_Windows Samples Detection_Facts
    Rule_Filter_Facts Channel_Filter Json_Read Target_Time Log_Record_Facts Metrics Search Extract_Base64
    Keywords Scan_Facts Wizard Scan_End Html_Facts Program
begin

text \<open>
  Hayabusa (\<open>src/engine\<close>) searches Windows event logs with Sigma-like rules. This library models the
  engine's own logic in Rust, from the rule files to the detections that are written, and proves
  what makes it correct. Every definition is translated from the source it is mapped to.

  The program. A scan loads rule files, drops the rules and event files that cannot matter, reads
  the records of the event files in blocks, lets every rule select the records of a block in a task
  of its own, and afterwards evaluates the rules that count and the rules that correlate others. The
  detections are sorted, freed of duplicates, counted and written.

  The theories, in the order of the flow of data (files under \<open>src/engine/src\<close>):

  \<^item> \<open>Prelude\<close>, \<open>Rust_Str\<close>, \<open>Values\<close>: results and panics, byte strings and the functions of
    \<open>str\<close>, JSON and YAML values, counters, and the record \<open>env\<close> of everything outside the repository.
  \<^item> \<open>Levels\<close> (level.rs), \<open>Event_Utils\<close> (detections/utils.rs, configs.rs, field\_extract.rs,
    detection.rs): severity levels, key aliases, the look-up of fields in an event, the record that
    the rules are matched against.
  \<^item> \<open>Lookup\<close> (rule/lookup.rs), \<open>Pipe_Elements\<close> and \<open>Matchers\<close> (rule/matchers.rs), \<open>Fast_Match\<close>
    (rule/fast\_match.rs), \<open>Base64_Match\<close> (rule/base64\_match.rs): from the modifiers of a field and
    its pattern to a matcher and its answer for a value.
  \<^item> \<open>Selection_Nodes\<close> (rule/selectionnodes.rs), \<open>Condition_Parser\<close> (rule/condition\_parser.rs),
    with the reference language in \<open>Condition_Grammar\<close> and the correctness of the compiler in
    \<open>Condition_Compile\<close>: selections and the conditions over them.
  \<^item> \<open>Aggregation_Parser\<close> (rule/aggregation\_parser.rs), \<open>Count\<close> and \<open>Count_Windows\<close>
    (rule/count.rs): the part of a condition after the bar, the records collected by group, and the
    sliding windows over them. The two counting strategies meet the contract that the locales
    \<open>count_strategy\<close> and \<open>length_strategy\<close> state; the lemmas on windows are proved in the locales and
    reach the properties through their interpretations.
  \<^item> \<open>Rule_Types\<close>, \<open>Rule_Node\<close> (rule/mod.rs): the data of a rule, its initialisation from YAML, its
    verdict on a record and the field names it reads. \<open>Samples\<close> holds a rule for the witnesses.
  \<^item> \<open>Yaml_Expand\<close> (yaml\_expand.rs), \<open>Rule_Filter\<close> with \<open>Rule_Filter_Facts\<close> (yaml.rs, filter.rs,
    configs.rs): placeholders in rules, the walk over the rule directory and every filter and
    counter on the way; \<open>Channel_Filter\<close> (filter.rs, main.rs): which rules and event files a scan keeps.
  \<^item> \<open>Wizard\<close> (yaml.rs, main.rs): the counts of the rules that the scan wizard shows, and the filters it sets.
  \<^item> \<open>Correlation\<close> with \<open>Correlation_Facts\<close> (rule/correlation\_parser.rs): how rules that refer to others
    are merged or linked.
  \<^item> \<open>Detection_Run\<close> with \<open>Detection_Facts\<close> (detections/detection.rs): loading the rules, the tasks that
    match them against records, the evaluation of counting and of temporal rules.
  \<^item> \<open>Field_Data_Map\<close> (detections/field\_data\_map.rs), \<open>Message\<close> (detections/message.rs, utils.rs),
    \<open>Geo_IP\<close> (options/geoip\_search.rs), \<open>Log_Record\<close> with \<open>Log_Record_Facts\<close> (detection.rs,
    options/profile.rs): the text of a detection, the list of all fields of an event, locations of
    addresses behind their cache, and the columns of a report record. \<open>render\<close> turns what
    \<open>Detection_Run\<close> reports into the detections \<open>Afterfact\<close> sorts.
  \<^item> \<open>Metrics\<close> (timeline/metrics.rs, log\_metrics.rs, computer\_metrics.rs, timelines.rs): the counters of the
    metrics commands and the rows of their tables. \<open>Search\<close> (timeline/search.rs): the search command.
    \<open>Extract_Base64\<close> (timeline/extract\_base64.rs): Base64 strings in command lines and scripts.
  \<^item> \<open>Pivot\<close> (options/pivot.rs, configs.rs, main.rs): the pivot keywords, which the tasks of a scan collect in a shared
    map. \<open>Keywords\<close> (options/level\_tuning.rs, expand\_list.rs): level tuning and the list of placeholders.
  \<^item> \<open>Scan_Input\<close>, \<open>Scan\<close> with \<open>Scan_Facts\<close> (main.rs, utils.rs, timelines.rs): the files of a scan, the shape of
    JSON records, the filters on records, and the loop that hands blocks of records to the command and to the rules.
    The locales \<open>block_run\<close> and \<open>block_count\<close> hold what any loop over blocks keeps, for event files and JSON files.
  \<^item> \<open>Target_Time\<close> (configs.rs): the time range of a scan and the file extensions.
  \<^item> \<open>Afterfact\<close> with \<open>Afterfact_Facts\<close>, \<open>Json_Output\<close> with \<open>Json_Facts\<close> (afterfact.rs): order,
    duplicates and statistics of the detections, and their JSON text; \<open>Json_Read\<close> holds a reader of JSON and what
    it gets back. \<open>Csv_Output\<close>: the rows of the CSV file and of the terminal. \<open>Summary\<close> with \<open>Summary_Facts\<close>:
    everything that is written after the detections, and \<open>Html_Report\<close> (options/htmlreport.rs) with \<open>Html_Facts\<close>:
    the report it goes into. \<open>Scan_End\<close> (afterfact.rs, main.rs) ties these together: sorting, writing with the errors of the
    file, counting and the summary, in the order of the code.

  \<^item> \<open>Settings\<close> (configs.rs, utils.rs, options/profile.rs): the bundle of configuration files, where a file is
    looked for, the small configuration files, the default profile. \<open>Options\<close> (configs.rs): the options of every
    command and the static data of a run. \<open>Update\<close> (options/update.rs): fetching rules and telling what changed.
  \<^item> \<open>Timeline_Output\<close> (timelines.rs, computer\_metrics.rs, config\_critical\_systems.rs): tables and files of the
    commands that count. \<open>Command\<close> (main.rs): the program from its arguments to its end, one definition for each
    command, as steps that go on, stop or panic with their effects. \<open>Run\<close> (main.rs, afterfact.rs): what a scan does
    before and after the loop of \<open>Scan\<close>. \<open>Load_Report\<close> (detection.rs): what is told about the rules loaded.
    \<open>Timer\<close> (checkpoint\_process\_timer.rs): the elapsed time. \<open>Program\<close> (main.rs, message.rs, htmlreport.rs):
    \<open>main\<close>, the log of the errors and the file of the report.

  Conventions. A struct is a record with the fields of the source, an enum a datatype; a hash map is
  an association list (or a partial map where only look-ups matter), whose order is arbitrary but
  fixed, as the iteration of the source is; a \<open>str\<close> is its UTF-8 bytes. A panic is \<open>None\<close>, or \<open>Panic\<close> of the
  type \<open>outcome\<close> where the call also returns errors; \<open>Result\<close> is a sum with the error on the left. The
  error log, the tables of the look-ups and the counters are passed as state. Every function is
  total: loops are structural recursions or have a termination proof, so there is no fuel, and
  every theorem about a result is also one about its existence. Integers are unbounded where the
  source cannot overflow, bounds are tested where it tests them; unsigned subtractions that can go below zero are
  done on words, since both profiles of the build switch the overflow checks off.

  What is outside. The crates for regular expressions, CIDR blocks, base64, JSON text, time zones and
  YAML, the Unicode tables beyond ASCII, the file system, event files and the generator of identifiers
  are parameters: fields of \<open>env\<close>, \<open>rule_world\<close> and \<open>time_texts\<close>, or arguments. The theorems that rely on
  documented behaviour of one of them, such as the alphabet of base64, say so in their hypotheses.

  Concurrency. \<open>Detection::execute_rules\<close> spawns a task per rule. A task owns its rule and reads the
  shared records; the error log and the map of the pivot keywords are shared and changed by all. \<open>run_step\<close> lets
  any task take its next record, and the properties hold for every interleaving. The text of a
  report is made in the task too, with a shared cache of locations and a shared table of tactics: these are
  in \<open>Log_Record\<close> and \<open>Scan\<close>, in the order of the rules, and not in the model of the tasks.

  The lemmas. On the matching side: the condition compiler means what the expression says, the fast
  comparison agrees with the wildcard pattern, a loaded rule never panics and its verdict depends only
  on the fields it names. On the counting side: reported windows satisfy the condition, and no window
  that does is missed within a time frame. Around them: merged and temporal correlation, the
  independence of the tasks' schedule, exactly the right rules loaded and each document counted
  once, columns of a report that are those of its profile, templates filled in, a cache of locations that
  never shows, duplicates removed without loss, summary counters that agree however the end of a scan goes, a JSON object that
  a reader reads back to its columns, a wizard that shows
  the numbers of the rules and is obeyed by the loader, a summary that is written without a panic and shows each level's own
  numbers, a report into which names bring no HTML (those of Markdown they can bring). Around a run: no result is overwritten unasked, a default profile
  that was set is used, an update tells exactly what changed,
  the total of the rules that is told is the number of rules loaded, two commands read exactly the files of their channels.
  Every schedule of the tasks ends, with the reports of exactly the records that match, or with exactly the pivot keywords of
  their events. The blocks of a scan do not show in the rules; the lines of a JSON file on which the scan stops are characterised.
  For the other commands: each counter of events exact, whatever was counted before, a search that finds exactly what it is
  asked for, and Base64 text that reaches the rows of the extraction.
  Where the code departs from what it documents, a theorem shows the departure at a concrete or
  general input; these have a text that says so.

  Not modelled. The parsing of the command line (clap), progress bars, the drawing of tables, the quoting of CSV
  cells and the frame of the HTML file: presentation by crates. What git, the network, the reader of the GeoIP databases
  and the file system do: they answer as parameters. The progress of a scan and the guard for the file system of Windows. Python scripts around the engine (\<open>src/gui\<close>) and the rule files themselves are data and glue.
\<close>

section \<open>Properties that span components\<close>

subsection \<open>Rules\<close>

text \<open>
  C11: Selecting an event with a rule that loaded never panics: whatever the YAML of the
  detection was, if its initialisation succeeded then the condition and all the matchers below
  it give an answer on every event record, under every configuration.
\<close>

theorem loaded_rule_never_panics:
  assumes "detection_init E y quiet log = (Ok d, log')"
  shows "detection_select E' c d rec \<noteq> None"
  by (rule detection_select_total [OF assms])

theorem loaded_rule_never_panics_witness:
  "detection_select env0 new_alias_config sample_detection_node blank_record \<noteq> None"
  by (rule loaded_rule_never_panics [OF sample_init [of True "[]"]])

text \<open>
  C1: A loaded rule means what its condition says. If the condition of a detection is the text
  of a Boolean expression over selections it defines (followed by any aggregation part), the
  rule selects an event exactly when the expression is true, each name standing for whether
  the selection of that name selects the event.
\<close>

theorem rule_condition_meaning:
  assumes "detection_init E y quiet log = (Ok d, log')"
    and "as_str (yindex y ''condition'') = Some (cond_text (cexp_tokens e) @ replicate k (CHR '' '') @ p)"
    and "cexp_wf e" and "list_all cond_name (cexp_names e)" and "pipe_part p"
    and "set (cexp_names e) \<subseteq> dom (map_of (name_to_selection d))"
  shows "detection_select E c d rec =
    Some (cexp_eval (\<lambda>n. node_select E c rec (the (map_of (name_to_selection d) n)) = Some True) e)"
proof -
  let ?names = "name_to_selection d"
  let ?s = "\<lambda>n. node_select E c rec (the (map_of ?names n)) = Some True"
  obtain names s node info tf where
    s: "condition_text y names = Some s" "compile_condition E s names = Inr node"
      "d = detection_new_with_data names (Some node) info tf"
    using detection_init_cases [OF assms(1)] by metis
  have ready: "names_ready ?names" using detection_init_ready [OF assms(1)] by blast
  have sel: "\<forall>n \<in> set (cexp_names e). \<exists>m. map_of ?names n = Some m \<and> node_select E c rec m = Some (?s n)"
  proof
    fix n assume "n \<in> set (cexp_names e)"
    then obtain m where m: "map_of ?names n = Some m" using assms(6) by blast
    then have "node_ready m" using ready by (auto simp: names_ready_def dest!: map_of_SomeD)
    from node_ready_select [OF this, of E c rec] m
    show "\<exists>m. map_of ?names n = Some m \<and> node_select E c rec m = Some (?s n)" by auto
  qed
  have "s = cond_text (cexp_tokens e) @ replicate k (CHR '' '') @ p"
    using s(1) assms(2) by (simp add: condition_text_def)
  with compile_condition_select [OF assms(3-5) sel, of k] s(2,3)
  show ?thesis by (auto simp: detection_new_with_data_def detection_select_def)
qed

theorem rule_condition_meaning_witness:
  "detection_select env0 new_alias_config sample_detection_node blank_record =
    Some (cexp_eval (\<lambda>n. node_select env0 new_alias_config blank_record
      (the (map_of (name_to_selection sample_detection_node) n)) = Some True) (Name ''selection''))"
proof (rule rule_condition_meaning [OF sample_init [of True "[]"], where k = 0 and p = "[]"])
  show "as_str (yindex sample_detection ''condition'') =
      Some (cond_text (cexp_tokens (Name ''selection'')) @ replicate 0 (CHR '' '') @ [])"
    by (simp add: sample_detection_def yindex_def hash_get_def)
  show "list_all cond_name (cexp_names (Name ''selection''))" by code_simp
  show "set (cexp_names (Name ''selection'')) \<subseteq> dom (map_of (name_to_selection sample_detection_node))"
    by (simp add: sample_detection_node_def detection_new_with_data_def sample_selections_def)
qed (simp_all add: pipe_part_def)

text \<open>
  C13: A record holds what the rules read from it. For a record built with the keys collected
  from a loaded rule, every field that a leaf of its selections reads by key, or compares with
  through \<open>fieldref\<close> and its relatives, has in the record the value that the alias look-up
  finds in the event, and none when there is none. (PowerShell field extraction is off.)
\<close>

theorem record_serves_rule:
  assumes "detection_init E y quiet log = (Ok (detection rule), log')"
    and "e \<in> set (name_to_selection (detection rule))" and "l \<in> set (node_leaves (snd e))"
    and "k \<in> set (leaf_get_keys l)" and "k \<noteq> []"
  shows "get_value (create_rec_info E c data path (get_detection_keys rule) recovered True) k =
    field_string c data k"
proof -
  note key = detection_keys_complete [OF assms]
  obtain m ev ch where m: "collect_keys c data True (get_detection_keys rule) (Map.empty, None, None) = (m, ev, ch)"
    by (cases "collect_keys c data True (get_detection_keys rule) (Map.empty, None, None)")
  from collect_keys_map [of c data True "get_detection_keys rule" Map.empty None None] m key
  have "m k = field_string c data k" by auto
  then show ?thesis by (simp add: create_rec_info_def m get_value_def)
qed

theorem record_serves_rule_witness:
  "get_value (create_rec_info env0 new_alias_config (JObject []) ''a.evtx''
      (get_detection_keys \<lparr>rulepath = [], rule_yaml = YNull, detection = sample_detection_node, countdata = [],
         correlation = NoCorrelation\<rparr>) False True) ''Image'' =
    field_string new_alias_config (JObject []) ''Image''"
proof (rule record_serves_rule [where e = "(''selection'', AndNode [LeafNode sample_leaf])" and l = sample_leaf])
  let ?r = "\<lparr>rulepath = [], rule_yaml = YNull, detection = sample_detection_node, countdata = [],
         correlation = NoCorrelation\<rparr>"
  show "detection_init env0 sample_detection True [] = (Ok (detection ?r), [])"
    by (simp add: sample_init)
qed (simp_all add: sample_detection_node_def detection_new_with_data_def sample_selections_def
    sample_leaf_def leaf_get_keys_def)

text \<open>
  C14: The verdict of a rule does not depend on the other rules. The record is built once for all
  rules with the union of their keys; whatever keys the others add, a loaded rule selects the
  record exactly if it selects the one built with its own keys, as long as no added key is a
  whole entry of one of its key paths. (PowerShell field extraction is off.)
\<close>

theorem verdict_independent:
  assumes init: "detection_init E y quiet log = (Ok (detection rule), log')"
    and sub: "set (get_detection_keys rule) \<subseteq> set keys" and own: "own_keys_only rule keys"
  shows "detection_select E' c (detection rule) (create_rec_info E' c data path keys recovered True) =
    detection_select E' c (detection rule) (create_rec_info E' c data path (get_detection_keys rule) recovered True)"
    (is "detection_select _ _ _ ?rec = detection_select _ _ _ ?rec'")
proof (cases "cond_node (detection rule)")
  case (Some n)
  have "leaf_select E' c ?rec l = leaf_select E' c ?rec' l" if l: "l \<in> set (node_leaves n)" for l
  proof -
    obtain e where e: "e \<in> set (name_to_selection (detection rule))" "l \<in> set (node_leaves (snd e))"
      using detection_init_leaves(2) [OF init Some l] by blast
    have "get_value ?rec k = get_value ?rec' k"
      if "k \<in> insert (leaf_key l) (set (leaf_get_keys l) \<union> set (leaf_key_list l))" for k
    proof (cases "k \<in> set (leaf_key_list l)")
      case True
      with own e sub show ?thesis by (auto simp: get_value_create_rec_info own_keys_only_def)
    next
      case False
      with that have "k = [] \<or> k \<in> set (leaf_get_keys l)" by (auto simp: leaf_get_keys_def)
      with detection_keys_complete [OF init e, of k] sub show ?thesis
        by (cases "k = []") (auto simp: get_value_create_rec_info field_string_Nil)
    qed
    then have "same_event ?rec ?rec' l" by (simp add: same_event_def create_rec_info_data)
    moreover have "leaf_keyed l" using detection_init_leaves(1) [OF init] e by blast
    ultimately show ?thesis by (rule leaf_select_same [rotated])
  qed
  then have "node_select E' c ?rec n = node_select E' c ?rec' n" by (rule node_select_same)
  then show ?thesis by (simp only: detection_select_def Some option.case)
qed (simp add: detection_select_def)

theorem verdict_independent_witness:
  "detection_select env0 new_alias_config sample_detection_node
     (create_rec_info env0 new_alias_config (JObject []) ''a.evtx'' [''Image'', ''User''] False True) =
   detection_select env0 new_alias_config sample_detection_node
     (create_rec_info env0 new_alias_config (JObject []) ''a.evtx'' [''Image''] False True)"
proof -
  let ?r = "\<lparr>rulepath = [], rule_yaml = YNull, detection = sample_detection_node, countdata = [],
         correlation = NoCorrelation\<rparr>"
  have keys: "get_detection_keys ?r = [''Image'']" by code_simp
  have "own_keys_only ?r [''Image'', ''User'']"
    by (simp add: own_keys_only_def keys sample_detection_node_def detection_new_with_data_def
        sample_selections_def sample_leaf_def)
  moreover have "detection_init env0 sample_detection True [] = (Ok (detection ?r), [])"
    by (simp add: sample_init)
  moreover have "set (get_detection_keys ?r) \<subseteq> set [''Image'', ''User'']" by (simp add: keys)
  ultimately have "detection_select env0 new_alias_config (detection ?r)
      (create_rec_info env0 new_alias_config (JObject []) ''a.evtx'' [''Image'', ''User''] False True) =
    detection_select env0 new_alias_config (detection ?r)
      (create_rec_info env0 new_alias_config (JObject []) ''a.evtx'' (get_detection_keys ?r) False True)"
    by (rule verdict_independent [rotated 2])
  then show ?thesis by (simp only: keys rule_node.select_convs)
qed

end
